(* ===== verification/Prelude.thy ===== *)
theory Prelude
  imports Complex_Main "HOL-Library.List_Lexorder" "HOL-Library.Char_ord"
    "HOL-Library.Option_ord" "HOL-Library.Sublist"
begin

text \<open>
  What the component theories share: the JavaScript values the sources read (numbers, strings,
  timestamps), the few operations of the SQL tables, the generic machines whose invariants the
  components instantiate, and the collections of facts the proofs use.

  Strings are char lists: one \<open>char\<close> per UTF-16 code unit below 256, so identifiers and enum
  values are exact and code units above 255 are outside the model. The order of strings is the
  lexicographic order of the code units, which is what \<open><\<close> computes on JavaScript strings.
\<close>

section \<open>Collections of facts\<close>

named_theorems js_simps \<open>evaluation of the JavaScript value helpers\<close>
named_theorems table_simps \<open>reading and updating the rows of a table\<close>
named_theorems preserves \<open>operations keep an invariant\<close>
named_theorems frame \<open>fields an operation leaves alone\<close>

section \<open>JavaScript numbers\<close>

text \<open>
  A number is a finite value, an infinity or NaN. Finite values are exact rationals: rounding of
  doubles is not modelled, the sources compare and add integers far below the safe bound.
\<close>

datatype jsnum = Num rat | PosInf | NegInf | NotANumber

definition max_safe_integer :: int where
  "max_safe_integer = 9007199254740991"

fun num_is_finite :: "jsnum \<Rightarrow> bool" where
  "num_is_finite (Num _) = True"
| "num_is_finite _ = False"

fun num_is_integer :: "jsnum \<Rightarrow> bool" where
  "num_is_integer (Num q) = (of_int \<lfloor>q\<rfloor> = q)"
| "num_is_integer _ = False"

definition num_is_safe_integer :: "jsnum \<Rightarrow> bool" where
  "num_is_safe_integer n \<longleftrightarrow> num_is_integer n \<and>
     (case n of Num q \<Rightarrow> \<bar>q\<bar> \<le> of_int max_safe_integer | _ \<Rightarrow> False)"

text \<open>The integer a number that passed \<open>Number.isInteger\<close> stands for.\<close>

fun num_int :: "jsnum \<Rightarrow> int" where
  "num_int (Num q) = \<lfloor>q\<rfloor>"
| "num_int _ = 0"

abbreviation int_num :: "int \<Rightarrow> jsnum" where
  "int_num i \<equiv> Num (of_int i)"

lemma num_is_integer_int [simp]: "num_is_integer (int_num i)"
  by simp

lemma num_int_int [simp]: "num_int (int_num i) = i"
  by simp

lemma num_is_integer_exists: "num_is_integer n \<Longrightarrow> n = int_num (num_int n)"
  by (cases n) auto

lemma num_is_safe_integer_int [simp]:
  "num_is_safe_integer (int_num i) \<longleftrightarrow> \<bar>i\<bar> \<le> max_safe_integer"
proof -
  have "\<bar>of_int i :: rat\<bar> \<le> of_int max_safe_integer \<longleftrightarrow> \<bar>i\<bar> \<le> max_safe_integer"
    by (metis of_int_abs of_int_le_iff)
  then show ?thesis by (simp add: num_is_safe_integer_def)
qed

section \<open>JavaScript strings\<close>

text \<open>The white space \<open>trim\<close> strips, among the code units below 256.\<close>

definition js_space :: "char \<Rightarrow> bool" where
  "js_space c \<longleftrightarrow> of_char c \<in> {9, 10, 11, 12, 13, 32, 160 :: nat}"

definition js_trim :: "string \<Rightarrow> string" where
  "js_trim s = rev (dropWhile js_space (rev (dropWhile js_space s)))"

text \<open>\<open>toLowerCase\<close>: ASCII letters, and the Latin-1 capitals except the multiplication sign.\<close>

definition js_lower_char :: "char \<Rightarrow> char" where
  "js_lower_char c =
     (let n = of_char c :: nat
      in if (65 \<le> n \<and> n \<le> 90) \<or> (192 \<le> n \<and> n \<le> 222 \<and> n \<noteq> 215) then char_of (n + 32) else c)"

definition js_lower :: "string \<Rightarrow> string" where
  "js_lower s = map js_lower_char s"

abbreviation NUL :: char where
  "NUL \<equiv> CHR 0x00"

lemma js_trim_Nil [simp, js_simps]: "js_trim [] = []"
  by (simp add: js_trim_def)

lemma js_trim_hd: "js_trim s \<noteq> [] \<Longrightarrow> \<not> js_space (hd (js_trim s))"
proof -
  assume ne: "js_trim s \<noteq> []"
  let ?t = "dropWhile js_space s"
  have "?t \<noteq> []" using ne by (auto simp: js_trim_def simp del: dropWhile_eq_Nil_conv)
  then have hd: "\<not> js_space (hd ?t)" by (rule hd_dropWhile)
  have "prefix (js_trim s) ?t"
    unfolding js_trim_def suffix_to_prefix [symmetric]
    by (metis rev_rev_ident suffix_dropWhile suffix_to_prefix)
  with ne have "hd (js_trim s) = hd ?t"
    by (auto simp: prefix_def)
  with hd show ?thesis by simp
qed

lemma js_trim_idem [simp, js_simps]: "js_trim (js_trim s) = js_trim s"
proof -
  have idem: "dropWhile js_space (dropWhile js_space t) = dropWhile js_space t" for t
    by (induction t) auto
  have front: "dropWhile js_space (js_trim s) = js_trim s"
    using js_trim_hd [of s] by (cases "js_trim s") auto
  have rear: "dropWhile js_space (rev (js_trim s)) = rev (js_trim s)"
    by (simp add: js_trim_def idem)
  show ?thesis using front rear by (subst js_trim_def) simp
qed

lemma js_lower_char_idem [simp]: "js_lower_char (js_lower_char c) = js_lower_char c"
proof (cases "(65 \<le> (of_char c :: nat) \<and> (of_char c :: nat) \<le> 90) \<or>
    (192 \<le> (of_char c :: nat) \<and> (of_char c :: nat) \<le> 222 \<and> (of_char c :: nat) \<noteq> 215)")
  case True
  then have "js_lower_char c = char_of ((of_char c :: nat) + 32)"
    by (simp add: js_lower_char_def Let_def)
  moreover have "(of_char (char_of ((of_char c :: nat) + 32)) :: nat) = of_char c + 32"
    using True by auto
  ultimately show ?thesis using True by (auto simp: js_lower_char_def Let_def)
next
  case False
  then have "js_lower_char c = c" by (auto simp: js_lower_char_def Let_def)
  then show ?thesis by simp
qed

lemma js_lower_idem [simp, js_simps]: "js_lower (js_lower s) = js_lower s"
  by (simp add: js_lower_def)

lemma length_js_lower [simp, js_simps]: "length (js_lower s) = length s"
  by (simp add: js_lower_def)

section \<open>Decimal numbers\<close>

text \<open>\<open>String(n)\<close> of a natural number.\<close>

fun decimal :: "nat \<Rightarrow> string" where
  "decimal n = (if n < 10 then [char_of (48 + n)] else decimal (n div 10) @ [char_of (48 + n mod 10)])"

declare decimal.simps [simp del]

lemma decimal_append_digit:
  "decimal n = (if n < 10 then [] else decimal (n div 10)) @ [char_of (48 + n mod 10)]"
  by (subst decimal.simps) simp

lemma decimal_nonempty: "decimal n \<noteq> []"
  by (subst decimal_append_digit) simp

lemma digit_inj:
  assumes "(char_of (48 + a mod 10) :: char) = char_of (48 + b mod 10)"
  shows "a mod 10 = (b :: nat) mod 10"
proof -
  have "of_char (char_of (48 + a mod 10) :: char) = (of_char (char_of (48 + b mod 10) :: char) :: nat)"
    using assms by simp
  then show ?thesis by (simp add: of_char_of)
qed

lemma decimal_inj: "decimal a = decimal b \<Longrightarrow> a = b"
proof (induction a arbitrary: b rule: less_induct)
  case (less a)
  let ?p = "\<lambda>n. if n < 10 then [] else decimal (n div 10)"
  have "?p a @ [char_of (48 + a mod 10)] = ?p b @ [char_of (48 + b mod 10)]"
    using less.prems decimal_append_digit [of a] decimal_append_digit [of b] by metis
  then have p: "?p a = ?p b" and d: "a mod 10 = b mod 10" using digit_inj by auto
  have "a div 10 = b div 10"
  proof (cases "a < 10")
    case True
    then have "b < 10" using p decimal_nonempty [of "b div 10"] by (metis (full_types))
    then show ?thesis using True by simp
  next
    case False
    then have "\<not> b < 10" using p decimal_nonempty [of "a div 10"] by (metis (full_types))
    then show ?thesis using p False less.IH [of "a div 10" "b div 10"] by simp
  qed
  then show ?case using d by (metis mult_div_mod_eq)
qed

section \<open>Timestamps\<close>

text \<open>
  A timestamp field is a string the sources only pass on, parse with \<open>Date.parse\<close> and print with
  \<open>toISOString\<close>. The model keeps what \<open>Date.parse\<close> makes of it: the instant in milliseconds, or
  the text itself when the result is NaN. Two spellings of one instant are not told apart.
\<close>

datatype iso = Instant int | Unparsable string

fun date_parse :: "iso \<Rightarrow> int option" where
  "date_parse (Instant ms) = Some ms"
| "date_parse (Unparsable _) = None"

text \<open>\<open>new Date(ms).toISOString()\<close> throws a RangeError outside the time values of ECMAScript.\<close>

definition max_time_value :: int where
  "max_time_value = 8640000000000000"

definition to_iso :: "int \<Rightarrow> iso option" where
  "to_iso ms = (if \<bar>ms\<bar> \<le> max_time_value then Some (Instant ms) else None)"

lemma to_iso_parse: "to_iso ms = Some t \<Longrightarrow> date_parse t = Some ms"
  by (auto simp: to_iso_def split: if_splits)

lemma date_parse_Some_iff: "date_parse t = Some ms \<longleftrightarrow> t = Instant ms"
  by (cases t) auto

section \<open>Values of unknown type\<close>

text \<open>The values a type guard (\<open>value is T\<close>) has to tell apart.\<close>

datatype jsval = JUndefined | JNull | JBool bool | JNum jsnum | JStr string | JArray | JObject

definition is_string_in :: "jsval \<Rightarrow> string list \<Rightarrow> bool" where
  "is_string_in v names = (case v of JStr s \<Rightarrow> s \<in> set names | _ \<Rightarrow> False)"

lemma is_string_in_iff: "is_string_in v names \<longleftrightarrow> (\<exists>s \<in> set names. v = JStr s)"
  by (auto simp: is_string_in_def split: jsval.splits)

section \<open>Tables\<close>

text \<open>
  A SQL table is the list of its rows. \<open>SELECT .. WHERE\<close> with \<open>get\<close> is the first row that
  matches, \<open>UPDATE .. WHERE\<close> maps the matching rows and reports how many there were.
\<close>

definition row_get :: "('r \<Rightarrow> bool) \<Rightarrow> 'r list \<Rightarrow> 'r option" where
  "row_get P rs = find P rs"

definition row_update :: "('r \<Rightarrow> bool) \<Rightarrow> ('r \<Rightarrow> 'r) \<Rightarrow> 'r list \<Rightarrow> 'r list" where
  "row_update P f rs = map (\<lambda>r. if P r then f r else r) rs"

definition row_changes :: "('r \<Rightarrow> bool) \<Rightarrow> 'r list \<Rightarrow> nat" where
  "row_changes P rs = length (filter P rs)"

lemma row_get_Nil [simp, table_simps]: "row_get P [] = None"
  by (simp add: row_get_def)

lemma row_get_Cons [simp, table_simps]:
  "row_get P (r # rs) = (if P r then Some r else row_get P rs)"
  by (simp add: row_get_def)

lemma row_get_SomeD: "row_get P rs = Some r \<Longrightarrow> r \<in> set rs \<and> P r"
  by (auto simp: row_get_def find_Some_iff)

lemma row_get_append: "row_get P (xs @ [x]) = (case row_get P xs of Some y \<Rightarrow> Some y
    | None \<Rightarrow> if P x then Some x else None)"
  by (induction xs) auto

lemma row_get_appendI: "row_get P xs = Some r \<Longrightarrow> row_get P (xs @ ys) = Some r"
  by (induction xs) auto

lemma row_get_None_iff: "row_get P rs = None \<longleftrightarrow> (\<forall>r \<in> set rs. \<not> P r)"
  by (auto simp: row_get_def find_None_iff)

lemma row_update_Nil [simp, table_simps]: "row_update P f [] = []"
  by (simp add: row_update_def)

lemma row_update_Cons [simp, table_simps]:
  "row_update P f (r # rs) = (if P r then f r else r) # row_update P f rs"
  by (simp add: row_update_def)

lemma length_row_update [simp, table_simps]: "length (row_update P f rs) = length rs"
  by (simp add: row_update_def)

lemma set_row_update:
  "set (row_update P f rs) = f ` {r \<in> set rs. P r} \<union> {r \<in> set rs. \<not> P r}"
  by (induction rs) auto

lemma in_set_row_updateE:
  assumes "r \<in> set (row_update P f rs)"
  obtains r0 where "r0 \<in> set rs" "P r0" "r = f r0" | "r \<in> set rs" "\<not> P r"
  using assms by (auto simp: set_row_update)

lemma map_row_update:
  "(\<And>r. r \<in> set rs \<Longrightarrow> P r \<Longrightarrow> k (f r) = k r) \<Longrightarrow> map k (row_update P f rs) = map k rs"
  by (induction rs) auto

lemma row_update_id: "(\<And>r. r \<in> set rs \<Longrightarrow> \<not> P r) \<Longrightarrow> row_update P f rs = rs"
  by (induction rs) auto

lemma row_changes_0_iff: "row_changes P rs = 0 \<longleftrightarrow> (\<forall>r \<in> set rs. \<not> P r)"
  by (auto simp: row_changes_def filter_empty_conv)

lemma row_update_unchanged: "row_changes P rs = 0 \<Longrightarrow> row_update P f rs = rs"
  by (rule row_update_id) (auto simp: row_changes_0_iff)

text \<open>A condition that names the primary key matches at most one row.\<close>

lemma distinct_key_unique:
  "distinct (map k rs) \<Longrightarrow> r \<in> set rs \<Longrightarrow> r' \<in> set rs \<Longrightarrow> k r = k r' \<Longrightarrow> r = r'"
  by (simp add: distinct_map inj_on_def)

lemma row_get_key:
  assumes "distinct (map k rs)" "r \<in> set rs"
  shows "row_get (\<lambda>x. k x = k r) rs = Some r"
  using assms by (induction rs) auto

lemma row_changes_key:
  assumes "distinct (map k rs)" "r \<in> set rs"
  shows "row_changes (\<lambda>x. k x = k r \<and> Q x) rs = (if Q r then 1 else 0)"
  using assms
proof (induction rs)
  case Nil
  then show ?case by simp
next
  case (Cons a rs)
  show ?case
  proof (cases "r = a")
    case True
    then have "k r \<notin> k ` set rs" using Cons.prems by simp
    then have "\<forall>x \<in> set rs. k x \<noteq> k r" by (metis image_eqI)
    then have "filter (\<lambda>x. k x = k r \<and> Q x) rs = []" by (auto simp: filter_empty_conv)
    with True show ?thesis by (simp add: row_changes_def)
  next
    case False
    then have "r \<in> set rs" "k a \<noteq> k r" using Cons.prems by auto
    with Cons show ?thesis by (simp add: row_changes_def)
  qed
qed

lemma row_get_update_key:
  assumes "\<And>x. k (f x) = k x"
  shows "row_get (\<lambda>x. k x = a) (row_update P f rs) =
    map_option (\<lambda>r. if P r then f r else r) (row_get (\<lambda>x. k x = a) rs)"
  using assms by (induction rs) auto

text \<open>\<open>ORDER BY key DESC LIMIT 1\<close>: the first of the matching rows with the greatest key.\<close>

definition row_latest :: "('r \<Rightarrow> int) \<Rightarrow> ('r \<Rightarrow> bool) \<Rightarrow> 'r list \<Rightarrow> 'r option" where
  "row_latest key P rs = (case filter P rs of
     [] \<Rightarrow> None
   | r # rest \<Rightarrow> Some (foldl (\<lambda>a b. if key a < key b then b else a) r rest))"

lemma foldl_latest_mem:
  "foldl (\<lambda>a b. if key a < (key b :: int) then b else a) r rest \<in> set (r # rest)"
proof (induction rest arbitrary: r)
  case (Cons b rest)
  show ?case using Cons.IH [of r] Cons.IH [of b] by auto
qed simp

lemma row_latest_SomeD: "row_latest key P rs = Some r \<Longrightarrow> r \<in> set rs \<and> P r"
proof -
  assume some: "row_latest key P rs = Some r"
  then obtain a rest where f: "filter P rs = a # rest"
    by (auto simp: row_latest_def split: list.splits)
  then have "r \<in> set (filter P rs)"
    using some foldl_latest_mem [of key a rest] by (simp add: row_latest_def)
  then show ?thesis by simp
qed

lemma foldl_latest_max:
  fixes key :: "'r \<Rightarrow> int"
  shows "\<forall>x \<in> set (r # rest). key x \<le> key (foldl (\<lambda>a b. if key a < key b then b else a) r rest)"
proof (induction rest arbitrary: r)
  case (Cons b rest)
  show ?case
  proof (cases "key r < key b")
    case True
    have "\<forall>x \<in> set (b # rest). key x \<le> key (foldl (\<lambda>a b. if key a < key b then b else a) b rest)" by (rule Cons)
    with True show ?thesis by auto
  next
    case False
    have "\<forall>x \<in> set (r # rest). key x \<le> key (foldl (\<lambda>a b. if key a < key b then b else a) r rest)" by (rule Cons)
    with False show ?thesis by auto
  qed
qed simp

lemma row_latest_max:
  assumes "row_latest key P rs = Some r" "x \<in> set rs" "P x"
  shows "key x \<le> key r"
proof -
  obtain a rest where f: "filter P rs = a # rest" using assms(1) by (auto simp: row_latest_def split: list.splits)
  have "x \<in> set (a # rest)" using assms(2,3) unfolding f [symmetric] by simp
  from bspec [OF foldl_latest_max [of a rest key] this] assms(1) show ?thesis by (simp add: row_latest_def f)
qed

lemma row_latest_None_iff: "row_latest key P rs = None \<longleftrightarrow> (\<forall>r \<in> set rs. \<not> P r)"
  by (auto simp: row_latest_def filter_empty_conv split: list.splits)
    (metis filter_empty_conv list.distinct(1))+

section \<open>Transactions\<close>

text \<open>
  An operation returns an error or a new state with a result. A transaction keeps the old state
  when the operation throws.
\<close>

definition commit :: "'s \<Rightarrow> 'e + ('s \<times> 'a) \<Rightarrow> 's" where
  "commit s r = (case r of Inl _ \<Rightarrow> s | Inr (s', _) \<Rightarrow> s')"

lemma commit_Inl [simp]: "commit s (Inl e) = s"
  by (simp add: commit_def)

lemma commit_Inr [simp]: "commit s (Inr (s', a)) = s'"
  by (simp add: commit_def)

lemma commit_cases:
  assumes "P s" and "\<And>s' a. r = Inr (s', a) \<Longrightarrow> P s'"
  shows "P (commit s r)"
  using assms by (auto simp: commit_def split: sum.splits)

definition is_err :: "'e + 'a \<Rightarrow> bool" where
  "is_err r = (case r of Inl _ \<Rightarrow> True | Inr _ \<Rightarrow> False)"

lemma is_err_simps [simp]: "is_err (Inl e)" "\<not> is_err (Inr a)"
  by (simp_all add: is_err_def)

text \<open>Go on with the value of a step that did not throw.\<close>

definition bind_ok :: "'e + 'a \<Rightarrow> ('a \<Rightarrow> 'e + 'b) \<Rightarrow> 'e + 'b" where
  "bind_ok m k = (case m of Inl e \<Rightarrow> Inl e | Inr a \<Rightarrow> k a)"

lemma bind_ok_simps [simp]: "bind_ok (Inl e) k = Inl e" "bind_ok (Inr a) k = k a"
  by (simp_all add: bind_ok_def)

lemma bind_ok_Inr_iff: "bind_ok m k = Inr b \<longleftrightarrow> (\<exists>a. m = Inr a \<and> k a = Inr b)"
  by (cases m) auto

lemma bind_okE:
  assumes "bind_ok m k = Inr b"
  obtains a where "m = Inr a" "k a = Inr b"
  using assms by (auto simp: bind_ok_Inr_iff)

text \<open>A step for every element of a list, in order; the first one that throws ends the pass.\<close>

fun map_ok :: "('a \<Rightarrow> 'e + 'b) \<Rightarrow> 'a list \<Rightarrow> 'e + 'b list" where
  "map_ok f [] = Inr []"
| "map_ok f (x # xs) = bind_ok (f x) (\<lambda>y. bind_ok (map_ok f xs) (\<lambda>ys. Inr (y # ys)))"

lemma map_ok_Inr_iff: "map_ok f xs = Inr ys \<longleftrightarrow> list_all2 (\<lambda>x y. f x = Inr y) xs ys"
  by (induction xs arbitrary: ys) (auto simp: bind_ok_Inr_iff list_all2_Cons1)

lemma map_ok_total: "\<forall>x \<in> set xs. \<exists>y. f x = Inr y \<Longrightarrow> \<exists>ys. map_ok f xs = Inr ys"
  by (induction xs) fastforce+

lemma list_all2_rightD: "list_all2 P xs ys \<Longrightarrow> y \<in> set ys \<Longrightarrow> \<exists>x \<in> set xs. P x y"
  by (induction rule: list_all2_induct) auto

lemma map_ok_append:
  "map_ok f (xs @ ys) = bind_ok (map_ok f xs) (\<lambda>us. bind_ok (map_ok f ys) (\<lambda>vs. Inr (us @ vs)))"
proof (induction xs)
  case Nil
  then show ?case by (cases "map_ok f ys") auto
next
  case (Cons x xs)
  then show ?case by (cases "f x"; cases "map_ok f xs"; cases "map_ok f ys") auto
qed

section \<open>Machines that take a list of operations\<close>

definition run_ops :: "('s \<Rightarrow> 'op \<Rightarrow> 's) \<Rightarrow> 's \<Rightarrow> 'op list \<Rightarrow> 's" where
  "run_ops step s xs = foldl step s xs"

lemma run_ops_Nil [simp]: "run_ops step s [] = s"
  by (simp add: run_ops_def)

lemma run_ops_Cons [simp]: "run_ops step s (x # xs) = run_ops step (step s x) xs"
  by (simp add: run_ops_def)

lemma run_ops_append [simp]: "run_ops step s (xs @ ys) = run_ops step (run_ops step s xs) ys"
  by (simp add: run_ops_def)

text \<open>The operations keep an invariant.\<close>

locale invariant_machine =
  fixes step :: "'s \<Rightarrow> 'op \<Rightarrow> 's"
    and inv :: "'s \<Rightarrow> bool"
  assumes step_inv: "inv s \<Longrightarrow> inv (step s x)"
begin

lemma run_inv: "inv s \<Longrightarrow> inv (run_ops step s xs)"
  by (induction xs arbitrary: s) (auto intro: step_inv)

end

text \<open>
  The operations also relate the old state to the new one by a preorder: a counter that never
  decreases, a final state that is never left, a history that only grows.
\<close>

locale progress_machine = invariant_machine step inv
  for step :: "'s \<Rightarrow> 'op \<Rightarrow> 's" and inv :: "'s \<Rightarrow> bool" +
  fixes rel :: "'s \<Rightarrow> 's \<Rightarrow> bool"
  assumes rel_refl: "rel s s"
    and rel_trans: "rel s t \<Longrightarrow> rel t u \<Longrightarrow> rel s u"
    and step_rel: "inv s \<Longrightarrow> rel s (step s x)"
begin

lemma run_rel: "inv s \<Longrightarrow> rel s (run_ops step s xs)"
proof (induction xs arbitrary: s)
  case Nil
  show ?case by (simp add: rel_refl)
next
  case (Cons x xs)
  then have "rel s (step s x)" "rel (step s x) (run_ops step (step s x) xs)"
    by (auto intro: step_rel step_inv)
  then show ?case by (auto intro: rel_trans)
qed

lemma run_rel_later: "inv s \<Longrightarrow> rel (run_ops step s xs) (run_ops step s (xs @ ys))"
  by (simp add: run_rel run_inv)

end

end
