(* ===== verification/Goal_Runtime.thy ===== *)
theory Goal_Runtime
  imports Prelude
begin

text \<open>
  The vocabulary of the goal runtime (packages/domain/src/goal-runtime.ts): the independent state
  dimensions of a goal, the blocker, progress and projection records, the execution receipts, and
  the run-time guards that decide whether a decoded value is a member of one of the enumerations.
  An enumeration is a datatype; the guard compares strings, so each datatype has the function that
  gives the string of a member.
\<close>

section \<open>Enumerations\<close>

datatype goal_lifecycle_state =
  Lc_open | Lc_completed | Lc_abandoned | Lc_archived | Lc_cleaned

definition GOAL_LIFECYCLE_STATES :: "string list" where
  "GOAL_LIFECYCLE_STATES = [''open'', ''completed'', ''abandoned'', ''archived'', ''cleaned'']"

fun lifecycle_name :: "goal_lifecycle_state \<Rightarrow> string" where
  "lifecycle_name Lc_open = ''open''"
| "lifecycle_name Lc_completed = ''completed''"
| "lifecycle_name Lc_abandoned = ''abandoned''"
| "lifecycle_name Lc_archived = ''archived''"
| "lifecycle_name Lc_cleaned = ''cleaned''"

datatype goal_runtime_state =
  Rt_idle | Rt_queued | Rt_starting | Rt_running | Rt_paused | Rt_waiting_approval
| Rt_waiting_input | Rt_blocked | Rt_recovering | Rt_recovery_required | Rt_failed | Rt_cancelled

definition GOAL_RUNTIME_STATES :: "string list" where
  "GOAL_RUNTIME_STATES = [''idle'', ''queued'', ''starting'', ''running'', ''paused'',
     ''waiting_approval'', ''waiting_input'', ''blocked'', ''recovering'', ''recovery_required'',
     ''failed'', ''cancelled'']"

fun runtime_state_name :: "goal_runtime_state \<Rightarrow> string" where
  "runtime_state_name Rt_idle = ''idle''"
| "runtime_state_name Rt_queued = ''queued''"
| "runtime_state_name Rt_starting = ''starting''"
| "runtime_state_name Rt_running = ''running''"
| "runtime_state_name Rt_paused = ''paused''"
| "runtime_state_name Rt_waiting_approval = ''waiting_approval''"
| "runtime_state_name Rt_waiting_input = ''waiting_input''"
| "runtime_state_name Rt_blocked = ''blocked''"
| "runtime_state_name Rt_recovering = ''recovering''"
| "runtime_state_name Rt_recovery_required = ''recovery_required''"
| "runtime_state_name Rt_failed = ''failed''"
| "runtime_state_name Rt_cancelled = ''cancelled''"

datatype goal_desired_runtime_state = Ds_idle | Ds_running | Ds_paused | Ds_cancelled

definition GOAL_DESIRED_RUNTIME_STATES :: "string list" where
  "GOAL_DESIRED_RUNTIME_STATES = [''idle'', ''running'', ''paused'', ''cancelled'']"

fun desired_state_name :: "goal_desired_runtime_state \<Rightarrow> string" where
  "desired_state_name Ds_idle = ''idle''"
| "desired_state_name Ds_running = ''running''"
| "desired_state_name Ds_paused = ''paused''"
| "desired_state_name Ds_cancelled = ''cancelled''"

datatype goal_integration_state =
  In_not_started | In_pending | In_integrating | In_integrated | In_conflict | In_unknown

definition GOAL_INTEGRATION_STATES :: "string list" where
  "GOAL_INTEGRATION_STATES =
     [''not_started'', ''pending'', ''integrating'', ''integrated'', ''conflict'', ''unknown'']"

fun integration_state_name :: "goal_integration_state \<Rightarrow> string" where
  "integration_state_name In_not_started = ''not_started''"
| "integration_state_name In_pending = ''pending''"
| "integration_state_name In_integrating = ''integrating''"
| "integration_state_name In_integrated = ''integrated''"
| "integration_state_name In_conflict = ''conflict''"
| "integration_state_name In_unknown = ''unknown''"

datatype goal_workspace_state =
  Wk_clean | Wk_dirty | Wk_missing | Wk_unavailable | Wk_conflict | Wk_unknown

definition GOAL_WORKSPACE_STATES :: "string list" where
  "GOAL_WORKSPACE_STATES =
     [''clean'', ''dirty'', ''missing'', ''unavailable'', ''conflict'', ''unknown'']"

fun workspace_state_name :: "goal_workspace_state \<Rightarrow> string" where
  "workspace_state_name Wk_clean = ''clean''"
| "workspace_state_name Wk_dirty = ''dirty''"
| "workspace_state_name Wk_missing = ''missing''"
| "workspace_state_name Wk_unavailable = ''unavailable''"
| "workspace_state_name Wk_conflict = ''conflict''"
| "workspace_state_name Wk_unknown = ''unknown''"

datatype goal_blocker_kind =
  Bk_waiting_approval | Bk_waiting_input | Bk_resource_pressure | Bk_dependency_unavailable
| Bk_worker_lost | Bk_integration_conflict | Bk_dirty_workspace | Bk_active_lease_elsewhere
| Bk_provider_unavailable | Bk_task_failed | Bk_goal_blocked | Bk_recovery_required | Bk_unknown

definition GOAL_BLOCKER_KINDS :: "string list" where
  "GOAL_BLOCKER_KINDS = [''waiting_approval'', ''waiting_input'', ''resource_pressure'',
     ''dependency_unavailable'', ''worker_lost'', ''integration_conflict'', ''dirty_workspace'',
     ''active_lease_elsewhere'', ''provider_unavailable'', ''task_failed'', ''goal_blocked'',
     ''recovery_required'', ''unknown'']"

fun blocker_kind_name :: "goal_blocker_kind \<Rightarrow> string" where
  "blocker_kind_name Bk_waiting_approval = ''waiting_approval''"
| "blocker_kind_name Bk_waiting_input = ''waiting_input''"
| "blocker_kind_name Bk_resource_pressure = ''resource_pressure''"
| "blocker_kind_name Bk_dependency_unavailable = ''dependency_unavailable''"
| "blocker_kind_name Bk_worker_lost = ''worker_lost''"
| "blocker_kind_name Bk_integration_conflict = ''integration_conflict''"
| "blocker_kind_name Bk_dirty_workspace = ''dirty_workspace''"
| "blocker_kind_name Bk_active_lease_elsewhere = ''active_lease_elsewhere''"
| "blocker_kind_name Bk_provider_unavailable = ''provider_unavailable''"
| "blocker_kind_name Bk_task_failed = ''task_failed''"
| "blocker_kind_name Bk_goal_blocked = ''goal_blocked''"
| "blocker_kind_name Bk_recovery_required = ''recovery_required''"
| "blocker_kind_name Bk_unknown = ''unknown''"

datatype goal_execution_receipt_state = Rc_active | Rc_released | Rc_superseded | Rc_terminal

definition GOAL_EXECUTION_RECEIPT_STATES :: "string list" where
  "GOAL_EXECUTION_RECEIPT_STATES = [''active'', ''released'', ''superseded'', ''terminal'']"

fun receipt_state_name :: "goal_execution_receipt_state \<Rightarrow> string" where
  "receipt_state_name Rc_active = ''active''"
| "receipt_state_name Rc_released = ''released''"
| "receipt_state_name Rc_superseded = ''superseded''"
| "receipt_state_name Rc_terminal = ''terminal''"

section \<open>Records\<close>

record goal_execution_record =
  ge_id :: string
  ge_goalId :: string
  ge_workspaceId :: string
  ge_executionGeneration :: int
  ge_leaseGeneration :: int
  ge_ownerClientId :: string
  ge_ownerSessionId :: string
  ge_receiptState :: goal_execution_receipt_state
  ge_createdAt :: iso
  ge_updatedAt :: iso

datatype progress_step_state = Ps_pending | Ps_running | Ps_completed | Ps_failed | Ps_blocked

record goal_runtime_progress_step =
  ps_id :: string
  ps_title :: string
  ps_state :: progress_step_state
  ps_summary :: "string option"

record goal_runtime_progress =
  pg_phase :: "string option"
  pg_steps :: "goal_runtime_progress_step list option"
  pg_completedUnits :: "int option"
  pg_totalUnits :: "int option"
  pg_detail :: "string option"

record goal_runtime_blocker =
  bl_kind :: goal_blocker_kind
  bl_detail :: "string option"
  bl_observedAt :: "iso option"

record goal_runtime_projection =
  pj_goalId :: string
  pj_workspaceId :: string
  pj_lifecycleState :: goal_lifecycle_state
  pj_runtimeState :: goal_runtime_state
  pj_desiredRuntimeState :: goal_desired_runtime_state
  pj_integrationState :: goal_integration_state
  pj_workspaceState :: goal_workspace_state
  pj_activeExecutionId :: "string option"
  pj_executionGeneration :: "int option"
  pj_phase :: "string option"
  pj_progress :: "goal_runtime_progress option"
  pj_lastActivityAt :: iso
  pj_lastHeartbeatAt :: "iso option"
  pj_blocker :: "goal_runtime_blocker option"

section \<open>Guards\<close>

definition isGoalLifecycleState :: "jsval \<Rightarrow> bool" where
  "isGoalLifecycleState v = is_string_in v GOAL_LIFECYCLE_STATES"

definition isGoalRuntimeState :: "jsval \<Rightarrow> bool" where
  "isGoalRuntimeState v = is_string_in v GOAL_RUNTIME_STATES"

definition isGoalDesiredRuntimeState :: "jsval \<Rightarrow> bool" where
  "isGoalDesiredRuntimeState v = is_string_in v GOAL_DESIRED_RUNTIME_STATES"

definition isGoalIntegrationState :: "jsval \<Rightarrow> bool" where
  "isGoalIntegrationState v = is_string_in v GOAL_INTEGRATION_STATES"

definition isGoalWorkspaceState :: "jsval \<Rightarrow> bool" where
  "isGoalWorkspaceState v = is_string_in v GOAL_WORKSPACE_STATES"

definition isGoalBlockerKind :: "jsval \<Rightarrow> bool" where
  "isGoalBlockerKind v = is_string_in v GOAL_BLOCKER_KINDS"

definition isGoalExecutionReceiptState :: "jsval \<Rightarrow> bool" where
  "isGoalExecutionReceiptState v = is_string_in v GOAL_EXECUTION_RECEIPT_STATES"

section \<open>The guards are exact\<close>

text \<open>
  An interface between an enumeration, its names and the list the guard consults: every member has
  its own name, and the list holds exactly the names. The guard then accepts a value when, and only
  when, it is the name of one member.
\<close>

locale enum_names =
  fixes name :: "'e \<Rightarrow> string"
    and names :: "string list"
  assumes names_exact: "set names = range name"
    and name_inj: "inj name"
begin

lemma guard_exact: "is_string_in v names \<longleftrightarrow> (\<exists>!e. v = JStr (name e))"
proof
  assume "is_string_in v names"
  then obtain e where "v = JStr (name e)"
    using names_exact by (auto simp: is_string_in_iff)
  then show "\<exists>!e. v = JStr (name e)" using name_inj by (auto dest: injD)
next
  assume "\<exists>!e. v = JStr (name e)"
  then show "is_string_in v names" using names_exact by (auto simp: is_string_in_iff)
qed

end

lemma lifecycle_UNIV: "UNIV = {Lc_open, Lc_completed, Lc_abandoned, Lc_archived, Lc_cleaned}"
  by (auto intro: goal_lifecycle_state.exhaust)

lemma runtime_state_UNIV: "UNIV = {Rt_idle, Rt_queued, Rt_starting, Rt_running, Rt_paused,
  Rt_waiting_approval, Rt_waiting_input, Rt_blocked, Rt_recovering, Rt_recovery_required,
  Rt_failed, Rt_cancelled}"
  by (auto intro: goal_runtime_state.exhaust)

lemma desired_state_UNIV: "UNIV = {Ds_idle, Ds_running, Ds_paused, Ds_cancelled}"
  by (auto intro: goal_desired_runtime_state.exhaust)

lemma integration_state_UNIV: "UNIV = {In_not_started, In_pending, In_integrating, In_integrated,
  In_conflict, In_unknown}"
  by (auto intro: goal_integration_state.exhaust)

lemma workspace_state_UNIV: "UNIV = {Wk_clean, Wk_dirty, Wk_missing, Wk_unavailable, Wk_conflict,
  Wk_unknown}"
  by (auto intro: goal_workspace_state.exhaust)

lemma blocker_kind_UNIV: "UNIV = {Bk_waiting_approval, Bk_waiting_input, Bk_resource_pressure,
  Bk_dependency_unavailable, Bk_worker_lost, Bk_integration_conflict, Bk_dirty_workspace,
  Bk_active_lease_elsewhere, Bk_provider_unavailable, Bk_task_failed, Bk_goal_blocked,
  Bk_recovery_required, Bk_unknown}"
  by (auto intro: goal_blocker_kind.exhaust)

lemma receipt_state_UNIV: "UNIV = {Rc_active, Rc_released, Rc_superseded, Rc_terminal}"
  by (auto intro: goal_execution_receipt_state.exhaust)

interpretation lifecycle_names: enum_names lifecycle_name GOAL_LIFECYCLE_STATES
  by unfold_locales
    (simp_all add: lifecycle_UNIV GOAL_LIFECYCLE_STATES_def insert_commute inj_on_def)

interpretation runtime_names: enum_names runtime_state_name GOAL_RUNTIME_STATES
  by unfold_locales
    (simp_all add: runtime_state_UNIV GOAL_RUNTIME_STATES_def insert_commute inj_on_def)

interpretation desired_names: enum_names desired_state_name GOAL_DESIRED_RUNTIME_STATES
  by unfold_locales
    (simp_all add: desired_state_UNIV GOAL_DESIRED_RUNTIME_STATES_def insert_commute inj_on_def)

interpretation integration_names: enum_names integration_state_name GOAL_INTEGRATION_STATES
  by unfold_locales
    (simp_all add: integration_state_UNIV GOAL_INTEGRATION_STATES_def insert_commute inj_on_def)

interpretation workspace_names: enum_names workspace_state_name GOAL_WORKSPACE_STATES
  by unfold_locales
    (simp_all add: workspace_state_UNIV GOAL_WORKSPACE_STATES_def insert_commute inj_on_def)

interpretation blocker_names: enum_names blocker_kind_name GOAL_BLOCKER_KINDS
  by unfold_locales
    (simp_all add: blocker_kind_UNIV GOAL_BLOCKER_KINDS_def insert_commute inj_on_def)

interpretation receipt_names: enum_names receipt_state_name GOAL_EXECUTION_RECEIPT_STATES
  by unfold_locales
    (simp_all add: receipt_state_UNIV GOAL_EXECUTION_RECEIPT_STATES_def insert_commute inj_on_def)

end
