(* ===== verification/Goal_Runtime_Event.thy ===== *)
theory Goal_Runtime_Event
  imports Goal_Runtime
begin

text \<open>
  The durable goal runtime events (packages/domain/src/goal-runtime-event.ts): the event types, the
  generation fence that decides whether an event may reach the projector, and the table of state
  transitions every projected change has to pass.
\<close>

section \<open>Event types\<close>

datatype goal_scoped_type =
  Et_goal_created | Et_goal_selected | Et_goal_completed | Et_goal_abandoned | Et_goal_archived
| Et_goal_cleaned | Et_goal_blocker_observed | Et_workspace_observed | Et_integration_observed

definition GOAL_SCOPED_RUNTIME_EVENT_TYPES :: "string list" where
  "GOAL_SCOPED_RUNTIME_EVENT_TYPES = [''goal_created'', ''goal_selected'', ''goal_completed'',
     ''goal_abandoned'', ''goal_archived'', ''goal_cleaned'', ''goal_blocker_observed'',
     ''workspace_observed'', ''integration_observed'']"

fun goal_scoped_type_name :: "goal_scoped_type \<Rightarrow> string" where
  "goal_scoped_type_name Et_goal_created = ''goal_created''"
| "goal_scoped_type_name Et_goal_selected = ''goal_selected''"
| "goal_scoped_type_name Et_goal_completed = ''goal_completed''"
| "goal_scoped_type_name Et_goal_abandoned = ''goal_abandoned''"
| "goal_scoped_type_name Et_goal_archived = ''goal_archived''"
| "goal_scoped_type_name Et_goal_cleaned = ''goal_cleaned''"
| "goal_scoped_type_name Et_goal_blocker_observed = ''goal_blocker_observed''"
| "goal_scoped_type_name Et_workspace_observed = ''workspace_observed''"
| "goal_scoped_type_name Et_integration_observed = ''integration_observed''"

datatype execution_scoped_type =
  Et_execution_submitted | Et_execution_queued | Et_execution_started | Et_execution_heartbeat
| Et_phase_started | Et_phase_completed | Et_task_started | Et_task_progress | Et_task_completed
| Et_task_failed | Et_checkpoint_created | Et_approval_required | Et_approval_resolved
| Et_input_required | Et_input_resolved | Et_execution_pause_requested | Et_execution_paused
| Et_execution_resumed | Et_execution_cancel_requested | Et_integration_started
| Et_integration_completed | Et_integration_conflict | Et_execution_completed
| Et_execution_failed | Et_execution_cancelled | Et_worker_lost

definition EXECUTION_SCOPED_RUNTIME_EVENT_TYPES :: "string list" where
  "EXECUTION_SCOPED_RUNTIME_EVENT_TYPES = [''execution_submitted'', ''execution_queued'',
     ''execution_started'', ''execution_heartbeat'', ''phase_started'', ''phase_completed'',
     ''task_started'', ''task_progress'', ''task_completed'', ''task_failed'',
     ''checkpoint_created'', ''approval_required'', ''approval_resolved'', ''input_required'',
     ''input_resolved'', ''execution_pause_requested'', ''execution_paused'',
     ''execution_resumed'', ''execution_cancel_requested'', ''integration_started'',
     ''integration_completed'', ''integration_conflict'', ''execution_completed'',
     ''execution_failed'', ''execution_cancelled'', ''worker_lost'']"

fun execution_scoped_type_name :: "execution_scoped_type \<Rightarrow> string" where
  "execution_scoped_type_name Et_execution_submitted = ''execution_submitted''"
| "execution_scoped_type_name Et_execution_queued = ''execution_queued''"
| "execution_scoped_type_name Et_execution_started = ''execution_started''"
| "execution_scoped_type_name Et_execution_heartbeat = ''execution_heartbeat''"
| "execution_scoped_type_name Et_phase_started = ''phase_started''"
| "execution_scoped_type_name Et_phase_completed = ''phase_completed''"
| "execution_scoped_type_name Et_task_started = ''task_started''"
| "execution_scoped_type_name Et_task_progress = ''task_progress''"
| "execution_scoped_type_name Et_task_completed = ''task_completed''"
| "execution_scoped_type_name Et_task_failed = ''task_failed''"
| "execution_scoped_type_name Et_checkpoint_created = ''checkpoint_created''"
| "execution_scoped_type_name Et_approval_required = ''approval_required''"
| "execution_scoped_type_name Et_approval_resolved = ''approval_resolved''"
| "execution_scoped_type_name Et_input_required = ''input_required''"
| "execution_scoped_type_name Et_input_resolved = ''input_resolved''"
| "execution_scoped_type_name Et_execution_pause_requested = ''execution_pause_requested''"
| "execution_scoped_type_name Et_execution_paused = ''execution_paused''"
| "execution_scoped_type_name Et_execution_resumed = ''execution_resumed''"
| "execution_scoped_type_name Et_execution_cancel_requested = ''execution_cancel_requested''"
| "execution_scoped_type_name Et_integration_started = ''integration_started''"
| "execution_scoped_type_name Et_integration_completed = ''integration_completed''"
| "execution_scoped_type_name Et_integration_conflict = ''integration_conflict''"
| "execution_scoped_type_name Et_execution_completed = ''execution_completed''"
| "execution_scoped_type_name Et_execution_failed = ''execution_failed''"
| "execution_scoped_type_name Et_execution_cancelled = ''execution_cancelled''"
| "execution_scoped_type_name Et_worker_lost = ''worker_lost''"

section \<open>Events\<close>

record goal_runtime_event_base =
  ev_eventId :: string
  ev_workspaceId :: string
  ev_goalId :: string
  ev_occurredAt :: iso
  ev_detail :: "string option"

text \<open>The integration states an observation may report.\<close>

datatype observed_integration_state = Ob_pending | Ob_integrated | Ob_conflict | Ob_unknown

fun observed_integration :: "observed_integration_state \<Rightarrow> goal_integration_state" where
  "observed_integration Ob_pending = In_pending"
| "observed_integration Ob_integrated = In_integrated"
| "observed_integration Ob_conflict = In_conflict"
| "observed_integration Ob_unknown = In_unknown"

text \<open>
  The payload of a goal-scoped event. The blocker kind of \<open>goal_blocker_observed\<close> is
  \<open>'goal_blocked'\<close> or absent, so it is a truth value.
\<close>

datatype goal_scoped_event =
  Ge_created | Ge_selected | Ge_completed | Ge_abandoned | Ge_archived | Ge_cleaned
| Ge_workspace_observed goal_workspace_state
| Ge_integration_observed observed_integration_state
| Ge_blocker_observed bool

fun goal_scoped_event_type :: "goal_scoped_event \<Rightarrow> goal_scoped_type" where
  "goal_scoped_event_type Ge_created = Et_goal_created"
| "goal_scoped_event_type Ge_selected = Et_goal_selected"
| "goal_scoped_event_type Ge_completed = Et_goal_completed"
| "goal_scoped_event_type Ge_abandoned = Et_goal_abandoned"
| "goal_scoped_event_type Ge_archived = Et_goal_archived"
| "goal_scoped_event_type Ge_cleaned = Et_goal_cleaned"
| "goal_scoped_event_type (Ge_workspace_observed _) = Et_workspace_observed"
| "goal_scoped_event_type (Ge_integration_observed _) = Et_integration_observed"
| "goal_scoped_event_type (Ge_blocker_observed _) = Et_goal_blocker_observed"

record execution_scoped_event =
  xe_type :: execution_scoped_type
  xe_executionId :: string
  xe_executionGeneration :: int
  xe_phase :: "string option"
  xe_taskId :: "string option"
  xe_checkpointId :: "string option"
  xe_blockerKind :: "goal_blocker_kind option"

datatype goal_runtime_event =
  GoalScoped goal_runtime_event_base goal_scoped_event
| ExecutionScoped goal_runtime_event_base execution_scoped_event

fun event_base :: "goal_runtime_event \<Rightarrow> goal_runtime_event_base" where
  "event_base (GoalScoped b _) = b"
| "event_base (ExecutionScoped b _) = b"

fun event_type_name :: "goal_runtime_event \<Rightarrow> string" where
  "event_type_name (GoalScoped _ g) = goal_scoped_type_name (goal_scoped_event_type g)"
| "event_type_name (ExecutionScoped _ x) = execution_scoped_type_name (xe_type x)"

text \<open>The guard of the source: membership of the type in the list of goal-scoped types.\<close>

definition isGoalScopedRuntimeEvent :: "goal_runtime_event \<Rightarrow> bool" where
  "isGoalScopedRuntimeEvent e \<longleftrightarrow> event_type_name e \<in> set GOAL_SCOPED_RUNTIME_EVENT_TYPES"

definition isGoalScopedRuntimeEventType :: "jsval \<Rightarrow> bool" where
  "isGoalScopedRuntimeEventType v = is_string_in v GOAL_SCOPED_RUNTIME_EVENT_TYPES"

definition isExecutionScopedRuntimeEventType :: "jsval \<Rightarrow> bool" where
  "isExecutionScopedRuntimeEventType v = is_string_in v EXECUTION_SCOPED_RUNTIME_EVENT_TYPES"

lemma isGoalScoped_iff [simp]: "isGoalScopedRuntimeEvent (GoalScoped b g)"
  "\<not> isGoalScopedRuntimeEvent (ExecutionScoped b x)"
  by (cases g; simp add: isGoalScopedRuntimeEvent_def GOAL_SCOPED_RUNTIME_EVENT_TYPES_def)
    (cases "xe_type x"; simp add: isGoalScopedRuntimeEvent_def GOAL_SCOPED_RUNTIME_EVENT_TYPES_def)

lemma goal_scoped_type_UNIV: "UNIV = {Et_goal_created, Et_goal_selected, Et_goal_completed,
  Et_goal_abandoned, Et_goal_archived, Et_goal_cleaned, Et_goal_blocker_observed,
  Et_workspace_observed, Et_integration_observed}"
  by (auto intro: goal_scoped_type.exhaust)

lemma goal_scoped_type_name_inj: "inj goal_scoped_type_name"
proof (rule injI)
  fix x y assume "goal_scoped_type_name x = goal_scoped_type_name y"
  then show "x = y" by (cases x; cases y; simp)
qed

interpretation goal_scoped_names: enum_names goal_scoped_type_name GOAL_SCOPED_RUNTIME_EVENT_TYPES
  by unfold_locales
    (simp_all add: goal_scoped_type_UNIV GOAL_SCOPED_RUNTIME_EVENT_TYPES_def insert_commute
      goal_scoped_type_name_inj)

section \<open>Run-time states\<close>

definition isTerminalRuntimeState :: "goal_runtime_state \<Rightarrow> bool" where
  "isTerminalRuntimeState s \<longleftrightarrow> s = Rt_failed \<or> s = Rt_cancelled"

definition isExecutionActiveRuntimeState :: "goal_runtime_state \<Rightarrow> bool" where
  "isExecutionActiveRuntimeState s \<longleftrightarrow>
     s = Rt_queued \<or> s = Rt_starting \<or> s = Rt_running \<or> s = Rt_paused \<or> s = Rt_waiting_approval
     \<or> s = Rt_waiting_input \<or> s = Rt_blocked \<or> s = Rt_recovering"

definition isExecutionActivityEvent :: "execution_scoped_type \<Rightarrow> bool" where
  "isExecutionActivityEvent t \<longleftrightarrow>
     t \<noteq> Et_execution_submitted \<and> t \<noteq> Et_integration_started
     \<and> t \<noteq> Et_integration_completed \<and> t \<noteq> Et_integration_conflict"

definition is_integration_event :: "execution_scoped_type \<Rightarrow> bool" where
  "is_integration_event t \<longleftrightarrow>
     t = Et_integration_started \<or> t = Et_integration_completed \<or> t = Et_integration_conflict"

section \<open>The generation fence\<close>

datatype goal_runtime_event_rejection_reason =
  Rj_goal_mismatch | Rj_workspace_mismatch | Rj_goal_not_open | Rj_execution_not_submitted
| Rj_future_generation | Rj_generation_gap | Rj_execution_identity_mismatch
| Rj_terminal_generation | Rj_missing_event_data | Rj_invalid_transition | Rj_projection_invariant

text \<open>The only reason to ignore an event is a stale generation.\<close>

datatype goal_runtime_event_decision =
  Apply | Ignore_stale_generation | Reject goal_runtime_event_rejection_reason

text \<open>The part of the fence after the goal-scoped events are let through.\<close>

definition classify_execution_event ::
  "goal_runtime_projection \<Rightarrow> execution_scoped_event \<Rightarrow> goal_runtime_event_decision" where
  "classify_execution_event current x =
     (if pj_lifecycleState current = Lc_archived \<or> pj_lifecycleState current = Lc_cleaned
      then Reject Rj_goal_not_open
      else if pj_lifecycleState current \<noteq> Lc_open \<and> \<not> is_integration_event (xe_type x)
      then Reject Rj_goal_not_open
      else case pj_executionGeneration current of
        None \<Rightarrow>
          if xe_type x = Et_execution_submitted \<and> xe_executionGeneration x = 1 then Apply
          else Reject Rj_execution_not_submitted
      | Some currentGeneration \<Rightarrow>
          if xe_executionGeneration x < currentGeneration then Ignore_stale_generation
          else if xe_executionGeneration x > currentGeneration then
            if xe_type x \<noteq> Et_execution_submitted then Reject Rj_future_generation
            else if xe_executionGeneration x \<noteq> currentGeneration + 1 then Reject Rj_generation_gap
            else Apply
          else if pj_activeExecutionId current \<noteq> None
            \<and> pj_activeExecutionId current \<noteq> Some (xe_executionId x)
          then Reject Rj_execution_identity_mismatch
          else if pj_activeExecutionId current = None \<and> \<not> is_integration_event (xe_type x)
          then Reject Rj_terminal_generation
          else if isTerminalRuntimeState (pj_runtimeState current)
            \<and> isExecutionActivityEvent (xe_type x)
          then Reject Rj_terminal_generation
          else Apply)"

definition classifyGoalRuntimeEvent ::
  "goal_runtime_projection \<Rightarrow> goal_runtime_event \<Rightarrow> goal_runtime_event_decision" where
  "classifyGoalRuntimeEvent current event =
     (if ev_goalId (event_base event) \<noteq> pj_goalId current then Reject Rj_goal_mismatch
      else if ev_workspaceId (event_base event) \<noteq> pj_workspaceId current
      then Reject Rj_workspace_mismatch
      else if isGoalScopedRuntimeEvent event then Apply
      else case event of
        GoalScoped _ _ \<Rightarrow> Apply
      | ExecutionScoped _ x \<Rightarrow> classify_execution_event current x)"

section \<open>The transition guard\<close>

fun lifecycle_allowed :: "goal_lifecycle_state \<Rightarrow> goal_lifecycle_state list" where
  "lifecycle_allowed Lc_open = [Lc_completed, Lc_abandoned, Lc_archived]"
| "lifecycle_allowed Lc_completed = [Lc_archived, Lc_cleaned]"
| "lifecycle_allowed Lc_abandoned = [Lc_archived, Lc_cleaned]"
| "lifecycle_allowed Lc_archived = [Lc_cleaned]"
| "lifecycle_allowed Lc_cleaned = []"

fun integration_allowed :: "goal_integration_state \<Rightarrow> goal_integration_state list" where
  "integration_allowed In_not_started =
     [In_pending, In_integrating, In_integrated, In_conflict, In_unknown]"
| "integration_allowed In_pending = [In_integrating, In_integrated, In_conflict, In_unknown]"
| "integration_allowed In_integrating = [In_pending, In_integrated, In_conflict, In_unknown]"
| "integration_allowed In_integrated = []"
| "integration_allowed In_conflict = [In_pending, In_integrating, In_integrated, In_unknown]"
| "integration_allowed In_unknown =
     [In_not_started, In_pending, In_integrating, In_integrated, In_conflict]"

fun runtime_allowed :: "goal_runtime_state \<Rightarrow> goal_runtime_state list" where
  "runtime_allowed Rt_idle = [Rt_queued, Rt_starting, Rt_running, Rt_waiting_approval,
     Rt_waiting_input, Rt_blocked, Rt_recovering, Rt_recovery_required, Rt_failed, Rt_cancelled]"
| "runtime_allowed Rt_queued = [Rt_starting, Rt_running, Rt_paused, Rt_blocked, Rt_recovering,
     Rt_recovery_required, Rt_failed, Rt_cancelled]"
| "runtime_allowed Rt_starting = [Rt_running, Rt_paused, Rt_waiting_approval, Rt_waiting_input,
     Rt_blocked, Rt_recovering, Rt_recovery_required, Rt_failed, Rt_cancelled]"
| "runtime_allowed Rt_running = [Rt_idle, Rt_paused, Rt_waiting_approval, Rt_waiting_input,
     Rt_blocked, Rt_recovering, Rt_recovery_required, Rt_failed, Rt_cancelled]"
| "runtime_allowed Rt_paused = [Rt_idle, Rt_running, Rt_blocked, Rt_recovering,
     Rt_recovery_required, Rt_failed, Rt_cancelled]"
| "runtime_allowed Rt_waiting_approval = [Rt_idle, Rt_running, Rt_paused, Rt_blocked,
     Rt_recovering, Rt_recovery_required, Rt_failed, Rt_cancelled]"
| "runtime_allowed Rt_waiting_input = [Rt_idle, Rt_running, Rt_paused, Rt_blocked, Rt_recovering,
     Rt_recovery_required, Rt_failed, Rt_cancelled]"
| "runtime_allowed Rt_blocked = [Rt_idle, Rt_running, Rt_paused, Rt_waiting_approval,
     Rt_waiting_input, Rt_recovering, Rt_recovery_required, Rt_failed, Rt_cancelled]"
| "runtime_allowed Rt_recovering = [Rt_idle, Rt_running, Rt_paused, Rt_blocked,
     Rt_recovery_required, Rt_failed, Rt_cancelled]"
| "runtime_allowed Rt_recovery_required = [Rt_idle, Rt_recovering, Rt_failed, Rt_cancelled]"
| "runtime_allowed Rt_failed = [Rt_idle, Rt_queued, Rt_starting, Rt_running, Rt_recovering]"
| "runtime_allowed Rt_cancelled = [Rt_idle, Rt_queued, Rt_starting, Rt_running, Rt_recovering]"

datatype goal_state_transition =
  LifecycleTransition goal_lifecycle_state goal_lifecycle_state
| RuntimeTransition goal_runtime_state goal_runtime_state bool
| IntegrationTransition goal_integration_state goal_integration_state
| WorkspaceTransition goal_workspace_state goal_workspace_state

text \<open>
  The branches of the run-time dimension in the order of the source. The last test repeats the
  earlier one on terminal states and is kept as written.
\<close>

definition validate_runtime_transition ::
  "goal_runtime_state \<Rightarrow> goal_runtime_state \<Rightarrow> bool \<Rightarrow> bool" where
  "validate_runtime_transition from to generationChanged =
     (if generationChanged \<and> isExecutionActiveRuntimeState to then True
      else if isTerminalRuntimeState from \<and> isExecutionActiveRuntimeState to
        \<and> \<not> generationChanged then False
      else if to \<notin> set (runtime_allowed from) then False
      else if isTerminalRuntimeState from \<and> isExecutionActiveRuntimeState to
      then generationChanged
      else True)"

fun validateGoalStateTransition :: "goal_state_transition \<Rightarrow> bool" where
  "validateGoalStateTransition (WorkspaceTransition from to) = True"
| "validateGoalStateTransition (LifecycleTransition from to) =
     (from = to \<or> to \<in> set (lifecycle_allowed from))"
| "validateGoalStateTransition (IntegrationTransition from to) =
     (from = to \<or> to \<in> set (integration_allowed from))"
| "validateGoalStateTransition (RuntimeTransition from to generationChanged) =
     (from = to \<or> validate_runtime_transition from to generationChanged)"

text \<open>The run-time table in closed form: the repeated test is redundant.\<close>

lemma validate_runtime_transition_iff:
  "validate_runtime_transition from to changed \<longleftrightarrow>
     (changed \<and> isExecutionActiveRuntimeState to) \<or>
     (to \<in> set (runtime_allowed from) \<and>
        \<not> (isTerminalRuntimeState from \<and> isExecutionActiveRuntimeState to))"
  by (auto simp: validate_runtime_transition_def)

text \<open>How far a goal has gone through its life.\<close>

fun lifecycle_rank :: "goal_lifecycle_state \<Rightarrow> nat" where
  "lifecycle_rank Lc_open = 0"
| "lifecycle_rank Lc_completed = 1"
| "lifecycle_rank Lc_abandoned = 1"
| "lifecycle_rank Lc_archived = 2"
| "lifecycle_rank Lc_cleaned = 3"

lemma lifecycle_transition_rank:
  "validateGoalStateTransition (LifecycleTransition from to) \<Longrightarrow>
     from = to \<or> lifecycle_rank from < lifecycle_rank to"
  by (cases "from"; cases to; simp)

lemma integration_transition_integrated:
  "validateGoalStateTransition (IntegrationTransition In_integrated to) \<longleftrightarrow> to = In_integrated"
  by auto

end
