(* ===== verification/Goal_Runtime_Projector.thy ===== *)
theory Goal_Runtime_Projector
  imports Goal_Runtime_Event
begin

text \<open>
  The authoritative projector of the goal runtime (packages/domain/src/goal-runtime-projector.ts):
  a pure function from the current projection and a durable event to the next projection, with the
  decision it took. An event that the fence, the transition table or the projection invariant
  refuses leaves the projection as it was.
\<close>

section \<open>Helpers of the projector\<close>

definition withLastActivity :: "goal_runtime_projection \<Rightarrow> iso \<Rightarrow> goal_runtime_projection" where
  "withLastActivity p occurredAt = p\<lparr>pj_lastActivityAt := occurredAt\<rparr>"

definition execution_blocker ::
  "goal_blocker_kind \<Rightarrow> goal_runtime_event_base \<Rightarrow> goal_runtime_blocker" where
  "execution_blocker kind b =
     \<lparr>bl_kind = kind, bl_detail = ev_detail b, bl_observedAt = Some (ev_occurredAt b)\<rparr>"

text \<open>The spread of the old progress, with the phase and the detail overwritten when present.\<close>

definition empty_progress :: goal_runtime_progress where
  "empty_progress = \<lparr>pg_phase = None, pg_steps = None, pg_completedUnits = None,
     pg_totalUnits = None, pg_detail = None\<rparr>"

definition mergeProgress ::
  "goal_runtime_projection \<Rightarrow> string option \<Rightarrow> string option \<Rightarrow> goal_runtime_progress" where
  "mergeProgress current phase detail =
     (let base = (case pj_progress current of None \<Rightarrow> empty_progress | Some g \<Rightarrow> g);
          phased = (case phase of None \<Rightarrow> base | Some _ \<Rightarrow> base\<lparr>pg_phase := phase\<rparr>)
      in case detail of None \<Rightarrow> phased | Some _ \<Rightarrow> phased\<lparr>pg_detail := detail\<rparr>)"

fun workspaceBlockerKind :: "goal_workspace_state \<Rightarrow> goal_blocker_kind option" where
  "workspaceBlockerKind Wk_dirty = Some Bk_dirty_workspace"
| "workspaceBlockerKind Wk_missing = Some Bk_recovery_required"
| "workspaceBlockerKind Wk_unavailable = Some Bk_recovery_required"
| "workspaceBlockerKind Wk_conflict = Some Bk_recovery_required"
| "workspaceBlockerKind Wk_clean = None"
| "workspaceBlockerKind Wk_unknown = None"

definition clearBlocker ::
  "goal_runtime_projection \<Rightarrow> goal_blocker_kind option \<Rightarrow> goal_runtime_projection" where
  "clearBlocker p onlyKind =
     (case pj_blocker p of
        None \<Rightarrow> p
      | Some bl \<Rightarrow>
          if onlyKind \<noteq> None \<and> onlyKind \<noteq> Some (bl_kind bl) then p
          else case workspaceBlockerKind (pj_workspaceState p) of
            None \<Rightarrow> p\<lparr>pj_blocker := None\<rparr>
          | Some kind \<Rightarrow>
              p\<lparr>pj_blocker := Some \<lparr>bl_kind = kind, bl_detail = None, bl_observedAt = None\<rparr>\<rparr>)"

definition resetExecutionLocalObservations ::
  "goal_runtime_projection \<Rightarrow> goal_runtime_projection" where
  "resetExecutionLocalObservations p =
     p\<lparr>pj_phase := None, pj_progress := None, pj_lastHeartbeatAt := None\<rparr>"

definition clearActiveExecution :: "goal_runtime_projection \<Rightarrow> goal_runtime_projection" where
  "clearActiveExecution p = p\<lparr>pj_activeExecutionId := None\<rparr>"

definition isWorkspaceDerivedBlocker :: "goal_runtime_projection \<Rightarrow> bool" where
  "isWorkspaceDerivedBlocker current =
     (case pj_blocker current of
        None \<Rightarrow> False
      | Some bl \<Rightarrow>
          if bl_kind bl = Bk_dirty_workspace then pj_workspaceState current = Wk_dirty
          else bl_kind bl = Bk_recovery_required
            \<and> (pj_workspaceState current = Wk_missing \<or> pj_workspaceState current = Wk_unavailable
               \<or> pj_workspaceState current = Wk_conflict))"

section \<open>Observations\<close>

text \<open>The flag says that the observation carries the kind \<open>'goal_blocked'\<close>.\<close>

definition applyGoalBlockerObservation ::
  "goal_runtime_projection \<Rightarrow> bool \<Rightarrow> iso \<Rightarrow> string option \<Rightarrow> goal_runtime_projection" where
  "applyGoalBlockerObservation current blocked observedAt detail =
     (if \<not> blocked then
        (case pj_blocker current of
           Some bl \<Rightarrow> if bl_kind bl = Bk_goal_blocked
             then clearBlocker current (Some Bk_goal_blocked) else current
         | None \<Rightarrow> current)
      else case pj_blocker current of
        Some bl \<Rightarrow>
          if bl_kind bl \<noteq> Bk_goal_blocked then current
          else current\<lparr>pj_blocker := Some \<lparr>bl_kind = Bk_goal_blocked, bl_detail = detail,
                 bl_observedAt = Some observedAt\<rparr>\<rparr>
      | None \<Rightarrow> current\<lparr>pj_blocker := Some \<lparr>bl_kind = Bk_goal_blocked, bl_detail = detail,
                 bl_observedAt = Some observedAt\<rparr>\<rparr>)"

definition applyIntegrationObservation ::
  "goal_runtime_projection \<Rightarrow> observed_integration_state \<Rightarrow> iso \<Rightarrow> string option
     \<Rightarrow> goal_runtime_projection" where
  "applyIntegrationObservation current observed observedAt detail =
     (if observed = Ob_conflict then
        current\<lparr>pj_integrationState := observed_integration observed,
          pj_blocker := Some \<lparr>bl_kind = Bk_integration_conflict, bl_detail = detail,
            bl_observedAt = Some observedAt\<rparr>\<rparr>
      else clearBlocker (current\<lparr>pj_integrationState := observed_integration observed\<rparr>)
             (Some Bk_integration_conflict))"

definition applyWorkspaceObservation ::
  "goal_runtime_projection \<Rightarrow> goal_workspace_state \<Rightarrow> iso \<Rightarrow> string option
     \<Rightarrow> goal_runtime_projection" where
  "applyWorkspaceObservation current workspaceState observedAt detail =
     (let next = current\<lparr>pj_workspaceState := workspaceState\<rparr>
      in if workspaceState = Wk_unknown then
           (if isWorkspaceDerivedBlocker current then clearBlocker next None else next)
         else if workspaceState = Wk_clean then
           (if isWorkspaceDerivedBlocker current then clearBlocker next None else next)
         else if (case pj_blocker current of
               None \<Rightarrow> False
             | Some bl \<Rightarrow> \<not> isWorkspaceDerivedBlocker current \<and> bl_kind bl \<noteq> Bk_goal_blocked)
         then next
         else case workspaceBlockerKind workspaceState of
           None \<Rightarrow> next
         | Some kind \<Rightarrow> next\<lparr>pj_blocker := Some \<lparr>bl_kind = kind, bl_detail = detail,
              bl_observedAt = Some observedAt\<rparr>\<rparr>)"

section \<open>Applying an event\<close>

fun applyGoalScopedEvent ::
  "goal_runtime_projection \<Rightarrow> goal_runtime_event_base \<Rightarrow> goal_scoped_event
     \<Rightarrow> goal_runtime_projection" where
  "applyGoalScopedEvent current b Ge_selected = current"
| "applyGoalScopedEvent current b Ge_created = withLastActivity current (ev_occurredAt b)"
| "applyGoalScopedEvent current b Ge_completed =
     withLastActivity (current\<lparr>pj_lifecycleState := Lc_completed\<rparr>) (ev_occurredAt b)"
| "applyGoalScopedEvent current b Ge_abandoned =
     withLastActivity (current\<lparr>pj_lifecycleState := Lc_abandoned\<rparr>) (ev_occurredAt b)"
| "applyGoalScopedEvent current b Ge_archived =
     withLastActivity (current\<lparr>pj_lifecycleState := Lc_archived\<rparr>) (ev_occurredAt b)"
| "applyGoalScopedEvent current b Ge_cleaned =
     withLastActivity (current\<lparr>pj_lifecycleState := Lc_cleaned\<rparr>) (ev_occurredAt b)"
| "applyGoalScopedEvent current b (Ge_workspace_observed w) =
     applyWorkspaceObservation current w (ev_occurredAt b) (ev_detail b)"
| "applyGoalScopedEvent current b (Ge_integration_observed i) =
     withLastActivity (applyIntegrationObservation current i (ev_occurredAt b) (ev_detail b))
       (ev_occurredAt b)"
| "applyGoalScopedEvent current b (Ge_blocker_observed k) =
     withLastActivity (applyGoalBlockerObservation current k (ev_occurredAt b) (ev_detail b))
       (ev_occurredAt b)"

text \<open>A required text is missing when it is absent or blank.\<close>

definition blank_text :: "string option \<Rightarrow> bool" where
  "blank_text v = (case v of None \<Rightarrow> True | Some s \<Rightarrow> length (js_trim s) = 0)"

text \<open>\<open>None\<close> is the result \<open>{ reason: 'missing_event_data' }\<close>.\<close>

definition applyExecutionScopedEvent ::
  "goal_runtime_projection \<Rightarrow> goal_runtime_event_base \<Rightarrow> execution_scoped_event
     \<Rightarrow> goal_runtime_projection option" where
  "applyExecutionScopedEvent current b x =
     (let occurred = ev_occurredAt b;
          live = (\<lambda>p. Some (withLastActivity p occurred))
      in case xe_type x of
        Et_execution_submitted \<Rightarrow>
          live (clearBlocker ((resetExecutionLocalObservations current)
            \<lparr>pj_activeExecutionId := Some (xe_executionId x),
             pj_executionGeneration := Some (xe_executionGeneration x),
             pj_runtimeState := Rt_queued, pj_desiredRuntimeState := Ds_running\<rparr>) None)
      | Et_execution_queued \<Rightarrow>
          live (clearBlocker (current\<lparr>pj_runtimeState := Rt_queued\<rparr>) None)
      | Et_execution_started \<Rightarrow>
          live (clearBlocker (current\<lparr>pj_runtimeState := Rt_running,
            pj_desiredRuntimeState := Ds_running\<rparr>) None)
      | Et_execution_heartbeat \<Rightarrow>
          Some ((withLastActivity current occurred)\<lparr>pj_lastHeartbeatAt := Some occurred\<rparr>)
      | Et_phase_started \<Rightarrow>
          if blank_text (xe_phase x) then None
          else live (clearBlocker (current\<lparr>pj_runtimeState := Rt_running, pj_phase := xe_phase x,
            pj_progress := Some (mergeProgress current (xe_phase x) (ev_detail b))\<rparr>) None)
      | Et_phase_completed \<Rightarrow>
          if blank_text (xe_phase x) then None
          else live (current\<lparr>pj_phase := xe_phase x,
            pj_progress := Some (mergeProgress current (xe_phase x) (ev_detail b))\<rparr>)
      | Et_task_failed \<Rightarrow>
          if blank_text (xe_taskId x) then None
          else live (current\<lparr>pj_runtimeState := Rt_blocked,
            pj_blocker := Some (execution_blocker Bk_task_failed b),
            pj_progress := Some (mergeProgress current (pj_phase current) (ev_detail b))\<rparr>)
      | Et_checkpoint_created \<Rightarrow>
          if blank_text (xe_checkpointId x) then None else live current
      | Et_approval_required \<Rightarrow>
          live (current\<lparr>pj_runtimeState := Rt_waiting_approval,
            pj_blocker := Some (execution_blocker Bk_waiting_approval b)\<rparr>)
      | Et_approval_resolved \<Rightarrow>
          live (clearBlocker (current\<lparr>pj_runtimeState := Rt_running\<rparr>) (Some Bk_waiting_approval))
      | Et_input_required \<Rightarrow>
          live (current\<lparr>pj_runtimeState := Rt_waiting_input,
            pj_blocker := Some (execution_blocker Bk_waiting_input b)\<rparr>)
      | Et_input_resolved \<Rightarrow>
          live (clearBlocker (current\<lparr>pj_runtimeState := Rt_running\<rparr>) (Some Bk_waiting_input))
      | Et_execution_pause_requested \<Rightarrow> live (current\<lparr>pj_desiredRuntimeState := Ds_paused\<rparr>)
      | Et_execution_paused \<Rightarrow>
          live (current\<lparr>pj_runtimeState := Rt_paused, pj_desiredRuntimeState := Ds_paused\<rparr>)
      | Et_execution_resumed \<Rightarrow>
          live (clearBlocker (current\<lparr>pj_runtimeState := Rt_running,
            pj_desiredRuntimeState := Ds_running\<rparr>) None)
      | Et_execution_cancel_requested \<Rightarrow> live (current\<lparr>pj_desiredRuntimeState := Ds_cancelled\<rparr>)
      | Et_integration_started \<Rightarrow>
          live (clearBlocker (current\<lparr>pj_integrationState := In_integrating\<rparr>)
            (Some Bk_integration_conflict))
      | Et_integration_completed \<Rightarrow>
          live (clearBlocker (current\<lparr>pj_integrationState := In_integrated\<rparr>)
            (Some Bk_integration_conflict))
      | Et_integration_conflict \<Rightarrow>
          live (current\<lparr>pj_integrationState := In_conflict,
            pj_blocker := Some (execution_blocker Bk_integration_conflict b)\<rparr>)
      | Et_execution_completed \<Rightarrow>
          live (clearActiveExecution (clearBlocker (current\<lparr>pj_runtimeState := Rt_idle,
            pj_desiredRuntimeState := Ds_idle\<rparr>) None))
      | Et_execution_failed \<Rightarrow>
          live (clearActiveExecution (current\<lparr>pj_runtimeState := Rt_failed,
            pj_desiredRuntimeState := Ds_idle\<rparr>))
      | Et_execution_cancelled \<Rightarrow>
          live (clearActiveExecution (current\<lparr>pj_runtimeState := Rt_cancelled,
            pj_desiredRuntimeState := Ds_cancelled\<rparr>))
      | Et_worker_lost \<Rightarrow>
          live (current\<lparr>pj_runtimeState := Rt_recovery_required,
            pj_blocker := Some (execution_blocker Bk_worker_lost b)\<rparr>)
      | _ \<Rightarrow>
          \<comment> \<open>\<open>task_started\<close>, \<open>task_progress\<close> and \<open>task_completed\<close> share one branch\<close>
          if blank_text (xe_taskId x) then None
          else live (clearBlocker (current\<lparr>pj_runtimeState := Rt_running,
            pj_progress := Some (mergeProgress current (pj_phase current) (ev_detail b))\<rparr>)
            (Some Bk_task_failed)))"

section \<open>The projector\<close>

definition validateProjectionTransitions ::
  "goal_runtime_projection \<Rightarrow> goal_runtime_projection \<Rightarrow> bool \<Rightarrow> bool" where
  "validateProjectionTransitions current next authoritativeIntegrationObservation \<longleftrightarrow>
     validateGoalStateTransition
       (LifecycleTransition (pj_lifecycleState current) (pj_lifecycleState next)) \<and>
     validateGoalStateTransition
       (RuntimeTransition (pj_runtimeState current) (pj_runtimeState next)
          (pj_executionGeneration current \<noteq> pj_executionGeneration next)) \<and>
     (authoritativeIntegrationObservation \<or> validateGoalStateTransition
       (IntegrationTransition (pj_integrationState current) (pj_integrationState next))) \<and>
     validateGoalStateTransition
       (WorkspaceTransition (pj_workspaceState current) (pj_workspaceState next))"

definition runtimeRequiresActiveExecution :: "goal_runtime_state \<Rightarrow> bool" where
  "runtimeRequiresActiveExecution s \<longleftrightarrow>
     s = Rt_queued \<or> s = Rt_starting \<or> s = Rt_running \<or> s = Rt_paused \<or> s = Rt_waiting_approval
     \<or> s = Rt_waiting_input \<or> s = Rt_blocked \<or> s = Rt_recovering \<or> s = Rt_recovery_required"

definition projectionInvariantHolds :: "goal_runtime_projection \<Rightarrow> bool" where
  "projectionInvariantHolds p =
     (let requiresExecution = runtimeRequiresActiveExecution (pj_runtimeState p)
      in if pj_activeExecutionId p \<noteq> None \<and> pj_executionGeneration p = None then False
         else if requiresExecution \<and> pj_activeExecutionId p = None then False
         else if \<not> requiresExecution \<and> pj_activeExecutionId p \<noteq> None
           \<and> (pj_runtimeState p = Rt_idle \<or> pj_runtimeState p = Rt_failed
              \<or> pj_runtimeState p = Rt_cancelled) then False
         else if pj_lifecycleState p \<noteq> Lc_open \<and> requiresExecution then False
         else True)"

fun is_integration_observation :: "goal_runtime_event \<Rightarrow> bool" where
  "is_integration_observation (GoalScoped _ (Ge_integration_observed _)) = True"
| "is_integration_observation _ = False"

definition apply_event ::
  "goal_runtime_projection \<Rightarrow> goal_runtime_event \<Rightarrow> goal_runtime_projection option" where
  "apply_event current event = (case event of
     GoalScoped b g \<Rightarrow> Some (applyGoalScopedEvent current b g)
   | ExecutionScoped b x \<Rightarrow> applyExecutionScopedEvent current b x)"

definition projectGoalRuntimeEvent ::
  "goal_runtime_projection \<Rightarrow> goal_runtime_event
     \<Rightarrow> goal_runtime_event_decision \<times> goal_runtime_projection" where
  "projectGoalRuntimeEvent current event =
     (case classifyGoalRuntimeEvent current event of
        Apply \<Rightarrow>
          (case apply_event current event of
             None \<Rightarrow> (Reject Rj_missing_event_data, current)
           | Some next \<Rightarrow>
               if \<not> validateProjectionTransitions current next (is_integration_observation event)
               then (Reject Rj_invalid_transition, current)
               else if \<not> projectionInvariantHolds next
               then (Reject Rj_projection_invariant, current)
               else (Apply, next))
      | decision \<Rightarrow> (decision, current))"

abbreviation project :: "goal_runtime_projection \<Rightarrow> goal_runtime_event \<Rightarrow> goal_runtime_projection"
  where "project current event \<equiv> snd (projectGoalRuntimeEvent current event)"

section \<open>Frames of the helpers\<close>

lemma withLastActivity_frame [frame]:
  "pj_goalId (withLastActivity p t) = pj_goalId p"
  "pj_workspaceId (withLastActivity p t) = pj_workspaceId p"
  "pj_lifecycleState (withLastActivity p t) = pj_lifecycleState p"
  "pj_runtimeState (withLastActivity p t) = pj_runtimeState p"
  "pj_desiredRuntimeState (withLastActivity p t) = pj_desiredRuntimeState p"
  "pj_integrationState (withLastActivity p t) = pj_integrationState p"
  "pj_workspaceState (withLastActivity p t) = pj_workspaceState p"
  "pj_activeExecutionId (withLastActivity p t) = pj_activeExecutionId p"
  "pj_executionGeneration (withLastActivity p t) = pj_executionGeneration p"
  "pj_blocker (withLastActivity p t) = pj_blocker p"
  by (simp_all add: withLastActivity_def)

lemma clearBlocker_frame [frame]:
  "pj_goalId (clearBlocker p k) = pj_goalId p"
  "pj_workspaceId (clearBlocker p k) = pj_workspaceId p"
  "pj_lifecycleState (clearBlocker p k) = pj_lifecycleState p"
  "pj_runtimeState (clearBlocker p k) = pj_runtimeState p"
  "pj_desiredRuntimeState (clearBlocker p k) = pj_desiredRuntimeState p"
  "pj_integrationState (clearBlocker p k) = pj_integrationState p"
  "pj_workspaceState (clearBlocker p k) = pj_workspaceState p"
  "pj_activeExecutionId (clearBlocker p k) = pj_activeExecutionId p"
  "pj_executionGeneration (clearBlocker p k) = pj_executionGeneration p"
  by (simp_all add: clearBlocker_def split: option.splits)

lemma resetExecutionLocal_frame [frame]:
  "pj_goalId (resetExecutionLocalObservations p) = pj_goalId p"
  "pj_workspaceId (resetExecutionLocalObservations p) = pj_workspaceId p"
  "pj_lifecycleState (resetExecutionLocalObservations p) = pj_lifecycleState p"
  "pj_integrationState (resetExecutionLocalObservations p) = pj_integrationState p"
  "pj_workspaceState (resetExecutionLocalObservations p) = pj_workspaceState p"
  by (simp_all add: resetExecutionLocalObservations_def)

lemma clearActiveExecution_frame [frame]:
  "pj_goalId (clearActiveExecution p) = pj_goalId p"
  "pj_workspaceId (clearActiveExecution p) = pj_workspaceId p"
  "pj_lifecycleState (clearActiveExecution p) = pj_lifecycleState p"
  "pj_runtimeState (clearActiveExecution p) = pj_runtimeState p"
  "pj_integrationState (clearActiveExecution p) = pj_integrationState p"
  "pj_workspaceState (clearActiveExecution p) = pj_workspaceState p"
  "pj_activeExecutionId (clearActiveExecution p) = None"
  "pj_executionGeneration (clearActiveExecution p) = pj_executionGeneration p"
  by (simp_all add: clearActiveExecution_def)

text \<open>What a goal-scoped event leaves alone: everything about the execution.\<close>

lemma applyIntegrationObservation_frame [frame]:
  "pj_goalId (applyIntegrationObservation p i t d) = pj_goalId p"
  "pj_workspaceId (applyIntegrationObservation p i t d) = pj_workspaceId p"
  "pj_lifecycleState (applyIntegrationObservation p i t d) = pj_lifecycleState p"
  "pj_runtimeState (applyIntegrationObservation p i t d) = pj_runtimeState p"
  "pj_activeExecutionId (applyIntegrationObservation p i t d) = pj_activeExecutionId p"
  "pj_executionGeneration (applyIntegrationObservation p i t d) = pj_executionGeneration p"
  "pj_integrationState (applyIntegrationObservation p i t d) = observed_integration i"
  by (simp_all add: applyIntegrationObservation_def frame)

lemma applyGoalBlockerObservation_frame [frame]:
  "pj_goalId (applyGoalBlockerObservation p i t d) = pj_goalId p"
  "pj_workspaceId (applyGoalBlockerObservation p i t d) = pj_workspaceId p"
  "pj_lifecycleState (applyGoalBlockerObservation p i t d) = pj_lifecycleState p"
  "pj_runtimeState (applyGoalBlockerObservation p i t d) = pj_runtimeState p"
  "pj_activeExecutionId (applyGoalBlockerObservation p i t d) = pj_activeExecutionId p"
  "pj_executionGeneration (applyGoalBlockerObservation p i t d) = pj_executionGeneration p"
  "pj_integrationState (applyGoalBlockerObservation p i t d) = pj_integrationState p"
  by (simp_all add: applyGoalBlockerObservation_def frame split: option.splits)

lemma applyWorkspaceObservation_frame [frame]:
  "pj_goalId (applyWorkspaceObservation p i t d) = pj_goalId p"
  "pj_workspaceId (applyWorkspaceObservation p i t d) = pj_workspaceId p"
  "pj_lifecycleState (applyWorkspaceObservation p i t d) = pj_lifecycleState p"
  "pj_runtimeState (applyWorkspaceObservation p i t d) = pj_runtimeState p"
  "pj_activeExecutionId (applyWorkspaceObservation p i t d) = pj_activeExecutionId p"
  "pj_executionGeneration (applyWorkspaceObservation p i t d) = pj_executionGeneration p"
  "pj_integrationState (applyWorkspaceObservation p i t d) = pj_integrationState p"
  by (simp_all add: applyWorkspaceObservation_def frame Let_def split: option.splits)

lemma applyGoalScopedEvent_frame [frame]:
  "pj_goalId (applyGoalScopedEvent p b g) = pj_goalId p"
  "pj_workspaceId (applyGoalScopedEvent p b g) = pj_workspaceId p"
  "pj_runtimeState (applyGoalScopedEvent p b g) = pj_runtimeState p"
  "pj_activeExecutionId (applyGoalScopedEvent p b g) = pj_activeExecutionId p"
  "pj_executionGeneration (applyGoalScopedEvent p b g) = pj_executionGeneration p"
  by (cases g; simp add: frame)+

text \<open>What an execution-scoped event leaves alone: the goal and its life.\<close>

lemma applyExecutionScopedEvent_frame:
  assumes "applyExecutionScopedEvent p b x = Some q"
  shows "pj_goalId q = pj_goalId p" "pj_workspaceId q = pj_workspaceId p"
    "pj_lifecycleState q = pj_lifecycleState p"
    "xe_type x \<noteq> Et_execution_submitted \<longrightarrow>
       pj_executionGeneration q = pj_executionGeneration p"
    "xe_type x \<noteq> Et_execution_submitted \<longrightarrow>
       pj_activeExecutionId q = pj_activeExecutionId p \<or> pj_activeExecutionId q = None"
  using assms unfolding applyExecutionScopedEvent_def Let_def
  by (cases "xe_type x"; auto simp: frame split: if_splits)+

lemma applyExecutionScopedEvent_submitted:
  assumes "applyExecutionScopedEvent p b x = Some q" "xe_type x = Et_execution_submitted"
  shows "pj_executionGeneration q = Some (xe_executionGeneration x)"
    "pj_activeExecutionId q = Some (xe_executionId x)" "pj_runtimeState q = Rt_queued"
    "pj_integrationState q = pj_integrationState p"
  using assms by (auto simp: applyExecutionScopedEvent_def Let_def frame)

text \<open>The run-time state an execution event moves to, when it moves it.\<close>

fun runtime_target :: "execution_scoped_type \<Rightarrow> goal_runtime_state option" where
  "runtime_target Et_execution_submitted = Some Rt_queued"
| "runtime_target Et_execution_queued = Some Rt_queued"
| "runtime_target Et_execution_started = Some Rt_running"
| "runtime_target Et_phase_started = Some Rt_running"
| "runtime_target Et_task_started = Some Rt_running"
| "runtime_target Et_task_progress = Some Rt_running"
| "runtime_target Et_task_completed = Some Rt_running"
| "runtime_target Et_task_failed = Some Rt_blocked"
| "runtime_target Et_approval_required = Some Rt_waiting_approval"
| "runtime_target Et_approval_resolved = Some Rt_running"
| "runtime_target Et_input_required = Some Rt_waiting_input"
| "runtime_target Et_input_resolved = Some Rt_running"
| "runtime_target Et_execution_paused = Some Rt_paused"
| "runtime_target Et_execution_resumed = Some Rt_running"
| "runtime_target Et_execution_completed = Some Rt_idle"
| "runtime_target Et_execution_failed = Some Rt_failed"
| "runtime_target Et_execution_cancelled = Some Rt_cancelled"
| "runtime_target Et_worker_lost = Some Rt_recovery_required"
| "runtime_target _ = None"

lemma applyExecutionScopedEvent_runtime:
  assumes "applyExecutionScopedEvent p b x = Some q"
  shows "pj_runtimeState q = (case runtime_target (xe_type x) of
    None \<Rightarrow> pj_runtimeState p | Some r \<Rightarrow> r)"
  using assms unfolding applyExecutionScopedEvent_def Let_def
  by (cases "xe_type x"; auto simp: frame split: if_splits)

lemma applyExecutionScopedEvent_integration:
  assumes "applyExecutionScopedEvent p b x = Some q" "\<not> is_integration_event (xe_type x)"
  shows "pj_integrationState q = pj_integrationState p"
  using assms unfolding applyExecutionScopedEvent_def Let_def is_integration_event_def
  by (cases "xe_type x"; auto simp: frame split: if_splits)

section \<open>Accepted events\<close>

text \<open>
  An event is accepted when the fence lets it through, its data is complete, the transition table
  has the change and the result satisfies the invariant; otherwise nothing changes.
\<close>

definition accepted :: "goal_runtime_projection \<Rightarrow> goal_runtime_event \<Rightarrow> bool" where
  "accepted p e \<longleftrightarrow> fst (projectGoalRuntimeEvent p e) = Apply"

lemma not_accepted: "\<not> accepted p e \<Longrightarrow> project p e = p"
  by (auto simp: accepted_def projectGoalRuntimeEvent_def
      split: goal_runtime_event_decision.splits option.splits if_splits)

lemma accepted_iff:
  "accepted p e \<longleftrightarrow> classifyGoalRuntimeEvent p e = Apply \<and>
     (\<exists>q. apply_event p e = Some q
        \<and> validateProjectionTransitions p q (is_integration_observation e)
        \<and> projectionInvariantHolds q)"
  by (auto simp: accepted_def projectGoalRuntimeEvent_def
      split: goal_runtime_event_decision.splits option.splits if_splits)

lemma accepted_project:
  assumes "accepted p e"
  shows "classifyGoalRuntimeEvent p e = Apply" "apply_event p e = Some (project p e)"
    "validateProjectionTransitions p (project p e) (is_integration_observation e)"
    "projectionInvariantHolds (project p e)"
  using assms by (auto simp: accepted_def projectGoalRuntimeEvent_def
      split: goal_runtime_event_decision.splits option.splits if_splits)

text \<open>Case analysis of one step of the projector.\<close>

lemma project_cases [case_names refused goal_event execution_event]:
  obtains (refused) "\<not> accepted p e" "project p e = p"
  | (goal_event) b g where "accepted p e" "e = GoalScoped b g"
      "project p e = applyGoalScopedEvent p b g"
  | (execution_event) b x where "accepted p e" "e = ExecutionScoped b x"
      "applyExecutionScopedEvent p b x = Some (project p e)"
      "classify_execution_event p x = Apply"
proof (cases "accepted p e")
  case False
  then show ?thesis using refused not_accepted by blast
next
  case True
  note acc = accepted_project [OF True]
  show ?thesis
  proof (cases e)
    case (GoalScoped b g)
    with acc(2) have "project p e = applyGoalScopedEvent p b g" by (simp add: apply_event_def)
    with True GoalScoped show ?thesis using goal_event by blast
  next
    case (ExecutionScoped b x)
    with acc(2) have step: "applyExecutionScopedEvent p b x = Some (project p e)"
      by (simp add: apply_event_def)
    from ExecutionScoped acc(1) have "classify_execution_event p x = Apply"
      by (auto simp: classifyGoalRuntimeEvent_def split: if_splits)
    with True ExecutionScoped step show ?thesis using execution_event by blast
  qed
qed

lemma accepted_transitions:
  assumes "accepted p e"
  shows "validateGoalStateTransition
      (LifecycleTransition (pj_lifecycleState p) (pj_lifecycleState (project p e)))"
    "validateGoalStateTransition
      (RuntimeTransition (pj_runtimeState p) (pj_runtimeState (project p e))
        (pj_executionGeneration p \<noteq> pj_executionGeneration (project p e)))"
    "\<not> is_integration_observation e \<Longrightarrow> validateGoalStateTransition
      (IntegrationTransition (pj_integrationState p) (pj_integrationState (project p e)))"
  using accepted_project(3) [OF assms] by (simp_all add: validateProjectionTransitions_def)

end
