(* ===== verification/Goal_Runtime_Safety.thy ===== *)
theory Goal_Runtime_Safety
  imports Goal_Runtime_Projector
begin

text \<open>
  What the projector guarantees over any sequence of events: its invariant and the identity of the
  goal are kept, generations and lifecycles only advance, an execution that ended is not revived,
  a closed goal gets no execution. One step at a time the facts come from the case analysis of the
  projector; the sequences come from the generic machines, interpreted on \<open>project\<close>.
\<close>

section \<open>One step\<close>

definition same_goal :: "goal_runtime_projection \<Rightarrow> goal_runtime_projection \<Rightarrow> bool" where
  "same_goal p q \<longleftrightarrow> pj_goalId q = pj_goalId p \<and> pj_workspaceId q = pj_workspaceId p"

lemma project_same_goal: "same_goal p (project p e)"
  by (cases rule: project_cases [of p e])
    (auto simp: same_goal_def frame dest: applyExecutionScopedEvent_frame(1,2))

lemma project_inv: "projectionInvariantHolds p \<Longrightarrow> projectionInvariantHolds (project p e)"
  using accepted_project(4) not_accepted by metis

text \<open>The fence on one execution event that is let through.\<close>

lemma fence_cases:
  assumes "classify_execution_event p x = Apply"
  obtains (first) "pj_executionGeneration p = None" "xe_type x = Et_execution_submitted"
      "xe_executionGeneration x = 1"
  | (newer) g where "pj_executionGeneration p = Some g" "xe_type x = Et_execution_submitted"
      "xe_executionGeneration x = g + 1"
  | (live) "pj_executionGeneration p = Some (xe_executionGeneration x)"
      "pj_activeExecutionId p = Some (xe_executionId x)"
  | (settled) "pj_executionGeneration p = Some (xe_executionGeneration x)"
      "pj_activeExecutionId p = None" "is_integration_event (xe_type x)"
  using assms
  by (auto simp: classify_execution_event_def not_less split: if_splits option.splits)

lemma integration_event_no_target: "is_integration_event t \<Longrightarrow> runtime_target t = None"
  by (auto simp: is_integration_event_def)

lemma integration_event_not_submitted: "is_integration_event t \<Longrightarrow> t \<noteq> Et_execution_submitted"
  by (auto simp: is_integration_event_def)

text \<open>Generations only advance, and a generation whose execution ended stays ended.\<close>

definition generation_extends :: "goal_runtime_projection \<Rightarrow> goal_runtime_projection \<Rightarrow> bool" where
  "generation_extends p q \<longleftrightarrow>
     pj_executionGeneration p \<le> pj_executionGeneration q \<and>
     (pj_executionGeneration p = pj_executionGeneration q \<and> pj_activeExecutionId p = None \<longrightarrow>
        pj_activeExecutionId q = None \<and> pj_runtimeState q = pj_runtimeState p)"

lemma generation_extends_refl: "generation_extends p p"
  by (simp add: generation_extends_def)

lemma generation_extends_trans:
  "generation_extends p q \<Longrightarrow> generation_extends q r \<Longrightarrow> generation_extends p r"
  unfolding generation_extends_def
  by (metis order_antisym order_trans)

lemma project_generation_extends: "generation_extends p (project p e)"
proof (cases rule: project_cases [of p e])
  case refused
  then show ?thesis by (simp add: generation_extends_refl)
next
  case (goal_event b g)
  then show ?thesis by (simp add: generation_extends_def frame)
next
  case (execution_event b x)
  note step = execution_event(3)
  from execution_event(4) show ?thesis
  proof (cases rule: fence_cases)
    case first
    then show ?thesis
      using applyExecutionScopedEvent_submitted [OF step] by (simp add: generation_extends_def)
  next
    case (newer g)
    then show ?thesis
      using applyExecutionScopedEvent_submitted [OF step] by (simp add: generation_extends_def)
  next
    case live
    then show ?thesis
      using applyExecutionScopedEvent_submitted(1) [OF step] applyExecutionScopedEvent_frame(4)
        [OF step]
      by (cases "xe_type x = Et_execution_submitted") (simp_all add: generation_extends_def)
  next
    case settled
    then show ?thesis
      using applyExecutionScopedEvent_frame(4,5) [OF step] applyExecutionScopedEvent_runtime [OF step]
      by (simp add: generation_extends_def integration_event_no_target
          integration_event_not_submitted)
  qed
qed

text \<open>The lifecycle only advances; a closed goal gets no new generation.\<close>

definition lifecycle_extends :: "goal_runtime_projection \<Rightarrow> goal_runtime_projection \<Rightarrow> bool" where
  "lifecycle_extends p q \<longleftrightarrow>
     (pj_lifecycleState p = pj_lifecycleState q
        \<or> lifecycle_rank (pj_lifecycleState p) < lifecycle_rank (pj_lifecycleState q)) \<and>
     (pj_lifecycleState p \<noteq> Lc_open \<longrightarrow>
        pj_executionGeneration q = pj_executionGeneration p)"

lemma lifecycle_extends_refl: "lifecycle_extends p p"
  by (simp add: lifecycle_extends_def)

lemma lifecycle_extends_trans:
  assumes "lifecycle_extends p q" "lifecycle_extends q r"
  shows "lifecycle_extends p r"
proof -
  have "pj_lifecycleState p \<noteq> Lc_open \<Longrightarrow> pj_lifecycleState q \<noteq> Lc_open"
    using assms(1) by (auto simp: lifecycle_extends_def)
  then show ?thesis using assms unfolding lifecycle_extends_def by (metis order_less_trans)
qed

lemma classify_closed_not_submitted:
  "classify_execution_event p x = Apply \<Longrightarrow> pj_lifecycleState p \<noteq> Lc_open \<Longrightarrow>
     xe_type x \<noteq> Et_execution_submitted"
  by (auto simp: classify_execution_event_def is_integration_event_def split: if_splits)

lemma project_lifecycle_extends: "lifecycle_extends p (project p e)"
proof (cases rule: project_cases [of p e])
  case refused
  then show ?thesis by (simp add: lifecycle_extends_refl)
next
  case (goal_event b g)
  then show ?thesis
    using lifecycle_transition_rank [OF accepted_transitions(1) [OF goal_event(1)]]
    by (simp add: lifecycle_extends_def frame)
next
  case (execution_event b x)
  then show ?thesis
    using applyExecutionScopedEvent_frame(3,4) [OF execution_event(3)]
      classify_closed_not_submitted [OF execution_event(4)]
    by (simp add: lifecycle_extends_def)
qed

section \<open>Sequences of events\<close>

definition projection_extends :: "goal_runtime_projection \<Rightarrow> goal_runtime_projection \<Rightarrow> bool" where
  "projection_extends p q \<longleftrightarrow> same_goal p q \<and> generation_extends p q \<and> lifecycle_extends p q"

interpretation projector: progress_machine project projectionInvariantHolds projection_extends
proof unfold_locales
  show "projectionInvariantHolds p \<Longrightarrow> projectionInvariantHolds (project p e)" for p e
    by (rule project_inv)
  show "projection_extends p p" for p
    by (simp add: projection_extends_def same_goal_def generation_extends_refl
        lifecycle_extends_refl)
  show "projection_extends p q \<Longrightarrow> projection_extends q r \<Longrightarrow> projection_extends p r" for p q r
    unfolding projection_extends_def same_goal_def
    by (metis generation_extends_trans lifecycle_extends_trans)
  show "projection_extends p (project p e)" for p e
    by (simp add: projection_extends_def project_same_goal project_generation_extends
        project_lifecycle_extends)
qed

abbreviation project_all ::
  "goal_runtime_projection \<Rightarrow> goal_runtime_event list \<Rightarrow> goal_runtime_projection" where
  "project_all \<equiv> run_ops project"

lemmas run_extends = projector.run_rel

text \<open>The states the projector never produces.\<close>

definition no_transient_state :: "goal_runtime_projection \<Rightarrow> bool" where
  "no_transient_state p \<longleftrightarrow> pj_runtimeState p \<noteq> Rt_starting \<and> pj_runtimeState p \<noteq> Rt_recovering"

lemma runtime_target_no_transient:
  "runtime_target t \<noteq> Some Rt_starting" "runtime_target t \<noteq> Some Rt_recovering"
  by (cases t; simp)+

lemma project_no_transient: "no_transient_state p \<Longrightarrow> no_transient_state (project p e)"
  by (cases rule: project_cases [of p e])
    (auto simp: no_transient_state_def frame applyExecutionScopedEvent_runtime
      runtime_target_no_transient split: option.splits)

interpretation transient: invariant_machine project no_transient_state
  by unfold_locales (rule project_no_transient)

section \<open>A concrete goal\<close>

definition sample_projection :: goal_runtime_projection where
  "sample_projection = \<lparr>pj_goalId = ''goal-1'', pj_workspaceId = ''ws-1'',
     pj_lifecycleState = Lc_open, pj_runtimeState = Rt_idle, pj_desiredRuntimeState = Ds_idle,
     pj_integrationState = In_not_started, pj_workspaceState = Wk_clean,
     pj_activeExecutionId = None, pj_executionGeneration = None, pj_phase = None,
     pj_progress = None, pj_lastActivityAt = Instant 0, pj_lastHeartbeatAt = None,
     pj_blocker = None\<rparr>"

definition sample_event :: "int \<Rightarrow> execution_scoped_type \<Rightarrow> int \<Rightarrow> goal_runtime_event" where
  "sample_event n t g = ExecutionScoped
     \<lparr>ev_eventId = ''event'', ev_workspaceId = ''ws-1'', ev_goalId = ''goal-1'',
       ev_occurredAt = Instant n, ev_detail = None\<rparr>
     \<lparr>xe_type = t, xe_executionId = ''exec-1'', xe_executionGeneration = g, xe_phase = None,
       xe_taskId = None, xe_checkpointId = None, xe_blockerKind = None\<rparr>"

definition sample_goal_event :: "int \<Rightarrow> goal_scoped_event \<Rightarrow> goal_runtime_event" where
  "sample_goal_event n g = GoalScoped
     \<lparr>ev_eventId = ''event'', ev_workspaceId = ''ws-1'', ev_goalId = ''goal-1'',
       ev_occurredAt = Instant n, ev_detail = None\<rparr> g"

lemmas sample_defs = sample_projection_def sample_event_def sample_goal_event_def

lemmas project_eval = projectGoalRuntimeEvent_def classifyGoalRuntimeEvent_def
  classify_execution_event_def apply_event_def applyExecutionScopedEvent_def
  validateProjectionTransitions_def validate_runtime_transition_def projectionInvariantHolds_def
  runtimeRequiresActiveExecution_def isTerminalRuntimeState_def isExecutionActiveRuntimeState_def
  isExecutionActivityEvent_def is_integration_event_def withLastActivity_def clearBlocker_def
  resetExecutionLocalObservations_def clearActiveExecution_def execution_blocker_def blank_text_def

section \<open>Properties\<close>

lemma not_requires_iff:
  assumes "projectionInvariantHolds p"
  shows "\<not> runtimeRequiresActiveExecution (pj_runtimeState p) \<longleftrightarrow> pj_activeExecutionId p = None"
  using assms unfolding projectionInvariantHolds_def Let_def
  by (cases "pj_runtimeState p") (auto simp: runtimeRequiresActiveExecution_def split: if_splits)

section \<open>What an execution event does\<close>

text \<open>What an execution event must bring to be applied, stated apart from the order of the checks.\<close>

definition event_addressed :: "goal_runtime_projection \<Rightarrow> goal_runtime_event_base \<Rightarrow> bool" where
  "event_addressed p b \<longleftrightarrow> ev_goalId b = pj_goalId p \<and> ev_workspaceId b = pj_workspaceId p"

definition opens_generation :: "goal_runtime_projection \<Rightarrow> execution_scoped_event \<Rightarrow> bool" where
  "opens_generation p x \<longleftrightarrow> pj_lifecycleState p = Lc_open \<and> xe_type x = Et_execution_submitted
     \<and> xe_executionGeneration x = (case pj_executionGeneration p of None \<Rightarrow> 1 | Some g \<Rightarrow> g + 1)"

definition reports_execution :: "goal_runtime_projection \<Rightarrow> execution_scoped_event \<Rightarrow> bool" where
  "reports_execution p x \<longleftrightarrow> pj_executionGeneration p = Some (xe_executionGeneration x)
     \<and> (pj_activeExecutionId p = Some (xe_executionId x)
        \<or> pj_activeExecutionId p = None \<and> is_integration_event (xe_type x)
           \<and> pj_lifecycleState p \<in> {Lc_open, Lc_completed, Lc_abandoned})"

definition event_complete :: "execution_scoped_event \<Rightarrow> bool" where
  "event_complete x \<longleftrightarrow>
     (xe_type x \<in> {Et_phase_started, Et_phase_completed} \<longrightarrow> \<not> blank_text (xe_phase x))
   \<and> (xe_type x \<in> {Et_task_started, Et_task_progress, Et_task_completed, Et_task_failed}
        \<longrightarrow> \<not> blank_text (xe_taskId x))
   \<and> (xe_type x = Et_checkpoint_created \<longrightarrow> \<not> blank_text (xe_checkpointId x))"

fun integration_target :: "execution_scoped_type \<Rightarrow> goal_integration_state option" where
  "integration_target Et_integration_started = Some In_integrating"
| "integration_target Et_integration_completed = Some In_integrated"
| "integration_target Et_integration_conflict = Some In_conflict"
| "integration_target _ = None"

definition moves_allowed :: "goal_runtime_projection \<Rightarrow> execution_scoped_event \<Rightarrow> bool" where
  "moves_allowed p x \<longleftrightarrow>
     (\<forall>s. runtime_target (xe_type x) = Some s \<longrightarrow>
        s = pj_runtimeState p \<or> s \<in> set (runtime_allowed (pj_runtimeState p)))
   \<and> (\<forall>s. integration_target (xe_type x) = Some s \<longrightarrow>
        s = pj_integrationState p \<or> s \<in> set (integration_allowed (pj_integrationState p)))"

definition ends_execution :: "execution_scoped_type \<Rightarrow> bool" where
  "ends_execution t \<longleftrightarrow> t \<in> {Et_execution_completed, Et_execution_failed, Et_execution_cancelled}"

definition event_fits :: "goal_runtime_projection \<Rightarrow> goal_runtime_event_base \<Rightarrow> execution_scoped_event \<Rightarrow> bool" where
  "event_fits p b x \<longleftrightarrow> event_addressed p b \<and> event_complete x
     \<and> (opens_generation p x \<or> reports_execution p x \<and> moves_allowed p x)"

lemma active_iff:
  assumes "projectionInvariantHolds p"
  shows "pj_activeExecutionId p \<noteq> None \<longleftrightarrow> runtimeRequiresActiveExecution (pj_runtimeState p)"
    "pj_activeExecutionId p \<noteq> None \<Longrightarrow> pj_executionGeneration p \<noteq> None"
    "pj_activeExecutionId p \<noteq> None \<Longrightarrow> pj_lifecycleState p = Lc_open"
  using not_requires_iff [OF assms] assms unfolding projectionInvariantHolds_def Let_def by (auto split: if_splits)

lemma active_not_terminal:
  assumes "projectionInvariantHolds p" "pj_activeExecutionId p \<noteq> None"
  shows "\<not> isTerminalRuntimeState (pj_runtimeState p)"
  using active_iff(1) [OF assms(1)] assms(2)
  by (auto simp: isTerminalRuntimeState_def runtimeRequiresActiveExecution_def)

lemma classify_apply_iff:
  assumes "projectionInvariantHolds p"
  shows "classifyGoalRuntimeEvent p (ExecutionScoped b x) = Apply
    \<longleftrightarrow> event_addressed p b \<and> (opens_generation p x \<or> reports_execution p x)"
proof -
  have ie: "isExecutionActivityEvent t = False" if "is_integration_event t" for t
    using that by (auto simp: isExecutionActivityEvent_def is_integration_event_def)
  have sub: "\<not> is_integration_event Et_execution_submitted" by (simp add: is_integration_event_def)
  show ?thesis
    using active_iff [OF assms] active_not_terminal [OF assms] ie sub
    by (cases "pj_lifecycleState p"; cases "pj_activeExecutionId p"; cases "pj_executionGeneration p")
      (auto simp: classifyGoalRuntimeEvent_def classify_execution_event_def event_addressed_def
        opens_generation_def reports_execution_def)
qed

lemma apply_complete_iff: "applyExecutionScopedEvent p b x \<noteq> None \<longleftrightarrow> event_complete x"
  by (cases "xe_type x") (auto simp: applyExecutionScopedEvent_def Let_def event_complete_def)

lemma apply_integration:
  "applyExecutionScopedEvent p b x = Some q \<Longrightarrow> pj_integrationState q = (case integration_target (xe_type x) of
     None \<Rightarrow> pj_integrationState p | Some s \<Rightarrow> s)"
  unfolding applyExecutionScopedEvent_def Let_def by (cases "xe_type x"; auto simp: frame split: if_splits)

lemma apply_active:
  "applyExecutionScopedEvent p b x = Some q \<Longrightarrow> pj_activeExecutionId q =
    (if ends_execution (xe_type x) then None else if xe_type x = Et_execution_submitted then Some (xe_executionId x)
     else pj_activeExecutionId p) \<and> pj_workspaceState q = pj_workspaceState p"
  unfolding applyExecutionScopedEvent_def Let_def ends_execution_def by (cases "xe_type x"; auto simp: frame split: if_splits)

lemma apply_activity:
  "applyExecutionScopedEvent p b x = Some q \<Longrightarrow> pj_lastActivityAt q = ev_occurredAt b"
  unfolding applyExecutionScopedEvent_def Let_def by (auto simp: withLastActivity_def split: execution_scoped_type.splits if_splits)

lemma runtime_target_ends:
  "runtime_target t = Some s \<Longrightarrow> runtimeRequiresActiveExecution s \<longleftrightarrow> \<not> ends_execution t"
  by (cases t) (auto simp: runtimeRequiresActiveExecution_def ends_execution_def)

lemma ends_has_target: "ends_execution t \<Longrightarrow> runtime_target t \<noteq> None"
  by (auto simp: ends_execution_def)

text \<open>
  After an execution event that the fence lets through, the invariant holds again by itself: the second
  look of the projector never refuses such an event.
\<close>

lemma applied_inv:
  assumes inv: "projectionInvariantHolds p" and a: "applyExecutionScopedEvent p b x = Some q"
    and r: "opens_generation p x \<or> reports_execution p x"
  shows "projectionInvariantHolds q"
proof -
  have gen: "pj_executionGeneration q \<noteq> None"
    using r applyExecutionScopedEvent_frame(4) [OF a] applyExecutionScopedEvent_submitted(1) [OF a]
    by (cases "xe_type x = Et_execution_submitted") (auto simp: reports_execution_def opens_generation_def)
  have settled: "pj_runtimeState q = pj_runtimeState p \<and> \<not> ends_execution (xe_type x)
      \<and> xe_type x \<noteq> Et_execution_submitted" if "is_integration_event (xe_type x)"
    using that applyExecutionScopedEvent_runtime [OF a] integration_event_no_target [OF that]
    by (auto simp: ends_execution_def is_integration_event_def)
  have open': "pj_lifecycleState q = Lc_open" if "pj_activeExecutionId p \<noteq> None \<or> opens_generation p x"
    using that active_iff(3) [OF inv] applyExecutionScopedEvent_frame(3) [OF a] by (auto simp: opens_generation_def)
  have live: "pj_activeExecutionId q \<noteq> None \<longleftrightarrow> runtimeRequiresActiveExecution (pj_runtimeState q)"
  proof (cases "runtime_target (xe_type x)")
    case None
    then show ?thesis
      using applyExecutionScopedEvent_runtime [OF a] apply_active [OF a] active_iff(1) [OF inv] ends_has_target
      by (auto simp del: not_None_eq)
  next
    case (Some s)
    then have "pj_runtimeState q = s" "\<not> is_integration_event (xe_type x)"
      using applyExecutionScopedEvent_runtime [OF a] integration_event_no_target by auto
    moreover have "pj_activeExecutionId q \<noteq> None \<longleftrightarrow> \<not> ends_execution (xe_type x)"
      using r calculation(2) apply_active [OF a] by (auto simp: opens_generation_def reports_execution_def)
    ultimately show ?thesis using runtime_target_ends [OF Some] by simp
  qed
  have "pj_lifecycleState q = Lc_open" if "pj_activeExecutionId q \<noteq> None"
    using that open' apply_active [OF a] r settled by (auto simp: reports_execution_def split: if_splits)
  then show ?thesis using gen live unfolding projectionInvariantHolds_def Let_def by auto
qed

lemma moves_valid:
  assumes inv: "projectionInvariantHolds p" and a: "applyExecutionScopedEvent p b x = Some q"
    and r: "opens_generation p x \<or> reports_execution p x"
  shows "validateProjectionTransitions p q False \<longleftrightarrow> opens_generation p x \<or> moves_allowed p x"
proof -
  have gen: "pj_executionGeneration q = pj_executionGeneration p" if "\<not> opens_generation p x"
    using that r applyExecutionScopedEvent_frame(4) [OF a] applyExecutionScopedEvent_submitted(1) [OF a]
    by (cases "xe_type x = Et_execution_submitted") (auto simp: reports_execution_def)
  have opened: "pj_executionGeneration q \<noteq> pj_executionGeneration p \<and> pj_runtimeState q = Rt_queued
      \<and> pj_integrationState q = pj_integrationState p" if "opens_generation p x"
    using that applyExecutionScopedEvent_submitted [OF a] by (auto simp: opens_generation_def split: option.splits)
  have fresh: "\<not> (isTerminalRuntimeState (pj_runtimeState p) \<and> pj_runtimeState q \<noteq> pj_runtimeState p)"
    if n: "\<not> opens_generation p x"
  proof
    assume t: "isTerminalRuntimeState (pj_runtimeState p) \<and> pj_runtimeState q \<noteq> pj_runtimeState p"
    then have "pj_activeExecutionId p = None" using active_not_terminal [OF inv] by blast
    then have "is_integration_event (xe_type x)" using r n by (auto simp: reports_execution_def)
    then show False using t applyExecutionScopedEvent_runtime [OF a] by (simp add: integration_event_no_target)
  qed
  have lc: "pj_lifecycleState q = pj_lifecycleState p" by (rule applyExecutionScopedEvent_frame(3) [OF a])
  show ?thesis
  proof (cases "opens_generation p x")
    case True
    then show ?thesis using opened lc
      by (auto simp: validateProjectionTransitions_def validate_runtime_transition_iff isExecutionActiveRuntimeState_def)
  next
    case False
    have rt: "validate_runtime_transition (pj_runtimeState p) (pj_runtimeState q) False
        \<longleftrightarrow> pj_runtimeState q \<in> set (runtime_allowed (pj_runtimeState p))"
      if "pj_runtimeState q \<noteq> pj_runtimeState p"
      using fresh [OF False] that unfolding validate_runtime_transition_iff by blast
    have m: "moves_allowed p x \<longleftrightarrow>
        (pj_runtimeState q = pj_runtimeState p \<or> pj_runtimeState q \<in> set (runtime_allowed (pj_runtimeState p)))
      \<and> (pj_integrationState q = pj_integrationState p
         \<or> pj_integrationState q \<in> set (integration_allowed (pj_integrationState p)))"
      unfolding moves_allowed_def applyExecutionScopedEvent_runtime [OF a] apply_integration [OF a]
      by (cases "runtime_target (xe_type x)"; cases "integration_target (xe_type x)") simp_all
    show ?thesis
      using False rt gen [OF False] lc unfolding m validateProjectionTransitions_def
      by (cases "pj_runtimeState q = pj_runtimeState p") (auto simp: eq_commute [of "pj_runtimeState p"])
  qed
qed

text \<open>
  C1: The projector applies an execution event exactly when it fits: it is addressed to this goal and
  workspace, carries the data its kind needs, and either opens the next generation of an open goal, or
  reports on the active execution of the current generation (or, when none is active, on its
  integration) a move that the tables of the run-time and integration states have. The projection then
  shows the state the event names, the execution it opens, none once the execution has ended, and the
  time of the event; everything that says which goal it is stays. In all other cases nothing changes.
  The second look at the invariant refuses no execution event, so the handlers keep it on their own.
\<close>

theorem execution_event_exact:
  assumes "projectionInvariantHolds p"
  shows "let (decision, q) = projectGoalRuntimeEvent p (ExecutionScoped b x) in
     (decision = Apply \<longleftrightarrow> event_fits p b x) \<and> decision \<noteq> Reject Rj_projection_invariant
   \<and> (if decision = Apply
      then pj_runtimeState q = (case runtime_target (xe_type x) of None \<Rightarrow> pj_runtimeState p | Some s \<Rightarrow> s)
       \<and> pj_integrationState q = (case integration_target (xe_type x) of None \<Rightarrow> pj_integrationState p | Some s \<Rightarrow> s)
       \<and> pj_executionGeneration q = Some (xe_executionGeneration x)
       \<and> pj_activeExecutionId q = (if ends_execution (xe_type x) then None
           else if xe_type x = Et_execution_submitted then Some (xe_executionId x) else pj_activeExecutionId p)
       \<and> pj_lastActivityAt q = ev_occurredAt b
       \<and> pj_goalId q = pj_goalId p \<and> pj_workspaceId q = pj_workspaceId p
       \<and> pj_lifecycleState q = pj_lifecycleState p \<and> pj_workspaceState q = pj_workspaceState p
       \<and> projectionInvariantHolds q
      else q = p)"
proof -
  let ?e = "ExecutionScoped b x"
  obtain d q where dq: "projectGoalRuntimeEvent p ?e = (d, q)" by (cases "projectGoalRuntimeEvent p ?e")
  have obs: "\<not> is_integration_observation ?e" by simp
  show ?thesis
  proof (cases "classifyGoalRuntimeEvent p ?e = Apply")
    case False
    then have "d = classifyGoalRuntimeEvent p ?e \<and> q = p" "\<not> event_fits p b x"
      using dq classify_apply_iff [OF assms, of b x] by (auto simp: projectGoalRuntimeEvent_def event_fits_def
        split: goal_runtime_event_decision.splits)
    moreover have "classifyGoalRuntimeEvent p ?e \<noteq> Reject Rj_projection_invariant"
      by (auto simp: classifyGoalRuntimeEvent_def classify_execution_event_def split: option.splits)
    ultimately show ?thesis using dq False by simp
  next
    case True
    then have fence: "event_addressed p b" "opens_generation p x \<or> reports_execution p x"
      using classify_apply_iff [OF assms] by blast+
    show ?thesis
    proof (cases "applyExecutionScopedEvent p b x")
      case None
      then show ?thesis using True dq apply_complete_iff [of p b x]
        by (auto simp: projectGoalRuntimeEvent_def apply_event_def event_fits_def)
    next
      case (Some r)
      note step = Some
      have v: "validateProjectionTransitions p r False \<longleftrightarrow> opens_generation p x \<or> moves_allowed p x"
        by (rule moves_valid [OF assms step fence(2)])
      have inv: "projectionInvariantHolds r" by (rule applied_inv [OF assms step fence(2)])
      have fits: "event_fits p b x \<longleftrightarrow> opens_generation p x \<or> moves_allowed p x"
        using fence apply_complete_iff [of p b x] step by (auto simp: event_fits_def)
      have gen: "pj_executionGeneration r = Some (xe_executionGeneration x)"
        using fence(2) applyExecutionScopedEvent_frame(4) [OF step] applyExecutionScopedEvent_submitted(1) [OF step]
        by (cases "xe_type x = Et_execution_submitted") (auto simp: reports_execution_def opens_generation_def)
      have dq': "(d, q) = (if event_fits p b x then (Apply, r) else (Reject Rj_invalid_transition, p))"
        using dq True step v inv fits obs by (simp add: projectGoalRuntimeEvent_def apply_event_def split: if_splits)
      show ?thesis
        using dq dq' inv gen applyExecutionScopedEvent_frame(1-3) [OF step] applyExecutionScopedEvent_runtime [OF step]
          apply_integration [OF step] apply_active [OF step] apply_activity [OF step]
        by (cases "event_fits p b x") (simp_all add: dq)
    qed
  qed
qed

definition sample_completion :: execution_scoped_event where
  "sample_completion = \<lparr>xe_type = Et_execution_completed, xe_executionId = ''exec-1'',
     xe_executionGeneration = 1, xe_phase = None, xe_taskId = None, xe_checkpointId = None,
     xe_blockerKind = None\<rparr>"

definition started_projection :: goal_runtime_projection where
  "started_projection = project_all sample_projection
     [sample_event 1 Et_execution_submitted 1, sample_event 2 Et_execution_started 1]"

lemma started_projection_facts:
  "projectionInvariantHolds started_projection"
  "event_fits started_projection (event_base (sample_event 3 Et_execution_completed 1)) sample_completion"
  "pj_activeExecutionId started_projection = Some ''exec-1''"
  by (simp_all add: started_projection_def sample_completion_def sample_defs project_eval event_fits_def
      event_addressed_def event_complete_def reports_execution_def moves_allowed_def)

theorem execution_event_exact_witness:
  "let q = project started_projection
       (ExecutionScoped (event_base (sample_event 3 Et_execution_completed 1)) sample_completion) in
     pj_runtimeState q = Rt_idle \<and> pj_activeExecutionId q = None"
  using execution_event_exact [OF started_projection_facts(1),
      of "event_base (sample_event 3 Et_execution_completed 1)" sample_completion]
    started_projection_facts(2)
  by (simp add: Let_def split_beta) (simp add: sample_completion_def ends_execution_def)

text \<open>
  C19: Over any sequence of events, accepted or not, a projection only moves forward. It stays with its
  goal and workspace and keeps its invariant; the generation never falls; a generation whose execution
  is over stays as it ended, so an active execution afterwards belongs to a newer generation; the
  lifecycle only advances, and a goal that is no longer open gets no new generation.
\<close>

theorem projection_run_progress:
  assumes "projectionInvariantHolds p"
  shows "let q = project_all p es in
     pj_goalId q = pj_goalId p \<and> pj_workspaceId q = pj_workspaceId p \<and> projectionInvariantHolds q
   \<and> pj_executionGeneration p \<le> pj_executionGeneration q
   \<and> (pj_activeExecutionId p = None \<and> pj_executionGeneration q = pj_executionGeneration p
        \<longrightarrow> pj_activeExecutionId q = None \<and> pj_runtimeState q = pj_runtimeState p)
   \<and> (pj_lifecycleState q = pj_lifecycleState p
        \<or> lifecycle_rank (pj_lifecycleState p) < lifecycle_rank (pj_lifecycleState q))
   \<and> (pj_lifecycleState p \<noteq> Lc_open
        \<longrightarrow> pj_executionGeneration q = pj_executionGeneration p \<and> pj_activeExecutionId q = None)"
proof -
  let ?q = "project_all p es"
  have inv: "projectionInvariantHolds ?q" by (rule projector.run_inv [OF assms])
  have ext: "same_goal p ?q" "generation_extends p ?q" "lifecycle_extends p ?q"
    using run_extends [OF assms, of es] by (simp_all add: projection_extends_def)
  have "pj_activeExecutionId ?q = None" if "pj_lifecycleState p \<noteq> Lc_open"
  proof -
    have "pj_lifecycleState ?q \<noteq> Lc_open" using ext(3) that by (auto simp: lifecycle_extends_def)
    then show ?thesis using active_iff(3) [OF inv] by blast
  qed
  then show ?thesis
    using inv ext by (auto simp: same_goal_def generation_extends_def lifecycle_extends_def)
qed

theorem projection_run_progress_witness:
  "let q = project_all sample_projection [sample_event 1 Et_execution_submitted 1,
       sample_event 2 Et_execution_cancelled 1, sample_event 3 Et_execution_started 1] in
     pj_runtimeState q = Rt_cancelled \<and> pj_executionGeneration sample_projection \<le> pj_executionGeneration q
   \<and> pj_executionGeneration q = Some 1"
proof -
  have "projectionInvariantHolds sample_projection"
    by (simp add: sample_defs project_eval)
  from projection_run_progress [OF this] show ?thesis
    by (simp add: Let_def) (simp add: sample_defs project_eval)
qed

text \<open>
  An execution that failed or was cancelled is never revived: when a later projection shows an
  active run-time state again, its execution generation is strictly newer.
\<close>

theorem ended_execution_not_revived:
  assumes "projectionInvariantHolds p" "isTerminalRuntimeState (pj_runtimeState p)"
    and "isExecutionActiveRuntimeState (pj_runtimeState (project_all p es))"
  shows "pj_executionGeneration p < pj_executionGeneration (project_all p es)"
proof -
  let ?q = "project_all p es"
  have ext: "generation_extends p ?q"
    using run_extends [OF assms(1)] by (simp add: projection_extends_def)
  have "pj_activeExecutionId p = None"
    using assms(2) not_requires_iff [OF assms(1)]
    by (auto simp: isTerminalRuntimeState_def runtimeRequiresActiveExecution_def)
  moreover have "pj_runtimeState ?q \<noteq> pj_runtimeState p"
    using assms(2,3) by (auto simp: isTerminalRuntimeState_def isExecutionActiveRuntimeState_def)
  ultimately show ?thesis using ext by (auto simp: generation_extends_def order_less_le)
qed

definition cancelled_projection :: goal_runtime_projection where
  "cancelled_projection = project_all sample_projection
     [sample_event 1 Et_execution_submitted 1, sample_event 2 Et_execution_cancelled 1]"

lemma cancelled_projection_facts:
  "projectionInvariantHolds cancelled_projection"
  "pj_runtimeState cancelled_projection = Rt_cancelled"
  "pj_executionGeneration cancelled_projection = Some 1"
  "pj_runtimeState (project_all cancelled_projection [sample_event 3 Et_execution_submitted 2])
     = Rt_queued"
  "pj_executionGeneration
     (project_all cancelled_projection [sample_event 3 Et_execution_submitted 2]) = Some 2"
  by (simp_all add: cancelled_projection_def sample_defs project_eval)

theorem ended_execution_not_revived_witness:
  "Some (1::int) < pj_executionGeneration
     (project_all cancelled_projection [sample_event 3 Et_execution_submitted 2])"
  using ended_execution_not_revived [of cancelled_projection
      "[sample_event 3 Et_execution_submitted 2]"] cancelled_projection_facts
  by (simp add: isTerminalRuntimeState_def isExecutionActiveRuntimeState_def)

text \<open>
  Once a generation has been reached, an event of an older generation never changes the
  projection again, whatever happened in between.
\<close>

theorem stale_generation_never_applies:
  assumes "projectionInvariantHolds p" "pj_executionGeneration p = Some g"
    and "xe_executionGeneration x < g"
  shows "project_all p (es @ [ExecutionScoped b x]) = project_all p es
    \<and> \<not> accepted (project_all p es) (ExecutionScoped b x)"
proof -
  let ?q = "project_all p es"
  have "pj_executionGeneration p \<le> pj_executionGeneration ?q"
    using run_extends [OF assms(1)] by (simp add: projection_extends_def generation_extends_def)
  then obtain h where h: "pj_executionGeneration ?q = Some h" "g \<le> h"
    using assms(2) by (cases "pj_executionGeneration ?q") auto
  have "\<not> accepted ?q (ExecutionScoped b x)"
  proof
    assume "accepted ?q (ExecutionScoped b x)"
    then have "classify_execution_event ?q x = Apply"
      by (auto simp: accepted_iff classifyGoalRuntimeEvent_def split: if_splits)
    then show False using h assms(3) by (cases rule: fence_cases) auto
  qed
  then show ?thesis using not_accepted by simp
qed

theorem stale_generation_never_applies_witness:
  "project_all cancelled_projection
     ([sample_event 3 Et_execution_submitted 2] @ [sample_event 4 Et_execution_started 0])
   = project_all cancelled_projection [sample_event 3 Et_execution_submitted 2]"
  unfolding sample_event_def
  by (rule stale_generation_never_applies
      [THEN conjunct1, OF cancelled_projection_facts(1,3)]) simp

text \<open>
  A goal that was completed, abandoned, archived or cleaned never becomes open again, has no
  active execution and gets no new execution generation, whatever events follow.
\<close>

theorem closed_goal_stays_closed:
  assumes "projectionInvariantHolds p" "pj_lifecycleState p \<noteq> Lc_open"
  shows "pj_lifecycleState (project_all p es) \<noteq> Lc_open
    \<and> lifecycle_rank (pj_lifecycleState p) \<le> lifecycle_rank (pj_lifecycleState (project_all p es))
    \<and> pj_activeExecutionId (project_all p es) = None
    \<and> pj_executionGeneration (project_all p es) = pj_executionGeneration p"
proof -
  let ?q = "project_all p es"
  have ext: "lifecycle_extends p ?q"
    using run_extends [OF assms(1)] by (simp add: projection_extends_def)
  then have "pj_lifecycleState ?q \<noteq> Lc_open"
    using assms(2) by (auto simp: lifecycle_extends_def)
  moreover have inv: "projectionInvariantHolds ?q" by (rule projector.run_inv [OF assms(1)])
  ultimately have "\<not> runtimeRequiresActiveExecution (pj_runtimeState ?q)"
    by (auto simp: projectionInvariantHolds_def Let_def split: if_splits)
  then have "pj_activeExecutionId ?q = None" by (simp add: not_requires_iff [OF inv])
  with ext assms(2) \<open>pj_lifecycleState ?q \<noteq> Lc_open\<close> show ?thesis
    by (auto simp: lifecycle_extends_def)
qed

theorem closed_goal_stays_closed_witness:
  "pj_executionGeneration (project_all (project cancelled_projection
     (sample_goal_event 5 Ge_abandoned)) [sample_event 6 Et_execution_submitted 2]) = Some 1"
proof -
  let ?p = "project cancelled_projection (sample_goal_event 5 Ge_abandoned)"
  have "projectionInvariantHolds ?p" "pj_lifecycleState ?p \<noteq> Lc_open"
    "pj_executionGeneration ?p = Some 1"
    by (simp_all add: cancelled_projection_def sample_defs project_eval)
  with closed_goal_stays_closed [of ?p "[sample_event 6 Et_execution_submitted 2]"]
  show ?thesis by simp
qed

text \<open>
  A lost worker is a trap state for the current execution: an accepted event leaves
  recovery_required only by ending that very execution (completed, failed or cancelled, under its
  own identity and generation) or by submitting the next generation. No progress report, approval
  or heartbeat of the lost execution brings it back.
\<close>

theorem recovery_required_exit:
  assumes "projectionInvariantHolds p" "pj_runtimeState p = Rt_recovery_required"
    and "pj_runtimeState (project p e) \<noteq> Rt_recovery_required"
  shows "\<exists>b x g. e = ExecutionScoped b x \<and> pj_executionGeneration p = Some g \<and>
    ((xe_type x \<in> {Et_execution_completed, Et_execution_failed, Et_execution_cancelled}
        \<and> xe_executionGeneration x = g \<and> pj_activeExecutionId p = Some (xe_executionId x))
     \<or> (xe_type x = Et_execution_submitted \<and> xe_executionGeneration x = g + 1))"
proof (cases rule: project_cases [of p e])
  case refused
  then show ?thesis using assms by simp
next
  case (goal_event b g)
  then show ?thesis using assms by (simp add: frame)
next
  case (execution_event b x)
  have active: "pj_activeExecutionId p \<noteq> None" "pj_executionGeneration p \<noteq> None"
    using assms(1,2)
    by (auto simp: projectionInvariantHolds_def Let_def runtimeRequiresActiveExecution_def
        split: if_splits)
  from execution_event(4) show ?thesis
  proof (cases rule: fence_cases)
    case live
    obtain r where r: "runtime_target (xe_type x) = Some r" "r = pj_runtimeState (project p e)"
      using applyExecutionScopedEvent_runtime [OF execution_event(3)] assms(2,3)
      by (auto split: option.splits)
    have gen: "pj_executionGeneration p = pj_executionGeneration (project p e)"
      using live applyExecutionScopedEvent_frame(4) [OF execution_event(3)]
        applyExecutionScopedEvent_submitted(1) [OF execution_event(3)]
      by (cases "xe_type x = Et_execution_submitted") auto
    have "r \<in> {Rt_idle, Rt_failed, Rt_cancelled, Rt_recovering}"
      using accepted_transitions(2) [OF execution_event(1)] assms(2,3) gen r(2)
      by (auto simp: validate_runtime_transition_iff)
    then have "xe_type x \<in> {Et_execution_completed, Et_execution_failed, Et_execution_cancelled}"
      using r(1) by (cases "xe_type x") auto
    with live execution_event(2) show ?thesis by blast
  qed (use active execution_event(2) in auto)
qed

definition lost_projection :: goal_runtime_projection where
  "lost_projection = project_all sample_projection
     [sample_event 1 Et_execution_submitted 1, sample_event 2 Et_worker_lost 1]"

theorem recovery_required_exit_witness:
  "\<exists>b x g. sample_event 3 Et_execution_failed 1 = ExecutionScoped b x
     \<and> pj_executionGeneration lost_projection = Some g \<and>
    ((xe_type x \<in> {Et_execution_completed, Et_execution_failed, Et_execution_cancelled}
        \<and> xe_executionGeneration x = g
        \<and> pj_activeExecutionId lost_projection = Some (xe_executionId x))
     \<or> (xe_type x = Et_execution_submitted \<and> xe_executionGeneration x = g + 1))"
proof (rule recovery_required_exit)
  show "projectionInvariantHolds lost_projection"
    by (simp add: lost_projection_def sample_defs project_eval)
  show "pj_runtimeState lost_projection = Rt_recovery_required"
    by (simp add: lost_projection_def sample_defs project_eval)
  show "pj_runtimeState (project lost_projection (sample_event 3 Et_execution_failed 1))
    \<noteq> Rt_recovery_required"
    by (simp add: lost_projection_def sample_defs project_eval)
qed

text \<open>
  A goal cannot be closed under a live execution: completing, abandoning, archiving or cleaning
  an open goal whose run-time state needs an execution is rejected (by the projection invariant, or
  for cleaning already by the transition table), and the projection is unchanged.
\<close>

theorem close_refused_while_running:
  assumes "ev_goalId b = pj_goalId p" "ev_workspaceId b = pj_workspaceId p"
    and "pj_lifecycleState p = Lc_open" "runtimeRequiresActiveExecution (pj_runtimeState p)"
    and "g \<in> {Ge_completed, Ge_abandoned, Ge_archived, Ge_cleaned}"
  shows "projectGoalRuntimeEvent p (GoalScoped b g) =
    (Reject (if g = Ge_cleaned then Rj_invalid_transition else Rj_projection_invariant), p)"
  using assms
  by (auto simp: projectGoalRuntimeEvent_def classifyGoalRuntimeEvent_def apply_event_def
      validateProjectionTransitions_def projectionInvariantHolds_def Let_def frame)

theorem close_refused_while_running_witness:
  "projectGoalRuntimeEvent lost_projection (sample_goal_event 4 Ge_completed) =
     (Reject Rj_projection_invariant, lost_projection)"
  unfolding sample_goal_event_def
  by (subst close_refused_while_running)
    (simp_all add: lost_projection_def sample_defs project_eval)

text \<open>
  Integrated work stays integrated: after any events that contain no direct observation of the
  integration, a goal that was integrated still is.
\<close>

theorem integrated_is_kept:
  assumes "pj_integrationState p = In_integrated"
    and "\<forall>e \<in> set es. \<not> is_integration_observation e"
  shows "pj_integrationState (project_all p es) = In_integrated"
  using assms
proof (induction es arbitrary: p)
  case Nil
  then show ?case by simp
next
  case (Cons e es)
  have "pj_integrationState (project p e) = In_integrated"
    using Cons.prems not_accepted [of p e] accepted_transitions(3) [of p e]
    by (cases "accepted p e") auto
  with Cons show ?case by simp
qed

theorem integrated_is_kept_witness:
  "pj_integrationState (project_all
     (project sample_projection (sample_goal_event 1 (Ge_integration_observed Ob_integrated)))
     [sample_event 2 Et_execution_submitted 1, sample_event 3 Et_integration_conflict 1])
   = In_integrated"
  by (rule integrated_is_kept) (simp_all add: sample_defs project_eval applyIntegrationObservation_def)

text \<open>
  The run-time states starting and recovering of the enumeration are never produced by the
  projector: a history that does not begin in one of them never shows one.
\<close>

theorem transient_states_unreachable:
  assumes "pj_runtimeState p \<notin> {Rt_starting, Rt_recovering}"
  shows "pj_runtimeState (project_all p es) \<notin> {Rt_starting, Rt_recovering}"
  using transient.run_inv [of p es] assms by (simp add: no_transient_state_def)

theorem transient_states_unreachable_witness:
  "pj_runtimeState (project_all sample_projection [sample_event 1 Et_execution_submitted 1])
     \<notin> {Rt_starting, Rt_recovering}"
  by (rule transient_states_unreachable) (simp add: sample_projection_def)

end
