(* ===== verification/Goal_Continuation.thy ===== *)
theory Goal_Continuation
  imports Prelude
begin

text \<open>
  The durable goal aggregate and the requests of its repository
  (packages/domain/src/goal-continuation.ts, and the parts of scheduled-continuation.ts the goal
  repository reads). Optional fields are options; a plan is the list of its steps. The two forms of
  a tracked task are one record: the restriction of the \<open>legacy_auto\<close> form is checked where the
  source checks it (\<open>validateTrackedTask\<close>).
\<close>

section \<open>Goals\<close>

datatype goal_status = Gs_active | Gs_completed | Gs_failed | Gs_blocked | Gs_cancelled

datatype goal_terminal_status = Gt_completed | Gt_failed | Gt_blocked

fun terminal_goal_status :: "goal_terminal_status \<Rightarrow> goal_status" where
  "terminal_goal_status Gt_completed = Gs_completed"
| "terminal_goal_status Gt_failed = Gs_failed"
| "terminal_goal_status Gt_blocked = Gs_blocked"

fun goal_terminal_status_name :: "goal_terminal_status \<Rightarrow> string" where
  "goal_terminal_status_name Gt_completed = ''completed''"
| "goal_terminal_status_name Gt_failed = ''failed''"
| "goal_terminal_status_name Gt_blocked = ''blocked''"

datatype goal_step_status = St_pending | St_in_progress | St_completed | St_blocked

datatype goal_evidence_kind = Ek_path | Ek_hash | Ek_task | Ek_note

datatype goal_ponytail_mode = Pm_off | Pm_lite | Pm_full | Pm_ultra

fun ponytail_mode_name :: "goal_ponytail_mode \<Rightarrow> string" where
  "ponytail_mode_name Pm_off = ''off''"
| "ponytail_mode_name Pm_lite = ''lite''"
| "ponytail_mode_name Pm_full = ''full''"
| "ponytail_mode_name Pm_ultra = ''ultra''"

datatype goal_task_provider = Pv_process | Pv_codex | Pv_shell | Pv_agent_swarm | Pv_legacy_auto

datatype goal_tracked_task_role = Ro_blocking_job | Ro_supporting_service

record goal_tracked_task =
  tt_taskId :: string
  tt_provider :: goal_task_provider
  tt_role :: goal_tracked_task_role
  tt_cancelWithGoal :: bool

record goal_plan_step =
  gp_id :: string
  gp_title :: string
  gp_status :: goal_step_status
  gp_summary :: "string option"

type_synonym goal_plan = "goal_plan_step list"

record goal_step_update =
  su_stepId :: string
  su_status :: goal_step_status
  su_summary :: "string option"

record goal_evidence =
  gv_kind :: goal_evidence_kind
  gv_value :: string

text \<open>A decoded checkpoint: \<open>toCheckpoint\<close> always fills in the tracked tasks.\<close>

record goal_checkpoint_record =
  ck_id :: string
  ck_goalId :: string
  ck_revision :: int
  ck_currentPhase :: string
  ck_summary :: string
  ck_stepUpdates :: "goal_step_update list"
  ck_nextAction :: string
  ck_blockers :: "string list"
  ck_evidence :: "goal_evidence list"
  ck_activeTaskIds :: "string list"
  ck_trackedTasks :: "goal_tracked_task list"
  ck_createdAt :: iso

record goal_record =
  g_id :: string
  g_goalKey :: string
  g_workspaceId :: string
  g_ownerClientId :: string
  g_objective :: string
  g_plan :: goal_plan
  g_status :: goal_status
  g_revision :: int
  g_currentPhase :: string
  g_nextAction :: string
  g_blockers :: "string list"
  g_activeTaskIds :: "string list"
  g_trackedTasks :: "goal_tracked_task list option"
  g_ponytailMode :: "goal_ponytail_mode option"
  g_leaseOwnerClientId :: "string option"
  g_leaseOwnerSessionId :: "string option"
  g_leaseTokenHash :: "string option"
  g_leaseDurationSeconds :: "int option"
  g_leaseGeneration :: int
  g_executionId :: "string option"
  g_executionGeneration :: "int option"
  g_leaseActivitySeq :: int
  g_leaseHeartbeatAt :: "iso option"
  g_leaseExpiresAt :: "iso option"
  g_createdAt :: iso
  g_updatedAt :: iso
  g_terminalSummary :: "string option"
  g_terminalEvidence :: "goal_evidence list option"
  g_terminalAt :: "iso option"
  g_checkpoints :: "goal_checkpoint_record list"

section \<open>Failures\<close>

datatype goal_state_failure_code =
  Fc_not_found | Fc_owner_mismatch | Fc_conflict | Fc_lease_invalid | Fc_terminal | Fc_corrupt

text \<open>
  What an operation of the goal repository can throw: the error class of the domain, a violated
  constraint of the database, the RangeError of \<open>toISOString\<close>, and the plain errors of the
  liveness assessment.
\<close>

datatype goal_error =
  GoalStateError goal_state_failure_code | SqlConstraint | IsoRangeError
| LivenessTimestampInvalid | LivenessGraceInvalid | JsTypeError

abbreviation "not_found \<equiv> GoalStateError Fc_not_found"
abbreviation "owner_mismatch \<equiv> GoalStateError Fc_owner_mismatch"
abbreviation "conflict \<equiv> GoalStateError Fc_conflict"
abbreviation "lease_invalid \<equiv> GoalStateError Fc_lease_invalid"
abbreviation "terminal_goal \<equiv> GoalStateError Fc_terminal"
abbreviation "corrupt \<equiv> GoalStateError Fc_corrupt"

section \<open>Liveness evidence\<close>

datatype blocking_task_state = Bt_running | Bt_terminal | Bt_absent | Bt_unknown

record blocking_task_entry =
  be_taskId :: string
  be_provider :: goal_task_provider
  be_state :: blocking_task_state

record active_task_entry =
  ae_taskId :: string
  ae_state :: blocking_task_state

text \<open>
  \<open>GoalLeaseRecoveryEvidence\<close> and \<open>ScheduledContinuationWorkerLiveness\<close> in one record: the
  former always has \<open>blockingTaskStates\<close> and never \<open>activeTaskStates\<close>.
\<close>

record goal_worker_liveness_evidence =
  le_trustworthy :: bool
  le_observedAt :: iso
  le_leaseGeneration :: int
  le_leaseActivitySeq :: int
  le_liveFencedCallCount :: int
  le_blockingTaskStates :: "blocking_task_entry list option"
  le_activeTaskStates :: "active_task_entry list option"

section \<open>Requests of the goal repository\<close>

record acquire_goal_request =
  aq_goalId :: string
  aq_workspaceId :: string
  aq_goalKey :: string
  aq_ownerClientId :: string
  aq_ownerSessionId :: string
  aq_objective :: "string option"
  aq_plan :: "goal_plan option"
  aq_ponytailMode :: "goal_ponytail_mode option"
  aq_leaseTokenHash :: string
  aq_leaseSeconds :: int
  aq_recoveryEvidence :: "goal_worker_liveness_evidence option"
  aq_now :: iso

record acquire_goal_result =
  ar_goal :: goal_record
  ar_acquired :: bool
  ar_retryAfterSeconds :: "int option"
  ar_staleWorkerRecovered :: bool

record checkpoint_goal_request =
  cq_checkpointId :: string
  cq_goalId :: string
  cq_ownerClientId :: string
  cq_ownerSessionId :: string
  cq_leaseTokenHash :: string
  cq_expectedRevision :: int
  cq_plan :: goal_plan
  cq_currentPhase :: string
  cq_summary :: string
  cq_stepUpdates :: "goal_step_update list"
  cq_nextAction :: string
  cq_blockers :: "string list"
  cq_evidence :: "goal_evidence list"
  cq_activeTaskIds :: "string list"
  cq_trackedTasks :: "goal_tracked_task list option"
  cq_ponytailMode :: "goal_ponytail_mode option"
  cq_releaseLease :: bool
  cq_now :: iso

record finish_goal_request =
  fq_checkpointId :: string
  fq_goalId :: string
  fq_ownerClientId :: string
  fq_ownerSessionId :: string
  fq_leaseTokenHash :: string
  fq_expectedRevision :: int
  fq_status :: goal_terminal_status
  fq_summary :: string
  fq_evidence :: "goal_evidence list"
  fq_now :: iso

record cancel_goal_request =
  nq_checkpointId :: string
  nq_goalId :: string
  nq_ownerClientId :: string
  nq_expectedRevision :: int
  nq_summary :: string
  nq_evidence :: "goal_evidence list"
  nq_now :: iso

record cancel_execution_request =
  xq_checkpointId :: string
  xq_goalId :: string
  xq_executionId :: string
  xq_expectedExecutionGeneration :: int
  xq_ownerClientId :: string
  xq_summary :: string
  xq_evidence :: "goal_evidence list"
  xq_now :: iso

record cancel_goal_result =
  nr_goal :: goal_record
  nr_trackedTaskIds :: "string list"
  nr_trackedTasks :: "goal_tracked_task list"

datatype goal_reconciliation_reason = Rr_abandoned | Rr_superseded

fun reconciliation_reason_name :: "goal_reconciliation_reason \<Rightarrow> string" where
  "reconciliation_reason_name Rr_abandoned = ''abandoned''"
| "reconciliation_reason_name Rr_superseded = ''superseded''"

record reconcile_goal_request =
  rq_checkpointId :: string
  rq_goalId :: string
  rq_ownerClientId :: string
  rq_expectedRevision :: int
  rq_expectedLeaseGeneration :: int
  rq_expectedLeaseActivitySeq :: int
  rq_reason :: goal_reconciliation_reason
  rq_summary :: string
  rq_evidence :: "goal_evidence list"
  rq_now :: iso

record begin_fenced_mutation_request =
  bq_callId :: string
  bq_goalId :: string
  bq_workspaceId :: string
  bq_ownerClientId :: string
  bq_ownerSessionId :: string
  bq_leaseTokenHash :: string
  bq_leaseGeneration :: int
  bq_admissionGeneration :: "int option"
  bq_startedAt :: iso
  bq_expiresAt :: iso

record fenced_mutation_observation =
  fo_workspaceId :: string
  fo_leaseGeneration :: int
  fo_leaseActivitySeq :: int
  fo_liveFencedCallCount :: int

section \<open>Scheduled continuations\<close>

datatype scheduled_continuation_status =
  Sc_prepared | Sc_scheduled | Sc_create_failed | Sc_create_uncertain | Sc_reschedule_required
| Sc_reschedule_failed | Sc_reschedule_uncertain | Sc_claimed | Sc_terminal_noop | Sc_superseded
| Sc_cancel_required | Sc_cancelled | Sc_cancel_failed | Sc_cancel_uncertain

datatype scheduled_continuation_occurrence = So_once | So_interval

datatype scheduled_continuation_execution_preference = Sp_auto | Sp_cloud | Sp_local

datatype scheduled_continuation_runs_on = Sr_cloud | Sr_local | Sr_unverified

datatype scheduled_continuation_expedite_reason =
  Sx_host_deadline_warning | Sx_host_budget_warning | Sx_tool_access_degradation
| Sx_turn_yield_signal

datatype scheduled_continuation_reschedule_reason =
  Sy_collision | Sy_expedite scheduled_continuation_expedite_reason

end
