(* ===== verification/Goal_Liveness.thy ===== *)
theory Goal_Liveness
  imports Goal_Continuation
begin

text \<open>
  The fail-closed worker liveness decision (packages/domain/src/goal-runtime-liveness.ts) shared by
  the takeover of a lease and the control plane. Absence of evidence is never proof of absence.
\<close>

definition DEFAULT_GOAL_STALE_HEARTBEAT_GRACE_SECONDS :: int where
  "DEFAULT_GOAL_STALE_HEARTBEAT_GRACE_SECONDS = 60"

datatype inactive_reason = No_live_worker | Stale_heartbeat

datatype live_reason = Fenced_call | Blocking_task | Heartbeat_grace

datatype untrusted_reason =
  Missing_evidence | Evidence_untrustworthy | Generation_mismatch | Activity_mismatch
| Future_observation | Missing_heartbeat | Future_heartbeat | Blocking_task_unknown

text \<open>A live assessment may carry \<open>retryAfterSeconds\<close>.\<close>

datatype goal_worker_liveness_assessment =
  Inactive inactive_reason | Live live_reason "int option" | Untrusted untrusted_reason

record assess_goal_worker_liveness_request =
  wl_goal :: goal_record
  wl_evidence :: "goal_worker_liveness_evidence option"
  wl_now :: iso
  wl_hasLiveScheduledContinuation :: bool
  wl_staleHeartbeatGraceSeconds :: "jsnum option"

definition liveness_parse_iso :: "iso \<Rightarrow> goal_error + int" where
  "liveness_parse_iso t =
     (case date_parse t of None \<Rightarrow> Inl LivenessTimestampInvalid | Some ms \<Rightarrow> Inr ms)"

definition normalizeGrace :: "jsnum option \<Rightarrow> goal_error + int" where
  "normalizeGrace value =
     (let seconds = (case value of
        None \<Rightarrow> int_num DEFAULT_GOAL_STALE_HEARTBEAT_GRACE_SECONDS | Some n \<Rightarrow> n)
      in if \<not> num_is_integer seconds \<or> num_int seconds < 0 \<or> num_int seconds > 600
         then Inl LivenessGraceInvalid else Inr (num_int seconds))"

definition legacyTrackedTask :: "string \<Rightarrow> goal_tracked_task" where
  "legacyTrackedTask taskId = \<lparr>tt_taskId = taskId, tt_provider = Pv_legacy_auto,
     tt_role = Ro_blocking_job, tt_cancelWithGoal = True\<rparr>"

definition legacyTrackedTasks :: "string list \<Rightarrow> goal_tracked_task list" where
  "legacyTrackedTasks ids = map legacyTrackedTask ids"

text \<open>
  The key joins the provider and the task identifier by a NUL; provider names have none, so two
  keys are equal exactly when both parts are (\<open>bindingKey_inj\<close>).
\<close>

fun task_provider_name :: "goal_task_provider \<Rightarrow> string" where
  "task_provider_name Pv_process = ''process''"
| "task_provider_name Pv_codex = ''codex''"
| "task_provider_name Pv_shell = ''shell''"
| "task_provider_name Pv_agent_swarm = ''agent_swarm''"
| "task_provider_name Pv_legacy_auto = ''legacy_auto''"

definition bindingKey :: "goal_task_provider \<Rightarrow> string \<Rightarrow> string" where
  "bindingKey provider taskId = task_provider_name provider @ [NUL] @ taskId"

lemma bindingKey_inj [simp]:
  "bindingKey p s = bindingKey q t \<longleftrightarrow> p = q \<and> s = t"
  by (cases p; cases q; auto simp: bindingKey_def)

definition blockingStates :: "goal_worker_liveness_evidence \<Rightarrow> blocking_task_entry list" where
  "blockingStates evidence = (case le_blockingTaskStates evidence of
     Some states \<Rightarrow> states
   | None \<Rightarrow> (case le_activeTaskStates evidence of
       Some states \<Rightarrow> map (\<lambda>entry. \<lparr>be_taskId = ae_taskId entry,
         be_provider = Pv_legacy_auto, be_state = ae_state entry\<rparr>) states
     | None \<Rightarrow> []))"

text \<open>\<open>new Map(entries)\<close>: a later entry of the same key replaces an earlier one.\<close>

definition state_by_binding :: "blocking_task_entry list \<Rightarrow> string \<Rightarrow> blocking_task_state option"
  where "state_by_binding states =
     map_of (rev (map (\<lambda>e. (bindingKey (be_provider e) (be_taskId e), be_state e)) states))"

text \<open>The loop over the blocking tasks: the first one running or unknown decides.\<close>

fun assess_blocking_tasks ::
  "(string \<Rightarrow> blocking_task_state option) \<Rightarrow> goal_tracked_task list
     \<Rightarrow> goal_worker_liveness_assessment option" where
  "assess_blocking_tasks m [] = None"
| "assess_blocking_tasks m (task # rest) =
     (let state = (case m (bindingKey (tt_provider task) (tt_taskId task)) of
        None \<Rightarrow> Bt_unknown | Some s \<Rightarrow> s)
      in if state = Bt_running then Some (Live Blocking_task None)
         else if state = Bt_unknown then Some (Untrusted Blocking_task_unknown)
         else assess_blocking_tasks m rest)"

definition blocking_tasks :: "goal_record \<Rightarrow> goal_tracked_task list" where
  "blocking_tasks goal = filter (\<lambda>t. tt_role t = Ro_blocking_job)
     (case g_trackedTasks goal of
        None \<Rightarrow> legacyTrackedTasks (g_activeTaskIds goal) | Some ts \<Rightarrow> ts)"

text \<open>The part of the decision after the blocking tasks: the heartbeat and the grace period.\<close>

definition assess_heartbeat ::
  "assess_goal_worker_liveness_request \<Rightarrow> int \<Rightarrow> goal_error + goal_worker_liveness_assessment"
  where "assess_heartbeat request nowMs = (case g_leaseHeartbeatAt (wl_goal request) of
     None \<Rightarrow> Inr (Untrusted Missing_heartbeat)
   | Some heartbeat \<Rightarrow> bind_ok (liveness_parse_iso heartbeat) (\<lambda>heartbeatMs.
       if heartbeatMs > nowMs then Inr (Untrusted Future_heartbeat)
       else if \<not> wl_hasLiveScheduledContinuation request then Inr (Inactive No_live_worker)
       else bind_ok (normalizeGrace (wl_staleHeartbeatGraceSeconds request)) (\<lambda>graceSeconds.
         let heartbeatAgeSeconds = (nowMs - heartbeatMs) div 1000
         in if heartbeatAgeSeconds < graceSeconds
            then Inr (Live Heartbeat_grace (Some (graceSeconds - heartbeatAgeSeconds)))
            else Inr (Inactive Stale_heartbeat))))"

definition assessGoalWorkerLiveness ::
  "assess_goal_worker_liveness_request \<Rightarrow> goal_error + goal_worker_liveness_assessment" where
  "assessGoalWorkerLiveness request = (case wl_evidence request of
     None \<Rightarrow> Inr (Untrusted Missing_evidence)
   | Some evidence \<Rightarrow>
       if \<not> le_trustworthy evidence then Inr (Untrusted Evidence_untrustworthy)
       else if le_leaseGeneration evidence \<noteq> g_leaseGeneration (wl_goal request)
       then Inr (Untrusted Generation_mismatch)
       else if le_leaseActivitySeq evidence \<noteq> g_leaseActivitySeq (wl_goal request)
       then Inr (Untrusted Activity_mismatch)
       else bind_ok (liveness_parse_iso (wl_now request)) (\<lambda>nowMs.
         bind_ok (liveness_parse_iso (le_observedAt evidence)) (\<lambda>observedAtMs.
           if observedAtMs > nowMs then Inr (Untrusted Future_observation)
           else if le_liveFencedCallCount evidence > 0 then Inr (Live Fenced_call None)
           else case assess_blocking_tasks (state_by_binding (blockingStates evidence))
               (blocking_tasks (wl_goal request)) of
             Some assessment \<Rightarrow> Inr assessment
           | None \<Rightarrow> assess_heartbeat request nowMs)))"

section \<open>What the decision means\<close>

lemma assess_blocking_tasks_None_iff:
  "assess_blocking_tasks m ts = None \<longleftrightarrow>
     (\<forall>t \<in> set ts. \<exists>s \<in> {Bt_terminal, Bt_absent}.
        m (bindingKey (tt_provider t) (tt_taskId t)) = Some s)"
proof (induction ts)
  case Nil
  then show ?case by simp
next
  case (Cons t ts)
  show ?case
  proof (cases "m (bindingKey (tt_provider t) (tt_taskId t))")
    case None
    then show ?thesis by (simp add: Let_def)
  next
    case (Some s)
    then show ?thesis using Cons.IH by (cases s) (simp_all add: Let_def)
  qed
qed

lemma assess_blocking_tasks_not_inactive:
  "assess_blocking_tasks m ts = Some a \<Longrightarrow> (\<nexists>r. a = Inactive r)
     \<and> (\<nexists>n. a = Live Heartbeat_grace n)"
  by (induction ts) (auto simp: Let_def split: if_splits)

text \<open>The trustworthy observation of an idle worker.\<close>

definition trustworthy_idle :: "assess_goal_worker_liveness_request \<Rightarrow> bool" where
  "trustworthy_idle request = (case (wl_evidence request, date_parse (wl_now request)) of
     (Some evidence, Some nowMs) \<Rightarrow>
       le_trustworthy evidence
       \<and> le_leaseGeneration evidence = g_leaseGeneration (wl_goal request)
       \<and> le_leaseActivitySeq evidence = g_leaseActivitySeq (wl_goal request)
       \<and> (case date_parse (le_observedAt evidence) of None \<Rightarrow> False | Some seen \<Rightarrow> seen \<le> nowMs)
       \<and> le_liveFencedCallCount evidence \<le> 0
       \<and> list_all (\<lambda>t. state_by_binding (blockingStates evidence)
            (bindingKey (tt_provider t) (tt_taskId t)) \<in> {Some Bt_terminal, Some Bt_absent})
            (blocking_tasks (wl_goal request))
   | _ \<Rightarrow> False)"

definition heartbeat_settled ::
  "assess_goal_worker_liveness_request \<Rightarrow> inactive_reason \<Rightarrow> bool" where
  "heartbeat_settled request reason = (case (g_leaseHeartbeatAt (wl_goal request), wl_now request) of
     (Some (Instant heartbeatMs), Instant nowMs) \<Rightarrow> heartbeatMs \<le> nowMs \<and>
       (if wl_hasLiveScheduledContinuation request
        then reason = Stale_heartbeat \<and> (case normalizeGrace (wl_staleHeartbeatGraceSeconds request) of
          Inl _ \<Rightarrow> False | Inr grace \<Rightarrow> grace \<le> (nowMs - heartbeatMs) div 1000)
        else reason = No_live_worker)
   | _ \<Rightarrow> False)"

lemma assess_heartbeat_inactive_iff:
  "wl_now request = Instant nowMs \<Longrightarrow>
     assess_heartbeat request nowMs = Inr (Inactive reason) \<longleftrightarrow> heartbeat_settled request reason"
proof (cases "g_leaseHeartbeatAt (wl_goal request)")
  case None
  then show ?thesis by (simp add: assess_heartbeat_def heartbeat_settled_def)
next
  case (Some h)
  assume now: "wl_now request = Instant nowMs"
  show ?thesis
  proof (cases h)
    case (Instant ms)
    with Some now show ?thesis
      by (cases "normalizeGrace (wl_staleHeartbeatGraceSeconds request)")
        (auto simp: assess_heartbeat_def heartbeat_settled_def liveness_parse_iso_def Let_def)
  next
    case (Unparsable t)
    with Some now show ?thesis
      by (simp add: assess_heartbeat_def heartbeat_settled_def liveness_parse_iso_def)
  qed
qed

lemma no_blocking_decision_iff:
  "assess_blocking_tasks m ts = None \<longleftrightarrow> list_all (\<lambda>t.
     m (bindingKey (tt_provider t) (tt_taskId t)) \<in> {Some Bt_terminal, Some Bt_absent}) ts"
  by (auto simp: assess_blocking_tasks_None_iff list_all_iff)

text \<open>
  A worker is declared gone exactly when the evidence is trustworthy, belongs to the current
  lease generation and activity sequence, was not observed in the future, shows no fenced call in
  progress and every blocking task of the goal terminal or absent, and the last heartbeat is known,
  not in the future and, while a scheduled continuation is live, at least the grace period old.
  Every other input gives live, untrusted or an error.
\<close>

theorem worker_inactive_iff:
  "assessGoalWorkerLiveness request = Inr (Inactive reason) \<longleftrightarrow>
     trustworthy_idle request \<and> heartbeat_settled request reason"
proof (cases "wl_evidence request")
  case None
  then show ?thesis by (simp add: assessGoalWorkerLiveness_def trustworthy_idle_def)
next
  case (Some evidence)
  show ?thesis
  proof (cases "wl_now request")
    case (Unparsable s)
    then show ?thesis using Some
      by (simp add: assessGoalWorkerLiveness_def trustworthy_idle_def liveness_parse_iso_def)
  next
    case (Instant nowMs)
    let ?m = "state_by_binding (blockingStates evidence)"
    let ?ts = "blocking_tasks (wl_goal request)"
    show ?thesis
    proof (cases "assess_blocking_tasks ?m ?ts")
      case None
      then show ?thesis
        using Some Instant assess_heartbeat_inactive_iff [OF Instant, of reason]
          no_blocking_decision_iff [of ?m ?ts]
        by (cases "le_observedAt evidence")
          (auto simp: assessGoalWorkerLiveness_def trustworthy_idle_def liveness_parse_iso_def)
    next
      case (Some a)
      then have "\<not> list_all (\<lambda>t. ?m (bindingKey (tt_provider t) (tt_taskId t))
          \<in> {Some Bt_terminal, Some Bt_absent}) ?ts"
        using no_blocking_decision_iff [of ?m ?ts] by simp
      then show ?thesis
        using \<open>wl_evidence request = Some evidence\<close> Instant Some
          assess_blocking_tasks_not_inactive [OF Some]
        by (cases "le_observedAt evidence")
          (auto simp: assessGoalWorkerLiveness_def trustworthy_idle_def liveness_parse_iso_def)
    qed
  qed
qed

end
