(* ===== verification/Goal_Store.thy ===== *)
theory Goal_Store
  imports Goal_Liveness
begin

text \<open>
  The tables of the goal repository and the decoding of their rows
  (packages/storage/src/goal-repository.ts). A JSON column holds its decoded value: malformed JSON
  and values of a wrong type, which the parsers refuse as corrupt, are outside the model, every
  other check of the decoders is a branch. A row keeps its nullable columns separately, so partial
  leases and partial outcomes can be stored and are refused by the decoder as in the source.
\<close>

section \<open>Rows\<close>

record goal_row =
  gr_id :: string
  gr_workspace_id :: string
  gr_goal_key :: string
  gr_owner_client_id :: string
  gr_objective :: string
  gr_plan :: goal_plan
  gr_status :: goal_status
  gr_revision :: int
  gr_current_phase :: string
  gr_next_action :: string
  gr_blockers :: "string list"
  gr_active_task_ids :: "string list"
  gr_tracked_tasks :: "goal_tracked_task list option"
  gr_ponytail_mode :: "goal_ponytail_mode option"
  gr_lease_owner_client_id :: "string option"
  gr_lease_owner_session_id :: "string option"
  gr_lease_token_hash :: "string option"
  gr_lease_duration_seconds :: "int option"
  gr_lease_generation :: int
  gr_lease_activity_seq :: int
  gr_lease_heartbeat_at :: "iso option"
  gr_lease_expires_at :: "iso option"
  gr_created_at :: iso
  gr_updated_at :: iso
  gr_terminal_summary :: "string option"
  gr_terminal_evidence :: "goal_evidence list option"
  gr_terminal_at :: "iso option"

datatype execution_receipt_state = Xs_active | Xs_released | Xs_superseded | Xs_terminal

record goal_execution_row =
  er_id :: string
  er_goal_id :: string
  er_workspace_id :: string
  er_lease_generation :: int
  er_owner_client_id :: string
  er_owner_session_id :: string
  er_state :: execution_receipt_state
  er_created_at :: iso
  er_updated_at :: iso

record checkpoint_row =
  cr_id :: string
  cr_goal_id :: string
  cr_revision :: int
  cr_current_phase :: string
  cr_summary :: string
  cr_step_updates :: "goal_step_update list"
  cr_next_action :: string
  cr_blockers :: "string list"
  cr_evidence :: "goal_evidence list"
  cr_active_task_ids :: "string list"
  cr_tracked_tasks :: "goal_tracked_task list option"
  cr_created_at :: iso

record scheduled_continuation_row =
  cn_id :: string
  cn_goal_id :: string
  cn_source_session_id :: string
  cn_generation :: int
  cn_source_goal_revision :: int
  cn_status :: scheduled_continuation_status
  cn_occurrence :: scheduled_continuation_occurrence
  cn_interval_minutes :: "int option"
  cn_destination :: string
  cn_execution_preference :: scheduled_continuation_execution_preference
  cn_confirmed_runs_on :: "scheduled_continuation_runs_on option"
  cn_due_at :: iso
  cn_native_task_id :: "string option"
  cn_request_fingerprint :: string
  cn_version :: int
  cn_last_detail :: "string option"
  cn_created_at :: iso
  cn_updated_at :: iso
  cn_claimed_at :: "iso option"
  cn_terminal_at :: "iso option"
  cn_pending_due_at :: "iso option"
  cn_reschedule_reason :: "scheduled_continuation_reschedule_reason option"
  cn_reschedule_count :: int
  cn_last_collision_at :: "iso option"
  cn_last_rescheduled_at :: "iso option"
  cn_orphan_probe_started_at :: "iso option"
  cn_orphan_probe_lease_generation :: "int option"
  cn_orphan_probe_activity_seq :: "int option"
  cn_orphan_recovery_count :: int

datatype recurring_run_outcome =
  Ru_acquired | Ru_orphan_recovered | Ru_worker_busy_noop | Ru_orphan_probe_noop
| Ru_receipt_reconcile_required | Ru_terminal_cleanup_required | Ru_terminal_noop

record continuation_run_row =
  rn_id :: string
  rn_continuation_id :: string
  rn_run_key :: string
  rn_native_task_id :: string
  rn_observed_at :: iso
  rn_outcome :: recurring_run_outcome
  rn_lease_generation :: "int option"
  rn_detail :: string
  rn_created_at :: iso
  rn_updated_at :: iso

record fenced_call_row =
  fc_call_id :: string
  fc_goal_id :: string
  fc_lease_generation :: int
  fc_started_at :: iso
  fc_heartbeat_at :: iso
  fc_expires_at :: iso
  fc_completed_at :: "iso option"

text \<open>
  The workspace columns and the admission receipt the fenced mutations read. A field of the decoded
  receipt that is absent or has another type is \<open>None\<close>; a receipt that is not an object is \<open>None\<close>.
\<close>

record admission_receipt =
  rp_workspaceId :: "string option"
  rp_goalId :: "string option"
  rp_admissionGeneration :: "int option"
  rp_writeLeaseGeneration :: "int option"
  rp_invalidatedAt :: "string option"
  rp_expiresAt :: "iso option"
  rp_createdAt :: "iso option"

record workspace_admission_row =
  wa_workspace_id :: string
  wa_admission_generation :: int
  wa_write_lease_generation :: int
  wa_receipt :: "admission_receipt option"

record workspace_lease_row =
  ww_id :: string
  ww_writer_lease_generation :: "int option"
  ww_writer_lease_expires_at :: "iso option"
  ww_archived_at :: "iso option"

record goal_db =
  db_goals :: "goal_row list"
  db_checkpoints :: "checkpoint_row list"
  db_executions :: "goal_execution_row list"
  db_calls :: "fenced_call_row list"
  db_continuations :: "scheduled_continuation_row list"
  db_admissions :: "workspace_admission_row list"
  db_workspaces :: "workspace_lease_row list"
  db_runs :: "continuation_run_row list"

section \<open>Timestamps\<close>

definition parse_iso :: "iso \<Rightarrow> goal_error + int" where
  "parse_iso t = (case date_parse t of None \<Rightarrow> Inl corrupt | Some ms \<Rightarrow> Inr ms)"

definition validate_iso :: "iso \<Rightarrow> bool" where
  "validate_iso t \<longleftrightarrow> \<not> is_err (parse_iso t)"

definition addSeconds :: "iso \<Rightarrow> int \<Rightarrow> goal_error + iso" where
  "addSeconds now seconds = bind_ok (parse_iso now) (\<lambda>ms.
     case to_iso (ms + seconds * 1000) of None \<Rightarrow> Inl IsoRangeError | Some t \<Rightarrow> Inr t)"

definition minIso :: "iso \<Rightarrow> iso \<Rightarrow> goal_error + iso" where
  "minIso left right = bind_ok (parse_iso left) (\<lambda>l. bind_ok (parse_iso right) (\<lambda>r.
     Inr (if l \<le> r then left else right)))"

text \<open>\<open>Math.ceil(x / 1000)\<close>\<close>

definition ceil_div_1000 :: "int \<Rightarrow> int" where
  "ceil_div_1000 x = - ((- x) div 1000)"

lemma parse_iso_Inr_iff: "parse_iso t = Inr ms \<longleftrightarrow> t = Instant ms"
  by (cases t) (auto simp: parse_iso_def)

lemma parse_iso_Instant [simp]: "parse_iso (Instant ms) = Inr ms"
  by (simp add: parse_iso_def)

lemma validate_iso_iff: "validate_iso t \<longleftrightarrow> (\<exists>ms. t = Instant ms)"
  by (cases t) (auto simp: validate_iso_def parse_iso_def)

lemma validate_iso_Instant [simp]: "validate_iso (Instant ms)"
  by (simp add: validate_iso_iff)

lemma addSeconds_Inr_iff:
  "addSeconds now n = Inr t \<longleftrightarrow> (\<exists>ms. now = Instant ms \<and> t = Instant (ms + n * 1000)
     \<and> \<bar>ms + n * 1000\<bar> \<le> max_time_value)"
  by (auto simp: addSeconds_def bind_ok_Inr_iff parse_iso_Inr_iff to_iso_def split: if_splits)

lemma minIso_Inr_iff:
  "minIso a b = Inr t \<longleftrightarrow> (\<exists>x y. a = Instant x \<and> b = Instant y \<and> t = Instant (min x y))"
  by (auto simp: minIso_def bind_ok_Inr_iff parse_iso_Inr_iff min_def)

section \<open>Tracked tasks\<close>

definition MAX_TRACKED_TASKS :: nat where
  "MAX_TRACKED_TASKS = 50"

definition validateTrackedTask :: "goal_tracked_task \<Rightarrow> goal_error + goal_tracked_task" where
  "validateTrackedTask task =
     (if length (js_trim (tt_taskId task)) = 0 \<or> length (tt_taskId task) > 256 then Inl corrupt
      else if tt_provider task = Pv_legacy_auto
        \<and> (tt_role task \<noteq> Ro_blocking_job \<or> tt_cancelWithGoal task \<noteq> True) then Inl corrupt
      else Inr (task\<lparr>tt_taskId := js_trim (tt_taskId task)\<rparr>))"

text \<open>The shared loop: validate each binding and refuse a repeated key.\<close>

fun validate_bindings ::
  "string list \<Rightarrow> goal_tracked_task list \<Rightarrow> goal_error + goal_tracked_task list" where
  "validate_bindings seen [] = Inr []"
| "validate_bindings seen (task # rest) = bind_ok (validateTrackedTask task) (\<lambda>validated.
     let key = bindingKey (tt_provider validated) (tt_taskId validated)
     in if key \<in> set seen then Inl corrupt
        else bind_ok (validate_bindings (key # seen) rest) (\<lambda>vs. Inr (validated # vs)))"

definition normalizeTrackedTasks ::
  "goal_tracked_task list option \<Rightarrow> string list \<Rightarrow> goal_error + goal_tracked_task list" where
  "normalizeTrackedTasks trackedTasks activeTaskIds = (case trackedTasks of
     Some ts \<Rightarrow> validate_bindings [] ts
   | None \<Rightarrow> Inr (legacyTrackedTasks activeTaskIds))"

definition parseTrackedTasks ::
  "goal_tracked_task list option \<Rightarrow> string list \<Rightarrow> goal_error + goal_tracked_task list" where
  "parseTrackedTasks serialized legacyActiveTaskIds = (case serialized of
     None \<Rightarrow>
       if length legacyActiveTaskIds > MAX_TRACKED_TASKS then Inl corrupt
       else Inr (legacyTrackedTasks legacyActiveTaskIds)
   | Some ts \<Rightarrow>
       if length ts > MAX_TRACKED_TASKS then Inl corrupt else validate_bindings [] ts)"

definition blockingTaskIds :: "goal_tracked_task list \<Rightarrow> string list" where
  "blockingTaskIds tasks = map tt_taskId (filter (\<lambda>t. tt_role t = Ro_blocking_job) tasks)"

section \<open>Decoding\<close>

definition toCheckpoint :: "checkpoint_row \<Rightarrow> goal_error + goal_checkpoint_record" where
  "toCheckpoint row =
     (if cr_revision row \<le> 0 then Inl corrupt
      else if \<not> validate_iso (cr_created_at row) then Inl corrupt
      else bind_ok (parseTrackedTasks (cr_tracked_tasks row) (cr_active_task_ids row)) (\<lambda>tasks.
        Inr \<lparr>ck_id = cr_id row, ck_goalId = cr_goal_id row, ck_revision = cr_revision row,
          ck_currentPhase = cr_current_phase row, ck_summary = cr_summary row,
          ck_stepUpdates = cr_step_updates row, ck_nextAction = cr_next_action row,
          ck_blockers = cr_blockers row, ck_evidence = cr_evidence row,
          ck_activeTaskIds = blockingTaskIds tasks, ck_trackedTasks = tasks,
          ck_createdAt = cr_created_at row\<rparr>))"

definition requireExecutionRow :: "goal_execution_row \<Rightarrow> goal_error + goal_execution_row" where
  "requireExecutionRow row =
     (if er_lease_generation row \<le> 0 then Inl corrupt
      else if \<not> validate_iso (er_created_at row) then Inl corrupt
      else if \<not> validate_iso (er_updated_at row) then Inl corrupt
      else Inr row)"

definition present_count :: "bool list \<Rightarrow> nat" where
  "present_count present = length (filter (\<lambda>b. b) present)"

definition lease_fields :: "goal_row \<Rightarrow> bool list" where
  "lease_fields row = [gr_lease_owner_client_id row \<noteq> None, gr_lease_owner_session_id row \<noteq> None,
     gr_lease_token_hash row \<noteq> None, gr_lease_duration_seconds row \<noteq> None,
     gr_lease_heartbeat_at row \<noteq> None, gr_lease_expires_at row \<noteq> None]"

text \<open>The result is whether the source returns without throwing; every failure is corrupt.\<close>

definition validateLeaseState :: "goal_row \<Rightarrow> goal_status \<Rightarrow> bool" where
  "validateLeaseState row status =
     (let present = present_count (lease_fields row)
      in if present \<noteq> 0 \<and> present \<noteq> length (lease_fields row) then False
         else if status \<noteq> Gs_active \<and> present \<noteq> 0 then False
         else if present = 0 then True
         else if (case gr_lease_duration_seconds row of None \<Rightarrow> 0 | Some d \<Rightarrow> d) \<le> 0 then False
         else validate_iso (the (gr_lease_heartbeat_at row))
           \<and> validate_iso (the (gr_lease_expires_at row)))"

definition validateTerminalState :: "goal_row \<Rightarrow> goal_status \<Rightarrow> bool" where
  "validateTerminalState row status =
     (let outcome = [gr_terminal_summary row \<noteq> None, gr_terminal_evidence row \<noteq> None,
            gr_terminal_at row \<noteq> None];
          present = present_count outcome
      in if status = Gs_active then present = 0
         else if present \<noteq> length outcome then False
         else validate_iso (the (gr_terminal_at row)))"

text \<open>The revisions of the checkpoints are 1, 2, .. in order.\<close>

definition contiguous_from_one :: "goal_checkpoint_record list \<Rightarrow> bool" where
  "contiguous_from_one cps \<longleftrightarrow> map ck_revision cps = map int [1 ..< length cps + 1]"

definition decode_goal ::
  "goal_row \<Rightarrow> checkpoint_row list \<Rightarrow> goal_execution_row option \<Rightarrow> goal_error + goal_record" where
  "decode_goal row cps selected =
     bind_ok (parseTrackedTasks (gr_tracked_tasks row) (gr_active_task_ids row)) (\<lambda>trackedTasks.
     bind_ok (case selected of None \<Rightarrow> Inr None
       | Some x \<Rightarrow> bind_ok (requireExecutionRow x) (\<lambda>v. Inr (Some v))) (\<lambda>execution.
     bind_ok (map_ok toCheckpoint cps) (\<lambda>checkpoints.
       if gr_revision row < 0 then Inl corrupt
       else if int (length checkpoints) \<noteq> gr_revision row then Inl corrupt
       else if \<not> contiguous_from_one checkpoints then Inl corrupt
       else if \<not> validate_iso (gr_created_at row) then Inl corrupt
       else if \<not> validate_iso (gr_updated_at row) then Inl corrupt
       else if \<not> validateLeaseState row (gr_status row) then Inl corrupt
       else if \<not> validateTerminalState row (gr_status row) then Inl corrupt
       else Inr \<lparr>g_id = gr_id row, g_goalKey = gr_goal_key row, g_workspaceId = gr_workspace_id row,
         g_ownerClientId = gr_owner_client_id row, g_objective = gr_objective row,
         g_plan = gr_plan row, g_status = gr_status row, g_revision = gr_revision row,
         g_currentPhase = gr_current_phase row, g_nextAction = gr_next_action row,
         g_blockers = gr_blockers row, g_activeTaskIds = blockingTaskIds trackedTasks,
         g_trackedTasks = Some trackedTasks, g_ponytailMode = gr_ponytail_mode row,
         g_leaseOwnerClientId = gr_lease_owner_client_id row,
         g_leaseOwnerSessionId = gr_lease_owner_session_id row,
         g_leaseTokenHash = gr_lease_token_hash row,
         g_leaseDurationSeconds = gr_lease_duration_seconds row,
         g_leaseGeneration = gr_lease_generation row,
         g_executionId = map_option er_id execution,
         g_executionGeneration = map_option er_lease_generation execution,
         g_leaseActivitySeq = gr_lease_activity_seq row,
         g_leaseHeartbeatAt = gr_lease_heartbeat_at row,
         g_leaseExpiresAt = gr_lease_expires_at row,
         g_createdAt = gr_created_at row, g_updatedAt = gr_updated_at row,
         g_terminalSummary = gr_terminal_summary row,
         g_terminalEvidence = gr_terminal_evidence row, g_terminalAt = gr_terminal_at row,
         g_checkpoints = checkpoints\<rparr>)))"

definition selectExecution :: "goal_db \<Rightarrow> string \<Rightarrow> int \<Rightarrow> goal_execution_row option" where
  "selectExecution db goalId leaseGeneration =
     row_get (\<lambda>x. er_goal_id x = goalId \<and> er_lease_generation x = leaseGeneration)
       (db_executions db)"

definition checkpoints_of :: "goal_db \<Rightarrow> string \<Rightarrow> checkpoint_row list" where
  "checkpoints_of db goalId =
     sort_key cr_revision (filter (\<lambda>c. cr_goal_id c = goalId) (db_checkpoints db))"

definition toGoalRecord :: "goal_db \<Rightarrow> goal_row \<Rightarrow> goal_error + goal_record" where
  "toGoalRecord db row = decode_goal row (checkpoints_of db (gr_id row))
     (if gr_lease_generation row = 0 then None
      else selectExecution db (gr_id row) (gr_lease_generation row))"

definition selectById :: "goal_db \<Rightarrow> string \<Rightarrow> goal_row option" where
  "selectById db goalId = row_get (\<lambda>r. gr_id r = goalId) (db_goals db)"

definition selectByKey :: "goal_db \<Rightarrow> string \<Rightarrow> string \<Rightarrow> goal_row option" where
  "selectByKey db workspaceId goalKey =
     row_get (\<lambda>r. gr_workspace_id r = workspaceId \<and> gr_goal_key r = goalKey) (db_goals db)"

definition requireById :: "goal_db \<Rightarrow> string \<Rightarrow> goal_error + goal_record" where
  "requireById db goalId = (case selectById db goalId of
     None \<Rightarrow> Inl not_found | Some row \<Rightarrow> toGoalRecord db row)"

section \<open>Scheduled continuations of a goal\<close>

fun isLiveScheduledStatus :: "scheduled_continuation_status \<Rightarrow> bool" where
  "isLiveScheduledStatus s = (s \<in> {Sc_prepared, Sc_scheduled, Sc_create_uncertain,
     Sc_reschedule_required, Sc_reschedule_failed, Sc_reschedule_uncertain, Sc_cancel_required,
     Sc_cancel_failed, Sc_cancel_uncertain})"

definition selectLiveScheduledContinuation ::
  "goal_db \<Rightarrow> string \<Rightarrow> scheduled_continuation_row option" where
  "selectLiveScheduledContinuation db goalId =
     row_latest cn_generation
       (\<lambda>c. cn_goal_id c = goalId \<and> isLiveScheduledStatus (cn_status c)) (db_continuations db)"

definition selectMutationFenceContinuation ::
  "goal_db \<Rightarrow> string \<Rightarrow> scheduled_continuation_row option" where
  "selectMutationFenceContinuation db goalId =
     row_latest cn_generation (\<lambda>c. cn_goal_id c = goalId \<and> cn_status c \<in>
       {Sc_prepared, Sc_scheduled, Sc_create_uncertain, Sc_reschedule_required,
        Sc_reschedule_failed, Sc_reschedule_uncertain}) (db_continuations db)"

definition mutationFenceDueAt :: "scheduled_continuation_row \<Rightarrow> iso option" where
  "mutationFenceDueAt row =
     (if cn_occurrence row = So_interval then None
      else if cn_status row = Sc_reschedule_failed then Some (cn_due_at row)
      else Some (case cn_pending_due_at row of None \<Rightarrow> cn_due_at row | Some t \<Rightarrow> t))"

definition optional_iso_ok :: "iso option \<Rightarrow> bool" where
  "optional_iso_ok t = (case t of None \<Rightarrow> True | Some v \<Rightarrow> validate_iso v)"

text \<open>The checks of the decoder; the decoded record has the columns of the row.\<close>

definition toScheduledContinuationRecord ::
  "scheduled_continuation_row \<Rightarrow> goal_error + scheduled_continuation_row" where
  "toScheduledContinuationRecord row =
     (if cn_occurrence row = So_once \<and> cn_interval_minutes row \<noteq> None then Inl corrupt
      else if cn_occurrence row = So_interval \<and> cn_interval_minutes row \<noteq> Some 60 then Inl corrupt
      else if cn_destination row \<noteq> ''current_chat'' then Inl corrupt
      else if cn_generation row \<le> 0 \<or> cn_source_goal_revision row < 0 \<or> cn_version row < 0
      then Inl corrupt
      else if \<not> validate_iso (cn_due_at row) \<or> \<not> validate_iso (cn_created_at row)
        \<or> \<not> validate_iso (cn_updated_at row) \<or> \<not> optional_iso_ok (cn_claimed_at row)
        \<or> \<not> optional_iso_ok (cn_terminal_at row) \<or> \<not> optional_iso_ok (cn_pending_due_at row)
        \<or> \<not> optional_iso_ok (cn_last_collision_at row)
        \<or> \<not> optional_iso_ok (cn_last_rescheduled_at row)
        \<or> \<not> optional_iso_ok (cn_orphan_probe_started_at row)
      then Inl corrupt
      else Inr row)"

definition requireScheduledContinuationById ::
  "goal_db \<Rightarrow> string \<Rightarrow> goal_error + scheduled_continuation_row" where
  "requireScheduledContinuationById db continuationId =
     (case row_get (\<lambda>c. cn_id c = continuationId) (db_continuations db) of
        None \<Rightarrow> Inl not_found | Some row \<Rightarrow> toScheduledContinuationRecord row)"

section \<open>Lemmas on decoding\<close>

lemma selectById_SomeD: "selectById db i = Some r \<Longrightarrow> r \<in> set (db_goals db) \<and> gr_id r = i"
  unfolding selectById_def by (auto dest: row_get_SomeD)

lemma requireById_InrE:
  assumes "requireById db i = Inr g"
  obtains row where "selectById db i = Some row" "row \<in> set (db_goals db)" "gr_id row = i"
    "toGoalRecord db row = Inr g"
  using assms selectById_SomeD by (auto simp: requireById_def split: option.splits)

text \<open>What a decoded goal says about its row.\<close>

lemma decode_goal_fields:
  assumes "decode_goal row cps x = Inr g"
  shows "g_id g = gr_id row" "g_workspaceId g = gr_workspace_id row"
    "g_ownerClientId g = gr_owner_client_id row" "g_objective g = gr_objective row"
    "g_plan g = gr_plan row" "g_status g = gr_status row" "g_revision g = gr_revision row"
    "g_currentPhase g = gr_current_phase row" "g_nextAction g = gr_next_action row"
    "g_blockers g = gr_blockers row" "g_ponytailMode g = gr_ponytail_mode row"
    "g_leaseOwnerClientId g = gr_lease_owner_client_id row"
    "g_leaseOwnerSessionId g = gr_lease_owner_session_id row"
    "g_leaseTokenHash g = gr_lease_token_hash row"
    "g_leaseDurationSeconds g = gr_lease_duration_seconds row"
    "g_leaseGeneration g = gr_lease_generation row"
    "g_leaseActivitySeq g = gr_lease_activity_seq row"
    "g_leaseHeartbeatAt g = gr_lease_heartbeat_at row"
    "g_leaseExpiresAt g = gr_lease_expires_at row"
    "map_ok toCheckpoint cps = Inr (g_checkpoints g)"
    "int (length (g_checkpoints g)) = gr_revision row"
    "contiguous_from_one (g_checkpoints g)"
    "validateLeaseState row (gr_status row)" "validateTerminalState row (gr_status row)"
    "validate_iso (gr_created_at row)" "validate_iso (gr_updated_at row)"
  using assms by (auto simp: decode_goal_def bind_ok_Inr_iff split: if_splits)

lemma decode_goal_tasks:
  assumes "decode_goal row cps x = Inr g"
  obtains ts where "parseTrackedTasks (gr_tracked_tasks row) (gr_active_task_ids row) = Inr ts"
    "g_activeTaskIds g = blockingTaskIds ts" "g_trackedTasks g = Some ts"
  using assms by (auto simp: decode_goal_def bind_ok_Inr_iff split: if_splits)

lemma decode_goal_execution:
  assumes "decode_goal row cps x = Inr g"
  shows "g_executionId g = map_option er_id x"
    "g_executionGeneration g = map_option er_lease_generation x"
  using assms
  by (auto simp: decode_goal_def bind_ok_Inr_iff requireExecutionRow_def
      split: if_splits option.splits)

lemmas goal_record_fields = decode_goal_fields [of _ "checkpoints_of db (gr_id row)" for db row]

text \<open>Whether a row decodes, as one condition.\<close>

definition decodes :: "goal_db \<Rightarrow> goal_row \<Rightarrow> bool" where
  "decodes db row \<longleftrightarrow> \<not> is_err (toGoalRecord db row)"

lemma decodes_iff: "decodes db row \<longleftrightarrow> (\<exists>g. toGoalRecord db row = Inr g)"
  by (cases "toGoalRecord db row") (auto simp: decodes_def)

lemma decode_goal_ok_iff:
  "(\<exists>g. decode_goal row cps x = Inr g) \<longleftrightarrow>
     (\<exists>ts. parseTrackedTasks (gr_tracked_tasks row) (gr_active_task_ids row) = Inr ts) \<and>
     (\<forall>e. x = Some e \<longrightarrow> (\<exists>v. requireExecutionRow e = Inr v)) \<and>
     (\<exists>cs. map_ok toCheckpoint cps = Inr cs \<and> int (length cs) = gr_revision row
        \<and> contiguous_from_one cs) \<and>
     validate_iso (gr_created_at row) \<and> validate_iso (gr_updated_at row) \<and>
     validateLeaseState row (gr_status row) \<and> validateTerminalState row (gr_status row)"
proof -
  consider (none) "x = None" | (bad) e err where "x = Some e" "requireExecutionRow e = Inl err"
    | (good) e v where "x = Some e" "requireExecutionRow e = Inr v"
    by (cases x) (auto, metis sum.exhaust)
  then show ?thesis
    by cases (cases "parseTrackedTasks (gr_tracked_tasks row) (gr_active_task_ids row)";
        cases "map_ok toCheckpoint cps"; force simp: decode_goal_def)+
qed

text \<open>The lease is held entirely or not at all.\<close>

lemma validateLeaseState_iff:
  "validateLeaseState row status \<longleftrightarrow>
     (gr_lease_owner_client_id row = None \<and> gr_lease_owner_session_id row = None
      \<and> gr_lease_token_hash row = None \<and> gr_lease_duration_seconds row = None
      \<and> gr_lease_heartbeat_at row = None \<and> gr_lease_expires_at row = None)
     \<or> (status = Gs_active \<and> gr_lease_owner_client_id row \<noteq> None
      \<and> gr_lease_owner_session_id row \<noteq> None \<and> gr_lease_token_hash row \<noteq> None
      \<and> (\<exists>d > 0. gr_lease_duration_seconds row = Some d)
      \<and> (\<exists>t. gr_lease_heartbeat_at row = Some (Instant t))
      \<and> (\<exists>t. gr_lease_expires_at row = Some (Instant t)))"
  by (cases "gr_lease_owner_client_id row"; cases "gr_lease_owner_session_id row";
      cases "gr_lease_token_hash row"; cases "gr_lease_duration_seconds row";
      cases "gr_lease_heartbeat_at row"; cases "gr_lease_expires_at row")
    (auto simp: validateLeaseState_def lease_fields_def present_count_def Let_def validate_iso_iff)

lemma validateTerminalState_iff:
  "validateTerminalState row status \<longleftrightarrow>
     (if status = Gs_active
      then gr_terminal_summary row = None \<and> gr_terminal_evidence row = None
        \<and> gr_terminal_at row = None
      else gr_terminal_summary row \<noteq> None \<and> gr_terminal_evidence row \<noteq> None
        \<and> (\<exists>t. gr_terminal_at row = Some (Instant t)))"
  by (cases "gr_terminal_summary row"; cases "gr_terminal_evidence row";
      cases "gr_terminal_at row")
    (auto simp: validateTerminalState_def present_count_def Let_def validate_iso_iff)

end
