(* ===== verification/Goal_Repository.thy ===== *)
theory Goal_Repository
  imports Goal_Store
begin

text \<open>
  The operations of the goal repository (packages/storage/src/goal-repository.ts): acquiring a lease,
  checkpointing, finishing, cancelling and reconciling a goal, and the fenced mutation calls. Each
  operation is a function from the request and the database to an error or the new database and the
  result; \<open>commit\<close> is the transaction around it. The identifiers the source takes from
  \<open>randomUUID\<close> are arguments. \<open>Goal_Wake\<close> and \<open>Goal_Wake_Claim\<close> add the operations on scheduled
  continuations.
\<close>

section \<open>Statements\<close>

text \<open>An UPDATE of the goals table that must change one row.\<close>

definition update_goal ::
  "(goal_row \<Rightarrow> bool) \<Rightarrow> (goal_row \<Rightarrow> goal_row) \<Rightarrow> goal_db \<Rightarrow> goal_error + goal_db" where
  "update_goal P f db =
     (if row_changes P (db_goals db) \<noteq> 1 then Inl conflict
      else Inr (db\<lparr>db_goals := row_update P f (db_goals db)\<rparr>))"

definition insert_goal :: "goal_row \<Rightarrow> goal_db \<Rightarrow> goal_error + goal_db" where
  "insert_goal row db =
     (if \<exists>r \<in> set (db_goals db). gr_id r = gr_id row
        \<or> (gr_workspace_id r = gr_workspace_id row \<and> gr_goal_key r = gr_goal_key row)
      then Inl SqlConstraint
      else Inr (db\<lparr>db_goals := db_goals db @ [row]\<rparr>))"

definition insertExecution :: "goal_execution_row \<Rightarrow> goal_db \<Rightarrow> goal_error + goal_db" where
  "insertExecution x db =
     (if er_lease_generation x \<le> 0 \<or> (\<forall>r \<in> set (db_goals db). gr_id r \<noteq> er_goal_id x)
        \<or> (\<exists>e \<in> set (db_executions db). er_id e = er_id x
             \<or> (er_goal_id e = er_goal_id x \<and> er_lease_generation e = er_lease_generation x))
      then Inl SqlConstraint
      else Inr (db\<lparr>db_executions := db_executions db @ [x]\<rparr>))"

definition updateExecutionState ::
  "string \<Rightarrow> int \<Rightarrow> execution_receipt_state \<Rightarrow> iso \<Rightarrow> goal_db \<Rightarrow> goal_error + goal_db" where
  "updateExecutionState goalId leaseGeneration state now db =
     (let P = (\<lambda>x. er_goal_id x = goalId \<and> er_lease_generation x = leaseGeneration)
      in if row_changes P (db_executions db) > 1 then Inl corrupt
         else Inr (db\<lparr>db_executions :=
           row_update P (\<lambda>x. x\<lparr>er_state := state, er_updated_at := now\<rparr>) (db_executions db)\<rparr>))"

definition insertCheckpoint :: "checkpoint_row \<Rightarrow> goal_db \<Rightarrow> goal_error + goal_db" where
  "insertCheckpoint c db =
     (if cr_revision c \<le> 0 \<or> (\<forall>r \<in> set (db_goals db). gr_id r \<noteq> cr_goal_id c)
        \<or> (\<exists>k \<in> set (db_checkpoints db). cr_id k = cr_id c
             \<or> (cr_goal_id k = cr_goal_id c \<and> cr_revision k = cr_revision c))
      then Inl SqlConstraint
      else Inr (db\<lparr>db_checkpoints := db_checkpoints db @ [c]\<rparr>))"

definition complete_calls :: "(fenced_call_row \<Rightarrow> bool) \<Rightarrow> iso \<Rightarrow> goal_db \<Rightarrow> goal_db" where
  "complete_calls P now db = db\<lparr>db_calls :=
     row_update (\<lambda>c. P c \<and> fc_completed_at c = None)
       (\<lambda>c. c\<lparr>fc_completed_at := Some now\<rparr>) (db_calls db)\<rparr>"

definition insert_call :: "fenced_call_row \<Rightarrow> goal_db \<Rightarrow> goal_error + goal_db" where
  "insert_call c db =
     (if fc_lease_generation c < 0 \<or> (\<forall>r \<in> set (db_goals db). gr_id r \<noteq> fc_goal_id c)
        \<or> (\<exists>k \<in> set (db_calls db). fc_call_id k = fc_call_id c)
      then Inl SqlConstraint
      else Inr (db\<lparr>db_calls := db_calls db @ [c]\<rparr>))"

section \<open>Guards\<close>

definition require_true :: "bool \<Rightarrow> goal_error \<Rightarrow> goal_error + unit" where
  "require_true b e = (if b then Inr () else Inl e)"

lemma require_true_Inr_iff [simp]: "require_true b e = Inr u \<longleftrightarrow> b"
  by (simp add: require_true_def)

text \<open>\<open>goal.leaseExpiresAt === undefined || parseIso(..) <= parseIso(now)\<close> is the error.\<close>

definition require_unexpired :: "iso option \<Rightarrow> iso \<Rightarrow> goal_error + unit" where
  "require_unexpired expiresAt now = (case expiresAt of
     None \<Rightarrow> Inl lease_invalid
   | Some t \<Rightarrow> bind_ok (parse_iso t) (\<lambda>e. bind_ok (parse_iso now) (\<lambda>n.
       if e \<le> n then Inl lease_invalid else Inr ())))"

definition assertMutableLease ::
  "goal_record \<Rightarrow> string \<Rightarrow> string \<Rightarrow> string \<Rightarrow> int \<Rightarrow> iso \<Rightarrow> goal_error + unit" where
  "assertMutableLease goal ownerClientId ownerSessionId tokenHash revision now =
     (if g_status goal \<noteq> Gs_active then Inl terminal_goal
      else if g_revision goal \<noteq> revision then Inl conflict
      else if g_leaseOwnerClientId goal \<noteq> Some ownerClientId
        \<or> g_leaseOwnerSessionId goal \<noteq> Some ownerSessionId
        \<or> g_leaseTokenHash goal \<noteq> Some tokenHash then Inl lease_invalid
      else require_unexpired (g_leaseExpiresAt goal) now)"

definition assertOwner :: "goal_record \<Rightarrow> string \<Rightarrow> goal_error + unit" where
  "assertOwner goal ownerClientId =
     require_true (g_ownerClientId goal = ownerClientId) owner_mismatch"

definition assertCompletionReady :: "goal_record \<Rightarrow> goal_terminal_status \<Rightarrow> goal_error + unit" where
  "assertCompletionReady goal status =
     (if status \<noteq> Gt_completed then Inr ()
      else if filter (\<lambda>s. gp_status s \<noteq> St_completed) (g_plan goal) \<noteq> [] then Inl conflict
      else if g_blockers goal \<noteq> [] then Inl conflict
      else if g_activeTaskIds goal \<noteq> [] then Inl conflict
      else Inr ())"

definition trackedTasksAtCancellation :: "goal_record \<Rightarrow> goal_tracked_task list" where
  "trackedTasksAtCancellation goal =
     (if g_checkpoints goal = [] then [] else ck_trackedTasks (last (g_checkpoints goal)))"

section \<open>Acquiring a lease\<close>

definition assessStaleGoalLeaseRecovery ::
  "goal_record \<Rightarrow> goal_worker_liveness_evidence option \<Rightarrow> iso \<Rightarrow> bool
     \<Rightarrow> goal_error + (bool \<times> int option)" where
  "assessStaleGoalLeaseRecovery goal evidence now hasLiveScheduledContinuation =
     bind_ok (assessGoalWorkerLiveness \<lparr>wl_goal = goal, wl_evidence = evidence, wl_now = now,
       wl_hasLiveScheduledContinuation = hasLiveScheduledContinuation,
       wl_staleHeartbeatGraceSeconds = None\<rparr>) (\<lambda>assessment.
       Inr (case assessment of
         Inactive _ \<Rightarrow> (True, None)
       | Live Heartbeat_grace (Some retry) \<Rightarrow> (False, Some retry)
       | _ \<Rightarrow> (False, None)))"

definition rotateExecutionReceiptForLeaseAcquisition ::
  "goal_record \<Rightarrow> string \<Rightarrow> string \<Rightarrow> string \<Rightarrow> iso \<Rightarrow> goal_db \<Rightarrow> goal_error + goal_db" where
  "rotateExecutionReceiptForLeaseAcquisition goal executionId ownerClientId ownerSessionId now db =
     bind_ok (if g_leaseGeneration goal > 0
       then updateExecutionState (g_id goal) (g_leaseGeneration goal) Xs_superseded now db
       else Inr db)
     (insertExecution \<lparr>er_id = executionId, er_goal_id = g_id goal,
       er_workspace_id = g_workspaceId goal, er_lease_generation = g_leaseGeneration goal + 1,
       er_owner_client_id = ownerClientId, er_owner_session_id = ownerSessionId,
       er_state = Xs_active, er_created_at = now, er_updated_at = now\<rparr>)"

text \<open>The first branch of \<open>acquire\<close>: the goal does not exist yet.\<close>

definition acquire_new ::
  "acquire_goal_request \<Rightarrow> string \<Rightarrow> goal_db \<Rightarrow> goal_error + goal_db \<times> acquire_goal_result" where
  "acquire_new request executionId db = (case (aq_objective request, aq_plan request) of
     (Some objective, Some plan) \<Rightarrow>
       bind_ok (addSeconds (aq_now request) (aq_leaseSeconds request)) (\<lambda>leaseExpiresAt.
       bind_ok (insert_goal \<lparr>gr_id = aq_goalId request, gr_workspace_id = aq_workspaceId request,
         gr_goal_key = aq_goalKey request, gr_owner_client_id = aq_ownerClientId request,
         gr_objective = objective, gr_plan = plan, gr_status = Gs_active, gr_revision = 0,
         gr_current_phase = ''created'', gr_next_action = [], gr_blockers = [],
         gr_active_task_ids = [], gr_tracked_tasks = Some [],
         gr_ponytail_mode = aq_ponytailMode request,
         gr_lease_owner_client_id = Some (aq_ownerClientId request),
         gr_lease_owner_session_id = Some (aq_ownerSessionId request),
         gr_lease_token_hash = Some (aq_leaseTokenHash request),
         gr_lease_duration_seconds = Some (aq_leaseSeconds request), gr_lease_generation = 1,
         gr_lease_activity_seq = 0, gr_lease_heartbeat_at = Some (aq_now request),
         gr_lease_expires_at = Some leaseExpiresAt, gr_created_at = aq_now request,
         gr_updated_at = aq_now request, gr_terminal_summary = None,
         gr_terminal_evidence = None, gr_terminal_at = None\<rparr> db) (\<lambda>db1.
       bind_ok (insertExecution \<lparr>er_id = executionId, er_goal_id = aq_goalId request,
         er_workspace_id = aq_workspaceId request, er_lease_generation = 1,
         er_owner_client_id = aq_ownerClientId request,
         er_owner_session_id = aq_ownerSessionId request, er_state = Xs_active,
         er_created_at = aq_now request, er_updated_at = aq_now request\<rparr> db1) (\<lambda>db2.
       bind_ok (requireById db2 (aq_goalId request)) (\<lambda>goal.
         Inr (db2, \<lparr>ar_goal = goal, ar_acquired = True, ar_retryAfterSeconds = None,
           ar_staleWorkerRecovered = False\<rparr>)))))
   | _ \<Rightarrow> Inl not_found)"

text \<open>The update that hands the lease to the requesting worker.\<close>

definition take_lease ::
  "acquire_goal_request \<Rightarrow> iso \<Rightarrow> goal_row \<Rightarrow> goal_row" where
  "take_lease request leaseExpiresAt row = row\<lparr>
     gr_lease_owner_client_id := Some (aq_ownerClientId request),
     gr_lease_owner_session_id := Some (aq_ownerSessionId request),
     gr_lease_token_hash := Some (aq_leaseTokenHash request),
     gr_lease_duration_seconds := Some (aq_leaseSeconds request),
     gr_lease_generation := gr_lease_generation row + 1, gr_lease_activity_seq := 0,
     gr_lease_heartbeat_at := Some (aq_now request),
     gr_lease_expires_at := Some leaseExpiresAt, gr_updated_at := aq_now request\<rparr>"

definition acquire_lease ::
  "acquire_goal_request \<Rightarrow> string \<Rightarrow> goal_record \<Rightarrow> bool \<Rightarrow> goal_db
     \<Rightarrow> goal_error + goal_db \<times> acquire_goal_result" where
  "acquire_lease request executionId existing recovered db =
     bind_ok (addSeconds (aq_now request) (aq_leaseSeconds request)) (\<lambda>leaseExpiresAt.
     bind_ok (update_goal (\<lambda>r. gr_id r = g_id existing \<and> gr_status r = Gs_active
         \<and> gr_revision r = g_revision existing
         \<and> gr_lease_generation r = g_leaseGeneration existing
         \<and> gr_lease_activity_seq r = g_leaseActivitySeq existing)
       (take_lease request leaseExpiresAt) db) (\<lambda>db1.
     bind_ok (rotateExecutionReceiptForLeaseAcquisition existing executionId
       (aq_ownerClientId request) (aq_ownerSessionId request) (aq_now request) db1) (\<lambda>db2.
     bind_ok (requireById db2 (g_id existing)) (\<lambda>goal.
       Inr (db2, \<lparr>ar_goal = goal, ar_acquired = True, ar_retryAfterSeconds = None,
         ar_staleWorkerRecovered = recovered\<rparr>)))))"

definition acquire_refused ::
  "goal_record \<Rightarrow> int option \<Rightarrow> goal_db \<Rightarrow> goal_error + goal_db \<times> acquire_goal_result" where
  "acquire_refused existing retry db = Inr (db, \<lparr>ar_goal = existing, ar_acquired = False,
     ar_retryAfterSeconds = retry, ar_staleWorkerRecovered = False\<rparr>)"

definition acquire_existing ::
  "acquire_goal_request \<Rightarrow> string \<Rightarrow> goal_record \<Rightarrow> goal_db
     \<Rightarrow> goal_error + goal_db \<times> acquire_goal_result" where
  "acquire_existing request executionId existing db =
     (if aq_objective request \<noteq> None \<and> aq_objective request \<noteq> Some (g_objective existing)
      then Inl conflict
      else if aq_plan request \<noteq> None \<and> aq_plan request \<noteq> Some (g_plan existing)
      then Inl conflict
      else if g_status existing \<noteq> Gs_active then acquire_refused existing None db
      else bind_ok (parse_iso (aq_now request)) (\<lambda>nowMs.
        case g_leaseExpiresAt existing of
          None \<Rightarrow> acquire_lease request executionId existing False db
        | Some expiresAt \<Rightarrow> bind_ok (parse_iso expiresAt) (\<lambda>expiresMs.
            let heldLeaseSeconds = max 1 (ceil_div_1000 (expiresMs - nowMs))
            in if expiresMs > nowMs then
                 bind_ok (assessStaleGoalLeaseRecovery existing (aq_recoveryEvidence request)
                   (aq_now request)
                   (selectLiveScheduledContinuation db (g_id existing) \<noteq> None)) (\<lambda>(recover, retry).
                   if \<not> recover
                   then acquire_refused existing (Some (min heldLeaseSeconds
                     (case retry of None \<Rightarrow> heldLeaseSeconds | Some n \<Rightarrow> n))) db
                   else acquire_lease request executionId existing True db)
               else acquire_lease request executionId existing False db)))"

definition acquire ::
  "acquire_goal_request \<Rightarrow> string \<Rightarrow> goal_db \<Rightarrow> goal_error + goal_db \<times> acquire_goal_result" where
  "acquire request executionId db =
     (case selectByKey db (aq_workspaceId request) (aq_goalKey request) of
        None \<Rightarrow> acquire_new request executionId db
      | Some row \<Rightarrow> bind_ok (toGoalRecord db row) (\<lambda>existing.
          acquire_existing request executionId existing db))"

section \<open>Checkpoint and finish\<close>

definition checkpoint_lease_expiry ::
  "checkpoint_goal_request \<Rightarrow> int \<Rightarrow> goal_db \<Rightarrow> goal_error + iso option" where
  "checkpoint_lease_expiry request leaseDurationSeconds db =
     bind_ok (addSeconds (cq_now request) leaseDurationSeconds) (\<lambda>normalLeaseExpiresAt.
       if cq_releaseLease request then Inr None
       else case selectLiveScheduledContinuation db (cq_goalId request) of
         None \<Rightarrow> Inr (Some normalLeaseExpiresAt)
       | Some live \<Rightarrow>
           if cn_occurrence live = So_interval then Inr (Some normalLeaseExpiresAt)
           else bind_ok (minIso normalLeaseExpiresAt (case cn_pending_due_at live of
               None \<Rightarrow> cn_due_at live | Some t \<Rightarrow> t)) (\<lambda>t. Inr (Some t)))"

definition write_checkpoint ::
  "checkpoint_goal_request \<Rightarrow> int \<Rightarrow> int \<Rightarrow> iso option \<Rightarrow> goal_tracked_task list \<Rightarrow> goal_row \<Rightarrow> goal_row"
  where "write_checkpoint request revision leaseDurationSeconds leaseExpiresAt trackedTasks row =
     row\<lparr>gr_plan := cq_plan request, gr_revision := revision,
       gr_current_phase := cq_currentPhase request, gr_next_action := cq_nextAction request,
       gr_blockers := cq_blockers request, gr_active_task_ids := blockingTaskIds trackedTasks,
       gr_tracked_tasks := Some trackedTasks, gr_ponytail_mode := cq_ponytailMode request,
       gr_lease_owner_client_id :=
         (if cq_releaseLease request then None else Some (cq_ownerClientId request)),
       gr_lease_owner_session_id :=
         (if cq_releaseLease request then None else Some (cq_ownerSessionId request)),
       gr_lease_token_hash :=
         (if cq_releaseLease request then None else Some (cq_leaseTokenHash request)),
       gr_lease_duration_seconds :=
         (if cq_releaseLease request then None else Some leaseDurationSeconds),
       gr_lease_heartbeat_at := (if cq_releaseLease request then None else Some (cq_now request)),
       gr_lease_expires_at := leaseExpiresAt,
       gr_lease_activity_seq := gr_lease_activity_seq row + 1, gr_updated_at := cq_now request\<rparr>"

definition checkpoint ::
  "checkpoint_goal_request \<Rightarrow> goal_db \<Rightarrow> goal_error + goal_db \<times> goal_record" where
  "checkpoint request db =
     bind_ok (requireById db (cq_goalId request)) (\<lambda>current.
     bind_ok (assertMutableLease current (cq_ownerClientId request) (cq_ownerSessionId request)
       (cq_leaseTokenHash request) (cq_expectedRevision request) (cq_now request)) (\<lambda>_.
     case g_leaseDurationSeconds current of
       None \<Rightarrow> Inl corrupt
     | Some leaseDurationSeconds \<Rightarrow>
     bind_ok (normalizeTrackedTasks (cq_trackedTasks request) (cq_activeTaskIds request))
       (\<lambda>trackedTasks.
     bind_ok (checkpoint_lease_expiry request leaseDurationSeconds db) (\<lambda>leaseExpiresAt.
     bind_ok (update_goal (\<lambda>r. gr_id r = cq_goalId request
         \<and> gr_revision r = cq_expectedRevision request
         \<and> gr_lease_token_hash r = Some (cq_leaseTokenHash request) \<and> gr_status r = Gs_active)
       (write_checkpoint request (g_revision current + 1) leaseDurationSeconds leaseExpiresAt
         trackedTasks) db) (\<lambda>db1.
     bind_ok (insertCheckpoint \<lparr>cr_id = cq_checkpointId request, cr_goal_id = cq_goalId request,
         cr_revision = g_revision current + 1, cr_current_phase = cq_currentPhase request,
         cr_summary = cq_summary request, cr_step_updates = cq_stepUpdates request,
         cr_next_action = cq_nextAction request, cr_blockers = cq_blockers request,
         cr_evidence = cq_evidence request, cr_active_task_ids = blockingTaskIds trackedTasks,
         cr_tracked_tasks = Some trackedTasks, cr_created_at = cq_now request\<rparr> db1) (\<lambda>db2.
     bind_ok (if cq_releaseLease request
       then updateExecutionState (cq_goalId request) (g_leaseGeneration current) Xs_released
         (cq_now request) db2
       else Inr db2) (\<lambda>db3.
     bind_ok (requireById db3 (cq_goalId request)) (\<lambda>goal. Inr (db3, goal)))))))))"

text \<open>The columns every closing statement sets: no lease, no work, the terminal outcome.\<close>

definition close_goal ::
  "goal_status \<Rightarrow> string \<Rightarrow> int \<Rightarrow> string \<Rightarrow> goal_evidence list \<Rightarrow> iso \<Rightarrow> goal_row \<Rightarrow> goal_row" where
  "close_goal status phase revision summary evidence now row =
     row\<lparr>gr_status := status, gr_revision := revision, gr_current_phase := phase,
       gr_next_action := [], gr_blockers := [], gr_active_task_ids := [],
       gr_tracked_tasks := Some [], gr_lease_owner_client_id := None,
       gr_lease_owner_session_id := None, gr_lease_token_hash := None,
       gr_lease_duration_seconds := None, gr_lease_heartbeat_at := None,
       gr_lease_expires_at := None, gr_updated_at := now, gr_terminal_summary := Some summary,
       gr_terminal_evidence := Some evidence, gr_terminal_at := Some now\<rparr>"

definition closing_checkpoint ::
  "string \<Rightarrow> string \<Rightarrow> int \<Rightarrow> string \<Rightarrow> string \<Rightarrow> goal_evidence list \<Rightarrow> goal_tracked_task list \<Rightarrow> iso
     \<Rightarrow> checkpoint_row" where
  "closing_checkpoint checkpointId goalId revision phase summary evidence trackedTasks now =
     \<lparr>cr_id = checkpointId, cr_goal_id = goalId, cr_revision = revision,
       cr_current_phase = phase, cr_summary = summary, cr_step_updates = [], cr_next_action = [],
       cr_blockers = [], cr_evidence = evidence,
       cr_active_task_ids = blockingTaskIds trackedTasks, cr_tracked_tasks = Some trackedTasks,
       cr_created_at = now\<rparr>"

text \<open>The checks \<open>finish\<close> and \<open>validateFinish\<close> share.\<close>

definition validateFinish :: "finish_goal_request \<Rightarrow> goal_db \<Rightarrow> goal_error + goal_record" where
  "validateFinish request db =
     bind_ok (requireById db (fq_goalId request)) (\<lambda>current.
     bind_ok (assertMutableLease current (fq_ownerClientId request) (fq_ownerSessionId request)
       (fq_leaseTokenHash request) (fq_expectedRevision request) (fq_now request)) (\<lambda>_.
     bind_ok (assertCompletionReady current (fq_status request)) (\<lambda>_. Inr current)))"

definition finish :: "finish_goal_request \<Rightarrow> goal_db \<Rightarrow> goal_error + goal_db \<times> goal_record" where
  "finish request db =
     bind_ok (validateFinish request db) (\<lambda>current.
     bind_ok (update_goal (\<lambda>r. gr_id r = fq_goalId request
         \<and> gr_revision r = fq_expectedRevision request
         \<and> gr_lease_token_hash r = Some (fq_leaseTokenHash request) \<and> gr_status r = Gs_active)
       (close_goal (terminal_goal_status (fq_status request))
         (goal_terminal_status_name (fq_status request)) (g_revision current + 1)
         (fq_summary request) (fq_evidence request) (fq_now request)) db) (\<lambda>db1.
     bind_ok (insertCheckpoint (closing_checkpoint (fq_checkpointId request) (fq_goalId request)
         (g_revision current + 1) (goal_terminal_status_name (fq_status request))
         (fq_summary request) (fq_evidence request) [] (fq_now request)) db1) (\<lambda>db2.
     bind_ok (updateExecutionState (fq_goalId request) (g_leaseGeneration current) Xs_terminal
       (fq_now request) db2) (\<lambda>db3.
     bind_ok (requireById db3 (fq_goalId request)) (\<lambda>goal. Inr (db3, goal))))))"

section \<open>Cancellation\<close>

definition cancellation_result ::
  "goal_db \<Rightarrow> string \<Rightarrow> goal_tracked_task list \<Rightarrow> goal_error + goal_db \<times> cancel_goal_result" where
  "cancellation_result db goalId trackedTasks = bind_ok (requireById db goalId) (\<lambda>goal.
     Inr (db, \<lparr>nr_goal = goal, nr_trackedTaskIds = map tt_taskId trackedTasks,
       nr_trackedTasks = trackedTasks\<rparr>))"

definition cancel ::
  "cancel_goal_request \<Rightarrow> goal_db \<Rightarrow> goal_error + goal_db \<times> cancel_goal_result" where
  "cancel request db =
     bind_ok (requireById db (nq_goalId request)) (\<lambda>current.
     bind_ok (assertOwner current (nq_ownerClientId request)) (\<lambda>_.
     if g_revision current \<noteq> nq_expectedRevision request then Inl conflict
     else if g_status current = Gs_cancelled then
       let trackedTasks = trackedTasksAtCancellation current
       in Inr (complete_calls (\<lambda>c. fc_goal_id c = nq_goalId request) (nq_now request) db,
         \<lparr>nr_goal = current, nr_trackedTaskIds = map tt_taskId trackedTasks,
          nr_trackedTasks = trackedTasks\<rparr>)
     else if g_status current \<noteq> Gs_active then Inl terminal_goal
     else
       let trackedTasks = trackedTasksAtCancellation current;
           revision = g_revision current + 1
       in bind_ok (update_goal (\<lambda>r. gr_id r = nq_goalId request
             \<and> gr_revision r = nq_expectedRevision request \<and> gr_status r = Gs_active)
           (close_goal Gs_cancelled ''cancelled'' revision (nq_summary request)
             (nq_evidence request) (nq_now request)) db) (\<lambda>db1.
         bind_ok (insertCheckpoint (closing_checkpoint (nq_checkpointId request)
             (nq_goalId request) revision ''cancelled'' (nq_summary request)
             (nq_evidence request) trackedTasks (nq_now request))
           (complete_calls (\<lambda>c. fc_goal_id c = nq_goalId request) (nq_now request) db1)) (\<lambda>db2.
         bind_ok (updateExecutionState (nq_goalId request) (g_leaseGeneration current)
           Xs_terminal (nq_now request) db2) (\<lambda>db3.
         cancellation_result db3 (nq_goalId request) trackedTasks)))))"

text \<open>The checks on the receipt the task handle names.\<close>

definition cancellable_execution ::
  "cancel_execution_request \<Rightarrow> goal_db \<Rightarrow> goal_error + goal_execution_row" where
  "cancellable_execution request db =
     (case row_get (\<lambda>x. er_id x = xq_executionId request) (db_executions db) of
        None \<Rightarrow> Inl not_found
      | Some row \<Rightarrow> bind_ok (requireExecutionRow row) (\<lambda>execution.
          if er_goal_id execution \<noteq> xq_goalId request
            \<or> er_owner_client_id execution \<noteq> xq_ownerClientId request then Inl not_found
          else if er_lease_generation execution \<noteq> xq_expectedExecutionGeneration request
            \<or> (er_state execution \<noteq> Xs_active \<and> er_state execution \<noteq> Xs_released)
          then Inl conflict
          else Inr execution))"

definition cancelExecution ::
  "cancel_execution_request \<Rightarrow> goal_db \<Rightarrow> goal_error + goal_db \<times> cancel_goal_result" where
  "cancelExecution request db =
     bind_ok (cancellable_execution request db) (\<lambda>_.
     bind_ok (requireById db (xq_goalId request)) (\<lambda>current.
     bind_ok (assertOwner current (xq_ownerClientId request)) (\<lambda>_.
     if g_status current \<noteq> Gs_active then Inl terminal_goal
     else if g_executionId current \<noteq> Some (xq_executionId request)
       \<or> g_executionGeneration current \<noteq> Some (xq_expectedExecutionGeneration request)
       \<or> g_leaseGeneration current \<noteq> xq_expectedExecutionGeneration request
     then Inl conflict
     else
       let trackedTasks = trackedTasksAtCancellation current;
           revision = g_revision current + 1
       in bind_ok (update_goal (\<lambda>r. gr_id r = xq_goalId request
             \<and> gr_revision r = g_revision current
             \<and> gr_lease_generation r = xq_expectedExecutionGeneration request
             \<and> gr_status r = Gs_active)
           (close_goal Gs_cancelled ''cancelled'' revision (xq_summary request)
             (xq_evidence request) (xq_now request)) db) (\<lambda>db1.
         bind_ok (insertCheckpoint (closing_checkpoint (xq_checkpointId request)
             (xq_goalId request) revision ''cancelled'' (xq_summary request)
             (xq_evidence request) trackedTasks (xq_now request))
           (complete_calls (\<lambda>c. fc_goal_id c = xq_goalId request
             \<and> fc_lease_generation c = xq_expectedExecutionGeneration request)
             (xq_now request) db1)) (\<lambda>db2.
         bind_ok (updateExecutionState (xq_goalId request)
           (xq_expectedExecutionGeneration request) Xs_terminal (xq_now request) db2) (\<lambda>db3.
         cancellation_result db3 (xq_goalId request) trackedTasks))))))"

definition reconciliation_note :: "goal_reconciliation_reason \<Rightarrow> goal_evidence" where
  "reconciliation_note reason = \<lparr>gv_kind = Ek_note,
     gv_value = ''unified-mpc:reconciliation:'' @ reconciliation_reason_name reason\<rparr>"

text \<open>A lease that has not expired yet; a missing lease is never one.\<close>

definition lease_still_valid :: "iso option \<Rightarrow> iso \<Rightarrow> goal_error + bool" where
  "lease_still_valid expiresAt now = (case expiresAt of
     None \<Rightarrow> Inr False
   | Some t \<Rightarrow> bind_ok (parse_iso t) (\<lambda>e. bind_ok (parse_iso now) (\<lambda>n. Inr (e > n))))"

definition reconcile ::
  "reconcile_goal_request \<Rightarrow> goal_db \<Rightarrow> goal_error + goal_db \<times> goal_record" where
  "reconcile request db =
     bind_ok (requireById db (rq_goalId request)) (\<lambda>current.
     bind_ok (assertOwner current (rq_ownerClientId request)) (\<lambda>_.
     if g_status current \<noteq> Gs_active then Inr (db, current)
     else if g_revision current \<noteq> rq_expectedRevision request
       \<or> g_leaseGeneration current \<noteq> rq_expectedLeaseGeneration request
       \<or> g_leaseActivitySeq current \<noteq> rq_expectedLeaseActivitySeq request
     then Inl conflict
     else bind_ok (lease_still_valid (g_leaseExpiresAt current) (rq_now request)) (\<lambda>valid.
       if valid then Inl conflict
       else if selectLiveScheduledContinuation db (rq_goalId request) \<noteq> None then Inl conflict
       else
         let revision = g_revision current + 1;
             evidence = rq_evidence request @ [reconciliation_note (rq_reason request)]
         in bind_ok (update_goal (\<lambda>r. gr_id r = rq_goalId request
               \<and> gr_revision r = rq_expectedRevision request
               \<and> gr_lease_generation r = rq_expectedLeaseGeneration request
               \<and> gr_lease_activity_seq r = rq_expectedLeaseActivitySeq request
               \<and> gr_status r = Gs_active)
             (close_goal Gs_cancelled ''reconciled'' revision (rq_summary request) evidence
               (rq_now request)) db) (\<lambda>db1.
           bind_ok (insertCheckpoint (closing_checkpoint (rq_checkpointId request)
               (rq_goalId request) revision ''reconciled'' (rq_summary request) evidence []
               (rq_now request))
             (complete_calls (\<lambda>c. fc_goal_id c = rq_goalId request) (rq_now request) db1)) (\<lambda>db2.
           bind_ok (updateExecutionState (rq_goalId request) (g_leaseGeneration current)
             Xs_terminal (rq_now request) db2) (\<lambda>db3.
           bind_ok (requireById db3 (rq_goalId request)) (\<lambda>goal. Inr (db3, goal))))))))"

section \<open>The policy of an idle goal\<close>

record set_ponytail_request =
  sq_goalId :: string
  sq_expectedRevision :: int
  sq_ponytailMode :: "goal_ponytail_mode option"
  sq_now :: iso

definition ponytail_text :: "goal_ponytail_mode option \<Rightarrow> string" where
  "ponytail_text mode = (case mode of None \<Rightarrow> ''inherit'' | Some m \<Rightarrow> ponytail_mode_name m)"

text \<open>
  SQLite compares the stored texts of two timestamps; their order is the argument \<open>text_after\<close>,
  because a timestamp of the model is the instant and not its spelling.
\<close>

definition setIdleGoalPonytailModeForHost ::
  "(iso \<Rightarrow> iso \<Rightarrow> bool) \<Rightarrow> set_ponytail_request \<Rightarrow> string \<Rightarrow> goal_db
     \<Rightarrow> goal_error + goal_db \<times> goal_record" where
  "setIdleGoalPonytailModeForHost text_after request checkpointId db =
     bind_ok (requireById db (sq_goalId request)) (\<lambda>current.
     if g_status current \<noteq> Gs_active then Inl terminal_goal
     else if g_revision current \<noteq> sq_expectedRevision request then Inl conflict
     else bind_ok (parse_iso (sq_now request)) (\<lambda>_.
     bind_ok (lease_still_valid (g_leaseExpiresAt current) (sq_now request)) (\<lambda>valid.
       if valid then Inl conflict
       else if selectLiveScheduledContinuation db (g_id current) \<noteq> None then Inl conflict
       else if \<exists>c \<in> set (db_calls db). fc_goal_id c = g_id current
         \<and> fc_lease_generation c = g_leaseGeneration current \<and> fc_completed_at c = None
         \<and> text_after (fc_expires_at c) (sq_now request) then Inl conflict
       else if g_ponytailMode current = sq_ponytailMode request then Inr (db, current)
       else
         let revision = g_revision current + 1;
             tasks = (case g_trackedTasks current of None \<Rightarrow> [] | Some ts \<Rightarrow> ts)
         in bind_ok (update_goal (\<lambda>r. gr_id r = g_id current \<and> gr_status r = Gs_active
               \<and> gr_revision r = g_revision current)
             (\<lambda>r. r\<lparr>gr_ponytail_mode := sq_ponytailMode request, gr_revision := revision,
                gr_updated_at := sq_now request\<rparr>) db) (\<lambda>db1.
           bind_ok (insertCheckpoint \<lparr>cr_id = checkpointId, cr_goal_id = g_id current,
               cr_revision = revision, cr_current_phase = g_currentPhase current,
               cr_summary = ''Desktop changed Ponytail goal policy to ''
                 @ ponytail_text (sq_ponytailMode request),
               cr_step_updates = [], cr_next_action = g_nextAction current,
               cr_blockers = g_blockers current,
               cr_evidence = [\<lparr>gv_kind = Ek_note, gv_value = ''unified-mpc:desktop-ponytail-policy:''
                 @ ponytail_text (sq_ponytailMode request)\<rparr>],
               cr_active_task_ids = g_activeTaskIds current, cr_tracked_tasks = Some tasks,
               cr_created_at = sq_now request\<rparr> db1) (\<lambda>db2.
           bind_ok (requireById db2 (g_id current)) (\<lambda>goal. Inr (db2, goal)))))))"

section \<open>Fenced mutation calls\<close>

text \<open>
  The conditions on the admission of the workspace, in the order of the source: a timestamp that
  does not parse throws corrupt where it is reached, every other failed condition is a conflict.
\<close>

definition after_start :: "iso \<Rightarrow> iso \<Rightarrow> goal_error + bool" where
  "after_start t startedAt =
     bind_ok (parse_iso t) (\<lambda>a. bind_ok (parse_iso startedAt) (\<lambda>b. Inr (a > b)))"

definition check_admission ::
  "begin_fenced_mutation_request \<Rightarrow> goal_record \<Rightarrow> int \<Rightarrow> goal_db \<Rightarrow> goal_error + unit" where
  "check_admission request goal expected db =
     (case row_get (\<lambda>a. wa_workspace_id a = bq_workspaceId request) (db_admissions db) of
        None \<Rightarrow> Inl conflict
      | Some admission \<Rightarrow>
     (case row_get (\<lambda>w. ww_id w = wa_workspace_id admission) (db_workspaces db) of
        None \<Rightarrow> Inl conflict
      | Some workspace \<Rightarrow>
     (case wa_receipt admission of
        None \<Rightarrow> Inl conflict
      | Some receipt \<Rightarrow>
          if wa_admission_generation admission \<noteq> expected
            \<or> Some (wa_write_lease_generation admission) \<noteq> ww_writer_lease_generation workspace
            \<or> ww_archived_at workspace \<noteq> None
            \<or> rp_workspaceId receipt \<noteq> Some (bq_workspaceId request)
            \<or> rp_goalId receipt \<noteq> Some (g_id goal)
            \<or> rp_admissionGeneration receipt \<noteq> Some expected
            \<or> rp_writeLeaseGeneration receipt \<noteq> Some (wa_write_lease_generation admission)
            \<or> rp_invalidatedAt receipt \<noteq> None
          then Inl conflict
          else (case ww_writer_lease_expires_at workspace of
            None \<Rightarrow> Inl conflict
          | Some writerLeaseExpiry \<Rightarrow>
              bind_ok (after_start writerLeaseExpiry (bq_startedAt request)) (\<lambda>writerAlive.
              if \<not> writerAlive then Inl conflict
              else bind_ok (case rp_expiresAt receipt of
                  None \<Rightarrow> Inr True
                | Some t \<Rightarrow> after_start t (bq_startedAt request)) (\<lambda>receiptAlive.
              if \<not> receiptAlive then Inl conflict
              else (case rp_createdAt receipt of
                None \<Rightarrow> Inl conflict
              | Some t \<Rightarrow> bind_ok (after_start t (bq_startedAt request)) (\<lambda>inFuture.
                  if inFuture then Inl conflict else Inr ()))))))))"

text \<open>
  The scheduled continuation that fences the goal bounds the renewed lease: the handoff deadline
  must not have passed, and the lease never runs beyond it.
\<close>

definition renewed_lease_expiry :: "goal_db \<Rightarrow> string \<Rightarrow> int option \<Rightarrow> iso \<Rightarrow> goal_error + iso" where
  "renewed_lease_expiry db goalId leaseDurationSeconds now =
     (case selectMutationFenceContinuation db goalId of
        None \<Rightarrow> Inl conflict
      | Some fence \<Rightarrow>
          bind_ok (case mutationFenceDueAt fence of
              None \<Rightarrow> Inr ()
            | Some due \<Rightarrow> require_unexpired (Some due) now) (\<lambda>_.
          case leaseDurationSeconds of
            None \<Rightarrow> Inl corrupt
          | Some d \<Rightarrow> bind_ok (addSeconds now d) (\<lambda>naturalLeaseExpiry.
              case mutationFenceDueAt fence of
                None \<Rightarrow> Inr naturalLeaseExpiry
              | Some due \<Rightarrow> minIso naturalLeaseExpiry due)))"

definition renew_lease :: "iso \<Rightarrow> iso \<Rightarrow> goal_row \<Rightarrow> goal_row" where
  "renew_lease now expiresAt r = r\<lparr>gr_lease_activity_seq := gr_lease_activity_seq r + 1,
     gr_lease_heartbeat_at := Some now, gr_lease_expires_at := Some expiresAt,
     gr_updated_at := now\<rparr>"

definition beginGoalFencedMutation ::
  "begin_fenced_mutation_request \<Rightarrow> goal_db \<Rightarrow> goal_error + goal_db \<times> (string \<times> int)" where
  "beginGoalFencedMutation request db =
     bind_ok (requireById db (bq_goalId request)) (\<lambda>goal.
     if g_workspaceId goal \<noteq> bq_workspaceId request then Inl conflict
     else if g_status goal \<noteq> Gs_active then Inl terminal_goal
     else if g_leaseOwnerClientId goal \<noteq> Some (bq_ownerClientId request)
       \<or> g_leaseOwnerSessionId goal \<noteq> Some (bq_ownerSessionId request) then Inl lease_invalid
     else if g_leaseTokenHash goal \<noteq> Some (bq_leaseTokenHash request)
       \<or> g_leaseGeneration goal \<noteq> bq_leaseGeneration request then Inl lease_invalid
     else bind_ok (require_unexpired (g_leaseExpiresAt goal) (bq_startedAt request)) (\<lambda>_.
       bind_ok (case bq_admissionGeneration request of
           None \<Rightarrow> Inr ()
         | Some expected \<Rightarrow> check_admission request goal expected db) (\<lambda>_.
       bind_ok (renewed_lease_expiry db (g_id goal) (g_leaseDurationSeconds goal)
         (bq_startedAt request)) (\<lambda>expiresAt.
       bind_ok (update_goal (\<lambda>r. gr_id r = g_id goal \<and> gr_status r = Gs_active
           \<and> gr_lease_token_hash r = Some (bq_leaseTokenHash request)
           \<and> gr_lease_generation r = bq_leaseGeneration request
           \<and> gr_lease_activity_seq r = g_leaseActivitySeq goal)
         (renew_lease (bq_startedAt request) expiresAt) db) (\<lambda>db1.
       bind_ok (insert_call \<lparr>fc_call_id = bq_callId request, fc_goal_id = g_id goal,
           fc_lease_generation = bq_leaseGeneration request,
           fc_started_at = bq_startedAt request, fc_heartbeat_at = bq_startedAt request,
           fc_expires_at = bq_expiresAt request, fc_completed_at = None\<rparr> db1) (\<lambda>db2.
       Inr (db2, (g_id goal, bq_leaseGeneration request))))))))"

record heartbeat_request =
  hq_callId :: string
  hq_leaseGeneration :: int
  hq_heartbeatAt :: iso
  hq_expiresAt :: iso

definition open_call :: "heartbeat_request \<Rightarrow> fenced_call_row \<Rightarrow> bool" where
  "open_call request c \<longleftrightarrow> fc_call_id c = hq_callId request
     \<and> fc_lease_generation c = hq_leaseGeneration request \<and> fc_completed_at c = None"

text \<open>
  The heartbeat tests for a missing lease duration before it looks for the fence; the admission of a
  call tests it afterwards.
\<close>

definition heartbeatGoalFencedMutation ::
  "heartbeat_request \<Rightarrow> goal_db \<Rightarrow> goal_error + goal_db \<times> unit" where
  "heartbeatGoalFencedMutation request db =
     (case row_get (open_call request) (db_calls db) of
        None \<Rightarrow> Inl conflict
      | Some call \<Rightarrow>
     bind_ok (requireById db (fc_goal_id call)) (\<lambda>goal.
     if g_status goal \<noteq> Gs_active \<or> g_leaseGeneration goal \<noteq> hq_leaseGeneration request
     then Inl lease_invalid
     else bind_ok (require_unexpired (g_leaseExpiresAt goal) (hq_heartbeatAt request)) (\<lambda>_.
       if g_leaseDurationSeconds goal = None then Inl corrupt
       else bind_ok (renewed_lease_expiry db (g_id goal) (g_leaseDurationSeconds goal)
         (hq_heartbeatAt request)) (\<lambda>expiresAt.
       if row_changes (open_call request) (db_calls db) \<noteq> 1 then Inl conflict
       else bind_ok (update_goal (\<lambda>r. gr_id r = g_id goal \<and> gr_status r = Gs_active
           \<and> gr_lease_generation r = hq_leaseGeneration request
           \<and> gr_lease_activity_seq r = g_leaseActivitySeq goal)
         (renew_lease (hq_heartbeatAt request) expiresAt)
         (db\<lparr>db_calls := row_update (open_call request) (\<lambda>c. c\<lparr>
            fc_heartbeat_at := hq_heartbeatAt request, fc_expires_at := hq_expiresAt request\<rparr>)
            (db_calls db)\<rparr>)) (\<lambda>db1. Inr (db1, ()))))))"

definition endGoalFencedMutation :: "string \<Rightarrow> iso \<Rightarrow> goal_db \<Rightarrow> goal_error + goal_db \<times> unit" where
  "endGoalFencedMutation callId completedAt db =
     Inr (complete_calls (\<lambda>c. fc_call_id c = callId) completedAt db, ())"

definition observeGoalFencedMutations ::
  "(iso \<Rightarrow> iso \<Rightarrow> bool) \<Rightarrow> string \<Rightarrow> iso \<Rightarrow> goal_db \<Rightarrow> goal_error + fenced_mutation_observation" where
  "observeGoalFencedMutations text_after goalId now db =
     bind_ok (requireById db goalId) (\<lambda>goal. Inr
       \<lparr>fo_workspaceId = g_workspaceId goal, fo_leaseGeneration = g_leaseGeneration goal,
        fo_leaseActivitySeq = g_leaseActivitySeq goal,
        fo_liveFencedCallCount = int (row_changes (\<lambda>c. fc_goal_id c = goalId
          \<and> fc_lease_generation c = g_leaseGeneration goal \<and> fc_completed_at c = None
          \<and> text_after (fc_expires_at c) now) (db_calls db))\<rparr>)"

section \<open>The continuation of a finished goal\<close>

text \<open>\<open>None\<close>: the continuation already waits for its cancellation.\<close>

definition finished_continuation_status ::
  "scheduled_continuation_row \<Rightarrow> iso \<Rightarrow> scheduled_continuation_status option" where
  "finished_continuation_status row now =
     (if cn_native_task_id row \<noteq> None \<and> cn_status row \<in> {Sc_scheduled, Sc_create_uncertain,
         Sc_reschedule_required, Sc_reschedule_failed, Sc_reschedule_uncertain}
      then
        if cn_occurrence row = So_interval then Some Sc_cancel_required
        else let effectiveDueAt = (case cn_pending_due_at row of None \<Rightarrow> cn_due_at row | Some t \<Rightarrow> t)
          in Some (case (date_parse effectiveDueAt, date_parse now) of
            (Some due, Some n) \<Rightarrow> if due \<le> n then Sc_cancel_uncertain else Sc_cancel_required
          | _ \<Rightarrow> Sc_cancel_required)
      else if cn_status row \<in> {Sc_cancel_required, Sc_cancel_failed, Sc_cancel_uncertain} then None
      else if cn_native_task_id row = None \<and> cn_status row = Sc_prepared then Some Sc_superseded
      else Some Sc_cancel_uncertain)"

definition markGoalFinishedForScheduledContinuation ::
  "string \<Rightarrow> iso \<Rightarrow> goal_db \<Rightarrow> goal_error + goal_db \<times> scheduled_continuation_row option" where
  "markGoalFinishedForScheduledContinuation goalId now db =
     (case selectLiveScheduledContinuation db goalId of
        None \<Rightarrow> Inr (db, None)
      | Some row \<Rightarrow>
          (case finished_continuation_status row now of
             None \<Rightarrow> bind_ok (toScheduledContinuationRecord row) (\<lambda>c. Inr (db, Some c))
           | Some nextStatus \<Rightarrow>
               let P = (\<lambda>c. cn_id c = cn_id row \<and> cn_version c = cn_version row);
                   db1 = db\<lparr>db_continuations := row_update P (\<lambda>c. c\<lparr>cn_status := nextStatus,
                     cn_version := cn_version c + 1, cn_updated_at := now,
                     cn_terminal_at := (if isLiveScheduledStatus nextStatus then None else Some now)\<rparr>)
                     (db_continuations db)\<rparr>
               in if row_changes P (db_continuations db) \<noteq> 1 then Inl conflict
                  else bind_ok (requireScheduledContinuationById db1 (cn_id row))
                    (\<lambda>c. Inr (db1, Some c))))"

end
