(* ===== verification/Goal_Repository_Frames.thy ===== *)
theory Goal_Repository_Frames
  imports Goal_Repository
begin

text \<open>
  How the statements and the operations of the goal repository change the tables: what each one
  needs (elimination rules), which goal it works on (views), and how the row of a goal may evolve.
\<close>

section \<open>Statements\<close>

lemma update_goalE:
  assumes "update_goal P f db = Inr db'"
  obtains "db' = db\<lparr>db_goals := row_update P f (db_goals db)\<rparr>" "row_changes P (db_goals db) = 1"
  using assms by (auto simp: update_goal_def split: if_splits)

lemma update_goal_row:
  assumes "update_goal P f db = Inr db'"
  obtains r where "r \<in> set (db_goals db)" "P r" "f r \<in> set (db_goals db')"
proof -
  have "row_changes P (db_goals db) \<noteq> 0" and db': "db_goals db' = row_update P f (db_goals db)"
    using assms by (auto elim!: update_goalE)
  then obtain r where "r \<in> set (db_goals db)" "P r" by (auto simp: row_changes_0_iff)
  moreover from this have "f r \<in> set (db_goals db')" by (auto simp: db' set_row_update)
  ultimately show ?thesis by (rule that)
qed

lemma insert_goalE:
  assumes "insert_goal row db = Inr db'"
  obtains "db' = db\<lparr>db_goals := db_goals db @ [row]\<rparr>"
    "\<forall>r \<in> set (db_goals db). gr_id r \<noteq> gr_id row
       \<and> (gr_workspace_id r, gr_goal_key r) \<noteq> (gr_workspace_id row, gr_goal_key row)"
  using assms by (auto simp: insert_goal_def split: if_splits)

lemma insertExecutionE:
  assumes "insertExecution x db = Inr db'"
  obtains "db' = db\<lparr>db_executions := db_executions db @ [x]\<rparr>" "0 < er_lease_generation x"
    "\<forall>e \<in> set (db_executions db). er_id e \<noteq> er_id x
       \<and> (er_goal_id e, er_lease_generation e) \<noteq> (er_goal_id x, er_lease_generation x)"
  using assms by (auto simp: insertExecution_def split: if_splits)

definition set_receipt ::
  "string \<Rightarrow> int \<Rightarrow> execution_receipt_state \<Rightarrow> iso \<Rightarrow> goal_execution_row \<Rightarrow> goal_execution_row" where
  "set_receipt i n s now x =
     (if er_goal_id x = i \<and> er_lease_generation x = n
      then x\<lparr>er_state := s, er_updated_at := now\<rparr> else x)"

lemma set_receipt_keys [simp]:
  "er_id (set_receipt i n s now x) = er_id x"
  "er_goal_id (set_receipt i n s now x) = er_goal_id x"
  "er_lease_generation (set_receipt i n s now x) = er_lease_generation x"
  by (simp_all add: set_receipt_def)

lemma updateExecutionStateE:
  assumes "updateExecutionState i n s now db = Inr db'"
  obtains "db' = db\<lparr>db_executions := map (set_receipt i n s now) (db_executions db)\<rparr>"
proof -
  have "db' = db\<lparr>db_executions := map (set_receipt i n s now) (db_executions db)\<rparr>"
    using assms
    by (auto simp: updateExecutionState_def Let_def row_update_def set_receipt_def
        split: if_splits)
  then show ?thesis by (rule that)
qed

lemma insertCheckpointE:
  assumes "insertCheckpoint c db = Inr db'"
  obtains "db' = db\<lparr>db_checkpoints := db_checkpoints db @ [c]\<rparr>" "0 < cr_revision c"
  using assms by (auto simp: insertCheckpoint_def split: if_splits)

lemma insert_callE:
  assumes "insert_call c db = Inr db'"
  obtains "db' = db\<lparr>db_calls := db_calls db @ [c]\<rparr>"
  using assms by (auto simp: insert_call_def split: if_splits)

lemma complete_calls_frame [simp]:
  "db_goals (complete_calls P now db) = db_goals db"
  "db_checkpoints (complete_calls P now db) = db_checkpoints db"
  "db_executions (complete_calls P now db) = db_executions db"
  "db_continuations (complete_calls P now db) = db_continuations db"
  by (simp_all add: complete_calls_def)

lemma require_unexpired_Inr_iff:
  "require_unexpired t now = Inr u \<longleftrightarrow> (\<exists>e n. t = Some (Instant e) \<and> now = Instant n \<and> n < e)"
proof (cases t)
  case None
  then show ?thesis by (simp add: require_unexpired_def)
next
  case (Some e)
  then show ?thesis by (cases e; cases now) (auto simp: require_unexpired_def parse_iso_def)
qed

lemma assertMutableLease_Inr_iff:
  "assertMutableLease g c s h n now = Inr u \<longleftrightarrow>
     g_status g = Gs_active \<and> g_revision g = n \<and> g_leaseOwnerClientId g = Some c
     \<and> g_leaseOwnerSessionId g = Some s \<and> g_leaseTokenHash g = Some h
     \<and> (\<exists>e m. g_leaseExpiresAt g = Some (Instant e) \<and> now = Instant m \<and> m < e)"
  by (auto simp: assertMutableLease_def require_unexpired_Inr_iff)

section \<open>Operations\<close>

lemma checkpointE:
  assumes "checkpoint q db = Inr (db', g)"
  obtains cur d ts le db1 db2 c where
    "requireById db (cq_goalId q) = Inr cur"
    "assertMutableLease cur (cq_ownerClientId q) (cq_ownerSessionId q) (cq_leaseTokenHash q)
       (cq_expectedRevision q) (cq_now q) = Inr ()"
    "g_leaseDurationSeconds cur = Some d"
    "checkpoint_lease_expiry q d db = Inr le"
    "update_goal (\<lambda>r. gr_id r = cq_goalId q \<and> gr_revision r = cq_expectedRevision q
       \<and> gr_lease_token_hash r = Some (cq_leaseTokenHash q) \<and> gr_status r = Gs_active)
       (write_checkpoint q (g_revision cur + 1) d le ts) db = Inr db1"
    "insertCheckpoint c db1 = Inr db2" "cr_goal_id c = cq_goalId q"
    "cr_revision c = g_revision cur + 1"
    "(if cq_releaseLease q then updateExecutionState (cq_goalId q) (g_leaseGeneration cur)
        Xs_released (cq_now q) db2 else Inr db2) = Inr db'"
    "requireById db' (cq_goalId q) = Inr g"
  using assms unfolding checkpoint_def
  by (elim bind_okE; simp split: option.splits; (elim bind_okE)?; simp) 

lemma validateFinish_Inr_iff:
  "validateFinish q db = Inr cur \<longleftrightarrow> requireById db (fq_goalId q) = Inr cur
     \<and> assertMutableLease cur (fq_ownerClientId q) (fq_ownerSessionId q) (fq_leaseTokenHash q)
       (fq_expectedRevision q) (fq_now q) = Inr ()
     \<and> assertCompletionReady cur (fq_status q) = Inr ()"
  by (auto simp: validateFinish_def bind_ok_Inr_iff)

lemma finishE:
  assumes "finish q db = Inr (db', g)"
  obtains cur db1 db2 c where "validateFinish q db = Inr cur"
    "update_goal (\<lambda>r. gr_id r = fq_goalId q \<and> gr_revision r = fq_expectedRevision q
       \<and> gr_lease_token_hash r = Some (fq_leaseTokenHash q) \<and> gr_status r = Gs_active)
       (close_goal (terminal_goal_status (fq_status q)) (goal_terminal_status_name (fq_status q))
         (g_revision cur + 1) (fq_summary q) (fq_evidence q) (fq_now q)) db = Inr db1"
    "insertCheckpoint c db1 = Inr db2" "cr_goal_id c = fq_goalId q"
    "cr_revision c = g_revision cur + 1"
    "updateExecutionState (fq_goalId q) (g_leaseGeneration cur) Xs_terminal (fq_now q) db2 = Inr db'"
    "requireById db' (fq_goalId q) = Inr g"
  using assms unfolding finish_def
  by (elim bind_okE) (simp add: closing_checkpoint_def)

text \<open>
  Finishing, cancelling and reconciling share one shape: the active row of the goal is closed, a
  last checkpoint is added, the receipt of the current generation becomes terminal; the calls may
  change in between.
\<close>

definition closing_step :: "string \<Rightarrow> goal_db \<Rightarrow> goal_db \<Rightarrow> bool" where
  "closing_step i db db' \<longleftrightarrow> (\<exists>cur P st ph sm ev now db1 db2 calls c g.
     requireById db i = Inr cur \<and> st \<noteq> Gs_active \<and>
     (\<forall>r. P r \<longrightarrow> gr_id r = i \<and> gr_status r = Gs_active \<and> gr_revision r = g_revision cur) \<and>
     update_goal P (close_goal st ph (g_revision cur + 1) sm ev now) db = Inr db1 \<and>
     insertCheckpoint c (db1\<lparr>db_calls := calls\<rparr>) = Inr db2 \<and>
     cr_goal_id c = i \<and> cr_revision c = g_revision cur + 1 \<and>
     updateExecutionState i (g_leaseGeneration cur) Xs_terminal now db2 = Inr db' \<and>
     requireById db' i = Inr g)"

lemma closing_stepI:
  assumes "requireById db i = Inr cur" "st \<noteq> Gs_active"
    "\<forall>r. P r \<longrightarrow> gr_id r = i \<and> gr_status r = Gs_active \<and> gr_revision r = g_revision cur"
    "update_goal P (close_goal st ph (g_revision cur + 1) sm ev now) db = Inr db1"
    "insertCheckpoint c (db1\<lparr>db_calls := calls\<rparr>) = Inr db2"
    "cr_goal_id c = i" "cr_revision c = g_revision cur + 1"
    "updateExecutionState i (g_leaseGeneration cur) Xs_terminal now db2 = Inr db'"
    "requireById db' i = Inr g"
  shows "closing_step i db db'"
  unfolding closing_step_def using assms by blast

lemma terminal_goal_status_not_active [simp]: "terminal_goal_status s \<noteq> Gs_active"
  by (cases s) auto

lemma finish_closing:
  assumes "finish q db = Inr (db', g)"
  shows "closing_step (fq_goalId q) db db'"
  using assms
proof (rule finishE)
  fix cur db1 db2 c
  assume v: "validateFinish q db = Inr cur"
    and u: "update_goal (\<lambda>r. gr_id r = fq_goalId q \<and> gr_revision r = fq_expectedRevision q
       \<and> gr_lease_token_hash r = Some (fq_leaseTokenHash q) \<and> gr_status r = Gs_active)
       (close_goal (terminal_goal_status (fq_status q)) (goal_terminal_status_name (fq_status q))
         (g_revision cur + 1) (fq_summary q) (fq_evidence q) (fq_now q)) db = Inr db1"
    and rest: "insertCheckpoint c db1 = Inr db2" "cr_goal_id c = fq_goalId q"
    "cr_revision c = g_revision cur + 1"
    "updateExecutionState (fq_goalId q) (g_leaseGeneration cur) Xs_terminal (fq_now q) db2 = Inr db'"
    "requireById db' (fq_goalId q) = Inr g"
  have same: "db1\<lparr>db_calls := db_calls db1\<rparr> = db1" by simp
  show ?thesis
    by (rule closing_stepI [OF _ _ _ u, where c = c and calls = "db_calls db1"])
      (use v rest in \<open>auto simp: validateFinish_Inr_iff assertMutableLease_Inr_iff same\<close>)
qed

lemma complete_calls_update: "complete_calls P now db = db\<lparr>db_calls := db_calls (complete_calls P now db)\<rparr>"
  by (simp add: complete_calls_def)

lemma cancellation_resultE:
  assumes "cancellation_result db i ts = Inr (db', res)"
  obtains "db' = db" "requireById db i = Inr (nr_goal res)"
    "nr_trackedTasks res = ts"
  using assms by (auto simp: cancellation_result_def bind_ok_Inr_iff)

lemma cancelE:
  assumes "cancel q db = Inr (db', res)"
  obtains
    (again) cur where "requireById db (nq_goalId q) = Inr cur" "g_status cur = Gs_cancelled"
      "db' = complete_calls (\<lambda>c. fc_goal_id c = nq_goalId q) (nq_now q) db"
  | (closed) cur where "requireById db (nq_goalId q) = Inr cur" "g_status cur = Gs_active"
      "g_ownerClientId cur = nq_ownerClientId q" "g_revision cur = nq_expectedRevision q"
      "closing_step (nq_goalId q) db db'"
      "db_calls db' = db_calls (complete_calls (\<lambda>c. fc_goal_id c = nq_goalId q) (nq_now q) db)"
      "requireById db' (nq_goalId q) = Inr (nr_goal res)"
      "nr_trackedTasks res = trackedTasksAtCancellation cur"
proof -
  obtain cur where cur: "requireById db (nq_goalId q) = Inr cur"
    "assertOwner cur (nq_ownerClientId q) = Inr ()"
    using assms unfolding cancel_def by (elim bind_okE) auto
  have rev: "g_revision cur = nq_expectedRevision q"
    using assms cur by (auto simp: cancel_def split: if_splits)
  show thesis
  proof (cases "g_status cur = Gs_cancelled")
    case True
    then show ?thesis
      using assms cur rev by (intro again [OF cur(1)]) (auto simp: cancel_def Let_def)
  next
    case False
    then have act: "g_status cur = Gs_active"
      using assms cur rev by (auto simp: cancel_def split: if_splits)
    define calls where "calls = (\<lambda>d. db_calls (complete_calls (\<lambda>c. fc_goal_id c = nq_goalId q) (nq_now q) d))"
    have "bind_ok (update_goal (\<lambda>r. gr_id r = nq_goalId q
             \<and> gr_revision r = nq_expectedRevision q \<and> gr_status r = Gs_active)
           (close_goal Gs_cancelled ''cancelled'' (g_revision cur + 1) (nq_summary q)
             (nq_evidence q) (nq_now q)) db) (\<lambda>db1.
         bind_ok (insertCheckpoint (closing_checkpoint (nq_checkpointId q)
             (nq_goalId q) (g_revision cur + 1) ''cancelled'' (nq_summary q)
             (nq_evidence q) (trackedTasksAtCancellation cur) (nq_now q))
           (complete_calls (\<lambda>c. fc_goal_id c = nq_goalId q) (nq_now q) db1)) (\<lambda>db2.
         bind_ok (updateExecutionState (nq_goalId q) (g_leaseGeneration cur)
           Xs_terminal (nq_now q) db2) (\<lambda>db3.
         cancellation_result db3 (nq_goalId q) (trackedTasksAtCancellation cur)))) = Inr (db', res)"
      using assms cur act rev by (simp add: cancel_def Let_def)
    then obtain db1 db2 where u: "update_goal (\<lambda>r. gr_id r = nq_goalId q
             \<and> gr_revision r = nq_expectedRevision q \<and> gr_status r = Gs_active)
           (close_goal Gs_cancelled ''cancelled'' (g_revision cur + 1) (nq_summary q)
             (nq_evidence q) (nq_now q)) db = Inr db1"
      and ins: "insertCheckpoint (closing_checkpoint (nq_checkpointId q)
             (nq_goalId q) (g_revision cur + 1) ''cancelled'' (nq_summary q)
             (nq_evidence q) (trackedTasksAtCancellation cur) (nq_now q))
           (complete_calls (\<lambda>c. fc_goal_id c = nq_goalId q) (nq_now q) db1) = Inr db2"
      and ex: "updateExecutionState (nq_goalId q) (g_leaseGeneration cur)
           Xs_terminal (nq_now q) db2 = Inr db'"
      and fin: "requireById db' (nq_goalId q) = Inr (nr_goal res)"
        "nr_trackedTasks res = trackedTasksAtCancellation cur"
      by (elim bind_okE cancellation_resultE) auto
    have "closing_step (nq_goalId q) db db'"
      by (rule closing_stepI [OF cur(1) _ _ u, where c = "closing_checkpoint (nq_checkpointId q)
             (nq_goalId q) (g_revision cur + 1) ''cancelled'' (nq_summary q)
             (nq_evidence q) (trackedTasksAtCancellation cur) (nq_now q)" and calls = "calls db1"])
        (use rev ins ex fin in \<open>auto simp: calls_def complete_calls_def closing_checkpoint_def\<close>)
    moreover have "db_calls db' = calls db"
      using u ins ex by (auto elim!: update_goalE insertCheckpointE updateExecutionStateE
          simp: calls_def complete_calls_def)
    ultimately show ?thesis
      using closed [OF cur(1) act _ rev] cur(2) fin
      by (simp add: assertOwner_def calls_def)
  qed
qed

lemma cancellable_executionE:
  assumes "cancellable_execution q db = Inr x"
  obtains "x \<in> set (db_executions db)" "er_id x = xq_executionId q" "er_goal_id x = xq_goalId q"
    "er_lease_generation x = xq_expectedExecutionGeneration q"
    "er_state x = Xs_active \<or> er_state x = Xs_released"
  using assms
  by (auto simp: cancellable_execution_def bind_ok_Inr_iff requireExecutionRow_def
      dest: row_get_SomeD split: option.splits if_splits)

lemma cancelExecutionE:
  assumes "cancelExecution q db = Inr (db', res)"
  obtains x cur where "cancellable_execution q db = Inr x"
    "requireById db (xq_goalId q) = Inr cur" "g_status cur = Gs_active"
    "g_ownerClientId cur = xq_ownerClientId q"
    "g_executionId cur = Some (xq_executionId q)"
    "g_leaseGeneration cur = xq_expectedExecutionGeneration q"
    "closing_step (xq_goalId q) db db'"
proof -
  obtain x cur where x: "cancellable_execution q db = Inr x"
    and cur: "requireById db (xq_goalId q) = Inr cur"
    "assertOwner cur (xq_ownerClientId q) = Inr ()"
    using assms unfolding cancelExecution_def by (elim bind_okE) auto
  have act: "g_status cur = Gs_active" "g_executionId cur = Some (xq_executionId q)"
    "g_executionGeneration cur = Some (xq_expectedExecutionGeneration q)"
    "g_leaseGeneration cur = xq_expectedExecutionGeneration q"
    using assms x cur by (auto simp: cancelExecution_def split: if_splits)
  define C :: "fenced_call_row \<Rightarrow> bool" where "C = (\<lambda>c. fc_goal_id c = xq_goalId q
    \<and> fc_lease_generation c = xq_expectedExecutionGeneration q)"
  define k where "k = closing_checkpoint (xq_checkpointId q)
             (xq_goalId q) (g_revision cur + 1) ''cancelled'' (xq_summary q)
             (xq_evidence q) (trackedTasksAtCancellation cur) (xq_now q)"
  have "bind_ok (update_goal (\<lambda>r. gr_id r = xq_goalId q \<and> gr_revision r = g_revision cur
             \<and> gr_lease_generation r = xq_expectedExecutionGeneration q \<and> gr_status r = Gs_active)
           (close_goal Gs_cancelled ''cancelled'' (g_revision cur + 1) (xq_summary q)
             (xq_evidence q) (xq_now q)) db) (\<lambda>db1.
         bind_ok (insertCheckpoint k (complete_calls C (xq_now q) db1)) (\<lambda>db2.
         bind_ok (updateExecutionState (xq_goalId q) (g_leaseGeneration cur)
           Xs_terminal (xq_now q) db2) (\<lambda>db3.
         cancellation_result db3 (xq_goalId q) (trackedTasksAtCancellation cur)))) = Inr (db', res)"
    using assms x cur act by (simp add: cancelExecution_def Let_def C_def k_def)
  then obtain db1 db2 where u: "update_goal (\<lambda>r. gr_id r = xq_goalId q \<and> gr_revision r = g_revision cur
             \<and> gr_lease_generation r = xq_expectedExecutionGeneration q \<and> gr_status r = Gs_active)
           (close_goal Gs_cancelled ''cancelled'' (g_revision cur + 1) (xq_summary q)
             (xq_evidence q) (xq_now q)) db = Inr db1"
    and ins: "insertCheckpoint k (complete_calls C (xq_now q) db1) = Inr db2"
    and ex: "updateExecutionState (xq_goalId q) (g_leaseGeneration cur)
           Xs_terminal (xq_now q) db2 = Inr db'"
    and fin: "requireById db' (xq_goalId q) = Inr (nr_goal res)"
    by (elim bind_okE cancellation_resultE) auto
  have "closing_step (xq_goalId q) db db'"
    by (rule closing_stepI [OF cur(1) _ _ u, where c = k and
          calls = "db_calls (complete_calls C (xq_now q) db1)"])
      (use ins ex fin in \<open>auto simp: complete_calls_update [symmetric] k_def closing_checkpoint_def\<close>)
  then show ?thesis using that [OF x cur(1)] act cur(2) by (simp add: assertOwner_def)
qed

lemma lease_still_valid_False_iff:
  "lease_still_valid t now = Inr False \<longleftrightarrow>
     t = None \<or> (\<exists>e n. t = Some (Instant e) \<and> now = Instant n \<and> e \<le> n)"
proof (cases t)
  case None
  then show ?thesis by (simp add: lease_still_valid_def)
next
  case (Some e)
  then show ?thesis by (cases e; cases now) (auto simp: lease_still_valid_def parse_iso_def)
qed

lemma reconcileE:
  assumes "reconcile q db = Inr (db', g)"
  obtains
    (terminal) cur where "requireById db (rq_goalId q) = Inr cur" "g_status cur \<noteq> Gs_active" "db' = db"
  | (closed) cur where "requireById db (rq_goalId q) = Inr cur" "g_status cur = Gs_active"
      "g_ownerClientId cur = rq_ownerClientId q"
      "g_revision cur = rq_expectedRevision q"
      "g_leaseGeneration cur = rq_expectedLeaseGeneration q"
      "g_leaseActivitySeq cur = rq_expectedLeaseActivitySeq q"
      "lease_still_valid (g_leaseExpiresAt cur) (rq_now q) = Inr False"
      "selectLiveScheduledContinuation db (rq_goalId q) = None"
      "closing_step (rq_goalId q) db db'"
proof -
  obtain cur where cur: "requireById db (rq_goalId q) = Inr cur"
    "assertOwner cur (rq_ownerClientId q) = Inr ()"
    using assms unfolding reconcile_def by (elim bind_okE) auto
  show thesis
  proof (cases "g_status cur = Gs_active")
    case False
    then show ?thesis using terminal [OF cur(1)] assms cur by (simp add: reconcile_def)
  next
    case act: True
    have same: "g_revision cur = rq_expectedRevision q"
      "g_leaseGeneration cur = rq_expectedLeaseGeneration q"
      "g_leaseActivitySeq cur = rq_expectedLeaseActivitySeq q"
      using assms cur act by (auto simp: reconcile_def split: if_splits)
    obtain v where v: "lease_still_valid (g_leaseExpiresAt cur) (rq_now q) = Inr v"
      using assms cur act same unfolding reconcile_def by (auto elim: bind_okE)
    then have dead: "\<not> v" "selectLiveScheduledContinuation db (rq_goalId q) = None"
      using assms cur act same by (auto simp: reconcile_def split: if_splits)
    define ev where "ev = rq_evidence q @ [reconciliation_note (rq_reason q)]"
    define C :: "fenced_call_row \<Rightarrow> bool" where "C = (\<lambda>c. fc_goal_id c = rq_goalId q)"
    define k where "k = closing_checkpoint (rq_checkpointId q) (rq_goalId q) (g_revision cur + 1)
      ''reconciled'' (rq_summary q) ev [] (rq_now q)"
    have "bind_ok (update_goal (\<lambda>r. gr_id r = rq_goalId q \<and> gr_revision r = g_revision cur
          \<and> gr_lease_generation r = g_leaseGeneration cur
          \<and> gr_lease_activity_seq r = g_leaseActivitySeq cur \<and> gr_status r = Gs_active)
        (close_goal Gs_cancelled ''reconciled'' (g_revision cur + 1) (rq_summary q) ev (rq_now q)) db)
        (\<lambda>db1. bind_ok (insertCheckpoint k (complete_calls C (rq_now q) db1)) (\<lambda>db2.
         bind_ok (updateExecutionState (rq_goalId q) (g_leaseGeneration cur)
           Xs_terminal (rq_now q) db2) (\<lambda>db3.
         bind_ok (requireById db3 (rq_goalId q)) (\<lambda>goal. Inr (db3, goal))))) = Inr (db', g)"
      using assms cur act same v dead by (simp add: reconcile_def Let_def C_def k_def ev_def)
    then obtain db1 db2 where u: "update_goal (\<lambda>r. gr_id r = rq_goalId q \<and> gr_revision r = g_revision cur
          \<and> gr_lease_generation r = g_leaseGeneration cur
          \<and> gr_lease_activity_seq r = g_leaseActivitySeq cur \<and> gr_status r = Gs_active)
        (close_goal Gs_cancelled ''reconciled'' (g_revision cur + 1) (rq_summary q) ev (rq_now q)) db
          = Inr db1"
      and ins: "insertCheckpoint k (complete_calls C (rq_now q) db1) = Inr db2"
      and ex: "updateExecutionState (rq_goalId q) (g_leaseGeneration cur)
           Xs_terminal (rq_now q) db2 = Inr db'"
      and fin: "requireById db' (rq_goalId q) = Inr g"
      by (elim bind_okE) auto
    have "closing_step (rq_goalId q) db db'"
      by (rule closing_stepI [OF cur(1) _ _ u, where c = k and
            calls = "db_calls (complete_calls C (rq_now q) db1)"])
        (use ins ex fin in \<open>auto simp: complete_calls_update [symmetric] k_def closing_checkpoint_def\<close>)
    then show ?thesis
      using closed [OF cur(1) act] cur(2) same v dead by (simp add: assertOwner_def)
  qed
qed

lemma policyE:
  assumes "setIdleGoalPonytailModeForHost ta q k db = Inr (db', g)"
  obtains (unchanged) "db' = db"
  | (changed) cur db1 c where "requireById db (sq_goalId q) = Inr cur" "g_status cur = Gs_active"
      "update_goal (\<lambda>r. gr_id r = g_id cur \<and> gr_status r = Gs_active
         \<and> gr_revision r = g_revision cur)
         (\<lambda>r. r\<lparr>gr_ponytail_mode := sq_ponytailMode q, gr_revision := g_revision cur + 1,
            gr_updated_at := sq_now q\<rparr>) db = Inr db1"
      "insertCheckpoint c db1 = Inr db'" "cr_goal_id c = g_id cur"
      "cr_revision c = g_revision cur + 1" "requireById db' (g_id cur) = Inr g"
proof -
  obtain cur where cur: "requireById db (sq_goalId q) = Inr cur"
    using assms unfolding setIdleGoalPonytailModeForHost_def by (elim bind_okE)
  have act: "g_status cur = Gs_active"
    using assms cur by (auto simp: setIdleGoalPonytailModeForHost_def split: if_splits)
  show thesis
  proof (cases "g_ponytailMode cur = sq_ponytailMode q")
    case True
    then have "db' = db" using assms cur
      by (auto simp: setIdleGoalPonytailModeForHost_def bind_ok_Inr_iff split: if_splits)
    then show ?thesis by (rule unchanged)
  next
    case False
    obtain a b where idle: "parse_iso (sq_now q) = Inr a"
      "lease_still_valid (g_leaseExpiresAt cur) (sq_now q) = Inr b"
      using assms cur act unfolding setIdleGoalPonytailModeForHost_def
      by (auto elim!: bind_okE split: if_splits)
    obtain c :: checkpoint_row where c: "cr_goal_id c = g_id cur"
      "cr_revision c = g_revision cur + 1" and step:
      "bind_ok (update_goal (\<lambda>r. gr_id r = g_id cur \<and> gr_status r = Gs_active
         \<and> gr_revision r = g_revision cur)
         (\<lambda>r. r\<lparr>gr_ponytail_mode := sq_ponytailMode q, gr_revision := g_revision cur + 1,
            gr_updated_at := sq_now q\<rparr>) db) (\<lambda>db1. bind_ok (insertCheckpoint c db1) (\<lambda>db2.
           bind_ok (requireById db2 (g_id cur)) (\<lambda>goal. Inr (db2, goal)))) = Inr (db', g)"
    proof (rule that)
      let ?c = "\<lparr>cr_id = k, cr_goal_id = g_id cur,
               cr_revision = g_revision cur + 1, cr_current_phase = g_currentPhase cur,
               cr_summary = ''Desktop changed Ponytail goal policy to ''
                 @ ponytail_text (sq_ponytailMode q),
               cr_step_updates = [], cr_next_action = g_nextAction cur,
               cr_blockers = g_blockers cur,
               cr_evidence = [\<lparr>gv_kind = Ek_note, gv_value = ''unified-mpc:desktop-ponytail-policy:''
                 @ ponytail_text (sq_ponytailMode q)\<rparr>],
               cr_active_task_ids = g_activeTaskIds cur,
               cr_tracked_tasks = Some (case g_trackedTasks cur of None \<Rightarrow> [] | Some ts \<Rightarrow> ts),
               cr_created_at = sq_now q\<rparr>"
      show "cr_goal_id ?c = g_id cur" "cr_revision ?c = g_revision cur + 1" by simp_all
      show "bind_ok (update_goal (\<lambda>r. gr_id r = g_id cur \<and> gr_status r = Gs_active
         \<and> gr_revision r = g_revision cur)
         (\<lambda>r. r\<lparr>gr_ponytail_mode := sq_ponytailMode q, gr_revision := g_revision cur + 1,
            gr_updated_at := sq_now q\<rparr>) db) (\<lambda>db1. bind_ok (insertCheckpoint ?c db1) (\<lambda>db2.
           bind_ok (requireById db2 (g_id cur)) (\<lambda>goal. Inr (db2, goal)))) = Inr (db', g)"
        using assms cur act False idle unfolding setIdleGoalPonytailModeForHost_def
        by (simp only: bind_ok_simps Let_def) (simp split: if_splits)
    qed
    from step show ?thesis
      by (elim bind_okE) (rule changed [OF cur act _ _ c], auto)
  qed
qed

end
