(* ===== verification/Goal_Repository_Leases.thy ===== *)
theory Goal_Repository_Leases
  imports Goal_Repository_Frames
begin

text \<open>
  The operations that give, keep and renew a lease: acquisition and the fenced mutation calls, each
  with what it needs and what it does to the row of the goal.
\<close>

lemma requireById_id: "requireById db i = Inr g \<Longrightarrow> g_id g = i"
  by (elim requireById_InrE) (auto simp: toGoalRecord_def dest: decode_goal_fields(1))

section \<open>Renewal\<close>

lemma renewed_lease_expiryE:
  assumes "renewed_lease_expiry db i d now = Inr e"
  obtains fence where "selectMutationFenceContinuation db i = Some fence" "validate_iso e"
    "validate_iso now"
    "\<forall>due. mutationFenceDueAt fence = Some due \<longrightarrow>
       (\<exists>m n x. due = Instant m \<and> now = Instant n \<and> e = Instant x \<and> n < m \<and> x \<le> m)"
proof -
  obtain fence where f: "selectMutationFenceContinuation db i = Some fence"
    using assms by (auto simp: renewed_lease_expiry_def split: option.splits)
  show thesis
  proof (cases "mutationFenceDueAt fence")
    case None
    then have "\<exists>k. addSeconds now k = Inr e"
      using assms f by (auto simp: renewed_lease_expiry_def bind_ok_Inr_iff split: option.splits)
    then show ?thesis using that [OF f] None
      by (auto simp: addSeconds_Inr_iff)
  next
    case (Some due)
    then obtain k n where "require_unexpired (Some due) now = Inr ()" "addSeconds now k = Inr n"
      "minIso n due = Inr e"
      using assms f by (auto simp: renewed_lease_expiry_def bind_ok_Inr_iff split: option.splits)
    then show ?thesis using that [OF f] Some
      by (auto simp: addSeconds_Inr_iff require_unexpired_Inr_iff minIso_Inr_iff)
  qed
qed

text \<open>Both calls renew the lease of the goal they work on.\<close>

definition renewing_step :: "string \<Rightarrow> goal_db \<Rightarrow> goal_db \<Rightarrow> bool" where
  "renewing_step i db db' \<longleftrightarrow> (\<exists>cur P now e calls calls' db1.
     requireById db i = Inr cur \<and> g_leaseExpiresAt cur \<noteq> None \<and>
     validate_iso now \<and> validate_iso e \<and>
     (\<forall>r. P r \<longrightarrow> gr_id r = i \<and> gr_status r = Gs_active) \<and>
     update_goal P (renew_lease now e) (db\<lparr>db_calls := calls\<rparr>) = Inr db1 \<and>
     db' = db1\<lparr>db_calls := calls'\<rparr>)"

lemma beginE:
  assumes "beginGoalFencedMutation q db = Inr (db', res)"
  obtains cur fence e where "requireById db (bq_goalId q) = Inr cur"
    "g_workspaceId cur = bq_workspaceId q" "g_status cur = Gs_active"
    "g_leaseOwnerClientId cur = Some (bq_ownerClientId q)"
    "g_leaseOwnerSessionId cur = Some (bq_ownerSessionId q)"
    "g_leaseTokenHash cur = Some (bq_leaseTokenHash q)"
    "g_leaseGeneration cur = bq_leaseGeneration q"
    "require_unexpired (g_leaseExpiresAt cur) (bq_startedAt q) = Inr ()"
    "case bq_admissionGeneration q of None \<Rightarrow> True
       | Some n \<Rightarrow> check_admission q cur n db = Inr ()"
    "renewed_lease_expiry db (bq_goalId q) (g_leaseDurationSeconds cur) (bq_startedAt q) = Inr e"
    "renewing_step (bq_goalId q) db db'"
    "\<exists>r \<in> set (db_goals db). gr_id r = bq_goalId q
       \<and> renew_lease (bq_startedAt q) e r \<in> set (db_goals db')"
proof -
  obtain cur where cur: "requireById db (bq_goalId q) = Inr cur"
    using assms unfolding beginGoalFencedMutation_def by (elim bind_okE)
  note i = requireById_id [OF cur]
  have guards: "g_workspaceId cur = bq_workspaceId q" "g_status cur = Gs_active"
    "g_leaseOwnerClientId cur = Some (bq_ownerClientId q)"
    "g_leaseOwnerSessionId cur = Some (bq_ownerSessionId q)"
    "g_leaseTokenHash cur = Some (bq_leaseTokenHash q)"
    "g_leaseGeneration cur = bq_leaseGeneration q"
    using assms cur by (auto simp: beginGoalFencedMutation_def split: if_splits)
  define P where "P = (\<lambda>r :: goal_row. gr_id r = bq_goalId q \<and> gr_status r = Gs_active
           \<and> gr_lease_token_hash r = Some (bq_leaseTokenHash q)
           \<and> gr_lease_generation r = bq_leaseGeneration q
           \<and> gr_lease_activity_seq r = g_leaseActivitySeq cur)"
  obtain e db1 c where live: "require_unexpired (g_leaseExpiresAt cur) (bq_startedAt q) = Inr ()"
    and adm: "(case bq_admissionGeneration q of
           None \<Rightarrow> Inr () | Some expected \<Rightarrow> check_admission q cur expected db) = Inr ()"
    and e: "renewed_lease_expiry db (bq_goalId q) (g_leaseDurationSeconds cur) (bq_startedAt q) = Inr e"
    and u: "update_goal P (renew_lease (bq_startedAt q) e) db = Inr db1"
    and ins: "insert_call c db1 = Inr db'"
  proof -
    define c where "c = \<lparr>fc_call_id = bq_callId q, fc_goal_id = bq_goalId q,
           fc_lease_generation = bq_leaseGeneration q,
           fc_started_at = bq_startedAt q, fc_heartbeat_at = bq_startedAt q,
           fc_expires_at = bq_expiresAt q, fc_completed_at = None\<rparr>"
    have "bind_ok (require_unexpired (g_leaseExpiresAt cur) (bq_startedAt q)) (\<lambda>_.
       bind_ok (case bq_admissionGeneration q of
           None \<Rightarrow> Inr ()
         | Some expected \<Rightarrow> check_admission q cur expected db) (\<lambda>_.
       bind_ok (renewed_lease_expiry db (bq_goalId q) (g_leaseDurationSeconds cur)
         (bq_startedAt q)) (\<lambda>expiresAt.
       bind_ok (update_goal P (renew_lease (bq_startedAt q) expiresAt) db) (\<lambda>db1.
       bind_ok (insert_call c db1) (\<lambda>db2.
       Inr (db2, (bq_goalId q, bq_leaseGeneration q))))))) = Inr (db', res)"
      using assms by (simp add: beginGoalFencedMutation_def cur guards i P_def c_def)
    then show thesis by (elim bind_okE) (rule that, auto)
  qed
  have "renewing_step (bq_goalId q) db db'"
    unfolding renewing_step_def
  proof (intro exI conjI)
    show "requireById db (bq_goalId q) = Inr cur" by (rule cur)
    show "g_leaseExpiresAt cur \<noteq> None" using live by (auto simp: require_unexpired_Inr_iff)
    show "validate_iso (bq_startedAt q)" "validate_iso e"
      using renewed_lease_expiryE [OF e] by auto
    show "\<forall>r. P r \<longrightarrow> gr_id r = bq_goalId q \<and> gr_status r = Gs_active" by (simp add: P_def)
    show "update_goal P (renew_lease (bq_startedAt q) e) (db\<lparr>db_calls := db_calls db\<rparr>) = Inr db1"
      using u by simp
    show "db' = db1\<lparr>db_calls := db_calls db1 @ [c]\<rparr>" using ins by (auto elim: insert_callE)
  qed
  moreover have "\<exists>r \<in> set (db_goals db). gr_id r = bq_goalId q
       \<and> renew_lease (bq_startedAt q) e r \<in> set (db_goals db')"
  proof -
    obtain r where "r \<in> set (db_goals db)" "P r"
      "renew_lease (bq_startedAt q) e r \<in> set (db_goals db1)"
      by (rule update_goal_row [OF u])
    moreover have "db_goals db' = db_goals db1" using ins by (auto elim: insert_callE)
    ultimately show ?thesis by (auto simp: P_def)
  qed
  moreover have "case bq_admissionGeneration q of None \<Rightarrow> True
       | Some n \<Rightarrow> check_admission q cur n db = Inr ()"
    using adm by (cases "bq_admissionGeneration q") simp_all
  ultimately show ?thesis by (intro that [OF cur guards live _ e])
qed

lemma heartbeatE:
  assumes "heartbeatGoalFencedMutation q db = Inr (db', res)"
  obtains cur call e where "call \<in> set (db_calls db)" "open_call q call"
    "requireById db (fc_goal_id call) = Inr cur" "g_status cur = Gs_active"
    "g_leaseGeneration cur = hq_leaseGeneration q"
    "require_unexpired (g_leaseExpiresAt cur) (hq_heartbeatAt q) = Inr ()"
    "renewed_lease_expiry db (fc_goal_id call) (g_leaseDurationSeconds cur) (hq_heartbeatAt q) = Inr e"
    "renewing_step (fc_goal_id call) db db'"
    "\<exists>r \<in> set (db_goals db). gr_id r = fc_goal_id call
       \<and> renew_lease (hq_heartbeatAt q) e r \<in> set (db_goals db')"
proof -
  obtain call where call: "row_get (open_call q) (db_calls db) = Some call"
    using assms by (auto simp: heartbeatGoalFencedMutation_def split: option.splits)
  obtain cur where cur: "requireById db (fc_goal_id call) = Inr cur"
    using assms call unfolding heartbeatGoalFencedMutation_def by (auto elim: bind_okE)
  note i = requireById_id [OF cur]
  have guards: "g_status cur = Gs_active" "g_leaseGeneration cur = hq_leaseGeneration q"
    using assms cur call by (auto simp: heartbeatGoalFencedMutation_def split: if_splits)
  define P where "P = (\<lambda>r :: goal_row. gr_id r = fc_goal_id call \<and> gr_status r = Gs_active
           \<and> gr_lease_generation r = hq_leaseGeneration q
           \<and> gr_lease_activity_seq r = g_leaseActivitySeq cur)"
  obtain e calls where live: "require_unexpired (g_leaseExpiresAt cur) (hq_heartbeatAt q) = Inr ()"
    and e: "renewed_lease_expiry db (fc_goal_id call) (g_leaseDurationSeconds cur) (hq_heartbeatAt q)
      = Inr e"
    and u: "update_goal P (renew_lease (hq_heartbeatAt q) e) (db\<lparr>db_calls := calls\<rparr>) = Inr db'"
    using assms cur call guards i unfolding heartbeatGoalFencedMutation_def P_def
    by (auto elim!: bind_okE split: if_splits)
  have "renewing_step (fc_goal_id call) db db'"
    unfolding renewing_step_def
  proof (intro exI conjI)
    show "requireById db (fc_goal_id call) = Inr cur" by (rule cur)
    show "g_leaseExpiresAt cur \<noteq> None" using live by (auto simp: require_unexpired_Inr_iff)
    show "validate_iso (hq_heartbeatAt q)" "validate_iso e"
      using renewed_lease_expiryE [OF e] by auto
    show "\<forall>r. P r \<longrightarrow> gr_id r = fc_goal_id call \<and> gr_status r = Gs_active" by (simp add: P_def)
    show "update_goal P (renew_lease (hq_heartbeatAt q) e) (db\<lparr>db_calls := calls\<rparr>) = Inr db'"
      by (rule u)
    show "db' = db'\<lparr>db_calls := db_calls db'\<rparr>" by simp
  qed
  moreover have "\<exists>r \<in> set (db_goals db). gr_id r = fc_goal_id call
       \<and> renew_lease (hq_heartbeatAt q) e r \<in> set (db_goals db')"
    by (rule update_goal_row [OF u]) (auto simp: P_def)
  ultimately show ?thesis
    using row_get_SomeD [OF call] by (intro that [OF _ _ cur guards live e]) simp_all
qed

section \<open>Acquisition\<close>

lemma acquire_newE:
  assumes "acquire_new q x db = Inr (db', res)"
  obtains row ex db1 where "insert_goal row db = Inr db1" "insertExecution ex db1 = Inr db'"
    "requireById db' (aq_goalId q) = Inr (ar_goal res)" "gr_id row = aq_goalId q"
    "gr_lease_generation row = 1" "gr_status row = Gs_active"
    "gr_lease_token_hash row = Some (aq_leaseTokenHash q)" "er_goal_id ex = aq_goalId q"
    "er_lease_generation ex = 1" "ar_acquired res"
  using assms unfolding acquire_new_def
  by (auto elim!: bind_okE split: option.splits)

text \<open>Why an existing lease may be taken: none is held, it has expired, or its worker is gone.\<close>

definition may_take :: "acquire_goal_request \<Rightarrow> goal_record \<Rightarrow> goal_db \<Rightarrow> bool" where
  "may_take q existing db \<longleftrightarrow> g_leaseExpiresAt existing = None
     \<or> (\<exists>e n. g_leaseExpiresAt existing = Some (Instant e) \<and> aq_now q = Instant n \<and> e \<le> n)
     \<or> (\<exists>why. assessGoalWorkerLiveness \<lparr>wl_goal = existing, wl_evidence = aq_recoveryEvidence q,
          wl_now = aq_now q, wl_hasLiveScheduledContinuation =
            (selectLiveScheduledContinuation db (g_id existing) \<noteq> None),
          wl_staleHeartbeatGraceSeconds = None\<rparr> = Inr (Inactive why))"

lemma recovery_inactive:
  "assessStaleGoalLeaseRecovery g ev now b = Inr (True, retry) \<Longrightarrow>
     \<exists>why. assessGoalWorkerLiveness \<lparr>wl_goal = g, wl_evidence = ev, wl_now = now,
       wl_hasLiveScheduledContinuation = b, wl_staleHeartbeatGraceSeconds = None\<rparr>
       = Inr (Inactive why)"
proof -
  let ?a = "assessGoalWorkerLiveness \<lparr>wl_goal = g, wl_evidence = ev, wl_now = now,
       wl_hasLiveScheduledContinuation = b, wl_staleHeartbeatGraceSeconds = None\<rparr>"
  assume "assessStaleGoalLeaseRecovery g ev now b = Inr (True, retry)"
  then obtain a where a: "?a = Inr a" "(case a of Inactive _ \<Rightarrow> (True, None)
       | Live Heartbeat_grace (Some retry) \<Rightarrow> (False, Some retry)
       | _ \<Rightarrow> (False, None)) = (True, retry)"
    unfolding assessStaleGoalLeaseRecovery_def by (elim bind_okE) auto
  show ?thesis
  proof (cases a)
    case (Live r n)
    then show ?thesis using a(2) by (cases r; cases n) auto
  qed (use a in auto)
qed

lemma acquire_existingE:
  assumes "acquire_existing q x g db = Inr (db', res)"
  obtains (refused) "db' = db" "\<not> ar_acquired res" "ar_goal res = g"
  | (taken) b where "g_status g = Gs_active" "may_take q g db"
      "acquire_lease q x g b db = Inr (db', res)"
proof (cases "g_status g = Gs_active")
  case False
  then show ?thesis using assms refused
    by (auto simp: acquire_existing_def acquire_refused_def split: if_splits)
next
  case act: True
  obtain n where n: "aq_now q = Instant n"
    using assms act by (auto simp: acquire_existing_def bind_ok_Inr_iff parse_iso_Inr_iff
        split: if_splits)
  show ?thesis
  proof (cases "g_leaseExpiresAt g")
    case None
    then show ?thesis using assms act n
      by (intro taken [of False])
        (auto simp: acquire_existing_def may_take_def split: if_splits)
  next
    case (Some t)
    then obtain e where e: "t = Instant e"
      using assms act n by (auto simp: acquire_existing_def bind_ok_Inr_iff parse_iso_Inr_iff
          split: if_splits)
    show ?thesis
    proof (cases "n < e")
      case False
      then show ?thesis using assms act n Some e
        by (intro taken [of False])
          (auto simp: acquire_existing_def may_take_def Let_def split: if_splits)
    next
      case True
      let ?assess = "assessStaleGoalLeaseRecovery g (aq_recoveryEvidence q) (aq_now q)
                   (selectLiveScheduledContinuation db (g_id g) \<noteq> None)"
      obtain recover retry where r: "?assess = Inr (recover, retry)"
        using assms act n Some e True
        by (auto simp: acquire_existing_def bind_ok_Inr_iff Let_def split: if_splits)
      show ?thesis
      proof (cases recover)
        case False
        then show ?thesis using assms act n Some e \<open>n < e\<close> r refused
          by (auto simp: acquire_existing_def acquire_refused_def Let_def split: if_splits)
      next
        case rec: True
        then have "may_take q g db" using r recovery_inactive [of g "aq_recoveryEvidence q"
            "aq_now q" "selectLiveScheduledContinuation db (g_id g) \<noteq> None" retry]
          by (simp add: may_take_def)
        then show ?thesis using assms act n Some e \<open>n < e\<close> r rec
          by (intro taken [of True]) (auto simp: acquire_existing_def Let_def split: if_splits)
      qed
    qed
  qed
qed

lemma acquire_leaseE:
  assumes "acquire_lease q x g b db = Inr (db', res)"
  obtains e db1 db2 ex where "validate_iso e"
    "update_goal (\<lambda>r. gr_id r = g_id g \<and> gr_status r = Gs_active
         \<and> gr_revision r = g_revision g \<and> gr_lease_generation r = g_leaseGeneration g
         \<and> gr_lease_activity_seq r = g_leaseActivitySeq g) (take_lease q e) db = Inr db1"
    "db2 = (if g_leaseGeneration g > 0 then db1\<lparr>db_executions :=
       map (set_receipt (g_id g) (g_leaseGeneration g) Xs_superseded (aq_now q)) (db_executions db1)\<rparr>
       else db1)"
    "insertExecution ex db2 = Inr db'" "er_goal_id ex = g_id g" "er_state ex = Xs_active"
    "er_lease_generation ex = g_leaseGeneration g + 1" "er_id ex = x"
    "requireById db' (g_id g) = Inr (ar_goal res)" "ar_acquired res"
proof -
  obtain e db1 db2 where e: "addSeconds (aq_now q) (aq_leaseSeconds q) = Inr e"
    and u: "update_goal (\<lambda>r. gr_id r = g_id g \<and> gr_status r = Gs_active
         \<and> gr_revision r = g_revision g \<and> gr_lease_generation r = g_leaseGeneration g
         \<and> gr_lease_activity_seq r = g_leaseActivitySeq g) (take_lease q e) db = Inr db1"
    and rot: "rotateExecutionReceiptForLeaseAcquisition g x (aq_ownerClientId q)
      (aq_ownerSessionId q) (aq_now q) db1 = Inr db'"
    and fin: "requireById db' (g_id g) = Inr (ar_goal res)" "ar_acquired res"
    using assms unfolding acquire_lease_def by (auto elim!: bind_okE)
  from rot obtain db2 where db2: "(if g_leaseGeneration g > 0
       then updateExecutionState (g_id g) (g_leaseGeneration g) Xs_superseded (aq_now q) db1
       else Inr db1) = Inr db2"
    and ins: "insertExecution \<lparr>er_id = x, er_goal_id = g_id g,
       er_workspace_id = g_workspaceId g, er_lease_generation = g_leaseGeneration g + 1,
       er_owner_client_id = aq_ownerClientId q, er_owner_session_id = aq_ownerSessionId q,
       er_state = Xs_active, er_created_at = aq_now q, er_updated_at = aq_now q\<rparr> db2 = Inr db'"
    unfolding rotateExecutionReceiptForLeaseAcquisition_def by (elim bind_okE)
  show ?thesis
    by (rule that [OF _ u _ ins _ _ _ _ fin])
      (use e db2 in \<open>auto simp: addSeconds_Inr_iff elim!: updateExecutionStateE split: if_splits\<close>)
qed

lemma acquireE:
  assumes "acquire q x db = Inr (db', res)"
  obtains (new) "selectByKey db (aq_workspaceId q) (aq_goalKey q) = None"
      "acquire_new q x db = Inr (db', res)"
  | (refused) "db' = db" "\<not> ar_acquired res"
  | (taken) row g b where "row \<in> set (db_goals db)" "gr_workspace_id row = aq_workspaceId q"
      "gr_goal_key row = aq_goalKey q" "toGoalRecord db row = Inr g" "g_status g = Gs_active"
      "may_take q g db" "acquire_lease q x g b db = Inr (db', res)"
proof (cases "selectByKey db (aq_workspaceId q) (aq_goalKey q)")
  case None
  then show ?thesis using assms new by (simp add: acquire_def)
next
  case (Some row)
  then have row: "row \<in> set (db_goals db)" "gr_workspace_id row = aq_workspaceId q"
    "gr_goal_key row = aq_goalKey q"
    by (auto simp: selectByKey_def dest: row_get_SomeD)
  obtain g where g: "toGoalRecord db row = Inr g" "acquire_existing q x g db = Inr (db', res)"
    using assms Some by (auto simp: acquire_def elim: bind_okE)
  from g(2) show ?thesis
    by (cases rule: acquire_existingE) (use refused taken [OF row g(1)] in auto)
qed

end
