(* ===== verification/Goal_Lease_Protocol.thy ===== *)
theory Goal_Lease_Protocol
  imports Goal_Repository_Leases
begin

text \<open>
  The protocol the goal repository promises: an abstract transition relation with six moves (stay,
  create, take over, record, close, renew) on the goals, their checkpoints and their execution
  receipts, and the well-formedness of the tables. The operations refine it: every step of the
  repository on a well-formed database is one of the moves.
\<close>

section \<open>Well-formed tables\<close>

text \<open>
  A receipt belongs to a goal, to a generation the goal has reached, and is active only in the
  current generation of an active goal that holds a lease.
\<close>

definition receipt_of :: "goal_row \<Rightarrow> goal_execution_row \<Rightarrow> bool" where
  "receipt_of r x \<longleftrightarrow> gr_id r = er_goal_id x
     \<and> er_lease_generation x \<le> gr_lease_generation r
     \<and> (er_state x = Xs_active \<longrightarrow> er_lease_generation x = gr_lease_generation r
        \<and> gr_status r = Gs_active \<and> gr_lease_token_hash r \<noteq> None)"

definition receipts_ok :: "goal_row list \<Rightarrow> goal_execution_row list \<Rightarrow> bool" where
  "receipts_ok gs xs \<longleftrightarrow>
     distinct (map er_id xs) \<and> distinct (map (\<lambda>x. (er_goal_id x, er_lease_generation x)) xs)
     \<and> (\<forall>x \<in> set xs. 0 < er_lease_generation x \<and> (\<exists>r \<in> set gs. receipt_of r x))"

definition goal_key :: "goal_row \<Rightarrow> string \<times> string" where
  "goal_key r = (gr_workspace_id r, gr_goal_key r)"

definition wf_goals :: "goal_db \<Rightarrow> bool" where
  "wf_goals db \<longleftrightarrow> distinct (map gr_id (db_goals db)) \<and> distinct (map goal_key (db_goals db))
     \<and> (\<forall>r \<in> set (db_goals db). decodes db r)
     \<and> receipts_ok (db_goals db) (db_executions db)"

section \<open>The moves\<close>

definition same_identity :: "goal_row \<Rightarrow> goal_row \<Rightarrow> bool" where
  "same_identity r r' \<longleftrightarrow> gr_id r' = gr_id r \<and> gr_workspace_id r' = gr_workspace_id r
     \<and> gr_goal_key r' = gr_goal_key r \<and> gr_owner_client_id r' = gr_owner_client_id r
     \<and> gr_objective r' = gr_objective r \<and> gr_created_at r' = gr_created_at r"

definition replace_goal :: "goal_row \<Rightarrow> goal_row list \<Rightarrow> goal_row list" where
  "replace_goal r' gs = map (\<lambda>x. if gr_id x = gr_id r' then r' else x) gs"

inductive goal_trans :: "goal_db \<Rightarrow> goal_db \<Rightarrow> bool" where
  stays: "goal_trans db db'"
    if "db_goals db' = db_goals db" "db_checkpoints db' = db_checkpoints db"
      "db_executions db' = db_executions db"
| creates: "goal_trans db db'"
    if "db_goals db' = db_goals db @ [r]" "db_checkpoints db' = db_checkpoints db"
      "db_executions db' = db_executions db @ [x]"
      "\<forall>y \<in> set (db_goals db). gr_id y \<noteq> gr_id r \<and> goal_key y \<noteq> goal_key r"
      "gr_status r = Gs_active" "gr_lease_generation r = 1" "gr_lease_token_hash r \<noteq> None"
      "er_goal_id x = gr_id r" "er_lease_generation x = 1"
      "\<forall>y \<in> set (db_executions db). er_id y \<noteq> er_id x
         \<and> (er_goal_id y, er_lease_generation y) \<noteq> (er_goal_id x, er_lease_generation x)"
      "decodes db' r"
| takes: "goal_trans db db'"
    if "r \<in> set (db_goals db)" "gr_status r = Gs_active" "same_identity r r'"
      "gr_status r' = Gs_active" "gr_lease_generation r' = gr_lease_generation r + 1"
      "gr_revision r' = gr_revision r" "gr_lease_token_hash r' \<noteq> None"
      "db_goals db' = replace_goal r' (db_goals db)" "db_checkpoints db' = db_checkpoints db"
      "db_executions db' = map (set_receipt (gr_id r) (gr_lease_generation r) Xs_superseded now)
         (db_executions db) @ [x]"
      "er_goal_id x = gr_id r" "er_lease_generation x = gr_lease_generation r + 1"
      "\<forall>y \<in> set (db_executions db). er_id y \<noteq> er_id x
         \<and> (er_goal_id y, er_lease_generation y) \<noteq> (er_goal_id x, er_lease_generation x)"
      "0 < er_lease_generation x" "decodes db' r'"
| records: "goal_trans db db'"
    if "r \<in> set (db_goals db)" "gr_status r = Gs_active" "same_identity r r'"
      "gr_status r' = Gs_active" "gr_lease_generation r' = gr_lease_generation r"
      "gr_revision r' = gr_revision r + 1"
      "gr_lease_token_hash r' = (if released then None else gr_lease_token_hash r)"
      "db_goals db' = replace_goal r' (db_goals db)"
      "db_checkpoints db' = db_checkpoints db @ [c]" "cr_goal_id c = gr_id r"
      "cr_revision c = gr_revision r + 1"
      "db_executions db' = (if released
         then map (set_receipt (gr_id r) (gr_lease_generation r) Xs_released now) (db_executions db)
         else db_executions db)"
      "decodes db' r'"
| closes: "goal_trans db db'"
    if "r \<in> set (db_goals db)" "gr_status r = Gs_active" "same_identity r r'"
      "gr_status r' \<noteq> Gs_active" "gr_lease_generation r' = gr_lease_generation r"
      "gr_revision r' = gr_revision r + 1"
      "gr_lease_token_hash r' = None"
      "db_goals db' = replace_goal r' (db_goals db)"
      "db_checkpoints db' = db_checkpoints db @ [c]" "cr_goal_id c = gr_id r"
      "cr_revision c = gr_revision r + 1"
      "db_executions db' =
         map (set_receipt (gr_id r) (gr_lease_generation r) Xs_terminal now) (db_executions db)"
      "decodes db' r'"
| renews: "goal_trans db db'"
    if "r \<in> set (db_goals db)" "gr_status r = Gs_active" "same_identity r r'"
      "gr_status r' = Gs_active" "gr_lease_generation r' = gr_lease_generation r"
      "gr_revision r' = gr_revision r" "gr_lease_token_hash r' = gr_lease_token_hash r"
      "db_goals db' = replace_goal r' (db_goals db)"
      "db_checkpoints db' = db_checkpoints db" "db_executions db' = db_executions db"
      "gr_lease_token_hash r \<noteq> None" "decodes db' r'"

section \<open>Rows of a well-formed database\<close>

lemma wf_unique:
  assumes "wf_goals db" "r \<in> set (db_goals db)" "r' \<in> set (db_goals db)" "gr_id r = gr_id r'"
  shows "r = r'"
  using assms distinct_key_unique unfolding wf_goals_def by metis

lemma selectById_row:
  assumes "distinct (map gr_id (db_goals db))" "r \<in> set (db_goals db)"
  shows "selectById db (gr_id r) = Some r"
  unfolding selectById_def using row_get_key [OF assms] by simp

lemma requireById_row:
  assumes "distinct (map gr_id (db_goals db))" "r \<in> set (db_goals db)" "gr_id r = i"
  shows "requireById db i = toGoalRecord db r"
  using selectById_row [OF assms(1,2)] assms(3) by (simp add: requireById_def)

lemma toGoalRecord_fields:
  assumes "toGoalRecord db r = Inr g"
  shows "g_id g = gr_id r" "g_workspaceId g = gr_workspace_id r"
    "g_ownerClientId g = gr_owner_client_id r" "g_objective g = gr_objective r"
    "g_plan g = gr_plan r" "g_status g = gr_status r" "g_revision g = gr_revision r"
    "g_blockers g = gr_blockers r"
    "g_leaseOwnerClientId g = gr_lease_owner_client_id r"
    "g_leaseOwnerSessionId g = gr_lease_owner_session_id r"
    "g_leaseTokenHash g = gr_lease_token_hash r"
    "g_leaseDurationSeconds g = gr_lease_duration_seconds r"
    "g_leaseGeneration g = gr_lease_generation r"
    "g_leaseActivitySeq g = gr_lease_activity_seq r"
    "g_leaseHeartbeatAt g = gr_lease_heartbeat_at r"
    "g_leaseExpiresAt g = gr_lease_expires_at r"
  using assms unfolding toGoalRecord_def by (auto dest: decode_goal_fields)

lemma ids_replace_goal [simp]: "map gr_id (replace_goal r' gs) = map gr_id gs"
  by (auto simp: replace_goal_def)

lemma replace_goal_mem: "r \<in> set gs \<Longrightarrow> gr_id r = gr_id r' \<Longrightarrow> r' \<in> set (replace_goal r' gs)"
  by (auto simp: replace_goal_def image_iff intro!: bexI [of _ r])

lemma set_replace_goal:
  "x \<in> set (replace_goal r' gs) \<Longrightarrow> x = r' \<or> (x \<in> set gs \<and> gr_id x \<noteq> gr_id r')"
  by (auto simp: replace_goal_def split: if_splits)

lemma update_goal_replace:
  assumes "distinct (map gr_id (db_goals db))" "update_goal P f db = Inr db1"
    and "\<forall>r. P r \<longrightarrow> gr_id r = i" "\<And>r. gr_id (f r) = gr_id r"
  obtains r where "r \<in> set (db_goals db)" "P r" "gr_id r = i"
    "db1 = db\<lparr>db_goals := replace_goal (f r) (db_goals db)\<rparr>"
proof -
  obtain r where r: "r \<in> set (db_goals db)" "P r" by (rule update_goal_row [OF assms(2)])
  have "row_update P f (db_goals db) = replace_goal (f r) (db_goals db)"
    unfolding row_update_def replace_goal_def
  proof (rule map_cong [OF refl])
    fix x assume x: "x \<in> set (db_goals db)"
    show "(if P x then f x else x) = (if gr_id x = gr_id (f r) then f r else x)"
      using distinct_key_unique [OF assms(1) x r(1)] r(2) assms(3,4) by metis
  qed
  then show ?thesis using that [OF r] assms(3) r(2) update_goalE [OF assms(2)] by metis
qed

lemma requireById_decodes:
  assumes "distinct (map gr_id (db_goals db))" "r \<in> set (db_goals db)" "gr_id r = i"
    and "requireById db i = Inr g"
  shows "decodes db r"
  unfolding decodes_iff using requireById_row [OF assms(1-3)] assms(4) by metis

section \<open>The operations make the moves\<close>

lemma close_goal_fields [simp]:
  "gr_status (close_goal st ph n sm ev now r) = st" "gr_revision (close_goal st ph n sm ev now r) = n"
  "gr_lease_generation (close_goal st ph n sm ev now r) = gr_lease_generation r"
  "gr_lease_token_hash (close_goal st ph n sm ev now r) = None"
  "same_identity r (close_goal st ph n sm ev now r)"
  "gr_id (close_goal st ph n sm ev now r) = gr_id r"
  by (simp_all add: close_goal_def same_identity_def)

lemma renew_lease_fields [simp]:
  "gr_id (renew_lease now e r) = gr_id r" "gr_status (renew_lease now e r) = gr_status r"
  "gr_revision (renew_lease now e r) = gr_revision r"
  "gr_lease_generation (renew_lease now e r) = gr_lease_generation r"
  "gr_lease_token_hash (renew_lease now e r) = gr_lease_token_hash r"
  "same_identity r (renew_lease now e r)"
  by (simp_all add: renew_lease_def same_identity_def)

lemma take_lease_fields [simp]:
  "gr_id (take_lease q e r) = gr_id r" "gr_status (take_lease q e r) = gr_status r"
  "gr_revision (take_lease q e r) = gr_revision r"
  "gr_lease_generation (take_lease q e r) = gr_lease_generation r + 1"
  "gr_lease_token_hash (take_lease q e r) = Some (aq_leaseTokenHash q)"
  "same_identity r (take_lease q e r)"
  by (simp_all add: take_lease_def same_identity_def)

lemma write_checkpoint_fields [simp]:
  "gr_id (write_checkpoint q n d le ts r) = gr_id r"
  "gr_status (write_checkpoint q n d le ts r) = gr_status r"
  "gr_revision (write_checkpoint q n d le ts r) = n"
  "gr_lease_generation (write_checkpoint q n d le ts r) = gr_lease_generation r"
  "gr_lease_token_hash (write_checkpoint q n d le ts r) =
     (if cq_releaseLease q then None else Some (cq_leaseTokenHash q))"
  "same_identity r (write_checkpoint q n d le ts r)"
  by (simp_all add: write_checkpoint_def same_identity_def)

text \<open>The row a decoded goal stands for.\<close>

lemma wf_current:
  assumes "wf_goals db" "requireById db i = Inr cur" "r \<in> set (db_goals db)" "gr_id r = i"
  shows "toGoalRecord db r = Inr cur"
  using requireById_row [of db r i] assms by (simp add: wf_goals_def)

lemma replace_decodes:
  assumes "distinct (map gr_id (db_goals db))" "r \<in> set (db_goals db)" "gr_id r' = gr_id r"
    "db_goals db' = replace_goal r' (db_goals db)" "requireById db' (gr_id r) = Inr g"
  shows "decodes db' r'"
proof (rule requireById_decodes)
  show "distinct (map gr_id (db_goals db'))" using assms(1,4) by simp
  show "r' \<in> set (db_goals db')" using assms(2-4) replace_goal_mem [of r "db_goals db" r'] by simp
qed (use assms in auto)

lemma closing_trans:
  assumes wf: "wf_goals db" and step: "closing_step i db db'"
  shows "goal_trans db db'"
proof -
  have ids: "distinct (map gr_id (db_goals db))" using wf by (simp add: wf_goals_def)
  obtain cur P st ph sm ev now db1 db2 calls c g where
    cur: "requireById db i = Inr cur" and st: "st \<noteq> Gs_active" and
    P: "\<forall>r. P r \<longrightarrow> gr_id r = i \<and> gr_status r = Gs_active \<and> gr_revision r = g_revision cur" and
    u: "update_goal P (close_goal st ph (g_revision cur + 1) sm ev now) db = Inr db1" and
    ins: "insertCheckpoint c (db1\<lparr>db_calls := calls\<rparr>) = Inr db2" and
    c: "cr_goal_id c = i" "cr_revision c = g_revision cur + 1" and
    ex: "updateExecutionState i (g_leaseGeneration cur) Xs_terminal now db2 = Inr db'" and
    fin: "requireById db' i = Inr g"
    using step unfolding closing_step_def by blast
  obtain r where r: "r \<in> set (db_goals db)" "P r" "gr_id r = i"
    and db1: "db1 = db\<lparr>db_goals :=
      replace_goal (close_goal st ph (g_revision cur + 1) sm ev now r) (db_goals db)\<rparr>"
    by (rule update_goal_replace [OF ids u]) (use P in auto)
  note dec = toGoalRecord_fields [OF wf_current [OF wf cur r(1,3)]]
  let ?r = "close_goal st ph (g_revision cur + 1) sm ev now r"
  have tabs: "db_goals db' = replace_goal ?r (db_goals db)"
    "db_checkpoints db' = db_checkpoints db @ [c]"
    "db_executions db' =
       map (set_receipt (gr_id r) (gr_lease_generation r) Xs_terminal now) (db_executions db)"
    using ins ex db1 r(3) dec by (auto elim!: insertCheckpointE updateExecutionStateE)
  have act: "gr_status r = Gs_active" "gr_revision r = g_revision cur" using P r(2) by auto
  have "decodes db' ?r" using replace_decodes [OF ids r(1) _ tabs(1)] fin r(3) by simp
  then show ?thesis
    by (intro closes [of r db ?r, OF r(1) _ _ _ _ _ _ tabs(1,2) _ _ tabs(3)])
      (simp_all add: act st c r(3))
qed

lemma checkpoint_trans:
  assumes wf: "wf_goals db" and step: "checkpoint q db = Inr (db', g)"
  shows "goal_trans db db'"
  using step
proof (rule checkpointE)
  fix cur d ts le db1 db2 c
  assume cur: "requireById db (cq_goalId q) = Inr cur"
    and u: "update_goal (\<lambda>r. gr_id r = cq_goalId q \<and> gr_revision r = cq_expectedRevision q
       \<and> gr_lease_token_hash r = Some (cq_leaseTokenHash q) \<and> gr_status r = Gs_active)
       (write_checkpoint q (g_revision cur + 1) d le ts) db = Inr db1"
    and ins: "insertCheckpoint c db1 = Inr db2" and c: "cr_goal_id c = cq_goalId q"
    "cr_revision c = g_revision cur + 1"
    and ex: "(if cq_releaseLease q then updateExecutionState (cq_goalId q) (g_leaseGeneration cur)
        Xs_released (cq_now q) db2 else Inr db2) = Inr db'"
    and fin: "requireById db' (cq_goalId q) = Inr g"
  have ids: "distinct (map gr_id (db_goals db))" using wf by (simp add: wf_goals_def)
  obtain r where r: "r \<in> set (db_goals db)" "gr_id r = cq_goalId q"
    "gr_lease_token_hash r = Some (cq_leaseTokenHash q)" "gr_status r = Gs_active"
    and db1: "db1 = db\<lparr>db_goals :=
      replace_goal (write_checkpoint q (g_revision cur + 1) d le ts r) (db_goals db)\<rparr>"
    by (rule update_goal_replace [OF ids u]) auto
  note dec = toGoalRecord_fields [OF wf_current [OF wf cur r(1,2)]]
  let ?r = "write_checkpoint q (g_revision cur + 1) d le ts r"
  have tabs: "db_goals db' = replace_goal ?r (db_goals db)"
    "db_checkpoints db' = db_checkpoints db @ [c]"
    "db_executions db' = (if cq_releaseLease q then
       map (set_receipt (gr_id r) (gr_lease_generation r) Xs_released (cq_now q)) (db_executions db)
       else db_executions db)"
    using ins ex db1 r(2) dec
    by (auto elim!: insertCheckpointE updateExecutionStateE split: if_splits)
  show ?thesis
    by (rule records [of r db ?r, OF r(1) _ _ _ _ _ _ tabs(1,2) _ _ tabs(3)])
      (use r(2-4) c dec(7) fin replace_decodes [OF ids r(1) _ tabs(1)] in simp_all)
qed

lemma policy_trans:
  assumes wf: "wf_goals db" and step: "setIdleGoalPonytailModeForHost ta q k db = Inr (db', g)"
  shows "goal_trans db db'"
  using step
proof (cases rule: policyE)
  case unchanged
  then show ?thesis by (auto intro: stays)
next
  case (changed cur db1 c)
  have ids: "distinct (map gr_id (db_goals db))" using wf by (simp add: wf_goals_def)
  let ?f = "\<lambda>r. r\<lparr>gr_ponytail_mode := sq_ponytailMode q, gr_revision := g_revision cur + 1,
            gr_updated_at := sq_now q\<rparr>"
  note i = requireById_id [OF changed(1)]
  obtain r where r: "r \<in> set (db_goals db)" "gr_id r = sq_goalId q" "gr_status r = Gs_active"
    "gr_revision r = g_revision cur"
    and db1: "db1 = db\<lparr>db_goals := replace_goal (?f r) (db_goals db)\<rparr>"
    by (rule update_goal_replace [OF ids changed(3)]) (auto simp: i)
  have tabs: "db_goals db' = replace_goal (?f r) (db_goals db)"
    "db_checkpoints db' = db_checkpoints db @ [c]" "db_executions db' = db_executions db"
    using changed(4) db1 by (auto elim!: insertCheckpointE)
  show ?thesis
    by (rule records [of r db "?f r" False, OF r(1) _ _ _ _ _ _ tabs(1,2)])
      (use r(2-4) changed(5-7) i tabs replace_decodes [OF ids r(1) _ tabs(1)]
        in \<open>simp_all add: same_identity_def\<close>)
qed

lemma decodes_renew:
  assumes "decodes db r" "gr_status r = Gs_active" "gr_lease_expires_at r \<noteq> None"
    "validate_iso now" "validate_iso e"
    "db_checkpoints db' = db_checkpoints db" "db_executions db' = db_executions db"
  shows "decodes db' (renew_lease now e r)" "gr_lease_token_hash r \<noteq> None"
proof -
  let ?r = "renew_lease now e r"
  let ?cps = "checkpoints_of db (gr_id r)"
  let ?x = "if gr_lease_generation r = 0 then None
    else selectExecution db (gr_id r) (gr_lease_generation r)"
  have "\<exists>g. decode_goal r ?cps ?x = Inr g"
    using assms(1) by (simp add: decodes_iff toGoalRecord_def)
  note ok = this [unfolded decode_goal_ok_iff]
  then have held: "gr_lease_owner_client_id r \<noteq> None" "gr_lease_owner_session_id r \<noteq> None"
    "gr_lease_token_hash r \<noteq> None" "\<exists>d > 0. gr_lease_duration_seconds r = Some d"
    using assms(3) by (auto simp: validateLeaseState_iff)
  have "\<exists>g. decode_goal ?r ?cps ?x = Inr g"
    unfolding decode_goal_ok_iff
    using ok held assms(2,4,5)
    by (simp add: validateLeaseState_iff validateTerminalState_iff renew_lease_def)
      (simp add: validate_iso_iff)
  moreover have "toGoalRecord db' ?r = decode_goal ?r ?cps ?x"
    unfolding toGoalRecord_def checkpoints_of_def selectExecution_def using assms(6,7) by simp
  ultimately show "decodes db' ?r" by (simp add: decodes_iff)
  show "gr_lease_token_hash r \<noteq> None" by (rule held(3))
qed

lemma renewing_trans:
  assumes wf: "wf_goals db" and step: "renewing_step i db db'"
  shows "goal_trans db db'"
proof -
  have ids: "distinct (map gr_id (db_goals db))" using wf by (simp add: wf_goals_def)
  obtain cur P now e calls calls' db1 where
    cur: "requireById db i = Inr cur" and held: "g_leaseExpiresAt cur \<noteq> None" and
    iso: "validate_iso now" "validate_iso e" and
    P: "\<forall>r. P r \<longrightarrow> gr_id r = i \<and> gr_status r = Gs_active" and
    u: "update_goal P (renew_lease now e) (db\<lparr>db_calls := calls\<rparr>) = Inr db1" and
    db': "db' = db1\<lparr>db_calls := calls'\<rparr>"
    using step unfolding renewing_step_def by blast
  obtain r where r: "r \<in> set (db_goals db)" "P r" "gr_id r = i"
    and db1: "db1 = (db\<lparr>db_calls := calls\<rparr>)\<lparr>db_goals := replace_goal (renew_lease now e r) (db_goals db)\<rparr>"
    using update_goal_replace [OF _ u, of i] ids P by (auto simp: renew_lease_def)
  have "decodes db r" using wf r(1) by (simp add: wf_goals_def)
  moreover have "gr_lease_expires_at r \<noteq> None"
    using toGoalRecord_fields [OF wf_current [OF wf cur r(1,3)]] held by simp
  ultimately have "decodes db' (renew_lease now e r)" "gr_lease_token_hash r \<noteq> None"
    using decodes_renew [of db r now e db'] P r(2) iso db' db1 by auto
  then show ?thesis using r P db' db1 by (intro renews [of r db "renew_lease now e r"]) auto
qed

text \<open>A worker takes the lease: the goal's generation grows and its receipt is rotated.\<close>

lemma taking_trans:
  assumes wf: "wf_goals db" and u: "update_goal P f db = Inr db1"
    and P: "\<forall>r. P r \<longrightarrow> gr_id r = i \<and> gr_status r = Gs_active \<and> gr_lease_generation r = n"
    and f: "\<And>r. gr_id (f r) = gr_id r" "\<And>r. same_identity r (f r)" "\<And>r. gr_status (f r) = gr_status r"
      "\<And>r. gr_revision (f r) = gr_revision r" "\<And>r. gr_lease_token_hash (f r) \<noteq> None"
      "\<And>r. gr_lease_generation (f r) = gr_lease_generation r + 1"
    and db2: "db_goals db2 = db_goals db1" "db_checkpoints db2 = db_checkpoints db1"
      "db_executions db2 = (if n > 0 then map (set_receipt i n Xs_superseded now) (db_executions db1)
         else db_executions db1)"
    and ins: "insertExecution ex db2 = Inr db'" "er_goal_id ex = i" "er_lease_generation ex = n + 1"
    and fin: "requireById db' i = Inr g"
  shows "goal_trans db db'"
proof -
  have ids: "distinct (map gr_id (db_goals db))" using wf by (simp add: wf_goals_def)
  obtain r where r: "r \<in> set (db_goals db)" "P r"
    and db1: "db1 = db\<lparr>db_goals := replace_goal (f r) (db_goals db)\<rparr>"
    by (rule update_goal_replace [OF ids u _ f(1)]) (use P in auto)
  have r': "gr_id r = i" "gr_status r = Gs_active" "gr_lease_generation r = n" using P r(2) by auto
  have "0 < er_lease_generation y" if "y \<in> set (db_executions db)" for y
    using wf that by (auto simp: wf_goals_def receipts_ok_def)
  then have noop: "n \<le> 0 \<Longrightarrow> map (set_receipt j n s now) (db_executions db) = db_executions db" for j s now
    by (intro map_idI) (force simp: set_receipt_def)
  let ?s = "map (set_receipt (gr_id r) (gr_lease_generation r) Xs_superseded now) (db_executions db)"
  have x2: "db_executions db2 = ?s" using db2(3) db1 r' noop by auto
  have tabs: "db_goals db' = replace_goal (f r) (db_goals db)"
    "db_checkpoints db' = db_checkpoints db" "db_executions db' = ?s @ [ex]"
    and pos: "0 < er_lease_generation ex"
    and fresh: "\<forall>y \<in> set ?s. er_id y \<noteq> er_id ex
       \<and> (er_goal_id y, er_lease_generation y) \<noteq> (er_goal_id ex, er_lease_generation ex)"
    using ins(1) db1 db2(1,2) x2 by (auto elim!: insertExecutionE)
  have fresh': "\<forall>y \<in> set (db_executions db). er_id y \<noteq> er_id ex
       \<and> (er_goal_id y, er_lease_generation y) \<noteq> (er_goal_id ex, er_lease_generation ex)"
    using fresh by (force simp: set_receipt_keys)
  show ?thesis
    by (rule takes [of r db "f r", OF r(1) r'(2) _ _ _ _ _ tabs _ _ fresh' pos])
      (use r' f ins(2,3) fin replace_decodes [OF ids r(1) _ tabs(1)] in simp_all)
qed

lemma acquire_trans:
  assumes wf: "wf_goals db" and step: "acquire q x db = Inr (db', res)"
  shows "goal_trans db db'"
  using step
proof (cases rule: acquireE)
  case new
  then obtain row ex db1 where n: "insert_goal row db = Inr db1" "insertExecution ex db1 = Inr db'"
    "requireById db' (aq_goalId q) = Inr (ar_goal res)" "gr_id row = aq_goalId q"
    "gr_lease_generation row = 1" "gr_status row = Gs_active"
    "gr_lease_token_hash row = Some (aq_leaseTokenHash q)" "er_goal_id ex = aq_goalId q"
    "er_lease_generation ex = 1"
    by (elim acquire_newE)
  have fresh: "\<forall>r \<in> set (db_goals db). gr_id r \<noteq> gr_id row \<and> goal_key r \<noteq> goal_key row"
    and goals: "db_goals db' = db_goals db @ [row]"
    using n(1,2) by (auto elim!: insert_goalE insertExecutionE simp: goal_key_def)
  then have "distinct (map gr_id (db_goals db'))" using wf by (auto simp: wf_goals_def)
  then have "decodes db' row"
    using requireById_decodes [of db' row "aq_goalId q"] goals n(3,4) by auto
  then show ?thesis using n fresh goals
    by (intro creates [of db' db row ex]) (auto elim!: insert_goalE insertExecutionE)
next
  case refused
  then show ?thesis by (auto intro: stays)
next
  case (taken row g b)
  from taken(7) show ?thesis
    by (elim acquire_leaseE) (rule taking_trans [OF wf], assumption, auto)
qed

lemma mark_finished_frame:
  assumes "markGoalFinishedForScheduledContinuation i now db = Inr (db', res)"
  shows "db_goals db' = db_goals db" "db_checkpoints db' = db_checkpoints db"
    "db_executions db' = db_executions db" "db_calls db' = db_calls db"
  using assms
  by (auto simp: markGoalFinishedForScheduledContinuation_def bind_ok_Inr_iff Let_def
      split: option.splits if_splits)

lemma trans_commit:
  assumes "\<And>db' a. r = Inr (db', a) \<Longrightarrow> goal_trans db db'"
  shows "goal_trans db (commit db r)"
  by (rule commit_cases) (auto intro: assms stays)

end
