(* ===== verification/Goal_Lease_Invariant.thy ===== *)
theory Goal_Lease_Invariant
  imports Goal_Lease_Protocol
begin

text \<open>
  What the moves of the lease protocol keep: the goal tables stay well-formed, and the history of a
  goal only grows.
\<close>

section \<open>The moves keep the tables well-formed\<close>

lemma row_get_set_receipt:
  assumes "i \<noteq> j"
  shows "row_get (\<lambda>x. er_goal_id x = j \<and> er_lease_generation x = n) (map (set_receipt i m s t) xs)
    = row_get (\<lambda>x. er_goal_id x = j \<and> er_lease_generation x = n) xs"
  using assms by (induction xs) (auto simp: set_receipt_def)

lemma row_get_append_other:
  "\<not> P x \<Longrightarrow> row_get P (xs @ [x]) = row_get P xs"
  by (induction xs) auto

text \<open>The tables of another goal are not touched.\<close>

definition same_tables :: "string \<Rightarrow> goal_db \<Rightarrow> goal_db \<Rightarrow> bool" where
  "same_tables j db db' \<longleftrightarrow> checkpoints_of db' j = checkpoints_of db j
     \<and> (\<forall>n. selectExecution db' j n = selectExecution db j n)"

lemma same_tablesI:
  "checkpoints_of db' j = checkpoints_of db j \<Longrightarrow>
     (\<And>n. selectExecution db' j n = selectExecution db j n) \<Longrightarrow> same_tables j db db'"
  by (simp add: same_tables_def)

lemma same_tables_decodes: "same_tables (gr_id r) db db' \<Longrightarrow> decodes db' r = decodes db r"
  by (simp add: same_tables_def decodes_def toGoalRecord_def)

lemma checkpoints_of_other:
  "db_checkpoints db' = db_checkpoints db @ [c] \<Longrightarrow> cr_goal_id c \<noteq> j \<Longrightarrow>
     checkpoints_of db' j = checkpoints_of db j"
  by (simp add: checkpoints_of_def)

lemma checkpoints_of_same:
  "db_checkpoints db' = db_checkpoints db \<Longrightarrow> checkpoints_of db' j = checkpoints_of db j"
  by (simp add: checkpoints_of_def)

lemma selectExecution_other:
  "db_executions db' = map (set_receipt i m s t) (db_executions db) \<Longrightarrow> i \<noteq> j \<Longrightarrow>
     selectExecution db' j n = selectExecution db j n"
  "db_executions db' = map (set_receipt i m s t) (db_executions db) @ [x] \<Longrightarrow> i \<noteq> j \<Longrightarrow>
     er_goal_id x \<noteq> j \<Longrightarrow> selectExecution db' j n = selectExecution db j n"
  "db_executions db' = db_executions db @ [x] \<Longrightarrow> er_goal_id x \<noteq> j \<Longrightarrow>
     selectExecution db' j n = selectExecution db j n"
  "db_executions db' = db_executions db \<Longrightarrow> selectExecution db' j n = selectExecution db j n"
  by (simp_all add: selectExecution_def row_get_set_receipt row_get_append_other)

lemma decodes_after_replace:
  assumes "\<forall>x \<in> set (db_goals db). decodes db x" "decodes db' r'"
    "db_goals db' = replace_goal r' (db_goals db)"
    "\<And>j. j \<noteq> gr_id r' \<Longrightarrow> same_tables j db db'"
  shows "\<forall>x \<in> set (db_goals db'). decodes db' x"
  using assms(1-3) same_tables_decodes [OF assms(4)] by (auto dest!: set_replace_goal)

lemma keys_after_replace:
  assumes "same_identity r r'" "r \<in> set gs" "distinct (map gr_id gs)"
  shows "map goal_key (replace_goal r' gs) = map goal_key gs"
proof -
  have "goal_key r' = goal_key x" if "x \<in> set gs" "gr_id x = gr_id r'" for x
  proof -
    have "x = r" using that assms distinct_key_unique [of gr_id gs x r]
      by (simp add: same_identity_def)
    then show ?thesis using assms(1) by (simp add: goal_key_def same_identity_def)
  qed
  then show ?thesis by (auto simp: replace_goal_def)
qed

text \<open>Receipts: the row of a goal is replaced and the receipts of one generation may be retired.\<close>

lemma receipts_replace:
  assumes ok: "receipts_ok gs xs" and r: "r \<in> set gs" "gr_id r' = gr_id r"
    and ids: "distinct (map gr_id gs)"
    and xs': "map er_id xs' = map er_id xs" "map er_goal_id xs' = map er_goal_id xs"
      "map er_lease_generation xs' = map er_lease_generation xs"
    and keep: "\<And>x'. x' \<in> set xs' \<Longrightarrow> er_goal_id x' \<noteq> gr_id r \<Longrightarrow> x' \<in> set xs"
    and own: "\<And>x'. x' \<in> set xs' \<Longrightarrow> er_goal_id x' = gr_id r \<Longrightarrow> receipt_of r' x'"
  shows "receipts_ok (replace_goal r' gs) xs'"
proof -
  have zipped: "map (\<lambda>x. (er_goal_id x, er_lease_generation x)) xs'
      = map (\<lambda>x. (er_goal_id x, er_lease_generation x)) xs"
    using arg_cong2 [OF xs'(2,3), of zip] by (simp add: zip_map_map zip_same_conv_map comp_def)
  have pos: "0 < er_lease_generation x'" if "x' \<in> set xs'" for x'
  proof -
    have "er_lease_generation x' \<in> er_lease_generation ` set xs"
      using that xs'(3) by (metis image_eqI list.set_map)
    then show ?thesis using ok by (auto simp: receipts_ok_def)
  qed
  have "\<exists>q \<in> set (replace_goal r' gs). receipt_of q x'" if x': "x' \<in> set xs'" for x'
  proof (cases "er_goal_id x' = gr_id r")
    case True
    then have "receipt_of r' x'" using own x' by blast
    then show ?thesis using replace_goal_mem [OF r(1), of r'] r(2) by auto
  next
    case False
    then obtain q where q: "q \<in> set gs" "receipt_of q x'"
      using keep [OF x'] ok by (auto simp: receipts_ok_def)
    then have "gr_id q \<noteq> gr_id r'" using False r(2) by (auto simp: receipt_of_def)
    then have "q \<in> set (replace_goal r' gs)"
      using q(1) by (auto simp: replace_goal_def image_iff intro!: bexI [of _ q])
    then show ?thesis using q(2) by blast
  qed
  then show ?thesis using ok xs'(1) zipped pos by (simp add: receipts_ok_def)
qed

lemma receipt_unique_row:
  assumes "receipts_ok gs xs" "x \<in> set xs" "r \<in> set gs" "er_goal_id x = gr_id r"
    "distinct (map gr_id gs)"
  shows "receipt_of r x"
proof -
  obtain q where "q \<in> set gs" "receipt_of q x" using assms(1,2) by (auto simp: receipts_ok_def)
  moreover from this have "q = r"
    using assms(3-5) distinct_key_unique [of gr_id gs q r] by (simp add: receipt_of_def)
  ultimately show ?thesis by simp
qed

lemma receipts_retire:
  assumes ok: "receipts_ok gs xs" and r: "r \<in> set gs" "gr_id r' = gr_id r"
    and ids: "distinct (map gr_id gs)" and s: "s \<noteq> Xs_active"
    and gen: "gr_lease_generation r \<le> gr_lease_generation r'"
  shows "receipts_ok (replace_goal r' gs) (map (set_receipt (gr_id r) (gr_lease_generation r) s t) xs)"
proof (rule receipts_replace [OF ok r ids])
  fix x' assume x': "x' \<in> set (map (set_receipt (gr_id r) (gr_lease_generation r) s t) xs)"
  then obtain x where x: "x \<in> set xs" "x' = set_receipt (gr_id r) (gr_lease_generation r) s t x"
    by auto
  { assume "er_goal_id x' \<noteq> gr_id r" then have "er_goal_id x \<noteq> gr_id r" using x(2) by simp
    then have "x' = x" using x(2) by (simp add: set_receipt_def)
    then show "x' \<in> set xs" using x(1) by simp }
  assume own: "er_goal_id x' = gr_id r"
  then have "receipt_of r x" using receipt_unique_row [OF ok x(1) r(1) _ ids] x(2) by simp
  then show "receipt_of r' x'"
    using x(2) own r(2) gen s by (auto simp: receipt_of_def set_receipt_def)
qed (simp_all add: comp_def)

lemma receipts_keep:
  assumes ok: "receipts_ok gs xs" and r: "r \<in> set gs" "gr_id r' = gr_id r"
    and ids: "distinct (map gr_id gs)" and act: "gr_status r' = Gs_active"
    and gen: "gr_lease_generation r' = gr_lease_generation r"
    and tok: "gr_lease_token_hash r' = gr_lease_token_hash r"
  shows "receipts_ok (replace_goal r' gs) xs"
proof (rule receipts_replace [OF ok r ids])
  fix x' assume "x' \<in> set xs" "er_goal_id x' = gr_id r"
  then have "receipt_of r x'" using receipt_unique_row [OF ok _ r(1) _ ids] by simp
  then show "receipt_of r' x'" using r(2) act gen tok by (simp add: receipt_of_def)
qed simp_all

lemma receipts_append:
  assumes "receipts_ok gs xs" "r \<in> set gs" "receipt_of r x" "0 < er_lease_generation x"
    "\<forall>y \<in> set xs. er_id y \<noteq> er_id x
       \<and> (er_goal_id y, er_lease_generation y) \<noteq> (er_goal_id x, er_lease_generation x)"
  shows "receipts_ok gs (xs @ [x])"
  using assms by (auto simp: receipts_ok_def)

lemma trans_wf:
  assumes "goal_trans db db'" "wf_goals db"
  shows "wf_goals db'"
  using assms(1)
proof cases
  case stays
  have "same_tables j db db'" for j
    by (intro same_tablesI checkpoints_of_same stays selectExecution_other(4))
  then have "decodes db' r = decodes db r" for r by (rule same_tables_decodes)
  then show ?thesis using assms(2) stays by (simp add: wf_goals_def)
next
  case (creates r x)
  have "same_tables j db db'" if "j \<noteq> gr_id r" for j
    by (rule same_tablesI [OF checkpoints_of_same [OF creates(2)]
          selectExecution_other(3) [OF creates(3)]]) (use creates(8) that in simp)
  then have "decodes db' y = decodes db y" if "y \<in> set (db_goals db)" for y
    using creates(4) that by (intro same_tables_decodes) auto
  then have "\<forall>y \<in> set (db_goals db'). decodes db' y"
    using creates(1,11) assms(2) by (simp add: wf_goals_def)
  moreover have "receipts_ok (db_goals db') (db_executions db')"
    unfolding creates(3)
  proof (rule receipts_append)
    show "receipts_ok (db_goals db') (db_executions db)"
      using assms(2) creates(1) by (auto simp: wf_goals_def receipts_ok_def)
    show "receipt_of r x" using creates by (simp add: receipt_of_def)
  qed (use creates in auto)
  ultimately show ?thesis using assms(2) creates by (auto simp: wf_goals_def)
next
  case (takes r r' now x)
  have id: "gr_id r' = gr_id r" using takes(3) by (simp add: same_identity_def)
  have ids: "distinct (map gr_id (db_goals db))" using assms(2) by (simp add: wf_goals_def)
  have "same_tables j db db'" if "j \<noteq> gr_id r'" for j
    by (rule same_tablesI [OF checkpoints_of_same [OF takes(9)]
          selectExecution_other(2) [OF takes(10)]]) (use takes(11) id that in simp_all)
  then have "\<forall>y \<in> set (db_goals db'). decodes db' y"
    using decodes_after_replace [OF _ takes(15) takes(8)] assms(2) by (simp add: wf_goals_def)
  moreover have "receipts_ok (db_goals db') (db_executions db')"
    unfolding takes(8,10)
  proof (rule receipts_append)
    show "receipts_ok (replace_goal r' (db_goals db)) (map (set_receipt (gr_id r)
        (gr_lease_generation r) Xs_superseded now) (db_executions db))"
      by (rule receipts_retire) (use takes assms(2) ids id in \<open>auto simp: wf_goals_def\<close>)
    show "r' \<in> set (replace_goal r' (db_goals db))"
      using replace_goal_mem [OF takes(1)] id by simp
    show "receipt_of r' x" using takes id by (simp add: receipt_of_def)
  qed (use takes in auto)
  ultimately show ?thesis
    using assms(2) takes(1,3,8) ids keys_after_replace [OF takes(3,1) ids] by (simp add: wf_goals_def)
next
  case (records r r' released c now)
  have id: "gr_id r' = gr_id r" using records(3) by (simp add: same_identity_def)
  have ids: "distinct (map gr_id (db_goals db))" using assms(2) by (simp add: wf_goals_def)
  have "same_tables j db db'" if "j \<noteq> gr_id r'" for j
  proof (rule same_tablesI [OF checkpoints_of_other [OF records(9)]])
    show "cr_goal_id c \<noteq> j" using records(10) id that by simp
    show "selectExecution db' j n = selectExecution db j n" for n
    proof (cases released)
      case True
      with records(12) have x: "db_executions db' = map (set_receipt (gr_id r)
        (gr_lease_generation r) Xs_released now) (db_executions db)" by simp
      show ?thesis by (rule selectExecution_other(1) [OF x]) (use id that in simp)
    next
      case False
      with records(12) show ?thesis by (intro selectExecution_other(4)) simp
    qed
  qed
  then have "\<forall>y \<in> set (db_goals db'). decodes db' y"
    using decodes_after_replace [OF _ records(13) records(8)] assms(2) by (simp add: wf_goals_def)
  moreover have "receipts_ok (db_goals db') (db_executions db')"
  proof (cases released)
    case True
    then have x: "db_executions db' = map (set_receipt (gr_id r) (gr_lease_generation r) Xs_released now)
        (db_executions db)" using records(12) by simp
    show ?thesis unfolding records(8) x
      by (rule receipts_retire) (use records(1,5) assms(2) ids id in \<open>auto simp: wf_goals_def\<close>)
  next
    case False
    then have x: "db_executions db' = db_executions db" using records(12) by simp
    show ?thesis unfolding records(8) x
      by (rule receipts_keep) (use records(1,4,5,7) False assms(2) ids id in \<open>auto simp: wf_goals_def\<close>)
  qed
  ultimately show ?thesis
    using assms(2) records(8) ids keys_after_replace [OF records(3,1) ids] by (simp add: wf_goals_def)
next
  case (closes r r' c now)
  have id: "gr_id r' = gr_id r" using closes(3) by (simp add: same_identity_def)
  have ids: "distinct (map gr_id (db_goals db))" using assms(2) by (simp add: wf_goals_def)
  have "same_tables j db db'" if "j \<noteq> gr_id r'" for j
    by (rule same_tablesI [OF checkpoints_of_other [OF closes(9)]
          selectExecution_other(1) [OF closes(12)]]) (use closes(10) id that in simp_all)
  then have "\<forall>y \<in> set (db_goals db'). decodes db' y"
    using decodes_after_replace [OF _ closes(13) closes(8)] assms(2) by (simp add: wf_goals_def)
  moreover have "receipts_ok (db_goals db') (db_executions db')"
    unfolding closes(8,12)
    by (rule receipts_retire) (use closes(1,5) assms(2) ids id in \<open>auto simp: wf_goals_def\<close>)
  ultimately show ?thesis
    using assms(2) closes(8) ids keys_after_replace [OF closes(3,1) ids] by (simp add: wf_goals_def)
next
  case (renews r r')
  have id: "gr_id r' = gr_id r" using renews(3) by (simp add: same_identity_def)
  have ids: "distinct (map gr_id (db_goals db))" using assms(2) by (simp add: wf_goals_def)
  have "same_tables j db db'" for j
    by (rule same_tablesI [OF checkpoints_of_same [OF renews(9)]
          selectExecution_other(4) [OF renews(10)]])
  then have "\<forall>y \<in> set (db_goals db'). decodes db' y"
    using decodes_after_replace [OF _ renews(12) renews(8)] assms(2) by (simp add: wf_goals_def)
  moreover have "receipts_ok (db_goals db') (db_executions db')"
    unfolding renews(8,10)
    by (rule receipts_keep) (use renews(1,2,4,5,7) assms(2) ids id in \<open>auto simp: wf_goals_def\<close>)
  ultimately show ?thesis
    using assms(2) renews(8) ids keys_after_replace [OF renews(3,1) ids] by (simp add: wf_goals_def)
qed

section \<open>The history of a goal only grows\<close>

definition row_extends :: "goal_row \<Rightarrow> goal_row \<Rightarrow> bool" where
  "row_extends r r' \<longleftrightarrow> same_identity r r' \<and> gr_lease_generation r \<le> gr_lease_generation r'
     \<and> gr_revision r \<le> gr_revision r' \<and> (gr_status r \<noteq> Gs_active \<longrightarrow> r' = r)"

definition goals_extend :: "goal_db \<Rightarrow> goal_db \<Rightarrow> bool" where
  "goals_extend db db' \<longleftrightarrow>
     (\<forall>r \<in> set (db_goals db). \<exists>r' \<in> set (db_goals db'). row_extends r r')
     \<and> prefix (db_checkpoints db) (db_checkpoints db')"

lemma row_extends_refl: "row_extends r r"
  by (simp add: row_extends_def same_identity_def)

lemma row_extends_trans: "row_extends r s \<Longrightarrow> row_extends s t \<Longrightarrow> row_extends r t"
  by (auto simp: row_extends_def same_identity_def)

lemma goals_extend_refl: "goals_extend db db"
  by (auto simp: goals_extend_def intro: row_extends_refl)

lemma goals_extend_trans: "goals_extend a b \<Longrightarrow> goals_extend b c \<Longrightarrow> goals_extend a c"
  unfolding goals_extend_def by (meson prefix_order.trans row_extends_trans)

lemma replace_extends:
  assumes "wf_goals db" "r \<in> set (db_goals db)" "row_extends r r'"
  shows "\<forall>y \<in> set (db_goals db). \<exists>y' \<in> set (replace_goal r' (db_goals db)). row_extends y y'"
proof
  fix y assume y: "y \<in> set (db_goals db)"
  have id: "gr_id r' = gr_id r" using assms(3) by (simp add: row_extends_def same_identity_def)
  show "\<exists>y' \<in> set (replace_goal r' (db_goals db)). row_extends y y'"
  proof (cases "gr_id y = gr_id r")
    case True
    then have "y = r" using wf_unique [OF assms(1) y assms(2)] by simp
    then show ?thesis using assms(3) replace_goal_mem [OF assms(2), of r'] id by auto
  next
    case False
    then have "y \<in> set (replace_goal r' (db_goals db))"
      using y id by (auto simp: replace_goal_def image_iff intro!: bexI [of _ y])
    then show ?thesis by (auto intro: row_extends_refl)
  qed
qed

lemma trans_extends:
  assumes "goal_trans db db'" "wf_goals db"
  shows "goals_extend db db'"
  using assms(1)
proof cases
  case stays
  then show ?thesis by (auto simp: goals_extend_def intro: row_extends_refl)
next
  case (creates r x)
  then show ?thesis by (auto simp: goals_extend_def intro: row_extends_refl)
next
  case (takes r r' now x)
  then show ?thesis using replace_extends [OF assms(2) takes(1), of r']
    by (simp add: goals_extend_def row_extends_def)
next
  case (records r r' released c now)
  then show ?thesis using replace_extends [OF assms(2) records(1), of r']
    by (simp add: goals_extend_def row_extends_def)
next
  case (closes r r' c now)
  then show ?thesis using replace_extends [OF assms(2) closes(1), of r']
    by (simp add: goals_extend_def row_extends_def)
next
  case (renews r r')
  then show ?thesis using replace_extends [OF assms(2) renews(1), of r']
    by (simp add: goals_extend_def row_extends_def)
qed

end
