(* ===== verification/Goal_Wake.thy ===== *)
theory Goal_Wake
  imports Goal_Repository
begin

text \<open>
  Scheduled continuations, part one (packages/storage/src/goal-repository.ts and
  packages/domain/src/scheduled-continuation.ts). A continuation is a wake-up the host promises for a
  goal: it is prepared with a checkpoint, confirmed or refused by receipts of the host, retimed,
  cancelled, and claimed when it fires. This theory holds the table statements with their SQL
  constraints and every operation but the claim. Timestamps that the source compares as texts are
  compared as instants: the texts come from \<open>toISOString\<close>, which spells an instant in one way.
\<close>

section \<open>Statements on the continuation table\<close>

text \<open>A CHECK that is NULL passes, so an interval row may lack its minutes here.\<close>

definition continuation_row_ok :: "scheduled_continuation_row \<Rightarrow> bool" where
  "continuation_row_ok c \<longleftrightarrow>
     0 < cn_generation c \<and> 0 \<le> cn_source_goal_revision c \<and> 0 \<le> cn_version c \<and>
     (case cn_occurrence c of
        So_once \<Rightarrow> cn_interval_minutes c = None
      | So_interval \<Rightarrow> cn_interval_minutes c = None \<or> cn_interval_minutes c = Some 60) \<and>
     cn_destination c = ''current_chat'' \<and> 0 \<le> cn_reschedule_count c \<and> 0 \<le> cn_orphan_recovery_count c \<and>
     (case cn_orphan_probe_lease_generation c of None \<Rightarrow> True | Some n \<Rightarrow> 0 \<le> n) \<and>
     (case cn_orphan_probe_activity_seq c of None \<Rightarrow> True | Some n \<Rightarrow> 0 \<le> n) \<and>
     (cn_status c \<in> {Sc_reschedule_required, Sc_reschedule_failed, Sc_reschedule_uncertain} \<longrightarrow>
        cn_native_task_id c \<noteq> None \<and> cn_pending_due_at c \<noteq> None)"

definition is_live :: "scheduled_continuation_row \<Rightarrow> bool" where
  "is_live c \<longleftrightarrow> isLiveScheduledStatus (cn_status c)"

definition continuations_ok :: "scheduled_continuation_row list \<Rightarrow> bool" where
  "continuations_ok cs \<longleftrightarrow> distinct (map cn_id cs) \<and>
     distinct (map (\<lambda>c. (cn_goal_id c, cn_generation c)) cs) \<and>
     distinct (map (\<lambda>c. (cn_goal_id c, cn_source_goal_revision c, cn_request_fingerprint c)) cs) \<and>
     distinct (map cn_goal_id (filter is_live cs)) \<and> list_all continuation_row_ok cs"

definition insert_continuation :: "scheduled_continuation_row \<Rightarrow> goal_db \<Rightarrow> goal_error + goal_db" where
  "insert_continuation c db =
     (if (\<forall>r \<in> set (db_goals db). gr_id r \<noteq> cn_goal_id c) \<or> \<not> continuations_ok (db_continuations db @ [c])
      then Inl SqlConstraint
      else Inr (db\<lparr>db_continuations := db_continuations db @ [c]\<rparr>))"

text \<open>An UPDATE that may change no row.\<close>

definition patch_continuation ::
  "(scheduled_continuation_row \<Rightarrow> bool) \<Rightarrow> (scheduled_continuation_row \<Rightarrow> scheduled_continuation_row) \<Rightarrow>
   goal_db \<Rightarrow> goal_error + goal_db" where
  "patch_continuation P f db =
     (let cs = row_update P f (db_continuations db) in
      if row_changes P (db_continuations db) \<noteq> 0 \<and> \<not> continuations_ok cs then Inl SqlConstraint
      else Inr (db\<lparr>db_continuations := cs\<rparr>))"

text \<open>The same with the compare-and-swap check behind it.\<close>

definition update_continuation ::
  "(scheduled_continuation_row \<Rightarrow> bool) \<Rightarrow> (scheduled_continuation_row \<Rightarrow> scheduled_continuation_row) \<Rightarrow>
   goal_db \<Rightarrow> goal_error + goal_db" where
  "update_continuation P f db = bind_ok (patch_continuation P f db) (\<lambda>db'.
     if row_changes P (db_continuations db) \<noteq> 1 then Inl conflict else Inr db')"

definition at_version :: "string \<Rightarrow> int \<Rightarrow> scheduled_continuation_row \<Rightarrow> bool" where
  "at_version i v c \<longleftrightarrow> cn_id c = i \<and> cn_version c = v"

definition selectScheduledContinuationById :: "goal_db \<Rightarrow> string \<Rightarrow> scheduled_continuation_row option" where
  "selectScheduledContinuationById db i = row_get (\<lambda>c. cn_id c = i) (db_continuations db)"

definition selectScheduledContinuationByFingerprint ::
  "goal_db \<Rightarrow> string \<Rightarrow> int \<Rightarrow> string \<Rightarrow> scheduled_continuation_row option" where
  "selectScheduledContinuationByFingerprint db goalId revision fingerprint =
     row_get (\<lambda>c. cn_goal_id c = goalId \<and> cn_source_goal_revision c = revision \<and>
       cn_request_fingerprint c = fingerprint) (db_continuations db)"

definition selectLatestScheduledContinuation :: "goal_db \<Rightarrow> string \<Rightarrow> scheduled_continuation_row option" where
  "selectLatestScheduledContinuation db goalId =
     row_latest cn_generation (\<lambda>c. cn_goal_id c = goalId) (db_continuations db)"

text \<open>
  The last updated active goal of a workspace with a live continuation. \<open>prepare\<close> keeps it to one
  goal, so the tie break by identifier is left to the order of the table.
\<close>

definition instant_of :: "iso \<Rightarrow> int" where
  "instant_of t = (case date_parse t of None \<Rightarrow> 0 | Some ms \<Rightarrow> ms)"

definition selectActiveScheduledGoalId :: "goal_db \<Rightarrow> string \<Rightarrow> string option" where
  "selectActiveScheduledGoalId db workspaceId =
     map_option gr_id (row_latest (\<lambda>r. instant_of (gr_updated_at r))
       (\<lambda>r. gr_workspace_id r = workspaceId \<and> gr_status r = Gs_active \<and>
          (\<exists>c \<in> set (db_continuations db). cn_goal_id c = gr_id r \<and> is_live c)) (db_goals db))"

definition nextScheduledContinuationGeneration :: "goal_db \<Rightarrow> string \<Rightarrow> int" where
  "nextScheduledContinuationGeneration db goalId =
     foldr max (map cn_generation (filter (\<lambda>c. cn_goal_id c = goalId) (db_continuations db))) 0 + 1"

definition isWorkspaceActive :: "goal_db \<Rightarrow> string \<Rightarrow> bool" where
  "isWorkspaceActive db workspaceId =
     (case row_get (\<lambda>w. ww_id w = workspaceId) (db_workspaces db) of
        None \<Rightarrow> False | Some w \<Rightarrow> ww_archived_at w = None)"

definition isConfirmedNativeHostRunMode :: "scheduled_continuation_runs_on option \<Rightarrow> bool" where
  "isConfirmedNativeHostRunMode m \<longleftrightarrow> m = Some Sr_cloud \<or> m = Some Sr_unverified"

text \<open>The row has a native task the host confirmed.\<close>

definition confirmed_task :: "scheduled_continuation_row \<Rightarrow> bool" where
  "confirmed_task c \<longleftrightarrow> cn_native_task_id c \<noteq> None \<and> isConfirmedNativeHostRunMode (cn_confirmed_runs_on c)"

section \<open>Preparing\<close>

record prepare_wake_request =
  pw_continuationId :: string
  pw_checkpointId :: string
  pw_goalId :: string
  pw_ownerClientId :: string
  pw_ownerSessionId :: string
  pw_leaseTokenHash :: string
  pw_expectedRevision :: int
  pw_plan :: goal_plan
  pw_currentPhase :: string
  pw_summary :: string
  pw_stepUpdates :: "goal_step_update list"
  pw_nextAction :: string
  pw_blockers :: "string list"
  pw_evidence :: "goal_evidence list"
  pw_activeTaskIds :: "string list"
  pw_trackedTasks :: "goal_tracked_task list option"
  pw_dueAt :: iso
  pw_occurrence :: "scheduled_continuation_occurrence option"
  pw_intervalMinutes :: "int option"
  pw_executionPreference :: scheduled_continuation_execution_preference
  pw_requestFingerprint :: string
  pw_now :: iso

record prepare_wake_result =
  wr_goal :: goal_record
  wr_continuation :: scheduled_continuation_row
  wr_alreadyPrepared :: bool

text \<open>The goal columns a prepare and a refresh set, and their checkpoint.\<close>

definition record_progress ::
  "prepare_wake_request \<Rightarrow> int \<Rightarrow> int \<Rightarrow> iso \<Rightarrow> goal_tracked_task list \<Rightarrow> goal_row \<Rightarrow> goal_row" where
  "record_progress request revision leaseDurationSeconds leaseExpiresAt tasks row =
     row\<lparr>gr_plan := pw_plan request, gr_revision := revision, gr_current_phase := pw_currentPhase request,
       gr_next_action := pw_nextAction request, gr_blockers := pw_blockers request,
       gr_active_task_ids := blockingTaskIds tasks, gr_tracked_tasks := Some tasks,
       gr_lease_owner_client_id := Some (pw_ownerClientId request),
       gr_lease_owner_session_id := Some (pw_ownerSessionId request),
       gr_lease_token_hash := Some (pw_leaseTokenHash request),
       gr_lease_duration_seconds := Some leaseDurationSeconds,
       gr_lease_heartbeat_at := Some (pw_now request), gr_lease_expires_at := Some leaseExpiresAt,
       gr_updated_at := pw_now request\<rparr>"

definition progress_checkpoint ::
  "prepare_wake_request \<Rightarrow> int \<Rightarrow> goal_tracked_task list \<Rightarrow> checkpoint_row" where
  "progress_checkpoint request revision tasks =
     \<lparr>cr_id = pw_checkpointId request, cr_goal_id = pw_goalId request, cr_revision = revision,
      cr_current_phase = pw_currentPhase request, cr_summary = pw_summary request,
      cr_step_updates = pw_stepUpdates request, cr_next_action = pw_nextAction request,
      cr_blockers = pw_blockers request, cr_evidence = pw_evidence request,
      cr_active_task_ids = blockingTaskIds tasks, cr_tracked_tasks = Some tasks,
      cr_created_at = pw_now request\<rparr>"

definition write_progress ::
  "prepare_wake_request \<Rightarrow> int \<Rightarrow> int \<Rightarrow> iso \<Rightarrow> goal_tracked_task list \<Rightarrow> goal_db \<Rightarrow> goal_error + goal_db" where
  "write_progress request revision leaseDurationSeconds leaseExpiresAt tasks db =
     bind_ok (update_goal (\<lambda>r. gr_id r = pw_goalId request \<and> gr_revision r = pw_expectedRevision request \<and>
         gr_lease_token_hash r = Some (pw_leaseTokenHash request) \<and> gr_status r = Gs_active)
       (record_progress request revision leaseDurationSeconds leaseExpiresAt tasks) db)
     (insertCheckpoint (progress_checkpoint request revision tasks))"

definition prepare_result ::
  "goal_db \<Rightarrow> string \<Rightarrow> string \<Rightarrow> bool \<Rightarrow> goal_error + goal_db \<times> prepare_wake_result" where
  "prepare_result db goalId continuationId again =
     bind_ok (requireById db goalId) (\<lambda>goal.
     bind_ok (requireScheduledContinuationById db continuationId) (\<lambda>c.
     Inr (db, \<lparr>wr_goal = goal, wr_continuation = c, wr_alreadyPrepared = again\<rparr>)))"

definition require_future_due :: "iso \<Rightarrow> iso \<Rightarrow> goal_error + unit" where
  "require_future_due dueAt now =
     bind_ok (parse_iso dueAt) (\<lambda>d. bind_ok (parse_iso now) (\<lambda>n. if d \<le> n then Inl conflict else Inr ()))"

text \<open>A repeated request finds its continuation.\<close>

definition prepare_again ::
  "prepare_wake_request \<Rightarrow> goal_record \<Rightarrow> scheduled_continuation_row \<Rightarrow> goal_db \<Rightarrow>
   goal_error + goal_db \<times> prepare_wake_result" where
  "prepare_again request current same db =
     (if \<not> is_live same then Inl conflict
      else if g_status current \<noteq> Gs_active then Inl terminal_goal
      else if g_leaseOwnerClientId current \<noteq> Some (pw_ownerClientId request)
        \<or> g_leaseOwnerSessionId current \<noteq> Some (pw_ownerSessionId request)
        \<or> g_leaseTokenHash current \<noteq> Some (pw_leaseTokenHash request) then Inl lease_invalid
      else bind_ok (require_unexpired (g_leaseExpiresAt current) (pw_now request)) (\<lambda>_.
        bind_ok (toScheduledContinuationRecord same) (\<lambda>c.
        Inr (db, \<lparr>wr_goal = current, wr_continuation = c, wr_alreadyPrepared = True\<rparr>))))"

definition requested_occurrence :: "prepare_wake_request \<Rightarrow> scheduled_continuation_occurrence" where
  "requested_occurrence request = (case pw_occurrence request of None \<Rightarrow> So_once | Some x \<Rightarrow> x)"

definition requested_interval :: "prepare_wake_request \<Rightarrow> goal_error + int option" where
  "requested_interval request = (case requested_occurrence request of
     So_once \<Rightarrow> if pw_intervalMinutes request \<noteq> None then Inl conflict else Inr None
   | So_interval \<Rightarrow>
       let minutes = (case pw_intervalMinutes request of None \<Rightarrow> 60 | Some m \<Rightarrow> m) in
       if minutes \<noteq> 60 then Inl conflict else Inr (Some minutes))"

definition fresh_continuation ::
  "string \<Rightarrow> string \<Rightarrow> string \<Rightarrow> int \<Rightarrow> int \<Rightarrow> scheduled_continuation_occurrence \<Rightarrow> int option \<Rightarrow>
   scheduled_continuation_execution_preference \<Rightarrow> iso \<Rightarrow> string \<Rightarrow> iso \<Rightarrow> scheduled_continuation_row" where
  "fresh_continuation i goalId sessionId generation revision occ minutes preference dueAt fingerprint now =
     \<lparr>cn_id = i, cn_goal_id = goalId, cn_source_session_id = sessionId, cn_generation = generation,
      cn_source_goal_revision = revision, cn_status = Sc_prepared, cn_occurrence = occ,
      cn_interval_minutes = minutes, cn_destination = ''current_chat'', cn_execution_preference = preference,
      cn_confirmed_runs_on = None, cn_due_at = dueAt, cn_native_task_id = None,
      cn_request_fingerprint = fingerprint, cn_version = 0, cn_last_detail = None, cn_created_at = now,
      cn_updated_at = now, cn_claimed_at = None, cn_terminal_at = None, cn_pending_due_at = None,
      cn_reschedule_reason = None, cn_reschedule_count = 0, cn_last_collision_at = None,
      cn_last_rescheduled_at = None, cn_orphan_probe_started_at = None,
      cn_orphan_probe_lease_generation = None, cn_orphan_probe_activity_seq = None,
      cn_orphan_recovery_count = 0\<rparr>"

definition prepare_fresh ::
  "prepare_wake_request \<Rightarrow> goal_record \<Rightarrow> goal_db \<Rightarrow> goal_error + goal_db \<times> prepare_wake_result" where
  "prepare_fresh request current db =
     bind_ok (assertMutableLease current (pw_ownerClientId request) (pw_ownerSessionId request)
       (pw_leaseTokenHash request) (pw_expectedRevision request) (pw_now request)) (\<lambda>_.
     bind_ok (require_future_due (pw_dueAt request) (pw_now request)) (\<lambda>_.
     case g_leaseDurationSeconds current of
       None \<Rightarrow> Inl corrupt
     | Some leaseDurationSeconds \<Rightarrow>
     bind_ok (requested_interval request) (\<lambda>minutes.
     bind_ok (normalizeTrackedTasks (pw_trackedTasks request) (pw_activeTaskIds request)) (\<lambda>tasks.
     bind_ok (addSeconds (pw_now request) leaseDurationSeconds) (\<lambda>natural.
     bind_ok (if requested_occurrence request = So_interval then Inr natural
       else minIso natural (pw_dueAt request)) (\<lambda>leaseExpiresAt.
     bind_ok (write_progress request (g_revision current + 1) leaseDurationSeconds leaseExpiresAt tasks db) (\<lambda>db1.
     bind_ok (insert_continuation (fresh_continuation (pw_continuationId request) (pw_goalId request)
         (pw_ownerSessionId request) (nextScheduledContinuationGeneration db1 (pw_goalId request))
         (pw_expectedRevision request) (requested_occurrence request) minutes
         (pw_executionPreference request) (pw_dueAt request) (pw_requestFingerprint request)
         (pw_now request)) db1) (\<lambda>db2.
     prepare_result db2 (pw_goalId request) (pw_continuationId request) False))))))))"

text \<open>Whether a refresh asks the host for another time.\<close>

definition refresh_retime ::
  "prepare_wake_request \<Rightarrow> scheduled_continuation_row \<Rightarrow> goal_error + bool" where
  "refresh_retime request live =
     (if cn_status live \<noteq> Sc_scheduled then Inr False
      else if \<not> confirmed_task live then Inl corrupt
      else if cn_occurrence live = So_interval
        \<or> cn_occurrence live = So_once \<and> pw_occurrence request = Some So_interval then Inr False
      else bind_ok (require_future_due (cn_due_at live) (pw_now request)) (\<lambda>_.
        bind_ok (parse_iso (cn_due_at live)) (\<lambda>d. bind_ok (parse_iso (pw_dueAt request)) (\<lambda>q.
        Inr (\<bar>d - q\<bar> \<ge> 60 * 1000)))))"

definition refreshLiveScheduledContinuation ::
  "prepare_wake_request \<Rightarrow> goal_record \<Rightarrow> scheduled_continuation_row \<Rightarrow> goal_db \<Rightarrow>
   goal_error + goal_db \<times> prepare_wake_result" where
  "refreshLiveScheduledContinuation request current liveRow db =
     bind_ok (assertMutableLease current (pw_ownerClientId request) (pw_ownerSessionId request)
       (pw_leaseTokenHash request) (pw_expectedRevision request) (pw_now request)) (\<lambda>_.
     bind_ok (require_future_due (pw_dueAt request) (pw_now request)) (\<lambda>_.
     bind_ok (toScheduledContinuationRecord liveRow) (\<lambda>live.
     if cn_status live \<in> {Sc_cancel_required, Sc_cancel_failed, Sc_cancel_uncertain} then Inl conflict
     else case g_leaseDurationSeconds current of
       None \<Rightarrow> Inl corrupt
     | Some leaseDurationSeconds \<Rightarrow>
     bind_ok (refresh_retime request live) (\<lambda>retime.
     bind_ok (normalizeTrackedTasks (pw_trackedTasks request) (pw_activeTaskIds request)) (\<lambda>tasks.
     bind_ok (addSeconds (pw_now request) leaseDurationSeconds) (\<lambda>natural.
     bind_ok (if cn_occurrence live = So_interval then Inr natural
       else minIso natural (if retime then pw_dueAt request
         else (case cn_pending_due_at live of None \<Rightarrow> cn_due_at live | Some t \<Rightarrow> t))) (\<lambda>leaseExpiresAt.
     bind_ok (write_progress request (g_revision current + 1) leaseDurationSeconds leaseExpiresAt tasks db) (\<lambda>db1.
     bind_ok (if retime then update_continuation
         (\<lambda>c. at_version (cn_id live) (cn_version live) c \<and> cn_status c = Sc_scheduled)
         (\<lambda>c. c\<lparr>cn_status := Sc_reschedule_required, cn_pending_due_at := Some (pw_dueAt request),
            cn_reschedule_reason := None, cn_version := cn_version c + 1, cn_updated_at := pw_now request,
            cn_terminal_at := None, cn_last_detail := Some
              ''Single-Live Watchdog retime requested from the latest durable checkpoint''\<rparr>) db1
       else Inr db1) (\<lambda>db2.
     prepare_result db2 (pw_goalId request) (cn_id live) True)))))))))"

definition prepareScheduledContinuation ::
  "prepare_wake_request \<Rightarrow> goal_db \<Rightarrow> goal_error + goal_db \<times> prepare_wake_result" where
  "prepareScheduledContinuation request db =
     bind_ok (requireById db (pw_goalId request)) (\<lambda>current.
     case selectScheduledContinuationByFingerprint db (pw_goalId request) (pw_expectedRevision request)
         (pw_requestFingerprint request) of
       Some same \<Rightarrow> prepare_again request current same db
     | None \<Rightarrow>
         bind_ok (case selectActiveScheduledGoalId db (g_workspaceId current) of
            Some other \<Rightarrow> if other \<noteq> pw_goalId request then Inl conflict else Inr ()
          | None \<Rightarrow> Inr ()) (\<lambda>_.
         case selectLiveScheduledContinuation db (pw_goalId request) of
           Some live \<Rightarrow> refreshLiveScheduledContinuation request current live db
         | None \<Rightarrow> prepare_fresh request current db))"

section \<open>Receipts of the host\<close>

datatype receipt_outcome =
  Rc_created | Rc_create_failed | Rc_create_uncertain | Rc_rescheduled | Rc_reschedule_failed
| Rc_reschedule_uncertain | Rc_consumed | Rc_cancelled | Rc_cancel_failed | Rc_cancel_uncertain

record native_run_receipt =
  nrn_provider :: string
  nrn_operation :: string
  nrn_nativeTaskId :: string
  nrn_state :: string
  nrn_observedAt :: iso

record native_cancellation_receipt =
  ncn_provider :: string
  ncn_operation :: string
  ncn_nativeTaskId :: string
  ncn_state :: string
  ncn_observedAt :: iso

record user_cancellation_receipt =
  ucn_source :: string
  ucn_nativeTaskId :: string
  ucn_action :: string
  ucn_observedAt :: iso

record wake_receipt_request =
  wt_continuationId :: string
  wt_expectedVersion :: int
  wt_outcome :: receipt_outcome
  wt_nativeTaskId :: "string option"
  wt_dueAt :: "iso option"
  wt_runsOn :: "scheduled_continuation_runs_on option"
  wt_nativeRun :: "native_run_receipt option"
  wt_nativeCancellation :: "native_cancellation_receipt option"
  wt_userCancellation :: "user_cancellation_receipt option"
  wt_detail :: "string option"
  wt_now :: iso

fun receiptStatus :: "receipt_outcome \<Rightarrow> scheduled_continuation_status" where
  "receiptStatus Rc_created = Sc_scheduled"
| "receiptStatus Rc_rescheduled = Sc_scheduled"
| "receiptStatus Rc_consumed = Sc_superseded"
| "receiptStatus Rc_create_failed = Sc_create_failed"
| "receiptStatus Rc_create_uncertain = Sc_create_uncertain"
| "receiptStatus Rc_reschedule_failed = Sc_reschedule_failed"
| "receiptStatus Rc_reschedule_uncertain = Sc_reschedule_uncertain"
| "receiptStatus Rc_cancelled = Sc_cancelled"
| "receiptStatus Rc_cancel_failed = Sc_cancel_failed"
| "receiptStatus Rc_cancel_uncertain = Sc_cancel_uncertain"

definition SCHEDULE_RECEIPT_TIME_TOLERANCE_MS :: int where
  "SCHEDULE_RECEIPT_TIME_TOLERANCE_MS = 1000"

definition sameScheduledInstant :: "iso \<Rightarrow> iso \<Rightarrow> goal_error + bool" where
  "sameScheduledInstant left right = bind_ok (parse_iso left) (\<lambda>a. bind_ok (parse_iso right) (\<lambda>b.
     Inr (\<bar>a - b\<bar> \<le> SCHEDULE_RECEIPT_TIME_TOLERANCE_MS)))"

text \<open>\<open>Date.parse(a) < Date.parse(b)\<close>, false when one of them is not a date.\<close>

definition predates :: "iso \<Rightarrow> iso \<Rightarrow> bool" where
  "predates a b = (case (date_parse a, date_parse b) of (Some x, Some y) \<Rightarrow> x < y | _ \<Rightarrow> False)"

text \<open>The columns a receipt may change.\<close>

record receipt_change =
  rx_status :: scheduled_continuation_status
  rx_native :: "string option"
  rx_due :: iso
  rx_pending :: "iso option"
  rx_reason :: "scheduled_continuation_reschedule_reason option"
  rx_count :: int
  rx_last :: "iso option"

definition unchanged_columns ::
  "scheduled_continuation_row \<Rightarrow> scheduled_continuation_status \<Rightarrow> receipt_change" where
  "unchanged_columns row status = \<lparr>rx_status = status, rx_native = cn_native_task_id row,
     rx_due = cn_due_at row, rx_pending = cn_pending_due_at row, rx_reason = cn_reschedule_reason row,
     rx_count = cn_reschedule_count row, rx_last = cn_last_rescheduled_at row\<rparr>"

text \<open>\<open>None\<close>: the receipt was recorded before and the row is answered as it is.\<close>

definition receipt_created ::
  "wake_receipt_request \<Rightarrow> scheduled_continuation_row \<Rightarrow> goal_error + receipt_change option" where
  "receipt_created request row =
     (case wt_nativeTaskId request of
        None \<Rightarrow> Inl conflict
      | Some native \<Rightarrow>
          if length native = 0 \<or> \<not> isConfirmedNativeHostRunMode (wt_runsOn request) then Inl conflict
          else (case wt_dueAt request of
            None \<Rightarrow> Inl conflict
          | Some due \<Rightarrow> bind_ok (sameScheduledInstant due (cn_due_at row)) (\<lambda>same.
              if \<not> same then Inl conflict
              else if cn_native_task_id row \<noteq> None \<and> cn_native_task_id row \<noteq> Some native then Inl conflict
              else if cn_native_task_id row = Some native \<and> cn_status row = Sc_scheduled
                \<and> isConfirmedNativeHostRunMode (cn_confirmed_runs_on row) then Inr None
              else if cn_status row \<notin> {Sc_prepared, Sc_create_failed, Sc_create_uncertain} then Inl conflict
              else Inr (Some ((unchanged_columns row Sc_scheduled)\<lparr>rx_native := Some native\<rparr>)))))"

definition receipt_rescheduled ::
  "wake_receipt_request \<Rightarrow> scheduled_continuation_row \<Rightarrow> goal_error + receipt_change option" where
  "receipt_rescheduled request row =
     (let expected = (case cn_pending_due_at row of None \<Rightarrow> cn_due_at row | Some t \<Rightarrow> t) in
      case wt_dueAt request of
        None \<Rightarrow> Inl conflict
      | Some due \<Rightarrow>
          if cn_native_task_id row = None \<or> wt_nativeTaskId request \<noteq> cn_native_task_id row then Inl conflict
          else bind_ok (sameScheduledInstant due expected) (\<lambda>same.
            if \<not> same then Inl conflict
            else if \<not> (cn_pending_due_at row \<noteq> None \<and> cn_status row \<in>
                {Sc_reschedule_required, Sc_reschedule_failed, Sc_reschedule_uncertain})
              \<and> \<not> (cn_pending_due_at row = None \<and> cn_status row = Sc_scheduled) then Inl conflict
            else Inr (Some ((unchanged_columns row Sc_scheduled)\<lparr>rx_due := expected, rx_pending := None,
              rx_reason := None, rx_count := cn_reschedule_count row + 1, rx_last := Some (wt_now request)\<rparr>))))"

definition receipt_reschedule_failed ::
  "wake_receipt_request \<Rightarrow> scheduled_continuation_row \<Rightarrow> goal_error + receipt_change option" where
  "receipt_reschedule_failed request row =
     (if cn_native_task_id row = None \<or> cn_pending_due_at row = None then Inl conflict
      else if wt_nativeTaskId request \<noteq> None \<and> wt_nativeTaskId request \<noteq> cn_native_task_id row then Inl conflict
      else if wt_dueAt request \<noteq> None \<and> wt_dueAt request \<noteq> cn_pending_due_at row then Inl conflict
      else Inr (Some (unchanged_columns row (receiptStatus (wt_outcome request)))))"

definition receipt_consumed ::
  "wake_receipt_request \<Rightarrow> scheduled_continuation_row \<Rightarrow> goal_error + receipt_change option" where
  "receipt_consumed request row =
     (if cn_occurrence row = So_interval then Inl conflict
      else case wt_nativeRun request of
        None \<Rightarrow> Inl conflict
      | Some run \<Rightarrow>
          if cn_native_task_id row = None \<or> nrn_provider run \<noteq> ''chatgpt_scheduled_task''
            \<or> nrn_operation run \<noteq> ''run'' \<or> Some (nrn_nativeTaskId run) \<noteq> cn_native_task_id row
            \<or> nrn_state run \<noteq> ''consumed'' then Inl conflict
          else if cn_status row \<notin> {Sc_scheduled, Sc_create_uncertain, Sc_reschedule_required,
              Sc_reschedule_failed, Sc_reschedule_uncertain, Sc_cancel_required, Sc_cancel_failed,
              Sc_cancel_uncertain} then Inl conflict
          else if \<not> validate_iso (nrn_observedAt run) then Inl corrupt
          else if predates (nrn_observedAt run) (cn_created_at row) then Inl conflict
          else Inr (Some ((unchanged_columns row Sc_superseded)\<lparr>rx_pending := None, rx_reason := None\<rparr>)))"

definition proves_not_runnable :: "string option \<Rightarrow> native_cancellation_receipt \<Rightarrow> bool" where
  "proves_not_runnable native n \<longleftrightarrow> ncn_provider n = ''chatgpt_scheduled_task'' \<and>
     Some (ncn_nativeTaskId n) = native \<and>
     (ncn_operation n = ''delete'' \<and> (ncn_state n = ''deleted'' \<or> ncn_state n = ''not_found'')
      \<or> ncn_operation n = ''disable'' \<and> ncn_state n = ''disabled'')"

definition proves_user_deletion :: "string option \<Rightarrow> user_cancellation_receipt \<Rightarrow> bool" where
  "proves_user_deletion native u \<longleftrightarrow> ucn_source u = ''user_confirmation'' \<and>
     Some (ucn_nativeTaskId u) = native \<and> ucn_action u = ''deleted_in_chatgpt_scheduled_tasks_ui''"

definition receipt_cancelled ::
  "wake_receipt_request \<Rightarrow> goal_record \<Rightarrow> scheduled_continuation_row \<Rightarrow> goal_error + receipt_change option" where
  "receipt_cancelled request goal row =
     (if cn_status row \<notin> {Sc_cancel_required, Sc_cancel_failed, Sc_cancel_uncertain} then Inl conflict
      else if cn_native_task_id row = None \<or> wt_nativeTaskId request \<noteq> cn_native_task_id row then Inl conflict
      else let change = Some (unchanged_columns row Sc_cancelled) in
        case (wt_nativeCancellation request, wt_userCancellation request) of
          (Some _, Some _) \<Rightarrow> Inl conflict
        | (None, None) \<Rightarrow> Inl conflict
        | (Some n, None) \<Rightarrow>
            if \<not> proves_not_runnable (cn_native_task_id row) n then Inl conflict
            else if \<not> validate_iso (ncn_observedAt n) then Inl corrupt
            else if predates (ncn_observedAt n) (cn_created_at row) then Inl conflict
            else if (case g_terminalAt goal of None \<Rightarrow> False | Some t \<Rightarrow> predates (ncn_observedAt n) t)
            then Inl conflict else Inr change
        | (None, Some u) \<Rightarrow>
            if \<not> proves_user_deletion (cn_native_task_id row) u then Inl conflict
            else if \<not> validate_iso (ucn_observedAt u) then Inl corrupt
            else if predates (ucn_observedAt u) (cn_created_at row) then Inl conflict
            else Inr change)"

definition receipt_cancel_failed ::
  "wake_receipt_request \<Rightarrow> scheduled_continuation_row \<Rightarrow> goal_error + receipt_change option" where
  "receipt_cancel_failed request row =
     (if cn_status row \<notin> {Sc_cancel_required, Sc_cancel_failed, Sc_cancel_uncertain} then Inl conflict
      else if wt_nativeTaskId request \<noteq> None \<and> cn_native_task_id row \<noteq> wt_nativeTaskId request then Inl conflict
      else Inr (Some (unchanged_columns row (receiptStatus (wt_outcome request)))))"

definition receipt_create_failed ::
  "wake_receipt_request \<Rightarrow> scheduled_continuation_row \<Rightarrow> goal_error + receipt_change option" where
  "receipt_create_failed request row =
     (let change = unchanged_columns row (receiptStatus (wt_outcome request)) in
      case wt_nativeTaskId request of
        None \<Rightarrow> Inr (Some change)
      | Some native \<Rightarrow>
          if cn_native_task_id row \<noteq> None \<and> cn_native_task_id row \<noteq> Some native then Inl conflict
          else Inr (Some (change\<lparr>rx_native := Some native\<rparr>)))"

definition receipt_effect ::
  "wake_receipt_request \<Rightarrow> goal_record \<Rightarrow> scheduled_continuation_row \<Rightarrow> goal_error + receipt_change option" where
  "receipt_effect request goal row = (case wt_outcome request of
     Rc_created \<Rightarrow> receipt_created request row
   | Rc_rescheduled \<Rightarrow> receipt_rescheduled request row
   | Rc_reschedule_failed \<Rightarrow> receipt_reschedule_failed request row
   | Rc_reschedule_uncertain \<Rightarrow> receipt_reschedule_failed request row
   | Rc_consumed \<Rightarrow> receipt_consumed request row
   | Rc_cancelled \<Rightarrow> receipt_cancelled request goal row
   | Rc_cancel_failed \<Rightarrow> receipt_cancel_failed request row
   | Rc_cancel_uncertain \<Rightarrow> receipt_cancel_failed request row
   | Rc_create_failed \<Rightarrow> receipt_create_failed request row
   | Rc_create_uncertain \<Rightarrow> receipt_create_failed request row)"

definition apply_receipt ::
  "wake_receipt_request \<Rightarrow> receipt_change \<Rightarrow> scheduled_continuation_row \<Rightarrow> scheduled_continuation_row" where
  "apply_receipt request x c = c\<lparr>cn_status := rx_status x,
     cn_confirmed_runs_on := (case wt_runsOn request of None \<Rightarrow> cn_confirmed_runs_on c | Some m \<Rightarrow> Some m),
     cn_native_task_id := rx_native x, cn_due_at := rx_due x, cn_pending_due_at := rx_pending x,
     cn_reschedule_reason := rx_reason x, cn_reschedule_count := rx_count x,
     cn_last_rescheduled_at := rx_last x, cn_version := cn_version c + 1,
     cn_last_detail := wt_detail request, cn_updated_at := wt_now request,
     cn_terminal_at := (if isLiveScheduledStatus (rx_status x) then None else Some (wt_now request))\<rparr>"

definition with_continuation ::
  "string \<Rightarrow> goal_db \<Rightarrow> goal_error + goal_db \<times> scheduled_continuation_row" where
  "with_continuation i db = bind_ok (requireScheduledContinuationById db i) (\<lambda>c. Inr (db, c))"

definition recordScheduledContinuationReceipt ::
  "wake_receipt_request \<Rightarrow> goal_db \<Rightarrow> goal_error + goal_db \<times> scheduled_continuation_row" where
  "recordScheduledContinuationReceipt request db =
     (case selectScheduledContinuationById db (wt_continuationId request) of
        None \<Rightarrow> Inl not_found
      | Some row \<Rightarrow>
          bind_ok (requireById db (cn_goal_id row)) (\<lambda>goal.
          if cn_version row \<noteq> wt_expectedVersion request then Inl conflict
          else bind_ok (receipt_effect request goal row) (\<lambda>effect.
            case effect of
              None \<Rightarrow> bind_ok (toScheduledContinuationRecord row) (\<lambda>c. Inr (db, c))
            | Some x \<Rightarrow>
                bind_ok (update_continuation
                  (at_version (wt_continuationId request) (wt_expectedVersion request))
                  (apply_receipt request x) db)
                (with_continuation (wt_continuationId request)))))"

section \<open>Cancelling\<close>

datatype cancel_target = By_continuation string | Latest_of_goal string

datatype cancellation_outcome =
  Co_cleanup_required | Co_cancelled | Co_already_cancelled | Co_already_fired | Co_native_task_unverified

text \<open>The status and the answer of a cancellation that is not settled yet.\<close>

definition cancel_decision ::
  "scheduled_continuation_row \<Rightarrow> scheduled_continuation_status \<times> cancellation_outcome" where
  "cancel_decision c =
     (if cn_native_task_id c \<noteq> None \<and> cn_status c \<in> {Sc_scheduled, Sc_create_uncertain,
         Sc_reschedule_required, Sc_reschedule_failed, Sc_reschedule_uncertain}
      then (Sc_cancel_required, Co_cleanup_required)
      else if cn_native_task_id c = None \<and> cn_status c \<in> {Sc_prepared, Sc_create_failed}
      then (Sc_superseded, Co_cancelled)
      else (Sc_cancel_uncertain, Co_native_task_unverified))"

definition cancelScheduledContinuation ::
  "cancel_target \<Rightarrow> int \<Rightarrow> iso \<Rightarrow> goal_db \<Rightarrow>
   goal_error + goal_db \<times> (cancellation_outcome \<times> scheduled_continuation_row)" where
  "cancelScheduledContinuation target expectedVersion now db =
     (case (case target of By_continuation i \<Rightarrow> selectScheduledContinuationById db i
          | Latest_of_goal g \<Rightarrow> selectLatestScheduledContinuation db g) of
        None \<Rightarrow> Inl not_found
      | Some row \<Rightarrow>
          bind_ok (toScheduledContinuationRecord row) (\<lambda>c.
          if cn_version c \<noteq> expectedVersion then Inl conflict
          else if cn_status c \<in> {Sc_cancelled, Sc_superseded} then Inr (db, (Co_already_cancelled, c))
          else if cn_status c \<in> {Sc_claimed, Sc_terminal_noop} then Inr (db, (Co_already_fired, c))
          else if cn_status c = Sc_cancel_required \<and> cn_native_task_id c \<noteq> None
          then Inr (db, (Co_cleanup_required, c))
          else if cn_status c \<in> {Sc_cancel_failed, Sc_cancel_uncertain} \<and> cn_native_task_id c \<noteq> None
          then bind_ok (update_continuation (at_version (cn_id c) (cn_version c))
              (\<lambda>x. x\<lparr>cn_status := Sc_cancel_required, cn_version := cn_version x + 1,
                 cn_updated_at := now, cn_terminal_at := None\<rparr>) db) (\<lambda>db1.
            bind_ok (requireScheduledContinuationById db1 (cn_id c)) (\<lambda>c'.
            Inr (db1, (Co_cleanup_required, c'))))
          else let (nextStatus, answer) = cancel_decision c in
            bind_ok (update_continuation (at_version (cn_id c) (cn_version c))
              (\<lambda>x. x\<lparr>cn_status := nextStatus, cn_version := cn_version x + 1, cn_updated_at := now,
                 cn_terminal_at := (if isLiveScheduledStatus nextStatus then None else Some now),
                 cn_last_detail := Some ''Cancellation requested by the goal owner''\<rparr>) db) (\<lambda>db1.
            bind_ok (requireScheduledContinuationById db1 (cn_id c)) (\<lambda>c'.
            Inr (db1, (answer, c'))))))"

section \<open>Reading\<close>

definition read_continuation ::
  "scheduled_continuation_row option \<Rightarrow> goal_error + scheduled_continuation_row option" where
  "read_continuation row = (case row of
     None \<Rightarrow> Inr None | Some r \<Rightarrow> bind_ok (toScheduledContinuationRecord r) (\<lambda>c. Inr (Some c)))"

definition getScheduledContinuation ::
  "cancel_target \<Rightarrow> goal_db \<Rightarrow> goal_error + scheduled_continuation_row option" where
  "getScheduledContinuation target db = read_continuation (case target of
     By_continuation i \<Rightarrow> selectScheduledContinuationById db i
   | Latest_of_goal g \<Rightarrow> selectLatestScheduledContinuation db g)"

definition getLiveScheduledContinuation ::
  "string \<Rightarrow> goal_db \<Rightarrow> goal_error + scheduled_continuation_row option" where
  "getLiveScheduledContinuation goalId db = read_continuation (selectLiveScheduledContinuation db goalId)"

section \<open>Expediting\<close>

definition EXPEDITE_MIN_SECONDS :: int where "EXPEDITE_MIN_SECONDS = 120"

definition EXPEDITE_MAX_SECONDS :: int where "EXPEDITE_MAX_SECONDS = 5 * 60"

record expedite_request =
  ew_goalId :: string
  ew_continuationId :: string
  ew_ownerClientId :: string
  ew_ownerSessionId :: string
  ew_leaseTokenHash :: string
  ew_expectedLeaseGeneration :: int
  ew_expectedGoalRevision :: int
  ew_expectedContinuationVersion :: int
  ew_reason :: scheduled_continuation_expedite_reason
  ew_dueAt :: iso
  ew_now :: iso

text \<open>The answer: whether the host has to update the task.\<close>

definition expedite_due ::
  "expedite_request \<Rightarrow> goal_record \<Rightarrow> scheduled_continuation_row \<Rightarrow> goal_db \<Rightarrow>
   goal_error + goal_db \<times> (bool \<times> goal_record \<times> scheduled_continuation_row)" where
  "expedite_due request goal c db =
     bind_ok (parse_iso (ew_dueAt request)) (\<lambda>due. bind_ok (parse_iso (ew_now request)) (\<lambda>now.
     let delay = ceil_div_1000 (due - now) in
     if delay < EXPEDITE_MIN_SECONDS \<or> delay > EXPEDITE_MAX_SECONDS then Inl conflict
     else bind_ok (parse_iso (cn_due_at c)) (\<lambda>current.
       if current \<le> due then Inr (db, (False, goal, c))
       else bind_ok (update_continuation
           (\<lambda>x. at_version (cn_id c) (cn_version c) x \<and> cn_status x = Sc_scheduled)
           (\<lambda>x. x\<lparr>cn_status := Sc_reschedule_required, cn_pending_due_at := Some (ew_dueAt request),
              cn_reschedule_reason := Some (Sy_expedite (ew_reason request)),
              cn_version := cn_version x + 1, cn_updated_at := ew_now request\<rparr>) db) (\<lambda>db1.
         bind_ok (requireById db1 (g_id goal)) (\<lambda>goal'.
         bind_ok (requireScheduledContinuationById db1 (cn_id c)) (\<lambda>c'.
         Inr (db1, (True, goal', c'))))))))"

definition expediteScheduledContinuation ::
  "expedite_request \<Rightarrow> goal_db \<Rightarrow>
   goal_error + goal_db \<times> (bool \<times> goal_record \<times> scheduled_continuation_row)" where
  "expediteScheduledContinuation request db =
     (case selectScheduledContinuationById db (ew_continuationId request) of
        None \<Rightarrow> Inl not_found
      | Some row \<Rightarrow>
          if cn_goal_id row \<noteq> ew_goalId request then Inl conflict
          else bind_ok (requireById db (ew_goalId request)) (\<lambda>goal.
          bind_ok (assertMutableLease goal (ew_ownerClientId request) (ew_ownerSessionId request)
            (ew_leaseTokenHash request) (ew_expectedGoalRevision request) (ew_now request)) (\<lambda>_.
          if g_leaseGeneration goal \<noteq> ew_expectedLeaseGeneration request then Inl conflict
          else if cn_version row \<noteq> ew_expectedContinuationVersion request then Inl conflict
          else bind_ok (toScheduledContinuationRecord row) (\<lambda>c.
          if cn_status c \<in> {Sc_reschedule_required, Sc_reschedule_failed, Sc_reschedule_uncertain}
          then (if cn_pending_due_at c = None \<or> cn_native_task_id c = None then Inl corrupt
            else Inr (db, (True, goal, c)))
          else if cn_status c \<noteq> Sc_scheduled then Inl conflict
          else if \<not> confirmed_task c then Inl conflict
          else expedite_due request goal c db))))"

text \<open>The continuation that fences the mutations of a workspace, with its goal.\<close>

definition getWorkspaceMutationFence ::
  "goal_db \<Rightarrow> string \<Rightarrow> goal_error + (goal_record \<times> scheduled_continuation_row) option" where
  "getWorkspaceMutationFence db workspaceId =
     (case row_latest cn_generation (\<lambda>c. cn_status c \<in> {Sc_prepared, Sc_scheduled, Sc_create_uncertain,
          Sc_reschedule_required, Sc_reschedule_failed, Sc_reschedule_uncertain} \<and>
          (\<exists>r \<in> set (db_goals db). gr_id r = cn_goal_id c \<and> gr_workspace_id r = workspaceId
            \<and> gr_status r = Gs_active)) (db_continuations db) of
        None \<Rightarrow> Inr None
      | Some c \<Rightarrow> bind_ok (requireById db (cn_goal_id c)) (\<lambda>goal.
          bind_ok (requireScheduledContinuationById db (cn_id c)) (\<lambda>c'. Inr (Some (goal, c')))))"

end
