(* ===== verification/Goal_Wake_Claim.thy ===== *)
theory Goal_Wake_Claim
  imports Goal_Wake
begin

text \<open>
  Scheduled continuations, part two (packages/storage/src/goal-repository.ts): claiming a wake that
  fired. A one-time wake is used up by its claim: it hands the goal's lease to the new worker, or it
  collides with a worker that may still live, and in both cases a successor wake is reserved. A
  recurring wake keeps its task and records one run per hour. The hash \<open>sha256\<close> (hex digest) is an
  argument.
\<close>

definition ORPHAN_PROBE_MIN_SECONDS :: int where "ORPHAN_PROBE_MIN_SECONDS = 120"

definition CLAIM_SUCCESSOR_MIN_SECONDS :: int where "CLAIM_SUCCESSOR_MIN_SECONDS = 120"

definition COLLISION_SUCCESSOR_MIN_SECONDS :: int where "COLLISION_SUCCESSOR_MIN_SECONDS = 240"

definition COLLISION_SUCCESSOR_MAX_SECONDS :: int where "COLLISION_SUCCESSOR_MAX_SECONDS = 25 * 60"

record claim_wake_request =
  kw_continuationId :: string
  kw_ownerClientId :: string
  kw_ownerSessionId :: string
  kw_leaseTokenHash :: string
  kw_leaseSeconds :: int
  kw_earlyToleranceSeconds :: "int option"
  kw_liveness :: "goal_worker_liveness_evidence option"
  kw_claimSuccessorId :: string
  kw_claimSuccessorDueAt :: iso
  kw_claimSuccessorRequestFingerprint :: string
  kw_now :: iso

datatype acquisition = Aq_normal | Aq_expired_lease | Aq_orphan_recovered

datatype successor_disposition =
  Sd_freshly_reserved | Sd_existing_unconfirmed | Sd_retryable_failed_create | Sd_refreshed_failed_create

datatype claim_result =
  Claim_acquired acquisition goal_record scheduled_continuation_row scheduled_continuation_row
| Claim_recurring_acquired acquisition goal_record scheduled_continuation_row string
| Claim_worker_busy goal_record scheduled_continuation_row string int
| Claim_cleanup_required goal_record scheduled_continuation_row string
| Claim_successor_required goal_record scheduled_continuation_row scheduled_continuation_row
    successor_disposition int
| Claim_receipt_required goal_record scheduled_continuation_row
| Claim_already_claimed goal_record scheduled_continuation_row
| Claim_terminal_noop goal_record scheduled_continuation_row
| Claim_not_due goal_record scheduled_continuation_row int

section \<open>Times\<close>

definition secondsBetween :: "iso \<Rightarrow> iso \<Rightarrow> goal_error + int" where
  "secondsBetween since due = bind_ok (parse_iso due) (\<lambda>b. bind_ok (parse_iso since) (\<lambda>a.
     Inr (max 1 (ceil_div_1000 (b - a)))))"

text \<open>
  The tolerance for a wake that fires early. The service passes a constant number of seconds; the
  one-time claim still checks its range.
\<close>

definition early_tolerance :: "claim_wake_request \<Rightarrow> int" where
  "early_tolerance request = (case kw_earlyToleranceSeconds request of None \<Rightarrow> 0 | Some n \<Rightarrow> n)"

definition remaining_lease_seconds :: "goal_record \<Rightarrow> int \<Rightarrow> goal_error + int" where
  "remaining_lease_seconds goal nowMs = (case g_leaseExpiresAt goal of
     None \<Rightarrow> Inr 0
   | Some t \<Rightarrow> bind_ok (parse_iso t) (\<lambda>e. Inr (max 0 (ceil_div_1000 (e - nowMs)))))"

text \<open>The delay of a collision successor.\<close>

definition adaptiveCollisionSuccessorSeconds ::
  "claim_wake_request \<Rightarrow> scheduled_continuation_row \<Rightarrow> goal_record \<Rightarrow> bool \<Rightarrow> goal_error + int" where
  "adaptiveCollisionSuccessorSeconds request c goal probing =
     bind_ok (parse_iso (kw_now request)) (\<lambda>nowMs.
     bind_ok (remaining_lease_seconds goal nowMs) (\<lambda>remaining.
     let tolerance = early_tolerance request;
         exponent = nat (min (max (cn_reschedule_count c) 0) 3);
         backoff = min COLLISION_SUCCESSOR_MAX_SECONDS (COLLISION_SUCCESSOR_MIN_SECONDS * 2 ^ exponent);
         probeFloor = (if probing then ORPHAN_PROBE_MIN_SECONDS + tolerance else 0);
         leaseAligned = (if remaining > 0 then remaining + tolerance else 0);
         adaptiveFloor = (if probing
           then max COLLISION_SUCCESSOR_MIN_SECONDS (max backoff probeFloor)
           else max COLLISION_SUCCESSOR_MIN_SECONDS (max backoff leaseAligned))
     in Inr (min COLLISION_SUCCESSOR_MAX_SECONDS adaptiveFloor)))"

section \<open>The successor of a claimed wake\<close>

definition capGoalLeaseAtClaimSuccessor ::
  "goal_record \<Rightarrow> iso \<Rightarrow> iso \<Rightarrow> bool \<Rightarrow> goal_db \<Rightarrow> goal_error + goal_db" where
  "capGoalLeaseAtClaimSuccessor goal dueAt now required db = (case g_leaseExpiresAt goal of
     None \<Rightarrow> if required then Inl corrupt else Inr db
   | Some e \<Rightarrow> bind_ok (minIso e dueAt) (\<lambda>capped.
       update_goal (\<lambda>r. gr_id r = g_id goal \<and> gr_status r = Gs_active \<and> gr_revision r = g_revision goal
           \<and> gr_lease_generation r = g_leaseGeneration goal)
         (\<lambda>r. r\<lparr>gr_lease_expires_at := Some capped, gr_updated_at := now\<rparr>) db))"

definition assertClaimSuccessorInvariant ::
  "claim_wake_request \<Rightarrow> scheduled_continuation_row \<Rightarrow> goal_record \<Rightarrow> scheduled_continuation_row \<Rightarrow>
   string \<Rightarrow> goal_error + unit" where
  "assertClaimSuccessorInvariant request c goal successor fingerprint =
     (if cn_goal_id successor \<noteq> g_id goal \<or> cn_id successor \<noteq> kw_claimSuccessorId request
        \<or> cn_generation successor \<noteq> cn_generation c + 1
        \<or> cn_request_fingerprint successor \<noteq> fingerprint
        \<or> cn_source_goal_revision successor < cn_source_goal_revision c
        \<or> cn_source_goal_revision successor > g_revision goal
        \<or> cn_status successor \<notin> {Sc_prepared, Sc_create_failed, Sc_create_uncertain} then Inl conflict
      else bind_ok (parse_iso (cn_due_at successor)) (\<lambda>_. Inr ()))"

definition successor_delay_ok :: "iso \<Rightarrow> iso \<Rightarrow> goal_error + unit" where
  "successor_delay_ok dueAt now = bind_ok (parse_iso dueAt) (\<lambda>d. bind_ok (parse_iso now) (\<lambda>n.
     let delay = ceil_div_1000 (d - n) in
     if delay < CLAIM_SUCCESSOR_MIN_SECONDS \<or> delay > COLLISION_SUCCESSOR_MAX_SECONDS then Inl conflict
     else Inr ()))"

type_synonym reserved = "goal_db \<times> (scheduled_continuation_row \<times> successor_disposition)"

definition refreshUnconfirmedClaimSuccessorIfStale ::
  "claim_wake_request \<Rightarrow> goal_record \<Rightarrow> scheduled_continuation_row \<Rightarrow> bool \<Rightarrow> goal_db \<Rightarrow> goal_error + reserved" where
  "refreshUnconfirmedClaimSuccessorIfStale request goal successor required db =
     (if cn_native_task_id successor = None \<and> cn_status successor = Sc_create_failed then
        bind_ok (parse_iso (cn_due_at successor)) (\<lambda>d. bind_ok (parse_iso (kw_now request)) (\<lambda>n.
        if d > n then
          bind_ok (capGoalLeaseAtClaimSuccessor goal (cn_due_at successor) (kw_now request) required db) (\<lambda>db1.
          Inr (db1, (successor, Sd_retryable_failed_create)))
        else
          bind_ok (successor_delay_ok (kw_claimSuccessorDueAt request) (kw_now request)) (\<lambda>_.
          bind_ok (update_continuation
              (\<lambda>x. at_version (cn_id successor) (cn_version successor) x \<and> cn_native_task_id x = None
                 \<and> cn_status x = Sc_create_failed)
              (\<lambda>x. x\<lparr>cn_status := Sc_prepared, cn_due_at := kw_claimSuccessorDueAt request,
                 cn_version := cn_version x + 1, cn_updated_at := kw_now request, cn_last_detail := Some
                 ''Truthfully failed claimed successor creation refreshed to the current adaptive retry deadline''\<rparr>)
              db) (\<lambda>db1.
          bind_ok (capGoalLeaseAtClaimSuccessor goal (kw_claimSuccessorDueAt request) (kw_now request) required db1) (\<lambda>db2.
          bind_ok (requireScheduledContinuationById db2 (cn_id successor)) (\<lambda>s.
          Inr (db2, (s, Sd_refreshed_failed_create))))))))
      else
        bind_ok (capGoalLeaseAtClaimSuccessor goal (cn_due_at successor) (kw_now request) required db) (\<lambda>db1.
        Inr (db1, (successor, Sd_existing_unconfirmed))))"

definition adopt_successor ::
  "claim_wake_request \<Rightarrow> scheduled_continuation_row \<Rightarrow> goal_record \<Rightarrow> scheduled_continuation_row \<Rightarrow> string \<Rightarrow>
   bool \<Rightarrow> goal_db \<Rightarrow> goal_error + reserved" where
  "adopt_successor request c goal row fingerprint required db =
     bind_ok (toScheduledContinuationRecord row) (\<lambda>s.
     bind_ok (assertClaimSuccessorInvariant request c goal s fingerprint) (\<lambda>_.
     refreshUnconfirmedClaimSuccessorIfStale request goal s required db))"

text \<open>\<open>Math.ceil(leaseSeconds / 60)\<close> minutes, between the two bounds.\<close>

definition lease_aligned_minutes :: "int \<Rightarrow> int" where
  "lease_aligned_minutes leaseSeconds = min (COLLISION_SUCCESSOR_MAX_SECONDS div 60)
     (max (CLAIM_SUCCESSOR_MIN_SECONDS div 60) (- ((- leaseSeconds) div 60)))"

definition lease_aligned_due :: "claim_wake_request \<Rightarrow> goal_error + unit" where
  "lease_aligned_due request =
     bind_ok (addSeconds (kw_now request) (lease_aligned_minutes (kw_leaseSeconds request) * 60)) (\<lambda>expected.
     if kw_claimSuccessorDueAt request \<noteq> expected then Inl conflict else Inr ())"

definition successor_row ::
  "claim_wake_request \<Rightarrow> scheduled_continuation_row \<Rightarrow> goal_record \<Rightarrow> string \<Rightarrow> int \<Rightarrow> string \<Rightarrow> scheduled_continuation_row" where
  "successor_row request c goal i generation fingerprint =
     (fresh_continuation i (g_id goal) (kw_ownerSessionId request) generation (g_revision goal) So_once None
        Sp_cloud (kw_claimSuccessorDueAt request) fingerprint (kw_now request))
     \<lparr>cn_orphan_recovery_count := cn_orphan_recovery_count c,
      cn_last_detail := Some ''Successful wake claim atomically reserved the next one-time successor''\<rparr>"

definition reserve_successor ::
  "claim_wake_request \<Rightarrow> scheduled_continuation_row \<Rightarrow> goal_record \<Rightarrow> string \<Rightarrow> string \<Rightarrow> bool \<Rightarrow> bool \<Rightarrow>
   goal_db \<Rightarrow> goal_error + reserved" where
  "reserve_successor request c goal successorId fingerprint required aligned db =
     (let generation = nextScheduledContinuationGeneration db (g_id goal) in
      if generation \<noteq> cn_generation c + 1 then Inl conflict
      else bind_ok (successor_delay_ok (kw_claimSuccessorDueAt request) (kw_now request)) (\<lambda>_.
        bind_ok (if aligned then lease_aligned_due request else Inr ()) (\<lambda>_.
        bind_ok (insert_continuation (successor_row request c goal successorId generation fingerprint) db) (\<lambda>db1.
        bind_ok (capGoalLeaseAtClaimSuccessor goal (kw_claimSuccessorDueAt request) (kw_now request) required db1) (\<lambda>db2.
        bind_ok (requireScheduledContinuationById db2 successorId) (\<lambda>s.
        Inr (db2, (s, Sd_freshly_reserved))))))))"

definition claim_identity :: "(string \<Rightarrow> string) \<Rightarrow> string \<Rightarrow> string" where
  "claim_identity sha256 continuationId = sha256 (''claimed-successor-v1'' @ [CHR 0x00] @ continuationId)"

definition prepareFreshClaimSuccessor ::
  "(string \<Rightarrow> string) \<Rightarrow> claim_wake_request \<Rightarrow> scheduled_continuation_row \<Rightarrow> goal_record \<Rightarrow> bool \<Rightarrow> bool \<Rightarrow>
   goal_db \<Rightarrow> goal_error + reserved" where
  "prepareFreshClaimSuccessor sha256 request c goal required aligned db =
     (if \<not> confirmed_task c then Inl corrupt
      else let identity = claim_identity sha256 (cn_id c);
               successorId = ''wake-'' @ take 48 identity in
        if kw_claimSuccessorId request \<noteq> successorId then Inl conflict
        else if kw_claimSuccessorRequestFingerprint request \<noteq> identity then Inl conflict
        else case selectScheduledContinuationById db successorId of
          Some row \<Rightarrow> adopt_successor request c goal row identity required db
        | None \<Rightarrow> (case selectLiveScheduledContinuation db (g_id goal) of
            Some row \<Rightarrow> adopt_successor request c goal row identity required db
          | None \<Rightarrow> reserve_successor request c goal successorId identity required aligned db))"

text \<open>The collision of a fired wake with a worker that may live: it is retired for a successor.\<close>

definition claimable :: "scheduled_continuation_row \<Rightarrow> bool" where
  "claimable c \<longleftrightarrow> cn_status c \<in> {Sc_prepared, Sc_scheduled, Sc_create_uncertain, Sc_reschedule_required,
     Sc_reschedule_failed, Sc_reschedule_uncertain}"

definition set_probe ::
  "iso option \<Rightarrow> goal_record \<Rightarrow> iso \<Rightarrow> scheduled_continuation_row \<Rightarrow> scheduled_continuation_row" where
  "set_probe probe goal now c = c\<lparr>cn_last_collision_at := Some now, cn_orphan_probe_started_at := probe,
     cn_orphan_probe_lease_generation := (if probe = None then None else Some (g_leaseGeneration goal)),
     cn_orphan_probe_activity_seq := (if probe = None then None else Some (g_leaseActivitySeq goal))\<rparr>"

definition retire_fired ::
  "iso option \<Rightarrow> goal_record \<Rightarrow> iso \<Rightarrow> scheduled_continuation_row \<Rightarrow> scheduled_continuation_row" where
  "retire_fired probe goal now c = (set_probe probe goal now c)\<lparr>cn_status := Sc_superseded,
     cn_pending_due_at := None, cn_reschedule_reason := None,
     cn_reschedule_count := cn_reschedule_count c + 1, cn_version := cn_version c + 1,
     cn_updated_at := now, cn_terminal_at := Some now, cn_last_detail := Some
     ''Firing one-time wake collided with an active or uncertain worker; retired it and reserved adaptive fresh successor coverage''\<rparr>"

definition prepareFreshCollisionSuccessor ::
  "(string \<Rightarrow> string) \<Rightarrow> claim_wake_request \<Rightarrow> scheduled_continuation_row \<Rightarrow> goal_record \<Rightarrow> iso option \<Rightarrow>
   goal_db \<Rightarrow> goal_error + goal_db \<times> claim_result" where
  "prepareFreshCollisionSuccessor sha256 request c goal probe db =
     (if \<not> confirmed_task c then Inl conflict
      else bind_ok (adaptiveCollisionSuccessorSeconds request c goal (probe \<noteq> None)) (\<lambda>delay.
        bind_ok (addSeconds (kw_now request) delay) (\<lambda>dueAt.
        bind_ok (update_continuation (\<lambda>x. at_version (cn_id c) (cn_version c) x \<and> claimable x)
          (retire_fired probe goal (kw_now request)) db) (\<lambda>db1.
        bind_ok (requireScheduledContinuationById db1 (cn_id c)) (\<lambda>retired.
        bind_ok (prepareFreshClaimSuccessor sha256 (request\<lparr>kw_claimSuccessorDueAt := dueAt\<rparr>) retired goal
          False False db1) (\<lambda>(db2, prepared).
        bind_ok (patch_continuation (\<lambda>x. cn_id x = cn_id (fst prepared))
          (\<lambda>x. (set_probe probe goal (kw_now request) x)\<lparr>cn_reschedule_count := cn_reschedule_count retired,
             cn_last_detail := Some ''Adaptive collision successor reserved from consumed firing wake''\<rparr>) db2) (\<lambda>db3.
        bind_ok (requireScheduledContinuationById db3 (cn_id (fst prepared))) (\<lambda>successor.
        bind_ok (requireById db3 (g_id goal)) (\<lambda>goal'.
        bind_ok (secondsBetween (kw_now request) (cn_due_at successor)) (\<lambda>retry.
        Inr (db3, Claim_successor_required goal' retired successor (snd prepared) retry)))))))))))"

section \<open>Taking the lease\<close>

definition claim_lease ::
  "claim_wake_request \<Rightarrow> iso \<Rightarrow> goal_row \<Rightarrow> goal_row" where
  "claim_lease request leaseExpiresAt row = row\<lparr>
     gr_lease_owner_client_id := Some (kw_ownerClientId request),
     gr_lease_owner_session_id := Some (kw_ownerSessionId request),
     gr_lease_token_hash := Some (kw_leaseTokenHash request),
     gr_lease_duration_seconds := Some (kw_leaseSeconds request),
     gr_lease_generation := gr_lease_generation row + 1, gr_lease_activity_seq := 0,
     gr_lease_heartbeat_at := Some (kw_now request), gr_lease_expires_at := Some leaseExpiresAt,
     gr_updated_at := kw_now request\<rparr>"

definition take_goal_lease ::
  "claim_wake_request \<Rightarrow> goal_record \<Rightarrow> goal_db \<Rightarrow> goal_error + goal_db" where
  "take_goal_lease request goal db =
     bind_ok (addSeconds (kw_now request) (kw_leaseSeconds request)) (\<lambda>leaseExpiresAt.
     update_goal (\<lambda>r. gr_id r = g_id goal \<and> gr_status r = Gs_active \<and> gr_revision r = g_revision goal
         \<and> gr_lease_generation r = g_leaseGeneration goal
         \<and> gr_lease_activity_seq r = g_leaseActivitySeq goal)
       (claim_lease request leaseExpiresAt) db)"

definition clear_probe :: "acquisition \<Rightarrow> iso \<Rightarrow> scheduled_continuation_row \<Rightarrow> scheduled_continuation_row" where
  "clear_probe acq now c = c\<lparr>cn_orphan_probe_started_at := None, cn_orphan_probe_lease_generation := None,
     cn_orphan_probe_activity_seq := None,
     cn_orphan_recovery_count := cn_orphan_recovery_count c + (if acq = Aq_orphan_recovered then 1 else 0),
     cn_version := cn_version c + 1, cn_updated_at := now\<rparr>"

definition claimContinuationLease ::
  "(string \<Rightarrow> string) \<Rightarrow> claim_wake_request \<Rightarrow> scheduled_continuation_row \<Rightarrow> goal_record \<Rightarrow> acquisition \<Rightarrow>
   string \<Rightarrow> goal_db \<Rightarrow> goal_error + goal_db \<times> claim_result" where
  "claimContinuationLease sha256 request c goal acq executionId db =
     bind_ok (take_goal_lease request goal db) (\<lambda>db1.
     bind_ok (update_continuation
       (\<lambda>x. at_version (kw_continuationId request) (cn_version c) x \<and> claimable x)
       (\<lambda>x. (clear_probe acq (kw_now request) x)\<lparr>cn_status := Sc_claimed,
          cn_claimed_at := Some (kw_now request), cn_terminal_at := Some (kw_now request),
          cn_pending_due_at := None, cn_reschedule_reason := None\<rparr>) db1) (\<lambda>db2.
     bind_ok (requireScheduledContinuationById db2 (kw_continuationId request)) (\<lambda>claimed.
     bind_ok (rotateExecutionReceiptForLeaseAcquisition goal executionId (kw_ownerClientId request)
       (kw_ownerSessionId request) (kw_now request) db2) (\<lambda>db3.
     bind_ok (requireById db3 (g_id goal)) (\<lambda>claimedGoal.
     bind_ok (prepareFreshClaimSuccessor sha256 request claimed claimedGoal True True db3) (\<lambda>(db4, prepared).
     bind_ok (requireById db4 (g_id goal)) (\<lambda>reservedGoal.
     Inr (db4, Claim_acquired acq reservedGoal claimed (fst prepared)))))))))"

section \<open>Evidence about the worker\<close>

definition expected_states :: "goal_worker_liveness_evidence \<Rightarrow> goal_record \<Rightarrow> blocking_task_state list" where
  "expected_states ev goal = map (\<lambda>t.
     case state_by_binding (blockingStates ev) (bindingKey (tt_provider t) (tt_taskId t)) of
       None \<Rightarrow> Bt_unknown | Some s \<Rightarrow> s) (blocking_tasks goal)"

definition confirmed_inactive :: "goal_worker_liveness_evidence \<Rightarrow> goal_record \<Rightarrow> bool" where
  "confirmed_inactive ev goal \<longleftrightarrow>
     (let states = expected_states ev goal;
          allExpectedInactive = (\<forall>s \<in> set states. s = Bt_terminal \<or> s = Bt_absent);
          hasUnknown = (\<not> le_trustworthy ev \<or> Bt_unknown \<in> set states);
          hasLiveWorker = (le_liveFencedCallCount ev > 0 \<or> Bt_running \<in> set states)
      in \<not> hasUnknown \<and> \<not> hasLiveWorker \<and> le_liveFencedCallCount ev = 0 \<and> allExpectedInactive)"

text \<open>The observation must be of this lease and not from the future.\<close>

definition check_liveness :: "goal_worker_liveness_evidence \<Rightarrow> goal_record \<Rightarrow> int \<Rightarrow> goal_error + unit" where
  "check_liveness ev goal nowMs =
     (if le_leaseGeneration ev \<noteq> g_leaseGeneration goal \<or> le_leaseActivitySeq ev \<noteq> g_leaseActivitySeq goal
      then Inl conflict
      else bind_ok (parse_iso (le_observedAt ev)) (\<lambda>seen. if seen > nowMs then Inl conflict else Inr ()))"

definition claim_evidence :: "claim_wake_request \<Rightarrow> goal_record \<Rightarrow> goal_worker_liveness_evidence" where
  "claim_evidence request goal = (case kw_liveness request of
     Some ev \<Rightarrow> ev
   | None \<Rightarrow> \<lparr>le_trustworthy = True, le_observedAt = kw_now request,
       le_leaseGeneration = g_leaseGeneration goal, le_leaseActivitySeq = g_leaseActivitySeq goal,
       le_liveFencedCallCount = 0, le_blockingTaskStates = Some [], le_activeTaskStates = None\<rparr>)"

section \<open>Claiming a one-time wake\<close>

definition terminal_noop_claim ::
  "claim_wake_request \<Rightarrow> scheduled_continuation_row \<Rightarrow> goal_record \<Rightarrow> goal_db \<Rightarrow>
   goal_error + goal_db \<times> claim_result" where
  "terminal_noop_claim request c goal db =
     (if cn_status c = Sc_terminal_noop then Inr (db, Claim_terminal_noop goal c)
      else bind_ok (update_continuation
          (\<lambda>x. at_version (kw_continuationId request) (cn_version c) x \<and> cn_status x \<noteq> Sc_terminal_noop)
          (\<lambda>x. x\<lparr>cn_status := Sc_terminal_noop, cn_version := cn_version x + 1,
             cn_updated_at := kw_now request, cn_terminal_at := Some (kw_now request)\<rparr>) db) (\<lambda>db1.
        bind_ok (requireScheduledContinuationById db1 (kw_continuationId request)) (\<lambda>c'.
        bind_ok (requireById db1 (g_id goal)) (\<lambda>goal'.
        Inr (db1, Claim_terminal_noop goal' c')))))"

text \<open>A wake that was claimed or retired before finds or reserves its successor.\<close>

definition recover_successor ::
  "(string \<Rightarrow> string) \<Rightarrow> claim_wake_request \<Rightarrow> scheduled_continuation_row \<Rightarrow> goal_record \<Rightarrow> bool \<Rightarrow> goal_db \<Rightarrow>
   goal_error + goal_db \<times> claim_result" where
  "recover_successor sha256 request c goal reread db =
     bind_ok (prepareFreshClaimSuccessor sha256 request c goal False True db) (\<lambda>(db1, prepared).
     bind_ok (if reread then requireById db1 (g_id goal) else Inr goal) (\<lambda>goal'.
     bind_ok (secondsBetween (kw_now request) (cn_due_at (fst prepared))) (\<lambda>retry.
     Inr (db1, Claim_successor_required goal' c (fst prepared) (snd prepared) retry))))"

definition claim_again ::
  "(string \<Rightarrow> string) \<Rightarrow> claim_wake_request \<Rightarrow> scheduled_continuation_row \<Rightarrow> goal_record \<Rightarrow> goal_db \<Rightarrow>
   goal_error + goal_db \<times> claim_result" where
  "claim_again sha256 request c goal db =
     (if g_status goal \<noteq> Gs_active then Inr (db, Claim_already_claimed goal c)
      else case selectLiveScheduledContinuation db (g_id goal) of
        None \<Rightarrow> recover_successor sha256 request c goal True db
      | Some live \<Rightarrow>
          bind_ok (toScheduledContinuationRecord live) (\<lambda>observed.
          if cn_generation observed \<noteq> cn_generation c + 1 then Inl conflict
          else if cn_status observed \<in> {Sc_prepared, Sc_create_failed, Sc_create_uncertain}
          then recover_successor sha256 request c goal False db
          else Inr (db, Claim_already_claimed goal c)))"

definition matching_probe :: "scheduled_continuation_row \<Rightarrow> goal_record \<Rightarrow> bool" where
  "matching_probe c goal \<longleftrightarrow> cn_orphan_probe_started_at c \<noteq> None \<and>
     cn_orphan_probe_lease_generation c = Some (g_leaseGeneration goal) \<and>
     cn_orphan_probe_activity_seq c = Some (g_leaseActivitySeq goal)"

text \<open>Whether the first probe is old enough for the second to prove the worker gone.\<close>

definition probe_proves_orphan :: "scheduled_continuation_row \<Rightarrow> goal_record \<Rightarrow> int \<Rightarrow> goal_error + bool" where
  "probe_proves_orphan c goal nowMs =
     (if \<not> matching_probe c goal then Inr False
      else bind_ok (parse_iso (the (cn_orphan_probe_started_at c))) (\<lambda>started.
        Inr ((nowMs - started) div 1000 \<ge> ORPHAN_PROBE_MIN_SECONDS)))"

definition claim_by_lease ::
  "(string \<Rightarrow> string) \<Rightarrow> claim_wake_request \<Rightarrow> scheduled_continuation_row \<Rightarrow> goal_record \<Rightarrow> bool \<Rightarrow> int \<Rightarrow> string \<Rightarrow>
   goal_db \<Rightarrow> goal_error + goal_db \<times> claim_result" where
  "claim_by_lease sha256 request c goal inactive nowMs executionId db =
     bind_ok (case g_leaseExpiresAt goal of None \<Rightarrow> Inr None
       | Some t \<Rightarrow> bind_ok (parse_iso t) (\<lambda>e. Inr (Some e))) (\<lambda>leaseExpires.
     if (case leaseExpires of None \<Rightarrow> True | Some e \<Rightarrow> e \<le> nowMs) then
       (if \<not> inactive then prepareFreshCollisionSuccessor sha256 request c goal None db
        else claimContinuationLease sha256 request c goal
          (if leaseExpires = None then Aq_normal else Aq_expired_lease) executionId db)
     else prepareFreshCollisionSuccessor sha256 request c goal
       (if inactive then Some (if matching_probe c goal then the (cn_orphan_probe_started_at c)
          else kw_now request) else None) db)"

definition claim_fired ::
  "(string \<Rightarrow> string) \<Rightarrow> claim_wake_request \<Rightarrow> scheduled_continuation_row \<Rightarrow> goal_record \<Rightarrow> string \<Rightarrow>
   goal_db \<Rightarrow> goal_error + goal_db \<times> claim_result" where
  "claim_fired sha256 request c goal executionId db =
     bind_ok (parse_iso (kw_now request)) (\<lambda>nowMs.
     bind_ok (parse_iso (cn_due_at c)) (\<lambda>dueMs.
     let tolerance = early_tolerance request in
     if tolerance < 0 \<or> tolerance > 300 then Inl corrupt
     else if \<not> confirmed_task c then Inr (db, Claim_receipt_required goal c)
     else if nowMs + tolerance * 1000 < dueMs then prepareFreshCollisionSuccessor sha256 request c goal None db
     else let ev = claim_evidence request goal; inactive = confirmed_inactive ev goal in
       bind_ok (check_liveness ev goal nowMs) (\<lambda>_.
       bind_ok (if inactive then probe_proves_orphan c goal nowMs else Inr False) (\<lambda>orphan.
       if orphan then claimContinuationLease sha256 request c goal Aq_orphan_recovered executionId db
       else claim_by_lease sha256 request c goal inactive nowMs executionId db))))"

definition claim_once ::
  "(string \<Rightarrow> string) \<Rightarrow> claim_wake_request \<Rightarrow> scheduled_continuation_row \<Rightarrow> goal_record \<Rightarrow> string \<Rightarrow>
   goal_db \<Rightarrow> goal_error + goal_db \<times> claim_result" where
  "claim_once sha256 request c goal executionId db =
     (if cn_status c = Sc_claimed then claim_again sha256 request c goal db
      else if cn_status c = Sc_superseded then
        (if g_status goal \<noteq> Gs_active then Inr (db, Claim_already_claimed goal c)
         else recover_successor sha256 request c goal True db)
      else if cn_status c = Sc_terminal_noop \<or> g_status goal \<noteq> Gs_active
      then terminal_noop_claim request c goal db
      else if cn_status c \<in> {Sc_reschedule_required, Sc_reschedule_failed, Sc_reschedule_uncertain} then
        (if cn_native_task_id c = None then Inl corrupt
         else prepareFreshCollisionSuccessor sha256 request c goal (cn_orphan_probe_started_at c) db)
      else if cn_status c \<notin> {Sc_prepared, Sc_scheduled, Sc_create_uncertain} then Inl conflict
      else claim_fired sha256 request c goal executionId db)"

section \<open>Claiming a recurring wake\<close>

definition interval_ms :: int where "interval_ms = 60 * 60000"

definition recurringRunKey :: "scheduled_continuation_row \<Rightarrow> iso \<Rightarrow> goal_error + string" where
  "recurringRunKey c now =
     (if cn_interval_minutes c \<noteq> Some 60 then Inl corrupt
      else bind_ok (parse_iso (cn_due_at c)) (\<lambda>anchor. bind_ok (parse_iso now) (\<lambda>n.
        Inr (''interval-'' @ decimal (nat (max 0 ((n - anchor) div interval_ms)))))))"

definition secondsUntilNextRecurringTick :: "scheduled_continuation_row \<Rightarrow> iso \<Rightarrow> goal_error + int" where
  "secondsUntilNextRecurringTick c now =
     (if cn_interval_minutes c \<noteq> Some 60 then Inl corrupt
      else bind_ok (parse_iso (cn_due_at c)) (\<lambda>anchor. bind_ok (parse_iso now) (\<lambda>n.
        let tick = (if n < anchor then anchor
          else anchor + ((n - anchor) div interval_ms + 1) * interval_ms) in
        Inr (max 1 (ceil_div_1000 (tick - n))))))"

definition recurringRunOutcome :: "goal_db \<Rightarrow> string \<Rightarrow> string \<Rightarrow> recurring_run_outcome option" where
  "recurringRunOutcome db continuationId runKey = map_option rn_outcome
     (row_get (\<lambda>r. rn_continuation_id r = continuationId \<and> rn_run_key r = runKey) (db_runs db))"

definition recordRecurringRun ::
  "(string \<Rightarrow> string) \<Rightarrow> scheduled_continuation_row \<Rightarrow> string \<Rightarrow> recurring_run_outcome \<Rightarrow> iso \<Rightarrow> int option \<Rightarrow>
   string \<Rightarrow> goal_db \<Rightarrow> goal_error + goal_db" where
  "recordRecurringRun sha256 c runKey answer observedAt leaseGeneration detail db =
     (case cn_native_task_id c of
        None \<Rightarrow> Inl corrupt
      | Some native \<Rightarrow>
          let P = (\<lambda>r. rn_continuation_id r = cn_id c \<and> rn_run_key r = runKey);
              i = ''run-'' @ take 48 (sha256 (cn_id c @ [CHR 0x00] @ runKey)) in
          if \<exists>r \<in> set (db_runs db). P r then
            Inr (db\<lparr>db_runs := row_update P (\<lambda>r. r\<lparr>rn_observed_at := observedAt, rn_outcome := answer,
              rn_lease_generation := leaseGeneration, rn_detail := detail, rn_updated_at := observedAt\<rparr>)
              (db_runs db)\<rparr>)
          else if (\<exists>r \<in> set (db_runs db). rn_id r = i)
            \<or> (\<forall>x \<in> set (db_continuations db). cn_id x \<noteq> cn_id c)
            \<or> (case leaseGeneration of None \<Rightarrow> False | Some g \<Rightarrow> g < 0) then Inl SqlConstraint
          else Inr (db\<lparr>db_runs := db_runs db @ [\<lparr>rn_id = i, rn_continuation_id = cn_id c,
            rn_run_key = runKey, rn_native_task_id = native, rn_observed_at = observedAt,
            rn_outcome = answer, rn_lease_generation = leaseGeneration, rn_detail = detail,
            rn_created_at = observedAt, rn_updated_at = observedAt\<rparr>]\<rparr>))"

fun acquisition_name :: "acquisition \<Rightarrow> string" where
  "acquisition_name Aq_normal = ''normal''"
| "acquisition_name Aq_expired_lease = ''expired_lease''"
| "acquisition_name Aq_orphan_recovered = ''orphan_recovered''"

definition claimRecurringContinuationLease ::
  "(string \<Rightarrow> string) \<Rightarrow> claim_wake_request \<Rightarrow> scheduled_continuation_row \<Rightarrow> goal_record \<Rightarrow> acquisition \<Rightarrow>
   string \<Rightarrow> string \<Rightarrow> goal_db \<Rightarrow> goal_error + goal_db \<times> claim_result" where
  "claimRecurringContinuationLease sha256 request c goal acq runKey executionId db =
     bind_ok (take_goal_lease request goal db) (\<lambda>db1.
     bind_ok (if cn_orphan_probe_started_at c \<noteq> None \<or> cn_orphan_probe_lease_generation c \<noteq> None
         \<or> cn_orphan_probe_activity_seq c \<noteq> None then
         bind_ok (update_continuation (\<lambda>x. at_version (cn_id c) (cn_version c) x
             \<and> cn_status x = Sc_scheduled \<and> cn_occurrence x = So_interval)
           (clear_probe acq (kw_now request)) db1) (\<lambda>db2.
         bind_ok (requireScheduledContinuationById db2 (cn_id c)) (\<lambda>c'. Inr (db2, c')))
       else Inr (db1, c)) (\<lambda>(db2, observed).
     bind_ok (rotateExecutionReceiptForLeaseAcquisition goal executionId (kw_ownerClientId request)
       (kw_ownerSessionId request) (kw_now request) db2) (\<lambda>db3.
     bind_ok (requireById db3 (g_id goal)) (\<lambda>claimedGoal.
     bind_ok (recordRecurringRun sha256 observed runKey
       (if acq = Aq_orphan_recovered then Ru_orphan_recovered else Ru_acquired) (kw_now request)
       (Some (g_leaseGeneration claimedGoal))
       (''Recurring watchdog acquired durable lease ('' @ acquisition_name acq @ '')'') db3) (\<lambda>db4.
     Inr (db4, Claim_recurring_acquired acq claimedGoal observed runKey))))))"

text \<open>A wake that may only clean up, because the workspace or the work is gone.\<close>

definition cleanup_run ::
  "(string \<Rightarrow> string) \<Rightarrow> claim_wake_request \<Rightarrow> scheduled_continuation_row \<Rightarrow> goal_record \<Rightarrow> string \<Rightarrow>
   goal_db \<Rightarrow> goal_error + goal_db \<times> claim_result" where
  "cleanup_run sha256 request c goal detail db =
     (if \<not> confirmed_task c then Inr (db, Claim_receipt_required goal c)
      else bind_ok (recurringRunKey c (kw_now request)) (\<lambda>runKey.
        if recurringRunOutcome db (cn_id c) runKey \<noteq> None then Inr (db, Claim_already_claimed goal c)
        else bind_ok (recordRecurringRun sha256 c runKey Ru_terminal_cleanup_required (kw_now request) None
            detail db) (\<lambda>db1.
          Inr (db1, Claim_cleanup_required goal c runKey))))"

definition busy_run ::
  "(string \<Rightarrow> string) \<Rightarrow> claim_wake_request \<Rightarrow> scheduled_continuation_row \<Rightarrow> goal_record \<Rightarrow> string \<Rightarrow> string \<Rightarrow>
   int option \<Rightarrow> goal_db \<Rightarrow> goal_error + goal_db \<times> claim_result" where
  "busy_run sha256 request c goal runKey detail retry db =
     bind_ok (recordRecurringRun sha256 c runKey Ru_worker_busy_noop (kw_now request) None detail db) (\<lambda>db1.
     bind_ok (case retry of Some n \<Rightarrow> Inr n | None \<Rightarrow> secondsUntilNextRecurringTick c (kw_now request)) (\<lambda>n.
     Inr (db1, Claim_worker_busy goal c runKey n)))"

definition claim_recurring_run ::
  "(string \<Rightarrow> string) \<Rightarrow> claim_wake_request \<Rightarrow> scheduled_continuation_row \<Rightarrow> goal_record \<Rightarrow>
   goal_worker_liveness_evidence \<Rightarrow> string \<Rightarrow> int \<Rightarrow> string \<Rightarrow> goal_db \<Rightarrow> goal_error + goal_db \<times> claim_result" where
  "claim_recurring_run sha256 request c goal ev runKey nowMs executionId db =
     (let inactive = confirmed_inactive ev goal in
      bind_ok (case g_leaseExpiresAt goal of None \<Rightarrow> Inr None
        | Some t \<Rightarrow> bind_ok (parse_iso t) (\<lambda>e. Inr (Some e))) (\<lambda>leaseExpires.
      if (case leaseExpires of None \<Rightarrow> True | Some e \<Rightarrow> e \<le> nowMs) then
        (if inactive then claimRecurringContinuationLease sha256 request c goal
           (if leaseExpires = None then Aq_normal else Aq_expired_lease) runKey executionId db
         else busy_run sha256 request c goal runKey
           ''Expired lease still has live or uncertain worker evidence'' None db)
      else if \<not> inactive then busy_run sha256 request c goal runKey
        ''Healthy or uncertain worker retained recurring-goal ownership'' None db
      else bind_ok (assessStaleGoalLeaseRecovery goal
          (Some (ev\<lparr>le_blockingTaskStates := Some (blockingStates ev), le_activeTaskStates := None\<rparr>))
          (kw_now request) True) (\<lambda>(recover, retry).
        if recover then claimRecurringContinuationLease sha256 request c goal Aq_orphan_recovered runKey executionId db
        else bind_ok (case retry of Some n \<Rightarrow> Inr n
            | None \<Rightarrow> secondsUntilNextRecurringTick c (kw_now request)) (\<lambda>n.
          busy_run sha256 request c goal runKey
            ''No live worker was observed, but the lease heartbeat is still within the bounded stale-recovery grace''
            (Some n) db))))"

definition claim_due_run ::
  "(string \<Rightarrow> string) \<Rightarrow> claim_wake_request \<Rightarrow> scheduled_continuation_row \<Rightarrow> goal_record \<Rightarrow> string \<Rightarrow>
   goal_db \<Rightarrow> goal_error + goal_db \<times> claim_result" where
  "claim_due_run sha256 request c goal executionId db =
     bind_ok (parse_iso (cn_due_at c)) (\<lambda>dueMs. bind_ok (parse_iso (kw_now request)) (\<lambda>nowMs.
     if nowMs + max 0 (early_tolerance request) * 1000 < dueMs
     then Inr (db, Claim_not_due goal c (max 1 (ceil_div_1000 (dueMs - nowMs))))
     else bind_ok (recurringRunKey c (kw_now request)) (\<lambda>runKey.
       let previous = recurringRunOutcome db (cn_id c) runKey in
       if previous \<noteq> None \<and> previous \<noteq> Some Ru_worker_busy_noop then Inr (db, Claim_already_claimed goal c)
       else (case kw_liveness request of
         None \<Rightarrow> Inl JsTypeError
       | Some ev \<Rightarrow> bind_ok (check_liveness ev goal nowMs) (\<lambda>_.
           if previous \<noteq> None \<and> \<not> confirmed_inactive ev goal then Inr (db, Claim_already_claimed goal c)
           else claim_recurring_run sha256 request c goal ev runKey nowMs executionId db)))))"

definition claimRecurringScheduledContinuation ::
  "(string \<Rightarrow> string) \<Rightarrow> claim_wake_request \<Rightarrow> scheduled_continuation_row \<Rightarrow> goal_record \<Rightarrow> bool \<Rightarrow> string \<Rightarrow>
   goal_db \<Rightarrow> goal_error + goal_db \<times> claim_result" where
  "claimRecurringScheduledContinuation sha256 request c goal workspaceActive executionId db =
     (if cn_interval_minutes c \<noteq> Some 60 then Inl corrupt
      else if cn_status c = Sc_terminal_noop then Inr (db, Claim_terminal_noop goal c)
      else if \<not> workspaceActive then cleanup_run sha256 request c goal
        ''Workspace is archived; recurring wake is cleanup-only and must not resume workspace work'' db
      else if cn_status c \<in> {Sc_cancel_required, Sc_cancel_failed, Sc_cancel_uncertain} then
        cleanup_run sha256 request c goal
          ''Durable work requested completion; recurring wake is cleanup-only and must not resume workspace work'' db
      else if g_status goal \<noteq> Gs_active then Inr (db, Claim_terminal_noop goal c)
      else if \<not> confirmed_task c then Inr (db, Claim_receipt_required goal c)
      else if cn_status c \<notin> {Sc_scheduled, Sc_create_uncertain} then Inl conflict
      else claim_due_run sha256 request c goal executionId db)"

definition claimScheduledContinuation ::
  "(string \<Rightarrow> string) \<Rightarrow> claim_wake_request \<Rightarrow> string \<Rightarrow> goal_db \<Rightarrow> goal_error + goal_db \<times> claim_result" where
  "claimScheduledContinuation sha256 request executionId db =
     (case selectScheduledContinuationById db (kw_continuationId request) of
        None \<Rightarrow> Inl not_found
      | Some row \<Rightarrow>
          bind_ok (toScheduledContinuationRecord row) (\<lambda>c.
          bind_ok (requireById db (cn_goal_id row)) (\<lambda>goal.
          let workspaceActive = isWorkspaceActive db (g_workspaceId goal) in
          if cn_occurrence c \<noteq> So_interval \<and> \<not> workspaceActive then terminal_noop_claim request c goal db
          else if cn_occurrence c = So_interval
          then claimRecurringScheduledContinuation sha256 request c goal workspaceActive executionId db
          else claim_once sha256 request c goal executionId db)))"

end
