(* ===== verification/Goal_Wake_Protocol.thy ===== *)
theory Goal_Wake_Protocol
  imports Goal_Lease_Invariant Goal_Wake_Claim
begin

text \<open>
  How the operations on scheduled continuations change the store. On the goals they are sequences of
  moves of the lease protocol. On the continuation table they keep the SQL constraints (one live
  continuation per goal among them) and let a row only evolve: its identity is frozen, its version
  only grows, and a row whose version did not grow has the status and the times it had. A run of a
  recurring continuation that was recorded as anything but busy keeps its outcome.
\<close>

section \<open>Sequences of moves\<close>

abbreviation goal_moves :: "goal_db \<Rightarrow> goal_db \<Rightarrow> bool" where
  "goal_moves \<equiv> rtranclp goal_trans"

lemma moves_wf: "goal_moves db db' \<Longrightarrow> wf_goals db \<Longrightarrow> wf_goals db'"
  by (induction rule: rtranclp_induct) (auto intro: trans_wf)

lemma moves_extend: "goal_moves db db' \<Longrightarrow> wf_goals db \<Longrightarrow> goals_extend db db'"
proof (induction rule: rtranclp_induct)
  case base
  show ?case by (rule goals_extend_refl)
next
  case (step db1 db2)
  then show ?case using trans_extends [OF step(2) moves_wf [OF step(1,4)]] goals_extend_trans by blast
qed

definition same_goals :: "goal_db \<Rightarrow> goal_db \<Rightarrow> bool" where
  "same_goals db db' \<longleftrightarrow> db_goals db' = db_goals db \<and> db_checkpoints db' = db_checkpoints db
     \<and> db_executions db' = db_executions db"

lemma same_goals_refl [simp]: "same_goals db db"
  by (simp add: same_goals_def)

lemma same_goals_trans: "same_goals a b \<Longrightarrow> same_goals b c \<Longrightarrow> same_goals a c"
  by (simp add: same_goals_def)

lemma same_goals_moves: "same_goals db db' \<Longrightarrow> goal_moves db db'"
  unfolding same_goals_def by (blast intro: stays)

lemma same_goals_wf: "same_goals db db' \<Longrightarrow> wf_goals db \<Longrightarrow> wf_goals db'"
  using same_goals_moves moves_wf by blast

lemma same_goals_record: "same_goals db db' \<Longrightarrow> toGoalRecord db' r = toGoalRecord db r"
  by (simp add: same_goals_def toGoalRecord_def checkpoints_of_def selectExecution_def)

lemma same_goals_require: "same_goals db db' \<Longrightarrow> requireById db' i = requireById db i"
  using same_goals_record [of db db']
  by (simp add: requireById_def selectById_def same_goals_def split: option.split)

section \<open>The evolution of the continuation table\<close>

definition wake_evolves :: "scheduled_continuation_row \<Rightarrow> scheduled_continuation_row \<Rightarrow> bool" where
  "wake_evolves c c' \<longleftrightarrow> cn_id c' = cn_id c \<and> cn_goal_id c' = cn_goal_id c
     \<and> cn_source_session_id c' = cn_source_session_id c \<and> cn_generation c' = cn_generation c
     \<and> cn_source_goal_revision c' = cn_source_goal_revision c
     \<and> cn_request_fingerprint c' = cn_request_fingerprint c \<and> cn_occurrence c' = cn_occurrence c
     \<and> cn_interval_minutes c' = cn_interval_minutes c \<and> cn_created_at c' = cn_created_at c
     \<and> cn_version c \<le> cn_version c'
     \<and> (cn_version c' = cn_version c \<longrightarrow> cn_status c' = cn_status c \<and> cn_due_at c' = cn_due_at c
         \<and> cn_pending_due_at c' = cn_pending_due_at c \<and> cn_native_task_id c' = cn_native_task_id c
         \<and> cn_claimed_at c' = cn_claimed_at c)"

lemma wake_evolves_refl [simp]: "wake_evolves c c"
  by (simp add: wake_evolves_def)

lemma wake_kept: "c \<in> S \<Longrightarrow> \<exists>c' \<in> S. wake_evolves c c'"
  using wake_evolves_refl by blast

lemma wake_evolves_trans: "wake_evolves a b \<Longrightarrow> wake_evolves b c \<Longrightarrow> wake_evolves a c"
  by (auto simp: wake_evolves_def)

definition wakes_ok :: "goal_db \<Rightarrow> bool" where
  "wakes_ok db \<longleftrightarrow> continuations_ok (db_continuations db)"

definition wakes_extend :: "goal_db \<Rightarrow> goal_db \<Rightarrow> bool" where
  "wakes_extend db db' \<longleftrightarrow>
     (\<forall>c \<in> set (db_continuations db). \<exists>c' \<in> set (db_continuations db'). wake_evolves c c')"

lemma wakes_extend_refl: "wakes_extend db db"
  by (auto simp: wakes_extend_def intro: wake_evolves_refl)

lemma wakes_extend_trans: "wakes_extend a b \<Longrightarrow> wakes_extend b c \<Longrightarrow> wakes_extend a c"
  unfolding wakes_extend_def by (meson wake_evolves_trans)

definition runs_kept :: "goal_db \<Rightarrow> goal_db \<Rightarrow> bool" where
  "runs_kept db db' \<longleftrightarrow> (\<forall>i k out. recurringRunOutcome db i k = Some out \<longrightarrow>
     out \<noteq> Ru_worker_busy_noop \<longrightarrow> recurringRunOutcome db' i k = Some out)"

lemma runs_kept_refl [simp]: "runs_kept db db"
  by (simp add: runs_kept_def)

lemma runs_kept_trans: "runs_kept a b \<Longrightarrow> runs_kept b c \<Longrightarrow> runs_kept a c"
  by (simp add: runs_kept_def)

lemma same_runs_kept: "db_runs db' = db_runs db \<Longrightarrow> runs_kept db db'"
  by (simp add: runs_kept_def recurringRunOutcome_def)

definition wakes_step :: "goal_db \<Rightarrow> goal_db \<Rightarrow> bool" where
  "wakes_step db db' \<longleftrightarrow> (wakes_ok db \<longrightarrow> wakes_ok db' \<and> wakes_extend db db') \<and> runs_kept db db'"

lemma wakes_step_refl [simp]: "wakes_step db db"
  by (simp add: wakes_step_def wakes_extend_refl)

lemma wakes_step_trans: "wakes_step a b \<Longrightarrow> wakes_step b c \<Longrightarrow> wakes_step a c"
  unfolding wakes_step_def using wakes_extend_trans runs_kept_trans by blast

definition same_wakes :: "goal_db \<Rightarrow> goal_db \<Rightarrow> bool" where
  "same_wakes db db' \<longleftrightarrow> db_continuations db' = db_continuations db \<and> db_runs db' = db_runs db"

lemma same_wakes_step: "same_wakes db db' \<Longrightarrow> wakes_step db db'"
  by (simp add: same_wakes_def wakes_step_def wakes_ok_def wakes_extend_def same_runs_kept)
    (blast intro: wake_evolves_refl)

section \<open>Statements\<close>

lemma insert_continuationE:
  assumes "insert_continuation c db = Inr db'"
  obtains "db' = db\<lparr>db_continuations := db_continuations db @ [c]\<rparr>" "same_goals db db'" "wakes_step db db'"
    "continuations_ok (db_continuations db')"
proof -
  have db': "db' = db\<lparr>db_continuations := db_continuations db @ [c]\<rparr>"
    "continuations_ok (db_continuations db @ [c])"
    using assms by (auto simp: insert_continuation_def split: if_splits)
  moreover have "wakes_step db db'"
    unfolding wakes_step_def wakes_ok_def wakes_extend_def using db'
    by (auto intro!: wake_kept same_runs_kept)
  ultimately show ?thesis by (intro that) (auto simp: same_goals_def)
qed

lemma row_update_evolves:
  assumes "\<And>c. wake_evolves c (f c)" "c \<in> set cs"
  shows "\<exists>c' \<in> set (row_update P f cs). wake_evolves c c'"
proof (cases "P c")
  case True
  then have "f c \<in> set (row_update P f cs)" using assms(2) by (simp add: set_row_update)
  then show ?thesis using assms(1) by blast
next
  case False
  then have "c \<in> set (row_update P f cs)" using assms(2) by (simp add: set_row_update)
  then show ?thesis by (rule wake_kept)
qed

lemma patch_continuationE:
  assumes "patch_continuation P f db = Inr db'"
  obtains "db' = db\<lparr>db_continuations := row_update P f (db_continuations db)\<rparr>" "same_goals db db'"
    "(\<And>c. wake_evolves c (f c)) \<Longrightarrow> wakes_step db db'"
proof -
  have db': "db' = db\<lparr>db_continuations := row_update P f (db_continuations db)\<rparr>"
    and ok: "row_changes P (db_continuations db) \<noteq> 0 \<Longrightarrow> continuations_ok (db_continuations db')"
    using assms by (auto simp: patch_continuation_def Let_def split: if_splits)
  moreover have "wakes_step db db'" if f: "\<And>c. wake_evolves c (f c)"
  proof (cases "row_changes P (db_continuations db) = 0")
    case True
    then show ?thesis using db' by (intro same_wakes_step) (simp add: row_update_unchanged same_wakes_def)
  next
    case False
    have "\<exists>c' \<in> set (db_continuations db'). wake_evolves c c'" if "c \<in> set (db_continuations db)" for c
      using row_update_evolves [OF f that] db' by simp
    moreover have "runs_kept db db'" using db' by (simp add: same_runs_kept)
    ultimately show ?thesis
      using ok [OF False] by (simp add: wakes_step_def wakes_ok_def wakes_extend_def)
  qed
  ultimately show ?thesis by (intro that) (auto simp: same_goals_def)
qed

lemma update_continuationE:
  assumes "update_continuation P f db = Inr db'"
  obtains "db' = db\<lparr>db_continuations := row_update P f (db_continuations db)\<rparr>" "same_goals db db'"
    "(\<And>c. wake_evolves c (f c)) \<Longrightarrow> wakes_step db db'" "row_changes P (db_continuations db) = 1"
  using assms unfolding update_continuation_def
  by (auto elim!: patch_continuationE simp: bind_ok_Inr_iff split: if_splits)

lemma toScheduledContinuationRecord_same: "toScheduledContinuationRecord r = Inr c \<Longrightarrow> c = r"
  by (auto simp: toScheduledContinuationRecord_def split: if_splits)

lemma requireWakeE:
  assumes "requireScheduledContinuationById db i = Inr c"
  obtains "c \<in> set (db_continuations db)" "cn_id c = i" "toScheduledContinuationRecord c = Inr c"
  using assms unfolding requireScheduledContinuationById_def
  by (auto split: option.splits dest!: row_get_SomeD dest: toScheduledContinuationRecord_same)
section \<open>Steps of the store\<close>

definition store_step :: "goal_db \<Rightarrow> goal_db \<Rightarrow> bool" where
  "store_step db db' \<longleftrightarrow> (wf_goals db \<longrightarrow> goal_moves db db') \<and> wakes_step db db'"

lemma store_step_refl [simp]: "store_step db db"
  by (simp add: store_step_def)

lemma store_step_trans: "store_step a b \<Longrightarrow> store_step b c \<Longrightarrow> store_step a c"
  unfolding store_step_def using moves_wf wakes_step_trans by (meson rtranclp_trans)

lemma store_stepI: "same_goals db db' \<Longrightarrow> wakes_step db db' \<Longrightarrow> store_step db db'"
  by (simp add: store_step_def same_goals_moves)

lemma update_wake_step:
  assumes "update_continuation P f db = Inr db'" "\<And>c. wake_evolves c (f c)"
  shows "store_step db db'" "same_goals db db'"
  using assms by (auto elim!: update_continuationE intro: store_stepI)

lemma patch_wake_step:
  assumes "patch_continuation P f db = Inr db'" "\<And>c. wake_evolves c (f c)"
  shows "store_step db db'" "same_goals db db'"
  using assms by (auto elim!: patch_continuationE intro: store_stepI)

lemma insert_wake_step:
  assumes "insert_continuation c db = Inr db'"
  shows "store_step db db'" "same_goals db db'"
  using assms by (auto elim!: insert_continuationE intro: store_stepI)

section \<open>Receipts, cancellation and expediting leave the goals alone\<close>

lemma apply_receipt_evolves: "wake_evolves c (apply_receipt q x c)"
  by (simp add: wake_evolves_def apply_receipt_def)

lemma receipt_step:
  assumes "recordScheduledContinuationReceipt q db = Inr (db', res)"
  shows "store_step db db'" "same_goals db db'"
proof -
  have "db' = db \<or> (\<exists>P x. update_continuation P (apply_receipt q x) db = Inr db')"
    using assms unfolding recordScheduledContinuationReceipt_def
    by (auto simp: bind_ok_Inr_iff with_continuation_def split: option.splits if_splits)
  then show "store_step db db'" "same_goals db db'"
    using update_wake_step [OF _ apply_receipt_evolves] by auto
qed

lemma cancel_wake_step:
  assumes "cancelScheduledContinuation target v now db = Inr (db', res)"
  shows "store_step db db'" "same_goals db db'"
proof -
  have "db' = db \<or> (\<exists>P s d t. update_continuation P
      (\<lambda>x. x\<lparr>cn_status := s, cn_version := cn_version x + 1, cn_updated_at := now, cn_terminal_at := t\<rparr>) db = Inr db'
      \<or> update_continuation P (\<lambda>x. x\<lparr>cn_status := s, cn_version := cn_version x + 1, cn_updated_at := now,
         cn_terminal_at := t, cn_last_detail := d\<rparr>) db = Inr db')"
    using assms unfolding cancelScheduledContinuation_def
    by (auto simp: bind_ok_Inr_iff case_prod_beta split: option.splits if_splits)
  then show "store_step db db'" "same_goals db db'"
    by (auto dest: update_wake_step simp: wake_evolves_def)
qed

lemma expedite_step:
  assumes "expediteScheduledContinuation q db = Inr (db', res)"
  shows "store_step db db'" "same_goals db db'"
proof -
  have "db' = db \<or> (\<exists>P. update_continuation P
      (\<lambda>x. x\<lparr>cn_status := Sc_reschedule_required, cn_pending_due_at := Some (ew_dueAt q),
         cn_reschedule_reason := Some (Sy_expedite (ew_reason q)), cn_version := cn_version x + 1,
         cn_updated_at := ew_now q\<rparr>) db = Inr db')"
    using assms unfolding expediteScheduledContinuation_def expedite_due_def
    by (auto simp: bind_ok_Inr_iff Let_def split: option.splits if_splits)
  then show "store_step db db'" "same_goals db db'"
    by (auto dest: update_wake_step simp: wake_evolves_def)
qed
section \<open>Preparing records progress\<close>

lemma record_progress_fields [simp]:
  "gr_id (record_progress q n d le ts r) = gr_id r"
  "gr_status (record_progress q n d le ts r) = gr_status r"
  "gr_revision (record_progress q n d le ts r) = n"
  "gr_lease_generation (record_progress q n d le ts r) = gr_lease_generation r"
  "gr_lease_token_hash (record_progress q n d le ts r) = Some (pw_leaseTokenHash q)"
  "same_identity r (record_progress q n d le ts r)"
  by (simp_all add: record_progress_def same_identity_def)

lemma write_progress_wakes:
  assumes "write_progress q n d le ts db = Inr db1"
  shows "same_wakes db db1"
  using assms by (auto simp: same_wakes_def write_progress_def bind_ok_Inr_iff elim!: insertCheckpointE update_goalE)

lemma write_progress_trans:
  assumes wf: "wf_goals db" and cur: "requireById db (pw_goalId q) = Inr cur"
    and w: "write_progress q (g_revision cur + 1) d le ts db = Inr db1"
    and s: "same_goals db1 db2" and fin: "requireById db2 (pw_goalId q) = Inr g"
  shows "goal_trans db db2"
proof -
  have ids: "distinct (map gr_id (db_goals db))" using wf by (simp add: wf_goals_def)
  let ?f = "record_progress q (g_revision cur + 1) d le ts"
  let ?c = "progress_checkpoint q (g_revision cur + 1) ts"
  obtain db0 where
    u: "update_goal (\<lambda>r. gr_id r = pw_goalId q \<and> gr_revision r = pw_expectedRevision q \<and>
         gr_lease_token_hash r = Some (pw_leaseTokenHash q) \<and> gr_status r = Gs_active) ?f db = Inr db0"
    and ins: "insertCheckpoint ?c db0 = Inr db1"
    using w by (auto simp: write_progress_def bind_ok_Inr_iff)
  obtain r where r: "r \<in> set (db_goals db)" "gr_id r = pw_goalId q"
    "gr_lease_token_hash r = Some (pw_leaseTokenHash q)" "gr_status r = Gs_active"
    and db0: "db0 = db\<lparr>db_goals := replace_goal (?f r) (db_goals db)\<rparr>"
    by (rule update_goal_replace [OF ids u]) auto
  note dec = toGoalRecord_fields [OF wf_current [OF wf cur r(1,2)]]
  have tabs: "db_goals db2 = replace_goal (?f r) (db_goals db)"
    "db_checkpoints db2 = db_checkpoints db @ [?c]" "db_executions db2 = db_executions db"
    using ins s db0 by (auto elim!: insertCheckpointE simp: same_goals_def)
  show ?thesis
    by (rule records [of r db "?f r" False, OF r(1) _ _ _ _ _ _ tabs(1,2)])
      (use r(2-4) dec(7) fin tabs(3) replace_decodes [OF ids r(1) _ tabs(1)]
        in \<open>simp_all add: progress_checkpoint_def\<close>)
qed

lemma prepare_resultE:
  assumes "prepare_result db i j b = Inr (db', res)"
  obtains "db' = db" "requireById db i = Inr (wr_goal res)"
    "requireScheduledContinuationById db j = Inr (wr_continuation res)" "wr_alreadyPrepared res = b"
  using assms by (auto simp: prepare_result_def bind_ok_Inr_iff)

lemma prepare_again_same: "prepare_again q cur c db = Inr (db', res) \<Longrightarrow> db' = db"
  by (auto simp: prepare_again_def bind_ok_Inr_iff split: if_splits)

lemma prepare_freshE:
  assumes "prepare_fresh q cur db = Inr (db', res)"
  obtains d minutes ts le db1 where
    "assertMutableLease cur (pw_ownerClientId q) (pw_ownerSessionId q) (pw_leaseTokenHash q)
       (pw_expectedRevision q) (pw_now q) = Inr ()"
    "require_future_due (pw_dueAt q) (pw_now q) = Inr ()" "requested_interval q = Inr minutes"
    "write_progress q (g_revision cur + 1) d le ts db = Inr db1"
    "insert_continuation (fresh_continuation (pw_continuationId q) (pw_goalId q) (pw_ownerSessionId q)
       (nextScheduledContinuationGeneration db1 (pw_goalId q)) (pw_expectedRevision q)
       (requested_occurrence q) minutes (pw_executionPreference q) (pw_dueAt q)
       (pw_requestFingerprint q) (pw_now q)) db1 = Inr db'"
    "requireById db' (pw_goalId q) = Inr (wr_goal res)"
    "requireScheduledContinuationById db' (pw_continuationId q) = Inr (wr_continuation res)"
    "wr_alreadyPrepared res = False"
  using assms unfolding prepare_fresh_def
  by (elim bind_okE; simp split: option.splits; (elim bind_okE)?) (elim prepare_resultE; simp)

lemma refreshE:
  assumes "refreshLiveScheduledContinuation q cur row db = Inr (db', res)"
  obtains d le ts db1 retime where
    "assertMutableLease cur (pw_ownerClientId q) (pw_ownerSessionId q) (pw_leaseTokenHash q)
       (pw_expectedRevision q) (pw_now q) = Inr ()"
    "refresh_retime q row = Inr retime"
    "write_progress q (g_revision cur + 1) d le ts db = Inr db1"
    "(if retime then update_continuation
         (\<lambda>c. at_version (cn_id row) (cn_version row) c \<and> cn_status c = Sc_scheduled)
         (\<lambda>c. c\<lparr>cn_status := Sc_reschedule_required, cn_pending_due_at := Some (pw_dueAt q),
            cn_reschedule_reason := None, cn_version := cn_version c + 1, cn_updated_at := pw_now q,
            cn_terminal_at := None, cn_last_detail := Some
              ''Single-Live Watchdog retime requested from the latest durable checkpoint''\<rparr>) db1
       else Inr db1) = Inr db'"
    "requireById db' (pw_goalId q) = Inr (wr_goal res)"
proof -
  from assms obtain live where rest: "toScheduledContinuationRecord row = Inr live"
    unfolding refreshLiveScheduledContinuation_def by (elim bind_okE)
  then have "live = row" by (rule toScheduledContinuationRecord_same)
  with assms rest that show ?thesis unfolding refreshLiveScheduledContinuation_def
    by (elim bind_okE; simp split: if_splits option.splits; (elim bind_okE)?)
      (elim prepare_resultE; simp)+
qed

lemma prepare_step:
  assumes "prepareScheduledContinuation q db = Inr (db', res)"
  shows "store_step db db'"
proof -
  obtain cur where cur: "requireById db (pw_goalId q) = Inr cur"
    and cases: "db' = db \<or> (\<exists>row. refreshLiveScheduledContinuation q cur row db = Inr (db', res))
      \<or> prepare_fresh q cur db = Inr (db', res)"
    using assms unfolding prepareScheduledContinuation_def
    by (auto simp: bind_ok_Inr_iff split: option.splits dest: prepare_again_same)
  have finish: "store_step db db'" if w: "write_progress q (g_revision cur + 1) d le ts db = Inr db1"
    and s: "same_goals db1 db'" "store_step db1 db'" and g: "requireById db' (pw_goalId q) = Inr g"
    for d le ts db1 g
  proof -
    have "wakes_step db db'"
      using same_wakes_step [OF write_progress_wakes [OF w]] s(2) wakes_step_trans
      unfolding store_step_def by blast
    then show ?thesis
      using write_progress_trans [OF _ cur w s(1) g] by (auto simp: store_step_def)
  qed
  show ?thesis
    using cases
  proof (elim disjE exE)
    assume "prepare_fresh q cur db = Inr (db', res)"
    then show ?thesis by (elim prepare_freshE) (blast dest: insert_wake_step intro: finish)
  next
    fix row assume "refreshLiveScheduledContinuation q cur row db = Inr (db', res)"
    then show ?thesis
    proof (elim refreshE)
      fix d le ts db1 retime
      assume w: "write_progress q (g_revision cur + 1) d le ts db = Inr db1"
        and u: "(if retime then update_continuation
         (\<lambda>c. at_version (cn_id row) (cn_version row) c \<and> cn_status c = Sc_scheduled)
         (\<lambda>c. c\<lparr>cn_status := Sc_reschedule_required, cn_pending_due_at := Some (pw_dueAt q),
            cn_reschedule_reason := None, cn_version := cn_version c + 1, cn_updated_at := pw_now q,
            cn_terminal_at := None, cn_last_detail := Some
              ''Single-Live Watchdog retime requested from the latest durable checkpoint''\<rparr>) db1
       else Inr db1) = Inr db'"
        and g: "requireById db' (pw_goalId q) = Inr (wr_goal res)"
      have "same_goals db1 db' \<and> store_step db1 db'"
        using u by (auto dest: update_wake_step simp: wake_evolves_def split: if_splits)
      then show ?thesis using finish [OF w _ _ g] by blast
    qed
  qed simp
qed
section \<open>Reserving a successor\<close>

definition cap_lease :: "iso \<Rightarrow> iso \<Rightarrow> goal_row \<Rightarrow> goal_row" where
  "cap_lease capped now r = r\<lparr>gr_lease_expires_at := Some capped, gr_updated_at := now\<rparr>"

lemma cap_lease_fields [simp]:
  "gr_id (cap_lease e now r) = gr_id r" "gr_status (cap_lease e now r) = gr_status r"
  "gr_revision (cap_lease e now r) = gr_revision r"
  "gr_lease_generation (cap_lease e now r) = gr_lease_generation r"
  "gr_lease_token_hash (cap_lease e now r) = gr_lease_token_hash r"
  "same_identity r (cap_lease e now r)"
  by (simp_all add: cap_lease_def same_identity_def)

lemma decodes_cap:
  assumes "decodes db r" "gr_status r = Gs_active" "gr_lease_expires_at r \<noteq> None"
    "validate_iso now" "validate_iso e"
    "db_checkpoints db' = db_checkpoints db" "db_executions db' = db_executions db"
  shows "decodes db' (cap_lease e now r)" "gr_lease_token_hash r \<noteq> None"
proof -
  let ?r = "cap_lease e now r"
  let ?cps = "checkpoints_of db (gr_id r)"
  let ?x = "if gr_lease_generation r = 0 then None
    else selectExecution db (gr_id r) (gr_lease_generation r)"
  have "\<exists>g. decode_goal r ?cps ?x = Inr g"
    using assms(1) by (simp add: decodes_iff toGoalRecord_def)
  note ok = this [unfolded decode_goal_ok_iff]
  then have held: "gr_lease_owner_client_id r \<noteq> None" "gr_lease_owner_session_id r \<noteq> None"
    "gr_lease_token_hash r \<noteq> None" "\<exists>d > 0. gr_lease_duration_seconds r = Some d"
    using assms(3) by (auto simp: validateLeaseState_iff)
  have "\<exists>g. decode_goal ?r ?cps ?x = Inr g"
    unfolding decode_goal_ok_iff
    using ok held assms(2-5)
    by (simp add: validateLeaseState_iff validateTerminalState_iff cap_lease_def)
      (auto simp: validate_iso_iff)
  moreover have "toGoalRecord db' ?r = decode_goal ?r ?cps ?x"
    unfolding toGoalRecord_def checkpoints_of_def selectExecution_def using assms(6,7) by simp
  ultimately show "decodes db' ?r" by (simp add: decodes_iff)
  show "gr_lease_token_hash r \<noteq> None" by (rule held(3))
qed

lemma capE:
  assumes "capGoalLeaseAtClaimSuccessor goal dueAt now required db = Inr db'"
  obtains (free) "g_leaseExpiresAt goal = None" "\<not> required" "db' = db"
  | (held) e capped where "g_leaseExpiresAt goal = Some e" "minIso e dueAt = Inr capped"
    "update_goal (\<lambda>r. gr_id r = g_id goal \<and> gr_status r = Gs_active \<and> gr_revision r = g_revision goal
       \<and> gr_lease_generation r = g_leaseGeneration goal) (cap_lease capped now) db = Inr db'"
  using assms unfolding capGoalLeaseAtClaimSuccessor_def cap_lease_def [abs_def]
  by (auto simp: bind_ok_Inr_iff split: option.splits if_splits)

lemma cap_wakes:
  assumes "capGoalLeaseAtClaimSuccessor goal dueAt now required db = Inr db'"
  shows "same_wakes db db'"
  using assms by (cases rule: capE) (auto simp: same_wakes_def elim!: update_goalE)

lemma cap_step:
  assumes c: "capGoalLeaseAtClaimSuccessor goal dueAt now required db = Inr db'"
    and g: "requireById db (g_id goal) = Inr goal" and now: "validate_iso now"
  shows "store_step db db'"
  using c
proof (cases rule: capE)
  case free
  then show ?thesis by simp
next
  case (held e capped)
  have "goal_trans db db'" if wf: "wf_goals db"
  proof -
    have ids: "distinct (map gr_id (db_goals db))" using wf by (simp add: wf_goals_def)
    obtain r where r: "r \<in> set (db_goals db)" "gr_id r = g_id goal" "gr_status r = Gs_active"
      and db': "db' = db\<lparr>db_goals := replace_goal (cap_lease capped now r) (db_goals db)\<rparr>"
      by (rule update_goal_replace [OF ids held(3)]) auto
    have "gr_lease_expires_at r \<noteq> None"
      using toGoalRecord_fields(16) [OF wf_current [OF wf g r(1,2)]] held(1) by (metis option.discI)
    moreover have "decodes db r" using wf r(1) by (simp add: wf_goals_def)
    moreover have "validate_iso capped" using held(2) by (auto simp: minIso_Inr_iff validate_iso_iff)
    ultimately have "decodes db' (cap_lease capped now r)" "gr_lease_token_hash r \<noteq> None"
      using decodes_cap [of db r now capped db'] r(3) now db' by auto
    then show ?thesis using r db' by (intro renews [of r db "cap_lease capped now r"]) auto
  qed
  then show ?thesis using same_wakes_step [OF cap_wakes [OF c]] by (auto simp: store_step_def)
qed

text \<open>A statement on the continuations, then the cap on the lease of the goal.\<close>

lemma wake_then_cap:
  assumes "store_step db db1" "same_goals db db1"
    "capGoalLeaseAtClaimSuccessor goal dueAt now required db1 = Inr db2"
    "requireById db (g_id goal) = Inr goal" "validate_iso now"
  shows "store_step db db2"
  using assms cap_step [OF assms(3) _ assms(5)] same_goals_require [OF assms(2)] store_step_trans
  by metis

lemma refresh_successorE:
  assumes "refreshUnconfirmedClaimSuccessorIfStale q goal s required db = Inr (db', (s', d))"
  obtains (kept) "capGoalLeaseAtClaimSuccessor goal (cn_due_at s) (kw_now q) required db = Inr db'"
      "s' = s"
  | (refreshed) db1 n where "kw_now q = Instant n"
      "successor_delay_ok (kw_claimSuccessorDueAt q) (kw_now q) = Inr ()"
      "update_continuation (\<lambda>x. at_version (cn_id s) (cn_version s) x \<and> cn_native_task_id x = None
         \<and> cn_status x = Sc_create_failed)
       (\<lambda>x. x\<lparr>cn_status := Sc_prepared, cn_due_at := kw_claimSuccessorDueAt q,
         cn_version := cn_version x + 1, cn_updated_at := kw_now q, cn_last_detail := Some
         ''Truthfully failed claimed successor creation refreshed to the current adaptive retry deadline''\<rparr>)
       db = Inr db1"
      "capGoalLeaseAtClaimSuccessor goal (kw_claimSuccessorDueAt q) (kw_now q) required db1 = Inr db'"
      "requireScheduledContinuationById db' (cn_id s) = Inr s'"
proof (cases "cn_native_task_id s = None \<and> cn_status s = Sc_create_failed")
  case False
  then show ?thesis using assms unfolding refreshUnconfirmedClaimSuccessorIfStale_def
    by (simp only: if_False bind_ok_Inr_iff) (elim exE conjE, intro kept; simp)
next
  case True
  note r = assms [unfolded refreshUnconfirmedClaimSuccessorIfStale_def if_P [OF True]]
  from r obtain due n where t: "cn_due_at s = Instant due" "kw_now q = Instant n"
    by (auto simp: bind_ok_Inr_iff parse_iso_Inr_iff)
  show ?thesis
  proof (cases "n < due")
    case True
    then show ?thesis using r t
      by (simp only: parse_iso_Instant bind_ok_simps if_True bind_ok_Inr_iff)
        (elim exE conjE, intro kept; simp)
  next
    case False
    then show ?thesis using r t
      by (simp only: parse_iso_Instant bind_ok_simps if_False bind_ok_Inr_iff)
        (elim exE conjE, intro refreshed; simp)
  qed
qed

lemma refresh_successor_step:
  assumes "refreshUnconfirmedClaimSuccessorIfStale q goal s required db = Inr (db', (s', d))"
    and g: "requireById db (g_id goal) = Inr goal" and now: "validate_iso (kw_now q)"
  shows "store_step db db'"
  using assms(1)
proof (cases rule: refresh_successorE)
  case kept
  then show ?thesis by (blast intro: cap_step g now)
next
  case (refreshed db1 n)
  then show ?thesis
    by (intro wake_then_cap [OF update_wake_step [OF refreshed(3)] refreshed(4) g now])
      (simp_all add: wake_evolves_def)
qed

lemma reserve_successorE:
  assumes "reserve_successor q c goal i f required aligned db = Inr (db', (s, d))"
  obtains db1 generation where "generation = nextScheduledContinuationGeneration db (g_id goal)"
    "generation = cn_generation c + 1" "successor_delay_ok (kw_claimSuccessorDueAt q) (kw_now q) = Inr ()"
    "aligned \<longrightarrow> lease_aligned_due q = Inr ()"
    "insert_continuation (successor_row q c goal i generation f) db = Inr db1"
    "capGoalLeaseAtClaimSuccessor goal (kw_claimSuccessorDueAt q) (kw_now q) required db1 = Inr db'"
    "requireScheduledContinuationById db' i = Inr s" "d = Sd_freshly_reserved"
  using assms unfolding reserve_successor_def
  by (auto simp: bind_ok_Inr_iff Let_def split: if_splits)

lemma reserve_successor_step:
  assumes "reserve_successor q c goal i f required aligned db = Inr (db', (s, d))"
    and g: "requireById db (g_id goal) = Inr goal" and now: "validate_iso (kw_now q)"
  shows "store_step db db'"
  using assms(1) by (elim reserve_successorE) (rule wake_then_cap [OF insert_wake_step _ g now])

lemma fresh_successorE:
  assumes "prepareFreshClaimSuccessor sha256 q c goal required aligned db = Inr (db', (s, d))"
  obtains (adopted) row where "confirmed_task c" "kw_claimSuccessorId q = ''wake-'' @ take 48 (claim_identity sha256 (cn_id c))"
      "assertClaimSuccessorInvariant q c goal row (claim_identity sha256 (cn_id c)) = Inr ()"
      "selectScheduledContinuationById db (kw_claimSuccessorId q) = Some row
         \<or> selectLiveScheduledContinuation db (g_id goal) = Some row"
      "refreshUnconfirmedClaimSuccessorIfStale q goal row required db = Inr (db', (s, d))"
  | (reserved) "confirmed_task c" "kw_claimSuccessorId q = ''wake-'' @ take 48 (claim_identity sha256 (cn_id c))"
      "selectScheduledContinuationById db (kw_claimSuccessorId q) = None"
      "selectLiveScheduledContinuation db (g_id goal) = None"
      "reserve_successor q c goal (kw_claimSuccessorId q) (claim_identity sha256 (cn_id c)) required aligned db
         = Inr (db', (s, d))"
  using assms unfolding prepareFreshClaimSuccessor_def adopt_successor_def Let_def
  by (auto simp: bind_ok_Inr_iff split: if_splits option.splits dest!: toScheduledContinuationRecord_same)

lemma fresh_successor_step:
  assumes "prepareFreshClaimSuccessor sha256 q c goal required aligned db = Inr (db', (s, d))"
    and g: "requireById db (g_id goal) = Inr goal" and now: "validate_iso (kw_now q)"
  shows "store_step db db'"
  using assms(1) by (cases rule: fresh_successorE)
    (blast intro: refresh_successor_step reserve_successor_step g now)+
section \<open>Claiming\<close>

lemma claim_lease_fields [simp]:
  "gr_id (claim_lease q e r) = gr_id r" "gr_status (claim_lease q e r) = gr_status r"
  "gr_revision (claim_lease q e r) = gr_revision r"
  "gr_lease_generation (claim_lease q e r) = gr_lease_generation r + 1"
  "gr_lease_token_hash (claim_lease q e r) = Some (kw_leaseTokenHash q)"
  "gr_lease_expires_at (claim_lease q e r) = Some e"
  "same_identity r (claim_lease q e r)"
  by (simp_all add: claim_lease_def same_identity_def)

lemma rotateE:
  assumes "rotateExecutionReceiptForLeaseAcquisition g x c s now db = Inr db'"
  obtains db2 ex where "db_goals db2 = db_goals db" "db_checkpoints db2 = db_checkpoints db"
    "same_wakes db db2"
    "db_executions db2 = (if g_leaseGeneration g > 0
       then map (set_receipt (g_id g) (g_leaseGeneration g) Xs_superseded now) (db_executions db)
       else db_executions db)"
    "insertExecution ex db2 = Inr db'" "er_goal_id ex = g_id g"
    "er_lease_generation ex = g_leaseGeneration g + 1"
proof -
  from assms obtain db2 where db2: "(if g_leaseGeneration g > 0
       then updateExecutionState (g_id g) (g_leaseGeneration g) Xs_superseded now db
       else Inr db) = Inr db2"
    and ins: "insertExecution \<lparr>er_id = x, er_goal_id = g_id g,
       er_workspace_id = g_workspaceId g, er_lease_generation = g_leaseGeneration g + 1,
       er_owner_client_id = c, er_owner_session_id = s,
       er_state = Xs_active, er_created_at = now, er_updated_at = now\<rparr> db2 = Inr db'"
    unfolding rotateExecutionReceiptForLeaseAcquisition_def by (elim bind_okE)
  show ?thesis
    by (rule that [OF _ _ _ _ ins]) (use db2 in \<open>auto simp: same_wakes_def elim!: updateExecutionStateE split: if_splits\<close>)
qed

lemma rotate_wakes:
  assumes "rotateExecutionReceiptForLeaseAcquisition g x c s now db = Inr db'"
  shows "same_wakes db db'"
  using assms by (elim rotateE) (auto simp: same_wakes_def elim!: insertExecutionE)

lemma take_wakes: "take_goal_lease q goal db = Inr db' \<Longrightarrow> same_wakes db db'"
  by (auto simp: same_wakes_def take_goal_lease_def bind_ok_Inr_iff elim!: update_goalE)

lemma take_now: "take_goal_lease q goal db = Inr db' \<Longrightarrow> validate_iso (kw_now q)"
  by (auto simp: take_goal_lease_def bind_ok_Inr_iff addSeconds_Inr_iff)

text \<open>The lease is taken, the continuation is changed, the receipt is rotated.\<close>

lemma take_rotate_step:
  assumes t: "take_goal_lease q goal db = Inr db1" and s: "same_goals db1 db2" "store_step db1 db2"
    and r: "rotateExecutionReceiptForLeaseAcquisition goal x c o' now db2 = Inr db3"
    and fin: "requireById db3 (g_id goal) = Inr g"
  shows "store_step db db3"
proof -
  obtain e where u: "update_goal (\<lambda>r. gr_id r = g_id goal \<and> gr_status r = Gs_active
       \<and> gr_revision r = g_revision goal \<and> gr_lease_generation r = g_leaseGeneration goal
       \<and> gr_lease_activity_seq r = g_leaseActivitySeq goal) (claim_lease q e) db = Inr db1"
    using t by (auto simp: take_goal_lease_def bind_ok_Inr_iff)
  have "goal_trans db db3" if "wf_goals db"
    using r
  proof (elim rotateE)
    fix db2' ex
    assume *: "db_goals db2' = db_goals db2" "db_checkpoints db2' = db_checkpoints db2"
      "db_executions db2' = (if g_leaseGeneration goal > 0
       then map (set_receipt (g_id goal) (g_leaseGeneration goal) Xs_superseded now) (db_executions db2)
       else db_executions db2)"
      "insertExecution ex db2' = Inr db3" "er_goal_id ex = g_id goal"
      "er_lease_generation ex = g_leaseGeneration goal + 1"
    show ?thesis
      by (rule taking_trans [OF that u, where i = "g_id goal" and n = "g_leaseGeneration goal"
            and ?db2.0 = db2' and now = now, OF _ _ _ _ _ _ _ _ _ _ *(4-6) fin])
        (use * s(1) in \<open>auto simp: same_goals_def\<close>)
  qed
  moreover have "wakes_step db db3"
    using same_wakes_step [OF take_wakes [OF t]] s(2) same_wakes_step [OF rotate_wakes [OF r]]
      wakes_step_trans unfolding store_step_def by blast
  ultimately show ?thesis by (auto simp: store_step_def)
qed

lemma clear_probe_evolves: "wake_evolves c (clear_probe acq now c)"
  by (simp add: wake_evolves_def clear_probe_def)

definition claim_row :: "acquisition \<Rightarrow> iso \<Rightarrow> scheduled_continuation_row \<Rightarrow> scheduled_continuation_row" where
  "claim_row acq now x = (clear_probe acq now x)\<lparr>cn_status := Sc_claimed, cn_claimed_at := Some now,
     cn_terminal_at := Some now, cn_pending_due_at := None, cn_reschedule_reason := None\<rparr>"

lemma claim_row_evolves: "wake_evolves c (claim_row acq now c)"
  by (simp add: wake_evolves_def claim_row_def clear_probe_def)

lemma claim_leaseE:
  assumes "claimContinuationLease sha256 q c goal acq x db = Inr (db', res)"
  obtains db1 db2 db3 claimed g1 g2 s d where "take_goal_lease q goal db = Inr db1"
    "update_continuation (\<lambda>x. at_version (kw_continuationId q) (cn_version c) x \<and> claimable x)
       (claim_row acq (kw_now q)) db1 = Inr db2"
    "requireScheduledContinuationById db2 (kw_continuationId q) = Inr claimed"
    "rotateExecutionReceiptForLeaseAcquisition goal x (kw_ownerClientId q) (kw_ownerSessionId q)
       (kw_now q) db2 = Inr db3"
    "requireById db3 (g_id goal) = Inr g1"
    "prepareFreshClaimSuccessor sha256 q claimed g1 True True db3 = Inr (db', (s, d))"
    "requireById db' (g_id goal) = Inr g2" "res = Claim_acquired acq g2 claimed s"
  using assms unfolding claimContinuationLease_def claim_row_def [abs_def]
  by (auto simp: bind_ok_Inr_iff)

lemma claim_lease_step:
  assumes "claimContinuationLease sha256 q c goal acq x db = Inr (db', res)"
  shows "store_step db db'"
  using assms
proof (elim claim_leaseE)
  fix db1 db2 db3 claimed g1 g2 s d
  assume t: "take_goal_lease q goal db = Inr db1"
    and u: "update_continuation (\<lambda>x. at_version (kw_continuationId q) (cn_version c) x \<and> claimable x)
       (claim_row acq (kw_now q)) db1 = Inr db2"
    and r: "rotateExecutionReceiptForLeaseAcquisition goal x (kw_ownerClientId q) (kw_ownerSessionId q)
       (kw_now q) db2 = Inr db3"
    and g: "requireById db3 (g_id goal) = Inr g1"
    and p: "prepareFreshClaimSuccessor sha256 q claimed g1 True True db3 = Inr (db', (s, d))"
  note w = update_wake_step [OF u claim_row_evolves]
  have "requireById db3 (g_id g1) = Inr g1" using g requireById_id [OF g] by simp
  then have "store_step db3 db'" using fresh_successor_step [OF p _ take_now [OF t]] by blast
  then show ?thesis using take_rotate_step [OF t w(2,1) r g] store_step_trans by blast
qed

lemma retire_fired_evolves: "wake_evolves c (retire_fired probe goal now c)"
  by (simp add: wake_evolves_def retire_fired_def set_probe_def)

lemma collisionE:
  assumes "prepareFreshCollisionSuccessor sha256 q c goal probe db = Inr (db', res)"
  obtains delay due db1 db2 retired s d s' goal' retry where "confirmed_task c"
    "adaptiveCollisionSuccessorSeconds q c goal (probe \<noteq> None) = Inr delay"
    "addSeconds (kw_now q) delay = Inr due"
    "update_continuation (\<lambda>x. at_version (cn_id c) (cn_version c) x \<and> claimable x)
       (retire_fired probe goal (kw_now q)) db = Inr db1"
    "requireScheduledContinuationById db1 (cn_id c) = Inr retired"
    "prepareFreshClaimSuccessor sha256 (q\<lparr>kw_claimSuccessorDueAt := due\<rparr>) retired goal False False db1
       = Inr (db2, (s, d))"
    "patch_continuation (\<lambda>x. cn_id x = cn_id s)
       (\<lambda>x. (set_probe probe goal (kw_now q) x)\<lparr>cn_reschedule_count := cn_reschedule_count retired,
          cn_last_detail := Some ''Adaptive collision successor reserved from consumed firing wake''\<rparr>) db2
       = Inr db'"
    "requireScheduledContinuationById db' (cn_id s) = Inr s'" "requireById db' (g_id goal) = Inr goal'"
    "res = Claim_successor_required goal' retired s' d retry"
  using assms unfolding prepareFreshCollisionSuccessor_def
  by (auto simp: bind_ok_Inr_iff split: if_splits)

lemma adaptive_now:
  assumes "adaptiveCollisionSuccessorSeconds q c goal probing = Inr n"
  shows "validate_iso (kw_now q)"
  using assms unfolding adaptiveCollisionSuccessorSeconds_def
  by (elim bind_okE) (simp only: parse_iso_Inr_iff validate_iso_Instant)

lemma collision_step:
  assumes "prepareFreshCollisionSuccessor sha256 q c goal probe db = Inr (db', res)"
    and g: "requireById db (g_id goal) = Inr goal"
  shows "store_step db db'"
  using assms(1)
proof (elim collisionE)
  fix delay due db1 db2 retired s d s' goal' retry
  assume a: "adaptiveCollisionSuccessorSeconds q c goal (probe \<noteq> None) = Inr delay"
    and u: "update_continuation (\<lambda>x. at_version (cn_id c) (cn_version c) x \<and> claimable x)
       (retire_fired probe goal (kw_now q)) db = Inr db1"
    and p: "prepareFreshClaimSuccessor sha256 (q\<lparr>kw_claimSuccessorDueAt := due\<rparr>) retired goal False False db1
       = Inr (db2, (s, d))"
    and l: "patch_continuation (\<lambda>x. cn_id x = cn_id s)
       (\<lambda>x. (set_probe probe goal (kw_now q) x)\<lparr>cn_reschedule_count := cn_reschedule_count retired,
          cn_last_detail := Some ''Adaptive collision successor reserved from consumed firing wake''\<rparr>) db2
       = Inr db'"
  note w = update_wake_step [OF u retire_fired_evolves]
  have "store_step db1 db2"
    by (rule fresh_successor_step [OF p]) (use g same_goals_require [OF w(2)] adaptive_now [OF a] in simp_all)
  moreover have "store_step db2 db'"
    by (rule patch_wake_step [OF l]) (simp add: wake_evolves_def set_probe_def)
  ultimately show ?thesis using w(1) store_step_trans by blast
qed

end
