(* ===== verification/Goal_Wake_Takeover.thy ===== *)
theory Goal_Wake_Takeover
  imports Goal_Wake_Protocol
begin

text \<open>
  What a claim does: the views of the one-time and of the recurring claim (which of their branches ran,
  and what its guards say), and the steps both make on the store.
\<close>

section \<open>The one-time claim\<close>

text \<open>
  The evidence a takeover rests on. The worker was observed for this very lease, nothing of it runs,
  and its lease is missing, has run out, or an earlier probe of the same lease saw the same.
\<close>

definition worker_inactive :: "goal_worker_liveness_evidence \<Rightarrow> goal_record \<Rightarrow> int \<Rightarrow> bool" where
  "worker_inactive ev goal now \<longleftrightarrow> confirmed_inactive ev goal
     \<and> le_leaseGeneration ev = g_leaseGeneration goal \<and> le_leaseActivitySeq ev = g_leaseActivitySeq goal
     \<and> (\<exists>seen \<le> now. le_observedAt ev = Instant seen)"

fun lease_lapsed :: "acquisition \<Rightarrow> scheduled_continuation_row \<Rightarrow> goal_record \<Rightarrow> int \<Rightarrow> bool" where
  "lease_lapsed Aq_normal c goal now \<longleftrightarrow> g_leaseExpiresAt goal = None"
| "lease_lapsed Aq_expired_lease c goal now \<longleftrightarrow> (\<exists>e \<le> now. g_leaseExpiresAt goal = Some (Instant e))"
| "lease_lapsed Aq_orphan_recovered c goal now \<longleftrightarrow> matching_probe c goal
     \<and> (\<exists>started. cn_orphan_probe_started_at c = Some (Instant started) \<and> started + 120000 \<le> now)"

definition may_take_over ::
  "claim_wake_request \<Rightarrow> scheduled_continuation_row \<Rightarrow> goal_record \<Rightarrow> acquisition \<Rightarrow> bool" where
  "may_take_over q c goal acq \<longleftrightarrow> g_status goal = Gs_active \<and> confirmed_task c
     \<and> cn_status c \<in> {Sc_prepared, Sc_scheduled, Sc_create_uncertain}
     \<and> (\<exists>now due. kw_now q = Instant now \<and> cn_due_at c = Instant due \<and> due \<le> now + 300000
          \<and> worker_inactive (claim_evidence q goal) goal now \<and> lease_lapsed acq c goal now)"

lemma check_liveness_Inr_iff:
  "check_liveness ev goal now = Inr u \<longleftrightarrow> le_leaseGeneration ev = g_leaseGeneration goal
     \<and> le_leaseActivitySeq ev = g_leaseActivitySeq goal \<and> (\<exists>seen \<le> now. le_observedAt ev = Instant seen)"
  by (cases "le_observedAt ev") (auto simp: check_liveness_def parse_iso_def)

lemma probe_proves_orphanE:
  assumes "probe_proves_orphan c goal now = Inr True"
  shows "lease_lapsed Aq_orphan_recovered c goal now"
proof -
  have m: "matching_probe c goal" using assms by (auto simp: probe_proves_orphan_def split: if_splits)
  then obtain t where t: "cn_orphan_probe_started_at c = Some t" by (auto simp: matching_probe_def)
  obtain s where s: "t = Instant s" "(now - s) div 1000 \<ge> 120"
    using assms m t by (auto simp: probe_proves_orphan_def bind_ok_Inr_iff parse_iso_Inr_iff
        ORPHAN_PROBE_MIN_SECONDS_def)
  have "s + 120000 \<le> now" using s(2) by linarith
  then show ?thesis using m t s(1) by simp
qed

lemma claim_by_leaseE:
  assumes "claim_by_lease sha256 q c goal inactive now x db = Inr (db', res)"
  obtains (collides) probe where "prepareFreshCollisionSuccessor sha256 q c goal probe db = Inr (db', res)"
  | (takes) acq where "inactive" "lease_lapsed acq c goal now"
      "claimContinuationLease sha256 q c goal acq x db = Inr (db', res)"
proof (cases "g_leaseExpiresAt goal")
  case None
  then show ?thesis using assms collides [of None] takes [of Aq_normal]
    by (cases inactive) (simp_all add: claim_by_lease_def)
next
  case (Some t)
  with assms obtain e where t: "t = Instant e"
    by (auto simp: claim_by_lease_def bind_ok_Inr_iff parse_iso_Inr_iff)
  show ?thesis
  proof (cases "e \<le> now")
    case True
    then show ?thesis using assms Some t collides [of None] takes [of Aq_expired_lease]
      by (cases inactive) (simp_all add: claim_by_lease_def)
  next
    case False
    then show ?thesis using assms Some t collides by (simp add: claim_by_lease_def)
  qed
qed

lemma claim_firedE:
  assumes "claim_fired sha256 q c goal x db = Inr (db', res)" "g_status goal = Gs_active"
    "cn_status c \<in> {Sc_prepared, Sc_scheduled, Sc_create_uncertain}"
  obtains (unconfirmed) "db' = db" "res = Claim_receipt_required goal c"
  | (collides) probe where "prepareFreshCollisionSuccessor sha256 q c goal probe db = Inr (db', res)"
  | (takes) acq where "may_take_over q c goal acq"
      "claimContinuationLease sha256 q c goal acq x db = Inr (db', res)"
proof -
  let ?ev = "claim_evidence q goal"
  from assms(1) obtain now due where t: "kw_now q = Instant now" "cn_due_at c = Instant due"
    unfolding claim_fired_def by (elim bind_okE) (simp only: parse_iso_Inr_iff)
  have tol: "0 \<le> early_tolerance q" "early_tolerance q \<le> 300"
    using assms(1) t by (auto simp: claim_fired_def Let_def split: if_splits)
  consider (u) "\<not> confirmed_task c"
    | (e) "confirmed_task c" "now + early_tolerance q * 1000 < due"
    | (f) "confirmed_task c" "due \<le> now + early_tolerance q * 1000" by linarith
  then show ?thesis
  proof cases
    case u
    then show ?thesis using assms(1) t tol unconfirmed by (simp add: claim_fired_def)
  next
    case e
    then show ?thesis using assms(1) t tol collides by (simp add: claim_fired_def)
  next
    case f
    from assms(1) f t tol obtain orphan where
      live: "check_liveness ?ev goal now = Inr ()"
      and o: "(if confirmed_inactive ?ev goal then probe_proves_orphan c goal now else Inr False) = Inr orphan"
      and r: "(if orphan then claimContinuationLease sha256 q c goal Aq_orphan_recovered x db
        else claim_by_lease sha256 q c goal (confirmed_inactive ?ev goal) now x db) = Inr (db', res)"
      by (simp add: claim_fired_def Let_def) (elim bind_okE, simp)
    have just: "may_take_over q c goal acq" if "lease_lapsed acq c goal now" "confirmed_inactive ?ev goal" for acq
    proof -
      have "worker_inactive ?ev goal now"
        using that(2) live unfolding worker_inactive_def check_liveness_Inr_iff by simp
      moreover have "due \<le> now + 300000" using f(2) tol by linarith
      ultimately show ?thesis using that(1) assms(2,3) f(1) t by (simp add: may_take_over_def)
    qed
    show ?thesis
    proof (cases orphan)
      case True
      then have "confirmed_inactive ?ev goal" "lease_lapsed Aq_orphan_recovered c goal now"
        using o probe_proves_orphanE by (simp_all split: if_splits del: lease_lapsed.simps)
      then show ?thesis using r True takes [OF just [of Aq_orphan_recovered]]
        by (simp del: lease_lapsed.simps)
    next
      case False
      then have "claim_by_lease sha256 q c goal (confirmed_inactive ?ev goal) now x db = Inr (db', res)"
        using r by simp
      then show ?thesis
      proof (cases rule: claim_by_leaseE)
        case (collides probe)
        then show ?thesis by (rule that(2))
      next
        case (takes acq)
        then show ?thesis using that(3) [OF just] by blast
      qed
    qed
  qed
qed

lemma claim_onceE:
  assumes "claim_once sha256 q c goal x db = Inr (db', res)"
  obtains (same) "db' = db" "res \<in> {Claim_already_claimed goal c, Claim_receipt_required goal c}"
  | (noop) "terminal_noop_claim q c goal db = Inr (db', res)"
  | (recovers) reread where "recover_successor sha256 q c goal reread db = Inr (db', res)"
  | (collides) probe where "prepareFreshCollisionSuccessor sha256 q c goal probe db = Inr (db', res)"
  | (takes) acq where "may_take_over q c goal acq"
      "claimContinuationLease sha256 q c goal acq x db = Inr (db', res)"
proof -
  consider (cl) "cn_status c = Sc_claimed" | (su) "cn_status c = Sc_superseded"
    | (te) "cn_status c \<noteq> Sc_claimed" "cn_status c \<noteq> Sc_superseded"
        "cn_status c = Sc_terminal_noop \<or> g_status goal \<noteq> Gs_active"
    | (rs) "cn_status c \<in> {Sc_reschedule_required, Sc_reschedule_failed, Sc_reschedule_uncertain}"
        "g_status goal = Gs_active"
    | (fi) "cn_status c \<in> {Sc_prepared, Sc_scheduled, Sc_create_uncertain}" "g_status goal = Gs_active"
    | (ot) "g_status goal = Gs_active" "cn_status c \<notin> {Sc_claimed, Sc_superseded, Sc_terminal_noop,
        Sc_reschedule_required, Sc_reschedule_failed, Sc_reschedule_uncertain, Sc_prepared, Sc_scheduled,
        Sc_create_uncertain}"
    by blast
  then show ?thesis
  proof cases
    case cl
    then have "claim_again sha256 q c goal db = Inr (db', res)" using assms by (simp add: claim_once_def)
    then show ?thesis using same recovers unfolding claim_again_def
      by (auto simp: bind_ok_Inr_iff split: if_splits option.splits)
  next
    case su
    then show ?thesis using assms same recovers by (auto simp: claim_once_def split: if_splits)
  next
    case te
    then show ?thesis using assms noop by (simp add: claim_once_def)
  next
    case rs
    then have "prepareFreshCollisionSuccessor sha256 q c goal (cn_orphan_probe_started_at c) db = Inr (db', res)"
      using assms by (auto simp: claim_once_def split: if_splits)
    then show ?thesis by (rule collides)
  next
    case fi
    then have "claim_fired sha256 q c goal x db = Inr (db', res)"
      using assms by (auto simp: claim_once_def)
    then show ?thesis using fi(2,1)
    proof (cases rule: claim_firedE)
      case unconfirmed
      then show ?thesis by (intro same) simp_all
    next
      case (collides probe)
      then show ?thesis by (rule that(4))
    next
      case (takes acq)
      then show ?thesis by (rule that(5))
    qed
  next
    case ot
    then show ?thesis using assms by (simp add: claim_once_def)
  qed
qed
section \<open>The recurring claim\<close>

definition lapsed_for_run ::
  "acquisition \<Rightarrow> claim_wake_request \<Rightarrow> goal_worker_liveness_evidence \<Rightarrow> goal_record \<Rightarrow> int \<Rightarrow> bool" where
  "lapsed_for_run acq q ev goal now = (case acq of
     Aq_normal \<Rightarrow> g_leaseExpiresAt goal = None
   | Aq_expired_lease \<Rightarrow> (\<exists>e \<le> now. g_leaseExpiresAt goal = Some (Instant e))
   | Aq_orphan_recovered \<Rightarrow> (\<exists>why. assessGoalWorkerLiveness \<lparr>wl_goal = goal,
       wl_evidence = Some (ev\<lparr>le_blockingTaskStates := Some (blockingStates ev), le_activeTaskStates := None\<rparr>),
       wl_now = kw_now q, wl_hasLiveScheduledContinuation = True, wl_staleHeartbeatGraceSeconds = None\<rparr>
       = Inr (Inactive why)))"

definition may_run ::
  "claim_wake_request \<Rightarrow> scheduled_continuation_row \<Rightarrow> goal_record \<Rightarrow> acquisition \<Rightarrow> bool" where
  "may_run q c goal acq \<longleftrightarrow> g_status goal = Gs_active \<and> confirmed_task c
     \<and> cn_status c \<in> {Sc_scheduled, Sc_create_uncertain}
     \<and> (\<exists>now ev. kw_now q = Instant now \<and> kw_liveness q = Some ev \<and> worker_inactive ev goal now
          \<and> lapsed_for_run acq q ev goal now)"

lemma recurring_runE:
  assumes "claim_recurring_run sha256 q c goal ev runKey now x db = Inr (db', res)"
  obtains (busy) detail retry where "busy_run sha256 q c goal runKey detail retry db = Inr (db', res)"
  | (takes) acq where "confirmed_inactive ev goal" "lapsed_for_run acq q ev goal now"
      "claimRecurringContinuationLease sha256 q c goal acq runKey x db = Inr (db', res)"
proof (cases "confirmed_inactive ev goal")
  case False
  from assms obtain lease where l: "(case g_leaseExpiresAt goal of None \<Rightarrow> Inr None
        | Some t \<Rightarrow> bind_ok (parse_iso t) (\<lambda>e. Inr (Some e))) = Inr lease"
    unfolding claim_recurring_run_def Let_def by (elim bind_okE)
  from assms l False obtain detail where "busy_run sha256 q c goal runKey detail None db = Inr (db', res)"
    unfolding claim_recurring_run_def Let_def by (simp split: if_splits)
  then show ?thesis by (rule busy)
next
  case ina: True
  show ?thesis
  proof (cases "g_leaseExpiresAt goal")
    case None
    then have "claimRecurringContinuationLease sha256 q c goal Aq_normal runKey x db = Inr (db', res)"
      using assms ina by (simp add: claim_recurring_run_def)
    then show ?thesis using None by (intro takes [OF ina]) (simp_all add: lapsed_for_run_def)
  next
    case (Some t)
    then obtain e where t: "t = Instant e"
      using assms by (cases t) (simp_all add: claim_recurring_run_def parse_iso_def)
    show ?thesis
    proof (cases "e \<le> now")
      case True
      then have "claimRecurringContinuationLease sha256 q c goal Aq_expired_lease runKey x db = Inr (db', res)"
        using assms ina Some t by (simp add: claim_recurring_run_def)
      then show ?thesis using Some t True by (intro takes [OF ina]) (simp_all add: lapsed_for_run_def)
    next
      case False
      let ?ev = "Some (ev\<lparr>le_blockingTaskStates := Some (blockingStates ev), le_activeTaskStates := None\<rparr>)"
      from assms ina Some t False obtain recover retry where
        a: "assessStaleGoalLeaseRecovery goal ?ev (kw_now q) True = Inr (recover, retry)"
        by (simp add: claim_recurring_run_def bind_ok_Inr_iff) blast
      show ?thesis
      proof (cases recover)
        case True
        then have "claimRecurringContinuationLease sha256 q c goal Aq_orphan_recovered runKey x db
            = Inr (db', res)"
          using assms ina Some t False a by (simp add: claim_recurring_run_def)
        then show ?thesis
          using recovery_inactive [of goal ?ev "kw_now q" True retry] a True
          by (intro takes [OF ina]) (simp_all add: lapsed_for_run_def)
      next
        case False
        then obtain n where "busy_run sha256 q c goal runKey
            ''No live worker was observed, but the lease heartbeat is still within the bounded stale-recovery grace''
            (Some n) db = Inr (db', res)"
          using assms ina Some t \<open>\<not> e \<le> now\<close> a by (auto simp: claim_recurring_run_def bind_ok_Inr_iff)
        then show ?thesis by (rule busy)
      qed
    qed
  qed
qed

text \<open>The same hour is not claimed again once a run of it was recorded as anything but busy.\<close>

definition run_open :: "goal_db \<Rightarrow> scheduled_continuation_row \<Rightarrow> string \<Rightarrow> bool" where
  "run_open db c runKey \<longleftrightarrow> recurringRunOutcome db (cn_id c) runKey \<in> {None, Some Ru_worker_busy_noop}"

lemma claim_due_runE:
  assumes "claim_due_run sha256 q c goal x db = Inr (db', res)" "g_status goal = Gs_active"
    "confirmed_task c" "cn_status c \<in> {Sc_scheduled, Sc_create_uncertain}"
  obtains (same) n where "db' = db" "res \<in> {Claim_already_claimed goal c, Claim_not_due goal c n}"
  | (busy) runKey detail retry where "recurringRunKey c (kw_now q) = Inr runKey" "run_open db c runKey"
      "busy_run sha256 q c goal runKey detail retry db = Inr (db', res)"
  | (takes) acq runKey where "recurringRunKey c (kw_now q) = Inr runKey" "run_open db c runKey"
      "may_run q c goal acq"
      "claimRecurringContinuationLease sha256 q c goal acq runKey x db = Inr (db', res)"
proof -
  from assms(1) obtain due now where t: "cn_due_at c = Instant due" "kw_now q = Instant now"
    unfolding claim_due_run_def by (elim bind_okE) (simp only: parse_iso_Inr_iff)
  note r = assms(1) [unfolded claim_due_run_def t parse_iso_Instant bind_ok_simps, folded t]
  show ?thesis
  proof (cases "now + max 0 (early_tolerance q) * 1000 < due")
    case True
    then show ?thesis using r by (intro same [of "max 1 (ceil_div_1000 (due - now))"]) simp_all
  next
    case False
    note r = r [unfolded if_not_P [OF False]]
    from r obtain runKey where k: "recurringRunKey c (kw_now q) = Inr runKey" by (elim bind_okE)
    note r = r [unfolded k bind_ok_simps Let_def]
    show ?thesis
    proof (cases "run_open db c runKey")
      case False
      then show ?thesis using r by (intro same) (simp_all add: run_open_def)
    next
      case op: True
      then have "\<not> (recurringRunOutcome db (cn_id c) runKey \<noteq> None
          \<and> recurringRunOutcome db (cn_id c) runKey \<noteq> Some Ru_worker_busy_noop)"
        by (auto simp: run_open_def)
      note r = r [unfolded if_not_P [OF this]]
      from r obtain ev where ev: "kw_liveness q = Some ev" by (cases "kw_liveness q") simp_all
      note r = r [unfolded ev option.case]
      from r have live: "check_liveness ev goal now = Inr ()" by (elim bind_okE) simp
      note r = r [unfolded live bind_ok_simps]
      show ?thesis
      proof (cases "recurringRunOutcome db (cn_id c) runKey \<noteq> None \<and> \<not> confirmed_inactive ev goal")
        case True
        then show ?thesis using r by (intro same) simp_all
      next
        case False
        show ?thesis using r [unfolded if_not_P [OF False]]
        proof (cases rule: recurring_runE)
          case (busy detail retry)
          then show ?thesis using that(2) [OF k op] by blast
        next
          case (takes acq)
          then have "may_run q c goal acq"
            using assms(2-4) t(2) ev live
            by (auto simp: may_run_def worker_inactive_def check_liveness_Inr_iff)
          then show ?thesis using that(3) [OF k op] takes(3) by blast
        qed
      qed
    qed
  qed
qed

lemma claim_recurringE:
  assumes "claimRecurringScheduledContinuation sha256 q c goal active x db = Inr (db', res)"
  obtains (same) n where "db' = db" "res \<in> {Claim_terminal_noop goal c, Claim_receipt_required goal c,
      Claim_already_claimed goal c, Claim_not_due goal c n}"
  | (cleans) runKey detail where "recurringRunKey c (kw_now q) = Inr runKey"
      "recurringRunOutcome db (cn_id c) runKey = None"
      "recordRecurringRun sha256 c runKey Ru_terminal_cleanup_required (kw_now q) None detail db = Inr db'"
      "res = Claim_cleanup_required goal c runKey"
  | (busy) runKey detail retry where "recurringRunKey c (kw_now q) = Inr runKey" "run_open db c runKey"
      "busy_run sha256 q c goal runKey detail retry db = Inr (db', res)"
  | (takes) acq runKey where "active" "recurringRunKey c (kw_now q) = Inr runKey" "run_open db c runKey"
      "may_run q c goal acq"
      "claimRecurringContinuationLease sha256 q c goal acq runKey x db = Inr (db', res)"
proof -
  have clean: ?thesis if "cleanup_run sha256 q c goal detail db = Inr (db', res)" for detail
  proof (cases "confirmed_task c")
    case False
    then show ?thesis using that by (intro same) (simp_all add: cleanup_run_def)
  next
    case True
    with that obtain runKey where k: "recurringRunKey c (kw_now q) = Inr runKey"
      by (simp add: cleanup_run_def) (elim bind_okE)
    show ?thesis
    proof (cases "recurringRunOutcome db (cn_id c) runKey")
      case None
      then show ?thesis using that True k
        by (intro cleans [OF k]) (auto simp: cleanup_run_def bind_ok_Inr_iff)
    next
      case (Some out)
      then show ?thesis using that True k by (intro same) (simp_all add: cleanup_run_def)
    qed
  qed
  have sixty: "cn_interval_minutes c = Some 60"
    by (rule ccontr) (use assms in \<open>simp add: claimRecurringScheduledContinuation_def\<close>)
  note r = assms [unfolded claimRecurringScheduledContinuation_def sixty]
  let ?cancelling = "cn_status c \<in> {Sc_cancel_required, Sc_cancel_failed, Sc_cancel_uncertain}"
  consider (retired) "cn_status c = Sc_terminal_noop"
    | (over) "cn_status c \<noteq> Sc_terminal_noop" "active" "\<not> ?cancelling" "g_status goal \<noteq> Gs_active"
    | (archived) "cn_status c \<noteq> Sc_terminal_noop" "\<not> active"
    | (cancelling) "cn_status c \<noteq> Sc_terminal_noop" "active" ?cancelling
    | (un) "cn_status c \<noteq> Sc_terminal_noop" "active" "\<not> ?cancelling" "g_status goal = Gs_active"
        "\<not> confirmed_task c"
    | (fires) "cn_status c \<noteq> Sc_terminal_noop" "active" "\<not> ?cancelling" "g_status goal = Gs_active"
        "confirmed_task c"
    by blast
  then show ?thesis
  proof cases
    case retired
    then show ?thesis using r by (intro same) simp_all
  next
    case over
    then show ?thesis using r by (intro same) simp_all
  next
    case archived
    then show ?thesis using r by (simp only: if_False if_True simp_thms) (rule clean)
  next
    case cancelling
    then show ?thesis using r by (simp only: if_False if_True simp_thms) (rule clean)
  next
    case un
    then show ?thesis using r by (intro same) simp_all
  next
    case fires
    note r = r [simplified fires simp_thms if_False if_True]
    have st: "cn_status c \<in> {Sc_scheduled, Sc_create_uncertain}"
      by (rule ccontr) (use r in simp)
    have "claim_due_run sha256 q c goal x db = Inr (db', res)" using r st by auto
    then show ?thesis
      using fires(4,5) st
    proof (cases rule: claim_due_runE)
      case (same n)
      then show ?thesis by (intro that(1)) auto
    next
      case (busy runKey detail retry)
      then show ?thesis by (rule that(3))
    next
      case (takes acq runKey)
      then show ?thesis by (rule that(4) [OF fires(2)])
    qed
  qed
qed
section \<open>Claims are steps of the store\<close>

lemma claimE:
  assumes "claimScheduledContinuation sha256 q x db = Inr (db', res)"
  obtains c goal where "selectScheduledContinuationById db (kw_continuationId q) = Some c"
    "toScheduledContinuationRecord c = Inr c" "requireById db (cn_goal_id c) = Inr goal"
    "g_id goal = cn_goal_id c"
    "cn_occurrence c \<noteq> So_interval \<and> terminal_noop_claim q c goal db = Inr (db', res)
     \<or> cn_occurrence c = So_interval \<and> claimRecurringScheduledContinuation sha256 q c goal
          (isWorkspaceActive db (g_workspaceId goal)) x db = Inr (db', res)
     \<or> cn_occurrence c \<noteq> So_interval \<and> isWorkspaceActive db (g_workspaceId goal)
        \<and> claim_once sha256 q c goal x db = Inr (db', res)"
proof -
  from assms obtain row where row: "selectScheduledContinuationById db (kw_continuationId q) = Some row"
    by (cases "selectScheduledContinuationById db (kw_continuationId q)")
      (simp_all add: claimScheduledContinuation_def)
  note r = assms [unfolded claimScheduledContinuation_def row option.case]
  from r obtain c goal where d: "toScheduledContinuationRecord row = Inr c"
    "requireById db (cn_goal_id row) = Inr goal" by (elim bind_okE)
  have c: "c = row" using d(1) by (rule toScheduledContinuationRecord_same)
  show ?thesis
    by (rule that [OF row _ d(2) requireById_id [OF d(2)]])
      (use r d c in \<open>auto simp: Let_def split: if_splits\<close>)
qed

lemma terminal_noop_step:
  assumes "terminal_noop_claim q c goal db = Inr (db', res)"
  shows "store_step db db'" "\<exists>goal' c'. res = Claim_terminal_noop goal' c'"
proof -
  have "db' = db \<or> (\<exists>P. update_continuation P (\<lambda>x. x\<lparr>cn_status := Sc_terminal_noop,
      cn_version := cn_version x + 1, cn_updated_at := kw_now q, cn_terminal_at := Some (kw_now q)\<rparr>) db = Inr db')"
    and "\<exists>goal' c'. res = Claim_terminal_noop goal' c'"
    using assms by (auto simp: terminal_noop_claim_def bind_ok_Inr_iff split: if_splits)
  then show "store_step db db'" "\<exists>goal' c'. res = Claim_terminal_noop goal' c'"
    by (auto dest: update_wake_step simp: wake_evolves_def)
qed

lemma recoverE:
  assumes "recover_successor sha256 q c goal reread db = Inr (db', res)"
  obtains s d goal' retry where
    "prepareFreshClaimSuccessor sha256 q c goal False True db = Inr (db', (s, d))"
    "secondsBetween (kw_now q) (cn_due_at s) = Inr retry"
    "res = Claim_successor_required goal' c s d retry"
  using assms by (auto simp: recover_successor_def bind_ok_Inr_iff)

lemma recover_step:
  assumes "recover_successor sha256 q c goal reread db = Inr (db', res)"
    and "requireById db (g_id goal) = Inr goal"
  shows "store_step db db'"
  using assms(1)
proof (elim recoverE)
  fix s d retry
  assume p: "prepareFreshClaimSuccessor sha256 q c goal False True db = Inr (db', (s, d))"
    and "secondsBetween (kw_now q) (cn_due_at s) = Inr retry"
  then have "validate_iso (kw_now q)" by (auto simp: secondsBetween_def bind_ok_Inr_iff parse_iso_Inr_iff)
  then show ?thesis by (rule fresh_successor_step [OF p assms(2)])
qed

lemma record_run_outcome:
  assumes "recordRecurringRun sha256 c runKey out now gen detail db = Inr db'"
  shows "recurringRunOutcome db' i k =
    (if i = cn_id c \<and> k = runKey then Some out else recurringRunOutcome db i k)"
proof -
  let ?P = "\<lambda>r. rn_continuation_id r = cn_id c \<and> rn_run_key r = runKey"
  obtain native where n: "cn_native_task_id c = Some native"
    using assms by (cases "cn_native_task_id c") (simp_all add: recordRecurringRun_def)
  let ?f = "\<lambda>r. r\<lparr>rn_observed_at := now, rn_outcome := out, rn_lease_generation := gen,
         rn_detail := detail, rn_updated_at := now\<rparr>"
  let ?Q = "\<lambda>r. rn_continuation_id r = i \<and> rn_run_key r = k"
  have hit: "map_option rn_outcome (row_get ?P (row_update ?P ?f rs)) = Some out" if "\<exists>r \<in> set rs. ?P r" for rs
    using that
  proof (induction rs)
    case (Cons a rs)
    then show ?case by (cases "?P a") auto
  qed simp
  have miss: "map_option rn_outcome (row_get ?Q (row_update ?P ?f rs)) = map_option rn_outcome (row_get ?Q rs)"
    if "\<not> (i = cn_id c \<and> k = runKey)" for rs
    using that by (induction rs) auto
  show ?thesis
  proof (cases "\<exists>r \<in> set (db_runs db). ?P r")
    case True
    then have "db' = db\<lparr>db_runs := row_update ?P ?f (db_runs db)\<rparr>"
      using assms n by (simp add: recordRecurringRun_def Let_def)
    then show ?thesis using hit [OF True] miss [of "db_runs db"]
      by (auto simp: recurringRunOutcome_def)
  next
    case False
    have app: "row_get Q (rs @ [r]) = (case row_get Q rs of None \<Rightarrow> if Q r then Some r else None | Some x \<Rightarrow> Some x)"
      for Q and r :: continuation_run_row and rs by (induction rs) auto
    have "row_get ?P (db_runs db) = None" using False by (simp add: row_get_None_iff)
    then show ?thesis using assms n False
      by (auto simp: recordRecurringRun_def Let_def recurringRunOutcome_def app split: if_splits option.splits)
  qed
qed

lemma record_run_frame:
  assumes "recordRecurringRun sha256 c runKey out now gen detail db = Inr db'"
  shows "same_goals db db'" "run_open db c runKey \<Longrightarrow> store_step db db'"
proof -
  have "\<exists>rs. db' = db\<lparr>db_runs := rs\<rparr>"
    using assms unfolding recordRecurringRun_def Let_def by (auto split: option.splits if_splits)
  then have *: "same_goals db db'" "db_continuations db' = db_continuations db"
    by (auto simp: same_goals_def)
  then show "same_goals db db'" by simp
  assume open_: "run_open db c runKey"
  have "runs_kept db db'"
    using record_run_outcome [OF assms] open_ by (auto simp: runs_kept_def run_open_def)
  then have "wakes_step db db'"
    using *(2) by (simp add: wakes_step_def wakes_ok_def wakes_extend_def) (blast intro: wake_evolves_refl)
  then show "store_step db db'" by (rule store_stepI [OF *(1)])
qed

lemma busy_runE:
  assumes "busy_run sha256 q c goal runKey detail retry db = Inr (db', res)"
  obtains n where "recordRecurringRun sha256 c runKey Ru_worker_busy_noop (kw_now q) None detail db = Inr db'"
    "res = Claim_worker_busy goal c runKey n"
  using assms by (auto simp: busy_run_def bind_ok_Inr_iff)

lemma recurring_leaseE:
  assumes "claimRecurringContinuationLease sha256 q c goal acq runKey x db = Inr (db', res)"
  obtains db1 db2 db3 observed g where "take_goal_lease q goal db = Inr db1"
    "same_goals db1 db2" "store_step db1 db2" "db_runs db2 = db_runs db1" "cn_id observed = cn_id c"
    "rotateExecutionReceiptForLeaseAcquisition goal x (kw_ownerClientId q) (kw_ownerSessionId q)
       (kw_now q) db2 = Inr db3"
    "requireById db3 (g_id goal) = Inr g"
    "recordRecurringRun sha256 observed runKey
       (if acq = Aq_orphan_recovered then Ru_orphan_recovered else Ru_acquired) (kw_now q)
       (Some (g_leaseGeneration g))
       (''Recurring watchdog acquired durable lease ('' @ acquisition_name acq @ '')'') db3 = Inr db'"
    "res = Claim_recurring_acquired acq g observed runKey"
proof -
  from assms obtain db1 p where r: "take_goal_lease q goal db = Inr db1"
    "(if cn_orphan_probe_started_at c \<noteq> None \<or> cn_orphan_probe_lease_generation c \<noteq> None
         \<or> cn_orphan_probe_activity_seq c \<noteq> None then
         bind_ok (update_continuation (\<lambda>x. at_version (cn_id c) (cn_version c) x
             \<and> cn_status x = Sc_scheduled \<and> cn_occurrence x = So_interval)
           (clear_probe acq (kw_now q)) db1) (\<lambda>db2.
         bind_ok (requireScheduledContinuationById db2 (cn_id c)) (\<lambda>c'. Inr (db2, c')))
       else Inr (db1, c)) = Inr p"
    and k: "(case p of (db2, observed) \<Rightarrow>
       bind_ok (rotateExecutionReceiptForLeaseAcquisition goal x (kw_ownerClientId q)
         (kw_ownerSessionId q) (kw_now q) db2) (\<lambda>db3.
       bind_ok (requireById db3 (g_id goal)) (\<lambda>claimedGoal.
       bind_ok (recordRecurringRun sha256 observed runKey
         (if acq = Aq_orphan_recovered then Ru_orphan_recovered else Ru_acquired) (kw_now q)
         (Some (g_leaseGeneration claimedGoal))
         (''Recurring watchdog acquired durable lease ('' @ acquisition_name acq @ '')'') db3) (\<lambda>db4.
       Inr (db4, Claim_recurring_acquired acq claimedGoal observed runKey))))) = Inr (db', res)"
    unfolding claimRecurringContinuationLease_def by (elim bind_okE)
  obtain db2 observed where p: "p = (db2, observed)" by (cases p)
  note r = r [unfolded p]
  from k [unfolded p prod.case] obtain db3 g where
    rest: "rotateExecutionReceiptForLeaseAcquisition goal x (kw_ownerClientId q) (kw_ownerSessionId q)
       (kw_now q) db2 = Inr db3"
    "requireById db3 (g_id goal) = Inr g"
    "recordRecurringRun sha256 observed runKey
       (if acq = Aq_orphan_recovered then Ru_orphan_recovered else Ru_acquired) (kw_now q)
       (Some (g_leaseGeneration g))
       (''Recurring watchdog acquired durable lease ('' @ acquisition_name acq @ '')'') db3 = Inr db'"
    "res = Claim_recurring_acquired acq g observed runKey"
    by (elim bind_okE) (simp only: sum.inject prod.inject)
  have "same_goals db1 db2 \<and> store_step db1 db2 \<and> db_runs db2 = db_runs db1 \<and> cn_id observed = cn_id c"
    using r(2) by (auto simp: bind_ok_Inr_iff clear_probe_evolves split: if_splits
        dest: update_wake_step elim!: requireWakeE elim: update_continuationE)
  then show ?thesis using that [OF r(1) _ _ _ _ rest] by blast
qed
lemma recurring_lease_step:
  assumes "claimRecurringContinuationLease sha256 q c goal acq runKey x db = Inr (db', res)"
    and "run_open db c runKey"
  shows "store_step db db'"
  using assms(1)
proof (elim recurring_leaseE)
  fix db1 db2 db3 observed g
  assume t: "take_goal_lease q goal db = Inr db1" and s: "same_goals db1 db2" "store_step db1 db2"
    and runs: "db_runs db2 = db_runs db1" "cn_id observed = cn_id c"
    and r: "rotateExecutionReceiptForLeaseAcquisition goal x (kw_ownerClientId q) (kw_ownerSessionId q)
       (kw_now q) db2 = Inr db3"
    and g: "requireById db3 (g_id goal) = Inr g"
    and rec: "recordRecurringRun sha256 observed runKey
       (if acq = Aq_orphan_recovered then Ru_orphan_recovered else Ru_acquired) (kw_now q)
       (Some (g_leaseGeneration g))
       (''Recurring watchdog acquired durable lease ('' @ acquisition_name acq @ '')'') db3 = Inr db'"
  have "db_runs db3 = db_runs db"
    using take_wakes [OF t] rotate_wakes [OF r] runs(1) by (simp add: same_wakes_def)
  then have "run_open db3 observed runKey"
    using assms(2) runs(2) by (simp add: run_open_def recurringRunOutcome_def)
  then have "store_step db3 db'" by (rule record_run_frame(2) [OF rec])
  then show ?thesis using take_rotate_step [OF t s r g] store_step_trans by blast
qed

lemma claim_once_step:
  assumes "claim_once sha256 q c goal x db = Inr (db', res)" "requireById db (g_id goal) = Inr goal"
  shows "store_step db db'"
  using assms(1)
proof (cases rule: claim_onceE)
  case same
  then show ?thesis by simp
next
  case noop
  then show ?thesis by (rule terminal_noop_step)
next
  case (recovers reread)
  then show ?thesis by (rule recover_step [OF _ assms(2)])
next
  case (collides probe)
  then show ?thesis by (rule collision_step [OF _ assms(2)])
next
  case (takes acq)
  then show ?thesis by (blast intro: claim_lease_step)
qed

lemma claim_recurring_step:
  assumes "claimRecurringScheduledContinuation sha256 q c goal active x db = Inr (db', res)"
  shows "store_step db db'"
  using assms
proof (cases rule: claim_recurringE)
  case same
  then show ?thesis by simp
next
  case (cleans runKey detail)
  then show ?thesis using record_run_frame(2) by (simp add: run_open_def)
next
  case (busy runKey detail retry)
  then show ?thesis by (elim busy_runE) (rule record_run_frame)
next
  case (takes acq runKey)
  then show ?thesis by (blast intro: recurring_lease_step)
qed

lemma claim_wake_step:
  assumes "claimScheduledContinuation sha256 q x db = Inr (db', res)"
  shows "store_step db db'"
  using assms
proof (elim claimE)
  fix c goal
  assume g: "requireById db (cn_goal_id c) = Inr goal" "g_id goal = cn_goal_id c"
    and "cn_occurrence c \<noteq> So_interval \<and> terminal_noop_claim q c goal db = Inr (db', res)
     \<or> cn_occurrence c = So_interval \<and> claimRecurringScheduledContinuation sha256 q c goal
          (isWorkspaceActive db (g_workspaceId goal)) x db = Inr (db', res)
     \<or> cn_occurrence c \<noteq> So_interval \<and> isWorkspaceActive db (g_workspaceId goal)
        \<and> claim_once sha256 q c goal x db = Inr (db', res)"
  then show ?thesis
    using claim_once_step [of sha256 q c goal x db db' res] claim_recurring_step terminal_noop_step(1)
    by auto
qed

section \<open>The other operations and the continuation table\<close>

lemma distinct_filter_update:
  assumes "distinct (map k (filter Q rs))" "\<And>r. k (f r) = k r"
    "\<And>r. r \<in> set rs \<Longrightarrow> P r \<Longrightarrow> Q (f r) \<Longrightarrow> Q r"
  shows "distinct (map k (filter Q (row_update P f rs)))
    \<and> set (map k (filter Q (row_update P f rs))) \<subseteq> set (map k (filter Q rs))"
  using assms(1,3)
proof (induction rs)
  case (Cons a rs)
  let ?a = "if P a then f a else a"
  have IH: "distinct (map k (filter Q (row_update P f rs)))"
    "set (map k (filter Q (row_update P f rs))) \<subseteq> set (map k (filter Q rs))"
    using Cons by (auto split: if_splits)
  have k: "k ?a = k a" by (simp add: assms(2))
  show ?case
  proof (cases "Q ?a")
    case True
    then have "Q a" using Cons.prems(2) [of a] by (auto split: if_splits)
    then show ?thesis using True IH k Cons.prems(1) by (simp only: row_update_Cons filter.simps if_True list.map distinct.simps) auto
  next
    case False
    then show ?thesis using IH by (simp only: row_update_Cons filter.simps if_False) auto
  qed
qed simp

lemma continuations_ok_update:
  assumes "continuations_ok cs"
    and "\<And>c. cn_id (f c) = cn_id c" "\<And>c. cn_goal_id (f c) = cn_goal_id c"
      "\<And>c. cn_generation (f c) = cn_generation c"
      "\<And>c. cn_source_goal_revision (f c) = cn_source_goal_revision c"
      "\<And>c. cn_request_fingerprint (f c) = cn_request_fingerprint c"
    and "\<And>c. c \<in> set cs \<Longrightarrow> P c \<Longrightarrow> continuation_row_ok c \<Longrightarrow>
      continuation_row_ok (f c) \<and> (is_live (f c) \<longrightarrow> is_live c)"
  shows "continuations_ok (row_update P f cs)"
proof -
  have rows: "list_all continuation_row_ok cs" using assms(1) by (simp add: continuations_ok_def)
  have "distinct (map cn_goal_id (filter is_live (row_update P f cs)))"
    using distinct_filter_update [of cn_goal_id is_live cs f P] assms(1,3,7) rows
    by (auto simp: continuations_ok_def list_all_iff)
  moreover have "list_all continuation_row_ok (row_update P f cs)"
    using rows assms(7) by (auto simp: list_all_iff set_row_update)
  ultimately show ?thesis
    using assms(1-6) map_row_update [of cs P cn_id f]
      map_row_update [of cs P "\<lambda>c. (cn_goal_id c, cn_generation c)" f]
      map_row_update [of cs P "\<lambda>c. (cn_goal_id c, cn_source_goal_revision c, cn_request_fingerprint c)" f]
    by (simp add: continuations_ok_def)
qed

lemma mark_finished_wakes:
  assumes "markGoalFinishedForScheduledContinuation i now db = Inr (db', res)"
  shows "wakes_step db db'"
proof (cases "db' = db")
  case False
  obtain row st where row: "selectLiveScheduledContinuation db i = Some row"
    and st: "finished_continuation_status row now = Some st"
    and one: "row_changes (at_version (cn_id row) (cn_version row)) (db_continuations db) = 1"
    and db': "db' = db\<lparr>db_continuations := row_update (at_version (cn_id row) (cn_version row))
       (\<lambda>c. c\<lparr>cn_status := st, cn_version := cn_version c + 1, cn_updated_at := now,
          cn_terminal_at := (if isLiveScheduledStatus st then None else Some now)\<rparr>) (db_continuations db)\<rparr>"
    using assms False unfolding markGoalFinishedForScheduledContinuation_def at_version_def [abs_def]
    by (auto simp: bind_ok_Inr_iff Let_def split: option.splits if_splits)
  let ?P = "at_version (cn_id row) (cn_version row)"
  let ?f = "\<lambda>c. c\<lparr>cn_status := st, cn_version := cn_version c + 1, cn_updated_at := now,
          cn_terminal_at := (if isLiveScheduledStatus st then None else Some now)\<rparr>"
  have live: "row \<in> set (db_continuations db)" "is_live row"
    using row_latest_SomeD [OF row [unfolded selectLiveScheduledContinuation_def]]
    by (simp_all add: is_live_def)
  have nost: "st \<in> {Sc_cancel_required, Sc_cancel_uncertain, Sc_superseded}"
    using st
    by (cases "date_parse (case cn_pending_due_at row of None \<Rightarrow> cn_due_at row | Some t \<Rightarrow> t)";
        cases "date_parse now")
      (simp_all add: finished_continuation_status_def split: if_splits)
  have ok: "wakes_ok db'" if "wakes_ok db"
  proof -
    have "continuations_ok (row_update ?P ?f (db_continuations db))"
    proof (rule continuations_ok_update)
      show ok: "continuations_ok (db_continuations db)" using that by (simp add: wakes_ok_def)
      fix c assume c: "c \<in> set (db_continuations db)" "?P c" "continuation_row_ok c"
      have "c = row" using ok distinct_key_unique [OF _ c(1) live(1), of cn_id] c(2)
        by (simp add: continuations_ok_def at_version_def)
      then show "continuation_row_ok (?f c) \<and> (is_live (?f c) \<longrightarrow> is_live c)"
        using c(3) live(2) nost unfolding continuation_row_ok_def
        by (cases "cn_occurrence row"; cases "cn_orphan_probe_lease_generation row";
            cases "cn_orphan_probe_activity_seq row") auto
    qed simp_all
    then show ?thesis by (simp add: wakes_ok_def db')
  qed
  have "wake_evolves c (?f c)" for c by (simp add: wake_evolves_def)
  then have "\<exists>c' \<in> set (db_continuations db'). wake_evolves c c'" if "c \<in> set (db_continuations db)" for c
    using row_update_evolves [of ?f c "db_continuations db" ?P] that by (simp add: db')
  then show ?thesis using ok by (simp add: wakes_step_def wakes_extend_def same_runs_kept db')
qed simp

end
