(* ===== verification/Goal_Machine.thy ===== *)
theory Goal_Machine
  imports Goal_Wake_Claim
begin

text \<open>
  The goal repository as a machine (packages/storage/src/goal-repository.ts): its public operations as
  one datatype, each run in its own transaction. A transaction that raises leaves the store as it was.
\<close>

section \<open>The repository as a machine\<close>

datatype goal_op =
  Op_acquire acquire_goal_request string
| Op_checkpoint checkpoint_goal_request
| Op_finish finish_goal_request
| Op_cancel cancel_goal_request
| Op_cancel_execution cancel_execution_request
| Op_reconcile reconcile_goal_request
| Op_set_ponytail "iso \<Rightarrow> iso \<Rightarrow> bool" set_ponytail_request string
| Op_begin begin_fenced_mutation_request
| Op_heartbeat heartbeat_request
| Op_end string iso
| Op_mark_finished string iso
| Op_prepare_wake prepare_wake_request
| Op_receipt wake_receipt_request
| Op_cancel_wake cancel_target int iso
| Op_claim_wake "string \<Rightarrow> string" claim_wake_request string
| Op_expedite expedite_request

text \<open>Each operation runs in its transaction.\<close>

fun goal_step :: "goal_db \<Rightarrow> goal_op \<Rightarrow> goal_db" where
  "goal_step db (Op_acquire q executionId) = commit db (acquire q executionId db)"
| "goal_step db (Op_checkpoint q) = commit db (checkpoint q db)"
| "goal_step db (Op_finish q) = commit db (finish q db)"
| "goal_step db (Op_cancel q) = commit db (cancel q db)"
| "goal_step db (Op_cancel_execution q) = commit db (cancelExecution q db)"
| "goal_step db (Op_reconcile q) = commit db (reconcile q db)"
| "goal_step db (Op_set_ponytail text_after q checkpointId) =
     commit db (setIdleGoalPonytailModeForHost text_after q checkpointId db)"
| "goal_step db (Op_begin q) = commit db (beginGoalFencedMutation q db)"
| "goal_step db (Op_heartbeat q) = commit db (heartbeatGoalFencedMutation q db)"
| "goal_step db (Op_end callId completedAt) = commit db (endGoalFencedMutation callId completedAt db)"
| "goal_step db (Op_mark_finished goalId now) =
     commit db (markGoalFinishedForScheduledContinuation goalId now db)"
| "goal_step db (Op_prepare_wake q) = commit db (prepareScheduledContinuation q db)"
| "goal_step db (Op_receipt q) = commit db (recordScheduledContinuationReceipt q db)"
| "goal_step db (Op_cancel_wake target expectedVersion now) =
     commit db (cancelScheduledContinuation target expectedVersion now db)"
| "goal_step db (Op_claim_wake sha256 q executionId) =
     commit db (claimScheduledContinuation sha256 q executionId db)"
| "goal_step db (Op_expedite q) = commit db (expediteScheduledContinuation q db)"

text \<open>Concrete runs are unfolded to their operations before they are evaluated.\<close>

lemmas goal_step_eval = run_ops_Nil run_ops_Cons goal_step.simps

end
