(* ===== verification/Goal_Repository_Safety.thy ===== *)
theory Goal_Repository_Safety
  imports Goal_Wake_Takeover Goal_Machine
begin

text \<open>
  The guarantees of the goal repository. Every operation is a sequence of moves of the lease protocol,
  the moves keep the tables well-formed and only extend the history of a goal; the generic machine
  carries both over any sequence of operations. The single operations add their guards.
\<close>

section \<open>Refinement\<close>

text \<open>The operations on goals leave the continuation table alone.\<close>

lemma closing_wakes: "closing_step i db db' \<Longrightarrow> same_wakes db db'"
  unfolding closing_step_def
  by (elim exE conjE, elim insertCheckpointE updateExecutionStateE update_goalE, simp add: same_wakes_def)

lemma renewing_wakes: "renewing_step i db db' \<Longrightarrow> same_wakes db db'"
  unfolding renewing_step_def by (elim exE conjE, elim update_goalE, simp add: same_wakes_def)

lemma acquire_wakes:
  assumes "acquire q x db = Inr (db', res)"
  shows "same_wakes db db'"
  using assms
proof (cases rule: acquireE)
  case new
  then show ?thesis by (elim acquire_newE) (auto simp: same_wakes_def elim!: insert_goalE insertExecutionE)
next
  case refused
  then show ?thesis by (simp add: same_wakes_def)
next
  case (taken row g b)
  from taken(7) show ?thesis
    by (elim acquire_leaseE) (auto simp: same_wakes_def elim!: update_goalE insertExecutionE)
qed

lemma checkpoint_wakes:
  assumes "checkpoint q db = Inr (db', g)"
  shows "same_wakes db db'"
  using assms by (rule checkpointE)
    (auto simp: same_wakes_def elim!: update_goalE insertCheckpointE updateExecutionStateE split: if_splits)

lemma policy_wakes:
  assumes "setIdleGoalPonytailModeForHost ta q k db = Inr (db', g)"
  shows "same_wakes db db'"
  using assms by (cases rule: policyE) (auto simp: same_wakes_def elim!: update_goalE insertCheckpointE)

text \<open>A move of the lease protocol that leaves the continuations alone is a step of the store.\<close>

lemma move_step:
  assumes "wf_goals db \<Longrightarrow> goal_trans db db'" "same_wakes db db'"
  shows "store_step db db'"
  using assms by (auto simp: store_step_def intro: same_wakes_step)

lemma closing_store: "closing_step i db db' \<Longrightarrow> store_step db db'"
  by (rule move_step) (auto intro: closing_trans closing_wakes)

lemma renewing_store: "renewing_step i db db' \<Longrightarrow> store_step db db'"
  by (rule move_step) (auto intro: renewing_trans renewing_wakes)

lemma complete_calls_store [simp]: "store_step db (complete_calls P now db)"
  by (rule store_stepI) (auto simp: complete_calls_def same_goals_def same_wakes_def intro: same_wakes_step)

lemma store_commit:
  assumes "\<And>db' a. r = Inr (db', a) \<Longrightarrow> store_step db db'"
  shows "store_step db (commit db r)"
  by (rule commit_cases) (auto intro: assms)

lemma step_store: "store_step db (goal_step db op)"
proof (cases op)
  case (Op_acquire q x)
  then show ?thesis
    using move_step [OF acquire_trans acquire_wakes] by (auto intro: store_commit)
next
  case (Op_checkpoint q)
  then show ?thesis
    using move_step [OF checkpoint_trans checkpoint_wakes] by (auto intro: store_commit)
next
  case (Op_finish q)
  then show ?thesis using closing_store [OF finish_closing] by (auto intro: store_commit)
next
  case (Op_cancel q)
  have "store_step db db'" if "cancel q db = Inr (db', res)" for db' res
    using that by (cases rule: cancelE) (auto intro: closing_store)
  then show ?thesis using Op_cancel by (auto intro: store_commit)
next
  case (Op_cancel_execution q)
  have "store_step db db'" if "cancelExecution q db = Inr (db', res)" for db' res
    using that closing_store by (elim cancelExecutionE)
  then show ?thesis using Op_cancel_execution by (auto intro: store_commit)
next
  case (Op_reconcile q)
  have "store_step db db'" if "reconcile q db = Inr (db', g)" for db' g
    using that by (cases rule: reconcileE) (auto intro: closing_store)
  then show ?thesis using Op_reconcile by (auto intro: store_commit)
next
  case (Op_set_ponytail ta q k)
  then show ?thesis
    using move_step [OF policy_trans policy_wakes] by (auto intro: store_commit)
next
  case (Op_begin q)
  have "store_step db db'" if "beginGoalFencedMutation q db = Inr (db', res)" for db' res
    using that renewing_store by (elim beginE)
  then show ?thesis using Op_begin by (auto intro: store_commit)
next
  case (Op_heartbeat q)
  have "store_step db db'" if "heartbeatGoalFencedMutation q db = Inr (db', res)" for db' res
    using that renewing_store by (elim heartbeatE)
  then show ?thesis using Op_heartbeat by (auto intro: store_commit)
next
  case (Op_end i t)
  then show ?thesis
    by (simp add: endGoalFencedMutation_def)
next
  case (Op_mark_finished i t)
  then show ?thesis using mark_finished_frame mark_finished_wakes
    by (auto intro!: store_commit store_stepI simp: same_goals_def)
next
  case (Op_prepare_wake q)
  then show ?thesis using prepare_step by (auto intro: store_commit)
next
  case (Op_receipt q)
  then show ?thesis using receipt_step by (auto intro: store_commit)
next
  case (Op_cancel_wake target v now)
  then show ?thesis using cancel_wake_step by (auto intro: store_commit)
next
  case (Op_claim_wake sha256 q x)
  then show ?thesis using claim_wake_step by (auto intro: store_commit)
next
  case (Op_expedite q)
  then show ?thesis using expedite_step by (auto intro: store_commit)
qed

lemma step_moves: "wf_goals db \<Longrightarrow> goal_moves db (goal_step db op)"
  using step_store by (simp add: store_step_def)

interpretation goal_store: progress_machine goal_step wf_goals goals_extend
proof unfold_locales
  show "wf_goals db \<Longrightarrow> wf_goals (goal_step db op)" for db op
    using moves_wf step_moves by blast
  show "wf_goals db \<Longrightarrow> goals_extend db (goal_step db op)" for db op
    using moves_extend step_moves by blast
qed (blast intro: goals_extend_refl goals_extend_trans)+

interpretation wake_store: progress_machine goal_step wakes_ok wakes_extend
proof unfold_locales
  show "wakes_ok db \<Longrightarrow> wakes_ok (goal_step db op)" for db op
    using step_store by (simp add: store_step_def wakes_step_def)
  show "wakes_ok db \<Longrightarrow> wakes_extend db (goal_step db op)" for db op
    using step_store by (simp add: store_step_def wakes_step_def)
qed (blast intro: wakes_extend_refl wakes_extend_trans)+

interpretation run_store: progress_machine goal_step "\<lambda>_. True" runs_kept
proof unfold_locales
  show "runs_kept db (goal_step db op)" for db op
    using step_store by (simp add: store_step_def wakes_step_def)
qed (simp_all add: runs_kept_trans)

abbreviation run_goals :: "goal_db \<Rightarrow> goal_op list \<Rightarrow> goal_db" where
  "run_goals \<equiv> run_ops goal_step"

lemma later_row:
  assumes "wf_goals db" "r \<in> set (db_goals db)"
  obtains r' where "r' \<in> set (db_goals (run_goals db ops))" "row_extends r r'"
  using goal_store.run_rel [OF assms(1), of ops] assms(2) unfolding goals_extend_def by blast

section \<open>A concrete store\<close>

definition empty_goal_db :: goal_db where
  "empty_goal_db = \<lparr>db_goals = [], db_checkpoints = [], db_executions = [], db_calls = [],
     db_continuations = [], db_admissions = [], db_workspaces = [], db_runs = []\<rparr>"

definition sample_acquire :: "string \<Rightarrow> int \<Rightarrow> acquire_goal_request" where
  "sample_acquire hash n = \<lparr>aq_goalId = ''g1'', aq_workspaceId = ''w1'', aq_goalKey = ''k'',
     aq_ownerClientId = ''c'', aq_ownerSessionId = ''s'', aq_objective = Some ''o'',
     aq_plan = Some [], aq_ponytailMode = None, aq_leaseTokenHash = hash, aq_leaseSeconds = 60,
     aq_recoveryEvidence = None, aq_now = Instant n\<rparr>"

definition sample_checkpoint :: "string \<Rightarrow> int \<Rightarrow> int \<Rightarrow> checkpoint_goal_request" where
  "sample_checkpoint hash revision n = \<lparr>cq_checkpointId = ''p1'', cq_goalId = ''g1'',
     cq_ownerClientId = ''c'', cq_ownerSessionId = ''s'', cq_leaseTokenHash = hash,
     cq_expectedRevision = revision, cq_plan = [], cq_currentPhase = ''phase'', cq_summary = ''sum'',
     cq_stepUpdates = [], cq_nextAction = ''next'', cq_blockers = [], cq_evidence = [],
     cq_activeTaskIds = [], cq_trackedTasks = None, cq_ponytailMode = None,
     cq_releaseLease = False, cq_now = Instant n\<rparr>"

definition sample_finish :: "int \<Rightarrow> int \<Rightarrow> finish_goal_request" where
  "sample_finish revision n = \<lparr>fq_checkpointId = ''p2'', fq_goalId = ''g1'',
     fq_ownerClientId = ''c'', fq_ownerSessionId = ''s'', fq_leaseTokenHash = ''h1'',
     fq_expectedRevision = revision, fq_status = Gt_completed, fq_summary = ''done'',
     fq_evidence = [], fq_now = Instant n\<rparr>"

definition sample_store :: goal_db where
  "sample_store = goal_step empty_goal_db (Op_acquire (sample_acquire ''h1'' 0) ''x1'')"

text \<open>The store spelled out, for the evaluation of the witnesses.\<close>

lemma sample_store_code [code]:
  "sample_store = \<lparr>db_goals =
     [\<lparr>gr_id = ''g1'', gr_workspace_id = ''w1'', gr_goal_key = ''k'', gr_owner_client_id = ''c'',
       gr_objective = ''o'', gr_plan = [], gr_status = Gs_active, gr_revision = 0,
       gr_current_phase = ''created'', gr_next_action = [], gr_blockers = [], gr_active_task_ids = [],
       gr_tracked_tasks = Some [], gr_ponytail_mode = None, gr_lease_owner_client_id = Some ''c'',
       gr_lease_owner_session_id = Some ''s'', gr_lease_token_hash = Some ''h1'',
       gr_lease_duration_seconds = Some 60, gr_lease_generation = 1, gr_lease_activity_seq = 0,
       gr_lease_heartbeat_at = Some (Instant 0), gr_lease_expires_at = Some (Instant 60000),
       gr_created_at = Instant 0, gr_updated_at = Instant 0, gr_terminal_summary = None,
       gr_terminal_evidence = None, gr_terminal_at = None\<rparr>],
     db_checkpoints = [],
     db_executions = [\<lparr>er_id = ''x1'', er_goal_id = ''g1'', er_workspace_id = ''w1'',
       er_lease_generation = 1, er_owner_client_id = ''c'', er_owner_session_id = ''s'',
       er_state = Xs_active, er_created_at = Instant 0, er_updated_at = Instant 0\<rparr>],
     db_calls = [], db_continuations = [], db_admissions = [], db_workspaces = [], db_runs = []\<rparr>"
  unfolding sample_store_def goal_step_eval by code_simp

lemma wf_empty: "wf_goals empty_goal_db"
  by (simp add: wf_goals_def receipts_ok_def empty_goal_db_def)

lemma wf_sample_store: "wf_goals sample_store"
  unfolding sample_store_def by (rule goal_store.step_inv [OF wf_empty])

end
