(* ===== verification/Goal_Repository_Properties.thy ===== *)
theory Goal_Repository_Properties
  imports Goal_Repository_Safety
begin

text \<open>
  The properties of the goal repository, each a few steps over the lease protocol, the elimination
  rules of the operations and the machine interpreted on the repository.
\<close>

section \<open>Sequences of operations\<close>

text \<open>
  C2: Whatever operations run, in any order and with any outcome, the tables stay well-formed: goal
  identifiers and keys are unique, every stored goal decodes (so the lease of a goal is held
  entirely or not at all, its checkpoints are exactly the revisions 1 to n, its outcome is complete
  when it is closed), and every execution receipt belongs to a generation the goal has reached.
\<close>

theorem repository_run_well_formed:
  assumes "wf_goals db"
  shows "wf_goals (run_goals db ops)"
  by (rule goal_store.run_inv [OF assms])

theorem repository_run_well_formed_witness:
  "wf_goals (run_goals empty_goal_db [Op_acquire (sample_acquire ''h1'' 0) ''x1'',
     Op_checkpoint (sample_checkpoint ''h1'' 0 1000), Op_finish (sample_finish 1 2000)])
   \<and> map gr_status (db_goals (run_goals empty_goal_db [Op_acquire (sample_acquire ''h1'' 0) ''x1'',
     Op_checkpoint (sample_checkpoint ''h1'' 0 1000), Op_finish (sample_finish 1 2000)]))
     = [Gs_completed]"
proof
  show "wf_goals (run_goals empty_goal_db [Op_acquire (sample_acquire ''h1'' 0) ''x1'',
     Op_checkpoint (sample_checkpoint ''h1'' 0 1000), Op_finish (sample_finish 1 2000)])"
    by (rule repository_run_well_formed [OF wf_empty])
  show "map gr_status (db_goals (run_goals empty_goal_db [Op_acquire (sample_acquire ''h1'' 0) ''x1'',
     Op_checkpoint (sample_checkpoint ''h1'' 0 1000), Op_finish (sample_finish 1 2000)]))
     = [Gs_completed]" by ((unfold goal_step_eval)?, code_simp)
qed

text \<open>
  At most one execution receipt of a goal is active, and it is the receipt of the current lease
  generation of an active goal that holds a lease, after any operations.
\<close>

theorem one_active_receipt:
  assumes "wf_goals db" "x \<in> set (db_executions (run_goals db ops))"
    "y \<in> set (db_executions (run_goals db ops))"
    "er_state x = Xs_active" "er_state y = Xs_active" "er_goal_id x = er_goal_id y"
  shows "x = y \<and> (\<exists>r \<in> set (db_goals (run_goals db ops)). gr_id r = er_goal_id x
    \<and> gr_lease_generation r = er_lease_generation x \<and> gr_status r = Gs_active
    \<and> gr_lease_token_hash r \<noteq> None)"
proof -
  let ?db = "run_goals db ops"
  have wf: "wf_goals ?db" by (rule goal_store.run_inv [OF assms(1)])
  then have ok: "receipts_ok (db_goals ?db) (db_executions ?db)" by (simp add: wf_goals_def)
  then have row: "\<exists>r \<in> set (db_goals ?db). receipt_of r z" if "z \<in> set (db_executions ?db)" for z
    using that by (simp add: receipts_ok_def)
  obtain r where r: "r \<in> set (db_goals ?db)" "receipt_of r x" using row [OF assms(2)] ..
  obtain s where s: "s \<in> set (db_goals ?db)" "receipt_of s y" using row [OF assms(3)] ..
  from r s have "r = s" using wf_unique [OF wf r(1) s(1)] assms(6) by (simp add: receipt_of_def)
  then have "er_lease_generation x = er_lease_generation y"
    using r s assms(4,5) by (simp add: receipt_of_def)
  moreover have "distinct (map (\<lambda>x. (er_goal_id x, er_lease_generation x)) (db_executions ?db))"
    using ok by (simp add: receipts_ok_def)
  ultimately have "x = y"
    using distinct_key_unique [of "\<lambda>x. (er_goal_id x, er_lease_generation x)" _ x y] assms(2,3,6)
    by simp
  then show ?thesis using r assms(4) by (auto simp: receipt_of_def)
qed

theorem one_active_receipt_witness:
  "\<exists>r \<in> set (db_goals (run_goals empty_goal_db [Op_acquire (sample_acquire ''h1'' 0) ''x1''])).
     gr_id r = ''g1'' \<and> gr_lease_generation r = 1 \<and> gr_status r = Gs_active
     \<and> gr_lease_token_hash r \<noteq> None"
proof -
  let ?db = "run_goals empty_goal_db [Op_acquire (sample_acquire ''h1'' 0) ''x1'']"
  let ?x = "\<lparr>er_id = ''x1'', er_goal_id = ''g1'', er_workspace_id = ''w1'',
    er_lease_generation = 1, er_owner_client_id = ''c'', er_owner_session_id = ''s'',
    er_state = Xs_active, er_created_at = Instant 0, er_updated_at = Instant 0\<rparr>"
  have "db_executions ?db = [?x]" by ((unfold goal_step_eval)?, code_simp)
  then have "?x \<in> set (db_executions ?db)" by simp
  from one_active_receipt [OF wf_empty this this] show ?thesis by auto
qed

text \<open>
  C3: A closed goal is frozen: once a goal is completed, failed, blocked or cancelled, its row is
  exactly the same after any further operations.
\<close>

theorem closed_row_frozen:
  assumes "wf_goals db" "r \<in> set (db_goals db)" "gr_status r \<noteq> Gs_active"
  shows "r \<in> set (db_goals (run_goals db ops))"
proof -
  obtain r' where "r' \<in> set (db_goals (run_goals db ops))" "row_extends r r'"
    by (rule later_row [OF assms(1,2)])
  then show ?thesis using assms(3) by (simp add: row_extends_def)
qed

definition finished_store :: goal_db where
  "finished_store = goal_step sample_store (Op_finish (sample_finish 0 1000))"

theorem closed_row_frozen_witness:
  "hd (db_goals finished_store) \<in> set (db_goals (run_goals finished_store
     [Op_acquire (sample_acquire ''h2'' 90000) ''x2'']))"
proof (rule closed_row_frozen)
  show "wf_goals finished_store"
    unfolding finished_store_def by (rule goal_store.step_inv [OF wf_sample_store])
  show "hd (db_goals finished_store) \<in> set (db_goals finished_store)" by ((unfold finished_store_def goal_step_eval)?, code_simp)
  show "gr_status (hd (db_goals finished_store)) \<noteq> Gs_active" by ((unfold finished_store_def goal_step_eval)?, code_simp)
qed

text \<open>
  C4: The history of a goal is append-only and complete: no operation removes or rewrites a
  checkpoint, and the checkpoints of every goal are numbered 1, 2, .. up to its revision.
\<close>

theorem checkpoint_history:
  assumes "wf_goals db" "r \<in> set (db_goals (run_goals db ops))"
  shows "prefix (db_checkpoints db) (db_checkpoints (run_goals db ops))
    \<and> map cr_revision (checkpoints_of (run_goals db ops) (gr_id r))
      = map int [1 ..< nat (gr_revision r) + 1]"
proof
  let ?db = "run_goals db ops"
  show "prefix (db_checkpoints db) (db_checkpoints ?db)"
    using goal_store.run_rel [OF assms(1), of ops] by (simp add: goals_extend_def)
  have "decodes ?db r" using goal_store.run_inv [OF assms(1)] assms(2) by (simp add: wf_goals_def)
  then obtain g where "decode_goal r (checkpoints_of ?db (gr_id r)) (if gr_lease_generation r = 0
      then None else selectExecution ?db (gr_id r) (gr_lease_generation r)) = Inr g"
    by (auto simp: decodes_iff toGoalRecord_def)
  note dec = decode_goal_fields [OF this]
  have pairs: "list_all2 (\<lambda>c k. toCheckpoint c = Inr k) (checkpoints_of ?db (gr_id r)) (g_checkpoints g)"
    using dec(20) by (simp add: map_ok_Inr_iff)
  then have "list_all2 (\<lambda>c k. cr_revision c = ck_revision k)
      (checkpoints_of ?db (gr_id r)) (g_checkpoints g)"
    by (rule list_all2_mono) (auto simp: toCheckpoint_def bind_ok_Inr_iff split: if_splits)
  then have "map cr_revision (checkpoints_of ?db (gr_id r)) = map ck_revision (g_checkpoints g)"
    by (simp add: list_eq_iff_nth_eq list_all2_conv_all_nth)
  moreover have "nat (gr_revision r) = length (g_checkpoints g)" using dec(21) by simp
  ultimately show "map cr_revision (checkpoints_of ?db (gr_id r)) = map int [1 ..< nat (gr_revision r) + 1]"
    using dec(22) by (simp only: contiguous_from_one_def)
qed

theorem checkpoint_history_witness:
  "map cr_revision (checkpoints_of (run_goals sample_store
     [Op_checkpoint (sample_checkpoint ''h1'' 0 1000)]) ''g1'') = map int [1 ..< nat 1 + 1]"
proof -
  let ?db = "run_goals sample_store [Op_checkpoint (sample_checkpoint ''h1'' 0 1000)]"
  have "map (\<lambda>r. (gr_id r, gr_revision r)) (db_goals ?db) = [(''g1'', 1)]" by ((unfold finished_store_def goal_step_eval)?, code_simp)
  then obtain r where "db_goals ?db = [r]" "gr_id r = ''g1''" "gr_revision r = 1"
    by (auto simp: map_eq_Cons_conv)
  then show ?thesis using checkpoint_history [OF wf_sample_store, of r
      "[Op_checkpoint (sample_checkpoint ''h1'' 0 1000)]"] by simp
qed

text \<open>
  C5: The lease generation is a fence: as soon as a goal has moved past a generation, a mutation
  call of that generation is refused in every later state, whatever token it presents.
\<close>

theorem stale_generation_fenced:
  assumes "wf_goals db" "r \<in> set (db_goals db)" "gr_id r = bq_goalId q"
    "bq_leaseGeneration q < gr_lease_generation r"
  shows "is_err (beginGoalFencedMutation q (run_goals db ops))"
proof (cases "beginGoalFencedMutation q (run_goals db ops)")
  case (Inr p)
  let ?db = "run_goals db ops"
  obtain r' where r': "r' \<in> set (db_goals ?db)" "row_extends r r'"
    by (rule later_row [OF assms(1,2)])
  obtain cur where cur: "requireById ?db (bq_goalId q) = Inr cur"
    "g_leaseGeneration cur = bq_leaseGeneration q"
    using Inr by (cases p) (auto elim: beginE)
  have "gr_id r' = bq_goalId q" using r'(2) assms(3) by (simp add: row_extends_def same_identity_def)
  then have "g_leaseGeneration cur = gr_lease_generation r'"
    using toGoalRecord_fields(13) [OF wf_current [OF goal_store.run_inv [OF assms(1)] cur(1) r'(1)]]
    by simp
  then show ?thesis using cur(2) r'(2) assms(4) by (simp add: row_extends_def)
qed simp

definition sample_begin :: "string \<Rightarrow> int \<Rightarrow> int \<Rightarrow> begin_fenced_mutation_request" where
  "sample_begin hash generation n = \<lparr>bq_callId = ''call'', bq_goalId = ''g1'',
     bq_workspaceId = ''w1'', bq_ownerClientId = ''c'', bq_ownerSessionId = ''s'',
     bq_leaseTokenHash = hash, bq_leaseGeneration = generation, bq_admissionGeneration = None,
     bq_startedAt = Instant n, bq_expiresAt = Instant (n + 1000)\<rparr>"

definition taken_store :: goal_db where
  "taken_store = goal_step sample_store (Op_acquire (sample_acquire ''h2'' 90000) ''x2'')"

theorem stale_generation_fenced_witness:
  "is_err (beginGoalFencedMutation (sample_begin ''h1'' 1 91000)
     (run_goals taken_store [Op_end ''call'' (Instant 91000)]))"
proof (rule stale_generation_fenced)
  show "wf_goals taken_store"
    unfolding taken_store_def by (rule goal_store.step_inv [OF wf_sample_store])
  show "hd (db_goals taken_store) \<in> set (db_goals taken_store)" by ((unfold finished_store_def taken_store_def goal_step_eval)?, code_simp)
  show "gr_id (hd (db_goals taken_store)) = bq_goalId (sample_begin ''h1'' 1 91000)" by ((unfold finished_store_def taken_store_def goal_step_eval)?, code_simp)
  show "bq_leaseGeneration (sample_begin ''h1'' 1 91000)
    < gr_lease_generation (hd (db_goals taken_store))" by ((unfold finished_store_def taken_store_def goal_step_eval)?, code_simp)
qed

section \<open>Single operations\<close>

text \<open>
  C6: A checkpoint is written only by the holder of the lease: the stored goal is active, at the
  revision the caller expects, leased to this client, session and token and not expired at the time
  of the request; the revision then advances by one and exactly one checkpoint is added.
\<close>

theorem checkpoint_needs_lease:
  assumes "wf_goals db" "checkpoint q db = Inr (db', g)"
  shows "\<exists>r \<in> set (db_goals db). gr_id r = cq_goalId q \<and> gr_status r = Gs_active
    \<and> gr_revision r = cq_expectedRevision q
    \<and> gr_lease_owner_client_id r = Some (cq_ownerClientId q)
    \<and> gr_lease_owner_session_id r = Some (cq_ownerSessionId q)
    \<and> gr_lease_token_hash r = Some (cq_leaseTokenHash q)
    \<and> (\<exists>e n. gr_lease_expires_at r = Some (Instant e) \<and> cq_now q = Instant n \<and> n < e)
    \<and> g_revision g = gr_revision r + 1
    \<and> (\<exists>c. db_checkpoints db' = db_checkpoints db @ [c] \<and> cr_revision c = gr_revision r + 1)"
  using assms(2)
proof (rule checkpointE)
  fix cur d ts le db1 db2 c
  assume cur: "requireById db (cq_goalId q) = Inr cur"
    and lease: "assertMutableLease cur (cq_ownerClientId q) (cq_ownerSessionId q)
       (cq_leaseTokenHash q) (cq_expectedRevision q) (cq_now q) = Inr ()"
    and u: "update_goal (\<lambda>r. gr_id r = cq_goalId q \<and> gr_revision r = cq_expectedRevision q
       \<and> gr_lease_token_hash r = Some (cq_leaseTokenHash q) \<and> gr_status r = Gs_active)
       (write_checkpoint q (g_revision cur + 1) d le ts) db = Inr db1"
    and ins: "insertCheckpoint c db1 = Inr db2" "cr_revision c = g_revision cur + 1"
    and ex: "(if cq_releaseLease q then updateExecutionState (cq_goalId q) (g_leaseGeneration cur)
        Xs_released (cq_now q) db2 else Inr db2) = Inr db'"
    and fin: "requireById db' (cq_goalId q) = Inr g"
  have ids: "distinct (map gr_id (db_goals db))" using assms(1) by (simp add: wf_goals_def)
  obtain r where r: "r \<in> set (db_goals db)" "gr_id r = cq_goalId q"
    and db1: "db1 = db\<lparr>db_goals :=
      replace_goal (write_checkpoint q (g_revision cur + 1) d le ts r) (db_goals db)\<rparr>"
    by (rule update_goal_replace [OF ids u]) auto
  let ?r = "write_checkpoint q (g_revision cur + 1) d le ts r"
  note dec = toGoalRecord_fields [OF wf_current [OF assms(1) cur r]]
  have tabs: "db_goals db' = replace_goal ?r (db_goals db)"
    "db_checkpoints db' = db_checkpoints db @ [c]"
    using ins ex db1 by (auto elim!: insertCheckpointE updateExecutionStateE split: if_splits)
  have "?r \<in> set (db_goals db')" using replace_goal_mem [OF r(1), of ?r] tabs(1) by simp
  then have "toGoalRecord db' ?r = Inr g"
    using requireById_row [of db' ?r "cq_goalId q"] fin ids tabs(1) r(2) by simp
  then have "g_revision g = g_revision cur + 1" by (simp add: toGoalRecord_fields(7))
  then show ?thesis
    using r lease dec(6,7,9-11,16) tabs(2) ins(2)
    by (intro bexI [OF _ r(1)]) (simp add: assertMutableLease_Inr_iff)
qed

theorem checkpoint_needs_lease_witness:
  "\<exists>db' g. checkpoint (sample_checkpoint ''h1'' 0 1000) sample_store = Inr (db', g)
    \<and> (\<exists>r \<in> set (db_goals sample_store). gr_lease_token_hash r = Some ''h1''
       \<and> g_revision g = gr_revision r + 1)"
proof -
  have "\<not> is_err (checkpoint (sample_checkpoint ''h1'' 0 1000) sample_store)" by ((unfold finished_store_def taken_store_def goal_step_eval)?, code_simp)
  then obtain db' g where ok: "checkpoint (sample_checkpoint ''h1'' 0 1000) sample_store = Inr (db', g)"
    by (cases "checkpoint (sample_checkpoint ''h1'' 0 1000) sample_store") auto
  from checkpoint_needs_lease [OF wf_sample_store this] ok show ?thesis
    by (auto simp: sample_checkpoint_def)
qed

text \<open>
  C7: A lease changes hands only when that is safe: acquiring an existing goal succeeds only while
  the goal is active and when no lease is held, the lease has expired, or trustworthy evidence shows
  that its worker is gone; the new holder gets the next lease generation and its own token.
\<close>

theorem takeover_is_justified:
  assumes "wf_goals db" "acquire q x db = Inr (db', res)" "ar_acquired res"
    and "r \<in> set (db_goals db)" "gr_workspace_id r = aq_workspaceId q" "gr_goal_key r = aq_goalKey q"
  shows "gr_status r = Gs_active
    \<and> (\<exists>g. toGoalRecord db r = Inr g \<and> may_take q g db)
    \<and> (\<exists>r' \<in> set (db_goals db'). same_identity r r'
        \<and> gr_lease_generation r' = gr_lease_generation r + 1
        \<and> gr_lease_token_hash r' = Some (aq_leaseTokenHash q))"
  using assms(2)
proof (cases rule: acquireE)
  case new
  then show ?thesis using assms(4-6) by (auto simp: selectByKey_def row_get_None_iff)
next
  case refused
  then show ?thesis using assms(3) by simp
next
  case (taken row g b)
  have ids: "distinct (map gr_id (db_goals db))" "distinct (map goal_key (db_goals db))"
    using assms(1) by (simp_all add: wf_goals_def)
  have row: "row = r"
    using distinct_key_unique [OF ids(2) taken(1) assms(4)] taken(2,3) assms(5,6)
    by (simp add: goal_key_def)
  note dec = toGoalRecord_fields [OF taken(4) [unfolded row]]
  from taken(7) obtain e db1 db2 ex where t:
    "update_goal (\<lambda>r. gr_id r = g_id g \<and> gr_status r = Gs_active
         \<and> gr_revision r = g_revision g \<and> gr_lease_generation r = g_leaseGeneration g
         \<and> gr_lease_activity_seq r = g_leaseActivitySeq g) (take_lease q e) db = Inr db1"
    "db2 = (if g_leaseGeneration g > 0 then db1\<lparr>db_executions :=
       map (set_receipt (g_id g) (g_leaseGeneration g) Xs_superseded (aq_now q)) (db_executions db1)\<rparr>
       else db1)" "insertExecution ex db2 = Inr db'"
    by (elim acquire_leaseE)
  obtain s where s: "s \<in> set (db_goals db)" "gr_id s = g_id g"
    and db1: "db1 = db\<lparr>db_goals := replace_goal (take_lease q e s) (db_goals db)\<rparr>"
    by (rule update_goal_replace [OF ids(1) t(1)]) auto
  have "s = r" using wf_unique [OF assms(1) s(1) assms(4)] s(2) dec(1) by simp
  then have "db_goals db' = replace_goal (take_lease q e r) (db_goals db)"
    using t(2,3) db1 by (auto elim: insertExecutionE)
  then have "take_lease q e r \<in> set (db_goals db')"
    using replace_goal_mem [OF assms(4), of "take_lease q e r"] by simp
  then show ?thesis using taken(4-6) row dec(6)
    by (intro conjI bexI [of _ "take_lease q e r"]) auto
qed

theorem takeover_is_justified_witness:
  "\<exists>db' res. acquire (sample_acquire ''h2'' 90000) ''x2'' sample_store = Inr (db', res)
    \<and> (\<exists>r' \<in> set (db_goals db'). gr_lease_generation r' = gr_lease_generation (hd (db_goals sample_store)) + 1
        \<and> gr_lease_token_hash r' = Some ''h2'')"
proof -
  let ?q = "sample_acquire ''h2'' 90000"
  have "(case acquire ?q ''x2'' sample_store of Inl _ \<Rightarrow> False | Inr (_, res) \<Rightarrow> ar_acquired res)"
    by ((unfold finished_store_def taken_store_def goal_step_eval)?, code_simp)
  then obtain db' res where ok: "acquire ?q ''x2'' sample_store = Inr (db', res)" "ar_acquired res"
    by (auto split: sum.splits)
  have "hd (db_goals sample_store) \<in> set (db_goals sample_store)"
    "gr_workspace_id (hd (db_goals sample_store)) = aq_workspaceId ?q"
    "gr_goal_key (hd (db_goals sample_store)) = aq_goalKey ?q" by ((unfold goal_step_eval)?, code_simp)+
  from takeover_is_justified [OF wf_sample_store ok this] ok(1) show ?thesis
    by (auto simp: sample_acquire_def)
qed

text \<open>
  C8: A goal is completed only when its work is done: a finish with status completed succeeds only
  if every step of the stored plan is completed, no durable blocker remains and no blocking task is
  tracked.
\<close>

theorem finish_completed_ready:
  assumes "wf_goals db" "finish q db = Inr (db', g)" "fq_status q = Gt_completed"
  shows "\<exists>r \<in> set (db_goals db). gr_id r = fq_goalId q
    \<and> (\<forall>s \<in> set (gr_plan r). gp_status s = St_completed) \<and> gr_blockers r = []
    \<and> (\<exists>ts. parseTrackedTasks (gr_tracked_tasks r) (gr_active_task_ids r) = Inr ts
        \<and> blockingTaskIds ts = [])"
  using assms(2)
proof (rule finishE)
  fix cur
  assume "validateFinish q db = Inr cur"
  then have cur: "requireById db (fq_goalId q) = Inr cur"
    and ready: "assertCompletionReady cur Gt_completed = Inr ()"
    using assms(3) by (simp_all add: validateFinish_Inr_iff)
  obtain r where r: "r \<in> set (db_goals db)" "gr_id r = fq_goalId q" "toGoalRecord db r = Inr cur"
    using cur by (elim requireById_InrE)
  obtain ts where "parseTrackedTasks (gr_tracked_tasks r) (gr_active_task_ids r) = Inr ts"
    "g_activeTaskIds cur = blockingTaskIds ts"
    using decode_goal_tasks [OF r(3) [unfolded toGoalRecord_def]] by metis
  then show ?thesis
    using r ready toGoalRecord_fields(5,8) [OF r(3)]
    by (intro bexI [OF _ r(1)]) (auto simp: assertCompletionReady_def filter_empty_conv split: if_splits)
qed

theorem finish_completed_ready_witness:
  "\<exists>r \<in> set (db_goals sample_store). gr_id r = ''g1''
    \<and> (\<forall>s \<in> set (gr_plan r). gp_status s = St_completed) \<and> gr_blockers r = []"
proof -
  have "\<not> is_err (finish (sample_finish 0 1000) sample_store)" by ((unfold finished_store_def taken_store_def goal_step_eval)?, code_simp)
  then obtain db' g where ok: "finish (sample_finish 0 1000) sample_store = Inr (db', g)"
    by (cases "finish (sample_finish 0 1000) sample_store") auto
  have "fq_status (sample_finish 0 1000) = Gt_completed" by (simp add: sample_finish_def)
  from finish_completed_ready [OF wf_sample_store ok this] show ?thesis
    by (auto simp: sample_finish_def)
qed

text \<open>
  C9: Cancellation is a hard stop: after a successful cancel every fenced mutation call of the goal
  is completed, the goal is cancelled, and in every later state a new mutation call on the goal is
  refused.
\<close>

theorem cancel_is_hard_stop:
  assumes "wf_goals db" "cancel q db = Inr (db', res)" "bq_goalId b = nq_goalId q"
  shows "(\<forall>c \<in> set (db_calls db'). fc_goal_id c = nq_goalId q \<longrightarrow> fc_completed_at c \<noteq> None)
    \<and> g_status (nr_goal res) \<noteq> Gs_active
    \<and> is_err (beginGoalFencedMutation b (run_goals db' ops))"
proof -
  have step: "goal_step db (Op_cancel q) = db'" using assms(2) by simp
  have wf': "wf_goals db'" using goal_store.step_inv [OF assms(1), of "Op_cancel q"] step by simp
  have calls: "\<forall>c \<in> set (db_calls (complete_calls (\<lambda>c. fc_goal_id c = nq_goalId q) t d)).
      fc_goal_id c = nq_goalId q \<longrightarrow> fc_completed_at c \<noteq> None" for t d
    by (auto simp: complete_calls_def set_row_update)
  have "\<exists>r \<in> set (db_goals db'). gr_id r = nq_goalId q \<and> gr_status r \<noteq> Gs_active
      \<and> toGoalRecord db' r = Inr (nr_goal res)"
    and "\<forall>c \<in> set (db_calls db'). fc_goal_id c = nq_goalId q \<longrightarrow> fc_completed_at c \<noteq> None"
  proof -
    show "\<forall>c \<in> set (db_calls db'). fc_goal_id c = nq_goalId q \<longrightarrow> fc_completed_at c \<noteq> None"
      using assms(2) by (cases rule: cancelE) (simp_all add: calls)
    have "requireById db' (nq_goalId q) = Inr (nr_goal res) \<and> g_status (nr_goal res) \<noteq> Gs_active"
      using assms(2)
    proof (cases rule: cancelE)
      case (again cur)
      have "nr_goal res = cur" using assms(2) again
        by (auto simp: cancel_def bind_ok_Inr_iff Let_def split: if_splits)
      then show ?thesis using again
        by (simp add: requireById_def selectById_def toGoalRecord_def checkpoints_of_def
            selectExecution_def cong: option.case_cong if_cong)
    next
      case (closed cur)
      from closed(5) obtain P st ph sm ev now db1 db2 calls c
        where u: "st \<noteq> Gs_active" "update_goal P (close_goal st ph (g_revision cur + 1) sm ev now) db = Inr db1"
        and rest: "insertCheckpoint c (db1\<lparr>db_calls := calls\<rparr>) = Inr db2"
          "updateExecutionState (nq_goalId q) (g_leaseGeneration cur) Xs_terminal now db2 = Inr db'"
        and P: "\<forall>r. P r \<longrightarrow> gr_id r = nq_goalId q \<and> gr_status r = Gs_active \<and> gr_revision r = g_revision cur"
        unfolding closing_step_def using closed(1) by auto
      obtain r where r: "r \<in> set (db_goals db)" "gr_id r = nq_goalId q"
        "db1 = db\<lparr>db_goals := replace_goal (close_goal st ph (g_revision cur + 1) sm ev now r) (db_goals db)\<rparr>"
        by (rule update_goal_replace [OF _ u(2)]) (use assms(1) P in \<open>auto simp: wf_goals_def\<close>)
      let ?r = "close_goal st ph (g_revision cur + 1) sm ev now r"
      have "db_goals db' = replace_goal ?r (db_goals db)"
        using rest r(3) by (auto elim!: insertCheckpointE updateExecutionStateE)
      then have "?r \<in> set (db_goals db')" using replace_goal_mem [OF r(1), of ?r] by simp
      then have "toGoalRecord db' ?r = Inr (nr_goal res)"
        using wf_current [OF wf' closed(7)] r(2) by simp
      then show ?thesis using closed(7) u(1) toGoalRecord_fields(6) by fastforce
    qed
    then show "\<exists>r \<in> set (db_goals db'). gr_id r = nq_goalId q \<and> gr_status r \<noteq> Gs_active
      \<and> toGoalRecord db' r = Inr (nr_goal res)"
      by (metis requireById_InrE toGoalRecord_fields(6))
  qed
  then obtain r where r: "r \<in> set (db_goals db')" "gr_id r = nq_goalId q" "gr_status r \<noteq> Gs_active"
    "toGoalRecord db' r = Inr (nr_goal res)" by blast
  have "is_err (beginGoalFencedMutation b (run_goals db' ops))"
  proof (cases "beginGoalFencedMutation b (run_goals db' ops)")
    case (Inr p)
    then obtain cur where cur: "requireById (run_goals db' ops) (nq_goalId q) = Inr cur"
      "g_status cur = Gs_active" using assms(3) by (cases p) (auto elim: beginE)
    obtain r' where r': "r' \<in> set (db_goals (run_goals db' ops))" "row_extends r r'"
      by (rule later_row [OF wf' r(1)])
    then have "r' = r" using r(3) by (simp add: row_extends_def)
    then show ?thesis
      using toGoalRecord_fields(6) [OF wf_current [OF goal_store.run_inv [OF wf'] cur(1) r'(1)]]
        cur(2) r(2,3) by simp
  qed simp
  then show ?thesis
    using toGoalRecord_fields(6) [OF r(4)] r(3)
      \<open>\<forall>c \<in> set (db_calls db'). fc_goal_id c = nq_goalId q \<longrightarrow> fc_completed_at c \<noteq> None\<close> by simp
qed

definition sample_cancel :: cancel_goal_request where
  "sample_cancel = \<lparr>nq_checkpointId = ''p9'', nq_goalId = ''g1'', nq_ownerClientId = ''c'',
     nq_expectedRevision = 0, nq_summary = ''stop'', nq_evidence = [], nq_now = Instant 2000\<rparr>"

theorem cancel_is_hard_stop_witness:
  "\<exists>db' res. cancel sample_cancel sample_store = Inr (db', res)
    \<and> is_err (beginGoalFencedMutation (sample_begin ''h1'' 1 3000)
        (run_goals db' [Op_acquire (sample_acquire ''h2'' 90000) ''x2'']))"
proof -
  have "\<not> is_err (cancel sample_cancel sample_store)" by ((unfold finished_store_def taken_store_def goal_step_eval)?, code_simp)
  then obtain db' res where ok: "cancel sample_cancel sample_store = Inr (db', res)"
    by (cases "cancel sample_cancel sample_store") auto
  have "bq_goalId (sample_begin ''h1'' 1 3000) = nq_goalId sample_cancel"
    by (simp add: sample_begin_def sample_cancel_def)
  from cancel_is_hard_stop [OF wf_sample_store ok this] ok show ?thesis by blast
qed

text \<open>
  A mutation call needs a live scheduled continuation, and the lease it renews never outlives a
  one-time handoff: the call starts before the effective due time of the continuation and the new
  expiry of the lease is at most that time.
\<close>

theorem mutation_respects_handoff:
  assumes "beginGoalFencedMutation q db = Inr (db', res)"
  shows "\<exists>fence r. selectMutationFenceContinuation db (bq_goalId q) = Some fence
    \<and> r \<in> set (db_goals db') \<and> gr_id r = bq_goalId q
    \<and> (\<forall>due. mutationFenceDueAt fence = Some due \<longrightarrow>
        (\<exists>d n e. due = Instant d \<and> bq_startedAt q = Instant n \<and> n < d
          \<and> gr_lease_expires_at r = Some (Instant e) \<and> e \<le> d))"
  using assms
proof (rule beginE)
  fix cur e
  assume renewed: "renewed_lease_expiry db (bq_goalId q) (g_leaseDurationSeconds cur) (bq_startedAt q) = Inr e"
    and row: "\<exists>r \<in> set (db_goals db). gr_id r = bq_goalId q
       \<and> renew_lease (bq_startedAt q) e r \<in> set (db_goals db')"
  then obtain r where r: "gr_id r = bq_goalId q" "renew_lease (bq_startedAt q) e r \<in> set (db_goals db')"
    by blast
  have "gr_lease_expires_at (renew_lease (bq_startedAt q) e r) = Some e"
    by (simp add: renew_lease_def)
  then show ?thesis using renewed_lease_expiryE [OF renewed] r
    by (metis renew_lease_fields(1))
qed

definition sample_continuation :: scheduled_continuation_row where
  "sample_continuation = \<lparr>cn_id = ''sc'', cn_goal_id = ''g1'', cn_source_session_id = ''s'',
     cn_generation = 1, cn_source_goal_revision = 0, cn_status = Sc_scheduled,
     cn_occurrence = So_once, cn_interval_minutes = None, cn_destination = ''current_chat'',
     cn_execution_preference = Sp_cloud, cn_confirmed_runs_on = None, cn_due_at = Instant 30000,
     cn_native_task_id = Some ''n1'', cn_request_fingerprint = ''f'', cn_version = 1,
     cn_last_detail = None, cn_created_at = Instant 0, cn_updated_at = Instant 0,
     cn_claimed_at = None, cn_terminal_at = None, cn_pending_due_at = None,
     cn_reschedule_reason = None, cn_reschedule_count = 0, cn_last_collision_at = None,
     cn_last_rescheduled_at = None, cn_orphan_probe_started_at = None,
     cn_orphan_probe_lease_generation = None, cn_orphan_probe_activity_seq = None,
     cn_orphan_recovery_count = 0\<rparr>"

theorem mutation_respects_handoff_witness:
  "\<exists>db' res. beginGoalFencedMutation (sample_begin ''h1'' 1 1000)
      (sample_store\<lparr>db_continuations := [sample_continuation]\<rparr>) = Inr (db', res)
    \<and> (\<exists>r \<in> set (db_goals db'). \<exists>e. gr_lease_expires_at r = Some (Instant e) \<and> e \<le> 30000)"
proof -
  let ?db = "sample_store\<lparr>db_continuations := [sample_continuation]\<rparr>"
  let ?q = "sample_begin ''h1'' 1 1000"
  have "\<not> is_err (beginGoalFencedMutation ?q ?db)" by ((unfold finished_store_def taken_store_def goal_step_eval)?, code_simp)
  then obtain db' res where ok: "beginGoalFencedMutation ?q ?db = Inr (db', res)"
    by (cases "beginGoalFencedMutation ?q ?db") auto
  from mutation_respects_handoff [OF ok] obtain fence r where
    "selectMutationFenceContinuation ?db (bq_goalId ?q) = Some fence" and r: "r \<in> set (db_goals db')"
    and due: "\<forall>due. mutationFenceDueAt fence = Some due \<longrightarrow>
        (\<exists>d n e. due = Instant d \<and> bq_startedAt ?q = Instant n \<and> n < d
          \<and> gr_lease_expires_at r = Some (Instant e) \<and> e \<le> d)" by blast
  then have "fence = sample_continuation"
    by (simp add: selectMutationFenceContinuation_def row_latest_def sample_begin_def
        sample_continuation_def)
  then have "mutationFenceDueAt fence = Some (Instant 30000)"
    by (simp add: mutationFenceDueAt_def sample_continuation_def)
  with due r ok show ?thesis by fastforce
qed

end
