(* ===== verification/Goal_Wake_Safety.thy ===== *)
theory Goal_Wake_Safety
  imports Goal_Repository_Safety
begin

text \<open>
  The guarantees of scheduled continuations: how a wake evolves over any operations of the store, when
  a claim may take a goal over, what it leaves behind, that a recurring wake is acquired once an hour,
  and the delays it works with.
\<close>

section \<open>A concrete store with a confirmed wake\<close>

definition sample_prepare :: "scheduled_continuation_occurrence option \<Rightarrow> prepare_wake_request" where
  "sample_prepare occ = \<lparr>pw_continuationId = ''sc'', pw_checkpointId = ''p1'', pw_goalId = ''g1'',
     pw_ownerClientId = ''c'', pw_ownerSessionId = ''s'', pw_leaseTokenHash = ''h1'',
     pw_expectedRevision = 0, pw_plan = [], pw_currentPhase = ''phase'', pw_summary = ''sum'',
     pw_stepUpdates = [], pw_nextAction = ''next'', pw_blockers = [], pw_evidence = [],
     pw_activeTaskIds = [], pw_trackedTasks = None, pw_dueAt = Instant 600000, pw_occurrence = occ,
     pw_intervalMinutes = None, pw_executionPreference = Sp_cloud, pw_requestFingerprint = ''f'',
     pw_now = Instant 1000\<rparr>"

definition sample_receipt :: "receipt_outcome \<Rightarrow> int \<Rightarrow> wake_receipt_request" where
  "sample_receipt out version = \<lparr>wt_continuationId = ''sc'', wt_expectedVersion = version, wt_outcome = out,
     wt_nativeTaskId = Some ''n1'', wt_dueAt = Some (Instant 600000), wt_runsOn = Some Sr_cloud,
     wt_nativeRun = None, wt_nativeCancellation = None, wt_userCancellation = None, wt_detail = None,
     wt_now = Instant 2000\<rparr>"

definition sample_wake_store :: "scheduled_continuation_occurrence option \<Rightarrow> goal_db" where
  "sample_wake_store occ = run_goals
     (sample_store\<lparr>db_workspaces := [\<lparr>ww_id = ''w1'', ww_writer_lease_generation = None, ww_writer_lease_expires_at = None, ww_archived_at = None\<rparr>]\<rparr>)
     [Op_prepare_wake (sample_prepare occ), Op_receipt (sample_receipt Rc_created 0)]"

definition sample_claim :: "int \<Rightarrow> claim_wake_request" where
  "sample_claim n = \<lparr>kw_continuationId = ''sc'', kw_ownerClientId = ''c2'', kw_ownerSessionId = ''s2'',
     kw_leaseTokenHash = ''h2'', kw_leaseSeconds = 300, kw_earlyToleranceSeconds = None,
     kw_liveness = Some \<lparr>le_trustworthy = True, le_observedAt = Instant n, le_leaseGeneration = 1,
       le_leaseActivitySeq = 0, le_liveFencedCallCount = 0, le_blockingTaskStates = Some [],
       le_activeTaskStates = None\<rparr>,
     kw_claimSuccessorId = ''wake-'' @ take 48 (claim_identity id ''sc''),
     kw_claimSuccessorDueAt = Instant (n + 300000),
     kw_claimSuccessorRequestFingerprint = claim_identity id ''sc'', kw_now = Instant n\<rparr>"

fun acquired_by :: "goal_error + goal_db \<times> claim_result \<Rightarrow> acquisition option" where
  "acquired_by (Inr (_, Claim_acquired acq _ _ _)) = Some acq"
| "acquired_by _ = None"

fun run_acquired_by :: "goal_error + goal_db \<times> claim_result \<Rightarrow> string option" where
  "run_acquired_by (Inr (_, Claim_recurring_acquired _ _ _ runKey)) = Some runKey"
| "run_acquired_by _ = None"

lemma acquired_byE:
  assumes "acquired_by r = Some acq"
  obtains db' g claimed s where "r = Inr (db', Claim_acquired acq g claimed s)"
  using assms by (cases r rule: acquired_by.cases) simp_all

lemma run_acquired_byE:
  assumes "run_acquired_by r = Some runKey"
  obtains db' acq g c where "r = Inr (db', Claim_recurring_acquired acq g c runKey)"
  using assms by (cases r rule: run_acquired_by.cases) simp_all

lemma wf_sample_workspaces: "wf_goals (sample_store\<lparr>db_workspaces := ws\<rparr>)"
  using wf_sample_store by (rule same_goals_wf [rotated]) (simp add: same_goals_def)

lemma wf_sample_wake_store: "wf_goals (sample_wake_store occ)"
  unfolding sample_wake_store_def by (rule goal_store.run_inv [OF wf_sample_workspaces])
lemma wakes_ok_sample_wake_store: "wakes_ok (sample_wake_store occ)"
proof -
  have "wakes_ok empty_goal_db" by (simp add: wakes_ok_def continuations_ok_def empty_goal_db_def)
  then have "wakes_ok sample_store" unfolding sample_store_def by (rule wake_store.step_inv)
  then have "wakes_ok (sample_store\<lparr>db_workspaces := ws\<rparr>)" for ws by (simp add: wakes_ok_def)
  then show ?thesis unfolding sample_wake_store_def by (rule wake_store.run_inv)
qed

lemma sample_wake_listed:
  "list_ex (\<lambda>c. cn_id c = ''sc'' \<and> cn_generation c = 1 \<and> cn_version c = 1)
     (db_continuations (sample_wake_store None))"
  by ((unfold sample_wake_store_def goal_step_eval)?, code_simp)

section \<open>The table of wakes\<close>

lemma wake_ids: "wakes_ok db \<Longrightarrow> distinct (map cn_id (db_continuations db))"
  by (simp add: wakes_ok_def continuations_ok_def)

lemma selectWakeD:
  "selectScheduledContinuationById db i = Some c \<Longrightarrow> c \<in> set (db_continuations db) \<and> cn_id c = i"
  unfolding selectScheduledContinuationById_def by (drule row_get_SomeD)

text \<open>The row an update changed, read back.\<close>

lemma updated_wake:
  assumes "wakes_ok db" "update_continuation P f db = Inr db1" "requireScheduledContinuationById db1 i = Inr c'"
    and P: "\<And>x. P x \<Longrightarrow> cn_id x = i" and f: "\<And>x. cn_id (f x) = cn_id x"
  obtains c where "c \<in> set (db_continuations db)" "P c" "c' = f c"
    "selectScheduledContinuationById db i = Some c"
proof -
  have db1: "db_continuations db1 = row_update P f (db_continuations db)"
    and "row_changes P (db_continuations db) \<noteq> 0"
    using assms(2) by (auto elim!: update_continuationE)
  then obtain c where c: "c \<in> set (db_continuations db)" "P c" by (auto simp: row_changes_0_iff)
  then have get: "row_get (\<lambda>x. cn_id x = i) (db_continuations db) = Some c"
    using row_get_key [OF wake_ids [OF assms(1)] c(1)] P by simp
  then have "row_get (\<lambda>x. cn_id x = i) (db_continuations db1) = Some (f c)"
    unfolding db1 row_get_update_key [of cn_id f, OF f] using c(2) by simp
  then have "c' = f c"
    using assms(3) by (auto simp: requireScheduledContinuationById_def dest: toScheduledContinuationRecord_same)
  then show ?thesis using that c get by (simp add: selectScheduledContinuationById_def)
qed

lemma one_live_wake:
  assumes "wakes_ok db" "c \<in> set (db_continuations db)" "d \<in> set (db_continuations db)"
    "is_live c" "is_live d" "cn_goal_id c = cn_goal_id d"
  shows "c = d"
proof (rule distinct_key_unique [of cn_goal_id "filter is_live (db_continuations db)"])
  show "distinct (map cn_goal_id (filter is_live (db_continuations db)))"
    using assms(1) by (simp add: wakes_ok_def continuations_ok_def)
qed (use assms in auto)

text \<open>
  Over any sequence of operations a wake stays in the table with its identity (goal, generation,
  source revision, fingerprint, occurrence), its version never falls, a wake whose version did not
  grow has the status, due times and host task it had, and no other wake of its goal is live beside
  it.
\<close>

theorem wake_evolves_by_version:
  assumes "wakes_ok db" "c \<in> set (db_continuations db)"
  shows "\<exists>c' \<in> set (db_continuations (run_goals db ops)). wake_evolves c c'
    \<and> (\<forall>d \<in> set (db_continuations (run_goals db ops)).
        is_live d \<and> is_live c' \<and> cn_goal_id d = cn_goal_id c \<longrightarrow> d = c')"
proof -
  obtain c' where c': "c' \<in> set (db_continuations (run_goals db ops))" "wake_evolves c c'"
    using wake_store.run_rel [OF assms(1), of ops] assms(2) by (auto simp: wakes_extend_def)
  have "cn_goal_id c' = cn_goal_id c" using c'(2) by (simp add: wake_evolves_def)
  then show ?thesis
    using c' one_live_wake [OF wake_store.run_inv [OF assms(1), of ops] _ c'(1)] by (intro bexI [of _ c']) auto
qed

theorem wake_evolves_by_version_witness:
  "\<exists>c \<in> set (db_continuations (run_goals (sample_wake_store None) [Op_claim_wake id (sample_claim 600000) ''x2''])).
     cn_id c = ''sc'' \<and> cn_generation c = 1 \<and> 1 \<le> cn_version c"
proof -
  obtain c where c: "c \<in> set (db_continuations (sample_wake_store None))"
    "cn_id c = ''sc''" "cn_generation c = 1" "cn_version c = 1"
    using list_ex_iff [of "\<lambda>c. cn_id c = ''sc'' \<and> cn_generation c = 1 \<and> cn_version c = 1"
        "db_continuations (sample_wake_store None)"]
    by (metis (no_types, lifting) sample_wake_listed)
  from wake_evolves_by_version [OF wakes_ok_sample_wake_store c(1),
      of "[Op_claim_wake id (sample_claim 600000) ''x2'']"]
  show ?thesis using c by (auto simp: wake_evolves_def)
qed

section \<open>Taking a goal over\<close>

lemma acquired_once:
  assumes "claimScheduledContinuation sha256 q x db = Inr (db', Claim_acquired acq g claimed s)"
  obtains c goal where "selectScheduledContinuationById db (kw_continuationId q) = Some c"
    "cn_occurrence c \<noteq> So_interval" "requireById db (cn_goal_id c) = Inr goal" "g_id goal = cn_goal_id c"
    "may_take_over q c goal acq" "isWorkspaceActive db (g_workspaceId goal)"
    "claimContinuationLease sha256 q c goal acq x db = Inr (db', Claim_acquired acq g claimed s)"
  using assms
proof (elim claimE)
  fix c goal
  assume *: "selectScheduledContinuationById db (kw_continuationId q) = Some c"
    "requireById db (cn_goal_id c) = Inr goal" "g_id goal = cn_goal_id c"
    and d: "cn_occurrence c \<noteq> So_interval \<and> terminal_noop_claim q c goal db = Inr (db', Claim_acquired acq g claimed s)
     \<or> cn_occurrence c = So_interval \<and> claimRecurringScheduledContinuation sha256 q c goal
          (isWorkspaceActive db (g_workspaceId goal)) x db = Inr (db', Claim_acquired acq g claimed s)
     \<or> cn_occurrence c \<noteq> So_interval \<and> isWorkspaceActive db (g_workspaceId goal)
        \<and> claim_once sha256 q c goal x db = Inr (db', Claim_acquired acq g claimed s)"
  have "False" if "terminal_noop_claim q c goal db = Inr (db', Claim_acquired acq g claimed s)"
    using terminal_noop_step(2) [OF that] by simp
  moreover have "False" if "claimRecurringScheduledContinuation sha256 q c goal active x db
      = Inr (db', Claim_acquired acq g claimed s)" for active
    using that by (cases rule: claim_recurringE) (auto elim: busy_runE recurring_leaseE)
  ultimately have act: "cn_occurrence c \<noteq> So_interval" "isWorkspaceActive db (g_workspaceId goal)"
    and once: "claim_once sha256 q c goal x db = Inr (db', Claim_acquired acq g claimed s)"
    using d by blast+
  from once show ?thesis
  proof (cases rule: claim_onceE)
    case (takes acq')
    then have "acq' = acq" by (elim claim_leaseE) simp
    then show ?thesis using that [OF *(1) act(1) *(2,3)] takes act(2) by blast
  next
    case noop
    then show ?thesis using terminal_noop_step(2) [OF noop] by simp
  qed (auto elim: recoverE collisionE)
qed

lemma claimed_row:
  assumes "wakes_ok db" "claimContinuationLease sha256 q c goal acq x db = Inr (db', Claim_acquired acq g claimed s)"
    "selectScheduledContinuationById db (kw_continuationId q) = Some c"
  shows "claimed = claim_row acq (kw_now q) c" "cn_id c = kw_continuationId q" "claimable c"
proof -
  obtain db1 db2 where t: "take_goal_lease q goal db = Inr db1"
    and u: "update_continuation (\<lambda>x. at_version (kw_continuationId q) (cn_version c) x \<and> claimable x)
       (claim_row acq (kw_now q)) db1 = Inr db2"
    and r: "requireScheduledContinuationById db2 (kw_continuationId q) = Inr claimed"
    using assms(2) by (elim claim_leaseE) blast
  have same: "db_continuations db1 = db_continuations db" using take_wakes [OF t] by (simp add: same_wakes_def)
  then have ok: "wakes_ok db1" using assms(1) by (simp add: wakes_ok_def)
  obtain c' where c': "claimed = claim_row acq (kw_now q) c'"
    "selectScheduledContinuationById db1 (kw_continuationId q) = Some c'" "claimable c'"
    "cn_id c' = kw_continuationId q"
  proof (rule updated_wake [OF ok u r])
    show "cn_id (claim_row acq (kw_now q) y) = cn_id y" for y by (simp add: claim_row_def clear_probe_def)
  qed (auto simp: at_version_def intro: that)
  moreover have "c' = c" using c'(2) assms(3) same by (simp add: selectScheduledContinuationById_def)
  ultimately show "claimed = claim_row acq (kw_now q) c" "cn_id c = kw_continuationId q" "claimable c"
    by simp_all
qed

text \<open>
  C10: A one-time wake hands a goal to a new worker only when the goal is active, its workspace not
  archived, the wake is due (at most 300 s early) and confirmed by the host, the old worker was observed
  for the current lease with no call and no blocking task of it running, and its lease is missing, has
  expired, or an earlier probe at least 120 s ago saw the very same lease and activity. The wake is
  used up by it.
\<close>

theorem wake_takeover_justified:
  assumes "wakes_ok db"
    and "claimScheduledContinuation sha256 q x db = Inr (db', Claim_acquired acq g claimed s)"
  shows "\<exists>c goal. selectScheduledContinuationById db (kw_continuationId q) = Some c
    \<and> requireById db (cn_goal_id c) = Inr goal \<and> isWorkspaceActive db (g_workspaceId goal)
    \<and> may_take_over q c goal acq \<and> cn_id claimed = cn_id c \<and> \<not> is_live claimed"
proof -
  obtain c goal where c: "selectScheduledContinuationById db (kw_continuationId q) = Some c"
    "requireById db (cn_goal_id c) = Inr goal" "may_take_over q c goal acq"
    "isWorkspaceActive db (g_workspaceId goal)"
    and l: "claimContinuationLease sha256 q c goal acq x db = Inr (db', Claim_acquired acq g claimed s)"
    by (rule acquired_once [OF assms(2)])
  from claimed_row [OF assms(1) l c(1)] have "cn_id claimed = cn_id c" "\<not> is_live claimed"
    by (simp_all add: claim_row_def clear_probe_def is_live_def)
  then show ?thesis using c by blast
qed

theorem wake_takeover_justified_witness:
  "\<exists>c goal. selectScheduledContinuationById (sample_wake_store None) ''sc'' = Some c
    \<and> requireById (sample_wake_store None) (cn_goal_id c) = Inr goal
    \<and> may_take_over (sample_claim 600000) c goal Aq_expired_lease"
proof -
  have "acquired_by (claimScheduledContinuation id (sample_claim 600000) ''x2'' (sample_wake_store None))
      = Some Aq_expired_lease" by ((unfold sample_wake_store_def goal_step_eval)?, code_simp)
  then obtain db' g claimed s where "claimScheduledContinuation id (sample_claim 600000) ''x2''
      (sample_wake_store None) = Inr (db', Claim_acquired Aq_expired_lease g claimed s)"
    by (rule acquired_byE)
  from wake_takeover_justified [OF wakes_ok_sample_wake_store this] show ?thesis
    by (auto simp: sample_claim_def)
qed
section \<open>Recurring wakes\<close>

lemma acquired_run:
  assumes "claimScheduledContinuation sha256 q x db = Inr (db', Claim_recurring_acquired acq g c' runKey)"
  obtains c goal where "selectScheduledContinuationById db (kw_continuationId q) = Some c"
    "cn_id c = kw_continuationId q" "recurringRunKey c (kw_now q) = Inr runKey" "run_open db c runKey"
    "requireById db (cn_goal_id c) = Inr goal" "may_run q c goal acq"
    "claimRecurringContinuationLease sha256 q c goal acq runKey x db
       = Inr (db', Claim_recurring_acquired acq g c' runKey)"
  using assms
proof (elim claimE)
  fix c goal
  let ?res = "Claim_recurring_acquired acq g c' runKey"
  assume *: "selectScheduledContinuationById db (kw_continuationId q) = Some c"
    "requireById db (cn_goal_id c) = Inr goal"
    and d: "cn_occurrence c \<noteq> So_interval \<and> terminal_noop_claim q c goal db = Inr (db', ?res)
     \<or> cn_occurrence c = So_interval \<and> claimRecurringScheduledContinuation sha256 q c goal
          (isWorkspaceActive db (g_workspaceId goal)) x db = Inr (db', ?res)
     \<or> cn_occurrence c \<noteq> So_interval \<and> isWorkspaceActive db (g_workspaceId goal)
        \<and> claim_once sha256 q c goal x db = Inr (db', ?res)"
  have ci: "cn_id c = kw_continuationId q"
    using selectWakeD [OF *(1)] by simp
  have "False" if "terminal_noop_claim q c goal db = Inr (db', ?res)"
    using terminal_noop_step(2) [OF that] by simp
  moreover have "False" if "claim_once sha256 q c goal x db = Inr (db', ?res)"
    using that
  proof (cases rule: claim_onceE)
    case noop
    then show ?thesis using terminal_noop_step(2) [OF noop] by simp
  qed (auto elim: recoverE collisionE claim_leaseE)
  ultimately have "claimRecurringScheduledContinuation sha256 q c goal
      (isWorkspaceActive db (g_workspaceId goal)) x db = Inr (db', ?res)" using d by blast
  then show ?thesis
  proof (cases rule: claim_recurringE)
    case (takes acq' runKey')
    then have "acq' = acq" "runKey' = runKey" by (auto elim: recurring_leaseE)
    then show ?thesis using that [OF *(1) ci _ _ *(2)] takes by blast
  qed (auto elim: busy_runE)
qed

lemma acquired_run_recorded:
  assumes "claimScheduledContinuation sha256 q x db = Inr (db', Claim_recurring_acquired acq g c' runKey)"
  shows "recurringRunOutcome db' (kw_continuationId q) runKey \<in> {Some Ru_acquired, Some Ru_orphan_recovered}"
proof -
  obtain c goal where "cn_id c = kw_continuationId q"
    and "claimRecurringContinuationLease sha256 q c goal acq runKey x db
       = Inr (db', Claim_recurring_acquired acq g c' runKey)"
    by (rule acquired_run [OF assms])
  then show ?thesis by (elim recurring_leaseE) (simp add: record_run_outcome)
qed

text \<open>
  C12: A recurring wake gives the goal to at most one worker per hour: once a claim acquired the lease
  for a run, no later claim of the same wake acquires it for the same run, whatever operations ran in
  between.
\<close>

theorem recurring_run_once:
  assumes "claimScheduledContinuation sha256 q x db = Inr (db', Claim_recurring_acquired acq g c runKey)"
    and "claimScheduledContinuation sha256' q' x' (run_goals db' ops)
      = Inr (db'', Claim_recurring_acquired acq' g' c' runKey')"
    and "kw_continuationId q' = kw_continuationId q"
  shows "runKey' \<noteq> runKey"
proof
  assume same: "runKey' = runKey"
  have "runs_kept db' (run_goals db' ops)" by (rule run_store.run_rel) simp
  then have "recurringRunOutcome (run_goals db' ops) (kw_continuationId q) runKey
      \<in> {Some Ru_acquired, Some Ru_orphan_recovered}"
    using acquired_run_recorded [OF assms(1)] by (auto simp: runs_kept_def)
  moreover obtain c0 where "cn_id c0 = kw_continuationId q'" "run_open (run_goals db' ops) c0 runKey'"
    by (rule acquired_run [OF assms(2)])
  ultimately show False using assms(3) same by (auto simp: run_open_def)
qed

definition sample_second_claim :: claim_wake_request where
  "sample_second_claim = (sample_claim 4200000)\<lparr>kw_leaseTokenHash := ''h3'', kw_liveness :=
     Some \<lparr>le_trustworthy = True, le_observedAt = Instant 4200000, le_leaseGeneration = 2,
       le_leaseActivitySeq = 0, le_liveFencedCallCount = 0, le_blockingTaskStates = Some [],
       le_activeTaskStates = None\<rparr>\<rparr>"

definition sample_first_run :: goal_db where
  "sample_first_run =
     goal_step (sample_wake_store (Some So_interval)) (Op_claim_wake id (sample_claim 600000) ''x2'')"

theorem recurring_run_once_witness:
  "run_acquired_by (claimScheduledContinuation id sample_second_claim ''x3'' sample_first_run)
     = Some ''interval-1'' \<and> ''interval-1'' \<noteq> ''interval-0''"
proof -
  have "run_acquired_by (claimScheduledContinuation id (sample_claim 600000) ''x2''
      (sample_wake_store (Some So_interval))) = Some ''interval-0''" by ((unfold sample_first_run_def sample_wake_store_def goal_step_eval)?, code_simp)
  then obtain db' acq g c where one: "claimScheduledContinuation id (sample_claim 600000) ''x2''
      (sample_wake_store (Some So_interval)) = Inr (db', Claim_recurring_acquired acq g c ''interval-0'')"
    by (rule run_acquired_byE)
  have db': "db' = sample_first_run" using one by (simp add: sample_first_run_def)
  have two: "run_acquired_by (claimScheduledContinuation id sample_second_claim ''x3'' sample_first_run)
     = Some ''interval-1''" by ((unfold sample_first_run_def sample_wake_store_def goal_step_eval)?, code_simp)
  then obtain db'' acq' g' c' where "claimScheduledContinuation id sample_second_claim ''x3''
      (run_goals db' []) = Inr (db'', Claim_recurring_acquired acq' g' c' ''interval-1'')"
    using db' by (auto elim: run_acquired_byE)
  from recurring_run_once [OF one this] two show ?thesis
    by (simp add: sample_second_claim_def sample_claim_def)
qed

section \<open>The clock of a recurring wake\<close>

lemma run_key_eq_iff:
  assumes "cn_interval_minutes c = Some 60" "cn_due_at c = Instant due"
  shows "recurringRunKey c (Instant a) = recurringRunKey c (Instant b)
    \<longleftrightarrow> max 0 ((a - due) div 3600000) = max 0 ((b - due) div 3600000)"
proof -
  let ?h = "\<lambda>t. max 0 ((t - due) div 3600000)"
  have "recurringRunKey c (Instant a) = recurringRunKey c (Instant b)
      \<longleftrightarrow> decimal (nat (?h a)) = decimal (nat (?h b))"
    using assms by (simp add: recurringRunKey_def interval_ms_def)
  also have "\<dots> \<longleftrightarrow> nat (?h a) = nat (?h b)" by (rule iffI, rule decimal_inj) simp_all
  also have "\<dots> \<longleftrightarrow> ?h a = ?h b" by (rule eq_nat_nat_iff) simp_all
  finally show ?thesis .
qed

text \<open>
  Two claims of a recurring wake belong to the same run exactly when they fall into the same hour
  counted from its due time; everything before the first tick counts to the first run. Once the wake is
  due, the wait it is told is at least a second and at most an hour, and ends in another run.
\<close>

theorem run_key_is_the_hour:
  assumes "cn_interval_minutes c = Some 60" "cn_due_at c = Instant due"
  shows "(recurringRunKey c (Instant a) = recurringRunKey c (Instant b)
      \<longleftrightarrow> max 0 ((a - due) div 3600000) = max 0 ((b - due) div 3600000))
    \<and> (due \<le> a \<longrightarrow> (\<exists>n. secondsUntilNextRecurringTick c (Instant a) = Inr n \<and> 1 \<le> n \<and> n \<le> 3600
      \<and> recurringRunKey c (Instant (a + n * 1000)) \<noteq> recurringRunKey c (Instant a)))"
proof (intro conjI impI)
  note key = run_key_eq_iff [OF assms]
  show "recurringRunKey c (Instant a) = recurringRunKey c (Instant b)
      \<longleftrightarrow> max 0 ((a - due) div 3600000) = max 0 ((b - due) div 3600000)" by (rule key)
  assume le: "due \<le> a"
  let ?k = "(a - due) div 3600000"
  let ?tick = "due + (?k * 3600000 + 3600000)"
  let ?n = "max 1 (ceil_div_1000 (?tick - a))"
  have k: "?k * 3600000 \<le> a - due" "a - due < ?k * 3600000 + 3600000" by linarith+
  have n: "secondsUntilNextRecurringTick c (Instant a) = Inr ?n"
    using assms le by (simp add: secondsUntilNextRecurringTick_def interval_ms_def Let_def distrib_right)
  have c: "?tick - a \<le> ceil_div_1000 (?tick - a) * 1000" "ceil_div_1000 (?tick - a) * 1000 < ?tick - a + 1000"
    unfolding ceil_div_1000_def by linarith+
  have "1 \<le> ?n" "?n \<le> 3600" "?tick \<le> a + ?n * 1000" using k c by linarith+
  moreover have "?k + 1 \<le> (a + ?n * 1000 - due) div 3600000"
    using \<open>?tick \<le> a + ?n * 1000\<close> by linarith
  moreover have "0 \<le> ?k" using le by simp
  ultimately show "\<exists>n. secondsUntilNextRecurringTick c (Instant a) = Inr n \<and> 1 \<le> n \<and> n \<le> 3600
      \<and> recurringRunKey c (Instant (a + n * 1000)) \<noteq> recurringRunKey c (Instant a)"
    using n by (intro exI [of _ ?n]) (simp add: key)
qed

theorem run_key_is_the_hour_witness:
  "\<exists>c due. cn_interval_minutes c = Some 60 \<and> cn_due_at c = Instant due
    \<and> recurringRunKey c (Instant (due + 1000)) = recurringRunKey c (Instant (due + 3599000))
    \<and> recurringRunKey c (Instant (due + 1000)) \<noteq> recurringRunKey c (Instant (due + 3600000))"
proof -
  let ?c = "fresh_continuation ''sc'' ''g1'' ''s'' 1 0 So_interval (Some 60) Sp_cloud (Instant 600000) ''f'' (Instant 0)"
  have c: "cn_interval_minutes ?c = Some 60" "cn_due_at ?c = Instant 600000"
    by (simp_all add: fresh_continuation_def)
  show ?thesis
    using run_key_is_the_hour [OF c, of 601000 4199000] run_key_is_the_hour [OF c, of 601000 4200000] c
    by (intro exI [of _ ?c] exI [of _ 600000]) simp
qed

end
