(* ===== verification/Goal_Wake_Succession.thy ===== *)
theory Goal_Wake_Succession
  imports Goal_Wake_Safety
begin

text \<open>
  The successor of a wake: a claim never leaves a goal without its next wake. What the successor row
  is, when it is due, and that the lease of the goal does not outlive it.
\<close>

section \<open>The delay after a collision\<close>

lemma remaining_nonneg: "remaining_lease_seconds goal now = Inr n \<Longrightarrow> 0 \<le> n"
  by (auto simp: remaining_lease_seconds_def bind_ok_Inr_iff split: option.splits)

text \<open>
  The wait after a collision lies between 240 s and 1500 s whatever the collision count is, and
  unless the bound of 1500 s cuts it a wait that follows no probe does not end before the lease of the
  present worker, and one that follows a probe is long enough for the second probe.
\<close>

theorem collision_delay_bounds:
  assumes "adaptiveCollisionSuccessorSeconds q c goal probing = Inr n"
  shows "240 \<le> n \<and> n \<le> 1500
    \<and> (\<not> probing \<longrightarrow> n < 1500 \<longrightarrow> (\<forall>now r. kw_now q = Instant now \<longrightarrow>
        remaining_lease_seconds goal now = Inr r \<longrightarrow> 0 < r \<longrightarrow> r + early_tolerance q \<le> n))
    \<and> (probing \<longrightarrow> n < 1500 \<longrightarrow> 120 + early_tolerance q \<le> n)"
proof -
  obtain now r where t: "kw_now q = Instant now" "remaining_lease_seconds goal now = Inr r"
    using assms unfolding adaptiveCollisionSuccessorSeconds_def
    by (elim bind_okE) (simp only: parse_iso_Inr_iff)
  note def = assms [unfolded adaptiveCollisionSuccessorSeconds_def t parse_iso_Instant bind_ok_simps Let_def
      COLLISION_SUCCESSOR_MAX_SECONDS_def COLLISION_SUCCESSOR_MIN_SECONDS_def ORPHAN_PROBE_MIN_SECONDS_def
      sum.inject]
  obtain b where n: "n = min (25 * 60) (if probing
      then max 240 (max b (if probing then 120 + early_tolerance q else 0))
      else max 240 (max b (if r > 0 then r + early_tolerance q else 0)))"
    using def [symmetric] by (rule that)
  have "240 \<le> n" "n \<le> 1500" using n by (simp_all split: if_splits)
  moreover have "\<not> probing \<longrightarrow> n < 1500 \<longrightarrow> 0 < r \<longrightarrow> r + early_tolerance q \<le> n"
  proof (intro impI)
    assume *: "\<not> probing" "n < 1500" "0 < r"
    have "n = min (25 * 60) (max 240 (max b (r + early_tolerance q)))" using n * by simp
    then show "r + early_tolerance q \<le> n" using *(2) by linarith
  qed
  moreover have "probing \<longrightarrow> n < 1500 \<longrightarrow> 120 + early_tolerance q \<le> n"
  proof (intro impI)
    assume *: "probing" "n < 1500"
    have "n = min (25 * 60) (max 240 (max b (120 + early_tolerance q)))" using n * by simp
    then show "120 + early_tolerance q \<le> n" using *(2) by linarith
  qed
  ultimately show ?thesis using t by auto
qed

theorem collision_delay_bounds_witness:
  "\<exists>goal n. requireById (sample_wake_store None) ''g1'' = Inr goal
    \<and> adaptiveCollisionSuccessorSeconds (sample_claim 1000) (fresh_continuation ''sc'' ''g1'' ''s'' 1 0
        So_once None Sp_cloud (Instant 600000) ''f'' (Instant 0)) goal False = Inr n \<and> 240 \<le> n \<and> n \<le> 1500"
proof -
  let ?c = "fresh_continuation ''sc'' ''g1'' ''s'' 1 0 So_once None Sp_cloud (Instant 600000) ''f'' (Instant 0)"
  have "\<not> is_err (bind_ok (requireById (sample_wake_store None) ''g1'') (\<lambda>goal.
      adaptiveCollisionSuccessorSeconds (sample_claim 1000) ?c goal False))" by ((unfold sample_wake_store_def goal_step_eval)?, code_simp)
  then obtain goal n where g: "requireById (sample_wake_store None) ''g1'' = Inr goal"
    "adaptiveCollisionSuccessorSeconds (sample_claim 1000) ?c goal False = Inr n"
    by (cases "bind_ok (requireById (sample_wake_store None) ''g1'') (\<lambda>goal.
      adaptiveCollisionSuccessorSeconds (sample_claim 1000) ?c goal False)") (auto simp: bind_ok_Inr_iff)
  show ?thesis using g collision_delay_bounds [OF g(2)]
    by (intro exI [of _ goal] exI [of _ n]) simp
qed

section \<open>The successor row\<close>

lemma cap_bounds:
  assumes c: "capGoalLeaseAtClaimSuccessor goal dueAt now True db = Inr db'"
    and ids: "distinct (map gr_id (db_goals db))"
    and g: "requireById db (g_id goal) = Inr goal" "requireById db' (g_id goal) = Inr goal'"
  shows "\<exists>e due. dueAt = Instant due \<and> g_leaseExpiresAt goal' = Some (Instant e) \<and> e \<le> due
    \<and> g_leaseGeneration goal' = g_leaseGeneration goal \<and> g_leaseTokenHash goal' = g_leaseTokenHash goal"
  using c
proof (cases rule: capE)
  case (held e capped)
  obtain r where r: "r \<in> set (db_goals db)" "gr_id r = g_id goal"
    and db': "db' = db\<lparr>db_goals := replace_goal (cap_lease capped now r) (db_goals db)\<rparr>"
    by (rule update_goal_replace [OF ids held(3)]) auto
  let ?r = "cap_lease capped now r"
  have old: "toGoalRecord db r = Inr goal" using requireById_row [OF ids r] g(1) by simp
  have "?r \<in> set (db_goals db')" using db' replace_goal_mem [OF r(1), of ?r] by simp
  then have "toGoalRecord db' ?r = Inr goal'"
    using requireById_row [of db' ?r "g_id goal"] ids db' r(2) g(2) by simp
  note new = toGoalRecord_fields [OF this]
  obtain due where "dueAt = Instant due" "\<exists>m. capped = Instant m \<and> m \<le> due"
    using held(2) by (auto simp: minIso_Inr_iff)
  then show ?thesis using new(11,13,16) toGoalRecord_fields(11,13) [OF old] by (auto simp: cap_lease_def)
qed simp

lemma fresh_successor_spec:
  assumes p: "prepareFreshClaimSuccessor sha256 q c goal required aligned db = Inr (db', (s, d))"
    and ok: "wakes_ok db"
  shows "cn_goal_id s = g_id goal \<and> cn_id s = kw_claimSuccessorId q \<and> cn_generation s = cn_generation c + 1
    \<and> cn_status s \<in> {Sc_prepared, Sc_create_failed, Sc_create_uncertain}"
    and "\<exists>db1. same_goals db db1 \<and> capGoalLeaseAtClaimSuccessor goal (cn_due_at s) (kw_now q) required db1 = Inr db'"
    and "selectScheduledContinuationById db (kw_claimSuccessorId q) = None \<Longrightarrow>
      cn_status s = Sc_prepared \<and> cn_due_at s = kw_claimSuccessorDueAt q
      \<and> (aligned \<longrightarrow> lease_aligned_due q = Inr ())"
proof -
  let ?spec = "(cn_goal_id s = g_id goal \<and> cn_id s = kw_claimSuccessorId q \<and> cn_generation s = cn_generation c + 1
      \<and> cn_status s \<in> {Sc_prepared, Sc_create_failed, Sc_create_uncertain})
    \<and> (\<exists>db1. same_goals db db1 \<and> capGoalLeaseAtClaimSuccessor goal (cn_due_at s) (kw_now q) required db1 = Inr db')
    \<and> (selectScheduledContinuationById db (kw_claimSuccessorId q) = None \<longrightarrow>
        cn_status s = Sc_prepared \<and> cn_due_at s = kw_claimSuccessorDueAt q
        \<and> (aligned \<longrightarrow> lease_aligned_due q = Inr ()))"
  have ?spec
    using p
  proof (cases rule: fresh_successorE)
    case (adopted row)
    have inv: "cn_goal_id row = g_id goal" "cn_id row = kw_claimSuccessorId q"
      "cn_generation row = cn_generation c + 1"
      "cn_status row \<in> {Sc_prepared, Sc_create_failed, Sc_create_uncertain}"
      using adopted(3) by (auto simp: assertClaimSuccessorInvariant_def split: if_splits)
    have mem: "row \<in> set (db_continuations db)"
      using adopted(4) selectWakeD row_latest_SomeD unfolding selectLiveScheduledContinuation_def by metis
    then have found: "selectScheduledContinuationById db (kw_claimSuccessorId q) \<noteq> None"
      using inv(2) by (auto simp: selectScheduledContinuationById_def row_get_None_iff)
    from adopted(5) show ?thesis
    proof (cases rule: refresh_successorE)
      case kept
      then show ?thesis using inv found same_goals_refl by blast
    next
      case (refreshed db1 n)
      have same: "db_continuations db' = db_continuations db1"
        using cap_wakes [OF refreshed(4)] by (simp add: same_wakes_def)
      have "requireScheduledContinuationById db1 (cn_id row) = Inr s"
        using refreshed(5) same by (simp add: requireScheduledContinuationById_def)
      then obtain r0 where r0: "r0 \<in> set (db_continuations db)" "cn_id r0 = cn_id row"
        "s = r0\<lparr>cn_status := Sc_prepared, cn_due_at := kw_claimSuccessorDueAt q,
         cn_version := cn_version r0 + 1, cn_updated_at := kw_now q, cn_last_detail := Some
         ''Truthfully failed claimed successor creation refreshed to the current adaptive retry deadline''\<rparr>"
        by (rule updated_wake [OF ok refreshed(3)]) (auto simp: at_version_def)
      have "r0 = row" using distinct_key_unique [OF wake_ids [OF ok] r0(1) mem r0(2)] .
      then have f: "cn_goal_id s = g_id goal" "cn_id s = kw_claimSuccessorId q"
        "cn_generation s = cn_generation c + 1" "cn_status s = Sc_prepared"
        and due: "cn_due_at s = kw_claimSuccessorDueAt q"
        using r0(3) inv(1-3) by simp_all
      have "same_goals db db1" using refreshed(3) by (elim update_continuationE)
      then show ?thesis using f found refreshed(4) unfolding due by blast
    qed
  next
    case reserved
    from reserved(5) obtain db1 where ins: "insert_continuation (successor_row q c goal (kw_claimSuccessorId q)
        (cn_generation c + 1) (claim_identity sha256 (cn_id c))) db = Inr db1"
      and cap: "capGoalLeaseAtClaimSuccessor goal (kw_claimSuccessorDueAt q) (kw_now q) required db1 = Inr db'"
      and s: "requireScheduledContinuationById db' (kw_claimSuccessorId q) = Inr s"
      and al: "aligned \<longrightarrow> lease_aligned_due q = Inr ()"
      by (elim reserve_successorE) simp
    let ?row = "successor_row q c goal (kw_claimSuccessorId q) (cn_generation c + 1) (claim_identity sha256 (cn_id c))"
    have db1: "db_continuations db' = db_continuations db @ [?row]" "same_goals db db1"
      using ins cap_wakes [OF cap] by (auto elim!: insert_continuationE simp: same_wakes_def)
    have i: "cn_id ?row = kw_claimSuccessorId q" by (simp add: successor_row_def fresh_continuation_def)
    have "s \<in> set (db_continuations db')" "cn_id s = kw_claimSuccessorId q" using s by (auto elim: requireWakeE)
    then have "s = ?row"
      using db1(1) reserved(3) by (auto simp: selectScheduledContinuationById_def row_get_None_iff)
    then show ?thesis using i cap db1(2) al by (auto simp: successor_row_def fresh_continuation_def)
  qed
  then show "cn_goal_id s = g_id goal \<and> cn_id s = kw_claimSuccessorId q \<and> cn_generation s = cn_generation c + 1
    \<and> cn_status s \<in> {Sc_prepared, Sc_create_failed, Sc_create_uncertain}"
    and "\<exists>db1. same_goals db db1 \<and> capGoalLeaseAtClaimSuccessor goal (cn_due_at s) (kw_now q) required db1 = Inr db'"
    and "selectScheduledContinuationById db (kw_claimSuccessorId q) = None \<Longrightarrow>
      cn_status s = Sc_prepared \<and> cn_due_at s = kw_claimSuccessorDueAt q
      \<and> (aligned \<longrightarrow> lease_aligned_due q = Inr ())"
    by blast+
qed
lemma lease_aligned_bounds:
  assumes "lease_aligned_due q = Inr ()"
  shows "\<exists>now due. kw_now q = Instant now \<and> kw_claimSuccessorDueAt q = Instant due
    \<and> now + 120000 \<le> due \<and> due \<le> now + 1500000"
proof -
  have m: "2 \<le> lease_aligned_minutes n" "lease_aligned_minutes n \<le> 25" for n
    by (simp_all add: lease_aligned_minutes_def COLLISION_SUCCESSOR_MAX_SECONDS_def
        CLAIM_SUCCESSOR_MIN_SECONDS_def)
  have "addSeconds (kw_now q) (lease_aligned_minutes (kw_leaseSeconds q) * 60) = Inr (kw_claimSuccessorDueAt q)"
    using assms by (auto simp: lease_aligned_due_def bind_ok_Inr_iff split: if_splits)
  then show ?thesis using m [of "kw_leaseSeconds q"] by (auto simp: addSeconds_Inr_iff)
qed

lemma taken_record:
  assumes wf: "wf_goals db" and g: "requireById db (g_id goal) = Inr goal"
    and t: "take_goal_lease q goal db = Inr db1"
    and g1: "requireById db3 (g_id goal) = Inr g1" and same: "db_goals db3 = db_goals db1"
  shows "g_leaseGeneration g1 = g_leaseGeneration goal + 1 \<and> g_leaseTokenHash g1 = Some (kw_leaseTokenHash q)"
proof -
  have ids: "distinct (map gr_id (db_goals db))" using wf by (simp add: wf_goals_def)
  obtain e where u: "update_goal (\<lambda>r. gr_id r = g_id goal \<and> gr_status r = Gs_active
       \<and> gr_revision r = g_revision goal \<and> gr_lease_generation r = g_leaseGeneration goal
       \<and> gr_lease_activity_seq r = g_leaseActivitySeq goal) (claim_lease q e) db = Inr db1"
    using t by (auto simp: take_goal_lease_def bind_ok_Inr_iff)
  obtain r where r: "r \<in> set (db_goals db)" "gr_id r = g_id goal" "gr_lease_generation r = g_leaseGeneration goal"
    and db1: "db1 = db\<lparr>db_goals := replace_goal (claim_lease q e r) (db_goals db)\<rparr>"
    by (rule update_goal_replace [OF ids u]) auto
  let ?r = "claim_lease q e r"
  have "?r \<in> set (db_goals db3)" using db1 same replace_goal_mem [OF r(1), of ?r] by simp
  then have "toGoalRecord db3 ?r = Inr g1"
    using requireById_row [of db3 ?r "g_id goal"] ids db1 same r(2) g1 by simp
  from toGoalRecord_fields(11,13) [OF this] show ?thesis using r(3) by simp
qed

lemma lease_claim_spec:
  assumes wf: "wf_goals db" and ok: "wakes_ok db"
    and g0: "requireById db (g_id goal) = Inr goal"
    and l: "claimContinuationLease sha256 q c goal acq x db = Inr (db', Claim_acquired acq g claimed s)"
  obtains db3 g1 d where "wakes_ok db3" "wf_goals db3" "map cn_id (db_continuations db3) = map cn_id (db_continuations db)"
    "requireById db3 (g_id g1) = Inr g1" "g_id g1 = g_id goal"
    "g_leaseGeneration g1 = g_leaseGeneration goal + 1" "g_leaseTokenHash g1 = Some (kw_leaseTokenHash q)"
    "prepareFreshClaimSuccessor sha256 q claimed g1 True True db3 = Inr (db', (s, d))"
    "requireById db' (g_id goal) = Inr g"
  using l
proof (elim claim_leaseE)
  fix db1 db2 db3 claimed' g1 g2 s' d
  assume t: "take_goal_lease q goal db = Inr db1"
    and u: "update_continuation (\<lambda>x. at_version (kw_continuationId q) (cn_version c) x \<and> claimable x)
       (claim_row acq (kw_now q)) db1 = Inr db2"
    and r: "rotateExecutionReceiptForLeaseAcquisition goal x (kw_ownerClientId q) (kw_ownerSessionId q)
       (kw_now q) db2 = Inr db3"
    and g: "requireById db3 (g_id goal) = Inr g1"
    and p: "prepareFreshClaimSuccessor sha256 q claimed' g1 True True db3 = Inr (db', (s', d))"
    and g2: "requireById db' (g_id goal) = Inr g2"
    and res: "Claim_acquired acq g claimed s = Claim_acquired acq g2 claimed' s'"
  note w = update_wake_step [OF u claim_row_evolves]
  have "store_step db db3" by (rule take_rotate_step [OF t w(2,1) r g])
  then have "wf_goals db3" "wakes_ok db3"
    using wf ok moves_wf by (auto simp: store_step_def wakes_step_def)
  moreover have "db_continuations db3 = row_update
      (\<lambda>x. at_version (kw_continuationId q) (cn_version c) x \<and> claimable x) (claim_row acq (kw_now q)) (db_continuations db)"
    using rotate_wakes [OF r] take_wakes [OF t] u by (auto simp: same_wakes_def elim!: update_continuationE)
  then have "map cn_id (db_continuations db3) = map cn_id (db_continuations db)"
    by (simp add: map_row_update claim_row_def clear_probe_def)
  moreover have "db_goals db3 = db_goals db1"
    using w(2) r by (auto simp: same_goals_def elim!: rotateE insertExecutionE)
  moreover have "g_id g1 = g_id goal" using g by (rule requireById_id)
  ultimately show ?thesis
    using that [of db3 g1 d] taken_record [OF wf g0 t g] p g g2 res by simp
qed

text \<open>
  C11: A claim that takes a goal over reserves the next wake in the same transaction: a wake of the
  goal with the following generation that the host has not confirmed yet. The new worker holds the
  lease under the next lease generation with its own token, and its lease runs out no later than that
  wake is due. A wake reserved anew is prepared and due in 2 to 25 minutes.
\<close>

theorem claim_reserves_successor:
  assumes "wf_goals db" "wakes_ok db"
    and "claimScheduledContinuation sha256 q x db = Inr (db', Claim_acquired acq g claimed s)"
  shows "cn_goal_id s = g_id g \<and> cn_generation s = cn_generation claimed + 1
    \<and> cn_status s \<in> {Sc_prepared, Sc_create_failed, Sc_create_uncertain}
    \<and> (\<exists>old. requireById db (g_id g) = Inr old \<and> g_leaseGeneration g = g_leaseGeneration old + 1)
    \<and> g_leaseTokenHash g = Some (kw_leaseTokenHash q)
    \<and> (\<exists>e due. g_leaseExpiresAt g = Some (Instant e) \<and> cn_due_at s = Instant due \<and> e \<le> due)
    \<and> (selectScheduledContinuationById db (kw_claimSuccessorId q) = None \<longrightarrow> cn_status s = Sc_prepared
        \<and> (\<exists>now due. kw_now q = Instant now \<and> cn_due_at s = Instant due
            \<and> now + 120000 \<le> due \<and> due \<le> now + 1500000))"
proof -
  obtain c goal where g: "requireById db (cn_goal_id c) = Inr goal" "g_id goal = cn_goal_id c"
    and l: "claimContinuationLease sha256 q c goal acq x db = Inr (db', Claim_acquired acq g claimed s)"
    by (rule acquired_once [OF assms(3)])
  have g0: "requireById db (g_id goal) = Inr goal" using g by simp
  obtain db3 g1 d where ok: "wakes_ok db3" "wf_goals db3"
    and ids: "map cn_id (db_continuations db3) = map cn_id (db_continuations db)"
    and g1: "requireById db3 (g_id g1) = Inr g1" "g_id g1 = g_id goal"
      "g_leaseGeneration g1 = g_leaseGeneration goal + 1" "g_leaseTokenHash g1 = Some (kw_leaseTokenHash q)"
    and p: "prepareFreshClaimSuccessor sha256 q claimed g1 True True db3 = Inr (db', (s, d))"
    and g2: "requireById db' (g_id goal) = Inr g"
    by (rule lease_claim_spec [OF assms(1,2) g0 l])
  note spec = fresh_successor_spec [OF p ok(1)]
  obtain db4 where db4: "same_goals db3 db4"
    "capGoalLeaseAtClaimSuccessor g1 (cn_due_at s) (kw_now q) True db4 = Inr db'"
    using spec(2) by blast
  have "distinct (map gr_id (db_goals db4))"
    using same_goals_wf [OF db4(1) ok(2)] by (simp add: wf_goals_def)
  from cap_bounds [OF db4(2) this] g1 g2 same_goals_require [OF db4(1)] obtain e due where
    cap: "cn_due_at s = Instant due" "g_leaseExpiresAt g = Some (Instant e)" "e \<le> due"
    "g_leaseGeneration g = g_leaseGeneration g1" "g_leaseTokenHash g = g_leaseTokenHash g1" by auto
  have new: "cn_status s = Sc_prepared \<and> (\<exists>now due. kw_now q = Instant now \<and> cn_due_at s = Instant due
      \<and> now + 120000 \<le> due \<and> due \<le> now + 1500000)"
    if "selectScheduledContinuationById db (kw_claimSuccessorId q) = None"
  proof -
    have "kw_claimSuccessorId q \<notin> set (map cn_id (db_continuations db))"
      using that by (auto simp: selectScheduledContinuationById_def row_get_None_iff)
    then have "selectScheduledContinuationById db3 (kw_claimSuccessorId q) = None"
      unfolding ids [symmetric] by (auto simp: selectScheduledContinuationById_def row_get_None_iff image_iff)
    from spec(3) [OF this] show ?thesis using lease_aligned_bounds [of q] by auto
  qed
  have "g_id g = g_id goal" by (rule requireById_id [OF g2])
  then show ?thesis using spec(1) cap g1 g0 new by auto
qed

theorem claim_reserves_successor_witness:
  "\<exists>db' g claimed s. claimScheduledContinuation id (sample_claim 600000) ''x2'' (sample_wake_store None)
      = Inr (db', Claim_acquired Aq_expired_lease g claimed s)
    \<and> cn_generation s = cn_generation claimed + 1 \<and> g_leaseTokenHash g = Some ''h2''"
proof -
  have "acquired_by (claimScheduledContinuation id (sample_claim 600000) ''x2'' (sample_wake_store None))
      = Some Aq_expired_lease" by ((unfold sample_wake_store_def goal_step_eval)?, code_simp)
  then obtain db' g claimed s where ok: "claimScheduledContinuation id (sample_claim 600000) ''x2''
      (sample_wake_store None) = Inr (db', Claim_acquired Aq_expired_lease g claimed s)"
    by (rule acquired_byE)
  from claim_reserves_successor [OF wf_sample_wake_store wakes_ok_sample_wake_store ok]
  have "cn_generation s = cn_generation claimed + 1" "g_leaseTokenHash g = Some ''h2''"
    by (simp_all add: sample_claim_def)
  then show ?thesis using ok by blast
qed

section \<open>Receipts without a status check\<close>

text \<open>
  A receipt about a failed or uncertain creation does not look at the status of the wake
  (goal-repository.ts, recordScheduledContinuationReceipt): a cancelled wake comes back to life, and
  a claimed wake is answered as a failed creation.
\<close>

definition cancelled_wake_store :: goal_db where
  "cancelled_wake_store = run_goals (sample_store\<lparr>db_workspaces := [\<lparr>ww_id = ''w1'',
       ww_writer_lease_generation = None, ww_writer_lease_expires_at = None, ww_archived_at = None\<rparr>]\<rparr>)
     [Op_prepare_wake (sample_prepare None), Op_cancel_wake (By_continuation ''sc'') 0 (Instant 1500)]"

lemma cancelled_wake_revived:
  "map (\<lambda>c. (cn_status c, is_live c)) (db_continuations cancelled_wake_store) = [(Sc_superseded, False)]
   \<and> map (\<lambda>c. (cn_status c, is_live c))
       (db_continuations (goal_step cancelled_wake_store (Op_receipt (sample_receipt Rc_create_uncertain 1))))
     = [(Sc_create_uncertain, True)]"
  by ((unfold cancelled_wake_store_def sample_wake_store_def goal_step_eval)?, code_simp)

lemma claimed_wake_reported_failed:
  "map cn_status (db_continuations (run_goals (sample_wake_store None)
       [Op_claim_wake id (sample_claim 600000) ''x2'', Op_receipt (sample_receipt Rc_create_failed 2)]))
     = [Sc_create_failed, Sc_prepared]"
  by ((unfold cancelled_wake_store_def sample_wake_store_def goal_step_eval)?, code_simp)

text \<open>
  The same holds for a failed retiming: it asks for a pending due time only, which a cancellation
  leaves in place, so a wake that waits for its cancellation is live for the host again.
\<close>

definition sample_refresh :: prepare_wake_request where
  "sample_refresh = (sample_prepare None)\<lparr>pw_checkpointId := ''p9'', pw_expectedRevision := 1,
     pw_dueAt := Instant 1200000, pw_requestFingerprint := ''f9'', pw_now := Instant 3000\<rparr>"

definition sample_retime_receipt :: wake_receipt_request where
  "sample_retime_receipt = (sample_receipt Rc_reschedule_uncertain 3)\<lparr>wt_dueAt := None\<rparr>"

lemma cancelling_wake_retimed:
  "map cn_status (db_continuations (run_goals (sample_wake_store None)
       [Op_prepare_wake sample_refresh, Op_cancel_wake (By_continuation ''sc'') 2 (Instant 4000)]))
     = [Sc_cancel_required]
   \<and> map cn_status (db_continuations (run_goals (sample_wake_store None)
       [Op_prepare_wake sample_refresh, Op_cancel_wake (By_continuation ''sc'') 2 (Instant 4000),
        Op_receipt sample_retime_receipt])) = [Sc_reschedule_uncertain]"
  by ((unfold cancelled_wake_store_def sample_wake_store_def goal_step_eval)?, code_simp)

end
