(* ===== verification/Resource_Pressure.thy ===== *)
theory Resource_Pressure
  imports Prelude
begin

text \<open>
  The live signals of the admission controller: the memory probe
  (packages/workspace/src/resource-pressure.ts), the CPU probe (cpu-load.ts) and the extra heavy
  slots they support (heavy-headroom.ts). Readings of the operating system are arguments; a reader
  that throws is \<open>Inl\<close>. Numbers of a sample are JavaScript numbers, since any object that
  implements the probe interface may supply them.
\<close>

section \<open>Checked numbers\<close>

datatype probe_error =
    ReaderFailed
  | NotAPositiveInteger string
  | NotANonNegativeInteger string
  | NotARatio string
  | NotANonNegativeNumber string
  | NotAPositiveNumber string
  | RatiosOutOfOrder

definition check_ratio :: "string \<Rightarrow> jsnum \<Rightarrow> probe_error + rat" where
  "check_ratio label v = (case v of
     Num q \<Rightarrow> if q < 0 \<or> q > 1 then Inl (NotARatio label) else Inr q
   | _ \<Rightarrow> Inl (NotARatio label))"

definition check_non_negative :: "string \<Rightarrow> jsnum \<Rightarrow> probe_error + rat" where
  "check_non_negative label v = (case v of
     Num q \<Rightarrow> if q < 0 then Inl (NotANonNegativeNumber label) else Inr q
   | _ \<Rightarrow> Inl (NotANonNegativeNumber label))"

definition check_positive :: "string \<Rightarrow> jsnum \<Rightarrow> probe_error + rat" where
  "check_positive label v = (case v of
     Num q \<Rightarrow> if q \<le> 0 then Inl (NotAPositiveNumber label) else Inr q
   | _ \<Rightarrow> Inl (NotAPositiveNumber label))"

definition check_safe_from :: "int \<Rightarrow> probe_error \<Rightarrow> jsnum \<Rightarrow> probe_error + int" where
  "check_safe_from least e v =
     (if \<not> num_is_safe_integer v \<or> num_int v < least then Inl e else Inr (num_int v))"

lemma check_ratio_ok: "check_ratio l v = Inr q \<Longrightarrow> v = Num q \<and> 0 \<le> q \<and> q \<le> 1"
  by (auto simp: check_ratio_def split: jsnum.splits if_splits)

lemma check_non_negative_ok: "check_non_negative l v = Inr q \<Longrightarrow> v = Num q \<and> 0 \<le> q"
  by (auto simp: check_non_negative_def split: jsnum.splits if_splits)

lemma check_positive_ok: "check_positive l v = Inr q \<Longrightarrow> v = Num q \<and> 0 < q"
  by (auto simp: check_positive_def split: jsnum.splits if_splits)

lemma check_safe_from_ok:
  "check_safe_from k e v = Inr i \<Longrightarrow> k \<le> i \<and> v = int_num i \<and> \<bar>i\<bar> \<le> max_safe_integer"
proof -
  assume h: "check_safe_from k e v = Inr i"
  then have s: "num_is_safe_integer v" "num_int v = i" "k \<le> num_int v"
    by (simp_all add: check_safe_from_def not_less split: if_splits)
  then have v: "v = int_num i" using num_is_integer_exists [of v] by (simp add: num_is_safe_integer_def)
  then have "\<bar>i\<bar> \<le> max_safe_integer" using s(1) by (simp only: num_is_safe_integer_int)
  then show "k \<le> i \<and> v = int_num i \<and> \<bar>i\<bar> \<le> max_safe_integer" using s(2,3) v by simp
qed

section \<open>The memory probe\<close>

datatype pressure_state = PNormal | PElevated | PCritical

record pressure_sample =
  psa_state :: pressure_state
  psa_total :: jsnum
  psa_available :: jsnum
  psa_ratio :: jsnum
  psa_rss :: jsnum
  psa_sampled_at :: int

record memory_probe =
  mpr_elevated :: rat
  mpr_critical :: rat
  mpr_ttl :: rat
  mpr_cached :: "pressure_sample option"

definition new_memory_probe ::
  "jsnum option \<Rightarrow> jsnum option \<Rightarrow> jsnum option \<Rightarrow> probe_error + memory_probe" where
  "new_memory_probe elevated critical ttl =
     bind_ok (check_ratio ''elevatedAvailableRatio'' (case elevated of None \<Rightarrow> Num (2 / 10) | Some v \<Rightarrow> v)) (\<lambda>e.
     bind_ok (check_ratio ''criticalAvailableRatio'' (case critical of None \<Rightarrow> Num (1 / 10) | Some v \<Rightarrow> v)) (\<lambda>c.
     if c > e then Inl RatiosOutOfOrder
     else bind_ok (check_non_negative ''sampleTtlMs'' (case ttl of None \<Rightarrow> Num 1000 | Some v \<Rightarrow> v)) (\<lambda>t.
       Inr \<lparr>mpr_elevated = e, mpr_critical = c, mpr_ttl = t, mpr_cached = None\<rparr>)))"

definition sample_is_fresh :: "rat \<Rightarrow> int \<Rightarrow> int \<Rightarrow> bool" where
  "sample_is_fresh ttl now sampled \<longleftrightarrow> now \<ge> sampled \<and> of_int (now - sampled) \<le> ttl"

definition pressure_of_ratio :: "rat \<Rightarrow> rat \<Rightarrow> rat \<Rightarrow> pressure_state" where
  "pressure_of_ratio elevated critical r =
     (if r \<le> critical then PCritical else if r \<le> elevated then PElevated else PNormal)"

definition memory_sample ::
  "memory_probe \<Rightarrow> int \<Rightarrow> probe_error + (jsnum \<times> jsnum) \<Rightarrow> probe_error + jsnum \<Rightarrow>
   memory_probe \<times> (probe_error + pressure_sample)" where
  "memory_sample p now memory rss =
     (case (case mpr_cached p of
              Some c \<Rightarrow> if sample_is_fresh (mpr_ttl p) now (psa_sampled_at c) then Some c else None
            | None \<Rightarrow> None) of
        Some c \<Rightarrow> (p, Inr c)
      | None \<Rightarrow>
        (case bind_ok memory (\<lambda>(total_raw, available_raw).
              bind_ok (check_positive ''total memory'' total_raw) (\<lambda>total_mem.
              bind_ok (check_non_negative ''available memory'' available_raw) (\<lambda>free.
              bind_ok rss (\<lambda>rss_raw.
              bind_ok (check_non_negative ''process RSS'' rss_raw) (\<lambda>rss_bytes.
              let available = min free total_mem; ratio = available / total_mem in
              Inr \<lparr>psa_state = pressure_of_ratio (mpr_elevated p) (mpr_critical p) ratio,
                   psa_total = Num total_mem, psa_available = Num available, psa_ratio = Num ratio,
                   psa_rss = Num rss_bytes, psa_sampled_at = now\<rparr>))))) of
           Inl e \<Rightarrow> (p, Inl e)
         | Inr s \<Rightarrow> (p\<lparr>mpr_cached := Some s\<rparr>, Inr s)))"

text \<open>What a sample of the probe promises, and the invariant of the cache.\<close>

definition sample_ok :: "rat \<Rightarrow> rat \<Rightarrow> pressure_sample \<Rightarrow> bool" where
  "sample_ok elevated critical s \<longleftrightarrow>
     (case (psa_total s, psa_available s, psa_ratio s) of
        (Num total_mem, Num available, Num ratio) \<Rightarrow>
          0 < total_mem \<and> 0 \<le> available \<and> available \<le> total_mem \<and> ratio * total_mem = available \<and>
          psa_state s = pressure_of_ratio elevated critical ratio
      | _ \<Rightarrow> False)"

definition memory_probe_ok :: "memory_probe \<Rightarrow> bool" where
  "memory_probe_ok p \<longleftrightarrow> 0 \<le> mpr_critical p \<and> mpr_critical p \<le> mpr_elevated p \<and> mpr_elevated p \<le> 1 \<and>
     (\<forall>s. mpr_cached p = Some s \<longrightarrow> sample_ok (mpr_elevated p) (mpr_critical p) s)"

lemma new_memory_probe_ok: "new_memory_probe e c t = Inr p \<Longrightarrow> memory_probe_ok p"
  by (auto simp: new_memory_probe_def memory_probe_ok_def bind_ok_Inr_iff
      dest!: check_ratio_ok split: if_splits)

lemma memory_sample_ok:
  assumes ok: "memory_probe_ok p" and s: "memory_sample p now memory rss = (p', Inr s)"
  shows "sample_ok (mpr_elevated p) (mpr_critical p) s \<and> memory_probe_ok p'
    \<and> of_int (now - psa_sampled_at s) \<le> max 0 (mpr_ttl p)"
proof (cases "\<exists>c. mpr_cached p = Some c \<and> sample_is_fresh (mpr_ttl p) now (psa_sampled_at c)")
  case True
  then obtain c where "mpr_cached p = Some c" "sample_is_fresh (mpr_ttl p) now (psa_sampled_at c)"
    by blast
  then show ?thesis using ok s
    by (auto simp: memory_sample_def memory_probe_ok_def sample_is_fresh_def)
next
  case False
  then have "(case mpr_cached p of
              Some c \<Rightarrow> if sample_is_fresh (mpr_ttl p) now (psa_sampled_at c) then Some c else None
            | None \<Rightarrow> None) = None"
    by (auto split: option.splits)
  then obtain total_mem free rss_bytes where
      t: "0 < (total_mem :: rat)" and f: "0 \<le> (free :: rat)" and
      p': "p' = p\<lparr>mpr_cached := Some s\<rparr>" and
      sv: "s = \<lparr>psa_state = pressure_of_ratio (mpr_elevated p) (mpr_critical p) (min free total_mem / total_mem),
               psa_total = Num total_mem, psa_available = Num (min free total_mem),
               psa_ratio = Num (min free total_mem / total_mem), psa_rss = Num rss_bytes, psa_sampled_at = now\<rparr>"
    using s
    by (auto simp: memory_sample_def bind_ok_Inr_iff Let_def split: sum.splits prod.splits
        dest!: check_positive_ok check_non_negative_ok)
  have "sample_ok (mpr_elevated p) (mpr_critical p) s" using t f by (simp add: sv sample_ok_def)
  then show ?thesis using ok by (auto simp: p' memory_probe_ok_def sv)
qed

section \<open>The CPU probe\<close>

record cpu_sample =
  cpu_load_average :: jsnum
  cpu_count :: jsnum
  cpu_sampled_at :: int

record cpu_probe =
  cpr_ttl :: rat
  cpr_cached :: "cpu_sample option"

definition new_cpu_probe :: "jsnum option \<Rightarrow> probe_error + cpu_probe" where
  "new_cpu_probe ttl =
     bind_ok (check_non_negative ''sampleTtlMs'' (case ttl of None \<Rightarrow> Num 1000 | Some v \<Rightarrow> v))
       (\<lambda>t. Inr \<lparr>cpr_ttl = t, cpr_cached = None\<rparr>)"

definition cpu_sample_now ::
  "cpu_probe \<Rightarrow> int \<Rightarrow> probe_error + jsnum \<Rightarrow> probe_error + jsnum \<Rightarrow>
   cpu_probe \<times> (probe_error + cpu_sample)" where
  "cpu_sample_now p now load count =
     (case (case cpr_cached p of
              Some c \<Rightarrow> if sample_is_fresh (cpr_ttl p) now (cpu_sampled_at c) then Some c else None
            | None \<Rightarrow> None) of
        Some c \<Rightarrow> (p, Inr c)
      | None \<Rightarrow>
        (case bind_ok load (\<lambda>load_raw.
              bind_ok (check_non_negative ''1-minute load average'' load_raw) (\<lambda>l.
              bind_ok count (\<lambda>count_raw.
              bind_ok (check_safe_from 1 (NotAPositiveInteger ''CPU count'') count_raw) (\<lambda>n.
              Inr \<lparr>cpu_load_average = Num l, cpu_count = int_num n, cpu_sampled_at = now\<rparr>)))) of
           Inl e \<Rightarrow> (p, Inl e)
         | Inr s \<Rightarrow> (p\<lparr>cpr_cached := Some s\<rparr>, Inr s)))"

section \<open>Extra heavy slots\<close>

record headroom_limits =
  hrl_max_extra :: "jsnum option"
  hrl_bytes_per_job :: "jsnum option"
  hrl_reserve :: "jsnum option"
  hrl_max_load :: "jsnum option"

record headroom =
  hr_max_extra :: int
  hr_bytes_per_job :: int
  hr_reserve :: int
  hr_max_load :: rat

record headroom_sample =
  hs_state :: pressure_state
  hs_available :: jsnum
  hs_load_average :: "jsnum option"
  hs_cpu_count :: "jsnum option"

definition DEFAULT_HEAVY_MAX_EXTRA_JOBS :: int where
  "DEFAULT_HEAVY_MAX_EXTRA_JOBS = 1"

definition DEFAULT_HEAVY_BYTES_PER_EXTRA_JOB :: int where
  "DEFAULT_HEAVY_BYTES_PER_EXTRA_JOB = 4 * 1024 ^ 3"

definition DEFAULT_HEAVY_HEADROOM_RESERVE_BYTES :: int where
  "DEFAULT_HEAVY_HEADROOM_RESERVE_BYTES = 2 * 1024 ^ 3"

definition DEFAULT_HEAVY_MAX_LOAD_PER_CORE :: rat where
  "DEFAULT_HEAVY_MAX_LOAD_PER_CORE = 1 / 2"

definition normalizeHeavyHeadroom :: "headroom_limits \<Rightarrow> probe_error + headroom" where
  "normalizeHeavyHeadroom l =
     bind_ok (check_safe_from 0 (NotANonNegativeInteger ''maxExtraHeavyJobs'')
       (case hrl_max_extra l of None \<Rightarrow> int_num DEFAULT_HEAVY_MAX_EXTRA_JOBS | Some v \<Rightarrow> v)) (\<lambda>extra.
     bind_ok (check_safe_from 1 (NotAPositiveInteger ''bytesPerExtraHeavyJob'')
       (case hrl_bytes_per_job l of None \<Rightarrow> int_num DEFAULT_HEAVY_BYTES_PER_EXTRA_JOB | Some v \<Rightarrow> v)) (\<lambda>bytes.
     bind_ok (check_safe_from 0 (NotANonNegativeInteger ''reserveBytes'')
       (case hrl_reserve l of None \<Rightarrow> int_num DEFAULT_HEAVY_HEADROOM_RESERVE_BYTES | Some v \<Rightarrow> v)) (\<lambda>reserve.
     bind_ok (check_non_negative ''maxLoadPerCore''
       (case hrl_max_load l of None \<Rightarrow> Num DEFAULT_HEAVY_MAX_LOAD_PER_CORE | Some v \<Rightarrow> v)) (\<lambda>load.
     Inr \<lparr>hr_max_extra = extra, hr_bytes_per_job = bytes, hr_reserve = reserve, hr_max_load = load\<rparr>))))"

definition hasCpuHeadroom :: "headroom_sample \<Rightarrow> rat \<Rightarrow> bool" where
  "hasCpuHeadroom s max_load =
     (if max_load = 0 then True
      else case hs_load_average s of
        Some (Num load) \<Rightarrow>
          if load < 0 then False
          else (case hs_cpu_count s of
            Some count \<Rightarrow>
              if \<not> num_is_safe_integer count \<or> num_int count < 1 then False
              else load / of_int (num_int count) \<le> max_load
          | None \<Rightarrow> False)
      | _ \<Rightarrow> False)"

definition effectiveHeavyCapacity ::
  "int \<Rightarrow> headroom \<Rightarrow> headroom_sample option \<Rightarrow> probe_error + int" where
  "effectiveHeavyCapacity base l sample =
     (if \<bar>base\<bar> > max_safe_integer \<or> base < 1 then Inl (NotAPositiveInteger ''baseMaxHeavyOperations'')
      else if hr_max_extra l = 0 then Inr base
      else case sample of
        None \<Rightarrow> Inr base
      | Some s \<Rightarrow>
        if hs_state s \<noteq> PNormal then Inr base
        else if \<not> hasCpuHeadroom s (hr_max_load l) then Inr base
        else (case hs_available s of
          Num available \<Rightarrow>
            if available < 0 then Inr base
            else (let usable = available - of_int (hr_reserve l) in
              if usable \<le> 0 then Inr base
              else (let extra = \<lfloor>usable / of_int (hr_bytes_per_job l)\<rfloor> in
                if extra < 1 then Inr base
                else Inr (base + min (hr_max_extra l) extra)))
        | _ \<Rightarrow> Inr base))"

definition headroom_ok :: "headroom \<Rightarrow> bool" where
  "headroom_ok l \<longleftrightarrow> 0 \<le> hr_max_extra l \<and> 1 \<le> hr_bytes_per_job l \<and> 0 \<le> hr_reserve l \<and> 0 \<le> hr_max_load l"

lemma normalizeHeavyHeadroom_ok: "normalizeHeavyHeadroom l = Inr h \<Longrightarrow> headroom_ok h"
  by (auto simp: normalizeHeavyHeadroom_def headroom_ok_def bind_ok_Inr_iff
      dest!: check_safe_from_ok check_non_negative_ok)

lemma effectiveHeavyCapacity_total:
  "1 \<le> base \<Longrightarrow> base \<le> max_safe_integer \<Longrightarrow> \<exists>k. effectiveHeavyCapacity base l sample = Inr k"
  by (auto simp: effectiveHeavyCapacity_def Let_def split: option.splits jsnum.splits)

text \<open>
  The cap is the base plus at most the configured extra jobs, and every extra slot is backed by
  its memory estimate on top of the reserve in a normal sample.
\<close>

lemma effectiveHeavyCapacity_bounds:
  assumes h: "headroom_ok l" and e: "effectiveHeavyCapacity base l sample = Inr k"
  shows "base \<le> k" "k \<le> base + hr_max_extra l"
    "base < k \<Longrightarrow> \<exists>s q. sample = Some s \<and> hs_state s = PNormal \<and> hasCpuHeadroom s (hr_max_load l) \<and>
       hs_available s = Num q \<and> of_int (hr_reserve l + (k - base) * hr_bytes_per_job l) \<le> q"
proof -
  have h': "0 \<le> hr_max_extra l" "1 \<le> hr_bytes_per_job l" using h by (auto simp: headroom_ok_def)
  show "base \<le> k" using e h'
    by (auto simp: effectiveHeavyCapacity_def Let_def split: option.splits jsnum.splits if_splits)
  show "k \<le> base + hr_max_extra l" using e h'
    by (auto simp: effectiveHeavyCapacity_def Let_def split: option.splits jsnum.splits if_splits)
  assume "base < k"
  then obtain s q where s: "sample = Some s" "hs_state s = PNormal" "hasCpuHeadroom s (hr_max_load l)"
      "hs_available s = Num q"
      "k = base + min (hr_max_extra l) \<lfloor>(q - of_int (hr_reserve l)) / of_int (hr_bytes_per_job l)\<rfloor>"
    using e by (auto simp: effectiveHeavyCapacity_def Let_def split: option.splits jsnum.splits if_splits)
  have "(of_int (k - base) :: rat) \<le> of_int \<lfloor>(q - of_int (hr_reserve l)) / of_int (hr_bytes_per_job l)\<rfloor>"
    using s(5) by (simp only: of_int_le_iff)
  also have "\<dots> \<le> (q - of_int (hr_reserve l)) / of_int (hr_bytes_per_job l)" by (rule of_int_floor_le)
  finally have "of_int (k - base) * of_int (hr_bytes_per_job l) \<le> q - of_int (hr_reserve l)"
    using h'(2) by (simp add: pos_le_divide_eq)
  then have "of_int (hr_reserve l + (k - base) * hr_bytes_per_job l) \<le> q"
    by simp
  with s show "\<exists>s q. sample = Some s \<and> hs_state s = PNormal \<and> hasCpuHeadroom s (hr_max_load l) \<and>
       hs_available s = Num q \<and> of_int (hr_reserve l + (k - base) * hr_bytes_per_job l) \<le> q"
    by blast
qed

end
