(* ===== verification/Resource_Admission.thy ===== *)
theory Resource_Admission
  imports Resource_Pressure
begin

text \<open>
  The admission controller (packages/workspace/src/resource-admission.ts): limits, the set of
  active leases, the decision of \<open>tryAcquire\<close> with its order of denials, \<open>restore\<close>, \<open>release\<close>
  and the snapshot. A call takes the readings of the two probes as an argument; the code reads
  each probe exactly once on every path. Release listeners belong to the callers
  (\<open>Heavy_Queue\<close>, \<open>Shell_Heavy\<close>).
\<close>

section \<open>Products of numbers\<close>

text \<open>
  JavaScript numbers are doubles, and \<open>configured * ratio\<close> is the exact product rounded to the nearest
  double, ties to the even one. A positive double below \<open>2 ^ 53\<close> and at least \<open>2 ^ 52\<close> is an integer; a
  smaller one is doubled into that range (at most 1074 times, where the subnormal numbers end) and a
  larger one halved (at most 971 times, which reaches the largest double).
\<close>

definition round_half_even :: "rat \<Rightarrow> int" where
  "round_half_even x =
     (let f = \<lfloor>x\<rfloor>; d = x - of_int f in
      if d < 1 / 2 then f else if d > 1 / 2 then f + 1 else if even f then f else f + 1)"

primrec round_scaled_up :: "nat \<Rightarrow> rat \<Rightarrow> rat" where
  "round_scaled_up 0 x = of_int (round_half_even x)"
| "round_scaled_up (Suc n) x =
     (if x \<ge> 4503599627370496 then of_int (round_half_even x) else round_scaled_up n (2 * x) / 2)"

primrec round_scaled_down :: "nat \<Rightarrow> rat \<Rightarrow> rat" where
  "round_scaled_down 0 x = round_scaled_up 1074 x"
| "round_scaled_down (Suc n) x =
     (if x \<ge> 9007199254740992 then 2 * round_scaled_down n (x / 2) else round_scaled_up 1074 x)"

definition double_round :: "rat \<Rightarrow> rat" where
  "double_round = round_scaled_down 971"

text \<open>A number is a double when rounding leaves it as it is.\<close>

definition is_double :: "rat \<Rightarrow> bool" where
  "is_double q \<longleftrightarrow> double_round q = q"

lemma round_half_even_int [simp]: "round_half_even (of_int i) = i"
  by (simp add: round_half_even_def)

lemma round_half_even_numeral [simp]: "round_half_even (numeral n) = numeral n"
  using round_half_even_int [of "numeral n"] by simp

lemma round_half_even_bounds: "\<lfloor>x\<rfloor> \<le> round_half_even x" "round_half_even x \<le> \<lfloor>x\<rfloor> + 1"
  by (simp_all add: round_half_even_def Let_def)

lemma round_half_even_mono: "x \<le> y \<Longrightarrow> round_half_even x \<le> round_half_even y"
proof -
  assume le: "x \<le> y"
  show ?thesis
  proof (cases "\<lfloor>x\<rfloor> = \<lfloor>y\<rfloor>")
    case True
    then show ?thesis using le by (auto simp: round_half_even_def Let_def)
  next
    case False
    then have "\<lfloor>x\<rfloor> + 1 \<le> \<lfloor>y\<rfloor>" using floor_mono [OF le] by simp
    then show ?thesis using round_half_even_bounds(2) [of x] round_half_even_bounds(1) [of y] by linarith
  qed
qed

lemma round_scaled_up_int: "i \<ge> 4503599627370496 \<Longrightarrow> round_scaled_up n (of_int i) = of_int i"
  by (cases n) simp_all

lemma round_scaled_up_mono: "x \<le> y \<Longrightarrow> round_scaled_up n x \<le> round_scaled_up n y"
proof (induction n arbitrary: x y)
  case 0
  then show ?case by (simp add: round_half_even_mono)
next
  case (Suc n)
  have top: "round_scaled_up n (2 * x) / 2 \<le> of_int (round_half_even y)"
    if "x < 4503599627370496" "4503599627370496 \<le> y"
  proof -
    have "round_scaled_up n (2 * x) \<le> round_scaled_up n (of_int 9007199254740992)"
      using that(1) by (intro Suc.IH) simp
    also have "\<dots> = 9007199254740992" by (simp only: round_scaled_up_int)
    finally have "round_scaled_up n (2 * x) / 2 \<le> of_int (round_half_even 4503599627370496)" by simp
    also have "\<dots> \<le> of_int (round_half_even y)" using round_half_even_mono [OF that(2)] by (simp only: of_int_le_iff)
    finally show ?thesis .
  qed
  show ?case using Suc.prems Suc.IH [of "2 * x" "2 * y"] top round_half_even_mono [OF Suc.prems] by auto
qed

lemma round_scaled_down_top: "round_scaled_down n 4503599627370496 = 4503599627370496"
  using round_scaled_up_int [of 4503599627370496 1074] by (cases n) simp_all

lemma round_scaled_down_mono: "x \<le> y \<Longrightarrow> round_scaled_down n x \<le> round_scaled_down n y"
proof (induction n arbitrary: x y)
  case 0
  then show ?case by (simp add: round_scaled_up_mono)
next
  case (Suc n)
  have top: "round_scaled_up 1074 x \<le> 2 * round_scaled_down n (y / 2)"
    if "x < 9007199254740992" "9007199254740992 \<le> y"
  proof -
    have "round_scaled_up 1074 x \<le> round_scaled_up 1074 (of_int 9007199254740992)"
      using that(1) by (intro round_scaled_up_mono) simp
    also have "\<dots> = 2 * round_scaled_down n 4503599627370496"
      unfolding round_scaled_down_top by (simp only: round_scaled_up_int)
    also have "\<dots> \<le> 2 * round_scaled_down n (y / 2)" using that(2) Suc.IH [of 4503599627370496 "y / 2"] by simp
    finally show ?thesis .
  qed
  show ?case using Suc.prems Suc.IH [of "x / 2" "y / 2"] top round_scaled_up_mono [OF Suc.prems] by auto
qed

lemma double_round_mono: "x \<le> y \<Longrightarrow> double_round x \<le> double_round y"
  by (simp add: double_round_def round_scaled_down_mono)

section \<open>Classes and limits\<close>

datatype resource_class =
    Dependency_Bootstrap | Context_Scan | Child_Mcp_Call | Lsp_Process | Rag_Indexing
  | Goal_Process | Delegated_Agent | Verification_Heavy

definition RESOURCE_ADMISSION_CLASSES :: "resource_class list" where
  "RESOURCE_ADMISSION_CLASSES = [Dependency_Bootstrap, Context_Scan, Child_Mcp_Call, Lsp_Process,
     Rag_Indexing, Goal_Process, Delegated_Agent, Verification_Heavy]"

fun resource_class_name :: "resource_class \<Rightarrow> string" where
  "resource_class_name Dependency_Bootstrap = ''dependency_bootstrap''"
| "resource_class_name Context_Scan = ''context_scan''"
| "resource_class_name Child_Mcp_Call = ''child_mcp_call''"
| "resource_class_name Lsp_Process = ''lsp_process''"
| "resource_class_name Rag_Indexing = ''rag_indexing''"
| "resource_class_name Goal_Process = ''goal_process''"
| "resource_class_name Delegated_Agent = ''delegated_agent''"
| "resource_class_name Verification_Heavy = ''verification_heavy''"

lemma RESOURCE_ADMISSION_CLASSES_UNIV: "set RESOURCE_ADMISSION_CLASSES = UNIV"
  by (auto simp: RESOURCE_ADMISSION_CLASSES_def intro: resource_class.exhaust)

lemma resource_class_name_inj: "resource_class_name a = resource_class_name b \<Longrightarrow> a = b"
  by (cases a; cases b) auto

definition isResourceClass :: "jsval \<Rightarrow> bool" where
  "isResourceClass v = is_string_in v (map resource_class_name RESOURCE_ADMISSION_CLASSES)"

definition resource_class_of :: "jsval \<Rightarrow> resource_class option" where
  "resource_class_of v = (case v of
     JStr s \<Rightarrow> find (\<lambda>c. resource_class_name c = s) RESOURCE_ADMISSION_CLASSES | _ \<Rightarrow> None)"

lemma resource_class_of_iff: "resource_class_of v = Some c \<longleftrightarrow> v = JStr (resource_class_name c)"
proof
  assume "resource_class_of v = Some c"
  then show "v = JStr (resource_class_name c)"
    by (auto simp: resource_class_of_def find_Some_iff split: jsval.splits)
next
  assume "v = JStr (resource_class_name c)"
  then show "resource_class_of v = Some c"
    by (cases c) (simp_all add: resource_class_of_def RESOURCE_ADMISSION_CLASSES_def)
qed

lemma isResourceClass_iff: "isResourceClass v \<longleftrightarrow> (\<exists>c. resource_class_of v = Some c)"
  using RESOURCE_ADMISSION_CLASSES_UNIV
  by (auto simp: isResourceClass_def is_string_in_iff resource_class_of_iff)

definition HEAVY_ADMISSION_CLASSES :: "resource_class list" where
  "HEAVY_ADMISSION_CLASSES = [Rag_Indexing, Verification_Heavy]"

definition isHeavyAdmissionClass :: "resource_class \<Rightarrow> bool" where
  "isHeavyAdmissionClass c \<longleftrightarrow> c \<in> set HEAVY_ADMISSION_CLASSES"

definition DEFAULT_MAX_HEAVY_OPERATIONS :: int where
  "DEFAULT_MAX_HEAVY_OPERATIONS = 1"

text \<open>The limits a caller passes, and the limits the controller keeps.\<close>

record admission_limits =
  al_global :: jsnum
  al_workspace :: jsnum
  al_session :: "jsnum option"
  al_max_operations :: jsnum
  al_max_heavy :: "jsnum option"
  al_headroom :: headroom_limits
  al_class :: "resource_class \<Rightarrow> jsnum option"

record admission_config =
  ac_global :: int
  ac_workspace :: int
  ac_session :: int
  ac_max_operations :: int
  ac_max_heavy :: int
  ac_headroom :: headroom
  ac_class :: "resource_class \<Rightarrow> int"
  ac_elevated_ratio :: rat
  ac_critical_ratio :: rat

definition DEFAULT_PROCESS_RESOURCE_ADMISSION_LIMITS :: admission_limits where
  "DEFAULT_PROCESS_RESOURCE_ADMISSION_LIMITS = \<lparr>al_global = int_num 16, al_workspace = int_num 8,
     al_session = Some (int_num 8), al_max_operations = int_num 8,
     al_max_heavy = Some (int_num DEFAULT_MAX_HEAVY_OPERATIONS),
     al_headroom = \<lparr>hrl_max_extra = Some (int_num DEFAULT_HEAVY_MAX_EXTRA_JOBS),
       hrl_bytes_per_job = Some (int_num DEFAULT_HEAVY_BYTES_PER_EXTRA_JOB),
       hrl_reserve = Some (int_num DEFAULT_HEAVY_HEADROOM_RESERVE_BYTES),
       hrl_max_load = Some (Num DEFAULT_HEAVY_MAX_LOAD_PER_CORE)\<rparr>,
     al_class = (\<lambda>c. Some (case c of
         Dependency_Bootstrap \<Rightarrow> int_num 8 | Context_Scan \<Rightarrow> int_num 8 | Child_Mcp_Call \<Rightarrow> int_num 12
       | Lsp_Process \<Rightarrow> int_num 16 | Rag_Indexing \<Rightarrow> int_num 8 | Goal_Process \<Rightarrow> int_num 16
       | Delegated_Agent \<Rightarrow> int_num 16 | Verification_Heavy \<Rightarrow> int_num 8))\<rparr>"

definition validateLimit :: "string \<Rightarrow> jsnum \<Rightarrow> probe_error + int" where
  "validateLimit label v =
     (if \<not> num_is_integer v \<or> num_int v < 1 then Inl (NotAPositiveInteger label) else Inr (num_int v))"

definition new_admission_config ::
  "admission_limits \<Rightarrow> jsnum option \<Rightarrow> jsnum option \<Rightarrow> probe_error + admission_config" where
  "new_admission_config l elevated critical =
     (let class_limit = (\<lambda>c. case al_class l c of None \<Rightarrow> al_global l | Some v \<Rightarrow> v) in
     bind_ok (validateLimit ''globalCost'' (al_global l)) (\<lambda>global_cost.
     bind_ok (validateLimit ''workspaceCost'' (al_workspace l)) (\<lambda>workspace_cost.
     bind_ok (validateLimit ''sessionCost'' (case al_session l of None \<Rightarrow> al_global l | Some v \<Rightarrow> v)) (\<lambda>session_cost.
     bind_ok (validateLimit ''maxOperations'' (al_max_operations l)) (\<lambda>max_operations.
     bind_ok (validateLimit ''maxHeavyOperations''
       (case al_max_heavy l of None \<Rightarrow> int_num DEFAULT_MAX_HEAVY_OPERATIONS | Some v \<Rightarrow> v)) (\<lambda>max_heavy.
     bind_ok (normalizeHeavyHeadroom (al_headroom l)) (\<lambda>hr.
     bind_ok (map_ok (\<lambda>c. validateLimit (''resourceClassCost.'' @ resource_class_name c) (class_limit c))
       RESOURCE_ADMISSION_CLASSES) (\<lambda>_.
     bind_ok (check_ratio ''elevatedGlobalCostRatio''
       (case elevated of None \<Rightarrow> Num (1 / 2) | Some v \<Rightarrow> v)) (\<lambda>e.
     bind_ok (check_ratio ''criticalGlobalCostRatio''
       (case critical of None \<Rightarrow> Num 0 | Some v \<Rightarrow> v)) (\<lambda>c.
     if c > e then Inl RatiosOutOfOrder
     else Inr \<lparr>ac_global = global_cost, ac_workspace = workspace_cost, ac_session = session_cost,
       ac_max_operations = max_operations, ac_max_heavy = max_heavy, ac_headroom = hr,
       ac_class = (\<lambda>k. num_int (class_limit k)),
       ac_elevated_ratio = e, ac_critical_ratio = c\<rparr>))))))))))"

definition admission_config_ok :: "admission_config \<Rightarrow> bool" where
  "admission_config_ok cfg \<longleftrightarrow> 1 \<le> ac_global cfg \<and> 1 \<le> ac_workspace cfg \<and> 1 \<le> ac_session cfg \<and>
     1 \<le> ac_max_operations cfg \<and> 1 \<le> ac_max_heavy cfg \<and> headroom_ok (ac_headroom cfg) \<and>
     (\<forall>c. 1 \<le> ac_class cfg c) \<and> is_double (of_int (ac_global cfg)) \<and>
     0 \<le> ac_critical_ratio cfg \<and> ac_critical_ratio cfg \<le> ac_elevated_ratio cfg \<and> ac_elevated_ratio cfg \<le> 1"

lemma validateLimit_ok: "validateLimit l v = Inr i \<Longrightarrow> 1 \<le> i \<and> i = num_int v"
  by (simp add: validateLimit_def split: if_splits)

lemma new_admission_config_ok:
  assumes "new_admission_config l e c = Inr cfg" "is_double (of_int (num_int (al_global l)))"
  shows "admission_config_ok cfg"
proof -
  define class_limit where "class_limit = (\<lambda>c. case al_class l c of None \<Rightarrow> al_global l | Some v \<Rightarrow> v)"
  obtain ys where ys: "map_ok (\<lambda>c. validateLimit (''resourceClassCost.'' @ resource_class_name c) (class_limit c))
       RESOURCE_ADMISSION_CLASSES = Inr ys"
      and cls: "ac_class cfg = (\<lambda>k. num_int (class_limit k))"
    using assms(1) unfolding new_admission_config_def Let_def class_limit_def
    by (auto simp: bind_ok_Inr_iff split: if_splits)
  have "1 \<le> ac_class cfg c" for c
  proof -
    have "c \<in> set RESOURCE_ADMISSION_CLASSES" using RESOURCE_ADMISSION_CLASSES_UNIV by simp
    with ys obtain y where "validateLimit (''resourceClassCost.'' @ resource_class_name c) (class_limit c) = Inr y"
      unfolding map_ok_Inr_iff by (auto simp: list_all2_conv_all_nth in_set_conv_nth)
    then show ?thesis by (auto simp: cls dest: validateLimit_ok)
  qed
  moreover have "1 \<le> ac_global cfg" "1 \<le> ac_workspace cfg" "1 \<le> ac_session cfg"
      "1 \<le> ac_max_operations cfg" "1 \<le> ac_max_heavy cfg"
    using assms(1) unfolding new_admission_config_def Let_def
    by (auto simp: bind_ok_Inr_iff dest!: validateLimit_ok split: if_splits)
  moreover have "headroom_ok (ac_headroom cfg)"
    using assms(1) unfolding new_admission_config_def Let_def
    by (auto simp: bind_ok_Inr_iff intro: normalizeHeavyHeadroom_ok split: if_splits)
  moreover have "0 \<le> ac_critical_ratio cfg \<and> ac_critical_ratio cfg \<le> ac_elevated_ratio cfg \<and> ac_elevated_ratio cfg \<le> 1"
    using assms(1) unfolding new_admission_config_def Let_def
    by (auto simp: bind_ok_Inr_iff dest!: check_ratio_ok split: if_splits)
  moreover have "is_double (of_int (ac_global cfg))"
    using assms unfolding new_admission_config_def Let_def
    by (auto simp: bind_ok_Inr_iff dest!: validateLimit_ok split: if_splits)
  ultimately show ?thesis by (simp add: admission_config_ok_def)
qed

section \<open>Requests and leases\<close>

record admission_request =
  arq_operation :: jsval
  arq_workspace :: jsval
  arq_session :: jsval
  arq_class :: jsval
  arq_cost :: jsval

record admission_lease =
  ale_operation :: string
  ale_workspace :: string
  ale_session :: string
  ale_class :: resource_class
  ale_cost :: int

definition isBoundedId :: "jsval \<Rightarrow> bool" where
  "isBoundedId v = (case v of JStr s \<Rightarrow> length (js_trim s) > 0 \<and> length s \<le> 128 | _ \<Rightarrow> False)"

definition is_positive_integer :: "jsval \<Rightarrow> bool" where
  "is_positive_integer v = (case v of JNum n \<Rightarrow> num_is_integer n \<and> \<not> num_int n < 1 | _ \<Rightarrow> False)"

definition valid_request :: "admission_request \<Rightarrow> bool" where
  "valid_request r \<longleftrightarrow> \<not> (\<not> isBoundedId (arq_operation r)
     \<or> \<not> isBoundedId (arq_workspace r)
     \<or> (arq_session r \<noteq> JUndefined \<and> \<not> isBoundedId (arq_session r))
     \<or> \<not> isResourceClass (arq_class r)
     \<or> \<not> is_positive_integer (arq_cost r))"

fun js_string :: "jsval \<Rightarrow> string" where
  "js_string (JStr s) = s"
| "js_string _ = []"

fun js_int :: "jsval \<Rightarrow> int" where
  "js_int (JNum n) = num_int n"
| "js_int _ = 0"

definition normalizeSessionId :: "jsval \<Rightarrow> string" where
  "normalizeSessionId v = (case v of JStr s \<Rightarrow> js_trim s | _ \<Rightarrow> ''system'')"

text \<open>The lease a valid request would get.\<close>

definition lease_of_request :: "admission_request \<Rightarrow> admission_lease" where
  "lease_of_request r = \<lparr>ale_operation = js_string (arq_operation r),
     ale_workspace = js_string (arq_workspace r), ale_session = normalizeSessionId (arq_session r),
     ale_class = the (resource_class_of (arq_class r)), ale_cost = js_int (arq_cost r)\<rparr>"

definition request_of_lease :: "admission_lease \<Rightarrow> admission_request" where
  "request_of_lease l = \<lparr>arq_operation = JStr (ale_operation l), arq_workspace = JStr (ale_workspace l),
     arq_session = JStr (ale_session l), arq_class = JStr (resource_class_name (ale_class l)),
     arq_cost = JNum (int_num (ale_cost l))\<rparr>"

definition sameLease :: "admission_lease \<Rightarrow> admission_lease \<Rightarrow> bool" where
  "sameLease a b \<longleftrightarrow> ale_operation a = ale_operation b \<and> ale_workspace a = ale_workspace b \<and>
     ale_session a = ale_session b \<and> ale_class a = ale_class b \<and> ale_cost a = ale_cost b"

lemma sameLease_iff: "sameLease a b \<longleftrightarrow> a = b"
  by (cases a; cases b) (simp add: sameLease_def)

lemma valid_request_cost: "valid_request r \<Longrightarrow> 1 \<le> ale_cost (lease_of_request r)"
  by (auto simp: valid_request_def is_positive_integer_def lease_of_request_def split: jsval.splits)

section \<open>The snapshot\<close>

record admission =
  adm_active :: "admission_lease list"
  adm_rejected :: nat

record admission_reading =
  ar_pressure :: "pressure_sample option"
  ar_cpu :: "cpu_sample option"

text \<open>
  \<open>activeCostByWorkspace\<close> and \<open>activeCostBySession\<close> are plain objects read with
  \<open>record[key] ?? 0\<close>. For a name every object inherits the read gives a function or the prototype,
  the sum is a text, and a comparison with a number converts it to NaN.
\<close>

definition object_prototype_names :: "string list" where
  "object_prototype_names = [''constructor'', ''__defineGetter__'', ''__defineSetter__'',
     ''hasOwnProperty'', ''__lookupGetter__'', ''__lookupSetter__'', ''isPrototypeOf'',
     ''propertyIsEnumerable'', ''toString'', ''valueOf'', ''__proto__'', ''toLocaleString'']"

definition cost_sum :: "admission_lease list \<Rightarrow> int" where
  "cost_sum ls = sum_list (map ale_cost ls)"

definition record_cost :: "(admission_lease \<Rightarrow> string) \<Rightarrow> admission_lease list \<Rightarrow> string \<Rightarrow> jsnum" where
  "record_cost owner ls key =
     (if key \<in> set object_prototype_names then NotANumber
      else int_num (cost_sum (filter (\<lambda>l. owner l = key) ls)))"

fun num_plus_exceeds :: "jsnum \<Rightarrow> int \<Rightarrow> int \<Rightarrow> bool" where
  "num_plus_exceeds (Num q) c limit = (q + of_int c > of_int limit)"
| "num_plus_exceeds PosInf c limit = True"
| "num_plus_exceeds NegInf c limit = False"
| "num_plus_exceeds NotANumber c limit = False"

record admission_snapshot =
  asn_active_cost :: int
  asn_active_operations :: int
  asn_cost_by_class :: "resource_class \<Rightarrow> int"
  asn_cost_by_workspace :: "string \<Rightarrow> jsnum"
  asn_cost_by_session :: "string \<Rightarrow> jsnum"
  asn_active_heavy :: int
  asn_max_heavy :: int
  asn_effective_max_heavy :: int
  asn_rejected :: nat
  asn_pressure_state :: pressure_state
  asn_effective_global :: int
  asn_reading :: admission_reading

definition effectiveGlobalCost :: "int \<Rightarrow> pressure_state \<Rightarrow> rat \<Rightarrow> rat \<Rightarrow> int" where
  "effectiveGlobalCost configured state elevated critical =
     (if state = PNormal then configured
      else (let ratio = (if state = PCritical then critical else elevated) in
        if ratio \<le> 0 then 0 else max 1 \<lfloor>double_round (of_int configured * ratio)\<rfloor>))"

definition headroom_sample_of :: "admission_reading \<Rightarrow> headroom_sample option" where
  "headroom_sample_of r = (case ar_pressure r of
     None \<Rightarrow> None
   | Some p \<Rightarrow> Some \<lparr>hs_state = psa_state p, hs_available = psa_available p,
       hs_load_average = map_option cpu_load_average (ar_cpu r),
       hs_cpu_count = map_option cpu_count (ar_cpu r)\<rparr>)"

definition pressure_state_of :: "admission_reading \<Rightarrow> pressure_state" where
  "pressure_state_of r = (case ar_pressure r of None \<Rightarrow> PNormal | Some p \<Rightarrow> psa_state p)"

definition heavy_count :: "admission_lease list \<Rightarrow> int" where
  "heavy_count ls = int (length (filter (\<lambda>l. isHeavyAdmissionClass (ale_class l)) ls))"

definition heavy_cap :: "admission_config \<Rightarrow> admission_reading \<Rightarrow> probe_error + int" where
  "heavy_cap cfg rd = effectiveHeavyCapacity (ac_max_heavy cfg) (ac_headroom cfg) (headroom_sample_of rd)"

definition global_cap :: "admission_config \<Rightarrow> admission_reading \<Rightarrow> int" where
  "global_cap cfg rd = effectiveGlobalCost (ac_global cfg) (pressure_state_of rd)
     (ac_elevated_ratio cfg) (ac_critical_ratio cfg)"

definition buildSnapshot ::
  "admission_config \<Rightarrow> admission_reading \<Rightarrow> admission \<Rightarrow> probe_error + admission_snapshot" where
  "buildSnapshot cfg rd st =
     bind_ok (heavy_cap cfg rd) (\<lambda>cap.
       Inr \<lparr>asn_active_cost = cost_sum (adm_active st),
            asn_active_operations = int (length (adm_active st)),
            asn_cost_by_class = (\<lambda>c. cost_sum (filter (\<lambda>l. ale_class l = c) (adm_active st))),
            asn_cost_by_workspace = record_cost ale_workspace (adm_active st),
            asn_cost_by_session = record_cost ale_session (adm_active st),
            asn_active_heavy = heavy_count (adm_active st),
            asn_max_heavy = ac_max_heavy cfg,
            asn_effective_max_heavy = cap,
            asn_rejected = adm_rejected st,
            asn_pressure_state = pressure_state_of rd,
            asn_effective_global = global_cap cfg rd,
            asn_reading = rd\<rparr>)"

section \<open>Decisions\<close>

datatype pressure_reason =
    Memory_Pressure | Global_Cost_Exhausted | Workspace_Cost_Exhausted | Session_Cost_Exhausted
  | Resource_Class_Cost_Exhausted | Heavy_Capacity_Exhausted | Operation_Limit_Exhausted

datatype invalid_reason = Invalid_Request | Duplicate_Operation

datatype admission_decision =
    Admitted admission_lease admission_snapshot
  | Pressured pressure_reason jsnum admission_snapshot
  | Refused invalid_reason jsnum admission_snapshot

definition deny_reason ::
  "admission_config \<Rightarrow> admission_snapshot \<Rightarrow> admission_lease \<Rightarrow> pressure_reason option" where
  "deny_reason cfg s l =
     (if asn_active_cost s + ale_cost l > asn_effective_global s
      then Some (if asn_pressure_state s = PNormal then Global_Cost_Exhausted else Memory_Pressure)
      else if num_plus_exceeds (asn_cost_by_workspace s (ale_workspace l)) (ale_cost l) (ac_workspace cfg)
      then Some Workspace_Cost_Exhausted
      else if num_plus_exceeds (asn_cost_by_session s (ale_session l)) (ale_cost l) (ac_session cfg)
      then Some Session_Cost_Exhausted
      else if asn_cost_by_class s (ale_class l) + ale_cost l > ac_class cfg (ale_class l)
      then Some Resource_Class_Cost_Exhausted
      else if isHeavyAdmissionClass (ale_class l) \<and> asn_active_heavy s \<ge> asn_effective_max_heavy s
      then Some Heavy_Capacity_Exhausted
      else if asn_active_operations s \<ge> ac_max_operations cfg
      then Some Operation_Limit_Exhausted
      else None)"

definition requested_cost :: "admission_request \<Rightarrow> jsnum" where
  "requested_cost r = (case arq_cost r of JNum n \<Rightarrow> if num_is_finite n then n else Num 0 | _ \<Rightarrow> Num 0)"

definition reject_invalid ::
  "admission_config \<Rightarrow> admission_reading \<Rightarrow> admission \<Rightarrow> invalid_reason \<Rightarrow> jsnum \<Rightarrow>
   admission \<times> (probe_error + admission_decision)" where
  "reject_invalid cfg rd st why cost =
     (let st' = st\<lparr>adm_rejected := adm_rejected st + 1\<rparr> in
      (st', bind_ok (buildSnapshot cfg rd st') (\<lambda>s. Inr (Refused why cost s))))"

definition is_active :: "admission \<Rightarrow> string \<Rightarrow> bool" where
  "is_active st op \<longleftrightarrow> (\<exists>l \<in> set (adm_active st). ale_operation l = op)"

definition tryAcquire ::
  "admission_config \<Rightarrow> admission_reading \<Rightarrow> admission \<Rightarrow> admission_request \<Rightarrow>
   admission \<times> (probe_error + admission_decision)" where
  "tryAcquire cfg rd st r =
     (let cost = requested_cost r; l = lease_of_request r in
      if \<not> valid_request r then reject_invalid cfg rd st Invalid_Request cost
      else if is_active st (ale_operation l) then reject_invalid cfg rd st Duplicate_Operation cost
      else (case buildSnapshot cfg rd st of
        Inl e \<Rightarrow> (st, Inl e)
      | Inr s \<Rightarrow> (case deny_reason cfg s l of
          Some why \<Rightarrow>
            (let st' = st\<lparr>adm_rejected := adm_rejected st + 1\<rparr> in
             (st', bind_ok (buildSnapshot cfg rd st') (\<lambda>s'. Inr (Pressured why cost s'))))
        | None \<Rightarrow>
            (let st' = st\<lparr>adm_active := adm_active st @ [l]\<rparr> in
             (st', bind_ok (buildSnapshot cfg rd st') (\<lambda>s'. Inr (Admitted l s')))))))"

definition find_active :: "admission \<Rightarrow> string \<Rightarrow> admission_lease option" where
  "find_active st op = find (\<lambda>l. ale_operation l = op) (adm_active st)"

definition restore :: "admission \<Rightarrow> admission_lease \<Rightarrow> admission \<times> bool" where
  "restore st l =
     (if \<not> valid_request (request_of_lease l) then (st, False)
      else case find_active st (ale_operation l) of
        Some current \<Rightarrow> (st, sameLease current l)
      | None \<Rightarrow> (st\<lparr>adm_active := adm_active st @ [l]\<rparr>, True))"

definition release :: "admission \<Rightarrow> admission_lease \<Rightarrow> admission \<times> bool" where
  "release st l =
     (case find_active st (ale_operation l) of
        None \<Rightarrow> (st, False)
      | Some current \<Rightarrow>
          if \<not> sameLease current l then (st, False)
          else (st\<lparr>adm_active := filter (\<lambda>x. ale_operation x \<noteq> ale_operation l) (adm_active st)\<rparr>, True))"

definition new_admission :: admission where
  "new_admission = \<lparr>adm_active = [], adm_rejected = 0\<rparr>"

section \<open>Runs of the controller\<close>

text \<open>What live callers do: acquire under the readings of the moment, or release a lease.\<close>

type_synonym live_op = "admission_reading \<times> admission_request + admission_lease"

definition live_step :: "admission_config \<Rightarrow> admission \<Rightarrow> live_op \<Rightarrow> admission" where
  "live_step cfg st x = (case x of
     Inl (rd, r) \<Rightarrow> fst (tryAcquire cfg rd st r)
   | Inr l \<Rightarrow> fst (release st l))"

end
