(* ===== verification/Resource_Admission_Safety.thy ===== *)
theory Resource_Admission_Safety
  imports Resource_Admission
begin

text \<open>
  What the admission controller promises: the abstract ceilings a decision implements, the
  invariant of the active leases under acquire and release, and the effect of restore.
\<close>

section \<open>The ceilings as a specification\<close>

text \<open>
  Adding the lease keeps every ceiling that is in force under the readings. The ceilings of a workspace
  and a session bind no name every object inherits (\<open>inherited_name_has_no_workspace_ceiling\<close> below).
\<close>

definition fits :: "admission_config \<Rightarrow> admission_reading \<Rightarrow> int \<Rightarrow> admission_lease list \<Rightarrow> admission_lease \<Rightarrow> bool" where
  "fits cfg rd cap ls l \<longleftrightarrow>
     cost_sum (ls @ [l]) \<le> global_cap cfg rd \<and>
     (ale_workspace l \<notin> set object_prototype_names \<longrightarrow>
        cost_sum (filter (\<lambda>x. ale_workspace x = ale_workspace l) (ls @ [l])) \<le> ac_workspace cfg) \<and>
     (ale_session l \<notin> set object_prototype_names \<longrightarrow>
        cost_sum (filter (\<lambda>x. ale_session x = ale_session l) (ls @ [l])) \<le> ac_session cfg) \<and>
     cost_sum (filter (\<lambda>x. ale_class x = ale_class l) (ls @ [l])) \<le> ac_class cfg (ale_class l) \<and>
     (isHeavyAdmissionClass (ale_class l) \<longrightarrow> heavy_count (ls @ [l]) \<le> cap) \<and>
     int (length (ls @ [l])) \<le> ac_max_operations cfg"

lemma cost_sum_simps [simp]:
  "cost_sum [] = 0" "cost_sum (l # ls) = ale_cost l + cost_sum ls"
  "cost_sum (xs @ ys) = cost_sum xs + cost_sum ys"
  by (simp_all add: cost_sum_def)

lemma cost_sum_nonneg: "\<forall>l \<in> set ls. 1 \<le> ale_cost l \<Longrightarrow> 0 \<le> cost_sum ls"
  by (induction ls) auto

lemma cost_sum_filter_le: "\<forall>l \<in> set ls. 1 \<le> ale_cost l \<Longrightarrow> cost_sum (filter P ls) \<le> cost_sum ls"
  by (induction ls) auto

lemma cost_sum_filter_filter_le:
  "\<forall>l \<in> set ls. 1 \<le> ale_cost l \<Longrightarrow> cost_sum (filter P (filter Q ls)) \<le> cost_sum (filter P ls)"
  by (induction ls) auto

lemma heavy_count_simps [simp]:
  "heavy_count [] = 0"
  "heavy_count (l # ls) = (if isHeavyAdmissionClass (ale_class l) then 1 else 0) + heavy_count ls"
  "heavy_count (xs @ ys) = heavy_count xs + heavy_count ys"
  by (simp_all add: heavy_count_def)

lemma heavy_count_filter_le: "heavy_count (filter P ls) \<le> heavy_count ls"
  by (induction ls) auto

lemma num_plus_exceeds_record:
  "num_plus_exceeds (record_cost owner ls key) c limit \<longleftrightarrow>
     key \<notin> set object_prototype_names \<and> cost_sum (filter (\<lambda>l. owner l = key) ls) + c > limit"
proof -
  have "(rat_of_int limit < rat_of_int s + rat_of_int c) = (limit < s + c)" for s
    by (metis of_int_add of_int_less_iff)
  then show ?thesis by (simp add: record_cost_def)
qed

lemma buildSnapshot_eq:
  "heavy_cap cfg rd = Inr cap \<Longrightarrow> \<exists>s. buildSnapshot cfg rd st = Inr s"
  "heavy_cap cfg rd = Inl e \<Longrightarrow> buildSnapshot cfg rd st = Inl e"
  by (simp_all add: buildSnapshot_def)

lemma deny_reason_None_iff:
  assumes "buildSnapshot cfg rd st = Inr s" "heavy_cap cfg rd = Inr cap"
  shows "deny_reason cfg s l = None \<longleftrightarrow> fits cfg rd cap (adm_active st) l"
proof -
  have s: "s = \<lparr>asn_active_cost = cost_sum (adm_active st),
            asn_active_operations = int (length (adm_active st)),
            asn_cost_by_class = (\<lambda>c. cost_sum (filter (\<lambda>l. ale_class l = c) (adm_active st))),
            asn_cost_by_workspace = record_cost ale_workspace (adm_active st),
            asn_cost_by_session = record_cost ale_session (adm_active st),
            asn_active_heavy = heavy_count (adm_active st),
            asn_max_heavy = ac_max_heavy cfg,
            asn_effective_max_heavy = cap,
            asn_rejected = adm_rejected st,
            asn_pressure_state = pressure_state_of rd,
            asn_effective_global = global_cap cfg rd,
            asn_reading = rd\<rparr>"
    using assms by (simp add: buildSnapshot_def)
  show ?thesis
    by (auto simp: s deny_reason_def fits_def num_plus_exceeds_record not_less)
qed

lemma tryAcquire_spec:
  fixes r :: admission_request and st :: admission
  assumes cap: "heavy_cap cfg rd = Inr cap"
  defines "l \<equiv> lease_of_request r"
  defines "ok \<equiv> valid_request r \<and> \<not> is_active st (ale_operation l) \<and> fits cfg rd cap (adm_active st) l"
  shows "ok \<Longrightarrow> \<exists>s. tryAcquire cfg rd st r = (st\<lparr>adm_active := adm_active st @ [l]\<rparr>, Inr (Admitted l s))"
    and "\<not> ok \<Longrightarrow> \<exists>d. tryAcquire cfg rd st r = (st\<lparr>adm_rejected := adm_rejected st + 1\<rparr>, Inr d) \<and>
           (\<forall>l' s. d \<noteq> Admitted l' s)"
proof -
  have snap: "\<exists>s. buildSnapshot cfg rd st' = Inr s" for st' using buildSnapshot_eq(1) [OF cap] .
  obtain s where s: "buildSnapshot cfg rd st = Inr s" using snap by blast
  obtain s1 where s1: "buildSnapshot cfg rd (st\<lparr>adm_active := adm_active st @ [l]\<rparr>) = Inr s1"
    using snap by blast
  obtain s2 where s2: "buildSnapshot cfg rd (st\<lparr>adm_rejected := adm_rejected st + 1\<rparr>) = Inr s2"
    using snap by blast
  note deny = deny_reason_None_iff [OF s cap, of l]
  show "ok \<Longrightarrow> \<exists>s. tryAcquire cfg rd st r = (st\<lparr>adm_active := adm_active st @ [l]\<rparr>, Inr (Admitted l s))"
    using deny s s1 by (simp add: tryAcquire_def ok_def l_def Let_def)
  show "\<not> ok \<Longrightarrow> \<exists>d. tryAcquire cfg rd st r = (st\<lparr>adm_rejected := adm_rejected st + 1\<rparr>, Inr d) \<and>
           (\<forall>l' s. d \<noteq> Admitted l' s)"
    using deny s s2 by (auto simp: tryAcquire_def reject_invalid_def ok_def l_def Let_def split: option.splits)
qed

lemma tryAcquire_throws:
  assumes "heavy_cap cfg rd = Inl e"
  shows "adm_active (fst (tryAcquire cfg rd st r)) = adm_active st"
    and "snd (tryAcquire cfg rd st r) = Inl e"
  using buildSnapshot_eq(2) [OF assms]
  by (simp_all add: tryAcquire_def reject_invalid_def Let_def)

lemma tryAcquire_AdmittedD:
  assumes "tryAcquire cfg rd st r = (st', Inr (Admitted l s))"
  shows "l = lease_of_request r" "valid_request r" "\<not> is_active st (ale_operation l)"
    "st' = st\<lparr>adm_active := adm_active st @ [l]\<rparr>"
    "\<exists>cap. heavy_cap cfg rd = Inr cap \<and> fits cfg rd cap (adm_active st) l"
proof -
  have "\<nexists>e. heavy_cap cfg rd = Inl e" using assms tryAcquire_throws(2) [of cfg rd _ st r] by auto
  then obtain cap where cap: "heavy_cap cfg rd = Inr cap" by (cases "heavy_cap cfg rd") auto
  note spec = tryAcquire_spec [OF cap, of r st]
  have ok: "valid_request r \<and> \<not> is_active st (ale_operation (lease_of_request r)) \<and>
      fits cfg rd cap (adm_active st) (lease_of_request r)"
    using spec(2) assms by fastforce
  from spec(1) [OF ok] assms have eq: "st' = st\<lparr>adm_active := adm_active st @ [lease_of_request r]\<rparr>"
    "l = lease_of_request r" by auto
  show "l = lease_of_request r" "valid_request r" "\<not> is_active st (ale_operation l)"
    "st' = st\<lparr>adm_active := adm_active st @ [l]\<rparr>"
    "\<exists>cap. heavy_cap cfg rd = Inr cap \<and> fits cfg rd cap (adm_active st) l"
    using ok eq cap by auto
qed

lemma tryAcquire_activeE:
  obtains (same) "adm_active (fst (tryAcquire cfg rd st r)) = adm_active st"
  | (more) cap s where "heavy_cap cfg rd = Inr cap" "valid_request r"
      "\<not> is_active st (ale_operation (lease_of_request r))"
      "fits cfg rd cap (adm_active st) (lease_of_request r)"
      "adm_active (fst (tryAcquire cfg rd st r)) = adm_active st @ [lease_of_request r]"
      "snd (tryAcquire cfg rd st r) = Inr (Admitted (lease_of_request r) s)"
proof (cases "heavy_cap cfg rd")
  case (Inl e)
  then show thesis by (rule that(1) [OF tryAcquire_throws(1)])
next
  case (Inr cap)
  note spec = tryAcquire_spec [OF Inr, of r st]
  show thesis
  proof (cases "valid_request r \<and> \<not> is_active st (ale_operation (lease_of_request r)) \<and>
      fits cfg rd cap (adm_active st) (lease_of_request r)")
    case True
    from spec(1) [OF True] obtain s where
      "tryAcquire cfg rd st r = (st\<lparr>adm_active := adm_active st @ [lease_of_request r]\<rparr>, Inr (Admitted (lease_of_request r) s))"
      by blast
    with True show thesis by (intro that(2) [OF Inr, of s]) simp_all
  next
    case False
    from spec(2) [OF False] show thesis by (intro that(1)) auto
  qed
qed

lemma find_after: "\<forall>x \<in> set xs. \<not> P x \<Longrightarrow> P y \<Longrightarrow> find P (xs @ [y]) = Some y"
  by (induction xs) auto

section \<open>The invariant of the active leases\<close>

definition ledger_ok :: "admission \<Rightarrow> bool" where
  "ledger_ok st \<longleftrightarrow> distinct (map ale_operation (adm_active st)) \<and> (\<forall>l \<in> set (adm_active st). 1 \<le> ale_cost l)"

text \<open>
  The ceilings over any readings. Workspaces and sessions named like an inherited property are exempt, as
  in \<open>fits\<close>; the heavy jobs stay within the configured cap and the configured extra slots together.
\<close>

definition within_limits :: "admission_config \<Rightarrow> admission \<Rightarrow> bool" where
  "within_limits cfg st \<longleftrightarrow> (let ls = adm_active st in
     cost_sum ls \<le> ac_global cfg \<and>
     (\<forall>w. w \<notin> set object_prototype_names \<longrightarrow>
        cost_sum (filter (\<lambda>l. ale_workspace l = w) ls) \<le> ac_workspace cfg) \<and>
     (\<forall>w. w \<notin> set object_prototype_names \<longrightarrow>
        cost_sum (filter (\<lambda>l. ale_session l = w) ls) \<le> ac_session cfg) \<and>
     (\<forall>c. cost_sum (filter (\<lambda>l. ale_class l = c) ls) \<le> ac_class cfg c) \<and>
     heavy_count ls \<le> ac_max_heavy cfg + hr_max_extra (ac_headroom cfg) \<and>
     int (length ls) \<le> ac_max_operations cfg)"

definition admission_inv :: "admission_config \<Rightarrow> admission \<Rightarrow> bool" where
  "admission_inv cfg st \<longleftrightarrow> admission_config_ok cfg \<and> ledger_ok st \<and> within_limits cfg st"

lemma global_cap_le:
  assumes "admission_config_ok cfg"
  shows "global_cap cfg rd \<le> ac_global cfg"
proof -
  have le: "max 1 \<lfloor>double_round (of_int (ac_global cfg) * q)\<rfloor> \<le> ac_global cfg" if "q \<le> 1" for q :: rat
  proof -
    have "double_round (of_int (ac_global cfg) * q) \<le> double_round (of_int (ac_global cfg))"
      using that assms by (intro double_round_mono) (simp add: mult_left_le admission_config_ok_def)
    also have "\<dots> = of_int (ac_global cfg)" using assms by (simp add: admission_config_ok_def is_double_def)
    finally show ?thesis using assms by (simp add: admission_config_ok_def floor_le_iff)
  qed
  have "ac_elevated_ratio cfg \<le> 1" "ac_critical_ratio cfg \<le> 1" "0 \<le> ac_global cfg"
    using assms by (auto simp: admission_config_ok_def)
  then show ?thesis using le by (simp add: global_cap_def effectiveGlobalCost_def Let_def)
qed

text \<open>
  The rounding shows. The double written \<open>0.7\<close> is a little less than seven tenths and the one written
  \<open>0.29\<close> a little more than \<open>0.29\<close> less one unit in the last place; the ceilings under elevated pressure
  are those JavaScript computes, 7 of 10 and 28 of 100.
\<close>

lemma round_numeral:
  "round_scaled_up (numeral k) x =
     (if x \<ge> 4503599627370496 then of_int (round_half_even x) else round_scaled_up (pred_numeral k) (2 * x) / 2)"
  "round_scaled_down (numeral k) x =
     (if x \<ge> 9007199254740992 then 2 * round_scaled_down (pred_numeral k) (x / 2) else round_scaled_up 1074 x)"
  by (simp_all only: numeral_eq_Suc round_scaled_up.simps round_scaled_down.simps)

lemma floor_numerals: "\<lfloor>numeral a / numeral b :: rat\<rfloor> = numeral a div numeral b"
  using floor_divide_of_int_eq [of "numeral a" "numeral b", where 'a = rat] by simp

lemma effectiveGlobalCost_rounds:
  "effectiveGlobalCost 10 PElevated (6305039478318694 / 9007199254740992) 0 = 7"
  "\<lfloor>10 * (6305039478318694 / 9007199254740992) :: rat\<rfloor> = 6"
  "effectiveGlobalCost 100 PElevated (5224175567749775 / 18014398509481984) 0 = 28"
  by (simp_all add: effectiveGlobalCost_def double_round_def round_numeral round_half_even_def floor_numerals
      Let_def)

lemma heavy_cap_le:
  "admission_config_ok cfg \<Longrightarrow> heavy_cap cfg rd = Inr cap \<Longrightarrow>
   cap \<le> ac_max_heavy cfg + hr_max_extra (ac_headroom cfg)"
  unfolding heavy_cap_def admission_config_ok_def
  using effectiveHeavyCapacity_bounds(2) [of "ac_headroom cfg" "ac_max_heavy cfg"] by blast

lemma new_admission_inv: "admission_config_ok cfg \<Longrightarrow> admission_inv cfg new_admission"
  by (auto simp: admission_inv_def new_admission_def ledger_ok_def within_limits_def Let_def
      admission_config_ok_def headroom_ok_def intro: order_trans [of 0 1])

lemma within_limits_append:
  assumes cfg: "admission_config_ok cfg" and w: "within_limits cfg st"
    and cap: "heavy_cap cfg rd = Inr cap" and f: "fits cfg rd cap (adm_active st) l"
  shows "within_limits cfg (st\<lparr>adm_active := adm_active st @ [l]\<rparr>)"
proof -
  have g: "cost_sum (adm_active st @ [l]) \<le> ac_global cfg"
    using f global_cap_le [OF cfg, of rd] by (simp add: fits_def)
  have h: "heavy_count (adm_active st @ [l]) \<le> ac_max_heavy cfg + hr_max_extra (ac_headroom cfg)"
    using f w heavy_cap_le [OF cfg cap] by (auto simp: fits_def within_limits_def Let_def)
  show ?thesis
    using f w g h by (auto simp: fits_def within_limits_def Let_def)
qed

lemma acquire_inv [preserves]:
  assumes "admission_inv cfg st"
  shows "admission_inv cfg (fst (tryAcquire cfg rd st r))"
proof (rule tryAcquire_activeE [of cfg rd st r])
  assume "adm_active (fst (tryAcquire cfg rd st r)) = adm_active st"
  then show ?thesis using assms by (simp add: admission_inv_def ledger_ok_def within_limits_def)
next
  fix cap s
  assume h: "heavy_cap cfg rd = Inr cap" "valid_request r"
      "\<not> is_active st (ale_operation (lease_of_request r))"
      "fits cfg rd cap (adm_active st) (lease_of_request r)"
      "adm_active (fst (tryAcquire cfg rd st r)) = adm_active st @ [lease_of_request r]"
  have "within_limits cfg (st\<lparr>adm_active := adm_active st @ [lease_of_request r]\<rparr>)"
    using assms h by (intro within_limits_append) (auto simp: admission_inv_def)
  moreover have "ledger_ok (st\<lparr>adm_active := adm_active st @ [lease_of_request r]\<rparr>)"
    using assms h(3) valid_request_cost [OF h(2)] by (auto simp: admission_inv_def ledger_ok_def is_active_def)
  ultimately show ?thesis
    using assms h(5) by (simp add: admission_inv_def ledger_ok_def within_limits_def)
qed

lemma within_limits_mono:
  assumes w: "within_limits cfg st"
    and cs: "\<And>Q. cost_sum (filter Q (adm_active st')) \<le> cost_sum (filter Q (adm_active st))"
    and h: "heavy_count (adm_active st') \<le> heavy_count (adm_active st)"
    and n: "length (adm_active st') \<le> length (adm_active st)"
  shows "within_limits cfg st'"
proof -
  have all: "cost_sum (adm_active st') \<le> cost_sum (adm_active st)" using cs [of "\<lambda>_. True"] by simp
  show ?thesis
    unfolding within_limits_def Let_def
  proof (intro conjI allI impI)
    show "cost_sum (adm_active st') \<le> ac_global cfg"
      by (rule order_trans [OF all]) (use w in \<open>simp add: within_limits_def Let_def\<close>)
    fix k assume "k \<notin> set object_prototype_names"
    then show "cost_sum (filter (\<lambda>l. ale_workspace l = k) (adm_active st')) \<le> ac_workspace cfg"
      by (intro order_trans [OF cs]) (use w in \<open>simp add: within_limits_def Let_def\<close>)
  next
    fix k assume "k \<notin> set object_prototype_names"
    then show "cost_sum (filter (\<lambda>l. ale_session l = k) (adm_active st')) \<le> ac_session cfg"
      by (intro order_trans [OF cs]) (use w in \<open>simp add: within_limits_def Let_def\<close>)
  next
    fix c
    show "cost_sum (filter (\<lambda>l. ale_class l = c) (adm_active st')) \<le> ac_class cfg c"
      by (rule order_trans [OF cs]) (use w in \<open>simp add: within_limits_def Let_def\<close>)
  next
    show "heavy_count (adm_active st') \<le> ac_max_heavy cfg + hr_max_extra (ac_headroom cfg)"
      by (rule order_trans [OF h]) (use w in \<open>simp add: within_limits_def Let_def\<close>)
    show "int (length (adm_active st')) \<le> ac_max_operations cfg"
      using n w by (simp add: within_limits_def Let_def)
  qed
qed

lemma within_limits_filter:
  assumes "within_limits cfg st" "ledger_ok st"
  shows "within_limits cfg (st\<lparr>adm_active := filter P (adm_active st)\<rparr>)"
proof -
  have "\<forall>l \<in> set (adm_active st). 1 \<le> ale_cost l" using assms(2) by (simp add: ledger_ok_def)
  then show ?thesis
    by (intro within_limits_mono [OF assms(1)])
      (simp_all del: filter_filter add: heavy_count_filter_le cost_sum_filter_filter_le)
qed

lemma release_active:
  "adm_active (fst (release st l)) =
     (if find_active st (ale_operation l) = Some l
      then filter (\<lambda>x. ale_operation x \<noteq> ale_operation l) (adm_active st) else adm_active st)"
  by (simp add: release_def sameLease_iff split: option.splits)

lemma release_result: "snd (release st l) \<longleftrightarrow> find_active st (ale_operation l) = Some l"
  by (simp add: release_def sameLease_iff split: option.splits)

lemma find_active_iff:
  "ledger_ok st \<Longrightarrow> find_active st (ale_operation l) = Some l \<longleftrightarrow> l \<in> set (adm_active st)"
  using row_get_key [of ale_operation "adm_active st" l]
  by (auto simp: find_active_def ledger_ok_def row_get_def dest: find_Some_iff [THEN iffD1])

lemma release_inv [preserves]:
  assumes "admission_inv cfg st"
  shows "admission_inv cfg (fst (release st l))"
proof -
  let ?f = "st\<lparr>adm_active := filter (\<lambda>x. ale_operation x \<noteq> ale_operation l) (adm_active st)\<rparr>"
  have "admission_inv cfg ?f"
    using assms within_limits_filter by (auto simp: admission_inv_def ledger_ok_def distinct_map_filter)
  then show ?thesis using assms
    by (simp add: admission_inv_def ledger_ok_def within_limits_def release_active)
qed

lemma live_step_inv: "admission_inv cfg st \<Longrightarrow> admission_inv cfg (live_step cfg st x)"
  by (auto simp: live_step_def intro: preserves split: sum.splits)

interpretation controller: invariant_machine "live_step cfg" "admission_inv cfg" for cfg
  by unfold_locales (rule live_step_inv)

section \<open>Sample controller\<close>

text \<open>The process controller with its default limits, without live probes.\<close>

definition default_config :: admission_config where
  "default_config = (case new_admission_config DEFAULT_PROCESS_RESOURCE_ADMISSION_LIMITS None None of
     Inr cfg \<Rightarrow> cfg)"

definition no_reading :: admission_reading where
  "no_reading = \<lparr>ar_pressure = None, ar_cpu = None\<rparr>"

definition simple_request :: "string \<Rightarrow> string \<Rightarrow> resource_class \<Rightarrow> int \<Rightarrow> admission_request" where
  "simple_request op ws c cost = \<lparr>arq_operation = JStr op, arq_workspace = JStr ws, arq_session = JUndefined,
     arq_class = JStr (resource_class_name c), arq_cost = JNum (int_num cost)\<rparr>"

lemma default_global_double: "is_double (of_int (num_int (al_global DEFAULT_PROCESS_RESOURCE_ADMISSION_LIMITS)))"
  by code_simp

lemma default_config_ok [simp]: "admission_config_ok default_config"
proof -
  have "is_err (new_admission_config DEFAULT_PROCESS_RESOURCE_ADMISSION_LIMITS None None) = False"
    by code_simp
  then obtain cfg where "new_admission_config DEFAULT_PROCESS_RESOURCE_ADMISSION_LIMITS None None = Inr cfg"
    by (auto simp: is_err_def split: sum.splits)
  then show ?thesis using new_admission_config_ok [OF _ default_global_double] by (simp add: default_config_def)
qed

text \<open>
  A workspace named like an inherited property has no ceiling: its two leases hold twice the cost
  the default limits give a workspace, where any other name is refused the second one.
\<close>

lemma inherited_name_has_no_workspace_ceiling:
  "let run = (\<lambda>ws. run_ops (live_step default_config) new_admission
         [Inl (no_reading, (simple_request ''a'' ws Lsp_Process 8)\<lparr>arq_session := JStr ''s1''\<rparr>),
          Inl (no_reading, (simple_request ''b'' ws Lsp_Process 8)\<lparr>arq_session := JStr ''s2''\<rparr>)])
   in cost_sum (adm_active (run ''constructor'')) = 16 \<and> cost_sum (adm_active (run ''project'')) = 8
      \<and> ac_workspace default_config = 8"
  by code_simp

section \<open>Properties\<close>

text \<open>Every active lease was asked for.\<close>

lemma run_leases:
  "l \<in> set (adm_active (run_ops (live_step cfg) st ops)) \<Longrightarrow>
   l \<in> set (adm_active st) \<or> (\<exists>rd r. Inl (rd, r) \<in> set ops \<and> l = lease_of_request r)"
proof (induction ops arbitrary: st)
  case (Cons x ops)
  have step: "k \<in> set (adm_active st) \<or> (\<exists>rd r. Inl (rd, r) = x \<and> k = lease_of_request r)"
    if k: "k \<in> set (adm_active (live_step cfg st x))" for k
  proof (cases x)
    case (Inl q)
    then obtain rd r where x: "x = Inl (rd, r)" by (cases q) simp
    show ?thesis
      by (rule tryAcquire_activeE [of cfg rd st r]) (use k in \<open>auto simp: x live_step_def\<close>)
  next
    case (Inr m)
    then show ?thesis using k by (auto simp: live_step_def release_active split: if_splits)
  qed
  from Cons.prems have "l \<in> set (adm_active (run_ops (live_step cfg) (live_step cfg st x) ops))" by simp
  from Cons.IH [OF this] step show ?case by auto
qed simp

text \<open>The lease names no property every object inherits, so the records of costs count it.\<close>

definition plain_names :: "admission_lease \<Rightarrow> bool" where
  "plain_names l \<longleftrightarrow> ale_workspace l \<notin> set object_prototype_names \<and> ale_session l \<notin> set object_prototype_names"

lemma unnamed_cost_zero: "\<forall>l \<in> set ls. owner l \<noteq> w \<Longrightarrow> cost_sum (filter (\<lambda>l. owner l = w) ls) = 0"
  by (simp add: filter_False)

text \<open>
  C13: Whatever the configuration the constructor accepts (its global cost being a double) and whatever
  the probes read, no sequence of acquisitions and releases makes the active leases exceed the global
  cost, the cost of a class, the number of operations, or the configured heavy jobs plus the configured
  extra ones, which is the bound that holds: the configured cap alone is not one. A workspace and a
  session keep within their ceilings unless they are named like one of the twelve properties every
  object inherits, and all of them do when no request of the sequence names such a one.
\<close>

theorem admission_never_over_limits:
  assumes "new_admission_config limits elevated critical = Inr cfg" "is_double (of_int (num_int (al_global limits)))"
  shows "let ls = adm_active (run_ops (live_step cfg) new_admission ops) in
     cost_sum ls \<le> ac_global cfg \<and> int (length ls) \<le> ac_max_operations cfg
   \<and> heavy_count ls \<le> ac_max_heavy cfg + hr_max_extra (ac_headroom cfg)
   \<and> (\<forall>c. cost_sum (filter (\<lambda>l. ale_class l = c) ls) \<le> ac_class cfg c)
   \<and> (\<forall>w. w \<notin> set object_prototype_names \<longrightarrow> cost_sum (filter (\<lambda>l. ale_workspace l = w) ls) \<le> ac_workspace cfg
        \<and> cost_sum (filter (\<lambda>l. ale_session l = w) ls) \<le> ac_session cfg)
   \<and> ((\<forall>rd r. Inl (rd, r) \<in> set ops \<longrightarrow> plain_names (lease_of_request r)) \<longrightarrow>
        (\<forall>w. cost_sum (filter (\<lambda>l. ale_workspace l = w) ls) \<le> ac_workspace cfg
           \<and> cost_sum (filter (\<lambda>l. ale_session l = w) ls) \<le> ac_session cfg))"
proof -
  let ?ls = "adm_active (run_ops (live_step cfg) new_admission ops)"
  have ok: "admission_config_ok cfg" by (rule new_admission_config_ok [OF assms])
  from controller.run_inv [OF new_admission_inv [OF ok]]
  have w: "within_limits cfg (run_ops (live_step cfg) new_admission ops)" by (simp add: admission_inv_def)
  have "cost_sum (filter (\<lambda>l. ale_workspace l = v) ?ls) \<le> ac_workspace cfg
      \<and> cost_sum (filter (\<lambda>l. ale_session l = v) ?ls) \<le> ac_session cfg"
    if plain: "\<forall>rd r. Inl (rd, r) \<in> set ops \<longrightarrow> plain_names (lease_of_request r)" for v
  proof (cases "v \<in> set object_prototype_names")
    case True
    then have "\<forall>l \<in> set ?ls. ale_workspace l \<noteq> v \<and> ale_session l \<noteq> v"
      using run_leases [of _ cfg new_admission ops] plain by (fastforce simp: new_admission_def plain_names_def)
    then have "cost_sum (filter (\<lambda>l. ale_workspace l = v) ?ls) = 0" "cost_sum (filter (\<lambda>l. ale_session l = v) ?ls) = 0"
      by (simp_all add: unnamed_cost_zero)
    then show ?thesis using ok by (simp add: admission_config_ok_def)
  next
    case False
    then show ?thesis using w by (simp add: within_limits_def Let_def)
  qed
  then show ?thesis using w unfolding within_limits_def Let_def by blast
qed

theorem admission_never_over_limits_witness:
  "\<exists>cfg. new_admission_config DEFAULT_PROCESS_RESOURCE_ADMISSION_LIMITS None None = Inr cfg \<and>
     cost_sum (adm_active (run_ops (live_step cfg) new_admission
       [Inl (no_reading, simple_request ''a'' ''w'' Rag_Indexing 8), Inl (no_reading, simple_request ''b'' ''v'' Lsp_Process 8)]))
     \<le> ac_global cfg"
proof -
  have "is_err (new_admission_config DEFAULT_PROCESS_RESOURCE_ADMISSION_LIMITS None None) = False"
    by code_simp
  then obtain cfg where "new_admission_config DEFAULT_PROCESS_RESOURCE_ADMISSION_LIMITS None None = Inr cfg"
    by (auto simp: is_err_def split: sum.splits)
  with admission_never_over_limits [OF this default_global_double] show ?thesis unfolding Let_def by blast
qed




text \<open>
  A lease is released once, by its exact holder. Releasing an admitted lease gives back the
  active leases from before the admission, a second release of it fails, and a lease that differs
  from the active one in any field releases nothing.
\<close>

theorem release_undoes_acquire:
  assumes "ledger_ok st" "tryAcquire cfg rd st r = (st', Inr (Admitted l s))"
  shows "snd (release st' l) \<and> adm_active (fst (release st' l)) = adm_active st \<and>
     \<not> snd (release (fst (release st' l)) l) \<and>
     (\<forall>other. \<not> sameLease other l \<and> ale_operation other = ale_operation l \<longrightarrow>
        release st' other = (st', False))"
proof -
  have more: "adm_active st' = adm_active st @ [l]" "\<not> is_active st (ale_operation l)"
    using tryAcquire_AdmittedD [OF assms(2)] by auto
  have none: "find (\<lambda>x. ale_operation x = ale_operation l) (adm_active st) = None"
    using more(2) by (auto simp: is_active_def find_None_iff)
  have ne: "\<forall>x \<in> set (adm_active st). ale_operation x \<noteq> ale_operation l"
    using more(2) by (auto simp: is_active_def)
  have "find (\<lambda>x. ale_operation x = ale_operation l) (adm_active st @ [l]) = Some l"
    using ne by (simp add: find_after)
  then have found: "find_active st' (ale_operation l) = Some l" by (simp add: find_active_def more(1))
  have filt: "filter (\<lambda>x. ale_operation x \<noteq> ale_operation l) (adm_active st') = adm_active st"
    using ne by (simp add: more(1))
  then show ?thesis
    using found none by (auto simp: release_def sameLease_iff find_active_def)
qed

text \<open>
  Restored debt is honoured and never forged. Restoring a valid lease of an operation that is
  not active adds exactly it, replaying the same lease answers true without effect, a lease of the
  same operation with another owner or cost is refused, and while the active leases reach the
  global ceiling no request is admitted.
\<close>

theorem restore_is_idempotent_debt:
  assumes "admission_config_ok cfg" "ledger_ok st" "valid_request (request_of_lease l)"
    "\<not> is_active st (ale_operation l)"
  shows "restore st l = (st\<lparr>adm_active := adm_active st @ [l]\<rparr>, True) \<and>
     restore (fst (restore st l)) l = (fst (restore st l), True) \<and>
     (\<forall>other. ale_operation other = ale_operation l \<and> other \<noteq> l \<longrightarrow>
        restore (fst (restore st l)) other = (fst (restore st l), False)) \<and>
     (ac_global cfg \<le> cost_sum (adm_active (fst (restore st l))) \<longrightarrow>
        (\<forall>rd r. adm_active (fst (tryAcquire cfg rd (fst (restore st l)) r)) = adm_active (fst (restore st l))))"
proof -
  have none: "find_active st (ale_operation l) = None"
    using assms(4) by (auto simp: find_active_def is_active_def find_None_iff)
  have res: "restore st l = (st\<lparr>adm_active := adm_active st @ [l]\<rparr>, True)"
    using assms(3) none by (simp add: restore_def)
  have ne: "\<forall>x \<in> set (adm_active st). ale_operation x \<noteq> ale_operation l"
    using assms(4) by (auto simp: is_active_def)
  have "find (\<lambda>x. ale_operation x = ale_operation l) (adm_active st @ [l]) = Some l"
    using ne by (simp add: find_after)
  then have found: "find_active (st\<lparr>adm_active := adm_active st @ [l]\<rparr>) (ale_operation l) = Some l"
    by (simp add: find_active_def)
  have blocked: "adm_active (fst (tryAcquire cfg rd s r)) = adm_active s"
    if "ac_global cfg \<le> cost_sum (adm_active s)" for rd r s
    using global_cap_le [OF assms(1), of rd] valid_request_cost [of r] that
    by (rule_tac tryAcquire_activeE [of cfg rd s r]) (auto simp: fits_def)
  have valid: "valid_request (request_of_lease l)" by (rule assms(3))
  show ?thesis using res found blocked valid by (auto simp: restore_def sameLease_iff)
qed

theorem release_undoes_acquire_witness:
  "\<exists>st' l s. tryAcquire default_config no_reading new_admission (simple_request ''a'' ''w'' Rag_Indexing 8)
       = (st', Inr (Admitted l s)) \<and> snd (release st' l) \<and> adm_active (fst (release st' l)) = []"
proof -
  let ?x = "tryAcquire default_config no_reading new_admission (simple_request ''a'' ''w'' Rag_Indexing 8)"
  have "case snd ?x of Inr (Admitted l s) \<Rightarrow> True | _ \<Rightarrow> False" by code_simp
  then obtain st' l s where x: "?x = (st', Inr (Admitted l s))"
    by (cases ?x) (auto split: sum.splits admission_decision.splits)
  have "ledger_ok new_admission" by (simp add: ledger_ok_def new_admission_def)
  from release_undoes_acquire [OF this x] x show ?thesis by (auto simp: new_admission_def)
qed

theorem restore_is_idempotent_debt_witness:
  "restore new_admission (lease_of_request (simple_request ''a'' ''w'' Rag_Indexing 24)) =
     (new_admission\<lparr>adm_active := [lease_of_request (simple_request ''a'' ''w'' Rag_Indexing 24)]\<rparr>, True)"
proof -
  let ?l = "lease_of_request (simple_request ''a'' ''w'' Rag_Indexing 24)"
  have "valid_request (request_of_lease ?l)" by code_simp
  moreover have "\<not> is_active new_admission (ale_operation ?l)" "ledger_ok new_admission"
    by (simp_all add: is_active_def ledger_ok_def new_admission_def)
  ultimately show ?thesis
    using restore_is_idempotent_debt [OF default_config_ok, of new_admission ?l] by (simp add: new_admission_def)
qed

end
