(* ===== verification/Heavy_Fairness.thy ===== *)
theory Heavy_Fairness
  imports Prelude "HOL-Library.Product_Lexorder" "HOL-Library.Multiset"
begin

text \<open>
  The order in which queued heavy jobs are tried (packages/workspace/src/heavy-job-fairness.ts):
  blocking work first, then aged work in FIFO order, then the rest, with one candidate per
  workspace and pass in the blocking and the background tier. The lemmas give the rounds of the
  rotation, that the order is a permutation, and the fairness of every prefix.
\<close>

section \<open>Keys\<close>

text \<open>
  JavaScript's order of numbers, with NaN above all of them: the comparators never compare NaN,
  since \<open>servedAt\<close> replaces it.
\<close>

fun num_rank :: "jsnum \<Rightarrow> int \<times> rat" where
  "num_rank NegInf = (-1, 0)"
| "num_rank (Num q) = (0, q)"
| "num_rank PosInf = (1, 0)"
| "num_rank NotANumber = (2, 0)"

lemma num_rank_inj: "num_rank a = num_rank b \<longleftrightarrow> a = b"
  by (cases a; cases b) auto

instantiation jsnum :: linorder
begin

definition less_eq_jsnum :: "jsnum \<Rightarrow> jsnum \<Rightarrow> bool" where
  "less_eq_jsnum a b \<longleftrightarrow> num_rank a \<le> num_rank b"

definition less_jsnum :: "jsnum \<Rightarrow> jsnum \<Rightarrow> bool" where
  "less_jsnum a b \<longleftrightarrow> num_rank a < num_rank b"

instance
  by standard (auto simp: less_eq_jsnum_def less_jsnum_def num_rank_inj [symmetric])

end

record fair_candidate =
  fca_operation :: string
  fca_workspace :: string
  fca_requested_at :: iso
  fca_blocking :: bool
  fca_position :: int

record fair_context =
  fcx_now :: int
  fcx_aging :: int
  fcx_served :: "(string \<times> jsnum) list"

record fair_entry =
  fen_operation :: string
  fen_rank :: nat
  fen_aged :: bool

definition requestTime :: "fair_candidate \<Rightarrow> int \<Rightarrow> int" where
  "requestTime c now = (case date_parse (fca_requested_at c) of Some t \<Rightarrow> t | None \<Rightarrow> now)"

text \<open>\<open>compareFifo\<close> is the comparison of these keys; the sort is stable.\<close>

definition fifo_key :: "int \<Rightarrow> fair_candidate \<Rightarrow> int \<times> int \<times> string" where
  "fifo_key now c = (requestTime c now, fca_position c, fca_operation c)"

definition servedAt :: "(string \<times> jsnum) list \<Rightarrow> string \<Rightarrow> jsnum" where
  "servedAt served w = (case map_of served w of
     None \<Rightarrow> NegInf | Some n \<Rightarrow> if n = NotANumber then NegInf else n)"

section \<open>Rotation by workspace\<close>

type_synonym batch = "string \<times> fair_candidate list"

fun add_to_group :: "batch list \<Rightarrow> fair_candidate \<Rightarrow> batch list" where
  "add_to_group [] c = [(fca_workspace c, [c])]"
| "add_to_group ((w, cs) # gs) c =
     (if w = fca_workspace c then (w, cs @ [c]) # gs else (w, cs) # add_to_group gs c)"

definition workspace_groups :: "fair_candidate list \<Rightarrow> batch list" where
  "workspace_groups cs = foldl add_to_group [] cs"

definition batch_key :: "fair_context \<Rightarrow> batch \<Rightarrow> jsnum \<times> (int \<times> int \<times> string) \<times> string" where
  "batch_key ctx b = (servedAt (fcx_served ctx) (fst b), fifo_key (fcx_now ctx) (hd (snd b)), fst b)"

definition workspace_batches :: "fair_context \<Rightarrow> fair_candidate list \<Rightarrow> batch list" where
  "workspace_batches ctx cs = sort_key (batch_key ctx)
     (map (\<lambda>(w, es). (w, sort_key (fifo_key (fcx_now ctx)) es)) (workspace_groups cs))"

text \<open>
  The loop that takes the head of the first batch and puts a batch that still has entries at the
  end. A batch is never empty there.
\<close>

function rotate_batches :: "batch list \<Rightarrow> fair_candidate list" where
  "rotate_batches [] = []"
| "rotate_batches ((w, []) # bs) = rotate_batches bs"
| "rotate_batches ((w, c # cs) # bs) =
     c # rotate_batches (if cs \<noteq> [] then bs @ [(w, cs)] else bs)"
  by pat_completeness auto
termination
  by (relation "measure (\<lambda>bs. length bs + sum_list (map (length \<circ> snd) bs))") auto

definition rotateByWorkspace :: "fair_context \<Rightarrow> fair_candidate list \<Rightarrow> fair_candidate list" where
  "rotateByWorkspace ctx cs = rotate_batches (workspace_batches ctx cs)"

section \<open>The projection\<close>

definition is_aged :: "fair_context \<Rightarrow> fair_candidate \<Rightarrow> bool" where
  "is_aged ctx c \<longleftrightarrow> fcx_now ctx - requestTime c (fcx_now ctx) \<ge> fcx_aging ctx"

definition aged_candidates :: "fair_context \<Rightarrow> fair_candidate list \<Rightarrow> fair_candidate list" where
  "aged_candidates ctx cs =
     sort_key (fifo_key (fcx_now ctx)) (filter (is_aged ctx) (filter (\<lambda>c. \<not> fca_blocking c) cs))"

definition aged_ids :: "fair_context \<Rightarrow> fair_candidate list \<Rightarrow> string list" where
  "aged_ids ctx cs = map fca_operation (aged_candidates ctx cs)"

definition fair_order :: "fair_context \<Rightarrow> fair_candidate list \<Rightarrow> fair_candidate list" where
  "fair_order ctx cs =
     rotateByWorkspace ctx (filter fca_blocking cs)
     @ aged_candidates ctx cs
     @ rotateByWorkspace ctx
         (filter (\<lambda>c. fca_operation c \<notin> set (aged_ids ctx cs)) (filter (\<lambda>c. \<not> fca_blocking c) cs))"

text \<open>A RangeError (\<open>None\<close>) for an aging bound that is not a positive safe integer.\<close>

definition projectHeavyJobFairness :: "fair_candidate list \<Rightarrow> fair_context \<Rightarrow> fair_entry list option" where
  "projectHeavyJobFairness cs ctx =
     (if \<bar>fcx_aging ctx\<bar> > max_safe_integer \<or> fcx_aging ctx < 1 then None
      else Some (map (\<lambda>(i, c). \<lparr>fen_operation = fca_operation c, fen_rank = i,
                fen_aged = (fca_operation c \<in> set (aged_ids ctx cs))\<rparr>)
              (enumerate 0 (fair_order ctx cs))))"

definition orderHeavyJobs :: "fair_candidate list \<Rightarrow> fair_context \<Rightarrow> string list option" where
  "orderHeavyJobs cs ctx = map_option (map fen_operation) (projectHeavyJobFairness cs ctx)"

section \<open>Rounds\<close>

definition batches_ok :: "batch list \<Rightarrow> bool" where
  "batches_ok bs \<longleftrightarrow> distinct (map fst bs) \<and>
     (\<forall>(w, cs) \<in> set bs. cs \<noteq> [] \<and> (\<forall>c \<in> set cs. fca_workspace c = w))"

definition advance :: "batch list \<Rightarrow> batch list" where
  "advance bs = filter (\<lambda>b. snd b \<noteq> []) (map (\<lambda>(w, cs). (w, tl cs)) bs)"

lemma advance_simps [simp]:
  "advance [] = []"
  "advance ((w, cs) # bs) = (if tl cs \<noteq> [] then (w, tl cs) # advance bs else advance bs)"
  by (simp_all add: advance_def)

lemma rotate_batches_part:
  "\<forall>b \<in> set xs. snd b \<noteq> [] \<Longrightarrow>
   rotate_batches (xs @ ys) = map (hd \<circ> snd) xs @ rotate_batches (ys @ advance xs)"
proof (induction xs arbitrary: ys)
  case (Cons b xs)
  then obtain w c cs where b: "b = (w, c # cs)" by (cases b; cases "snd b") auto
  show ?case using Cons by (auto simp: b)
qed simp

text \<open>A pass over the batches takes the head of each, and the next pass has the rest.\<close>

lemma rotate_batches_round:
  "batches_ok bs \<Longrightarrow> rotate_batches bs = map (hd \<circ> snd) bs @ rotate_batches (advance bs)"
  using rotate_batches_part [of bs "[]"] by (auto simp: batches_ok_def split_beta)

lemma advance_fst: "set (map fst (advance bs)) \<subseteq> set (map fst bs)"
  by (force simp: advance_def)

lemma advance_ok: "batches_ok bs \<Longrightarrow> batches_ok (advance bs)"
proof (induction bs)
  case Nil
  then show ?case by (simp add: batches_ok_def)
next
  case (Cons b bs)
  obtain w cs where b: "b = (w, cs)" by (cases b)
  have "batches_ok bs" using Cons.prems by (simp add: batches_ok_def b)
  then have ih: "batches_ok (advance bs)" by (rule Cons.IH)
  have "w \<notin> set (map fst (advance bs))"
    using Cons.prems advance_fst [of bs] by (auto simp: batches_ok_def b)
  moreover have "\<forall>c \<in> set (tl cs). fca_workspace c = w"
    using Cons.prems by (cases cs) (auto simp: batches_ok_def b)
  ultimately show ?case using ih by (simp add: batches_ok_def b split_beta)
qed

lemma mset_rotate_batches: "mset (rotate_batches bs) = (\<Sum>b \<leftarrow> bs. mset (snd b))"
  by (induction bs rule: rotate_batches.induct) auto

abbreviation count_ws :: "string \<Rightarrow> fair_candidate list \<Rightarrow> nat" where
  "count_ws w cs \<equiv> length (filter (\<lambda>c. fca_workspace c = w) cs)"

lemma count_ws_heads:
  assumes "batches_ok bs"
  shows "count_ws w (map (hd \<circ> snd) bs) = (if w \<in> set (map fst bs) then 1 else 0)"
  using assms
proof (induction bs)
  case (Cons b bs)
  obtain u c cs where b: "b = (u, c # cs)"
    using Cons.prems by (cases b; cases "snd b") (auto simp: batches_ok_def)
  have ok: "batches_ok bs" "u \<notin> set (map fst bs)" "fca_workspace c = u"
    using Cons.prems by (auto simp: batches_ok_def b)
  show ?case using Cons.IH [OF ok(1)] ok(2,3) by (auto simp: b comp_def filter_map)
qed simp

lemma set_rotate_batches: "set (rotate_batches bs) = (\<Union>b \<in> set bs. set (snd b))"
  by (induction bs rule: rotate_batches.induct) auto

lemma count_ws_absent:
  assumes "batches_ok bs" "w \<notin> set (map fst bs)"
  shows "count_ws w (rotate_batches bs) = 0"
proof -
  have "fca_workspace c \<noteq> w" if "c \<in> set (rotate_batches bs)" for c
  proof -
    from that obtain u cs where "(u, cs) \<in> set bs" "c \<in> set cs" by (auto simp: set_rotate_batches)
    with assms show ?thesis by (force simp: batches_ok_def)
  qed
  then show ?thesis by (auto simp: filter_empty_conv)
qed

lemma advance_size:
  "\<forall>b \<in> set bs. snd b \<noteq> [] \<Longrightarrow>
   sum_list (map (length \<circ> snd) (advance bs)) + length bs = sum_list (map (length \<circ> snd) bs)"
proof (induction bs)
  case (Cons b bs)
  then obtain w c cs where "b = (w, c # cs)" by (cases b; cases "snd b") auto
  then show ?case using Cons by simp
qed simp

lemma count_ws_take_le: "count_ws w (take n xs) \<le> count_ws w xs"
  by (metis append_take_drop_id filter_append le_add1 length_append)

text \<open>
  In every prefix of a rotation a workspace is at most one candidate ahead of any workspace that
  still has candidates.
\<close>

definition alternates :: "fair_candidate list \<Rightarrow> bool" where
  "alternates out \<longleftrightarrow> (\<forall>n w v. count_ws v (take n out) < count_ws v out \<longrightarrow>
     count_ws w (take n out) \<le> Suc (count_ws v (take n out)))"

lemma rotate_batches_alternates: "batches_ok bs \<Longrightarrow> alternates (rotate_batches bs)"
proof (induction "sum_list (map (length \<circ> snd) bs)" arbitrary: bs rule: less_induct)
  case less
  show ?case
  proof (cases bs)
    case Nil
    then show ?thesis by (simp add: alternates_def)
  next
    case (Cons b bs')
    let ?heads = "map (hd \<circ> snd) bs" and ?rest = "rotate_batches (advance bs)"
    have "\<forall>b \<in> set bs. snd b \<noteq> []" using less.prems by (auto simp: batches_ok_def)
    from advance_size [OF this]
    have "sum_list (map (length \<circ> snd) (advance bs)) < sum_list (map (length \<circ> snd) bs)"
      using Cons by simp
    then have ih: "alternates ?rest" using less.hyps advance_ok [OF less.prems] by blast
    show ?thesis
      unfolding alternates_def rotate_batches_round [OF less.prems]
    proof (intro allI impI)
      fix n w v
      assume lt: "count_ws v (take n (?heads @ ?rest)) < count_ws v (?heads @ ?rest)"
      show "count_ws w (take n (?heads @ ?rest)) \<le> Suc (count_ws v (take n (?heads @ ?rest)))"
      proof (cases "n \<le> length bs")
        case True
        have "count_ws w (take n ?heads) \<le> 1"
          using count_ws_take_le [of w n ?heads] count_ws_heads [OF less.prems, of w]
          by (auto split: if_splits)
        then show ?thesis using True by simp
      next
        case False
        have v: "v \<in> set (map fst bs)"
        proof (rule ccontr)
          assume "v \<notin> set (map fst bs)"
          then have "count_ws v (rotate_batches bs) = 0" using count_ws_absent less.prems by blast
          then show False using lt by (simp add: rotate_batches_round [OF less.prems])
        qed
        have "count_ws w (take (n - length bs) ?rest) \<le> Suc (count_ws v (take (n - length bs) ?rest))"
          using ih lt False v count_ws_heads [OF less.prems, of v] by (simp add: alternates_def)
        then show ?thesis
          using False v count_ws_heads [OF less.prems, of v] count_ws_heads [OF less.prems, of w]
          by (auto split: if_splits)
      qed
    qed
  qed
qed

section \<open>The order\<close>

lemma add_to_group_fsts:
  "map fst (add_to_group gs c) =
     (if fca_workspace c \<in> set (map fst gs) then map fst gs else map fst gs @ [fca_workspace c])"
  by (induction gs) (auto, metis fst_conv image_eqI)

lemma add_to_group_fst:
  "set (map fst (add_to_group gs c)) = insert (fca_workspace c) (set (map fst gs))"
  by (auto simp only: add_to_group_fsts set_append split: if_splits) simp_all

lemma add_to_group_ok: "batches_ok gs \<Longrightarrow> batches_ok (add_to_group gs c)"
proof (induction gs)
  case Nil
  then show ?case by (simp add: batches_ok_def)
next
  case (Cons b gs)
  obtain w cs where b: "b = (w, cs)" by (cases b)
  have ok: "batches_ok gs" using Cons.prems by (simp add: batches_ok_def b)
  then have "batches_ok (add_to_group gs c)" by (rule Cons.IH)
  then show ?case using Cons.prems add_to_group_fst [of gs c] by (auto simp: batches_ok_def b)
qed

lemma add_to_group_mset:
  "(\<Sum>b \<leftarrow> add_to_group gs c. mset (snd b)) = (\<Sum>b \<leftarrow> gs. mset (snd b)) + {#c#}"
  by (induction gs) (auto simp: ac_simps)

lemma workspace_groups_facts:
  "batches_ok (workspace_groups cs) \<and> (\<Sum>b \<leftarrow> workspace_groups cs. mset (snd b)) = mset cs"
proof -
  have "batches_ok (foldl add_to_group gs cs) \<and>
      (\<Sum>b \<leftarrow> foldl add_to_group gs cs. mset (snd b)) = (\<Sum>b \<leftarrow> gs. mset (snd b)) + mset cs"
    if "batches_ok gs" for gs
    using that
    by (induction cs arbitrary: gs) (simp_all add: add_to_group_ok add_to_group_mset)
  from this [of "[]"] show ?thesis by (simp add: workspace_groups_def batches_ok_def)
qed

lemma batches_ok_perm:
  assumes "mset bs = mset bs'" "batches_ok bs'"
  shows "batches_ok bs"
proof -
  have "set bs = set bs'" using assms(1) by (metis set_mset_mset)
  moreover have "distinct (map fst bs) = distinct (map fst bs')"
    using assms(1) by (metis mset_eq_imp_distinct_iff mset_map)
  ultimately show ?thesis using assms(2) by (simp add: batches_ok_def)
qed

lemma workspace_batches_ok: "batches_ok (workspace_batches ctx cs)"
proof -
  let ?bs = "map (\<lambda>(w, es). (w, sort_key (fifo_key (fcx_now ctx)) es)) (workspace_groups cs)"
  have "map fst ?bs = map fst (workspace_groups cs)" by (simp add: split_beta)
  moreover have "distinct (map fst (workspace_groups cs))"
    using workspace_groups_facts [of cs] by (simp add: batches_ok_def)
  ultimately have "distinct (map fst ?bs)" by (simp only:)
  moreover have "es \<noteq> [] \<and> (\<forall>c \<in> set es. fca_workspace c = w)" if in_bs: "(w, es) \<in> set ?bs" for w es
  proof -
    from in_bs obtain es' where "(w, es') \<in> set (workspace_groups cs)" "es = sort_key (fifo_key (fcx_now ctx)) es'"
      by auto
    moreover from this have "es' \<noteq> [] \<and> (\<forall>c \<in> set es'. fca_workspace c = w)"
      using workspace_groups_facts [of cs] by (auto simp: batches_ok_def)
    ultimately show ?thesis by (metis set_empty set_sort)
  qed
  ultimately have "batches_ok ?bs" by (auto simp only: batches_ok_def)
  then show ?thesis
    by (rule batches_ok_perm [rotated]) (simp add: workspace_batches_def)
qed

lemma sum_list_perm:
  fixes f :: "'a \<Rightarrow> 'b multiset"
  assumes "mset xs = mset ys"
  shows "(\<Sum>x \<leftarrow> xs. f x) = (\<Sum>x \<leftarrow> ys. f x)"
  using assms by (simp flip: sum_mset_sum_list)

lemma mset_workspace_batches: "(\<Sum>b \<leftarrow> workspace_batches ctx cs. mset (snd b)) = mset cs"
proof -
  let ?bs = "map (\<lambda>(w, es). (w, sort_key (fifo_key (fcx_now ctx)) es)) (workspace_groups cs)"
  have "(\<Sum>b \<leftarrow> workspace_batches ctx cs. mset (snd b)) = (\<Sum>b \<leftarrow> ?bs. mset (snd b))"
    by (rule sum_list_perm) (simp add: workspace_batches_def)
  also have "\<dots> = (\<Sum>b \<leftarrow> workspace_groups cs. mset (snd b))"
    by (simp add: split_beta comp_def)
  finally show ?thesis using workspace_groups_facts by simp
qed

lemma mset_rotateByWorkspace: "mset (rotateByWorkspace ctx cs) = mset cs"
  by (simp add: rotateByWorkspace_def mset_rotate_batches mset_workspace_batches)

lemma set_rotateByWorkspace [simp]: "set (rotateByWorkspace ctx cs) = set cs"
  by (metis mset_rotateByWorkspace set_mset_mset)

lemma rotateByWorkspace_alternates: "alternates (rotateByWorkspace ctx cs)"
  unfolding rotateByWorkspace_def by (rule rotate_batches_alternates [OF workspace_batches_ok])

text \<open>The first candidate of a rotation is from a workspace that was served longest ago.\<close>

lemma rotateByWorkspace_hd:
  assumes "c \<in> set cs"
  shows "servedAt (fcx_served ctx) (fca_workspace (hd (rotateByWorkspace ctx cs))) \<le> servedAt (fcx_served ctx) (fca_workspace c)"
proof -
  let ?bs = "workspace_batches ctx cs"
  have ok: "batches_ok ?bs" by (rule workspace_batches_ok)
  have "c \<in> set (rotate_batches ?bs)" using assms by (metis rotateByWorkspace_def set_rotateByWorkspace)
  then obtain w es where b: "(w, es) \<in> set ?bs" "c \<in> set es" by (auto simp: set_rotate_batches)
  then have w: "fca_workspace c = w" using ok by (force simp: batches_ok_def)
  obtain u d ds bs where bs: "?bs = (u, d # ds) # bs"
    using ok b(1) by (cases ?bs) (auto simp: batches_ok_def neq_Nil_conv split: prod.splits)
  have d: "fca_workspace d = u" using ok by (simp add: bs batches_ok_def)
  have "sorted (map (batch_key ctx) ?bs)" by (simp add: workspace_batches_def)
  then have "batch_key ctx (u, d # ds) \<le> batch_key ctx (w, es)" using b(1) by (auto simp: bs)
  then have "servedAt (fcx_served ctx) u \<le> servedAt (fcx_served ctx) w"
    by (auto simp: batch_key_def less_eq_prod_def split: if_splits)
  then show ?thesis by (simp add: rotateByWorkspace_def bs w d)
qed

lemma aged_ids_iff:
  assumes "distinct (map fca_operation cs)" "c \<in> set cs"
  shows "fca_operation c \<in> set (aged_ids ctx cs) \<longleftrightarrow> \<not> fca_blocking c \<and> is_aged ctx c"
  using assms distinct_key_unique [of fca_operation cs c]
  by (auto simp: aged_ids_def aged_candidates_def)

lemma mset_fair_order:
  assumes "distinct (map fca_operation cs)"
  shows "mset (fair_order ctx cs) = mset cs"
proof -
  let ?nb = "filter (\<lambda>c. \<not> fca_blocking c) cs"
  have eq: "filter (\<lambda>c. fca_operation c \<notin> set (aged_ids ctx cs)) ?nb = filter (\<lambda>c. \<not> is_aged ctx c) ?nb"
    by (rule filter_cong) (auto simp: aged_ids_iff [OF assms])
  have "mset (fair_order ctx cs) =
      mset (filter fca_blocking cs) + (mset (filter (is_aged ctx) ?nb) + mset (filter (\<lambda>c. \<not> is_aged ctx c) ?nb))"
    by (simp only: fair_order_def eq mset_append mset_rotateByWorkspace aged_candidates_def mset_sort)
  also have "\<dots> = mset (filter fca_blocking cs) + mset ?nb"
    by (simp only: mset_filter multiset_partition [symmetric])
  also have "\<dots> = mset cs"
    by (simp only: mset_filter multiset_partition [symmetric])
  finally show ?thesis .
qed

lemma orderHeavyJobs_eq:
  "1 \<le> fcx_aging ctx \<Longrightarrow> fcx_aging ctx \<le> max_safe_integer \<Longrightarrow>
   orderHeavyJobs cs ctx = Some (map fca_operation (fair_order ctx cs))"
proof -
  assume "1 \<le> fcx_aging ctx" "fcx_aging ctx \<le> max_safe_integer"
  then have "orderHeavyJobs cs ctx = Some (map (fca_operation \<circ> snd) (enumerate 0 (fair_order ctx cs)))"
    by (simp add: orderHeavyJobs_def projectHeavyJobFairness_def split_beta comp_def)
  then show ?thesis by (simp only: map_map [symmetric] map_snd_enumerate)
qed

section \<open>Properties\<close>

text \<open>
  The fair order loses nothing and keeps its tiers. For distinct operations it is a permutation
  of the candidates in which all blocking work precedes all aged work, which precedes the rest;
  aged work is in FIFO order, and the first candidate of the blocking tier comes from a workspace
  served no later than any other workspace with blocking work.
\<close>

theorem fair_order_tiers:
  assumes "distinct (map fca_operation cs)" "1 \<le> fcx_aging ctx" "fcx_aging ctx \<le> max_safe_integer"
  shows "\<exists>blocking aged rest. orderHeavyJobs cs ctx = Some (map fca_operation (blocking @ aged @ rest)) \<and>
     mset (blocking @ aged @ rest) = mset cs \<and>
     (\<forall>c \<in> set blocking. fca_blocking c) \<and>
     (\<forall>c \<in> set aged. \<not> fca_blocking c \<and> is_aged ctx c) \<and>
     (\<forall>c \<in> set rest. \<not> fca_blocking c \<and> \<not> is_aged ctx c) \<and>
     sorted (map (fifo_key (fcx_now ctx)) aged) \<and>
     (\<forall>c \<in> set blocking. servedAt (fcx_served ctx) (fca_workspace (hd blocking))
        \<le> servedAt (fcx_served ctx) (fca_workspace c))"
proof (intro exI conjI)
  let ?b = "rotateByWorkspace ctx (filter fca_blocking cs)"
  let ?a = "aged_candidates ctx cs"
  let ?r = "rotateByWorkspace ctx
         (filter (\<lambda>c. fca_operation c \<notin> set (aged_ids ctx cs)) (filter (\<lambda>c. \<not> fca_blocking c) cs))"
  have parts: "fair_order ctx cs = ?b @ ?a @ ?r" by (simp add: fair_order_def)
  show "orderHeavyJobs cs ctx = Some (map fca_operation (?b @ ?a @ ?r))"
    using orderHeavyJobs_eq [OF assms(2,3), of cs] by (simp only: parts)
  show "mset (?b @ ?a @ ?r) = mset cs" by (rule mset_fair_order [OF assms(1), of ctx, unfolded parts])
  show "\<forall>c \<in> set ?b. fca_blocking c" by simp
  show "\<forall>c \<in> set ?a. \<not> fca_blocking c \<and> is_aged ctx c" by (simp add: aged_candidates_def)
  show "\<forall>c \<in> set ?r. \<not> fca_blocking c \<and> \<not> is_aged ctx c"
    using aged_ids_iff [OF assms(1)] by auto
  show "sorted (map (fifo_key (fcx_now ctx)) ?a)" by (simp add: aged_candidates_def)
  show "\<forall>c \<in> set ?b. servedAt (fcx_served ctx) (fca_workspace (hd ?b)) \<le> servedAt (fcx_served ctx) (fca_workspace c)"
    using rotateByWorkspace_hd [of _ "filter fca_blocking cs" ctx] by simp
qed

text \<open>
  C15: No workspace holds the rotation. In every prefix of the blocking tier, and of the background
  tier, a workspace has been given at most one turn more than any workspace that still waits.
\<close>

theorem rotation_is_fair:
  "alternates (rotateByWorkspace ctx cs) \<and> mset (rotateByWorkspace ctx cs) = mset cs"
  by (simp add: rotateByWorkspace_alternates mset_rotateByWorkspace)

definition sample_candidate :: "string \<Rightarrow> string \<Rightarrow> int \<Rightarrow> bool \<Rightarrow> int \<Rightarrow> fair_candidate" where
  "sample_candidate op ws t b p = \<lparr>fca_operation = op, fca_workspace = ws, fca_requested_at = Instant t,
     fca_blocking = b, fca_position = p\<rparr>"

definition sample_candidates :: "fair_candidate list" where
  "sample_candidates = [sample_candidate ''a'' ''w'' 90 False 1, sample_candidate ''b'' ''w'' 0 False 2,
     sample_candidate ''c'' ''v'' 95 True 3]"

definition sample_context :: fair_context where
  "sample_context = \<lparr>fcx_now = 100, fcx_aging = 50, fcx_served = []\<rparr>"

theorem fair_order_tiers_witness:
  "\<exists>blocking aged rest.
     orderHeavyJobs sample_candidates sample_context = Some (map fca_operation (blocking @ aged @ rest)) \<and>
     mset (blocking @ aged @ rest) = mset sample_candidates"
proof -
  have "distinct (map fca_operation sample_candidates)" by code_simp
  moreover have "1 \<le> fcx_aging sample_context" "fcx_aging sample_context \<le> max_safe_integer"
    unfolding atomize_conj by code_simp
  ultimately show ?thesis using fair_order_tiers [of sample_candidates sample_context] by blast
qed

end
