(* ===== verification/Heavy_Job.thy ===== *)
theory Heavy_Job
  imports Resource_Admission
begin

text \<open>
  The vocabulary of the heavy-job queue (packages/workspace/src/heavy-job-queue.ts, types and the
  interface \<open>HeavyJobQueueStore\<close>): one queued job, the answers of the store, and the store as a
  record of its operations. A store operation takes the time the store's clock shows and returns
  an error or the new state with its answer.
\<close>

record heavy_request =
  hrq_operation :: string
  hrq_workspace :: string
  hrq_session :: "string option"
  hrq_class :: string
  hrq_cost :: jsnum
  hrq_blocking :: "bool option"
  hrq_kind :: "string option"
  hrq_requested_at :: "iso option"

record heavy_entry =
  hje_operation :: string
  hje_workspace :: string
  hje_session :: "string option"
  hje_kind :: string
  hje_class :: string
  hje_cost :: jsnum
  hje_blocking :: bool
  hje_requested_at :: iso

definition DEFAULT_HEAVY_JOB_KIND :: string where
  "DEFAULT_HEAVY_JOB_KIND = ''generic''"

definition normalize_heavy_request :: "heavy_request \<Rightarrow> iso \<Rightarrow> heavy_entry" where
  "normalize_heavy_request r fallback =
     \<lparr>hje_operation = hrq_operation r, hje_workspace = hrq_workspace r, hje_session = hrq_session r,
      hje_kind = (case hrq_kind r of
          Some k \<Rightarrow> if length (js_trim k) > 0 then js_trim k else DEFAULT_HEAVY_JOB_KIND
        | None \<Rightarrow> DEFAULT_HEAVY_JOB_KIND),
      hje_class = hrq_class r, hje_cost = hrq_cost r,
      hje_blocking = (hrq_blocking r = Some True),
      hje_requested_at = (case hrq_requested_at r of Some t \<Rightarrow> t | None \<Rightarrow> fallback)\<rparr>"

datatype full_scope = Full_Queue | Full_Workspace

datatype heavy_claim =
    Claim_Queued (claim_position: int) (claim_depth: int)
  | Claim_Coalesced (claim_depth: int)
  | Claim_Running (claim_depth: int)
  | Claim_Full (claim_depth: int) full_scope

datatype heavy_reattach =
    Reattach_Queued (reattach_position: int) (reattach_depth: int)
  | Reattach_Coalesced (reattach_depth: int)
  | Reattach_Running (reattach_depth: int)
  | Reattach_Missing (reattach_depth: int)

datatype heavy_supersede =
    Sup_Superseded int int
  | Sup_Queued int int
  | Sup_Coalesced int
  | Sup_Full int full_scope

datatype settle_outcome = Settle_Completed | Settle_Failed

datatype recovery_action = Recover_Orphan | Recover_Interrupt | Recover_Expire

datatype heavy_live_state = Live_Queued | Live_Running

record heavy_live =
  hlv_entry :: heavy_entry
  hlv_state :: heavy_live_state
  hlv_position :: int
  hlv_attempt :: int
  hlv_owner :: "string option"
  hlv_started_at :: "iso option"
  hlv_heartbeat_at :: iso

datatype heavy_error = Invalid_Entry string | Heavy_Corrupt string

record 's heavy_store =
  hst_claim :: "iso \<Rightarrow> 's \<Rightarrow> heavy_entry \<Rightarrow> int \<Rightarrow> int option \<Rightarrow> heavy_error + 's \<times> heavy_claim"
  hst_claim_existing :: "iso \<Rightarrow> 's \<Rightarrow> heavy_entry \<Rightarrow> heavy_error + 's \<times> heavy_reattach"
  hst_promote :: "'s \<Rightarrow> string \<Rightarrow> heavy_error + 's \<times> int option"
  hst_cancel :: "'s \<Rightarrow> string \<Rightarrow> iso \<Rightarrow> heavy_error + 's \<times> bool"
  hst_supersede :: "iso \<Rightarrow> 's \<Rightarrow> string \<Rightarrow> heavy_entry \<Rightarrow> int \<Rightarrow> int option \<Rightarrow> heavy_error + 's \<times> heavy_supersede"
  hst_start :: "'s \<Rightarrow> string \<Rightarrow> iso \<Rightarrow> heavy_error + 's \<times> bool"
  hst_settle :: "'s \<Rightarrow> string \<Rightarrow> settle_outcome \<Rightarrow> iso \<Rightarrow> string option \<Rightarrow> heavy_error + 's \<times> bool"
  hst_recover :: "'s \<Rightarrow> string \<Rightarrow> recovery_action \<Rightarrow> iso \<Rightarrow> string option \<Rightarrow> heavy_error + 's \<times> bool"
  hst_depth :: "'s \<Rightarrow> int"
  hst_list_live :: "'s \<Rightarrow> heavy_error + heavy_live list"

end
