(* ===== verification/Heavy_Queue_Store.thy ===== *)
theory Heavy_Queue_Store
  imports Heavy_Job "HOL-Library.Product_Lexorder"
begin

text \<open>
  The durable queue (packages/storage/src/heavy-job-queue-repository.ts): the rows of the table
  \<open>heavy_jobs\<close> and every operation of \<open>SqliteHeavyJobQueueRepository\<close>. An operation takes the
  owner id of its repository; each is one transaction. Columns are typed, so the checks that only
  reject a column of another SQL type have no counterpart.
\<close>

section \<open>Rows\<close>

datatype heavy_state =
    Job_Queued | Job_Running | Job_Completed | Job_Failed | Job_Cancelled | Job_Interrupted | Job_Superseded

record heavy_row =
  hjr_operation :: string
  hjr_workspace :: string
  hjr_session :: "string option"
  hjr_kind :: string
  hjr_class :: string
  hjr_cost :: int
  hjr_blocking :: bool
  hjr_state :: heavy_state
  hjr_position :: int
  hjr_attempt :: int
  hjr_owner :: "string option"
  hjr_requested_at :: iso
  hjr_started_at :: "iso option"
  hjr_heartbeat_at :: iso
  hjr_finished_at :: "iso option"
  hjr_detail :: "string option"

type_synonym heavy_db = "heavy_row list"

definition job_live :: "heavy_state \<Rightarrow> bool" where
  "job_live s \<longleftrightarrow> s = Job_Queued \<or> s = Job_Running"

text \<open>The CHECK constraints of the table.\<close>

definition heavy_row_checks :: "heavy_row \<Rightarrow> bool" where
  "heavy_row_checks r \<longleftrightarrow> hjr_cost r > 0 \<and> hjr_attempt r > 0 \<and>
     ((job_live (hjr_state r) \<and> hjr_finished_at r = None) \<or>
      (\<not> job_live (hjr_state r) \<and> hjr_finished_at r \<noteq> None)) \<and>
     (hjr_state r \<noteq> Job_Running \<or> hjr_started_at r \<noteq> None)"

section \<open>Checked arguments\<close>

definition MAX_IDENTIFIER_CHARS :: nat where "MAX_IDENTIFIER_CHARS = 128"
definition MAX_JOB_KIND_CHARS :: nat where "MAX_JOB_KIND_CHARS = 128"
definition MAX_DETAIL_CHARS :: nat where "MAX_DETAIL_CHARS = 4096"
definition MAX_QUEUED_JOBS :: int where "MAX_QUEUED_JOBS = 4096"

definition require_bounded :: "string \<Rightarrow> string \<Rightarrow> nat \<Rightarrow> heavy_error + unit" where
  "require_bounded v label maximum =
     (if length (js_trim v) = 0 \<or> length v > maximum then Inl (Invalid_Entry label) else Inr ())"

definition require_identifier :: "string \<Rightarrow> string \<Rightarrow> heavy_error + unit" where
  "require_identifier v label = require_bounded v label MAX_IDENTIFIER_CHARS"

definition require_positive_integer :: "jsnum \<Rightarrow> string \<Rightarrow> heavy_error + int" where
  "require_positive_integer n label =
     (if \<not> num_is_safe_integer n \<or> num_int n \<le> 0 then Inl (Invalid_Entry label) else Inr (num_int n))"

definition heavy_validate_iso :: "iso \<Rightarrow> string \<Rightarrow> heavy_error + unit" where
  "heavy_validate_iso t label = (if date_parse t = None then Inl (Invalid_Entry label) else Inr ())"

definition validate_max_queued :: "int \<Rightarrow> heavy_error + unit" where
  "validate_max_queued m =
     (if m < 1 \<or> m > MAX_QUEUED_JOBS then Inl (Invalid_Entry ''maxQueued'') else Inr ())"

definition validate_max_per_workspace :: "int option \<Rightarrow> int \<Rightarrow> heavy_error + unit" where
  "validate_max_per_workspace w m = (case w of
     None \<Rightarrow> Inr ()
   | Some k \<Rightarrow> if k < 1 \<or> k > m then Inl (Invalid_Entry ''maxQueuedPerWorkspace'') else Inr ())"

definition optional_detail :: "string option \<Rightarrow> string option" where
  "optional_detail d = map_option (take MAX_DETAIL_CHARS) d"

text \<open>The checks of \<open>normalizeEntry\<close>; the entry itself is returned unchanged.\<close>

definition normalize_heavy_entry :: "heavy_entry \<Rightarrow> heavy_error + heavy_entry" where
  "normalize_heavy_entry e =
     bind_ok (require_identifier (hje_operation e) ''operationId'') (\<lambda>_.
     bind_ok (require_identifier (hje_workspace e) ''workspaceId'') (\<lambda>_.
     bind_ok (case hje_session e of None \<Rightarrow> Inr () | Some s \<Rightarrow> require_identifier s ''sessionId'') (\<lambda>_.
     bind_ok (require_bounded (hje_kind e) ''jobKind'' MAX_JOB_KIND_CHARS) (\<lambda>_.
     if \<not> isResourceClass (JStr (hje_class e)) then Inl (Invalid_Entry ''resourceClass'')
     else bind_ok (require_positive_integer (hje_cost e) ''cost'') (\<lambda>_.
     bind_ok (heavy_validate_iso (hje_requested_at e) ''requestedAt'') (\<lambda>_. Inr e))))))"

section \<open>Reads\<close>

definition find_row :: "heavy_db \<Rightarrow> string \<Rightarrow> heavy_row option" where
  "find_row db op = row_get (\<lambda>r. hjr_operation r = op) db"

definition queued_depth :: "heavy_db \<Rightarrow> int" where
  "queued_depth db = int (row_changes (\<lambda>r. hjr_state r = Job_Queued) db)"

definition workspace_queued_depth :: "heavy_db \<Rightarrow> string \<Rightarrow> int" where
  "workspace_queued_depth db w = int (row_changes (\<lambda>r. hjr_state r = Job_Queued \<and> hjr_workspace r = w) db)"

text \<open>\<open>COALESCE(MAX(position), 0) + 1\<close> over all rows.\<close>

definition next_position :: "heavy_db \<Rightarrow> int" where
  "next_position db = (case map hjr_position db of [] \<Rightarrow> 0 | p # ps \<Rightarrow> foldl max p ps) + 1"

text \<open>\<open>COALESCE(MIN(position), 0) - 1\<close> over the other queued rows.\<close>

definition head_position :: "heavy_db \<Rightarrow> string \<Rightarrow> int" where
  "head_position db op =
     (case map hjr_position (filter (\<lambda>r. hjr_state r = Job_Queued \<and> hjr_operation r \<noteq> op) db) of
        [] \<Rightarrow> 0 | p # ps \<Rightarrow> foldl min p ps) - 1"

section \<open>Writes\<close>

definition update_rows :: "(heavy_row \<Rightarrow> bool) \<Rightarrow> (heavy_row \<Rightarrow> heavy_row) \<Rightarrow> heavy_db \<Rightarrow> heavy_db \<times> bool" where
  "update_rows P f db = (row_update P f db, row_changes P db = 1)"

definition insert_queued :: "string \<Rightarrow> heavy_entry \<Rightarrow> int \<Rightarrow> iso \<Rightarrow> heavy_db \<Rightarrow> heavy_db" where
  "insert_queued owner e position heartbeat db = db @
     [\<lparr>hjr_operation = hje_operation e, hjr_workspace = hje_workspace e, hjr_session = hje_session e,
       hjr_kind = hje_kind e, hjr_class = hje_class e, hjr_cost = num_int (hje_cost e),
       hjr_blocking = hje_blocking e, hjr_state = Job_Queued, hjr_position = position, hjr_attempt = 1,
       hjr_owner = Some owner, hjr_requested_at = hje_requested_at e, hjr_started_at = None,
       hjr_heartbeat_at = heartbeat, hjr_finished_at = None, hjr_detail = None\<rparr>]"

text \<open>A terminal row becomes a new attempt of the same operation.\<close>

definition requeued :: "string \<Rightarrow> int \<Rightarrow> iso \<Rightarrow> iso \<Rightarrow> heavy_row \<Rightarrow> heavy_row" where
  "requeued owner position requested heartbeat r = r\<lparr>hjr_state := Job_Queued, hjr_position := position,
     hjr_attempt := hjr_attempt r + 1, hjr_owner := Some owner, hjr_requested_at := requested,
     hjr_started_at := None, hjr_heartbeat_at := heartbeat, hjr_finished_at := None, hjr_detail := None\<rparr>"

definition enqueue_row :: "string \<Rightarrow> iso \<Rightarrow> heavy_entry \<Rightarrow> int \<Rightarrow> heavy_row option \<Rightarrow> heavy_db \<Rightarrow> heavy_db" where
  "enqueue_row owner now e position existing db = (case existing of
     Some _ \<Rightarrow> row_update (\<lambda>r. hjr_operation r = hje_operation e)
                (requeued owner position (hje_requested_at e) now) db
   | None \<Rightarrow> insert_queued owner e position now db)"

definition retire_queued :: "string \<Rightarrow> iso \<Rightarrow> heavy_db \<Rightarrow> heavy_db" where
  "retire_queued op finished db =
     row_update (\<lambda>r. hjr_operation r = op \<and> hjr_state r = Job_Queued)
       (\<lambda>r. r\<lparr>hjr_state := Job_Superseded, hjr_finished_at := Some finished, hjr_detail := None\<rparr>) db"

definition adopt_row :: "string \<Rightarrow> iso \<Rightarrow> string \<Rightarrow> heavy_db \<Rightarrow> heavy_db" where
  "adopt_row owner now op db =
     row_update (\<lambda>r. hjr_operation r = op \<and> hjr_state r = Job_Queued)
       (\<lambda>r. r\<lparr>hjr_owner := Some owner, hjr_heartbeat_at := now\<rparr>) db"

definition foreign_owner :: "string \<Rightarrow> heavy_row \<Rightarrow> bool" where
  "foreign_owner owner r \<longleftrightarrow> hjr_owner r \<noteq> None \<and> hjr_owner r \<noteq> Some owner"

section \<open>The operations\<close>

definition heavy_heartbeat :: "string \<Rightarrow> heavy_db \<Rightarrow> iso \<Rightarrow> heavy_error + heavy_db \<times> nat" where
  "heavy_heartbeat owner db t =
     bind_ok (heavy_validate_iso t ''heartbeatAt'') (\<lambda>_.
     let P = (\<lambda>r. hjr_owner r = Some owner \<and> job_live (hjr_state r)) in
     Inr (row_update P (\<lambda>r. r\<lparr>hjr_heartbeat_at := t\<rparr>) db, row_changes P db))"

definition queue_bound ::
  "heavy_db \<Rightarrow> string \<Rightarrow> int \<Rightarrow> int option \<Rightarrow> full_scope option" where
  "queue_bound db workspace max_queued per_workspace =
     (if (case per_workspace of Some k \<Rightarrow> workspace_queued_depth db workspace \<ge> k | None \<Rightarrow> False)
      then Some Full_Workspace
      else if queued_depth db \<ge> max_queued then Some Full_Queue else None)"

definition heavy_claim_op ::
  "string \<Rightarrow> iso \<Rightarrow> heavy_db \<Rightarrow> heavy_entry \<Rightarrow> int \<Rightarrow> int option \<Rightarrow> heavy_error + heavy_db \<times> heavy_claim" where
  "heavy_claim_op owner now db entry max_queued per_workspace =
     bind_ok (normalize_heavy_entry entry) (\<lambda>e.
     bind_ok (validate_max_queued max_queued) (\<lambda>_.
     bind_ok (validate_max_per_workspace per_workspace max_queued) (\<lambda>_.
     let existing = find_row db (hje_operation e) in
     case (case existing of Some r \<Rightarrow> if job_live (hjr_state r) then Some r else None | None \<Rightarrow> None) of
       Some r \<Rightarrow>
         if hjr_state r = Job_Running then Inr (db, Claim_Running (queued_depth db))
         else if foreign_owner owner r then Inr (db, Claim_Coalesced (queued_depth db))
         else (let db' = adopt_row owner now (hje_operation e) db in
               Inr (db', Claim_Queued (hjr_position r) (queued_depth db')))
     | None \<Rightarrow>
         (case queue_bound db (hje_workspace e) max_queued per_workspace of
            Some scope \<Rightarrow> Inr (db, Claim_Full (queued_depth db) scope)
          | None \<Rightarrow>
              (let position = next_position db;
                   db' = enqueue_row owner now e position existing db in
               Inr (db', Claim_Queued position (queued_depth db')))))))"

definition heavy_claim_existing ::
  "string \<Rightarrow> iso \<Rightarrow> heavy_db \<Rightarrow> heavy_entry \<Rightarrow> heavy_error + heavy_db \<times> heavy_reattach" where
  "heavy_claim_existing owner now db entry =
     bind_ok (normalize_heavy_entry entry) (\<lambda>e.
     case find_row db (hje_operation e) of
       None \<Rightarrow> Inr (db, Reattach_Missing (queued_depth db))
     | Some r \<Rightarrow>
         if \<not> job_live (hjr_state r) then Inr (db, Reattach_Missing (queued_depth db))
         else if hjr_state r = Job_Running then Inr (db, Reattach_Running (queued_depth db))
         else if foreign_owner owner r then Inr (db, Reattach_Coalesced (queued_depth db))
         else (let db' = adopt_row owner now (hje_operation e) db in
               Inr (db', Reattach_Queued (hjr_position r) (queued_depth db'))))"

definition heavy_promote :: "string \<Rightarrow> heavy_db \<Rightarrow> string \<Rightarrow> heavy_error + heavy_db \<times> int option" where
  "heavy_promote owner db op =
     bind_ok (require_identifier op ''operationId'') (\<lambda>_.
     case find_row db op of
       None \<Rightarrow> Inr (db, None)
     | Some r \<Rightarrow>
         if hjr_state r \<noteq> Job_Queued then Inr (db, None)
         else if foreign_owner owner r then Inr (db, None)
         else (let position = head_position db op in
               Inr (row_update (\<lambda>r. hjr_operation r = op \<and> hjr_state r = Job_Queued)
                      (\<lambda>r. r\<lparr>hjr_position := position\<rparr>) db, Some position)))"

definition heavy_cancel :: "string \<Rightarrow> heavy_db \<Rightarrow> string \<Rightarrow> iso \<Rightarrow> heavy_error + heavy_db \<times> bool" where
  "heavy_cancel owner db op finished =
     bind_ok (require_identifier op ''operationId'') (\<lambda>_.
     bind_ok (heavy_validate_iso finished ''finishedAt'') (\<lambda>_.
     Inr (update_rows (\<lambda>r. hjr_operation r = op \<and> hjr_state r = Job_Queued \<and>
              (hjr_owner r = Some owner \<or> hjr_owner r = None))
            (\<lambda>r. r\<lparr>hjr_state := Job_Cancelled, hjr_finished_at := Some finished, hjr_detail := None\<rparr>) db)))"

definition heavy_supersede_op ::
  "string \<Rightarrow> iso \<Rightarrow> heavy_db \<Rightarrow> string \<Rightarrow> heavy_entry \<Rightarrow> int \<Rightarrow> int option \<Rightarrow>
   heavy_error + heavy_db \<times> heavy_supersede" where
  "heavy_supersede_op owner now db stale_op entry max_queued per_workspace =
     bind_ok (require_identifier stale_op ''staleOperationId'') (\<lambda>_.
     bind_ok (normalize_heavy_entry entry) (\<lambda>e.
     bind_ok (validate_max_queued max_queued) (\<lambda>_.
     bind_ok (validate_max_per_workspace per_workspace max_queued) (\<lambda>_.
     let replacement = find_row db (hje_operation e);
         stale = (case find_row db stale_op of
            Some r \<Rightarrow> if hjr_state r = Job_Queued \<and> \<not> foreign_owner owner r then Some r else None
          | None \<Rightarrow> None) in
     if (case replacement of Some r \<Rightarrow> job_live (hjr_state r) | None \<Rightarrow> False) then
       (let db' = (if stale \<noteq> None then retire_queued stale_op now db else db) in
        Inr (db', Sup_Coalesced (queued_depth db')))
     else (case stale of
       None \<Rightarrow>
         (case queue_bound db (hje_workspace e) max_queued per_workspace of
            Some scope \<Rightarrow> Inr (db, Sup_Full (queued_depth db) scope)
          | None \<Rightarrow>
              (let position = next_position db;
                   db' = enqueue_row owner now e position replacement db in
               Inr (db', Sup_Queued position (queued_depth db'))))
     | Some r \<Rightarrow>
         (let db' = enqueue_row owner now e (hjr_position r) replacement (retire_queued stale_op now db) in
          Inr (db', Sup_Superseded (hjr_position r) (queued_depth db'))))))))"

definition heavy_start :: "string \<Rightarrow> heavy_db \<Rightarrow> string \<Rightarrow> iso \<Rightarrow> heavy_error + heavy_db \<times> bool" where
  "heavy_start owner db op started =
     bind_ok (require_identifier op ''operationId'') (\<lambda>_.
     bind_ok (heavy_validate_iso started ''startedAt'') (\<lambda>_.
     Inr (update_rows (\<lambda>r. hjr_operation r = op \<and> hjr_state r = Job_Queued \<and> hjr_owner r = Some owner)
            (\<lambda>r. r\<lparr>hjr_state := Job_Running, hjr_started_at := Some started, hjr_heartbeat_at := started\<rparr>) db)))"

fun outcome_state :: "settle_outcome \<Rightarrow> heavy_state" where
  "outcome_state Settle_Completed = Job_Completed"
| "outcome_state Settle_Failed = Job_Failed"

definition heavy_settle ::
  "string \<Rightarrow> heavy_db \<Rightarrow> string \<Rightarrow> settle_outcome \<Rightarrow> iso \<Rightarrow> string option \<Rightarrow> heavy_error + heavy_db \<times> bool" where
  "heavy_settle owner db op outcome finished detail =
     bind_ok (require_identifier op ''operationId'') (\<lambda>_.
     bind_ok (heavy_validate_iso finished ''finishedAt'') (\<lambda>_.
     Inr (update_rows (\<lambda>r. hjr_operation r = op \<and> hjr_state r = Job_Running \<and> hjr_owner r = Some owner)
            (\<lambda>r. r\<lparr>hjr_state := outcome_state outcome, hjr_finished_at := Some finished,
                    hjr_detail := optional_detail detail\<rparr>) db)))"

definition heavy_recover ::
  "heavy_db \<Rightarrow> string \<Rightarrow> recovery_action \<Rightarrow> iso \<Rightarrow> string option \<Rightarrow> heavy_error + heavy_db \<times> bool" where
  "heavy_recover db op action t detail =
     bind_ok (require_identifier op ''operationId'') (\<lambda>_.
     bind_ok (heavy_validate_iso t ''at'') (\<lambda>_.
     Inr (case action of
       Recover_Orphan \<Rightarrow> update_rows (\<lambda>r. hjr_operation r = op \<and> hjr_state r = Job_Queued)
         (\<lambda>r. r\<lparr>hjr_owner := None, hjr_heartbeat_at := t\<rparr>) db
     | Recover_Interrupt \<Rightarrow> update_rows (\<lambda>r. hjr_operation r = op \<and> hjr_state r = Job_Running)
         (\<lambda>r. r\<lparr>hjr_state := Job_Interrupted, hjr_finished_at := Some t, hjr_detail := optional_detail detail\<rparr>) db
     | Recover_Expire \<Rightarrow> update_rows (\<lambda>r. hjr_operation r = op \<and> hjr_state r = Job_Queued)
         (\<lambda>r. r\<lparr>hjr_state := Job_Cancelled, hjr_finished_at := Some t, hjr_detail := optional_detail detail\<rparr>) db)))"

text \<open>The live rows, queued ones first, by position and operation.\<close>

definition heavy_entry_of :: "heavy_row \<Rightarrow> heavy_error + heavy_entry" where
  "heavy_entry_of r =
     (if \<not> isResourceClass (JStr (hjr_class r)) then Inl (Heavy_Corrupt ''resourceClass'')
      else if \<bar>hjr_position r\<bar> > max_safe_integer \<or> \<bar>hjr_attempt r\<bar> > max_safe_integer \<or> hjr_attempt r < 1
      then Inl (Heavy_Corrupt ''counters'')
      else if \<bar>hjr_cost r\<bar> > max_safe_integer \<or> hjr_cost r < 1 then Inl (Heavy_Corrupt ''cost'')
      else Inr \<lparr>hje_operation = hjr_operation r, hje_workspace = hjr_workspace r, hje_session = hjr_session r,
        hje_kind = hjr_kind r, hje_class = hjr_class r, hje_cost = int_num (hjr_cost r),
        hje_blocking = hjr_blocking r, hje_requested_at = hjr_requested_at r\<rparr>)"

definition heavy_live_of :: "heavy_row \<Rightarrow> heavy_error + heavy_live" where
  "heavy_live_of r =
     (if \<not> job_live (hjr_state r) then Inl (Heavy_Corrupt ''not live'')
      else bind_ok (heavy_entry_of r) (\<lambda>e.
        if hjr_state r = Job_Running \<and> hjr_started_at r = None then Inl (Heavy_Corrupt ''no start time'')
        else Inr \<lparr>hlv_entry = e,
          hlv_state = (if hjr_state r = Job_Running then Live_Running else Live_Queued),
          hlv_position = hjr_position r, hlv_attempt = hjr_attempt r, hlv_owner = hjr_owner r,
          hlv_started_at = hjr_started_at r, hlv_heartbeat_at = hjr_heartbeat_at r\<rparr>))"

definition live_rows :: "heavy_db \<Rightarrow> heavy_row list" where
  "live_rows db = sort_key (\<lambda>r. (if hjr_state r = Job_Queued then 0 else 1 :: nat, hjr_position r, hjr_operation r))
     (filter (\<lambda>r. job_live (hjr_state r)) db)"

definition heavy_list_live :: "heavy_db \<Rightarrow> heavy_error + heavy_live list" where
  "heavy_list_live db = map_ok heavy_live_of (live_rows db)"

text \<open>
  Terminal outcomes since an instant. \<open>julianday\<close> is SQLite's reading of a timestamp; a text it
  does not understand is NULL and never counted.
\<close>

definition heavy_outcomes ::
  "(iso \<Rightarrow> rat option) \<Rightarrow> heavy_db \<Rightarrow> iso \<Rightarrow> heavy_error + (heavy_state \<Rightarrow> nat)" where
  "heavy_outcomes julianday db since =
     bind_ok (heavy_validate_iso since ''since'') (\<lambda>_.
     Inr (\<lambda>s. if job_live s then 0 else row_changes (\<lambda>r. hjr_state r = s \<and>
        (case (hjr_finished_at r, julianday since) of
           (Some t, Some b) \<Rightarrow> (case julianday t of Some a \<Rightarrow> a \<ge> b | None \<Rightarrow> False)
         | _ \<Rightarrow> False)) db))"

text \<open>The repository of one owner as an implementation of the store interface.\<close>

definition sqlite_heavy_store :: "string \<Rightarrow> heavy_db heavy_store" where
  "sqlite_heavy_store owner =
     \<lparr>hst_claim = heavy_claim_op owner, hst_claim_existing = heavy_claim_existing owner,
      hst_promote = heavy_promote owner, hst_cancel = heavy_cancel owner,
      hst_supersede = heavy_supersede_op owner, hst_start = heavy_start owner,
      hst_settle = heavy_settle owner, hst_recover = heavy_recover,
      hst_depth = queued_depth, hst_list_live = heavy_list_live\<rparr>"

end
