(* ===== verification/Heavy_Queue_Protocol.thy ===== *)
theory Heavy_Queue_Protocol
  imports Heavy_Queue_Store
begin

text \<open>
  The life of a row of the durable queue: the transitions an owner may make, the transitions of
  restart recovery, and that every operation of \<open>Heavy_Queue_Store\<close> makes one transition of each
  row and inserts at most one fresh row. The invariants and the progress of runs follow.
\<close>

section \<open>Transitions of a row\<close>

inductive owner_trans :: "string \<Rightarrow> heavy_row \<Rightarrow> heavy_row \<Rightarrow> bool" for me :: string where
  stays: "owner_trans me r r"
| adopts: "hjr_state r = Job_Queued \<Longrightarrow> \<not> foreign_owner me r \<Longrightarrow>
    owner_trans me r (r\<lparr>hjr_owner := Some me, hjr_heartbeat_at := t\<rparr>)"
| beats: "job_live (hjr_state r) \<Longrightarrow> hjr_owner r = Some me \<Longrightarrow>
    owner_trans me r (r\<lparr>hjr_heartbeat_at := t\<rparr>)"
| starts: "hjr_state r = Job_Queued \<Longrightarrow> hjr_owner r = Some me \<Longrightarrow>
    owner_trans me r (r\<lparr>hjr_state := Job_Running, hjr_started_at := Some t, hjr_heartbeat_at := t\<rparr>)"
| settles: "hjr_state r = Job_Running \<Longrightarrow> hjr_owner r = Some me \<Longrightarrow>
    owner_trans me r (r\<lparr>hjr_state := outcome_state out, hjr_finished_at := Some t, hjr_detail := d\<rparr>)"
| moves: "hjr_state r = Job_Queued \<Longrightarrow> \<not> foreign_owner me r \<Longrightarrow>
    owner_trans me r (r\<lparr>hjr_position := p\<rparr>)"
| cancels: "hjr_state r = Job_Queued \<Longrightarrow> \<not> foreign_owner me r \<Longrightarrow>
    owner_trans me r (r\<lparr>hjr_state := Job_Cancelled, hjr_finished_at := Some t, hjr_detail := None\<rparr>)"
| supersedes: "hjr_state r = Job_Queued \<Longrightarrow> \<not> foreign_owner me r \<Longrightarrow>
    owner_trans me r (r\<lparr>hjr_state := Job_Superseded, hjr_finished_at := Some t, hjr_detail := None\<rparr>)"
| requeues: "\<not> job_live (hjr_state r) \<Longrightarrow> owner_trans me r (requeued me p q t r)"

inductive recovery_trans :: "heavy_row \<Rightarrow> heavy_row \<Rightarrow> bool" where
  kept: "recovery_trans r r"
| orphans: "hjr_state r = Job_Queued \<Longrightarrow> recovery_trans r (r\<lparr>hjr_owner := None, hjr_heartbeat_at := t\<rparr>)"
| interrupts: "hjr_state r = Job_Running \<Longrightarrow>
    recovery_trans r (r\<lparr>hjr_state := Job_Interrupted, hjr_finished_at := Some t, hjr_detail := d\<rparr>)"
| expires: "hjr_state r = Job_Queued \<Longrightarrow>
    recovery_trans r (r\<lparr>hjr_state := Job_Cancelled, hjr_finished_at := Some t, hjr_detail := d\<rparr>)"

definition fresh_row :: "heavy_db \<Rightarrow> heavy_row \<Rightarrow> bool" where
  "fresh_row db r \<longleftrightarrow> (\<forall>x \<in> set db. hjr_operation x \<noteq> hjr_operation r) \<and> hjr_state r = Job_Queued \<and>
     hjr_attempt r = 1 \<and> heavy_row_checks r"

definition evolves :: "(heavy_row \<Rightarrow> heavy_row \<Rightarrow> bool) \<Rightarrow> heavy_db \<Rightarrow> heavy_db \<Rightarrow> bool" where
  "evolves T db db' \<longleftrightarrow> (\<exists>f new. db' = map f db @ new \<and> (\<forall>r \<in> set db. T r (f r)) \<and>
     (new = [] \<or> (\<exists>r. new = [r] \<and> fresh_row db r)))"

definition heavy_db_ok :: "heavy_db \<Rightarrow> bool" where
  "heavy_db_ok db \<longleftrightarrow> distinct (map hjr_operation db) \<and> (\<forall>r \<in> set db. heavy_row_checks r)"

section \<open>The operations refine the transitions\<close>

lemma evolves_same [intro]: "(\<And>r. T r r) \<Longrightarrow> evolves T db db"
  unfolding evolves_def by (intro exI [of _ id] exI [of _ "[]"]) simp

lemma evolves_update:
  "(\<And>r. T r r) \<Longrightarrow> (\<And>r. r \<in> set db \<Longrightarrow> P r \<Longrightarrow> T r (f r)) \<Longrightarrow> evolves T db (row_update P f db)"
proof -
  assume refl: "\<And>r. T r r" and upd: "\<And>r. r \<in> set db \<Longrightarrow> P r \<Longrightarrow> T r (f r)"
  have "\<forall>r \<in> set db. T r (if P r then f r else r)"
  proof
    fix r assume "r \<in> set db"
    then show "T r (if P r then f r else r)" by (cases "P r") (simp_all only: if_True if_False refl upd)
  qed
  moreover have "row_update P f db = map (\<lambda>r. if P r then f r else r) db @ []"
    by (simp add: row_update_def)
  ultimately show ?thesis unfolding evolves_def by blast
qed

lemma find_row_SomeD: "find_row db op = Some r \<Longrightarrow> r \<in> set db \<and> hjr_operation r = op"
  by (auto simp: find_row_def dest: row_get_SomeD)

lemma find_row_None: "find_row db op = None \<Longrightarrow> r \<in> set db \<Longrightarrow> hjr_operation r \<noteq> op"
  by (auto simp: find_row_def row_get_None_iff)

lemma heavy_row_unique:
  "heavy_db_ok db \<Longrightarrow> r \<in> set db \<Longrightarrow> r' \<in> set db \<Longrightarrow> hjr_operation r = hjr_operation r' \<Longrightarrow> r = r'"
  unfolding heavy_db_ok_def by (rule distinct_key_unique [of hjr_operation db]) simp_all

lemma find_row_iff:
  "heavy_db_ok db \<Longrightarrow> find_row db op = Some r \<longleftrightarrow> r \<in> set db \<and> hjr_operation r = op"
  using row_get_key [of hjr_operation db r] find_row_SomeD [of db op r]
  by (auto simp: find_row_def heavy_db_ok_def)

lemma normalize_heavy_entry_ok:
  "normalize_heavy_entry e = Inr e' \<Longrightarrow> e' = e \<and> 0 < num_int (hje_cost e)"
  by (auto simp: normalize_heavy_entry_def require_positive_integer_def bind_ok_Inr_iff split: if_splits)

lemma adopt_row_evolves:
  assumes "heavy_db_ok db" "find_row db op = Some r" "\<not> foreign_owner me r"
  shows "evolves (owner_trans me) db (adopt_row me now op db)"
  unfolding adopt_row_def
proof (rule evolves_update)
  fix x assume "x \<in> set db" "hjr_operation x = op \<and> hjr_state x = Job_Queued"
  then have "x = r" using assms(1,2) by (metis find_row_SomeD heavy_row_unique)
  then show "owner_trans me x (x\<lparr>hjr_owner := Some me, hjr_heartbeat_at := now\<rparr>)"
    using assms(3) \<open>hjr_operation x = op \<and> hjr_state x = Job_Queued\<close> by (auto intro: adopts)
qed (rule stays)

text \<open>Inserting or requeueing an operation whose row is not live.\<close>

lemma enqueue_row_shape:
  assumes "heavy_db_ok db" "0 < num_int (hje_cost e)"
    and dead: "\<forall>r. find_row db (hje_operation e) = Some r \<longrightarrow> \<not> job_live (hjr_state r)"
  obtains (requeue) "find_row db (hje_operation e) \<noteq> None"
      "\<And>db0. enqueue_row me now e p (find_row db (hje_operation e)) db0 =
         row_update (\<lambda>r. hjr_operation r = hje_operation e) (requeued me p (hje_requested_at e) now) db0"
      "\<forall>r \<in> set db. hjr_operation r = hje_operation e \<longrightarrow> \<not> job_live (hjr_state r)"
  | (insert) r where "\<And>db0. enqueue_row me now e p (find_row db (hje_operation e)) db0 = db0 @ [r]"
      "fresh_row db r" "hjr_operation r = hje_operation e" "find_row db (hje_operation e) = None"
proof (cases "find_row db (hje_operation e)")
  case (Some r)
  have "\<forall>x \<in> set db. hjr_operation x = hje_operation e \<longrightarrow> \<not> job_live (hjr_state x)"
    using find_row_iff [OF assms(1), of "hje_operation e"] dead by blast
  with Some show thesis by (intro requeue) (simp_all add: enqueue_row_def)
next
  case None
  then show thesis
    using assms(2) find_row_None [OF None]
    by (intro insert) (auto simp: enqueue_row_def insert_queued_def fresh_row_def heavy_row_checks_def job_live_def)
qed

lemma enqueue_row_evolves:
  assumes "heavy_db_ok db" "0 < num_int (hje_cost e)"
    and "\<forall>r. find_row db (hje_operation e) = Some r \<longrightarrow> \<not> job_live (hjr_state r)"
  shows "evolves (owner_trans me) db (enqueue_row me now e p (find_row db (hje_operation e)) db)"
proof (rule enqueue_row_shape [OF assms, of me now p])
  assume h: "\<And>db0. enqueue_row me now e p (find_row db (hje_operation e)) db0 =
         row_update (\<lambda>r. hjr_operation r = hje_operation e) (requeued me p (hje_requested_at e) now) db0"
      "\<forall>r \<in> set db. hjr_operation r = hje_operation e \<longrightarrow> \<not> job_live (hjr_state r)"
  show ?thesis unfolding h(1) by (rule evolves_update) (use h(2) in \<open>auto intro: stays requeues\<close>)
next
  fix r assume h: "\<And>db0. enqueue_row me now e p (find_row db (hje_operation e)) db0 = db0 @ [r]" "fresh_row db r"
  show ?thesis unfolding h(1) evolves_def
    by (intro exI [of _ id] exI [of _ "[r]"]) (use h(2) in \<open>auto intro: stays\<close>)
qed

lemma retire_enqueue_evolves:
  assumes ok: "heavy_db_ok db" and "0 < num_int (hje_cost e)"
    and dead: "\<forall>r. find_row db (hje_operation e) = Some r \<longrightarrow> \<not> job_live (hjr_state r)"
    and stale: "find_row db stale_op = Some s" "hjr_state s = Job_Queued" "\<not> foreign_owner me s"
  shows "evolves (owner_trans me) db
     (enqueue_row me now e p (find_row db (hje_operation e)) (retire_queued stale_op t db))"
proof -
  let ?P = "\<lambda>r. hjr_operation r = stale_op \<and> hjr_state r = Job_Queued"
  let ?g = "\<lambda>r. r\<lparr>hjr_state := Job_Superseded, hjr_finished_at := Some t, hjr_detail := None\<rparr>"
  have uniq: "x = s" if "x \<in> set db" "hjr_operation x = stale_op" for x
    using that stale(1) ok by (metis find_row_SomeD heavy_row_unique)
  have retire: "owner_trans me x (?g x)" if "x \<in> set db" "?P x" for x
    using uniq [of x] that stale(3) by (auto intro: supersedes)
  show ?thesis
  proof (rule enqueue_row_shape [OF assms(1-3), of me now p])
    assume h: "\<And>db0. enqueue_row me now e p (find_row db (hje_operation e)) db0 =
         row_update (\<lambda>r. hjr_operation r = hje_operation e) (requeued me p (hje_requested_at e) now) db0"
      "\<forall>r \<in> set db. hjr_operation r = hje_operation e \<longrightarrow> \<not> job_live (hjr_state r)"
    have sop: "stale_op \<noteq> hje_operation e"
      using h(2) stale find_row_SomeD [OF stale(1)] by (auto simp: job_live_def)
    have "row_update (\<lambda>r. hjr_operation r = hje_operation e) (requeued me p (hje_requested_at e) now)
         (retire_queued stale_op t db) =
       map (\<lambda>r. if hjr_operation r = hje_operation e then requeued me p (hje_requested_at e) now r
                else if ?P r then ?g r else r) db"
      using sop by (auto simp: row_update_def retire_queued_def)
    then show ?thesis
      unfolding h(1) evolves_def using h(2) retire
      by (intro exI [of _ "\<lambda>r. if hjr_operation r = hje_operation e then requeued me p (hje_requested_at e) now r
                else if ?P r then ?g r else r"] exI [of _ "[]"]) (auto intro: stays requeues)
  next
    fix r assume h: "\<And>db0. enqueue_row me now e p (find_row db (hje_operation e)) db0 = db0 @ [r]" "fresh_row db r"
    show ?thesis unfolding h(1) evolves_def retire_queued_def row_update_def using h(2) retire
      by (intro exI [of _ "\<lambda>r. if ?P r then ?g r else r"] exI [of _ "[r]"]) (auto intro: stays)
  qed
qed

section \<open>Each operation\<close>

lemma claim_evolves:
  assumes ok: "heavy_db_ok db" and res: "heavy_claim_op me now db entry m w = Inr (db', out)"
  shows "evolves (owner_trans me) db db'"
proof -
  obtain e where e: "normalize_heavy_entry entry = Inr e" using res by (auto simp: heavy_claim_op_def elim: bind_okE)
  have pos: "0 < num_int (hje_cost e)" using normalize_heavy_entry_ok [OF e] by simp
  show ?thesis
  proof (cases "\<exists>r. find_row db (hje_operation e) = Some r \<and> job_live (hjr_state r)")
    case True
    then obtain r where r: "find_row db (hje_operation e) = Some r" "job_live (hjr_state r)" by blast
    then have "db' = db \<or> (db' = adopt_row me now (hje_operation e) db \<and> \<not> foreign_owner me r)"
      using res e by (auto simp: heavy_claim_op_def Let_def bind_ok_Inr_iff split: if_splits)
    then show ?thesis using adopt_row_evolves [OF ok r(1)] by (auto intro: stays)
  next
    case False
    then have "(case find_row db (hje_operation e) of Some r \<Rightarrow> if job_live (hjr_state r) then Some r else None | None \<Rightarrow> None) = None"
      by (auto split: option.splits)
    then have "db' = db \<or> db' = enqueue_row me now e (next_position db) (find_row db (hje_operation e)) db"
      using res e by (auto simp: heavy_claim_op_def Let_def bind_ok_Inr_iff split: option.splits)
    then show ?thesis using enqueue_row_evolves [OF ok pos] False by (auto intro: stays)
  qed
qed

lemma claim_existing_evolves:
  assumes ok: "heavy_db_ok db" and res: "heavy_claim_existing me now db entry = Inr (db', out)"
  shows "evolves (owner_trans me) db db'"
proof -
  obtain e where e: "normalize_heavy_entry entry = Inr e"
    using res by (auto simp: heavy_claim_existing_def elim: bind_okE)
  then have "db' = db \<or> (\<exists>r. find_row db (hje_operation e) = Some r \<and> \<not> foreign_owner me r \<and>
      db' = adopt_row me now (hje_operation e) db)"
    using res by (auto simp: heavy_claim_existing_def Let_def split: option.splits if_splits)
  then show ?thesis using adopt_row_evolves [OF ok] by (auto intro: stays)
qed

lemma promote_evolves:
  assumes ok: "heavy_db_ok db" and res: "heavy_promote me db op = Inr (db', out)"
  shows "evolves (owner_trans me) db db'"
proof -
  have "db' = db \<or> (\<exists>r. find_row db op = Some r \<and> \<not> foreign_owner me r \<and>
      db' = row_update (\<lambda>r. hjr_operation r = op \<and> hjr_state r = Job_Queued)
                      (\<lambda>r. r\<lparr>hjr_position := head_position db op\<rparr>) db)"
    using res by (auto simp: heavy_promote_def bind_ok_Inr_iff Let_def split: option.splits if_splits)
  then show ?thesis
  proof (elim disjE exE conjE)
    fix r assume r: "find_row db op = Some r" "\<not> foreign_owner me r" and
      db': "db' = row_update (\<lambda>r. hjr_operation r = op \<and> hjr_state r = Job_Queued)
                      (\<lambda>r. r\<lparr>hjr_position := head_position db op\<rparr>) db"
    have "x = r" if "x \<in> set db" "hjr_operation x = op" for x
      using that r(1) ok by (metis find_row_SomeD heavy_row_unique)
    then show ?thesis unfolding db' using r(2)
      by (intro evolves_update) (auto intro: stays moves)
  qed (auto intro: stays)
qed

lemma cancel_evolves:
  "heavy_cancel me db op t = Inr (db', out) \<Longrightarrow> evolves (owner_trans me) db db'"
  by (auto simp: heavy_cancel_def update_rows_def bind_ok_Inr_iff foreign_owner_def
      intro!: evolves_update stays cancels)

lemma start_evolves:
  "heavy_start me db op t = Inr (db', out) \<Longrightarrow> evolves (owner_trans me) db db'"
  by (auto simp: heavy_start_def update_rows_def bind_ok_Inr_iff intro!: evolves_update stays starts)

lemma settle_evolves:
  "heavy_settle me db op out t d = Inr (db', b) \<Longrightarrow> evolves (owner_trans me) db db'"
  by (auto simp: heavy_settle_def update_rows_def bind_ok_Inr_iff intro!: evolves_update stays settles)

lemma heartbeat_evolves:
  "heavy_heartbeat me db t = Inr (db', n) \<Longrightarrow> evolves (owner_trans me) db db'"
  by (auto simp: heavy_heartbeat_def Let_def bind_ok_Inr_iff intro!: evolves_update stays beats)

lemma recover_evolves:
  "heavy_recover db op act t d = Inr (db', b) \<Longrightarrow> evolves recovery_trans db db'"
  by (cases act) (auto simp: heavy_recover_def update_rows_def bind_ok_Inr_iff
      intro!: evolves_update kept orphans interrupts expires)

lemma retire_evolves:
  assumes ok: "heavy_db_ok db" and s: "find_row db op = Some s" "\<not> foreign_owner me s"
  shows "evolves (owner_trans me) db (retire_queued op t db)"
  unfolding retire_queued_def
proof (rule evolves_update)
  fix x assume "x \<in> set db" "hjr_operation x = op \<and> hjr_state x = Job_Queued"
  moreover from this have "x = s" using s(1) ok by (metis find_row_SomeD heavy_row_unique)
  ultimately show "owner_trans me x (x\<lparr>hjr_state := Job_Superseded, hjr_finished_at := Some t, hjr_detail := None\<rparr>)"
    using s(2) by (auto intro: supersedes)
qed (rule stays)

lemma supersede_evolves:
  assumes ok: "heavy_db_ok db" and res: "heavy_supersede_op me now db stale_op entry m w = Inr (db', out)"
  shows "evolves (owner_trans me) db db'"
proof -
  obtain e where e: "normalize_heavy_entry entry = Inr e"
    using res by (auto simp: heavy_supersede_op_def bind_ok_Inr_iff)
  have pos: "0 < num_int (hje_cost e)" using normalize_heavy_entry_ok [OF e] by simp
  let ?stale = "case find_row db stale_op of
            Some r \<Rightarrow> if hjr_state r = Job_Queued \<and> \<not> foreign_owner me r then Some r else None
          | None \<Rightarrow> None"
  have stale: "find_row db stale_op = Some s \<and> hjr_state s = Job_Queued \<and> \<not> foreign_owner me s"
    if "?stale = Some s" for s using that by (auto split: option.splits if_splits)
  show ?thesis
  proof (cases "case find_row db (hje_operation e) of Some r \<Rightarrow> job_live (hjr_state r) | None \<Rightarrow> False")
    case True
    then have "db' = (if ?stale \<noteq> None then retire_queued stale_op now db else db)"
      using res e by (simp add: heavy_supersede_op_def bind_ok_Inr_iff Let_def)
    then show ?thesis using retire_evolves [OF ok] stale by (cases ?stale) (auto intro: stays)
  next
    case False
    then have dead: "\<forall>r. find_row db (hje_operation e) = Some r \<longrightarrow> \<not> job_live (hjr_state r)" by auto
    show ?thesis
    proof (cases ?stale)
      case None
      then have "db' = db \<or> db' = enqueue_row me now e (next_position db) (find_row db (hje_operation e)) db"
        using res e False by (auto simp: heavy_supersede_op_def bind_ok_Inr_iff Let_def split: option.splits)
      then show ?thesis using enqueue_row_evolves [OF ok pos dead] by (auto intro: stays)
    next
      case (Some s)
      then have "db' = enqueue_row me now e (hjr_position s) (find_row db (hje_operation e)) (retire_queued stale_op now db)"
        using res e False by (simp add: heavy_supersede_op_def bind_ok_Inr_iff Let_def)
      then show ?thesis using retire_enqueue_evolves [OF ok pos dead] stale [OF Some] by auto
    qed
  qed
qed

end
