(* ===== verification/Heavy_Queue_Safety.thy ===== *)
theory Heavy_Queue_Safety
  imports Heavy_Queue_Protocol
begin

text \<open>
  Runs of the durable queue by any number of owners and by recovery: the table invariant, the
  bound, the progress of every job, and the fence around another owner's live work.
\<close>

section \<open>Operations and runs\<close>

datatype heavy_op =
    HClaim iso heavy_entry int "int option"
  | HReattach iso heavy_entry
  | HPromote string
  | HCancel string iso
  | HSupersede iso string heavy_entry int "int option"
  | HStart string iso
  | HSettle string settle_outcome iso "string option"
  | HRecover string recovery_action iso "string option"
  | HHeartbeat iso

fun heavy_step :: "heavy_db \<Rightarrow> string \<times> heavy_op \<Rightarrow> heavy_db" where
  "heavy_step db (me, HClaim now e m w) = commit db (heavy_claim_op me now db e m w)"
| "heavy_step db (me, HReattach now e) = commit db (heavy_claim_existing me now db e)"
| "heavy_step db (me, HPromote op) = commit db (heavy_promote me db op)"
| "heavy_step db (me, HCancel op t) = commit db (heavy_cancel me db op t)"
| "heavy_step db (me, HSupersede now s e m w) = commit db (heavy_supersede_op me now db s e m w)"
| "heavy_step db (me, HStart op t) = commit db (heavy_start me db op t)"
| "heavy_step db (me, HSettle op out t d) = commit db (heavy_settle me db op out t d)"
| "heavy_step db (me, HRecover op act t d) = commit db (heavy_recover db op act t d)"
| "heavy_step db (me, HHeartbeat t) = commit db (heavy_heartbeat me db t)"

fun is_recovery :: "heavy_op \<Rightarrow> bool" where
  "is_recovery (HRecover _ _ _ _) = True"
| "is_recovery _ = False"

definition job_trans :: "string \<Rightarrow> heavy_op \<Rightarrow> heavy_row \<Rightarrow> heavy_row \<Rightarrow> bool" where
  "job_trans me x = (if is_recovery x then recovery_trans else owner_trans me)"

lemma job_trans_refl: "job_trans me x r r"
  by (simp add: job_trans_def kept stays)

lemma commit_evolves:
  "(\<And>db' out. res = Inr (db', out) \<Longrightarrow> evolves T db db') \<Longrightarrow> (\<And>r. T r r) \<Longrightarrow> evolves T db (commit db res)"
  by (cases res) auto

lemma heavy_step_evolves:
  assumes ok: "heavy_db_ok db"
  shows "evolves (job_trans me x) db (heavy_step db (me, x))"
proof (cases x)
  case (HClaim now e m w)
  then show ?thesis
    by (simp add: job_trans_def) (rule commit_evolves, erule claim_evolves [OF ok], rule stays)
next
  case (HReattach now e)
  then show ?thesis
    by (simp add: job_trans_def) (rule commit_evolves, erule claim_existing_evolves [OF ok], rule stays)
next
  case (HPromote op)
  then show ?thesis
    by (simp add: job_trans_def) (rule commit_evolves, erule promote_evolves [OF ok], rule stays)
next
  case (HCancel op t)
  then show ?thesis by (simp add: job_trans_def) (rule commit_evolves, erule cancel_evolves, rule stays)
next
  case (HSupersede now s e m w)
  then show ?thesis
    by (simp add: job_trans_def) (rule commit_evolves, erule supersede_evolves [OF ok], rule stays)
next
  case (HStart op t)
  then show ?thesis by (simp add: job_trans_def) (rule commit_evolves, erule start_evolves, rule stays)
next
  case (HSettle op out t d)
  then show ?thesis by (simp add: job_trans_def) (rule commit_evolves, erule settle_evolves, rule stays)
next
  case (HRecover op act t d)
  then show ?thesis by (simp add: job_trans_def) (rule commit_evolves, erule recover_evolves, rule kept)
next
  case (HHeartbeat t)
  then show ?thesis by (simp add: job_trans_def) (rule commit_evolves, erule heartbeat_evolves, rule stays)
qed

section \<open>The life of a job\<close>

fun job_phase :: "heavy_state \<Rightarrow> nat" where
  "job_phase Job_Queued = 0"
| "job_phase Job_Running = 1"
| "job_phase _ = 2"

text \<open>
  The attempt never decreases; within an attempt the phase never goes back and a finished row is
  frozen.
\<close>

definition job_advances :: "heavy_row \<Rightarrow> heavy_row \<Rightarrow> bool" where
  "job_advances r r' \<longleftrightarrow> hjr_operation r' = hjr_operation r \<and>
     (hjr_attempt r < hjr_attempt r' \<or>
      hjr_attempt r = hjr_attempt r' \<and> job_phase (hjr_state r) \<le> job_phase (hjr_state r') \<and>
      (\<not> job_live (hjr_state r) \<longrightarrow> r' = r))"

lemma job_phase_live: "job_live s \<longleftrightarrow> job_phase s < 2"
  by (cases s) (auto simp: job_live_def)

lemma outcome_state_terminal [simp]: "\<not> job_live (outcome_state out)" "job_phase (outcome_state out) = 2"
    "outcome_state out \<noteq> Job_Queued" "outcome_state out \<noteq> Job_Running"
  by (cases out; simp add: job_live_def)+

lemma owner_trans_advances: "owner_trans me r r' \<Longrightarrow> job_advances r r'"
  by (induction rule: owner_trans.induct) (auto simp: job_advances_def requeued_def job_live_def)

lemma recovery_trans_advances: "recovery_trans r r' \<Longrightarrow> job_advances r r'"
  by (induction rule: recovery_trans.induct) (auto simp: job_advances_def job_live_def)

lemma job_trans_advances: "job_trans me x r r' \<Longrightarrow> job_advances r r'"
  by (auto simp: job_trans_def owner_trans_advances recovery_trans_advances split: if_splits)

lemma owner_trans_checks: "owner_trans me r r' \<Longrightarrow> heavy_row_checks r \<Longrightarrow> heavy_row_checks r'"
  by (induction rule: owner_trans.induct)
    (auto simp: heavy_row_checks_def requeued_def job_live_def split: settle_outcome.splits)

lemma recovery_trans_checks: "recovery_trans r r' \<Longrightarrow> heavy_row_checks r \<Longrightarrow> heavy_row_checks r'"
  by (induction rule: recovery_trans.induct) (auto simp: heavy_row_checks_def job_live_def)

lemma evolves_db_ok:
  assumes "evolves (job_trans me x) db db'" "heavy_db_ok db"
  shows "heavy_db_ok db'"
proof -
  from assms(1) obtain f new where db': "db' = map f db @ new" and f: "\<forall>r \<in> set db. job_trans me x r (f r)"
    and new: "new = [] \<or> (\<exists>r. new = [r] \<and> fresh_row db r)"
    by (auto simp: evolves_def)
  have ops: "map hjr_operation (map f db) = map hjr_operation db"
    using f job_trans_advances by (auto simp: job_advances_def)
  have checks: "\<forall>r \<in> set db. heavy_row_checks (f r)"
  proof
    fix r assume r: "r \<in> set db"
    then have "heavy_row_checks r" using assms(2) by (simp add: heavy_db_ok_def)
    then show "heavy_row_checks (f r)"
      using f r owner_trans_checks recovery_trans_checks unfolding job_trans_def by (metis (full_types))
  qed
  have "distinct (map hjr_operation db')"
    using new assms(2) ops by (auto simp: db' heavy_db_ok_def fresh_row_def simp del: map_map)
  then show ?thesis using checks new by (auto simp: heavy_db_ok_def db' fresh_row_def)
qed

definition jobs_advance :: "heavy_db \<Rightarrow> heavy_db \<Rightarrow> bool" where
  "jobs_advance db db' \<longleftrightarrow> (\<forall>r \<in> set db. \<exists>r' \<in> set db'. job_advances r r')"

lemma job_advances_trans: "job_advances r s \<Longrightarrow> job_advances s t \<Longrightarrow> job_advances r t"
  by (auto simp: job_advances_def job_phase_live)

lemma evolves_jobs_advance: "evolves (job_trans me x) db db' \<Longrightarrow> jobs_advance db db'"
  using job_trans_advances by (fastforce simp: evolves_def jobs_advance_def)

section \<open>The bound\<close>

lemma queued_depth_update:
  "(\<And>r. P r \<Longrightarrow> hjr_state (f r) = Job_Queued \<Longrightarrow> hjr_state r = Job_Queued) \<Longrightarrow>
   queued_depth (row_update P f db) \<le> queued_depth db"
  by (induction db) (auto simp: queued_depth_def row_changes_def row_update_def)

lemma queued_depth_update_key:
  assumes "heavy_db_ok db"
  shows "queued_depth (row_update (\<lambda>r. hjr_operation r = op) f db) \<le> queued_depth db + 1"
proof -
  have gen: "queued_depth (row_update P f xs) \<le> queued_depth xs + int (row_changes P xs)" for P and xs :: heavy_db
    by (induction xs) (auto simp: queued_depth_def row_changes_def row_update_def)
  have "row_changes (\<lambda>r. hjr_operation r = op) db \<le> 1"
  proof (cases "find_row db op")
    case None
    then show ?thesis by (simp add: find_row_def row_get_None_iff row_changes_def)
  next
    case (Some r)
    then have "r \<in> set db" "hjr_operation r = op" using find_row_SomeD by auto
    then show ?thesis
      using row_changes_key [of hjr_operation db r "\<lambda>_. True"] assms by (simp add: heavy_db_ok_def)
  qed
  then show ?thesis using gen [of "\<lambda>r. hjr_operation r = op" db] by linarith
qed

lemma queued_depth_enqueue:
  assumes "heavy_db_ok db"
  shows "queued_depth (enqueue_row me now e p ex db) \<le> queued_depth db + 1"
  using queued_depth_update_key [OF assms]
  by (cases ex) (auto simp: enqueue_row_def insert_queued_def queued_depth_def row_changes_def)

lemma queued_depth_retire: "queued_depth (retire_queued op t db) \<le> queued_depth db"
  unfolding retire_queued_def by (rule queued_depth_update) simp

lemma queued_depth_retire_one:
  "r \<in> set db \<Longrightarrow> hjr_operation r = op \<Longrightarrow> hjr_state r = Job_Queued \<Longrightarrow>
   queued_depth (retire_queued op t db) + 1 \<le> queued_depth db"
proof (induction db)
  case (Cons x db)
  show ?case
  proof (cases "x = r")
    case True
    then show ?thesis using Cons.prems queued_depth_retire [of op t db]
      by (simp add: queued_depth_def row_changes_def retire_queued_def)
  next
    case False
    with Cons have "queued_depth (retire_queued op t db) + 1 \<le> queued_depth db" by simp
    then show ?thesis by (auto simp: queued_depth_def row_changes_def retire_queued_def)
  qed
qed simp

lemma queued_depth_adopt: "queued_depth (adopt_row me now op db) \<le> queued_depth db"
  unfolding adopt_row_def by (rule queued_depth_update) simp

lemma retire_queued_ok: "heavy_db_ok db \<Longrightarrow> heavy_db_ok (retire_queued op t db)"
proof -
  assume ok: "heavy_db_ok db"
  have "map hjr_operation (retire_queued op t db) = map hjr_operation db"
    unfolding retire_queued_def by (rule map_row_update) simp
  moreover have "heavy_row_checks r" if "r \<in> set (retire_queued op t db)" for r
    using that ok unfolding retire_queued_def
    by (elim in_set_row_updateE) (auto simp: heavy_db_ok_def heavy_row_checks_def job_live_def)
  ultimately show ?thesis using ok by (simp add: heavy_db_ok_def)
qed

lemma queue_bound_None: "queue_bound db w m k = None \<Longrightarrow> queued_depth db < m"
  by (auto simp: queue_bound_def split: if_splits option.splits)

lemma claim_depth_le:
  assumes ok: "heavy_db_ok db" and res: "heavy_claim_op me now db entry m w = Inr (db', out)"
  shows "queued_depth db' \<le> max (queued_depth db) m \<and> m \<le> MAX_QUEUED_JOBS"
proof -
  obtain e where e: "normalize_heavy_entry entry = Inr e" and m: "validate_max_queued m = Inr ()"
    using res by (auto simp: heavy_claim_op_def bind_ok_Inr_iff)
  have "db' = db \<or> db' = adopt_row me now (hje_operation e) db \<or>
      (queued_depth db < m \<and> (\<exists>p ex. db' = enqueue_row me now e p ex db))"
    using res e by (auto simp: heavy_claim_op_def bind_ok_Inr_iff Let_def
        dest: queue_bound_None split: option.splits if_splits)
  then have "queued_depth db' \<le> max (queued_depth db) m"
  proof (elim disjE conjE exE)
    assume "db' = adopt_row me now (hje_operation e) db"
    then show ?thesis using queued_depth_adopt [of me now "hje_operation e" db] by simp
  next
    fix p ex assume "queued_depth db < m" "db' = enqueue_row me now e p ex db"
    then show ?thesis using queued_depth_enqueue [OF ok, of me now e p ex] by simp
  qed simp
  then show ?thesis using m by (auto simp: validate_max_queued_def split: if_splits)
qed

lemma supersede_depth_le:
  assumes ok: "heavy_db_ok db" and res: "heavy_supersede_op me now db stale_op entry m w = Inr (db', out)"
  shows "queued_depth db' \<le> max (queued_depth db) m \<and> m \<le> MAX_QUEUED_JOBS"
proof -
  obtain e where e: "normalize_heavy_entry entry = Inr e" and m: "validate_max_queued m = Inr ()"
    using res by (auto simp: heavy_supersede_op_def bind_ok_Inr_iff)
  let ?stale = "case find_row db stale_op of
            Some r \<Rightarrow> if hjr_state r = Job_Queued \<and> \<not> foreign_owner me r then Some r else None
          | None \<Rightarrow> None"
  have "queued_depth db' \<le> max (queued_depth db) m"
  proof (cases ?stale)
    case None
    then have "db' = db \<or> (queued_depth db < m \<and> (\<exists>p ex. db' = enqueue_row me now e p ex db))"
      using res e by (auto simp: heavy_supersede_op_def bind_ok_Inr_iff Let_def
          dest: queue_bound_None split: if_splits option.splits)
    then show ?thesis
    proof (elim disjE conjE exE)
      fix p ex assume "queued_depth db < m" "db' = enqueue_row me now e p ex db"
      then show ?thesis using queued_depth_enqueue [OF ok, of me now e p ex] by simp
    qed simp
  next
    case (Some s)
    then have s: "find_row db stale_op = Some s" "hjr_state s = Job_Queued"
      by (auto split: option.splits if_splits)
    have "db' = retire_queued stale_op now db \<or>
        (\<exists>p ex. db' = enqueue_row me now e p ex (retire_queued stale_op now db))"
      using res e Some by (auto simp: heavy_supersede_op_def bind_ok_Inr_iff Let_def split: if_splits)
    moreover have less: "queued_depth (retire_queued stale_op now db) + 1 \<le> queued_depth db"
      using queued_depth_retire_one [of s db stale_op now] find_row_SomeD [OF s(1)] s(2) by simp
    ultimately show ?thesis
    proof (elim disjE exE)
      fix p ex assume "db' = enqueue_row me now e p ex (retire_queued stale_op now db)"
      then show ?thesis
        using less queued_depth_enqueue [OF retire_queued_ok [OF ok], of me now e p ex stale_op now] by simp
    qed simp
  qed
  then show ?thesis using m by (auto simp: validate_max_queued_def split: if_splits)
qed

text \<open>An operation other than claim and supersede adds no queued row.\<close>

lemma heavy_step_depth:
  assumes ok: "heavy_db_ok db"
  shows "queued_depth (heavy_step db (me, x)) \<le> max (queued_depth db) MAX_QUEUED_JOBS"
proof -
  have upd: "queued_depth (row_update P f db) \<le> max (queued_depth db) MAX_QUEUED_JOBS"
    if "\<And>r. P r \<Longrightarrow> hjr_state (f r) = Job_Queued \<Longrightarrow> hjr_state r = Job_Queued" for P f
    by (rule order_trans [OF queued_depth_update]) (use that in auto)
  have same: "queued_depth db \<le> max (queued_depth db) MAX_QUEUED_JOBS" by simp
  show ?thesis
  proof (cases x)
    case (HClaim now e m w)
    then show ?thesis using claim_depth_le [OF ok, of me now e m w]
      by (cases "heavy_claim_op me now db e m w") fastforce+
  next
    case (HReattach now e)
    have "heavy_claim_existing me now db e = Inr (db', out) \<Longrightarrow>
        db' = db \<or> (\<exists>op. db' = adopt_row me now op db)" for db' out
      by (auto simp: heavy_claim_existing_def bind_ok_Inr_iff Let_def split: option.splits if_splits)
    then show ?thesis using HReattach queued_depth_adopt [of me now _ db]
      by (cases "heavy_claim_existing me now db e") (fastforce simp: le_max_iff_disj)+
  next
    case (HPromote op)
    have "heavy_promote me db op = Inr (db', out) \<Longrightarrow>
        queued_depth db' \<le> max (queued_depth db) MAX_QUEUED_JOBS" for db' out
      by (auto simp: heavy_promote_def bind_ok_Inr_iff Let_def intro!: upd split: option.splits if_splits)
    then show ?thesis using HPromote same by (auto intro: commit_cases)
  next
    case (HCancel op t)
    have "heavy_cancel me db op t = Inr (db', out) \<Longrightarrow>
        queued_depth db' \<le> max (queued_depth db) MAX_QUEUED_JOBS" for db' out
      by (auto simp: heavy_cancel_def update_rows_def bind_ok_Inr_iff intro!: upd)
    then show ?thesis using HCancel same by (auto intro: commit_cases)
  next
    case (HSupersede now s e m w)
    then show ?thesis using supersede_depth_le [OF ok, of me now s e m w]
      by (cases "heavy_supersede_op me now db s e m w") fastforce+
  next
    case (HStart op t)
    have "heavy_start me db op t = Inr (db', out) \<Longrightarrow>
        queued_depth db' \<le> max (queued_depth db) MAX_QUEUED_JOBS" for db' out
      by (auto simp: heavy_start_def update_rows_def bind_ok_Inr_iff intro!: upd)
    then show ?thesis using HStart same by (auto intro: commit_cases)
  next
    case (HSettle op out t d)
    have "heavy_settle me db op out t d = Inr (db', b) \<Longrightarrow>
        queued_depth db' \<le> max (queued_depth db) MAX_QUEUED_JOBS" for db' b
      by (cases out) (auto simp: heavy_settle_def update_rows_def bind_ok_Inr_iff intro!: upd)
    then show ?thesis using HSettle same by (auto intro: commit_cases)
  next
    case (HRecover op act t d)
    have "heavy_recover db op act t d = Inr (db', b) \<Longrightarrow>
        queued_depth db' \<le> max (queued_depth db) MAX_QUEUED_JOBS" for db' b
      by (cases act) (auto simp: heavy_recover_def update_rows_def bind_ok_Inr_iff intro!: upd)
    then show ?thesis using HRecover same by (auto intro: commit_cases)
  next
    case (HHeartbeat t)
    have "heavy_heartbeat me db t = Inr (db', b) \<Longrightarrow>
        queued_depth db' \<le> max (queued_depth db) MAX_QUEUED_JOBS" for db' b
      by (auto simp: heavy_heartbeat_def Let_def bind_ok_Inr_iff intro!: upd)
    then show ?thesis using HHeartbeat same by (auto intro: commit_cases)
  qed
qed

section \<open>The machine\<close>

definition heavy_inv :: "heavy_db \<Rightarrow> bool" where
  "heavy_inv db \<longleftrightarrow> heavy_db_ok db \<and> queued_depth db \<le> MAX_QUEUED_JOBS"

lemma heavy_step_ok: "heavy_db_ok db \<Longrightarrow> heavy_db_ok (heavy_step db x)"
  by (cases x) (metis evolves_db_ok heavy_step_evolves)

lemma heavy_step_advances: "heavy_db_ok db \<Longrightarrow> jobs_advance db (heavy_step db x)"
  by (cases x) (metis evolves_jobs_advance heavy_step_evolves)

interpretation heavy_table: progress_machine heavy_step heavy_db_ok jobs_advance
proof
  show "heavy_db_ok db \<Longrightarrow> heavy_db_ok (heavy_step db x)" for db x by (rule heavy_step_ok)
  show "jobs_advance db db" for db by (auto simp: jobs_advance_def job_advances_def)
  show "jobs_advance db db'' " if "jobs_advance db db'" "jobs_advance db' db''" for db db' db''
    using that job_advances_trans unfolding jobs_advance_def by meson
  show "heavy_db_ok db \<Longrightarrow> jobs_advance db (heavy_step db x)" for db x by (rule heavy_step_advances)
qed

interpretation heavy_bound: invariant_machine heavy_step heavy_inv
proof
  fix db and x :: "string \<times> heavy_op" assume inv: "heavy_inv db"
  obtain me y where "x = (me, y)" by (cases x)
  then show "heavy_inv (heavy_step db x)"
    using inv heavy_step_depth [of db me y] heavy_step_ok [of db x] by (simp add: heavy_inv_def)
qed

end
