(* ===== verification/Heavy_Recovery.thy ===== *)
theory Heavy_Recovery
  imports Heavy_Queue_Safety
begin

text \<open>
  Restart recovery of the durable queue
  (packages/application/src/heavy-job-queue-recovery-service.ts): one pass over the live rows that
  closes the work of owners whose heartbeat is stale. The pass is written over the store interface;
  its effect is proved once for every store with the contract \<open>recovery_port\<close> and instantiated for
  the SQLite store.
\<close>

section \<open>The service\<close>

record recovery_options =
  rop_current_owner :: "string option"
  rop_stale_after :: int
  rop_retention :: int

record recovery_summary =
  rcs_inspected :: nat
  rcs_interrupted :: nat
  rcs_orphaned :: nat
  rcs_expired :: nat
  rcs_retained :: nat

definition DEFAULT_HEAVY_JOB_HEARTBEAT_STALE_AFTER_MS :: int where
  "DEFAULT_HEAVY_JOB_HEARTBEAT_STALE_AFTER_MS = 90000"

definition DEFAULT_HEAVY_JOB_QUEUED_RETENTION_MS :: int where
  "DEFAULT_HEAVY_JOB_QUEUED_RETENTION_MS = 60 * 60000"

definition recovery_bound :: "jsnum option \<Rightarrow> int \<Rightarrow> string \<Rightarrow> string + int" where
  "recovery_bound v fallback label = (case v of
     None \<Rightarrow> Inr fallback
   | Some n \<Rightarrow> if \<not> num_is_safe_integer n \<or> num_int n < 1 then Inl label else Inr (num_int n))"

definition new_recovery_options ::
  "string option \<Rightarrow> jsnum option \<Rightarrow> jsnum option \<Rightarrow> string + recovery_options" where
  "new_recovery_options owner stale retention =
     bind_ok (recovery_bound stale DEFAULT_HEAVY_JOB_HEARTBEAT_STALE_AFTER_MS ''heartbeatStaleAfterMs'') (\<lambda>s.
     bind_ok (recovery_bound retention DEFAULT_HEAVY_JOB_QUEUED_RETENTION_MS ''queuedRetentionMs'') (\<lambda>q.
     Inr \<lparr>rop_current_owner = owner, rop_stale_after = s, rop_retention = q\<rparr>))"

definition owner_is_live :: "recovery_options \<Rightarrow> int \<Rightarrow> iso \<Rightarrow> bool" where
  "owner_is_live opt now heartbeat = (case date_parse heartbeat of
     Some t \<Rightarrow> t > now - rop_stale_after opt | None \<Rightarrow> False)"

definition interrupt_detail :: "string option \<Rightarrow> string" where
  "interrupt_detail owner = ''Heavy-job owner '' @ [CHR 0x27] @
     (case owner of Some o' \<Rightarrow> o' | None \<Rightarrow> ''unknown'') @ [CHR 0x27] @ '' stopped heartbeating before settlement''"

definition expire_detail :: string where
  "expire_detail = ''Queued heavy work expired before any owner claimed it''"

text \<open>What the pass does with one row; \<open>None\<close> leaves it alone.\<close>

definition recovery_decision ::
  "recovery_options \<Rightarrow> int \<Rightarrow> string option \<Rightarrow> iso \<Rightarrow> bool \<Rightarrow> iso \<Rightarrow> (recovery_action \<times> string option) option" where
  "recovery_decision opt now owner heartbeat running requested =
     (if owner \<noteq> None \<and> owner = rop_current_owner opt then None
      else if owner \<noteq> None \<and> owner_is_live opt now heartbeat then None
      else if running then Some (Recover_Interrupt, Some (interrupt_detail owner))
      else if (case date_parse requested of Some t \<Rightarrow> t \<le> now - rop_retention opt | None \<Rightarrow> True)
      then Some (Recover_Expire, Some expire_detail)
      else if owner = None then None
      else Some (Recover_Orphan, None))"

definition decide_live :: "recovery_options \<Rightarrow> int \<Rightarrow> heavy_live \<Rightarrow> (recovery_action \<times> string option) option" where
  "decide_live opt now l = recovery_decision opt now (hlv_owner l) (hlv_heartbeat_at l)
     (hlv_state l = Live_Running) (hje_requested_at (hlv_entry l))"

definition count_action :: "recovery_action \<Rightarrow> bool \<Rightarrow> recovery_summary \<Rightarrow> recovery_summary" where
  "count_action a done_it s = (if done_it then (case a of
       Recover_Interrupt \<Rightarrow> s\<lparr>rcs_interrupted := rcs_interrupted s + 1\<rparr>
     | Recover_Orphan \<Rightarrow> s\<lparr>rcs_orphaned := rcs_orphaned s + 1\<rparr>
     | Recover_Expire \<Rightarrow> s\<lparr>rcs_expired := rcs_expired s + 1\<rparr>)
   else s\<lparr>rcs_retained := rcs_retained s + 1\<rparr>)"

text \<open>An error of the store ends the pass; what it recovered before stays recovered.\<close>

fun reconcile_rows ::
  "'s heavy_store \<Rightarrow> recovery_options \<Rightarrow> int \<Rightarrow> 's \<Rightarrow> recovery_summary \<Rightarrow> heavy_live list \<Rightarrow>
   's \<times> (heavy_error + recovery_summary)" where
  "reconcile_rows st opt now s acc [] = (s, Inr acc)"
| "reconcile_rows st opt now s acc (l # ls) =
     (case decide_live opt now l of
        None \<Rightarrow> reconcile_rows st opt now s (acc\<lparr>rcs_retained := rcs_retained acc + 1\<rparr>) ls
      | Some (a, d) \<Rightarrow>
          (case hst_recover st s (hje_operation (hlv_entry l)) a (Instant now) d of
             Inl e \<Rightarrow> (s, Inl e)
           | Inr (s', b) \<Rightarrow> reconcile_rows st opt now s' (count_action a b acc) ls))"

definition reconcileOnce ::
  "'s heavy_store \<Rightarrow> recovery_options \<Rightarrow> int \<Rightarrow> 's \<Rightarrow> 's \<times> (heavy_error + recovery_summary)" where
  "reconcileOnce st opt now s =
     (case hst_list_live st s of
        Inl e \<Rightarrow> (s, Inl e)
      | Inr ls \<Rightarrow> reconcile_rows st opt now s
          \<lparr>rcs_inspected = length ls, rcs_interrupted = 0, rcs_orphaned = 0, rcs_expired = 0, rcs_retained = 0\<rparr> ls)"

section \<open>The contract of the store\<close>

text \<open>What a recovery action makes of the row it applies to, and when it applies.\<close>

definition recovery_applies :: "recovery_action \<Rightarrow> heavy_row \<Rightarrow> bool" where
  "recovery_applies a r = (case a of
     Recover_Interrupt \<Rightarrow> hjr_state r = Job_Running | _ \<Rightarrow> hjr_state r = Job_Queued)"

definition recovered :: "recovery_action \<Rightarrow> iso \<Rightarrow> string option \<Rightarrow> heavy_row \<Rightarrow> heavy_row" where
  "recovered a t d r = (case a of
     Recover_Orphan \<Rightarrow> r\<lparr>hjr_owner := None, hjr_heartbeat_at := t\<rparr>
   | Recover_Interrupt \<Rightarrow> r\<lparr>hjr_state := Job_Interrupted, hjr_finished_at := Some t, hjr_detail := optional_detail d\<rparr>
   | Recover_Expire \<Rightarrow> r\<lparr>hjr_state := Job_Cancelled, hjr_finished_at := Some t, hjr_detail := optional_detail d\<rparr>)"

definition listed :: "heavy_row \<Rightarrow> heavy_live \<Rightarrow> bool" where
  "listed r l \<longleftrightarrow> hjr_operation r = hje_operation (hlv_entry l) \<and>
     hjr_state r = (case hlv_state l of Live_Queued \<Rightarrow> Job_Queued | Live_Running \<Rightarrow> Job_Running) \<and>
     hjr_owner r = hlv_owner l \<and> hjr_heartbeat_at r = hlv_heartbeat_at l \<and>
     hjr_requested_at r = hje_requested_at (hlv_entry l)"

definition settled_row :: "recovery_options \<Rightarrow> int \<Rightarrow> heavy_row \<Rightarrow> heavy_row" where
  "settled_row opt now r =
     (case recovery_decision opt now (hjr_owner r) (hjr_heartbeat_at r) (hjr_state r = Job_Running) (hjr_requested_at r) of
        None \<Rightarrow> r | Some (a, d) \<Rightarrow> recovered a (Instant now) d r)"

text \<open>The action decided for a row of the table or of the list, and the counts of a list of decisions.\<close>

definition row_action :: "recovery_options \<Rightarrow> int \<Rightarrow> heavy_row \<Rightarrow> recovery_action option" where
  "row_action opt now r = map_option fst (recovery_decision opt now (hjr_owner r) (hjr_heartbeat_at r)
     (hjr_state r = Job_Running) (hjr_requested_at r))"

definition live_action :: "recovery_options \<Rightarrow> int \<Rightarrow> heavy_live \<Rightarrow> recovery_action option" where
  "live_action opt now l = map_option fst (decide_live opt now l)"

definition add_counts :: "recovery_action option list \<Rightarrow> recovery_summary \<Rightarrow> recovery_summary" where
  "add_counts as s = s
     \<lparr>rcs_interrupted := rcs_interrupted s + count_list as (Some Recover_Interrupt),
      rcs_orphaned := rcs_orphaned s + count_list as (Some Recover_Orphan),
      rcs_expired := rcs_expired s + count_list as (Some Recover_Expire),
      rcs_retained := rcs_retained s + count_list as None\<rparr>"

lemma add_counts_simps:
  "add_counts [] s = s"
  "add_counts (None # as) s = add_counts as (s\<lparr>rcs_retained := rcs_retained s + 1\<rparr>)"
  "add_counts (Some a # as) s = add_counts as (count_action a True s)"
  by (simp_all add: add_counts_def, cases a) (simp_all add: add_counts_def count_action_def)

locale recovery_port =
  fixes st :: "'s heavy_store"
    and row :: "'s \<Rightarrow> string \<Rightarrow> heavy_row option"
    and ok :: "'s \<Rightarrow> bool"
  assumes recover_ok: "ok s \<Longrightarrow> hst_recover st s op a t d = Inr (s', b) \<Longrightarrow> ok s'"
    and recover_other: "ok s \<Longrightarrow> hst_recover st s op a t d = Inr (s', b) \<Longrightarrow> op' \<noteq> op \<Longrightarrow> row s' op' = row s op'"
    and recover_row: "ok s \<Longrightarrow> hst_recover st s op a t d = Inr (s', b) \<Longrightarrow> row s op = Some r \<Longrightarrow>
        b = recovery_applies a r \<and> row s' op = Some (if recovery_applies a r then recovered a t d r else r)"
    and recover_returns: "ok s \<Longrightarrow> row s op = Some r \<Longrightarrow> length (js_trim op) > 0 \<Longrightarrow> length op \<le> MAX_IDENTIFIER_CHARS \<Longrightarrow>
        \<exists>s' b. hst_recover st s op a (Instant n) d = Inr (s', b)"
begin

lemma decide_listed:
  "listed r l \<Longrightarrow> decide_live opt now l =
     recovery_decision opt now (hjr_owner r) (hjr_heartbeat_at r) (hjr_state r = Job_Running) (hjr_requested_at r)"
  by (cases "hlv_state l") (auto simp: listed_def decide_live_def)

lemma decided_applies:
  "listed r l \<Longrightarrow> decide_live opt now l = Some (a, d) \<Longrightarrow> recovery_applies a r"
  by (cases "hlv_state l")
    (auto simp: decide_live_def recovery_decision_def listed_def recovery_applies_def split: if_splits)

text \<open>The pass returns, settles every listed row as decided, and touches no other row.\<close>

lemma reconcile_rows_effect:
  assumes "ok s" "distinct (map (\<lambda>l. hje_operation (hlv_entry l)) ls)"
    and "\<forall>l \<in> set ls. \<exists>r. row s (hje_operation (hlv_entry l)) = Some r \<and> listed r l"
    and "\<forall>l \<in> set ls. length (js_trim (hje_operation (hlv_entry l))) > 0 \<and>
           length (hje_operation (hlv_entry l)) \<le> MAX_IDENTIFIER_CHARS"
  shows "\<exists>s' acc'. reconcile_rows st opt now s acc ls = (s', Inr acc') \<and> ok s' \<and>
     (\<forall>op. row s' op = (if op \<in> (\<lambda>l. hje_operation (hlv_entry l)) ` set ls
                        then map_option (settled_row opt now) (row s op) else row s op)) \<and>
     acc' = add_counts (map (live_action opt now) ls) acc"
  using assms
proof (induction ls arbitrary: s acc)
  case Nil
  then show ?case by (simp add: add_counts_simps)
next
  case (Cons l ls)
  let ?op = "hje_operation (hlv_entry l)"
  obtain r where r: "row s ?op = Some r" "listed r l" using Cons.prems(3) by auto
  have fresh: "?op \<notin> (\<lambda>l. hje_operation (hlv_entry l)) ` set ls" using Cons.prems(2) by auto
  show ?case
  proof (cases "decide_live opt now l")
    case None
    have keep: "settled_row opt now r = r"
      using None decide_listed [OF r(2), of opt now] by (simp add: settled_row_def)
    obtain s' acc' where ih: "reconcile_rows st opt now s (acc\<lparr>rcs_retained := rcs_retained acc + 1\<rparr>) ls = (s', Inr acc')"
        "ok s'"
        "\<forall>op. row s' op = (if op \<in> (\<lambda>l. hje_operation (hlv_entry l)) ` set ls
             then map_option (settled_row opt now) (row s op) else row s op)"
        "acc' = add_counts (map (live_action opt now) ls) (acc\<lparr>rcs_retained := rcs_retained acc + 1\<rparr>)"
      using Cons.IH [of s "acc\<lparr>rcs_retained := rcs_retained acc + 1\<rparr>"] Cons.prems by auto
    have "acc' = add_counts (map (live_action opt now) (l # ls)) acc"
      using ih(4) None by (simp add: live_action_def add_counts_simps)
    then show ?thesis using None ih(1-3) fresh r(1) keep
      by (intro exI [of _ s'] exI [of _ acc']) (auto simp del: image_iff)
  next
    case (Some ad)
    obtain a d where ad: "ad = (a, d)" by (cases ad)
    obtain s1 b where s1: "hst_recover st s ?op a (Instant now) d = Inr (s1, b)"
      using recover_returns [where a = a and n = now and d = d, OF Cons.prems(1) r(1)] Cons.prems(4) by auto
    have ok1: "ok s1" by (rule recover_ok [OF Cons.prems(1) s1])
    have app: "recovery_applies a r" using decided_applies [OF r(2)] Some ad by simp
    have row1: "row s1 ?op = Some (recovered a (Instant now) d r)" and b: b
      using recover_row [OF Cons.prems(1) s1 r(1)] app by auto
    have other: "op \<noteq> ?op \<Longrightarrow> row s1 op = row s op" for op
      by (rule recover_other [OF Cons.prems(1) s1])
    have settled: "settled_row opt now r = recovered a (Instant now) d r"
      using Some ad decide_listed [OF r(2), of opt now] by (simp add: settled_row_def)
    have "\<forall>l' \<in> set ls. \<exists>r. row s1 (hje_operation (hlv_entry l')) = Some r \<and> listed r l'"
      using Cons.prems(3) fresh other by (metis image_eqI list.set_intros(2))
    then obtain s' acc' where ih: "reconcile_rows st opt now s1 (count_action a b acc) ls = (s', Inr acc')"
        "ok s'"
        "\<forall>op. row s' op = (if op \<in> (\<lambda>l. hje_operation (hlv_entry l)) ` set ls
             then map_option (settled_row opt now) (row s1 op) else row s1 op)"
        "acc' = add_counts (map (live_action opt now) ls) (count_action a b acc)"
      using Cons.IH [OF ok1, of "count_action a b acc"] Cons.prems by auto
    have rows: "row s' op = (if op \<in> (\<lambda>l. hje_operation (hlv_entry l)) ` set (l # ls)
             then map_option (settled_row opt now) (row s op) else row s op)" for op
      using ih(3) [rule_format, of op] fresh other [of op] row1 settled r(1)
      by (cases "op = ?op") simp_all
    have "acc' = add_counts (map (live_action opt now) (l # ls)) acc"
      using ih(4) Some ad b by (simp add: live_action_def add_counts_simps)
    then show ?thesis
      by (intro exI [of _ s'] exI [of _ acc'] conjI allI rows) (use ih(1,2) Some ad s1 in simp_all)
  qed
qed

end

section \<open>The SQLite store keeps the contract\<close>

lemma find_row_update:
  assumes "\<And>r. hjr_operation (f r) = hjr_operation r"
  shows "find_row (row_update P f db) op = map_option (\<lambda>r. if P r then f r else r) (find_row db op)"
  unfolding find_row_def using assms by (rule row_get_update_key)

lemma row_changes_found:
  assumes "heavy_db_ok db" "find_row db op = Some r"
  shows "(row_changes (\<lambda>x. hjr_operation x = op \<and> Q x) db = 1) = Q r"
proof -
  have "r \<in> set db" "hjr_operation r = op" using find_row_SomeD [OF assms(2)] by auto
  then show ?thesis using row_changes_key [of hjr_operation db r Q] assms(1) by (simp add: heavy_db_ok_def)
qed

text \<open>Every update of the table goes through this shape, with the primary key in the condition.\<close>

lemma update_rows_found:
  assumes "heavy_db_ok db" "find_row db op = Some r" "\<And>r. hjr_operation (f r) = hjr_operation r"
  shows "find_row (fst (update_rows (\<lambda>x. hjr_operation x = op \<and> Q x) f db)) op = Some (if Q r then f r else r)"
    and "snd (update_rows (\<lambda>x. hjr_operation x = op \<and> Q x) f db) = Q r"
  using find_row_SomeD [OF assms(2)] find_row_update [of f "\<lambda>x. hjr_operation x = op \<and> Q x" db op]
    row_changes_found [OF assms(1,2), of Q] assms(2,3)
  by (auto simp: update_rows_def)

lemma update_rows_other:
  assumes "op' \<noteq> op" "\<And>r. hjr_operation (f r) = hjr_operation r"
  shows "find_row (fst (update_rows (\<lambda>x. hjr_operation x = op \<and> Q x) f db)) op' = find_row db op'"
proof -
  have "map_option (\<lambda>r. if hjr_operation r = op \<and> Q r then f r else r) (find_row db op') = find_row db op'"
    using find_row_SomeD [of db op'] assms(1) by (cases "find_row db op'") auto
  then show ?thesis using find_row_update [of f "\<lambda>x. hjr_operation x = op \<and> Q x" db op'] assms(2)
    by (simp add: update_rows_def)
qed

lemma heavy_recover_shape:
  "heavy_recover db op a t d = Inr (db', b) \<Longrightarrow>
   (db', b) = update_rows (\<lambda>x. hjr_operation x = op \<and> recovery_applies a x) (recovered a t d) db"
  by (cases a) (auto simp: heavy_recover_def bind_ok_Inr_iff recovery_applies_def recovered_def [abs_def])

lemma recovered_operation [simp]: "hjr_operation (recovered a t d r) = hjr_operation r"
  by (cases a) (simp_all add: recovered_def)

interpretation sqlite_recovery: recovery_port "sqlite_heavy_store me" find_row heavy_db_ok for me
proof
  fix db op a t d db' b
  assume ok: "heavy_db_ok db" and res: "hst_recover (sqlite_heavy_store me) db op a t d = Inr (db', b)"
  have res': "heavy_recover db op a t d = Inr (db', b)" using res by (simp add: sqlite_heavy_store_def)
  note shape = heavy_recover_shape [OF res']
  have parts: "db' = fst (update_rows (\<lambda>x. hjr_operation x = op \<and> recovery_applies a x) (recovered a t d) db)"
      "b = snd (update_rows (\<lambda>x. hjr_operation x = op \<and> recovery_applies a x) (recovered a t d) db)"
    by (simp_all flip: shape)
  have "evolves (job_trans me (HRecover op a t d)) db db'"
    using recover_evolves [OF res'] by (simp add: job_trans_def)
  then show "heavy_db_ok db'" using ok by (rule evolves_db_ok)
  show "op' \<noteq> op \<Longrightarrow> find_row db' op' = find_row db op'" for op'
    unfolding parts by (rule update_rows_other) simp_all
  show "find_row db op = Some r \<Longrightarrow> b = recovery_applies a r \<and>
      find_row db' op = Some (if recovery_applies a r then recovered a t d r else r)" for r
    unfolding parts using update_rows_found [OF ok, of op r "recovered a t d" "recovery_applies a"] by simp
next
  fix db op a n d
  assume "length (js_trim op) > 0" "length op \<le> MAX_IDENTIFIER_CHARS"
  then show "\<exists>db' b. hst_recover (sqlite_heavy_store me) db op a (Instant n) d = Inr (db', b)"
    by (cases a) (simp_all add: sqlite_heavy_store_def heavy_recover_def require_identifier_def
        require_bounded_def heavy_validate_iso_def update_rows_def)
qed

text \<open>The live rows of a readable table are listed, each once.\<close>

definition readable :: "heavy_row \<Rightarrow> bool" where
  "readable r \<longleftrightarrow> \<not> is_err (heavy_entry_of r) \<and> length (js_trim (hjr_operation r)) > 0 \<and>
     length (hjr_operation r) \<le> MAX_IDENTIFIER_CHARS"

lemma heavy_live_of_listed: "heavy_live_of r = Inr l \<Longrightarrow> listed r l"
  by (auto simp: heavy_live_of_def heavy_entry_of_def listed_def bind_ok_Inr_iff job_live_def split: if_splits)

lemma heavy_live_of_returns:
  "heavy_row_checks r \<Longrightarrow> job_live (hjr_state r) \<Longrightarrow> readable r \<Longrightarrow> \<exists>l. heavy_live_of r = Inr l"
  by (auto simp: heavy_live_of_def readable_def is_err_def heavy_row_checks_def split: sum.splits)

lemma set_live_rows: "set (live_rows db) = {r \<in> set db. job_live (hjr_state r)}"
  by (simp add: live_rows_def)

lemma distinct_live_rows: "heavy_db_ok db \<Longrightarrow> distinct (map hjr_operation (live_rows db))"
proof -
  assume "heavy_db_ok db"
  then have "distinct (map hjr_operation (filter (\<lambda>r. job_live (hjr_state r)) db))"
    by (simp add: heavy_db_ok_def distinct_map_filter)
  then show ?thesis
    unfolding live_rows_def distinct_map by (simp add: distinct_map inj_on_def)
qed

lemma heavy_list_live_listed:
  assumes ok: "heavy_db_ok db" and rd: "\<forall>r \<in> set db. job_live (hjr_state r) \<longrightarrow> readable r"
  obtains ls where "heavy_list_live db = Inr ls" "list_all2 listed (live_rows db) ls"
proof -
  have "\<forall>r \<in> set (live_rows db). \<exists>l. heavy_live_of r = Inr l"
    using ok rd heavy_live_of_returns by (auto simp: set_live_rows heavy_db_ok_def)
  then obtain ls where all: "heavy_list_live db = Inr ls"
    using map_ok_total [of "live_rows db" heavy_live_of] by (auto simp: heavy_list_live_def)
  then have ls: "list_all2 (\<lambda>r l. heavy_live_of r = Inr l) (live_rows db) ls"
    by (simp add: heavy_list_live_def map_ok_Inr_iff)
  note all
  moreover have "list_all2 listed (live_rows db) ls"
    using ls by (rule list_all2_mono) (rule heavy_live_of_listed)
  ultimately show thesis by (rule that)
qed

lemma list_all2_listed_ops:
  "list_all2 listed rs ls \<Longrightarrow> map (\<lambda>l. hje_operation (hlv_entry l)) ls = map hjr_operation rs"
  by (induction rule: list_all2_induct) (auto simp: listed_def)

lemma listed_actions:
  "list_all2 listed rs ls \<Longrightarrow> map (live_action opt now) ls = map (row_action opt now) rs"
  by (induction rule: list_all2_induct) (simp_all add: live_action_def row_action_def sqlite_recovery.decide_listed)

lemma reconcile_effect:
  assumes ok: "heavy_db_ok db" and rd: "\<forall>r \<in> set db. job_live (hjr_state r) \<longrightarrow> readable r"
  shows "\<exists>db' s. reconcileOnce (sqlite_heavy_store me) opt now db = (db', Inr s) \<and> heavy_db_ok db' \<and>
     (\<forall>r \<in> set db. find_row db' (hjr_operation r) = Some (if job_live (hjr_state r) then settled_row opt now r else r)) \<and>
     (\<forall>op. find_row db op = None \<longrightarrow> find_row db' op = None) \<and>
     s = add_counts (map (row_action opt now) (live_rows db))
       \<lparr>rcs_inspected = length (live_rows db), rcs_interrupted = 0, rcs_orphaned = 0, rcs_expired = 0, rcs_retained = 0\<rparr>"
proof -
  obtain ls where ls: "heavy_list_live db = Inr ls" "list_all2 listed (live_rows db) ls"
    using heavy_list_live_listed [OF ok rd] by blast
  note ops = list_all2_listed_ops [OF ls(2)]
  have found: "\<exists>r. find_row db (hje_operation (hlv_entry l)) = Some r \<and> listed r l \<and> readable r"
    if l: "l \<in> set ls" for l
  proof -
    from list_all2_rightD [OF ls(2) l] obtain r where "r \<in> set (live_rows db)" "listed r l" by blast
    moreover from this have "find_row db (hjr_operation r) = Some r" "readable r"
      using ok rd by (auto simp: set_live_rows find_row_iff)
    ultimately show ?thesis by (auto simp: listed_def)
  qed
  have "distinct (map (\<lambda>l. hje_operation (hlv_entry l)) ls)"
    unfolding ops by (rule distinct_live_rows [OF ok])
  moreover have "\<forall>l \<in> set ls. \<exists>r. find_row db (hje_operation (hlv_entry l)) = Some r \<and> listed r l"
    using found by blast
  moreover have "\<forall>l \<in> set ls. length (js_trim (hje_operation (hlv_entry l))) > 0 \<and>
           length (hje_operation (hlv_entry l)) \<le> MAX_IDENTIFIER_CHARS"
    using found by (fastforce simp: readable_def listed_def)
  ultimately obtain db' s where
      run: "reconcile_rows (sqlite_heavy_store me) opt now db
          \<lparr>rcs_inspected = length ls, rcs_interrupted = 0, rcs_orphaned = 0, rcs_expired = 0, rcs_retained = 0\<rparr> ls
          = (db', Inr s)" "heavy_db_ok db'"
      and rows: "\<And>op. find_row db' op = (if op \<in> (\<lambda>l. hje_operation (hlv_entry l)) ` set ls
          then map_option (settled_row opt now) (find_row db op) else find_row db op)"
      and counts: "s = add_counts (map (live_action opt now) ls)
          \<lparr>rcs_inspected = length ls, rcs_interrupted = 0, rcs_orphaned = 0, rcs_expired = 0, rcs_retained = 0\<rparr>"
    using sqlite_recovery.reconcile_rows_effect [OF ok, of ls me opt now
        "\<lparr>rcs_inspected = length ls, rcs_interrupted = 0, rcs_orphaned = 0, rcs_expired = 0, rcs_retained = 0\<rparr>"]
    by auto
  have ids: "(\<lambda>l. hje_operation (hlv_entry l)) ` set ls = hjr_operation ` {r \<in> set db. job_live (hjr_state r)}"
    using ops by (metis list.set_map set_live_rows)
  have "find_row db' (hjr_operation r) = Some (if job_live (hjr_state r) then settled_row opt now r else r)"
    if r: "r \<in> set db" for r
  proof -
    have "hjr_operation r \<in> hjr_operation ` {r \<in> set db. job_live (hjr_state r)} \<longleftrightarrow> job_live (hjr_state r)"
      using r heavy_row_unique [OF ok] by blast
    moreover have "find_row db (hjr_operation r) = Some r" using r ok by (simp add: find_row_iff)
    ultimately show ?thesis unfolding rows ids by simp
  qed
  moreover have "length ls = length (live_rows db)" using ls(2) by (simp add: list_all2_lengthD)
  moreover have "map (live_action opt now) ls = map (row_action opt now) (live_rows db)"
    by (rule listed_actions [OF ls(2)])
  moreover have "find_row db' op = None" if "find_row db op = None" for op
    unfolding rows using that by simp
  ultimately show ?thesis
    using run counts ls(1) by (simp add: reconcileOnce_def sqlite_heavy_store_def)
qed

section \<open>Properties of the durable queue\<close>

text \<open>
  The life of a job. From the empty table, whatever the owners and recovery do, the rows keep
  the table's constraints with one row per operation; no row disappears, its attempt never
  decreases, within an attempt it never goes back from running to queued, and once finished the
  row stays exactly as it is until a new attempt is claimed.
\<close>

theorem heavy_jobs_progress:
  "heavy_db_ok (run_ops heavy_step [] xs) \<and>
   jobs_advance (run_ops heavy_step [] xs) (run_ops heavy_step [] (xs @ ys))"
  using heavy_table.run_inv [of "[]" xs] heavy_table.run_rel_later [of "[]" xs ys]
  by (simp add: heavy_db_ok_def)

text \<open>
  The queue is bounded. No run exceeds the hard limit of queued rows, an accepted claim leaves
  at most the larger of the old depth and the caller's bound, and a claim that answers full leaves
  the table alone because the queue or the workspace is at its bound.
\<close>

theorem heavy_queue_bounded:
  "let db = run_ops heavy_step [] xs in queued_depth db \<le> MAX_QUEUED_JOBS \<and>
    (case heavy_claim_op me now db e m w of
       Inl _ \<Rightarrow> True
     | Inr (db', Claim_Full d scope) \<Rightarrow> db' = db \<and> d = queued_depth db \<and>
         (scope = Full_Queue \<and> d \<ge> m \<or>
          scope = Full_Workspace \<and> (\<exists>k. w = Some k \<and> workspace_queued_depth db (hje_workspace e) \<ge> k))
     | Inr (db', _) \<Rightarrow> queued_depth db' \<le> max (queued_depth db) m)"
proof -
  let ?db = "run_ops heavy_step [] xs"
  have inv: "heavy_inv ?db"
    by (rule heavy_bound.run_inv) (simp add: heavy_inv_def heavy_db_ok_def
        queued_depth_def row_changes_def MAX_QUEUED_JOBS_def)
  have full: "db' = ?db \<and> d = queued_depth ?db \<and> (scope = Full_Queue \<and> d \<ge> m \<or>
          scope = Full_Workspace \<and> (\<exists>k. w = Some k \<and> workspace_queued_depth ?db (hje_workspace e) \<ge> k))"
    if "heavy_claim_op me now ?db e m w = Inr (db', Claim_Full d scope)" for db' d scope
    using that normalize_heavy_entry_ok [of e]
    by (auto simp: heavy_claim_op_def bind_ok_Inr_iff Let_def queue_bound_def split: option.splits if_splits)
  have depth: "queued_depth db' \<le> max (queued_depth ?db) m" if "heavy_claim_op me now ?db e m w = Inr (db', out)" for db' out
    using claim_depth_le [OF _ that] inv by (simp add: heavy_inv_def)
  show ?thesis
    using inv full depth by (auto simp: Let_def heavy_inv_def split: sum.splits prod.splits heavy_claim.splits)
qed

text \<open>
  C16: A live owner is never displaced. Whatever another owner does, short of restart recovery, a
  queued or running row of this owner stays in the table exactly as it is.
\<close>

theorem foreign_live_work_untouched:
  assumes "heavy_db_ok db" "r \<in> set db" "job_live (hjr_state r)" "foreign_owner me r" "\<not> is_recovery x"
  shows "r \<in> set (heavy_step db (me, x))"
proof -
  obtain f new where "heavy_step db (me, x) = map f db @ new" and f: "owner_trans me r (f r)"
    using heavy_step_evolves [OF assms(1), of me x] assms(2,5) by (auto simp: evolves_def job_trans_def)
  moreover from f have "f r = r"
    using assms(3,4) by cases (auto simp: foreign_owner_def)
  ultimately show ?thesis using assms(2) by force
qed

text \<open>
  A job starts once per attempt. After an owner has started a job, no start by any owner
  succeeds for it, whatever happens in between, as long as its row is still in that attempt.
\<close>

theorem started_once_per_attempt:
  assumes "heavy_db_ok db" "heavy_start me db op t = Inr (db', True)" "find_row db' op = Some r"
    and "find_row (run_ops heavy_step db' ys) op = Some r'" "hjr_attempt r' = hjr_attempt r"
  shows "hjr_state r = Job_Running \<and> hjr_owner r = Some me \<and>
    heavy_start other (run_ops heavy_step db' ys) op u \<noteq> Inr (db'', True)"
proof -
  let ?db = "run_ops heavy_step db' ys"
  let ?f = "\<lambda>t r. r\<lparr>hjr_state := Job_Running, hjr_started_at := Some t, hjr_heartbeat_at := t\<rparr>"
  let ?Q = "\<lambda>me x. hjr_state x = Job_Queued \<and> hjr_owner x = Some me"
  have eq: "db' = fst (update_rows (\<lambda>x. hjr_operation x = op \<and> ?Q me x) (?f t) db)"
      "snd (update_rows (\<lambda>x. hjr_operation x = op \<and> ?Q me x) (?f t) db)"
    using assms(2) by (auto simp: heavy_start_def bind_ok_Inr_iff)
  have ok': "heavy_db_ok db'"
    using heavy_step_ok [OF assms(1), of "(me, HStart op t)"] assms(2) by simp
  have "find_row db' op = map_option (\<lambda>r. if hjr_operation r = op \<and> ?Q me r then ?f t r else r) (find_row db op)"
    unfolding eq(1) update_rows_def fst_conv by (rule find_row_update) simp
  then obtain r0 where r0: "find_row db op = Some r0" using assms(3) by (cases "find_row db op") auto
  note upd = update_rows_found [OF assms(1) r0, of "?f t" "?Q me", simplified]
  have "?Q me r0" using eq(2) upd(2) by simp
  then have run: "hjr_state r = Job_Running" "hjr_owner r = Some me"
    using upd(1) assms(3) by (auto simp flip: eq(1))
  have ok2: "heavy_db_ok ?db" by (rule heavy_table.run_inv [OF ok'])
  obtain r2 where "r2 \<in> set ?db" "job_advances r r2"
    using heavy_table.run_rel [OF ok', of ys] find_row_SomeD [OF assms(3)] by (auto simp: jobs_advance_def)
  moreover have "r2 = r'"
  proof (rule heavy_row_unique [OF ok2])
    show "r2 \<in> set ?db" by fact
    show "r' \<in> set ?db" using find_row_SomeD [OF assms(4)] by simp
    show "hjr_operation r2 = hjr_operation r'"
      using \<open>job_advances r r2\<close> find_row_SomeD [OF assms(3)] find_row_SomeD [OF assms(4)]
      by (simp add: job_advances_def)
  qed
  ultimately have "job_advances r r'" by simp
  then have "hjr_state r' \<noteq> Job_Queued"
    using assms(5) run(1) by (auto simp: job_advances_def)
  then have "\<not> snd (update_rows (\<lambda>x. hjr_operation x = op \<and> ?Q other x) (?f u) ?db)"
    by (subst update_rows_found(2) [OF ok2 assms(4)]) simp_all
  then show ?thesis
    using run by (auto simp: heavy_start_def bind_ok_Inr_iff)
qed

text \<open>An owner recovery has to leave alone.\<close>

definition owner_alive :: "recovery_options \<Rightarrow> int \<Rightarrow> heavy_row \<Rightarrow> bool" where
  "owner_alive opt now r \<longleftrightarrow> hjr_owner r \<noteq> None \<and>
     (hjr_owner r = rop_current_owner opt \<or> owner_is_live opt now (hjr_heartbeat_at r))"

text \<open>A queued row whose request is too old to be kept, or has no readable date.\<close>

definition overdue :: "recovery_options \<Rightarrow> int \<Rightarrow> heavy_row \<Rightarrow> bool" where
  "overdue opt now r \<longleftrightarrow> (\<forall>t. date_parse (hjr_requested_at r) = Some t \<longrightarrow> t \<le> now - rop_retention opt)"

text \<open>The three kinds of work a pass closes or gives up: of an owner it need not leave alone.\<close>

definition lost_run :: "recovery_options \<Rightarrow> int \<Rightarrow> heavy_row \<Rightarrow> bool" where
  "lost_run opt now r \<longleftrightarrow> hjr_state r = Job_Running \<and> \<not> owner_alive opt now r"

definition lost_wait :: "recovery_options \<Rightarrow> int \<Rightarrow> heavy_row \<Rightarrow> bool" where
  "lost_wait opt now r \<longleftrightarrow> hjr_state r = Job_Queued \<and> \<not> owner_alive opt now r \<and> overdue opt now r"

definition stranded :: "recovery_options \<Rightarrow> int \<Rightarrow> heavy_row \<Rightarrow> bool" where
  "stranded opt now r \<longleftrightarrow> hjr_state r = Job_Queued \<and> hjr_owner r \<noteq> None \<and> \<not> owner_alive opt now r \<and> \<not> overdue opt now r"

lemma row_action_iff:
  assumes "job_live (hjr_state r)"
  shows "row_action opt now r = Some Recover_Interrupt \<longleftrightarrow> lost_run opt now r"
    "row_action opt now r = Some Recover_Expire \<longleftrightarrow> lost_wait opt now r"
    "row_action opt now r = Some Recover_Orphan \<longleftrightarrow> stranded opt now r"
    "row_action opt now r = None \<longleftrightarrow> \<not> lost_run opt now r \<and> \<not> lost_wait opt now r \<and> \<not> stranded opt now r"
proof -
  have state: "hjr_state r = Job_Queued \<or> hjr_state r = Job_Running" using assms by (auto simp: job_live_def)
  have od: "overdue opt now r \<longleftrightarrow>
      (case date_parse (hjr_requested_at r) of Some t \<Rightarrow> t \<le> now - rop_retention opt | None \<Rightarrow> True)"
    by (auto simp: overdue_def split: option.splits)
  show "row_action opt now r = Some Recover_Interrupt \<longleftrightarrow> lost_run opt now r"
    "row_action opt now r = Some Recover_Expire \<longleftrightarrow> lost_wait opt now r"
    "row_action opt now r = Some Recover_Orphan \<longleftrightarrow> stranded opt now r"
    "row_action opt now r = None \<longleftrightarrow> \<not> lost_run opt now r \<and> \<not> lost_wait opt now r \<and> \<not> stranded opt now r"
    using state unfolding row_action_def recovery_decision_def lost_run_def lost_wait_def stranded_def od [symmetric] owner_alive_def
    by (auto simp del: not_None_eq)
qed

lemma settled_row_eq:
  assumes "job_live (hjr_state r)"
  shows "settled_row opt now r =
    (if lost_run opt now r then r\<lparr>hjr_state := Job_Interrupted, hjr_finished_at := Some (Instant now),
         hjr_detail := optional_detail (Some (interrupt_detail (hjr_owner r)))\<rparr>
     else if lost_wait opt now r then r\<lparr>hjr_state := Job_Cancelled, hjr_finished_at := Some (Instant now),
         hjr_detail := optional_detail (Some expire_detail)\<rparr>
     else if stranded opt now r then r\<lparr>hjr_owner := None, hjr_heartbeat_at := Instant now\<rparr>
     else r)"
proof -
  have detail: "recovery_decision opt now w h b q = Some (Recover_Interrupt, d) \<Longrightarrow> d = Some (interrupt_detail w)"
    "recovery_decision opt now w h b q = Some (Recover_Expire, d) \<Longrightarrow> d = Some expire_detail" for w h b q d
    by (auto simp: recovery_decision_def split: if_splits)
  note act = row_action_iff [OF assms, of opt now, unfolded row_action_def]
  show ?thesis
  proof (cases "recovery_decision opt now (hjr_owner r) (hjr_heartbeat_at r) (hjr_state r = Job_Running) (hjr_requested_at r)")
    case None
    then show ?thesis using act(4) by (simp add: settled_row_def)
  next
    case (Some ad)
    then obtain a d where ad: "recovery_decision opt now (hjr_owner r) (hjr_heartbeat_at r)
        (hjr_state r = Job_Running) (hjr_requested_at r) = Some (a, d)" by (cases ad) simp
    show ?thesis
      using act(1-3) detail ad by (cases a) (auto simp: settled_row_def recovered_def lost_run_def lost_wait_def stranded_def)
  qed
qed

lemma length_live_rows: "length (live_rows db) = length (filter (\<lambda>r. job_live (hjr_state r)) db)"
  by (simp add: live_rows_def)

lemma count_rows:
  assumes "\<And>r. job_live (hjr_state r) \<Longrightarrow> row_action opt now r = a \<longleftrightarrow> P r"
  shows "count_list (map (row_action opt now) (live_rows db)) a
    = length (filter (\<lambda>r. job_live (hjr_state r) \<and> P r) db)"
proof -
  have "count_list (map f rs) a = length (filter (\<lambda>r. f r = a) rs)" for f :: "heavy_row \<Rightarrow> recovery_action option" and rs
    by (induction rs) auto
  then have "count_list (map (row_action opt now) (live_rows db)) a
      = length (filter (\<lambda>r. row_action opt now r = a) (filter (\<lambda>r. job_live (hjr_state r)) db))"
    unfolding live_rows_def by (simp only: filter_sort length_sort)
  also have "\<dots> = length (filter (\<lambda>r. job_live (hjr_state r) \<and> P r) db)"
    unfolding filter_filter using assms by (intro arg_cong [where f = length] filter_cong) auto
  finally show ?thesis .
qed

text \<open>
  C17: Recovery closes exactly the work of dead owners. Over a readable table one pass returns. It
  interrupts the running rows without a live owner, cancels the queued rows without one whose request
  is overdue, takes the dead owner off the other queued rows so that they can be claimed again, and
  keeps every other row as it is: those of the current owner, of an owner whose heartbeat is fresh, and
  the finished ones. No row appears or disappears, and each counter of the summary is the number of the
  rows that were treated so.
\<close>

theorem recovery_spares_live_owners:
  assumes ok: "heavy_db_ok db" and rd: "\<forall>r \<in> set db. job_live (hjr_state r) \<longrightarrow> readable r"
  shows "\<exists>db' s. reconcileOnce (sqlite_heavy_store me) opt now db = (db', Inr s) \<and>
     (\<forall>op. find_row db' op = (case find_row db op of None \<Rightarrow> None | Some r \<Rightarrow> Some
        (if lost_run opt now r then r\<lparr>hjr_state := Job_Interrupted, hjr_finished_at := Some (Instant now),
             hjr_detail := optional_detail (Some (interrupt_detail (hjr_owner r)))\<rparr>
         else if lost_wait opt now r then r\<lparr>hjr_state := Job_Cancelled, hjr_finished_at := Some (Instant now),
             hjr_detail := optional_detail (Some expire_detail)\<rparr>
         else if stranded opt now r then r\<lparr>hjr_owner := None, hjr_heartbeat_at := Instant now\<rparr>
         else r))) \<and>
     rcs_inspected s = length (filter (\<lambda>r. job_live (hjr_state r)) db) \<and>
     rcs_interrupted s = length (filter (lost_run opt now) db) \<and>
     rcs_expired s = length (filter (lost_wait opt now) db) \<and>
     rcs_orphaned s = length (filter (stranded opt now) db) \<and>
     rcs_retained s = length (filter (\<lambda>r. job_live (hjr_state r) \<and>
        \<not> lost_run opt now r \<and> \<not> lost_wait opt now r \<and> \<not> stranded opt now r) db)"
proof -
  obtain db' s where s: "reconcileOnce (sqlite_heavy_store me) opt now db = (db', Inr s)"
      and rows: "\<forall>r \<in> set db. find_row db' (hjr_operation r) =
          Some (if job_live (hjr_state r) then settled_row opt now r else r)"
      and none: "\<forall>op. find_row db op = None \<longrightarrow> find_row db' op = None"
      and counts: "s = add_counts (map (row_action opt now) (live_rows db)) \<lparr>rcs_inspected = length (live_rows db),
          rcs_interrupted = 0, rcs_orphaned = 0, rcs_expired = 0, rcs_retained = 0\<rparr>"
    using reconcile_effect [OF ok rd, of me opt now] by blast
  have live: "lost_run opt now r \<Longrightarrow> job_live (hjr_state r)" "lost_wait opt now r \<Longrightarrow> job_live (hjr_state r)"
      "stranded opt now r \<Longrightarrow> job_live (hjr_state r)" for r
    by (simp_all add: lost_run_def lost_wait_def stranded_def job_live_def)
  then have absorb: "(\<lambda>r. job_live (hjr_state r) \<and> lost_run opt now r) = lost_run opt now"
      "(\<lambda>r. job_live (hjr_state r) \<and> lost_wait opt now r) = lost_wait opt now"
      "(\<lambda>r. job_live (hjr_state r) \<and> stranded opt now r) = stranded opt now"
    by blast+
  have counted: "rcs_inspected s = length (filter (\<lambda>r. job_live (hjr_state r)) db)"
     "rcs_interrupted s = length (filter (lost_run opt now) db)"
     "rcs_expired s = length (filter (lost_wait opt now) db)"
     "rcs_orphaned s = length (filter (stranded opt now) db)"
     "rcs_retained s = length (filter (\<lambda>r. job_live (hjr_state r) \<and>
        \<not> lost_run opt now r \<and> \<not> lost_wait opt now r \<and> \<not> stranded opt now r) db)"
    unfolding counts add_counts_def
    by (simp_all add: count_rows [OF row_action_iff(1)] count_rows [OF row_action_iff(2)]
        count_rows [OF row_action_iff(3)] count_rows [OF row_action_iff(4)] length_live_rows absorb)
  show ?thesis
  proof (intro exI [of _ db'] exI [of _ s] conjI allI s counted)
    fix op
    show "find_row db' op = (case find_row db op of None \<Rightarrow> None | Some r \<Rightarrow> Some
        (if lost_run opt now r then r\<lparr>hjr_state := Job_Interrupted, hjr_finished_at := Some (Instant now),
             hjr_detail := optional_detail (Some (interrupt_detail (hjr_owner r)))\<rparr>
         else if lost_wait opt now r then r\<lparr>hjr_state := Job_Cancelled, hjr_finished_at := Some (Instant now),
             hjr_detail := optional_detail (Some expire_detail)\<rparr>
         else if stranded opt now r then r\<lparr>hjr_owner := None, hjr_heartbeat_at := Instant now\<rparr>
         else r))"
    proof (cases "find_row db op")
      case None
      then show ?thesis using none by simp
    next
      case (Some r)
      then have "r \<in> set db" "hjr_operation r = op" using find_row_SomeD by auto
      then have "find_row db' op = Some (if job_live (hjr_state r) then settled_row opt now r else r)"
        using rows by blast
      then show ?thesis using Some live settled_row_eq [of r opt now] by (cases "job_live (hjr_state r)") auto
    qed
  qed
qed

section \<open>Sample tables\<close>

definition sample_job :: "string \<Rightarrow> string \<Rightarrow> heavy_entry" where
  "sample_job op ws = \<lparr>hje_operation = op, hje_workspace = ws, hje_session = None, hje_kind = ''build'',
     hje_class = ''verification_heavy'', hje_cost = int_num 8, hje_blocking = True, hje_requested_at = Instant 0\<rparr>"

definition sample_jobs :: heavy_db where
  "sample_jobs = run_ops heavy_step [] [(''A'', HClaim (Instant 0) (sample_job ''a'' ''w'') 10 None),
     (''B'', HClaim (Instant 0) (sample_job ''b'' ''w'') 10 None)]"

lemma sample_jobs_ok: "heavy_db_ok sample_jobs"
  unfolding sample_jobs_def by (rule heavy_table.run_inv) (simp add: heavy_db_ok_def)

theorem foreign_live_work_untouched_witness:
  "\<exists>r. r \<in> set sample_jobs \<and> r \<in> set (heavy_step sample_jobs (''B'', HCancel ''a'' (Instant 1)))"
proof -
  have "\<not> is_recovery (HCancel ''a'' (Instant 1))" by simp
  moreover have "job_live (hjr_state (hd sample_jobs)) \<and> foreign_owner ''B'' (hd sample_jobs) \<and> sample_jobs \<noteq> []"
    by code_simp
  ultimately show ?thesis
    by (intro exI [of _ "hd sample_jobs"] conjI foreign_live_work_untouched [OF sample_jobs_ok]) simp_all
qed

theorem started_once_per_attempt_witness:
  "\<exists>db' r. heavy_start ''A'' sample_jobs ''a'' (Instant 5) = Inr (db', True) \<and> hjr_state (r :: heavy_row) = Job_Running \<and>
     heavy_start ''B'' (run_ops heavy_step db' [(''B'', HHeartbeat (Instant 6))]) ''a'' (Instant 7) \<noteq> Inr (db', True)"
proof -
  let ?res = "heavy_start ''A'' sample_jobs ''a'' (Instant 5)"
  let ?ys = "[(''B'', HHeartbeat (Instant 6))]"
  let ?t = "case ?res of Inr (db', b) \<Rightarrow> b \<and> (case (find_row db' ''a'', find_row (run_ops heavy_step db' ?ys) ''a'') of
      (Some r, Some r') \<Rightarrow> hjr_attempt r' = hjr_attempt r | _ \<Rightarrow> False) | Inl _ \<Rightarrow> False"
  have "?t" by code_simp
  then obtain db' r r' where start: "?res = Inr (db', True)" and r: "find_row db' ''a'' = Some r"
      "find_row (run_ops heavy_step db' ?ys) ''a'' = Some r'" "hjr_attempt r' = hjr_attempt r"
    by (auto split: sum.splits prod.splits option.splits)
  show ?thesis
    by (rule exI [of _ db'], rule exI [of _ r])
      (simp only: simp_thms not_False_eq_True start started_once_per_attempt [OF sample_jobs_ok start r, of "''B''" "Instant 7" db'])
qed

theorem recovery_spares_live_owners_witness:
  "\<exists>db' s. reconcileOnce (sqlite_heavy_store ''A'')
      \<lparr>rop_current_owner = Some ''A'', rop_stale_after = 90000, rop_retention = 3600000\<rparr> 100000 sample_jobs = (db', Inr s)
    \<and> rcs_inspected s = 2"
proof -
  have two: "length (filter (\<lambda>r. job_live (hjr_state r)) sample_jobs) = 2"
    and "list_all (\<lambda>r. job_live (hjr_state r) \<longrightarrow> readable r) sample_jobs"
    unfolding atomize_conj by code_simp
  then have "\<forall>r \<in> set sample_jobs. job_live (hjr_state r) \<longrightarrow> readable r" by (simp add: list_all_iff)
  from recovery_spares_live_owners [OF sample_jobs_ok this, of "''A''"
      "\<lparr>rop_current_owner = Some ''A'', rop_stale_after = 90000, rop_retention = 3600000\<rparr>" 100000]
  show ?thesis unfolding two by blast
qed

text \<open>
  The bound of one workspace is not kept: a finished operation that is claimed again for another
  workspace is queued under its old one.
\<close>

lemma workspace_bound_not_kept:
  "workspace_queued_depth (run_ops heavy_step []
     [(''A'', HClaim (Instant 0) (sample_job ''a'' ''p'') 10 (Some 1)), (''A'', HCancel ''a'' (Instant 1)),
      (''A'', HClaim (Instant 2) (sample_job ''b'' ''p'') 10 (Some 1)),
      (''A'', HClaim (Instant 3) (sample_job ''a'' ''q'') 10 (Some 1))]) ''p'' = 2"
  by code_simp

text \<open>Superseding an operation by itself retires it and queues nothing.\<close>

lemma supersede_by_itself_drops_the_job:
  "queued_depth sample_jobs = 2 \<and>
   queued_depth (heavy_step sample_jobs (''A'', HSupersede (Instant 1) ''a'' (sample_job ''a'' ''w'') 10 None)) = 1"
  by code_simp

end
