(* ===== verification/Heavy_Queue.thy ===== *)
theory Heavy_Queue
  imports Heavy_Job Heavy_Fairness
begin

text \<open>
  The waiter queue above the admission controller (packages/workspace/src/heavy-job-queue.ts,
  class \<open>HeavyJobWaiterQueue\<close>): its local rows, every operation with and without a durable store,
  and \<open>drain\<close>, which tries the rows in fair order against the controller. The store is any
  implementation of the interface \<open>heavy_store\<close>; \<open>None\<close> is the process-local queue.
\<close>

section \<open>State\<close>

record local_job =
  ljo_entry :: heavy_entry
  ljo_position :: int

record heavy_queue =
  hwq_jobs :: "local_job list"
  hwq_served :: "(string \<times> jsnum) list"
  hwq_next :: int

record queue_config =
  qcf_max :: int
  qcf_max_workspace :: int
  qcf_aging :: int

definition DEFAULT_HEAVY_JOB_AGING_MS :: int where
  "DEFAULT_HEAVY_JOB_AGING_MS = 30 * 60000"

datatype queue_config_error = Bad_MaxQueued | Bad_AgingMs | Bad_MaxPerWorkspace

definition safe_positive :: "jsnum \<Rightarrow> bool" where
  "safe_positive n \<longleftrightarrow> \<not> (\<not> num_is_safe_integer n \<or> num_int n < 1)"

definition new_queue_config ::
  "jsnum option \<Rightarrow> jsnum option \<Rightarrow> jsnum option \<Rightarrow> queue_config_error + queue_config" where
  "new_queue_config max_opt per_workspace aging =
     (let m = (case max_opt of None \<Rightarrow> int_num 64 | Some v \<Rightarrow> v);
          a = (case aging of None \<Rightarrow> int_num DEFAULT_HEAVY_JOB_AGING_MS | Some v \<Rightarrow> v);
          w = (case per_workspace of None \<Rightarrow> m | Some v \<Rightarrow> v) in
      if \<not> safe_positive m then Inl Bad_MaxQueued
      else if \<not> safe_positive a then Inl Bad_AgingMs
      else if \<not> safe_positive w \<or> num_int w > num_int m then Inl Bad_MaxPerWorkspace
      else Inr \<lparr>qcf_max = num_int m, qcf_max_workspace = num_int w, qcf_aging = num_int a\<rparr>)"

definition new_heavy_queue :: heavy_queue where
  "new_heavy_queue = \<lparr>hwq_jobs = [], hwq_served = [], hwq_next = 1\<rparr>"

abbreviation job_id :: "local_job \<Rightarrow> string" where
  "job_id j \<equiv> hje_operation (ljo_entry j)"

abbreviation job_ws :: "local_job \<Rightarrow> string" where
  "job_ws j \<equiv> hje_workspace (ljo_entry j)"

section \<open>Answers\<close>

datatype enqueue_result =
    Enq_Queued int
  | Enq_Coalesced int bool
  | Enq_Rejected full_scope int

datatype queue_supersede_result =
    Qsp_Superseded int
  | Qsp_Queued int
  | Qsp_Coalesced int
  | Qsp_Rejected full_scope int

section \<open>Local rows\<close>

definition queue_holds :: "heavy_queue \<Rightarrow> string \<Rightarrow> bool" where
  "queue_holds q op \<longleftrightarrow> (\<exists>j \<in> set (hwq_jobs q). job_id j = op)"

definition queue_length :: "heavy_queue \<Rightarrow> int" where
  "queue_length q = int (length (hwq_jobs q))"

definition workspaceQueuedDepth :: "heavy_queue \<Rightarrow> string \<Rightarrow> int" where
  "workspaceQueuedDepth q w = int (length (filter (\<lambda>j. job_ws j = w) (hwq_jobs q)))"

text \<open>Before the first row with a greater position, else at the end.\<close>

definition insertLocal :: "heavy_entry \<Rightarrow> int \<Rightarrow> heavy_queue \<Rightarrow> heavy_queue" where
  "insertLocal e position q = q\<lparr>
     hwq_jobs := takeWhile (\<lambda>j. \<not> ljo_position j > position) (hwq_jobs q)
       @ \<lparr>ljo_entry = e, ljo_position = position\<rparr>
       # dropWhile (\<lambda>j. \<not> ljo_position j > position) (hwq_jobs q),
     hwq_next := max (hwq_next q) (position + 1)\<rparr>"

fun remove_first :: "string \<Rightarrow> local_job list \<Rightarrow> local_job list" where
  "remove_first op [] = []"
| "remove_first op (j # js) = (if job_id j = op then js else j # remove_first op js)"

definition removeLocal :: "string \<Rightarrow> heavy_queue \<Rightarrow> heavy_queue" where
  "removeLocal op q = q\<lparr>hwq_jobs := remove_first op (hwq_jobs q)\<rparr>"

definition minimumPosition :: "local_job list \<Rightarrow> int" where
  "minimumPosition js = (case map ljo_position js of [] \<Rightarrow> 0 | p # ps \<Rightarrow> foldl min p ps)"

definition find_local :: "string \<Rightarrow> heavy_queue \<Rightarrow> local_job option" where
  "find_local op q = find (\<lambda>j. job_id j = op) (hwq_jobs q)"

definition queue_position :: "heavy_queue \<Rightarrow> string \<Rightarrow> int option" where
  "queue_position q op = map_option ljo_position (find_local op q)"

definition insert_unless_held :: "heavy_entry \<Rightarrow> int \<Rightarrow> heavy_queue \<Rightarrow> heavy_queue" where
  "insert_unless_held e position q =
     (if queue_holds q (hje_operation e) then q else insertLocal e position q)"

section \<open>Operations\<close>

definition enqueueLocal :: "queue_config \<Rightarrow> heavy_entry \<Rightarrow> heavy_queue \<Rightarrow> heavy_queue \<times> enqueue_result" where
  "enqueueLocal cfg e q =
     (if queue_holds q (hje_operation e) then (q, Enq_Coalesced (queue_length q) True)
      else if workspaceQueuedDepth q (hje_workspace e) \<ge> qcf_max_workspace cfg
      then (q, Enq_Rejected Full_Workspace (queue_length q))
      else if queue_length q \<ge> qcf_max cfg then (q, Enq_Rejected Full_Queue (queue_length q))
      else (let q' = insertLocal e (hwq_next q) q in (q', Enq_Queued (queue_length q'))))"

definition enqueueDurable ::
  "queue_config \<Rightarrow> 's heavy_store \<Rightarrow> iso \<Rightarrow> heavy_entry \<Rightarrow> 's \<Rightarrow> heavy_queue \<Rightarrow>
   heavy_error + ('s \<times> heavy_queue) \<times> enqueue_result" where
  "enqueueDurable cfg st now e s q =
     bind_ok (hst_claim st now s e (qcf_max cfg) (Some (qcf_max_workspace cfg))) (\<lambda>(s', claim).
     Inr (case claim of
       Claim_Full depth scope \<Rightarrow> ((s', q), Enq_Rejected scope depth)
     | Claim_Coalesced depth \<Rightarrow> ((s', q), Enq_Coalesced depth (queue_holds q (hje_operation e)))
     | Claim_Running depth \<Rightarrow> ((s', q), Enq_Coalesced depth False)
     | Claim_Queued position depth \<Rightarrow> ((s', insert_unless_held e position q), Enq_Queued depth)))"

definition enqueue ::
  "queue_config \<Rightarrow> 's heavy_store option \<Rightarrow> iso \<Rightarrow> heavy_request \<Rightarrow> 's \<Rightarrow> heavy_queue \<Rightarrow>
   heavy_error + ('s \<times> heavy_queue) \<times> enqueue_result" where
  "enqueue cfg store now r s q =
     (let e = normalize_heavy_request r now in
      case store of
        Some st \<Rightarrow> enqueueDurable cfg st now e s q
      | None \<Rightarrow> (case enqueueLocal cfg e q of (q', res) \<Rightarrow> Inr ((s, q'), res)))"

definition reattach ::
  "'s heavy_store option \<Rightarrow> iso \<Rightarrow> heavy_request \<Rightarrow> 's \<Rightarrow> heavy_queue \<Rightarrow>
   heavy_error + ('s \<times> heavy_queue) \<times> heavy_reattach" where
  "reattach store now r s q =
     (let e = normalize_heavy_request r now in
      case store of
        None \<Rightarrow> Inr ((s, q), Reattach_Missing (queue_length q))
      | Some st \<Rightarrow>
          bind_ok (hst_claim_existing st now s e) (\<lambda>(s', claim).
          Inr ((s', case claim of Reattach_Queued position _ \<Rightarrow> insert_unless_held e position q | _ \<Rightarrow> q), claim)))"

definition unshift :: "local_job \<Rightarrow> int \<Rightarrow> local_job list \<Rightarrow> local_job list" where
  "unshift j position js = j\<lparr>ljo_position := position\<rparr> # js"

definition promote ::
  "'s heavy_store option \<Rightarrow> string \<Rightarrow> 's \<Rightarrow> heavy_queue \<Rightarrow> heavy_error + ('s \<times> heavy_queue) \<times> bool" where
  "promote store op s q =
     (case find_local op q of
        None \<Rightarrow> Inr ((s, q), False)
      | Some j \<Rightarrow>
          (let others = remove_first op (hwq_jobs q) in
           case store of
             Some st \<Rightarrow>
               bind_ok (hst_promote st s op) (\<lambda>(s', moved).
               Inr (case moved of
                 None \<Rightarrow> ((s', q\<lparr>hwq_jobs := others\<rparr>), False)
               | Some position \<Rightarrow> ((s', q\<lparr>hwq_jobs := unshift j position others\<rparr>), True)))
           | None \<Rightarrow>
               if job_id (hd (hwq_jobs q)) = op then Inr ((s, q), True)
               else Inr ((s, q\<lparr>hwq_jobs := unshift j (minimumPosition others - 1) others\<rparr>), True)))"

definition queue_cancel ::
  "'s heavy_store option \<Rightarrow> iso \<Rightarrow> string \<Rightarrow> 's \<Rightarrow> heavy_queue \<Rightarrow>
   ('s \<times> heavy_queue) \<times> (heavy_error + bool)" where
  "queue_cancel store now op s q =
     (if \<not> queue_holds q op then ((s, q), Inr False)
      else (let q' = removeLocal op q in
        case store of
          None \<Rightarrow> ((s, q'), Inr True)
        | Some st \<Rightarrow> (case hst_cancel st s op now of
            Inl e \<Rightarrow> ((s, q'), Inl e)
          | Inr (s', _) \<Rightarrow> ((s', q'), Inr True))))"

fun replace_first :: "string \<Rightarrow> (local_job \<Rightarrow> local_job) \<Rightarrow> local_job list \<Rightarrow> local_job list" where
  "replace_first op f [] = []"
| "replace_first op f (j # js) = (if job_id j = op then f j # js else j # replace_first op f js)"

definition supersedeLocal ::
  "queue_config \<Rightarrow> string \<Rightarrow> heavy_entry \<Rightarrow> heavy_queue \<Rightarrow> heavy_queue \<times> queue_supersede_result" where
  "supersedeLocal cfg stale e q =
     (if \<not> queue_holds q stale then
        (case enqueueLocal cfg e q of
           (q', Enq_Rejected scope d) \<Rightarrow> (q', Qsp_Rejected scope d)
         | (q', Enq_Coalesced d _) \<Rightarrow> (q', Qsp_Coalesced d)
         | (q', Enq_Queued d) \<Rightarrow> (q', Qsp_Queued d))
      else if queue_holds q (hje_operation e) then
        (let q' = removeLocal stale q in (q', Qsp_Coalesced (queue_length q')))
      else
        (let q' = q\<lparr>hwq_jobs := replace_first stale (\<lambda>j. j\<lparr>ljo_entry := e\<rparr>) (hwq_jobs q)\<rparr> in
         (q', Qsp_Superseded (queue_length q'))))"

definition supersedeDurable ::
  "queue_config \<Rightarrow> 's heavy_store \<Rightarrow> iso \<Rightarrow> string \<Rightarrow> heavy_entry \<Rightarrow> 's \<Rightarrow> heavy_queue \<Rightarrow>
   heavy_error + ('s \<times> heavy_queue) \<times> queue_supersede_result" where
  "supersedeDurable cfg st now stale e s q =
     bind_ok (hst_supersede st now s stale e (qcf_max cfg) (Some (qcf_max_workspace cfg))) (\<lambda>(s', stored).
     Inr (let q' = removeLocal stale q in case stored of
       Sup_Full depth scope \<Rightarrow> ((s', q), Qsp_Rejected scope depth)
     | Sup_Coalesced depth \<Rightarrow> ((s', q'), Qsp_Coalesced depth)
     | Sup_Superseded position depth \<Rightarrow> ((s', insert_unless_held e position q'), Qsp_Superseded depth)
     | Sup_Queued position depth \<Rightarrow> ((s', insert_unless_held e position q'), Qsp_Queued depth)))"

definition supersede ::
  "queue_config \<Rightarrow> 's heavy_store option \<Rightarrow> iso \<Rightarrow> string \<Rightarrow> heavy_request \<Rightarrow> 's \<Rightarrow> heavy_queue \<Rightarrow>
   heavy_error + ('s \<times> heavy_queue) \<times> queue_supersede_result" where
  "supersede cfg store now stale r s q =
     (let e = normalize_heavy_request r now in
      case store of
        Some st \<Rightarrow> supersedeDurable cfg st now stale e s q
      | None \<Rightarrow> (case supersedeLocal cfg stale e q of (q', res) \<Rightarrow> Inr ((s, q'), res)))"

definition queue_depth :: "'s heavy_store option \<Rightarrow> 's \<Rightarrow> heavy_queue \<Rightarrow> int" where
  "queue_depth store s q = (case store of None \<Rightarrow> queue_length q | Some st \<Rightarrow> hst_depth st s)"

definition queue_settle ::
  "'s heavy_store option \<Rightarrow> iso \<Rightarrow> string \<Rightarrow> settle_outcome \<Rightarrow> string option \<Rightarrow> 's \<Rightarrow> heavy_error + 's \<times> bool" where
  "queue_settle store now op outcome detail s =
     (case store of None \<Rightarrow> Inr (s, True) | Some st \<Rightarrow> hst_settle st s op outcome now detail)"

section \<open>Draining\<close>

definition isGlobalAdmissionDenial :: "pressure_reason \<Rightarrow> bool" where
  "isGlobalAdmissionDenial r \<longleftrightarrow>
     r = Memory_Pressure \<or> r = Global_Cost_Exhausted \<or> r = Operation_Limit_Exhausted"

definition pruneFairnessHistory :: "heavy_queue \<Rightarrow> heavy_queue" where
  "pruneFairnessHistory q =
     q\<lparr>hwq_served := filter (\<lambda>(w, _). w \<in> set (map job_ws (hwq_jobs q))) (hwq_served q)\<rparr>"

definition fairness_candidate :: "local_job \<Rightarrow> fair_candidate" where
  "fairness_candidate j = \<lparr>fca_operation = job_id j, fca_workspace = job_ws j,
     fca_requested_at = hje_requested_at (ljo_entry j), fca_blocking = hje_blocking (ljo_entry j),
     fca_position = ljo_position j\<rparr>"

definition fairnessCandidates :: "heavy_queue \<Rightarrow> heavy_queue \<times> fair_candidate list" where
  "fairnessCandidates q = (let q' = pruneFairnessHistory q in (q', map fairness_candidate (hwq_jobs q')))"

definition fairness_context :: "queue_config \<Rightarrow> int \<Rightarrow> heavy_queue \<Rightarrow> fair_context" where
  "fairness_context cfg now q = \<lparr>fcx_now = now, fcx_aging = qcf_aging cfg, fcx_served = hwq_served q\<rparr>"

definition fairnessSnapshot :: "queue_config \<Rightarrow> int \<Rightarrow> heavy_queue \<Rightarrow> heavy_queue \<times> fair_entry list option" where
  "fairnessSnapshot cfg now q =
     (case fairnessCandidates q of (q', cs) \<Rightarrow> (q', projectHeavyJobFairness cs (fairness_context cfg now q')))"

definition request_of_entry :: "heavy_entry \<Rightarrow> admission_request" where
  "request_of_entry e = \<lparr>arq_operation = JStr (hje_operation e), arq_workspace = JStr (hje_workspace e),
     arq_session = (case hje_session e of None \<Rightarrow> JUndefined | Some s \<Rightarrow> JStr s),
     arq_class = JStr (hje_class e), arq_cost = JNum (hje_cost e)\<rparr>"

definition mark_served :: "string \<Rightarrow> int \<Rightarrow> heavy_queue \<Rightarrow> heavy_queue" where
  "mark_served w now q = q\<lparr>hwq_served := (w, int_num now) # filter (\<lambda>(v, _). v \<noteq> w) (hwq_served q)\<rparr>"

datatype drain_error = Drain_Admission probe_error | Drain_Store heavy_error | Drain_Range

text \<open>
  The objects a drain changes, the operations its owner was told to retire, and the leases the
  release listeners handed out.
\<close>

record 's drain_world =
  dwo_admission :: admission
  dwo_queue :: heavy_queue
  dwo_store :: 's
  dwo_retired :: "string list"
  dwo_granted :: "admission_lease list"

text \<open>
  What a drain reads: the limits, the readings and the clock at each candidate, the store, and what
  the release listeners do when a lease is released inside the loop.
\<close>

record 's drain_env =
  den_config :: admission_config
  den_reading :: "string \<Rightarrow> admission_reading"
  den_store :: "'s heavy_store option"
  den_started :: "string \<Rightarrow> iso"
  den_now :: int
  den_wake :: "'s drain_world \<Rightarrow> 's drain_world"

definition admit_job :: "int \<Rightarrow> local_job \<Rightarrow> 's drain_world \<Rightarrow> 's drain_world" where
  "admit_job now j w = w\<lparr>dwo_queue := removeLocal (job_id j) (mark_served (job_ws j) now (dwo_queue w))\<rparr>"

text \<open>\<open>controller.release\<close> with its listeners, then the local row and the owner's notice.\<close>

definition retire_job :: "'s drain_env \<Rightarrow> local_job \<Rightarrow> admission_lease \<Rightarrow> 's drain_world \<Rightarrow> 's drain_world" where
  "retire_job env j l w =
     (case release (dwo_admission w) l of (adm, released) \<Rightarrow>
        let w1 = w\<lparr>dwo_admission := adm\<rparr>;
            w2 = (if released then den_wake env w1 else w1) in
        w2\<lparr>dwo_queue := removeLocal (job_id j) (dwo_queue w2), dwo_retired := dwo_retired w2 @ [job_id j]\<rparr>)"

fun drain_loop ::
  "'s drain_env \<Rightarrow> (string \<Rightarrow> local_job option) \<Rightarrow> string list \<Rightarrow> 's drain_world \<Rightarrow> admission_lease list \<Rightarrow>
   's drain_world \<times> (drain_error + admission_lease list)" where
  "drain_loop env rows [] w admitted = (w, Inr admitted)"
| "drain_loop env rows (op # ops) w admitted =
     (case rows op of
        None \<Rightarrow> drain_loop env rows ops w admitted
      | Some j \<Rightarrow>
          (case tryAcquire (den_config env) (den_reading env op) (dwo_admission w) (request_of_entry (ljo_entry j)) of
             (adm, Inl e) \<Rightarrow> (w\<lparr>dwo_admission := adm\<rparr>, Inl (Drain_Admission e))
           | (adm, Inr (Pressured why _ _)) \<Rightarrow>
               if isGlobalAdmissionDenial why then (w\<lparr>dwo_admission := adm\<rparr>, Inr admitted)
               else drain_loop env rows ops (w\<lparr>dwo_admission := adm\<rparr>) admitted
           | (adm, Inr (Refused _ _ _)) \<Rightarrow> drain_loop env rows ops (w\<lparr>dwo_admission := adm\<rparr>) admitted
           | (adm, Inr (Admitted l _)) \<Rightarrow>
               (let w1 = w\<lparr>dwo_admission := adm\<rparr> in
                case den_store env of
                  None \<Rightarrow> drain_loop env rows ops (admit_job (den_now env) j w1) (admitted @ [l])
                | Some st \<Rightarrow>
                    (case hst_start st (dwo_store w) (job_id j) (den_started env op) of
                       Inl e \<Rightarrow> (w1, Inl (Drain_Store e))
                     | Inr (s', False) \<Rightarrow>
                         drain_loop env rows ops (retire_job env j l (w1\<lparr>dwo_store := s'\<rparr>)) admitted
                     | Inr (s', True) \<Rightarrow>
                         drain_loop env rows ops (admit_job (den_now env) j (w1\<lparr>dwo_store := s'\<rparr>)) (admitted @ [l])))))"

text \<open>The rows by operation: a JavaScript map keeps the last row of an operation.\<close>

definition rows_by_id :: "local_job list \<Rightarrow> string \<Rightarrow> local_job option" where
  "rows_by_id js op = find (\<lambda>j. job_id j = op) (rev js)"

definition drain ::
  "queue_config \<Rightarrow> 's drain_env \<Rightarrow> 's drain_world \<Rightarrow> 's drain_world \<times> (drain_error + admission_lease list)" where
  "drain cfg env w =
     (case fairnessCandidates (dwo_queue w) of (q', cs) \<Rightarrow>
        case orderHeavyJobs cs (fairness_context cfg (den_now env) q') of
          None \<Rightarrow> (w\<lparr>dwo_queue := q'\<rparr>, Inl Drain_Range)
        | Some ops \<Rightarrow> drain_loop env (rows_by_id (hwq_jobs q')) ops (w\<lparr>dwo_queue := q'\<rparr>) [])"

end
