(* ===== verification/Heavy_Drain.thy ===== *)
theory Heavy_Drain
  imports Heavy_Queue Heavy_Recovery Resource_Admission_Safety
begin

text \<open>
  What the waiter queue promises. The process-local queue keeps one row per operation in position
  order within its bound. A drain over a store with the contract \<open>start_port\<close> admits only rows it
  held, in fair order, each with an active lease and a started durable row, and never breaks the
  ceilings of the controller.
\<close>

section \<open>The process-local queue\<close>

definition local_ok :: "queue_config \<Rightarrow> heavy_queue \<Rightarrow> bool" where
  "local_ok cfg q \<longleftrightarrow> distinct (map job_id (hwq_jobs q)) \<and> sorted (map ljo_position (hwq_jobs q)) \<and>
     (\<forall>j \<in> set (hwq_jobs q). ljo_position j < hwq_next q) \<and> queue_length q \<le> qcf_max cfg"

datatype local_op =
    Loc_Enqueue heavy_entry
  | Loc_Promote string
  | Loc_Cancel string
  | Loc_Supersede string heavy_entry
  | Loc_Remove string

definition local_step :: "queue_config \<Rightarrow> heavy_queue \<Rightarrow> local_op \<Rightarrow> heavy_queue" where
  "local_step cfg q x = (case x of
     Loc_Enqueue e \<Rightarrow> fst (enqueueLocal cfg e q)
   | Loc_Promote op \<Rightarrow> (case promote (None :: unit heavy_store option) op () q of Inr ((_, q'), _) \<Rightarrow> q' | Inl _ \<Rightarrow> q)
   | Loc_Cancel op \<Rightarrow> snd (fst (queue_cancel (None :: unit heavy_store option) (Instant 0) op () q))
   | Loc_Supersede stale e \<Rightarrow> fst (supersedeLocal cfg stale e q)
   | Loc_Remove op \<Rightarrow> removeLocal op q)"

lemma remove_first_subset: "set (remove_first op js) \<subseteq> set js"
  by (induction js) auto

lemma remove_first_facts:
  assumes "distinct (map job_id js)"
  shows "distinct (map job_id (remove_first op js))" "set (map job_id (remove_first op js)) = set (map job_id js) - {op}"
proof -
  have "map job_id (remove_first op js) = remove1 op (map job_id js)" by (induction js) auto
  then show "distinct (map job_id (remove_first op js))"
      "set (map job_id (remove_first op js)) = set (map job_id js) - {op}"
    using assms by (simp_all only: distinct_remove1 set_remove1_eq)
qed

lemma remove_first_sorted: "sorted (map ljo_position js) \<Longrightarrow> sorted (map ljo_position (remove_first op js))"
  using remove_first_subset [of op] by (induction js) auto

lemma length_remove_first: "length (remove_first op js) \<le> length js"
  by (induction js) auto

lemma length_remove_first_held: "op \<in> set (map job_id js) \<Longrightarrow> Suc (length (remove_first op js)) = length js"
  by (induction js) auto

lemma insertLocal_jobs:
  "mset (hwq_jobs (insertLocal e p q)) = add_mset \<lparr>ljo_entry = e, ljo_position = p\<rparr> (mset (hwq_jobs q))"
proof -
  let ?P = "\<lambda>j. \<not> ljo_position j > p"
  have "mset (takeWhile ?P (hwq_jobs q)) + mset (dropWhile ?P (hwq_jobs q)) = mset (hwq_jobs q)"
    by (metis mset_append takeWhile_dropWhile_id)
  then show ?thesis by (simp add: insertLocal_def)
qed

lemma insertLocal_set:
  "set (hwq_jobs (insertLocal e p q)) = insert \<lparr>ljo_entry = e, ljo_position = p\<rparr> (set (hwq_jobs q))"
  by (metis insertLocal_jobs set_mset_add_mset_insert set_mset_mset)

lemma insertLocal_length: "length (hwq_jobs (insertLocal e p q)) = Suc (length (hwq_jobs q))"
  by (metis insertLocal_jobs size_add_mset size_mset)

lemma insertLocal_distinct:
  assumes "distinct (map job_id (hwq_jobs q))" "\<not> queue_holds q (hje_operation e)"
  shows "distinct (map job_id (hwq_jobs (insertLocal e p q)))"
proof -
  have "mset (map job_id (hwq_jobs (insertLocal e p q))) = mset (hje_operation e # map job_id (hwq_jobs q))"
    by (simp add: insertLocal_jobs)
  moreover have "distinct (hje_operation e # map job_id (hwq_jobs q))"
    using assms by (auto simp: queue_holds_def)
  ultimately show ?thesis by (metis mset_eq_imp_distinct_iff)
qed

lemma insertLocal_sorted:
  assumes "sorted (map ljo_position (hwq_jobs q))"
  shows "sorted (map ljo_position (hwq_jobs (insertLocal e p q)))"
proof -
  let ?P = "\<lambda>j. \<not> ljo_position j > p"
  have "sorted (map ljo_position (takeWhile ?P js @ \<lparr>ljo_entry = e, ljo_position = p\<rparr> # dropWhile ?P js))"
    if "sorted (map ljo_position js)" for js
    using that
  proof (induction js)
    case (Cons j js)
    then show ?case
      by (cases "?P j") (auto dest!: set_takeWhileD set_dropWhileD)
  qed simp
  then show ?thesis using assms by (simp add: insertLocal_def)
qed

lemma enqueueLocal_ok:
  assumes "local_ok cfg q"
  shows "local_ok cfg (fst (enqueueLocal cfg e q))"
proof -
  have "local_ok cfg (insertLocal e (hwq_next q) q)"
    if "\<not> queue_holds q (hje_operation e)" "\<not> queue_length q \<ge> qcf_max cfg"
  proof -
    have "hwq_next (insertLocal e (hwq_next q) q) = hwq_next q + 1" by (simp add: insertLocal_def)
    moreover have "\<forall>j \<in> set (hwq_jobs (insertLocal e (hwq_next q) q)). ljo_position j < hwq_next q + 1"
      using assms by (auto simp: insertLocal_set local_ok_def)
    ultimately show ?thesis
      using assms that insertLocal_distinct [of q e "hwq_next q"] insertLocal_sorted [of q e "hwq_next q"]
      by (simp add: local_ok_def queue_length_def insertLocal_length)
  qed
  then show ?thesis using assms by (simp add: enqueueLocal_def Let_def)
qed

lemma removeLocal_ok: "local_ok cfg q \<Longrightarrow> local_ok cfg (removeLocal op q)"
  using remove_first_facts [of "hwq_jobs q" op] remove_first_sorted [of "hwq_jobs q" op]
    remove_first_subset [of op "hwq_jobs q"] length_remove_first [of op "hwq_jobs q"]
  by (auto simp: local_ok_def removeLocal_def queue_length_def)

lemma minimumPosition_le: "j \<in> set js \<Longrightarrow> minimumPosition js \<le> ljo_position j"
proof -
  have le: "foldl min p ps \<le> p \<and> (\<forall>x \<in> set ps. foldl min p ps \<le> x)" for p and ps :: "int list"
    by (induction ps arbitrary: p) (auto, (meson order_trans min.cobounded1 min.cobounded2)+)
  assume "j \<in> set js"
  then show ?thesis using le by (cases js) (auto simp: minimumPosition_def)
qed

lemma promote_local_ok:
  assumes ok: "local_ok cfg q" and res: "promote (None :: 's heavy_store option) op s q = Inr ((s', q'), b)"
  shows "local_ok cfg q'"
proof (cases "find_local op q")
  case None
  then show ?thesis using assms by (simp add: promote_def)
next
  case (Some j)
  let ?others = "remove_first op (hwq_jobs q)"
  have j: "j \<in> set (hwq_jobs q)" "job_id j = op" using Some by (auto simp: find_local_def find_Some_iff)
  show ?thesis
  proof (cases "job_id (hd (hwq_jobs q)) = op")
    case True
    then show ?thesis using assms Some by (simp add: promote_def Let_def)
  next
    case False
    then have q': "q' = q\<lparr>hwq_jobs := unshift j (minimumPosition ?others - 1) ?others\<rparr>"
      using res Some by (simp add: promote_def Let_def)
    have others: "distinct (map job_id ?others)" "set (map job_id ?others) = set (map job_id (hwq_jobs q)) - {op}"
      using remove_first_facts [of "hwq_jobs q" op] ok by (auto simp: local_ok_def)
    have ne: "?others \<noteq> []"
    proof -
      have "hd (hwq_jobs q) \<in> set (hwq_jobs q)" using j by (cases "hwq_jobs q") auto
      then have "job_id (hd (hwq_jobs q)) \<in> set (map job_id ?others)" using False others(2) by simp
      then show ?thesis by auto
    qed
    have min_le: "\<forall>x \<in> set ?others. minimumPosition ?others - 1 \<le> ljo_position x"
      using minimumPosition_le by fastforce
    have bound: "\<forall>x \<in> set ?others. ljo_position x < hwq_next q"
      using ok remove_first_subset by (fastforce simp: local_ok_def)
    then have "minimumPosition ?others - 1 < hwq_next q"
      using ne min_le by (cases ?others) force+
    moreover have "length (j # ?others) \<le> length (hwq_jobs q)"
      using length_remove_first_held [of op "hwq_jobs q"] j by (cases "hwq_jobs q") auto
    ultimately show ?thesis
      using ok others remove_first_sorted [of "hwq_jobs q" op] min_le bound j(2)
      by (auto simp: q' local_ok_def unshift_def queue_length_def)
  qed
qed

lemma replace_first_positions: "map ljo_position (replace_first op (\<lambda>j. j\<lparr>ljo_entry := e\<rparr>) js) = map ljo_position js"
  by (induction js) auto

lemma replace_first_ids:
  "distinct (map job_id js) \<Longrightarrow> hje_operation e \<notin> set (map job_id js) \<Longrightarrow>
   distinct (map job_id (replace_first op (\<lambda>j. j\<lparr>ljo_entry := e\<rparr>) js)) \<and>
   set (map job_id (replace_first op (\<lambda>j. j\<lparr>ljo_entry := e\<rparr>) js)) \<subseteq> insert (hje_operation e) (set (map job_id js))"
  by (induction js) auto

lemma supersedeLocal_ok:
  assumes ok: "local_ok cfg q"
  shows "local_ok cfg (fst (supersedeLocal cfg stale e q))"
proof -
  have enq: "local_ok cfg q'" if "enqueueLocal cfg e q = (q', res)" for q' res
    using enqueueLocal_ok [OF ok, of e] that by simp
  have rep: "local_ok cfg (q\<lparr>hwq_jobs := replace_first stale (\<lambda>j. j\<lparr>ljo_entry := e\<rparr>) (hwq_jobs q)\<rparr>)"
    if "\<not> queue_holds q (hje_operation e)"
  proof -
    let ?js = "replace_first stale (\<lambda>j. j\<lparr>ljo_entry := e\<rparr>) (hwq_jobs q)"
    have "map ljo_position ?js = map ljo_position (hwq_jobs q)" by (rule replace_first_positions)
    moreover from this have "length ?js = length (hwq_jobs q)" by (metis length_map)
    moreover have "ljo_position ` set ?js = ljo_position ` set (hwq_jobs q)"
      using calculation(1) by (metis list.set_map)
    then have "\<forall>j \<in> set ?js. ljo_position j < hwq_next q"
      using ok unfolding local_ok_def by (metis image_iff)
    moreover have "hje_operation e \<notin> set (map job_id (hwq_jobs q))" using that by (auto simp: queue_holds_def)
    then have "distinct (map job_id ?js)"
      using ok replace_first_ids [of "hwq_jobs q" e stale] by (simp add: local_ok_def)
    ultimately show ?thesis using ok by (simp add: local_ok_def queue_length_def)
  qed
  show ?thesis
    using ok rep removeLocal_ok [OF ok, of stale] enq
    by (auto simp: supersedeLocal_def Let_def split: enqueue_result.splits prod.splits)
qed

lemma local_step_ok: "local_ok cfg q \<Longrightarrow> local_ok cfg (local_step cfg q x)"
  by (auto simp: local_step_def queue_cancel_def Let_def
      intro: enqueueLocal_ok supersedeLocal_ok removeLocal_ok promote_local_ok split: local_op.splits sum.splits)

interpretation local_queue: invariant_machine "local_step cfg" "local_ok cfg" for cfg
  by unfold_locales (rule local_step_ok)

end
