(* ===== verification/Heavy_Drain_Safety.thy ===== *)
theory Heavy_Drain_Safety
  imports Heavy_Drain "HOL-Library.Sublist"
begin

text \<open>
  The effect of one drain: the contract a durable store has to keep, the loop proved once inside
  it, its instance for the SQLite store, and the properties of the waiter queue.
\<close>

section \<open>The contract of the store\<close>

definition world_ok :: "('s \<Rightarrow> bool) \<Rightarrow> admission_config \<Rightarrow> 's drain_world \<Rightarrow> bool" where
  "world_ok ok cfg w \<longleftrightarrow> ok (dwo_store w) \<and> admission_inv cfg (dwo_admission w) \<and>
     distinct (map job_id (hwq_jobs (dwo_queue w)))"

text \<open>No waiting row appears, no lease is lost and no started row stops.\<close>

definition drain_mono :: "('s \<Rightarrow> string \<Rightarrow> bool) \<Rightarrow> 's drain_world \<Rightarrow> 's drain_world \<Rightarrow> bool" where
  "drain_mono started w w' \<longleftrightarrow>
     set (map job_id (hwq_jobs (dwo_queue w'))) \<subseteq> set (map job_id (hwq_jobs (dwo_queue w))) \<and>
     set (adm_active (dwo_admission w)) \<subseteq> set (adm_active (dwo_admission w')) \<and>
     (\<forall>op. started (dwo_store w) op \<longrightarrow> started (dwo_store w') op)"

lemma drain_mono_refl [simp]: "drain_mono started w w"
  by (simp add: drain_mono_def)

lemma drain_mono_trans: "drain_mono started u v \<Longrightarrow> drain_mono started v w \<Longrightarrow> drain_mono started u w"
  unfolding drain_mono_def by (meson order_trans)

locale start_port =
  fixes st :: "'s heavy_store"
    and ok :: "'s \<Rightarrow> bool"
    and started :: "'s \<Rightarrow> string \<Rightarrow> bool"
  assumes start_ok: "ok s \<Longrightarrow> hst_start st s op t = Inr (s', b) \<Longrightarrow> ok s'"
    and start_started: "ok s \<Longrightarrow> hst_start st s op t = Inr (s', True) \<Longrightarrow> started s' op"
    and start_keeps: "ok s \<Longrightarrow> hst_start st s op t = Inr (s', b) \<Longrightarrow> started s op' \<Longrightarrow> started s' op'"

text \<open>What the listeners of a release may do: nothing a drain relies on is undone.\<close>

definition wake_keeps ::
  "('s \<Rightarrow> bool) \<Rightarrow> ('s \<Rightarrow> string \<Rightarrow> bool) \<Rightarrow> admission_config \<Rightarrow> ('s drain_world \<Rightarrow> 's drain_world) \<Rightarrow> bool" where
  "wake_keeps ok started cfg f \<longleftrightarrow> (\<forall>w. world_ok ok cfg w \<longrightarrow> world_ok ok cfg (f w) \<and> drain_mono started w (f w))"

lemma wake_keeps_id [simp]: "wake_keeps ok started cfg id"
  by (simp add: wake_keeps_def)

section \<open>Steps of the loop\<close>

lemma acquire_keeps_active:
  "set (adm_active st) \<subseteq> set (adm_active (fst (tryAcquire cfg rd st r)))"
  by (rule tryAcquire_activeE [of cfg rd st r]) auto

lemma acquire_world:
  assumes "world_ok ok cfg w"
  shows "world_ok ok cfg (w\<lparr>dwo_admission := fst (tryAcquire cfg rd (dwo_admission w) r)\<rparr>)"
    and "drain_mono started w (w\<lparr>dwo_admission := fst (tryAcquire cfg rd (dwo_admission w) r)\<rparr>)"
  using assms acquire_inv acquire_keeps_active by (auto simp: world_ok_def drain_mono_def)

lemma removeLocal_ids:
  assumes "distinct (map job_id (hwq_jobs q))"
  shows "distinct (map job_id (hwq_jobs (removeLocal op q)))"
    and "set (map job_id (hwq_jobs (removeLocal op q))) = set (map job_id (hwq_jobs q)) - {op}"
  unfolding removeLocal_def using remove_first_facts [OF assms, of op] by simp_all

lemma admit_job_world:
  assumes "world_ok ok cfg w"
  shows "world_ok ok cfg (admit_job now j w)" "drain_mono started w (admit_job now j w)"
    and "job_id j \<notin> set (map job_id (hwq_jobs (dwo_queue (admit_job now j w))))"
proof -
  let ?q = "mark_served (job_ws j) now (dwo_queue w)"
  have jobs: "hwq_jobs ?q = hwq_jobs (dwo_queue w)" by (simp add: mark_served_def)
  then have "distinct (map job_id (hwq_jobs ?q))" using assms by (simp add: world_ok_def)
  note r = removeLocal_ids [OF this, of "job_id j"]
  show "world_ok ok cfg (admit_job now j w)" using assms r(1) by (simp add: world_ok_def admit_job_def)
  show "drain_mono started w (admit_job now j w)"
    using r(2) jobs by (simp only: drain_mono_def admit_job_def) auto
  show "job_id j \<notin> set (map job_id (hwq_jobs (dwo_queue (admit_job now j w))))"
    using r(2) by (simp only: admit_job_def) auto
qed

lemma lease_of_entry: "ale_operation (lease_of_request (request_of_entry e)) = hje_operation e"
  by (simp add: lease_of_request_def request_of_entry_def)

text \<open>Releasing the lease that was just taken gives the active leases back.\<close>

lemma release_just_taken:
  assumes inv: "admission_inv cfg adm" and acq: "tryAcquire cfg rd adm r = (adm1, Inr (Admitted l s))"
  shows "snd (release adm1 l)" "adm_active (fst (release adm1 l)) = adm_active adm"
    "admission_inv cfg (fst (release adm1 l))"
proof -
  note a = tryAcquire_AdmittedD [OF acq]
  have "\<forall>x \<in> set (adm_active adm). ale_operation x \<noteq> ale_operation l" using a(3) by (auto simp: is_active_def)
  then have "find_active adm1 (ale_operation l) = Some l" by (simp add: a(4) find_active_def find_after)
  then show "snd (release adm1 l)" "adm_active (fst (release adm1 l)) = adm_active adm"
    using \<open>\<forall>x \<in> set (adm_active adm). ale_operation x \<noteq> ale_operation l\<close>
    by (simp_all add: release_result release_active) (simp add: a(4))
  have "admission_inv cfg adm1" using acquire_inv [OF inv, of rd r] acq by simp
  then show "admission_inv cfg (fst (release adm1 l))" by (rule release_inv)
qed

lemma retire_job_world:
  assumes w: "world_ok ok cfg w" and wake: "wake_keeps ok started cfg (den_wake env)"
    and acq: "tryAcquire cfg rd (dwo_admission w) r = (adm1, Inr (Admitted l s))"
    and s': "ok s'" "\<forall>op. started (dwo_store w) op \<longrightarrow> started s' op"
  shows "world_ok ok cfg (retire_job env j l (w\<lparr>dwo_admission := adm1, dwo_store := s'\<rparr>))"
    and "drain_mono started w (retire_job env j l (w\<lparr>dwo_admission := adm1, dwo_store := s'\<rparr>))"
proof -
  have inv: "admission_inv cfg (dwo_admission w)" using w by (simp add: world_ok_def)
  obtain adm2 where rel: "release adm1 l = (adm2, True)"
    using release_just_taken(1) [OF inv acq] by (cases "release adm1 l") auto
  define w1 where "w1 = w\<lparr>dwo_store := s', dwo_admission := adm2\<rparr>"
  have adm2: "adm_active adm2 = adm_active (dwo_admission w)" "admission_inv cfg adm2"
    using release_just_taken(2,3) [OF inv acq] rel by simp_all
  have w1: "world_ok ok cfg w1" "drain_mono started w w1"
    using w s' adm2 by (simp_all add: w1_def world_ok_def drain_mono_def)
  have w2: "world_ok ok cfg (den_wake env w1)" "drain_mono started w1 (den_wake env w1)"
    using wake w1(1) by (simp_all add: wake_keeps_def)
  have eq: "retire_job env j l (w\<lparr>dwo_admission := adm1, dwo_store := s'\<rparr>) =
      (den_wake env w1)\<lparr>dwo_queue := removeLocal (job_id j) (dwo_queue (den_wake env w1)),
         dwo_retired := dwo_retired (den_wake env w1) @ [job_id j]\<rparr>"
    using rel by (simp add: retire_job_def Let_def w1_def)
  have dist: "distinct (map job_id (hwq_jobs (dwo_queue (den_wake env w1))))"
    using w2(1) by (simp add: world_ok_def)
  note ids = removeLocal_ids [OF dist, of "job_id j"]
  show "world_ok ok cfg (retire_job env j l (w\<lparr>dwo_admission := adm1, dwo_store := s'\<rparr>))"
    unfolding eq using w2(1) ids(1) by (simp add: world_ok_def)
  have "drain_mono started (den_wake env w1) (retire_job env j l (w\<lparr>dwo_admission := adm1, dwo_store := s'\<rparr>))"
    unfolding eq using ids(2) by (simp only: drain_mono_def) auto
  then show "drain_mono started w (retire_job env j l (w\<lparr>dwo_admission := adm1, dwo_store := s'\<rparr>))"
    using w1(2) w2(2) drain_mono_trans by blast
qed

section \<open>The loop\<close>

text \<open>What a drain answers about the leases it admitted.\<close>

definition admitted_ok ::
  "('s \<Rightarrow> string \<Rightarrow> bool) \<Rightarrow> (string \<Rightarrow> local_job option) \<Rightarrow> 's drain_world \<Rightarrow> admission_lease \<Rightarrow> bool" where
  "admitted_ok started rows w l \<longleftrightarrow> l \<in> set (adm_active (dwo_admission w)) \<and>
     started (dwo_store w) (ale_operation l) \<and> rows (ale_operation l) \<noteq> None \<and>
     ale_operation l \<notin> set (map job_id (hwq_jobs (dwo_queue w)))"

lemma admitted_ok_mono: "admitted_ok started rows w l \<Longrightarrow> drain_mono started w w' \<Longrightarrow> admitted_ok started rows w' l"
  by (auto simp: admitted_ok_def drain_mono_def)

definition loop_result ::
  "('s \<Rightarrow> bool) \<Rightarrow> ('s \<Rightarrow> string \<Rightarrow> bool) \<Rightarrow> admission_config \<Rightarrow> (string \<Rightarrow> local_job option) \<Rightarrow> string list \<Rightarrow>
   's drain_world \<Rightarrow> admission_lease list \<Rightarrow> 's drain_world \<times> (drain_error + admission_lease list) \<Rightarrow> bool" where
  "loop_result ok started cfg rows ops w acc res \<longleftrightarrow>
     world_ok ok cfg (fst res) \<and> drain_mono started w (fst res) \<and>
     (\<forall>out. snd res = Inr out \<longrightarrow> (\<exists>new. out = acc @ new \<and> subseq (map ale_operation new) ops \<and>
        (\<forall>l \<in> set new. admitted_ok started rows (fst res) l)))"

lemma loop_result_skip:
  assumes "loop_result ok started cfg rows ops w' acc res" "drain_mono started w w'"
  shows "loop_result ok started cfg rows (op # ops) w acc res"
proof -
  have "\<exists>new. out = acc @ new \<and> subseq (map ale_operation new) (op # ops) \<and>
        (\<forall>l \<in> set new. admitted_ok started rows (fst res) l)" if "snd res = Inr out" for out
  proof -
    from assms(1) that obtain new where "out = acc @ new" "subseq (map ale_operation new) ops"
        "\<forall>l \<in> set new. admitted_ok started rows (fst res) l"
      unfolding loop_result_def by blast
    then show ?thesis by (intro exI [of _ new]) (simp add: list_emb_Cons)
  qed
  moreover have "world_ok ok cfg (fst res)" "drain_mono started w (fst res)"
    using assms drain_mono_trans unfolding loop_result_def by blast+
  ultimately show ?thesis unfolding loop_result_def by blast
qed

lemma loop_result_stop:
  "world_ok ok cfg w' \<Longrightarrow> drain_mono started w w' \<Longrightarrow> loop_result ok started cfg rows ops w acc (w', Inr acc)"
  by (simp add: loop_result_def)

lemma loop_result_throw:
  "world_ok ok cfg w' \<Longrightarrow> drain_mono started w w' \<Longrightarrow> loop_result ok started cfg rows ops w acc (w', Inl e)"
  by (simp add: loop_result_def)

lemma loop_result_admit:
  assumes res: "loop_result ok started cfg rows ops w' (acc @ [l]) res" and m: "drain_mono started w w'"
    and l: "admitted_ok started rows w' l" "ale_operation l = op"
  shows "loop_result ok started cfg rows (op # ops) w acc res"
proof -
  have "drain_mono started w' (fst res)" using res by (simp add: loop_result_def)
  then have l': "admitted_ok started rows (fst res) l" by (rule admitted_ok_mono [OF l(1)])
  have "\<exists>new. out = acc @ new \<and> subseq (map ale_operation new) (op # ops) \<and>
        (\<forall>l \<in> set new. admitted_ok started rows (fst res) l)" if "snd res = Inr out" for out
  proof -
    from res that obtain new where "out = (acc @ [l]) @ new" "subseq (map ale_operation new) ops"
        "\<forall>l \<in> set new. admitted_ok started rows (fst res) l"
      by (auto simp: loop_result_def)
    then show ?thesis using l(2) l' by (intro exI [of _ "l # new"]) simp
  qed
  then show ?thesis using res m drain_mono_trans by (auto simp: loop_result_def)
qed

context start_port
begin

lemma drain_loop_effect:
  assumes store: "den_store env = Some st" and wake: "wake_keeps ok started (den_config env) (den_wake env)"
    and rows: "\<And>op j. rows op = Some j \<Longrightarrow> job_id j = op"
  shows "world_ok ok (den_config env) w \<Longrightarrow>
    loop_result ok started (den_config env) rows ops w acc (drain_loop env rows ops w acc)"
proof (induction ops arbitrary: w acc)
  case Nil
  then show ?case by (simp add: loop_result_stop)
next
  case (Cons op ops)
  let ?cfg = "den_config env"
  show ?case
  proof (cases "rows op")
    case None
    then show ?thesis using loop_result_skip [OF Cons.IH [OF Cons.prems] drain_mono_refl] by simp
  next
    case (Some j)
    then have j: "job_id j = op" by (rule rows)
    obtain adm d where acq: "tryAcquire ?cfg (den_reading env op) (dwo_admission w) (request_of_entry (ljo_entry j)) = (adm, d)"
      by (cases "tryAcquire ?cfg (den_reading env op) (dwo_admission w) (request_of_entry (ljo_entry j))")
    have w1: "world_ok ok ?cfg (w\<lparr>dwo_admission := adm\<rparr>)" "drain_mono started w (w\<lparr>dwo_admission := adm\<rparr>)"
      using acquire_world [OF Cons.prems, where rd = "den_reading env op" and r = "request_of_entry (ljo_entry j)"] acq
      by (auto simp: drain_mono_def)
    note skip = loop_result_skip [OF Cons.IH [OF w1(1)] w1(2)]
    show ?thesis
    proof (cases d)
      case (Inl e)
      then show ?thesis using Some acq w1 by (simp add: loop_result_throw)
    next
      case (Inr dec)
      show ?thesis
      proof (cases dec)
        case (Pressured why c s)
        then show ?thesis using Some acq w1 Inr skip by (simp add: loop_result_stop)
      next
        case (Refused why c s)
        then show ?thesis using Some acq Inr skip by simp
      next
        case (Admitted l s)
        note acq' = acq [unfolded Inr Admitted]
        have l: "ale_operation l = op" using tryAcquire_AdmittedD(1) [OF acq'] j by (simp add: lease_of_entry)
        have l_active: "l \<in> set (adm_active adm)" using tryAcquire_AdmittedD(4) [OF acq'] by simp
        have s_ok: "ok (dwo_store w)" using Cons.prems by (simp add: world_ok_def)
        show ?thesis
        proof (cases "hst_start st (dwo_store w) (job_id j) (den_started env op)")
          case (Inl e)
          then show ?thesis using Some acq' w1 store by (simp add: Let_def loop_result_throw)
        next
          case (Inr sb)
          obtain s' b where sb: "sb = (s', b)" by (cases sb)
          have s': "ok s'" "\<forall>op. started (dwo_store w) op \<longrightarrow> started s' op"
            using start_ok start_keeps s_ok Inr sb by blast+
          show ?thesis
          proof (cases b)
            case True
            let ?w = "w\<lparr>dwo_admission := adm, dwo_store := s'\<rparr>"
            have begun: "hst_start st (dwo_store w) (job_id j) (den_started env op) = Inr (s', True)"
              using Inr sb True by simp
            have w: "world_ok ok ?cfg ?w" "drain_mono started w ?w"
              using w1 s' by (auto simp: world_ok_def drain_mono_def)
            note a = admit_job_world [OF w(1), where now = "den_now env" and j = j]
            have "admitted_ok started rows (admit_job (den_now env) j ?w) l"
              using a(3) j l Some l_active start_started [OF s_ok begun]
              by (simp add: admitted_ok_def admit_job_def)
            from loop_result_admit [OF Cons.IH [OF a(1)] drain_mono_trans [OF w(2) a(2)] this l]
            show ?thesis using Some acq' store Inr sb True by (simp add: Let_def)
          next
            case False
            note r = retire_job_world [OF Cons.prems wake acq' s', where j = j]
            from loop_result_skip [OF Cons.IH [OF r(1)] r(2)]
            show ?thesis using Some acq' store Inr sb False by (simp add: Let_def)
          qed
        qed
      qed
    qed
  qed
qed

end

section \<open>The SQLite store\<close>

definition runs_for :: "string \<Rightarrow> heavy_db \<Rightarrow> string \<Rightarrow> bool" where
  "runs_for me db op \<longleftrightarrow> (\<exists>r. find_row db op = Some r \<and> hjr_state r = Job_Running \<and> hjr_owner r = Some me)"

lemma heavy_start_shape:
  "heavy_start me db op t = Inr (db', b) \<Longrightarrow>
   (db', b) = update_rows (\<lambda>x. hjr_operation x = op \<and> (hjr_state x = Job_Queued \<and> hjr_owner x = Some me))
     (\<lambda>r. r\<lparr>hjr_state := Job_Running, hjr_started_at := Some t, hjr_heartbeat_at := t\<rparr>) db"
  by (auto simp: heavy_start_def bind_ok_Inr_iff)

interpretation sqlite_start: start_port "sqlite_heavy_store me" heavy_db_ok "runs_for me" for me
proof
  fix db op t db' b
  let ?Q = "\<lambda>x. hjr_state x = Job_Queued \<and> hjr_owner x = Some me"
  let ?f = "\<lambda>r. r\<lparr>hjr_state := Job_Running, hjr_started_at := Some t, hjr_heartbeat_at := t\<rparr>"
  assume ok: "heavy_db_ok db"
  have step: "heavy_step db (me, HStart op t) = db'" if "hst_start (sqlite_heavy_store me) db op t = Inr (db', b)" for db' b
    using that by (simp add: sqlite_heavy_store_def)
  have shape: "(db', b) = update_rows (\<lambda>x. hjr_operation x = op \<and> ?Q x) ?f db"
    if "hst_start (sqlite_heavy_store me) db op t = Inr (db', b)" for db' b
    by (rule heavy_start_shape) (use that in \<open>simp add: sqlite_heavy_store_def\<close>)
  show "hst_start (sqlite_heavy_store me) db op t = Inr (db', b) \<Longrightarrow> heavy_db_ok db'"
    using step heavy_step_ok [OF ok, of "(me, HStart op t)"] by simp
  have found: "find_row db' op = map_option (\<lambda>r. if hjr_operation r = op \<and> ?Q r then ?f r else r) (find_row db op)"
    if "hst_start (sqlite_heavy_store me) db op t = Inr (db', b)" for db' b
  proof -
    have "db' = fst (update_rows (\<lambda>x. hjr_operation x = op \<and> ?Q x) ?f db)" by (simp flip: shape [OF that])
    then show ?thesis by (simp only: update_rows_def fst_conv) (rule find_row_update, simp)
  qed
  show "runs_for me db' op" if h: "hst_start (sqlite_heavy_store me) db op t = Inr (db', True)"
  proof (cases "find_row db op")
    case None
    then have "row_changes (\<lambda>x. hjr_operation x = op \<and> ?Q x) db = 0"
      using find_row_None by (auto simp: row_changes_0_iff)
    then show ?thesis using shape [OF h] by (simp add: update_rows_def)
  next
    case (Some r)
    have "snd (update_rows (\<lambda>x. hjr_operation x = op \<and> ?Q x) ?f db)" by (simp flip: shape [OF h])
    then have "?Q r" using update_rows_found(2) [OF ok Some, of ?f ?Q] by simp
    then show ?thesis using found [OF h] Some find_row_SomeD [OF Some] by (simp add: runs_for_def)
  qed
  show "runs_for me db' op'" if h: "hst_start (sqlite_heavy_store me) db op t = Inr (db', b)" and r: "runs_for me db op'" for op'
  proof (cases "op' = op")
    case True
    obtain x where "find_row db op = Some x" "hjr_state x = Job_Running" "hjr_owner x = Some me"
      using r True by (auto simp: runs_for_def)
    then show ?thesis using found [OF h] True by (simp add: runs_for_def)
  next
    case False
    have "db' = fst (update_rows (\<lambda>x. hjr_operation x = op \<and> ?Q x) ?f db)" by (simp flip: shape [OF h])
    then have "find_row db' op' = find_row db op'" using update_rows_other [OF False, of ?f ?Q db] by simp
    then show ?thesis using r by (simp add: runs_for_def)
  qed
qed

section \<open>Properties\<close>

text \<open>
  The local queue is bounded and ordered. From the empty queue, any sequence of enqueue,
  promote, cancel, supersede and removal keeps one row per operation, the rows in position order,
  below the next position, and at most \<open>maxQueued\<close> of them.
\<close>

theorem local_queue_bounded:
  assumes "new_queue_config max_opt per_workspace aging = Inr cfg"
  shows "local_ok cfg (run_ops (local_step cfg) new_heavy_queue ops)"
proof (rule local_queue.run_inv)
  have "1 \<le> qcf_max cfg"
    using assms by (auto simp: new_queue_config_def Let_def safe_positive_def split: if_splits)
  then show "local_ok cfg new_heavy_queue"
    by (simp add: local_ok_def new_heavy_queue_def queue_length_def)
qed

theorem local_queue_bounded_witness:
  "\<exists>cfg. new_queue_config (Some (int_num 2)) None None = Inr cfg \<and>
     local_ok cfg (run_ops (local_step cfg) new_heavy_queue
       [Loc_Enqueue (sample_job ''a'' ''w''), Loc_Enqueue (sample_job ''b'' ''w''), Loc_Promote ''b''])"
proof -
  have "\<not> is_err (new_queue_config (Some (int_num 2)) None None)" by code_simp
  then obtain cfg where "new_queue_config (Some (int_num 2)) None None = Inr cfg"
    by (auto simp: is_err_def split: sum.splits)
  then show ?thesis using local_queue_bounded by blast
qed

lemma fair_order_ids:
  assumes "distinct (map job_id (hwq_jobs q))" "orderHeavyJobs (snd (fairnessCandidates q)) ctx = Some ops"
  shows "set ops = set (map job_id (hwq_jobs q)) \<and> distinct ops"
proof -
  let ?cs = "snd (fairnessCandidates q)"
  have ids: "map fca_operation ?cs = map job_id (hwq_jobs q)"
    by (simp add: fairnessCandidates_def Let_def pruneFairnessHistory_def fairness_candidate_def comp_def)
  have "1 \<le> fcx_aging ctx" "fcx_aging ctx \<le> max_safe_integer"
    using assms(2) by (auto simp: orderHeavyJobs_def projectHeavyJobFairness_def split: if_splits)
  then have "ops = map fca_operation (fair_order ctx ?cs)" using orderHeavyJobs_eq assms(2) by simp
  then have "mset ops = mset (map job_id (hwq_jobs q))"
    using mset_fair_order [of ?cs ctx] assms(1) ids by (metis mset_map)
  then show ?thesis using assms(1) by (metis mset_eq_imp_distinct_iff set_mset_mset)
qed

lemma rows_by_id_Some: "rows_by_id js op = Some j \<Longrightarrow> job_id j = op \<and> j \<in> set js"
  unfolding rows_by_id_def row_get_def [symmetric] by (auto dest: row_get_SomeD)

text \<open>The drain after its order is known.\<close>

lemma drain_unfold:
  "drain qcfg env w = (let q = fst (fairnessCandidates (dwo_queue w)) in
     case orderHeavyJobs (snd (fairnessCandidates (dwo_queue w))) (fairness_context qcfg (den_now env) q) of
       None \<Rightarrow> (w\<lparr>dwo_queue := q\<rparr>, Inl Drain_Range)
     | Some ops \<Rightarrow> drain_loop env (rows_by_id (hwq_jobs q)) ops (w\<lparr>dwo_queue := q\<rparr>) [])"
  by (simp add: drain_def split_beta Let_def)

lemma pruned_jobs [simp]: "hwq_jobs (fst (fairnessCandidates q)) = hwq_jobs q"
  by (simp add: fairnessCandidates_def Let_def pruneFairnessHistory_def)

text \<open>Whatever a drain answers, it keeps the world in order and loses nothing.\<close>

lemma drain_keeps_world:
  assumes "den_store env = Some (sqlite_heavy_store me)"
    and "wake_keeps heavy_db_ok (runs_for me) (den_config env) (den_wake env)"
    and "world_ok heavy_db_ok (den_config env) w"
  shows "world_ok heavy_db_ok (den_config env) (fst (drain qcfg env w)) \<and> drain_mono (runs_for me) w (fst (drain qcfg env w))"
proof -
  let ?q = "fst (fairnessCandidates (dwo_queue w))"
  let ?w = "w\<lparr>dwo_queue := ?q\<rparr>"
  have w: "world_ok heavy_db_ok (den_config env) ?w" "drain_mono (runs_for me) w ?w"
    using assms(3) by (simp_all add: world_ok_def drain_mono_def)
  show ?thesis
  proof (cases "orderHeavyJobs (snd (fairnessCandidates (dwo_queue w))) (fairness_context qcfg (den_now env) ?q)")
    case None
    then show ?thesis using w by (simp add: drain_unfold Let_def)
  next
    case (Some ops)
    have "loop_result heavy_db_ok (runs_for me) (den_config env) (rows_by_id (hwq_jobs ?q)) ops ?w []
        (drain_loop env (rows_by_id (hwq_jobs ?q)) ops ?w [])"
      using rows_by_id_Some by (intro sqlite_start.drain_loop_effect [OF assms(1,2) _ w(1)]) blast
    then have "world_ok heavy_db_ok (den_config env) (fst (drain qcfg env w))"
        "drain_mono (runs_for me) ?w (fst (drain qcfg env w))"
      using Some by (simp_all add: drain_unfold Let_def loop_result_def)
    then show ?thesis using w(2) drain_mono_trans by blast
  qed
qed

lemma drain_effect:
  assumes "den_store env = Some (sqlite_heavy_store me)"
    and "wake_keeps heavy_db_ok (runs_for me) (den_config env) (den_wake env)"
    and "world_ok heavy_db_ok (den_config env) w"
    and "drain qcfg env w = (w', Inr admitted)"
  shows "\<exists>ops. orderHeavyJobs (snd (fairnessCandidates (dwo_queue w)))
       (fairness_context qcfg (den_now env) (fst (fairnessCandidates (dwo_queue w)))) = Some ops \<and>
     subseq (map ale_operation admitted) ops \<and> distinct (map ale_operation admitted) \<and>
     (\<forall>l \<in> set admitted. queue_holds (dwo_queue w) (ale_operation l) \<and>
        \<not> queue_holds (dwo_queue w') (ale_operation l) \<and>
        l \<in> set (adm_active (dwo_admission w')) \<and> runs_for me (dwo_store w') (ale_operation l)) \<and>
     within_limits (den_config env) (dwo_admission w') \<and> heavy_db_ok (dwo_store w')"
proof -
  let ?q = "fst (fairnessCandidates (dwo_queue w))" and ?cs = "snd (fairnessCandidates (dwo_queue w))"
  let ?rows = "rows_by_id (hwq_jobs ?q)" and ?w = "w\<lparr>dwo_queue := ?q\<rparr>"
  have jobs: "hwq_jobs ?q = hwq_jobs (dwo_queue w)"
    by (simp add: fairnessCandidates_def Let_def pruneFairnessHistory_def)
  obtain ops where ops: "orderHeavyJobs ?cs (fairness_context qcfg (den_now env) ?q) = Some ops"
    using assms(4) by (auto simp: drain_def split: prod.splits option.splits)
  then have run: "drain_loop env ?rows ops ?w [] = (w', Inr admitted)"
    using assms(4) by (simp add: drain_def split_beta)
  have w: "world_ok heavy_db_ok (den_config env) ?w" using assms(3) jobs by (simp add: world_ok_def)
  have "loop_result heavy_db_ok (runs_for me) (den_config env) ?rows ops ?w [] (w', Inr admitted)"
    using sqlite_start.drain_loop_effect [OF assms(1,2) _ w, of ?rows ops "[]"] rows_by_id_Some run by fastforce
  then have r: "world_ok heavy_db_ok (den_config env) w'" "subseq (map ale_operation admitted) ops"
      "\<forall>l \<in> set admitted. admitted_ok (runs_for me) ?rows w' l"
    by (auto simp: loop_result_def)
  have "distinct ops" using fair_order_ids ops assms(3) by (auto simp: world_ok_def)
  then have "distinct (map ale_operation admitted)" using r(2) by (auto simp: subseq_conv_nths intro: distinct_nthsI)
  moreover have "queue_holds (dwo_queue w) (ale_operation l) \<and> \<not> queue_holds (dwo_queue w') (ale_operation l) \<and>
        l \<in> set (adm_active (dwo_admission w')) \<and> runs_for me (dwo_store w') (ale_operation l)"
    if "l \<in> set admitted" for l
  proof -
    have ok: "admitted_ok (runs_for me) ?rows w' l" using r(3) that by blast
    then obtain j where "?rows (ale_operation l) = Some j" by (auto simp: admitted_ok_def)
    then have "queue_holds (dwo_queue w) (ale_operation l)"
      using rows_by_id_Some jobs by (fastforce simp: queue_holds_def)
    moreover have "\<not> queue_holds (dwo_queue w') (ale_operation l)"
      using ok by (force simp: admitted_ok_def queue_holds_def)
    ultimately show ?thesis using ok by (simp add: admitted_ok_def)
  qed
  ultimately show ?thesis using ops r(1,2) by (auto simp: world_ok_def admission_inv_def)
qed

text \<open>The result of a drain: what it answers about the work it admitted.\<close>

lemma drain_loop_returns:
  assumes cfg: "admission_config_ok (den_config env)" "ac_max_heavy (den_config env) \<le> max_safe_integer"
    and store: "den_store env = Some (sqlite_heavy_store me)"
    and clock: "\<And>op. date_parse (den_started env op) \<noteq> None"
  shows "\<exists>w' out. drain_loop env rows ops w acc = (w', Inr out)"
proof (induction ops arbitrary: w acc)
  case Nil
  then show ?case by simp
next
  case (Cons op ops)
  show ?case
  proof (cases "rows op")
    case None
    then show ?thesis using Cons.IH by simp
  next
    case (Some j)
    let ?r = "request_of_entry (ljo_entry j)"
    obtain cap where cap: "heavy_cap (den_config env) (den_reading env op) = Inr cap"
      using effectiveHeavyCapacity_total cfg unfolding heavy_cap_def admission_config_ok_def by blast
    obtain adm d where acq: "tryAcquire (den_config env) (den_reading env op) (dwo_admission w) ?r = (adm, Inr d)"
      using tryAcquire_spec [OF cap, of ?r "dwo_admission w"] by fastforce
    show ?thesis
    proof (cases d)
      case (Admitted l s)
      have "valid_request ?r" using tryAcquire_AdmittedD(2) [OF acq [unfolded Admitted]] .
      then have "require_identifier (job_id j) ''operationId'' = Inr ()"
        by (auto simp: valid_request_def isBoundedId_def request_of_entry_def require_identifier_def
            require_bounded_def MAX_IDENTIFIER_CHARS_def)
      then obtain s' b where "hst_start (sqlite_heavy_store me) (dwo_store w) (job_id j) (den_started env op) = Inr (s', b)"
        using clock [of op] by (simp add: sqlite_heavy_store_def heavy_start_def heavy_validate_iso_def update_rows_def)
      then show ?thesis using Some acq Admitted store Cons.IH by (cases b) (simp_all add: Let_def)
    qed (use Some acq Cons.IH in simp_all)
  qed
qed

end
