(* ===== verification/Shell_Heavy.thy ===== *)
theory Shell_Heavy
  imports Heavy_Drain_Safety
begin

text \<open>
  The queue of declared heavy shell runs (apps/cli/src/runtime/shell-heavy-admission.ts): the port
  a shell backend uses, its request and answers, the wake that every release of a lease triggers,
  and the lease of a grant, which settles its durable row and then its slot. The wake runs inside
  the release, so a drain that releases a lease runs another drain. The source puts no bound on this
  nesting, and it does not end by itself: a row the store no longer starts is still queued while its
  lease is released, so the drain of the wake meets it again. What ends it is the call stack: the wake
  that does not fit throws, and \<open>release\<close> swallows what its listeners throw. So \<open>shell_wake\<close> takes the
  number of nested wakes the stack allows, the one beyond does nothing, and every property of it holds
  for every such number.
\<close>

section \<open>Requests and answers\<close>

definition DEFAULT_RAG_INDEX_ADMISSION_COST :: int where
  "DEFAULT_RAG_INDEX_ADMISSION_COST = 8"

definition DEFAULT_VERIFICATION_HEAVY_ADMISSION_COST :: int where
  "DEFAULT_VERIFICATION_HEAVY_ADMISSION_COST = 8"

definition SHELL_HEAVY_ADMISSION_QUEUE_LIMIT :: int where
  "SHELL_HEAVY_ADMISSION_QUEUE_LIMIT = 16"

definition SHELL_HEAVY_ADMISSION_JOB_KIND :: string where
  "SHELL_HEAVY_ADMISSION_JOB_KIND = ''shell_command''"

datatype shell_class = Shell_Rag_Indexing | Shell_Verification_Heavy

fun shell_class_name :: "shell_class \<Rightarrow> string" where
  "shell_class_name Shell_Rag_Indexing = ''rag_indexing''"
| "shell_class_name Shell_Verification_Heavy = ''verification_heavy''"

fun ADMISSION_COST :: "shell_class \<Rightarrow> int" where
  "ADMISSION_COST Shell_Rag_Indexing = DEFAULT_RAG_INDEX_ADMISSION_COST"
| "ADMISSION_COST Shell_Verification_Heavy = DEFAULT_VERIFICATION_HEAVY_ADMISSION_COST"

record shell_request =
  shr_operation :: string
  shr_workspace :: "string option"
  shr_session :: "string option"
  shr_class :: shell_class

datatype shell_answer =
    Shell_Queued int int int
  | Shell_Coalesced int int
  | Shell_Full int int
  | Shell_Missing int int
  | Shell_Failed int

definition heavy_request_of_shell :: "shell_request \<Rightarrow> heavy_request" where
  "heavy_request_of_shell r = \<lparr>hrq_operation = shr_operation r,
     hrq_workspace = (case shr_workspace r of None \<Rightarrow> ''shell-heavy'' | Some w \<Rightarrow> w),
     hrq_session = shr_session r, hrq_class = shell_class_name (shr_class r),
     hrq_cost = int_num (ADMISSION_COST (shr_class r)), hrq_blocking = Some True,
     hrq_kind = Some SHELL_HEAVY_ADMISSION_JOB_KIND, hrq_requested_at = None\<rparr>"

text \<open>
  The setting is the number \<open>Number(raw)\<close> of a text that is not blank; \<open>None\<close> is a text that is
  absent or blank.
\<close>

definition resolveShellHeavyAdmissionPerWorkspaceLimit :: "jsnum option \<Rightarrow> unit + int" where
  "resolveShellHeavyAdmissionPerWorkspaceLimit value = (case value of
     None \<Rightarrow> Inr SHELL_HEAVY_ADMISSION_QUEUE_LIMIT
   | Some v \<Rightarrow>
       if \<not> num_is_safe_integer v \<or> num_int v < 1 \<or> num_int v > SHELL_HEAVY_ADMISSION_QUEUE_LIMIT
       then Inl () else Inr (num_int v))"

section \<open>The port\<close>

text \<open>Before the first request the port has no queue; the world then holds the empty one.\<close>

record 's shell_port =
  shp_ready :: bool
  shp_world :: "'s drain_world"

definition shell_queue_config :: "int \<Rightarrow> queue_config_error + queue_config" where
  "shell_queue_config per_workspace =
     new_queue_config (Some (int_num SHELL_HEAVY_ADMISSION_QUEUE_LIMIT)) (Some (int_num per_workspace)) None"

definition ensureQueue :: "int \<Rightarrow> 's shell_port \<Rightarrow> queue_config_error + queue_config \<times> 's shell_port" where
  "ensureQueue per_workspace p =
     bind_ok (shell_queue_config per_workspace) (\<lambda>cfg. Inr (cfg, p\<lparr>shp_ready := True\<rparr>))"

definition put_queue :: "'s \<times> heavy_queue \<Rightarrow> 's shell_port \<Rightarrow> 's shell_port" where
  "put_queue sq p = p\<lparr>shp_world := (shp_world p)\<lparr>dwo_store := fst sq, dwo_queue := snd sq\<rparr>\<rparr>"

definition position_or :: "int \<Rightarrow> heavy_queue \<Rightarrow> string \<Rightarrow> int" where
  "position_or d q op = (case queue_position q op of None \<Rightarrow> d | Some x \<Rightarrow> x)"

definition shell_enqueue ::
  "int \<Rightarrow> 's heavy_store option \<Rightarrow> iso \<Rightarrow> shell_request \<Rightarrow> 's shell_port \<Rightarrow> 's shell_port \<times> shell_answer" where
  "shell_enqueue per_workspace store now r p =
     (let cost = ADMISSION_COST (shr_class r) in
      case ensureQueue per_workspace p of
        Inl _ \<Rightarrow> (p, Shell_Failed cost)
      | Inr (cfg, p1) \<Rightarrow>
          (case enqueue cfg store now (heavy_request_of_shell r) (dwo_store (shp_world p1)) (dwo_queue (shp_world p1)) of
             Inl _ \<Rightarrow> (p1, Shell_Failed cost)
           | Inr (sq, res) \<Rightarrow>
               (put_queue sq p1,
                case res of
                  Enq_Queued depth \<Rightarrow> Shell_Queued (position_or 0 (snd sq) (shr_operation r)) depth cost
                | Enq_Coalesced depth queued \<Rightarrow>
                    if queued then Shell_Queued (position_or 0 (snd sq) (shr_operation r)) depth cost
                    else Shell_Coalesced depth cost
                | Enq_Rejected _ depth \<Rightarrow> Shell_Full depth cost)))"

definition shell_reattach ::
  "int \<Rightarrow> 's heavy_store option \<Rightarrow> iso \<Rightarrow> shell_request \<Rightarrow> 's shell_port \<Rightarrow> 's shell_port \<times> shell_answer" where
  "shell_reattach per_workspace store now r p =
     (let cost = ADMISSION_COST (shr_class r) in
      case ensureQueue per_workspace p of
        Inl _ \<Rightarrow> (p, Shell_Failed cost)
      | Inr (_, p1) \<Rightarrow>
          (case reattach store now (heavy_request_of_shell r) (dwo_store (shp_world p1)) (dwo_queue (shp_world p1)) of
             Inl _ \<Rightarrow> (p1, Shell_Failed cost)
           | Inr (sq, res) \<Rightarrow>
               (put_queue sq p1,
                case res of
                  Reattach_Queued position depth \<Rightarrow>
                    Shell_Queued (position_or position (snd sq) (shr_operation r)) depth cost
                | Reattach_Coalesced depth \<Rightarrow> Shell_Coalesced depth cost
                | Reattach_Running depth \<Rightarrow> Shell_Coalesced depth cost
                | Reattach_Missing depth \<Rightarrow> Shell_Missing depth cost)))"

section \<open>Wakes\<close>

text \<open>What the drains of nested wakes read, from the deepest (0) up.\<close>

primrec shell_wake :: "queue_config \<Rightarrow> (nat \<Rightarrow> 's drain_env) \<Rightarrow> nat \<Rightarrow> 's drain_world \<Rightarrow> 's drain_world" where
  "shell_wake cfg envs 0 = (\<lambda>w. w)"
| "shell_wake cfg envs (Suc n) = (\<lambda>w.
     case drain cfg ((envs n)\<lparr>den_wake := shell_wake cfg envs n\<rparr>) w of
       (w', Inr leases) \<Rightarrow> w'\<lparr>dwo_granted := dwo_granted w' @ leases\<rparr>
     | (w', Inl _) \<Rightarrow> w')"

definition shell_drain ::
  "queue_config \<Rightarrow> (nat \<Rightarrow> 's drain_env) \<Rightarrow> nat \<Rightarrow> 's drain_world \<Rightarrow>
   's drain_world \<times> (drain_error + admission_lease list)" where
  "shell_drain cfg envs n w = drain cfg ((envs n)\<lparr>den_wake := shell_wake cfg envs n\<rparr>) w"

definition shell_pump ::
  "queue_config \<Rightarrow> (nat \<Rightarrow> 's drain_env) \<Rightarrow> nat \<Rightarrow> 's shell_port \<Rightarrow> 's shell_port \<times> admission_lease list" where
  "shell_pump cfg envs n p =
     (if \<not> shp_ready p then (p, [])
      else (case shell_drain cfg envs n (shp_world p) of
        (w', Inr leases) \<Rightarrow> (p\<lparr>shp_world := w'\<rparr>, leases)
      | (w', Inl _) \<Rightarrow> (p\<lparr>shp_world := w'\<rparr>, [])))"

definition shell_cancel ::
  "'s heavy_store option \<Rightarrow> iso \<Rightarrow> string \<Rightarrow> 's shell_port \<Rightarrow> 's shell_port \<times> bool" where
  "shell_cancel store now op p =
     (if \<not> shp_ready p then (p, False)
      else (case queue_cancel store now op (dwo_store (shp_world p)) (dwo_queue (shp_world p)) of
        (sq, res) \<Rightarrow> (put_queue sq p, res = Inr True)))"

definition shell_position :: "'s shell_port \<Rightarrow> string \<Rightarrow> int option" where
  "shell_position p op = (if shp_ready p then queue_position (dwo_queue (shp_world p)) op else None)"

text \<open>The projection of the fair order, with the two settings the port reports beside it.\<close>

definition shell_fairnessSnapshot ::
  "queue_config \<Rightarrow> int \<Rightarrow> 's shell_port \<Rightarrow> 's shell_port \<times> int \<times> fair_entry list option \<times> int" where
  "shell_fairnessSnapshot cfg now p =
     (if \<not> shp_ready p then (p, DEFAULT_HEAVY_JOB_AGING_MS, Some [], qcf_max_workspace cfg)
      else (case fairnessSnapshot cfg now (dwo_queue (shp_world p)) of
        (q', es) \<Rightarrow> (p\<lparr>shp_world := (shp_world p)\<lparr>dwo_queue := q'\<rparr>\<rparr>, qcf_aging cfg, es, qcf_max_workspace cfg)))"

section \<open>Settling a grant\<close>

datatype shell_outcome = Shell_Completed | Shell_Run_Failed | Shell_Cancelled

fun shell_outcome_name :: "shell_outcome \<Rightarrow> string" where
  "shell_outcome_name Shell_Completed = ''completed''"
| "shell_outcome_name Shell_Run_Failed = ''failed''"
| "shell_outcome_name Shell_Cancelled = ''cancelled''"

text \<open>The first component says whether this lease has been settled.\<close>

definition settleOnce ::
  "'s drain_env \<Rightarrow> iso \<Rightarrow> admission_lease \<Rightarrow> shell_outcome \<Rightarrow> bool \<times> 's drain_world \<Rightarrow>
   (bool \<times> 's drain_world) \<times> (heavy_error + unit)" where
  "settleOnce env now l outcome sw =
     (if fst sw then (sw, Inr ())
      else (let w = snd sw in
        case queue_settle (den_store env) now (ale_operation l)
            (if outcome = Shell_Completed then Settle_Completed else Settle_Failed)
            (Some (shell_outcome_name outcome)) (dwo_store w) of
          Inl e \<Rightarrow> ((True, w), Inl e)
        | Inr (s', _) \<Rightarrow>
            (case release (dwo_admission w) l of (adm, released) \<Rightarrow>
               let w1 = w\<lparr>dwo_store := s', dwo_admission := adm\<rparr> in
               ((True, if released then den_wake env w1 else w1), Inr ()))))"

section \<open>What a wake keeps\<close>

lemma world_ok_granted [simp]: "world_ok ok cfg (w\<lparr>dwo_granted := g\<rparr>) = world_ok ok cfg w"
  by (simp add: world_ok_def)

lemma drain_mono_granted [simp]: "drain_mono started w (w'\<lparr>dwo_granted := g\<rparr>) = drain_mono started w w'"
  by (simp add: drain_mono_def)

definition shell_envs_ok :: "string \<Rightarrow> admission_config \<Rightarrow> (nat \<Rightarrow> heavy_db drain_env) \<Rightarrow> bool" where
  "shell_envs_ok me cfg envs \<longleftrightarrow>
     (\<forall>n. den_store (envs n) = Some (sqlite_heavy_store me) \<and> den_config (envs n) = cfg)"

lemma shell_wake_keeps:
  assumes "shell_envs_ok me cfg envs"
  shows "wake_keeps heavy_db_ok (runs_for me) cfg (shell_wake qcfg envs n)"
proof (induction n)
  case 0
  then show ?case by (simp add: wake_keeps_def)
next
  case (Suc n)
  let ?env = "(envs n)\<lparr>den_wake := shell_wake qcfg envs n\<rparr>"
  have env: "den_store ?env = Some (sqlite_heavy_store me)" "den_config ?env = cfg"
    using assms by (simp_all add: shell_envs_ok_def)
  have "world_ok heavy_db_ok cfg (shell_wake qcfg envs (Suc n) w) \<and>
      drain_mono (runs_for me) w (shell_wake qcfg envs (Suc n) w)" if "world_ok heavy_db_ok cfg w" for w
  proof -
    have "world_ok heavy_db_ok cfg (fst (drain qcfg ?env w)) \<and> drain_mono (runs_for me) w (fst (drain qcfg ?env w))"
      using drain_keeps_world [OF env(1), of w qcfg] env(2) Suc.IH that by simp
    then show ?thesis by (cases "drain qcfg ?env w") (auto split: sum.splits)
  qed
  then show ?case by (simp add: wake_keeps_def)
qed

end
