(* ===== verification/Shell_Heavy_Safety.thy ===== *)
theory Shell_Heavy_Safety
  imports Shell_Heavy
begin

text \<open>
  What the shell queue promises: a drain starts only rows it owns, always returns, starts the first
  row in fair order when the machine is idle, and a settled grant hands its slot to the next row.
\<close>

section \<open>Answers of a drain\<close>

lemma drain_loop_prefix:
  "drain_loop env rows ops w acc = (w', Inr out) \<Longrightarrow> \<exists>new. out = acc @ new"
proof (induction ops arbitrary: w acc)
  case Nil
  then show ?case by simp
next
  case (Cons op ops)
  have keep: "\<exists>new. out = acc @ new" if "drain_loop env rows ops v acc = (w', Inr out)" for v
    using Cons.IH [OF that] .
  have more: "\<exists>new. out = acc @ new" if "drain_loop env rows ops v (acc @ [l]) = (w', Inr out)" for v l
    using Cons.IH [OF that] by auto
  show ?case
    using Cons.prems keep more
    by (simp add: Let_def split: option.splits prod.splits sum.splits admission_decision.splits bool.splits if_splits)
      (metis append_Nil2)?
qed

definition ready_row :: "string \<Rightarrow> heavy_db drain_env \<Rightarrow> heavy_db \<Rightarrow> local_job \<Rightarrow> bool" where
  "ready_row me env db j \<longleftrightarrow>
     valid_request (request_of_entry (ljo_entry j)) \<and>
     (\<exists>cap. heavy_cap (den_config env) (den_reading env (job_id j)) = Inr cap \<and>
        fits (den_config env) (den_reading env (job_id j)) cap [] (lease_of_request (request_of_entry (ljo_entry j)))) \<and>
     (\<exists>r. find_row db (job_id j) = Some r \<and> hjr_state r = Job_Queued \<and> hjr_owner r = Some me)"

definition drain_env_ok :: "string \<Rightarrow> heavy_db drain_env \<Rightarrow> bool" where
  "drain_env_ok me env \<longleftrightarrow> admission_config_ok (den_config env) \<and>
     ac_max_heavy (den_config env) \<le> max_safe_integer \<and> den_store env = Some (sqlite_heavy_store me) \<and>
     (\<forall>op. date_parse (den_started env op) \<noteq> None)"

lemma drain_env_ok_wake [simp]: "drain_env_ok me (env\<lparr>den_wake := f\<rparr>) = drain_env_ok me env"
  by (simp add: drain_env_ok_def)

lemma ready_row_wake [simp]: "ready_row me (env\<lparr>den_wake := f\<rparr>) db j = ready_row me env db j"
  by (simp add: ready_row_def)

lemma rows_by_id_member: "j \<in> set js \<Longrightarrow> \<exists>j'. rows_by_id js (job_id j) = Some j'"
  by (auto simp: rows_by_id_def find_None_iff simp flip: not_None_eq)

lemma safe_positive_bounds:
  assumes "safe_positive n"
  shows "1 \<le> num_int n" "num_int n \<le> max_safe_integer"
proof -
  have "num_is_integer n" "num_is_safe_integer n" "1 \<le> num_int n"
    using assms by (auto simp: safe_positive_def num_is_safe_integer_def)
  then obtain i where "n = int_num i" using num_is_integer_exists by blast
  then show "1 \<le> num_int n" "num_int n \<le> max_safe_integer"
    using \<open>num_is_safe_integer n\<close> \<open>1 \<le> num_int n\<close> by simp_all
qed

lemma queue_config_aging:
  assumes "new_queue_config m k a = Inr qcfg"
  shows "1 \<le> qcf_aging qcfg" "qcf_aging qcfg \<le> max_safe_integer"
proof -
  obtain n where "safe_positive n" "qcf_aging qcfg = num_int n"
    using assms by (auto simp: new_queue_config_def Let_def split: if_splits)
  then show "1 \<le> qcf_aging qcfg" "qcf_aging qcfg \<le> max_safe_integer" using safe_positive_bounds by simp_all
qed

lemma drain_ordered:
  assumes "new_queue_config m k a = Inr qcfg" "distinct (map job_id (hwq_jobs (dwo_queue w)))"
  shows "\<exists>ops. drain qcfg env w = drain_loop env (rows_by_id (hwq_jobs (dwo_queue w))) ops
             (w\<lparr>dwo_queue := fst (fairnessCandidates (dwo_queue w))\<rparr>) [] \<and>
           orderHeavyJobs (snd (fairnessCandidates (dwo_queue w)))
             (fairness_context qcfg (den_now env) (fst (fairnessCandidates (dwo_queue w)))) = Some ops \<and>
           set ops = set (map job_id (hwq_jobs (dwo_queue w)))"
proof -
  let ?ctx = "fairness_context qcfg (den_now env) (fst (fairnessCandidates (dwo_queue w)))"
  have aging: "1 \<le> fcx_aging ?ctx" "fcx_aging ?ctx \<le> max_safe_integer"
    using queue_config_aging [OF assms(1)] by (simp_all add: fairness_context_def)
  obtain ops where ops: "orderHeavyJobs (snd (fairnessCandidates (dwo_queue w))) ?ctx = Some ops"
    using orderHeavyJobs_eq [OF aging] by blast
  then show ?thesis using fair_order_ids [OF assms(2) ops] by (intro exI [of _ ops]) (simp add: drain_unfold Let_def)
qed

lemma drain_total:
  assumes "new_queue_config m k a = Inr qcfg" "distinct (map job_id (hwq_jobs (dwo_queue w)))" "drain_env_ok me env"
  shows "\<exists>w' out. drain qcfg env w = (w', Inr out)"
  using drain_ordered [OF assms(1,2), of env] drain_loop_returns assms(3) unfolding drain_env_ok_def by metis

lemma start_queued_row:
  assumes "heavy_db_ok db" "find_row db op = Some r" "hjr_state r = Job_Queued" "hjr_owner r = Some me"
    and "require_identifier op ''operationId'' = Inr ()" "date_parse t \<noteq> None"
  shows "\<exists>db'. hst_start (sqlite_heavy_store me) db op t = Inr (db', True)"
proof -
  let ?Q = "\<lambda>r. hjr_state r = Job_Queued \<and> hjr_owner r = Some me"
  let ?f = "\<lambda>r. r\<lparr>hjr_state := Job_Running, hjr_started_at := Some t, hjr_heartbeat_at := t\<rparr>"
  have "snd (update_rows (\<lambda>x. hjr_operation x = op \<and> ?Q x) ?f db) = ?Q r"
    by (rule update_rows_found(2) [OF assms(1,2)]) simp
  then have "snd (update_rows (\<lambda>x. hjr_operation x = op \<and> ?Q x) ?f db)" using assms(3,4) by simp
  then show ?thesis using assms(5,6)
    by (cases "update_rows (\<lambda>x. hjr_operation x = op \<and> ?Q x) ?f db")
      (simp add: sqlite_heavy_store_def heavy_start_def heavy_validate_iso_def)
qed

lemma valid_request_id:
  "valid_request (request_of_entry (ljo_entry j)) \<Longrightarrow> require_identifier (job_id j) ''operationId'' = Inr ()"
  by (auto simp: valid_request_def isBoundedId_def request_of_entry_def require_identifier_def
      require_bounded_def MAX_IDENTIFIER_CHARS_def)

text \<open>On an idle machine the first row in fair order is started.\<close>

lemma drain_starts_first:
  assumes cfg: "new_queue_config m k a = Inr qcfg" and env: "drain_env_ok me env"
    and w: "world_ok heavy_db_ok (den_config env) w" and idle: "adm_active (dwo_admission w) = []"
    and ready: "hwq_jobs (dwo_queue w) \<noteq> []" "\<forall>j \<in> set (hwq_jobs (dwo_queue w)). ready_row me env (dwo_store w) j"
  shows "\<exists>w' l ls op ops. drain qcfg env w = (w', Inr (l # ls)) \<and> ale_operation l = op \<and>
     orderHeavyJobs (snd (fairnessCandidates (dwo_queue w)))
       (fairness_context qcfg (den_now env) (fst (fairnessCandidates (dwo_queue w)))) = Some (op # ops)"
proof -
  let ?jobs = "hwq_jobs (dwo_queue w)" and ?w = "w\<lparr>dwo_queue := fst (fairnessCandidates (dwo_queue w))\<rparr>"
  have "distinct (map job_id ?jobs)" using w by (simp add: world_ok_def)
  from drain_ordered [OF cfg this, of env] obtain ops' where d: "drain qcfg env w = drain_loop env (rows_by_id ?jobs) ops' ?w []"
      and ord: "orderHeavyJobs (snd (fairnessCandidates (dwo_queue w)))
       (fairness_context qcfg (den_now env) (fst (fairnessCandidates (dwo_queue w)))) = Some ops'"
      and ids: "set ops' = set (map job_id ?jobs)" by blast
  obtain op ops where ops: "ops' = op # ops" using ids ready(1) by (cases ops') auto
  then have "op \<in> set (map job_id ?jobs)" using ids by auto
  then obtain j where row: "rows_by_id ?jobs op = Some j" using rows_by_id_member by fastforce
  then have j: "job_id j = op" "j \<in> set ?jobs" using rows_by_id_Some by auto
  let ?r = "request_of_entry (ljo_entry j)"
  have rr: "ready_row me env (dwo_store w) j" using ready(2) j(2) by blast
  then obtain cap where cap: "heavy_cap (den_config env) (den_reading env op) = Inr cap"
      "fits (den_config env) (den_reading env op) cap [] (lease_of_request ?r)" and valid: "valid_request ?r"
    using j(1) by (auto simp: ready_row_def)
  obtain s where acq: "tryAcquire (den_config env) (den_reading env op) (dwo_admission w) ?r =
      ((dwo_admission w)\<lparr>adm_active := [lease_of_request ?r]\<rparr>, Inr (Admitted (lease_of_request ?r) s))"
    using tryAcquire_spec(1) [OF cap(1), of ?r "dwo_admission w"] valid cap(2) idle by (auto simp: is_active_def)
  have "heavy_db_ok (dwo_store w)" using w by (simp add: world_ok_def)
  moreover obtain r where "find_row (dwo_store w) op = Some r" "hjr_state r = Job_Queued" "hjr_owner r = Some me"
    using rr j(1) by (auto simp: ready_row_def)
  moreover have "require_identifier op ''operationId'' = Inr ()" "date_parse (den_started env op) \<noteq> None"
    using valid_request_id [OF valid] j(1) env by (auto simp: drain_env_ok_def)
  ultimately obtain db' where start:
      "hst_start (sqlite_heavy_store me) (dwo_store w) op (den_started env op) = Inr (db', True)"
    using start_queued_row by blast
  define w1 where "w1 = admit_job (den_now env) j
    (w\<lparr>dwo_queue := fst (fairnessCandidates (dwo_queue w)),
       dwo_admission := (dwo_admission w)\<lparr>adm_active := [lease_of_request ?r]\<rparr>, dwo_store := db'\<rparr>)"
  have step: "drain qcfg env w = drain_loop env (rows_by_id ?jobs) ops w1 [lease_of_request ?r]"
    using d ops row acq start j(1) env by (simp add: drain_env_ok_def Let_def w1_def)
  obtain w' out where run: "drain_loop env (rows_by_id ?jobs) ops w1 [lease_of_request ?r] = (w', Inr out)"
    using drain_loop_returns env unfolding drain_env_ok_def by blast
  then obtain ls where "out = lease_of_request ?r # ls" using drain_loop_prefix by fastforce
  then have "drain qcfg env w = (w', Inr (lease_of_request ?r # ls))" using step run by simp
  moreover have "ale_operation (lease_of_request ?r) = op" using j(1) by (simp add: lease_of_entry)
  ultimately show ?thesis using ord ops by blast
qed

section \<open>Handing a slot over\<close>

lemma settle_other_rows:
  assumes "heavy_db_ok db" "require_identifier op ''operationId'' = Inr ()" "date_parse t \<noteq> None"
  shows "\<exists>db' b. hst_settle (sqlite_heavy_store me) db op outcome t d = Inr (db', b) \<and> heavy_db_ok db' \<and>
     (\<forall>op'. op' \<noteq> op \<longrightarrow> find_row db' op' = find_row db op')"
proof -
  let ?Q = "\<lambda>r. hjr_state r = Job_Running \<and> hjr_owner r = Some me"
  let ?f = "\<lambda>r. r\<lparr>hjr_state := outcome_state outcome, hjr_finished_at := Some t, hjr_detail := optional_detail d\<rparr>"
  obtain db' b where up: "update_rows (\<lambda>x. hjr_operation x = op \<and> ?Q x) ?f db = (db', b)"
    by (cases "update_rows (\<lambda>x. hjr_operation x = op \<and> ?Q x) ?f db")
  then have settle: "heavy_settle me db op outcome t d = Inr (db', b)"
    using assms(2,3) by (simp add: heavy_settle_def heavy_validate_iso_def)
  then have "heavy_step db (me, HSettle op outcome t d) = db'" by simp
  then have ok: "heavy_db_ok db'" using heavy_step_ok [OF assms(1)] by metis
  have others: "find_row db' op' = find_row db op'" if "op' \<noteq> op" for op'
    using update_rows_other [OF that, of ?f ?Q db] up by simp
  have "hst_settle (sqlite_heavy_store me) db op outcome t d = Inr (db', b)"
    using settle by (simp add: sqlite_heavy_store_def)
  then show ?thesis using ok others by (intro exI [of _ db'] exI [of _ b] conjI allI impI)
qed

lemma ready_row_store:
  "ready_row me env db j \<Longrightarrow> find_row db' (job_id j) = find_row db (job_id j) \<Longrightarrow> ready_row me env db' j"
  by (simp add: ready_row_def)

lemma settle_frees:
  assumes w: "world_ok heavy_db_ok cfg w" and l: "adm_active (dwo_admission w) = [l]"
    and op: "require_identifier (ale_operation l) ''operationId'' = Inr ()" "date_parse now \<noteq> None"
    and store: "den_store env = Some (sqlite_heavy_store me)"
  shows "\<exists>w1. settleOnce env now l outcome (False, w) = ((True, den_wake env w1), Inr ()) \<and>
     world_ok heavy_db_ok cfg w1 \<and> adm_active (dwo_admission w1) = [] \<and> dwo_queue w1 = dwo_queue w \<and>
     (\<forall>op'. op' \<noteq> ale_operation l \<longrightarrow> find_row (dwo_store w1) op' = find_row (dwo_store w) op')"
proof -
  have db: "heavy_db_ok (dwo_store w)" and inv: "admission_inv cfg (dwo_admission w)"
    using w by (simp_all add: world_ok_def)
  let ?out = "if outcome = Shell_Completed then Settle_Completed else Settle_Failed"
  have "\<exists>db' b. queue_settle (Some (sqlite_heavy_store me)) now (ale_operation l) ?out
        (Some (shell_outcome_name outcome)) (dwo_store w) = Inr (db', b) \<and> heavy_db_ok db' \<and>
      (\<forall>op'. op' \<noteq> ale_operation l \<longrightarrow> find_row db' op' = find_row (dwo_store w) op')"
    using settle_other_rows [OF db op, of me ?out "Some (shell_outcome_name outcome)"]
    by (simp only: queue_settle_def option.case)
  then obtain db' b where s: "queue_settle (Some (sqlite_heavy_store me)) now (ale_operation l) ?out
        (Some (shell_outcome_name outcome)) (dwo_store w) = Inr (db', b)" "heavy_db_ok db'"
      "\<forall>op'. op' \<noteq> ale_operation l \<longrightarrow> find_row db' op' = find_row (dwo_store w) op'"
    by (elim exE conjE)
  have found: "find_active (dwo_admission w) (ale_operation l) = Some l" using l by (simp add: find_active_def)
  obtain adm where rel: "release (dwo_admission w) l = (adm, True)"
    using release_result [of "dwo_admission w" l] found by (cases "release (dwo_admission w) l") auto
  have adm: "adm_active adm = []" "admission_inv cfg adm"
    using release_active [of "dwo_admission w" l] release_inv [OF inv, of l] found l rel by simp_all
  let ?w1 = "w\<lparr>dwo_store := db', dwo_admission := adm\<rparr>"
  have "settleOnce env now l outcome (False, w) = ((True, den_wake env ?w1), Inr ())"
    using store s(1) rel by (simp add: settleOnce_def Let_def)
  moreover have "world_ok heavy_db_ok cfg ?w1" using w s(2) adm(2) by (simp add: world_ok_def)
  ultimately show ?thesis using adm(1) s(3) by (intro exI [of _ ?w1]) simp
qed

section \<open>Properties\<close>

text \<open>
  C18: A drain starts only work it owns. With the SQLite store of owner \<open>me\<close>, whatever nested wakes
  do, the leases a drain answers are for distinct rows that waited in the queue, in fair order;
  each row has left the queue, is running in the store for \<open>me\<close> and holds an active lease, and the
  ceilings of the controller are kept.
\<close>

theorem drain_starts_owned_work:
  assumes envs: "shell_envs_ok me acfg envs" and w: "world_ok heavy_db_ok acfg w"
    and d: "shell_drain qcfg envs n w = (w', Inr admitted)"
  shows "\<exists>ops. orderHeavyJobs (snd (fairnessCandidates (dwo_queue w)))
       (fairness_context qcfg (den_now (envs n)) (fst (fairnessCandidates (dwo_queue w)))) = Some ops \<and>
     subseq (map ale_operation admitted) ops \<and> distinct (map ale_operation admitted) \<and>
     (\<forall>l \<in> set admitted. queue_holds (dwo_queue w) (ale_operation l) \<and>
        \<not> queue_holds (dwo_queue w') (ale_operation l) \<and>
        l \<in> set (adm_active (dwo_admission w')) \<and> runs_for me (dwo_store w') (ale_operation l)) \<and>
     within_limits acfg (dwo_admission w') \<and> heavy_db_ok (dwo_store w')"
proof -
  let ?env = "(envs n)\<lparr>den_wake := shell_wake qcfg envs n\<rparr>"
  have e: "den_store ?env = Some (sqlite_heavy_store me)" "den_config ?env = acfg" "den_now ?env = den_now (envs n)"
    using envs by (simp_all add: shell_envs_ok_def)
  have wake: "wake_keeps heavy_db_ok (runs_for me) (den_config ?env) (den_wake ?env)"
    using shell_wake_keeps [OF envs] e(2) by simp
  from drain_effect [OF e(1) wake, of w qcfg w' admitted] show ?thesis
    using w d e(2,3) by (simp add: shell_drain_def)
qed

text \<open>
  While the store answers, a drain returns. For a queue and a controller their constructors accept, with
  a heavy ceiling JavaScript can count, every drain over the tables of the SQLite repository answers a
  list of leases, whatever number of nested wakes the stack allows. The model of the store has no
  failures of the database itself: a store that throws ends the loop of \<open>drain\<close> (\<open>Inl\<close>), and the leases
  taken before stay with the controller.
\<close>

theorem drain_always_returns:
  assumes "new_queue_config m k a = Inr qcfg" "distinct (map job_id (hwq_jobs (dwo_queue w)))"
    and "drain_env_ok me (envs n)"
  shows "\<exists>w' admitted. shell_drain qcfg envs n w = (w', Inr admitted)"
  unfolding shell_drain_def using assms by (intro drain_total) simp_all

text \<open>
  C20: A settled grant hands its slot over. When the only active lease is settled and rows wait that
  the store holds for \<open>me\<close> and the limits allow, the release wakes a drain that starts the first of
  them in fair order: its lease is granted to the listeners and active, and its row runs.
\<close>

theorem settled_slot_is_handed_over:
  assumes cfg: "new_queue_config m k a = Inr qcfg" and envs: "shell_envs_ok me acfg envs" "drain_env_ok me (envs n)"
    and w: "world_ok heavy_db_ok acfg w" "adm_active (dwo_admission w) = [l]"
    and l: "require_identifier (ale_operation l) ''operationId'' = Inr ()" "\<not> queue_holds (dwo_queue w) (ale_operation l)"
    and ready: "hwq_jobs (dwo_queue w) \<noteq> []" "\<forall>j \<in> set (hwq_jobs (dwo_queue w)). ready_row me (envs n) (dwo_store w) j"
    and now: "date_parse now \<noteq> None" and env: "den_store env = Some (sqlite_heavy_store me)"
  shows "\<exists>w' l' op ops. settleOnce (env\<lparr>den_wake := shell_wake qcfg envs (Suc n)\<rparr>) now l outcome (False, w) = ((True, w'), Inr ()) \<and>
     orderHeavyJobs (snd (fairnessCandidates (dwo_queue w)))
       (fairness_context qcfg (den_now (envs n)) (fst (fairnessCandidates (dwo_queue w)))) = Some (op # ops) \<and>
     ale_operation l' = op \<and> l' \<in> set (dwo_granted w') \<and> l' \<in> set (adm_active (dwo_admission w')) \<and>
     runs_for me (dwo_store w') op"
proof -
  let ?env = "(envs n)\<lparr>den_wake := shell_wake qcfg envs n\<rparr>" and ?top = "env\<lparr>den_wake := shell_wake qcfg envs (Suc n)\<rparr>"
  have e: "den_store ?env = Some (sqlite_heavy_store me)" "den_config ?env = acfg" "den_now ?env = den_now (envs n)"
    using envs(1) by (simp_all add: shell_envs_ok_def)
  have wake: "wake_keeps heavy_db_ok (runs_for me) (den_config ?env) (den_wake ?env)"
    using shell_wake_keeps [OF envs(1)] e(2) by simp
  obtain w1 where s: "settleOnce ?top now l outcome (False, w) = ((True, den_wake ?top w1), Inr ())"
      and w1: "world_ok heavy_db_ok acfg w1" "adm_active (dwo_admission w1) = []" "dwo_queue w1 = dwo_queue w"
      "\<forall>op'. op' \<noteq> ale_operation l \<longrightarrow> find_row (dwo_store w1) op' = find_row (dwo_store w) op'"
    using settle_frees [OF w l(1) now, of ?top me outcome] env by auto
  have "ready_row me ?env (dwo_store w1) j" if "j \<in> set (hwq_jobs (dwo_queue w1))" for j
  proof -
    have "job_id j \<noteq> ale_operation l" using that l(2) w1(3) by (auto simp: queue_holds_def)
    then show ?thesis using ready(2) that w1(3,4) by (auto intro: ready_row_store)
  qed
  then obtain w2 l' ls ops where d: "drain qcfg ?env w1 = (w2, Inr (l' # ls))"
      and ord: "orderHeavyJobs (snd (fairnessCandidates (dwo_queue w1)))
         (fairness_context qcfg (den_now ?env) (fst (fairnessCandidates (dwo_queue w1)))) = Some (ale_operation l' # ops)"
    using drain_starts_first [OF cfg, of me ?env w1] envs(2) w1(1,2,3) ready(1) e(2) by auto
  have "l' \<in> set (adm_active (dwo_admission w2)) \<and> runs_for me (dwo_store w2) (ale_operation l')"
    using drain_effect [OF e(1) wake _ d] w1(1) e(2) by auto
  moreover have "den_wake ?top w1 = w2\<lparr>dwo_granted := dwo_granted w2 @ l' # ls\<rparr>" using d by simp
  ultimately show ?thesis using s ord w1(3) e(3)
    by (intro exI [of _ "w2\<lparr>dwo_granted := dwo_granted w2 @ l' # ls\<rparr>"] exI [of _ l']
        exI [of _ "ale_operation l'"] exI [of _ ops]) simp
qed

section \<open>A sample port\<close>

text \<open>
  Owner A holds one queued shell run of workspace w; the controller has its default limits, and in
  the busy world a verification holds the only heavy slot.
\<close>

definition shell_sample_envs :: "nat \<Rightarrow> heavy_db drain_env" where
  "shell_sample_envs n = \<lparr>den_config = default_config, den_reading = (\<lambda>_. no_reading),
     den_store = Some (sqlite_heavy_store ''A''), den_started = (\<lambda>_. Instant 5), den_now = 5, den_wake = id\<rparr>"

definition shell_sample_job :: heavy_entry where
  "shell_sample_job = normalize_heavy_request (heavy_request_of_shell
     \<lparr>shr_operation = ''a'', shr_workspace = Some ''w'', shr_session = None, shr_class = Shell_Verification_Heavy\<rparr>) (Instant 0)"

definition shell_sample_store :: heavy_db where
  "shell_sample_store = heavy_step [] (''A'', HClaim (Instant 0) shell_sample_job 16 None)"

definition shell_sample_world :: "admission \<Rightarrow> heavy_db drain_world" where
  "shell_sample_world adm = \<lparr>dwo_admission = adm, dwo_queue = insertLocal shell_sample_job 1 new_heavy_queue,
     dwo_store = shell_sample_store, dwo_retired = [], dwo_granted = []\<rparr>"

definition busy_request :: admission_request where
  "busy_request = simple_request ''run'' ''w'' Verification_Heavy 8"

definition busy_admission :: admission where
  "busy_admission = fst (tryAcquire default_config no_reading new_admission busy_request)"

lemma shell_sample_envs_ok: "shell_envs_ok ''A'' default_config shell_sample_envs"
  by (simp add: shell_envs_ok_def shell_sample_envs_def)

lemma shell_sample_env_ok: "drain_env_ok ''A'' (shell_sample_envs n)"
proof -
  have "ac_max_heavy default_config \<le> max_safe_integer" by code_simp
  then show ?thesis by (simp add: drain_env_ok_def shell_sample_envs_def)
qed

lemma shell_sample_store_ok: "heavy_db_ok shell_sample_store"
  unfolding shell_sample_store_def by (rule heavy_step_ok) (simp add: heavy_db_ok_def)

lemma shell_sample_world_ok:
  "admission_inv default_config adm \<Longrightarrow> world_ok heavy_db_ok default_config (shell_sample_world adm)"
  using shell_sample_store_ok
  by (simp add: world_ok_def shell_sample_world_def insertLocal_def new_heavy_queue_def)

lemma busy_admission_facts:
  "admission_inv default_config busy_admission" "adm_active busy_admission = [lease_of_request busy_request]"
proof -
  show "admission_inv default_config busy_admission"
    unfolding busy_admission_def by (rule acquire_inv) (simp add: new_admission_inv)
  show "adm_active busy_admission = [lease_of_request busy_request]" by code_simp
qed

lemma shell_sample_ready:
  "j \<in> set (hwq_jobs (dwo_queue (shell_sample_world adm))) \<Longrightarrow> ready_row ''A'' (shell_sample_envs n) shell_sample_store j"
proof -
  let ?j = "\<lparr>ljo_entry = shell_sample_job, ljo_position = 1\<rparr>"
  have "valid_request (request_of_entry (ljo_entry ?j))" by code_simp
  moreover have "heavy_cap default_config no_reading = Inr 1" by code_simp
  moreover have "fits default_config no_reading 1 [] (lease_of_request (request_of_entry (ljo_entry ?j)))" by code_simp
  moreover have "case find_row shell_sample_store (job_id ?j) of Some r \<Rightarrow> hjr_state r = Job_Queued \<and> hjr_owner r = Some ''A''
      | None \<Rightarrow> False" by code_simp
  ultimately have "ready_row ''A'' (shell_sample_envs n) shell_sample_store ?j"
    by (auto simp: ready_row_def shell_sample_envs_def split: option.splits)
  moreover assume "j \<in> set (hwq_jobs (dwo_queue (shell_sample_world adm)))"
  ultimately show ?thesis by (simp add: shell_sample_world_def insertLocal_def new_heavy_queue_def)
qed

theorem drain_starts_owned_work_witness:
  "\<exists>qcfg w' l. shell_queue_config 16 = Inr qcfg \<and>
     shell_drain qcfg shell_sample_envs 1 (shell_sample_world new_admission) = (w', Inr [l]) \<and>
     runs_for ''A'' (dwo_store w') (ale_operation l)"
proof -
  let ?drain = "\<lambda>qcfg. shell_drain qcfg shell_sample_envs 1 (shell_sample_world new_admission)"
  have run: "case shell_queue_config 16 of Inl _ \<Rightarrow> False | Inr qcfg \<Rightarrow>
      (case snd (?drain qcfg) of Inr ls \<Rightarrow> length ls = 1 | _ \<Rightarrow> False)" by code_simp
  then obtain qcfg where c: "shell_queue_config 16 = Inr qcfg" by (cases "shell_queue_config 16") auto
  then obtain ls where "snd (?drain qcfg) = Inr ls" "length ls = 1" using run by (cases "snd (?drain qcfg)") auto
  then obtain w' l where d: "?drain qcfg = (w', Inr [l])" by (cases "?drain qcfg") (auto simp: length_Suc_conv)
  have "world_ok heavy_db_ok default_config (shell_sample_world new_admission)"
    by (intro shell_sample_world_ok new_admission_inv) simp
  from drain_starts_owned_work [OF shell_sample_envs_ok this d] show ?thesis using c d by auto
qed

theorem drain_always_returns_witness:
  "\<exists>qcfg w' admitted. shell_queue_config 16 = Inr qcfg \<and>
     shell_drain qcfg shell_sample_envs 2 (shell_sample_world busy_admission) = (w', Inr admitted)"
proof -
  have "\<not> is_err (shell_queue_config 16)" by code_simp
  then obtain qcfg where c: "shell_queue_config 16 = Inr qcfg" by (auto simp: is_err_def split: sum.splits)
  have "distinct (map job_id (hwq_jobs (dwo_queue (shell_sample_world busy_admission))))"
    by (simp add: shell_sample_world_def insertLocal_def new_heavy_queue_def)
  from drain_always_returns [where envs = shell_sample_envs and n = 2,
      OF c [unfolded shell_queue_config_def] this shell_sample_env_ok]
  show ?thesis using c by blast
qed

theorem settled_slot_is_handed_over_witness:
  "\<exists>qcfg w'. settleOnce ((shell_sample_envs 0)\<lparr>den_wake := shell_wake qcfg shell_sample_envs (Suc 0)\<rparr>) (Instant 6)
      (lease_of_request busy_request) Shell_Completed (False, shell_sample_world busy_admission) = ((True, w'), Inr ()) \<and>
     (\<exists>l \<in> set (dwo_granted w'). runs_for ''A'' (dwo_store w') (ale_operation l))"
proof -
  have "\<not> is_err (shell_queue_config 16)" by code_simp
  then obtain qcfg where c: "shell_queue_config 16 = Inr qcfg" by (auto simp: is_err_def split: sum.splits)
  have id: "require_identifier (ale_operation (lease_of_request busy_request)) ''operationId'' = Inr ()"
    "\<not> queue_holds (dwo_queue (shell_sample_world busy_admission)) (ale_operation (lease_of_request busy_request))"
    unfolding atomize_conj by code_simp
  have jobs: "hwq_jobs (dwo_queue (shell_sample_world busy_admission)) \<noteq> []"
    "\<forall>j \<in> set (hwq_jobs (dwo_queue (shell_sample_world busy_admission))).
       ready_row ''A'' (shell_sample_envs 0) (dwo_store (shell_sample_world busy_admission)) j"
    using shell_sample_ready
    by (simp_all add: shell_sample_world_def insertLocal_def new_heavy_queue_def)
  have act: "adm_active (dwo_admission (shell_sample_world busy_admission)) = [lease_of_request busy_request]"
    using busy_admission_facts(2) by (simp add: shell_sample_world_def)
  have store: "den_store (shell_sample_envs 0) = Some (sqlite_heavy_store ''A'')" "date_parse (Instant 6) \<noteq> None"
    by (simp_all add: shell_sample_envs_def)
  from settled_slot_is_handed_over [where n = 0, OF c [unfolded shell_queue_config_def] shell_sample_envs_ok shell_sample_env_ok
      shell_sample_world_ok [OF busy_admission_facts(1)] act id jobs store(2,1), of Shell_Completed]
  show ?thesis by blast
qed

section \<open>What the code leaves behind\<close>

text \<open>
  A row the store has retired is notified once for every nested wake: the release runs before the
  local row is removed, so each wake finds the row again.
\<close>

lemma retired_row_is_notified_per_wake:
  "list_all (\<lambda>n. case shell_queue_config 16 of Inl _ \<Rightarrow> False | Inr qcfg \<Rightarrow>
     dwo_retired (fst (shell_drain qcfg shell_sample_envs n ((shell_sample_world new_admission)\<lparr>dwo_store := []\<rparr>)))
       = replicate (Suc n) ''a'') [0, 2]"
  by code_simp

text \<open>A settle the store rejects keeps the slot: the lease counts as settled and is never released.\<close>

lemma rejected_settle_keeps_the_slot:
  assumes "queue_settle (den_store env) now (ale_operation l)
      (if outcome = Shell_Completed then Settle_Completed else Settle_Failed)
      (Some (shell_outcome_name outcome)) (dwo_store w) = Inl e"
  shows "settleOnce env now l outcome (fst (settleOnce env now l outcome (False, w))) = ((True, w), Inr ())"
  using assms by (simp add: settleOnce_def)

text \<open>
  The drain stops at a row the global ceiling refuses, although a cheaper row behind it fits: with
  eight units in use a row of nine stops the drain before a row of one.
\<close>

definition cheap_behind_costly :: "heavy_db drain_world" where
  "cheap_behind_costly = (shell_sample_world busy_admission)\<lparr>dwo_queue :=
     insertLocal ((sample_job ''cheap'' ''v'')\<lparr>hje_session := Some ''s'', hje_class := ''lsp_process'', hje_cost := int_num 1\<rparr>) 2
       (insertLocal ((sample_job ''costly'' ''w'')\<lparr>hje_class := ''lsp_process'', hje_cost := int_num 9\<rparr>) 1 new_heavy_queue)\<rparr>"

lemma drain_stops_before_a_row_that_fits:
  "case shell_queue_config 16 of Inl _ \<Rightarrow> False | Inr qcfg \<Rightarrow>
     (case (drain qcfg ((shell_sample_envs 0)\<lparr>den_store := None\<rparr>) cheap_behind_costly,
            drain qcfg ((shell_sample_envs 0)\<lparr>den_store := None\<rparr>)
              (cheap_behind_costly\<lparr>dwo_queue := removeLocal ''costly'' (dwo_queue cheap_behind_costly)\<rparr>)) of
       ((_, Inr stopped), (_, Inr alone)) \<Rightarrow> stopped = [] \<and> map ale_operation alone = [''cheap'']
     | _ \<Rightarrow> False)"
  by code_simp

end
