(* ===== verification/Runtime_Store.thy ===== *)
theory Runtime_Store
  imports Goal_Machine Goal_Runtime_Projector
begin

text \<open>
  The tables of the goal runtime beside those of the goals: the append-only event log and the
  snapshots of projections (packages/storage/src/migrations: goal-runtime-event-migration.ts,
  goal-runtime-workspace-observation-migration.ts, goal-runtime-integration-observation-migration.ts
  and goal-runtime-snapshot-migration.ts), and the narrowing of a stored string to a member of an
  enumeration, which both decoders use. A row keeps the columns as the table does: enumerations are
  strings, and every nullable column is optional on its own.
\<close>

section \<open>Rows\<close>

record runtime_event_row =
  vr_sequence :: int
  vr_event_id :: string
  vr_workspace_id :: string
  vr_goal_id :: string
  vr_event_type :: string
  vr_execution_id :: "string option"
  vr_execution_generation :: "int option"
  vr_occurred_at :: iso
  vr_detail :: "string option"
  vr_phase :: "string option"
  vr_task_id :: "string option"
  vr_checkpoint_id :: "string option"
  vr_blocker_kind :: "string option"
  vr_workspace_state :: "string option"
  vr_integration_state :: "string option"
  vr_recorded_at :: iso

text \<open>\<open>progress_json\<close> holds its decoded value, as the JSON columns of the goals do.\<close>

record runtime_snapshot_row =
  sr_goal_id :: string
  sr_workspace_id :: string
  sr_contract_version :: int
  sr_lifecycle_state :: string
  sr_runtime_state :: string
  sr_desired_runtime_state :: string
  sr_integration_state :: string
  sr_workspace_state :: string
  sr_active_execution_id :: "string option"
  sr_execution_generation :: "int option"
  sr_phase :: "string option"
  sr_progress :: "goal_runtime_progress option"
  sr_last_activity_at :: iso
  sr_last_heartbeat_at :: "iso option"
  sr_blocker_kind :: "string option"
  sr_blocker_detail :: "string option"
  sr_blocker_observed_at :: "iso option"
  sr_last_event_sequence :: int
  sr_updated_at :: iso

text \<open>
  \<open>rd_sequence\<close> is the greatest sequence the log ever allocated, which AUTOINCREMENT keeps beside
  the table, so that a sequence is not used again after its row is gone.
\<close>

record runtime_db =
  rd_goals :: goal_db
  rd_events :: "runtime_event_row list"
  rd_sequence :: int
  rd_snapshots :: "runtime_snapshot_row list"

section \<open>Narrowing a string to an enumeration\<close>

text \<open>A guard that holds narrows the string to the member of that name.\<close>

definition member_named :: "('e \<Rightarrow> string) \<Rightarrow> 'e list \<Rightarrow> string \<Rightarrow> 'e option" where
  "member_named name members s = find (\<lambda>e. name e = s) members"

locale enum_members = enum_names name names
  for name :: "'e \<Rightarrow> string" and names :: "string list" +
  fixes members :: "'e list"
  assumes members_all: "set members = UNIV"
begin

lemma name_eq: "name a = name b \<longleftrightarrow> a = b"
  using name_inj by (simp add: inj_eq)

lemma member_namedD: "member_named name members s = Some e \<Longrightarrow> s = name e"
  by (auto simp: member_named_def find_Some_iff)

lemma member_name: "member_named name members (name e) = Some e"
proof (cases "member_named name members (name e)")
  case None
  then show ?thesis using members_all by (auto simp: member_named_def find_None_iff)
next
  case (Some x)
  then show ?thesis using name_inj by (auto dest: member_namedD injD)
qed

lemma member_named_iff: "member_named name members s = Some e \<longleftrightarrow> s = name e"
  using member_namedD member_name by blast

lemma member_named_None_iff: "member_named name members s = None \<longleftrightarrow> \<not> is_string_in (JStr s) names"
proof -
  have "is_string_in (JStr s) names \<longleftrightarrow> (\<exists>e. s = name e)"
    using names_exact by (auto simp: is_string_in_iff)
  then show ?thesis by (metis member_named_iff not_None_eq option.distinct(1))
qed

end

definition ALL_LIFECYCLE :: "goal_lifecycle_state list" where
  "ALL_LIFECYCLE = [Lc_open, Lc_completed, Lc_abandoned, Lc_archived, Lc_cleaned]"

definition ALL_RUNTIME :: "goal_runtime_state list" where
  "ALL_RUNTIME = [Rt_idle, Rt_queued, Rt_starting, Rt_running, Rt_paused, Rt_waiting_approval,
     Rt_waiting_input, Rt_blocked, Rt_recovering, Rt_recovery_required, Rt_failed, Rt_cancelled]"

definition ALL_DESIRED :: "goal_desired_runtime_state list" where
  "ALL_DESIRED = [Ds_idle, Ds_running, Ds_paused, Ds_cancelled]"

definition ALL_INTEGRATION :: "goal_integration_state list" where
  "ALL_INTEGRATION =
     [In_not_started, In_pending, In_integrating, In_integrated, In_conflict, In_unknown]"

definition ALL_WORKSPACE :: "goal_workspace_state list" where
  "ALL_WORKSPACE = [Wk_clean, Wk_dirty, Wk_missing, Wk_unavailable, Wk_conflict, Wk_unknown]"

definition ALL_BLOCKER :: "goal_blocker_kind list" where
  "ALL_BLOCKER = [Bk_waiting_approval, Bk_waiting_input, Bk_resource_pressure,
     Bk_dependency_unavailable, Bk_worker_lost, Bk_integration_conflict, Bk_dirty_workspace,
     Bk_active_lease_elsewhere, Bk_provider_unavailable, Bk_task_failed, Bk_goal_blocked,
     Bk_recovery_required, Bk_unknown]"

definition ALL_GOAL_SCOPED :: "goal_scoped_type list" where
  "ALL_GOAL_SCOPED = [Et_goal_created, Et_goal_selected, Et_goal_completed, Et_goal_abandoned,
     Et_goal_archived, Et_goal_cleaned, Et_goal_blocker_observed, Et_workspace_observed,
     Et_integration_observed]"

definition ALL_EXECUTION_SCOPED :: "execution_scoped_type list" where
  "ALL_EXECUTION_SCOPED = [Et_execution_submitted, Et_execution_queued, Et_execution_started,
     Et_execution_heartbeat, Et_phase_started, Et_phase_completed, Et_task_started,
     Et_task_progress, Et_task_completed, Et_task_failed, Et_checkpoint_created,
     Et_approval_required, Et_approval_resolved, Et_input_required, Et_input_resolved,
     Et_execution_pause_requested, Et_execution_paused, Et_execution_resumed,
     Et_execution_cancel_requested, Et_integration_started, Et_integration_completed,
     Et_integration_conflict, Et_execution_completed, Et_execution_failed,
     Et_execution_cancelled, Et_worker_lost]"

lemma execution_scoped_type_UNIV: "UNIV = set ALL_EXECUTION_SCOPED"
  unfolding ALL_EXECUTION_SCOPED_def by (auto intro: execution_scoped_type.exhaust)

lemma execution_scoped_names_map:
  "map execution_scoped_type_name ALL_EXECUTION_SCOPED = EXECUTION_SCOPED_RUNTIME_EVENT_TYPES"
  by (simp add: ALL_EXECUTION_SCOPED_def EXECUTION_SCOPED_RUNTIME_EVENT_TYPES_def)

lemma execution_scoped_type_name_inj: "inj execution_scoped_type_name"
proof -
  have "distinct (map execution_scoped_type_name ALL_EXECUTION_SCOPED)"
    unfolding execution_scoped_names_map by (simp add: EXECUTION_SCOPED_RUNTIME_EVENT_TYPES_def)
  then have "inj_on execution_scoped_type_name (set ALL_EXECUTION_SCOPED)"
    unfolding distinct_map by (rule conjunct2)
  then show ?thesis unfolding execution_scoped_type_UNIV .
qed

interpretation lifecycle_members: enum_members lifecycle_name GOAL_LIFECYCLE_STATES ALL_LIFECYCLE
  by unfold_locales (simp add: lifecycle_UNIV ALL_LIFECYCLE_def)

interpretation runtime_members: enum_members runtime_state_name GOAL_RUNTIME_STATES ALL_RUNTIME
  by unfold_locales (simp add: runtime_state_UNIV ALL_RUNTIME_def)

interpretation desired_members:
  enum_members desired_state_name GOAL_DESIRED_RUNTIME_STATES ALL_DESIRED
  by unfold_locales (simp add: desired_state_UNIV ALL_DESIRED_def)

interpretation integration_members:
  enum_members integration_state_name GOAL_INTEGRATION_STATES ALL_INTEGRATION
  by unfold_locales (simp add: integration_state_UNIV ALL_INTEGRATION_def)

interpretation workspace_members:
  enum_members workspace_state_name GOAL_WORKSPACE_STATES ALL_WORKSPACE
  by unfold_locales (simp add: workspace_state_UNIV ALL_WORKSPACE_def)

interpretation blocker_members: enum_members blocker_kind_name GOAL_BLOCKER_KINDS ALL_BLOCKER
  by unfold_locales (simp add: blocker_kind_UNIV ALL_BLOCKER_def)

interpretation goal_scoped_members:
  enum_members goal_scoped_type_name GOAL_SCOPED_RUNTIME_EVENT_TYPES ALL_GOAL_SCOPED
  by unfold_locales (simp add: goal_scoped_type_UNIV ALL_GOAL_SCOPED_def)

interpretation execution_scoped_members:
  enum_members execution_scoped_type_name EXECUTION_SCOPED_RUNTIME_EVENT_TYPES ALL_EXECUTION_SCOPED
proof unfold_locales
  show "set EXECUTION_SCOPED_RUNTIME_EVENT_TYPES = range execution_scoped_type_name"
    unfolding execution_scoped_names_map [symmetric] execution_scoped_type_UNIV by simp
qed (rule execution_scoped_type_name_inj, rule execution_scoped_type_UNIV [symmetric])

text \<open>The two lists of types are disjoint, so the type of a row decides its form.\<close>

lemma goal_scoped_not_execution_scoped:
  "goal_scoped_type_name g \<noteq> execution_scoped_type_name x"
proof -
  have "set GOAL_SCOPED_RUNTIME_EVENT_TYPES \<inter> set EXECUTION_SCOPED_RUNTIME_EVENT_TYPES = {}"
    by (simp add: GOAL_SCOPED_RUNTIME_EVENT_TYPES_def EXECUTION_SCOPED_RUNTIME_EVENT_TYPES_def)
  then show ?thesis
    using goal_scoped_names.names_exact execution_scoped_members.names_exact by blast
qed

lemmas member_named_iffs =
  lifecycle_members.member_named_iff runtime_members.member_named_iff
  desired_members.member_named_iff integration_members.member_named_iff
  workspace_members.member_named_iff blocker_members.member_named_iff
  goal_scoped_members.member_named_iff execution_scoped_members.member_named_iff

lemmas member_names [simp] =
  lifecycle_members.member_name runtime_members.member_name
  desired_members.member_name integration_members.member_name
  workspace_members.member_name blocker_members.member_name
  goal_scoped_members.member_name execution_scoped_members.member_name

lemmas name_eqs [simp] =
  lifecycle_members.name_eq runtime_members.name_eq desired_members.name_eq
  integration_members.name_eq workspace_members.name_eq blocker_members.name_eq
  goal_scoped_members.name_eq execution_scoped_members.name_eq

text \<open>A member passes its own guard.\<close>

lemma guards_of_members [simp]:
  "isGoalLifecycleState (JStr (lifecycle_name l))" "isGoalRuntimeState (JStr (runtime_state_name r))"
  "isGoalDesiredRuntimeState (JStr (desired_state_name d))"
  "isGoalIntegrationState (JStr (integration_state_name i))"
  "isGoalWorkspaceState (JStr (workspace_state_name w))"
  "isGoalBlockerKind (JStr (blocker_kind_name b))"
  using lifecycle_names.names_exact runtime_names.names_exact desired_names.names_exact
    integration_names.names_exact workspace_names.names_exact blocker_names.names_exact
  by (auto simp: is_string_in_iff isGoalLifecycleState_def isGoalRuntimeState_def
      isGoalDesiredRuntimeState_def isGoalIntegrationState_def isGoalWorkspaceState_def
      isGoalBlockerKind_def)

end
