(* ===== verification/Runtime_Event_Codec.thy ===== *)
theory Runtime_Event_Codec
  imports Runtime_Store
begin

text \<open>
  What a row of the event log holds of an event, and the way back
  (packages/storage/src/goal-runtime-event-repository.ts): the requests and results of the
  repository, its checks of values, the columns an INSERT writes and the decoder \<open>toRecord\<close>. The two
  directions are inverse: a row decodes to a record exactly when it is the row of that record.
\<close>

section \<open>Requests and results\<close>

text \<open>The three reasons of \<open>GoalRuntimeEventStoreError\<close>, and a constraint the database enforces.\<close>

datatype event_store_error =
  Ee_invalid_event | Ee_event_id_conflict | Ee_corrupt | Ee_constraint

record event_store_config =
  ec_maxEventsPerWorkspace :: int
  ec_retentionSlack :: int

record goal_runtime_event_record =
  rr_sequence :: int
  rr_event :: goal_runtime_event
  rr_recordedAt :: iso

record append_event_result =
  ar_appended :: bool
  ar_record :: goal_runtime_event_record

record append_reconciliation_request =
  rq_event :: goal_runtime_event
  rq_recordedAt :: iso
  rq_expectedSnapshotSequence :: int
  rq_expectedLeaseGeneration :: int
  rq_expectedLeaseActivitySeq :: int
  rq_expectedLiveScheduledContinuation :: "(string \<times> int) option"

datatype reconciliation_conflict =
  Cr_goal_not_active | Cr_lease_changed | Cr_snapshot_changed | Cr_event_stream_advanced
| Cr_execution_changed | Cr_scheduled_continuation_changed

datatype append_reconciliation_result =
  Rx_appended goal_runtime_event_record | Rx_duplicate goal_runtime_event_record
| Rx_concurrent_change reconciliation_conflict

record event_replay_page =
  rp_events :: "goal_runtime_event_record list"
  rp_oldestAvailableSequence :: "int option"
  rp_latestSequence :: "int option"
  rp_replayWindowMissed :: bool

record workspace_sequence_bounds =
  wb_workspaceId :: string
  wb_oldestAvailableSequence :: "int option"
  wb_latestSequence :: "int option"

record multiplexed_replay_page =
  mp_page :: event_replay_page
  mp_workspaceBounds :: "workspace_sequence_bounds list"

section \<open>Checks of values\<close>

definition MAX_REPLAY_LIMIT :: int where "MAX_REPLAY_LIMIT = 500"
definition EVENT_MAX_ID_CHARS :: nat where "EVENT_MAX_ID_CHARS = 512"
definition EVENT_MAX_DETAIL_CHARS :: nat where "EVENT_MAX_DETAIL_CHARS = 2000"

definition event_identifier :: "string \<Rightarrow> bool" where
  "event_identifier value \<longleftrightarrow>
     \<not> (length (js_trim value) = 0 \<or> length (js_trim value) > EVENT_MAX_ID_CHARS)"

definition optionalBounded :: "string option \<Rightarrow> nat \<Rightarrow> bool" where
  "optionalBounded value limit = (case value of None \<Rightarrow> True | Some s \<Rightarrow> \<not> length s > limit)"

definition event_positiveInteger :: "int \<Rightarrow> event_store_error + int" where
  "event_positiveInteger value = (if value \<le> 0 then Inl Ee_invalid_event else Inr value)"

definition event_nonNegativeInteger :: "int \<Rightarrow> event_store_error + int" where
  "event_nonNegativeInteger value = (if value < 0 then Inl Ee_invalid_event else Inr value)"

definition event_boundedLimit :: "int \<Rightarrow> event_store_error + int" where
  "event_boundedLimit value =
     bind_ok (event_positiveInteger value) (\<lambda>v. Inr (min MAX_REPLAY_LIMIT v))"

definition event_validateIso :: "iso \<Rightarrow> event_store_error \<Rightarrow> event_store_error + unit" where
  "event_validateIso value reason = (if date_parse value = None then Inl reason else Inr ())"

definition new_event_store :: "int option \<Rightarrow> int option \<Rightarrow> event_store_error + event_store_config" where
  "new_event_store maxEvents slack =
     bind_ok (event_positiveInteger (case maxEvents of None \<Rightarrow> 5000 | Some n \<Rightarrow> n)) (\<lambda>m.
     bind_ok (event_nonNegativeInteger (case slack of None \<Rightarrow> 128 | Some n \<Rightarrow> n)) (\<lambda>k.
       Inr \<lparr>ec_maxEventsPerWorkspace = m, ec_retentionSlack = k\<rparr>))"

definition isObservedIntegrationState :: "string \<Rightarrow> bool" where
  "isObservedIntegrationState s \<longleftrightarrow>
     isGoalIntegrationState (JStr s) \<and> s \<noteq> ''not_started'' \<and> s \<noteq> ''integrating''"

definition observed_state_name :: "observed_integration_state \<Rightarrow> string" where
  "observed_state_name i = integration_state_name (observed_integration i)"

definition ALL_OBSERVED :: "observed_integration_state list" where
  "ALL_OBSERVED = [Ob_pending, Ob_integrated, Ob_conflict, Ob_unknown]"

text \<open>The checks on the payload restate what its type already says; they are kept as written.\<close>

fun goal_payload_ok :: "goal_scoped_event \<Rightarrow> bool" where
  "goal_payload_ok (Ge_workspace_observed w) = isGoalWorkspaceState (JStr (workspace_state_name w))"
| "goal_payload_ok (Ge_integration_observed i) = isObservedIntegrationState (observed_state_name i)"
| "goal_payload_ok _ = True"

definition validateEvent :: "goal_runtime_event \<Rightarrow> event_store_error + unit" where
  "validateEvent event =
     (let b = event_base event
      in if \<not> event_identifier (ev_eventId b) \<or> \<not> event_identifier (ev_workspaceId b)
           \<or> \<not> event_identifier (ev_goalId b) then Inl Ee_invalid_event
         else bind_ok (event_validateIso (ev_occurredAt b) Ee_invalid_event) (\<lambda>_.
           if \<not> optionalBounded (ev_detail b) EVENT_MAX_DETAIL_CHARS then Inl Ee_invalid_event
           else case event of
             GoalScoped _ g \<Rightarrow> if \<not> goal_payload_ok g then Inl Ee_invalid_event else Inr ()
           | ExecutionScoped _ x \<Rightarrow>
               if \<not> event_identifier (xe_executionId x) then Inl Ee_invalid_event
               else bind_ok (event_positiveInteger (xe_executionGeneration x)) (\<lambda>_.
                 if \<not> optionalBounded (xe_phase x) EVENT_MAX_ID_CHARS
                   \<or> \<not> optionalBounded (xe_taskId x) EVENT_MAX_ID_CHARS
                   \<or> \<not> optionalBounded (xe_checkpointId x) EVENT_MAX_ID_CHARS
                 then Inl Ee_invalid_event
                 else case xe_blockerKind x of
                   None \<Rightarrow> Inr ()
                 | Some k \<Rightarrow> if \<not> isGoalBlockerKind (JStr (blocker_kind_name k))
                     then Inl Ee_invalid_event else Inr ())))"

text \<open>\<open>sameEvent\<close> compares the fields one by one, in the order of the source.\<close>

definition same_goal_payload :: "goal_scoped_event \<Rightarrow> goal_scoped_event \<Rightarrow> bool" where
  "same_goal_payload l r = (case (l, r) of
     (Ge_workspace_observed a, Ge_workspace_observed b) \<Rightarrow> a = b
   | (Ge_workspace_observed _, _) \<Rightarrow> False
   | (_, Ge_workspace_observed _) \<Rightarrow> False
   | (Ge_integration_observed a, Ge_integration_observed b) \<Rightarrow> a = b
   | (Ge_integration_observed _, _) \<Rightarrow> False
   | (_, Ge_integration_observed _) \<Rightarrow> False
   | (Ge_blocker_observed a, Ge_blocker_observed b) \<Rightarrow> a = b
   | (Ge_blocker_observed _, _) \<Rightarrow> False
   | (_, Ge_blocker_observed _) \<Rightarrow> False
   | _ \<Rightarrow> True)"

definition sameEvent :: "goal_runtime_event \<Rightarrow> goal_runtime_event \<Rightarrow> bool" where
  "sameEvent left right =
     (let l = event_base left; r = event_base right
      in if ev_eventId l \<noteq> ev_eventId r \<or> event_type_name left \<noteq> event_type_name right
           \<or> ev_workspaceId l \<noteq> ev_workspaceId r \<or> ev_goalId l \<noteq> ev_goalId r
           \<or> ev_occurredAt l \<noteq> ev_occurredAt r \<or> ev_detail l \<noteq> ev_detail r
         then False
         else case (left, right) of
           (GoalScoped _ g, GoalScoped _ h) \<Rightarrow> same_goal_payload g h
         | (ExecutionScoped _ x, ExecutionScoped _ y) \<Rightarrow>
             xe_executionId x = xe_executionId y
             \<and> xe_executionGeneration x = xe_executionGeneration y
             \<and> xe_phase x = xe_phase y \<and> xe_taskId x = xe_taskId y
             \<and> xe_checkpointId x = xe_checkpointId y \<and> xe_blockerKind x = xe_blockerKind y
         | _ \<Rightarrow> False)"

section \<open>Rows and events\<close>

text \<open>The values of the INSERT, column by column.\<close>

definition event_row :: "int \<Rightarrow> goal_runtime_event \<Rightarrow> iso \<Rightarrow> runtime_event_row" where
  "event_row sequence event recordedAt =
     (let b = event_base event;
          execution = (case event of GoalScoped _ _ \<Rightarrow> None | ExecutionScoped _ x \<Rightarrow> Some x)
      in \<lparr>vr_sequence = sequence, vr_event_id = ev_eventId b, vr_workspace_id = ev_workspaceId b,
          vr_goal_id = ev_goalId b, vr_event_type = event_type_name event,
          vr_execution_id = map_option xe_executionId execution,
          vr_execution_generation = map_option xe_executionGeneration execution,
          vr_occurred_at = ev_occurredAt b, vr_detail = ev_detail b,
          vr_phase = Option.bind execution xe_phase,
          vr_task_id = Option.bind execution xe_taskId,
          vr_checkpoint_id = Option.bind execution xe_checkpointId,
          vr_blocker_kind = (case event of
            GoalScoped _ (Ge_blocker_observed k) \<Rightarrow> if k then Some ''goal_blocked'' else None
          | GoalScoped _ _ \<Rightarrow> None
          | ExecutionScoped _ x \<Rightarrow> map_option blocker_kind_name (xe_blockerKind x)),
          vr_workspace_state = (case event of
            GoalScoped _ (Ge_workspace_observed w) \<Rightarrow> Some (workspace_state_name w) | _ \<Rightarrow> None),
          vr_integration_state = (case event of
            GoalScoped _ (Ge_integration_observed i) \<Rightarrow> Some (observed_state_name i) | _ \<Rightarrow> None),
          vr_recorded_at = recordedAt\<rparr>)"

text \<open>
  \<open>requireRow\<close>: what it checks of the columns beyond their types, which the row record has.
\<close>

definition require_event_row :: "runtime_event_row \<Rightarrow> event_store_error + runtime_event_row" where
  "require_event_row row =
     (if vr_sequence row \<le> 0 then Inl Ee_corrupt
      else if (case vr_execution_generation row of None \<Rightarrow> False | Some g \<Rightarrow> g \<le> 0)
      then Inl Ee_corrupt
      else bind_ok (event_validateIso (vr_occurred_at row) Ee_corrupt) (\<lambda>_.
        bind_ok (event_validateIso (vr_recorded_at row) Ee_corrupt) (\<lambda>_. Inr row)))"

definition row_base :: "runtime_event_row \<Rightarrow> goal_runtime_event_base" where
  "row_base row = \<lparr>ev_eventId = vr_event_id row, ev_workspaceId = vr_workspace_id row,
     ev_goalId = vr_goal_id row, ev_occurredAt = vr_occurred_at row, ev_detail = vr_detail row\<rparr>"

text \<open>The types without a payload, as \<open>{ ...common, type: row.event_type }\<close> narrows them.\<close>

fun plain_goal_event :: "goal_scoped_type \<Rightarrow> goal_scoped_event" where
  "plain_goal_event Et_goal_created = Ge_created"
| "plain_goal_event Et_goal_selected = Ge_selected"
| "plain_goal_event Et_goal_completed = Ge_completed"
| "plain_goal_event Et_goal_abandoned = Ge_abandoned"
| "plain_goal_event Et_goal_archived = Ge_archived"
| "plain_goal_event Et_goal_cleaned = Ge_cleaned"
| "plain_goal_event Et_goal_blocker_observed = Ge_blocker_observed False"
| "plain_goal_event Et_workspace_observed = Ge_workspace_observed Wk_unknown"
| "plain_goal_event Et_integration_observed = Ge_integration_observed Ob_unknown"

definition decode_goal_event ::
  "runtime_event_row \<Rightarrow> goal_scoped_type \<Rightarrow> event_store_error + goal_scoped_event" where
  "decode_goal_event row t =
     (if vr_execution_id row \<noteq> None \<or> vr_execution_generation row \<noteq> None \<or> vr_phase row \<noteq> None
        \<or> vr_task_id row \<noteq> None \<or> vr_checkpoint_id row \<noteq> None then Inl Ee_corrupt
      else if t = Et_workspace_observed then
        (if vr_blocker_kind row \<noteq> None \<or> vr_integration_state row \<noteq> None then Inl Ee_corrupt
         else case Option.bind (vr_workspace_state row)
             (member_named workspace_state_name ALL_WORKSPACE) of
           None \<Rightarrow> Inl Ee_corrupt | Some w \<Rightarrow> Inr (Ge_workspace_observed w))
      else if t = Et_integration_observed then
        (if vr_blocker_kind row \<noteq> None \<or> vr_workspace_state row \<noteq> None then Inl Ee_corrupt
         else case Option.bind (vr_integration_state row)
             (member_named observed_state_name ALL_OBSERVED) of
           None \<Rightarrow> Inl Ee_corrupt | Some i \<Rightarrow> Inr (Ge_integration_observed i))
      else if t = Et_goal_blocker_observed then
        (if vr_workspace_state row \<noteq> None \<or> vr_integration_state row \<noteq> None then Inl Ee_corrupt
         else if vr_blocker_kind row \<noteq> None \<and> vr_blocker_kind row \<noteq> Some ''goal_blocked''
         then Inl Ee_corrupt
         else Inr (Ge_blocker_observed (vr_blocker_kind row \<noteq> None)))
      else if vr_workspace_state row \<noteq> None \<or> vr_integration_state row \<noteq> None
        \<or> vr_blocker_kind row \<noteq> None then Inl Ee_corrupt
      else Inr (plain_goal_event t))"

definition decode_execution_event ::
  "runtime_event_row \<Rightarrow> execution_scoped_type \<Rightarrow> event_store_error + execution_scoped_event" where
  "decode_execution_event row t =
     (if vr_workspace_state row \<noteq> None \<or> vr_integration_state row \<noteq> None then Inl Ee_corrupt
      else case (vr_execution_id row, vr_execution_generation row) of
        (Some executionId, Some generation) \<Rightarrow>
          if generation \<le> 0 then Inl Ee_corrupt
          else let event = (\<lambda>kind. \<lparr>xe_type = t, xe_executionId = executionId,
                 xe_executionGeneration = generation, xe_phase = vr_phase row,
                 xe_taskId = vr_task_id row, xe_checkpointId = vr_checkpoint_id row,
                 xe_blockerKind = kind\<rparr>)
               in (case vr_blocker_kind row of
                 None \<Rightarrow> Inr (event None)
               | Some s \<Rightarrow> (case member_named blocker_kind_name ALL_BLOCKER s of
                   None \<Rightarrow> Inl Ee_corrupt | Some k \<Rightarrow> Inr (event (Some k))))
      | _ \<Rightarrow> Inl Ee_corrupt)"

definition decode_event :: "runtime_event_row \<Rightarrow> event_store_error + goal_runtime_event" where
  "decode_event row =
     (case member_named goal_scoped_type_name ALL_GOAL_SCOPED (vr_event_type row) of
        Some t \<Rightarrow> bind_ok (decode_goal_event row t) (\<lambda>g. Inr (GoalScoped (row_base row) g))
      | None \<Rightarrow>
          (case member_named execution_scoped_type_name ALL_EXECUTION_SCOPED (vr_event_type row) of
             Some t \<Rightarrow> bind_ok (decode_execution_event row t)
               (\<lambda>x. Inr (ExecutionScoped (row_base row) x))
           | None \<Rightarrow> Inl Ee_corrupt))"

text \<open>\<open>toRecord(requireRow(row))\<close>, the two calls every reader makes.\<close>

definition read_event_row ::
  "runtime_event_row \<Rightarrow> event_store_error + goal_runtime_event_record" where
  "read_event_row row = bind_ok (require_event_row row) (\<lambda>r.
     bind_ok (decode_event r) (\<lambda>event. Inr \<lparr>rr_sequence = vr_sequence r, rr_event = event,
       rr_recordedAt = vr_recorded_at r\<rparr>))"

section \<open>The rows are exactly the encodings\<close>

interpretation observed_members:
  enum_members observed_state_name "map observed_state_name ALL_OBSERVED" ALL_OBSERVED
proof unfold_locales
  have all: "set ALL_OBSERVED = UNIV"
    by (auto simp: ALL_OBSERVED_def intro: observed_integration_state.exhaust)
  then show "set (map observed_state_name ALL_OBSERVED) = range observed_state_name" by simp
  show "inj observed_state_name"
  proof (rule injI)
    fix x y assume "observed_state_name x = observed_state_name y"
    then show "x = y" by (cases x; cases y; simp add: observed_state_name_def)
  qed
  show "set ALL_OBSERVED = UNIV" by (rule all)
qed

lemmas observed_member [simp] = observed_members.member_name observed_members.name_eq

text \<open>The guard on an observed state accepts the names of the four states it lists.\<close>

lemma isObserved_iff: "isObservedIntegrationState s \<longleftrightarrow> (\<exists>i. s = observed_state_name i)"
proof
  assume "isObservedIntegrationState s"
  then obtain j where j: "s = integration_state_name j"
      "s \<noteq> ''not_started''" "s \<noteq> ''integrating''"
    using integration_names.names_exact
    by (auto simp: isObservedIntegrationState_def isGoalIntegrationState_def is_string_in_iff)
  then show "\<exists>i. s = observed_state_name i"
    by (cases j) (auto simp: observed_state_name_def intro: exI [of _ Ob_pending]
      exI [of _ Ob_integrated] exI [of _ Ob_conflict] exI [of _ Ob_unknown])
next
  assume "\<exists>i. s = observed_state_name i"
  then obtain i where "s = observed_state_name i" by blast
  then show "isObservedIntegrationState s"
    by (cases i) (simp_all add: isObservedIntegrationState_def observed_state_name_def
      isGoalIntegrationState_def is_string_in_def GOAL_INTEGRATION_STATES_def)
qed

lemma goal_payload_ok [simp]: "goal_payload_ok g"
proof (cases g)
  case (Ge_integration_observed i)
  then show ?thesis using isObserved_iff by auto
qed simp_all

text \<open>What the log can hold.\<close>

definition event_sound :: "goal_runtime_event \<Rightarrow> bool" where
  "event_sound event \<longleftrightarrow> date_parse (ev_occurredAt (event_base event)) \<noteq> None \<and>
     (case event of GoalScoped _ _ \<Rightarrow> True | ExecutionScoped _ x \<Rightarrow> 0 < xe_executionGeneration x)"

definition record_sound :: "goal_runtime_event_record \<Rightarrow> bool" where
  "record_sound rec \<longleftrightarrow> 0 < rr_sequence rec \<and> date_parse (rr_recordedAt rec) \<noteq> None
     \<and> event_sound (rr_event rec)"

lemma event_validateIso_ok [simp]: "event_validateIso t r = Inr u \<longleftrightarrow> date_parse t \<noteq> None"
  by (simp add: event_validateIso_def)

lemma event_positiveInteger_ok [simp]: "event_positiveInteger n = Inr m \<longleftrightarrow> 0 < n \<and> m = n"
  by (auto simp: event_positiveInteger_def)

lemma event_nonNegativeInteger_ok [simp]: "event_nonNegativeInteger n = Inr m \<longleftrightarrow> 0 \<le> n \<and> m = n"
  by (auto simp: event_nonNegativeInteger_def)

lemma validateEvent_sound: "validateEvent event = Inr u \<Longrightarrow> event_sound event"
  by (auto simp: validateEvent_def event_sound_def Let_def bind_ok_Inr_iff
      split: if_splits goal_runtime_event.splits)

lemma decode_goal_event_iff:
  "decode_goal_event row t = Inr g \<longleftrightarrow> goal_scoped_event_type g = t
     \<and> vr_execution_id row = None \<and> vr_execution_generation row = None \<and> vr_phase row = None
     \<and> vr_task_id row = None \<and> vr_checkpoint_id row = None
     \<and> vr_blocker_kind row = (if g = Ge_blocker_observed True then Some ''goal_blocked'' else None)
     \<and> vr_workspace_state row =
         (case g of Ge_workspace_observed w \<Rightarrow> Some (workspace_state_name w) | _ \<Rightarrow> None)
     \<and> vr_integration_state row =
         (case g of Ge_integration_observed i \<Rightarrow> Some (observed_state_name i) | _ \<Rightarrow> None)"
  by (cases t; cases g)
    (auto simp: decode_goal_event_def bind_eq_Some_conv workspace_members.member_named_iff
      observed_members.member_named_iff split: option.splits)


lemma decode_execution_event_iff:
  "decode_execution_event row t = Inr x \<longleftrightarrow> xe_type x = t
     \<and> vr_workspace_state row = None \<and> vr_integration_state row = None
     \<and> vr_execution_id row = Some (xe_executionId x)
     \<and> vr_execution_generation row = Some (xe_executionGeneration x)
     \<and> 0 < xe_executionGeneration x \<and> vr_phase row = xe_phase x \<and> vr_task_id row = xe_taskId x
     \<and> vr_checkpoint_id row = xe_checkpointId x
     \<and> vr_blocker_kind row = map_option blocker_kind_name (xe_blockerKind x)"
  by (cases "xe_blockerKind x"; cases "vr_blocker_kind row"; cases x)
    (auto simp: decode_execution_event_def Let_def blocker_members.member_named_iff
      split: option.splits)

lemma goal_type_of_row [simp]:
  "member_named execution_scoped_type_name ALL_EXECUTION_SCOPED (goal_scoped_type_name t) = None"
  "member_named goal_scoped_type_name ALL_GOAL_SCOPED (execution_scoped_type_name u) = None"
  using goal_scoped_not_execution_scoped
  by (metis execution_scoped_members.member_named_iff goal_scoped_members.member_named_iff
      option.exhaust)+

lemma decode_event_iff:
  "decode_event row = Inr event \<longleftrightarrow>
     row = event_row (vr_sequence row) event (vr_recorded_at row)
     \<and> (case event of GoalScoped _ _ \<Rightarrow> True | ExecutionScoped _ x \<Rightarrow> 0 < xe_executionGeneration x)"
proof (cases event)
  case (GoalScoped b g)
  have "decode_event row = Inr event \<longleftrightarrow> b = row_base row \<and>
      (\<exists>t. vr_event_type row = goal_scoped_type_name t \<and> decode_goal_event row t = Inr g)"
    unfolding GoalScoped decode_event_def
    by (auto simp: bind_ok_Inr_iff goal_scoped_members.member_named_iff
        split: option.splits)
  also have "\<dots> \<longleftrightarrow> row = event_row (vr_sequence row) event (vr_recorded_at row)"
    unfolding GoalScoped decode_goal_event_iff event_row_def row_base_def
    by (cases row; cases b; cases g) auto
  finally show ?thesis using GoalScoped by simp
next
  case (ExecutionScoped b x)
  have "decode_event row = Inr event \<longleftrightarrow> b = row_base row \<and>
      (\<exists>t. vr_event_type row = execution_scoped_type_name t \<and> decode_execution_event row t = Inr x)"
    unfolding ExecutionScoped decode_event_def
    by (auto simp: bind_ok_Inr_iff execution_scoped_members.member_named_iff
        split: option.splits)
  also have "\<dots> \<longleftrightarrow> row = event_row (vr_sequence row) event (vr_recorded_at row)
      \<and> 0 < xe_executionGeneration x"
    unfolding ExecutionScoped decode_execution_event_iff event_row_def row_base_def
    by (cases row; cases b; cases x) auto
  finally show ?thesis using ExecutionScoped by simp
qed

lemma event_row_fields [simp]:
  "vr_sequence (event_row n event t) = n" "vr_recorded_at (event_row n event t) = t"
  "vr_event_id (event_row n event t) = ev_eventId (event_base event)"
  "vr_workspace_id (event_row n event t) = ev_workspaceId (event_base event)"
  "vr_goal_id (event_row n event t) = ev_goalId (event_base event)"
  "vr_occurred_at (event_row n event t) = ev_occurredAt (event_base event)"
  by (simp_all add: event_row_def Let_def)

lemma read_event_row_iff:
  "read_event_row row = Inr rec \<longleftrightarrow>
     row = event_row (rr_sequence rec) (rr_event rec) (rr_recordedAt rec) \<and> record_sound rec"
proof -
  have "read_event_row row = Inr rec \<longleftrightarrow> require_event_row row = Inr row
      \<and> decode_event row = Inr (rr_event rec) \<and> rr_sequence rec = vr_sequence row
      \<and> rr_recordedAt rec = vr_recorded_at row"
    by (cases rec) (auto simp: read_event_row_def require_event_row_def bind_ok_Inr_iff
        split: if_splits)
  also have "\<dots> \<longleftrightarrow> row = event_row (rr_sequence rec) (rr_event rec) (rr_recordedAt rec)
      \<and> record_sound rec"
  proof (cases "row = event_row (rr_sequence rec) (rr_event rec) (rr_recordedAt rec)")
    case True
    have "require_event_row row = Inr row \<and> (case rr_event rec of GoalScoped _ _ \<Rightarrow> True
        | ExecutionScoped _ x \<Rightarrow> 0 < xe_executionGeneration x) \<longleftrightarrow> record_sound rec"
      unfolding True
      by (cases "rr_event rec") (auto simp: require_event_row_def record_sound_def event_sound_def
        bind_ok_Inr_iff event_row_def Let_def)
    then show ?thesis unfolding decode_event_iff using True by auto
  next
    case False
    then show ?thesis by (auto simp: decode_event_iff)
  qed
  finally show ?thesis .
qed


section \<open>Equality of events\<close>

lemma sameEvent_iff: "sameEvent left right \<longleftrightarrow> left = right"
proof (cases left; cases right)
  fix b g c h assume "left = GoalScoped b g" "right = GoalScoped c h"
  then show ?thesis
    by (cases b; cases c; cases g; cases h) (auto simp: sameEvent_def same_goal_payload_def Let_def)
next
  fix b x c y assume "left = ExecutionScoped b x" "right = ExecutionScoped c y"
  then show ?thesis
    by (cases b; cases c; cases x; cases y) (auto simp: sameEvent_def Let_def)
qed (auto simp: sameEvent_def Let_def)

lemma read_event_row_encoded [simp]:
  "read_event_row (event_row n event t) = Inr \<lparr>rr_sequence = n, rr_event = event, rr_recordedAt = t\<rparr>
     \<longleftrightarrow> 0 < n \<and> date_parse t \<noteq> None \<and> event_sound event"
  by (simp add: read_event_row_iff record_sound_def)

end
