(* ===== verification/Runtime_Event_Log.thy ===== *)
theory Runtime_Event_Log
  imports Runtime_Event_Codec
begin

text \<open>
  The durable log of runtime events (packages/storage/src/goal-runtime-event-repository.ts, class
  \<open>SqliteGoalRuntimeEventRepository\<close>): the append of a publisher, the append of the restart
  reconciliation under its commit fence, replay, listing and retention. The sequence of a new row is
  the one the database allocates: above every sequence it ever allocated, by \<open>gap + 1\<close>, since
  AUTOINCREMENT may skip numbers. The sequence of a row never wraps: a full table is an error of the
  database outside the model.
\<close>

section \<open>The table\<close>

definition events_of_workspace :: "runtime_db \<Rightarrow> string \<Rightarrow> runtime_event_row list" where
  "events_of_workspace db w =
     sort_key vr_sequence (filter (\<lambda>r. vr_workspace_id r = w) (rd_events db))"

text \<open>The CHECK constraints of the three migrations.\<close>

definition event_row_check :: "runtime_event_row \<Rightarrow> bool" where
  "event_row_check row \<longleftrightarrow>
     ((vr_execution_id row = None \<and> vr_execution_generation row = None)
      \<or> (vr_execution_id row \<noteq> None \<and>
         (case vr_execution_generation row of None \<Rightarrow> False | Some g \<Rightarrow> g > 0)))
     \<and> (case vr_workspace_state row of None \<Rightarrow> True | Some s \<Rightarrow>
          s \<in> set [''clean'', ''dirty'', ''missing'', ''unavailable'', ''conflict'', ''unknown''])
     \<and> (case vr_integration_state row of None \<Rightarrow> True | Some s \<Rightarrow>
          s \<in> set [''pending'', ''integrated'', ''conflict'', ''unknown''])"

definition find_event :: "runtime_db \<Rightarrow> string \<Rightarrow> runtime_event_row option" where
  "find_event db eventId = row_get (\<lambda>r. vr_event_id r = eventId) (rd_events db)"

definition allocate_sequence :: "runtime_db \<Rightarrow> nat \<Rightarrow> int" where
  "allocate_sequence db gap = rd_sequence db + 1 + int gap"

definition add_event_row :: "runtime_event_row \<Rightarrow> runtime_db \<Rightarrow> runtime_db" where
  "add_event_row row db =
     db\<lparr>rd_events := rd_events db @ [row], rd_sequence := vr_sequence row\<rparr>"

text \<open>The insert fails when the identifier is taken or a constraint refuses the row.\<close>

definition can_insert_event :: "runtime_event_row \<Rightarrow> runtime_db \<Rightarrow> bool" where
  "can_insert_event row db \<longleftrightarrow> find_event db (vr_event_id row) = None \<and> event_row_check row"

definition requireEventById ::
  "runtime_db \<Rightarrow> string \<Rightarrow> event_store_error + goal_runtime_event_record" where
  "requireEventById db eventId =
     (case find_event db eventId of None \<Rightarrow> Inl Ee_corrupt | Some row \<Rightarrow> read_event_row row)"

section \<open>Scope\<close>

definition event_validateStoredScope ::
  "goal_runtime_event \<Rightarrow> runtime_db \<Rightarrow> event_store_error + unit" where
  "event_validateStoredScope event db =
     (case selectById (rd_goals db) (ev_goalId (event_base event)) of
        None \<Rightarrow> Inl Ee_invalid_event
      | Some goal \<Rightarrow>
          if gr_workspace_id goal \<noteq> ev_workspaceId (event_base event) then Inl Ee_invalid_event
          else case event of
            GoalScoped _ _ \<Rightarrow> Inr ()
          | ExecutionScoped b x \<Rightarrow>
              (case row_get (\<lambda>e. er_id e = xe_executionId x) (db_executions (rd_goals db)) of
                 None \<Rightarrow> Inl Ee_invalid_event
               | Some e \<Rightarrow>
                   if er_goal_id e \<noteq> ev_goalId b \<or> er_workspace_id e \<noteq> ev_workspaceId b
                   then Inl Ee_invalid_event
                   else if er_lease_generation e \<noteq> xe_executionGeneration x
                   then Inl Ee_invalid_event else Inr ()))"

section \<open>Retention\<close>

text \<open>
  The subquery \<open>ORDER BY sequence DESC LIMIT 1 OFFSET max - 1\<close>; without a row it is NULL, and then
  no row is deleted.
\<close>

definition retention_cutoff :: "event_store_config \<Rightarrow> string \<Rightarrow> runtime_db \<Rightarrow> int option" where
  "retention_cutoff cfg w db =
     (case drop (nat (ec_maxEventsPerWorkspace cfg - 1)) (rev (events_of_workspace db w)) of
        [] \<Rightarrow> None | row # _ \<Rightarrow> Some (vr_sequence row))"

definition enforceWorkspaceRetention ::
  "event_store_config \<Rightarrow> string \<Rightarrow> runtime_db \<Rightarrow> runtime_db" where
  "enforceWorkspaceRetention cfg w db =
     (let count = int (row_changes (\<lambda>r. vr_workspace_id r = w) (rd_events db))
      in if count \<le> ec_maxEventsPerWorkspace cfg + ec_retentionSlack cfg then db
         else case retention_cutoff cfg w db of
           None \<Rightarrow> db
         | Some cutoff \<Rightarrow> db\<lparr>rd_events := filter
             (\<lambda>r. \<not> (vr_workspace_id r = w \<and> vr_sequence r < cutoff)) (rd_events db)\<rparr>)"

section \<open>The append of a publisher\<close>

text \<open>
  Not a transaction: the insert, the read and the retention are statements of their own, so an error
  of a later one keeps the earlier ones.
\<close>

definition appendGoalRuntimeEvent ::
  "event_store_config \<Rightarrow> nat \<Rightarrow> goal_runtime_event \<Rightarrow> iso \<Rightarrow> runtime_db
     \<Rightarrow> runtime_db \<times> (event_store_error + append_event_result)" where
  "appendGoalRuntimeEvent cfg gap event recordedAt db =
     (case bind_ok (validateEvent event) (\<lambda>_.
           bind_ok (event_validateIso recordedAt Ee_invalid_event) (\<lambda>_.
             event_validateStoredScope event db)) of
        Inl e \<Rightarrow> (db, Inl e)
      | Inr _ \<Rightarrow>
          (let eventId = ev_eventId (event_base event);
               row = event_row (allocate_sequence db gap) event recordedAt
           in if can_insert_event row db then
                (let db1 = add_event_row row db
                 in case find_event db1 eventId of
                      None \<Rightarrow> (db1, Inl Ee_corrupt)
                    | Some stored \<Rightarrow> (case require_event_row stored of
                        Inl e \<Rightarrow> (db1, Inl e)
                      | Inr _ \<Rightarrow>
                          (enforceWorkspaceRetention cfg (ev_workspaceId (event_base event)) db1,
                           bind_ok (read_event_row stored) (\<lambda>rec.
                             Inr \<lparr>ar_appended = True, ar_record = rec\<rparr>))))
              else
                (db, bind_ok (requireEventById db eventId) (\<lambda>rec.
                   if \<not> sameEvent (rr_event rec) event then Inl Ee_event_id_conflict
                   else Inr \<lparr>ar_appended = False, ar_record = rec\<rparr>))))"

section \<open>The append of the reconciliation\<close>

definition request_generation :: "goal_runtime_event \<Rightarrow> execution_scoped_event option" where
  "request_generation event = (case event of
     ExecutionScoped _ x \<Rightarrow> if xe_type x = Et_worker_lost then Some x else None
   | GoalScoped _ _ \<Rightarrow> None)"

definition expected_continuation_matches ::
  "(string \<times> int) option \<Rightarrow> scheduled_continuation_row option \<Rightarrow> bool" where
  "expected_continuation_matches expected live = (case expected of
     None \<Rightarrow> live = None
   | Some (i, v) \<Rightarrow> (case live of None \<Rightarrow> False | Some c \<Rightarrow> cn_id c = i \<and> cn_version c = v))"

definition newer_goal_event :: "runtime_db \<Rightarrow> string \<Rightarrow> int \<Rightarrow> string option \<Rightarrow> bool" where
  "newer_goal_event db goalId sequence ignored \<longleftrightarrow>
     (\<exists>r \<in> set (rd_events db). vr_goal_id r = goalId \<and> vr_sequence r > sequence
        \<and> ignored \<noteq> Some (vr_event_id r))"

text \<open>The fence, in the order of the source: \<open>None\<close> when every expectation still holds.\<close>

definition reconciliation_fence ::
  "append_reconciliation_request \<Rightarrow> goal_runtime_event_base \<Rightarrow> execution_scoped_event
     \<Rightarrow> goal_runtime_event_record option \<Rightarrow> runtime_db
     \<Rightarrow> event_store_error + reconciliation_conflict option" where
  "reconciliation_fence q b x duplicate db =
     (case selectById (rd_goals db) (ev_goalId b) of
        None \<Rightarrow> Inr (Some Cr_goal_not_active)
      | Some goal \<Rightarrow>
          if gr_status goal \<noteq> Gs_active then Inr (Some Cr_goal_not_active)
          else if gr_workspace_id goal \<noteq> ev_workspaceId b then Inl Ee_invalid_event
          else if gr_lease_generation goal \<noteq> rq_expectedLeaseGeneration q
            \<or> gr_lease_activity_seq goal \<noteq> rq_expectedLeaseActivitySeq q
          then Inr (Some Cr_lease_changed)
          else if (case row_get (\<lambda>s. sr_goal_id s = ev_goalId b) (rd_snapshots db) of
              None \<Rightarrow> True
            | Some s \<Rightarrow> sr_last_event_sequence s \<noteq> rq_expectedSnapshotSequence q
                \<or> sr_active_execution_id s \<noteq> Some (xe_executionId x)
                \<or> sr_execution_generation s \<noteq> Some (xe_executionGeneration x))
          then Inr (Some Cr_snapshot_changed)
          else if newer_goal_event db (ev_goalId b) (rq_expectedSnapshotSequence q)
              (map_option (\<lambda>rec. ev_eventId (event_base (rr_event rec))) duplicate)
          then Inr (Some Cr_event_stream_advanced)
          else if (case row_latest (\<lambda>e. instant_of (er_created_at e))
                (\<lambda>e. er_goal_id e = ev_goalId b \<and> er_workspace_id e = ev_workspaceId b
                   \<and> er_lease_generation e = rq_expectedLeaseGeneration q)
                (db_executions (rd_goals db)) of
              None \<Rightarrow> True
            | Some e \<Rightarrow> er_id e \<noteq> xe_executionId x \<or> er_state e \<noteq> Xs_active)
          then Inr (Some Cr_execution_changed)
          else if \<not> expected_continuation_matches (rq_expectedLiveScheduledContinuation q)
              (selectLiveScheduledContinuation (rd_goals db) (ev_goalId b))
          then Inr (Some Cr_scheduled_continuation_changed)
          else Inr None)"

definition find_duplicate ::
  "goal_runtime_event \<Rightarrow> runtime_db \<Rightarrow> event_store_error + goal_runtime_event_record option" where
  "find_duplicate event db =
     (case find_event db (ev_eventId (event_base event)) of
        None \<Rightarrow> Inr None
      | Some row \<Rightarrow> bind_ok (read_event_row row) (\<lambda>rec.
          if \<not> sameEvent (rr_event rec) event then Inl Ee_event_id_conflict else Inr (Some rec)))"

text \<open>The body of the transaction.\<close>

definition append_under_fence ::
  "event_store_config \<Rightarrow> nat \<Rightarrow> append_reconciliation_request \<Rightarrow> execution_scoped_event
     \<Rightarrow> runtime_db \<Rightarrow> event_store_error + runtime_db \<times> append_reconciliation_result" where
  "append_under_fence cfg gap q x db =
     (let event = rq_event q; b = event_base event
      in bind_ok (find_duplicate event db) (\<lambda>duplicate.
         bind_ok (event_validateStoredScope event db) (\<lambda>_.
         bind_ok (reconciliation_fence q b x duplicate db) (\<lambda>refusal.
           case refusal of
             Some reason \<Rightarrow> Inr (db, Rx_concurrent_change reason)
           | None \<Rightarrow> (case duplicate of
               Some rec \<Rightarrow> Inr (db, Rx_duplicate rec)
             | None \<Rightarrow>
                 (let row = event_row (allocate_sequence db gap) event (rq_recordedAt q);
                      db1 = add_event_row row db
                  in if \<not> can_insert_event row db then Inl Ee_constraint
                     else bind_ok (requireEventById db1 (ev_eventId b)) (\<lambda>rec.
                       Inr (enforceWorkspaceRetention cfg (ev_workspaceId b) db1,
                            Rx_appended rec))))))))"

definition appendGoalRuntimeReconciliationEvent ::
  "event_store_config \<Rightarrow> nat \<Rightarrow> append_reconciliation_request \<Rightarrow> runtime_db
     \<Rightarrow> event_store_error + runtime_db \<times> append_reconciliation_result" where
  "appendGoalRuntimeReconciliationEvent cfg gap q db =
     bind_ok (validateEvent (rq_event q)) (\<lambda>_.
     bind_ok (event_validateIso (rq_recordedAt q) Ee_invalid_event) (\<lambda>_.
     bind_ok (event_nonNegativeInteger (rq_expectedSnapshotSequence q)) (\<lambda>_.
     bind_ok (event_positiveInteger (rq_expectedLeaseGeneration q)) (\<lambda>_.
     bind_ok (event_nonNegativeInteger (rq_expectedLeaseActivitySeq q)) (\<lambda>_.
       case request_generation (rq_event q) of
         None \<Rightarrow> Inl Ee_invalid_event
       | Some x \<Rightarrow>
           if xe_executionGeneration x \<noteq> rq_expectedLeaseGeneration q then Inl Ee_invalid_event
           else append_under_fence cfg gap q x db)))))"

section \<open>Reading\<close>

definition sequence_bounds :: "runtime_event_row list \<Rightarrow> int option \<times> int option" where
  "sequence_bounds rows = (case map vr_sequence rows of
     [] \<Rightarrow> (None, None)
   | n # ns \<Rightarrow> (Some (foldl min n ns), Some (foldl max n ns)))"

definition window_missed :: "int option \<Rightarrow> int option \<Rightarrow> bool" where
  "window_missed afterSequence oldest = (case (afterSequence, oldest) of
     (Some a, Some n) \<Rightarrow> a < n - 1 | _ \<Rightarrow> False)"

definition check_after :: "int option \<Rightarrow> event_store_error + int option" where
  "check_after afterSequence = (case afterSequence of
     None \<Rightarrow> Inr None
   | Some n \<Rightarrow> bind_ok (event_nonNegativeInteger n) (\<lambda>m. Inr (Some m)))"

definition after_cursor :: "int option \<Rightarrow> runtime_event_row \<Rightarrow> bool" where
  "after_cursor afterSequence r = (case afterSequence of None \<Rightarrow> True | Some n \<Rightarrow> vr_sequence r > n)"

text \<open>
  A page of a replay. The source reads the bounds of the workspace and then its rows with two SELECTs
  and no transaction; here both read one state, so an append or a retention of another process between
  the two is outside the model.
\<close>

definition replayWorkspaceGoalRuntimeEvents ::
  "string \<Rightarrow> int option \<Rightarrow> int \<Rightarrow> runtime_db \<Rightarrow> event_store_error + event_replay_page" where
  "replayWorkspaceGoalRuntimeEvents workspaceId afterSequence limit db =
     (if \<not> event_identifier workspaceId then Inl Ee_invalid_event
      else bind_ok (event_boundedLimit limit) (\<lambda>n. bind_ok (check_after afterSequence) (\<lambda>cursor.
        let rows = events_of_workspace db workspaceId; bounds = sequence_bounds rows
        in bind_ok (map_ok read_event_row (take (nat n) (filter (after_cursor cursor) rows)))
             (\<lambda>events. Inr \<lparr>rp_events = events, rp_oldestAvailableSequence = fst bounds,
                rp_latestSequence = snd bounds,
                rp_replayWindowMissed = window_missed cursor (fst bounds)\<rparr>))))"

definition optional_fold :: "(int \<Rightarrow> int \<Rightarrow> int) \<Rightarrow> int list \<Rightarrow> int option" where
  "optional_fold f ns = (case ns of [] \<Rightarrow> None | m # ms \<Rightarrow> Some (foldl f m ms))"

definition replayGoalRuntimeEvents ::
  "string list \<Rightarrow> int option \<Rightarrow> int \<Rightarrow> runtime_db \<Rightarrow> event_store_error + multiplexed_replay_page"
  where "replayGoalRuntimeEvents workspaceIds afterSequence limit db =
     (if \<exists>w \<in> set workspaceIds. \<not> event_identifier w then Inl Ee_invalid_event
      else bind_ok (event_boundedLimit limit) (\<lambda>n. bind_ok (check_after afterSequence) (\<lambda>cursor.
        let ids = rev (remdups (rev workspaceIds));
            bounds = map (\<lambda>w. let b = sequence_bounds (events_of_workspace db w)
              in \<lparr>wb_workspaceId = w, wb_oldestAvailableSequence = fst b,
                  wb_latestSequence = snd b\<rparr>) ids;
            retained = filter (\<lambda>b. wb_latestSequence b \<noteq> None) bounds;
            rows = sort_key vr_sequence (filter (\<lambda>r. vr_workspace_id r \<in> set ids) (rd_events db))
        in if ids = [] then Inr \<lparr>mp_page = \<lparr>rp_events = [], rp_oldestAvailableSequence = None,
                rp_latestSequence = None, rp_replayWindowMissed = False\<rparr>,
              mp_workspaceBounds = []\<rparr>
           else bind_ok (map_ok read_event_row (take (nat n) (filter (after_cursor cursor) rows)))
             (\<lambda>events. Inr \<lparr>mp_page = \<lparr>rp_events = events,
                rp_oldestAvailableSequence =
                  optional_fold min (map (\<lambda>b. the (wb_oldestAvailableSequence b)) retained),
                rp_latestSequence =
                  optional_fold max (map (\<lambda>b. the (wb_latestSequence b)) retained),
                rp_replayWindowMissed =
                  list_ex (\<lambda>b. window_missed cursor (wb_oldestAvailableSequence b)) bounds\<rparr>,
              mp_workspaceBounds = bounds\<rparr>))))"

definition listGoalRuntimeEvents ::
  "string \<Rightarrow> int \<Rightarrow> runtime_db \<Rightarrow> event_store_error + goal_runtime_event_record list" where
  "listGoalRuntimeEvents goalId limit db =
     (if \<not> event_identifier goalId then Inl Ee_invalid_event
      else bind_ok (event_boundedLimit limit) (\<lambda>n.
        map_ok read_event_row (take (nat n)
          (rev (sort_key vr_sequence (filter (\<lambda>r. vr_goal_id r = goalId) (rd_events db)))))))"

end
