(* ===== verification/Runtime_Snapshot.thy ===== *)
theory Runtime_Snapshot
  imports Runtime_Event_Log
begin

text \<open>
  The snapshots of the goal runtime (packages/storage/src/goal-runtime-snapshot-repository.ts, class
  \<open>SqliteGoalRuntimeSnapshotRepository\<close>): one row per goal that holds the projection up to a cursor
  into the event log. \<open>normalizeProjection\<close> checks a projection on its way in and on its way out; the
  store compares cursors so that an older projection never replaces a newer one.
\<close>

section \<open>Values\<close>

text \<open>The three reasons of the error class, the corrupt row, and a constraint of the table.\<close>

datatype snapshot_store_error =
  Se_invalid_projection | Se_stale_sequence | Se_sequence_conflict | Se_corrupt | Se_constraint

record snapshot_record =
  gs_projection :: goal_runtime_projection
  gs_lastEventSequence :: int
  gs_updatedAt :: iso

definition GOAL_RUNTIME_CONTRACT_VERSION :: int where "GOAL_RUNTIME_CONTRACT_VERSION = 1"
definition SNAPSHOT_MAX_LIST_LIMIT :: int where "SNAPSHOT_MAX_LIST_LIMIT = 500"
definition SNAPSHOT_MAX_ID_CHARS :: nat where "SNAPSHOT_MAX_ID_CHARS = 512"
definition SNAPSHOT_MAX_TEXT_CHARS :: nat where "SNAPSHOT_MAX_TEXT_CHARS = 4000"
definition MAX_PROGRESS_STEPS :: nat where "MAX_PROGRESS_STEPS = 256"

text \<open>
  The object \<open>normalizeProjection\<close> reads: enumerations are strings not looked at yet.
\<close>

record raw_blocker =
  rb_kind :: string
  rb_detail :: "string option"
  rb_observedAt :: "iso option"

record raw_projection =
  rw_contractVersion :: int
  rw_goalId :: string
  rw_workspaceId :: string
  rw_lifecycleState :: string
  rw_runtimeState :: string
  rw_desiredRuntimeState :: string
  rw_integrationState :: string
  rw_workspaceState :: string
  rw_activeExecutionId :: "string option"
  rw_executionGeneration :: "int option"
  rw_phase :: "string option"
  rw_progress :: "goal_runtime_progress option"
  rw_lastActivityAt :: iso
  rw_lastHeartbeatAt :: "iso option"
  rw_blocker :: "raw_blocker option"

section \<open>Checks\<close>

definition requiredIdentifier :: "string \<Rightarrow> bool" where
  "requiredIdentifier value \<longleftrightarrow>
     \<not> (length (js_trim value) = 0 \<or> length value > SNAPSHOT_MAX_ID_CHARS)"

definition requiredText :: "string \<Rightarrow> bool" where
  "requiredText value \<longleftrightarrow>
     \<not> (length (js_trim value) = 0 \<or> length value > SNAPSHOT_MAX_TEXT_CHARS)"

definition optionalText :: "string option \<Rightarrow> bool" where
  "optionalText value =
     (case value of None \<Rightarrow> True | Some s \<Rightarrow> \<not> length s > SNAPSHOT_MAX_TEXT_CHARS)"

definition snapshot_positiveInteger :: "int \<Rightarrow> bool" where
  "snapshot_positiveInteger n \<longleftrightarrow> \<not> (\<not> \<bar>n\<bar> \<le> max_safe_integer \<or> n \<le> 0)"

definition snapshot_nonNegativeInteger :: "int \<Rightarrow> bool" where
  "snapshot_nonNegativeInteger n \<longleftrightarrow> \<not> (\<not> \<bar>n\<bar> \<le> max_safe_integer \<or> n < 0)"

definition requiredIso :: "iso \<Rightarrow> bool" where
  "requiredIso t \<longleftrightarrow> date_parse t \<noteq> None"

definition optional_ok :: "('a \<Rightarrow> bool) \<Rightarrow> 'a option \<Rightarrow> bool" where
  "optional_ok P v = (case v of None \<Rightarrow> True | Some x \<Rightarrow> P x)"

definition normalizeProgressStep :: "goal_runtime_progress_step \<Rightarrow> bool" where
  "normalizeProgressStep s \<longleftrightarrow>
     requiredIdentifier (ps_id s) \<and> requiredText (ps_title s) \<and> optionalText (ps_summary s)"

definition normalizeProgress :: "goal_runtime_progress \<Rightarrow> bool" where
  "normalizeProgress g \<longleftrightarrow> optionalText (pg_phase g) \<and> optionalText (pg_detail g)
     \<and> optional_ok (\<lambda>n. 0 \<le> n) (pg_completedUnits g) \<and> optional_ok (\<lambda>n. 0 \<le> n) (pg_totalUnits g)
     \<and> (case (pg_completedUnits g, pg_totalUnits g) of
          (Some done, Some units) \<Rightarrow> \<not> done > units | _ \<Rightarrow> True)
     \<and> optional_ok (\<lambda>steps. \<not> length steps > MAX_PROGRESS_STEPS \<and> list_all normalizeProgressStep steps)
         (pg_steps g)"

definition normalizeBlocker :: "raw_blocker \<Rightarrow> goal_runtime_blocker option" where
  "normalizeBlocker v = (case member_named blocker_kind_name ALL_BLOCKER (rb_kind v) of
     None \<Rightarrow> None
   | Some k \<Rightarrow>
       if \<not> optionalText (rb_detail v) \<or> \<not> optional_ok requiredIso (rb_observedAt v) then None
       else Some \<lparr>bl_kind = k, bl_detail = rb_detail v, bl_observedAt = rb_observedAt v\<rparr>)"

definition snapshotRequiresActiveExecution :: "goal_runtime_state \<Rightarrow> bool" where
  "snapshotRequiresActiveExecution state \<longleftrightarrow>
     state = Rt_queued \<or> state = Rt_starting \<or> state = Rt_running \<or> state = Rt_paused
     \<or> state = Rt_waiting_approval \<or> state = Rt_waiting_input \<or> state = Rt_blocked
     \<or> state = Rt_recovering \<or> state = Rt_recovery_required"

text \<open>An enumeration the guard accepts, or the error.\<close>

definition narrow :: "'e option \<Rightarrow> snapshot_store_error \<Rightarrow> snapshot_store_error + 'e" where
  "narrow v reason = (case v of None \<Rightarrow> Inl reason | Some e \<Rightarrow> Inr e)"

definition check_that :: "bool \<Rightarrow> snapshot_store_error \<Rightarrow> snapshot_store_error + unit" where
  "check_that b reason = (if b then Inr () else Inl reason)"

text \<open>The consistency of the states with the execution, in the order of the source.\<close>

definition execution_consistent ::
  "goal_lifecycle_state \<Rightarrow> goal_runtime_state \<Rightarrow> string option \<Rightarrow> int option \<Rightarrow> bool" where
  "execution_consistent lifecycle state activeExecutionId executionGeneration =
     (let requiresExecution = snapshotRequiresActiveExecution state
      in if activeExecutionId \<noteq> None \<and> executionGeneration = None then False
         else if requiresExecution \<and> activeExecutionId = None then False
         else if lifecycle \<noteq> Lc_open \<and> requiresExecution then False
         else if activeExecutionId \<noteq> None
           \<and> (state = Rt_idle \<or> state = Rt_failed \<or> state = Rt_cancelled) then False
         else True)"

definition normalizeProjection ::
  "raw_projection \<Rightarrow> snapshot_store_error \<Rightarrow> snapshot_store_error + goal_runtime_projection" where
  "normalizeProjection v reason =
     bind_ok (check_that (rw_contractVersion v = GOAL_RUNTIME_CONTRACT_VERSION
       \<and> requiredIdentifier (rw_goalId v) \<and> requiredIdentifier (rw_workspaceId v)) reason) (\<lambda>_.
     bind_ok (narrow (member_named lifecycle_name ALL_LIFECYCLE (rw_lifecycleState v)) reason) (\<lambda>lifecycle.
     bind_ok (narrow (member_named runtime_state_name ALL_RUNTIME (rw_runtimeState v)) reason) (\<lambda>state.
     bind_ok (narrow (member_named desired_state_name ALL_DESIRED (rw_desiredRuntimeState v)) reason) (\<lambda>desired.
     bind_ok (narrow (member_named integration_state_name ALL_INTEGRATION (rw_integrationState v)) reason) (\<lambda>integration.
     bind_ok (narrow (member_named workspace_state_name ALL_WORKSPACE (rw_workspaceState v)) reason) (\<lambda>workspace.
     bind_ok (check_that (optional_ok requiredIdentifier (rw_activeExecutionId v)
       \<and> optional_ok snapshot_positiveInteger (rw_executionGeneration v)
       \<and> execution_consistent lifecycle state (rw_activeExecutionId v) (rw_executionGeneration v)
       \<and> optionalText (rw_phase v) \<and> optional_ok normalizeProgress (rw_progress v)
       \<and> requiredIso (rw_lastActivityAt v) \<and> optional_ok requiredIso (rw_lastHeartbeatAt v)) reason) (\<lambda>_.
     bind_ok (case rw_blocker v of None \<Rightarrow> Inr None
       | Some b \<Rightarrow> bind_ok (narrow (normalizeBlocker b) reason) (\<lambda>k. Inr (Some k))) (\<lambda>blocker.
       Inr \<lparr>pj_goalId = rw_goalId v, pj_workspaceId = rw_workspaceId v, pj_lifecycleState = lifecycle,
         pj_runtimeState = state, pj_desiredRuntimeState = desired, pj_integrationState = integration,
         pj_workspaceState = workspace, pj_activeExecutionId = rw_activeExecutionId v,
         pj_executionGeneration = rw_executionGeneration v, pj_phase = rw_phase v,
         pj_progress = rw_progress v, pj_lastActivityAt = rw_lastActivityAt v,
         pj_lastHeartbeatAt = rw_lastHeartbeatAt v, pj_blocker = blocker\<rparr>))))))))"

section \<open>Rows and projections\<close>

text \<open>A typed projection as the object the check reads.\<close>

definition raw_of_projection :: "goal_runtime_projection \<Rightarrow> raw_projection" where
  "raw_of_projection p = \<lparr>rw_contractVersion = GOAL_RUNTIME_CONTRACT_VERSION,
     rw_goalId = pj_goalId p, rw_workspaceId = pj_workspaceId p,
     rw_lifecycleState = lifecycle_name (pj_lifecycleState p),
     rw_runtimeState = runtime_state_name (pj_runtimeState p),
     rw_desiredRuntimeState = desired_state_name (pj_desiredRuntimeState p),
     rw_integrationState = integration_state_name (pj_integrationState p),
     rw_workspaceState = workspace_state_name (pj_workspaceState p),
     rw_activeExecutionId = pj_activeExecutionId p,
     rw_executionGeneration = pj_executionGeneration p, rw_phase = pj_phase p,
     rw_progress = pj_progress p, rw_lastActivityAt = pj_lastActivityAt p,
     rw_lastHeartbeatAt = pj_lastHeartbeatAt p,
     rw_blocker = map_option (\<lambda>b. \<lparr>rb_kind = blocker_kind_name (bl_kind b), rb_detail = bl_detail b,
       rb_observedAt = bl_observedAt b\<rparr>) (pj_blocker p)\<rparr>"

definition rowValues :: "goal_runtime_projection \<Rightarrow> int \<Rightarrow> iso \<Rightarrow> runtime_snapshot_row" where
  "rowValues p lastEventSequence updatedAt = \<lparr>sr_goal_id = pj_goalId p,
     sr_workspace_id = pj_workspaceId p, sr_contract_version = GOAL_RUNTIME_CONTRACT_VERSION,
     sr_lifecycle_state = lifecycle_name (pj_lifecycleState p),
     sr_runtime_state = runtime_state_name (pj_runtimeState p),
     sr_desired_runtime_state = desired_state_name (pj_desiredRuntimeState p),
     sr_integration_state = integration_state_name (pj_integrationState p),
     sr_workspace_state = workspace_state_name (pj_workspaceState p),
     sr_active_execution_id = pj_activeExecutionId p,
     sr_execution_generation = pj_executionGeneration p, sr_phase = pj_phase p,
     sr_progress = pj_progress p, sr_last_activity_at = pj_lastActivityAt p,
     sr_last_heartbeat_at = pj_lastHeartbeatAt p,
     sr_blocker_kind = map_option (\<lambda>b. blocker_kind_name (bl_kind b)) (pj_blocker p),
     sr_blocker_detail = Option.bind (pj_blocker p) bl_detail,
     sr_blocker_observed_at = Option.bind (pj_blocker p) bl_observedAt,
     sr_last_event_sequence = lastEventSequence, sr_updated_at = updatedAt\<rparr>"

definition raw_of_row :: "runtime_snapshot_row \<Rightarrow> raw_projection" where
  "raw_of_row row = \<lparr>rw_contractVersion = GOAL_RUNTIME_CONTRACT_VERSION,
     rw_goalId = sr_goal_id row, rw_workspaceId = sr_workspace_id row,
     rw_lifecycleState = sr_lifecycle_state row, rw_runtimeState = sr_runtime_state row,
     rw_desiredRuntimeState = sr_desired_runtime_state row,
     rw_integrationState = sr_integration_state row, rw_workspaceState = sr_workspace_state row,
     rw_activeExecutionId = sr_active_execution_id row,
     rw_executionGeneration = sr_execution_generation row, rw_phase = sr_phase row,
     rw_progress = sr_progress row, rw_lastActivityAt = sr_last_activity_at row,
     rw_lastHeartbeatAt = sr_last_heartbeat_at row,
     rw_blocker = map_option (\<lambda>k. \<lparr>rb_kind = k, rb_detail = sr_blocker_detail row,
       rb_observedAt = sr_blocker_observed_at row\<rparr>) (sr_blocker_kind row)\<rparr>"

text \<open>\<open>toRecord(requireRow(row))\<close>: \<open>requireRow\<close> checks the types of the columns only.\<close>

definition read_snapshot_row ::
  "runtime_snapshot_row \<Rightarrow> snapshot_store_error + snapshot_record" where
  "read_snapshot_row row =
     bind_ok (check_that (sr_contract_version row = GOAL_RUNTIME_CONTRACT_VERSION) Se_corrupt) (\<lambda>_.
     bind_ok (normalizeProjection (raw_of_row row) Se_corrupt) (\<lambda>projection.
     bind_ok (check_that (snapshot_nonNegativeInteger (sr_last_event_sequence row)
       \<and> requiredIso (sr_updated_at row)) Se_corrupt) (\<lambda>_.
       Inr \<lparr>gs_projection = projection, gs_lastEventSequence = sr_last_event_sequence row,
         gs_updatedAt = sr_updated_at row\<rparr>)))"

text \<open>The CHECK constraints of the table.\<close>

definition snapshot_row_check :: "runtime_snapshot_row \<Rightarrow> bool" where
  "snapshot_row_check row \<longleftrightarrow> sr_contract_version row > 0 \<and> sr_last_event_sequence row \<ge> 0
     \<and> (sr_execution_generation row = None \<or> the (sr_execution_generation row) > 0)
     \<and> (sr_active_execution_id row = None \<or> sr_execution_generation row \<noteq> None)
     \<and> (sr_blocker_kind row \<noteq> None
        \<or> (sr_blocker_detail row = None \<and> sr_blocker_observed_at row = None))"

section \<open>Operations\<close>

definition find_snapshot :: "runtime_db \<Rightarrow> string \<Rightarrow> runtime_snapshot_row option" where
  "find_snapshot db goalId = row_get (\<lambda>s. sr_goal_id s = goalId) (rd_snapshots db)"

definition getGoalRuntimeSnapshot ::
  "string \<Rightarrow> runtime_db \<Rightarrow> snapshot_store_error + snapshot_record option" where
  "getGoalRuntimeSnapshot goalId db =
     (if \<not> requiredIdentifier goalId then Inl Se_invalid_projection
      else case find_snapshot db goalId of
        None \<Rightarrow> Inr None
      | Some row \<Rightarrow> bind_ok (read_snapshot_row row) (\<lambda>r. Inr (Some r)))"

definition snapshot_boundedLimit :: "int \<Rightarrow> snapshot_store_error + int" where
  "snapshot_boundedLimit n = (if \<not> \<bar>n\<bar> \<le> max_safe_integer \<or> n \<le> 0 then Inl Se_invalid_projection
     else Inr (min n SNAPSHOT_MAX_LIST_LIMIT))"

definition listWorkspaceGoalRuntimeSnapshots ::
  "string \<Rightarrow> int \<Rightarrow> runtime_db \<Rightarrow> snapshot_store_error + snapshot_record list" where
  "listWorkspaceGoalRuntimeSnapshots workspaceId limit db =
     (if \<not> requiredIdentifier workspaceId then Inl Se_invalid_projection
      else bind_ok (snapshot_boundedLimit limit) (\<lambda>n. map_ok read_snapshot_row (take (nat n)
        (sort_key (\<lambda>s. - instant_of (sr_updated_at s)) (sort_key sr_goal_id
          (filter (\<lambda>s. sr_workspace_id s = workspaceId) (rd_snapshots db)))))))"

definition snapshot_validateStoredScope ::
  "goal_runtime_projection \<Rightarrow> int \<Rightarrow> runtime_db \<Rightarrow> bool" where
  "snapshot_validateStoredScope p lastEventSequence db =
     (case selectById (rd_goals db) (pj_goalId p) of
        None \<Rightarrow> False
      | Some goal \<Rightarrow>
          if gr_workspace_id goal \<noteq> pj_workspaceId p then False
          else if lastEventSequence > 0 \<and> \<not> (\<exists>r \<in> set (rd_events db).
            vr_sequence r = lastEventSequence \<and> vr_workspace_id r = pj_workspaceId p
            \<and> vr_goal_id r = pj_goalId p) then False
          else (case pj_executionGeneration p of
            None \<Rightarrow> True
          | Some g \<Rightarrow> (\<exists>e \<in> set (db_executions (rd_goals db)).
              (case pj_activeExecutionId p of None \<Rightarrow> True | Some i \<Rightarrow> er_id e = i)
              \<and> er_goal_id e = pj_goalId p \<and> er_workspace_id e = pj_workspaceId p
              \<and> er_lease_generation e = g)))"

text \<open>The row the transaction writes: an UPDATE of the goal's row, or an INSERT.\<close>

definition write_snapshot :: "runtime_snapshot_row \<Rightarrow> bool \<Rightarrow> runtime_db \<Rightarrow> runtime_db" where
  "write_snapshot row exists db = db\<lparr>rd_snapshots :=
     (if exists then row_update (\<lambda>s. sr_goal_id s = sr_goal_id row) (\<lambda>_. row) (rd_snapshots db)
      else rd_snapshots db @ [row])\<rparr>"

definition store_and_read ::
  "runtime_snapshot_row \<Rightarrow> bool \<Rightarrow> runtime_db \<Rightarrow> snapshot_store_error + runtime_db \<times> snapshot_record"
  where "store_and_read row exists db =
     (if \<not> snapshot_row_check row then Inl Se_constraint
      else let db' = write_snapshot row exists db
        in case find_snapshot db' (sr_goal_id row) of
             None \<Rightarrow> Inl Se_corrupt
           | Some stored \<Rightarrow> bind_ok (read_snapshot_row stored) (\<lambda>r. Inr (db', r)))"

definition storeGoalRuntimeSnapshot ::
  "goal_runtime_projection \<Rightarrow> int \<Rightarrow> iso \<Rightarrow> runtime_db
     \<Rightarrow> snapshot_store_error + runtime_db \<times> snapshot_record" where
  "storeGoalRuntimeSnapshot request lastEventSequence updatedAt db =
     bind_ok (normalizeProjection (raw_of_projection request) Se_invalid_projection) (\<lambda>projection.
     bind_ok (check_that (snapshot_nonNegativeInteger lastEventSequence \<and> requiredIso updatedAt
       \<and> snapshot_validateStoredScope projection lastEventSequence db) Se_invalid_projection) (\<lambda>_.
       let row = rowValues projection lastEventSequence updatedAt
       in case find_snapshot db (pj_goalId projection) of
            None \<Rightarrow> store_and_read row False db
          | Some existingRow \<Rightarrow> bind_ok (read_snapshot_row existingRow) (\<lambda>existing.
              if lastEventSequence < gs_lastEventSequence existing then Inl Se_stale_sequence
              else if lastEventSequence = gs_lastEventSequence existing then
                (if gs_projection existing = projection then Inr (db, existing)
                 else Inl Se_sequence_conflict)
              else store_and_read row True db)))"

end
