(* ===== verification/Runtime_Event_Log_Safety.thy ===== *)
theory Runtime_Event_Log_Safety
  imports Runtime_Event_Log
begin

text \<open>
  What the event log keeps: rows in the order of their sequence, one row per event identifier, every
  row readable and in the scope of its goal. The relation \<open>log_extends\<close> says how a later log relates
  to an earlier one: what is new is above every old sequence, and what is gone is below everything
  its workspace still has.
\<close>

section \<open>The invariant\<close>

definition in_goal_scope :: "goal_row list \<Rightarrow> runtime_event_row \<Rightarrow> bool" where
  "in_goal_scope gs r \<longleftrightarrow> (\<exists>g \<in> set gs. gr_id g = vr_goal_id r \<and> gr_workspace_id g = vr_workspace_id r)"

definition log_wf :: "runtime_db \<Rightarrow> bool" where
  "log_wf db \<longleftrightarrow> sorted_wrt (\<lambda>a b. vr_sequence a < vr_sequence b) (rd_events db)
     \<and> distinct (map vr_event_id (rd_events db)) \<and> 0 \<le> rd_sequence db
     \<and> (\<forall>r \<in> set (rd_events db). vr_sequence r \<le> rd_sequence db
          \<and> (\<exists>rec. read_event_row r = Inr rec)
          \<and> in_goal_scope (db_goals (rd_goals db)) r)"

lemma log_wf_row:
  assumes "log_wf db" "r \<in> set (rd_events db)"
  shows "vr_sequence r \<le> rd_sequence db" "0 < vr_sequence r" "\<exists>rec. read_event_row r = Inr rec"
    "in_goal_scope (db_goals (rd_goals db)) r"
proof -
  show "vr_sequence r \<le> rd_sequence db" "in_goal_scope (db_goals (rd_goals db)) r"
    using assms by (simp_all add: log_wf_def)
  show read: "\<exists>rec. read_event_row r = Inr rec" using assms by (simp add: log_wf_def)
  then show "0 < vr_sequence r"
    by (auto simp: read_event_row_iff record_sound_def)
qed

lemma sorted_filter_log:
  "log_wf db \<Longrightarrow> sorted_wrt (\<lambda>a b. vr_sequence a < vr_sequence b) (filter P (rd_events db))"
  by (simp add: log_wf_def sorted_wrt_filter)

lemma sort_log_filter: "log_wf db \<Longrightarrow> sort_key vr_sequence (filter P (rd_events db)) = filter P (rd_events db)"
proof -
  assume "log_wf db"
  from sorted_filter_log [OF this]
  have "sorted (map vr_sequence (filter P (rd_events db)))"
    unfolding sorted_map by (rule sorted_wrt_mono_rel [rotated]) simp
  then show ?thesis by (rule sort_key_id_if_sorted)
qed

lemma events_of_workspace_wf:
  "log_wf db \<Longrightarrow> events_of_workspace db w = filter (\<lambda>r. vr_workspace_id r = w) (rd_events db)"
  by (simp add: events_of_workspace_def sort_log_filter)

lemma log_sequence_unique:
  assumes "log_wf db" "r \<in> set (rd_events db)" "s \<in> set (rd_events db)"
    "vr_sequence r = vr_sequence s"
  shows "r = s"
proof (rule distinct_key_unique [OF _ assms(2-4)])
  have "sorted_wrt (<) (map vr_sequence (rd_events db))"
    using assms(1) by (simp add: log_wf_def sorted_wrt_map)
  then show "distinct (map vr_sequence (rd_events db))" by (simp add: strict_sorted_iff)
qed

section \<open>Inserting a row\<close>

lemma check_names:
  "workspace_state_name w \<in> set [''clean'', ''dirty'', ''missing'', ''unavailable'', ''conflict'', ''unknown'']"
  "observed_state_name i \<in> set [''pending'', ''integrated'', ''conflict'', ''unknown'']"
  by (cases w; simp) (cases i; simp add: observed_state_name_def)

lemma event_row_check_sound: "event_sound event \<Longrightarrow> event_row_check (event_row n event t)"
proof (cases event)
  case (GoalScoped b g)
  then show ?thesis
    using check_names by (cases g) (simp_all add: event_row_check_def event_row_def Let_def)
next
  case (ExecutionScoped b x)
  then show "event_sound event \<Longrightarrow> ?thesis"
    by (simp add: event_row_check_def event_row_def Let_def event_sound_def)
qed

lemma find_event_None_iff:
  "find_event db i = None \<longleftrightarrow> (\<forall>r \<in> set (rd_events db). vr_event_id r \<noteq> i)"
  by (simp add: find_event_def row_get_None_iff)

lemma find_event_SomeD: "find_event db i = Some r \<Longrightarrow> r \<in> set (rd_events db) \<and> vr_event_id r = i"
  by (auto simp: find_event_def dest: row_get_SomeD)

lemma find_event_key: "log_wf db \<Longrightarrow> r \<in> set (rd_events db) \<Longrightarrow> find_event db (vr_event_id r) = Some r"
  unfolding find_event_def by (rule row_get_key) (simp_all add: log_wf_def)

lemma find_event_added:
  "find_event db (vr_event_id row) = None \<Longrightarrow> find_event (add_event_row row db) (vr_event_id row) = Some row"
  by (simp add: find_event_def add_event_row_def row_get_append)

lemma add_event_row_fields [simp]:
  "rd_events (add_event_row row db) = rd_events db @ [row]"
  "rd_sequence (add_event_row row db) = vr_sequence row"
  "rd_goals (add_event_row row db) = rd_goals db"
  "rd_snapshots (add_event_row row db) = rd_snapshots db"
  by (simp_all add: add_event_row_def)

lemma scope_ok:
  assumes "event_validateStoredScope event db = Inr u"
  shows "in_goal_scope (db_goals (rd_goals db)) (event_row n event t)"
  using assms selectById_SomeD
  by (fastforce simp: event_validateStoredScope_def in_goal_scope_def split: option.splits if_splits)

lemma add_event_wf:
  assumes wf: "log_wf db" and none: "find_event db (ev_eventId (event_base event)) = None"
    and sound: "event_sound event" "date_parse t \<noteq> None"
    and scope: "event_validateStoredScope event db = Inr u" and n: "rd_sequence db < n"
  shows "log_wf (add_event_row (event_row n event t) db)"
proof -
  have "0 < n" using wf n by (simp add: log_wf_def)
  then have read: "\<exists>rec. read_event_row (event_row n event t) = Inr rec"
    using sound read_event_row_encoded by blast
  have below: "vr_sequence r < n" if "r \<in> set (rd_events db)" for r
    using log_wf_row(1) [OF wf that] n by simp
  then have "sorted_wrt (\<lambda>a b. vr_sequence a < vr_sequence b) (rd_events db @ [event_row n event t])"
    using wf by (simp add: log_wf_def sorted_wrt_append)
  moreover have "distinct (map vr_event_id (rd_events db @ [event_row n event t]))"
    using wf none by (auto simp: log_wf_def find_event_None_iff)
  moreover have "vr_sequence r \<le> n" if "r \<in> set (rd_events db)" for r
    using below [OF that] by simp
  ultimately show ?thesis
    using wf read scope_ok [OF scope] n unfolding log_wf_def by auto
qed

section \<open>Retention\<close>

definition config_ok :: "event_store_config \<Rightarrow> bool" where
  "config_ok cfg \<longleftrightarrow> 0 < ec_maxEventsPerWorkspace cfg \<and> 0 \<le> ec_retentionSlack cfg"

lemma new_event_store_ok: "new_event_store m k = Inr cfg \<Longrightarrow> config_ok cfg"
  by (auto simp: new_event_store_def config_ok_def bind_ok_Inr_iff)

lemma filter_from_nth:
  fixes f :: "'a \<Rightarrow> int"
  assumes "sorted_wrt (\<lambda>a b. f a < f b) xs" "k < length xs"
  shows "filter (\<lambda>x. \<not> f x < f (xs ! k)) xs = drop k xs"
  using assms
proof (induction xs arbitrary: k)
  case (Cons x xs)
  show ?case
  proof (cases k)
    case 0
    then show ?thesis using Cons.prems by (auto simp: filter_id_conv not_less intro: less_imp_le)
  next
    case (Suc j)
    then have "f x < f (xs ! j)" using Cons.prems by simp
    then show ?thesis using Cons Suc by simp
  qed
qed simp

definition over_limit :: "event_store_config \<Rightarrow> string \<Rightarrow> runtime_db \<Rightarrow> bool" where
  "over_limit cfg w db \<longleftrightarrow> ec_maxEventsPerWorkspace cfg + ec_retentionSlack cfg
     < int (length (events_of_workspace db w))"

text \<open>The rows of a workspace over the limit are cut to the newest \<open>maxEventsPerWorkspace\<close>.\<close>

lemma retention_cutoff_Some:
  assumes "config_ok cfg" "over_limit cfg w db"
  defines "rows \<equiv> events_of_workspace db w"
  shows "retention_cutoff cfg w db
    = Some (vr_sequence (rows ! (length rows - nat (ec_maxEventsPerWorkspace cfg))))"
proof -
  let ?m = "nat (ec_maxEventsPerWorkspace cfg)"
  have m: "0 < ?m" "?m - 1 < length rows" "nat (ec_maxEventsPerWorkspace cfg - 1) = ?m - 1"
    using assms by (auto simp: config_ok_def over_limit_def)
  have "drop (?m - 1) (rev rows) = rev rows ! (?m - 1) # drop ?m (rev rows)"
    using m by (metis Cons_nth_drop_Suc Suc_diff_1 length_rev)
  moreover have "rev rows ! (?m - 1) = rows ! (length rows - ?m)"
    using m by (simp add: rev_nth)
  ultimately show ?thesis unfolding retention_cutoff_def m(3) rows_def by simp
qed

lemma enforce_cases:
  assumes "log_wf db" "config_ok cfg"
  obtains (within) "\<not> over_limit cfg w db" "enforceWorkspaceRetention cfg w db = db"
  | (cut) k where "over_limit cfg w db"
      "k = length (events_of_workspace db w) - nat (ec_maxEventsPerWorkspace cfg)"
      "k < length (events_of_workspace db w)"
      "enforceWorkspaceRetention cfg w db = db\<lparr>rd_events := filter (\<lambda>r. \<not> (vr_workspace_id r = w
         \<and> vr_sequence r < vr_sequence (events_of_workspace db w ! k))) (rd_events db)\<rparr>"
proof -
  have count: "row_changes (\<lambda>r. vr_workspace_id r = w) (rd_events db)
      = length (events_of_workspace db w)"
    by (simp add: row_changes_def events_of_workspace_wf [OF assms(1)])
  show thesis
  proof (cases "over_limit cfg w db")
    case False
    then show thesis
      using within by (simp add: over_limit_def enforceWorkspaceRetention_def count)
  next
    case True
    have "length (events_of_workspace db w) - nat (ec_maxEventsPerWorkspace cfg)
        < length (events_of_workspace db w)"
      using True assms(2) by (auto simp: over_limit_def config_ok_def)
    then show thesis
      using True retention_cutoff_Some [OF assms(2) True]
      by (intro cut) (simp_all add: over_limit_def enforceWorkspaceRetention_def count)
  qed
qed

lemma enforce_fields [simp]:
  "rd_goals (enforceWorkspaceRetention cfg w db) = rd_goals db"
  "rd_sequence (enforceWorkspaceRetention cfg w db) = rd_sequence db"
  "rd_snapshots (enforceWorkspaceRetention cfg w db) = rd_snapshots db"
  by (simp_all add: enforceWorkspaceRetention_def Let_def split: option.splits)

lemma enforce_events:
  obtains P where "rd_events (enforceWorkspaceRetention cfg w db) = filter P (rd_events db)"
proof -
  have "\<exists>P. rd_events (enforceWorkspaceRetention cfg w db) = filter P (rd_events db)"
    by (cases "retention_cutoff cfg w db")
      (auto simp: enforceWorkspaceRetention_def Let_def intro: exI [of _ "\<lambda>_. True"])
  then show thesis using that by blast
qed

lemma log_wf_filter:
  assumes "log_wf db" "rd_events db' = filter P (rd_events db)" "rd_goals db' = rd_goals db"
    "rd_sequence db' = rd_sequence db"
  shows "log_wf db'"
  using assms by (auto simp: log_wf_def sorted_wrt_filter distinct_map_filter)

lemma enforce_wf: "log_wf db \<Longrightarrow> log_wf (enforceWorkspaceRetention cfg w db)"
  using enforce_events log_wf_filter enforce_fields(1,2) by metis

lemma enforce_workspace:
  fixes w
  assumes "log_wf db" "config_ok cfg"
  defines "rows \<equiv> events_of_workspace db w"
  shows "events_of_workspace (enforceWorkspaceRetention cfg w db) w =
    (if over_limit cfg w db then drop (length rows - nat (ec_maxEventsPerWorkspace cfg)) rows
     else rows)"
using assms(1,2) proof (cases rule: enforce_cases [where w = w])
  case within
  then show ?thesis by (simp add: rows_def)
next
  case (cut k)
  have rows: "rows = filter (\<lambda>r. vr_workspace_id r = w) (rd_events db)"
    by (simp add: rows_def events_of_workspace_wf [OF assms(1)])
  define c where "c = vr_sequence (rows ! k)"
  have "rd_events (enforceWorkspaceRetention cfg w db)
      = filter (\<lambda>r. \<not> (vr_workspace_id r = w \<and> vr_sequence r < c)) (rd_events db)"
    unfolding c_def rows_def cut(4) by simp
  then have "events_of_workspace (enforceWorkspaceRetention cfg w db) w
      = filter (\<lambda>r. \<not> vr_sequence r < c) rows"
    unfolding events_of_workspace_wf [OF enforce_wf [OF assms(1)]] rows
    by (auto intro!: filter_cong)
  also have "\<dots> = drop k rows"
    unfolding c_def
  proof (rule filter_from_nth)
    show "sorted_wrt (\<lambda>a b. vr_sequence a < vr_sequence b) rows"
      unfolding rows by (rule sorted_filter_log [OF assms(1)])
    show "k < length rows" using cut(3) by (simp add: rows_def)
  qed
  finally show ?thesis using cut(1,2) by (simp add: rows_def)
qed

lemma enforce_other:
  assumes "log_wf db" "config_ok cfg" "v \<noteq> w"
  shows "events_of_workspace (enforceWorkspaceRetention cfg w db) v = events_of_workspace db v"
using assms(1,2) proof (cases rule: enforce_cases [where w = w])
  case (cut k)
  then show ?thesis
    unfolding events_of_workspace_def using assms(3)
    by (auto intro!: arg_cong [where f = "sort_key vr_sequence"] filter_cong)
qed simp

section \<open>How the log moves\<close>

definition log_moves :: "runtime_db \<Rightarrow> runtime_db \<Rightarrow> bool" where
  "log_moves db db' \<longleftrightarrow> rd_sequence db \<le> rd_sequence db'
     \<and> (\<forall>r \<in> set (rd_events db'). r \<in> set (rd_events db) \<or> rd_sequence db < vr_sequence r)
     \<and> (\<forall>r \<in> set (rd_events db). r \<notin> set (rd_events db') \<longrightarrow>
          (\<exists>s \<in> set (rd_events db'). vr_workspace_id s = vr_workspace_id r)
          \<and> (\<forall>s \<in> set (rd_events db'). vr_workspace_id s = vr_workspace_id r \<longrightarrow>
               vr_sequence r < vr_sequence s))"

lemma log_moves_same:
  "rd_events db' = rd_events db \<Longrightarrow> rd_sequence db' = rd_sequence db \<Longrightarrow> log_moves db db'"
  by (simp add: log_moves_def)

lemma log_moves_refl: "log_moves db db"
  by (rule log_moves_same) simp_all

lemma log_moves_trans:
  assumes "log_wf a" "log_moves a b" "log_moves b c"
  shows "log_moves a c"
  unfolding log_moves_def
proof (intro conjI ballI impI)
  show "rd_sequence a \<le> rd_sequence c" using assms by (simp add: log_moves_def)
next
  fix r assume r: "r \<in> set (rd_events c)"
  show "r \<in> set (rd_events a) \<or> rd_sequence a < vr_sequence r"
  proof (cases "r \<in> set (rd_events b)")
    case True
    then show ?thesis using assms(2) by (simp add: log_moves_def)
  next
    case False
    then have "rd_sequence b < vr_sequence r" using r assms(3) by (auto simp: log_moves_def)
    then show ?thesis using assms(2) by (simp add: log_moves_def)
  qed
next
  fix r assume r: "r \<in> set (rd_events a)" "r \<notin> set (rd_events c)"
  show "\<exists>s \<in> set (rd_events c). vr_workspace_id s = vr_workspace_id r"
  proof (cases "r \<in> set (rd_events b)")
    case True
    then show ?thesis using r(2) assms(3) by (simp add: log_moves_def)
  next
    case False
    then obtain s where s: "s \<in> set (rd_events b)" "vr_workspace_id s = vr_workspace_id r"
      using r(1) assms(2) by (auto simp: log_moves_def)
    show ?thesis
    proof (cases "s \<in> set (rd_events c)")
      case True
      then show ?thesis using s by blast
    next
      case False
      then have "\<exists>t \<in> set (rd_events c). vr_workspace_id t = vr_workspace_id s"
        using s(1) assms(3) by (simp add: log_moves_def)
      then show ?thesis using s(2) by simp
    qed
  qed
next
  fix r s
  assume r: "r \<in> set (rd_events a)" "r \<notin> set (rd_events c)"
    and s: "s \<in> set (rd_events c)" "vr_workspace_id s = vr_workspace_id r"
  consider "r \<in> set (rd_events b)" | "r \<notin> set (rd_events b)" "s \<in> set (rd_events b)"
    | "s \<notin> set (rd_events b)" by blast
  then show "vr_sequence r < vr_sequence s"
  proof cases
    case 1
    then show ?thesis using r(2) s assms(3) by (simp add: log_moves_def)
  next
    case 2
    then show ?thesis using r(1) s(2) assms(2) by (simp add: log_moves_def)
  next
    case 3
    then have "rd_sequence b < vr_sequence s" using s(1) assms(3) by (auto simp: log_moves_def)
    moreover have "vr_sequence r \<le> rd_sequence a" using log_wf_row(1) [OF assms(1) r(1)] .
    ultimately show ?thesis using assms(2) by (simp add: log_moves_def)
  qed
qed

lemma enforce_moves:
  assumes "log_wf db" "config_ok cfg"
  shows "log_moves db (enforceWorkspaceRetention cfg w db)"
  using assms
proof (cases rule: enforce_cases [where w = w])
  case within
  then show ?thesis by (simp add: log_moves_refl)
next
  case (cut k)
  define x where "x = events_of_workspace db w ! k"
  have x: "x \<in> set (rd_events db)" "vr_workspace_id x = w"
    using nth_mem [OF cut(3)] unfolding x_def events_of_workspace_wf [OF assms(1)] by auto
  have ev: "set (rd_events (enforceWorkspaceRetention cfg w db)) = {r \<in> set (rd_events db).
      \<not> (vr_workspace_id r = w \<and> vr_sequence r < vr_sequence x)}"
    unfolding cut(4) x_def by simp
  have "x \<in> set (rd_events (enforceWorkspaceRetention cfg w db))" using x by (simp add: ev)
  then show ?thesis using x unfolding log_moves_def by (auto simp: ev)
qed

lemma add_moves: "rd_sequence db < vr_sequence row \<Longrightarrow> log_moves db (add_event_row row db)"
  by (auto simp: log_moves_def)

section \<open>The append of a publisher\<close>

lemma allocate_above: "rd_sequence db < allocate_sequence db gap"
  by (simp add: allocate_sequence_def)

definition insert_and_trim ::
  "event_store_config \<Rightarrow> nat \<Rightarrow> goal_runtime_event \<Rightarrow> iso \<Rightarrow> runtime_db \<Rightarrow> runtime_db" where
  "insert_and_trim cfg gap event t db = enforceWorkspaceRetention cfg (ev_workspaceId (event_base event))
     (add_event_row (event_row (allocate_sequence db gap) event t) db)"

definition new_record :: "runtime_db \<Rightarrow> nat \<Rightarrow> goal_runtime_event \<Rightarrow> iso \<Rightarrow> goal_runtime_event_record" where
  "new_record db gap event t =
     \<lparr>rr_sequence = allocate_sequence db gap, rr_event = event, rr_recordedAt = t\<rparr>"

text \<open>The checks an event passes before the table is touched.\<close>

definition appendable :: "goal_runtime_event \<Rightarrow> iso \<Rightarrow> runtime_db \<Rightarrow> bool" where
  "appendable event t db \<longleftrightarrow> validateEvent event = Inr () \<and> date_parse t \<noteq> None
     \<and> event_validateStoredScope event db = Inr ()"

lemma read_new_row:
  assumes "log_wf db" "validateEvent event = Inr ()" "date_parse t \<noteq> None"
  shows "read_event_row (event_row (allocate_sequence db gap) event t) = Inr (new_record db gap event t)"
    "require_event_row (event_row (allocate_sequence db gap) event t)
      = Inr (event_row (allocate_sequence db gap) event t)"
proof -
  show "read_event_row (event_row (allocate_sequence db gap) event t) = Inr (new_record db gap event t)"
    unfolding new_record_def read_event_row_encoded
    using assms validateEvent_sound by (auto simp: log_wf_def allocate_sequence_def)
  then show "require_event_row (event_row (allocate_sequence db gap) event t)
      = Inr (event_row (allocate_sequence db gap) event t)"
    by (auto simp: read_event_row_def require_event_row_def bind_ok_Inr_iff split: if_splits)
qed

text \<open>The append in closed form, on a well-formed log.\<close>

lemma append_event_cases:
  assumes wf: "log_wf db"
  obtains (refused) e where "\<not> appendable event t db"
      "appendGoalRuntimeEvent cfg gap event t db = (db, Inl e)"
  | (added) "appendable event t db" "find_event db (ev_eventId (event_base event)) = None"
      "appendGoalRuntimeEvent cfg gap event t db = (insert_and_trim cfg gap event t db,
         Inr \<lparr>ar_appended = True, ar_record = new_record db gap event t\<rparr>)"
  | (known) row rec where "appendable event t db" "find_event db (ev_eventId (event_base event)) = Some row"
      "read_event_row row = Inr rec"
      "appendGoalRuntimeEvent cfg gap event t db = (db, if rr_event rec = event
         then Inr \<lparr>ar_appended = False, ar_record = rec\<rparr> else Inl Ee_event_id_conflict)"
proof (cases "appendable event t db")
  case False
  then have "\<exists>e. bind_ok (validateEvent event) (\<lambda>_. bind_ok (event_validateIso t Ee_invalid_event) (\<lambda>_.
      event_validateStoredScope event db)) = Inl e"
    by (cases "validateEvent event"; cases "event_validateStoredScope event db")
      (auto simp: appendable_def event_validateIso_def)
  then show thesis using refused False by (auto simp: appendGoalRuntimeEvent_def)
next
  case True
  then have checks: "bind_ok (validateEvent event) (\<lambda>_. bind_ok (event_validateIso t Ee_invalid_event) (\<lambda>_.
      event_validateStoredScope event db)) = Inr ()"
    by (auto simp: appendable_def bind_ok_Inr_iff)
  let ?row = "event_row (allocate_sequence db gap) event t"
  have sound: "event_row_check ?row"
    using True validateEvent_sound event_row_check_sound by (auto simp: appendable_def)
  show thesis
  proof (cases "find_event db (ev_eventId (event_base event))")
    case None
    then have "find_event (add_event_row ?row db) (ev_eventId (event_base event)) = Some ?row"
      using find_event_added [of db ?row] by simp
    then show thesis
      using added [OF True None] None sound True read_new_row [OF wf, of event t gap]
      by (simp add: appendGoalRuntimeEvent_def checks can_insert_event_def appendable_def
          Let_def insert_and_trim_def)
  next
    case (Some row)
    then obtain rec where rec: "read_event_row row = Inr rec"
      using wf find_event_SomeD by (meson log_wf_row(3))
    show thesis
      using known [OF True Some rec] Some rec
      by (simp add: appendGoalRuntimeEvent_def checks can_insert_event_def Let_def
          requireEventById_def sameEvent_iff)
  qed
qed

lemma insert_and_trim_wf:
  assumes "log_wf db" "appendable event t db" "find_event db (ev_eventId (event_base event)) = None"
  shows "log_wf (add_event_row (event_row (allocate_sequence db gap) event t) db)"
    "log_wf (insert_and_trim cfg gap event t db)"
proof -
  show "log_wf (add_event_row (event_row (allocate_sequence db gap) event t) db)"
    using assms validateEvent_sound allocate_above
    by (intro add_event_wf) (auto simp: appendable_def)
  then show "log_wf (insert_and_trim cfg gap event t db)"
    unfolding insert_and_trim_def by (rule enforce_wf)
qed

lemma insert_and_trim_moves:
  assumes "log_wf db" "appendable event t db" "find_event db (ev_eventId (event_base event)) = None"
    "config_ok cfg"
  shows "log_moves db (insert_and_trim cfg gap event t db)"
  unfolding insert_and_trim_def
  by (rule log_moves_trans [OF assms(1) add_moves
        enforce_moves [OF insert_and_trim_wf(1) [OF assms(1-3)] assms(4)]])
    (simp add: allocate_above)

lemma insert_and_trim_fields [simp]:
  "rd_goals (insert_and_trim cfg gap event t db) = rd_goals db"
  "rd_snapshots (insert_and_trim cfg gap event t db) = rd_snapshots db"
  "rd_sequence (insert_and_trim cfg gap event t db) = allocate_sequence db gap"
  by (simp_all add: insert_and_trim_def)

lemma append_event_step:
  assumes "log_wf db" "config_ok cfg" "appendGoalRuntimeEvent cfg gap event t db = (db', res)"
  shows "log_wf db'" "log_moves db db'" "rd_goals db' = rd_goals db"
    "rd_snapshots db' = rd_snapshots db"
proof -
  have "log_wf db' \<and> log_moves db db' \<and> rd_goals db' = rd_goals db \<and> rd_snapshots db' = rd_snapshots db"
    using assms(1)
  proof (cases rule: append_event_cases [where event = event and t = t and cfg = cfg and gap = gap])
    case added
    then show ?thesis
      using assms insert_and_trim_wf(2) insert_and_trim_moves by auto
  qed (use assms log_moves_refl in auto)
  then show "log_wf db'" "log_moves db db'" "rd_goals db' = rd_goals db"
    "rd_snapshots db' = rd_snapshots db" by blast+
qed

section \<open>The append of the reconciliation\<close>

lemma reconcile_append_cases:
  assumes res: "appendGoalRuntimeReconciliationEvent cfg gap q db = Inr (db', res)" and wf: "log_wf db"
  obtains b x where "rq_event q = ExecutionScoped b x" "xe_type x = Et_worker_lost"
    "xe_executionGeneration x = rq_expectedLeaseGeneration q"
    "appendable (rq_event q) (rq_recordedAt q) db"
    "(\<exists>reason. db' = db \<and> res = Rx_concurrent_change reason)
     \<or> (\<exists>row rec. db' = db \<and> res = Rx_duplicate rec \<and> find_event db (ev_eventId b) = Some row
          \<and> read_event_row row = Inr rec \<and> rr_event rec = rq_event q
          \<and> reconciliation_fence q b x (Some rec) db = Inr None)
     \<or> (db' = insert_and_trim cfg gap (rq_event q) (rq_recordedAt q) db
          \<and> res = Rx_appended (new_record db gap (rq_event q) (rq_recordedAt q))
          \<and> find_event db (ev_eventId b) = None
          \<and> reconciliation_fence q b x None db = Inr None)"
proof -
  from res have valid: "validateEvent (rq_event q) = Inr ()" "date_parse (rq_recordedAt q) \<noteq> None"
    by (auto simp: appendGoalRuntimeReconciliationEvent_def bind_ok_Inr_iff)
  from res obtain x where x: "request_generation (rq_event q) = Some x"
      "xe_executionGeneration x = rq_expectedLeaseGeneration q"
      "append_under_fence cfg gap q x db = Inr (db', res)"
    by (auto simp: appendGoalRuntimeReconciliationEvent_def bind_ok_Inr_iff
        split: option.splits if_splits)
  from x(1) obtain b where event: "rq_event q = ExecutionScoped b x" "xe_type x = Et_worker_lost"
    by (auto simp: request_generation_def split: goal_runtime_event.splits if_splits)
  have eb: "event_base (rq_event q) = b" by (simp add: event)
  from x(3) obtain duplicate u refusal where
      dup: "find_duplicate (rq_event q) db = Inr duplicate"
      and scope: "event_validateStoredScope (rq_event q) db = Inr u"
      and fence: "reconciliation_fence q b x duplicate db = Inr refusal"
      and rest: "(case refusal of Some reason \<Rightarrow> Inr (db, Rx_concurrent_change reason)
         | None \<Rightarrow> (case duplicate of Some rec \<Rightarrow> Inr (db, Rx_duplicate rec)
           | None \<Rightarrow>
              (if \<not> can_insert_event (event_row (allocate_sequence db gap) (rq_event q) (rq_recordedAt q)) db
               then Inl Ee_constraint
               else bind_ok (requireEventById (add_event_row (event_row (allocate_sequence db gap)
                   (rq_event q) (rq_recordedAt q)) db) (ev_eventId b)) (\<lambda>rec.
                 Inr (enforceWorkspaceRetention cfg (ev_workspaceId b) (add_event_row (event_row
                   (allocate_sequence db gap) (rq_event q) (rq_recordedAt q)) db), Rx_appended rec)))))
         = (Inr (db', res) :: event_store_error + _)"
    unfolding append_under_fence_def Let_def eb by (elim bind_okE)
  have app: "appendable (rq_event q) (rq_recordedAt q) db"
    using valid scope by (simp add: appendable_def)
  let ?conflict = "\<exists>reason. db' = db \<and> res = Rx_concurrent_change reason"
  let ?known = "\<exists>row rec. db' = db \<and> res = Rx_duplicate rec \<and> find_event db (ev_eventId b) = Some row
          \<and> read_event_row row = Inr rec \<and> rr_event rec = rq_event q
          \<and> reconciliation_fence q b x (Some rec) db = Inr None"
  let ?added = "db' = insert_and_trim cfg gap (rq_event q) (rq_recordedAt q) db
          \<and> res = Rx_appended (new_record db gap (rq_event q) (rq_recordedAt q))
          \<and> find_event db (ev_eventId b) = None
          \<and> reconciliation_fence q b x None db = Inr None"
  have "?conflict \<or> ?known \<or> ?added"
  proof (cases refusal)
    case (Some reason)
    then show ?thesis using rest by auto
  next
    case None
    note open_fence = fence [unfolded None]
    show ?thesis
    proof (cases "find_event db (ev_eventId b)")
      case (Some row)
      then obtain rec where "read_event_row row = Inr rec" "duplicate = Some rec"
          "rr_event rec = rq_event q"
        using dup by (auto simp: find_duplicate_def event sameEvent_iff bind_ok_Inr_iff split: if_splits)
      then show ?thesis using rest open_fence None Some by auto
    next
      case none: None
      let ?row = "event_row (allocate_sequence db gap) (rq_event q) (rq_recordedAt q)"
      have dup_none: "duplicate = None" using dup none by (simp add: find_duplicate_def event)
      have found: "find_event (add_event_row ?row db) (ev_eventId b) = Some ?row"
        using find_event_added [of db ?row] none by (simp add: event)
      have "can_insert_event ?row db"
        using rest None dup_none by (auto split: if_splits)
      then have "db' = insert_and_trim cfg gap (rq_event q) (rq_recordedAt q) db
          \<and> res = Rx_appended (new_record db gap (rq_event q) (rq_recordedAt q))"
        using rest None dup_none found read_new_row(1) [OF wf valid, of gap]
        by (simp add: requireEventById_def insert_and_trim_def event)
      then show ?thesis using none open_fence dup_none by simp
    qed
  qed
  then show thesis by (rule that [OF event x(2) app])
qed

lemma append_reconciliation_step:
  assumes "log_wf db" "config_ok cfg"
    "appendGoalRuntimeReconciliationEvent cfg gap q db = Inr (db', res)"
  shows "log_wf db'" "log_moves db db'" "rd_goals db' = rd_goals db"
    "rd_snapshots db' = rd_snapshots db"
proof -
  obtain b x where event: "rq_event q = ExecutionScoped b x"
      and app: "appendable (rq_event q) (rq_recordedAt q) db"
      and cases: "db' = db \<or> (db' = insert_and_trim cfg gap (rq_event q) (rq_recordedAt q) db
        \<and> find_event db (ev_eventId (event_base (rq_event q))) = None)"
    using assms(1) by (elim reconcile_append_cases [OF assms(3)]) auto
  then have "log_wf db' \<and> log_moves db db' \<and> rd_goals db' = rd_goals db
      \<and> rd_snapshots db' = rd_snapshots db"
    using assms(1,2) insert_and_trim_wf(2) [OF assms(1) app]
      insert_and_trim_moves [OF assms(1) app _ assms(2)] log_moves_refl by auto
  then show "log_wf db'" "log_moves db db'" "rd_goals db' = rd_goals db"
    "rd_snapshots db' = rd_snapshots db" by blast+
qed

end
