(* ===== verification/Runtime_Snapshot_Safety.thy ===== *)
theory Runtime_Snapshot_Safety
  imports Runtime_Snapshot Runtime_Event_Log_Safety Goal_Runtime_Safety Goal_Repository_Safety
begin

text \<open>
  What the snapshots hold: exactly the projections the projector can be given (its invariant plus the
  limits on the fields), one row per goal, a cursor that only advances. \<open>runtime_store\<close> puts the goal
  repository, the event log and the snapshots into one machine and interprets the generic one.
\<close>

section \<open>Which projections are stored\<close>

definition blocker_storable :: "goal_runtime_blocker \<Rightarrow> bool" where
  "blocker_storable b \<longleftrightarrow> optionalText (bl_detail b) \<and> optional_ok requiredIso (bl_observedAt b)"

definition fields_storable :: "goal_runtime_projection \<Rightarrow> bool" where
  "fields_storable p \<longleftrightarrow> requiredIdentifier (pj_goalId p) \<and> requiredIdentifier (pj_workspaceId p)
     \<and> optional_ok requiredIdentifier (pj_activeExecutionId p)
     \<and> optional_ok snapshot_positiveInteger (pj_executionGeneration p)
     \<and> optionalText (pj_phase p) \<and> optional_ok normalizeProgress (pj_progress p)
     \<and> requiredIso (pj_lastActivityAt p) \<and> optional_ok requiredIso (pj_lastHeartbeatAt p)
     \<and> optional_ok blocker_storable (pj_blocker p)"

definition storable :: "goal_runtime_projection \<Rightarrow> bool" where
  "storable p \<longleftrightarrow> projectionInvariantHolds p \<and> fields_storable p"

lemma requires_same: "snapshotRequiresActiveExecution = runtimeRequiresActiveExecution"
  by (rule ext) (simp add: snapshotRequiresActiveExecution_def runtimeRequiresActiveExecution_def)

lemma execution_consistent_iff:
  "execution_consistent (pj_lifecycleState p) (pj_runtimeState p) (pj_activeExecutionId p)
     (pj_executionGeneration p) \<longleftrightarrow> projectionInvariantHolds p"
  unfolding execution_consistent_def projectionInvariantHolds_def requires_same Let_def
  by (auto simp: runtimeRequiresActiveExecution_def)

lemma check_that_Inr [simp]: "check_that b r = Inr u \<longleftrightarrow> b"
  by (simp add: check_that_def)

lemma narrow_Inr [simp]: "narrow v r = Inr e \<longleftrightarrow> v = Some e"
  by (cases v) (auto simp: narrow_def)

lemma normalizeBlocker_iff:
  "normalizeBlocker v = Some b \<longleftrightarrow> v = \<lparr>rb_kind = blocker_kind_name (bl_kind b),
     rb_detail = bl_detail b, rb_observedAt = bl_observedAt b\<rparr> \<and> blocker_storable b"
  by (cases v; cases b) (auto simp: normalizeBlocker_def blocker_storable_def
    blocker_members.member_named_iff split: option.splits)

lemma normalizeProjection_iff:
  "normalizeProjection v reason = Inr p \<longleftrightarrow> v = raw_of_projection p \<and> storable p"
proof
  assume "normalizeProjection v reason = Inr p"
  then show "v = raw_of_projection p \<and> storable p"
    unfolding normalizeProjection_def
    by (cases v; cases "rw_blocker v")
      (auto simp: bind_ok_Inr_iff member_named_iffs raw_of_projection_def storable_def
        fields_storable_def execution_consistent_iff [symmetric] normalizeBlocker_iff
        optional_ok_def)
next
  assume "v = raw_of_projection p \<and> storable p"
  then show "normalizeProjection v reason = Inr p"
    unfolding normalizeProjection_def
    by (cases "pj_blocker p")
      (auto simp: bind_ok_Inr_iff member_named_iffs raw_of_projection_def storable_def
        fields_storable_def execution_consistent_iff normalizeBlocker_iff optional_ok_def)
qed

lemma normalizeProjection_raw:
  "normalizeProjection (raw_of_projection p) reason = Inr q \<longleftrightarrow> q = p \<and> storable p"
proof -
  have "raw_of_projection p = raw_of_projection q \<longleftrightarrow> p = q"
  proof
    assume eq: "raw_of_projection p = raw_of_projection q"
    show "p = q"
    proof (rule goal_runtime_projection.equality)
      have "map_option (\<lambda>b. \<lparr>rb_kind = blocker_kind_name (bl_kind b), rb_detail = bl_detail b,
          rb_observedAt = bl_observedAt b\<rparr>) (pj_blocker p)
        = map_option (\<lambda>b. \<lparr>rb_kind = blocker_kind_name (bl_kind b), rb_detail = bl_detail b,
          rb_observedAt = bl_observedAt b\<rparr>) (pj_blocker q)"
        using eq by (simp add: raw_of_projection_def)
      then show "pj_blocker p = pj_blocker q"
        by (cases "pj_blocker p"; cases "pj_blocker q") auto
    qed (use eq in \<open>simp_all add: raw_of_projection_def\<close>)
  qed simp
  then show ?thesis by (auto simp: normalizeProjection_iff)
qed

section \<open>Rows\<close>

lemma rowValues_fields [simp]:
  "sr_goal_id (rowValues p n t) = pj_goalId p" "sr_workspace_id (rowValues p n t) = pj_workspaceId p"
  "sr_last_event_sequence (rowValues p n t) = n" "sr_updated_at (rowValues p n t) = t"
  "sr_contract_version (rowValues p n t) = GOAL_RUNTIME_CONTRACT_VERSION"
  "sr_active_execution_id (rowValues p n t) = pj_activeExecutionId p"
  "sr_execution_generation (rowValues p n t) = pj_executionGeneration p"
  by (simp_all add: rowValues_def)

lemma raw_of_rowValues [simp]: "raw_of_row (rowValues p n t) = raw_of_projection p"
  by (cases "pj_blocker p") (simp_all add: raw_of_row_def rowValues_def raw_of_projection_def)

text \<open>A row that satisfies the constraints and holds the raw form of a projection is its row.\<close>

lemma row_of_raw:
  assumes "raw_of_row row = raw_of_projection p" "snapshot_row_check row"
    "sr_contract_version row = GOAL_RUNTIME_CONTRACT_VERSION"
  shows "row = rowValues p (sr_last_event_sequence row) (sr_updated_at row)"
proof (rule runtime_snapshot_row.equality)
  have b: "map_option (\<lambda>k. \<lparr>rb_kind = k, rb_detail = sr_blocker_detail row,
      rb_observedAt = sr_blocker_observed_at row\<rparr>) (sr_blocker_kind row)
    = map_option (\<lambda>b. \<lparr>rb_kind = blocker_kind_name (bl_kind b), rb_detail = bl_detail b,
      rb_observedAt = bl_observedAt b\<rparr>) (pj_blocker p)"
    using assms(1) by (simp add: raw_of_row_def raw_of_projection_def)
  show "sr_blocker_kind row = sr_blocker_kind (rowValues p (sr_last_event_sequence row) (sr_updated_at row))"
    "sr_blocker_detail row = sr_blocker_detail (rowValues p (sr_last_event_sequence row) (sr_updated_at row))"
    "sr_blocker_observed_at row
       = sr_blocker_observed_at (rowValues p (sr_last_event_sequence row) (sr_updated_at row))"
    using b assms(2)
    by (cases "pj_blocker p"; cases "sr_blocker_kind row"; simp add: rowValues_def snapshot_row_check_def)+
qed (use assms in \<open>simp_all add: raw_of_row_def raw_of_projection_def rowValues_def\<close>)

definition cursor_ok :: "int \<Rightarrow> bool" where
  "cursor_ok n \<longleftrightarrow> 0 \<le> n \<and> n \<le> max_safe_integer"

lemma nonNegative_iff [simp]: "snapshot_nonNegativeInteger n \<longleftrightarrow> cursor_ok n"
  by (auto simp: snapshot_nonNegativeInteger_def cursor_ok_def)

definition snapshot_sound :: "snapshot_record \<Rightarrow> bool" where
  "snapshot_sound rec \<longleftrightarrow> storable (gs_projection rec) \<and> cursor_ok (gs_lastEventSequence rec)
     \<and> requiredIso (gs_updatedAt rec)"

definition row_of_record :: "snapshot_record \<Rightarrow> runtime_snapshot_row" where
  "row_of_record rec = rowValues (gs_projection rec) (gs_lastEventSequence rec) (gs_updatedAt rec)"

lemma read_snapshot_row_iff:
  assumes "snapshot_row_check row"
  shows "read_snapshot_row row = Inr rec \<longleftrightarrow> row = row_of_record rec \<and> snapshot_sound rec"
proof
  assume "read_snapshot_row row = Inr rec"
  then have r: "sr_contract_version row = GOAL_RUNTIME_CONTRACT_VERSION"
      "raw_of_row row = raw_of_projection (gs_projection rec)" "storable (gs_projection rec)"
      "cursor_ok (sr_last_event_sequence row)" "requiredIso (sr_updated_at row)"
      "gs_lastEventSequence rec = sr_last_event_sequence row" "gs_updatedAt rec = sr_updated_at row"
    by (auto simp: read_snapshot_row_def bind_ok_Inr_iff normalizeProjection_iff)
  show "row = row_of_record rec \<and> snapshot_sound rec"
    using row_of_raw [OF r(2) assms r(1)] r(3-7) by (simp add: row_of_record_def snapshot_sound_def)
next
  assume "row = row_of_record rec \<and> snapshot_sound rec"
  then show "read_snapshot_row row = Inr rec"
    by (cases rec) (auto simp: read_snapshot_row_def bind_ok_Inr_iff normalizeProjection_iff
      row_of_record_def snapshot_sound_def)
qed

lemma row_check_storable: "storable p \<Longrightarrow> cursor_ok n \<Longrightarrow> snapshot_row_check (rowValues p n t)"
  by (cases "pj_blocker p"; cases "pj_executionGeneration p"; cases "pj_activeExecutionId p")
    (auto simp: snapshot_row_check_def rowValues_def storable_def fields_storable_def cursor_ok_def
      GOAL_RUNTIME_CONTRACT_VERSION_def optional_ok_def snapshot_positiveInteger_def
      projectionInvariantHolds_def Let_def)

lemma read_rowValues [simp]:
  "storable p \<Longrightarrow> cursor_ok n \<Longrightarrow> requiredIso t \<Longrightarrow> read_snapshot_row (rowValues p n t)
     = Inr \<lparr>gs_projection = p, gs_lastEventSequence = n, gs_updatedAt = t\<rparr>"
  using read_snapshot_row_iff [OF row_check_storable]
  by (simp add: row_of_record_def snapshot_sound_def)

section \<open>The table of snapshots\<close>

definition snapshot_in_scope :: "runtime_db \<Rightarrow> runtime_snapshot_row \<Rightarrow> bool" where
  "snapshot_in_scope db s \<longleftrightarrow> sr_last_event_sequence s \<le> rd_sequence db
     \<and> (\<exists>g \<in> set (db_goals (rd_goals db)). gr_id g = sr_goal_id s \<and> gr_workspace_id g = sr_workspace_id s)"

definition snapshots_wf :: "runtime_db \<Rightarrow> bool" where
  "snapshots_wf db \<longleftrightarrow> distinct (map sr_goal_id (rd_snapshots db))
     \<and> (\<forall>s \<in> set (rd_snapshots db). snapshot_row_check s \<and> (\<exists>rec. read_snapshot_row s = Inr rec)
          \<and> snapshot_in_scope db s)"

text \<open>The snapshot of a goal, as its readers see it.\<close>

definition snapshot_of :: "runtime_db \<Rightarrow> string \<Rightarrow> snapshot_record option" where
  "snapshot_of db goalId = Option.bind (find_snapshot db goalId)
     (\<lambda>row. case read_snapshot_row row of Inl _ \<Rightarrow> None | Inr rec \<Rightarrow> Some rec)"

lemma find_snapshot_SomeD: "find_snapshot db i = Some s \<Longrightarrow> s \<in> set (rd_snapshots db) \<and> sr_goal_id s = i"
  by (auto simp: find_snapshot_def dest: row_get_SomeD)

lemma snapshot_of_row:
  assumes "snapshots_wf db" "find_snapshot db i = Some s"
  obtains rec where "read_snapshot_row s = Inr rec" "snapshot_of db i = Some rec"
    "s = row_of_record rec" "snapshot_sound rec" "pj_goalId (gs_projection rec) = i"
proof -
  have s: "s \<in> set (rd_snapshots db)" "sr_goal_id s = i" using find_snapshot_SomeD [OF assms(2)] by auto
  then obtain rec where rec: "read_snapshot_row s = Inr rec" "snapshot_row_check s"
    using assms(1) by (auto simp: snapshots_wf_def)
  then have "s = row_of_record rec" "snapshot_sound rec" using read_snapshot_row_iff by blast+
  moreover have "pj_goalId (gs_projection rec) = i"
    using s(2) \<open>s = row_of_record rec\<close> by (simp add: row_of_record_def)
  ultimately show thesis
    using that rec(1) assms(2) by (simp add: snapshot_of_def)
qed

lemma snapshot_of_SomeE:
  assumes "snapshots_wf db" "snapshot_of db i = Some rec"
  obtains s where "find_snapshot db i = Some s" "read_snapshot_row s = Inr rec"
    "s = row_of_record rec" "snapshot_sound rec" "pj_goalId (gs_projection rec) = i"
proof (cases "find_snapshot db i")
  case None
  then show thesis using assms(2) by (simp add: snapshot_of_def)
next
  case (Some s)
  obtain rec' where "read_snapshot_row s = Inr rec'" "snapshot_of db i = Some rec'"
      "s = row_of_record rec'" "snapshot_sound rec'" "pj_goalId (gs_projection rec') = i"
    by (rule snapshot_of_row [OF assms(1) Some])
  then show thesis using that [OF Some] assms(2) by simp
qed

lemma snapshot_of_None_iff:
  assumes "snapshots_wf db"
  shows "snapshot_of db i = None \<longleftrightarrow> find_snapshot db i = None"
proof (cases "find_snapshot db i")
  case None
  then show ?thesis by (simp add: snapshot_of_def)
next
  case (Some s)
  then show ?thesis by (auto elim: snapshot_of_row [OF assms])
qed

lemma get_snapshot_wf:
  assumes "snapshots_wf db" "requiredIdentifier i"
  shows "getGoalRuntimeSnapshot i db = Inr (snapshot_of db i)"
proof (cases "find_snapshot db i")
  case None
  then show ?thesis using assms by (simp add: getGoalRuntimeSnapshot_def snapshot_of_def)
next
  case (Some s)
  obtain rec where "read_snapshot_row s = Inr rec" "snapshot_of db i = Some rec"
    by (rule snapshot_of_row [OF assms(1) Some])
  then show ?thesis using assms(2) Some by (simp add: getGoalRuntimeSnapshot_def)
qed

section \<open>Storing\<close>

definition put_snapshot :: "runtime_snapshot_row \<Rightarrow> runtime_db \<Rightarrow> runtime_db" where
  "put_snapshot row db = write_snapshot row (find_snapshot db (sr_goal_id row) \<noteq> None) db"

lemma put_snapshot_fields [simp]:
  "rd_goals (put_snapshot row db) = rd_goals db" "rd_events (put_snapshot row db) = rd_events db"
  "rd_sequence (put_snapshot row db) = rd_sequence db"
  by (simp_all add: put_snapshot_def write_snapshot_def)

lemma row_get_replaced:
  assumes "\<exists>x \<in> set rs. k x = k row"
  shows "row_get (\<lambda>x. k x = i) (row_update (\<lambda>x. k x = k row) (\<lambda>_. row) rs)
     = (if i = k row then Some row else row_get (\<lambda>x. k x = i) rs)"
proof (cases "i = k row")
  case True
  have "row_get (\<lambda>x. k x = k row) (row_update (\<lambda>x. k x = k row) (\<lambda>_. row) rs) = Some row"
    using assms by (induction rs) auto
  then show ?thesis using True by simp
next
  case False
  have "row_get (\<lambda>x. k x = i) (row_update (\<lambda>x. k x = k row) (\<lambda>_. row) rs) = row_get (\<lambda>x. k x = i) rs"
    using False by (induction rs) auto
  then show ?thesis using False by simp
qed

lemma find_put_snapshot:
  "find_snapshot (put_snapshot row db) i = (if i = sr_goal_id row then Some row else find_snapshot db i)"
proof (cases "find_snapshot db (sr_goal_id row)")
  case None
  then show ?thesis
    by (auto simp: put_snapshot_def write_snapshot_def find_snapshot_def row_get_append
        split: option.splits)
next
  case (Some s)
  then have "\<exists>x \<in> set (rd_snapshots db). sr_goal_id x = sr_goal_id row"
    using find_snapshot_SomeD by blast
  then show ?thesis
    using Some row_get_replaced [of "rd_snapshots db" sr_goal_id row i]
    by (simp add: put_snapshot_def write_snapshot_def find_snapshot_def)
qed

lemma snapshot_of_put:
  assumes "storable p" "cursor_ok n" "requiredIso t"
  shows "snapshot_of (put_snapshot (rowValues p n t) db) i = (if i = pj_goalId p
    then Some \<lparr>gs_projection = p, gs_lastEventSequence = n, gs_updatedAt = t\<rparr> else snapshot_of db i)"
  using assms by (simp add: snapshot_of_def find_put_snapshot)

text \<open>What the request has to satisfy before the transaction starts.\<close>

definition may_store :: "goal_runtime_projection \<Rightarrow> int \<Rightarrow> iso \<Rightarrow> runtime_db \<Rightarrow> bool" where
  "may_store p n t db \<longleftrightarrow> storable p \<and> cursor_ok n \<and> requiredIso t
     \<and> snapshot_validateStoredScope p n db"

lemma normalizeProjection_error: "normalizeProjection v reason = Inl e \<Longrightarrow> e = reason"
  unfolding normalizeProjection_def
  by (auto simp: bind_ok_def check_that_def narrow_def split: sum.splits option.splits if_splits)

lemma store_refused: "\<not> may_store p n t db \<Longrightarrow> storeGoalRuntimeSnapshot p n t db = Inl Se_invalid_projection"
proof (cases "storable p")
  case True
  assume "\<not> may_store p n t db"
  then show ?thesis
    using True normalizeProjection_raw [of p Se_invalid_projection p]
    by (auto simp: storeGoalRuntimeSnapshot_def may_store_def check_that_def)
next
  case False
  then have "\<nexists>q. normalizeProjection (raw_of_projection p) Se_invalid_projection = Inr q"
    by (simp add: normalizeProjection_raw)
  then have "normalizeProjection (raw_of_projection p) Se_invalid_projection = Inl Se_invalid_projection"
    using normalizeProjection_error by (metis sum.exhaust)
  then show ?thesis by (simp add: storeGoalRuntimeSnapshot_def)
qed

lemma store_closed:
  assumes wf: "snapshots_wf db" and may: "may_store p n t db"
  shows "storeGoalRuntimeSnapshot p n t db = (case snapshot_of db (pj_goalId p) of
      None \<Rightarrow> Inr (put_snapshot (rowValues p n t) db,
        \<lparr>gs_projection = p, gs_lastEventSequence = n, gs_updatedAt = t\<rparr>)
    | Some old \<Rightarrow>
        if n < gs_lastEventSequence old then Inl Se_stale_sequence
        else if n = gs_lastEventSequence old then
          (if gs_projection old = p then Inr (db, old) else Inl Se_sequence_conflict)
        else Inr (put_snapshot (rowValues p n t) db,
          \<lparr>gs_projection = p, gs_lastEventSequence = n, gs_updatedAt = t\<rparr>))"
proof -
  have norm: "normalizeProjection (raw_of_projection p) Se_invalid_projection = Inr p"
    using may by (simp add: normalizeProjection_raw may_store_def)
  have checked: "check_that (cursor_ok n \<and> requiredIso t
      \<and> snapshot_validateStoredScope p n db) Se_invalid_projection = Inr ()"
    using may by (simp add: may_store_def)
  have ok: "snapshot_row_check (rowValues p n t)"
      "read_snapshot_row (rowValues p n t)
         = Inr \<lparr>gs_projection = p, gs_lastEventSequence = n, gs_updatedAt = t\<rparr>"
    using may row_check_storable by (simp_all add: may_store_def)
  have writes: "store_and_read (rowValues p n t) (find_snapshot db (pj_goalId p) \<noteq> None) db
      = Inr (put_snapshot (rowValues p n t) db,
          \<lparr>gs_projection = p, gs_lastEventSequence = n, gs_updatedAt = t\<rparr>)"
    using ok find_put_snapshot [of "rowValues p n t" db "pj_goalId p"]
    by (simp add: store_and_read_def Let_def put_snapshot_def)
  show ?thesis
  proof (cases "find_snapshot db (pj_goalId p)")
    case None
    then show ?thesis
      using writes by (simp add: storeGoalRuntimeSnapshot_def norm checked Let_def snapshot_of_def)
  next
    case (Some s)
    then obtain rec where "read_snapshot_row s = Inr rec" "snapshot_of db (pj_goalId p) = Some rec"
      by (rule snapshot_of_row [OF wf])
    then show ?thesis
      using writes Some by (simp add: storeGoalRuntimeSnapshot_def norm checked Let_def)
  qed
qed

lemma store_cases:
  assumes "snapshots_wf db" "storeGoalRuntimeSnapshot p n t db = Inr (db', rec)"
  obtains (kept) "may_store p n t db" "db' = db" "snapshot_of db (pj_goalId p) = Some rec"
      "gs_projection rec = p" "gs_lastEventSequence rec = n"
  | (written) "may_store p n t db" "db' = put_snapshot (rowValues p n t) db"
      "rec = \<lparr>gs_projection = p, gs_lastEventSequence = n, gs_updatedAt = t\<rparr>"
      "\<And>old. snapshot_of db (pj_goalId p) = Some old \<Longrightarrow> gs_lastEventSequence old < n"
proof -
  have may: "may_store p n t db" using assms(2) store_refused by fastforce
  note closed = assms(2) [unfolded store_closed [OF assms(1) may]]
  show thesis
  proof (cases "snapshot_of db (pj_goalId p)")
    case None
    then show thesis using closed written [OF may] by simp
  next
    case (Some old)
    then show thesis
      using closed kept [OF may] written [OF may] by (auto split: if_splits)
  qed
qed

lemma put_snapshot_wf:
  assumes "snapshots_wf db" "log_wf db" "may_store p n t db"
  shows "snapshots_wf (put_snapshot (rowValues p n t) db)"
proof -
  let ?row = "rowValues p n t"
  have mem: "set (rd_snapshots (put_snapshot ?row db)) \<subseteq> insert ?row (set (rd_snapshots db))"
    by (auto simp: put_snapshot_def write_snapshot_def set_row_update)
  have dist: "distinct (map sr_goal_id (rd_snapshots (put_snapshot ?row db)))"
  proof (cases "find_snapshot db (pj_goalId p)")
    case None
    then show ?thesis using assms(1)
      by (auto simp: put_snapshot_def write_snapshot_def snapshots_wf_def find_snapshot_def row_get_None_iff)
  next
    case (Some s)
    have "map sr_goal_id (row_update (\<lambda>s. sr_goal_id s = pj_goalId p) (\<lambda>_. ?row) (rd_snapshots db))
        = map sr_goal_id (rd_snapshots db)"
      by (rule map_row_update) simp
    then show ?thesis using assms(1) Some
      by (simp add: put_snapshot_def write_snapshot_def snapshots_wf_def)
  qed
  have n: "n \<le> rd_sequence db"
  proof (cases "0 < n")
    case True
    then obtain r where "r \<in> set (rd_events db)" "vr_sequence r = n"
      using assms(3) by (auto simp: may_store_def snapshot_validateStoredScope_def
        split: option.splits if_splits)
    then show ?thesis using log_wf_row(1) [OF assms(2)] by auto
  qed (use assms(2) in \<open>simp add: log_wf_def\<close>)
  have "\<exists>g \<in> set (db_goals (rd_goals db)). gr_id g = pj_goalId p \<and> gr_workspace_id g = pj_workspaceId p"
    using assms(3) selectById_SomeD
    by (fastforce simp: may_store_def snapshot_validateStoredScope_def split: option.splits if_splits)
  then have row: "snapshot_row_check ?row" "\<exists>rec. read_snapshot_row ?row = Inr rec"
      "snapshot_in_scope db ?row"
    using assms(3) n row_check_storable by (simp_all add: may_store_def snapshot_in_scope_def)
  have scope: "snapshot_in_scope (put_snapshot ?row db) s \<longleftrightarrow> snapshot_in_scope db s" for s
    by (simp add: snapshot_in_scope_def)
  show ?thesis unfolding snapshots_wf_def scope
    using dist mem row assms(1) unfolding snapshots_wf_def by blast
qed

section \<open>The runtime store as a machine\<close>

text \<open>
  An operation of the goal repository, an append, a reconciliation append or a snapshot. Every process
  has its own configuration of the retention, so an append carries the options of its constructor.
\<close>

datatype runtime_op =
  Rop_goal goal_op
| Rop_append "int option" "int option" nat goal_runtime_event iso
| Rop_reconcile "int option" "int option" nat append_reconciliation_request
| Rop_snapshot goal_runtime_projection int iso

fun runtime_step :: "runtime_db \<Rightarrow> runtime_op \<Rightarrow> runtime_db" where
  "runtime_step db (Rop_goal op) = db\<lparr>rd_goals := goal_step (rd_goals db) op\<rparr>"
| "runtime_step db (Rop_append maxEvents slack gap event t) = (case new_event_store maxEvents slack of
     Inl _ \<Rightarrow> db | Inr cfg \<Rightarrow> fst (appendGoalRuntimeEvent cfg gap event t db))"
| "runtime_step db (Rop_reconcile maxEvents slack gap q) = (case new_event_store maxEvents slack of
     Inl _ \<Rightarrow> db | Inr cfg \<Rightarrow> commit db (appendGoalRuntimeReconciliationEvent cfg gap q db))"
| "runtime_step db (Rop_snapshot p n t) = commit db (storeGoalRuntimeSnapshot p n t db)"

definition runtime_wf :: "runtime_db \<Rightarrow> bool" where
  "runtime_wf db \<longleftrightarrow> wf_goals (rd_goals db) \<and> log_wf db \<and> snapshots_wf db"

text \<open>A snapshot only changes when its cursor advances.\<close>

definition snapshots_extend :: "runtime_db \<Rightarrow> runtime_db \<Rightarrow> bool" where
  "snapshots_extend db db' \<longleftrightarrow> (\<forall>i rec. snapshot_of db i = Some rec \<longrightarrow> (\<exists>rec'. snapshot_of db' i = Some rec'
     \<and> (rec' = rec \<or> gs_lastEventSequence rec < gs_lastEventSequence rec')))"

definition runtime_moves :: "runtime_db \<Rightarrow> runtime_db \<Rightarrow> bool" where
  "runtime_moves db db' \<longleftrightarrow> (runtime_wf db \<longrightarrow> runtime_wf db' \<and> log_moves db db'
     \<and> snapshots_extend db db' \<and> goals_extend (rd_goals db) (rd_goals db'))"

lemma snapshots_extend_same: "rd_snapshots db' = rd_snapshots db \<Longrightarrow> snapshots_extend db db'"
  by (simp add: snapshots_extend_def snapshot_of_def find_snapshot_def)

lemma snapshots_extend_trans: "snapshots_extend a b \<Longrightarrow> snapshots_extend b c \<Longrightarrow> snapshots_extend a c"
  unfolding snapshots_extend_def
proof (intro allI impI)
  fix i rec
  assume ab: "\<forall>i rec. snapshot_of a i = Some rec \<longrightarrow> (\<exists>rec'. snapshot_of b i = Some rec'
      \<and> (rec' = rec \<or> gs_lastEventSequence rec < gs_lastEventSequence rec'))"
    and bc: "\<forall>i rec. snapshot_of b i = Some rec \<longrightarrow> (\<exists>rec'. snapshot_of c i = Some rec'
      \<and> (rec' = rec \<or> gs_lastEventSequence rec < gs_lastEventSequence rec'))"
    and r: "snapshot_of a i = Some rec"
  obtain r1 where r1: "snapshot_of b i = Some r1"
      "r1 = rec \<or> gs_lastEventSequence rec < gs_lastEventSequence r1" using ab r by blast
  obtain r2 where "snapshot_of c i = Some r2"
      "r2 = r1 \<or> gs_lastEventSequence r1 < gs_lastEventSequence r2" using bc r1(1) by blast
  then show "\<exists>rec'. snapshot_of c i = Some rec'
      \<and> (rec' = rec \<or> gs_lastEventSequence rec < gs_lastEventSequence rec')"
    using r1(2) by auto
qed

lemma runtime_moves_refl: "runtime_moves db db"
  by (simp add: runtime_moves_def log_moves_refl snapshots_extend_same goals_extend_refl)

lemma runtime_moves_trans: "runtime_moves a b \<Longrightarrow> runtime_moves b c \<Longrightarrow> runtime_moves a c"
  unfolding runtime_moves_def
  by (meson goals_extend_trans log_moves_trans runtime_wf_def snapshots_extend_trans)

lemma snapshots_wf_same:
  assumes "snapshots_wf db" "rd_snapshots db' = rd_snapshots db" "rd_sequence db \<le> rd_sequence db'"
    "goals_extend (rd_goals db) (rd_goals db')"
  shows "snapshots_wf db'"
proof -
  have "\<exists>g' \<in> set (db_goals (rd_goals db')). gr_id g' = gr_id g \<and> gr_workspace_id g' = gr_workspace_id g"
    if "g \<in> set (db_goals (rd_goals db))" for g
    using assms(4) that by (fastforce simp: goals_extend_def row_extends_def same_identity_def)
  then have "snapshot_in_scope db' s" if "snapshot_in_scope db s" for s
    using that assms(3) unfolding snapshot_in_scope_def by (metis order_trans)
  then show ?thesis using assms(1,2) by (auto simp: snapshots_wf_def)
qed

lemma log_wf_goals:
  assumes "log_wf db" "goals_extend (rd_goals db) gs"
  shows "log_wf (db\<lparr>rd_goals := gs\<rparr>)"
proof -
  have "in_goal_scope (db_goals gs) r" if "in_goal_scope (db_goals (rd_goals db)) r" for r
    using that assms(2)
    by (fastforce simp: in_goal_scope_def goals_extend_def row_extends_def same_identity_def)
  then show ?thesis using assms(1) by (simp add: log_wf_def)
qed

lemma log_change:
  assumes "runtime_wf db" "log_wf db'" "log_moves db db'" "rd_goals db' = rd_goals db"
    "rd_snapshots db' = rd_snapshots db"
  shows "runtime_moves db db'"
  using assms snapshots_wf_same [of db db'] goals_extend_refl
  by (auto simp: runtime_moves_def runtime_wf_def log_moves_def snapshots_extend_same)

lemma snapshot_change:
  assumes "runtime_wf db" "storeGoalRuntimeSnapshot p n t db = Inr (db', rec)"
  shows "runtime_moves db db'"
proof -
  have wf: "snapshots_wf db" "log_wf db" "wf_goals (rd_goals db)"
    using assms(1) by (simp_all add: runtime_wf_def)
  from wf(1) assms(2) show ?thesis
  proof (cases rule: store_cases)
    case kept
    then show ?thesis by (simp add: runtime_moves_refl)
  next
    case written
    then have stored: "storable p" "cursor_ok n" "requiredIso t" by (simp_all add: may_store_def)
    have "snapshots_extend db db'"
      unfolding written(2) snapshots_extend_def snapshot_of_put [OF stored] using written(4) by auto
    moreover have "log_wf db'" unfolding written(2)
      by (rule log_wf_filter [OF wf(2), of _ "\<lambda>_. True"]) simp_all
    ultimately show ?thesis
      using written(1,2) wf put_snapshot_wf [OF wf(1,2)]
      by (simp add: runtime_moves_def runtime_wf_def log_moves_same goals_extend_refl)
  qed
qed

lemma runtime_step_moves: "runtime_moves db (runtime_step db op)"
proof (cases "runtime_wf db")
  case False
  then show ?thesis by (simp add: runtime_moves_def)
next
  case True
  then have wf: "snapshots_wf db" "log_wf db" "wf_goals (rd_goals db)"
    by (simp_all add: runtime_wf_def)
  show ?thesis
  proof (cases op)
    case (Rop_goal g)
    have ext: "goals_extend (rd_goals db) (goal_step (rd_goals db) g)"
      by (rule goal_store.step_rel [OF wf(3)])
    then have "runtime_wf (runtime_step db op)"
      using Rop_goal wf log_wf_goals goal_store.step_inv snapshots_wf_same [OF wf(1)]
      by (simp add: runtime_wf_def)
    then show ?thesis
      using ext Rop_goal by (simp add: runtime_moves_def log_moves_same snapshots_extend_same)
  next
    case (Rop_append m k gap event t)
    show ?thesis
    proof (cases "new_event_store m k")
      case (Inr cfg)
      obtain db' res where app: "appendGoalRuntimeEvent cfg gap event t db = (db', res)" by fastforce
      then show ?thesis
        using append_event_step [OF wf(2) new_event_store_ok [OF Inr] app] log_change [OF True]
          Rop_append Inr by simp
    qed (simp add: Rop_append runtime_moves_refl)
  next
    case (Rop_reconcile m k gap q)
    show ?thesis
    proof (cases "new_event_store m k")
      case (Inr cfg)
      have "runtime_moves db db'" if "appendGoalRuntimeReconciliationEvent cfg gap q db = Inr (db', res)"
        for db' res
        using append_reconciliation_step [OF wf(2) new_event_store_ok [OF Inr] that] log_change [OF True]
        by simp
      then show ?thesis using Rop_reconcile Inr by (auto intro: commit_cases runtime_moves_refl)
    qed (simp add: Rop_reconcile runtime_moves_refl)
  next
    case (Rop_snapshot p n t)
    then show ?thesis
      using snapshot_change [OF True] by (auto intro: commit_cases runtime_moves_refl)
  qed
qed

interpretation runtime_store: progress_machine runtime_step runtime_wf runtime_moves
proof unfold_locales
  show "runtime_wf db \<Longrightarrow> runtime_wf (runtime_step db op)" for db op
    using runtime_step_moves by (simp add: runtime_moves_def)
qed (rule runtime_moves_refl, blast intro: runtime_moves_trans, rule runtime_step_moves)

abbreviation run_runtime :: "runtime_db \<Rightarrow> runtime_op list \<Rightarrow> runtime_db" where
  "run_runtime \<equiv> run_ops runtime_step"

text \<open>Concrete runs are unfolded to their operations before they are evaluated.\<close>

lemmas runtime_step_eval = run_ops_Nil run_ops_Cons runtime_step.simps

end
