(* ===== verification/Runtime_Projection_Limits.thy ===== *)
theory Runtime_Projection_Limits
  imports Runtime_Snapshot_Safety
begin

text \<open>
  The limits of the event log and those of the snapshots fit: what the projector makes of a storable
  projection and an event the log accepted is storable again. The one exception is the identifier of
  an execution, whose length the log measures after trimming and the snapshot before.
\<close>

section \<open>The limits of an accepted event\<close>

definition base_limits :: "goal_runtime_event_base \<Rightarrow> bool" where
  "base_limits b \<longleftrightarrow> requiredIso (ev_occurredAt b) \<and> optionalText (ev_detail b)"

definition execution_limits :: "execution_scoped_event \<Rightarrow> bool" where
  "execution_limits x \<longleftrightarrow> requiredIdentifier (xe_executionId x)
     \<and> snapshot_positiveInteger (xe_executionGeneration x) \<and> optionalText (xe_phase x)"

text \<open>What the snapshot asks of an event beyond what the log checked.\<close>

fun fits_snapshot :: "goal_runtime_event \<Rightarrow> bool" where
  "fits_snapshot (GoalScoped _ _) \<longleftrightarrow> True"
| "fits_snapshot (ExecutionScoped _ x) \<longleftrightarrow> length (xe_executionId x) \<le> SNAPSHOT_MAX_ID_CHARS
     \<and> xe_executionGeneration x \<le> max_safe_integer"

lemma bounded_text: "optionalBounded v n \<Longrightarrow> n \<le> SNAPSHOT_MAX_TEXT_CHARS \<Longrightarrow> optionalText v"
  by (auto simp: optionalBounded_def optionalText_def split: option.splits)

lemma validateEvent_limits:
  assumes "validateEvent event = Inr ()" "fits_snapshot event"
  shows "base_limits (event_base event)"
    "event = ExecutionScoped b x \<Longrightarrow> execution_limits x"
proof -
  note v = assms(1) [unfolded validateEvent_def Let_def]
  show "base_limits (event_base event)"
    using v bounded_text [of "ev_detail (event_base event)" EVENT_MAX_DETAIL_CHARS]
    by (auto simp: base_limits_def requiredIso_def bind_ok_Inr_iff EVENT_MAX_DETAIL_CHARS_def
        SNAPSHOT_MAX_TEXT_CHARS_def split: if_splits)
  assume e: "event = ExecutionScoped b x"
  have x: "event_identifier (xe_executionId x)" "0 < xe_executionGeneration x"
      "optionalBounded (xe_phase x) EVENT_MAX_ID_CHARS"
    using v unfolding e by (auto simp: bind_ok_Inr_iff split: if_splits)
  show "execution_limits x"
    using x assms(2) bounded_text [OF x(3)] unfolding e
    by (simp add: execution_limits_def requiredIdentifier_def event_identifier_def
        snapshot_positiveInteger_def EVENT_MAX_ID_CHARS_def SNAPSHOT_MAX_TEXT_CHARS_def)
qed

section \<open>The helpers of the projector\<close>

lemma fields_storable_states [simp]:
  "fields_storable (p\<lparr>pj_lifecycleState := l\<rparr>) = fields_storable p"
  "fields_storable (p\<lparr>pj_runtimeState := r\<rparr>) = fields_storable p"
  "fields_storable (p\<lparr>pj_desiredRuntimeState := d\<rparr>) = fields_storable p"
  "fields_storable (p\<lparr>pj_integrationState := i\<rparr>) = fields_storable p"
  "fields_storable (p\<lparr>pj_workspaceState := w\<rparr>) = fields_storable p"
  by (simp_all add: fields_storable_def)

lemma fields_storable_blocker:
  "fields_storable p \<Longrightarrow> optional_ok blocker_storable b \<Longrightarrow> fields_storable (p\<lparr>pj_blocker := b\<rparr>)"
  by (simp add: fields_storable_def)

lemma optional_ok_simps [simp]: "optional_ok P None" "optional_ok P (Some x) = P x"
  by (simp_all add: optional_ok_def)

lemma blocker_storable_simp [simp]:
  "blocker_storable \<lparr>bl_kind = k, bl_detail = d, bl_observedAt = t\<rparr>
     \<longleftrightarrow> optionalText d \<and> optional_ok requiredIso t"
  by (simp add: blocker_storable_def)

lemma optionalText_None [simp]: "optionalText None"
  by (simp add: optionalText_def)

lemma withLastActivity_storable [intro]:
  "fields_storable p \<Longrightarrow> requiredIso t \<Longrightarrow> fields_storable (withLastActivity p t)"
  by (simp add: withLastActivity_def fields_storable_def)

lemma clearBlocker_storable [intro]: "fields_storable p \<Longrightarrow> fields_storable (clearBlocker p k)"
  by (auto simp: clearBlocker_def intro: fields_storable_blocker split: option.splits)

lemma mergeProgress_storable:
  assumes "optional_ok normalizeProgress (pj_progress p)" "optionalText phase" "optionalText detail"
  shows "normalizeProgress (mergeProgress p phase detail)"
proof -
  have "normalizeProgress empty_progress" by (simp add: normalizeProgress_def empty_progress_def)
  then show ?thesis
    using assms by (cases "pj_progress p"; cases phase; cases detail)
      (auto simp: mergeProgress_def normalizeProgress_def)
qed

lemma progress_storable:
  assumes "fields_storable p"
  shows "normalizeProgress g \<Longrightarrow> fields_storable (p\<lparr>pj_progress := Some g\<rparr>)"
    "optionalText phase \<Longrightarrow> fields_storable (p\<lparr>pj_phase := phase\<rparr>)"
  using assms by (simp_all add: fields_storable_def)

lemma goal_event_storable:
  assumes "fields_storable p" "base_limits b"
  shows "fields_storable (applyGoalScopedEvent p b g)"
proof -
  have t: "requiredIso (ev_occurredAt b)" "optionalText (ev_detail b)"
    using assms(2) by (simp_all add: base_limits_def)
  show ?thesis
    using assms(1) t
    by (cases g)
      (auto simp: applyWorkspaceObservation_def applyIntegrationObservation_def
        applyGoalBlockerObservation_def Let_def intro!: withLastActivity_storable clearBlocker_storable fields_storable_blocker
        split: option.splits)
qed

lemma execution_event_storable:
  assumes step: "applyExecutionScopedEvent p b x = Some q"
    and p: "fields_storable p" and b: "base_limits b" and x: "execution_limits x"
  shows "fields_storable q"
proof -
  have t: "requiredIso (ev_occurredAt b)" "optionalText (ev_detail b)"
      "requiredIdentifier (xe_executionId x)" "snapshot_positiveInteger (xe_executionGeneration x)"
      "optionalText (xe_phase x)" "optionalText (pj_phase p)"
    using b x p by (simp_all add: base_limits_def execution_limits_def fields_storable_def)
  have g: "optional_ok normalizeProgress (pj_progress p)" using p by (simp add: fields_storable_def)
  note progress = mergeProgress_storable [OF g t(6) t(2)] mergeProgress_storable [OF g t(5) t(2)]
  have submitted: "fields_storable ((resetExecutionLocalObservations p)
      \<lparr>pj_activeExecutionId := Some (xe_executionId x),
       pj_executionGeneration := Some (xe_executionGeneration x),
       pj_runtimeState := Rt_queued, pj_desiredRuntimeState := Ds_running\<rparr>)"
    using p t by (simp add: resetExecutionLocalObservations_def fields_storable_def)
  have heartbeat: "fields_storable ((withLastActivity p (ev_occurredAt b))
      \<lparr>pj_lastHeartbeatAt := Some (ev_occurredAt b)\<rparr>)"
    using p t by (simp add: withLastActivity_def fields_storable_def)
  have ended: "fields_storable (clearActiveExecution r)" if "fields_storable r" for r
    using that by (simp add: clearActiveExecution_def fields_storable_def)
  show ?thesis
    using step p t progress submitted heartbeat
    by (cases "xe_type x")
      (auto simp: applyExecutionScopedEvent_def Let_def execution_blocker_def
        intro!: withLastActivity_storable clearBlocker_storable fields_storable_blocker ended
          progress_storable split: if_splits)
qed

lemma project_storable:
  assumes "storable p" "validateEvent event = Inr ()" "fits_snapshot event"
  shows "storable (project p event)"
proof -
  have "fields_storable (project p event)"
  proof (cases rule: project_cases [of p event])
    case refused
    then show ?thesis using assms(1) by (simp add: storable_def)
  next
    case (goal_event b g)
    then show ?thesis
      using assms(1) validateEvent_limits(1) [OF assms(2,3)]
      by (simp add: storable_def goal_event_storable)
  next
    case (execution_event b x)
    then show ?thesis
      using assms(1) validateEvent_limits [OF assms(2,3)] execution_event_storable [OF execution_event(3)]
      by (simp add: storable_def)
  qed
  then show ?thesis using assms(1) project_inv by (simp add: storable_def)
qed

end
