(* ===== verification/Runtime_Control_Plane.thy ===== *)
theory Runtime_Control_Plane
  imports Runtime_Projection_Limits
begin

text \<open>
  The writer of goal runtime truth (packages/application/src/goal-runtime-control-plane-service.ts,
  class \<open>GoalRuntimeControlPlaneService\<close>, without the workspace admission): per goal it makes a
  snapshot from durable truth, appends an event after a preview, and folds every event the snapshot
  has not seen. An operation runs under the lock of its goal, so within one process it is one step; it
  is not a transaction, so an error keeps what was written before it.
\<close>

section \<open>Text\<close>

fun nat_text :: "nat \<Rightarrow> string" where
  "nat_text n = (if n < 10 then [char_of (48 + n)] else nat_text (n div 10) @ [char_of (48 + n mod 10)])"

declare nat_text.simps [simp del]

definition int_text :: "int \<Rightarrow> string" where
  "int_text i = (if i < 0 then ''-'' @ nat_text (nat (- i)) else nat_text (nat i))"

fun join_with :: "string \<Rightarrow> string list \<Rightarrow> string" where
  "join_with sep [] = []"
| "join_with sep [s] = s"
| "join_with sep (s # ss) = s @ sep @ join_with sep ss"

definition js_trim_end :: "string \<Rightarrow> string" where
  "js_trim_end s = rev (dropWhile js_space (rev s))"

section \<open>The surroundings of the service\<close>

datatype control_error =
  Ce_goal_not_found | Ce_replay_window_missed | Ce_projection_rejected
| Ce_event event_store_error | Ce_snapshot snapshot_store_error | Ce_goal goal_error

text \<open>
  The configuration of the log, the numbers the database skips, the clocks, SHA-256 as a hexadecimal
  digest, and the probes of a workspace: a probe is absent, throws (\<open>None\<close>) or observes. The bullet
  and the ellipsis of a blocker text lie outside the code units of the model, so they are arguments.
\<close>

record control_env =
  ce_config :: event_store_config
  ce_gap :: "int \<Rightarrow> nat"
  ce_now :: iso
  ce_recordedAt :: "int \<Rightarrow> iso"
  ce_sha256 :: "string \<Rightarrow> string"
  ce_readWorkspace :: "(string \<Rightarrow> (goal_workspace_state \<times> string option) option) option"
  ce_readIntegration :: "(string \<Rightarrow> (observed_integration_state \<times> string option) option) option"
  ce_bullet :: char
  ce_ellipsis :: char

type_synonym 'a outcome = "runtime_db \<times> (control_error + 'a)"

definition and_then ::
  "'a outcome \<Rightarrow> ('a \<Rightarrow> runtime_db \<Rightarrow> 'b outcome) \<Rightarrow> 'b outcome" where
  "and_then r k = (case snd r of Inl e \<Rightarrow> (fst r, Inl e) | Inr a \<Rightarrow> k a (fst r))"

text \<open>A read that may throw, on a store it does not change.\<close>

definition reading :: "('e \<Rightarrow> control_error) \<Rightarrow> 'e + 'a \<Rightarrow> runtime_db \<Rightarrow> 'a outcome" where
  "reading f r db = (db, case r of Inl e \<Rightarrow> Inl (f e) | Inr a \<Rightarrow> Inr a)"

definition store_snapshot ::
  "goal_runtime_projection \<Rightarrow> int \<Rightarrow> iso \<Rightarrow> runtime_db \<Rightarrow> snapshot_record outcome" where
  "store_snapshot p n t db = (case storeGoalRuntimeSnapshot p n t db of
     Inl e \<Rightarrow> (db, Inl (Ce_snapshot e)) | Inr (db', rec) \<Rightarrow> (db', Inr rec))"

definition goal_by_id :: "string \<Rightarrow> runtime_db \<Rightarrow> goal_record outcome" where
  "goal_by_id goalId db = (case selectById (rd_goals db) goalId of
     None \<Rightarrow> (db, Inl Ce_goal_not_found)
   | Some row \<Rightarrow> reading Ce_goal (toGoalRecord (rd_goals db) row) db)"

definition EVENT_REPLAY_PAGE_SIZE :: int where "EVENT_REPLAY_PAGE_SIZE = 500"
definition MAX_DURABLE_GOAL_BLOCKER_DETAIL :: nat where "MAX_DURABLE_GOAL_BLOCKER_DETAIL = 2000"

section \<open>A projection from the durable goal\<close>

definition exact_execution :: "goal_record \<Rightarrow> string option" where
  "exact_execution goal =
     (if g_status goal = Gs_active \<and> g_executionId goal \<noteq> None
        \<and> g_executionGeneration goal = Some (g_leaseGeneration goal)
      then g_executionId goal else None)"

definition durable_base :: "goal_record \<Rightarrow> goal_runtime_projection" where
  "durable_base goal = \<lparr>pj_goalId = g_id goal, pj_workspaceId = g_workspaceId goal,
     pj_lifecycleState = Lc_open, pj_runtimeState = Rt_idle, pj_desiredRuntimeState = Ds_idle,
     pj_integrationState = In_unknown, pj_workspaceState = Wk_unknown, pj_activeExecutionId = None,
     pj_executionGeneration = g_executionGeneration goal, pj_phase = None, pj_progress = None,
     pj_lastActivityAt = g_updatedAt goal, pj_lastHeartbeatAt = None, pj_blocker = None\<rparr>"

definition projectionFromDurableGoal :: "goal_record \<Rightarrow> goal_runtime_projection" where
  "projectionFromDurableGoal goal =
     (let base = durable_base goal; execution = exact_execution goal
      in case g_status goal of
        Gs_active \<Rightarrow> base\<lparr>pj_lifecycleState := Lc_open,
          pj_runtimeState := (if execution \<noteq> None then Rt_queued else Rt_idle),
          pj_desiredRuntimeState := (if execution \<noteq> None then Ds_running else Ds_idle),
          pj_activeExecutionId := execution\<rparr>
      | Gs_completed \<Rightarrow> base\<lparr>pj_lifecycleState := Lc_completed, pj_runtimeState := Rt_idle,
          pj_desiredRuntimeState := Ds_idle\<rparr>
      | Gs_failed \<Rightarrow> base\<lparr>pj_lifecycleState := Lc_completed, pj_runtimeState := Rt_failed,
          pj_desiredRuntimeState := Ds_idle\<rparr>
      | Gs_blocked \<Rightarrow> base\<lparr>pj_lifecycleState := Lc_completed, pj_runtimeState := Rt_failed,
          pj_desiredRuntimeState := Ds_idle,
          pj_blocker := Some \<lparr>bl_kind = Bk_unknown,
            bl_detail = Some ''legacy terminal Goal status is blocked'',
            bl_observedAt = Some (g_updatedAt goal)\<rparr>\<rparr>
      | Gs_cancelled \<Rightarrow> base\<lparr>pj_lifecycleState := Lc_abandoned, pj_runtimeState := Rt_cancelled,
          pj_desiredRuntimeState := Ds_cancelled\<rparr>)"

section \<open>Catching up\<close>

text \<open>
  The two loops over events. A decision other than a rejection carries the projection of the
  projector, which is the old one when the event is ignored.
\<close>

fun replay_own ::
  "goal_runtime_projection \<Rightarrow> int \<Rightarrow> iso \<Rightarrow> goal_runtime_event_record list
     \<Rightarrow> control_error + goal_runtime_projection \<times> int \<times> iso" where
  "replay_own p n t [] = Inr (p, n, t)"
| "replay_own p n t (r # rs) = (case projectGoalRuntimeEvent p (rr_event r) of
     (Reject _, _) \<Rightarrow> Inl Ce_projection_rejected
   | (_, q) \<Rightarrow> replay_own q (rr_sequence r) (rr_recordedAt r) rs)"

fun replay_page ::
  "goal_runtime_projection \<Rightarrow> int \<Rightarrow> goal_runtime_event_record list
     \<Rightarrow> control_error + goal_runtime_projection \<times> int" where
  "replay_page p n [] = Inr (p, n)"
| "replay_page p n (r # rs) =
     (if ev_goalId (event_base (rr_event r)) \<noteq> pj_goalId p then replay_page p n rs
      else case projectGoalRuntimeEvent p (rr_event r) of
        (Reject _, _) \<Rightarrow> Inl Ce_projection_rejected
      | (_, q) \<Rightarrow> replay_page q (rr_sequence r) rs)"

definition fold_tolerant ::
  "goal_runtime_projection \<Rightarrow> goal_runtime_event_record list \<Rightarrow> goal_runtime_projection" where
  "fold_tolerant = foldl (\<lambda>p r. case projectGoalRuntimeEvent p (rr_event r) of
     (Reject _, _) \<Rightarrow> p | (_, q) \<Rightarrow> q)"

definition recoverAfterReplayWindowMissUnlocked ::
  "snapshot_record \<Rightarrow> runtime_db \<Rightarrow> snapshot_record outcome" where
  "recoverAfterReplayWindowMissUnlocked initial db =
     and_then (reading Ce_event (listGoalRuntimeEvents (pj_goalId (gs_projection initial))
       EVENT_REPLAY_PAGE_SIZE db) db) (\<lambda>retained db.
       case filter (\<lambda>r. rr_sequence r > gs_lastEventSequence initial) retained of
         [] \<Rightarrow> (db, Inr initial)
       | _ # _ \<Rightarrow> and_then (goal_by_id (pj_goalId (gs_projection initial)) db) (\<lambda>goal db.
           store_snapshot (fold_tolerant (projectionFromDurableGoal goal) (rev retained))
             (rr_sequence (hd retained)) (rr_recordedAt (hd retained)) db))"

definition catchUpFromZero :: "snapshot_record \<Rightarrow> runtime_db \<Rightarrow> snapshot_record outcome" where
  "catchUpFromZero initial db =
     and_then (reading Ce_event (listGoalRuntimeEvents (pj_goalId (gs_projection initial))
       EVENT_REPLAY_PAGE_SIZE db) db) (\<lambda>own db.
       if own = [] then (db, Inr initial)
       else if int (length own) = EVENT_REPLAY_PAGE_SIZE then (db, Inl Ce_replay_window_missed)
       else case replay_own (gs_projection initial) 0 (gs_updatedAt initial) (rev own) of
         Inl e \<Rightarrow> (db, Inl e)
       | Inr (p, n, t) \<Rightarrow> store_snapshot p n t db)"

text \<open>What storing does to the log: nothing. It makes the paging loop terminate.\<close>

lemma store_snapshot_events [simp]: "rd_events (fst (store_snapshot p n t db)) = rd_events db"
proof (cases "storeGoalRuntimeSnapshot p n t db")
  case (Inr r)
  have "rd_events db' = rd_events db" if "storeGoalRuntimeSnapshot p n t db = Inr (db', rec)" for db' rec
    using that by (auto simp: storeGoalRuntimeSnapshot_def store_and_read_def write_snapshot_def Let_def
        bind_ok_Inr_iff split: option.splits if_splits)
  then show ?thesis using Inr by (cases r) (simp add: store_snapshot_def)
qed (simp add: store_snapshot_def)

lemma read_event_row_sequence: "read_event_row row = Inr rec \<Longrightarrow> rr_sequence rec = vr_sequence row"
  unfolding read_event_row_iff by (metis event_row_fields(1))

lemma page_last_after_cursor:
  assumes "replayWorkspaceGoalRuntimeEvents w (Some n) k db = Inr page" "rp_events page \<noteq> []"
  shows "\<exists>r \<in> set (rd_events db). vr_sequence r = rr_sequence (last (rp_events page)) \<and> n < vr_sequence r"
proof -
  obtain m where "map_ok read_event_row (take m (filter (after_cursor (Some n))
      (events_of_workspace db w))) = Inr (rp_events page)"
    using assms(1) by (auto simp: replayWorkspaceGoalRuntimeEvents_def Let_def bind_ok_Inr_iff
        check_after_def split: if_splits)
  then have "list_all2 (\<lambda>x y. read_event_row x = Inr y)
      (take m (filter (after_cursor (Some n)) (events_of_workspace db w))) (rp_events page)"
    by (simp add: map_ok_Inr_iff)
  from list_all2_rightD [OF this last_in_set [OF assms(2)]] obtain r where
      "r \<in> set (take m (filter (after_cursor (Some n)) (events_of_workspace db w)))"
      "read_event_row r = Inr (last (rp_events page))" by blast
  then show ?thesis
    using read_event_row_sequence
    by (fastforce dest: in_set_takeD simp: after_cursor_def events_of_workspace_def)
qed

function catchUpLoop :: "snapshot_record \<Rightarrow> int \<Rightarrow> runtime_db \<Rightarrow> snapshot_record outcome" where
  "catchUpLoop snapshot scanCursor db =
     (case replayWorkspaceGoalRuntimeEvents (pj_workspaceId (gs_projection snapshot))
         (Some scanCursor) EVENT_REPLAY_PAGE_SIZE db of
        Inl e \<Rightarrow> (db, Inl (Ce_event e))
      | Inr page \<Rightarrow>
          if rp_replayWindowMissed page then recoverAfterReplayWindowMissUnlocked snapshot db
          else if rp_events page = [] then (db, Inr snapshot)
          else case replay_page (gs_projection snapshot) (gs_lastEventSequence snapshot)
              (rp_events page) of
            Inl e \<Rightarrow> (db, Inl e)
          | Inr pn \<Rightarrow>
              (let stored = (if snd pn > gs_lastEventSequence snapshot
                     then store_snapshot (fst pn) (snd pn) (rr_recordedAt (last (rp_events page))) db
                     else (db, Inr snapshot));
                   cursor = rr_sequence (last (rp_events page))
               in case snd stored of
                    Inl e \<Rightarrow> (fst stored, Inl e)
                  | Inr snapshot' \<Rightarrow>
                      if (case rp_latestSequence page of None \<Rightarrow> True | Some n \<Rightarrow> cursor \<ge> n)
                      then (fst stored, Inr snapshot')
                      else catchUpLoop snapshot' cursor (fst stored)))"
  by pat_completeness auto

termination
proof (relation "measure (\<lambda>(s, c, db). length (filter (\<lambda>r. c < vr_sequence r) (rd_events db)))")
  fix snapshot :: snapshot_record and scanCursor :: int and db page pn stored cursor s'
  assume page: "replayWorkspaceGoalRuntimeEvents (pj_workspaceId (gs_projection snapshot))
      (Some scanCursor) EVENT_REPLAY_PAGE_SIZE db = Inr page" "rp_events page \<noteq> []"
    and stored: "stored = (if snd pn > gs_lastEventSequence snapshot
      then store_snapshot (fst pn) (snd pn) (rr_recordedAt (last (rp_events page))) db
      else (db, Inr snapshot))"
    and cursor: "cursor = rr_sequence (last (rp_events page))"
  obtain r where r: "r \<in> set (rd_events db)" "vr_sequence r = cursor" "scanCursor < cursor"
    using page_last_after_cursor [OF page] cursor by auto
  have same: "rd_events (fst stored) = rd_events db" by (simp add: stored)
  have "length (filter (\<lambda>r. cursor < vr_sequence r) (rd_events db))
      < length (filter (\<lambda>r. scanCursor < vr_sequence r) (rd_events db))"
  proof -
    have "filter (\<lambda>r. cursor < vr_sequence r) (rd_events db)
        = filter (\<lambda>r. cursor < vr_sequence r) (filter (\<lambda>r. scanCursor < vr_sequence r) (rd_events db))"
      using r(3) by (auto intro: filter_cong)
    moreover have "r \<in> set (filter (\<lambda>r. scanCursor < vr_sequence r) (rd_events db))"
        "\<not> cursor < vr_sequence r" using r by auto
    ultimately show ?thesis using length_filter_less [of r] by metis
  qed
  then show "((s', cursor, fst stored), snapshot, scanCursor, db)
      \<in> measure (\<lambda>(s, c, db). length (filter (\<lambda>r. c < vr_sequence r) (rd_events db)))"
    by (simp add: same)
qed simp

declare catchUpLoop.simps [simp del]

definition catchUpSnapshotUnlocked :: "snapshot_record \<Rightarrow> runtime_db \<Rightarrow> snapshot_record outcome" where
  "catchUpSnapshotUnlocked initial db =
     (if gs_lastEventSequence initial = 0 then catchUpFromZero initial db
      else catchUpLoop initial (gs_lastEventSequence initial) db)"

section \<open>Appending\<close>

definition appendAndReplayUnlocked ::
  "control_env \<Rightarrow> snapshot_record \<Rightarrow> goal_runtime_event \<Rightarrow> runtime_db \<Rightarrow> snapshot_record outcome" where
  "appendAndReplayUnlocked env snapshot event db =
     (case fst (projectGoalRuntimeEvent (gs_projection snapshot) event) of
        Reject _ \<Rightarrow> (db, Inl Ce_projection_rejected)
      | _ \<Rightarrow>
          (let appended = appendGoalRuntimeEvent (ce_config env) (ce_gap env (rd_sequence db)) event
                 (ce_recordedAt env (rd_sequence db)) db
           in case snd appended of
                Inl e \<Rightarrow> (fst appended, Inl (Ce_event e))
              | Inr r \<Rightarrow>
                  if rr_sequence (ar_record r) \<le> gs_lastEventSequence snapshot
                  then (fst appended, Inr snapshot)
                  else catchUpSnapshotUnlocked snapshot (fst appended)))"

text \<open>An observation must not fail its caller: on an error the old snapshot is returned.\<close>

definition best_effort :: "snapshot_record \<Rightarrow> snapshot_record outcome \<Rightarrow> snapshot_record outcome" where
  "best_effort snapshot r =
     (case snd r of Inl _ \<Rightarrow> (fst r, Inr snapshot) | Inr s \<Rightarrow> (fst r, Inr s))"

section \<open>Identifiers and texts of the service's own events\<close>

definition digest_id :: "control_env \<Rightarrow> string \<Rightarrow> string list \<Rightarrow> string" where
  "digest_id env start parts = start @ ce_sha256 env (join_with [NUL] parts)"

definition workspaceRuntimeEventId :: "control_env \<Rightarrow> string \<Rightarrow> goal_workspace_state \<Rightarrow> int \<Rightarrow> string" where
  "workspaceRuntimeEventId env goalId state sequence = digest_id env ''goal-runtime-workspace-''
     [goalId, ''workspace_observed'', workspace_state_name state, int_text sequence]"

definition integrationRuntimeEventId ::
  "control_env \<Rightarrow> string \<Rightarrow> observed_integration_state \<Rightarrow> int \<Rightarrow> string" where
  "integrationRuntimeEventId env goalId state sequence = digest_id env ''goal-runtime-integration-''
     [goalId, ''integration_observed'', observed_state_name state, int_text sequence]"

definition durableGoalBlockerRuntimeEventId ::
  "control_env \<Rightarrow> string \<Rightarrow> int \<Rightarrow> string \<Rightarrow> int \<Rightarrow> string" where
  "durableGoalBlockerRuntimeEventId env goalId revision state sequence =
     digest_id env ''goal-runtime-blocker-''
       [goalId, ''goal_blocker_observed'', int_text revision, state, int_text sequence]"

definition durableRuntimeEventId :: "control_env \<Rightarrow> string \<Rightarrow> string \<Rightarrow> string \<Rightarrow> string" where
  "durableRuntimeEventId env goalId type discriminator =
     digest_id env ''goal-runtime-reconcile-'' [goalId, type, discriminator]"

definition durableGoalBlockerDetail :: "control_env \<Rightarrow> goal_record \<Rightarrow> string option" where
  "durableGoalBlockerDetail env goal =
     (let blockers = filter (\<lambda>s. length s > 0) (map js_trim (g_blockers goal))
      in if blockers = [] then None
         else let start = ''Durable Goal blockers at revision '' @ int_text (g_revision goal) @ '': '';
                  joined = join_with ('' '' @ [ce_bullet env] @ '' '') blockers
              in if length start + length joined \<le> MAX_DURABLE_GOAL_BLOCKER_DETAIL
                 then Some (start @ joined)
                 else let available = MAX_DURABLE_GOAL_BLOCKER_DETAIL - length start - 1
                   in Some (start @ js_trim_end (take available joined) @ [ce_ellipsis env]))"

definition event_for ::
  "string \<Rightarrow> goal_runtime_projection \<Rightarrow> iso \<Rightarrow> string option \<Rightarrow> goal_runtime_event_base" where
  "event_for eventId p occurredAt detail = \<lparr>ev_eventId = eventId, ev_workspaceId = pj_workspaceId p,
     ev_goalId = pj_goalId p, ev_occurredAt = occurredAt, ev_detail = detail\<rparr>"

definition event_for_goal ::
  "string \<Rightarrow> goal_record \<Rightarrow> iso \<Rightarrow> string option \<Rightarrow> goal_runtime_event_base" where
  "event_for_goal eventId goal occurredAt detail = \<lparr>ev_eventId = eventId,
     ev_workspaceId = g_workspaceId goal, ev_goalId = g_id goal, ev_occurredAt = occurredAt,
     ev_detail = detail\<rparr>"

section \<open>The steps of an operation\<close>

definition ensureGoalSnapshotUnlocked :: "string \<Rightarrow> runtime_db \<Rightarrow> snapshot_record outcome" where
  "ensureGoalSnapshotUnlocked goalId db =
     and_then (reading Ce_snapshot (getGoalRuntimeSnapshot goalId db) db) (\<lambda>existing db.
       case existing of
         Some snapshot \<Rightarrow> (db, Inr snapshot)
       | None \<Rightarrow>
           and_then (goal_by_id goalId db) (\<lambda>goal db.
           and_then (reading Ce_event (listGoalRuntimeEvents goalId 1 db) db) (\<lambda>newest db.
             store_snapshot (projectionFromDurableGoal goal)
               (case newest of [] \<Rightarrow> 0 | r # _ \<Rightarrow> rr_sequence r) (g_updatedAt goal) db)))"

definition refreshWorkspaceTruthUnlocked ::
  "control_env \<Rightarrow> (goal_workspace_state \<times> string option) option \<Rightarrow> snapshot_record \<Rightarrow> runtime_db
     \<Rightarrow> snapshot_record outcome" where
  "refreshWorkspaceTruthUnlocked env observation snapshot db =
     (case observation of
        None \<Rightarrow> (db, Inr snapshot)
      | Some (state, detail) \<Rightarrow>
          if state = pj_workspaceState (gs_projection snapshot) then (db, Inr snapshot)
          else best_effort snapshot (appendAndReplayUnlocked env snapshot
            (GoalScoped (event_for (workspaceRuntimeEventId env (pj_goalId (gs_projection snapshot))
                 state (gs_lastEventSequence snapshot)) (gs_projection snapshot) (ce_now env) detail)
               (Ge_workspace_observed state)) db))"

definition readWorkspaceTruthBestEffort ::
  "control_env \<Rightarrow> string \<Rightarrow> (goal_workspace_state \<times> string option) option" where
  "readWorkspaceTruthBestEffort env workspaceId = (case ce_readWorkspace env of
     None \<Rightarrow> None
   | Some probe \<Rightarrow> (case probe workspaceId of
       None \<Rightarrow> Some (Wk_unavailable, Some ''workspace truth probe failed'')
     | Some observation \<Rightarrow> Some observation))"

definition readIntegrationTruthBestEffort ::
  "control_env \<Rightarrow> string \<Rightarrow> (observed_integration_state \<times> string option) option" where
  "readIntegrationTruthBestEffort env goalId = (case ce_readIntegration env of
     None \<Rightarrow> None
   | Some probe \<Rightarrow> (case probe goalId of
       None \<Rightarrow> Some (Ob_unknown, Some ''Goal Workspace integration metadata could not be read'')
     | Some observation \<Rightarrow> Some observation))"

definition refreshIntegrationTruthUnlocked ::
  "control_env \<Rightarrow> snapshot_record \<Rightarrow> runtime_db \<Rightarrow> snapshot_record outcome" where
  "refreshIntegrationTruthUnlocked env snapshot db =
     (case readIntegrationTruthBestEffort env (pj_goalId (gs_projection snapshot)) of
        None \<Rightarrow> (db, Inr snapshot)
      | Some (state, detail) \<Rightarrow>
          if observed_integration state = pj_integrationState (gs_projection snapshot)
          then (db, Inr snapshot)
          else best_effort snapshot (appendAndReplayUnlocked env snapshot
            (GoalScoped (event_for (integrationRuntimeEventId env (pj_goalId (gs_projection snapshot))
                 state (gs_lastEventSequence snapshot)) (gs_projection snapshot) (ce_now env) detail)
               (Ge_integration_observed state)) db))"

definition blocker_up_to_date :: "goal_runtime_blocker option \<Rightarrow> string option \<Rightarrow> bool" where
  "blocker_up_to_date current detail = (case detail of
     None \<Rightarrow> map_option bl_kind current \<noteq> Some Bk_goal_blocked
   | Some d \<Rightarrow> (case current of
       None \<Rightarrow> False
     | Some b \<Rightarrow> bl_kind b \<noteq> Bk_goal_blocked \<or> bl_detail b = Some d))"

definition reconcileDurableBlockerTruthUnlocked ::
  "control_env \<Rightarrow> snapshot_record \<Rightarrow> runtime_db \<Rightarrow> snapshot_record outcome" where
  "reconcileDurableBlockerTruthUnlocked env initial db =
     and_then (goal_by_id (pj_goalId (gs_projection initial)) db) (\<lambda>goal db.
       if g_status goal \<noteq> Gs_active then (db, Inr initial)
       else let detail = durableGoalBlockerDetail env goal
         in if blocker_up_to_date (pj_blocker (gs_projection initial)) detail then (db, Inr initial)
            else appendAndReplayUnlocked env initial (GoalScoped (event_for_goal
              (durableGoalBlockerRuntimeEventId env (g_id goal) (g_revision goal)
                (if detail = None then ''clear'' else ''blocked'') (gs_lastEventSequence initial))
              goal (ce_now env) detail) (Ge_blocker_observed (detail \<noteq> None))) db)"

definition goal_status_name :: "goal_status \<Rightarrow> string" where
  "goal_status_name s = (case s of Gs_active \<Rightarrow> ''active'' | Gs_completed \<Rightarrow> ''completed''
     | Gs_failed \<Rightarrow> ''failed'' | Gs_blocked \<Rightarrow> ''blocked'' | Gs_cancelled \<Rightarrow> ''cancelled'')"

text \<open>An execution event of the terminal reconciliation.\<close>

definition terminal_event ::
  "control_env \<Rightarrow> goal_record \<Rightarrow> iso \<Rightarrow> execution_scoped_type \<Rightarrow> string \<Rightarrow> string \<Rightarrow> int \<Rightarrow> string
     \<Rightarrow> goal_runtime_event" where
  "terminal_event env goal occurredAt t discriminator executionId generation detail =
     ExecutionScoped (event_for_goal (durableRuntimeEventId env (g_id goal)
         (execution_scoped_type_name t) discriminator) goal occurredAt (Some detail))
       \<lparr>xe_type = t, xe_executionId = executionId, xe_executionGeneration = generation,
         xe_phase = None, xe_taskId = None, xe_checkpointId = None, xe_blockerKind = None\<rparr>"

definition close_execution ::
  "control_env \<Rightarrow> goal_record \<Rightarrow> iso \<Rightarrow> string \<Rightarrow> snapshot_record \<Rightarrow> runtime_db \<Rightarrow> snapshot_record outcome"
  where "close_execution env goal occurredAt discriminator snapshot db =
     (case (pj_activeExecutionId (gs_projection snapshot), pj_executionGeneration (gs_projection snapshot)) of
        (Some executionId, Some generation) \<Rightarrow>
          if g_status goal = Gs_cancelled then
            appendAndReplayUnlocked env snapshot (terminal_event env goal occurredAt
              Et_execution_cancelled discriminator executionId generation
              ''restart reconciliation from durable cancelled Goal'') db
          else if g_status goal = Gs_completed then
            and_then (if pj_runtimeState (gs_projection snapshot) = Rt_queued
                \<or> pj_runtimeState (gs_projection snapshot) = Rt_starting
              then appendAndReplayUnlocked env snapshot (terminal_event env goal occurredAt
                Et_execution_started (discriminator @ '':finish'') executionId generation
                ''restart reconciliation for durably completed Goal'') db
              else (db, Inr snapshot)) (\<lambda>started db.
            appendAndReplayUnlocked env started (terminal_event env goal occurredAt
              Et_execution_completed discriminator executionId generation
              ''restart reconciliation from durable completed Goal'') db)
          else appendAndReplayUnlocked env snapshot (terminal_event env goal occurredAt
            Et_execution_failed discriminator executionId generation
            (''restart reconciliation from durable '' @ goal_status_name (g_status goal) @ '' Goal'')) db
      | _ \<Rightarrow> (db, Inr snapshot))"

definition reconcileDurableTerminalStateUnlocked ::
  "control_env \<Rightarrow> snapshot_record \<Rightarrow> runtime_db \<Rightarrow> snapshot_record outcome" where
  "reconcileDurableTerminalStateUnlocked env initial db =
     and_then (goal_by_id (pj_goalId (gs_projection initial)) db) (\<lambda>goal db.
       if g_status goal = Gs_active then (db, Inr initial)
       else let occurredAt = (case g_terminalAt goal of None \<Rightarrow> g_updatedAt goal | Some t \<Rightarrow> t);
                discriminator = ''durable-terminal:'' @ int_text (g_revision goal);
                abandoned = (g_status goal = Gs_cancelled)
         in and_then (close_execution env goal occurredAt discriminator initial db) (\<lambda>snapshot db.
              if pj_lifecycleState (gs_projection snapshot)
                = (if abandoned then Lc_abandoned else Lc_completed) then (db, Inr snapshot)
              else appendAndReplayUnlocked env snapshot (GoalScoped (event_for_goal
                (durableRuntimeEventId env (g_id goal)
                  (if abandoned then ''goal_abandoned'' else ''goal_completed'') discriminator)
                goal occurredAt (Some (''restart reconciliation from durable ''
                  @ goal_status_name (g_status goal) @ '' Goal'')))
                (if abandoned then Ge_abandoned else Ge_completed)) db))"

section \<open>The operations\<close>

definition publishGoalRuntimeEvent ::
  "control_env \<Rightarrow> goal_runtime_event \<Rightarrow> runtime_db \<Rightarrow> snapshot_record outcome" where
  "publishGoalRuntimeEvent env event db =
     and_then (ensureGoalSnapshotUnlocked (ev_goalId (event_base event)) db) (\<lambda>s db.
     and_then (catchUpSnapshotUnlocked s db) (\<lambda>s db.
     and_then (appendAndReplayUnlocked env s event db) (\<lambda>s db.
       reconcileDurableBlockerTruthUnlocked env s db)))"

definition ensureGoalSnapshot :: "control_env \<Rightarrow> string \<Rightarrow> runtime_db \<Rightarrow> snapshot_record outcome" where
  "ensureGoalSnapshot env goalId db =
     and_then (ensureGoalSnapshotUnlocked goalId db) (\<lambda>s db.
     and_then (catchUpSnapshotUnlocked s db) (\<lambda>s db.
     and_then (reconcileDurableTerminalStateUnlocked env s db) (\<lambda>s db.
     and_then (refreshWorkspaceTruthUnlocked env
       (readWorkspaceTruthBestEffort env (pj_workspaceId (gs_projection s))) s db) (\<lambda>s db.
     and_then (refreshIntegrationTruthUnlocked env s db) (\<lambda>s db.
       reconcileDurableBlockerTruthUnlocked env s db)))))"

text \<open>\<open>refreshGoalWorkspaceTruth\<close> runs the same steps under its own name.\<close>

definition refreshGoalWorkspaceTruth ::
  "control_env \<Rightarrow> string \<Rightarrow> runtime_db \<Rightarrow> snapshot_record outcome" where
  "refreshGoalWorkspaceTruth env goalId db =
     and_then (ensureGoalSnapshotUnlocked goalId db) (\<lambda>s db.
     and_then (catchUpSnapshotUnlocked s db) (\<lambda>s db.
     and_then (reconcileDurableTerminalStateUnlocked env s db) (\<lambda>s db.
     and_then (refreshWorkspaceTruthUnlocked env
       (readWorkspaceTruthBestEffort env (pj_workspaceId (gs_projection s))) s db) (\<lambda>s db.
     and_then (refreshIntegrationTruthUnlocked env s db) (\<lambda>s db.
       reconcileDurableBlockerTruthUnlocked env s db)))))"

text \<open>The loop of \<open>bootstrapWorkspace\<close> over the goals it listed, with one observation for all.\<close>

definition bootstrap_goal ::
  "control_env \<Rightarrow> (goal_workspace_state \<times> string option) option \<Rightarrow> string \<Rightarrow> runtime_db
     \<Rightarrow> snapshot_record outcome" where
  "bootstrap_goal env observation goalId db =
     and_then (ensureGoalSnapshotUnlocked goalId db) (\<lambda>s db.
     and_then (catchUpSnapshotUnlocked s db) (\<lambda>s db.
     and_then (reconcileDurableTerminalStateUnlocked env s db) (\<lambda>s db.
     and_then (refreshWorkspaceTruthUnlocked env observation s db) (\<lambda>s db.
       reconcileDurableBlockerTruthUnlocked env s db))))"

fun bootstrap_goals ::
  "control_env \<Rightarrow> (goal_workspace_state \<times> string option) option \<Rightarrow> string list \<Rightarrow> nat \<Rightarrow> runtime_db
     \<Rightarrow> nat outcome" where
  "bootstrap_goals env observation [] ready db = (db, Inr ready)"
| "bootstrap_goals env observation (goalId # rest) ready db =
     and_then (bootstrap_goal env observation goalId db)
       (\<lambda>_ db. bootstrap_goals env observation rest (ready + 1) db)"

end
