(* ===== verification/Runtime_Control_Plane_Safety.thy ===== *)
theory Runtime_Control_Plane_Safety
  imports Runtime_Control_Plane
begin

text \<open>
  What the control plane does to the store: every operation is a sequence of steps of the runtime
  store, so the invariants of the store hold throughout, whatever other processes do in between.
\<close>

section \<open>Operations are runs of the store\<close>

definition reaches :: "runtime_db \<Rightarrow> runtime_db \<Rightarrow> bool" where
  "reaches db db' \<longleftrightarrow> (\<exists>ops. db' = run_runtime db ops)"

lemma reaches_refl [simp]: "reaches db db"
  unfolding reaches_def by (rule exI [of _ "[]"]) simp

lemma reaches_trans: "reaches a b \<Longrightarrow> reaches b c \<Longrightarrow> reaches a c"
  unfolding reaches_def by (metis run_ops_append)

lemma reaches_step: "reaches db (runtime_step db op)"
  unfolding reaches_def by (rule exI [of _ "[op]"]) simp

lemma reaches_moves: "reaches a b \<Longrightarrow> runtime_wf a \<Longrightarrow> runtime_wf b \<and> runtime_moves a b"
  unfolding reaches_def using runtime_store.run_inv runtime_store.run_rel by blast

lemma reaches_and_then:
  assumes "reaches db (fst r)" "\<And>a db'. snd r = Inr a \<Longrightarrow> reaches db' (fst (k a db'))"
  shows "reaches db (fst (and_then r k))"
  using assms by (auto simp: and_then_def intro: reaches_trans split: sum.splits)

lemma reading_fst [simp]: "fst (reading f r db) = db"
  by (simp add: reading_def)

lemma reading_Inr [simp]: "snd (reading f r db) = Inr a \<longleftrightarrow> r = Inr a"
  by (cases r) (simp_all add: reading_def)

lemma goal_by_id_fst [simp]: "fst (goal_by_id i db) = db"
  by (simp add: goal_by_id_def split: option.splits)

lemma reaches_store [simp]: "reaches db (fst (store_snapshot p n t db))"
proof (cases "storeGoalRuntimeSnapshot p n t db")
  case (Inr r)
  then have "fst (store_snapshot p n t db) = runtime_step db (Rop_snapshot p n t)"
    by (cases r) (simp add: store_snapshot_def)
  then show ?thesis using reaches_step by metis
qed (simp add: store_snapshot_def)

lemma reaches_recover [simp]: "reaches db (fst (recoverAfterReplayWindowMissUnlocked s db))"
  unfolding recoverAfterReplayWindowMissUnlocked_def
  by (rule reaches_and_then) (auto intro: reaches_and_then split: list.splits)

lemma reaches_zero [simp]: "reaches db (fst (catchUpFromZero s db))"
  unfolding catchUpFromZero_def
  by (rule reaches_and_then) (auto split: sum.splits)

lemma reaches_loop [simp]: "reaches db (fst (catchUpLoop s c db))"
proof (induction s c db rule: catchUpLoop.induct)
  case (1 s c db)
  show ?case
  proof (cases "replayWorkspaceGoalRuntimeEvents (pj_workspaceId (gs_projection s)) (Some c)
      EVENT_REPLAY_PAGE_SIZE db")
    case (Inr page)
    show ?thesis
    proof (cases "rp_replayWindowMissed page \<or> rp_events page = []")
      case True
      then show ?thesis by (subst catchUpLoop.simps) (auto simp: Inr)
    next
      case go: False
      show ?thesis
      proof (cases "replay_page (gs_projection s) (gs_lastEventSequence s) (rp_events page)")
        case fold: (Inr pn)
        let ?stored = "if snd pn > gs_lastEventSequence s
          then store_snapshot (fst pn) (snd pn) (rr_recordedAt (last (rp_events page))) db
          else (db, Inr s)"
        have stored: "reaches db (fst ?stored)" by simp
        show ?thesis
        proof (cases "snd ?stored")
          case (Inl e)
          then show ?thesis
            using go stored by (subst catchUpLoop.simps) (simp add: Inr fold Let_def)
        next
          case ok: (Inr s')
          show ?thesis
          proof (cases "case rp_latestSequence page of None \<Rightarrow> True
              | Some n \<Rightarrow> rr_sequence (last (rp_events page)) \<ge> n")
            case True
            then show ?thesis
              using go stored ok by (subst catchUpLoop.simps) (simp add: Inr fold Let_def)
          next
            case False
            have "reaches (fst ?stored) (fst (catchUpLoop s' (rr_sequence (last (rp_events page))) (fst ?stored)))"
              using "1.IH" [OF Inr _ _ fold refl refl ok False] go by blast
            then have "reaches db (fst (catchUpLoop s' (rr_sequence (last (rp_events page))) (fst ?stored)))"
              using stored reaches_trans by blast
            then show ?thesis
              using go ok False by (subst catchUpLoop.simps) (simp add: Inr fold Let_def)
          qed
        qed
      qed (use go in \<open>subst catchUpLoop.simps, simp add: Inr\<close>)
    qed
  qed (subst catchUpLoop.simps, simp)
qed

lemma reaches_catch_up [simp]: "reaches db (fst (catchUpSnapshotUnlocked s db))"
  by (simp add: catchUpSnapshotUnlocked_def)

lemma config_options:
  "config_ok cfg \<Longrightarrow> new_event_store (Some (ec_maxEventsPerWorkspace cfg)) (Some (ec_retentionSlack cfg)) = Inr cfg"
  by (cases cfg) (simp add: new_event_store_def config_ok_def event_positiveInteger_def
    event_nonNegativeInteger_def)

lemma reaches_append:
  assumes "config_ok cfg"
  shows "reaches db (fst (appendGoalRuntimeEvent cfg gap event t db))"
  using reaches_step [of db "Rop_append (Some (ec_maxEventsPerWorkspace cfg))
      (Some (ec_retentionSlack cfg)) gap event t"] config_options [OF assms] by simp

lemma reaches_append_replay:
  assumes "config_ok (ce_config env)"
  shows "reaches db (fst (appendAndReplayUnlocked env s event db))"
proof -
  let ?r = "appendGoalRuntimeEvent (ce_config env) (ce_gap env (rd_sequence db)) event
    (ce_recordedAt env (rd_sequence db)) db"
  have "reaches db (fst ?r)" by (rule reaches_append [OF assms])
  then show ?thesis
    by (auto simp: appendAndReplayUnlocked_def Let_def intro: reaches_trans
        split: goal_runtime_event_decision.splits sum.splits)
qed

lemma reaches_ensure [simp]: "reaches db (fst (ensureGoalSnapshotUnlocked i db))"
  unfolding ensureGoalSnapshotUnlocked_def
  by (rule reaches_and_then) (auto intro!: reaches_and_then split: option.splits)

lemma best_effort_fst [simp]: "fst (best_effort s r) = fst r"
  by (simp add: best_effort_def split: sum.splits)

text \<open>The steps of an operation, under a configuration the constructor accepts.\<close>

lemma reaches_parts:
  assumes "config_ok (ce_config env)"
  shows "reaches db (fst (refreshWorkspaceTruthUnlocked env observation s db))"
    "reaches db (fst (refreshIntegrationTruthUnlocked env s db))"
    "reaches db (fst (reconcileDurableBlockerTruthUnlocked env s db))"
    "reaches db (fst (close_execution env goal t d s db))"
    "reaches db (fst (reconcileDurableTerminalStateUnlocked env s db))"
proof -
  note append = reaches_append_replay [OF assms]
  show "reaches db (fst (refreshWorkspaceTruthUnlocked env observation s db))"
    by (auto simp: refreshWorkspaceTruthUnlocked_def append split: option.splits)
  show "reaches db (fst (refreshIntegrationTruthUnlocked env s db))"
    by (auto simp: refreshIntegrationTruthUnlocked_def append split: option.splits)
  show "reaches db (fst (reconcileDurableBlockerTruthUnlocked env s db))"
    unfolding reconcileDurableBlockerTruthUnlocked_def Let_def
    by (rule reaches_and_then) (auto simp: append)
  have close: "reaches db (fst (close_execution env goal t d s db))" for db goal t d s
    unfolding close_execution_def by (auto simp: append intro!: reaches_and_then split: option.splits)
  then show "reaches db (fst (close_execution env goal t d s db))" .
  show "reaches db (fst (reconcileDurableTerminalStateUnlocked env s db))"
    unfolding reconcileDurableTerminalStateUnlocked_def Let_def
    by (rule reaches_and_then) (auto simp: append close intro!: reaches_and_then)
qed

lemma operations_reach:
  assumes "config_ok (ce_config env)"
  shows "reaches db (fst (publishGoalRuntimeEvent env event db))"
    "reaches db (fst (ensureGoalSnapshot env i db))"
    "reaches db (fst (refreshGoalWorkspaceTruth env i db))"
    "reaches db (fst (bootstrap_goals env observation ids n db))"
proof -
  note parts = reaches_parts [OF assms] reaches_append_replay [OF assms]
  show "reaches db (fst (publishGoalRuntimeEvent env event db))"
    unfolding publishGoalRuntimeEvent_def by (intro reaches_and_then) (simp_all add: parts)
  show "reaches db (fst (ensureGoalSnapshot env i db))"
    unfolding ensureGoalSnapshot_def by (intro reaches_and_then) (simp_all add: parts)
  show "reaches db (fst (refreshGoalWorkspaceTruth env i db))"
    unfolding refreshGoalWorkspaceTruth_def by (intro reaches_and_then) (simp_all add: parts)
  have goal: "reaches db (fst (bootstrap_goal env observation i db))" for i db
    unfolding bootstrap_goal_def by (intro reaches_and_then) (simp_all add: parts)
  show "reaches db (fst (bootstrap_goals env observation ids n db))"
    by (induction ids arbitrary: n db) (auto intro: reaches_and_then goal)
qed

end
