(* ===== verification/Runtime_Catch_Up.thy ===== *)
theory Runtime_Catch_Up
  imports Runtime_Control_Plane_Safety
begin

text \<open>
  Catching up is the fold of the projector over the events the snapshot had not seen, however they
  fall into pages; and the one gap: an event that got into the log but that the projector rejects
  stops every later operation on its goal.
\<close>

section \<open>Catching up is the fold of the projector\<close>

text \<open>The rows of a goal that a cursor has not seen, oldest first.\<close>

definition unseen :: "runtime_db \<Rightarrow> string \<Rightarrow> int \<Rightarrow> runtime_event_row list" where
  "unseen db goalId n = filter (\<lambda>r. vr_goal_id r = goalId \<and> n < vr_sequence r) (rd_events db)"

definition row_event :: "runtime_event_row \<Rightarrow> goal_runtime_event" where
  "row_event row = (case read_event_row row of
     Inr rec \<Rightarrow> rr_event rec
   | Inl _ \<Rightarrow> GoalScoped (row_base row) Ge_selected)"

definition fold_rows :: "goal_runtime_projection \<Rightarrow> runtime_event_row list \<Rightarrow> goal_runtime_projection" where
  "fold_rows p rows = project_all p (map row_event rows)"

definition last_sequence :: "int \<Rightarrow> runtime_event_row list \<Rightarrow> int" where
  "last_sequence n rows = (if rows = [] then n else vr_sequence (last rows))"

lemma read_event_row_event: "read_event_row row = Inr rec \<Longrightarrow> row_event row = rr_event rec"
  by (simp add: row_event_def)

lemma read_event_row_goal:
  "read_event_row row = Inr rec \<Longrightarrow> ev_goalId (event_base (rr_event rec)) = vr_goal_id row"
  unfolding read_event_row_iff by (metis event_row_fields(5))

lemma project_goal_same [simp]: "pj_goalId (project p e) = pj_goalId p"
  using project_same_goal by (simp add: same_goal_def)

text \<open>Does the projector take a sequence of events without rejecting one?\<close>

definition rejects :: "goal_runtime_projection \<Rightarrow> goal_runtime_event \<Rightarrow> bool" where
  "rejects p event \<longleftrightarrow> (case fst (projectGoalRuntimeEvent p event) of Reject _ \<Rightarrow> True | _ \<Rightarrow> False)"

fun accepts :: "goal_runtime_projection \<Rightarrow> runtime_event_row list \<Rightarrow> bool" where
  "accepts p [] = True"
| "accepts p (r # rs) = (\<not> rejects p (row_event r) \<and> accepts (project p (row_event r)) rs)"

lemma decided:
  "(case projectGoalRuntimeEvent p e of (Reject _, _) \<Rightarrow> Inl err | (_, q) \<Rightarrow> f q)
     = (if rejects p e then Inl err else f (project p e))"
  by (cases "projectGoalRuntimeEvent p e") (auto simp: rejects_def split: goal_runtime_event_decision.splits)

lemma replay_page_closed:
  assumes "list_all2 (\<lambda>x y. read_event_row x = Inr y) rows recs"
  shows "replay_page p n recs = (let own = filter (\<lambda>r. vr_goal_id r = pj_goalId p) rows
    in if accepts p own then Inr (fold_rows p own, last_sequence n own) else Inl Ce_projection_rejected)"
  using assms
proof (induction arbitrary: p n rule: list_all2_induct)
  case Nil
  then show ?case by (simp add: fold_rows_def last_sequence_def)
next
  case (Cons row rows rec recs)
  have row: "ev_goalId (event_base (rr_event rec)) = vr_goal_id row" "row_event row = rr_event rec"
      "rr_sequence rec = vr_sequence row"
    using Cons.hyps(1) read_event_row_goal read_event_row_event read_event_row_sequence by simp_all
  then show ?case
    by (auto simp: decided Cons.IH Let_def fold_rows_def last_sequence_def)
qed

lemma replay_own_closed:
  assumes "list_all2 (\<lambda>x y. read_event_row x = Inr y) rows recs"
  shows "replay_own p n t recs = (if accepts p rows
    then Inr (fold_rows p rows, last_sequence n rows, if recs = [] then t else rr_recordedAt (last recs))
    else Inl Ce_projection_rejected)"
  using assms
proof (induction arbitrary: p n t rule: list_all2_induct)
  case Nil
  then show ?case by (simp add: fold_rows_def last_sequence_def)
next
  case (Cons row rows rec recs)
  have row: "row_event row = rr_event rec" "rr_sequence rec = vr_sequence row"
    using Cons.hyps(1) read_event_row_event read_event_row_sequence by simp_all
  then show ?case
    by (auto simp: decided Cons.IH fold_rows_def last_sequence_def)
qed

lemma project_all_same:
  "pj_goalId (project_all p es) = pj_goalId p" "pj_workspaceId (project_all p es) = pj_workspaceId p"
  using project_same_goal by (induction es arbitrary: p) (simp_all add: same_goal_def)

lemma fold_rows_same [simp]:
  "pj_goalId (fold_rows p rows) = pj_goalId p" "pj_workspaceId (fold_rows p rows) = pj_workspaceId p"
  by (simp_all add: fold_rows_def project_all_same)

lemma fold_rows_append [simp]: "fold_rows p (xs @ ys) = fold_rows (fold_rows p xs) ys"
  by (simp add: fold_rows_def)

lemma fold_rows_Nil [simp]: "fold_rows p [] = p"
  by (simp add: fold_rows_def)

lemma last_sequence_append [simp]:
  "last_sequence n (xs @ ys) = last_sequence (last_sequence n xs) ys"
  by (simp add: last_sequence_def)

lemma last_sequence_Nil [simp]: "last_sequence n [] = n"
  by (simp add: last_sequence_def)

lemma filter_after_last:
  fixes f :: "'a \<Rightarrow> int"
  assumes "sorted_wrt (\<lambda>a b. f a < f b) (xs @ ys)" "xs \<noteq> []"
  shows "filter (\<lambda>x. f (last xs) < f x) (xs @ ys) = ys"
proof -
  have le: "f x \<le> f (last xs)" if "x \<in> set xs" for x
  proof -
    have "sorted_wrt (\<lambda>a b. f a < f b) (butlast xs @ [last xs])"
      using assms by (simp add: sorted_wrt_append)
    then have "\<forall>y \<in> set (butlast xs). f y < f (last xs)" by (simp add: sorted_wrt_append)
    moreover have "x \<in> set (butlast xs) \<or> x = last xs"
      using that assms(2) by (metis append_butlast_last_id rotate1.simps(2) set_ConsD set_rotate1)
    ultimately show ?thesis by auto
  qed
  moreover have "f (last xs) < f y" if "y \<in> set ys" for y
    using assms that by (simp add: sorted_wrt_append)
  ultimately show ?thesis by (force simp: filter_empty_conv filter_id_conv not_less)
qed

lemma foldl_min_le: "foldl min (a :: int) xs \<le> a \<and> (\<forall>x \<in> set xs. foldl min a xs \<le> x)"
proof (induction xs arbitrary: a)
  case (Cons b xs)
  then show ?case using Cons.IH [of "min a b"] by auto
qed simp

lemma foldl_max_ge: "a \<le> foldl max (a :: int) xs \<and> (\<forall>x \<in> set xs. x \<le> foldl max a xs)"
proof (induction xs arbitrary: a)
  case (Cons b xs)
  have "max a b \<le> foldl max (max a b) xs \<and> (\<forall>x \<in> set xs. x \<le> foldl max (max a b) xs)" by (rule Cons.IH)
  then show ?case by (auto simp: max.bounded_iff)
qed simp

lemma sequence_bounds_in:
  assumes "r \<in> set rows"
  obtains lo hi where "sequence_bounds rows = (Some lo, Some hi)" "lo \<le> vr_sequence r" "vr_sequence r \<le> hi"
  using assms foldl_min_le foldl_max_ge by (cases rows) (auto simp: sequence_bounds_def)

lemma foldl_min_mem: "foldl min (a :: int) xs \<in> insert a (set xs)"
  by (induction xs arbitrary: a) (auto simp: min_def)

lemma sequence_bounds_oldest:
  assumes "fst (sequence_bounds rows) = Some lo"
  obtains r where "r \<in> set rows" "vr_sequence r = lo"
proof (cases rows)
  case (Cons x xs)
  then have "lo = foldl min (vr_sequence x) (map vr_sequence xs)"
    using assms by (simp add: sequence_bounds_def)
  then have "lo \<in> vr_sequence ` set rows"
    using foldl_min_mem [of "vr_sequence x" "map vr_sequence xs"] Cons by auto
  then show thesis using that by auto
qed (use assms in \<open>simp add: sequence_bounds_def\<close>)

text \<open>The projection of a snapshot belongs to a goal of the store.\<close>

definition in_scope :: "runtime_db \<Rightarrow> goal_runtime_projection \<Rightarrow> bool" where
  "in_scope db p \<longleftrightarrow> (\<exists>g \<in> set (db_goals (rd_goals db)). gr_id g = pj_goalId p
     \<and> gr_workspace_id g = pj_workspaceId p)"

lemma unseen_workspace:
  assumes "runtime_wf db" "in_scope db p"
  shows "unseen db (pj_goalId p) n = filter (\<lambda>r. vr_goal_id r = pj_goalId p)
    (filter (after_cursor (Some n)) (events_of_workspace db (pj_workspaceId p)))"
proof -
  have wf: "log_wf db" "distinct (map gr_id (db_goals (rd_goals db)))"
    using assms(1) by (simp_all add: runtime_wf_def wf_goals_def)
  have "vr_workspace_id r = pj_workspaceId p"
    if r: "r \<in> set (rd_events db)" "vr_goal_id r = pj_goalId p" for r
  proof -
    obtain g where g: "g \<in> set (db_goals (rd_goals db))" "gr_id g = vr_goal_id r"
        "gr_workspace_id g = vr_workspace_id r"
      using log_wf_row(4) [OF wf(1) r(1)] by (auto simp: in_goal_scope_def)
    obtain h where h: "h \<in> set (db_goals (rd_goals db))" "gr_id h = pj_goalId p"
        "gr_workspace_id h = pj_workspaceId p"
      using assms(2) by (auto simp: in_scope_def)
    have "g = h" using distinct_key_unique [OF wf(2) g(1) h(1)] g(2) h(2) r(2) by simp
    then show ?thesis using g(3) h(3) by simp
  qed
  then show ?thesis
    unfolding unseen_def events_of_workspace_wf [OF wf(1)] filter_filter
    by (auto simp: after_cursor_def intro!: filter_cong)
qed

lemma store_snapshot_result:
  assumes "snapshots_wf db" "store_snapshot p n t db = (db', Inr s)"
  shows "gs_projection s = p" "gs_lastEventSequence s = n" "rd_goals db' = rd_goals db"
    "snapshot_of db' (pj_goalId p) = Some s"
    "\<And>i. i \<noteq> pj_goalId p \<Longrightarrow> snapshot_of db' i = snapshot_of db i"
proof -
  have stored: "storeGoalRuntimeSnapshot p n t db = Inr (db', s)"
    using assms(2) by (auto simp: store_snapshot_def split: sum.splits)
  from assms(1) stored have "gs_projection s = p \<and> gs_lastEventSequence s = n \<and> rd_goals db' = rd_goals db
    \<and> snapshot_of db' (pj_goalId p) = Some s
    \<and> (\<forall>i. i \<noteq> pj_goalId p \<longrightarrow> snapshot_of db' i = snapshot_of db i)"
  proof (cases rule: store_cases)
    case written
    then have "storable p" "cursor_ok n" "requiredIso t" by (simp_all add: may_store_def)
    then show ?thesis using written(2,3) by (simp add: snapshot_of_put)
  qed simp
  then show "gs_projection s = p" "gs_lastEventSequence s = n" "rd_goals db' = rd_goals db"
    "snapshot_of db' (pj_goalId p) = Some s"
    "\<And>i. i \<noteq> pj_goalId p \<Longrightarrow> snapshot_of db' i = snapshot_of db i" by simp_all
qed

lemma unseen_same_events: "rd_events db' = rd_events db \<Longrightarrow> unseen db' = unseen db"
  by (intro ext) (simp add: unseen_def)

lemma events_of_workspace_same: "rd_events db' = rd_events db \<Longrightarrow> events_of_workspace db' = events_of_workspace db"
  by (intro ext) (simp add: events_of_workspace_def)

text \<open>The retention has dropped no event behind a cursor.\<close>

definition in_window :: "runtime_db \<Rightarrow> string \<Rightarrow> int \<Rightarrow> bool" where
  "in_window db w c \<longleftrightarrow> \<not> window_missed (Some c) (fst (sequence_bounds (events_of_workspace db w)))"

text \<open>One page: the rows it holds and what is left behind its last sequence.\<close>

lemma replay_page_rows:
  assumes wf: "log_wf db"
    and page: "replayWorkspaceGoalRuntimeEvents w (Some c) k db = Inr page"
  obtains taken rest where
    "filter (after_cursor (Some c)) (events_of_workspace db w) = taken @ rest"
    "list_all2 (\<lambda>x y. read_event_row x = Inr y) taken (rp_events page)"
    "rp_replayWindowMissed page = window_missed (Some c) (fst (sequence_bounds (events_of_workspace db w)))"
    "rp_latestSequence page = snd (sequence_bounds (events_of_workspace db w))"
    "rp_events page = [] \<Longrightarrow> taken @ rest = []"
    "rp_events page \<noteq> [] \<Longrightarrow> filter (after_cursor (Some (rr_sequence (last (rp_events page)))))
       (events_of_workspace db w) = rest
       \<and> rr_sequence (last (rp_events page)) = vr_sequence (last taken)"
proof -
  let ?rows = "filter (after_cursor (Some c)) (events_of_workspace db w)"
  obtain m where m: "0 < m" and recs: "map_ok read_event_row (take m ?rows) = Inr (rp_events page)"
      and flags: "rp_replayWindowMissed page
        = window_missed (Some c) (fst (sequence_bounds (events_of_workspace db w)))"
        "rp_latestSequence page = snd (sequence_bounds (events_of_workspace db w))"
  proof -
    obtain k' where "event_boundedLimit k = Inr k'"
      and "map_ok read_event_row (take (nat k') ?rows) = Inr (rp_events page)"
      and "rp_replayWindowMissed page
        = window_missed (Some c) (fst (sequence_bounds (events_of_workspace db w)))"
      and "rp_latestSequence page = snd (sequence_bounds (events_of_workspace db w))"
      using page by (auto simp: replayWorkspaceGoalRuntimeEvents_def Let_def bind_ok_Inr_iff
          check_after_def split: if_splits)
    moreover from this(1) have "0 < nat k'"
      by (auto simp: event_boundedLimit_def bind_ok_Inr_iff MAX_REPLAY_LIMIT_def)
    ultimately show thesis using that by blast
  qed
  have all2: "list_all2 (\<lambda>x y. read_event_row x = Inr y) (take m ?rows) (rp_events page)"
    using recs by (simp add: map_ok_Inr_iff)
  show thesis
  proof (rule that [of "take m ?rows" "drop m ?rows"])
    show "?rows = take m ?rows @ drop m ?rows" by simp
    show "list_all2 (\<lambda>x y. read_event_row x = Inr y) (take m ?rows) (rp_events page)" by (rule all2)
    show "take m ?rows @ drop m ?rows = []" if "rp_events page = []"
      using all2 that m by (cases ?rows) (auto simp: list_all2_iff)
    assume ne: "rp_events page \<noteq> []"
    then have taken: "take m ?rows \<noteq> []"
      using list_all2_lengthD [OF all2] by (metis length_0_conv)
    have last: "rr_sequence (last (rp_events page)) = vr_sequence (last (take m ?rows))"
    proof -
      have "length (take m ?rows) = length (rp_events page)" by (rule list_all2_lengthD [OF all2])
      then have "read_event_row (last (take m ?rows)) = Inr (last (rp_events page))"
        using list_all2_nthD [OF all2, of "length (take m ?rows) - 1"] taken ne
        by (simp add: last_conv_nth)
      then show ?thesis by (rule read_event_row_sequence)
    qed
    have sorted: "sorted_wrt (\<lambda>a b. vr_sequence a < vr_sequence b) (take m ?rows @ drop m ?rows)"
      unfolding append_take_drop_id events_of_workspace_wf [OF wf]
      by (intro sorted_wrt_filter sorted_filter_log [OF wf])
    have "c < vr_sequence (last (take m ?rows))"
      using last_in_set [OF taken] by (auto simp: after_cursor_def dest: in_set_takeD)
    then have "filter (after_cursor (Some (vr_sequence (last (take m ?rows))))) (events_of_workspace db w)
        = filter (\<lambda>r. vr_sequence (last (take m ?rows)) < vr_sequence r) ?rows"
      unfolding filter_filter by (intro filter_cong) (auto simp: after_cursor_def)
    also have "\<dots> = drop m ?rows"
      using filter_after_last [OF sorted taken] by (simp only: append_take_drop_id)
    finally show "filter (after_cursor (Some (rr_sequence (last (rp_events page)))))
        (events_of_workspace db w) = drop m ?rows
        \<and> rr_sequence (last (rp_events page)) = vr_sequence (last (take m ?rows))"
      using last by simp
  qed (rule flags)+
qed

text \<open>One page of the loop: what it folds is what the page saw of the goal, and what stays unseen
  is what lies behind it.\<close>

lemma page_unseen:
  assumes wf: "runtime_wf db" and scope: "in_scope db p"
    and page: "replayWorkspaceGoalRuntimeEvents (pj_workspaceId p) (Some c) k db = Inr page"
    and events: "rp_events page \<noteq> []"
  obtains rows where "unseen db (pj_goalId p) c
      = rows @ unseen db (pj_goalId p) (rr_sequence (last (rp_events page)))"
    "\<And>n. replay_page p n (rp_events page) = (if accepts p rows
      then Inr (fold_rows p rows, last_sequence n rows) else Inl Ce_projection_rejected)"
    "(case rp_latestSequence page of None \<Rightarrow> True | Some l \<Rightarrow> rr_sequence (last (rp_events page)) \<ge> l)
      \<Longrightarrow> unseen db (pj_goalId p) (rr_sequence (last (rp_events page))) = []"
    "in_window db (pj_workspaceId p) (rr_sequence (last (rp_events page)))"
    "c < rr_sequence (last (rp_events page))"
    "\<forall>r \<in> set rows. vr_sequence r \<le> rr_sequence (last (rp_events page))"
proof -
  let ?w = "pj_workspaceId p" and ?cur = "rr_sequence (last (rp_events page))"
  let ?mine = "\<lambda>r. vr_goal_id r = pj_goalId p"
  have log: "log_wf db" using wf by (simp add: runtime_wf_def)
  obtain taken rest where split: "filter (after_cursor (Some c)) (events_of_workspace db ?w) = taken @ rest"
      and all2: "list_all2 (\<lambda>x y. read_event_row x = Inr y) taken (rp_events page)"
      and latest: "rp_latestSequence page = snd (sequence_bounds (events_of_workspace db ?w))"
      and rest: "filter (after_cursor (Some ?cur)) (events_of_workspace db ?w) = rest"
      and cursor: "?cur = vr_sequence (last taken)"
    using replay_page_rows [OF log page] events by blast
  have taken: "taken \<noteq> []" using all2 events by auto
  have inw: "last taken \<in> set (events_of_workspace db ?w)" and after: "c < ?cur"
  proof -
    have "last taken \<in> set (filter (after_cursor (Some c)) (events_of_workspace db ?w))"
      unfolding split using last_in_set [OF taken] by simp
    then show "last taken \<in> set (events_of_workspace db ?w)" "c < ?cur"
      using cursor by (simp_all add: after_cursor_def)
  qed
  obtain lo hi where bounds: "sequence_bounds (events_of_workspace db ?w) = (Some lo, Some hi)"
      "lo \<le> ?cur" "?cur \<le> hi"
    using sequence_bounds_in [OF inw] cursor by metis
  have un: "unseen db (pj_goalId p) x = filter ?mine (filter (after_cursor (Some x)) (events_of_workspace db ?w))"
    for x by (rule unseen_workspace [OF wf scope])
  have le: "vr_sequence r \<le> ?cur" if "r \<in> set taken" for r
  proof -
    let ?P = "after_cursor (Some ?cur)"
    have "filter ?P (filter (after_cursor (Some c)) (events_of_workspace db ?w))
        = filter ?P (events_of_workspace db ?w)"
      unfolding filter_filter using after by (intro filter_cong) (auto simp: after_cursor_def)
    then have "filter ?P taken @ filter ?P rest = rest" unfolding split rest by simp
    moreover have "filter ?P rest = rest" unfolding rest [symmetric] filter_filter by simp
    ultimately have "filter ?P taken = []" by simp
    then show ?thesis using that by (auto simp: filter_empty_conv after_cursor_def)
  qed
  show thesis
  proof (rule that [of "filter ?mine taken"])
    show "\<forall>r \<in> set (filter ?mine taken). vr_sequence r \<le> ?cur" using le by simp
    show "unseen db (pj_goalId p) c = filter ?mine taken @ unseen db (pj_goalId p) ?cur"
      unfolding un split rest by simp
    show "replay_page p n (rp_events page) = (if accepts p (filter ?mine taken)
        then Inr (fold_rows p (filter ?mine taken), last_sequence n (filter ?mine taken))
        else Inl Ce_projection_rejected)" for n
      unfolding replay_page_closed [OF all2] Let_def ..
    show "in_window db ?w ?cur" using bounds by (simp add: in_window_def window_missed_def)
    show "c < ?cur" by (rule after)
    assume "case rp_latestSequence page of None \<Rightarrow> True | Some l \<Rightarrow> ?cur \<ge> l"
    then have "hi \<le> ?cur" by (simp add: latest bounds(1))
    moreover have "vr_sequence r \<le> hi" if "r \<in> set (events_of_workspace db ?w)" for r
      using sequence_bounds_in [OF that] bounds(1) by fastforce
    ultimately have "filter (after_cursor (Some ?cur)) (events_of_workspace db ?w) = []"
      by (fastforce simp: filter_empty_conv after_cursor_def)
    then show "unseen db (pj_goalId p) ?cur = []" unfolding un by simp
  qed
qed

text \<open>The same page as one proposition, at a turn of the loop.\<close>

definition page_split :: "runtime_db \<Rightarrow> goal_runtime_projection \<Rightarrow> int \<Rightarrow> event_replay_page
    \<Rightarrow> runtime_event_row list \<Rightarrow> bool" where
  "page_split db p c page rows \<longleftrightarrow> (let cur = rr_sequence (last (rp_events page))
     in unseen db (pj_goalId p) c = rows @ unseen db (pj_goalId p) cur
        \<and> (\<forall>n. replay_page p n (rp_events page) = (if accepts p rows
              then Inr (fold_rows p rows, last_sequence n rows) else Inl Ce_projection_rejected))
        \<and> ((case rp_latestSequence page of None \<Rightarrow> True | Some l \<Rightarrow> cur \<ge> l)
              \<longrightarrow> unseen db (pj_goalId p) cur = [])
        \<and> in_window db (pj_workspaceId p) cur \<and> c < cur \<and> (\<forall>r \<in> set rows. vr_sequence r \<le> cur))"

lemma page_split_exists:
  assumes "runtime_wf db" "in_scope db p"
    "replayWorkspaceGoalRuntimeEvents (pj_workspaceId p) (Some c) k db = Inr page" "rp_events page \<noteq> []"
  shows "\<exists>rows. page_split db p c page rows"
proof (rule page_unseen [OF assms])
  fix rows
  assume "unseen db (pj_goalId p) c = rows @ unseen db (pj_goalId p) (rr_sequence (last (rp_events page)))"
    "\<And>n. replay_page p n (rp_events page) = (if accepts p rows
      then Inr (fold_rows p rows, last_sequence n rows) else Inl Ce_projection_rejected)"
    "(case rp_latestSequence page of None \<Rightarrow> True | Some l \<Rightarrow> rr_sequence (last (rp_events page)) \<ge> l)
      \<Longrightarrow> unseen db (pj_goalId p) (rr_sequence (last (rp_events page))) = []"
    "in_window db (pj_workspaceId p) (rr_sequence (last (rp_events page)))"
    "c < rr_sequence (last (rp_events page))"
    "\<forall>r \<in> set rows. vr_sequence r \<le> rr_sequence (last (rp_events page))"
  then have "page_split db p c page rows" unfolding page_split_def Let_def by blast
  then show ?thesis by (rule exI)
qed

text \<open>What the loop stores after a page: the snapshot at the end of the fold.\<close>

lemma stored_page:
  assumes wf: "runtime_wf db" and rows: "\<forall>r \<in> set rows. gs_lastEventSequence s < vr_sequence r"
    and q: "q = fold_rows (gs_projection s) rows" and m: "m = last_sequence (gs_lastEventSequence s) rows"
    and stored: "stored = (if m > gs_lastEventSequence s then store_snapshot q m t db else (db, Inr s))"
    and ok: "snd stored = Inr s'"
  shows "gs_projection s' = q" "gs_lastEventSequence s' = m" "runtime_wf (fst stored)"
    "rd_events (fst stored) = rd_events db" "rd_goals (fst stored) = rd_goals db"
proof -
  have "reaches db (fst stored)" by (simp add: stored)
  then show "runtime_wf (fst stored)" using reaches_moves wf by blast
  show "rd_events (fst stored) = rd_events db" by (simp add: stored)
  have "gs_projection s' = q \<and> gs_lastEventSequence s' = m \<and> rd_goals (fst stored) = rd_goals db"
  proof (cases "m > gs_lastEventSequence s")
    case True
    then have "store_snapshot q m t db = (fst stored, Inr s')" using stored ok by (simp add: prod_eq_iff)
    moreover have "snapshots_wf db" using wf by (simp add: runtime_wf_def)
    ultimately show ?thesis using store_snapshot_result(1-3) by metis
  next
    case False
    then have "rows = []" using rows m by (auto simp: last_sequence_def split: if_splits)
    then show ?thesis using False stored ok q m by simp
  qed
  then show "gs_projection s' = q" "gs_lastEventSequence s' = m" "rd_goals (fst stored) = rd_goals db"
    by simp_all
qed

lemma in_scope_same:
  "rd_goals db' = rd_goals db \<Longrightarrow> pj_goalId q = pj_goalId p \<Longrightarrow> pj_workspaceId q = pj_workspaceId p
    \<Longrightarrow> in_scope db' q = in_scope db p"
  by (simp add: in_scope_def)

lemma unseen_rows:
  assumes "log_wf db" "unseen db g n = rows @ unseen db g c" "n \<le> c" "\<forall>r \<in> set rows. vr_sequence r \<le> c"
  shows "last_sequence n rows \<le> c" "unseen db g (last_sequence n rows) = unseen db g c"
proof -
  show "last_sequence n rows \<le> c" using assms(3,4) by (simp add: last_sequence_def)
  show "unseen db g (last_sequence n rows) = unseen db g c"
  proof (cases "rows = []")
    case True
    then show ?thesis using assms(2) by simp
  next
    case False
    let ?m = "vr_sequence (last rows)"
    have "last rows \<in> set (unseen db g n)" unfolding assms(2) using last_in_set [OF False] by simp
    then have "n < ?m" by (simp add: unseen_def)
    then have "unseen db g ?m = filter (\<lambda>r. ?m < vr_sequence r) (unseen db g n)"
      unfolding unseen_def filter_filter by (intro filter_cong) auto
    also have "\<dots> = unseen db g c"
      unfolding assms(2)
    proof (rule filter_after_last)
      show "sorted_wrt (\<lambda>a b. vr_sequence a < vr_sequence b) (rows @ unseen db g c)"
        unfolding assms(2) [symmetric] unfolding unseen_def by (rule sorted_filter_log [OF assms(1)])
    qed (rule False)
    finally show ?thesis using False by (simp add: last_sequence_def)
  qed
qed

lemma catchUpLoop_page:
  assumes "replayWorkspaceGoalRuntimeEvents (pj_workspaceId (gs_projection s)) (Some c)
      EVENT_REPLAY_PAGE_SIZE db = Inr page"
    and "\<not> rp_replayWindowMissed page" "rp_events page \<noteq> []"
    and "replay_page (gs_projection s) (gs_lastEventSequence s) (rp_events page) = Inr (q, m)"
    and "stored = (if m > gs_lastEventSequence s
      then store_snapshot q m (rr_recordedAt (last (rp_events page))) db else (db, Inr s))"
  shows "catchUpLoop s c db = (case snd stored of
      Inl e \<Rightarrow> (fst stored, Inl e)
    | Inr s' \<Rightarrow> if (case rp_latestSequence page of None \<Rightarrow> True
          | Some l \<Rightarrow> rr_sequence (last (rp_events page)) \<ge> l)
        then (fst stored, Inr s') else catchUpLoop s' (rr_sequence (last (rp_events page))) (fst stored))"
  by (simp only: catchUpLoop.simps [of s c db] assms sum.case if_False Let_def fst_conv snd_conv)

text \<open>What holds at every turn of the loop.\<close>

definition loop_ready :: "runtime_db \<Rightarrow> snapshot_record \<Rightarrow> int \<Rightarrow> bool" where
  "loop_ready db s c \<longleftrightarrow> (let p = gs_projection s; n = gs_lastEventSequence s; g = pj_goalId p
     in runtime_wf db \<and> snapshot_of db g = Some s \<and> n \<le> c \<and> unseen db g n = unseen db g c
        \<and> in_window db (pj_workspaceId p) c)"

lemma js_trim_length: "length (js_trim s) \<le> length s"
  unfolding js_trim_def by (metis length_dropWhile_le length_rev le_trans)

lemma identifier_weaker: "requiredIdentifier s \<Longrightarrow> event_identifier s"
  using js_trim_length [of s]
  by (simp add: requiredIdentifier_def event_identifier_def SNAPSHOT_MAX_ID_CHARS_def
      EVENT_MAX_ID_CHARS_def)

lemma snapshot_scope:
  assumes "runtime_wf db" "snapshot_of db i = Some s"
  shows "pj_goalId (gs_projection s) = i" "in_scope db (gs_projection s)"
    "event_identifier (pj_workspaceId (gs_projection s))" "event_identifier i"
    "0 \<le> gs_lastEventSequence s" "storable (gs_projection s)" "requiredIdentifier i"
proof -
  have "snapshots_wf db" using assms(1) by (simp add: runtime_wf_def)
  then obtain row where row: "find_snapshot db i = Some row" "row = row_of_record s" "snapshot_sound s"
      "pj_goalId (gs_projection s) = i"
    using assms(2) by (rule snapshot_of_SomeE)
  show id: "pj_goalId (gs_projection s) = i" by (rule row(4))
  show "storable (gs_projection s)" "0 \<le> gs_lastEventSequence s"
    using row(3) by (simp_all add: snapshot_sound_def cursor_ok_def)
  then show "event_identifier (pj_workspaceId (gs_projection s))" "event_identifier i"
      "requiredIdentifier i"
    using id identifier_weaker by (simp_all add: storable_def fields_storable_def)
  have "snapshot_in_scope db row"
    using \<open>snapshots_wf db\<close> find_snapshot_SomeD [OF row(1)] by (simp add: snapshots_wf_def)
  then show "in_scope db (gs_projection s)"
    using row(2) by (simp add: snapshot_in_scope_def in_scope_def row_of_record_def)
qed

lemma replay_reads:
  assumes "log_wf db" "event_identifier w" "0 \<le> c"
  shows "\<exists>page. replayWorkspaceGoalRuntimeEvents w (Some c) EVENT_REPLAY_PAGE_SIZE db = Inr page"
proof -
  have "\<exists>recs. map_ok read_event_row (take (nat (min MAX_REPLAY_LIMIT 500))
      (filter (after_cursor (Some c)) (events_of_workspace db w))) = Inr recs"
    using log_wf_row(3) [OF assms(1)]
    by (intro map_ok_total) (auto simp: events_of_workspace_def dest: in_set_takeD)
  then obtain recs where "map_ok read_event_row (take (nat (min MAX_REPLAY_LIMIT 500))
      (filter (after_cursor (Some c)) (events_of_workspace db w))) = Inr recs" ..
  then show ?thesis
    using assms(2,3) by (auto simp: replayWorkspaceGoalRuntimeEvents_def check_after_def Let_def
        event_boundedLimit_def EVENT_REPLAY_PAGE_SIZE_def event_positiveInteger_def
        event_nonNegativeInteger_def bind_ok_def split: sum.splits)
qed

lemma loop_pageE:
  assumes ready: "loop_ready db s c"
  obtains page where
    "replayWorkspaceGoalRuntimeEvents (pj_workspaceId (gs_projection s)) (Some c) EVENT_REPLAY_PAGE_SIZE db = Inr page"
    "\<not> rp_replayWindowMissed page"
    "rp_events page = [] \<Longrightarrow> unseen db (pj_goalId (gs_projection s)) c = []"
proof -
  let ?w = "pj_workspaceId (gs_projection s)"
  note r = ready [unfolded loop_ready_def Let_def]
  then have wf: "runtime_wf db" "log_wf db" "snapshot_of db (pj_goalId (gs_projection s)) = Some s"
    by (simp_all add: runtime_wf_def)
  note scope = snapshot_scope [OF wf(1,3)]
  obtain page where page: "replayWorkspaceGoalRuntimeEvents ?w (Some c) EVENT_REPLAY_PAGE_SIZE db = Inr page"
    using replay_reads [OF wf(2) scope(3), of c] scope(5) r by force
  obtain taken rest where tr: "filter (after_cursor (Some c)) (events_of_workspace db ?w) = taken @ rest"
      and missed: "rp_replayWindowMissed page = window_missed (Some c) (fst (sequence_bounds (events_of_workspace db ?w)))"
      and none: "rp_events page = [] \<Longrightarrow> taken @ rest = []"
    using replay_page_rows [OF wf(2) page] by blast
  show thesis
  proof (rule that [OF page])
    show "\<not> rp_replayWindowMissed page" using missed r by (simp add: in_window_def)
    assume "rp_events page = []"
    then show "unseen db (pj_goalId (gs_projection s)) c = []"
      unfolding unseen_workspace [OF wf(1) scope(2)] tr using none by simp
  qed
qed

text \<open>The next turn is ready again, if this one stored the end of its fold.\<close>

lemma loop_next:
  assumes ready: "loop_ready db s c"
    and rows: "unseen db (pj_goalId (gs_projection s)) c = rows @ unseen db (pj_goalId (gs_projection s)) cur"
    and cur: "c < cur" "\<forall>r \<in> set rows. vr_sequence r \<le> cur"
      "in_window db (pj_workspaceId (gs_projection s)) cur"
    and m: "m = last_sequence (gs_lastEventSequence s) rows"
    and stored: "stored = (if m > gs_lastEventSequence s
      then store_snapshot (fold_rows (gs_projection s) rows) m t db else (db, Inr s))"
    and ok: "snd stored = Inr s'"
  shows "gs_projection s' = fold_rows (gs_projection s) rows" "gs_lastEventSequence s' = m"
    "unseen (fst stored) = unseen db" "loop_ready (fst stored) s' cur"
    "rd_goals (fst stored) = rd_goals db" "rd_events (fst stored) = rd_events db"
proof -
  let ?g = "pj_goalId (gs_projection s)"
  note r = ready [unfolded loop_ready_def Let_def]
  have later: "\<forall>r \<in> set rows. gs_lastEventSequence s < vr_sequence r"
  proof
    fix x assume "x \<in> set rows"
    then have "x \<in> set (unseen db ?g c)" unfolding rows by simp
    then show "gs_lastEventSequence s < vr_sequence x" using r by (simp add: unseen_def)
  qed
  have wf: "runtime_wf db" "log_wf db" using r by (simp_all add: runtime_wf_def)
  note kept = stored_page [OF wf(1) later refl m stored ok]
  show p: "gs_projection s' = fold_rows (gs_projection s) rows" "gs_lastEventSequence s' = m"
    by (rule kept)+
  show "rd_goals (fst stored) = rd_goals db" "rd_events (fst stored) = rd_events db" by (rule kept)+
  show un: "unseen (fst stored) = unseen db" by (rule unseen_same_events [OF kept(4)])
  have ew: "events_of_workspace (fst stored) = events_of_workspace db"
    by (rule events_of_workspace_same [OF kept(4)])
  have "snapshot_of (fst stored) ?g = Some s'"
  proof (cases "m > gs_lastEventSequence s")
    case True
    then have "store_snapshot (fold_rows (gs_projection s) rows) m t db = (fst stored, Inr s')"
      using stored ok by (simp add: prod_eq_iff)
    from store_snapshot_result(4) [OF _ this] show ?thesis using wf(1) by (simp add: runtime_wf_def)
  next
    case False
    then show ?thesis using r stored ok by simp
  qed
  moreover have "last_sequence (gs_lastEventSequence s) rows \<le> cur"
      "unseen db ?g (last_sequence (gs_lastEventSequence s) rows) = unseen db ?g cur"
    using unseen_rows [OF wf(2) _ _ cur(2), of ?g "gs_lastEventSequence s"] rows r cur(1) by simp_all
  ultimately show "loop_ready (fst stored) s' cur"
    using kept(3) cur(3) by (simp add: loop_ready_def Let_def p un m in_window_def ew)
qed

lemma catchUpLoop_fold:
  assumes "loop_ready db s c" "catchUpLoop s c db = (db', Inr s')"
  shows "gs_projection s' = fold_rows (gs_projection s) (unseen db (pj_goalId (gs_projection s)) c)
    \<and> gs_lastEventSequence s' = last_sequence (gs_lastEventSequence s) (unseen db (pj_goalId (gs_projection s)) c)
    \<and> snapshot_of db' (pj_goalId (gs_projection s)) = Some s'"
  using assms
proof (induction s c db rule: catchUpLoop.induct)
  case (1 s c db)
  let ?p = "gs_projection s" and ?n = "gs_lastEventSequence s"
  note ready = "1.prems"(1) [unfolded loop_ready_def Let_def]
  then have wf: "runtime_wf db" "snapshot_of db (pj_goalId ?p) = Some s" by simp_all
  obtain page where page: "replayWorkspaceGoalRuntimeEvents (pj_workspaceId ?p) (Some c) EVENT_REPLAY_PAGE_SIZE db = Inr page"
      and nm: "\<not> rp_replayWindowMissed page"
      and none: "rp_events page = [] \<Longrightarrow> unseen db (pj_goalId ?p) c = []"
    using loop_pageE [OF "1.prems"(1)] by blast
  show ?case
  proof (cases "rp_events page = []")
    case True
    then have "s' = s" "db' = db" using "1.prems"(2) page nm by (subst (asm) catchUpLoop.simps, simp)+
    then show ?thesis using none [OF True] wf(2) by simp
  next
    case events: False
    let ?cur = "rr_sequence (last (rp_events page))"
    obtain rows where split: "page_split db ?p c page rows"
      using page_split_exists [OF wf(1) snapshot_scope(2) [OF wf] page events] ..
    note facts = split [unfolded page_split_def Let_def]
    then have rows: "unseen db (pj_goalId ?p) c = rows @ unseen db (pj_goalId ?p) ?cur"
        and closed: "\<And>n. replay_page ?p n (rp_events page) = (if accepts ?p rows
          then Inr (fold_rows ?p rows, last_sequence n rows) else Inl Ce_projection_rejected)"
        and win: "in_window db (pj_workspaceId ?p) ?cur"
        and after: "c < ?cur" "\<forall>r \<in> set rows. vr_sequence r \<le> ?cur" by simp_all
    have stop: "(case rp_latestSequence page of None \<Rightarrow> True | Some l \<Rightarrow> ?cur \<ge> l)
        \<Longrightarrow> unseen db (pj_goalId ?p) ?cur = []" using facts by blast
    have "accepts ?p rows"
      using "1.prems"(2) page nm events closed
      by (subst (asm) catchUpLoop.simps) (auto split: sum.splits if_splits)
    then have fold: "replay_page ?p ?n (rp_events page) = Inr (fold_rows ?p rows, last_sequence ?n rows)"
      using closed by simp
    define stored where "stored = (if last_sequence ?n rows > ?n
      then store_snapshot (fold_rows ?p rows) (last_sequence ?n rows)
        (rr_recordedAt (last (rp_events page))) db else (db, Inr s))"
    note loop = catchUpLoop_page [OF page nm events fold stored_def]
    obtain s1 where s1: "snd stored = Inr s1" using "1.prems"(2) unfolding loop by (auto split: sum.splits)
    note turn = loop_next [OF "1.prems"(1) rows after win refl stored_def s1]
    have un: "unseen (fst stored) = unseen db" and onward: "loop_ready (fst stored) s1 ?cur"
      by (rule turn)+
    have goal: "pj_goalId (gs_projection s1) = pj_goalId ?p" by (simp add: turn(1))
    show ?thesis
    proof (cases "case rp_latestSequence page of None \<Rightarrow> True | Some l \<Rightarrow> ?cur \<ge> l")
      case True
      then have "s' = s1" "db' = fst stored" using "1.prems"(2) unfolding loop s1 by simp_all
      then show ?thesis using rows stop [OF True] turn(1,2) onward goal by (simp add: loop_ready_def Let_def)
    next
      case more: False
      have rec: "catchUpLoop s1 ?cur (fst stored) = (db', Inr s')"
        using "1.prems"(2) more unfolding loop s1 by simp
      have "stored = (if snd (fold_rows ?p rows, last_sequence ?n rows) > ?n
          then store_snapshot (fst (fold_rows ?p rows, last_sequence ?n rows))
            (snd (fold_rows ?p rows, last_sequence ?n rows)) (rr_recordedAt (last (rp_events page))) db
          else (db, Inr s))" by (simp add: stored_def)
      from "1.IH" [OF page nm events fold this refl s1 more onward rec] show ?thesis
        unfolding rows un goal by (simp add: turn(1,2))
    qed
  qed
qed

text \<open>
  When the catch-up returns: no event is rejected and every projection on the way may be stored. The
  second part is what the limits of the log give, see the theory of the projection limits.
\<close>

definition keepable :: "runtime_db \<Rightarrow> goal_runtime_projection \<Rightarrow> int \<Rightarrow> bool" where
  "keepable db p n \<longleftrightarrow> storable p \<and> cursor_ok n \<and> snapshot_validateStoredScope p n db"

definition foldable :: "runtime_db \<Rightarrow> goal_runtime_projection \<Rightarrow> int \<Rightarrow> runtime_event_row list \<Rightarrow> bool" where
  "foldable db p n rows \<longleftrightarrow> accepts p rows
     \<and> (\<forall>k \<le> length rows. 0 < k \<longrightarrow> keepable db (fold_rows p (take k rows)) (last_sequence n (take k rows)))"

lemma accepts_append: "accepts p (xs @ ys) \<longleftrightarrow> accepts p xs \<and> accepts (fold_rows p xs) ys"
  by (induction xs arbitrary: p) (auto simp: fold_rows_def)

lemma keepable_same:
  "rd_goals db' = rd_goals db \<Longrightarrow> rd_events db' = rd_events db \<Longrightarrow> keepable db' = keepable db"
  by (intro ext) (simp only: keepable_def snapshot_validateStoredScope_def)

lemma foldable_same:
  assumes "rd_goals db' = rd_goals db" "rd_events db' = rd_events db"
  shows "foldable db' = foldable db"
  by (intro ext) (simp only: foldable_def keepable_same [OF assms])

lemma foldable_append:
  assumes "foldable db p n (xs @ ys)"
  shows "accepts p xs" "xs \<noteq> [] \<Longrightarrow> keepable db (fold_rows p xs) (last_sequence n xs)"
    "foldable db (fold_rows p xs) (last_sequence n xs) ys"
proof -
  note all = assms [unfolded foldable_def accepts_append]
  show "accepts p xs" using all by simp
  show "keepable db (fold_rows p xs) (last_sequence n xs)" if "xs \<noteq> []"
    using all [THEN conjunct2, THEN spec, of "length xs"] that by simp
  have "keepable db (fold_rows (fold_rows p xs) (take k ys)) (last_sequence (last_sequence n xs) (take k ys))"
    if "k \<le> length ys" "0 < k" for k
    using all [THEN conjunct2, THEN spec, of "length xs + k"] that by simp
  then show "foldable db (fold_rows p xs) (last_sequence n xs) ys" using all by (simp add: foldable_def)
qed

lemma store_newer:
  assumes "snapshots_wf db" "keepable db p n" "requiredIso t"
    and "\<And>s. snapshot_of db (pj_goalId p) = Some s \<Longrightarrow> gs_lastEventSequence s < n"
  shows "\<exists>db' s. store_snapshot p n t db = (db', Inr s)"
proof -
  have "may_store p n t db" using assms(2,3) by (simp add: may_store_def keepable_def)
  from store_closed [OF assms(1) this] show ?thesis
    using assms(4) by (auto simp: store_snapshot_def split: option.splits)
qed

lemma record_iso: "read_event_row row = Inr rec \<Longrightarrow> requiredIso (rr_recordedAt rec)"
  by (simp add: read_event_row_iff record_sound_def requiredIso_def)

lemma page_iso:
  assumes "log_wf db" "replayWorkspaceGoalRuntimeEvents w (Some c) k db = Inr page" "rp_events page \<noteq> []"
  shows "requiredIso (rr_recordedAt (last (rp_events page)))"
proof -
  obtain taken where "list_all2 (\<lambda>x y. read_event_row x = Inr y) taken (rp_events page)"
    using replay_page_rows [OF assms(1,2)] by blast
  from list_all2_rightD [OF this last_in_set [OF assms(3)]] show ?thesis using record_iso by blast
qed

lemma catchUpLoop_returns:
  assumes "loop_ready db s c"
    "foldable db (gs_projection s) (gs_lastEventSequence s) (unseen db (pj_goalId (gs_projection s)) c)"
  shows "\<exists>db' s'. catchUpLoop s c db = (db', Inr s')"
  using assms
proof (induction s c db rule: catchUpLoop.induct)
  case (1 s c db)
  let ?p = "gs_projection s" and ?n = "gs_lastEventSequence s"
  note ready = "1.prems"(1) [unfolded loop_ready_def Let_def]
  then have wf: "runtime_wf db" "snapshot_of db (pj_goalId ?p) = Some s" by simp_all
  then have parts: "snapshots_wf db" "log_wf db" by (simp_all add: runtime_wf_def)
  obtain page where page: "replayWorkspaceGoalRuntimeEvents (pj_workspaceId ?p) (Some c) EVENT_REPLAY_PAGE_SIZE db = Inr page"
      and nm: "\<not> rp_replayWindowMissed page"
    using loop_pageE [OF "1.prems"(1)] by blast
  show ?case
  proof (cases "rp_events page = []")
    case True
    then show ?thesis using page nm by (subst catchUpLoop.simps) simp
  next
    case events: False
    let ?cur = "rr_sequence (last (rp_events page))"
    obtain rows where split: "page_split db ?p c page rows"
      using page_split_exists [OF wf(1) snapshot_scope(2) [OF wf] page events] ..
    note facts = split [unfolded page_split_def Let_def]
    then have rows: "unseen db (pj_goalId ?p) c = rows @ unseen db (pj_goalId ?p) ?cur"
        and closed: "\<And>n. replay_page ?p n (rp_events page) = (if accepts ?p rows
          then Inr (fold_rows ?p rows, last_sequence n rows) else Inl Ce_projection_rejected)"
        and win: "in_window db (pj_workspaceId ?p) ?cur"
        and after: "c < ?cur" "\<forall>r \<in> set rows. vr_sequence r \<le> ?cur" by simp_all
    note can = foldable_append [OF "1.prems"(2) [unfolded rows]]
    have fold: "replay_page ?p ?n (rp_events page) = Inr (fold_rows ?p rows, last_sequence ?n rows)"
      using closed can(1) by simp
    define stored where "stored = (if last_sequence ?n rows > ?n
      then store_snapshot (fold_rows ?p rows) (last_sequence ?n rows)
        (rr_recordedAt (last (rp_events page))) db else (db, Inr s))"
    note loop = catchUpLoop_page [OF page nm events fold stored_def]
    have "\<exists>db1 s1. stored = (db1, Inr s1)"
    proof (cases "last_sequence ?n rows > ?n")
      case True
      then have "rows \<noteq> []" by (auto simp: last_sequence_def split: if_splits)
      then show ?thesis
        using store_newer [OF parts(1) can(2) page_iso [OF parts(2) page events]] True wf(2)
        by (auto simp: stored_def)
    qed (simp add: stored_def)
    then obtain s1 where s1: "snd stored = Inr s1" by auto
    note turn = loop_next [OF "1.prems"(1) rows after win refl stored_def s1]
    have onward: "loop_ready (fst stored) s1 ?cur" by (rule turn)
    show ?thesis
    proof (cases "case rp_latestSequence page of None \<Rightarrow> True | Some l \<Rightarrow> ?cur \<ge> l")
      case True
      then show ?thesis unfolding loop s1 by simp
    next
      case more: False
      have eq: "stored = (if snd (fold_rows ?p rows, last_sequence ?n rows) > ?n
          then store_snapshot (fst (fold_rows ?p rows, last_sequence ?n rows))
            (snd (fold_rows ?p rows, last_sequence ?n rows)) (rr_recordedAt (last (rp_events page))) db
          else (db, Inr s))" by (simp add: stored_def)
      note same = turn(5,6)
      have "foldable (fst stored) (gs_projection s1) (gs_lastEventSequence s1)
          (unseen (fst stored) (pj_goalId (gs_projection s1)) ?cur)"
        unfolding foldable_same [OF same] turn(3) using can(3) by (simp add: turn(1,2))
      from "1.IH" [OF page nm events fold eq refl s1 more onward this]
      show ?thesis using more unfolding loop s1 by simp
    qed
  qed
qed

section \<open>The whole catch-up\<close>

text \<open>
  A snapshot at sequence zero reads the events of its goal alone, at most one page of them; any other
  one needs its cursor in the window.
\<close>

definition replayable :: "runtime_db \<Rightarrow> snapshot_record \<Rightarrow> bool" where
  "replayable db s \<longleftrightarrow> (if gs_lastEventSequence s = 0
     then int (length (unseen db (pj_goalId (gs_projection s)) 0)) < EVENT_REPLAY_PAGE_SIZE
     else in_window db (pj_workspaceId (gs_projection s)) (gs_lastEventSequence s))"

lemma unseen_zero: "log_wf db \<Longrightarrow> unseen db g 0 = filter (\<lambda>r. vr_goal_id r = g) (rd_events db)"
  unfolding unseen_def by (intro filter_cong) (auto dest: log_wf_row(2))

lemma list_own:
  assumes "log_wf db" "event_identifier g" "int (length (unseen db g 0)) < EVENT_REPLAY_PAGE_SIZE"
  obtains recs where "listGoalRuntimeEvents g EVENT_REPLAY_PAGE_SIZE db = Inr recs"
    "list_all2 (\<lambda>x y. read_event_row x = Inr y) (unseen db g 0) (rev recs)"
    "length recs = length (unseen db g 0)"
proof -
  let ?rows = "unseen db g 0"
  have sorted: "sort_key vr_sequence (filter (\<lambda>r. vr_goal_id r = g) (rd_events db)) = ?rows"
    using sort_log_filter [OF assms(1)] unseen_zero [OF assms(1)] by simp
  have "\<forall>r \<in> set (rev ?rows). \<exists>rec. read_event_row r = Inr rec"
    using log_wf_row(3) [OF assms(1)] by (auto simp: unseen_def)
  then obtain recs where recs: "map_ok read_event_row (rev ?rows) = Inr recs"
    using map_ok_total by blast
  then have all2: "list_all2 (\<lambda>x y. read_event_row x = Inr y) (rev ?rows) recs"
    by (simp add: map_ok_Inr_iff)
  have "take (nat (min MAX_REPLAY_LIMIT EVENT_REPLAY_PAGE_SIZE)) (rev ?rows) = rev ?rows"
    using assms(3) by (simp add: MAX_REPLAY_LIMIT_def EVENT_REPLAY_PAGE_SIZE_def)
  then have "listGoalRuntimeEvents g EVENT_REPLAY_PAGE_SIZE db = Inr recs"
    using assms(2) recs sorted by (simp add: listGoalRuntimeEvents_def event_boundedLimit_def
        event_positiveInteger_def EVENT_REPLAY_PAGE_SIZE_def)
  moreover have "list_all2 (\<lambda>x y. read_event_row x = Inr y) ?rows (rev recs)"
    using all2 by (metis list_all2_rev rev_rev_ident)
  ultimately show thesis using that list_all2_lengthD [OF all2] by simp
qed

lemma catchUpFromZero_closed:
  assumes wf: "runtime_wf db" "snapshot_of db (pj_goalId (gs_projection s)) = Some s"
    and zero: "gs_lastEventSequence s = 0" "replayable db s"
  obtains t where "requiredIso t" "catchUpFromZero s db =
    (let rows = unseen db (pj_goalId (gs_projection s)) 0; p = gs_projection s
     in if rows = [] then (db, Inr s)
        else if accepts p rows then store_snapshot (fold_rows p rows) (last_sequence 0 rows) t db
        else (db, Inl Ce_projection_rejected))"
proof -
  let ?p = "gs_projection s" and ?rows = "unseen db (pj_goalId (gs_projection s)) 0"
  have log: "log_wf db" using wf(1) by (simp add: runtime_wf_def)
  have short: "int (length ?rows) < EVENT_REPLAY_PAGE_SIZE"
    using zero by (simp add: replayable_def)
  obtain recs where recs: "listGoalRuntimeEvents (pj_goalId ?p) EVENT_REPLAY_PAGE_SIZE db = Inr recs"
      and all2: "list_all2 (\<lambda>x y. read_event_row x = Inr y) ?rows (rev recs)"
      and len: "length recs = length ?rows"
    using list_own [OF log snapshot_scope(4) [OF wf] short] by blast
  have none: "recs = [] \<longleftrightarrow> ?rows = []" using len by (metis length_0_conv)
  have full: "int (length recs) \<noteq> EVENT_REPLAY_PAGE_SIZE" using short len by simp
  show thesis
  proof (cases "?rows = []")
    case True
    have "requiredIso (gs_updatedAt s)"
    proof -
      have "snapshots_wf db" using wf(1) by (simp add: runtime_wf_def)
      then obtain row where "snapshot_sound s" using wf(2) by (rule snapshot_of_SomeE)
      then show ?thesis by (simp add: snapshot_sound_def)
    qed
    then show thesis
      using that none True recs by (simp add: catchUpFromZero_def and_then_def reading_def)
  next
    case False
    have ne: "recs \<noteq> []" using none False by simp
    show thesis
    proof (rule that [of "rr_recordedAt (last (rev recs))"])
      have "last (rev recs) \<in> set (rev recs)" using ne by (intro last_in_set) simp
      from list_all2_rightD [OF all2 this] show "requiredIso (rr_recordedAt (last (rev recs)))"
        using record_iso by blast
      show "catchUpFromZero s db = (let rows = ?rows; p = ?p
          in if rows = [] then (db, Inr s)
             else if accepts p rows
               then store_snapshot (fold_rows p rows) (last_sequence 0 rows) (rr_recordedAt (last (rev recs))) db
             else (db, Inl Ce_projection_rejected))"
        using recs ne full False replay_own_closed [OF all2]
        by (simp add: catchUpFromZero_def and_then_def reading_def Let_def)
    qed
  qed
qed

lemma loop_ready_initial:
  assumes "runtime_wf db" "snapshot_of db (pj_goalId (gs_projection s)) = Some s"
    "gs_lastEventSequence s \<noteq> 0" "replayable db s"
  shows "loop_ready db s (gs_lastEventSequence s)"
  using assms by (simp add: loop_ready_def Let_def replayable_def)

lemma catch_up_fold:
  assumes wf: "runtime_wf db" "snapshot_of db (pj_goalId (gs_projection s)) = Some s" "replayable db s"
    and res: "catchUpSnapshotUnlocked s db = (db', Inr s')"
  shows "gs_projection s' = fold_rows (gs_projection s)
      (unseen db (pj_goalId (gs_projection s)) (gs_lastEventSequence s))
    \<and> gs_lastEventSequence s' = last_sequence (gs_lastEventSequence s)
      (unseen db (pj_goalId (gs_projection s)) (gs_lastEventSequence s))
    \<and> snapshot_of db' (pj_goalId (gs_projection s)) = Some s'"
proof (cases "gs_lastEventSequence s = 0")
  case False
  then have "catchUpLoop s (gs_lastEventSequence s) db = (db', Inr s')"
    using res by (simp add: catchUpSnapshotUnlocked_def)
  with loop_ready_initial [OF wf(1,2) False wf(3)] show ?thesis by (rule catchUpLoop_fold)
next
  case True
  let ?p = "gs_projection s" and ?rows = "unseen db (pj_goalId (gs_projection s)) 0"
  obtain t where closed: "catchUpFromZero s db =
      (let rows = ?rows; p = ?p
       in if rows = [] then (db, Inr s)
          else if accepts p rows then store_snapshot (fold_rows p rows) (last_sequence 0 rows) t db
          else (db, Inl Ce_projection_rejected))"
    by (rule catchUpFromZero_closed [OF wf(1,2) True wf(3)])
  show ?thesis
  proof (cases "?rows = []")
    case none: True
    then show ?thesis using closed res True wf(2) by (simp add: catchUpSnapshotUnlocked_def)
  next
    case some: False
    then have "store_snapshot (fold_rows ?p ?rows) (last_sequence 0 ?rows) t db = (db', Inr s')"
      using closed res True by (simp add: catchUpSnapshotUnlocked_def Let_def split: if_splits)
    moreover have "snapshots_wf db" using wf(1) by (simp add: runtime_wf_def)
    ultimately show ?thesis using store_snapshot_result(1,2,4) True by (metis fold_rows_same(1))
  qed
qed

lemma catch_up_returns:
  assumes wf: "runtime_wf db" "snapshot_of db (pj_goalId (gs_projection s)) = Some s" "replayable db s"
    and can: "foldable db (gs_projection s) (gs_lastEventSequence s)
      (unseen db (pj_goalId (gs_projection s)) (gs_lastEventSequence s))"
  shows "\<exists>db' s'. catchUpSnapshotUnlocked s db = (db', Inr s')"
proof (cases "gs_lastEventSequence s = 0")
  case False
  then show ?thesis
    using catchUpLoop_returns [OF loop_ready_initial [OF wf(1,2) False wf(3)] can]
    by (simp add: catchUpSnapshotUnlocked_def)
next
  case True
  let ?p = "gs_projection s" and ?rows = "unseen db (pj_goalId (gs_projection s)) 0"
  obtain t where t: "requiredIso t" and closed: "catchUpFromZero s db =
      (let rows = ?rows; p = ?p
       in if rows = [] then (db, Inr s)
          else if accepts p rows then store_snapshot (fold_rows p rows) (last_sequence 0 rows) t db
          else (db, Inl Ce_projection_rejected))"
    by (rule catchUpFromZero_closed [OF wf(1,2) True wf(3)])
  show ?thesis
  proof (cases "?rows = []")
    case none: True
    then show ?thesis using closed True by (simp add: catchUpSnapshotUnlocked_def)
  next
    case some: False
    have can': "accepts ?p ?rows" "keepable db (fold_rows ?p ?rows) (last_sequence 0 ?rows)"
      using foldable_append(1,2) [of db ?p 0 ?rows "[]"] can True some by simp_all
    have "snapshots_wf db" using wf(1) by (simp add: runtime_wf_def)
    moreover have "0 < last_sequence 0 ?rows"
      using last_in_set [OF some] some by (auto simp: last_sequence_def unseen_def)
    ultimately have "\<exists>db' s'. store_snapshot (fold_rows ?p ?rows) (last_sequence 0 ?rows) t db = (db', Inr s')"
      using store_newer [OF _ can'(2) t] wf(2) True by simp
    then show ?thesis using closed can'(1) some True by (simp add: catchUpSnapshotUnlocked_def Let_def)
  qed
qed

text \<open>
  A goal is blocked when an event its snapshot has not seen will be rejected on the way. Nothing the
  service does for the goal then gets past the catch-up.
\<close>

definition blocked_snapshot :: "runtime_db \<Rightarrow> snapshot_record \<Rightarrow> bool" where
  "blocked_snapshot db s \<longleftrightarrow> runtime_wf db \<and> snapshot_of db (pj_goalId (gs_projection s)) = Some s
     \<and> replayable db s
     \<and> \<not> accepts (gs_projection s) (unseen db (pj_goalId (gs_projection s)) (gs_lastEventSequence s))"

definition blocked_goal :: "runtime_db \<Rightarrow> string \<Rightarrow> bool" where
  "blocked_goal db i \<longleftrightarrow> (\<exists>s. snapshot_of db i = Some s \<and> blocked_snapshot db s)"

lemma row_in_window:
  assumes "runtime_wf db" "in_scope db p" "r \<in> set (unseen db (pj_goalId p) n)"
  shows "in_window db (pj_workspaceId p) (vr_sequence r)"
proof -
  have "r \<in> set (events_of_workspace db (pj_workspaceId p))"
    using assms(3) unfolding unseen_workspace [OF assms(1,2)] by simp
  then obtain lo hi where "sequence_bounds (events_of_workspace db (pj_workspaceId p)) = (Some lo, Some hi)"
      "lo \<le> vr_sequence r"
    by (rule sequence_bounds_in)
  then show ?thesis by (simp add: in_window_def window_missed_def)
qed

lemma catchUpLoop_blocked:
  assumes "loop_ready db s c" "in_window db (pj_workspaceId (gs_projection s)) (gs_lastEventSequence s)"
    "gs_lastEventSequence s \<noteq> 0" "\<not> accepts (gs_projection s) (unseen db (pj_goalId (gs_projection s)) c)"
  shows "\<exists>db' e. catchUpLoop s c db = (db', Inl e) \<and> rd_events db' = rd_events db
    \<and> blocked_goal db' (pj_goalId (gs_projection s))"
  using assms
proof (induction s c db rule: catchUpLoop.induct)
  case (1 s c db)
  let ?p = "gs_projection s" and ?n = "gs_lastEventSequence s"
  note ready = "1.prems"(1) [unfolded loop_ready_def Let_def]
  then have wf: "runtime_wf db" "snapshot_of db (pj_goalId ?p) = Some s" by simp_all
  have here: "blocked_goal db (pj_goalId ?p)"
    using ready "1.prems"(2-4) by (simp add: blocked_goal_def blocked_snapshot_def replayable_def)
  obtain page where page: "replayWorkspaceGoalRuntimeEvents (pj_workspaceId ?p) (Some c) EVENT_REPLAY_PAGE_SIZE db = Inr page"
      and nm: "\<not> rp_replayWindowMissed page"
      and none: "rp_events page = [] \<Longrightarrow> unseen db (pj_goalId ?p) c = []"
    using loop_pageE [OF "1.prems"(1)] by blast
  have events: "rp_events page \<noteq> []" using none "1.prems"(4) by force
  let ?cur = "rr_sequence (last (rp_events page))"
  obtain rows where split: "page_split db ?p c page rows"
    using page_split_exists [OF wf(1) snapshot_scope(2) [OF wf] page events] ..
  note facts = split [unfolded page_split_def Let_def]
  then have rows: "unseen db (pj_goalId ?p) c = rows @ unseen db (pj_goalId ?p) ?cur"
      and closed: "\<And>n. replay_page ?p n (rp_events page) = (if accepts ?p rows
        then Inr (fold_rows ?p rows, last_sequence n rows) else Inl Ce_projection_rejected)"
      and win: "in_window db (pj_workspaceId ?p) ?cur"
      and after: "c < ?cur" "\<forall>r \<in> set rows. vr_sequence r \<le> ?cur" by simp_all
  have stop: "(case rp_latestSequence page of None \<Rightarrow> True | Some l \<Rightarrow> ?cur \<ge> l)
      \<Longrightarrow> unseen db (pj_goalId ?p) ?cur = []" using facts by blast
  show ?case
  proof (cases "accepts ?p rows")
    case False
    then have "catchUpLoop s c db = (db, Inl Ce_projection_rejected)"
      using page nm events closed by (subst catchUpLoop.simps) simp
    then show ?thesis using here by blast
  next
    case True
    then have fold: "replay_page ?p ?n (rp_events page) = Inr (fold_rows ?p rows, last_sequence ?n rows)"
      using closed by simp
    have rejected: "\<not> accepts (fold_rows ?p rows) (unseen db (pj_goalId ?p) ?cur)"
      using "1.prems"(4) True unfolding rows accepts_append by simp
    then have more: "\<not> (case rp_latestSequence page of None \<Rightarrow> True | Some l \<Rightarrow> ?cur \<ge> l)"
      using stop by force
    define stored where "stored = (if last_sequence ?n rows > ?n
      then store_snapshot (fold_rows ?p rows) (last_sequence ?n rows)
        (rr_recordedAt (last (rp_events page))) db else (db, Inr s))"
    note loop = catchUpLoop_page [OF page nm events fold stored_def]
    show ?thesis
    proof (cases "snd stored")
      case (Inl e)
      then have "fst stored = db"
        by (auto simp: stored_def store_snapshot_def split: if_splits sum.splits)
      then show ?thesis unfolding loop Inl using here by simp
    next
      case (Inr s1)
      note turn = loop_next [OF "1.prems"(1) rows after win refl stored_def Inr]
      have onward: "loop_ready (fst stored) s1 ?cur" by (rule turn)
      have same: "pj_goalId (gs_projection s1) = pj_goalId ?p" "pj_workspaceId (gs_projection s1) = pj_workspaceId ?p"
        by (simp_all add: turn(1))
      have win1: "in_window (fst stored) (pj_workspaceId (gs_projection s1)) (gs_lastEventSequence s1)"
      proof -
        have "in_window db (pj_workspaceId ?p) (last_sequence ?n rows)"
        proof (cases "rows = []")
          case nil: True
          then show ?thesis using "1.prems"(2) by simp
        next
          case some: False
          then have "last rows \<in> set (unseen db (pj_goalId ?p) c)" unfolding rows by simp
          from row_in_window [OF wf(1) snapshot_scope(2) [OF wf] this] some show ?thesis
            by (simp add: last_sequence_def)
        qed
        then show ?thesis
          by (simp add: same turn(2) in_window_def events_of_workspace_same [OF turn(6)])
      qed
      have nz: "gs_lastEventSequence s1 \<noteq> 0"
      proof (cases "rows = []")
        case some: False
        then have "last rows \<in> set (unseen db (pj_goalId ?p) c)" unfolding rows by simp
        then have "c < vr_sequence (last rows)" by (simp add: unseen_def)
        moreover have "0 \<le> c" using ready snapshot_scope(5) [OF wf] by simp
        ultimately show ?thesis using some by (simp add: turn(2) last_sequence_def)
      qed (simp add: turn(2) "1.prems"(3))
      have eq: "stored = (if snd (fold_rows ?p rows, last_sequence ?n rows) > ?n
          then store_snapshot (fst (fold_rows ?p rows, last_sequence ?n rows))
            (snd (fold_rows ?p rows, last_sequence ?n rows)) (rr_recordedAt (last (rp_events page))) db
          else (db, Inr s))" by (simp add: stored_def)
      have rejected1: "\<not> accepts (gs_projection s1) (unseen (fst stored) (pj_goalId (gs_projection s1)) ?cur)"
        using rejected by (simp add: turn(1,3))
      from "1.IH" [OF page nm events fold eq refl Inr more onward win1 nz rejected1]
      show ?thesis using more turn(6) unfolding loop Inr same by simp
    qed
  qed
qed

lemma catch_up_blocked:
  assumes "blocked_snapshot db s"
  shows "\<exists>db' e. catchUpSnapshotUnlocked s db = (db', Inl e) \<and> rd_events db' = rd_events db
    \<and> blocked_goal db' (pj_goalId (gs_projection s))"
proof -
  have wf: "runtime_wf db" "snapshot_of db (pj_goalId (gs_projection s)) = Some s" "replayable db s"
    and rejected: "\<not> accepts (gs_projection s)
      (unseen db (pj_goalId (gs_projection s)) (gs_lastEventSequence s))"
    using assms by (simp_all add: blocked_snapshot_def)
  show ?thesis
  proof (cases "gs_lastEventSequence s = 0")
    case False
    have "in_window db (pj_workspaceId (gs_projection s)) (gs_lastEventSequence s)"
      using wf(3) False by (simp add: replayable_def)
    from catchUpLoop_blocked [OF loop_ready_initial [OF wf(1,2) False wf(3)] this False rejected]
    show ?thesis using False by (simp add: catchUpSnapshotUnlocked_def)
  next
    case True
    obtain t where closed: "catchUpFromZero s db =
        (let rows = unseen db (pj_goalId (gs_projection s)) 0; p = gs_projection s
         in if rows = [] then (db, Inr s)
            else if accepts p rows then store_snapshot (fold_rows p rows) (last_sequence 0 rows) t db
            else (db, Inl Ce_projection_rejected))"
      by (rule catchUpFromZero_closed [OF wf(1,2) True wf(3)])
    have "unseen db (pj_goalId (gs_projection s)) 0 \<noteq> []" using rejected True by force
    then have "catchUpSnapshotUnlocked s db = (db, Inl Ce_projection_rejected)"
      using closed rejected True by (simp add: catchUpSnapshotUnlocked_def Let_def)
    moreover have "blocked_goal db (pj_goalId (gs_projection s))"
      using assms wf(2) by (auto simp: blocked_goal_def)
    ultimately show ?thesis by simp
  qed
qed

lemma ensure_existing:
  assumes "runtime_wf db" "snapshot_of db i = Some s"
  shows "ensureGoalSnapshotUnlocked i db = (db, Inr s)"
proof -
  have "snapshots_wf db" using assms(1) by (simp add: runtime_wf_def)
  from get_snapshot_wf [OF this snapshot_scope(7) [OF assms]] assms(2) show ?thesis
    by (simp add: ensureGoalSnapshotUnlocked_def and_then_def reading_def)
qed

lemma blocked_operations:
  assumes "blocked_goal db i"
  shows "ev_goalId (event_base event) = i \<Longrightarrow> \<exists>db' e. publishGoalRuntimeEvent env event db = (db', Inl e)
      \<and> rd_events db' = rd_events db \<and> blocked_goal db' i"
    "\<exists>db' e. ensureGoalSnapshot env i db = (db', Inl e)
      \<and> rd_events db' = rd_events db \<and> blocked_goal db' i"
    "\<exists>db' e. refreshGoalWorkspaceTruth env i db = (db', Inl e)
      \<and> rd_events db' = rd_events db \<and> blocked_goal db' i"
    "\<exists>db' e. bootstrap_goal env observation i db = (db', Inl e)
      \<and> rd_events db' = rd_events db \<and> blocked_goal db' i"
proof -
  obtain s where s: "snapshot_of db i = Some s" "blocked_snapshot db s"
    using assms by (auto simp: blocked_goal_def)
  then have wf: "runtime_wf db" by (simp add: blocked_snapshot_def)
  have id: "pj_goalId (gs_projection s) = i" by (rule snapshot_scope(1) [OF wf s(1)])
  obtain db' e where stuck: "catchUpSnapshotUnlocked s db = (db', Inl e)"
      and kept: "rd_events db' = rd_events db" "blocked_goal db' i"
    using catch_up_blocked [OF s(2)] id by blast
  note eq = ensure_existing [OF wf s(1)] stuck
  have first: "and_then (ensureGoalSnapshotUnlocked i db) (\<lambda>s db. and_then (catchUpSnapshotUnlocked s db) k)
      = (db', Inl e)" for k :: "snapshot_record \<Rightarrow> runtime_db \<Rightarrow> snapshot_record outcome"
    by (simp add: eq and_then_def)
  show "ev_goalId (event_base event) = i \<Longrightarrow> \<exists>db' e. publishGoalRuntimeEvent env event db = (db', Inl e)
      \<and> rd_events db' = rd_events db \<and> blocked_goal db' i"
    "\<exists>db' e. ensureGoalSnapshot env i db = (db', Inl e)
      \<and> rd_events db' = rd_events db \<and> blocked_goal db' i"
    "\<exists>db' e. refreshGoalWorkspaceTruth env i db = (db', Inl e)
      \<and> rd_events db' = rd_events db \<and> blocked_goal db' i"
    "\<exists>db' e. bootstrap_goal env observation i db = (db', Inl e)
      \<and> rd_events db' = rd_events db \<and> blocked_goal db' i"
    unfolding publishGoalRuntimeEvent_def ensureGoalSnapshot_def refreshGoalWorkspaceTruth_def
      bootstrap_goal_def
    using kept by (simp_all add: first)
qed

end
