(* ===== verification/Runtime_Publishing.thy ===== *)
theory Runtime_Publishing
  imports Runtime_Catch_Up
begin

text \<open>
  What the operations leave behind: after a catch-up no event of the goal is unseen, also when the cursor
  had fallen out of the window; a blocked goal stays blocked while its events are retained, whatever
  other processes do; and an event that is appended becomes exactly the next step of the snapshot.
\<close>

section \<open>After a catch-up nothing is unseen\<close>

lemma unseen_Nil_iff: "unseen db g n = [] \<longleftrightarrow> (\<forall>r \<in> set (rd_events db). vr_goal_id r = g \<longrightarrow> vr_sequence r \<le> n)"
  by (auto simp: unseen_def filter_empty_conv not_less)

lemma snapshot_cursor:
  assumes "runtime_wf db" "snapshot_of db i = Some s"
  shows "gs_lastEventSequence s \<le> rd_sequence db"
proof -
  have wf: "snapshots_wf db" using assms(1) by (simp add: runtime_wf_def)
  obtain row where row: "find_snapshot db i = Some row" "row = row_of_record s"
    by (rule snapshot_of_SomeE [OF wf assms(2)])
  have "snapshot_in_scope db row" using wf find_snapshot_SomeD [OF row(1)] by (simp add: snapshots_wf_def)
  then show ?thesis by (simp add: row(2) snapshot_in_scope_def row_of_record_def)
qed

lemma unseen_after_last:
  assumes "log_wf db"
  shows "unseen db g (last_sequence n (unseen db g n)) = []"
proof (cases "unseen db g n = []")
  case False
  have le: "vr_sequence r \<le> vr_sequence (last (unseen db g n))" if r: "r \<in> set (unseen db g n)" for r
  proof -
    have "sorted (map vr_sequence (unseen db g n))"
      using sorted_filter_log [OF assms] unfolding unseen_def sorted_map
      by (rule sorted_wrt_mono_rel [rotated]) simp
    then have "vr_sequence r \<le> last (map vr_sequence (unseen db g n))"
      using r False by (simp add: in_set_conv_nth last_conv_nth sorted_iff_nth_mono) (metis False One_nat_def
        Suc_pred diff_less length_greater_0_conv less_Suc_eq_le lessI nth_map)
    then show ?thesis using False by (simp add: last_map)
  qed
  have "n < vr_sequence (last (unseen db g n))" using last_in_set [OF False] by (simp add: unseen_def)
  then have "\<not> (vr_sequence (last (unseen db g n)) < vr_sequence r)" if "r \<in> set (rd_events db)" "vr_goal_id r = g" for r
    using le [of r] that by (fastforce simp: unseen_def)
  then show ?thesis using False unfolding last_sequence_def by (auto simp: unseen_def filter_empty_conv)
qed (simp add: last_sequence_def)

text \<open>The newest events of a goal, newest first.\<close>

lemma list_newest:
  assumes wf: "log_wf db" "event_identifier g"
  obtains recs where "listGoalRuntimeEvents g EVENT_REPLAY_PAGE_SIZE db = Inr recs"
    "list_all2 (\<lambda>x y. read_event_row x = Inr y) (take 500 (rev (unseen db g 0))) recs"
    "length recs = min 500 (length (unseen db g 0))"
proof -
  let ?rows = "take 500 (rev (unseen db g 0))"
  have sorted: "sort_key vr_sequence (filter (\<lambda>r. vr_goal_id r = g) (rd_events db)) = unseen db g 0"
    using sort_log_filter [OF wf(1)] unseen_zero [OF wf(1)] by simp
  have "\<forall>r \<in> set ?rows. \<exists>rec. read_event_row r = Inr rec"
    using log_wf_row(3) [OF wf(1)] by (auto simp: unseen_def dest: in_set_takeD)
  then obtain recs where recs: "map_ok read_event_row ?rows = Inr recs" using map_ok_total by blast
  then have all2: "list_all2 (\<lambda>x y. read_event_row x = Inr y) ?rows recs" by (simp add: map_ok_Inr_iff)
  have "listGoalRuntimeEvents g EVENT_REPLAY_PAGE_SIZE db = Inr recs"
    using wf(2) recs sorted by (simp add: listGoalRuntimeEvents_def event_boundedLimit_def
        event_positiveInteger_def EVENT_REPLAY_PAGE_SIZE_def MAX_REPLAY_LIMIT_def)
  from that [OF this all2] list_all2_lengthD [OF all2] show thesis by simp
qed

lemma fold_tolerant_goal: "pj_goalId (fold_tolerant p recs) = pj_goalId p"
proof (induction recs arbitrary: p)
  case (Cons r recs)
  have "pj_goalId (case projectGoalRuntimeEvent p (rr_event r) of (Reject _, _) \<Rightarrow> p | (_, q) \<Rightarrow> q) = pj_goalId p"
    using project_goal_same [of p "rr_event r"] by (cases "projectGoalRuntimeEvent p (rr_event r)")
      (auto split: goal_runtime_event_decision.splits)
  then show ?case using Cons by (simp add: fold_tolerant_def)
qed (simp add: fold_tolerant_def)

lemma durable_goal: "pj_goalId (projectionFromDurableGoal goal) = g_id goal"
  by (simp add: projectionFromDurableGoal_def durable_base_def Let_def split: goal_status.splits)

text \<open>The recovery of a snapshot whose window is missed skips what the projector rejects.\<close>

lemma recovered:
  assumes wf: "runtime_wf db" "snapshot_of db (pj_goalId (gs_projection s)) = Some s"
    and res: "recoverAfterReplayWindowMissUnlocked s db = (db', r)"
  shows "r \<noteq> Inl Ce_projection_rejected" "rd_events db' = rd_events db"
    "r = Inr s' \<Longrightarrow> snapshot_of db' (pj_goalId (gs_projection s)) = Some s'
       \<and> unseen db (pj_goalId (gs_projection s)) (gs_lastEventSequence s') = []"
proof -
  let ?g = "pj_goalId (gs_projection s)" and ?c = "gs_lastEventSequence s"
  let ?rows = "unseen db (pj_goalId (gs_projection s)) 0"
  have log: "log_wf db" and snaps: "snapshots_wf db" using wf(1) by (simp_all add: runtime_wf_def)
  obtain recs where recs: "listGoalRuntimeEvents ?g EVENT_REPLAY_PAGE_SIZE db = Inr recs"
      and all2: "list_all2 (\<lambda>x y. read_event_row x = Inr y) (take 500 (rev ?rows)) recs"
      and len: "length recs = min 500 (length ?rows)"
    by (rule list_newest [OF log snapshot_scope(4) [OF wf]])
  have newest: "rr_sequence (hd recs) = last_sequence 0 ?rows" if "recs \<noteq> []"
  proof -
    have ne: "?rows \<noteq> []" using that len by auto
    obtain x xs where x: "take 500 (rev ?rows) = x # xs" "x = last ?rows"
      using ne by (cases ?rows rule: rev_cases) auto
    obtain y ys where "recs = y # ys" "read_event_row x = Inr y"
      using all2 unfolding x(1) by (auto simp: list_all2_Cons1)
    then show ?thesis using x(2) ne read_event_row_sequence by (simp add: last_sequence_def)
  qed
  have seen: "unseen db ?g (last_sequence 0 ?rows) = []" by (rule unseen_after_last [OF log])
  have below: "unseen db ?g n = []" if "last_sequence 0 ?rows \<le> n" for n
    using seen that unfolding unseen_Nil_iff by force
  have all: "r \<noteq> Inl Ce_projection_rejected \<and> rd_events db' = rd_events db \<and>
      (\<forall>s'. r = Inr s' \<longrightarrow> snapshot_of db' ?g = Some s' \<and> unseen db ?g (gs_lastEventSequence s') = [])"
  proof (cases "filter (\<lambda>r. rr_sequence r > ?c) recs")
    case Nil
    then have kept: "db' = db" "r = Inr s"
      using res recs by (simp_all add: recoverAfterReplayWindowMissUnlocked_def and_then_def reading_def)
    have "last_sequence 0 ?rows \<le> ?c"
    proof (cases "recs = []")
      case True
      then have "length ?rows = 0" using len by (simp add: min_def split: if_splits)
      then show ?thesis using snapshot_scope(5) [OF wf] by (simp add: last_sequence_def)
    next
      case False
      then have "hd recs \<in> set recs" by simp
      then have "\<not> rr_sequence (hd recs) > ?c" using Nil by (auto simp: filter_empty_conv)
      then show ?thesis using newest [OF False] by simp
    qed
    then show ?thesis using kept wf(2) below by simp
  next
    case (Cons y ys)
    then have ne: "recs \<noteq> []" by auto
    let ?get = "goal_by_id ?g db"
    have open_: "(db', r) = and_then ?get (\<lambda>goal db. store_snapshot (fold_tolerant (projectionFromDurableGoal goal)
        (rev recs)) (rr_sequence (hd recs)) (rr_recordedAt (hd recs)) db)"
      using res recs Cons by (simp add: recoverAfterReplayWindowMissUnlocked_def and_then_def reading_def)
    show ?thesis
    proof (cases "snd ?get")
      case (Inl e)
      then have "db' = db" "r = Inl e" using open_ by (simp_all add: and_then_def)
      moreover have "e \<noteq> Ce_projection_rejected"
        using Inl by (auto simp: goal_by_id_def reading_def split: option.splits sum.splits)
      ultimately show ?thesis by simp
    next
      case (Inr goal)
      let ?p = "fold_tolerant (projectionFromDurableGoal goal) (rev recs)"
      have st: "(db', r) = store_snapshot ?p (rr_sequence (hd recs)) (rr_recordedAt (hd recs)) db"
        using open_ Inr by (simp add: and_then_def)
      have "g_id goal = ?g"
        using Inr by (auto simp: goal_by_id_def toGoalRecord_fields split: option.splits dest: selectById_SomeD)
      then have id: "pj_goalId ?p = ?g" by (simp add: fold_tolerant_goal durable_goal)
      have "r \<noteq> Inl Ce_projection_rejected"
        using st by (auto simp: store_snapshot_def split: sum.splits)
      moreover have "rd_events db' = rd_events db" using store_snapshot_events arg_cong [OF st, of fst] by simp
      moreover have "snapshot_of db' ?g = Some s' \<and> unseen db ?g (gs_lastEventSequence s') = []" if "r = Inr s'" for s'
        using store_snapshot_result(2,4) [OF snaps st [unfolded that, symmetric]] newest [OF ne] seen id by simp
      ultimately show ?thesis by blast
    qed
  qed
  then show "r \<noteq> Inl Ce_projection_rejected" "rd_events db' = rd_events db"
    "r = Inr s' \<Longrightarrow> snapshot_of db' ?g = Some s' \<and> unseen db ?g (gs_lastEventSequence s') = []" by blast+
qed

text \<open>Outside the window the loop goes to the recovery at once.\<close>

lemma catch_up_missed:
  assumes wf: "runtime_wf db" "snapshot_of db (pj_goalId (gs_projection s)) = Some s"
    and miss: "gs_lastEventSequence s \<noteq> 0" "\<not> replayable db s"
  shows "catchUpSnapshotUnlocked s db = recoverAfterReplayWindowMissUnlocked s db"
proof -
  let ?w = "pj_workspaceId (gs_projection s)" and ?c = "gs_lastEventSequence s"
  have log: "log_wf db" using wf(1) by (simp add: runtime_wf_def)
  obtain page where page: "replayWorkspaceGoalRuntimeEvents ?w (Some ?c) EVENT_REPLAY_PAGE_SIZE db = Inr page"
    using replay_reads [OF log snapshot_scope(3,5) [OF wf]] by blast
  have "rp_replayWindowMissed page = window_missed (Some ?c) (fst (sequence_bounds (events_of_workspace db ?w)))"
    by (rule replay_page_rows [OF log page])
  then have "rp_replayWindowMissed page" using miss by (simp add: replayable_def in_window_def)
  then have "catchUpLoop s ?c db = recoverAfterReplayWindowMissUnlocked s db"
    using page by (subst catchUpLoop.simps) simp
  then show ?thesis using miss(1) by (simp add: catchUpSnapshotUnlocked_def)
qed

lemma catch_up_events [simp]: "rd_events (fst (catchUpSnapshotUnlocked s db)) = rd_events db"
proof -
  have kept: "rd_events (fst (and_then r k)) = rd_events db"
    if "rd_events (fst r) = rd_events db" "\<And>a d. snd r = Inr a \<Longrightarrow> rd_events (fst (k a d)) = rd_events d" for r k
    using that by (auto simp: and_then_def split: sum.splits)
  have recover: "rd_events (fst (recoverAfterReplayWindowMissUnlocked s db)) = rd_events db" for s db
    unfolding recoverAfterReplayWindowMissUnlocked_def and_then_def
    by (auto split: sum.splits list.splits)
  have "rd_events (fst (catchUpLoop s c db)) = rd_events db" for s c db
  proof (induction s c db rule: catchUpLoop.induct)
    case (1 s c db)
    show ?case
    proof (cases "replayWorkspaceGoalRuntimeEvents (pj_workspaceId (gs_projection s)) (Some c)
        EVENT_REPLAY_PAGE_SIZE db")
      case (Inr page)
      show ?thesis
      proof (cases "rp_replayWindowMissed page \<or> rp_events page = []")
        case True
        then show ?thesis by (subst catchUpLoop.simps) (auto simp: Inr recover)
      next
        case go: False
        show ?thesis
        proof (cases "replay_page (gs_projection s) (gs_lastEventSequence s) (rp_events page)")
          case fold: (Inr pn)
          let ?stored = "if snd pn > gs_lastEventSequence s
            then store_snapshot (fst pn) (snd pn) (rr_recordedAt (last (rp_events page))) db
            else (db, Inr s)"
          have stored: "rd_events (fst ?stored) = rd_events db" by simp
          show ?thesis
          proof (cases "snd ?stored")
            case (Inl e)
            then show ?thesis using go stored by (subst catchUpLoop.simps) (simp add: Inr fold Let_def)
          next
            case ok: (Inr s')
            show ?thesis
            proof (cases "case rp_latestSequence page of None \<Rightarrow> True
                | Some n \<Rightarrow> rr_sequence (last (rp_events page)) \<ge> n")
              case True
              then show ?thesis
                using go stored ok by (subst catchUpLoop.simps) (simp add: Inr fold Let_def)
            next
              case False
              have "rd_events (fst (catchUpLoop s' (rr_sequence (last (rp_events page))) (fst ?stored)))
                  = rd_events (fst ?stored)"
                using "1.IH" [OF Inr _ _ fold refl refl ok False] go by blast
              then show ?thesis
                using go ok False by (subst catchUpLoop.simps) (simp add: Inr fold Let_def)
            qed
          qed
        qed (use go in \<open>subst catchUpLoop.simps, simp add: Inr\<close>)
      qed
    qed (subst catchUpLoop.simps, simp)
  qed
  then show ?thesis
    by (auto simp: catchUpSnapshotUnlocked_def catchUpFromZero_def and_then_def split: sum.splits)
qed

lemma zero_returns_replayable:
  assumes wf: "runtime_wf db" "snapshot_of db (pj_goalId (gs_projection s)) = Some s"
    and res: "gs_lastEventSequence s = 0" "catchUpSnapshotUnlocked s db = (db', Inr s')"
  shows "replayable db s"
proof -
  have log: "log_wf db" using wf(1) by (simp add: runtime_wf_def)
  obtain recs where recs: "listGoalRuntimeEvents (pj_goalId (gs_projection s)) EVENT_REPLAY_PAGE_SIZE db = Inr recs"
      "length recs = min 500 (length (unseen db (pj_goalId (gs_projection s)) 0))"
    by (rule list_newest [OF log snapshot_scope(4) [OF wf]])
  have "recs \<noteq> []" if "int (length recs) = EVENT_REPLAY_PAGE_SIZE"
    using that by (auto simp: EVENT_REPLAY_PAGE_SIZE_def)
  then have "int (length recs) \<noteq> EVENT_REPLAY_PAGE_SIZE"
    using res recs(1) by (auto simp: catchUpSnapshotUnlocked_def catchUpFromZero_def and_then_def reading_def)
  then show ?thesis using recs(2) res(1) by (simp add: replayable_def EVENT_REPLAY_PAGE_SIZE_def)
qed

lemma caught_up:
  assumes wf: "runtime_wf db" "snapshot_of db (pj_goalId (gs_projection s)) = Some s"
    and res: "catchUpSnapshotUnlocked s db = (db', Inr s')"
  shows "runtime_wf db'" "snapshot_of db' (pj_goalId (gs_projection s)) = Some s'"
    "unseen db' (pj_goalId (gs_projection s)) (gs_lastEventSequence s') = []" "rd_events db' = rd_events db"
proof -
  have log: "log_wf db" using wf(1) by (simp add: runtime_wf_def)
  show "runtime_wf db'" using reaches_moves [OF reaches_catch_up wf(1), of s] res by simp
  show ev: "rd_events db' = rd_events db" using catch_up_events [of s db] res by simp
  show "snapshot_of db' (pj_goalId (gs_projection s)) = Some s'"
    "unseen db' (pj_goalId (gs_projection s)) (gs_lastEventSequence s') = []"
    unfolding unseen_same_events [OF ev] atomize_conj
  proof (cases "replayable db s")
    case True
    from catch_up_fold [OF wf True res] unseen_after_last [OF log]
    show "snapshot_of db' (pj_goalId (gs_projection s)) = Some s'
        \<and> unseen db (pj_goalId (gs_projection s)) (gs_lastEventSequence s') = []" by simp
  next
    case False
    then have nz: "gs_lastEventSequence s \<noteq> 0" using zero_returns_replayable [OF wf _ res] by blast
    show "snapshot_of db' (pj_goalId (gs_projection s)) = Some s'
        \<and> unseen db (pj_goalId (gs_projection s)) (gs_lastEventSequence s') = []"
      using recovered(3) [OF wf _ refl] res unfolding catch_up_missed [OF wf nz False] by blast
  qed
qed

section \<open>A blocked goal stays blocked while its events are retained\<close>

lemma sorted_split:
  fixes f :: "'a \<Rightarrow> int"
  assumes "sorted_wrt (\<lambda>a b. f a < f b) xs"
  shows "xs = filter (\<lambda>x. f x \<le> n) xs @ filter (\<lambda>x. n < f x) xs"
  using assms
proof (induction xs)
  case (Cons x xs)
  show ?case
  proof (cases "f x \<le> n")
    case False
    then have "filter (\<lambda>x. f x \<le> n) xs = []" "filter (\<lambda>x. n < f x) xs = xs"
      using Cons.prems by (auto simp: filter_empty_conv intro!: filter_True)
    then show ?thesis using False by simp
  qed (use Cons in simp)
qed simp

lemma sorted_set_unique:
  fixes f :: "'a \<Rightarrow> int"
  assumes "sorted_wrt (\<lambda>a b. f a < f b) xs" "sorted_wrt (\<lambda>a b. f a < f b) ys" "set xs = set ys"
  shows "xs = ys"
proof -
  have s: "sorted_wrt (<) (map f xs)" "sorted_wrt (<) (map f ys)" using assms by (simp_all add: sorted_wrt_map)
  then have m: "map f xs = map f ys" using assms(3) by (intro strict_sorted_equal) simp_all
  have "inj_on f (set xs)"
    using s(1) by (metis distinct_map strict_sorted_iff)
  then show ?thesis using m assms(3) by (intro map_inj_on [OF m]) simp
qed

text \<open>
  What is unseen in a later state begins with what was unseen before, as long as the cursor is in the
  window; a cursor at the start is not checked against the window, so there the rows must be retained.
\<close>

lemma unseen_grows:
  assumes wf: "runtime_wf db" and moves: "runtime_moves db later"
    and s: "snapshot_of db (pj_goalId (gs_projection s)) = Some s"
    and win: "replayable later s"
    and zero: "gs_lastEventSequence s = 0 \<Longrightarrow> set (unseen db (pj_goalId (gs_projection s)) 0) \<subseteq> set (rd_events later)"
  shows "\<exists>new. unseen later (pj_goalId (gs_projection s)) (gs_lastEventSequence s)
    = unseen db (pj_goalId (gs_projection s)) (gs_lastEventSequence s) @ new"
proof -
  let ?g = "pj_goalId (gs_projection s)" and ?w = "pj_workspaceId (gs_projection s)" and ?c = "gs_lastEventSequence s"
  have log: "log_wf db" "log_wf later" and mv: "log_moves db later"
    using wf moves by (simp_all add: runtime_wf_def runtime_moves_def)
  have kept: "r \<in> set (rd_events later)" if r: "r \<in> set (unseen db ?g ?c)" for r
  proof (cases "?c = 0")
    case True
    then show ?thesis using zero r by auto
  next
    case False
    show ?thesis
    proof (rule ccontr)
      assume gone: "r \<notin> set (rd_events later)"
      have rdb: "r \<in> set (rd_events db)" "?c < vr_sequence r" using r by (auto simp: unseen_def)
      have "vr_workspace_id r = ?w"
        using r unfolding unseen_workspace [OF wf snapshot_scope(2) [OF wf s]] by (auto simp: events_of_workspace_def)
      then obtain x where x: "x \<in> set (events_of_workspace later ?w)"
          and above: "\<And>y. y \<in> set (events_of_workspace later ?w) \<Longrightarrow> vr_sequence r < vr_sequence y"
        using mv rdb(1) gone by (auto simp: log_moves_def events_of_workspace_def)
      obtain lo hi where b: "sequence_bounds (events_of_workspace later ?w) = (Some lo, Some hi)"
        by (rule sequence_bounds_in [OF x])
      obtain y where "y \<in> set (events_of_workspace later ?w)" "vr_sequence y = lo"
        by (rule sequence_bounds_oldest [of "events_of_workspace later ?w" lo]) (simp_all add: b)
      then have "vr_sequence r < lo" using above by blast
      then show False using win False rdb(2) by (simp add: replayable_def in_window_def b window_missed_def)
    qed
  qed
  let ?late = "unseen later ?g ?c"
  have sorted: "sorted_wrt (\<lambda>a b. vr_sequence a < vr_sequence b) ?late"
    "sorted_wrt (\<lambda>a b. vr_sequence a < vr_sequence b) (unseen db ?g ?c)"
    unfolding unseen_def by (rule sorted_filter_log [OF log(2)], rule sorted_filter_log [OF log(1)])
  have "filter (\<lambda>r. vr_sequence r \<le> rd_sequence db) ?late = unseen db ?g ?c"
  proof (rule sorted_set_unique [where f = vr_sequence])
    show "set (filter (\<lambda>r. vr_sequence r \<le> rd_sequence db) ?late) = set (unseen db ?g ?c)"
    proof (intro set_eqI iffI)
      fix r assume "r \<in> set (filter (\<lambda>r. vr_sequence r \<le> rd_sequence db) ?late)"
      then show "r \<in> set (unseen db ?g ?c)" using mv by (fastforce simp: unseen_def log_moves_def)
    next
      fix r assume r: "r \<in> set (unseen db ?g ?c)"
      then have "vr_sequence r \<le> rd_sequence db" using log_wf_row(1) [OF log(1)] by (simp add: unseen_def)
      then show "r \<in> set (filter (\<lambda>r. vr_sequence r \<le> rd_sequence db) ?late)"
        using kept [OF r] r by (simp add: unseen_def)
    qed
  qed (use sorted in \<open>auto intro: sorted_wrt_filter\<close>)
  then show ?thesis using sorted_split [OF sorted(1), of "rd_sequence db"] by metis
qed

lemma stays_blocked:
  assumes b: "blocked_snapshot db s" and later: "reaches db later"
    and s: "snapshot_of later (pj_goalId (gs_projection s)) = Some s" and win: "replayable later s"
    and zero: "gs_lastEventSequence s = 0 \<Longrightarrow> set (unseen db (pj_goalId (gs_projection s)) 0) \<subseteq> set (rd_events later)"
  shows "blocked_snapshot later s"
proof -
  have wf: "runtime_wf db" "snapshot_of db (pj_goalId (gs_projection s)) = Some s"
    using b by (simp_all add: blocked_snapshot_def)
  have mv: "runtime_wf later" "runtime_moves db later" using reaches_moves [OF later wf(1)] by simp_all
  obtain new where "unseen later (pj_goalId (gs_projection s)) (gs_lastEventSequence s)
      = unseen db (pj_goalId (gs_projection s)) (gs_lastEventSequence s) @ new"
    using unseen_grows [OF wf(1) mv(2) wf(2) win zero] by blast
  then show ?thesis using b s win mv(1) by (simp add: blocked_snapshot_def accepts_append)
qed

section \<open>An appended event is the next step of the snapshot\<close>

lemma trimmed_workspace:
  assumes "log_wf db" "appendable event t db" "find_event db (ev_eventId (event_base event)) = None"
    "config_ok cfg"
  shows "events_of_workspace (insert_and_trim cfg gap event t db) (ev_workspaceId (event_base event)) =
    (let rows = events_of_workspace db (ev_workspaceId (event_base event))
         @ [event_row (allocate_sequence db gap) event t]
     in if ec_maxEventsPerWorkspace cfg + ec_retentionSlack cfg < int (length rows)
        then drop (length rows - nat (ec_maxEventsPerWorkspace cfg)) rows else rows)"
proof -
  let ?w = "ev_workspaceId (event_base event)" and ?row = "event_row (allocate_sequence db gap) event t"
  have wf1: "log_wf (add_event_row ?row db)" by (rule insert_and_trim_wf(1) [OF assms(1-3)])
  have "events_of_workspace (add_event_row ?row db) ?w = events_of_workspace db ?w @ [?row]"
    by (simp add: events_of_workspace_wf [OF wf1] events_of_workspace_wf [OF assms(1)])
  then show ?thesis
    using enforce_workspace [OF wf1 assms(4), of ?w]
    by (simp add: insert_and_trim_def over_limit_def Let_def)
qed

lemma new_row_kept:
  assumes "log_wf db" "appendable event t db" "find_event db (ev_eventId (event_base event)) = None"
    "config_ok cfg"
  shows "event_row (allocate_sequence db gap) event t \<in> set (rd_events (insert_and_trim cfg gap event t db))"
proof -
  let ?w = "ev_workspaceId (event_base event)" and ?row = "event_row (allocate_sequence db gap) event t"
  have "0 < nat (ec_maxEventsPerWorkspace cfg)" using assms(4) by (simp add: config_ok_def)
  then have "?row \<in> set (events_of_workspace (insert_and_trim cfg gap event t db) ?w)"
    unfolding trimmed_workspace [OF assms] by (auto simp: Let_def)
  then show ?thesis by (simp add: events_of_workspace_def)
qed

lemma appended_unseen:
  assumes wf: "runtime_wf db" "config_ok cfg"
    and new: "appendable event t db" "find_event db (ev_eventId (event_base event)) = None"
    and s: "snapshot_of db (pj_goalId (gs_projection s)) = Some s"
      "unseen db (pj_goalId (gs_projection s)) (gs_lastEventSequence s) = []"
      "ev_goalId (event_base event) = pj_goalId (gs_projection s)"
  shows "unseen (insert_and_trim cfg gap event t db) (pj_goalId (gs_projection s)) (gs_lastEventSequence s)
    = [event_row (allocate_sequence db gap) event t]"
proof -
  let ?row = "event_row (allocate_sequence db gap) event t" and ?db = "insert_and_trim cfg gap event t db"
  have log: "log_wf db" using wf(1) by (simp add: runtime_wf_def)
  have row: "?row \<in> set (rd_events ?db)" by (rule new_row_kept [OF log new wf(2)])
  note log1 = insert_and_trim_wf(1) [OF log new, of gap]
  obtain P where P: "rd_events ?db = filter P (rd_events db @ [?row])"
    using log1 wf(2)
  proof (cases rule: enforce_cases [where w = "ev_workspaceId (event_base event)"])
    case within
    then show thesis using that [of "\<lambda>_. True"] by (simp add: insert_and_trim_def add_event_row_def)
  next
    case (cut k)
    let ?w = "ev_workspaceId (event_base event)"
    show thesis
    proof (rule that)
      show "rd_events ?db = filter (\<lambda>r. \<not> (vr_workspace_id r = ?w
          \<and> vr_sequence r < vr_sequence (events_of_workspace (add_event_row ?row db) ?w ! k))) (rd_events db @ [?row])"
        unfolding insert_and_trim_def cut(4) by (simp add: add_event_row_def)
    qed
  qed
  have old: "filter (\<lambda>r. vr_goal_id r = pj_goalId (gs_projection s) \<and> gs_lastEventSequence s < vr_sequence r)
      (filter P (rd_events db)) = []"
    using s(2) by (auto simp: unseen_def filter_empty_conv)
  have above: "gs_lastEventSequence s < allocate_sequence db gap"
    using snapshot_cursor [OF wf(1) s(1)] allocate_above [of db gap] by linarith
  have "P ?row"
  proof (rule ccontr)
    assume "\<not> P ?row"
    then have "?row \<in> set (rd_events db)" using row unfolding P by auto
    then have "vr_sequence ?row \<le> rd_sequence db" by (rule log_wf_row(1) [OF log])
    then show False using allocate_above [of db gap] by simp
  qed
  then show ?thesis using old above s(3) unfolding unseen_def [of ?db] P filter_append by simp
qed

text \<open>What \<open>appendAndReplayUnlocked\<close> does for a snapshot that has seen all its events.\<close>

lemma append_replay_outcome:
  fixes env event db s
  defines "t \<equiv> ce_recordedAt env (rd_sequence db)" and "gap \<equiv> ce_gap env (rd_sequence db)"
  defines "added \<equiv> insert_and_trim (ce_config env) gap event t db" and "n \<equiv> allocate_sequence db gap"
  assumes wf: "runtime_wf db" "config_ok (ce_config env)"
    and s: "snapshot_of db (pj_goalId (gs_projection s)) = Some s"
      "unseen db (pj_goalId (gs_projection s)) (gs_lastEventSequence s) = []"
      "ev_goalId (event_base event) = pj_goalId (gs_projection s)"
  shows "rejects (gs_projection s) event
      \<Longrightarrow> appendAndReplayUnlocked env s event db = (db, Inl Ce_projection_rejected)"
    "\<not> rejects (gs_projection s) event \<Longrightarrow> \<not> appendable event t db
      \<Longrightarrow> \<exists>e. appendAndReplayUnlocked env s event db = (db, Inl (Ce_event e))"
    "\<not> rejects (gs_projection s) event \<Longrightarrow> appendable event t db
      \<Longrightarrow> find_event db (ev_eventId (event_base event)) = Some row
      \<Longrightarrow> appendAndReplayUnlocked env s event db
        = (db, if row_event row = event then Inr s else Inl (Ce_event Ee_event_id_conflict))"
    "\<not> rejects (gs_projection s) event \<Longrightarrow> appendable event t db
      \<Longrightarrow> find_event db (ev_eventId (event_base event)) = None
      \<Longrightarrow> \<exists>db' r. appendAndReplayUnlocked env s event db = (db', r) \<and> rd_events db' = rd_events added
        \<and> (\<forall>s'. r = Inr s' \<longrightarrow> runtime_wf db' \<and> snapshot_of db' (pj_goalId (gs_projection s)) = Some s'
             \<and> unseen db' (pj_goalId (gs_projection s)) (gs_lastEventSequence s') = []
             \<and> (replayable added s \<longrightarrow> gs_projection s' = project (gs_projection s) event
                  \<and> gs_lastEventSequence s' = n))
        \<and> (replayable added s \<and> keepable added (project (gs_projection s) event) n \<longrightarrow> (\<exists>s'. r = Inr s'))"
proof -
  let ?p = "gs_projection s" and ?g = "pj_goalId (gs_projection s)" and ?c = "gs_lastEventSequence s"
  let ?append = "appendGoalRuntimeEvent (ce_config env) gap event t db"
  have log: "log_wf db" using wf(1) by (simp add: runtime_wf_def)
  show "rejects ?p event \<Longrightarrow> appendAndReplayUnlocked env s event db = (db, Inl Ce_projection_rejected)"
    by (auto simp: rejects_def appendAndReplayUnlocked_def split: goal_runtime_event_decision.splits)
  have taken: "appendAndReplayUnlocked env s event db = (case snd ?append of
      Inl e \<Rightarrow> (fst ?append, Inl (Ce_event e))
    | Inr r \<Rightarrow> if rr_sequence (ar_record r) \<le> ?c then (fst ?append, Inr s)
        else catchUpSnapshotUnlocked s (fst ?append))" if "\<not> rejects ?p event"
    using that unfolding t_def gap_def
    by (auto simp: rejects_def appendAndReplayUnlocked_def Let_def split: goal_runtime_event_decision.splits)
  show "\<exists>e. appendAndReplayUnlocked env s event db = (db, Inl (Ce_event e))"
    if "\<not> rejects ?p event" "\<not> appendable event t db"
    using log that(2)
  proof (cases rule: append_event_cases [where event = event and t = t and cfg = "ce_config env" and gap = gap])
    case refused
    then show ?thesis using taken [OF that(1)] by simp
  qed simp_all
  show "appendAndReplayUnlocked env s event db
        = (db, if row_event row = event then Inr s else Inl (Ce_event Ee_event_id_conflict))"
    if "\<not> rejects ?p event" "appendable event t db" "find_event db (ev_eventId (event_base event)) = Some row"
    using log
  proof (cases rule: append_event_cases [where event = event and t = t and cfg = "ce_config env" and gap = gap])
    case (known row' rec)
    then have row: "row' = row" "row_event row = rr_event rec" "rr_sequence rec = vr_sequence row"
      using that(3) read_event_row_event read_event_row_sequence by auto
    have "row \<in> set (rd_events db)" using find_event_SomeD that(3) by blast
    moreover have "vr_goal_id row = ?g" if "rr_event rec = event"
      using read_event_row_goal [OF known(3)] that row(1) s(3) by simp
    ultimately have "vr_sequence row \<le> ?c" if "rr_event rec = event"
      using s(2) that unfolding unseen_Nil_iff by blast
    then show ?thesis using taken [OF that(1)] known(4) row by simp
  qed (use that in simp_all)
  show "\<exists>db' r. appendAndReplayUnlocked env s event db = (db', r) \<and> rd_events db' = rd_events added
        \<and> (\<forall>s'. r = Inr s' \<longrightarrow> runtime_wf db' \<and> snapshot_of db' ?g = Some s'
             \<and> unseen db' ?g (gs_lastEventSequence s') = []
             \<and> (replayable added s \<longrightarrow> gs_projection s' = project ?p event \<and> gs_lastEventSequence s' = n))
        \<and> (replayable added s \<and> keepable added (project ?p event) n \<longrightarrow> (\<exists>s'. r = Inr s'))"
    if ok: "\<not> rejects ?p event" and new: "appendable event t db" "find_event db (ev_eventId (event_base event)) = None"
  proof -
    have app: "?append = (added, Inr \<lparr>ar_appended = True, ar_record = new_record db gap event t\<rparr>)"
      using log new by (cases rule: append_event_cases [where event = event and t = t and cfg = "ce_config env" and gap = gap])
        (simp_all add: added_def)
    have above: "?c < n" using snapshot_cursor [OF wf(1) s(1)] allocate_above [of db gap] by (simp add: n_def)
    then have run: "appendAndReplayUnlocked env s event db = catchUpSnapshotUnlocked s added"
      using taken [OF ok] app by (simp add: new_record_def n_def)
    have wfa: "runtime_wf added"
      using reaches_moves [OF reaches_append [OF wf(2), of db gap event t] wf(1)] app by simp
    have "rd_snapshots added = rd_snapshots db" by (simp add: added_def)
    then have sa: "snapshot_of added ?g = Some s" using s(1) by (simp add: snapshot_of_def find_snapshot_def)
    let ?row = "event_row n event t"
    have un: "unseen added ?g ?c = [?row]"
      unfolding added_def n_def by (rule appended_unseen [OF wf new s])
    have "read_event_row ?row = Inr (new_record db gap event t)"
      unfolding n_def using read_new_row(1) [OF log] new(1) by (simp add: appendable_def)
    then have ev: "row_event ?row = event" using read_event_row_event by (fastforce simp: new_record_def)
    have fold: "fold_rows ?p [?row] = project ?p event" "last_sequence ?c [?row] = n"
      using ev by (simp_all add: fold_rows_def last_sequence_def)
    obtain db' r where res: "catchUpSnapshotUnlocked s added = (db', r)" by fastforce
    have "rd_events db' = rd_events added" using catch_up_events [of s added] res by simp
    moreover have "runtime_wf db' \<and> snapshot_of db' ?g = Some s' \<and> unseen db' ?g (gs_lastEventSequence s') = []
        \<and> (replayable added s \<longrightarrow> gs_projection s' = project ?p event \<and> gs_lastEventSequence s' = n)"
      if r: "r = Inr s'" for s'
      using caught_up(1-3) [OF wfa sa res [unfolded r]] catch_up_fold [OF wfa sa _ res [unfolded r]]
      unfolding un fold by blast
    moreover have "\<exists>s'. r = Inr s'" if k: "replayable added s" "keepable added (project ?p event) n"
    proof -
      have "foldable added ?p ?c [?row]"
        using ok k(2) ev fold by (auto simp: foldable_def le_Suc_eq)
      then show ?thesis using catch_up_returns [OF wfa sa k(1)] un res by simp
    qed
    ultimately show ?thesis
    proof (intro exI conjI)
      show "appendAndReplayUnlocked env s event db = (db', r)" using run res by simp
    qed (assumption | blast)+
  qed
qed

lemma ensure_events: "rd_events (fst (ensureGoalSnapshotUnlocked g db)) = rd_events db"
  unfolding ensureGoalSnapshotUnlocked_def and_then_def by (auto split: sum.splits option.splits)

lemma ensured:
  assumes wf: "runtime_wf db" and res: "ensureGoalSnapshotUnlocked g db = (db', Inr s)"
  shows "runtime_wf db'" "snapshot_of db' g = Some s" "rd_events db' = rd_events db" "pj_goalId (gs_projection s) = g"
proof -
  show wf': "runtime_wf db'" using reaches_moves [OF reaches_ensure wf, of g] res by simp
  have snaps: "snapshots_wf db" using wf by (simp add: runtime_wf_def)
  have id: "requiredIdentifier g"
    using res by (auto simp: ensureGoalSnapshotUnlocked_def and_then_def reading_def getGoalRuntimeSnapshot_def
        split: if_splits)
  have "snapshot_of db' g = Some s \<and> rd_events db' = rd_events db"
  proof (cases "snapshot_of db g")
    case (Some old)
    then show ?thesis using ensure_existing [OF wf Some] res by simp
  next
    case None
    let ?get = "goal_by_id g db"
    obtain goal where goal: "snd ?get = Inr goal"
      using res None by (cases "snd ?get")
        (simp_all add: ensureGoalSnapshotUnlocked_def and_then_def reading_def get_snapshot_wf [OF snaps id])
    have gid: "g_id goal = g"
      using goal by (auto simp: goal_by_id_def toGoalRecord_fields split: option.splits dest: selectById_SomeD)
    obtain newest where "listGoalRuntimeEvents g 1 db = Inr newest"
      using res None goal by (cases "listGoalRuntimeEvents g 1 db")
        (simp_all add: ensureGoalSnapshotUnlocked_def and_then_def reading_def get_snapshot_wf [OF snaps id])
    then have st: "store_snapshot (projectionFromDurableGoal goal) (case newest of [] \<Rightarrow> 0 | r # _ \<Rightarrow> rr_sequence r)
        (g_updatedAt goal) db = (db', Inr s)"
      using res None goal
      by (simp add: ensureGoalSnapshotUnlocked_def and_then_def reading_def get_snapshot_wf [OF snaps id])
    have "rd_events (fst (db', Inr s :: control_error + snapshot_record)) = rd_events db"
      unfolding st [symmetric] by (rule store_snapshot_events)
    then show ?thesis using store_snapshot_result(4) [OF snaps st] by (simp add: durable_goal gid)
  qed
  then show "snapshot_of db' g = Some s" "rd_events db' = rd_events db" by simp_all
  then show "pj_goalId (gs_projection s) = g" using snapshot_scope(1) [OF wf'] by blast
qed

end
