(* ===== verification/Runtime_Reconciliation.thy ===== *)
theory Runtime_Reconciliation
  imports Runtime_Catch_Up
begin

text \<open>
  The restart reconciliation (packages/application/src/goal-runtime-reconciliation-service.ts, class
  \<open>GoalRuntimeReconciliationService\<close>): a snapshot that claims a running worker is checked against
  evidence, and a worker that is gone is recorded as lost under the commit fence of the event log.
  Between its reads, its append and its store other processes may write: each gap is a sequence of
  operations of the runtime store.
\<close>

section \<open>Entries\<close>

datatype reconciliation_disposition =
  Rd_reconciled | Rd_projection_pending | Rd_state_not_worker_backed | Rd_goal_not_active
| Rd_live_worker | Rd_liveness_untrusted | Rd_concurrent_change

record reconciliation_entry =
  re_goalId :: string
  re_disposition :: reconciliation_disposition
  re_reason :: "string option"
  re_eventSequence :: "int option"

definition plain_entry :: "string \<Rightarrow> reconciliation_disposition \<Rightarrow> string option \<Rightarrow> reconciliation_entry" where
  "plain_entry goalId d reason = \<lparr>re_goalId = goalId, re_disposition = d, re_reason = reason,
     re_eventSequence = None\<rparr>"

fun inactive_reason_name :: "inactive_reason \<Rightarrow> string" where
  "inactive_reason_name No_live_worker = ''no_live_worker''"
| "inactive_reason_name Stale_heartbeat = ''stale_heartbeat''"

fun live_reason_name :: "live_reason \<Rightarrow> string" where
  "live_reason_name Fenced_call = ''fenced_call''"
| "live_reason_name Blocking_task = ''blocking_task''"
| "live_reason_name Heartbeat_grace = ''heartbeat_grace''"

fun untrusted_reason_name :: "untrusted_reason \<Rightarrow> string" where
  "untrusted_reason_name Missing_evidence = ''missing_evidence''"
| "untrusted_reason_name Evidence_untrustworthy = ''evidence_untrustworthy''"
| "untrusted_reason_name Generation_mismatch = ''generation_mismatch''"
| "untrusted_reason_name Activity_mismatch = ''activity_mismatch''"
| "untrusted_reason_name Future_observation = ''future_observation''"
| "untrusted_reason_name Missing_heartbeat = ''missing_heartbeat''"
| "untrusted_reason_name Future_heartbeat = ''future_heartbeat''"
| "untrusted_reason_name Blocking_task_unknown = ''blocking_task_unknown''"

fun conflict_reason_name :: "reconciliation_conflict \<Rightarrow> string" where
  "conflict_reason_name Cr_goal_not_active = ''goal_not_active''"
| "conflict_reason_name Cr_lease_changed = ''lease_changed''"
| "conflict_reason_name Cr_snapshot_changed = ''snapshot_changed''"
| "conflict_reason_name Cr_event_stream_advanced = ''event_stream_advanced''"
| "conflict_reason_name Cr_execution_changed = ''execution_changed''"
| "conflict_reason_name Cr_scheduled_continuation_changed = ''scheduled_continuation_changed''"

fun decision_name :: "goal_runtime_event_decision \<Rightarrow> string" where
  "decision_name Apply = ''apply''"
| "decision_name Ignore_stale_generation = ''ignore''"
| "decision_name (Reject _) = ''reject''"

section \<open>The surroundings\<close>

text \<open>The configuration of the log, the numbers the database skips, the clock, the digest and the
  liveness probe, which may throw (\<open>None\<close>) or observe, with or without evidence.\<close>

record reconciliation_env =
  rv_config :: event_store_config
  rv_gap :: nat
  rv_now :: iso
  rv_sha256 :: "string \<Rightarrow> string"
  rv_observe :: "string \<Rightarrow> goal_tracked_task list \<Rightarrow> goal_worker_liveness_evidence option option"

text \<open>What other processes do before the read of the continuation, the append and the store.\<close>

record interleaving =
  il_before_continuation :: "runtime_op list"
  il_before_append :: "runtime_op list"
  il_before_store :: "runtime_op list"

definition undisturbed :: interleaving where
  "undisturbed = \<lparr>il_before_continuation = [], il_before_append = [], il_before_store = []\<rparr>"

section \<open>The event\<close>

definition isWorkerBackedState :: "goal_runtime_projection \<Rightarrow> bool" where
  "isWorkerBackedState p \<longleftrightarrow> pj_lifecycleState p = Lc_open
     \<and> (pj_runtimeState p = Rt_starting \<or> pj_runtimeState p = Rt_running
        \<or> pj_runtimeState p = Rt_recovering)"

text \<open>A comparison with a time that does not parse is false.\<close>

definition later_than :: "iso \<Rightarrow> iso \<Rightarrow> bool" where
  "later_than a b = (case (date_parse a, date_parse b) of (Some m, Some n) \<Rightarrow> m > n | _ \<Rightarrow> False)"

definition stableReconciliationOccurredAt :: "snapshot_record \<Rightarrow> iso" where
  "stableReconciliationOccurredAt s =
     (let p = gs_projection s;
          others = pj_lastActivityAt p # (case pj_lastHeartbeatAt p of None \<Rightarrow> [] | Some t \<Rightarrow> [t])
      in foldl (\<lambda>latest candidate. if later_than candidate latest then candidate else latest)
           (gs_updatedAt s) others)"

definition workerLostEventId :: "reconciliation_env \<Rightarrow> goal_record \<Rightarrow> snapshot_record \<Rightarrow> string" where
  "workerLostEventId env goal s = ''restart-worker-lost-'' @ rv_sha256 env (join_with [NUL]
     [g_id goal, (case pj_activeExecutionId (gs_projection s) of None \<Rightarrow> [] | Some i \<Rightarrow> i),
      int_text (g_leaseGeneration goal), int_text (g_leaseActivitySeq goal),
      int_text (gs_lastEventSequence s)])"

definition worker_lost_event ::
  "reconciliation_env \<Rightarrow> goal_record \<Rightarrow> snapshot_record \<Rightarrow> string \<Rightarrow> int \<Rightarrow> inactive_reason
     \<Rightarrow> goal_runtime_event" where
  "worker_lost_event env goal s executionId generation reason =
     ExecutionScoped \<lparr>ev_eventId = workerLostEventId env goal s,
         ev_workspaceId = pj_workspaceId (gs_projection s), ev_goalId = pj_goalId (gs_projection s),
         ev_occurredAt = stableReconciliationOccurredAt s,
         ev_detail = Some (''restart reconciliation: '' @ inactive_reason_name reason)\<rparr>
       \<lparr>xe_type = Et_worker_lost, xe_executionId = executionId, xe_executionGeneration = generation,
         xe_phase = None, xe_taskId = None, xe_checkpointId = None,
         xe_blockerKind = Some Bk_worker_lost\<rparr>"

definition worker_lost_request ::
  "reconciliation_env \<Rightarrow> goal_record \<Rightarrow> snapshot_record \<Rightarrow> goal_runtime_event
     \<Rightarrow> scheduled_continuation_row option \<Rightarrow> append_reconciliation_request" where
  "worker_lost_request env goal s event continuation = \<lparr>rq_event = event, rq_recordedAt = rv_now env,
     rq_expectedSnapshotSequence = gs_lastEventSequence s,
     rq_expectedLeaseGeneration = g_leaseGeneration goal,
     rq_expectedLeaseActivitySeq = g_leaseActivitySeq goal,
     rq_expectedLiveScheduledContinuation = map_option (\<lambda>c. (cn_id c, cn_version c)) continuation\<rparr>"

section \<open>The phases\<close>

text \<open>The goal as its repository returns it: absent, a record, or an error of the decoder.\<close>

definition find_goal :: "string \<Rightarrow> runtime_db \<Rightarrow> goal_error + goal_record option" where
  "find_goal goalId db = (case selectById (rd_goals db) goalId of
     None \<Rightarrow> Inr None
   | Some row \<Rightarrow> bind_ok (toGoalRecord (rd_goals db) row) (\<lambda>goal. Inr (Some goal)))"

text \<open>The first reads: an entry that ends the attempt, or the goal with its exact execution.\<close>

definition reconciliation_target ::
  "snapshot_record \<Rightarrow> runtime_db
     \<Rightarrow> goal_error + (reconciliation_entry + goal_record \<times> string \<times> int)" where
  "reconciliation_target s db =
     (let p = gs_projection s; ends = (\<lambda>d reason. Inr (Inl (plain_entry (pj_goalId p) d reason)))
      in if \<not> isWorkerBackedState p
         then ends Rd_state_not_worker_backed (Some (runtime_state_name (pj_runtimeState p)))
         else case (pj_activeExecutionId p, pj_executionGeneration p) of
           (Some executionId, Some generation) \<Rightarrow>
             bind_ok (find_goal (pj_goalId p) db) (\<lambda>found. case found of
               None \<Rightarrow> ends Rd_goal_not_active None
             | Some goal \<Rightarrow>
                 if g_status goal \<noteq> Gs_active then ends Rd_goal_not_active None
                 else if g_workspaceId goal \<noteq> pj_workspaceId p \<or> g_executionId goal \<noteq> Some executionId
                   \<or> g_executionGeneration goal \<noteq> Some generation \<or> g_leaseGeneration goal \<noteq> generation
                 then ends Rd_concurrent_change (Some ''execution_fence_changed'')
                 else Inr (Inr (goal, executionId, generation)))
         | _ \<Rightarrow> ends Rd_concurrent_change (Some ''snapshot_execution_identity_missing''))"

text \<open>The probe and its assessment: an entry, or the reason the worker counts as gone.\<close>

definition assess_worker ::
  "reconciliation_env \<Rightarrow> goal_record \<Rightarrow> scheduled_continuation_row option
     \<Rightarrow> goal_error + (reconciliation_disposition \<times> string) + inactive_reason" where
  "assess_worker env goal continuation =
     (case rv_observe env (g_id goal) (case g_trackedTasks goal of
          None \<Rightarrow> legacyTrackedTasks (g_activeTaskIds goal) | Some ts \<Rightarrow> ts) of
        None \<Rightarrow> Inr (Inl (Rd_liveness_untrusted, ''probe_failed''))
      | Some evidence \<Rightarrow>
          bind_ok (assessGoalWorkerLiveness \<lparr>wl_goal = goal, wl_evidence = evidence, wl_now = rv_now env,
            wl_hasLiveScheduledContinuation = (continuation \<noteq> None),
            wl_staleHeartbeatGraceSeconds = None\<rparr>) (\<lambda>assessment. Inr (case assessment of
              Live reason _ \<Rightarrow> Inl (Rd_live_worker, live_reason_name reason)
            | Untrusted reason \<Rightarrow> Inl (Rd_liveness_untrusted, untrusted_reason_name reason)
            | Inactive reason \<Rightarrow> Inr reason)))"

text \<open>The store of the projected snapshot after the commit of the event.\<close>

definition store_lost ::
  "reconciliation_env \<Rightarrow> snapshot_record \<Rightarrow> goal_runtime_event \<Rightarrow> inactive_reason
     \<Rightarrow> goal_runtime_event_record \<Rightarrow> runtime_op list \<Rightarrow> runtime_db \<Rightarrow> reconciliation_entry outcome" where
  "store_lost env s event reason committed others db =
     (let p = gs_projection s; goalId = pj_goalId p
      in case projectGoalRuntimeEvent p event of
        (Apply, q) \<Rightarrow>
          (let db1 = run_runtime db others
           in case storeGoalRuntimeSnapshot q (rr_sequence committed) (rv_now env) db1 of
                Inl _ \<Rightarrow> (db1, Inr \<lparr>re_goalId = goalId, re_disposition = Rd_projection_pending,
                  re_reason = Some ''snapshot_write_failed'',
                  re_eventSequence = Some (rr_sequence committed)\<rparr>)
              | Inr (db2, _) \<Rightarrow> (db2, Inr \<lparr>re_goalId = goalId, re_disposition = Rd_reconciled,
                  re_reason = Some (inactive_reason_name reason),
                  re_eventSequence = Some (rr_sequence committed)\<rparr>))
      | (decision, _) \<Rightarrow> (db, Inr (plain_entry goalId Rd_concurrent_change
          (Some (''projector_'' @ decision_name decision)))))"

definition commit_lost ::
  "reconciliation_env \<Rightarrow> snapshot_record \<Rightarrow> goal_record \<Rightarrow> string \<Rightarrow> int
     \<Rightarrow> scheduled_continuation_row option \<Rightarrow> inactive_reason \<Rightarrow> runtime_op list \<Rightarrow> runtime_db
     \<Rightarrow> reconciliation_entry outcome" where
  "commit_lost env s goal executionId generation continuation reason others db =
     (let event = worker_lost_event env goal s executionId generation reason
      in case appendGoalRuntimeReconciliationEvent (rv_config env) (rv_gap env)
          (worker_lost_request env goal s event continuation) db of
        Inl e \<Rightarrow> (db, Inl (Ce_event e))
      | Inr (db1, Rx_concurrent_change why) \<Rightarrow>
          (db1, Inr (plain_entry (pj_goalId (gs_projection s)) Rd_concurrent_change
            (Some (conflict_reason_name why))))
      | Inr (db1, Rx_appended rec) \<Rightarrow> store_lost env s event reason rec others db1
      | Inr (db1, Rx_duplicate rec) \<Rightarrow> store_lost env s event reason rec others db1)"

definition reconcileSnapshot ::
  "reconciliation_env \<Rightarrow> interleaving \<Rightarrow> snapshot_record \<Rightarrow> runtime_db \<Rightarrow> reconciliation_entry outcome" where
  "reconcileSnapshot env il s db =
     (case reconciliation_target s db of
        Inl e \<Rightarrow> (db, Inl (Ce_goal e))
      | Inr (Inl entry) \<Rightarrow> (db, Inr entry)
      | Inr (Inr (goal, executionId, generation)) \<Rightarrow>
          (let db1 = run_runtime db (il_before_continuation il)
           in case getLiveScheduledContinuation (g_id goal) (rd_goals db1) of
                Inl e \<Rightarrow> (db1, Inl (Ce_goal e))
              | Inr continuation \<Rightarrow> (case assess_worker env goal continuation of
                  Inl e \<Rightarrow> (db1, Inl (Ce_goal e))
                | Inr (Inl (d, why)) \<Rightarrow> (db1, Inr (plain_entry (pj_goalId (gs_projection s)) d (Some why)))
                | Inr (Inr reason) \<Rightarrow> commit_lost env s goal executionId generation continuation reason
                    (il_before_store il) (run_runtime db1 (il_before_append il)))))"

definition reconcileGoal ::
  "reconciliation_env \<Rightarrow> interleaving \<Rightarrow> string \<Rightarrow> runtime_db \<Rightarrow> reconciliation_entry outcome" where
  "reconcileGoal env il goalId db =
     (case getGoalRuntimeSnapshot goalId db of
        Inl e \<Rightarrow> (db, Inl (Ce_snapshot e))
      | Inr None \<Rightarrow> (db, Inr (plain_entry goalId Rd_goal_not_active (Some ''snapshot_not_found'')))
      | Inr (Some s) \<Rightarrow> reconcileSnapshot env il s db)"

fun reconcile_listed ::
  "reconciliation_env \<Rightarrow> interleaving list \<Rightarrow> snapshot_record list \<Rightarrow> runtime_db
     \<Rightarrow> reconciliation_entry list outcome" where
  "reconcile_listed env ils [] db = (db, Inr [])"
| "reconcile_listed env ils (s # rest) db =
     and_then (reconcileSnapshot env (if ils = [] then undisturbed else hd ils) s db) (\<lambda>entry db.
     and_then (reconcile_listed env (tl ils) rest db) (\<lambda>entries db. (db, Inr (entry # entries))))"

text \<open>\<open>reconcileWorkspace\<close> lists the snapshots once and then takes them in turn.\<close>

definition reconcileWorkspace ::
  "reconciliation_env \<Rightarrow> interleaving list \<Rightarrow> string \<Rightarrow> int \<Rightarrow> runtime_db
     \<Rightarrow> reconciliation_entry list outcome" where
  "reconcileWorkspace env ils workspaceId limit db =
     and_then (reading Ce_snapshot (listWorkspaceGoalRuntimeSnapshots workspaceId limit db) db)
       (\<lambda>snapshots db. reconcile_listed env ils snapshots db)"

end
