(* ===== verification/Runtime_Reconciliation_Safety.thy ===== *)
theory Runtime_Reconciliation_Safety
  imports Runtime_Reconciliation
begin

text \<open>
  What the restart reconciliation guarantees: it is a run of the runtime store, the projector never
  refuses the event it commits, a worker is recorded as lost only while the whole fence holds, and a
  retry after a crash finishes the first attempt, unless the reason of the assessment has changed.
\<close>

section \<open>Attempts are runs of the store\<close>

lemma reaches_run [simp]: "reaches db (run_runtime db ops)"
  unfolding reaches_def by blast

lemma reaches_store_lost [simp]: "reaches db (fst (store_lost env s event reason rec others db))"
proof -
  have "reaches db db2"
    if "storeGoalRuntimeSnapshot q n t (run_runtime db others) = Inr (db2, r)" for q n t db2 r
    using reaches_step [of "run_runtime db others" "Rop_snapshot q n t"] that
      reaches_trans [OF reaches_run] by fastforce
  then show ?thesis
    by (auto simp: store_lost_def Let_def
        split: prod.splits goal_runtime_event_decision.splits sum.splits)
qed

lemma reaches_reconciliation_append:
  assumes "config_ok cfg" "appendGoalRuntimeReconciliationEvent cfg gap q db = Inr (db', res)"
  shows "reaches db db'"
  using reaches_step [of db "Rop_reconcile (Some (ec_maxEventsPerWorkspace cfg))
      (Some (ec_retentionSlack cfg)) gap q"] config_options [OF assms(1)] assms(2) by simp

lemma reaches_commit_lost:
  assumes "config_ok (rv_config env)"
  shows "reaches db (fst (commit_lost env s goal i g continuation reason others db))"
proof (cases "appendGoalRuntimeReconciliationEvent (rv_config env) (rv_gap env) (worker_lost_request env goal s
    (worker_lost_event env goal s i g reason) continuation) db")
  case (Inr r)
  then obtain db1 res where r: "r = (db1, res)" by fastforce
  have "reaches db db1" by (rule reaches_reconciliation_append [OF assms Inr [unfolded r]])
  then show ?thesis
    using Inr r reaches_trans reaches_store_lost by (cases res) (auto simp: commit_lost_def Let_def)
qed (simp add: commit_lost_def Let_def)

lemma reaches_reconcile:
  assumes "config_ok (rv_config env)"
  shows "reaches db (fst (reconcileSnapshot env il s db))"
proof -
  let ?db1 = "run_runtime db (il_before_continuation il)"
  have "reaches db (fst (commit_lost env s goal i g c reason others (run_runtime ?db1 ops)))"
    for goal i g c reason others ops
    using reaches_commit_lost [OF assms] reaches_run reaches_trans by meson
  then show ?thesis
    by (auto simp: reconcileSnapshot_def Let_def split: sum.splits prod.splits)
qed

lemma reaches_reconcile_goal:
  "config_ok (rv_config env) \<Longrightarrow> reaches db (fst (reconcileGoal env il i db))"
  by (auto simp: reconcileGoal_def reaches_reconcile split: sum.splits option.splits)

lemma reaches_reconcile_listed:
  "config_ok (rv_config env) \<Longrightarrow> reaches db (fst (reconcile_listed env ils ss db))"
proof (induction ss arbitrary: ils db)
  case (Cons s ss)
  show ?case unfolding reconcile_listed.simps
    by (intro reaches_and_then) (simp_all add: reaches_reconcile Cons)
qed simp

lemma reaches_reconcile_workspace:
  "config_ok (rv_config env) \<Longrightarrow> reaches db (fst (reconcileWorkspace env ils w n db))"
  unfolding reconcileWorkspace_def by (rule reaches_and_then) (simp_all add: reaches_reconcile_listed)

section \<open>The event is always applicable\<close>

lemma worker_lost_shape:
  obtains b x where "worker_lost_event env goal s i g reason = ExecutionScoped b x"
    "ev_goalId b = pj_goalId (gs_projection s)" "ev_workspaceId b = pj_workspaceId (gs_projection s)"
    "ev_eventId b = workerLostEventId env goal s"
    "xe_type x = Et_worker_lost" "xe_executionId x = i" "xe_executionGeneration x = g"
  by (rule that, unfold worker_lost_event_def, rule refl, simp_all)

lemma worker_lost_applies:
  assumes "isWorkerBackedState (gs_projection s)" "pj_activeExecutionId (gs_projection s) = Some i"
    "pj_executionGeneration (gs_projection s) = Some g"
  shows "\<exists>q. projectGoalRuntimeEvent (gs_projection s) (worker_lost_event env goal s i g reason) = (Apply, q)
    \<and> pj_runtimeState q = Rt_recovery_required \<and> map_option bl_kind (pj_blocker q) = Some Bk_worker_lost
    \<and> pj_goalId q = pj_goalId (gs_projection s) \<and> pj_workspaceId q = pj_workspaceId (gs_projection s)"
proof -
  obtain b x where e: "worker_lost_event env goal s i g reason = ExecutionScoped b x"
      and f: "ev_goalId b = pj_goalId (gs_projection s)" "ev_workspaceId b = pj_workspaceId (gs_projection s)"
        "xe_type x = Et_worker_lost" "xe_executionId x = i" "xe_executionGeneration x = g"
    by (rule worker_lost_shape)
  have cl: "classifyGoalRuntimeEvent (gs_projection s) (ExecutionScoped b x) = Apply"
    using assms f by (auto simp: classifyGoalRuntimeEvent_def
        classify_execution_event_def isWorkerBackedState_def isGoalScopedRuntimeEvent_def
        GOAL_SCOPED_RUNTIME_EVENT_TYPES_def isTerminalRuntimeState_def)
  show ?thesis
    unfolding e using assms f
    by (auto simp: projectGoalRuntimeEvent_def cl apply_event_def
        applyExecutionScopedEvent_def validateProjectionTransitions_def withLastActivity_def
        validate_runtime_transition_def isTerminalRuntimeState_def projectionInvariantHolds_def
        isWorkerBackedState_def
        execution_blocker_def
        runtimeRequiresActiveExecution_def Let_def)
qed

section \<open>A worker is lost under the fence only\<close>

lemma fence_openE:
  assumes "reconciliation_fence q b x duplicate db = Inr None"
  obtains goal snap e where "selectById (rd_goals db) (ev_goalId b) = Some goal"
    "gr_status goal = Gs_active" "gr_workspace_id goal = ev_workspaceId b"
    "gr_lease_generation goal = rq_expectedLeaseGeneration q"
    "gr_lease_activity_seq goal = rq_expectedLeaseActivitySeq q"
    "row_get (\<lambda>s. sr_goal_id s = ev_goalId b) (rd_snapshots db) = Some snap"
    "sr_last_event_sequence snap = rq_expectedSnapshotSequence q"
    "sr_active_execution_id snap = Some (xe_executionId x)"
    "sr_execution_generation snap = Some (xe_executionGeneration x)"
    "\<not> newer_goal_event db (ev_goalId b) (rq_expectedSnapshotSequence q)
       (map_option (\<lambda>rec. ev_eventId (event_base (rr_event rec))) duplicate)"
    "row_latest (\<lambda>e. instant_of (er_created_at e))
       (\<lambda>e. er_goal_id e = ev_goalId b \<and> er_workspace_id e = ev_workspaceId b
          \<and> er_lease_generation e = rq_expectedLeaseGeneration q) (db_executions (rd_goals db)) = Some e"
    "er_id e = xe_executionId x" "er_state e = Xs_active"
    "expected_continuation_matches (rq_expectedLiveScheduledContinuation q)
       (selectLiveScheduledContinuation (rd_goals db) (ev_goalId b))"
proof -
  note fence = assms [unfolded reconciliation_fence_def]
  obtain goal where goal: "selectById (rd_goals db) (ev_goalId b) = Some goal"
    using fence by (cases "selectById (rd_goals db) (ev_goalId b)") auto
  obtain snap where snap: "row_get (\<lambda>s. sr_goal_id s = ev_goalId b) (rd_snapshots db) = Some snap"
    using fence goal
    by (cases "row_get (\<lambda>s. sr_goal_id s = ev_goalId b) (rd_snapshots db)") (auto split: if_splits)
  obtain e where e: "row_latest (\<lambda>e. instant_of (er_created_at e))
      (\<lambda>e. er_goal_id e = ev_goalId b \<and> er_workspace_id e = ev_workspaceId b
         \<and> er_lease_generation e = rq_expectedLeaseGeneration q) (db_executions (rd_goals db)) = Some e"
    using fence goal snap by (auto split: if_splits option.splits)
  show thesis
    using fence goal snap e that [OF goal _ _ _ _ snap _ _ _ _ e] by (auto split: if_splits)
qed

text \<open>
  The part of the store the judgement rests on, at the moment of the commit: the goal, its snapshot, its
  events, its executions and its continuation are those that were judged. No event of the goal is newer
  than the snapshot, unless it is the very event of an earlier attempt; the execution is the latest of
  its generation.
\<close>

definition fence_holds ::
  "reconciliation_env \<Rightarrow> goal_record \<Rightarrow> snapshot_record \<Rightarrow> string \<Rightarrow> int \<Rightarrow> scheduled_continuation_row option
     \<Rightarrow> runtime_db \<Rightarrow> bool" where
  "fence_holds env goal s executionId generation continuation db \<longleftrightarrow>
     (let goalId = pj_goalId (gs_projection s); w = pj_workspaceId (gs_projection s);
          current = (\<lambda>e. er_goal_id e = goalId \<and> er_workspace_id e = w
            \<and> er_lease_generation e = g_leaseGeneration goal)
      in (\<exists>row. selectById (rd_goals db) goalId = Some row \<and> gr_status row = Gs_active
            \<and> gr_workspace_id row = w \<and> gr_lease_generation row = g_leaseGeneration goal
            \<and> gr_lease_activity_seq row = g_leaseActivitySeq goal)
       \<and> (\<exists>now. snapshot_of db goalId = Some now \<and> gs_lastEventSequence now = gs_lastEventSequence s
            \<and> pj_activeExecutionId (gs_projection now) = Some executionId
            \<and> pj_executionGeneration (gs_projection now) = Some generation)
       \<and> (\<forall>r \<in> set (rd_events db). vr_goal_id r = goalId \<and> gs_lastEventSequence s < vr_sequence r
            \<longrightarrow> vr_event_id r = workerLostEventId env goal s)
       \<and> (\<exists>e \<in> set (db_executions (rd_goals db)). current e \<and> er_id e = executionId \<and> er_state e = Xs_active
            \<and> (\<forall>e' \<in> set (db_executions (rd_goals db)). current e'
                 \<longrightarrow> instant_of (er_created_at e') \<le> instant_of (er_created_at e)))
       \<and> (case continuation of None \<Rightarrow> selectLiveScheduledContinuation (rd_goals db) goalId = None
          | Some c \<Rightarrow> (\<exists>live. selectLiveScheduledContinuation (rd_goals db) goalId = Some live
              \<and> cn_id live = cn_id c \<and> cn_version live = cn_version c)))"

lemma continuation_expected:
  "expected_continuation_matches (map_option (\<lambda>c. (cn_id c, cn_version c)) continuation) live \<longleftrightarrow>
    (case continuation of None \<Rightarrow> live = None
     | Some c \<Rightarrow> (\<exists>l. live = Some l \<and> cn_id l = cn_id c \<and> cn_version l = cn_version c))"
  by (cases continuation; cases live) (auto simp: expected_continuation_matches_def)

lemma fence_gives:
  assumes wf: "runtime_wf db" and q: "q = worker_lost_request env goal s (ExecutionScoped b x) continuation"
    and fence: "reconciliation_fence q b x duplicate db = Inr None"
    and ids: "ev_goalId b = pj_goalId (gs_projection s)" "ev_workspaceId b = pj_workspaceId (gs_projection s)"
      "ev_eventId b = workerLostEventId env goal s"
    and dup: "\<And>rec. duplicate = Some rec \<Longrightarrow> rr_event rec = ExecutionScoped b x"
  shows "fence_holds env goal s (xe_executionId x) (xe_executionGeneration x) continuation db"
proof (rule fence_openE [OF fence])
  fix row snap e
  assume g: "selectById (rd_goals db) (ev_goalId b) = Some row" "gr_status row = Gs_active"
      "gr_workspace_id row = ev_workspaceId b" "gr_lease_generation row = rq_expectedLeaseGeneration q"
      "gr_lease_activity_seq row = rq_expectedLeaseActivitySeq q"
    and n: "row_get (\<lambda>s. sr_goal_id s = ev_goalId b) (rd_snapshots db) = Some snap"
      "sr_last_event_sequence snap = rq_expectedSnapshotSequence q"
      "sr_active_execution_id snap = Some (xe_executionId x)"
      "sr_execution_generation snap = Some (xe_executionGeneration x)"
    and newer: "\<not> newer_goal_event db (ev_goalId b) (rq_expectedSnapshotSequence q)
       (map_option (\<lambda>rec. ev_eventId (event_base (rr_event rec))) duplicate)"
    and e: "row_latest (\<lambda>e. instant_of (er_created_at e))
       (\<lambda>e. er_goal_id e = ev_goalId b \<and> er_workspace_id e = ev_workspaceId b
          \<and> er_lease_generation e = rq_expectedLeaseGeneration q) (db_executions (rd_goals db)) = Some e"
      "er_id e = xe_executionId x" "er_state e = Xs_active"
    and c: "expected_continuation_matches (rq_expectedLiveScheduledContinuation q)
       (selectLiveScheduledContinuation (rd_goals db) (ev_goalId b))"
  have snaps: "snapshots_wf db" using wf by (simp add: runtime_wf_def)
  have "find_snapshot db (ev_goalId b) = Some snap" using n(1) by (simp add: find_snapshot_def)
  then obtain now where now: "snapshot_of db (ev_goalId b) = Some now" "snap = row_of_record now"
    by (rule snapshot_of_row [OF snaps])
  have f: "rq_expectedLeaseGeneration q = g_leaseGeneration goal"
      "rq_expectedLeaseActivitySeq q = g_leaseActivitySeq goal"
      "rq_expectedSnapshotSequence q = gs_lastEventSequence s"
      "rq_expectedLiveScheduledContinuation q = map_option (\<lambda>c. (cn_id c, cn_version c)) continuation"
    by (simp_all add: q worker_lost_request_def)
  let ?current = "\<lambda>e. er_goal_id e = pj_goalId (gs_projection s) \<and> er_workspace_id e = pj_workspaceId (gs_projection s)
      \<and> er_lease_generation e = g_leaseGeneration goal"
  note latest = e(1) [unfolded ids f]
  have e1: "e \<in> set (db_executions (rd_goals db))" "?current e" using row_latest_SomeD [OF latest] by simp_all
  have e2: "\<forall>e' \<in> set (db_executions (rd_goals db)). ?current e'
      \<longrightarrow> instant_of (er_created_at e') \<le> instant_of (er_created_at e)"
    using row_latest_max [OF latest] by simp
  have "vr_event_id r = workerLostEventId env goal s"
    if r: "r \<in> set (rd_events db)" "vr_goal_id r = pj_goalId (gs_projection s)" "gs_lastEventSequence s < vr_sequence r" for r
  proof -
    have "map_option (\<lambda>rec. ev_eventId (event_base (rr_event rec))) duplicate = Some (vr_event_id r)"
      using newer r by (auto simp: newer_goal_event_def ids f)
    then show ?thesis using dup ids(3) by (cases duplicate) auto
  qed
  then show ?thesis
    unfolding fence_holds_def Let_def
    using g [unfolded ids f] now [unfolded ids] n(2-4) [unfolded f] e(2,3) e1 e2
      c [unfolded ids f continuation_expected]
    by (intro conjI) (auto simp: row_of_record_def)
qed

lemma store_lost_reconciled:
  assumes wf: "runtime_wf db" and res: "store_lost env s event reason rec others db = (db', Inr entry)"
    and d: "re_disposition entry = Rd_reconciled"
  obtains q s' where "projectGoalRuntimeEvent (gs_projection s) event = (Apply, q)"
    "re_eventSequence entry = Some (rr_sequence rec)" "gs_projection s' = q"
    "gs_lastEventSequence s' = rr_sequence rec" "snapshot_of db' (pj_goalId q) = Some s'"
proof -
  obtain q where q: "projectGoalRuntimeEvent (gs_projection s) event = (Apply, q)"
    using res d by (auto simp: store_lost_def Let_def plain_entry_def
        split: prod.splits goal_runtime_event_decision.splits)
  let ?db1 = "run_runtime db others"
  have wf1: "snapshots_wf ?db1" using reaches_moves [OF reaches_run wf] by (simp add: runtime_wf_def)
  obtain s' where stored: "storeGoalRuntimeSnapshot q (rr_sequence rec) (rv_now env) ?db1 = Inr (db', s')"
      and seq: "re_eventSequence entry = Some (rr_sequence rec)"
    using res d by (auto simp: store_lost_def Let_def q split: sum.splits)
  have "store_snapshot q (rr_sequence rec) (rv_now env) ?db1 = (db', Inr s')"
    by (simp add: store_snapshot_def stored)
  from that [OF q seq _ _ store_snapshot_result(4) [OF wf1 this]]
    store_snapshot_result(1,2) [OF wf1 this] show thesis by blast
qed

lemma commit_lost_reconciled:
  assumes wf: "runtime_wf db" "config_ok (rv_config env)"
    and target: "isWorkerBackedState (gs_projection s)" "pj_activeExecutionId (gs_projection s) = Some i"
      "pj_executionGeneration (gs_projection s) = Some g"
    and res: "commit_lost env s goal i g continuation reason others db = (db', Inr entry)"
    and d: "re_disposition entry = Rd_reconciled"
  shows "fence_holds env goal s i g continuation db" "\<exists>s' n. re_eventSequence entry = Some n
    \<and> snapshot_of db' (pj_goalId (gs_projection s)) = Some s' \<and> gs_lastEventSequence s' = n
    \<and> pj_runtimeState (gs_projection s') = Rt_recovery_required"
proof -
  let ?e = "worker_lost_event env goal s i g reason"
  let ?q = "worker_lost_request env goal s ?e continuation"
  have log: "log_wf db" using wf(1) by (simp add: runtime_wf_def)
  note closed = res [unfolded commit_lost_def Let_def]
  obtain db1 r where app: "appendGoalRuntimeReconciliationEvent (rv_config env) (rv_gap env) ?q db = Inr (db1, r)"
    using closed by (cases "appendGoalRuntimeReconciliationEvent (rv_config env) (rv_gap env) ?q db") auto
  obtain rec where r: "r = Rx_appended rec \<or> r = Rx_duplicate rec"
      and stored: "store_lost env s ?e reason rec others db1 = (db', Inr entry)"
  proof (cases r)
    case (Rx_concurrent_change why)
    then have "re_disposition entry = Rd_concurrent_change" using closed app by (auto simp: plain_entry_def)
    then show ?thesis using d by simp
  qed (use closed app that in \<open>simp_all\<close>)
  obtain b x where ex: "?e = ExecutionScoped b x"
      and bx: "ev_goalId b = pj_goalId (gs_projection s)" "ev_workspaceId b = pj_workspaceId (gs_projection s)"
        "ev_eventId b = workerLostEventId env goal s" "xe_executionId x = i"
        "xe_executionGeneration x = g" by (rule worker_lost_shape)
  have event: "rq_event ?q = ExecutionScoped b x" by (simp add: worker_lost_request_def ex)
  have "\<exists>dup. reconciliation_fence ?q b x dup db = Inr None \<and> (\<forall>rec. dup = Some rec \<longrightarrow> rr_event rec = ExecutionScoped b x)"
    using log
  proof (rule reconcile_append_cases [OF app])
    fix b' x'
    assume "rq_event ?q = ExecutionScoped b' x'"
    then have "b' = b" "x' = x" using event by simp_all
    moreover assume "(\<exists>reason. db1 = db \<and> r = Rx_concurrent_change reason)
     \<or> (\<exists>row rec. db1 = db \<and> r = Rx_duplicate rec \<and> find_event db (ev_eventId b') = Some row
          \<and> read_event_row row = Inr rec \<and> rr_event rec = rq_event ?q
          \<and> reconciliation_fence ?q b' x' (Some rec) db = Inr None)
     \<or> (db1 = insert_and_trim (rv_config env) (rv_gap env) (rq_event ?q) (rq_recordedAt ?q) db
          \<and> r = Rx_appended (new_record db (rv_gap env) (rq_event ?q) (rq_recordedAt ?q))
          \<and> find_event db (ev_eventId b') = None
          \<and> reconciliation_fence ?q b' x' None db = Inr None)"
    ultimately show ?thesis using r event by fastforce
  qed
  then obtain dup where dup: "reconciliation_fence ?q b x dup db = Inr None"
      "\<And>rec. dup = Some rec \<Longrightarrow> rr_event rec = ExecutionScoped b x" by blast
  from fence_gives [OF wf(1) _ dup(1) bx(1-3) dup(2)] show "fence_holds env goal s i g continuation db"
    using bx ex by simp
  have wf1: "runtime_wf db1"
    using reaches_moves [OF reaches_reconciliation_append [OF wf(2) app] wf(1)] by simp
  obtain q s' where q: "projectGoalRuntimeEvent (gs_projection s) ?e = (Apply, q)"
      and s': "re_eventSequence entry = Some (rr_sequence rec)" "gs_projection s' = q"
        "gs_lastEventSequence s' = rr_sequence rec" "snapshot_of db' (pj_goalId q) = Some s'"
    by (rule store_lost_reconciled [OF wf1 stored d])
  then show "\<exists>s' n. re_eventSequence entry = Some n
      \<and> snapshot_of db' (pj_goalId (gs_projection s)) = Some s' \<and> gs_lastEventSequence s' = n
      \<and> pj_runtimeState (gs_projection s') = Rt_recovery_required"
    using worker_lost_applies [OF target, of env goal reason] q by auto
qed

lemma reconciliation_targetE:
  assumes "reconciliation_target s db = Inr (Inr (goal, i, g))"
  obtains "isWorkerBackedState (gs_projection s)" "pj_activeExecutionId (gs_projection s) = Some i"
    "pj_executionGeneration (gs_projection s) = Some g" "find_goal (pj_goalId (gs_projection s)) db = Inr (Some goal)"
    "g_status goal = Gs_active" "g_leaseGeneration goal = g" "g_executionId goal = Some i"
    "g_workspaceId goal = pj_workspaceId (gs_projection s)"
proof -
  let ?p = "gs_projection s"
  note t = assms [unfolded reconciliation_target_def Let_def]
  have worker: "isWorkerBackedState ?p" by (rule ccontr) (use t in simp)
  obtain i' g' where ids: "pj_activeExecutionId ?p = Some i'" "pj_executionGeneration ?p = Some g'"
    using t worker by (cases "pj_activeExecutionId ?p"; cases "pj_executionGeneration ?p") simp_all
  obtain found where found: "find_goal (pj_goalId ?p) db = Inr found"
    using t worker ids by (cases "find_goal (pj_goalId ?p) db") simp_all
  obtain goal' where goal: "found = Some goal'" using t worker ids found by (cases found) simp_all
  show thesis
    by (rule that; use t worker ids found goal in \<open>simp split: if_splits\<close>)
qed

lemma target_ends:
  assumes "reconciliation_target s db = Inr (Inl e)"
  shows "re_disposition e \<noteq> Rd_reconciled"
proof -
  let ?p = "gs_projection s"
  note t = assms [unfolded reconciliation_target_def Let_def]
  consider (no) "\<not> isWorkerBackedState ?p" | (ids) "isWorkerBackedState ?p"
      "pj_activeExecutionId ?p = None \<or> pj_executionGeneration ?p = None"
    | (go) i g where "isWorkerBackedState ?p" "pj_activeExecutionId ?p = Some i" "pj_executionGeneration ?p = Some g"
    by (cases "isWorkerBackedState ?p"; cases "pj_activeExecutionId ?p"; cases "pj_executionGeneration ?p") auto
  then show ?thesis
  proof cases
    case go
    obtain found where found: "find_goal (pj_goalId ?p) db = Inr found"
      using t go by (cases "find_goal (pj_goalId ?p) db") simp_all
    show ?thesis
      using t go found by (cases found) (auto simp: plain_entry_def split: if_splits)
  qed (use t in \<open>auto simp: plain_entry_def split: option.splits\<close>)
qed

lemma reconcile_reconciled:
  assumes wf: "runtime_wf db" "config_ok (rv_config env)"
    and res: "reconcileSnapshot env il s db = (db', Inr entry)" and d: "re_disposition entry = Rd_reconciled"
  obtains goal i g continuation reason dba where
    "dba = run_runtime (run_runtime db (il_before_continuation il)) (il_before_append il)"
    "reconciliation_target s db = Inr (Inr (goal, i, g))"
    "getLiveScheduledContinuation (g_id goal) (rd_goals (run_runtime db (il_before_continuation il))) = Inr continuation"
    "assess_worker env goal continuation = Inr (Inr reason)"
    "fence_holds env goal s i g continuation dba"
    "\<exists>s' n. re_eventSequence entry = Some n \<and> gs_lastEventSequence s' = n
       \<and> snapshot_of db' (pj_goalId (gs_projection s)) = Some s'
       \<and> pj_runtimeState (gs_projection s') = Rt_recovery_required"
proof -
  let ?db1 = "run_runtime db (il_before_continuation il)"
  let ?dba = "run_runtime ?db1 (il_before_append il)"
  note closed = res [unfolded reconcileSnapshot_def Let_def]
  obtain t where t: "reconciliation_target s db = Inr t"
    using closed by (cases "reconciliation_target s db") simp_all
  obtain goal i g where target: "reconciliation_target s db = Inr (Inr (goal, i, g))"
  proof (cases t)
    case (Inl e)
    then have "e = entry" using closed t by simp
    then show thesis using d target_ends t Inl by simp
  next
    case (Inr x)
    then show thesis using that t by (cases x) auto
  qed
  obtain c where c: "getLiveScheduledContinuation (g_id goal) (rd_goals ?db1) = Inr c"
    using closed target by (cases "getLiveScheduledContinuation (g_id goal) (rd_goals ?db1)") simp_all
  obtain a where a: "assess_worker env goal c = Inr a"
    using closed target c by (cases "assess_worker env goal c") simp_all
  have not_early: "fst y \<noteq> Rd_reconciled" if "assess_worker env goal c = Inr (Inl y)" for y
    using that by (auto simp: assess_worker_def bind_ok_Inr_iff
        split: option.splits goal_worker_liveness_assessment.splits)
  obtain reason where reason: "a = Inr reason"
  proof (cases a)
    case (Inl y)
    then have "re_disposition entry = fst y" using closed target c a by (cases y) (auto simp: plain_entry_def)
    then show thesis using not_early a Inl d by auto
  qed
  have commit: "commit_lost env s goal i g c reason (il_before_store il) ?dba = (db', Inr entry)"
    using closed target c a reason by simp
  have wfa: "runtime_wf ?dba" using reaches_moves wf(1) reaches_run reaches_trans by blast
  have t3: "isWorkerBackedState (gs_projection s)" "pj_activeExecutionId (gs_projection s) = Some i"
      "pj_executionGeneration (gs_projection s) = Some g"
    using reconciliation_targetE [OF target] by blast+
  show thesis
    using that [OF refl target c a [unfolded reason]] commit_lost_reconciled [OF wfa wf(2) t3 commit d]
    by blast
qed

section \<open>A retry after a crash\<close>

lemma worker_lost_reason:
  "worker_lost_event env goal s i g a = worker_lost_event env goal s i g b \<longleftrightarrow> a = b"
  by (cases a; cases b) (simp_all add: worker_lost_event_def)

text \<open>The numbers and texts of a request the log accepts.\<close>

definition request_valid :: "append_reconciliation_request \<Rightarrow> execution_scoped_event \<Rightarrow> bool" where
  "request_valid q x \<longleftrightarrow> validateEvent (rq_event q) = Inr () \<and> date_parse (rq_recordedAt q) \<noteq> None
     \<and> 0 \<le> rq_expectedSnapshotSequence q \<and> 0 < rq_expectedLeaseGeneration q
     \<and> 0 \<le> rq_expectedLeaseActivitySeq q \<and> request_generation (rq_event q) = Some x
     \<and> xe_executionGeneration x = rq_expectedLeaseGeneration q"

lemma append_known:
  assumes valid: "request_valid q x" and known: "find_event db (ev_eventId (event_base (rq_event q))) = Some row"
      "read_event_row row = Inr rec"
  shows "rr_event rec \<noteq> rq_event q \<Longrightarrow>
      appendGoalRuntimeReconciliationEvent cfg gap q db = Inl Ee_event_id_conflict"
    "rr_event rec = rq_event q \<Longrightarrow> event_validateStoredScope (rq_event q) db = Inr () \<Longrightarrow>
      reconciliation_fence q (event_base (rq_event q)) x (Some rec) db = Inr None \<Longrightarrow>
      appendGoalRuntimeReconciliationEvent cfg gap q db = Inr (db, Rx_duplicate rec)"
proof -
  have start: "appendGoalRuntimeReconciliationEvent cfg gap q db = append_under_fence cfg gap q x db"
    using valid unfolding request_valid_def appendGoalRuntimeReconciliationEvent_def
    by (auto simp: event_nonNegativeInteger_def event_positiveInteger_def event_validateIso_def)
  show "appendGoalRuntimeReconciliationEvent cfg gap q db = Inl Ee_event_id_conflict"
    if "rr_event rec \<noteq> rq_event q"
    unfolding start using known that
    by (simp add: append_under_fence_def Let_def find_duplicate_def sameEvent_iff)
  show "appendGoalRuntimeReconciliationEvent cfg gap q db = Inr (db, Rx_duplicate rec)"
    if "rr_event rec = rq_event q" "event_validateStoredScope (rq_event q) db = Inr ()"
      "reconciliation_fence q (event_base (rq_event q)) x (Some rec) db = Inr None"
    unfolding start using known that
    by (simp add: append_under_fence_def Let_def find_duplicate_def sameEvent_iff)
qed

lemma reconcile_closed:
  assumes "reconciliation_target s db = Inr (Inr (goal, i, g))"
    "getLiveScheduledContinuation (g_id goal) (rd_goals db) = Inr c"
    "assess_worker env goal c = Inr (Inr reason)"
  shows "reconcileSnapshot env undisturbed s db = commit_lost env s goal i g c reason [] db"
  using assms by (simp add: reconcileSnapshot_def undisturbed_def)

lemma commit_retry:
  assumes valid: "request_valid (worker_lost_request env goal s (worker_lost_event env goal s i g reason) c) x"
    and known: "find_event db (workerLostEventId env goal s) = Some row" "read_event_row row = Inr rec"
      "rr_event rec = worker_lost_event env goal s i g earlier"
  shows "earlier \<noteq> reason \<Longrightarrow>
      commit_lost env s goal i g c reason others db = (db, Inl (Ce_event Ee_event_id_conflict))"
    "earlier = reason \<Longrightarrow> event_validateStoredScope (worker_lost_event env goal s i g reason) db = Inr () \<Longrightarrow>
      reconciliation_fence (worker_lost_request env goal s (worker_lost_event env goal s i g reason) c)
        (event_base (worker_lost_event env goal s i g reason)) x (Some rec) db = Inr None \<Longrightarrow>
      commit_lost env s goal i g c reason others db
        = store_lost env s (worker_lost_event env goal s i g reason) reason rec others db"
proof -
  let ?e = "worker_lost_event env goal s i g reason"
  let ?q = "worker_lost_request env goal s ?e c"
  have q: "rq_event ?q = ?e" by (simp add: worker_lost_request_def)
  have "ev_eventId (event_base (rq_event ?q)) = workerLostEventId env goal s"
    unfolding q by (simp add: worker_lost_event_def)
  then have found: "find_event db (ev_eventId (event_base (rq_event ?q))) = Some row" using known(1) by simp
  note app = append_known [OF valid found known(2), of "rv_config env" "rv_gap env", unfolded q]
  show "commit_lost env s goal i g c reason others db = (db, Inl (Ce_event Ee_event_id_conflict))"
    if "earlier \<noteq> reason"
  proof -
    have "rr_event rec \<noteq> ?e" unfolding known(3) worker_lost_reason by (rule that)
    from app(1) [OF this] show ?thesis by (simp only: commit_lost_def Let_def sum.case)
  qed
  show "commit_lost env s goal i g c reason others db = store_lost env s ?e reason rec others db"
    if "earlier = reason" "event_validateStoredScope ?e db = Inr ()"
      "reconciliation_fence ?q (event_base ?e) x (Some rec) db = Inr None"
    using app(2) [OF _ that(2,3)] known(3) that(1)
    by (simp only: commit_lost_def Let_def sum.case prod.case append_reconciliation_result.case)
qed

end
