(* ===== verification/Runtime_Properties.thy ===== *)
theory Runtime_Properties
  imports Runtime_Publishing Runtime_Reconciliation_Safety
begin

text \<open>
  The properties of the goal runtime: its event log, its snapshots, the control plane that folds the
  one into the other, and the restart reconciliation. The witnesses run on one goal whose execution has
  been started through the control plane.
\<close>

section \<open>A small store\<close>

definition sample_runtime :: runtime_db where
  "sample_runtime = \<lparr>rd_goals = sample_store, rd_events = [], rd_sequence = 0, rd_snapshots = []\<rparr>"

definition sample_config :: event_store_config where
  "sample_config = \<lparr>ec_maxEventsPerWorkspace = 2, ec_retentionSlack = 0\<rparr>"

definition sample_control :: control_env where
  "sample_control = \<lparr>ce_config = sample_config, ce_gap = (\<lambda>_. 0), ce_now = Instant 1000,
     ce_recordedAt = (\<lambda>n. Instant (1000 + n)), ce_sha256 = (\<lambda>s. s), ce_readWorkspace = None,
     ce_readIntegration = None, ce_bullet = CHR ''*'', ce_ellipsis = CHR ''~''\<rparr>"

definition execution_step :: "string \<Rightarrow> execution_scoped_type \<Rightarrow> goal_runtime_event" where
  "execution_step i t = ExecutionScoped \<lparr>ev_eventId = i, ev_workspaceId = ''w1'', ev_goalId = ''g1'',
     ev_occurredAt = Instant 500, ev_detail = None\<rparr> \<lparr>xe_type = t, xe_executionId = ''x1'',
     xe_executionGeneration = 1, xe_phase = None, xe_taskId = None, xe_checkpointId = None,
     xe_blockerKind = None\<rparr>"

text \<open>After the start of the execution has been published.\<close>

definition running_projection :: goal_runtime_projection where
  "running_projection = \<lparr>pj_goalId = ''g1'', pj_workspaceId = ''w1'', pj_lifecycleState = Lc_open,
     pj_runtimeState = Rt_running, pj_desiredRuntimeState = Ds_running, pj_integrationState = In_unknown,
     pj_workspaceState = Wk_unknown, pj_activeExecutionId = Some ''x1'', pj_executionGeneration = Some 1,
     pj_phase = None, pj_progress = None, pj_lastActivityAt = Instant 500, pj_lastHeartbeatAt = None,
     pj_blocker = None\<rparr>"

definition running_runtime :: runtime_db where
  "running_runtime = fst (publishGoalRuntimeEvent sample_control
     (execution_step ''e1'' Et_execution_started) sample_runtime)"

text \<open>The same store spelled out, for the evaluation of the witnesses.\<close>

lemma running_runtime_code [code]:
  "running_runtime = \<lparr>rd_goals = sample_store,
     rd_events = [event_row 1 (execution_step ''e1'' Et_execution_started) (Instant 1000)],
     rd_sequence = 1, rd_snapshots = [rowValues running_projection 1 (Instant 1000)]\<rparr>"
  unfolding running_runtime_def by code_simp

lemma wf_sample_runtime: "runtime_wf sample_runtime"
  by (simp add: runtime_wf_def sample_runtime_def wf_sample_store log_wf_def snapshots_wf_def)

lemma sample_config_ok: "config_ok sample_config" "config_ok (ce_config sample_control)"
  by (simp_all add: config_ok_def sample_config_def sample_control_def)

lemma wf_running_runtime: "runtime_wf running_runtime"
  unfolding running_runtime_def
  using operations_reach(1) [OF sample_config_ok(2)] reaches_moves wf_sample_runtime by blast

section \<open>The event log\<close>

lemma read_row_id: "read_event_row row = Inr rec \<Longrightarrow> vr_event_id row = ev_eventId (event_base (rr_event rec))"
  unfolding read_event_row_iff by (metis event_row_fields(3))

lemma appended_row:
  assumes "log_wf db" "config_ok cfg" "appendGoalRuntimeEvent cfg gap event t db = (db1, Inr r)"
  shows "\<exists>row \<in> set (rd_events db1). read_event_row row = Inr (ar_record r)
    \<and> rr_event (ar_record r) = event \<and> vr_sequence row = rr_sequence (ar_record r)"
  using assms(1)
proof (cases rule: append_event_cases [where event = event and t = t and cfg = cfg and gap = gap])
  case refused
  then show ?thesis using assms(3) by simp
next
  case added
  then have r: "db1 = insert_and_trim cfg gap event t db" "ar_record r = new_record db gap event t"
    using assms(3) by auto
  have "read_event_row (event_row (allocate_sequence db gap) event t) = Inr (new_record db gap event t)"
    using read_new_row(1) [OF assms(1)] added(1) by (simp add: appendable_def)
  then show ?thesis
    using new_row_kept [OF assms(1) added(1,2) assms(2), of gap]
    unfolding r by (intro bexI) (auto simp: new_record_def)
next
  case (known row rec)
  then have "db1 = db" "ar_record r = rec" "rr_event rec = event"
    using assms(3) by (auto split: if_splits)
  then show ?thesis
    using known(2,3) find_event_SomeD read_event_row_sequence by auto
qed

lemma append_retained:
  assumes "log_wf db" "row \<in> set (rd_events db)" "read_event_row row = Inr rec" "appendable event t db"
    "ev_eventId (event_base event) = vr_event_id row"
  shows "appendGoalRuntimeEvent cfg gap event t db = (db, if rr_event rec = event
    then Inr \<lparr>ar_appended = False, ar_record = rec\<rparr> else Inl Ee_event_id_conflict)"
proof -
  have found: "find_event db (ev_eventId (event_base event)) = Some row"
    using find_event_key [OF assms(1,2)] assms(5) by simp
  from assms(1) show ?thesis
  proof (cases rule: append_event_cases [where event = event and t = t and cfg = cfg and gap = gap])
    case (known row' rec')
    then show ?thesis using found assms(3) by simp
  qed (use found assms(4) in \<open>simp_all\<close>)
qed

text \<open>
  C21: A row of the event table can be read back exactly when it is the row the append writes for a
  record: reading and writing are inverse, and no other combination of columns is accepted.
\<close>

theorem event_row_roundtrip:
  "read_event_row row = Inr rec \<longleftrightarrow>
     row = event_row (rr_sequence rec) (rr_event rec) (rr_recordedAt rec) \<and> record_sound rec"
  by (rule read_event_row_iff)

text \<open>
  An event identifier names one content. Whatever happened to the store since an event was
  appended, as long as its row is retained, appending under its identifier changes nothing: the same
  event is answered with the stored record, another one with a conflict.
\<close>

theorem append_is_idempotent:
  assumes "runtime_wf db" "config_ok cfg"
    and first: "appendGoalRuntimeEvent cfg gap event t db = (db1, Inr r)"
    and kept: "row \<in> set (rd_events (run_runtime db1 ops))" "vr_sequence row = rr_sequence (ar_record r)"
    and again: "appendable event' t' (run_runtime db1 ops)"
      "ev_eventId (event_base event') = ev_eventId (event_base event)"
  shows "appendGoalRuntimeEvent cfg' gap' event' t' (run_runtime db1 ops) =
    (run_runtime db1 ops, if event' = event then Inr \<lparr>ar_appended = False, ar_record = ar_record r\<rparr>
       else Inl Ee_event_id_conflict)"
proof -
  let ?db2 = "run_runtime db1 ops"
  have log: "log_wf db" using assms(1) by (simp add: runtime_wf_def)
  have "reaches db db1" using reaches_append [OF assms(2), of db gap event t] first by simp
  then have wf1: "runtime_wf db1" using reaches_moves assms(1) by blast
  then have wf2: "runtime_wf ?db2" and moves: "log_moves db1 ?db2"
    using reaches_moves [OF reaches_run] by (auto simp: runtime_moves_def)
  obtain old where old: "old \<in> set (rd_events db1)" "read_event_row old = Inr (ar_record r)"
      "rr_event (ar_record r) = event" "vr_sequence old = rr_sequence (ar_record r)"
    using appended_row [OF log assms(2) first] by blast
  have same: "row = old"
  proof -
    have log1: "log_wf db1" "log_wf ?db2" using wf1 wf2 by (simp_all add: runtime_wf_def)
    have "vr_sequence old \<le> rd_sequence db1" by (rule log_wf_row(1) [OF log1(1) old(1)])
    then have "row \<in> set (rd_events db1)"
      using moves kept old(4) by (auto simp: log_moves_def)
    then show ?thesis using log_sequence_unique [OF log1(1) _ old(1)] kept(2) old(4) by simp
  qed
  have "log_wf ?db2" using wf2 by (simp add: runtime_wf_def)
  moreover have "ev_eventId (event_base event') = vr_event_id row"
    using read_row_id [OF old(2)] old(3) again(2) same by simp
  ultimately have "appendGoalRuntimeEvent cfg' gap' event' t' ?db2 = (?db2, if rr_event (ar_record r) = event'
      then Inr \<lparr>ar_appended = False, ar_record = ar_record r\<rparr> else Inl Ee_event_id_conflict)"
    using append_retained [OF _ kept(1) _ again(1)] old(2) same by simp
  then show ?thesis using old(3) by (simp add: eq_commute)
qed

text \<open>The same event again, and another one under its identifier, after a third has been appended.\<close>

theorem append_is_idempotent_witness:
  "appendGoalRuntimeEvent sample_config 0 (execution_step ''e1'' Et_execution_started) (Instant 2000)
     (run_runtime running_runtime [Rop_append None None 0 (execution_step ''e2'' Et_execution_heartbeat) (Instant 1500)])
   = (run_runtime running_runtime [Rop_append None None 0 (execution_step ''e2'' Et_execution_heartbeat) (Instant 1500)],
      Inr \<lparr>ar_appended = False, ar_record = \<lparr>rr_sequence = 1,
        rr_event = execution_step ''e1'' Et_execution_started, rr_recordedAt = Instant 1000\<rparr>\<rparr>)"
proof -
  let ?e = "execution_step ''e1'' Et_execution_started"
  let ?rec = "\<lparr>rr_sequence = 1, rr_event = ?e, rr_recordedAt = Instant 1000\<rparr>"
  let ?ops = "[Rop_append None None 0 (execution_step ''e2'' Et_execution_heartbeat) (Instant 1500)]"
  let ?row = "event_row 1 ?e (Instant 1000)"
  have first: "appendGoalRuntimeEvent sample_config 0 ?e (Instant 1000) running_runtime
      = (running_runtime, Inr \<lparr>ar_appended = False, ar_record = ?rec\<rparr>)"
    and kept: "?row \<in> set (rd_events (run_runtime running_runtime ?ops))"
    and again: "appendable ?e (Instant 2000) (run_runtime running_runtime ?ops)"
    unfolding atomize_conj by ((unfold runtime_step_eval)?, code_simp)
  from append_is_idempotent [OF wf_running_runtime sample_config_ok(1) first kept _ again refl]
  show ?thesis by simp
qed

text \<open>
  C22: Retention. After an event has been added, the log of its workspace is the old log with the new row
  at its end, from which at most the oldest rows are gone: it holds no more than the configured maximum
  and slack, and when rows were dropped it holds exactly the maximum. Other workspaces keep every row.
\<close>

theorem retention_keeps_newest:
  assumes "log_wf db" "config_ok cfg"
    and added: "appendGoalRuntimeEvent cfg gap event t db = (db1, Inr r)" "ar_appended r"
  shows "\<exists>k row. events_of_workspace db1 (ev_workspaceId (event_base event))
        = drop k (events_of_workspace db (ev_workspaceId (event_base event)) @ [row])
    \<and> read_event_row row = Inr (ar_record r)
    \<and> int (length (events_of_workspace db1 (ev_workspaceId (event_base event))))
        \<le> ec_maxEventsPerWorkspace cfg + ec_retentionSlack cfg
    \<and> (k = 0 \<or> int (length (events_of_workspace db1 (ev_workspaceId (event_base event))))
        = ec_maxEventsPerWorkspace cfg)
    \<and> (\<forall>v. v \<noteq> ev_workspaceId (event_base event) \<longrightarrow> events_of_workspace db1 v = events_of_workspace db v)"
  using assms(1)
proof (cases rule: append_event_cases [where event = event and t = t and cfg = cfg and gap = gap])
  case added': added
  let ?w = "ev_workspaceId (event_base event)" and ?row = "event_row (allocate_sequence db gap) event t"
  let ?rows = "events_of_workspace db ?w @ [?row]"
  have db1: "db1 = insert_and_trim cfg gap event t db" and r: "ar_record r = new_record db gap event t"
    using added(1) added'(3) by auto
  have trim: "events_of_workspace db1 ?w = (if ec_maxEventsPerWorkspace cfg + ec_retentionSlack cfg
      < int (length ?rows) then drop (length ?rows - nat (ec_maxEventsPerWorkspace cfg)) ?rows else ?rows)"
    using trimmed_workspace [OF assms(1) added'(1,2) assms(2), of gap] by (simp add: db1 Let_def)
  have read: "read_event_row ?row = Inr (ar_record r)"
    using read_new_row(1) [OF assms(1)] added'(1) by (simp add: appendable_def r)
  have other: "events_of_workspace db1 v = events_of_workspace db v" if "v \<noteq> ?w" for v
  proof -
    have wf1: "log_wf (add_event_row ?row db)" by (rule insert_and_trim_wf(1) [OF assms(1) added'(1,2)])
    have "events_of_workspace db1 v = events_of_workspace (add_event_row ?row db) v"
      unfolding db1 insert_and_trim_def by (rule enforce_other [OF wf1 assms(2) that])
    then show ?thesis
      using that by (simp add: events_of_workspace_wf [OF wf1] events_of_workspace_wf [OF assms(1)])
  qed
  have ok: "0 < ec_maxEventsPerWorkspace cfg" "0 \<le> ec_retentionSlack cfg"
    using assms(2) by (simp_all add: config_ok_def)
  show ?thesis
  proof (cases "ec_maxEventsPerWorkspace cfg + ec_retentionSlack cfg < int (length ?rows)")
    case True
    then have "int (length (events_of_workspace db1 ?w)) = ec_maxEventsPerWorkspace cfg"
      using trim ok by auto
    then show ?thesis
      using trim True read other ok
      by (intro exI [of _ "length ?rows - nat (ec_maxEventsPerWorkspace cfg)"] exI [of _ ?row]) simp
  next
    case False
    then show ?thesis using trim read other by (intro exI [of _ 0] exI [of _ ?row]) auto
  qed
qed (use added in \<open>auto split: if_splits\<close>)

text \<open>The third event of a workspace whose log holds two.\<close>

definition full_runtime :: runtime_db where
  "full_runtime = fst (appendGoalRuntimeEvent sample_config 0
     (execution_step ''e2'' Et_execution_heartbeat) (Instant 1500) running_runtime)"

lemma wf_full_runtime: "runtime_wf full_runtime"
  unfolding full_runtime_def
  using reaches_append [OF sample_config_ok(1)] reaches_moves wf_running_runtime by blast

theorem retention_keeps_newest_witness:
  "\<exists>db1 r. appendGoalRuntimeEvent sample_config 0 (execution_step ''e3'' Et_execution_heartbeat)
       (Instant 1600) full_runtime = (db1, Inr r)
     \<and> (\<exists>k row. events_of_workspace db1 ''w1'' = drop k (events_of_workspace full_runtime ''w1'' @ [row])
          \<and> length (events_of_workspace db1 ''w1'') = 2 \<and> 0 < k)"
proof -
  let ?e = "execution_step ''e3'' Et_execution_heartbeat"
  have ok: "(case appendGoalRuntimeEvent sample_config 0 ?e (Instant 1600) full_runtime of
      (db1, Inr r) \<Rightarrow> ar_appended r \<and> length (events_of_workspace db1 ''w1'') = 2 | _ \<Rightarrow> False)"
    "length (events_of_workspace full_runtime ''w1'') = 2" "ev_workspaceId (event_base ?e) = ''w1''" unfolding atomize_conj by ((unfold runtime_step_eval)?, code_simp)
  obtain db1 x where app: "appendGoalRuntimeEvent sample_config 0 ?e (Instant 1600) full_runtime = (db1, x)"
    by fastforce
  obtain r where r: "x = Inr r" "ar_appended r" "length (events_of_workspace db1 ''w1'') = 2"
    using ok(1) app by (cases x) simp_all
  have "log_wf full_runtime" using wf_full_runtime by (simp add: runtime_wf_def)
  from retention_keeps_newest [OF this sample_config_ok(1) app [unfolded r(1)] r(2)] obtain k row where
      "events_of_workspace db1 ''w1'' = drop k (events_of_workspace full_runtime ''w1'' @ [row])"
    using ok(3) by auto
  moreover from this have "0 < k" using r(3) ok(2) by (cases k) auto
  ultimately show ?thesis using app r by blast
qed

lemma list_all2_leftD: "list_all2 P xs ys \<Longrightarrow> x \<in> set xs \<Longrightarrow> \<exists>y \<in> set ys. P x y"
  by (induction rule: list_all2_induct) auto

text \<open>
  C23: A reader loses no event unnoticed. Take any row of a workspace that was ever in the log behind the
  reader's cursor, and any later state: a page read from the cursor says that the window was missed, or
  it has the event of the row, or it ends before the row.
\<close>

theorem replay_misses_nothing:
  assumes "runtime_wf db" "row \<in> set (rd_events db)" "cursor < vr_sequence row"
    and page: "replayWorkspaceGoalRuntimeEvents (vr_workspace_id row) (Some cursor) limit
      (run_runtime db ops) = Inr page"
  shows "rp_replayWindowMissed page \<or> (\<exists>rec \<in> set (rp_events page). read_event_row row = Inr rec)
    \<or> (rp_events page \<noteq> [] \<and> rr_sequence (last (rp_events page)) < vr_sequence row)"
proof -
  let ?db = "run_runtime db ops" and ?w = "vr_workspace_id row"
  have wf: "log_wf db" "log_wf ?db" and moves: "log_moves db ?db"
    using assms(1) reaches_moves [OF reaches_run assms(1)] by (auto simp: runtime_moves_def runtime_wf_def)
  obtain taken rest where rows: "filter (after_cursor (Some cursor)) (events_of_workspace ?db ?w) = taken @ rest"
      and all2: "list_all2 (\<lambda>x y. read_event_row x = Inr y) taken (rp_events page)"
      and missed: "rp_replayWindowMissed page
        = window_missed (Some cursor) (fst (sequence_bounds (events_of_workspace ?db ?w)))"
      and none: "rp_events page = [] \<Longrightarrow> taken @ rest = []"
      and behind: "rp_events page \<noteq> [] \<Longrightarrow> filter (after_cursor (Some (rr_sequence (last (rp_events page)))))
         (events_of_workspace ?db ?w) = rest
         \<and> rr_sequence (last (rp_events page)) = vr_sequence (last taken)"
    using replay_page_rows [OF wf(2) page] by blast
  show ?thesis
  proof (cases "row \<in> set (rd_events ?db)")
    case True
    then have "row \<in> set (taken @ rest)"
      unfolding rows [symmetric] events_of_workspace_wf [OF wf(2)] using assms(3)
      by (simp add: after_cursor_def)
    then consider "row \<in> set taken" | "row \<in> set rest" by auto
    then show ?thesis
    proof cases
      case 1
      then obtain rec where "rec \<in> set (rp_events page)" "read_event_row row = Inr rec"
        using list_all2_leftD [OF all2] by blast
      then show ?thesis by blast
    next
      case 2
      then have events: "rp_events page \<noteq> []" using none by force
      then have "row \<in> set (filter (after_cursor (Some (rr_sequence (last (rp_events page)))))
          (events_of_workspace ?db ?w))"
        using behind [THEN conjunct1, OF events] 2 by (simp only:)
      then show ?thesis using events by (simp add: after_cursor_def)
    qed
  next
    case False
    then obtain s where s: "s \<in> set (rd_events ?db)" "vr_workspace_id s = ?w"
      using moves assms(2) by (auto simp: log_moves_def)
    have later: "vr_sequence row < vr_sequence s" if "s \<in> set (events_of_workspace ?db ?w)" for s
      using moves assms(2) False that unfolding events_of_workspace_wf [OF wf(2)]
      by (auto simp: log_moves_def)
    have "s \<in> set (events_of_workspace ?db ?w)" using s by (simp add: events_of_workspace_wf [OF wf(2)])
    then obtain lo hi where bounds: "sequence_bounds (events_of_workspace ?db ?w) = (Some lo, Some hi)"
      by (rule sequence_bounds_in)
    then obtain z where "z \<in> set (events_of_workspace ?db ?w)" "vr_sequence z = lo"
      using sequence_bounds_oldest [of "events_of_workspace ?db ?w" lo] by auto
    then have "vr_sequence row < lo" using later by auto
    then show ?thesis using missed bounds assms(3) by (simp add: window_missed_def)
  qed
qed

text \<open>The first event of the log, read back from zero after it has been pruned by two others.\<close>

theorem replay_misses_nothing_witness:
  "\<exists>page. replayWorkspaceGoalRuntimeEvents ''w1'' (Some 0) 10 (run_runtime running_runtime
       [Rop_append (Some 1) (Some 0) 0 (execution_step ''e2'' Et_execution_heartbeat) (Instant 1500)])
       = Inr page \<and> rp_replayWindowMissed page"
proof -
  let ?db = "run_runtime running_runtime
      [Rop_append (Some 1) (Some 0) 0 (execution_step ''e2'' Et_execution_heartbeat) (Instant 1500)]"
  let ?row = "event_row 1 (execution_step ''e1'' Et_execution_started) (Instant 1000)"
  have ok: "?row \<in> set (rd_events running_runtime)" "vr_workspace_id ?row = ''w1''"
    "(case replayWorkspaceGoalRuntimeEvents ''w1'' (Some 0) 10 ?db of Inl _ \<Rightarrow> False
      | Inr page \<Rightarrow> map (ev_eventId \<circ> event_base \<circ> rr_event) (rp_events page) = [''e2'']
          \<and> map rr_sequence (rp_events page) = [2])" unfolding atomize_conj by ((unfold runtime_step_eval)?, code_simp)
  then obtain page where page: "replayWorkspaceGoalRuntimeEvents ''w1'' (Some 0) 10 ?db = Inr page"
      and seqs: "map rr_sequence (rp_events page) = [2]"
    by (cases "replayWorkspaceGoalRuntimeEvents ''w1'' (Some 0) 10 ?db") auto
  have "rp_replayWindowMissed page \<or> (\<exists>rec \<in> set (rp_events page). read_event_row ?row = Inr rec)
      \<or> (rp_events page \<noteq> [] \<and> rr_sequence (last (rp_events page)) < vr_sequence ?row)"
    by (rule replay_misses_nothing [OF wf_running_runtime ok(1) _ page [folded ok(2)]]) simp
  moreover have "\<not> (\<exists>rec \<in> set (rp_events page). read_event_row ?row = Inr rec)"
    using seqs read_event_row_sequence by (cases "rp_events page") force+
  moreover have "\<not> rr_sequence (last (rp_events page)) < vr_sequence ?row"
    using seqs by (cases "rp_events page") auto
  ultimately show ?thesis using page by blast
qed

section \<open>The snapshots\<close>

text \<open>
  C24: The payload of a snapshot is checked exactly: the decoder accepts a stored payload when it is the
  encoding of a projection that satisfies the projection invariant and every bound of the store, and
  then it returns that projection.
\<close>

theorem snapshot_accepts_exactly_storable:
  "normalizeProjection v reason = Inr p \<longleftrightarrow> v = raw_of_projection p \<and> storable p"
  by (rule normalizeProjection_iff)

text \<open>
  A snapshot is never lost, its cursor never falls, and a cursor stands for one snapshot: whatever
  operations of any process run in between, a snapshot that is still at the same cursor is the same.
\<close>

theorem snapshot_cursor_identifies:
  assumes "runtime_wf db" "snapshot_of db i = Some s"
  shows "\<exists>s'. snapshot_of (run_runtime db ops) i = Some s'
    \<and> gs_lastEventSequence s \<le> gs_lastEventSequence s'
    \<and> (gs_lastEventSequence s' = gs_lastEventSequence s \<longrightarrow> s' = s)"
proof -
  have "snapshots_extend db (run_runtime db ops)"
    using reaches_moves [OF reaches_run assms(1)] assms(1) by (simp add: runtime_moves_def)
  then obtain s' where "snapshot_of (run_runtime db ops) i = Some s'"
      "s' = s \<or> gs_lastEventSequence s < gs_lastEventSequence s'"
    using assms(2) by (auto simp: snapshots_extend_def)
  then show ?thesis by auto
qed

definition running_snapshot :: snapshot_record where
  "running_snapshot = \<lparr>gs_projection = running_projection, gs_lastEventSequence = 1,
     gs_updatedAt = Instant 1000\<rparr>"

lemma snapshot_of_running: "snapshot_of running_runtime ''g1'' = Some running_snapshot"
  by ((unfold runtime_step_eval)?, code_simp)

theorem snapshot_cursor_identifies_witness:
  "\<exists>s'. snapshot_of (run_runtime running_runtime [Rop_snapshot sample_projection 1 (Instant 3000)]) ''g1'' = Some s'
     \<and> 1 \<le> gs_lastEventSequence s' \<and> (gs_lastEventSequence s' = 1 \<longrightarrow> s' = running_snapshot)"
  using snapshot_cursor_identifies [OF wf_running_runtime snapshot_of_running,
      of "[Rop_snapshot sample_projection 1 (Instant 3000)]"]
  by (simp add: running_snapshot_def)

section \<open>The services\<close>

lemma and_then_run:
  "and_then (db, Inl e) k = (db, Inl e)" "and_then (db, Inr a) k = k a db"
  "and_then (and_then r f) g = and_then r (\<lambda>s db. and_then (f s db) g)"
  by (simp_all add: and_then_def split: sum.split)

text \<open>
  C25: Publishing an event is exact. A publish first catches the snapshot of the goal up; this writes no
  event, and if it fails, so does the publish, with the same error. Afterwards the stored snapshot has
  seen every event of its goal. An event the projector rejects on that snapshot is refused, and so is
  one the log refuses, with nothing written; an event the log already has under its identifier adds
  nothing and is answered with the same snapshot, or is a conflict when it differs. Any other event is
  added to the log; the snapshot that is then stored has again seen everything, and while the window
  covers the old cursor it is exactly the projection of the event over the old snapshot, at the sequence
  of the event, and it is stored whenever it can be. What is left of the publish is the check of the
  blockers on that snapshot.
\<close>

theorem publish_is_exact:
  fixes env event db db1 r
  defines "goal \<equiv> ev_goalId (event_base event)" and "known \<equiv> find_event db1 (ev_eventId (event_base event))"
    and "can \<equiv> appendable event (ce_recordedAt env (rd_sequence db1)) db1"
    and "added \<equiv> insert_and_trim (ce_config env) (ce_gap env (rd_sequence db1)) event
      (ce_recordedAt env (rd_sequence db1)) db1"
    and "n \<equiv> allocate_sequence db1 (ce_gap env (rd_sequence db1))"
  assumes "runtime_wf db" "config_ok (ce_config env)"
    and "and_then (ensureGoalSnapshotUnlocked goal db) catchUpSnapshotUnlocked = (db1, r)"
  shows "rd_events db1 = rd_events db \<and> (case r of
       Inl e \<Rightarrow> publishGoalRuntimeEvent env event db = (db1, Inl e)
     | Inr s \<Rightarrow> snapshot_of db1 goal = Some s \<and> unseen db1 goal (gs_lastEventSequence s) = []
       \<and> (rejects (gs_projection s) event \<longrightarrow>
            publishGoalRuntimeEvent env event db = (db1, Inl Ce_projection_rejected))
       \<and> (\<not> rejects (gs_projection s) event \<and> \<not> can \<longrightarrow>
            (\<exists>e. publishGoalRuntimeEvent env event db = (db1, Inl (Ce_event e))))
       \<and> (\<forall>row. \<not> rejects (gs_projection s) event \<and> can \<and> known = Some row \<longrightarrow>
            publishGoalRuntimeEvent env event db = (if row_event row = event
              then reconcileDurableBlockerTruthUnlocked env s db1 else (db1, Inl (Ce_event Ee_event_id_conflict))))
       \<and> (\<not> rejects (gs_projection s) event \<and> can \<and> known = None \<longrightarrow>
            (\<exists>db2. rd_events db2 = rd_events added
              \<and> ((\<exists>e. publishGoalRuntimeEvent env event db = (db2, Inl e)
                    \<and> \<not> (replayable added s \<and> keepable added (project (gs_projection s) event) n))
                \<or> (\<exists>s2. publishGoalRuntimeEvent env event db = reconcileDurableBlockerTruthUnlocked env s2 db2
                    \<and> snapshot_of db2 goal = Some s2 \<and> unseen db2 goal (gs_lastEventSequence s2) = []
                    \<and> (replayable added s \<longrightarrow> gs_projection s2 = project (gs_projection s) event
                         \<and> gs_lastEventSequence s2 = n))))))"
proof -
  obtain db0 r0 where e: "ensureGoalSnapshotUnlocked goal db = (db0, r0)" by fastforce
  have publish: "publishGoalRuntimeEvent env event db = and_then (and_then (db0, r0) catchUpSnapshotUnlocked)
      (\<lambda>s db. and_then (appendAndReplayUnlocked env s event db) (reconcileDurableBlockerTruthUnlocked env))"
    unfolding publishGoalRuntimeEvent_def goal_def [symmetric] e and_then_run(3) ..
  note open_ = assms(8) [unfolded e]
  note rest = publish [unfolded open_]
  show ?thesis
  proof (cases r0)
    case (Inl x)
    then have "db1 = db0" "r = Inl x" using open_ by (simp_all add: and_then_run)
    moreover have "rd_events db0 = rd_events db" using ensure_events [of goal db] e by simp
    ultimately show ?thesis using rest by (simp add: and_then_run)
  next
    case (Inr s0)
    note en = ensured [OF assms(6) e [unfolded Inr]]
    have up: "catchUpSnapshotUnlocked s0 db0 = (db1, r)" using open_ by (simp add: and_then_run Inr)
    have ev: "rd_events db1 = rd_events db" using catch_up_events [of s0 db0] up en(3) by simp
    show ?thesis
    proof (cases r)
      case (Inl x)
      then show ?thesis using rest ev by (simp add: and_then_run)
    next
      case r: (Inr s)
      have s0: "snapshot_of db0 (pj_goalId (gs_projection s0)) = Some s0" using en(2,4) by simp
      note c = caught_up [OF en(1) s0 up [unfolded r], unfolded en(4)]
      have id: "pj_goalId (gs_projection s) = goal" by (rule snapshot_scope(1) [OF c(1,2)])
      have ids: "ev_goalId (event_base event) = pj_goalId (gs_projection s)" by (simp add: id goal_def)
      note o = append_replay_outcome [OF c(1) assms(7) _ _ ids, unfolded id, OF c(2,3),
          folded can_def added_def n_def]
      have run: "publishGoalRuntimeEvent env event db
          = and_then (appendAndReplayUnlocked env s event db1) (reconcileDurableBlockerTruthUnlocked env)"
        using rest by (simp add: and_then_run r)
      have known_case: "publishGoalRuntimeEvent env event db = (if row_event row = event
              then reconcileDurableBlockerTruthUnlocked env s db1 else (db1, Inl (Ce_event Ee_event_id_conflict)))"
        if "\<not> rejects (gs_projection s) event" "can" "known = Some row" for row
        using o(3) [OF that(1,2) that(3) [unfolded known_def]] run by (simp add: and_then_run)
      have new_case: "\<exists>db2. rd_events db2 = rd_events added
              \<and> ((\<exists>e. publishGoalRuntimeEvent env event db = (db2, Inl e)
                    \<and> \<not> (replayable added s \<and> keepable added (project (gs_projection s) event) n))
                \<or> (\<exists>s2. publishGoalRuntimeEvent env event db = reconcileDurableBlockerTruthUnlocked env s2 db2
                    \<and> snapshot_of db2 goal = Some s2 \<and> unseen db2 goal (gs_lastEventSequence s2) = []
                    \<and> (replayable added s \<longrightarrow> gs_projection s2 = project (gs_projection s) event
                         \<and> gs_lastEventSequence s2 = n)))"
        if new: "\<not> rejects (gs_projection s) event" "can" "known = None"
      proof -
        obtain db2 r2 where a: "appendAndReplayUnlocked env s event db1 = (db2, r2)" "rd_events db2 = rd_events added"
            "\<And>s2. r2 = Inr s2 \<Longrightarrow> snapshot_of db2 goal = Some s2 \<and> unseen db2 goal (gs_lastEventSequence s2) = []
               \<and> (replayable added s \<longrightarrow> gs_projection s2 = project (gs_projection s) event \<and> gs_lastEventSequence s2 = n)"
            "replayable added s \<and> keepable added (project (gs_projection s) event) n \<Longrightarrow> \<exists>s2. r2 = Inr s2"
          using o(4) [OF new(1,2) new(3) [unfolded known_def]] by blast
        show ?thesis
        proof (cases r2)
          case (Inl x)
          then have "publishGoalRuntimeEvent env event db = (db2, Inl x)" using run a(1) by (simp add: and_then_run)
          moreover have "\<not> (replayable added s \<and> keepable added (project (gs_projection s) event) n)"
            using a(4) Inl by auto
          ultimately show ?thesis using a(2) by blast
        next
          case (Inr s2)
          then have "publishGoalRuntimeEvent env event db = reconcileDurableBlockerTruthUnlocked env s2 db2"
            using run a(1) by (simp add: and_then_run)
          then show ?thesis using a(2) a(3) [OF Inr] by blast
        qed
      qed
      have "publishGoalRuntimeEvent env event db = (db1, Inl Ce_projection_rejected)" if "rejects (gs_projection s) event"
        using o(1) [OF that] run by (simp add: and_then_run)
      moreover have "\<exists>e. publishGoalRuntimeEvent env event db = (db1, Inl (Ce_event e))"
        if "\<not> rejects (gs_projection s) event" "\<not> can"
        using o(2) [OF that] run by (auto simp: and_then_run)
      ultimately show ?thesis
        unfolding r sum.case using ev c(2,3) known_case new_case by (intro conjI allI impI) blast+
    qed
  qed
qed

text \<open>A heartbeat of the running execution is published.\<close>

theorem publish_is_exact_witness:
  "\<exists>db2 s2. publishGoalRuntimeEvent sample_control (execution_step ''e2'' Et_execution_heartbeat) running_runtime
      = reconcileDurableBlockerTruthUnlocked sample_control s2 db2
    \<and> gs_projection s2 = project running_projection (execution_step ''e2'' Et_execution_heartbeat)
    \<and> gs_lastEventSequence s2 = 2"
proof -
  let ?e = "execution_step ''e2'' Et_execution_heartbeat" and ?env = sample_control
  let ?t = "ce_recordedAt ?env (rd_sequence running_runtime)" and ?gap = "ce_gap ?env (rd_sequence running_runtime)"
  let ?added = "insert_and_trim (ce_config ?env) ?gap ?e ?t running_runtime"
  have up: "and_then (ensureGoalSnapshotUnlocked (ev_goalId (event_base ?e)) running_runtime) catchUpSnapshotUnlocked
      = (running_runtime, Inr running_snapshot)"
    and can: "\<not> rejects running_projection ?e" "appendable ?e ?t running_runtime"
      "find_event running_runtime (ev_eventId (event_base ?e)) = None"
    and fits: "replayable ?added running_snapshot" "keepable ?added (project running_projection ?e) 2"
    and n: "allocate_sequence running_runtime ?gap = 2" "gs_projection running_snapshot = running_projection"
    unfolding atomize_conj by ((unfold runtime_step_eval)?, code_simp)
  from publish_is_exact [OF wf_running_runtime sample_config_ok(2) up] show ?thesis
    using can fits unfolding n sum.case by blast
qed

definition sample_reconciler :: reconciliation_env where
  "sample_reconciler = \<lparr>rv_config = sample_config, rv_gap = 0, rv_now = Instant 5000, rv_sha256 = (\<lambda>s. s),
     rv_observe = (\<lambda>_ _. Some (Some \<lparr>le_trustworthy = True, le_observedAt = Instant 4000,
       le_leaseGeneration = 1, le_leaseActivitySeq = 0, le_liveFencedCallCount = 0,
       le_blockingTaskStates = None, le_activeTaskStates = None\<rparr>))\<rparr>"

lemma sample_reconciler_ok: "config_ok (rv_config sample_reconciler)"
  by (simp add: sample_reconciler_def sample_config_ok)

text \<open>
  C26: Catching up is the fold of the projector. When the cursor of a snapshot is in the window, no event
  behind it is rejected and every projection on the way can be stored, the catch-up returns, and what it
  returns and stores is the fold of the projector over exactly the events of the goal behind the cursor,
  in order, at the sequence of the last of them; events of other goals and the pages make no difference.
\<close>

theorem catch_up_refines_fold:
  assumes "runtime_wf db" "snapshot_of db (pj_goalId (gs_projection s)) = Some s" "replayable db s"
    and "foldable db (gs_projection s) (gs_lastEventSequence s)
      (unseen db (pj_goalId (gs_projection s)) (gs_lastEventSequence s))"
  shows "\<exists>db' s'. catchUpSnapshotUnlocked s db = (db', Inr s')
    \<and> gs_projection s' = project_all (gs_projection s)
        (map row_event (unseen db (pj_goalId (gs_projection s)) (gs_lastEventSequence s)))
    \<and> gs_lastEventSequence s' = last_sequence (gs_lastEventSequence s)
        (unseen db (pj_goalId (gs_projection s)) (gs_lastEventSequence s))
    \<and> snapshot_of db' (pj_goalId (gs_projection s)) = Some s'"
proof -
  obtain db' s' where res: "catchUpSnapshotUnlocked s db = (db', Inr s')"
    using catch_up_returns [OF assms] by blast
  from catch_up_fold [OF assms(1-3) res] res show ?thesis unfolding fold_rows_def by blast
qed

theorem catch_up_refines_fold_witness:
  "\<exists>db' s'. catchUpSnapshotUnlocked running_snapshot full_runtime = (db', Inr s')
     \<and> gs_projection s' = project running_projection (execution_step ''e2'' Et_execution_heartbeat)
     \<and> gs_lastEventSequence s' = 2"
proof -
  have ok: "snapshot_of full_runtime (pj_goalId (gs_projection running_snapshot)) = Some running_snapshot"
    "replayable full_runtime running_snapshot"
    "unseen full_runtime (pj_goalId (gs_projection running_snapshot)) (gs_lastEventSequence running_snapshot)
      = [event_row 2 (execution_step ''e2'' Et_execution_heartbeat) (Instant 1500)]"
    "row_event (event_row 2 (execution_step ''e2'' Et_execution_heartbeat) (Instant 1500))
      = execution_step ''e2'' Et_execution_heartbeat"
    unfolding atomize_conj by ((unfold runtime_step_eval)?, code_simp)
  have can: "foldable full_runtime (gs_projection running_snapshot) (gs_lastEventSequence running_snapshot)
      [event_row 2 (execution_step ''e2'' Et_execution_heartbeat) (Instant 1500)]"
  proof -
    have "accepts (gs_projection running_snapshot)
        [event_row 2 (execution_step ''e2'' Et_execution_heartbeat) (Instant 1500)]"
      "keepable full_runtime (fold_rows (gs_projection running_snapshot)
        [event_row 2 (execution_step ''e2'' Et_execution_heartbeat) (Instant 1500)]) 2" unfolding atomize_conj by ((unfold runtime_step_eval)?, code_simp)
    moreover have "k = 1" if "k \<le> Suc 0" "0 < k" for k :: nat using that by simp
    ultimately show ?thesis by (auto simp: foldable_def last_sequence_def)
  qed
  from catch_up_refines_fold [OF wf_full_runtime ok(1,2)] can ok(3) obtain db' s' where
      "catchUpSnapshotUnlocked running_snapshot full_runtime = (db', Inr s')"
      "gs_projection s' = project_all (gs_projection running_snapshot) (map row_event
        [event_row 2 (execution_step ''e2'' Et_execution_heartbeat) (Instant 1500)])"
      "gs_lastEventSequence s' = last_sequence (gs_lastEventSequence running_snapshot)
        [event_row 2 (execution_step ''e2'' Et_execution_heartbeat) (Instant 1500)]"
    by auto
  then show ?thesis using ok(4) by (auto simp: running_snapshot_def last_sequence_def)
qed

text \<open>
  C27: An event the projector rejects stops its goal until the retention has passed it. Let a snapshot
  have such an event among those it has not seen, with its cursor inside the window of its workspace.
  Then in every later state with this snapshot, whatever other processes appended for this goal or
  others and whatever the retention dropped: as long as the cursor is in the window (for a cursor at
  the start: as long as the unseen events are retained), every operation of the control plane on the
  goal fails, appends nothing to the log and leaves the goal blocked. Once the cursor has fallen out of
  the window the catch-up skips the event: it is no longer rejected, and a snapshot it returns has seen
  every event of the goal. The service checks an event against its own snapshot before it appends it;
  two processes that append after the same snapshot pass that check both.
\<close>

theorem rejected_event_blocks_goal:
  assumes "blocked_snapshot db s" "ev_goalId (event_base event) = pj_goalId (gs_projection s)"
    and "snapshot_of (run_runtime db ops) (pj_goalId (gs_projection s)) = Some s"
    and "gs_lastEventSequence s = 0 \<Longrightarrow>
      set (unseen db (pj_goalId (gs_projection s)) 0) \<subseteq> set (rd_events (run_runtime db ops))"
  shows "let i = pj_goalId (gs_projection s); later = run_runtime db ops in
    (replayable later s \<longrightarrow>
        (\<exists>db' e. publishGoalRuntimeEvent env event later = (db', Inl e)
          \<and> rd_events db' = rd_events later \<and> blocked_goal db' i)
      \<and> (\<exists>db' e. ensureGoalSnapshot env i later = (db', Inl e)
          \<and> rd_events db' = rd_events later \<and> blocked_goal db' i)
      \<and> (\<exists>db' e. refreshGoalWorkspaceTruth env i later = (db', Inl e)
          \<and> rd_events db' = rd_events later \<and> blocked_goal db' i)
      \<and> (\<exists>db' e. bootstrap_goal env observation i later = (db', Inl e)
          \<and> rd_events db' = rd_events later \<and> blocked_goal db' i))
    \<and> (gs_lastEventSequence s \<noteq> 0 \<and> \<not> replayable later s \<longrightarrow>
        (\<exists>db' r. catchUpSnapshotUnlocked s later = (db', r) \<and> r \<noteq> Inl Ce_projection_rejected
          \<and> (\<forall>s'. r = Inr s' \<longrightarrow> snapshot_of db' i = Some s' \<and> unseen db' i (gs_lastEventSequence s') = [])))"
proof -
  let ?i = "pj_goalId (gs_projection s)" and ?later = "run_runtime db ops"
  have "runtime_wf db" using assms(1) by (simp add: blocked_snapshot_def)
  then have wf: "runtime_wf ?later" using reaches_moves [OF reaches_run] by blast
  have blocked: "blocked_goal ?later ?i" if "replayable ?later s"
    using stays_blocked [OF assms(1) reaches_run assms(3) that assms(4)] assms(3) by (auto simp: blocked_goal_def)
  obtain db' r where up: "catchUpSnapshotUnlocked s ?later = (db', r)" by fastforce
  have "r \<noteq> Inl Ce_projection_rejected" if miss: "gs_lastEventSequence s \<noteq> 0" "\<not> replayable ?later s"
    using recovered(1) [OF wf assms(3)] up unfolding catch_up_missed [OF wf assms(3) miss] by blast
  moreover have "snapshot_of db' ?i = Some s' \<and> unseen db' ?i (gs_lastEventSequence s') = []" if "r = Inr s'" for s'
    using caught_up(2,3) [OF wf assms(3) up [unfolded that]] by simp
  ultimately show ?thesis
    unfolding Let_def using blocked_operations [OF blocked] assms(2) up by blast
qed

text \<open>Two processes complete the same execution: the projector takes either event after the snapshot,
  but not the second after the first.\<close>

definition twice_completed :: runtime_db where
  "twice_completed = run_runtime running_runtime
     [Rop_append None None 0 (execution_step ''e2'' Et_execution_completed) (Instant 2000),
      Rop_append None None 0 (execution_step ''e3'' Et_execution_completed) (Instant 2001)]"

lemma wf_twice_completed: "runtime_wf twice_completed"
  unfolding twice_completed_def using reaches_moves [OF reaches_run wf_running_runtime] by blast

theorem rejected_event_blocks_goal_witness:
  "fst (projectGoalRuntimeEvent running_projection (execution_step ''e2'' Et_execution_completed)) = Apply
   \<and> fst (projectGoalRuntimeEvent running_projection (execution_step ''e3'' Et_execution_completed)) = Apply
   \<and> (\<exists>db' e. publishGoalRuntimeEvent sample_control (execution_step ''e4'' Et_execution_heartbeat)
        (run_runtime twice_completed [Rop_append None None 0 (execution_step ''e5'' Et_execution_heartbeat) (Instant 2002)])
        = (db', Inl e))"
proof -
  let ?ops = "[Rop_append None None 0 (execution_step ''e5'' Et_execution_heartbeat) (Instant 2002)]"
  have ok: "snapshot_of twice_completed ''g1'' = Some running_snapshot"
    "replayable twice_completed running_snapshot"
    "\<not> accepts (gs_projection running_snapshot) (unseen twice_completed
      (pj_goalId (gs_projection running_snapshot)) (gs_lastEventSequence running_snapshot))"
    "pj_goalId (gs_projection running_snapshot) = ''g1''"
    "ev_goalId (event_base (execution_step ''e4'' Et_execution_heartbeat)) = ''g1''"
    "fst (projectGoalRuntimeEvent running_projection (execution_step ''e2'' Et_execution_completed)) = Apply"
    "fst (projectGoalRuntimeEvent running_projection (execution_step ''e3'' Et_execution_completed)) = Apply"
    and later: "snapshot_of (run_runtime twice_completed ?ops) ''g1'' = Some running_snapshot"
    "replayable (run_runtime twice_completed ?ops) running_snapshot" "gs_lastEventSequence running_snapshot \<noteq> 0"
    unfolding atomize_conj by ((unfold runtime_step_eval)?, code_simp)
  have "blocked_snapshot twice_completed running_snapshot"
    unfolding blocked_snapshot_def using ok wf_twice_completed by simp
  from rejected_event_blocks_goal [OF this, of "execution_step ''e4'' Et_execution_heartbeat" ?ops sample_control]
    ok(4-7) later show ?thesis by (simp add: Let_def) blast
qed

section \<open>The restart reconciliation\<close>

text \<open>
  C28: A worker is recorded as lost under the fence only. When an attempt answers that it reconciled a
  goal, then, whatever other processes wrote during it: the goal it read at the start was active under
  the execution and the generation of the snapshot; the evidence, with the live continuation it read,
  said that the worker was gone; and at the moment of the commit the whole fence held. The goal was
  active under the lease generation and activity that had been judged, its snapshot was still at the
  sequence and execution that had been judged, no event of it was newer (but the same event of an
  attempt before), its latest execution of that generation was the judged one and active, and its live
  continuation the one that had been read. The snapshot now requires a recovery, at the sequence of the
  event.
\<close>

theorem worker_lost_under_fence:
  assumes "runtime_wf db" "config_ok (rv_config env)"
    and "reconcileSnapshot env il s db = (db', Inr entry)" "re_disposition entry = Rd_reconciled"
  shows "\<exists>goal i g continuation reason. find_goal (pj_goalId (gs_projection s)) db = Inr (Some goal)
    \<and> g_status goal = Gs_active \<and> g_executionId goal = Some i \<and> g_leaseGeneration goal = g
    \<and> pj_activeExecutionId (gs_projection s) = Some i \<and> pj_executionGeneration (gs_projection s) = Some g
    \<and> getLiveScheduledContinuation (g_id goal) (rd_goals (run_runtime db (il_before_continuation il)))
        = Inr continuation
    \<and> assess_worker env goal continuation = Inr (Inr reason)
    \<and> fence_holds env goal s i g continuation
        (run_runtime (run_runtime db (il_before_continuation il)) (il_before_append il))
    \<and> (\<exists>s' n. re_eventSequence entry = Some n \<and> gs_lastEventSequence s' = n
        \<and> snapshot_of db' (pj_goalId (gs_projection s)) = Some s'
        \<and> pj_runtimeState (gs_projection s') = Rt_recovery_required)"
proof (rule reconcile_reconciled [OF assms])
  fix goal i g continuation reason dba
  assume a: "dba = run_runtime (run_runtime db (il_before_continuation il)) (il_before_append il)"
    "reconciliation_target s db = Inr (Inr (goal, i, g))"
    "getLiveScheduledContinuation (g_id goal) (rd_goals (run_runtime db (il_before_continuation il))) = Inr continuation"
    "assess_worker env goal continuation = Inr (Inr reason)" "fence_holds env goal s i g continuation dba"
    "\<exists>s' n. re_eventSequence entry = Some n \<and> gs_lastEventSequence s' = n
       \<and> snapshot_of db' (pj_goalId (gs_projection s)) = Some s'
       \<and> pj_runtimeState (gs_projection s') = Rt_recovery_required"
  have t: "find_goal (pj_goalId (gs_projection s)) db = Inr (Some goal)" "g_status goal = Gs_active"
      "g_executionId goal = Some i" "g_leaseGeneration goal = g"
      "pj_activeExecutionId (gs_projection s) = Some i" "pj_executionGeneration (gs_projection s) = Some g"
    using reconciliation_targetE [OF a(2)] by blast+
  show ?thesis
    by (intro exI [of _ goal] exI [of _ i] exI [of _ g] exI [of _ continuation] exI [of _ reason] conjI
        t a(3,4,6)) (use a(1,5) in \<open>simp\<close>)
qed

theorem worker_lost_under_fence_witness:
  "\<exists>db' entry s'. reconcileSnapshot sample_reconciler undisturbed running_snapshot running_runtime = (db', Inr entry)
     \<and> snapshot_of db' ''g1'' = Some s' \<and> pj_runtimeState (gs_projection s') = Rt_recovery_required"
proof -
  have ok: "(case snd (reconcileSnapshot sample_reconciler undisturbed running_snapshot running_runtime) of
      Inl _ \<Rightarrow> False | Inr entry \<Rightarrow> re_disposition entry = Rd_reconciled)"
    "pj_goalId (gs_projection running_snapshot) = ''g1''" unfolding atomize_conj by ((unfold runtime_step_eval)?, code_simp)
  obtain db' x where res: "reconcileSnapshot sample_reconciler undisturbed running_snapshot running_runtime = (db', x)"
    by fastforce
  obtain entry where entry: "x = Inr entry" "re_disposition entry = Rd_reconciled"
    using ok(1) res by (cases x) simp_all
  show ?thesis
    using worker_lost_under_fence [OF wf_running_runtime sample_reconciler_ok res [unfolded entry(1)] entry(2)]
      res entry(1) unfolding ok(2) by blast
qed

lemma store_snapshot_kept_events:
  "storeGoalRuntimeSnapshot p n t db = Inr (db', s) \<Longrightarrow> rd_events db' = rd_events db"
  using store_snapshot_events [of p n t db] by (simp add: store_snapshot_def)

lemma store_lost_outcome:
  assumes "projectGoalRuntimeEvent (gs_projection s) event = (Apply, q)"
  shows "\<exists>db' entry. store_lost env s event reason rec [] db = (db', Inr entry)
    \<and> re_eventSequence entry = Some (rr_sequence rec) \<and> rd_events db' = rd_events db
    \<and> (re_disposition entry = Rd_reconciled \<or> re_disposition entry = Rd_projection_pending)"
proof (cases "storeGoalRuntimeSnapshot q (rr_sequence rec) (rv_now env) db")
  case (Inr r)
  then show ?thesis
    using store_snapshot_kept_events by (cases r) (auto simp: store_lost_def assms)
qed (simp add: store_lost_def assms)

text \<open>
  A retry after a crash. Suppose an earlier attempt committed its event and stopped before the
  snapshot. A later attempt that judges the worker by the same reason finds the fence as the first did,
  takes the stored event for its own and stores the snapshot or leaves it to the replay. One that finds
  another reason, as when the scheduled continuation has gone meanwhile, builds a different event under
  the same identifier: it fails with a conflict and changes nothing.
\<close>

theorem restart_retry:
  assumes target: "reconciliation_target s db = Inr (Inr (goal, i, g))"
      "getLiveScheduledContinuation (g_id goal) (rd_goals db) = Inr c"
      "assess_worker env goal c = Inr (Inr reason)"
    and valid: "request_valid (worker_lost_request env goal s (worker_lost_event env goal s i g reason) c) x"
    and known: "find_event db (workerLostEventId env goal s) = Some row" "read_event_row row = Inr rec"
      "rr_event rec = worker_lost_event env goal s i g earlier"
    and fence: "event_validateStoredScope (worker_lost_event env goal s i g reason) db = Inr ()"
      "reconciliation_fence (worker_lost_request env goal s (worker_lost_event env goal s i g reason) c)
        (event_base (worker_lost_event env goal s i g reason)) x (Some rec) db = Inr None"
  shows "if earlier = reason
    then \<exists>db' entry. reconcileSnapshot env undisturbed s db = (db', Inr entry)
      \<and> re_eventSequence entry = Some (rr_sequence rec) \<and> rd_events db' = rd_events db
      \<and> (re_disposition entry = Rd_reconciled \<or> re_disposition entry = Rd_projection_pending)
    else reconcileSnapshot env undisturbed s db = (db, Inl (Ce_event Ee_event_id_conflict))"
proof -
  note closed = reconcile_closed [OF target]
  have t: "isWorkerBackedState (gs_projection s)" "pj_activeExecutionId (gs_projection s) = Some i"
      "pj_executionGeneration (gs_projection s) = Some g"
    using reconciliation_targetE [OF target(1)] by blast+
  show ?thesis
  proof (cases "earlier = reason")
    case True
    obtain q where "projectGoalRuntimeEvent (gs_projection s) (worker_lost_event env goal s i g reason) = (Apply, q)"
      using worker_lost_applies [OF t] by blast
    from store_lost_outcome [OF this] show ?thesis
      using True unfolding closed commit_retry(2) [OF valid known True fence] by simp
  next
    case False
    then show ?thesis unfolding closed using commit_retry(1) [OF valid known] by simp
  qed
qed

text \<open>The earlier attempt saw a scheduled continuation and committed a stale heartbeat; the retry finds
  no continuation.\<close>

definition sample_goal :: goal_record where
  "sample_goal = (case find_goal ''g1'' running_runtime of Inr (Some goal) \<Rightarrow> goal | _ \<Rightarrow> undefined)"

definition crashed_runtime :: runtime_db where
  "crashed_runtime = run_runtime running_runtime [Rop_append None None 0
     (worker_lost_event sample_reconciler sample_goal running_snapshot ''x1'' 1 Stale_heartbeat) (Instant 3000)]"

theorem restart_retry_witness:
  "reconcileSnapshot sample_reconciler undisturbed running_snapshot crashed_runtime
     = (crashed_runtime, Inl (Ce_event Ee_event_id_conflict))"
proof -
  let ?e = "worker_lost_event sample_reconciler sample_goal running_snapshot ''x1'' 1"
  let ?q = "worker_lost_request sample_reconciler sample_goal running_snapshot (?e No_live_worker) None"
  let ?x = "\<lparr>xe_type = Et_worker_lost, xe_executionId = ''x1'', xe_executionGeneration = 1, xe_phase = None,
      xe_taskId = None, xe_checkpointId = None, xe_blockerKind = Some Bk_worker_lost\<rparr>"
  let ?row = "event_row 2 (?e Stale_heartbeat) (Instant 3000)"
  let ?rec = "\<lparr>rr_sequence = 2, rr_event = ?e Stale_heartbeat, rr_recordedAt = Instant 3000\<rparr>"
  have target: "reconciliation_target running_snapshot crashed_runtime = Inr (Inr (sample_goal, ''x1'', 1))"
    "getLiveScheduledContinuation (g_id sample_goal) (rd_goals crashed_runtime) = Inr None"
    "assess_worker sample_reconciler sample_goal None = Inr (Inr No_live_worker)"
    and valid: "request_valid ?q ?x"
    and known: "find_event crashed_runtime (workerLostEventId sample_reconciler sample_goal running_snapshot) = Some ?row"
    "read_event_row ?row = Inr ?rec" "rr_event ?rec = ?e Stale_heartbeat"
    and fence: "event_validateStoredScope (?e No_live_worker) crashed_runtime = Inr ()"
    "reconciliation_fence ?q (event_base (?e No_live_worker)) ?x (Some ?rec) crashed_runtime = Inr None"
    unfolding atomize_conj by ((unfold runtime_step_eval)?, code_simp)
  from restart_retry [OF target valid known fence] show ?thesis by simp
qed

end
