(* ===== verification/Merge_Evidence.thy ===== *)
theory Merge_Evidence
  imports Prelude
begin

text \<open>
  The evidence that lets a pull request be merged (packages/domain/src/merge-verification.ts): the
  policy of a repository, the receipt of one verification run, and \<open>evaluateMergeEvidence\<close>, which
  lists every reason why the receipt does not satisfy the policy for the pull request as it is now.
  The specification \<open>merge_evidence_ok\<close> says without the list of blockers what a merge needs, and
  \<open>evaluate_allows_iff\<close> that the function allows exactly that.
\<close>

section \<open>The vocabulary\<close>

datatype verification_mode = Github_ci | Local_exact_head | Hybrid

fun mode_name :: "verification_mode \<Rightarrow> string" where
  "mode_name Github_ci = ''github_ci''"
| "mode_name Local_exact_head = ''local_exact_head''"
| "mode_name Hybrid = ''hybrid''"

datatype evidence_source = Github_check | Local_command | External_verifier

fun source_name :: "evidence_source \<Rightarrow> string" where
  "source_name Github_check = ''github_check''"
| "source_name Local_command = ''local_command''"
| "source_name External_verifier = ''external_verifier''"

datatype gate_outcome = Gate_passed | Gate_failed | Gate_unavailable

fun gate_outcome_name :: "gate_outcome \<Rightarrow> string" where
  "gate_outcome_name Gate_passed = ''passed''"
| "gate_outcome_name Gate_failed = ''failed''"
| "gate_outcome_name Gate_unavailable = ''unavailable''"

datatype review_outcome =
  Github_approved | Clean_llm_review | User_override | Review_rejected | Review_missing

fun review_outcome_name :: "review_outcome \<Rightarrow> string" where
  "review_outcome_name Github_approved = ''github_approved''"
| "review_outcome_name Clean_llm_review = ''clean_llm_review''"
| "review_outcome_name User_override = ''user_override''"
| "review_outcome_name Review_rejected = ''rejected''"
| "review_outcome_name Review_missing = ''missing''"

datatype accepted_review = Accept_github_approved | Accept_clean_llm_review | Accept_user_override

fun accepted_outcome :: "accepted_review \<Rightarrow> review_outcome" where
  "accepted_outcome Accept_github_approved = Github_approved"
| "accepted_outcome Accept_clean_llm_review = Clean_llm_review"
| "accepted_outcome Accept_user_override = User_override"

datatype merge_method = Mm_merge | Mm_squash | Mm_rebase

record command_spec =
  cs_executable :: string
  cs_args :: "string list"
  cs_cwdRelative :: "string option"

record required_gate =
  rg_name :: string
  rg_source :: evidence_source
  rg_command :: "command_spec option"

record review_policy =
  vp_required :: bool
  vp_acceptedOutcomes :: "accepted_review list"

record merge_policy =
  mp_repository :: string
  mp_defaultBranch :: string
  mp_verificationMode :: verification_mode
  mp_requiredGates :: "required_gate list"
  mp_reviewPolicy :: review_policy
  mp_mergeMethod :: "merge_method option"
  mp_checkoutPath :: "string option"

record gate_receipt =
  gt_name :: string
  gt_source :: evidence_source
  gt_headSha :: string
  gt_outcome :: gate_outcome
  gt_evidence :: "string option"

record review_receipt =
  vw_outcome :: review_outcome
  vw_headSha :: string
  vw_evidence :: "string option"

record merge_receipt =
  mr_repository :: string
  mr_pullRequest :: int
  mr_headSha :: string
  mr_baseSha :: "string option"
  mr_verificationMode :: verification_mode
  mr_gates :: "gate_receipt list"
  mr_review :: review_receipt
  mr_createdAt :: iso

record merge_subject =
  ms_repository :: string
  ms_pullRequest :: int
  ms_headSha :: string
  ms_baseBranch :: string
  ms_baseSha :: "string option"

datatype blocker_code =
  Bk_repository_mismatch | Bk_pull_request_mismatch | Bk_base_branch_mismatch
| Bk_verification_mode_mismatch | Bk_receipt_missing | Bk_receipt_head_stale | Bk_receipt_base_stale
| Bk_policy_gate_source_incompatible | Bk_required_gate_missing | Bk_required_gate_ambiguous
| Bk_required_gate_source_mismatch | Bk_required_gate_head_stale | Bk_required_gate_not_passed
| Bk_review_missing | Bk_review_rejected | Bk_review_outcome_not_allowed | Bk_review_head_stale
| Bk_policy_requires_no_gates

record merge_blocker =
  bk_code :: blocker_code
  bk_gate :: "string option"
  bk_expected :: "string option"
  bk_observed :: "string option"

datatype merge_decision = Merge_allowed | Merge_blocked "merge_blocker list"

section \<open>Evaluating the evidence\<close>

text \<open>\<open>String(n)\<close> of an integer.\<close>

definition int_string :: "int \<Rightarrow> string" where
  "int_string n = (if n < 0 then CHR ''-'' # decimal (nat (- n)) else decimal (nat n))"

definition differs :: "blocker_code \<Rightarrow> string \<Rightarrow> string \<Rightarrow> merge_blocker" where
  "differs code expected observed =
     \<lparr>bk_code = code, bk_gate = None, bk_expected = Some expected, bk_observed = Some observed\<rparr>"

definition gate_differs :: "blocker_code \<Rightarrow> string \<Rightarrow> string \<Rightarrow> string \<Rightarrow> merge_blocker" where
  "gate_differs code gate expected observed =
     \<lparr>bk_code = code, bk_gate = Some gate, bk_expected = Some expected, bk_observed = Some observed\<rparr>"

definition isSourceCompatibleWithMode :: "verification_mode \<Rightarrow> evidence_source \<Rightarrow> bool" where
  "isSourceCompatibleWithMode mode source =
     (if mode = Hybrid then True
      else if mode = Github_ci then source = Github_check
      else source = Local_command)"

definition expectedSourceDescription :: "verification_mode \<Rightarrow> string" where
  "expectedSourceDescription mode =
     (if mode = Github_ci then ''github_check''
      else if mode = Local_exact_head then ''local_command''
      else ''github_check|local_command|external_verifier'')"

text \<open>What speaks against the merge before there is a receipt.\<close>

definition policy_blockers :: "merge_policy \<Rightarrow> merge_subject \<Rightarrow> merge_blocker list" where
  "policy_blockers policy subject =
     (if ms_repository subject \<noteq> mp_repository policy
      then [differs Bk_repository_mismatch (mp_repository policy) (ms_repository subject)] else [])
   @ (if ms_baseBranch subject \<noteq> mp_defaultBranch policy
      then [differs Bk_base_branch_mismatch (mp_defaultBranch policy) (ms_baseBranch subject)] else [])
   @ (if mp_requiredGates policy = []
      then [differs Bk_policy_requires_no_gates ''at least one required gate'' ''0''] else [])"

definition receipt_blockers :: "merge_policy \<Rightarrow> merge_subject \<Rightarrow> merge_receipt \<Rightarrow> merge_blocker list" where
  "receipt_blockers policy subject receipt =
     (if ms_repository subject = mp_repository policy \<and> mr_repository receipt \<noteq> ms_repository subject
      then [differs Bk_repository_mismatch (ms_repository subject) (mr_repository receipt)] else [])
   @ (if mr_pullRequest receipt \<noteq> ms_pullRequest subject
      then [differs Bk_pull_request_mismatch (int_string (ms_pullRequest subject))
              (int_string (mr_pullRequest receipt))] else [])
   @ (if mr_verificationMode receipt \<noteq> mp_verificationMode policy
      then [differs Bk_verification_mode_mismatch (mode_name (mp_verificationMode policy))
              (mode_name (mr_verificationMode receipt))] else [])
   @ (if mr_headSha receipt \<noteq> ms_headSha subject
      then [differs Bk_receipt_head_stale (ms_headSha subject) (mr_headSha receipt)] else [])
   @ (case (ms_baseSha subject, mr_baseSha receipt) of
        (Some expected, Some observed) \<Rightarrow>
          if observed \<noteq> expected then [differs Bk_receipt_base_stale expected observed] else []
      | _ \<Rightarrow> [])"

text \<open>The body of the loop over the required gates.\<close>

definition gate_blockers ::
  "verification_mode \<Rightarrow> string \<Rightarrow> gate_receipt list \<Rightarrow> required_gate \<Rightarrow> merge_blocker list" where
  "gate_blockers mode head gates req =
     (if isSourceCompatibleWithMode mode (rg_source req) then []
      else [gate_differs Bk_policy_gate_source_incompatible (rg_name req)
              (expectedSourceDescription mode) (source_name (rg_source req))])
   @ (case filter (\<lambda>g. gt_name g = rg_name req) gates of
        [] \<Rightarrow> [\<lparr>bk_code = Bk_required_gate_missing, bk_gate = Some (rg_name req),
                 bk_expected = Some (source_name (rg_source req)), bk_observed = None\<rparr>]
      | gate # rest \<Rightarrow>
          if rest \<noteq> []
          then [gate_differs Bk_required_gate_ambiguous (rg_name req) ''one exact gate receipt''
                  (int_string (int (length (gate # rest))))]
          else (if gt_source gate \<noteq> rg_source req
                then [gate_differs Bk_required_gate_source_mismatch (rg_name req)
                        (source_name (rg_source req)) (source_name (gt_source gate))] else [])
             @ (if gt_headSha gate \<noteq> head
                then [gate_differs Bk_required_gate_head_stale (rg_name req) head (gt_headSha gate)] else [])
             @ (if gt_outcome gate \<noteq> Gate_passed
                then [gate_differs Bk_required_gate_not_passed (rg_name req) ''passed''
                        (gate_outcome_name (gt_outcome gate))] else []))"

fun join_comma :: "string list \<Rightarrow> string" where
  "join_comma [] = ''''"
| "join_comma [s] = s"
| "join_comma (s # t # ss) = s @ '','' @ join_comma (t # ss)"

definition evaluateReview :: "review_policy \<Rightarrow> string \<Rightarrow> review_receipt \<Rightarrow> merge_blocker list" where
  "evaluateReview policy currentHead review =
     (if \<not> vp_required policy then []
      else (if vw_headSha review \<noteq> currentHead
            then [differs Bk_review_head_stale currentHead (vw_headSha review)] else [])
         @ (if vw_outcome review = Review_rejected
            then [\<lparr>bk_code = Bk_review_rejected, bk_gate = None, bk_expected = None,
                    bk_observed = Some (review_outcome_name (vw_outcome review))\<rparr>]
            else if vw_outcome review = Review_missing
            then [\<lparr>bk_code = Bk_review_missing, bk_gate = None, bk_expected = None, bk_observed = None\<rparr>]
            else if vw_outcome review \<notin> accepted_outcome ` set (vp_acceptedOutcomes policy)
            then [differs Bk_review_outcome_not_allowed
                    (join_comma (map (review_outcome_name \<circ> accepted_outcome) (vp_acceptedOutcomes policy)))
                    (review_outcome_name (vw_outcome review))]
            else []))"

definition evaluateMergeEvidence ::
  "merge_policy \<Rightarrow> merge_subject \<Rightarrow> merge_receipt option \<Rightarrow> merge_decision" where
  "evaluateMergeEvidence policy subject receipt = (case receipt of
     None \<Rightarrow> Merge_blocked (policy_blockers policy subject
       @ [\<lparr>bk_code = Bk_receipt_missing, bk_gate = None, bk_expected = None, bk_observed = None\<rparr>])
   | Some r \<Rightarrow>
       (let blockers = policy_blockers policy subject @ receipt_blockers policy subject r
          @ concat (map (gate_blockers (mp_verificationMode policy) (ms_headSha subject) (mr_gates r))
              (mp_requiredGates policy))
          @ evaluateReview (mp_reviewPolicy policy) (ms_headSha subject) (mr_review r)
        in if blockers = [] then Merge_allowed else Merge_blocked blockers))"

section \<open>What a merge needs\<close>

text \<open>
  The specification: one receipt of this repository, pull request and head, under the policy's mode,
  with exactly one passing receipt at this head for each required gate, from the source the policy
  names and the mode admits, and a review of this head that the policy accepts.
\<close>

definition gate_evidence_ok :: "verification_mode \<Rightarrow> string \<Rightarrow> gate_receipt list \<Rightarrow> required_gate \<Rightarrow> bool" where
  "gate_evidence_ok mode head gates req \<longleftrightarrow> isSourceCompatibleWithMode mode (rg_source req) \<and>
     (\<exists>g. filter (\<lambda>g. gt_name g = rg_name req) gates = [g] \<and> gt_source g = rg_source req
        \<and> gt_headSha g = head \<and> gt_outcome g = Gate_passed)"

definition review_evidence_ok :: "review_policy \<Rightarrow> string \<Rightarrow> review_receipt \<Rightarrow> bool" where
  "review_evidence_ok policy head review \<longleftrightarrow> (vp_required policy \<longrightarrow>
     vw_headSha review = head \<and> vw_outcome review \<in> accepted_outcome ` set (vp_acceptedOutcomes policy))"

definition merge_evidence_ok :: "merge_policy \<Rightarrow> merge_subject \<Rightarrow> merge_receipt \<Rightarrow> bool" where
  "merge_evidence_ok policy subject r \<longleftrightarrow>
     ms_repository subject = mp_repository policy \<and> ms_baseBranch subject = mp_defaultBranch policy
   \<and> mr_repository r = ms_repository subject \<and> mr_pullRequest r = ms_pullRequest subject
   \<and> mr_headSha r = ms_headSha subject \<and> mr_verificationMode r = mp_verificationMode policy
   \<and> (ms_baseSha subject = None \<or> mr_baseSha r = None \<or> mr_baseSha r = ms_baseSha subject)
   \<and> mp_requiredGates policy \<noteq> []
   \<and> (\<forall>req \<in> set (mp_requiredGates policy).
        gate_evidence_ok (mp_verificationMode policy) (ms_headSha subject) (mr_gates r) req)
   \<and> review_evidence_ok (mp_reviewPolicy policy) (ms_headSha subject) (mr_review r)"

lemma policy_blockers_Nil_iff: "policy_blockers policy subject = [] \<longleftrightarrow>
    ms_repository subject = mp_repository policy \<and> ms_baseBranch subject = mp_defaultBranch policy
    \<and> mp_requiredGates policy \<noteq> []"
  by (auto simp: policy_blockers_def)

lemma gate_blockers_Nil_iff: "gate_blockers mode head gates req = [] \<longleftrightarrow> gate_evidence_ok mode head gates req"
  by (auto simp: gate_blockers_def gate_evidence_ok_def split: list.splits)

lemma accepted_outcome_good: "accepted_outcome a \<noteq> Review_rejected" "accepted_outcome a \<noteq> Review_missing"
  by (cases a; simp)+

lemma evaluateReview_Nil_iff: "evaluateReview policy head review = [] \<longleftrightarrow> review_evidence_ok policy head review"
  using accepted_outcome_good accepted_outcome_good [symmetric]
  by (auto simp: evaluateReview_def review_evidence_ok_def)

lemma evaluate_allows_iff: "evaluateMergeEvidence policy subject (Some r) = Merge_allowed
    \<longleftrightarrow> merge_evidence_ok policy subject r"
  by (auto simp: evaluateMergeEvidence_def Let_def policy_blockers_Nil_iff gate_blockers_Nil_iff
      evaluateReview_Nil_iff merge_evidence_ok_def receipt_blockers_def split: option.splits)

lemma evaluate_missing: "evaluateMergeEvidence policy subject None \<noteq> Merge_allowed"
  by (simp add: evaluateMergeEvidence_def)

lemma evaluate_cases: "evaluateMergeEvidence policy subject receipt = Merge_allowed \<longleftrightarrow>
    (\<exists>r. receipt = Some r \<and> merge_evidence_ok policy subject r)"
  by (cases receipt) (simp_all add: evaluate_allows_iff evaluate_missing)

text \<open>A blocked decision always says why.\<close>

lemma blocked_has_reason: "evaluateMergeEvidence policy subject receipt = Merge_blocked bs \<Longrightarrow> bs \<noteq> []"
proof (cases receipt)
  case None
  then show "evaluateMergeEvidence policy subject receipt = Merge_blocked bs \<Longrightarrow> bs \<noteq> []"
    by (auto simp: evaluateMergeEvidence_def)
next
  case (Some r)
  have "(if cs = [] then Merge_allowed else Merge_blocked cs) = Merge_blocked bs \<Longrightarrow> bs \<noteq> []" for cs
    by (cases cs) auto
  then show "evaluateMergeEvidence policy subject receipt = Merge_blocked bs \<Longrightarrow> bs \<noteq> []"
    unfolding evaluateMergeEvidence_def Let_def Some option.case .
qed

text \<open>Evidence for one head is no evidence for another.\<close>

lemma merge_evidence_okD:
  assumes "merge_evidence_ok policy subject r"
  shows "mr_headSha r = ms_headSha subject" "mr_pullRequest r = ms_pullRequest subject"
    "mr_repository r = ms_repository subject" "ms_repository subject = mp_repository policy"
  using assms unfolding merge_evidence_ok_def by blast+

lemma evidence_binds_head:
  assumes "merge_evidence_ok policy subject r" "merge_evidence_ok policy subject' r"
  shows "ms_headSha subject' = ms_headSha subject" "ms_pullRequest subject' = ms_pullRequest subject"
  using assms [THEN merge_evidence_okD(1)] assms [THEN merge_evidence_okD(2)] by metis+

text \<open>The location of a checkout is no part of the evidence.\<close>

lemma evaluate_ignores_checkout:
  "evaluateMergeEvidence (policy\<lparr>mp_checkoutPath := p\<rparr>) subject r = evaluateMergeEvidence policy subject r"
  by (cases r) (simp_all add: evaluateMergeEvidence_def policy_blockers_def receipt_blockers_def)

end
