(* ===== verification/Merge_Receipts.thy ===== *)
theory Merge_Receipts
  imports Merge_Evidence "HOL-Library.Sublist"
begin

text \<open>
  The durable receipts of verification runs (packages/storage/src/merge-verification-repository.ts
  and migrations/merge-verification-receipt-migration.ts): an append-only table in which a reference
  names one piece of evidence. \<open>append\<close> normalises and checks the receipt, inserts a row unless the
  reference is taken, reads the row back and compares the evidence. The first section has the checks
  of input the three repositories of merges share; each of them declares the same helper functions
  with its own error class, which is a parameter here.
\<close>

section \<open>Checks of input\<close>

definition MAX_RECEIPT_REF_CHARS :: nat where "MAX_RECEIPT_REF_CHARS = 1024"
definition MAX_REPOSITORY_CHARS :: nat where "MAX_REPOSITORY_CHARS = 512"
definition MAX_GATE_NAME_CHARS :: nat where "MAX_GATE_NAME_CHARS = 512"
definition MAX_EVIDENCE_CHARS :: nat where "MAX_EVIDENCE_CHARS = 8192"
definition MAX_LIST_LIMIT :: int where "MAX_LIST_LIMIT = 100"

definition hex_char :: "char \<Rightarrow> bool" where
  "hex_char c \<longleftrightarrow> c \<in> set ''0123456789abcdef''"

definition is_sha :: "string \<Rightarrow> bool" where
  "is_sha s \<longleftrightarrow> 40 \<le> length s \<and> length s \<le> 64 \<and> list_all hex_char s"

definition requiredBounded :: "'e \<Rightarrow> string \<Rightarrow> nat \<Rightarrow> 'e + string" where
  "requiredBounded e value limit =
     (let trimmed = js_trim value
      in if trimmed = [] \<or> length trimmed > limit then Inl e else Inr trimmed)"

definition optional_checked :: "('a \<Rightarrow> 'e + 'b) \<Rightarrow> 'a option \<Rightarrow> 'e + 'b option" where
  "optional_checked f v = (case v of None \<Rightarrow> Inr None | Some x \<Rightarrow> bind_ok (f x) (\<lambda>y. Inr (Some y)))"

definition positiveInteger :: "'e \<Rightarrow> int \<Rightarrow> 'e + int" where
  "positiveInteger e n = (if n \<le> 0 then Inl e else Inr n)"

definition validateSha :: "'e \<Rightarrow> string \<Rightarrow> 'e + string" where
  "validateSha e s = (if is_sha s then Inr s else Inl e)"

definition validateIso :: "'e \<Rightarrow> iso \<Rightarrow> 'e + iso" where
  "validateIso e t = (if date_parse t = None then Inl e else Inr t)"

definition boundedLimit :: "'e \<Rightarrow> int \<Rightarrow> 'e + int" where
  "boundedLimit e n = bind_ok (positiveInteger e n) (\<lambda>k. Inr (min MAX_LIST_LIMIT k))"

text \<open>A value that is already in normal form.\<close>

definition trimmed_text :: "nat \<Rightarrow> string \<Rightarrow> bool" where
  "trimmed_text limit s \<longleftrightarrow> js_trim s = s \<and> s \<noteq> [] \<and> length s \<le> limit"

lemma requiredBounded_Inr_iff: "requiredBounded e v limit = Inr s \<longleftrightarrow> s = js_trim v \<and> trimmed_text limit s"
  by (auto simp: requiredBounded_def Let_def trimmed_text_def)

lemma requiredBounded_normal: "trimmed_text limit s \<Longrightarrow> requiredBounded e s limit = Inr s"
  by (simp add: requiredBounded_Inr_iff trimmed_text_def)

lemma optional_checked_Inr_iff: "optional_checked f v = Inr w \<longleftrightarrow>
    (case v of None \<Rightarrow> w = None | Some x \<Rightarrow> \<exists>y. f x = Inr y \<and> w = Some y)"
  by (auto simp: optional_checked_def bind_ok_Inr_iff split: option.splits)

lemma positiveInteger_Inr_iff: "positiveInteger e n = Inr k \<longleftrightarrow> k = n \<and> 0 < n"
  by (auto simp: positiveInteger_def)

lemma validateSha_Inr_iff: "validateSha e s = Inr t \<longleftrightarrow> t = s \<and> is_sha s"
  by (auto simp: validateSha_def)

lemma validateIso_Inr_iff: "validateIso e s = Inr t \<longleftrightarrow> t = s \<and> date_parse s \<noteq> None"
  by (auto simp: validateIso_def)

lemma boundedLimit_Inr_iff: "boundedLimit e n = Inr k \<longleftrightarrow> 0 < n \<and> k = min MAX_LIST_LIMIT n"
  by (auto simp: boundedLimit_def bind_ok_Inr_iff positiveInteger_def)

lemma optional_sha_iff: "optional_checked (validateSha e) v = Inr w \<longleftrightarrow> w = v \<and> (\<forall>b. v = Some b \<longrightarrow> is_sha b)"
  by (auto simp: optional_checked_Inr_iff validateSha_Inr_iff split: option.splits)

lemmas checked_iffs = requiredBounded_Inr_iff optional_sha_iff positiveInteger_Inr_iff
  validateSha_Inr_iff validateIso_Inr_iff boundedLimit_Inr_iff bind_ok_Inr_iff

section \<open>The normal form of a receipt\<close>

datatype receipt_store_error = Re_invalid_receipt | Re_receipt_ref_conflict | Re_corrupt

definition optionalEvidence :: "receipt_store_error \<Rightarrow> string option \<Rightarrow> receipt_store_error + string option" where
  "optionalEvidence e v = (case v of
     None \<Rightarrow> Inr None | Some s \<Rightarrow> if length s > MAX_EVIDENCE_CHARS then Inl e else Inr (Some s))"

definition parse_gate :: "receipt_store_error \<Rightarrow> gate_receipt \<Rightarrow> receipt_store_error + gate_receipt" where
  "parse_gate e g =
     bind_ok (requiredBounded e (gt_name g) MAX_GATE_NAME_CHARS) (\<lambda>name.
     bind_ok (validateSha e (gt_headSha g)) (\<lambda>head.
     bind_ok (optionalEvidence e (gt_evidence g)) (\<lambda>evidence.
       Inr (g\<lparr>gt_name := name, gt_headSha := head, gt_evidence := evidence\<rparr>))))"

definition parseReceipt :: "receipt_store_error \<Rightarrow> merge_receipt \<Rightarrow> receipt_store_error + merge_receipt" where
  "parseReceipt e r =
     bind_ok (requiredBounded e (mr_repository r) MAX_REPOSITORY_CHARS) (\<lambda>repository.
     bind_ok (positiveInteger e (mr_pullRequest r)) (\<lambda>pullRequest.
     bind_ok (validateSha e (mr_headSha r)) (\<lambda>head.
     bind_ok (optional_checked (validateSha e) (mr_baseSha r)) (\<lambda>base.
     bind_ok (map_ok (parse_gate e) (mr_gates r)) (\<lambda>gates.
     bind_ok (validateIso e (mr_createdAt r)) (\<lambda>createdAt.
     bind_ok (validateSha e (vw_headSha (mr_review r))) (\<lambda>reviewHead.
     bind_ok (optionalEvidence e (vw_evidence (mr_review r))) (\<lambda>evidence.
       Inr \<lparr>mr_repository = repository, mr_pullRequest = pullRequest, mr_headSha = head,
            mr_baseSha = base, mr_verificationMode = mr_verificationMode r, mr_gates = gates,
            mr_review = \<lparr>vw_outcome = vw_outcome (mr_review r), vw_headSha = reviewHead,
              vw_evidence = evidence\<rparr>,
            mr_createdAt = createdAt\<rparr>))))))))"

text \<open>The receipts the parser leaves alone.\<close>

definition evidence_normal :: "string option \<Rightarrow> bool" where
  "evidence_normal v \<longleftrightarrow> (\<forall>s. v = Some s \<longrightarrow> length s \<le> MAX_EVIDENCE_CHARS)"

definition gate_normal :: "gate_receipt \<Rightarrow> bool" where
  "gate_normal g \<longleftrightarrow> trimmed_text MAX_GATE_NAME_CHARS (gt_name g) \<and> is_sha (gt_headSha g)
     \<and> evidence_normal (gt_evidence g)"

definition receipt_normal :: "merge_receipt \<Rightarrow> bool" where
  "receipt_normal r \<longleftrightarrow> trimmed_text MAX_REPOSITORY_CHARS (mr_repository r) \<and> 0 < mr_pullRequest r
     \<and> is_sha (mr_headSha r) \<and> (\<forall>b. mr_baseSha r = Some b \<longrightarrow> is_sha b)
     \<and> list_all gate_normal (mr_gates r) \<and> date_parse (mr_createdAt r) \<noteq> None
     \<and> is_sha (vw_headSha (mr_review r)) \<and> evidence_normal (vw_evidence (mr_review r))"

lemma optionalEvidence_Inr_iff: "optionalEvidence e v = Inr w \<longleftrightarrow> w = v \<and> evidence_normal v"
  by (auto simp: optionalEvidence_def evidence_normal_def split: option.splits)

lemma parse_gate_sound: "parse_gate e g = Inr h \<Longrightarrow> gate_normal h"
  by (auto simp: parse_gate_def checked_iffs optionalEvidence_Inr_iff gate_normal_def trimmed_text_def)

lemma parse_gate_normal: "gate_normal g \<Longrightarrow> parse_gate e g = Inr g"
  by (simp add: parse_gate_def gate_normal_def requiredBounded_normal validateSha_def
      optionalEvidence_Inr_iff [THEN iffD2])

lemma parse_gates_normal: "list_all gate_normal gs \<Longrightarrow> map_ok (parse_gate e) gs = Inr gs"
  by (induction gs) (simp_all add: parse_gate_normal)

lemma parse_gates_sound: "map_ok (parse_gate e) gs = Inr hs \<Longrightarrow> list_all gate_normal hs"
  by (auto simp: map_ok_Inr_iff list_all_iff dest!: list_all2_rightD dest: parse_gate_sound)

lemma parseReceipt_sound: "parseReceipt e r = Inr n \<Longrightarrow> receipt_normal n"
  unfolding parseReceipt_def bind_ok_Inr_iff
  by (auto simp: checked_iffs optionalEvidence_Inr_iff receipt_normal_def
      dest: parse_gates_sound)

text \<open>What the parser rejects, it rejects with the error it was given.\<close>

lemma bind_ok_error: "bind_ok m k = Inl e \<longleftrightarrow> m = Inl e \<or> (\<exists>a. m = Inr a \<and> k a = Inl e)"
  by (cases m) auto

lemma check_errors:
  "requiredBounded a v limit = Inl e \<Longrightarrow> e = a" "validateSha a s = Inl e \<Longrightarrow> e = a"
  "positiveInteger a n = Inl e \<Longrightarrow> e = a" "validateIso a t = Inl e \<Longrightarrow> e = a"
  "optional_checked (validateSha a) w = Inl e \<Longrightarrow> e = a"
  by (auto simp: requiredBounded_def Let_def validateSha_def positiveInteger_def validateIso_def
      optional_checked_def split: if_splits option.splits)

lemma gate_errors:
  "optionalEvidence a v = Inl e \<Longrightarrow> e = a" "parse_gate a g = Inl e \<Longrightarrow> e = a"
  by (auto simp: optionalEvidence_def parse_gate_def bind_ok_error split: if_splits option.splits
      dest: check_errors)

lemma map_ok_error: "map_ok f xs = Inl e \<Longrightarrow> \<exists>x \<in> set xs. f x = Inl e"
  by (induction xs) (auto simp: bind_ok_error)

lemma parse_error: "parseReceipt a r = Inl e \<Longrightarrow> e = a"
  unfolding parseReceipt_def bind_ok_error
  by (auto dest: check_errors gate_errors map_ok_error)

lemma parseReceipt_normal: "receipt_normal r \<Longrightarrow> parseReceipt e r = Inr r"
  by (simp add: parseReceipt_def receipt_normal_def requiredBounded_normal validateSha_def
      positiveInteger_def validateIso_def parse_gates_normal optional_sha_iff [THEN iffD2]
      optionalEvidence_Inr_iff [THEN iffD2])

lemma parseReceipt_fields:
  assumes "parseReceipt e r = Inr n"
  shows "mr_headSha n = mr_headSha r" "mr_pullRequest n = mr_pullRequest r"
    "mr_repository n = js_trim (mr_repository r)" "mr_baseSha n = mr_baseSha r"
    "mr_verificationMode n = mr_verificationMode r" "mr_createdAt n = mr_createdAt r"
  using assms unfolding parseReceipt_def bind_ok_Inr_iff by (auto simp: checked_iffs)

section \<open>The table\<close>

text \<open>
  \<open>receipt_json\<close> is what \<open>JSON.parse\<close> makes of the text: a receipt, or something that is no JSON or
  has not the shape of a receipt; both make the read throw.
\<close>

datatype receipt_json = Json_receipt merge_receipt | Json_other

record receipt_row =
  rcr_sequence :: int
  rcr_receipt_ref :: string
  rcr_repository :: string
  rcr_pull_request :: int
  rcr_head_sha :: string
  rcr_base_sha :: "string option"
  rcr_verification_mode :: string
  rcr_receipt_json :: receipt_json
  rcr_receipt_created_at :: iso
  rcr_recorded_at :: iso

text \<open>\<open>rcd_sequence\<close>: the greatest sequence AUTOINCREMENT ever gave.\<close>

record receipt_db =
  rcd_rows :: "receipt_row list"
  rcd_sequence :: int

record receipt_record =
  rcc_sequence :: int
  rcc_receiptRef :: string
  rcc_receipt :: merge_receipt
  rcc_recordedAt :: iso

record append_receipt_result =
  arr_appended :: bool
  arr_record :: receipt_record

definition receipt_row_of :: "int \<Rightarrow> string \<Rightarrow> merge_receipt \<Rightarrow> iso \<Rightarrow> receipt_row" where
  "receipt_row_of n ref r t =
     \<lparr>rcr_sequence = n, rcr_receipt_ref = ref, rcr_repository = mr_repository r,
      rcr_pull_request = mr_pullRequest r, rcr_head_sha = mr_headSha r, rcr_base_sha = mr_baseSha r,
      rcr_verification_mode = mode_name (mr_verificationMode r), rcr_receipt_json = Json_receipt r,
      rcr_receipt_created_at = mr_createdAt r, rcr_recorded_at = t\<rparr>"

definition receipt_toRecord :: "receipt_row \<Rightarrow> receipt_store_error + receipt_record" where
  "receipt_toRecord row = (case rcr_receipt_json row of
     Json_other \<Rightarrow> Inl Re_corrupt
   | Json_receipt parsed \<Rightarrow>
       bind_ok (parseReceipt Re_corrupt parsed) (\<lambda>r.
       if mr_repository r \<noteq> rcr_repository row \<or> mr_pullRequest r \<noteq> rcr_pull_request row
          \<or> mr_headSha r \<noteq> rcr_head_sha row \<or> mr_baseSha r \<noteq> rcr_base_sha row
          \<or> mode_name (mr_verificationMode r) \<noteq> rcr_verification_mode row
          \<or> mr_createdAt r \<noteq> rcr_receipt_created_at row
       then Inl Re_corrupt
       else bind_ok (validateIso Re_corrupt (rcr_recorded_at row)) (\<lambda>t.
         Inr \<lparr>rcc_sequence = rcr_sequence row, rcc_receiptRef = rcr_receipt_ref row,
              rcc_receipt = r, rcc_recordedAt = t\<rparr>)))"

definition find_receipt :: "receipt_db \<Rightarrow> string \<Rightarrow> receipt_row option" where
  "find_receipt db ref = row_get (\<lambda>r. rcr_receipt_ref r = ref) (rcd_rows db)"

definition receipt_requireByRef :: "receipt_db \<Rightarrow> string \<Rightarrow> receipt_store_error + receipt_record" where
  "receipt_requireByRef db ref = (case find_receipt db ref of
     None \<Rightarrow> Inl Re_corrupt | Some row \<Rightarrow> receipt_toRecord row)"

text \<open>\<open>INSERT OR IGNORE\<close>: the new table and whether a row was added.\<close>

definition insert_receipt ::
  "string \<Rightarrow> merge_receipt \<Rightarrow> iso \<Rightarrow> receipt_db \<Rightarrow> receipt_db \<times> bool" where
  "insert_receipt ref r t db =
     (if find_receipt db ref \<noteq> None \<or> mr_pullRequest r \<le> 0 then (db, False)
      else let n = rcd_sequence db + 1
           in (db\<lparr>rcd_rows := rcd_rows db @ [receipt_row_of n ref r t], rcd_sequence := n\<rparr>, True))"

definition serializeReceipt :: "merge_receipt \<Rightarrow> receipt_store_error + merge_receipt" where
  "serializeReceipt r = parseReceipt Re_invalid_receipt r"

definition appendReceipt ::
  "string \<Rightarrow> merge_receipt \<Rightarrow> iso \<Rightarrow> receipt_db
     \<Rightarrow> receipt_db \<times> (receipt_store_error + append_receipt_result)" where
  "appendReceipt receiptRef receipt recordedAt db =
     (case bind_ok (requiredBounded Re_invalid_receipt receiptRef MAX_RECEIPT_REF_CHARS) (\<lambda>ref.
           bind_ok (validateIso Re_invalid_receipt recordedAt) (\<lambda>t.
           bind_ok (parseReceipt Re_invalid_receipt receipt) (\<lambda>r. Inr (ref, t, r)))) of
        Inl e \<Rightarrow> (db, Inl e)
      | Inr (ref, t, normalized) \<Rightarrow>
          (let (db', inserted) = insert_receipt ref normalized t db
           in (db', bind_ok (receipt_requireByRef db' ref) (\<lambda>rec.
                if inserted then Inr \<lparr>arr_appended = True, arr_record = rec\<rparr>
                else bind_ok (serializeReceipt (rcc_receipt rec)) (\<lambda>s.
                  if s \<noteq> normalized then Inl Re_receipt_ref_conflict
                  else Inr \<lparr>arr_appended = False, arr_record = rec\<rparr>)))))"

definition getReceiptByRef :: "string \<Rightarrow> receipt_db \<Rightarrow> receipt_store_error + receipt_record option" where
  "getReceiptByRef receiptRef db =
     bind_ok (requiredBounded Re_invalid_receipt receiptRef MAX_RECEIPT_REF_CHARS) (\<lambda>ref.
     case find_receipt db ref of
       None \<Rightarrow> Inr None | Some row \<Rightarrow> bind_ok (receipt_toRecord row) (\<lambda>rec. Inr (Some rec)))"

text \<open>\<open>ORDER BY sequence DESC LIMIT ?\<close>.\<close>

definition newest_receipts :: "(receipt_row \<Rightarrow> bool) \<Rightarrow> int \<Rightarrow> receipt_db \<Rightarrow> receipt_row list" where
  "newest_receipts P limit db = take (nat limit) (rev (sort_key rcr_sequence (filter P (rcd_rows db))))"

definition listForExactHead ::
  "string \<Rightarrow> int \<Rightarrow> string \<Rightarrow> int option \<Rightarrow> receipt_db \<Rightarrow> receipt_store_error + receipt_record list" where
  "listForExactHead repository pullRequest headSha limit db =
     bind_ok (requiredBounded Re_invalid_receipt repository MAX_REPOSITORY_CHARS) (\<lambda>repo.
     bind_ok (positiveInteger Re_invalid_receipt pullRequest) (\<lambda>pr.
     bind_ok (validateSha Re_invalid_receipt headSha) (\<lambda>head.
     bind_ok (boundedLimit Re_invalid_receipt (case limit of None \<Rightarrow> 20 | Some n \<Rightarrow> n)) (\<lambda>k.
       map_ok receipt_toRecord (newest_receipts
         (\<lambda>r. rcr_repository r = repo \<and> rcr_pull_request r = pr \<and> rcr_head_sha r = head) k db)))))"

definition listReceiptsForPullRequest ::
  "string \<Rightarrow> int \<Rightarrow> int option \<Rightarrow> receipt_db \<Rightarrow> receipt_store_error + receipt_record list" where
  "listReceiptsForPullRequest repository pullRequest limit db =
     bind_ok (requiredBounded Re_invalid_receipt repository MAX_REPOSITORY_CHARS) (\<lambda>repo.
     bind_ok (positiveInteger Re_invalid_receipt pullRequest) (\<lambda>pr.
     bind_ok (boundedLimit Re_invalid_receipt (case limit of None \<Rightarrow> 20 | Some n \<Rightarrow> n)) (\<lambda>k.
       map_ok receipt_toRecord (newest_receipts
         (\<lambda>r. rcr_repository r = repo \<and> rcr_pull_request r = pr) k db))))"

definition empty_receipts :: receipt_db where
  "empty_receipts = \<lparr>rcd_rows = [], rcd_sequence = 0\<rparr>"

end
