(* ===== verification/Merge_Receipts_Safety.thy ===== *)
theory Merge_Receipts_Safety
  imports Merge_Receipts
begin

text \<open>
  What the table of receipts keeps: rows are only added, a reference names one piece of evidence for
  ever, and every row the repository wrote is readable. The machine of appends is an instance of
  \<open>progress_machine\<close>, with the prefix order on the rows as its progress.
\<close>

section \<open>The invariant\<close>

definition receipt_row_ok :: "receipt_row \<Rightarrow> bool" where
  "receipt_row_ok row \<longleftrightarrow> (\<exists>r t. row = receipt_row_of (rcr_sequence row) (rcr_receipt_ref row) r t
     \<and> receipt_normal r \<and> date_parse t \<noteq> None) \<and> trimmed_text MAX_RECEIPT_REF_CHARS (rcr_receipt_ref row)"

definition receipts_wf :: "receipt_db \<Rightarrow> bool" where
  "receipts_wf db \<longleftrightarrow> distinct (map rcr_receipt_ref (rcd_rows db))
     \<and> sorted_wrt (\<lambda>a b. rcr_sequence a < rcr_sequence b) (rcd_rows db) \<and> 0 \<le> rcd_sequence db
     \<and> (\<forall>row \<in> set (rcd_rows db). rcr_sequence row \<le> rcd_sequence db \<and> receipt_row_ok row)"

lemma receipt_row_of_fields [simp]:
  "rcr_sequence (receipt_row_of n ref r t) = n" "rcr_receipt_ref (receipt_row_of n ref r t) = ref"
  "rcr_repository (receipt_row_of n ref r t) = mr_repository r"
  "rcr_pull_request (receipt_row_of n ref r t) = mr_pullRequest r"
  "rcr_head_sha (receipt_row_of n ref r t) = mr_headSha r"
  by (simp_all add: receipt_row_of_def)

lemma toRecord_row_of:
  "receipt_normal r \<Longrightarrow> date_parse t \<noteq> None \<Longrightarrow> receipt_toRecord (receipt_row_of n ref r t) =
     Inr \<lparr>rcc_sequence = n, rcc_receiptRef = ref, rcc_receipt = r, rcc_recordedAt = t\<rparr>"
  by (simp add: receipt_toRecord_def receipt_row_of_def parseReceipt_normal validateIso_def)

lemma receipt_row_reads:
  assumes "receipt_row_ok row"
  obtains rec where "receipt_toRecord row = Inr rec" "rcc_receiptRef rec = rcr_receipt_ref row"
    "rcc_sequence rec = rcr_sequence row" "receipt_normal (rcc_receipt rec)"
    "mr_repository (rcc_receipt rec) = rcr_repository row"
    "mr_pullRequest (rcc_receipt rec) = rcr_pull_request row"
    "mr_headSha (rcc_receipt rec) = rcr_head_sha row"
proof -
  obtain n ref r t where row: "row = receipt_row_of n ref r t" "receipt_normal r" "date_parse t \<noteq> None"
    using assms unfolding receipt_row_ok_def by blast
  show ?thesis by (rule that, unfold row(1), rule toRecord_row_of [OF row(2,3)]) (simp_all add: row(2))
qed

lemma receipts_wf_row: "receipts_wf db \<Longrightarrow> row \<in> set (rcd_rows db) \<Longrightarrow> receipt_row_ok row"
  by (simp add: receipts_wf_def)

lemma find_receipt_SomeD: "find_receipt db ref = Some row \<Longrightarrow> row \<in> set (rcd_rows db) \<and> rcr_receipt_ref row = ref"
  unfolding find_receipt_def by (drule row_get_SomeD) simp

lemma receipts_wf_empty [simp, preserves]: "receipts_wf empty_receipts"
  by (simp add: receipts_wf_def empty_receipts_def)

section \<open>Appending\<close>

definition receipt_added :: "string \<Rightarrow> merge_receipt \<Rightarrow> iso \<Rightarrow> receipt_db \<Rightarrow> receipt_db" where
  "receipt_added ref r t db = db\<lparr>rcd_rows := rcd_rows db @ [receipt_row_of (rcd_sequence db + 1) ref r t],
     rcd_sequence := rcd_sequence db + 1\<rparr>"

definition receipt_new_record :: "string \<Rightarrow> merge_receipt \<Rightarrow> iso \<Rightarrow> receipt_db \<Rightarrow> receipt_record" where
  "receipt_new_record ref r t db = \<lparr>rcc_sequence = rcd_sequence db + 1, rcc_receiptRef = ref, rcc_receipt = r,
     rcc_recordedAt = t\<rparr>"

text \<open>A request whose reference, time and receipt pass the checks, in normal form.\<close>

definition append_request ::
  "string \<Rightarrow> merge_receipt \<Rightarrow> iso \<Rightarrow> string \<Rightarrow> merge_receipt \<Rightarrow> bool" where
  "append_request receiptRef receipt t ref r \<longleftrightarrow>
     requiredBounded Re_invalid_receipt receiptRef MAX_RECEIPT_REF_CHARS = Inr ref
     \<and> date_parse t \<noteq> None \<and> parseReceipt Re_invalid_receipt receipt = Inr r"

lemma append_requestD:
  assumes "append_request receiptRef receipt t ref r"
  shows "receipt_normal r" "trimmed_text MAX_RECEIPT_REF_CHARS ref" "date_parse t \<noteq> None"
    "0 < mr_pullRequest r"
proof -
  show n: "receipt_normal r"
    using assms unfolding append_request_def by (blast dest: parseReceipt_sound)
  then show "0 < mr_pullRequest r" by (simp add: receipt_normal_def)
  show "trimmed_text MAX_RECEIPT_REF_CHARS ref" "date_parse t \<noteq> None"
    using assms unfolding append_request_def requiredBounded_Inr_iff by blast+
qed

lemma append_unfold:
  assumes "append_request receiptRef receipt t ref r"
  shows "appendReceipt receiptRef receipt t db =
    (let (db', inserted) = insert_receipt ref r t db
     in (db', bind_ok (receipt_requireByRef db' ref) (\<lambda>rec.
          if inserted then Inr \<lparr>arr_appended = True, arr_record = rec\<rparr>
          else bind_ok (serializeReceipt (rcc_receipt rec)) (\<lambda>s.
            if s \<noteq> r then Inl Re_receipt_ref_conflict else Inr \<lparr>arr_appended = False, arr_record = rec\<rparr>))))"
  using assms unfolding append_request_def appendReceipt_def by (auto simp: validateIso_def)

lemma append_invalid:
  assumes "\<And>ref r. \<not> append_request receiptRef receipt t ref r"
  shows "appendReceipt receiptRef receipt t db = (db, Inl Re_invalid_receipt)"
proof (cases "requiredBounded Re_invalid_receipt receiptRef MAX_RECEIPT_REF_CHARS")
  case (Inl e)
  then have "e = Re_invalid_receipt" by (auto simp: requiredBounded_def Let_def split: if_splits)
  with Inl show ?thesis by (simp add: appendReceipt_def)
next
  case ref: (Inr ref)
  show ?thesis
  proof (cases "date_parse t = None")
    case True
    with ref show ?thesis by (simp add: appendReceipt_def validateIso_def)
  next
    case False
    then obtain e where e: "parseReceipt Re_invalid_receipt receipt = Inl e"
      using assms ref by (cases "parseReceipt Re_invalid_receipt receipt") (auto simp: append_request_def)
    have "e = Re_invalid_receipt" using e parse_error by blast
    with False ref e show ?thesis by (simp add: appendReceipt_def validateIso_def)
  qed
qed

lemma append_new:
  assumes q: "append_request receiptRef receipt t ref r" and new: "find_receipt db ref = None"
  shows "appendReceipt receiptRef receipt t db =
    (receipt_added ref r t db, Inr \<lparr>arr_appended = True, arr_record = receipt_new_record ref r t db\<rparr>)"
proof -
  note n = append_requestD [OF q]
  have ins: "insert_receipt ref r t db = (receipt_added ref r t db, True)"
    using new n(4) by (simp add: insert_receipt_def receipt_added_def Let_def)
  have "find_receipt (receipt_added ref r t db) ref
      = Some (receipt_row_of (rcd_sequence db + 1) ref r t)"
    using new by (simp add: find_receipt_def receipt_added_def row_get_append)
  then have "receipt_requireByRef (receipt_added ref r t db) ref = Inr (receipt_new_record ref r t db)"
    by (simp add: receipt_requireByRef_def toRecord_row_of n receipt_new_record_def)
  then show ?thesis by (simp add: append_unfold [OF q] ins)
qed

lemma append_taken:
  assumes q: "append_request receiptRef receipt t ref r" and known: "find_receipt db ref = Some row"
    and read: "receipt_toRecord row = Inr rec" "receipt_normal (rcc_receipt rec)"
  shows "appendReceipt receiptRef receipt t db =
    (db, if rcc_receipt rec = r then Inr \<lparr>arr_appended = False, arr_record = rec\<rparr>
         else Inl Re_receipt_ref_conflict)"
proof -
  have ins: "insert_receipt ref r t db = (db, False)"
    using known by (simp add: insert_receipt_def)
  show ?thesis
    by (simp add: append_unfold [OF q] ins receipt_requireByRef_def known read serializeReceipt_def
        parseReceipt_normal)
qed

lemma receipt_added_wf:
  assumes wf: "receipts_wf db" and q: "append_request receiptRef receipt t ref r"
    and new: "find_receipt db ref = None"
  shows "receipts_wf (receipt_added ref r t db)"
proof -
  note n = append_requestD [OF q]
  have fresh: "ref \<notin> rcr_receipt_ref ` set (rcd_rows db)"
    using new by (auto simp: find_receipt_def row_get_None_iff)
  have "receipt_row_ok (receipt_row_of (rcd_sequence db + 1) ref r t)"
    using n by (auto simp: receipt_row_ok_def)
  then show ?thesis
    using wf fresh by (auto simp: receipts_wf_def receipt_added_def sorted_wrt_append)
qed

text \<open>The three outcomes of an append.\<close>

lemma append_outcome:
  assumes wf: "receipts_wf db"
  shows "appendReceipt receiptRef receipt t db = (db, Inl Re_invalid_receipt)
    \<or> (\<exists>ref r. append_request receiptRef receipt t ref r \<and> find_receipt db ref = None
        \<and> appendReceipt receiptRef receipt t db = (receipt_added ref r t db,
            Inr \<lparr>arr_appended = True, arr_record = receipt_new_record ref r t db\<rparr>))
    \<or> (\<exists>ref r row rec. append_request receiptRef receipt t ref r \<and> find_receipt db ref = Some row
        \<and> receipt_toRecord row = Inr rec
        \<and> appendReceipt receiptRef receipt t db = (db,
            if rcc_receipt rec = r then Inr \<lparr>arr_appended = False, arr_record = rec\<rparr>
            else Inl Re_receipt_ref_conflict))"
proof (cases "\<exists>ref r. append_request receiptRef receipt t ref r")
  case False
  then show ?thesis using append_invalid by blast
next
  case True
  then obtain ref r where q: "append_request receiptRef receipt t ref r" by blast
  show ?thesis
  proof (cases "find_receipt db ref")
    case None
    then show ?thesis using append_new [OF q] q by blast
  next
    case (Some row)
    then have "row \<in> set (rcd_rows db)" using find_receipt_SomeD by blast
    then obtain rec where read: "receipt_toRecord row = Inr rec" "receipt_normal (rcc_receipt rec)"
      using receipt_row_reads receipts_wf_row [OF wf] by metis
    show ?thesis using append_taken [OF q Some read] q Some read(1) by blast
  qed
qed

text \<open>An append that answers left its record under the reference.\<close>

lemma append_stored:
  assumes wf: "receipts_wf db" and a: "appendReceipt receiptRef receipt t db = (db', Inr res)"
  shows "getReceiptByRef receiptRef db' = Inr (Some (arr_record res))"
    "parseReceipt Re_invalid_receipt receipt = Inr (rcc_receipt (arr_record res))"
proof -
  from append_outcome [OF wf, of receiptRef receipt t] obtain ref r where
      q: "append_request receiptRef receipt t ref r"
    and c: "(find_receipt db ref = None \<and> db' = receipt_added ref r t db \<and> arr_record res = receipt_new_record ref r t db)
      \<or> (\<exists>row. find_receipt db ref = Some row \<and> receipt_toRecord row = Inr (arr_record res) \<and> db' = db
          \<and> rcc_receipt (arr_record res) = r)"
    using a by (auto split: if_splits)
  note n = append_requestD [OF q]
  have ref: "requiredBounded Re_invalid_receipt receiptRef MAX_RECEIPT_REF_CHARS = Inr ref"
    "parseReceipt Re_invalid_receipt receipt = Inr r" using q by (simp_all add: append_request_def)
  have "\<exists>row. find_receipt db' ref = Some row \<and> receipt_toRecord row = Inr (arr_record res)
    \<and> rcc_receipt (arr_record res) = r"
    using c
  proof (elim disjE exE conjE)
    assume "find_receipt db ref = None" "db' = receipt_added ref r t db" "arr_record res = receipt_new_record ref r t db"
    then show ?thesis
      using toRecord_row_of [OF n(1,3)] by (simp add: find_receipt_def receipt_added_def row_get_append receipt_new_record_def)
  qed simp
  then show "getReceiptByRef receiptRef db' = Inr (Some (arr_record res))"
    "parseReceipt Re_invalid_receipt receipt = Inr (rcc_receipt (arr_record res))"
    using ref by (auto simp: getReceiptByRef_def)
qed

section \<open>The machine of appends\<close>

type_synonym receipt_op = "string \<times> merge_receipt \<times> iso"

fun receipt_append_step :: "receipt_db \<Rightarrow> receipt_op \<Rightarrow> receipt_db" where
  "receipt_append_step db (ref, r, t) = fst (appendReceipt ref r t db)"

definition receipts_extend :: "receipt_db \<Rightarrow> receipt_db \<Rightarrow> bool" where
  "receipts_extend db db' \<longleftrightarrow> prefix (rcd_rows db) (rcd_rows db') \<and> rcd_sequence db \<le> rcd_sequence db'"

lemma receipt_append_step_cases:
  assumes "receipts_wf db"
  shows "receipt_append_step db x = db \<or> (\<exists>receiptRef receipt t ref r. append_request receiptRef receipt t ref r
    \<and> find_receipt db ref = None \<and> receipt_append_step db x = receipt_added ref r t db)"
proof (cases x)
  case (fields a b c)
  show ?thesis using append_outcome [OF assms, of a b c] unfolding fields receipt_append_step.simps by fastforce
qed

lemma receipts_extend_added: "receipts_extend db (receipt_added ref r t db)"
  by (simp add: receipts_extend_def receipt_added_def)

interpretation receipt_log: progress_machine receipt_append_step receipts_wf receipts_extend
proof
  fix db x assume wf: "receipts_wf db"
  show "receipts_wf (receipt_append_step db x)"
    using receipt_append_step_cases [OF wf, of x] receipt_added_wf [OF wf] wf by metis
  show "receipts_extend db (receipt_append_step db x)"
    using receipt_append_step_cases [OF wf, of x] receipts_extend_added by (metis receipts_extend_def order.refl prefix_order.refl)
next
  fix s t u assume "receipts_extend s t" "receipts_extend t u"
  then show "receipts_extend s u" unfolding receipts_extend_def by (meson order.trans prefix_order.trans)
qed (simp add: receipts_extend_def)

lemma find_receipt_extend:
  assumes "receipts_extend db db'" "find_receipt db ref = Some row"
  shows "find_receipt db' ref = Some row"
proof -
  obtain zs where "rcd_rows db' = rcd_rows db @ zs" using assms(1) by (auto simp: receipts_extend_def prefix_def)
  then show ?thesis using assms(2) by (simp add: find_receipt_def row_get_appendI)
qed

lemma getReceipt_extend:
  assumes "receipts_extend db db'" "getReceiptByRef ref db = Inr (Some rec)"
  shows "getReceiptByRef ref db' = Inr (Some rec)"
proof -
  obtain a row where "requiredBounded Re_invalid_receipt ref MAX_RECEIPT_REF_CHARS = Inr a"
    "find_receipt db a = Some row" "receipt_toRecord row = Inr rec"
    using assms(2) by (auto simp: getReceiptByRef_def bind_ok_Inr_iff split: option.splits)
  with find_receipt_extend [OF assms(1)] show ?thesis by (simp add: getReceiptByRef_def)
qed

text \<open>Every read of a table the repository wrote succeeds, for a reference that passes the check.\<close>

lemma getReceipt_wf:
  assumes "receipts_wf db" "trimmed_text MAX_RECEIPT_REF_CHARS ref"
  shows "\<exists>rec. getReceiptByRef ref db = Inr rec \<and> (\<forall>r. rec = Some r \<longrightarrow> rcc_receiptRef r = ref
    \<and> receipt_normal (rcc_receipt r))"
proof (cases "find_receipt db ref")
  case None
  then show ?thesis using assms by (simp add: getReceiptByRef_def requiredBounded_normal)
next
  case (Some row)
  then have row: "row \<in> set (rcd_rows db)" "rcr_receipt_ref row = ref" using find_receipt_SomeD by blast+
  obtain rec where "receipt_toRecord row = Inr rec" "rcc_receiptRef rec = ref" "receipt_normal (rcc_receipt rec)"
    using receipt_row_reads [OF receipts_wf_row [OF assms(1) row(1)]] row(2) by metis
  with Some assms(2) show ?thesis by (simp add: getReceiptByRef_def requiredBounded_normal)
qed

lemma getReceipt_ref:
  assumes "receipts_wf db" "getReceiptByRef ref db = Inr (Some rec)"
  shows "rcc_receiptRef rec = js_trim ref" "receipt_normal (rcc_receipt rec)"
proof -
  have b: "trimmed_text MAX_RECEIPT_REF_CHARS (js_trim ref)"
    using assms(2) by (auto simp: getReceiptByRef_def bind_ok_Inr_iff requiredBounded_Inr_iff)
  have "getReceiptByRef (js_trim ref) db = getReceiptByRef ref db"
    by (simp add: getReceiptByRef_def requiredBounded_def)
  with getReceipt_wf [OF assms(1) b] assms(2)
  show "rcc_receiptRef rec = js_trim ref" "receipt_normal (rcc_receipt rec)" by auto
qed

section \<open>The lists\<close>

lemma newest_receipts_mem: "r \<in> set (newest_receipts P k db) \<Longrightarrow> r \<in> set (rcd_rows db) \<and> P r"
  by (auto simp: newest_receipts_def dest: in_set_takeD)

lemma newest_receipts_reads:
  assumes "receipts_wf db"
  shows "\<exists>recs. map_ok receipt_toRecord (newest_receipts P k db) = Inr recs"
proof (rule map_ok_total, rule ballI)
  fix row assume "row \<in> set (newest_receipts P k db)"
  then have "receipt_row_ok row" using newest_receipts_mem receipts_wf_row [OF assms] by blast
  then show "\<exists>rec. receipt_toRecord row = Inr rec" by (rule receipt_row_reads) blast
qed

lemma newest_receipts_wf:
  assumes "receipts_wf db"
  shows "newest_receipts P k db = take (nat k) (rev (filter P (rcd_rows db)))"
proof -
  have "sorted_wrt (\<lambda>a b. rcr_sequence a < rcr_sequence b) (filter P (rcd_rows db))"
    using assms by (simp add: receipts_wf_def sorted_wrt_filter)
  then have "sorted (map rcr_sequence (filter P (rcd_rows db)))"
    unfolding sorted_map by (rule sorted_wrt_mono_rel [rotated]) simp
  then show ?thesis by (simp add: newest_receipts_def sort_key_id_if_sorted)
qed

lemma newest_receipts_listed:
  assumes wf: "receipts_wf db" and m: "map_ok receipt_toRecord (newest_receipts P k db) = Inr recs"
    and rec: "rec \<in> set recs"
  shows "getReceiptByRef (rcc_receiptRef rec) db = Inr (Some rec)" "receipt_normal (rcc_receipt rec)"
    "\<exists>row. P row \<and> rcr_repository row = mr_repository (rcc_receipt rec)
       \<and> rcr_pull_request row = mr_pullRequest (rcc_receipt rec) \<and> rcr_head_sha row = mr_headSha (rcc_receipt rec)"
proof -
  obtain row where row: "row \<in> set (newest_receipts P k db)" "receipt_toRecord row = Inr rec"
    using list_all2_rightD [OF m [unfolded map_ok_Inr_iff] rec] by blast
  have mem: "row \<in> set (rcd_rows db)" "P row" using newest_receipts_mem [OF row(1)] by auto
  note ok = receipts_wf_row [OF wf mem(1)]
  have f: "rcc_receiptRef rec = rcr_receipt_ref row" "receipt_normal (rcc_receipt rec)"
    "mr_repository (rcc_receipt rec) = rcr_repository row" "mr_pullRequest (rcc_receipt rec) = rcr_pull_request row"
    "mr_headSha (rcc_receipt rec) = rcr_head_sha row"
    by (rule receipt_row_reads [OF ok]; simp add: row(2))+
  have "find_receipt db (rcr_receipt_ref row) = Some row"
    unfolding find_receipt_def using wf mem(1) by (intro row_get_key) (simp_all add: receipts_wf_def)
  moreover have "trimmed_text MAX_RECEIPT_REF_CHARS (rcr_receipt_ref row)" using ok by (simp add: receipt_row_ok_def)
  ultimately show "getReceiptByRef (rcc_receiptRef rec) db = Inr (Some rec)"
    using row(2) by (simp add: getReceiptByRef_def f(1) requiredBounded_normal)
  show "receipt_normal (rcc_receipt rec)" by (rule f(2))
  show "\<exists>row. P row \<and> rcr_repository row = mr_repository (rcc_receipt rec)
      \<and> rcr_pull_request row = mr_pullRequest (rcc_receipt rec) \<and> rcr_head_sha row = mr_headSha (rcc_receipt rec)"
    using mem(2) f by auto
qed

end
