(* ===== verification/Merge_Reconciliation.thy ===== *)
theory Merge_Reconciliation
  imports Merge_Receipts_Safety
begin

text \<open>
  What is recorded about a merge that was observed (packages/domain/src/merge-reconciliation.ts and
  packages/storage/src/merge-reconciliation-repository.ts): \<open>reconcileMergeEvidence\<close> judges the merge
  by the policy, the receipt and the method, and the repository keeps the judgement with everything it
  was made from. A record is only stored and only read when its decision is the one its evidence gives.
\<close>

section \<open>Judging a merge\<close>

record merge_observation =
  mo_repository :: string
  mo_pullRequest :: int
  mo_headSha :: string
  mo_baseBranch :: string
  mo_baseSha :: "string option"
  mo_merged :: bool
  mo_mergeMethod :: "merge_method option"
  mo_mergeSha :: "string option"
  mo_observedAt :: iso

datatype merge_status = Mst_reconciled | Mst_policy_breach | Mst_inspect_required

fun merge_status_name :: "merge_status \<Rightarrow> string" where
  "merge_status_name Mst_reconciled = ''RECONCILED''"
| "merge_status_name Mst_policy_breach = ''POLICY_BREACH''"
| "merge_status_name Mst_inspect_required = ''INSPECT_REQUIRED''"

datatype merge_action = Mac_none | Mac_surface_policy_breach | Mac_inspect_required

datatype merge_reason =
  Mre_merge_reconciled | Mre_merge_not_observed | Mre_verification_receipt_missing
| Mre_verification_policy_breach | Mre_merge_method_missing | Mre_merge_method_mismatch
| Mre_merge_sha_missing | Mre_merge_sha_invalid | Mre_observation_timestamp_invalid

fun merge_reason_name :: "merge_reason \<Rightarrow> string" where
  "merge_reason_name Mre_merge_reconciled = ''merge_reconciled''"
| "merge_reason_name Mre_merge_not_observed = ''merge_not_observed''"
| "merge_reason_name Mre_verification_receipt_missing = ''verification_receipt_missing''"
| "merge_reason_name Mre_verification_policy_breach = ''verification_policy_breach''"
| "merge_reason_name Mre_merge_method_missing = ''merge_method_missing''"
| "merge_reason_name Mre_merge_method_mismatch = ''merge_method_mismatch''"
| "merge_reason_name Mre_merge_sha_missing = ''merge_sha_missing''"
| "merge_reason_name Mre_merge_sha_invalid = ''merge_sha_invalid''"
| "merge_reason_name Mre_observation_timestamp_invalid = ''observation_timestamp_invalid''"

fun merge_method_name :: "merge_method \<Rightarrow> string" where
  "merge_method_name Mm_merge = ''merge''"
| "merge_method_name Mm_squash = ''squash''"
| "merge_method_name Mm_rebase = ''rebase''"

record merge_judgement =
  mj_status :: merge_status
  mj_action :: merge_action
  mj_reason :: merge_reason
  mj_expectedMergeMethod :: merge_method
  mj_observedMergeMethod :: "merge_method option"
  mj_mergeSha :: "string option"
  mj_blockers :: "merge_blocker list"

text \<open>\<open>SHA_PATTERN\<close> of this file ignores case.\<close>

definition is_sha_any_case :: "string \<Rightarrow> bool" where
  "is_sha_any_case s \<longleftrightarrow> 40 \<le> length s \<and> length s \<le> 64
     \<and> list_all (\<lambda>c. c \<in> set ''0123456789abcdefABCDEF'') s"

definition inspectDecision :: "merge_reason \<Rightarrow> merge_method \<Rightarrow> merge_observation \<Rightarrow> merge_judgement" where
  "inspectDecision reason expected obs =
     \<lparr>mj_status = Mst_inspect_required, mj_action = Mac_inspect_required, mj_reason = reason,
      mj_expectedMergeMethod = expected, mj_observedMergeMethod = mo_mergeMethod obs,
      mj_mergeSha = mo_mergeSha obs, mj_blockers = []\<rparr>"

definition breachDecision ::
  "merge_reason \<Rightarrow> merge_method \<Rightarrow> merge_observation \<Rightarrow> merge_blocker list \<Rightarrow> merge_judgement" where
  "breachDecision reason expected obs blockers =
     \<lparr>mj_status = Mst_policy_breach, mj_action = Mac_surface_policy_breach, mj_reason = reason,
      mj_expectedMergeMethod = expected, mj_observedMergeMethod = mo_mergeMethod obs,
      mj_mergeSha = mo_mergeSha obs, mj_blockers = blockers\<rparr>"

definition observed_subject :: "merge_observation \<Rightarrow> merge_subject" where
  "observed_subject obs = \<lparr>ms_repository = mo_repository obs, ms_pullRequest = mo_pullRequest obs,
     ms_headSha = mo_headSha obs, ms_baseBranch = mo_baseBranch obs, ms_baseSha = mo_baseSha obs\<rparr>"

definition reconcileMergeEvidence ::
  "merge_policy \<Rightarrow> merge_observation \<Rightarrow> merge_receipt option \<Rightarrow> merge_method \<Rightarrow> merge_judgement" where
  "reconcileMergeEvidence policy obs receipt expected =
     (if date_parse (mo_observedAt obs) = None
      then inspectDecision Mre_observation_timestamp_invalid expected obs
      else if \<not> mo_merged obs then inspectDecision Mre_merge_not_observed expected obs
      else case evaluateMergeEvidence policy (observed_subject obs) receipt of
        Merge_blocked blockers \<Rightarrow>
          breachDecision (if receipt = None then Mre_verification_receipt_missing
                          else Mre_verification_policy_breach) expected obs blockers
      | Merge_allowed \<Rightarrow>
          (case mo_mergeMethod obs of
             None \<Rightarrow> breachDecision Mre_merge_method_missing expected obs []
           | Some method \<Rightarrow>
               if method \<noteq> expected then breachDecision Mre_merge_method_mismatch expected obs []
               else (case mo_mergeSha obs of
                  None \<Rightarrow> inspectDecision Mre_merge_sha_missing expected obs
                | Some sha \<Rightarrow>
                    if \<not> is_sha_any_case sha then inspectDecision Mre_merge_sha_invalid expected obs
                    else \<lparr>mj_status = Mst_reconciled, mj_action = Mac_none,
                          mj_reason = Mre_merge_reconciled, mj_expectedMergeMethod = expected,
                          mj_observedMergeMethod = Some method, mj_mergeSha = Some sha,
                          mj_blockers = []\<rparr>)))"

text \<open>When a merge counts as reconciled.\<close>

definition merge_proven :: "merge_policy \<Rightarrow> merge_observation \<Rightarrow> merge_receipt option \<Rightarrow> merge_method \<Rightarrow> bool" where
  "merge_proven policy obs receipt expected \<longleftrightarrow> date_parse (mo_observedAt obs) \<noteq> None \<and> mo_merged obs
     \<and> (\<exists>r. receipt = Some r \<and> merge_evidence_ok policy (observed_subject obs) r)
     \<and> mo_mergeMethod obs = Some expected \<and> (\<exists>sha. mo_mergeSha obs = Some sha \<and> is_sha_any_case sha)"

lemma judgement_status [simp]:
  "mj_status (inspectDecision r e obs) = Mst_inspect_required"
  "mj_status (breachDecision r e obs bs) = Mst_policy_breach"
  by (simp_all add: inspectDecision_def breachDecision_def)

lemma reconciled_iff:
  "mj_status (reconcileMergeEvidence policy obs receipt expected) = Mst_reconciled
    \<longleftrightarrow> merge_proven policy obs receipt expected"
proof (cases "evaluateMergeEvidence policy (observed_subject obs) receipt")
  case Merge_allowed
  then have "\<exists>r. receipt = Some r \<and> merge_evidence_ok policy (observed_subject obs) r"
    unfolding evaluate_cases .
  then show ?thesis
    unfolding reconcileMergeEvidence_def merge_proven_def Merge_allowed by (auto split: option.splits)
next
  case (Merge_blocked bs)
  then have "\<not> (\<exists>r. receipt = Some r \<and> merge_evidence_ok policy (observed_subject obs) r)"
    unfolding evaluate_cases [symmetric] by simp
  then show ?thesis
    unfolding reconcileMergeEvidence_def merge_proven_def Merge_blocked by auto
qed

text \<open>A merge that breaks the policy is never the softer case that only asks for an inspection.\<close>

lemma breach_iff:
  "mj_status (reconcileMergeEvidence policy obs receipt expected) = Mst_policy_breach \<longleftrightarrow>
     date_parse (mo_observedAt obs) \<noteq> None \<and> mo_merged obs
     \<and> (evaluateMergeEvidence policy (observed_subject obs) receipt \<noteq> Merge_allowed
        \<or> mo_mergeMethod obs \<noteq> Some expected)"
  unfolding reconcileMergeEvidence_def
  by (auto split: merge_decision.splits option.splits)

section \<open>Records\<close>

record merge_record =
  mr2_reconciliationRef :: string
  mr2_receiptRef :: "string option"
  mr2_receipt :: "merge_receipt option"
  mr2_policy :: merge_policy
  mr2_expectedMergeMethod :: merge_method
  mr2_observation :: merge_observation
  mr2_decision :: merge_judgement
  mr2_recordedAt :: iso

record merge_history_record =
  mhr_sequence :: int
  mhr_record :: merge_record

text \<open>A conflict carries the record that is already stored.\<close>

datatype merge_store_error = Mse_invalid_record | Mse_corrupt | Mse_ref_conflict merge_record

definition MAX_REF_CHARS :: nat where "MAX_REF_CHARS = 1024"

definition parseObservation :: "merge_store_error \<Rightarrow> merge_observation \<Rightarrow> merge_store_error + merge_observation" where
  "parseObservation e obs =
     bind_ok (requiredBounded e (mo_repository obs) MAX_REPOSITORY_CHARS) (\<lambda>repository.
     bind_ok (positiveInteger e (mo_pullRequest obs)) (\<lambda>pullRequest.
     bind_ok (requiredBounded e (mo_headSha obs) 128) (\<lambda>head.
     bind_ok (requiredBounded e (mo_baseBranch obs) 512) (\<lambda>branch.
     bind_ok (optional_checked (\<lambda>s. requiredBounded e s 128) (mo_baseSha obs)) (\<lambda>base.
     bind_ok (optional_checked (\<lambda>s. requiredBounded e s 128) (mo_mergeSha obs)) (\<lambda>mergeSha.
       Inr (obs\<lparr>mo_repository := repository, mo_pullRequest := pullRequest, mo_headSha := head,
              mo_baseBranch := branch, mo_baseSha := base, mo_mergeSha := mergeSha\<rparr>)))))))"

definition parseRecord :: "merge_store_error \<Rightarrow> merge_record \<Rightarrow> merge_store_error + merge_record" where
  "parseRecord e rec =
     bind_ok (requiredBounded e (mr2_reconciliationRef rec) MAX_REF_CHARS) (\<lambda>ref.
     bind_ok (optional_checked (\<lambda>s. requiredBounded e s MAX_REF_CHARS) (mr2_receiptRef rec)) (\<lambda>receiptRef.
     bind_ok (parseObservation e (mr2_observation rec)) (\<lambda>obs.
     bind_ok (validateIso e (mr2_recordedAt rec)) (\<lambda>recordedAt.
       let recomputed = reconcileMergeEvidence (mr2_policy rec) obs (mr2_receipt rec)
             (mr2_expectedMergeMethod rec)
       in if recomputed \<noteq> mr2_decision rec then Inl e
          else Inr (rec\<lparr>mr2_reconciliationRef := ref, mr2_receiptRef := receiptRef,
                 mr2_observation := obs, mr2_recordedAt := recordedAt\<rparr>)))))"

text \<open>
  The evidence of a record: everything but the two times, which describe one observation attempt.
  The source compares the canonical JSON texts of this evidence.
\<close>

definition immutableEvidence :: "merge_record \<Rightarrow> string \<times> string option \<times> merge_receipt option \<times> merge_policy
    \<times> merge_method \<times> merge_observation \<times> merge_judgement" where
  "immutableEvidence rec = (mr2_reconciliationRef rec, mr2_receiptRef rec, mr2_receipt rec, mr2_policy rec,
     mr2_expectedMergeMethod rec, (mr2_observation rec)\<lparr>mo_observedAt := Instant 0\<rparr>, mr2_decision rec)"

definition hasSameReconciliationEvidence :: "merge_record \<Rightarrow> merge_record \<Rightarrow> bool" where
  "hasSameReconciliationEvidence persisted incoming \<longleftrightarrow> immutableEvidence persisted = immutableEvidence incoming"

text \<open>A record in the normal form the parser leaves alone.\<close>

definition observation_normal :: "merge_observation \<Rightarrow> bool" where
  "observation_normal obs \<longleftrightarrow> trimmed_text MAX_REPOSITORY_CHARS (mo_repository obs)
     \<and> 0 < mo_pullRequest obs \<and> trimmed_text 128 (mo_headSha obs) \<and> trimmed_text 512 (mo_baseBranch obs)
     \<and> (\<forall>s. mo_baseSha obs = Some s \<longrightarrow> trimmed_text 128 s) \<and> (\<forall>s. mo_mergeSha obs = Some s \<longrightarrow> trimmed_text 128 s)"

definition merge_record_normal :: "merge_record \<Rightarrow> bool" where
  "merge_record_normal rec \<longleftrightarrow> trimmed_text MAX_REF_CHARS (mr2_reconciliationRef rec)
     \<and> (\<forall>s. mr2_receiptRef rec = Some s \<longrightarrow> trimmed_text MAX_REF_CHARS s)
     \<and> observation_normal (mr2_observation rec) \<and> date_parse (mr2_recordedAt rec) \<noteq> None
     \<and> mr2_decision rec = reconcileMergeEvidence (mr2_policy rec) (mr2_observation rec) (mr2_receipt rec)
         (mr2_expectedMergeMethod rec)"

lemma optional_bounded_iff: "optional_checked (\<lambda>s. requiredBounded e s n) v = Inr w \<longleftrightarrow>
    w = map_option js_trim v \<and> (\<forall>s. w = Some s \<longrightarrow> trimmed_text n s)"
  by (auto simp: optional_checked_def checked_iffs split: option.splits)

lemma optional_bounded_normal:
  "(\<And>s. v = Some s \<Longrightarrow> trimmed_text n s) \<Longrightarrow> optional_checked (\<lambda>s. requiredBounded e s n) v = Inr v"
  by (cases v) (simp_all add: optional_checked_def requiredBounded_normal)

lemma trimmed_text_trim: "trimmed_text n s \<Longrightarrow> js_trim s = s"
  by (simp add: trimmed_text_def)

lemma parseObservation_sound: "parseObservation e obs = Inr o' \<Longrightarrow> observation_normal o'"
  unfolding parseObservation_def bind_ok_Inr_iff
  by (auto simp: checked_iffs optional_bounded_iff observation_normal_def)

lemma parseObservation_normal: "observation_normal obs \<Longrightarrow> parseObservation e obs = Inr obs"
  by (simp add: parseObservation_def observation_normal_def requiredBounded_normal positiveInteger_def
      optional_bounded_normal)

lemma parseRecord_sound: "parseRecord e rec = Inr n \<Longrightarrow> merge_record_normal n"
  unfolding parseRecord_def bind_ok_Inr_iff
  by (auto simp: checked_iffs optional_bounded_iff Let_def merge_record_normal_def
      dest: parseObservation_sound split: if_splits)

lemma parseRecord_normal: "merge_record_normal rec \<Longrightarrow> parseRecord e rec = Inr rec"
  by (simp add: parseRecord_def merge_record_normal_def requiredBounded_normal
      optional_bounded_normal parseObservation_normal validateIso_def)

section \<open>The table\<close>

datatype record_json = Json_record merge_record | Json_record_other

record merge_record_row =
  mrw_sequence :: int
  mrw_reconciliation_ref :: string
  mrw_repository :: string
  mrw_pull_request :: int
  mrw_head_sha :: string
  mrw_merge_sha :: "string option"
  mrw_receipt_ref :: "string option"
  mrw_expected_merge_method :: string
  mrw_status :: string
  mrw_reason :: string
  mrw_record_json :: record_json
  mrw_observed_at :: iso
  mrw_recorded_at :: iso

record merge_record_db =
  mrd_rows :: "merge_record_row list"
  mrd_sequence :: int

record append_merge_result =
  amr_appended :: bool
  amr_record :: merge_history_record

definition merge_row_of :: "int \<Rightarrow> merge_record \<Rightarrow> merge_record_row" where
  "merge_row_of n rec =
     \<lparr>mrw_sequence = n, mrw_reconciliation_ref = mr2_reconciliationRef rec,
      mrw_repository = mo_repository (mr2_observation rec),
      mrw_pull_request = mo_pullRequest (mr2_observation rec),
      mrw_head_sha = mo_headSha (mr2_observation rec), mrw_merge_sha = mo_mergeSha (mr2_observation rec),
      mrw_receipt_ref = mr2_receiptRef rec,
      mrw_expected_merge_method = merge_method_name (mr2_expectedMergeMethod rec),
      mrw_status = merge_status_name (mj_status (mr2_decision rec)),
      mrw_reason = merge_reason_name (mj_reason (mr2_decision rec)), mrw_record_json = Json_record rec,
      mrw_observed_at = mo_observedAt (mr2_observation rec), mrw_recorded_at = mr2_recordedAt rec\<rparr>"

definition merge_toRecord :: "merge_record_row \<Rightarrow> merge_store_error + merge_history_record" where
  "merge_toRecord row = (case mrw_record_json row of
     Json_record_other \<Rightarrow> Inl Mse_corrupt
   | Json_record parsed \<Rightarrow>
       bind_ok (parseRecord Mse_corrupt parsed) (\<lambda>rec.
       if reconcileMergeEvidence (mr2_policy rec) (mr2_observation rec) (mr2_receipt rec)
            (mr2_expectedMergeMethod rec) \<noteq> mr2_decision rec
       then Inl Mse_corrupt
       else if mr2_reconciliationRef rec \<noteq> mrw_reconciliation_ref row
          \<or> mo_repository (mr2_observation rec) \<noteq> mrw_repository row
          \<or> mo_pullRequest (mr2_observation rec) \<noteq> mrw_pull_request row
          \<or> mo_headSha (mr2_observation rec) \<noteq> mrw_head_sha row
          \<or> mo_mergeSha (mr2_observation rec) \<noteq> mrw_merge_sha row
          \<or> mr2_receiptRef rec \<noteq> mrw_receipt_ref row
          \<or> merge_method_name (mr2_expectedMergeMethod rec) \<noteq> mrw_expected_merge_method row
          \<or> merge_status_name (mj_status (mr2_decision rec)) \<noteq> mrw_status row
          \<or> merge_reason_name (mj_reason (mr2_decision rec)) \<noteq> mrw_reason row
          \<or> mo_observedAt (mr2_observation rec) \<noteq> mrw_observed_at row
          \<or> mr2_recordedAt rec \<noteq> mrw_recorded_at row
       then Inl Mse_corrupt
       else Inr \<lparr>mhr_sequence = mrw_sequence row, mhr_record = rec\<rparr>))"

definition find_merge :: "merge_record_db \<Rightarrow> string \<Rightarrow> merge_record_row option" where
  "find_merge db ref = row_get (\<lambda>r. mrw_reconciliation_ref r = ref) (mrd_rows db)"

definition merge_requireByRef :: "merge_record_db \<Rightarrow> string \<Rightarrow> merge_store_error + merge_history_record" where
  "merge_requireByRef db ref = (case find_merge db ref of
     None \<Rightarrow> Inl Mse_corrupt | Some row \<Rightarrow> merge_toRecord row)"

definition insert_merge :: "merge_record \<Rightarrow> merge_record_db \<Rightarrow> merge_record_db \<times> bool" where
  "insert_merge rec db =
     (if find_merge db (mr2_reconciliationRef rec) \<noteq> None \<or> mo_pullRequest (mr2_observation rec) \<le> 0
      then (db, False)
      else let n = mrd_sequence db + 1
           in (db\<lparr>mrd_rows := mrd_rows db @ [merge_row_of n rec], mrd_sequence := n\<rparr>, True))"

definition compare_evidence ::
  "merge_history_record \<Rightarrow> merge_record \<Rightarrow> merge_store_error + append_merge_result" where
  "compare_evidence persisted normalized =
     (if \<not> hasSameReconciliationEvidence (mhr_record persisted) normalized
      then Inl (Mse_ref_conflict (mhr_record persisted))
      else Inr \<lparr>amr_appended = False, amr_record = persisted\<rparr>)"

definition appendMerge ::
  "merge_record \<Rightarrow> merge_record_db \<Rightarrow> merge_record_db \<times> (merge_store_error + append_merge_result)" where
  "appendMerge rec db =
     (case requiredBounded Mse_invalid_record (mr2_reconciliationRef rec) MAX_REF_CHARS of
        Inl e \<Rightarrow> (db, Inl e)
      | Inr ref \<Rightarrow>
         (case find_merge db ref of
            Some row \<Rightarrow>
              (db, bind_ok (merge_toRecord row) (\<lambda>persisted.
                 case parseRecord Mse_invalid_record rec of
                   Inl _ \<Rightarrow> Inl (Mse_ref_conflict (mhr_record persisted))
                 | Inr normalized \<Rightarrow> compare_evidence persisted normalized))
          | None \<Rightarrow>
              (case parseRecord Mse_invalid_record rec of
                 Inl e \<Rightarrow> (db, Inl e)
               | Inr normalized \<Rightarrow>
                   (let (db', inserted) = insert_merge normalized db
                    in (db', bind_ok (merge_requireByRef db' (mr2_reconciliationRef normalized)) (\<lambda>persisted.
                         if inserted then Inr \<lparr>amr_appended = True, amr_record = persisted\<rparr>
                         else compare_evidence persisted normalized))))))"

definition getMergeByRef :: "string \<Rightarrow> merge_record_db \<Rightarrow> merge_store_error + merge_history_record option" where
  "getMergeByRef reconciliationRef db =
     bind_ok (requiredBounded Mse_invalid_record reconciliationRef MAX_REF_CHARS) (\<lambda>ref.
     case find_merge db ref of
       None \<Rightarrow> Inr None | Some row \<Rightarrow> bind_ok (merge_toRecord row) (\<lambda>rec. Inr (Some rec)))"

definition listMergesForPullRequest ::
  "string \<Rightarrow> int \<Rightarrow> int option \<Rightarrow> merge_record_db \<Rightarrow> merge_store_error + merge_history_record list" where
  "listMergesForPullRequest repository pullRequest limit db =
     bind_ok (requiredBounded Mse_invalid_record repository MAX_REPOSITORY_CHARS) (\<lambda>repo.
     bind_ok (positiveInteger Mse_invalid_record pullRequest) (\<lambda>pr.
     bind_ok (boundedLimit Mse_invalid_record (case limit of None \<Rightarrow> 20 | Some n \<Rightarrow> n)) (\<lambda>k.
       map_ok merge_toRecord (take (nat k) (rev (sort_key mrw_sequence
         (filter (\<lambda>r. mrw_repository r = repo \<and> mrw_pull_request r = pr) (mrd_rows db))))))))"

definition empty_merges :: merge_record_db where
  "empty_merges = \<lparr>mrd_rows = [], mrd_sequence = 0\<rparr>"

section \<open>What the table keeps\<close>

definition merges_wf :: "merge_record_db \<Rightarrow> bool" where
  "merges_wf db \<longleftrightarrow> distinct (map mrw_reconciliation_ref (mrd_rows db))
     \<and> (\<forall>row \<in> set (mrd_rows db). \<exists>rec. row = merge_row_of (mrw_sequence row) rec \<and> merge_record_normal rec)"

definition merges_extend :: "merge_record_db \<Rightarrow> merge_record_db \<Rightarrow> bool" where
  "merges_extend db db' \<longleftrightarrow> prefix (mrd_rows db) (mrd_rows db')"

lemma merge_row_of_fields [simp]:
  "mrw_sequence (merge_row_of n rec) = n"
  "mrw_reconciliation_ref (merge_row_of n rec) = mr2_reconciliationRef rec"
  by (simp_all add: merge_row_of_def)

lemma merge_row_reads:
  "merge_record_normal rec \<Longrightarrow> merge_toRecord (merge_row_of n rec) = Inr \<lparr>mhr_sequence = n, mhr_record = rec\<rparr>"
  by (simp add: merge_toRecord_def merge_row_of_def parseRecord_normal) (simp add: merge_record_normal_def)

lemma find_merge_wf:
  assumes "merges_wf db" "find_merge db ref = Some row"
  obtains rec where "merge_toRecord row = Inr \<lparr>mhr_sequence = mrw_sequence row, mhr_record = rec\<rparr>"
    "merge_record_normal rec" "mr2_reconciliationRef rec = ref"
proof -
  have "row \<in> set (mrd_rows db)" "mrw_reconciliation_ref row = ref"
    using row_get_SomeD [OF assms(2) [unfolded find_merge_def]] by simp_all
  then obtain n rec where rec: "row = merge_row_of n rec" "merge_record_normal rec"
      "mrw_reconciliation_ref row = ref"
    using assms(1) unfolding merges_wf_def by blast
  then show ?thesis using merge_row_reads [OF rec(2), of n] that by simp
qed

text \<open>Appending: the outcome for a valid record, by what is stored under its reference.\<close>

lemma append_merge_new:
  assumes p: "parseRecord Mse_invalid_record rec = Inr n" and none: "find_merge db (mr2_reconciliationRef n) = None"
  shows "appendMerge rec db =
    (db\<lparr>mrd_rows := mrd_rows db @ [merge_row_of (mrd_sequence db + 1) n], mrd_sequence := mrd_sequence db + 1\<rparr>,
     Inr \<lparr>amr_appended = True, amr_record = \<lparr>mhr_sequence = mrd_sequence db + 1, mhr_record = n\<rparr>\<rparr>)"
proof -
  have ref: "requiredBounded Mse_invalid_record (mr2_reconciliationRef rec) MAX_REF_CHARS
      = Inr (mr2_reconciliationRef n)"
    using p by (auto simp: parseRecord_def bind_ok_Inr_iff Let_def split: if_splits)
  have normal: "merge_record_normal n" using p by (rule parseRecord_sound)
  then have pr: "0 < mo_pullRequest (mr2_observation n)"
    by (simp add: merge_record_normal_def observation_normal_def)
  show ?thesis
    using none pr unfolding appendMerge_def ref
    by (simp add: p insert_merge_def Let_def merge_requireByRef_def find_merge_def row_get_append
        merge_row_reads [OF normal])
qed

lemma append_merge_known:
  assumes ref: "requiredBounded Mse_invalid_record (mr2_reconciliationRef rec) MAX_REF_CHARS = Inr ref"
    and row: "find_merge db ref = Some row" and read: "merge_toRecord row = Inr persisted"
  shows "appendMerge rec db = (db, case parseRecord Mse_invalid_record rec of
      Inl _ \<Rightarrow> Inl (Mse_ref_conflict (mhr_record persisted))
    | Inr n \<Rightarrow> compare_evidence persisted n)"
  by (simp add: appendMerge_def ref row read)

lemma append_merge_state:
  assumes wf: "merges_wf db"
  shows "merges_wf (fst (appendMerge rec db)) \<and> merges_extend db (fst (appendMerge rec db))"
proof (cases "\<exists>n. parseRecord Mse_invalid_record rec = Inr n \<and> find_merge db (mr2_reconciliationRef n) = None")
  case True
  then obtain n where n: "parseRecord Mse_invalid_record rec = Inr n"
    "find_merge db (mr2_reconciliationRef n) = None" by blast
  have normal: "merge_record_normal n" using n(1) by (rule parseRecord_sound)
  have fresh: "mr2_reconciliationRef n \<notin> set (map mrw_reconciliation_ref (mrd_rows db))"
    using n(2) by (auto simp: find_merge_def row_get_None_iff)
  show ?thesis
    using wf fresh normal unfolding append_merge_new [OF n]
    by (auto simp: merges_wf_def merges_extend_def)
next
  case False
  have "fst (appendMerge rec db) = db"
  proof (cases "requiredBounded Mse_invalid_record (mr2_reconciliationRef rec) MAX_REF_CHARS")
    case (Inl e)
    then show ?thesis by (simp add: appendMerge_def)
  next
    case (Inr ref)
    then show ?thesis
      using False by (auto simp: appendMerge_def parseRecord_def bind_ok_Inr_iff Let_def
          split: option.splits sum.splits)
  qed
  with wf show ?thesis by (simp add: merges_extend_def)
qed

interpretation merge_log: progress_machine "\<lambda>db rec. fst (appendMerge rec db)" merges_wf merges_extend
  by unfold_locales (use append_merge_state prefix_order.trans in \<open>auto simp: merges_extend_def\<close>)

lemma merges_wf_empty [simp, preserves]: "merges_wf empty_merges"
  by (simp add: merges_wf_def empty_merges_def)

end
