(* ===== verification/Merge_Attempts.thy ===== *)
theory Merge_Attempts
  imports Merge_Receipts "HOL-Library.Product_Lexorder"
begin

text \<open>
  The durable attempts of verification runs (packages/storage/src/merge-verification-attempt-repository.ts
  and migrations/merge-verification-attempt-queue-migration.ts): a row is queued or running, and ends
  as completed, failed or interrupted. The partial unique index admits one live row per exact head.
  Times are compared as SQL compares the texts of the column; the model compares the instants, which
  agrees on the texts \<open>toISOString\<close> prints for the years 0 to 9999, the only ones the callers store.
\<close>

section \<open>Rows\<close>

datatype attempt_status = At_queued | At_running | At_completed | At_failed | At_interrupted

definition LIVE_STATUSES :: "attempt_status list" where
  "LIVE_STATUSES = [At_queued, At_running]"

definition TERMINAL_STATUSES :: "attempt_status list" where
  "TERMINAL_STATUSES = [At_completed, At_failed, At_interrupted]"

record attempt_row =
  atr_attempt_id :: string
  atr_repository :: string
  atr_pull_request :: int
  atr_head_sha :: string
  atr_base_branch :: "string option"
  atr_workspace_id :: "string option"
  atr_status :: attempt_status
  atr_gate_name :: "string option"
  atr_started_at :: iso
  atr_heartbeat_at :: iso
  atr_finished_at :: "iso option"
  atr_detail :: "string option"
  atr_receipt_ref :: "string option"

text \<open>A record has the fields of its row, and is read only when they are consistent.\<close>

type_synonym attempt_record = attempt_row
type_synonym attempt_db = "attempt_row list"

datatype attempt_error = Ae_invalid_attempt | Ae_attempt_conflict | Ae_corrupt | Ae_range_error

record new_attempt =
  na_attemptId :: string
  na_repository :: string
  na_pullRequest :: int
  na_headSha :: string
  na_baseBranch :: "string option"
  na_workspaceId :: "string option"
  na_at :: iso

record finish_attempt =
  fa_completed :: bool
  fa_finishedAt :: iso
  fa_detail :: "string option"
  fa_receiptRef :: "string option"

record active_query =
  qa_repository :: string
  qa_pullRequest :: int
  qa_headSha :: string
  qa_now :: iso
  qa_staleAfterMs :: int

definition MAX_ATTEMPT_ID_CHARS :: nat where "MAX_ATTEMPT_ID_CHARS = 256"
definition MAX_WORKSPACE_ID_CHARS :: nat where "MAX_WORKSPACE_ID_CHARS = 128"
definition MAX_BRANCH_CHARS :: nat where "MAX_BRANCH_CHARS = 256"
definition MAX_ATTEMPT_DETAIL_CHARS :: nat where "MAX_ATTEMPT_DETAIL_CHARS = 4096"

definition attempt_live :: "attempt_row \<Rightarrow> bool" where
  "attempt_live r \<longleftrightarrow> atr_status r \<in> set LIVE_STATUSES"

definition attempt_terminal :: "attempt_row \<Rightarrow> bool" where
  "attempt_terminal r \<longleftrightarrow> atr_status r \<in> set TERMINAL_STATUSES"

definition attempt_toRecord :: "attempt_row \<Rightarrow> attempt_error + attempt_record" where
  "attempt_toRecord row =
     bind_ok (validateIso Ae_corrupt (atr_started_at row)) (\<lambda>_.
     bind_ok (validateIso Ae_corrupt (atr_heartbeat_at row)) (\<lambda>_.
     bind_ok (optional_checked (validateIso Ae_corrupt) (atr_finished_at row)) (\<lambda>_.
     if attempt_live row \<and> atr_finished_at row \<noteq> None then Inl Ae_corrupt
     else if attempt_terminal row \<and> atr_finished_at row = None then Inl Ae_corrupt
     else Inr row)))"

definition find_attempt :: "attempt_db \<Rightarrow> string \<Rightarrow> attempt_row option" where
  "find_attempt db i = row_get (\<lambda>r. atr_attempt_id r = i) db"

definition attempt_requireById :: "attempt_db \<Rightarrow> string \<Rightarrow> attempt_error + attempt_record" where
  "attempt_requireById db i = (case find_attempt db i of
     None \<Rightarrow> Inl Ae_corrupt | Some row \<Rightarrow> attempt_toRecord row)"

section \<open>A new attempt\<close>

definition check_new_attempt :: "new_attempt \<Rightarrow> attempt_error + new_attempt" where
  "check_new_attempt q =
     bind_ok (requiredBounded Ae_invalid_attempt (na_attemptId q) MAX_ATTEMPT_ID_CHARS) (\<lambda>i.
     bind_ok (requiredBounded Ae_invalid_attempt (na_repository q) MAX_REPOSITORY_CHARS) (\<lambda>repository.
     bind_ok (positiveInteger Ae_invalid_attempt (na_pullRequest q)) (\<lambda>_.
     bind_ok (validateSha Ae_invalid_attempt (na_headSha q)) (\<lambda>_.
     bind_ok (optional_checked (\<lambda>s. requiredBounded Ae_invalid_attempt s MAX_BRANCH_CHARS)
        (na_baseBranch q)) (\<lambda>branch.
     bind_ok (optional_checked (\<lambda>s. requiredBounded Ae_invalid_attempt s MAX_WORKSPACE_ID_CHARS)
        (na_workspaceId q)) (\<lambda>workspace.
     bind_ok (validateIso Ae_invalid_attempt (na_at q)) (\<lambda>_.
       Inr (q\<lparr>na_attemptId := i, na_repository := repository, na_baseBranch := branch,
              na_workspaceId := workspace\<rparr>))))))))"

definition same_head :: "string \<Rightarrow> int \<Rightarrow> string \<Rightarrow> attempt_row \<Rightarrow> bool" where
  "same_head repository pullRequest headSha r \<longleftrightarrow> atr_repository r = repository
     \<and> atr_pull_request r = pullRequest \<and> atr_head_sha r = headSha"

definition attempt_of :: "attempt_status \<Rightarrow> new_attempt \<Rightarrow> attempt_row" where
  "attempt_of status q =
     \<lparr>atr_attempt_id = na_attemptId q, atr_repository = na_repository q,
      atr_pull_request = na_pullRequest q, atr_head_sha = na_headSha q,
      atr_base_branch = na_baseBranch q, atr_workspace_id = na_workspaceId q, atr_status = status,
      atr_gate_name = None, atr_started_at = na_at q, atr_heartbeat_at = na_at q,
      atr_finished_at = None, atr_detail = None, atr_receipt_ref = None\<rparr>"

text \<open>
  The primary key and the unique index on the live rows of a head; \<open>INSERT OR IGNORE\<close> adds nothing
  when one of them is violated.
\<close>

definition attempt_insertable :: "new_attempt \<Rightarrow> attempt_db \<Rightarrow> bool" where
  "attempt_insertable q db \<longleftrightarrow> (\<forall>r \<in> set db. atr_attempt_id r \<noteq> na_attemptId q
     \<and> \<not> (attempt_live r \<and> same_head (na_repository q) (na_pullRequest q) (na_headSha q) r))"

definition add_attempt ::
  "attempt_status \<Rightarrow> new_attempt \<Rightarrow> attempt_db \<Rightarrow> attempt_db \<times> (attempt_error + attempt_record)" where
  "add_attempt status request db = (case check_new_attempt request of
     Inl e \<Rightarrow> (db, Inl e)
   | Inr q \<Rightarrow>
       if attempt_insertable q db
       then (let db' = db @ [attempt_of status q] in (db', attempt_requireById db' (na_attemptId q)))
       else (db, Inl Ae_attempt_conflict))"

definition beginAttempt :: "new_attempt \<Rightarrow> attempt_db \<Rightarrow> attempt_db \<times> (attempt_error + attempt_record)" where
  "beginAttempt = add_attempt At_running"

definition enqueueAttempt :: "new_attempt \<Rightarrow> attempt_db \<Rightarrow> attempt_db \<times> (attempt_error + attempt_record)" where
  "enqueueAttempt = add_attempt At_queued"

section \<open>Updates\<close>

definition coalesce :: "'a option \<Rightarrow> 'a option \<Rightarrow> 'a option" where
  "coalesce a b = (case a of None \<Rightarrow> b | Some _ \<Rightarrow> a)"

text \<open>
  \<open>UPDATE .. WHERE attempt_id = ? AND status = ?\<close>, an error unless one row changed, and the row read
  back.
\<close>

definition update_attempt ::
  "string \<Rightarrow> attempt_status \<Rightarrow> (attempt_row \<Rightarrow> attempt_row) \<Rightarrow> attempt_db \<Rightarrow> attempt_db \<times> bool" where
  "update_attempt i status f db =
     (let P = (\<lambda>r. atr_attempt_id r = i \<and> atr_status r = status)
      in (row_update P f db, row_changes P db = 1))"

definition transition_attempt ::
  "string \<Rightarrow> attempt_status \<Rightarrow> (attempt_row \<Rightarrow> attempt_row) \<Rightarrow> attempt_db
     \<Rightarrow> attempt_db \<times> (attempt_error + attempt_record)" where
  "transition_attempt i status f db =
     (case update_attempt i status f db of (db', changed) \<Rightarrow>
        (db', if changed then attempt_requireById db' i else Inl Ae_attempt_conflict))"

definition claimQueued ::
  "string \<Rightarrow> iso \<Rightarrow> string option \<Rightarrow> attempt_db \<Rightarrow> attempt_db \<times> (attempt_error + attempt_record)" where
  "claimQueued attemptId claimedAt workspaceId db =
     (case bind_ok (requiredBounded Ae_invalid_attempt attemptId MAX_ATTEMPT_ID_CHARS) (\<lambda>i.
           bind_ok (validateIso Ae_invalid_attempt claimedAt) (\<lambda>t.
           bind_ok (optional_checked (\<lambda>s. requiredBounded Ae_invalid_attempt s MAX_WORKSPACE_ID_CHARS)
             workspaceId) (\<lambda>w. Inr (i, t, w)))) of
        Inl e \<Rightarrow> (db, Inl e)
      | Inr (i, t, w) \<Rightarrow> transition_attempt i At_queued
          (\<lambda>r. r\<lparr>atr_status := At_running, atr_heartbeat_at := t,
                 atr_workspace_id := coalesce w (atr_workspace_id r)\<rparr>) db)"

definition heartbeatAttempt ::
  "string \<Rightarrow> iso \<Rightarrow> string option \<Rightarrow> attempt_db \<Rightarrow> attempt_db \<times> (attempt_error + bool)" where
  "heartbeatAttempt attemptId heartbeatAt gateName db =
     (case bind_ok (requiredBounded Ae_invalid_attempt attemptId MAX_ATTEMPT_ID_CHARS) (\<lambda>i.
           bind_ok (validateIso Ae_invalid_attempt heartbeatAt) (\<lambda>t.
           bind_ok (optional_checked (\<lambda>s. requiredBounded Ae_invalid_attempt s MAX_GATE_NAME_CHARS)
             gateName) (\<lambda>g. Inr (i, t, g)))) of
        Inl e \<Rightarrow> (db, Inl e)
      | Inr (i, t, g) \<Rightarrow> (case update_attempt i At_running
          (\<lambda>r. r\<lparr>atr_heartbeat_at := t, atr_gate_name := coalesce g (atr_gate_name r)\<rparr>) db of
            (db', changed) \<Rightarrow> (db', Inr changed)))"

definition finishAttempt ::
  "string \<Rightarrow> finish_attempt \<Rightarrow> attempt_db \<Rightarrow> attempt_db \<times> (attempt_error + attempt_record)" where
  "finishAttempt attemptId q db =
     (case bind_ok (requiredBounded Ae_invalid_attempt attemptId MAX_ATTEMPT_ID_CHARS) (\<lambda>i.
           bind_ok (validateIso Ae_invalid_attempt (fa_finishedAt q)) (\<lambda>t.
           bind_ok (optional_checked (\<lambda>s. requiredBounded Ae_invalid_attempt s MAX_ATTEMPT_DETAIL_CHARS)
             (fa_detail q)) (\<lambda>d.
           bind_ok (optional_checked (\<lambda>s. requiredBounded Ae_invalid_attempt s MAX_RECEIPT_REF_CHARS)
             (fa_receiptRef q)) (\<lambda>ref. Inr (i, t, d, ref))))) of
        Inl e \<Rightarrow> (db, Inl e)
      | Inr (i, t, d, ref) \<Rightarrow> transition_attempt i At_running
          (\<lambda>r. r\<lparr>atr_status := (if fa_completed q then At_completed else At_failed),
                 atr_finished_at := Some t, atr_detail := d, atr_receipt_ref := ref\<rparr>) db)"

definition interrupted_at :: "iso \<Rightarrow> string \<Rightarrow> attempt_row \<Rightarrow> attempt_row" where
  "interrupted_at t d r = r\<lparr>atr_status := At_interrupted, atr_finished_at := Some t, atr_detail := Some d\<rparr>"

definition markInterrupted ::
  "string \<Rightarrow> iso \<Rightarrow> string \<Rightarrow> attempt_db \<Rightarrow> attempt_db \<times> (attempt_error + attempt_record)" where
  "markInterrupted attemptId finishedAt detail db =
     (case bind_ok (requiredBounded Ae_invalid_attempt attemptId MAX_ATTEMPT_ID_CHARS) (\<lambda>i.
           bind_ok (validateIso Ae_invalid_attempt finishedAt) (\<lambda>t.
           bind_ok (requiredBounded Ae_invalid_attempt detail MAX_ATTEMPT_DETAIL_CHARS) (\<lambda>d. Inr (i, t, d)))) of
        Inl e \<Rightarrow> (db, Inl e)
      | Inr (i, t, d) \<Rightarrow> transition_attempt i At_running (interrupted_at t d) db)"

section \<open>Stale attempts\<close>

fun iso_at_most :: "iso \<Rightarrow> iso \<Rightarrow> bool" where
  "iso_at_most (Instant a) (Instant b) = (a \<le> b)"
| "iso_at_most _ _ = False"

fun iso_ms :: "iso \<Rightarrow> int" where
  "iso_ms (Instant a) = a"
| "iso_ms (Unparsable _) = 0"

text \<open>\<open>new Date(Date.parse(now) - staleAfterMs).toISOString()\<close>, after the checks of the two arguments.\<close>

definition stale_cutoff :: "iso \<Rightarrow> int \<Rightarrow> attempt_error + iso" where
  "stale_cutoff now staleAfterMs =
     bind_ok (validateIso Ae_invalid_attempt now) (\<lambda>t.
     bind_ok (positiveInteger Ae_invalid_attempt staleAfterMs) (\<lambda>k.
     case to_iso (iso_ms t - k) of None \<Rightarrow> Inl Ae_range_error | Some c \<Rightarrow> Inr c))"

definition attempt_stale :: "iso \<Rightarrow> attempt_row \<Rightarrow> bool" where
  "attempt_stale cutoff r \<longleftrightarrow> atr_status r = At_running \<and> iso_at_most (atr_heartbeat_at r) cutoff"

definition stale_detail :: "int \<Rightarrow> string" where
  "stale_detail k = ''Verification did not report a verdict before its heartbeat expired ('' @ int_string k
     @ ''ms grace)''"

fun reap_loop :: "iso \<Rightarrow> iso \<Rightarrow> string \<Rightarrow> string list \<Rightarrow> attempt_db \<Rightarrow> string list \<Rightarrow> attempt_db \<times> string list" where
  "reap_loop now cutoff detail [] db reaped = (db, reaped)"
| "reap_loop now cutoff detail (i # ids) db reaped =
     (let P = (\<lambda>r. atr_attempt_id r = i \<and> attempt_stale cutoff r)
      in reap_loop now cutoff detail ids (row_update P (interrupted_at now detail) db)
           (if row_changes P db = 1 then reaped @ [i] else reaped))"

definition reapStale :: "iso \<Rightarrow> int \<Rightarrow> attempt_db \<Rightarrow> attempt_db \<times> (attempt_error + string list)" where
  "reapStale now staleAfterMs db = (case stale_cutoff now staleAfterMs of
     Inl e \<Rightarrow> (db, Inl e)
   | Inr cutoff \<Rightarrow>
       (let ids = map atr_attempt_id (sort_key (iso_ms \<circ> atr_heartbeat_at) (filter (attempt_stale cutoff) db));
            (db', reaped) = reap_loop now cutoff (stale_detail staleAfterMs) ids db []
        in (db', Inr reaped)))"

section \<open>Reads\<close>

definition getAttemptById :: "string \<Rightarrow> attempt_db \<Rightarrow> attempt_error + attempt_record option" where
  "getAttemptById attemptId db =
     bind_ok (requiredBounded Ae_invalid_attempt attemptId MAX_ATTEMPT_ID_CHARS) (\<lambda>i.
     case find_attempt db i of
       None \<Rightarrow> Inr None | Some row \<Rightarrow> bind_ok (attempt_toRecord row) (\<lambda>rec. Inr (Some rec)))"

text \<open>\<open>ORDER BY started_at DESC, attempt_id DESC\<close>.\<close>

definition latest_attempts :: "attempt_db \<Rightarrow> attempt_db" where
  "latest_attempts rows = rev (sort_key (\<lambda>r. (iso_ms (atr_started_at r), atr_attempt_id r)) rows)"

definition listAttempts ::
  "string \<Rightarrow> int \<Rightarrow> string option \<Rightarrow> int option \<Rightarrow> attempt_db \<Rightarrow> attempt_error + attempt_record list" where
  "listAttempts repository pullRequest headSha limit db =
     bind_ok (requiredBounded Ae_invalid_attempt repository MAX_REPOSITORY_CHARS) (\<lambda>repo.
     bind_ok (positiveInteger Ae_invalid_attempt pullRequest) (\<lambda>pr.
     bind_ok (boundedLimit Ae_invalid_attempt (case limit of None \<Rightarrow> 20 | Some n \<Rightarrow> n)) (\<lambda>k.
     bind_ok (optional_checked (validateSha Ae_invalid_attempt) headSha) (\<lambda>head.
       map_ok attempt_toRecord (take (nat k) (latest_attempts
         (filter (\<lambda>r. atr_repository r = repo \<and> atr_pull_request r = pr
            \<and> (head = None \<or> head = Some (atr_head_sha r))) db)))))))"

text \<open>The rows an active lookup selects, best first: running rows with a fresh heartbeat, then queued.\<close>

definition active_attempts :: "string \<Rightarrow> int \<Rightarrow> string \<Rightarrow> iso \<Rightarrow> attempt_db \<Rightarrow> attempt_db" where
  "active_attempts repository pullRequest headSha cutoff db =
     (let here = filter (same_head repository pullRequest headSha) db
      in latest_attempts (filter (\<lambda>r. atr_status r = At_running \<and> \<not> iso_at_most (atr_heartbeat_at r) cutoff) here)
       @ latest_attempts (filter (\<lambda>r. atr_status r = At_queued) here))"

definition check_active_query :: "active_query \<Rightarrow> attempt_error + string \<times> iso" where
  "check_active_query q =
     bind_ok (requiredBounded Ae_invalid_attempt (qa_repository q) MAX_REPOSITORY_CHARS) (\<lambda>repo.
     bind_ok (positiveInteger Ae_invalid_attempt (qa_pullRequest q)) (\<lambda>_.
     bind_ok (validateSha Ae_invalid_attempt (qa_headSha q)) (\<lambda>_.
     bind_ok (stale_cutoff (qa_now q) (qa_staleAfterMs q)) (\<lambda>cutoff. Inr (repo, cutoff)))))"

definition findActive :: "active_query \<Rightarrow> attempt_db \<Rightarrow> attempt_error + attempt_record option" where
  "findActive q db =
     bind_ok (check_active_query q) (\<lambda>(repo, cutoff).
     case active_attempts repo (qa_pullRequest q) (qa_headSha q) cutoff db of
       [] \<Rightarrow> Inr None
     | row # _ \<Rightarrow> bind_ok (attempt_toRecord row) (\<lambda>rec.
         if \<not> attempt_live rec then Inl Ae_corrupt else Inr (Some rec)))"

definition findLive :: "active_query \<Rightarrow> attempt_db \<Rightarrow> attempt_error + attempt_record option" where
  "findLive q db =
     bind_ok (check_active_query q) (\<lambda>(repo, cutoff).
     case rev (sort_key (\<lambda>r. (iso_ms (atr_heartbeat_at r), atr_attempt_id r))
            (filter (\<lambda>r. same_head repo (qa_pullRequest q) (qa_headSha q) r
               \<and> atr_status r = At_running \<and> \<not> iso_at_most (atr_heartbeat_at r) cutoff) db)) of
       [] \<Rightarrow> Inr None
     | row # _ \<Rightarrow> bind_ok (attempt_toRecord row) (\<lambda>rec. Inr (Some rec)))"

end
