(* ===== verification/Merge_Attempts_Safety.thy ===== *)
theory Merge_Attempts_Safety
  imports Merge_Attempts
begin

text \<open>
  What the table of attempts keeps under any operations: one row per identifier, at most one live row
  per exact head, a finish time exactly on the rows that ended, and rows that only move forward,
  queued to running to ended, and never change once they ended. The operations are the steps of a
  \<open>progress_machine\<close>.
\<close>

section \<open>The invariant\<close>

definition attempt_row_ok :: "attempt_row \<Rightarrow> bool" where
  "attempt_row_ok r \<longleftrightarrow> trimmed_text MAX_ATTEMPT_ID_CHARS (atr_attempt_id r)
     \<and> date_parse (atr_started_at r) \<noteq> None \<and> date_parse (atr_heartbeat_at r) \<noteq> None
     \<and> (\<forall>t. atr_finished_at r = Some t \<longrightarrow> date_parse t \<noteq> None)
     \<and> (atr_finished_at r = None \<longleftrightarrow> attempt_live r)"

definition attempts_wf :: "attempt_db \<Rightarrow> bool" where
  "attempts_wf db \<longleftrightarrow> distinct (map atr_attempt_id db) \<and> (\<forall>r \<in> set db. attempt_row_ok r)
     \<and> (\<forall>r \<in> set db. \<forall>s \<in> set db. attempt_live r \<and> attempt_live s
          \<and> same_head (atr_repository s) (atr_pull_request s) (atr_head_sha s) r \<longrightarrow> r = s)"

lemma live_iff: "attempt_live r \<longleftrightarrow> atr_status r = At_queued \<or> atr_status r = At_running"
  by (auto simp: attempt_live_def LIVE_STATUSES_def)

lemma terminal_iff: "attempt_terminal r \<longleftrightarrow> \<not> attempt_live r"
  by (cases "atr_status r") (auto simp: attempt_terminal_def TERMINAL_STATUSES_def live_iff)

lemma attempt_reads: "attempt_row_ok r \<Longrightarrow> attempt_toRecord r = Inr r"
  by (auto simp: attempt_toRecord_def attempt_row_ok_def terminal_iff validateIso_def optional_checked_def
      split: option.splits)

lemma attempts_wf_Nil [simp, preserves]: "attempts_wf []"
  by (simp add: attempts_wf_def)

lemma find_attempt_key: "attempts_wf db \<Longrightarrow> r \<in> set db \<Longrightarrow> find_attempt db (atr_attempt_id r) = Some r"
  unfolding find_attempt_def by (rule row_get_key) (simp_all add: attempts_wf_def)

lemma find_attempt_SomeD: "find_attempt db i = Some r \<Longrightarrow> r \<in> set db \<and> atr_attempt_id r = i"
  unfolding find_attempt_def by (drule row_get_SomeD) simp

lemma single_live:
  "attempts_wf db \<Longrightarrow> r \<in> set db \<Longrightarrow> s \<in> set db \<Longrightarrow> attempt_live r \<Longrightarrow> attempt_live s
    \<Longrightarrow> same_head (atr_repository s) (atr_pull_request s) (atr_head_sha s) r \<Longrightarrow> r = s"
  by (simp add: attempts_wf_def)

section \<open>How rows evolve\<close>

fun status_rank :: "attempt_status \<Rightarrow> nat" where
  "status_rank At_queued = 0"
| "status_rank At_running = 1"
| "status_rank _ = 2"

definition attempt_evolves :: "attempt_row \<Rightarrow> attempt_row \<Rightarrow> bool" where
  "attempt_evolves r s \<longleftrightarrow> atr_attempt_id s = atr_attempt_id r
     \<and> same_head (atr_repository r) (atr_pull_request r) (atr_head_sha r) s
     \<and> atr_base_branch s = atr_base_branch r \<and> atr_started_at s = atr_started_at r
     \<and> status_rank (atr_status r) \<le> status_rank (atr_status s)
     \<and> (attempt_terminal r \<longrightarrow> s = r)"

definition attempts_evolve :: "attempt_db \<Rightarrow> attempt_db \<Rightarrow> bool" where
  "attempts_evolve db db' \<longleftrightarrow> (\<forall>r \<in> set db. \<exists>s \<in> set db'. attempt_evolves r s)"

lemma status_rank_terminal: "status_rank s = 2 \<longleftrightarrow> s \<in> set TERMINAL_STATUSES"
  by (cases s) (simp_all add: TERMINAL_STATUSES_def)

lemma attempt_evolves_refl [simp]: "attempt_evolves r r"
  by (simp add: attempt_evolves_def same_head_def)

lemma attempt_evolves_trans: "attempt_evolves r s \<Longrightarrow> attempt_evolves s t \<Longrightarrow> attempt_evolves r t"
  unfolding attempt_evolves_def same_head_def by (metis order.trans)

lemma attempts_evolve_refl [simp]: "attempts_evolve db db"
  unfolding attempts_evolve_def using attempt_evolves_refl by blast

lemma attempts_evolve_trans: "attempts_evolve a b \<Longrightarrow> attempts_evolve b c \<Longrightarrow> attempts_evolve a c"
  unfolding attempts_evolve_def by (meson attempt_evolves_trans)

text \<open>A step that rewrites the rows one by one, each forward.\<close>

definition forward_step :: "(attempt_row \<Rightarrow> attempt_row) \<Rightarrow> attempt_row \<Rightarrow> bool" where
  "forward_step f r \<longleftrightarrow> attempt_evolves r (f r) \<and> (attempt_row_ok r \<longrightarrow> attempt_row_ok (f r))"

lemma forward_rows_wf:
  assumes wf: "attempts_wf db" and fwd: "\<And>r. r \<in> set db \<Longrightarrow> P r \<Longrightarrow> forward_step f r"
  shows "attempts_wf (row_update P f db)" "attempts_evolve db (row_update P f db)"
proof -
  let ?g = "\<lambda>r. if P r then f r else r"
  have g: "attempt_evolves r (?g r)" "attempt_row_ok (?g r)" if "r \<in> set db" for r
    using fwd [OF that] wf that by (auto simp: forward_step_def attempts_wf_def)
  have live: "attempt_live (?g r) \<Longrightarrow> attempt_live r" if "r \<in> set db" for r
    using g(1) [OF that] unfolding attempt_evolves_def terminal_iff by metis
  have key: "atr_attempt_id (?g r) = atr_attempt_id r"
    "atr_repository (?g r) = atr_repository r \<and> atr_pull_request (?g r) = atr_pull_request r
       \<and> atr_head_sha (?g r) = atr_head_sha r" if "r \<in> set db" for r
    using g(1) [OF that] unfolding attempt_evolves_def same_head_def by blast+
  have "distinct (map atr_attempt_id (map ?g db))"
    using wf key(1) by (simp add: attempts_wf_def comp_def cong: map_cong)
  moreover have "?g r = ?g s" if "r \<in> set db" "s \<in> set db" "attempt_live (?g r)" "attempt_live (?g s)"
    "same_head (atr_repository (?g s)) (atr_pull_request (?g s)) (atr_head_sha (?g s)) (?g r)" for r s
  proof -
    have "same_head (atr_repository s) (atr_pull_request s) (atr_head_sha s) r"
      using that(5) key(2) [OF that(1)] key(2) [OF that(2)] unfolding same_head_def by simp
    with single_live [OF wf that(1,2) live [OF that(1,3)] live [OF that(2,4)]] show ?thesis by simp
  qed
  ultimately show "attempts_wf (row_update P f db)"
    unfolding attempts_wf_def row_update_def set_map using g(2) by blast
  show "attempts_evolve db (row_update P f db)"
    unfolding attempts_evolve_def row_update_def set_map using g(1) by blast
qed

section \<open>New rows\<close>

lemma add_attempt_cases:
  "add_attempt status request db = (db, Inl Ae_attempt_conflict) \<or> (\<exists>e. add_attempt status request db = (db, Inl e))
   \<or> (\<exists>q. check_new_attempt request = Inr q \<and> attempt_insertable q db \<and> add_attempt status request db =
       (db @ [attempt_of status q], attempt_requireById (db @ [attempt_of status q]) (na_attemptId q)))"
  by (auto simp: add_attempt_def Let_def split: sum.splits)

lemma check_new_attemptD:
  assumes "check_new_attempt request = Inr q"
  shows "trimmed_text MAX_ATTEMPT_ID_CHARS (na_attemptId q)" "date_parse (na_at q) \<noteq> None"
    "na_pullRequest q = na_pullRequest request" "na_headSha q = na_headSha request"
    "na_repository q = js_trim (na_repository request)" "na_attemptId q = js_trim (na_attemptId request)"
  using assms unfolding check_new_attempt_def bind_ok_Inr_iff
  by (auto simp: checked_iffs)

lemma attempt_of_ok:
  assumes "check_new_attempt request = Inr q" "status \<in> set LIVE_STATUSES"
  shows "attempt_row_ok (attempt_of status q)"
  using assms check_new_attemptD [OF assms(1)]
  by (auto simp: attempt_row_ok_def attempt_of_def attempt_live_def)

lemma attempt_of_fields [simp]:
  "atr_attempt_id (attempt_of s q) = na_attemptId q" "atr_repository (attempt_of s q) = na_repository q"
  "atr_pull_request (attempt_of s q) = na_pullRequest q" "atr_head_sha (attempt_of s q) = na_headSha q"
  "atr_status (attempt_of s q) = s"
  by (simp_all add: attempt_of_def)

lemma added_wf:
  assumes wf: "attempts_wf db" and q: "check_new_attempt request = Inr q" "attempt_insertable q db"
    and s: "status \<in> set LIVE_STATUSES"
  shows "attempts_wf (db @ [attempt_of status q])" "attempts_evolve db (db @ [attempt_of status q])"
    "attempt_requireById (db @ [attempt_of status q]) (na_attemptId q) = Inr (attempt_of status q)"
proof -
  let ?new = "attempt_of status q"
  have ok: "attempt_row_ok ?new" by (rule attempt_of_ok [OF q(1) s])
  have fresh: "atr_attempt_id r \<noteq> na_attemptId q" if "r \<in> set db" for r
    using q(2) that by (simp add: attempt_insertable_def)
  have head: "\<not> (attempt_live r \<and> same_head (na_repository q) (na_pullRequest q) (na_headSha q) r)"
    if "r \<in> set db" for r using q(2) that by (simp add: attempt_insertable_def)
  have head': "\<not> (attempt_live r \<and> same_head (atr_repository r) (atr_pull_request r) (atr_head_sha r) ?new)"
    if "r \<in> set db" for r using head [OF that] by (auto simp: same_head_def)
  have "distinct (map atr_attempt_id (db @ [?new]))"
  proof -
    have "na_attemptId q \<notin> set (map atr_attempt_id db)" using fresh by fastforce
    then show ?thesis using wf by (simp add: attempts_wf_def)
  qed
  moreover have "\<forall>r \<in> set (db @ [?new]). attempt_row_ok r" using wf ok by (simp add: attempts_wf_def)
  moreover have "r = s" if "r \<in> set (db @ [?new])" "s \<in> set (db @ [?new])" "attempt_live r" "attempt_live s"
    "same_head (atr_repository s) (atr_pull_request s) (atr_head_sha s) r" for r s
    using that single_live [OF wf, of r s] head [of r] head' [of s] by auto
  ultimately show "attempts_wf (db @ [?new])" unfolding attempts_wf_def by blast
  show "attempts_evolve db (db @ [?new])"
    unfolding attempts_evolve_def using attempt_evolves_refl by fastforce
  have "find_attempt db (na_attemptId q) = None"
    using fresh by (auto simp: find_attempt_def row_get_None_iff)
  then have "find_attempt (db @ [?new]) (na_attemptId q) = Some ?new"
    by (simp add: find_attempt_def row_get_append)
  then show "attempt_requireById (db @ [?new]) (na_attemptId q) = Inr ?new"
    by (simp add: attempt_requireById_def attempt_reads [OF ok])
qed

section \<open>Updated rows\<close>

lemma claim_forward:
  "atr_status r = At_queued \<Longrightarrow> date_parse t = Some y \<Longrightarrow>
     forward_step (\<lambda>r. r\<lparr>atr_status := At_running, atr_heartbeat_at := t,
       atr_workspace_id := coalesce w (atr_workspace_id r)\<rparr>) r"
  by (auto simp: forward_step_def attempt_evolves_def same_head_def attempt_row_ok_def live_iff terminal_iff)

lemma heartbeat_forward:
  "atr_status r = At_running \<Longrightarrow> date_parse t = Some y \<Longrightarrow>
     forward_step (\<lambda>r. r\<lparr>atr_heartbeat_at := t, atr_gate_name := coalesce g (atr_gate_name r)\<rparr>) r"
  by (auto simp: forward_step_def attempt_evolves_def same_head_def attempt_row_ok_def live_iff terminal_iff)

lemma finish_forward:
  "atr_status r = At_running \<Longrightarrow> date_parse t = Some y \<Longrightarrow>
     forward_step (\<lambda>r. r\<lparr>atr_status := (if c then At_completed else At_failed),
       atr_finished_at := Some t, atr_detail := d, atr_receipt_ref := ref\<rparr>) r"
  by (auto simp: forward_step_def attempt_evolves_def same_head_def attempt_row_ok_def live_iff terminal_iff)

lemma interrupt_forward:
  "atr_status r = At_running \<Longrightarrow> date_parse t = Some y \<Longrightarrow> forward_step (interrupted_at t d) r"
  by (auto simp: forward_step_def attempt_evolves_def same_head_def attempt_row_ok_def live_iff terminal_iff
      interrupted_at_def)

text \<open>
  An update either finds the row in the state it needs, changes it and reads it back, or it changes
  nothing and conflicts.
\<close>

lemma update_attempt_found:
  assumes "attempts_wf db" "r \<in> set db" "atr_status r = status"
  shows "update_attempt (atr_attempt_id r) status f db =
    (row_update (\<lambda>x. x = r) f db, True)"
proof -
  have "row_changes (\<lambda>x. atr_attempt_id x = atr_attempt_id r \<and> atr_status x = status) db = 1"
    using row_changes_key [of atr_attempt_id db r "\<lambda>x. atr_status x = status"] assms
    by (simp add: attempts_wf_def)
  moreover have "row_update (\<lambda>x. atr_attempt_id x = atr_attempt_id r \<and> atr_status x = status) f db
      = row_update (\<lambda>x. x = r) f db"
    unfolding row_update_def
    using assms distinct_key_unique [of atr_attempt_id db _ r] by (intro map_cong) (auto simp: attempts_wf_def)
  ultimately show ?thesis by (simp add: update_attempt_def Let_def)
qed

lemma update_attempt_missing:
  assumes "\<And>r. r \<in> set db \<Longrightarrow> atr_attempt_id r = i \<Longrightarrow> atr_status r \<noteq> status"
  shows "update_attempt i status f db = (db, False)"
proof -
  have none: "row_changes (\<lambda>x. atr_attempt_id x = i \<and> atr_status x = status) db = 0"
    using assms by (auto simp: row_changes_0_iff)
  show ?thesis using row_update_unchanged [OF none, of f] none
    unfolding update_attempt_def Let_def by simp
qed

lemma transition_cases:
  assumes wf: "attempts_wf db" and fwd: "\<And>r. r \<in> set db \<Longrightarrow> atr_status r = status \<Longrightarrow> forward_step f r"
  obtains (done_) r where "r \<in> set db" "atr_attempt_id r = i" "atr_status r = status"
      "transition_attempt i status f db = (row_update (\<lambda>x. x = r) f db, Inr (f r))"
    | (conflict_) "\<forall>r \<in> set db. atr_attempt_id r = i \<longrightarrow> atr_status r \<noteq> status"
      "transition_attempt i status f db = (db, Inl Ae_attempt_conflict)"
proof (cases "\<exists>r \<in> set db. atr_attempt_id r = i \<and> atr_status r = status")
  case True
  then obtain r where r: "r \<in> set db" "atr_attempt_id r = i" "atr_status r = status" by blast
  let ?db' = "row_update (\<lambda>x. x = r) f db"
  have f: "forward_step f r" using fwd r by blast
  have wf': "attempts_wf ?db'"
    by (rule forward_rows_wf(1) [OF wf]) (use f in simp)
  have mem: "f r \<in> set ?db'" using r(1) by (auto simp: set_row_update)
  have "atr_attempt_id (f r) = i" using f r(2) by (simp add: forward_step_def attempt_evolves_def)
  then have "find_attempt ?db' i = Some (f r)" using find_attempt_key [OF wf' mem] by simp
  moreover have "attempt_row_ok (f r)" using wf' mem by (simp add: attempts_wf_def)
  ultimately have "attempt_requireById ?db' i = Inr (f r)"
    by (simp add: attempt_requireById_def attempt_reads)
  then have "transition_attempt i status f db = (?db', Inr (f r))"
    using update_attempt_found [OF wf r(1,3), of f] by (simp add: transition_attempt_def r(2))
  with r show ?thesis using done_ by blast
next
  case False
  then have "transition_attempt i status f db = (db, Inl Ae_attempt_conflict)"
    using update_attempt_missing [of db i status f] by (auto simp: transition_attempt_def)
  then show ?thesis using conflict_ False by blast
qed

lemma transition_wf:
  assumes wf: "attempts_wf db" and fwd: "\<And>r. r \<in> set db \<Longrightarrow> atr_status r = status \<Longrightarrow> forward_step f r"
  shows "attempts_wf (fst (transition_attempt i status f db))"
    "attempts_evolve db (fst (transition_attempt i status f db))"
proof -
  have "fst (transition_attempt i status f db) = row_update (\<lambda>r. atr_attempt_id r = i \<and> atr_status r = status) f db"
    by (simp add: transition_attempt_def update_attempt_def Let_def)
  then show "attempts_wf (fst (transition_attempt i status f db))"
    "attempts_evolve db (fst (transition_attempt i status f db))"
    using forward_rows_wf [OF wf, of "\<lambda>r. atr_attempt_id r = i \<and> atr_status r = status" f] fwd by auto
qed

section \<open>Every operation keeps the invariant\<close>

datatype attempt_op =
  Atp_begin new_attempt
| Atp_enqueue new_attempt
| Atp_claim string iso "string option"
| Atp_heartbeat string iso "string option"
| Atp_finish string finish_attempt
| Atp_interrupt string iso string
| Atp_reap iso int

fun attempt_step :: "attempt_db \<Rightarrow> attempt_op \<Rightarrow> attempt_db" where
  "attempt_step db (Atp_begin q) = fst (beginAttempt q db)"
| "attempt_step db (Atp_enqueue q) = fst (enqueueAttempt q db)"
| "attempt_step db (Atp_claim i t w) = fst (claimQueued i t w db)"
| "attempt_step db (Atp_heartbeat i t g) = fst (heartbeatAttempt i t g db)"
| "attempt_step db (Atp_finish i q) = fst (finishAttempt i q db)"
| "attempt_step db (Atp_interrupt i t d) = fst (markInterrupted i t d db)"
| "attempt_step db (Atp_reap now k) = fst (reapStale now k db)"

definition attempt_moves :: "attempt_db \<Rightarrow> attempt_db \<Rightarrow> bool" where
  "attempt_moves db db' \<longleftrightarrow> attempts_wf db' \<and> attempts_evolve db db'"

lemma moves_refl: "attempts_wf db \<Longrightarrow> attempt_moves db db"
  by (simp add: attempt_moves_def)

lemma added_moves:
  assumes "attempts_wf db" "status \<in> set LIVE_STATUSES"
  shows "attempt_moves db (fst (add_attempt status request db))"
proof -
  consider "fst (add_attempt status request db) = db"
    | q where "check_new_attempt request = Inr q" "attempt_insertable q db"
        "fst (add_attempt status request db) = db @ [attempt_of status q]"
    using add_attempt_cases [of status request db] by fastforce
  then show ?thesis
    using added_wf(1,2) [OF assms(1) _ _ assms(2)] moves_refl [OF assms(1)]
    by cases (auto simp: attempt_moves_def)
qed

lemma transition_moves:
  "attempts_wf db \<Longrightarrow> (\<And>r. r \<in> set db \<Longrightarrow> atr_status r = status \<Longrightarrow> forward_step f r)
    \<Longrightarrow> attempt_moves db (fst (transition_attempt i status f db))"
  using transition_wf by (simp add: attempt_moves_def)

lemma claim_moves: "attempts_wf db \<Longrightarrow> attempt_moves db (fst (claimQueued i t w db))"
  unfolding claimQueued_def
  by (auto simp: checked_iffs moves_refl split: sum.split intro!: transition_moves claim_forward)

lemma finish_moves:
  assumes "attempts_wf db"
  shows "attempt_moves db (fst (finishAttempt i q db))"
proof (cases "bind_ok (requiredBounded Ae_invalid_attempt i MAX_ATTEMPT_ID_CHARS) (\<lambda>i.
           bind_ok (validateIso Ae_invalid_attempt (fa_finishedAt q)) (\<lambda>t.
           bind_ok (optional_checked (\<lambda>s. requiredBounded Ae_invalid_attempt s MAX_ATTEMPT_DETAIL_CHARS)
             (fa_detail q)) (\<lambda>d.
           bind_ok (optional_checked (\<lambda>s. requiredBounded Ae_invalid_attempt s MAX_RECEIPT_REF_CHARS)
             (fa_receiptRef q)) (\<lambda>ref. Inr (i, t, d, ref)))))")
  case (Inl e)
  then show ?thesis using moves_refl [OF assms] by (simp add: finishAttempt_def)
next
  case (Inr checked)
  obtain j t d ref where c: "checked = (j, t, d, ref)" by (cases checked)
  obtain y where y: "date_parse t = Some y"
    using Inr unfolding c by (auto simp: bind_ok_Inr_iff validateIso_Inr_iff)
  show ?thesis
    using transition_moves [OF assms finish_forward [OF _ y]] Inr unfolding finishAttempt_def c by simp
qed

lemma interrupt_moves: "attempts_wf db \<Longrightarrow> attempt_moves db (fst (markInterrupted i t d db))"
  unfolding markInterrupted_def
  by (auto simp: checked_iffs moves_refl split: sum.split intro!: transition_moves interrupt_forward)

lemma row_update_moves:
  "attempts_wf db \<Longrightarrow> (\<And>r. P r \<Longrightarrow> forward_step f r) \<Longrightarrow> attempt_moves db (row_update P f db)"
  using forward_rows_wf [of db P f] by (simp add: attempt_moves_def)

lemma heartbeat_moves: "attempts_wf db \<Longrightarrow> attempt_moves db (fst (heartbeatAttempt i t g db))"
  unfolding heartbeatAttempt_def update_attempt_def Let_def
  by (auto simp: checked_iffs moves_refl split: sum.split intro!: row_update_moves heartbeat_forward)

lemma reap_loop_moves:
  assumes "attempts_wf db" "date_parse now = Some y"
  shows "attempt_moves db (fst (reap_loop now cutoff detail ids db reaped))"
  using assms(1)
proof (induction ids arbitrary: db reaped)
  case Nil
  then show ?case by (simp add: moves_refl)
next
  case (Cons i ids)
  let ?db' = "row_update (\<lambda>r. atr_attempt_id r = i \<and> attempt_stale cutoff r) (interrupted_at now detail) db"
  have step: "attempt_moves db ?db'"
    by (rule row_update_moves [OF Cons.prems])
      (use interrupt_forward [OF _ assms(2)] in \<open>simp add: attempt_stale_def\<close>)
  then have "attempt_moves ?db' (fst (reap_loop now cutoff detail ids ?db' rs))" for rs
    using Cons.IH [of ?db'] by (simp add: attempt_moves_def)
  with step show ?case
    unfolding reap_loop.simps Let_def attempt_moves_def using attempts_evolve_trans by blast
qed

lemma reap_moves: "attempts_wf db \<Longrightarrow> attempt_moves db (fst (reapStale now k db))"
proof (cases "stale_cutoff now k")
  case (Inl e)
  then show "attempts_wf db \<Longrightarrow> ?thesis" by (simp add: reapStale_def moves_refl)
next
  case (Inr cutoff)
  then obtain y where "date_parse now = Some y" by (auto simp: stale_cutoff_def checked_iffs)
  then show "attempts_wf db \<Longrightarrow> ?thesis"
    using reap_loop_moves [of db now y] by (simp add: reapStale_def Inr Let_def case_prod_beta)
qed

lemma attempt_op_moves: "attempts_wf db \<Longrightarrow> attempt_moves db (attempt_step db op)"
  by (cases op) (simp_all add: beginAttempt_def enqueueAttempt_def added_moves LIVE_STATUSES_def claim_moves
      heartbeat_moves finish_moves interrupt_moves reap_moves)

interpretation attempts: progress_machine attempt_step attempts_wf attempts_evolve
  by unfold_locales (use attempt_op_moves attempts_evolve_trans in \<open>auto simp: attempt_moves_def\<close>)

section \<open>Claiming a queued attempt\<close>

text \<open>A claim either finds the attempt queued and answers its row as running, or it changes nothing.\<close>

lemma claim_outcome:
  assumes wf: "attempts_wf db"
  obtains (claimed) r rec where "r \<in> set db" "atr_status r = At_queued" "atr_attempt_id r = js_trim i"
      "atr_status rec = At_running" "attempt_evolves r rec" "rec \<in> set (fst (claimQueued i t w db))"
      "snd (claimQueued i t w db) = Inr rec"
    | (refused) e where "claimQueued i t w db = (db, Inl e)"
proof (cases "bind_ok (requiredBounded Ae_invalid_attempt i MAX_ATTEMPT_ID_CHARS) (\<lambda>i.
           bind_ok (validateIso Ae_invalid_attempt t) (\<lambda>t.
           bind_ok (optional_checked (\<lambda>s. requiredBounded Ae_invalid_attempt s MAX_WORKSPACE_ID_CHARS)
             w) (\<lambda>w. Inr (i, t, w))))")
  case (Inl e)
  then show ?thesis using refused by (simp add: claimQueued_def)
next
  case (Inr checked)
  obtain j u v where c: "checked = (j, u, v)" by (cases checked)
  let ?f = "\<lambda>r :: attempt_row. r\<lparr>atr_status := At_running, atr_heartbeat_at := u,
       atr_workspace_id := coalesce v (atr_workspace_id r)\<rparr>"
  obtain y where y: "date_parse u = Some y" and j: "j = js_trim i"
    using Inr unfolding c by (auto simp: bind_ok_Inr_iff checked_iffs)
  have eq: "claimQueued i t w db = transition_attempt j At_queued ?f db"
    using Inr by (simp add: claimQueued_def c)
  show ?thesis
  proof (rule transition_cases [OF wf, of At_queued ?f j])
    fix r :: attempt_row assume "atr_status r = At_queued" then show "forward_step ?f r" using claim_forward y by blast
  next
    fix r assume r: "r \<in> set db" "atr_attempt_id r = j" "atr_status r = At_queued"
      "transition_attempt j At_queued ?f db = (row_update (\<lambda>x. x = r) ?f db, Inr (?f r))"
    have "attempt_evolves r (?f r)" using claim_forward [OF r(3) y] by (simp add: forward_step_def)
    moreover have "?f r \<in> set (row_update (\<lambda>x. x = r) ?f db)" using r(1) by (auto simp: set_row_update)
    ultimately show ?thesis
      using claimed [of r "?f r"] r eq j by simp
  next
    assume "transition_attempt j At_queued ?f db = (db, Inl Ae_attempt_conflict)"
    then show ?thesis using refused eq by simp
  qed
qed

text \<open>Once claimed, an attempt is claimed by nobody again.\<close>

lemma claimed_once:
  assumes wf: "attempts_wf db" and c: "claimQueued i t w db = (db', Inr rec)"
    and i: "js_trim i' = js_trim i"
  shows "\<exists>e. claimQueued i' t' w' (run_ops attempt_step db' ops) = (run_ops attempt_step db' ops, Inl e)"
proof -
  let ?later = "run_ops attempt_step db' ops"
  have wf': "attempts_wf db'" using claim_moves [OF wf, of i t w] c by (simp add: attempt_moves_def)
  have later: "attempts_wf ?later" by (rule attempts.run_inv [OF wf'])
  obtain s where s: "s \<in> set ?later" "atr_attempt_id s = js_trim i" "atr_status s \<noteq> At_queued"
  proof (rule claim_outcome [OF wf, of i t w])
    fix r rec' assume r: "atr_attempt_id r = js_trim i" "atr_status rec' = At_running" "attempt_evolves r rec'"
      "rec' \<in> set (fst (claimQueued i t w db))"
    then obtain s where "s \<in> set ?later" "attempt_evolves rec' s"
      using attempts.run_rel [OF wf', of ops] c unfolding attempts_evolve_def by auto
    moreover have "atr_status s \<noteq> At_queued" "atr_attempt_id s = js_trim i"
      using calculation(2) r(1-3) by (auto simp: attempt_evolves_def)
    ultimately show thesis using that by blast
  qed (use c in simp)
  show ?thesis
  proof (rule claim_outcome [OF later, of i' t' w'])
    fix r assume "r \<in> set ?later" "atr_status r = At_queued" "atr_attempt_id r = js_trim i'"
    then have "r = s" using find_attempt_key [OF later] s i by (metis option.inject)
    then show ?thesis using \<open>atr_status r = At_queued\<close> s(3) by simp
  qed blast
qed

end
