(* ===== verification/Merge_Services.thy ===== *)
theory Merge_Services
  imports Merge_Reconciliation Merge_Attempts_Safety
begin

text \<open>
  The services over the merge stores: \<open>GuardedMergeService.dispatch\<close>
  (packages/application/src/guarded-merge-service.ts), which merges only on evidence, the three
  reconciliation services (packages/application/src/merge-reconciliation-service.ts), and the
  observation of a pull request (apps/cli/src/runtime/github-merge-observer.ts). The provider that
  performs the merge and GitHub's answers are parameters. The ellipsis the sources append to cut texts is
  no code unit below 256; the model writes it as 0x85, its code in Windows-1252.
\<close>

definition ELLIPSIS :: char where "ELLIPSIS = CHR 0x85"

section \<open>The detail of a failed dispatch\<close>

definition MAX_DISPATCH_DETAIL_CHARS :: nat where "MAX_DISPATCH_DETAIL_CHARS = 400"
definition REDACTED_TOKEN :: string where "REDACTED_TOKEN = ''[redacted-token]''"

definition word_char :: "char \<Rightarrow> bool" where
  "word_char c \<longleftrightarrow> (let n = of_char c :: nat
     in (48 \<le> n \<and> n \<le> 57) \<or> (65 \<le> n \<and> n \<le> 90) \<or> (97 \<le> n \<and> n \<le> 122) \<or> n = 95)"

text \<open>
  \<open>replace\<close> with a global pattern: the matcher is told whether the previous code unit is a word
  character and answers the length of the match at the front, 0 when there is none. The counter skips
  the code units of a match that was replaced.
\<close>

fun replace_all :: "(bool \<Rightarrow> string \<Rightarrow> nat) \<Rightarrow> string \<Rightarrow> nat \<Rightarrow> bool \<Rightarrow> string \<Rightarrow> string" where
  "replace_all match new k before [] = []"
| "replace_all match new (Suc k) before (c # cs) = replace_all match new k (word_char c) cs"
| "replace_all match new 0 before (c # cs) =
     (case match before (c # cs) of
        0 \<Rightarrow> c # replace_all match new 0 (word_char c) cs
      | Suc n \<Rightarrow> new @ replace_all match new n (word_char c) cs)"

definition TOKEN_PREFIXES :: "string list" where
  "TOKEN_PREFIXES = [''ghp_'', ''gho_'', ''ghu_'', ''ghs_'', ''ghr_'', ''github_pat_'']"

definition match_github_token :: "bool \<Rightarrow> string \<Rightarrow> nat" where
  "match_github_token before s =
     (case filter (\<lambda>p. take (length p) s = p) TOKEN_PREFIXES of
        [] \<Rightarrow> 0
      | p # _ \<Rightarrow>
          (let run = length (takeWhile word_char (drop (length p) s))
           in if \<not> before \<and> 20 \<le> run then length p + run else 0))"

definition bearer_char :: "char \<Rightarrow> bool" where
  "bearer_char c \<longleftrightarrow> (word_char c \<or> c \<in> set ''.~+/-'')"

definition match_bearer :: "bool \<Rightarrow> string \<Rightarrow> nat" where
  "match_bearer before s =
     (let gap = length (takeWhile js_space (drop 6 s));
          run = length (takeWhile bearer_char (drop (6 + gap) s));
          pad = length (takeWhile (\<lambda>c. c = CHR ''='') (drop (6 + gap + run) s))
      in if \<not> before \<and> js_lower (take 6 s) = ''bearer'' \<and> 0 < gap \<and> 12 \<le> run
         then 6 + gap + run + pad else 0)"

fun collapse_spaces :: "bool \<Rightarrow> string \<Rightarrow> string" where
  "collapse_spaces seen [] = []"
| "collapse_spaces seen (c # cs) =
     (if js_space c then (if seen then collapse_spaces True cs else CHR '' '' # collapse_spaces True cs)
      else c # collapse_spaces False cs)"

definition blank_control :: "char \<Rightarrow> char" where
  "blank_control c = (if (of_char c :: nat) < 32 \<or> (of_char c :: nat) = 127 then CHR '' '' else c)"

text \<open>The message of the thrown value, if it has one: an Error or a string.\<close>

definition dispatchFailureDetail :: "string option \<Rightarrow> string option" where
  "dispatchFailureDetail raw = (case raw of
     None \<Rightarrow> None
   | Some message \<Rightarrow>
       (let spaced = js_trim (collapse_spaces False (map blank_control message));
            sanitized = replace_all match_bearer REDACTED_TOKEN 0 False
              (replace_all match_github_token REDACTED_TOKEN 0 False spaced)
        in if sanitized = [] then None
           else if length sanitized \<le> MAX_DISPATCH_DETAIL_CHARS then Some sanitized
           else Some (take (MAX_DISPATCH_DETAIL_CHARS - 1) sanitized @ [ELLIPSIS])))"

lemma dispatch_detail_bounded:
  "dispatchFailureDetail raw = Some d \<Longrightarrow> d \<noteq> [] \<and> length d \<le> MAX_DISPATCH_DETAIL_CHARS"
  by (auto simp: dispatchFailureDetail_def Let_def MAX_DISPATCH_DETAIL_CHARS_def
      split: option.splits if_splits)

section \<open>The guarded merge\<close>

record merge_dispatch =
  md_receiptRef :: string
  md_subject :: merge_subject
  md_mergeMethod :: merge_method

record guarded_request =
  gq_policy :: merge_policy
  gq_subject :: merge_subject
  gq_receiptRef :: string

datatype guarded_inspect =
  Gi_invalid_receipt_ref | Gi_receipt_store_error | Gi_receipt_identity_mismatch | Gi_merge_dispatch_error

datatype guarded_result =
  Guarded_blocked string merge_decision
| Guarded_dispatched string merge_subject
| Guarded_inspect guarded_inspect string "string option"

text \<open>What a reader of receipts answers: a failure, or the reference and the receipt of a record.\<close>

type_synonym receipt_reader = "string \<Rightarrow> unit + (string \<times> merge_receipt) option"

definition stored_receipt :: "receipt_db \<Rightarrow> receipt_reader" where
  "stored_receipt db ref = (case getReceiptByRef ref db of
     Inl _ \<Rightarrow> Inl ()
   | Inr rec \<Rightarrow> Inr (map_option (\<lambda>r. (rcc_receiptRef r, rcc_receipt r)) rec))"

text \<open>
  \<open>dispatch\<close>: the second component lists the calls of the port, whose answer is either nothing or the
  message of what it threw.
\<close>

definition guardedDispatch ::
  "receipt_reader \<Rightarrow> (merge_dispatch \<Rightarrow> string option + unit) \<Rightarrow> guarded_request
     \<Rightarrow> guarded_result \<times> merge_dispatch list" where
  "guardedDispatch getByRef port request =
     (let ref = js_trim (gq_receiptRef request)
      in if ref = [] then (Guarded_inspect Gi_invalid_receipt_ref ref None, [])
         else case getByRef ref of
           Inl _ \<Rightarrow> (Guarded_inspect Gi_receipt_store_error ref None, [])
         | Inr found \<Rightarrow>
             if found \<noteq> None \<and> map_option fst found \<noteq> Some ref
             then (Guarded_inspect Gi_receipt_identity_mismatch ref None, [])
             else (case evaluateMergeEvidence (gq_policy request) (gq_subject request) (map_option snd found) of
                 Merge_blocked bs \<Rightarrow> (Guarded_blocked ref (Merge_blocked bs), [])
               | Merge_allowed \<Rightarrow>
                   (let call = \<lparr>md_receiptRef = ref, md_subject = gq_subject request,
                       md_mergeMethod = (case mp_mergeMethod (gq_policy request) of
                         None \<Rightarrow> Mm_merge | Some m \<Rightarrow> m)\<rparr>
                    in (case port call of
                          Inl raw \<Rightarrow> (Guarded_inspect Gi_merge_dispatch_error ref (dispatchFailureDetail raw), [call])
                        | Inr _ \<Rightarrow> (Guarded_dispatched ref (gq_subject request), [call])))))"

text \<open>The calls of the port: one when the stored receipt under the reference is sufficient, else none.\<close>

lemma guarded_calls:
  "snd (guardedDispatch getByRef port request) = [call] \<longleftrightarrow>
     (let ref = js_trim (gq_receiptRef request)
      in ref \<noteq> [] \<and> (\<exists>r. getByRef ref = Inr (Some (ref, r))
           \<and> merge_evidence_ok (gq_policy request) (gq_subject request) r)
         \<and> call = \<lparr>md_receiptRef = ref, md_subject = gq_subject request,
             md_mergeMethod = (case mp_mergeMethod (gq_policy request) of None \<Rightarrow> Mm_merge | Some m \<Rightarrow> m)\<rparr>)"
proof -
  let ?ref = "js_trim (gq_receiptRef request)"
  show ?thesis
  proof (cases "\<exists>r. ?ref \<noteq> [] \<and> getByRef ?ref = Inr (Some (?ref, r))")
    case True
    then obtain r where r: "?ref \<noteq> []" "getByRef ?ref = Inr (Some (?ref, r))" by blast
    show ?thesis
    proof (cases "merge_evidence_ok (gq_policy request) (gq_subject request) r")
      case True
      then have "evaluateMergeEvidence (gq_policy request) (gq_subject request) (Some r) = Merge_allowed"
        by (simp add: evaluate_allows_iff)
      then show ?thesis using r True by (auto simp: guardedDispatch_def Let_def split: sum.splits)
    next
      case False
      then have "evaluateMergeEvidence (gq_policy request) (gq_subject request) (Some r) \<noteq> Merge_allowed"
        by (simp add: evaluate_allows_iff)
      then show ?thesis using r False
        by (cases "evaluateMergeEvidence (gq_policy request) (gq_subject request) (Some r)")
          (auto simp: guardedDispatch_def Let_def)
    qed
  next
    case none: False
    have "snd (guardedDispatch getByRef port request) = []"
    proof (cases "getByRef ?ref")
      case (Inl e)
      then show ?thesis by (simp add: guardedDispatch_def Let_def)
    next
      case (Inr found)
      show ?thesis
      proof (cases found)
        case None
        have "\<exists>bs. evaluateMergeEvidence (gq_policy request) (gq_subject request) None = Merge_blocked bs"
          by (simp add: evaluateMergeEvidence_def)
        with Inr None show ?thesis by (auto simp: guardedDispatch_def Let_def)
      next
        case (Some p)
        with none Inr have "?ref = [] \<or> fst p \<noteq> ?ref" by (cases p) auto
        then show ?thesis using Inr Some by (auto simp: guardedDispatch_def Let_def)
      qed
    qed
    with none show ?thesis by (auto simp: Let_def)
  qed
qed

lemma guarded_at_most_one: "snd (guardedDispatch getByRef port request) = []
    \<or> (\<exists>call. snd (guardedDispatch getByRef port request) = [call])"
  by (auto simp: guardedDispatch_def Let_def split: sum.splits merge_decision.splits)

section \<open>Observing a merge\<close>

text \<open>Whether a text has the form owner/repo. Each reader of GitHub has its own copy of this check.\<close>

definition repositoryCoordinates :: "string \<Rightarrow> bool" where
  "repositoryCoordinates value =
     (let trimmed = js_trim value;
          owner = takeWhile (\<lambda>c. c \<noteq> CHR ''/'') trimmed;
          rest = drop (length owner) trimmed
      in owner \<noteq> [] \<and> 2 \<le> length rest \<and> CHR ''/'' \<notin> set (tl rest))"

text \<open>
  The commit GitHub reports for a merged pull request: its parents and its message. The first line of
  the message ends with the number of the pull request after a squash.
\<close>

record merge_commit =
  mc_parents :: "string list"
  mc_message :: "string option"

definition first_line :: "string \<Rightarrow> string" where
  "first_line s = takeWhile (\<lambda>c. c \<noteq> CHR 0x0A) s"

definition ends_with :: "string \<Rightarrow> string \<Rightarrow> bool" where
  "ends_with s e \<longleftrightarrow> length e \<le> length s \<and> drop (length s - length e) s = e"

definition isSquashCommitMessage :: "string option \<Rightarrow> int \<Rightarrow> bool" where
  "isSquashCommitMessage message pullRequest = (case message of
     None \<Rightarrow> False
   | Some m \<Rightarrow> ends_with (js_trim (first_line m)) (''(#'' @ int_string pullRequest @ '')''))"

definition observed_method :: "string \<Rightarrow> int \<Rightarrow> merge_commit \<Rightarrow> merge_method option" where
  "observed_method headSha pullRequest cm =
     (if length (mc_parents cm) = 2 \<and> headSha \<in> set (mc_parents cm) then Some Mm_merge
      else if length (mc_parents cm) = 1 \<and> hd (mc_parents cm) \<noteq> headSha
              \<and> isSquashCommitMessage (mc_message cm) pullRequest
      then Some Mm_squash else None)"

text \<open>
  The pull request as GitHub reports it. Fields of the wrong JSON type make the observer throw, as the
  checks written out here do; an answer that has them is \<open>Inl\<close>.
\<close>

record raw_observed =
  ro_number :: int
  ro_full_name :: string
  ro_head_sha :: string
  ro_base_sha :: string
  ro_base_ref :: string
  ro_is_merged :: bool
  ro_merged_at :: iso
  ro_updated_at :: iso
  ro_merge_commit_sha :: "string option"

definition observer_sha :: "string \<Rightarrow> unit + string" where
  "observer_sha s = bind_ok (requiredBounded () s 128) (\<lambda>t. if is_sha_any_case t then Inr t else Inl ())"

text \<open>The commit: its SHA as reported, the SHAs of its parents, and its message.\<close>

definition read_merge_commit :: "string \<Rightarrow> unit + string \<times> merge_commit \<Rightarrow> unit + merge_commit" where
  "read_merge_commit mergeSha answer = bind_ok answer (\<lambda>(sha, cm).
     if sha \<noteq> mergeSha then Inl ()
     else bind_ok (map_ok observer_sha (mc_parents cm)) (\<lambda>parents. Inr (cm\<lparr>mc_parents := parents\<rparr>)))"

definition read_merge_method ::
  "(string \<Rightarrow> unit + string \<times> merge_commit) \<Rightarrow> string \<Rightarrow> int \<Rightarrow> string option \<Rightarrow> unit + merge_method option" where
  "read_merge_method getCommit headSha pullRequest mergeSha = (case mergeSha of
     None \<Rightarrow> Inr None
   | Some sha \<Rightarrow> bind_ok (read_merge_commit sha (getCommit sha)) (\<lambda>cm. Inr (observed_method headSha pullRequest cm)))"

definition githubObserve ::
  "(unit + raw_observed) \<Rightarrow> (string \<Rightarrow> unit + string \<times> merge_commit) \<Rightarrow> string \<Rightarrow> int \<Rightarrow> unit + merge_observation" where
  "githubObserve answer getCommit repository pullRequest =
     bind_ok (if repositoryCoordinates repository then answer else Inl ()) (\<lambda>pull.
     if ro_number pull \<noteq> pullRequest \<or> ro_full_name pull \<noteq> repository then Inl ()
     else
       bind_ok (observer_sha (ro_head_sha pull)) (\<lambda>headSha.
       bind_ok (observer_sha (ro_base_sha pull)) (\<lambda>baseSha.
       bind_ok (requiredBounded () (ro_base_ref pull) 256) (\<lambda>baseBranch.
       bind_ok (validateIso () (if ro_is_merged pull then ro_merged_at pull else ro_updated_at pull)) (\<lambda>observedAt.
       let seen = (\<lambda>mergeMethod mergeSha. \<lparr>mo_repository = repository, mo_pullRequest = pullRequest,
             mo_headSha = headSha, mo_baseBranch = baseBranch, mo_baseSha = Some baseSha,
             mo_merged = ro_is_merged pull, mo_mergeMethod = mergeMethod, mo_mergeSha = mergeSha,
             mo_observedAt = observedAt\<rparr>)
       in if \<not> ro_is_merged pull then Inr (seen None None)
          else bind_ok (optional_checked observer_sha (ro_merge_commit_sha pull)) (\<lambda>mergeSha.
               bind_ok (read_merge_method getCommit headSha pullRequest mergeSha) (\<lambda>mergeMethod.
                 Inr (seen mergeMethod mergeSha))))))))"

text \<open>
  What an observation says of the method: a merge commit has two parents, one of them the head; a squash
  is one commit, not on the head, that carries the number. A rebase is never proven.
\<close>

lemma observed_method_cases:
  assumes "observed_method headSha n cm = Some mm"
  shows "mm = Mm_merge \<and> length (mc_parents cm) = 2 \<and> headSha \<in> set (mc_parents cm)
    \<or> mm = Mm_squash \<and> length (mc_parents cm) = 1 \<and> headSha \<notin> set (mc_parents cm)
       \<and> isSquashCommitMessage (mc_message cm) n"
  using assms by (cases "mc_parents cm") (auto simp: observed_method_def split: if_splits)

lemma observe_method:
  assumes "githubObserve answer getCommit repository n = Inr obs" "mo_mergeMethod obs = Some mm"
  obtains sha cm where "mo_merged obs" "mo_mergeSha obs = Some sha" "read_merge_commit sha (getCommit sha) = Inr cm"
    "observed_method (mo_headSha obs) n cm = Some mm"
  using assms unfolding githubObserve_def bind_ok_Inr_iff read_merge_method_def
  by (auto simp: bind_ok_Inr_iff Let_def split: if_splits option.splits intro: that)

lemma observed_never_rebase: "githubObserve answer getCommit repository n = Inr obs \<Longrightarrow> mo_mergeMethod obs \<noteq> Some Mm_rebase"
  by (rule notI, erule (1) observe_method) (auto simp: observed_method_def split: if_splits)

section \<open>Reconciling\<close>

datatype merge_inspect_reason =
  Mir_receipt_store_error | Mir_receipt_identity_mismatch | Mir_reconciliation_store_error
| Mir_reconciliation_ref_conflict | Mir_reason merge_reason | Mir_merge_observation_error

datatype merge_result =
  Mres_reconciled merge_record
| Mres_policy_breach merge_record
| Mres_inspect_required merge_inspect_reason "string option" "merge_record option"

record merge_request =
  mq_policy :: merge_policy
  mq_expectedMergeMethod :: merge_method
  mq_observation :: merge_observation
  mq_receiptRef :: "string option"

definition reconciliationRef :: "merge_observation \<Rightarrow> string" where
  "reconciliationRef obs =
     ''merge-reconciliation:'' @ mo_repository obs @ ''#'' @ int_string (mo_pullRequest obs) @ ''@''
       @ (case mo_mergeSha obs of None \<Rightarrow> mo_headSha obs | Some s \<Rightarrow> s)"

definition evidencePolicy :: "merge_policy \<Rightarrow> merge_policy" where
  "evidencePolicy policy = policy\<lparr>mp_checkoutPath := None\<rparr>"

definition record_of_request :: "merge_request \<Rightarrow> string option \<Rightarrow> merge_receipt option \<Rightarrow> iso \<Rightarrow> merge_record" where
  "record_of_request q receiptRef receipt now =
     \<lparr>mr2_reconciliationRef = reconciliationRef (mq_observation q), mr2_receiptRef = receiptRef,
      mr2_receipt = receipt, mr2_policy = evidencePolicy (mq_policy q),
      mr2_expectedMergeMethod = mq_expectedMergeMethod q, mr2_observation = mq_observation q,
      mr2_decision = reconcileMergeEvidence (mq_policy q) (mq_observation q) receipt (mq_expectedMergeMethod q),
      mr2_recordedAt = now\<rparr>"

definition store_reconciliation ::
  "merge_request \<Rightarrow> string option \<Rightarrow> merge_receipt option \<Rightarrow> iso \<Rightarrow> merge_record_db
     \<Rightarrow> merge_record_db \<times> merge_result" where
  "store_reconciliation q receiptRef receipt now db =
     (let rec = record_of_request q receiptRef receipt now
      in case appendMerge rec db of
           (db', Inl (Mse_ref_conflict persisted)) \<Rightarrow>
             (db', Mres_inspect_required Mir_reconciliation_ref_conflict receiptRef (Some persisted))
         | (db', Inl _) \<Rightarrow> (db', Mres_inspect_required Mir_reconciliation_store_error receiptRef None)
         | (db', Inr result) \<Rightarrow>
             (let persisted = mhr_record (amr_record result)
              in (db', case mj_status (mr2_decision rec) of
                    Mst_reconciled \<Rightarrow> Mres_reconciled persisted
                  | Mst_policy_breach \<Rightarrow> Mres_policy_breach persisted
                  | Mst_inspect_required \<Rightarrow>
                      Mres_inspect_required (Mir_reason (mj_reason (mr2_decision rec))) None (Some persisted))))"

definition reconcileMerge ::
  "receipt_reader \<Rightarrow> iso \<Rightarrow> merge_request \<Rightarrow> merge_record_db \<Rightarrow> merge_record_db \<times> merge_result" where
  "reconcileMerge getByRef now q db = (case map_option js_trim (mq_receiptRef q) of
     None \<Rightarrow> store_reconciliation q None None now db
   | Some ref \<Rightarrow> (case getByRef ref of
        Inl _ \<Rightarrow> (db, Mres_inspect_required Mir_receipt_store_error (Some ref) None)
      | Inr found \<Rightarrow>
          if found \<noteq> None \<and> map_option fst found \<noteq> Some ref
          then (db, Mres_inspect_required Mir_receipt_identity_mismatch (Some ref) None)
          else store_reconciliation q (Some ref) (map_option snd found) now db))"

record observed_request =
  oq_policy :: merge_policy
  oq_repository :: string
  oq_pullRequest :: int
  oq_expectedMergeMethod :: merge_method
  oq_receiptRef :: "string option"

text \<open>The observer answers or throws.\<close>

definition reconcileObserved ::
  "(unit + merge_observation) \<Rightarrow> receipt_reader \<Rightarrow> iso \<Rightarrow> observed_request \<Rightarrow> merge_record_db
     \<Rightarrow> merge_record_db \<times> merge_result" where
  "reconcileObserved observed getByRef now q db = (case observed of
     Inl _ \<Rightarrow> (db, Mres_inspect_required Mir_merge_observation_error (oq_receiptRef q) None)
   | Inr obs \<Rightarrow> reconcileMerge getByRef now \<lparr>mq_policy = oq_policy q,
        mq_expectedMergeMethod = oq_expectedMergeMethod q, mq_observation = obs,
        mq_receiptRef = oq_receiptRef q\<rparr> db)"

text \<open>The receipt the automatic service picks: the newest sufficient one, else the newest.\<close>

definition select_receipt :: "merge_policy \<Rightarrow> merge_subject \<Rightarrow> receipt_record list \<Rightarrow> receipt_record option" where
  "select_receipt policy subject receipts =
     (case find (\<lambda>r. evaluateMergeEvidence policy subject (Some (rcc_receipt r)) = Merge_allowed) receipts of
        Some r \<Rightarrow> Some r
      | None \<Rightarrow> (case receipts of [] \<Rightarrow> None | r # _ \<Rightarrow> Some r))"

definition reconcileAutomatically ::
  "(unit + merge_observation) \<Rightarrow> receipt_db \<Rightarrow> iso \<Rightarrow> observed_request \<Rightarrow> merge_record_db
     \<Rightarrow> merge_record_db \<times> merge_result" where
  "reconcileAutomatically observed receipts now q db = (case observed of
     Inl _ \<Rightarrow> (db, Mres_inspect_required Mir_merge_observation_error None None)
   | Inr obs \<Rightarrow>
       (let reconcile = (\<lambda>ref. reconcileMerge (stored_receipt receipts) now
              \<lparr>mq_policy = oq_policy q, mq_expectedMergeMethod = oq_expectedMergeMethod q,
               mq_observation = obs, mq_receiptRef = ref\<rparr> db)
        in if \<not> mo_merged obs then reconcile None
           else (case listForExactHead (mo_repository obs) (mo_pullRequest obs) (mo_headSha obs)
                   (Some 100) receipts of
               Inl _ \<Rightarrow> (db, Mres_inspect_required Mir_receipt_store_error None None)
             | Inr found \<Rightarrow> reconcile (map_option rcc_receiptRef
                 (select_receipt (oq_policy q) (observed_subject obs) found)))))"

end
