(* ===== verification/Merge_Poller.thy ===== *)
theory Merge_Poller
  imports Merge_Services
begin

text \<open>
  The poller that notices merges (apps/cli/src/runtime/github-merge-reconciliation-poller.ts): it reads
  the closed pull requests GitHub updated since a cursor, reconciles those that were merged, and moves
  the cursor. Here the texts of timestamps matter, because the cursor compares them both as instants
  and as texts: \<open>toISOString\<close> prints milliseconds, GitHub's API does not.
\<close>

section \<open>Timestamps as texts\<close>

datatype stamp = Stamp_ms int | Stamp_s int | Stamp_bad string

fun stamp_time :: "stamp \<Rightarrow> int option" where
  "stamp_time (Stamp_ms n) = Some n"
| "stamp_time (Stamp_s n) = Some (n * 1000)"
| "stamp_time (Stamp_bad _) = None"

text \<open>Comparisons of \<open>Date.parse\<close> values: false when one of them is NaN.\<close>

definition stamp_less :: "stamp \<Rightarrow> stamp \<Rightarrow> bool" where
  "stamp_less a b = (case (stamp_time a, stamp_time b) of (Some m, Some n) \<Rightarrow> m < n | _ \<Rightarrow> False)"

definition stamp_same :: "stamp \<Rightarrow> stamp \<Rightarrow> bool" where
  "stamp_same a b = (case (stamp_time a, stamp_time b) of (Some m, Some n) \<Rightarrow> m = n | _ \<Rightarrow> False)"

definition stamp_at_least :: "stamp \<Rightarrow> stamp \<Rightarrow> bool" where
  "stamp_at_least a b = (case (stamp_time a, stamp_time b) of (Some m, Some n) \<Rightarrow> m \<ge> n | _ \<Rightarrow> False)"

fun stamp_value :: "stamp \<Rightarrow> int" where
  "stamp_value (Stamp_ms n) = n"
| "stamp_value (Stamp_s n) = n * 1000"
| "stamp_value (Stamp_bad _) = 0"

section \<open>The cursor and where it is kept\<close>

record poll_cursor =
  pc_startedAt :: stamp
  pc_updatedAtWatermark :: stamp
  pc_pullRequestsAtWatermark :: "int list"

text \<open>The settings value: absent or blank, no JSON of the expected shape, or the object's entries.\<close>

datatype poll_setting = Poll_absent | Poll_unreadable | Poll_entries "(string \<times> poll_cursor) list"

definition repositoryKey :: "string \<Rightarrow> unit + string" where
  "repositoryKey value =
     (let trimmed = js_lower (js_trim value);
          owner = takeWhile (\<lambda>c. c \<noteq> CHR ''/'') trimmed;
          rest = drop (length owner) trimmed
      in if trimmed = [] \<or> length trimmed > 512 \<or> owner = [] \<or> length rest < 2
            \<or> CHR ''/'' \<in> set (tl rest)
         then Inl () else Inr trimmed)"

definition validateCursor :: "poll_cursor \<Rightarrow> bool" where
  "validateCursor c \<longleftrightarrow> stamp_time (pc_startedAt c) \<noteq> None \<and> stamp_time (pc_updatedAtWatermark c) \<noteq> None
     \<and> \<not> stamp_less (pc_updatedAtWatermark c) (pc_startedAt c)
     \<and> list_all (\<lambda>n. 0 < n) (pc_pullRequestsAtWatermark c) \<and> distinct (pc_pullRequestsAtWatermark c)"

fun read_entries ::
  "(string \<times> poll_cursor) list \<Rightarrow> (string \<times> poll_cursor) list \<Rightarrow> unit + (string \<times> poll_cursor) list" where
  "read_entries [] acc = Inr acc"
| "read_entries ((key, c) # es) acc = bind_ok (repositoryKey key) (\<lambda>k.
     if map_of acc k \<noteq> None \<or> \<not> validateCursor c then Inl () else read_entries es (acc @ [(k, c)]))"

definition readPersistedState :: "poll_setting \<Rightarrow> unit + (string \<times> poll_cursor) list" where
  "readPersistedState setting = (case setting of
     Poll_absent \<Rightarrow> Inr [] | Poll_unreadable \<Rightarrow> Inl () | Poll_entries es \<Rightarrow> read_entries es [])"

definition poll_get :: "string \<Rightarrow> poll_setting \<Rightarrow> unit + poll_cursor option" where
  "poll_get repository setting = bind_ok (readPersistedState setting) (\<lambda>es.
     bind_ok (repositoryKey repository) (\<lambda>k. Inr (map_of es k)))"

fun put_entry :: "string \<Rightarrow> 'c \<Rightarrow> (string \<times> 'c) list \<Rightarrow> (string \<times> 'c) list" where
  "put_entry k c [] = [(k, c)]"
| "put_entry k c ((k', c') # es) = (if k' = k then (k, c) # es else (k', c') # put_entry k c es)"

definition poll_set :: "string \<Rightarrow> poll_cursor \<Rightarrow> poll_setting \<Rightarrow> poll_setting \<times> (unit + unit)" where
  "poll_set repository c setting =
     (if \<not> validateCursor c then (setting, Inl ())
      else case bind_ok (readPersistedState setting) (\<lambda>es.
             bind_ok (repositoryKey repository) (\<lambda>k. Inr (put_entry k c es))) of
        Inl e \<Rightarrow> (setting, Inl e)
      | Inr es \<Rightarrow> (Poll_entries es, Inr ()))"

definition poll_retain :: "string list \<Rightarrow> poll_setting \<Rightarrow> poll_setting \<times> (unit + unit)" where
  "poll_retain repositories setting =
     (case bind_ok (readPersistedState setting) (\<lambda>es.
           bind_ok (map_ok repositoryKey repositories) (\<lambda>ks. Inr (es, ks))) of
        Inl e \<Rightarrow> (setting, Inl e)
      | Inr (es, ks) \<Rightarrow>
          (let kept = filter (\<lambda>(k, c). k \<in> set ks) es
           in if length kept = length es then (setting, Inr ()) else (Poll_entries kept, Inr ())))"

section \<open>The feed of closed pull requests\<close>

record closed_update =
  cu_pullRequest :: int
  cu_updatedAt :: stamp
  cu_mergedAt :: "stamp option"

text \<open>An entry of a page: the fields the code reads.\<close>

record closed_entry =
  ce_number :: int
  ce_repository :: string
  ce_updated_at :: stamp
  ce_merged_at :: "stamp option"

definition read_closed :: "string \<Rightarrow> int option \<Rightarrow> closed_entry \<Rightarrow> unit + closed_update" where
  "read_closed repository previous e =
     (if ce_number e \<le> 0 \<or> ce_repository e \<noteq> repository then Inl ()
      else case stamp_time (ce_updated_at e) of
        None \<Rightarrow> Inl ()
      | Some t \<Rightarrow>
          if (case previous of None \<Rightarrow> False | Some p \<Rightarrow> t > p) then Inl ()
          else if (case ce_merged_at e of None \<Rightarrow> False | Some m \<Rightarrow> stamp_time m = None) then Inl ()
          else Inr \<lparr>cu_pullRequest = ce_number e, cu_updatedAt = ce_updated_at e,
                    cu_mergedAt = ce_merged_at e\<rparr>)"

fun read_page ::
  "string \<Rightarrow> int option \<Rightarrow> closed_entry list \<Rightarrow> closed_update list \<Rightarrow> unit + (closed_update list \<times> int option)" where
  "read_page repository previous [] updates = Inr (updates, previous)"
| "read_page repository previous (e # es) updates = bind_ok (read_closed repository previous e) (\<lambda>u.
     read_page repository (Some (stamp_value (cu_updatedAt u))) es (updates @ [u]))"

text \<open>
  The loop over the pages \<open>page, .., page + n - 1\<close>; the answer says whether the watermark was reached.
  A page that crosses it ends the loop.
\<close>

fun read_pages ::
  "(nat \<Rightarrow> unit + closed_entry list) \<Rightarrow> string \<Rightarrow> stamp \<Rightarrow> nat \<Rightarrow> nat \<Rightarrow> nat \<Rightarrow> int option
     \<Rightarrow> closed_update list \<Rightarrow> unit + (closed_update list \<times> bool)" where
  "read_pages get repository watermark pageSize 0 page previous updates = Inr (updates, False)"
| "read_pages get repository watermark pageSize (Suc n) page previous updates =
     bind_ok (get page) (\<lambda>es.
     if es = [] then Inr (updates, True)
     else bind_ok (read_page repository previous es []) (\<lambda>(us, previous').
       if list_ex (\<lambda>u. stamp_less (cu_updatedAt u) watermark) us \<or> length es < pageSize
       then Inr (updates @ us, True)
       else read_pages get repository watermark pageSize n (page + 1) previous' (updates @ us)))"

definition boundedPositive :: "int option \<Rightarrow> nat \<Rightarrow> nat" where
  "boundedPositive value fallback = (case value of
     None \<Rightarrow> fallback | Some n \<Rightarrow> if n \<le> 0 \<or> n > 100 then fallback else nat n)"

definition listUpdatedClosed ::
  "(nat \<Rightarrow> unit + closed_entry list) \<Rightarrow> int option \<Rightarrow> int option \<Rightarrow> string \<Rightarrow> stamp
     \<Rightarrow> unit + (closed_update list \<times> bool)" where
  "listUpdatedClosed get pageSize maxPages repository updatedAtInclusive =
     (if \<not> repositoryCoordinates repository \<or> stamp_time updatedAtInclusive = None then Inl ()
      else read_pages get repository updatedAtInclusive (boundedPositive pageSize 100)
        (boundedPositive maxPages 10) 1 None [])"

section \<open>One pass over a repository\<close>

datatype poll_result =
  Poll_reconciled "string option"
| Poll_breach
| Poll_inspect merge_inspect_reason

datatype canonical_advance =
  Advance_done string
| Advance_refused
| Advance_no_merge
| Advance_not_wired
| Advance_inspect_required

datatype poll_status =
  Poll_ok | Poll_provider_error | Poll_state_error | Poll_inspect_required | Poll_feed_truncated

record poll_summary =
  ps_repository :: string
  ps_status :: poll_status
  ps_candidates :: nat
  ps_reconciled :: nat
  ps_policyBreaches :: nat
  ps_ignoredHistorical :: nat
  ps_cursorAdvanced :: bool
  ps_canonicalAdvance :: canonical_advance
  ps_inspectReason :: "merge_inspect_reason option"

definition poll_summary0 :: "string \<Rightarrow> poll_status \<Rightarrow> poll_summary" where
  "poll_summary0 repository status =
     \<lparr>ps_repository = repository, ps_status = status, ps_candidates = 0, ps_reconciled = 0,
      ps_policyBreaches = 0, ps_ignoredHistorical = 0, ps_cursorAdvanced = False,
      ps_canonicalAdvance = Advance_no_merge, ps_inspectReason = None\<rparr>"

definition isAfterCursor :: "poll_cursor \<Rightarrow> closed_update \<Rightarrow> bool" where
  "isAfterCursor c u \<longleftrightarrow> stamp_less (pc_updatedAtWatermark c) (cu_updatedAt u)
     \<or> (stamp_same (cu_updatedAt u) (pc_updatedAtWatermark c)
        \<and> cu_pullRequest u \<notin> set (pc_pullRequestsAtWatermark c))"

definition pending_updates :: "poll_cursor \<Rightarrow> closed_update list \<Rightarrow> closed_update list" where
  "pending_updates c us =
     sort_key (\<lambda>u. (stamp_value (cu_updatedAt u), cu_pullRequest u)) (filter (isAfterCursor c) us)"

definition is_historical :: "poll_cursor \<Rightarrow> closed_update \<Rightarrow> bool" where
  "is_historical c u \<longleftrightarrow> (case cu_mergedAt u of None \<Rightarrow> False | Some m \<Rightarrow> stamp_less m (pc_startedAt c))"

definition is_candidate :: "poll_cursor \<Rightarrow> closed_update \<Rightarrow> bool" where
  "is_candidate c u \<longleftrightarrow> (case cu_mergedAt u of None \<Rightarrow> False | Some m \<Rightarrow> stamp_at_least m (pc_startedAt c))"

definition floorToSecond :: "int \<Rightarrow> int" where
  "floorToSecond ms = (ms div 1000) * 1000"

definition initial_cursor :: "int \<Rightarrow> poll_cursor" where
  "initial_cursor now = (let startedAt = Stamp_ms (floorToSecond now)
     in \<lparr>pc_startedAt = startedAt, pc_updatedAtWatermark = startedAt, pc_pullRequestsAtWatermark = []\<rparr>)"

text \<open>The updates that were closed as terminal, as the entries of the map from texts to pull requests.\<close>

definition later_stamp :: "stamp \<Rightarrow> closed_update \<Rightarrow> stamp" where
  "later_stamp w u = (if stamp_less w (cu_updatedAt u) then cu_updatedAt u else w)"

definition advanceCursor :: "poll_cursor \<Rightarrow> closed_update list \<Rightarrow> closed_update list \<Rightarrow> poll_cursor" where
  "advanceCursor c us terminal =
     (let watermark = foldl later_stamp (pc_updatedAtWatermark c) us;
          kept = (if stamp_same watermark (pc_updatedAtWatermark c)
            then pc_pullRequestsAtWatermark c else []);
          closed = map cu_pullRequest (filter (\<lambda>u. cu_updatedAt u = watermark) terminal)
      in c\<lparr>pc_updatedAtWatermark := watermark,
           pc_pullRequestsAtWatermark := sort (remdups (kept @ closed))\<rparr>)"

text \<open>The loop over the candidates: the newest merge, the counts, and the updates closed so far.\<close>

record poll_tally =
  pt_reconciled :: nat
  pt_breaches :: nat
  pt_newest :: "(int option \<times> string) option"
  pt_terminal :: "closed_update list"

definition newest_merge ::
  "(int option \<times> string) option \<Rightarrow> closed_update \<Rightarrow> string option \<Rightarrow> (int option \<times> string) option" where
  "newest_merge newest u sha = (case sha of
     None \<Rightarrow> newest
   | Some s \<Rightarrow>
       if js_trim s = [] then newest
       else (let mergedAt = (case cu_mergedAt u of None \<Rightarrow> None | Some m \<Rightarrow> stamp_time m)
             in case newest of
                  None \<Rightarrow> Some (mergedAt, js_trim s)
                | Some (was, old) \<Rightarrow>
                    if (case (mergedAt, was) of
                          (_, None) \<Rightarrow> True | (None, Some _) \<Rightarrow> False | (Some m, Some a) \<Rightarrow> m \<ge> a)
                    then Some (mergedAt, js_trim s) else newest))"

fun reconcile_candidates ::
  "(int \<Rightarrow> 'm \<Rightarrow> 'm \<times> (unit + poll_result)) \<Rightarrow> closed_update list \<Rightarrow> poll_tally \<Rightarrow> 'm
     \<Rightarrow> 'm \<times> poll_tally \<times> (merge_inspect_reason option option)" where
  "reconcile_candidates reconcile [] tally m = (m, tally, None)"
| "reconcile_candidates reconcile (u # us) tally m =
     (case reconcile (cu_pullRequest u) m of
        (m', Inl _) \<Rightarrow> (m', tally, Some None)
      | (m', Inr (Poll_inspect reason)) \<Rightarrow> (m', tally, Some (Some reason))
      | (m', Inr (Poll_reconciled sha)) \<Rightarrow>
          reconcile_candidates reconcile us (tally\<lparr>pt_reconciled := pt_reconciled tally + 1,
            pt_newest := newest_merge (pt_newest tally) u sha, pt_terminal := pt_terminal tally @ [u]\<rparr>) m'
      | (m', Inr Poll_breach) \<Rightarrow>
          reconcile_candidates reconcile us (tally\<lparr>pt_breaches := pt_breaches tally + 1,
            pt_terminal := pt_terminal tally @ [u]\<rparr>) m')"

definition advanceCanonicalRef ::
  "(string \<Rightarrow> canonical_advance) option \<Rightarrow> string option \<Rightarrow> canonical_advance" where
  "advanceCanonicalRef advance sha = (case advance of
     None \<Rightarrow> Advance_not_wired
   | Some f \<Rightarrow> (case sha of None \<Rightarrow> Advance_no_merge | Some s \<Rightarrow> f s))"

text \<open>
  What happens in a pass after the cursor is known. The feed, the reconciliation of one pull request
  (with its store \<open>'m\<close>) and the step of the canonical ref are the ports of the poller.
\<close>

definition poll_from_cursor ::
  "(stamp \<Rightarrow> unit + (closed_update list \<times> bool)) \<Rightarrow> (int \<Rightarrow> 'm \<Rightarrow> 'm \<times> (unit + poll_result))
     \<Rightarrow> (string \<Rightarrow> canonical_advance) option \<Rightarrow> string \<Rightarrow> poll_cursor \<Rightarrow> poll_setting \<Rightarrow> 'm
     \<Rightarrow> poll_setting \<times> 'm \<times> poll_summary" where
  "poll_from_cursor feed reconcile advance repository c setting m =
     (case feed (pc_updatedAtWatermark c) of
        Inl _ \<Rightarrow> (setting, m, poll_summary0 repository Poll_provider_error)
      | Inr (us, whole) \<Rightarrow>
          if \<not> whole then (setting, m, poll_summary0 repository Poll_feed_truncated)
          else
            (let pending = pending_updates c us;
                 historical = filter (is_historical c) pending;
                 candidates = filter (is_candidate c) pending;
                 tally0 = \<lparr>pt_reconciled = 0, pt_breaches = 0, pt_newest = None, pt_terminal = historical\<rparr>;
                 (m', tally, stopped) = reconcile_candidates reconcile candidates tally0 m;
                 counted = (poll_summary0 repository Poll_ok)\<lparr>ps_candidates := length candidates,
                   ps_reconciled := pt_reconciled tally, ps_policyBreaches := pt_breaches tally,
                   ps_ignoredHistorical := length historical\<rparr>
             in case stopped of
                  Some reason \<Rightarrow> (setting, m', counted\<lparr>ps_status := Poll_inspect_required,
                    ps_canonicalAdvance := Advance_inspect_required, ps_inspectReason := reason\<rparr>)
                | None \<Rightarrow>
                    (let advanced = advanceCanonicalRef advance (map_option snd (pt_newest tally));
                         c' = advanceCursor c us (pt_terminal tally);
                         counted' = counted\<lparr>ps_canonicalAdvance := advanced\<rparr>
                     in if c' = c then (setting, m', counted')
                        else (case poll_set repository c' setting of
                            (setting', Inl _) \<Rightarrow> (setting', m', counted'\<lparr>ps_status := Poll_state_error\<rparr>)
                          | (setting', Inr _) \<Rightarrow> (setting', m', counted'\<lparr>ps_cursorAdvanced := True\<rparr>)))))"

definition reconcileRepository ::
  "(stamp \<Rightarrow> unit + (closed_update list \<times> bool)) \<Rightarrow> (int \<Rightarrow> 'm \<Rightarrow> 'm \<times> (unit + poll_result))
     \<Rightarrow> (string \<Rightarrow> canonical_advance) option \<Rightarrow> int \<Rightarrow> string \<Rightarrow> poll_setting \<Rightarrow> 'm
     \<Rightarrow> poll_setting \<times> 'm \<times> poll_summary" where
  "reconcileRepository feed reconcile advance now repository setting m =
     (case poll_get repository setting of
        Inl _ \<Rightarrow> (setting, m, poll_summary0 repository Poll_state_error)
      | Inr (Some c) \<Rightarrow> poll_from_cursor feed reconcile advance repository c setting m
      | Inr None \<Rightarrow>
          (case poll_set repository (initial_cursor now) setting of
             (setting', Inl _) \<Rightarrow> (setting', m, poll_summary0 repository Poll_state_error)
           | (setting', Inr _) \<Rightarrow>
               poll_from_cursor feed reconcile advance repository (initial_cursor now) setting' m))"

text \<open>What the poller makes of the result of the automatic reconciliation of one pull request.\<close>

definition poll_result_of :: "merge_result \<Rightarrow> poll_result" where
  "poll_result_of r = (case r of
     Mres_reconciled rec \<Rightarrow> Poll_reconciled (mo_mergeSha (mr2_observation rec))
   | Mres_policy_breach rec \<Rightarrow> Poll_breach
   | Mres_inspect_required reason ref rec \<Rightarrow> Poll_inspect reason)"

definition poll_reconcile ::
  "(int \<Rightarrow> unit + merge_observation) \<Rightarrow> receipt_db \<Rightarrow> iso \<Rightarrow> merge_policy \<Rightarrow> int \<Rightarrow> merge_record_db
     \<Rightarrow> merge_record_db \<times> (unit + poll_result)" where
  "poll_reconcile observe receipts now policy pullRequest db =
     (case reconcileAutomatically (observe pullRequest) receipts now
        \<lparr>oq_policy = policy, oq_repository = mp_repository policy, oq_pullRequest = pullRequest,
         oq_expectedMergeMethod = (case mp_mergeMethod policy of None \<Rightarrow> Mm_merge | Some m \<Rightarrow> m),
         oq_receiptRef = None\<rparr> db of
        (db', r) \<Rightarrow> (db', Inr (poll_result_of r)))"

text \<open>
  One pass over all policies. \<open>poll_ports\<close> gives the ports of one repository. The flag that keeps a
  pass from starting while another runs is the first argument.
\<close>

record 'm poll_ports =
  pp_feed :: "stamp \<Rightarrow> unit + (closed_update list \<times> bool)"
  pp_reconcile :: "int \<Rightarrow> 'm \<Rightarrow> 'm \<times> (unit + poll_result)"
  pp_advance :: "(string \<Rightarrow> canonical_advance) option"
  pp_now :: int

fun poll_repositories ::
  "(merge_policy \<Rightarrow> 'm poll_ports) \<Rightarrow> merge_policy list \<Rightarrow> poll_setting \<Rightarrow> 'm \<Rightarrow> poll_summary list
     \<Rightarrow> poll_setting \<times> 'm \<times> poll_summary list" where
  "poll_repositories ports [] setting m acc = (setting, m, acc)"
| "poll_repositories ports (p # ps) setting m acc =
     (case reconcileRepository (pp_feed (ports p)) (pp_reconcile (ports p)) (pp_advance (ports p))
        (pp_now (ports p)) (mp_repository p) setting m of
        (setting', m', s) \<Rightarrow> poll_repositories ports ps setting' m' (acc @ [s]))"

definition pollOnce ::
  "bool \<Rightarrow> (unit + merge_policy list) \<Rightarrow> (merge_policy \<Rightarrow> 'm poll_ports) \<Rightarrow> poll_setting \<Rightarrow> 'm
     \<Rightarrow> poll_setting \<times> 'm \<times> (unit + poll_summary list)" where
  "pollOnce running policies ports setting m =
     (if running then (setting, m, Inr [])
      else case policies of
        Inl e \<Rightarrow> (setting, m, Inl e)
      | Inr ps \<Rightarrow>
          (case poll_retain (map mp_repository ps) setting of
             (setting', Inl e) \<Rightarrow> (setting', m, Inl e)
           | (setting', Inr _) \<Rightarrow>
               (case poll_repositories ports ps setting' m [] of
                  (setting'', m', summaries) \<Rightarrow> (setting'', m', Inr summaries))))"

end
