(* ===== verification/Merge_Services_Safety.thy ===== *)
theory Merge_Services_Safety
  imports Merge_Services
begin

text \<open>
  What the merge services guarantee over the stores of the repository: a stored judgement is the one
  its evidence gives, a merge counts as reconciled only when it is proven, observing the same merge
  again stores nothing new, and evidence that changed under a reference is a conflict for ever.
\<close>

section \<open>What an append leaves behind\<close>

definition stored_merge :: "merge_record_db \<Rightarrow> merge_record \<Rightarrow> bool" where
  "stored_merge db rec \<longleftrightarrow> (\<exists>row n. find_merge db (mr2_reconciliationRef rec) = Some row
     \<and> merge_toRecord row = Inr \<lparr>mhr_sequence = n, mhr_record = rec\<rparr>)"

lemma stored_merge_normal:
  assumes "merges_wf db" "stored_merge db rec"
  shows "merge_record_normal rec"
proof -
  obtain row n where "find_merge db (mr2_reconciliationRef rec) = Some row"
    "merge_toRecord row = Inr \<lparr>mhr_sequence = n, mhr_record = rec\<rparr>"
    using assms(2) unfolding stored_merge_def by blast
  with find_merge_wf [OF assms(1)] show ?thesis by (metis Inr_inject merge_history_record.ext_inject)
qed

lemma stored_merge_unique:
  "stored_merge db a \<Longrightarrow> stored_merge db b \<Longrightarrow> mr2_reconciliationRef a = mr2_reconciliationRef b \<Longrightarrow> a = b"
  by (auto simp: stored_merge_def)

lemma stored_merge_extend:
  assumes "merges_extend db db'" "stored_merge db rec"
  shows "stored_merge db' rec"
proof -
  obtain zs where "mrd_rows db' = mrd_rows db @ zs" using assms(1) by (auto simp: merges_extend_def prefix_def)
  then have "find_merge db ref = Some row \<Longrightarrow> find_merge db' ref = Some row" for ref row
    by (simp add: find_merge_def row_get_appendI)
  with assms(2) show ?thesis unfolding stored_merge_def by blast
qed

lemma parse_ref: "parseRecord e rec = Inr n \<Longrightarrow> requiredBounded e (mr2_reconciliationRef rec) MAX_REF_CHARS
    = Inr (mr2_reconciliationRef n)"
  by (auto simp: parseRecord_def bind_ok_Inr_iff Let_def split: if_splits)

text \<open>The three outcomes of appending a record that parses.\<close>

lemma append_merge_outcome:
  assumes wf: "merges_wf db" and p: "parseRecord Mse_invalid_record rec = Inr n"
  shows "(\<exists>db'. appendMerge rec db = (db', Inr \<lparr>amr_appended = True,
        amr_record = \<lparr>mhr_sequence = mrd_sequence db + 1, mhr_record = n\<rparr>\<rparr>)
      \<and> stored_merge db' n \<and> find_merge db (mr2_reconciliationRef n) = None)
    \<or> (\<exists>old k. stored_merge db old \<and> mr2_reconciliationRef old = mr2_reconciliationRef n
      \<and> appendMerge rec db = (db, if immutableEvidence old = immutableEvidence n
          then Inr \<lparr>amr_appended = False, amr_record = \<lparr>mhr_sequence = k, mhr_record = old\<rparr>\<rparr>
          else Inl (Mse_ref_conflict old)))"
proof (cases "find_merge db (mr2_reconciliationRef n)")
  case None
  let ?db' = "db\<lparr>mrd_rows := mrd_rows db @ [merge_row_of (mrd_sequence db + 1) n],
      mrd_sequence := mrd_sequence db + 1\<rparr>"
  have "find_merge ?db' (mr2_reconciliationRef n) = Some (merge_row_of (mrd_sequence db + 1) n)"
    using None by (simp add: find_merge_def row_get_append)
  then have "stored_merge ?db' n"
    using merge_row_reads [OF parseRecord_sound [OF p]] by (auto simp: stored_merge_def)
  then show ?thesis using append_merge_new [OF p None] None by blast
next
  case (Some row)
  obtain old where old: "merge_toRecord row = Inr \<lparr>mhr_sequence = mrw_sequence row, mhr_record = old\<rparr>"
    "mr2_reconciliationRef old = mr2_reconciliationRef n"
    using find_merge_wf [OF wf Some] by metis
  have "stored_merge db old" using Some old by (auto simp: stored_merge_def)
  moreover have "appendMerge rec db = (db, if immutableEvidence old = immutableEvidence n
      then Inr \<lparr>amr_appended = False, amr_record = \<lparr>mhr_sequence = mrw_sequence row, mhr_record = old\<rparr>\<rparr>
      else Inl (Mse_ref_conflict old))"
    by (simp add: append_merge_known [OF parse_ref [OF p] Some old(1)] p compare_evidence_def
        hasSameReconciliationEvidence_def)
  ultimately show ?thesis using old(2) by blast
qed

lemma append_merge_error:
  assumes "parseRecord Mse_invalid_record rec = Inl e"
  shows "\<exists>f. appendMerge rec db = (db, Inl f)"
proof (cases "requiredBounded Mse_invalid_record (mr2_reconciliationRef rec) MAX_REF_CHARS")
  case (Inl f)
  then show ?thesis by (simp add: appendMerge_def)
next
  case (Inr ref)
  then show ?thesis
    using assms by (cases "find_merge db ref") (auto simp: appendMerge_def bind_ok_def split: sum.splits)
qed

section \<open>Results of the reconciliation\<close>

text \<open>The record a result carries when the judgement was stored or found again.\<close>

fun judged_record :: "merge_result \<Rightarrow> merge_record option" where
  "judged_record (Mres_reconciled rec) = Some rec"
| "judged_record (Mres_policy_breach rec) = Some rec"
| "judged_record (Mres_inspect_required (Mir_reason _) _ rec) = rec"
| "judged_record (Mres_inspect_required _ _ _) = None"

definition judged_result :: "merge_judgement \<Rightarrow> merge_record \<Rightarrow> merge_result" where
  "judged_result j rec = (case mj_status j of
     Mst_reconciled \<Rightarrow> Mres_reconciled rec
   | Mst_policy_breach \<Rightarrow> Mres_policy_breach rec
   | Mst_inspect_required \<Rightarrow> Mres_inspect_required (Mir_reason (mj_reason j)) None (Some rec))"

lemma judged_result_record [simp]: "judged_record (judged_result j rec) = Some rec"
  by (simp add: judged_result_def split: merge_status.splits)

lemma store_reconciliation_outcome:
  assumes wf: "merges_wf db" and p: "parseRecord Mse_invalid_record (record_of_request q ref receipt now) = Inr n"
  shows "(\<exists>db'. store_reconciliation q ref receipt now db = (db', judged_result (mr2_decision n) n)
        \<and> stored_merge db' n \<and> find_merge db (mr2_reconciliationRef n) = None)
    \<or> (\<exists>old. stored_merge db old \<and> mr2_reconciliationRef old = mr2_reconciliationRef n
        \<and> store_reconciliation q ref receipt now db = (db,
            if immutableEvidence old = immutableEvidence n then judged_result (mr2_decision n) old
            else Mres_inspect_required Mir_reconciliation_ref_conflict ref (Some old)))"
proof -
  have dec: "mr2_decision (record_of_request q ref receipt now) = mr2_decision n"
    using p by (auto simp: parseRecord_def bind_ok_Inr_iff Let_def split: if_splits)
  from append_merge_outcome [OF wf p] consider
      (new) db' where "appendMerge (record_of_request q ref receipt now) db = (db', Inr \<lparr>amr_appended = True,
        amr_record = \<lparr>mhr_sequence = mrd_sequence db + 1, mhr_record = n\<rparr>\<rparr>)"
        "stored_merge db' n" "find_merge db (mr2_reconciliationRef n) = None"
    | (old) old k where "stored_merge db old" "mr2_reconciliationRef old = mr2_reconciliationRef n"
        "appendMerge (record_of_request q ref receipt now) db = (db,
          if immutableEvidence old = immutableEvidence n
          then Inr \<lparr>amr_appended = False, amr_record = \<lparr>mhr_sequence = k, mhr_record = old\<rparr>\<rparr>
          else Inl (Mse_ref_conflict old))"
    by blast
  then show ?thesis
  proof cases
    case new
    then have "store_reconciliation q ref receipt now db = (db', judged_result (mr2_decision n) n)"
      by (cases "mj_status (mr2_decision n)")
        (simp_all add: store_reconciliation_def Let_def dec judged_result_def)
    with new show ?thesis by blast
  next
    case old
    then have "store_reconciliation q ref receipt now db = (db,
        if immutableEvidence old = immutableEvidence n then judged_result (mr2_decision n) old
        else Mres_inspect_required Mir_reconciliation_ref_conflict ref (Some old))"
      by (cases "mj_status (mr2_decision n)")
        (simp_all add: store_reconciliation_def Let_def dec judged_result_def)
    with old show ?thesis by blast
  qed
qed

lemma store_reconciliation_invalid:
  assumes "parseRecord Mse_invalid_record (record_of_request q ref receipt now) = Inl e"
  shows "\<exists>r. store_reconciliation q ref receipt now db = (db, r) \<and> judged_record r = None"
proof -
  obtain f where "appendMerge (record_of_request q ref receipt now) db = (db, Inl f)"
    using append_merge_error [OF assms] by blast
  then show ?thesis by (cases f) (simp_all add: store_reconciliation_def Let_def)
qed

lemma evidence_fields:
  assumes "immutableEvidence a = immutableEvidence b"
  shows "mr2_decision a = mr2_decision b" "mr2_receipt a = mr2_receipt b" "mr2_policy a = mr2_policy b"
    "mr2_receiptRef a = mr2_receiptRef b" "mr2_expectedMergeMethod a = mr2_expectedMergeMethod b"
    "(mr2_observation a)\<lparr>mo_observedAt := Instant 0\<rparr> = (mr2_observation b)\<lparr>mo_observedAt := Instant 0\<rparr>"
  using assms by (simp_all add: immutableEvidence_def)

lemma store_reconciliation_stored:
  assumes wf: "merges_wf db" and r: "store_reconciliation q ref receipt now db = (db', r)"
    and rec: "judged_record r = Some rec"
  shows "stored_merge db' rec" "mr2_receipt rec = receipt" "mr2_receiptRef rec = map_option js_trim ref"
    "r = judged_result (mr2_decision rec) rec"
    "mr2_decision rec = reconcileMergeEvidence (mq_policy q) (mq_observation q) receipt (mq_expectedMergeMethod q)"
    "mr2_reconciliationRef rec = js_trim (reconciliationRef (mq_observation q))"
proof -
  obtain n where p: "parseRecord Mse_invalid_record (record_of_request q ref receipt now) = Inr n"
    using store_reconciliation_invalid [of q ref receipt now _ db] r rec
    by (cases "parseRecord Mse_invalid_record (record_of_request q ref receipt now)") auto
  have n: "mr2_receipt n = receipt" "mr2_receiptRef n = map_option js_trim ref"
    "mr2_decision n = reconcileMergeEvidence (mq_policy q) (mq_observation q) receipt (mq_expectedMergeMethod q)"
    "mr2_reconciliationRef n = js_trim (reconciliationRef (mq_observation q))"
    using p by (auto simp: parseRecord_def bind_ok_Inr_iff Let_def record_of_request_def checked_iffs
        optional_bounded_iff split: if_splits)
  from store_reconciliation_outcome [OF wf p] consider
      (new) "db' = db'" "r = judged_result (mr2_decision n) n" "stored_merge db' n"
    | (old) old where "stored_merge db old" "mr2_reconciliationRef old = mr2_reconciliationRef n"
        "db' = db" "r = (if immutableEvidence old = immutableEvidence n then judged_result (mr2_decision n) old
            else Mres_inspect_required Mir_reconciliation_ref_conflict ref (Some old))"
    using r by force
  then have "stored_merge db' rec \<and> mr2_receipt rec = receipt \<and> mr2_receiptRef rec = map_option js_trim ref
    \<and> r = judged_result (mr2_decision rec) rec \<and> mr2_decision rec = mr2_decision n
    \<and> mr2_reconciliationRef rec = mr2_reconciliationRef n"
  proof cases
    case new
    then show ?thesis using rec n by simp
  next
    case old
    then have same: "immutableEvidence old = immutableEvidence n" using rec by (auto split: if_splits)
    with old rec have "rec = old" by simp
    then show ?thesis using old same evidence_fields [OF same] n by simp
  qed
  with n show "stored_merge db' rec" "mr2_receipt rec = receipt" "mr2_receiptRef rec = map_option js_trim ref"
    "r = judged_result (mr2_decision rec) rec"
    "mr2_decision rec = reconcileMergeEvidence (mq_policy q) (mq_observation q) receipt (mq_expectedMergeMethod q)"
    "mr2_reconciliationRef rec = js_trim (reconciliationRef (mq_observation q))"
    by simp_all
qed

section \<open>The whole service\<close>

lemma store_reconciliation_state:
  assumes "merges_wf db" "store_reconciliation q ref receipt now db = (db', r)"
  shows "merges_wf db' \<and> merges_extend db db'"
proof -
  have "fst (store_reconciliation q ref receipt now db) = fst (appendMerge (record_of_request q ref receipt now) db)"
    by (simp add: store_reconciliation_def Let_def split: prod.splits sum.splits merge_store_error.splits)
  then show ?thesis using append_merge_state [OF assms(1)] assms(2) by (metis fst_conv)
qed

text \<open>Either nothing was stored, or the judgement was stored on the receipt the reader gave.\<close>

lemma reconcileMerge_cases:
  obtains (refused) r where "reconcileMerge getByRef now q db = (db, r)" "judged_record r = None"
    | (judged) ref receipt where
      "reconcileMerge getByRef now q db = store_reconciliation q ref receipt now db"
      "ref = map_option js_trim (mq_receiptRef q)"
      "\<forall>x. receipt = Some x \<longrightarrow> (\<exists>s. ref = Some s \<and> getByRef s = Inr (Some (s, x)))"
      "\<forall>s. ref = Some s \<longrightarrow> getByRef s = Inr None \<and> receipt = None
         \<or> (\<exists>x. getByRef s = Inr (Some (s, x)) \<and> receipt = Some x)"
proof (cases "map_option js_trim (mq_receiptRef q)")
  case None
  then have "reconcileMerge getByRef now q db = store_reconciliation q None None now db"
    by (simp add: reconcileMerge_def)
  with None show ?thesis using judged [of None None] by simp
next
  case (Some s)
  show ?thesis
  proof (cases "getByRef s")
    case (Inl e)
    then show ?thesis using refused Some by (simp add: reconcileMerge_def)
  next
    case (Inr found)
    show ?thesis
    proof (cases "found \<noteq> None \<and> map_option fst found \<noteq> Some s")
      case True
      then show ?thesis using refused Some Inr by (auto simp: reconcileMerge_def)
    next
      case False
      then have "reconcileMerge getByRef now q db = store_reconciliation q (Some s) (map_option snd found) now db"
        using Some Inr by (auto simp: reconcileMerge_def)
      with Some Inr False show ?thesis
        using judged [of "Some s" "map_option snd found"] by (cases found) auto
    qed
  qed
qed

lemma reconcileMerge_state:
  assumes "merges_wf db" "reconcileMerge getByRef now q db = (db', r)"
  shows "merges_wf db' \<and> merges_extend db db'"
proof (rule reconcileMerge_cases [of getByRef now q db])
  fix r' assume "reconcileMerge getByRef now q db = (db, r')"
  then show ?thesis using assms by (simp add: merges_extend_def)
next
  fix ref receipt assume "reconcileMerge getByRef now q db = store_reconciliation q ref receipt now db"
  then show ?thesis using store_reconciliation_state assms by metis
qed

lemma reconcileMerge_judged:
  assumes wf: "merges_wf db" and r: "reconcileMerge getByRef now q db = (db', r)" "judged_record r = Some rec"
  shows "stored_merge db' rec \<and> r = judged_result (mr2_decision rec) rec
    \<and> mr2_reconciliationRef rec = js_trim (reconciliationRef (mq_observation q))
    \<and> mr2_decision rec = reconcileMergeEvidence (mq_policy q) (mq_observation q) (mr2_receipt rec)
        (mq_expectedMergeMethod q)
    \<and> (\<forall>x. mr2_receipt rec = Some x \<longrightarrow> (\<exists>s. mr2_receiptRef rec = Some s \<and> getByRef s = Inr (Some (s, x))))"
proof (rule reconcileMerge_cases [of getByRef now q db])
  fix r' assume "reconcileMerge getByRef now q db = (db, r')" "judged_record r' = None"
  then show ?thesis using r by simp
next
  fix ref receipt
  assume s: "reconcileMerge getByRef now q db = store_reconciliation q ref receipt now db"
    "ref = map_option js_trim (mq_receiptRef q)"
    "\<forall>x. receipt = Some x \<longrightarrow> (\<exists>s. ref = Some s \<and> getByRef s = Inr (Some (s, x)))"
  have st: "store_reconciliation q ref receipt now db = (db', r)" using s(1) r(1) by simp
  have trim: "map_option js_trim ref = ref" using s(2) by (simp add: option.map_comp comp_def)
  note f = store_reconciliation_stored [OF wf st r(2)]
  show ?thesis using f s(3) trim by simp
qed

text \<open>A result that says reconciled is a proven merge.\<close>

lemma judged_result_status:
  "judged_result j rec = Mres_reconciled r \<longleftrightarrow> mj_status j = Mst_reconciled \<and> r = rec"
  "judged_result j rec = Mres_policy_breach r \<longleftrightarrow> mj_status j = Mst_policy_breach \<and> r = rec"
  by (auto simp: judged_result_def split: merge_status.splits)

lemma reconcileAutomatically_state:
  assumes "merges_wf db" "reconcileAutomatically observed receipts now q db = (db', r)"
  shows "merges_wf db' \<and> merges_extend db db'"
  using assms unfolding reconcileAutomatically_def Let_def
  by (auto simp: merges_extend_def dest: reconcileMerge_state split: sum.splits if_splits)

text \<open>Which request the automatic service hands on.\<close>

lemma reconcileAutomatically_judged:
  assumes "reconcileAutomatically observed receipts now q db = (db', r)" "judged_record r = Some rec"
  obtains obs ref where "observed = Inr obs"
    "reconcileMerge (stored_receipt receipts) now \<lparr>mq_policy = oq_policy q,
       mq_expectedMergeMethod = oq_expectedMergeMethod q, mq_observation = obs, mq_receiptRef = ref\<rparr> db = (db', r)"
proof (cases observed)
  case (Inl e)
  then show ?thesis using assms by (auto simp: reconcileAutomatically_def)
next
  case (Inr obs)
  show ?thesis
  proof (cases "mo_merged obs")
    case False
    then show ?thesis using assms Inr that [of obs None] by (simp add: reconcileAutomatically_def Let_def)
  next
    case True
    show ?thesis
      using assms Inr True that [of obs] unfolding reconcileAutomatically_def Let_def
      by (auto split: sum.splits)
  qed
qed

lemma stored_receipt_iff:
  "stored_receipt db ref = Inr (Some (s, x)) \<longleftrightarrow>
     (\<exists>r. getReceiptByRef ref db = Inr (Some r) \<and> rcc_receiptRef r = s \<and> rcc_receipt r = x)"
  by (auto simp: stored_receipt_def split: sum.splits)

section \<open>Observing the same merge again\<close>

lemma judgement_ignores_time:
  assumes "date_parse (mo_observedAt obs) \<noteq> None" "date_parse (mo_observedAt obs') \<noteq> None"
    "obs'\<lparr>mo_observedAt := Instant 0\<rparr> = obs\<lparr>mo_observedAt := Instant 0\<rparr>"
  shows "reconcileMergeEvidence policy obs' receipt expected = reconcileMergeEvidence policy obs receipt expected"
proof -
  obtain t y x where t: "obs' = obs\<lparr>mo_observedAt := t\<rparr>" "date_parse t = Some y"
    "date_parse (mo_observedAt obs) = Some x"
    using assms by (cases obs; cases obs') auto
  have same: "observed_subject obs' = observed_subject obs" "inspectDecision r e obs' = inspectDecision r e obs"
    "breachDecision r e obs' bs = breachDecision r e obs bs" for r e bs
    by (simp_all add: t(1) observed_subject_def inspectDecision_def breachDecision_def)
  have field: "mo_merged obs' = mo_merged obs" "mo_mergeMethod obs' = mo_mergeMethod obs"
    "mo_mergeSha obs' = mo_mergeSha obs" "date_parse (mo_observedAt obs') = Some y"
    by (simp_all add: t)
  show ?thesis unfolding reconcileMergeEvidence_def same field t(3) by simp
qed

text \<open>What the service does with a request depends on the reader only through the reference.\<close>

lemma reconcileMerge_reads:
  obtains (refused) r where "judged_record r = None"
      "\<And>now q' db. mq_receiptRef q' = mq_receiptRef q \<Longrightarrow> reconcileMerge getByRef now q' db = (db, r)"
    | (judged) ref receipt where
      "\<And>now q' db. mq_receiptRef q' = mq_receiptRef q \<Longrightarrow>
         reconcileMerge getByRef now q' db = store_reconciliation q' ref receipt now db"
proof (cases "map_option js_trim (mq_receiptRef q)")
  case None
  then show ?thesis using judged [of None None] by (simp add: reconcileMerge_def)
next
  case (Some s)
  then obtain z where z: "mq_receiptRef q = Some z" "js_trim z = s" by auto
  show ?thesis
  proof (cases "\<exists>found. getByRef s = Inr found \<and> (found = None \<or> map_option fst found = Some s)")
    case True
    then obtain found where f: "getByRef s = Inr found" "found = None \<or> map_option fst found = Some s" by blast
    have "reconcileMerge getByRef now q' db = store_reconciliation q' (Some s) (map_option snd found) now db"
      if "mq_receiptRef q' = mq_receiptRef q" for now q' db
      using f z that by (auto simp: reconcileMerge_def)
    then show ?thesis by (rule judged)
  next
    case False
    let ?r = "Mres_inspect_required (if getByRef s = Inl () then Mir_receipt_store_error
        else Mir_receipt_identity_mismatch) (Some s) None"
    have "reconcileMerge getByRef now q' db = (db, ?r)" if "mq_receiptRef q' = mq_receiptRef q" for now q' db
      using False z that by (cases "getByRef s") (auto simp: reconcileMerge_def)
    moreover have "judged_record ?r = None" by simp
    ultimately show ?thesis by (rule refused [rotated])
  qed
qed

lemma parseObservation_retimed:
  "parseObservation e obs = Inr n \<Longrightarrow>
     parseObservation e (obs\<lparr>mo_observedAt := t\<rparr>) = Inr (n\<lparr>mo_observedAt := t\<rparr>) \<and> mo_observedAt n = mo_observedAt obs"
  unfolding parseObservation_def bind_ok_Inr_iff by auto

lemma parseRecord_retimed:
  assumes p: "parseRecord e (record_of_request q ref receipt now) = Inr n"
    and t: "date_parse (mo_observedAt (mq_observation q)) \<noteq> None" "date_parse t \<noteq> None" "date_parse now' \<noteq> None"
  obtains n' where "parseRecord e (record_of_request
      (q\<lparr>mq_observation := (mq_observation q)\<lparr>mo_observedAt := t\<rparr>\<rparr>) ref receipt now') = Inr n'"
    "immutableEvidence n' = immutableEvidence n"
proof -
  let ?obs = "mq_observation q" and ?q' = "q\<lparr>mq_observation := (mq_observation q)\<lparr>mo_observedAt := t\<rparr>\<rparr>"
  let ?judge = "\<lambda>obs. reconcileMergeEvidence (mq_policy q) obs receipt (mq_expectedMergeMethod q)"
  obtain obs where obs: "parseObservation e ?obs = Inr obs"
    and same: "reconcileMergeEvidence (evidencePolicy (mq_policy q)) obs receipt (mq_expectedMergeMethod q) = ?judge ?obs"
    and n: "n = (record_of_request q ref receipt now)\<lparr>mr2_reconciliationRef := js_trim (reconciliationRef ?obs),
        mr2_receiptRef := map_option js_trim ref, mr2_observation := obs\<rparr>"
    and ok: "trimmed_text MAX_REF_CHARS (js_trim (reconciliationRef ?obs))"
      "\<forall>s. map_option js_trim ref = Some s \<longrightarrow> trimmed_text MAX_REF_CHARS s"
    using p unfolding parseRecord_def bind_ok_Inr_iff
    by (auto simp: record_of_request_def checked_iffs optional_bounded_iff Let_def split: if_splits)
  note o = parseObservation_retimed [OF obs, of t]
  have judge: "?judge (?obs\<lparr>mo_observedAt := t\<rparr>) = ?judge ?obs"
    by (rule judgement_ignores_time) (use t in simp_all)
  have judge': "reconcileMergeEvidence (evidencePolicy (mq_policy q)) (obs\<lparr>mo_observedAt := t\<rparr>) receipt
      (mq_expectedMergeMethod q) = ?judge ?obs"
    unfolding same [symmetric] by (rule judgement_ignores_time) (use t o in simp_all)
  have ref: "reconciliationRef (?obs\<lparr>mo_observedAt := t\<rparr>) = reconciliationRef ?obs"
    by (simp add: reconciliationRef_def split: option.split)
  let ?n' = "(record_of_request ?q' ref receipt now')\<lparr>mr2_reconciliationRef := js_trim (reconciliationRef ?obs),
        mr2_receiptRef := map_option js_trim ref, mr2_observation := obs\<lparr>mo_observedAt := t\<rparr>\<rparr>"
  have "parseRecord e (record_of_request ?q' ref receipt now') = Inr ?n'"
    unfolding parseRecord_def bind_ok_Inr_iff
    using o judge judge' ok t
    by (auto simp: record_of_request_def checked_iffs optional_bounded_iff Let_def ref)
  moreover have "immutableEvidence ?n' = immutableEvidence n"
    using judge by (simp add: immutableEvidence_def n record_of_request_def ref)
  ultimately show ?thesis by (rule that)
qed

lemma store_reconciliation_again:
  assumes wf: "merges_wf db" "store_reconciliation q ref receipt now db = (db', r)" "judged_record r = Some rec"
    and later: "merges_wf d" "merges_extend db' d"
    and t: "date_parse (mo_observedAt (mq_observation q)) \<noteq> None" "date_parse t \<noteq> None" "date_parse now' \<noteq> None"
  shows "store_reconciliation (q\<lparr>mq_observation := (mq_observation q)\<lparr>mo_observedAt := t\<rparr>\<rparr>) ref receipt now' d = (d, r)"
proof -
  let ?q' = "q\<lparr>mq_observation := (mq_observation q)\<lparr>mo_observedAt := t\<rparr>\<rparr>"
  obtain n where p: "parseRecord Mse_invalid_record (record_of_request q ref receipt now) = Inr n"
    using store_reconciliation_invalid [of q ref receipt now _ db] wf(2,3)
    by (cases "parseRecord Mse_invalid_record (record_of_request q ref receipt now)") auto
  obtain n' where n': "parseRecord Mse_invalid_record (record_of_request ?q' ref receipt now') = Inr n'"
    "immutableEvidence n' = immutableEvidence n" by (rule parseRecord_retimed [OF p t])
  have rec: "stored_merge db' rec" "immutableEvidence rec = immutableEvidence n" "r = judged_result (mr2_decision n) rec"
  proof -
    from store_reconciliation_outcome [OF wf(1) p] consider
        (new) "r = judged_result (mr2_decision n) n" "stored_merge db' n"
      | (old) old where "stored_merge db old" "db' = db"
          "r = (if immutableEvidence old = immutableEvidence n then judged_result (mr2_decision n) old
            else Mres_inspect_required Mir_reconciliation_ref_conflict ref (Some old))"
      using wf(2) by force
    then have "stored_merge db' rec \<and> immutableEvidence rec = immutableEvidence n \<and> r = judged_result (mr2_decision n) rec"
      using wf(3) by cases (auto split: if_splits)
    then show "stored_merge db' rec" "immutableEvidence rec = immutableEvidence n" "r = judged_result (mr2_decision n) rec"
      by blast+
  qed
  have dec: "mr2_decision n' = mr2_decision n" using evidence_fields(1) [OF n'(2)] .
  have refs: "mr2_reconciliationRef n' = mr2_reconciliationRef rec"
    using n'(2) rec(2) by (simp add: immutableEvidence_def)
  have stored: "stored_merge d rec" using stored_merge_extend [OF later(2) rec(1)] .
  from store_reconciliation_outcome [OF later(1) n'(1)] show ?thesis
  proof (elim disjE exE conjE)
    fix d' assume "find_merge d (mr2_reconciliationRef n') = None"
    then show ?thesis using stored refs by (simp add: stored_merge_def)
  next
    fix old assume old: "stored_merge d old" "mr2_reconciliationRef old = mr2_reconciliationRef n'"
      "store_reconciliation ?q' ref receipt now' d = (d, if immutableEvidence old = immutableEvidence n'
          then judged_result (mr2_decision n') old else Mres_inspect_required Mir_reconciliation_ref_conflict ref (Some old))"
    have "old = rec" using stored_merge_unique [OF old(1) stored] old(2) refs by simp
    then show ?thesis using old(3) rec n'(2) dec by simp
  qed
qed

end
