(* ===== verification/Merge_Poller_Safety.thy ===== *)
theory Merge_Poller_Safety
  imports Merge_Poller Merge_Services_Safety
begin

text \<open>
  What a pass of the poller guarantees: a feed that reports itself complete has every pull request
  updated since the watermark, a cursor never moves back, and it moves only after every merge it
  passes has been judged and stored. The settings value behaves as a map from repositories to cursors,
  which is the interface \<open>cursor_store\<close>.
\<close>

section \<open>The settings value as a map\<close>

locale cursor_store =
  fixes get :: "'k \<Rightarrow> 's \<Rightarrow> 'e + 'c option"
    and put :: "'k \<Rightarrow> 'c \<Rightarrow> 's \<Rightarrow> 's \<times> ('e + unit)"
    and same :: "'k \<Rightarrow> 'k \<Rightarrow> bool"
  assumes get_put: "put k c s = (s', Inr ()) \<Longrightarrow> get k s' = Inr (Some c)"
    and get_other: "put k c s = (s', Inr ()) \<Longrightarrow> get j s = Inr d \<Longrightarrow> \<not> same j k \<Longrightarrow> get j s' = Inr d"
    and put_error: "put k c s = (s', Inl e) \<Longrightarrow> s' = s"
begin

text \<open>Whatever a put does, the cursor of a key is the one put or the one before.\<close>

lemma put_cases:
  assumes "put k c s = (s', r)" "get j s = Inr d"
  shows "get j s' = Inr d \<or> (same j k \<and> r = Inr ())"
proof (cases r)
  case (Inl e)
  then have "s' = s" using assms(1) put_error by metis
  then show ?thesis using assms(2) by simp
next
  case (Inr u)
  then have "put k c s = (s', Inr ())" using assms(1) by simp
  with get_other [OF this assms(2)] Inr show ?thesis by (cases "same j k") auto
qed

end

definition entries_ok :: "(string \<times> poll_cursor) list \<Rightarrow> bool" where
  "entries_ok es \<longleftrightarrow> distinct (map fst es) \<and> (\<forall>(k, c) \<in> set es. repositoryKey k = Inr k \<and> validateCursor c)"

lemma map_of_None_fst: "map_of es k = None \<longleftrightarrow> k \<notin> fst ` set es"
  by (induction es) auto

lemma js_space_lower [simp]: "js_space (js_lower_char c) = js_space c"
proof (cases "(65 \<le> (of_char c :: nat) \<and> (of_char c :: nat) \<le> 90) \<or>
    (192 \<le> (of_char c :: nat) \<and> (of_char c :: nat) \<le> 222 \<and> (of_char c :: nat) \<noteq> 215)")
  case True
  then have "js_lower_char c = char_of ((of_char c :: nat) + 32)" by (simp add: js_lower_char_def Let_def)
  moreover have "(of_char (char_of ((of_char c :: nat) + 32)) :: nat) = of_char c + 32" using True by auto
  ultimately show ?thesis using True by (auto simp: js_space_def)
next
  case False
  then have "js_lower_char c = c" by (auto simp: js_lower_char_def Let_def)
  then show ?thesis by simp
qed

lemma js_trim_lower: "js_trim (js_lower s) = js_lower (js_trim s)"
  by (simp add: js_trim_def js_lower_def dropWhile_map rev_map comp_def)

lemma repositoryKey_idem: "repositoryKey r = Inr k \<Longrightarrow> repositoryKey k = Inr k"
proof -
  assume k: "repositoryKey r = Inr k"
  then have "k = js_lower (js_trim r)" by (auto simp: repositoryKey_def Let_def split: if_splits)
  then have "js_lower (js_trim k) = k" using js_trim_lower by simp
  with k show ?thesis by (auto simp: repositoryKey_def Let_def split: if_splits)
qed

lemma read_entries_ok:
  "read_entries es acc = Inr out \<Longrightarrow> entries_ok acc \<Longrightarrow> entries_ok out"
proof (induction es arbitrary: acc)
  case Nil
  then show ?case by simp
next
  case (Cons e es)
  obtain key c where e: "e = (key, c)" by (cases e)
  obtain k where k: "repositoryKey key = Inr k" using Cons.prems(1) e by (cases "repositoryKey key") auto
  have ok: "map_of acc k = None" "validateCursor c" and rest: "read_entries es (acc @ [(k, c)]) = Inr out"
    using Cons.prems(1) k e by (auto split: if_splits)
  have "repositoryKey k = Inr k" using repositoryKey_idem [OF k] .
  then have "entries_ok (acc @ [(k, c)])"
    using Cons.prems(2) ok by (auto simp: entries_ok_def map_of_None_fst)
  with Cons.IH [OF rest] show ?case by simp
qed

lemma read_entries_id:
  "entries_ok (acc @ es) \<Longrightarrow> read_entries es acc = Inr (acc @ es)"
proof (induction es arbitrary: acc)
  case Nil
  then show ?case by simp
next
  case (Cons e es)
  obtain k c where e: "e = (k, c)" by (cases e)
  have "map_of acc k = None" "repositoryKey k = Inr k" "validateCursor c"
    using Cons.prems unfolding e by (auto simp: entries_ok_def map_of_None_fst)
  then show ?case using Cons.IH [of "acc @ [e]"] Cons.prems by (simp add: e)
qed

lemma readPersisted_ok: "readPersistedState s = Inr es \<Longrightarrow> entries_ok es"
  using read_entries_ok [of _ "[]" es]
  by (auto simp: readPersistedState_def entries_ok_def split: poll_setting.splits)

lemma readPersisted_id: "entries_ok es \<Longrightarrow> readPersistedState (Poll_entries es) = Inr es"
  using read_entries_id [of "[]" es] by (simp add: readPersistedState_def)

lemma put_entry_map: "map_of (put_entry k c es) j = (if j = k then Some c else map_of es j)"
  by (induction es) auto

lemma put_entry_fst: "fst ` set (put_entry k c es) = insert k (fst ` set es)"
  by (induction k c es rule: put_entry.induct) auto

lemma put_entry_set: "set (put_entry k c es) \<subseteq> insert (k, c) (set es)"
  by (induction k c es rule: put_entry.induct) auto

lemma put_entry_distinct: "distinct (map fst es) \<Longrightarrow> distinct (map fst (put_entry k c es))"
proof (induction es)
  case Nil
  then show ?case by simp
next
  case (Cons e es)
  then show ?case using put_entry_fst [of k c es] by (cases e) (auto simp: image_iff)
qed

lemma put_entry_ok:
  "entries_ok es \<Longrightarrow> repositoryKey k = Inr k \<Longrightarrow> validateCursor c \<Longrightarrow> entries_ok (put_entry k c es)"
  using put_entry_set [of k c es] put_entry_distinct [of es k c] by (fastforce simp: entries_ok_def)

lemma poll_set_Inr:
  assumes "poll_set repository c s = (s', Inr u)"
  obtains es k where "readPersistedState s = Inr es" "repositoryKey repository = Inr k"
    "validateCursor c" "s' = Poll_entries (put_entry k c es)" "readPersistedState s' = Inr (put_entry k c es)"
proof -
  obtain es k where ek: "readPersistedState s = Inr es" "repositoryKey repository = Inr k" "validateCursor c"
    "s' = Poll_entries (put_entry k c es)"
    using assms by (auto simp: poll_set_def bind_ok_def split: if_splits sum.splits)
  have "entries_ok (put_entry k c es)"
    using put_entry_ok readPersisted_ok [OF ek(1)] repositoryKey_idem [OF ek(2)] ek(3) by blast
  then show ?thesis using that ek readPersisted_id by blast
qed

interpretation poll_store: cursor_store poll_get poll_set "\<lambda>a b. repositoryKey a = repositoryKey b"
proof
  fix k c s s' assume "poll_set k c s = (s', Inr ())"
  then show "poll_get k s' = Inr (Some c)"
    by (rule poll_set_Inr) (simp add: poll_get_def put_entry_map)
next
  fix k j c s s' d assume put: "poll_set k c s = (s', Inr ())" and g: "poll_get j s = Inr d"
    and other: "repositoryKey j \<noteq> repositoryKey k"
  obtain es n where e: "readPersistedState s = Inr es" "repositoryKey k = Inr n"
    "readPersistedState s' = Inr (put_entry n c es)" using put by (rule poll_set_Inr) blast
  obtain m where m: "repositoryKey j = Inr m" using g by (auto simp: poll_get_def bind_ok_Inr_iff)
  with other e(2) have "m \<noteq> n" by auto
  then show "poll_get j s' = Inr d" using g e m by (simp add: poll_get_def put_entry_map)
next
  fix k c s s' e assume "poll_set k c s = (s', Inl e)"
  then show "s' = s" by (auto simp: poll_set_def split: if_splits sum.splits)
qed

lemma poll_get_valid: "poll_get repository s = Inr (Some c) \<Longrightarrow> validateCursor c"
  using readPersisted_ok
  by (fastforce simp: poll_get_def bind_ok_Inr_iff entries_ok_def dest: map_of_SomeD)

section \<open>The feed\<close>

definition update_of :: "closed_entry \<Rightarrow> closed_update" where
  "update_of e = \<lparr>cu_pullRequest = ce_number e, cu_updatedAt = ce_updated_at e, cu_mergedAt = ce_merged_at e\<rparr>"

lemma read_page_updates:
  "read_page repository p es acc = Inr (us, p') \<Longrightarrow> us = acc @ map update_of es"
proof (induction es arbitrary: p acc)
  case Nil
  then show ?case by simp
next
  case (Cons e es)
  obtain u where u: "read_closed repository p e = Inr u" using Cons.prems by (cases "read_closed repository p e") auto
  then have "u = update_of e" by (auto simp: read_closed_def update_of_def split: if_splits option.splits)
  then show ?case using Cons.IH Cons.prems u by fastforce
qed

text \<open>
  What GitHub promises of the list: sorted by the time of the update, newest first, and the pages are
  consecutive slices of it.
\<close>

definition paged :: "closed_entry list \<Rightarrow> nat \<Rightarrow> (nat \<Rightarrow> unit + closed_entry list) \<Rightarrow> bool" where
  "paged xs len get \<longleftrightarrow> sorted_wrt (\<lambda>a b. stamp_value (ce_updated_at b) \<le> stamp_value (ce_updated_at a)) xs
     \<and> (\<forall>e \<in> set xs. stamp_time (ce_updated_at e) \<noteq> None)
     \<and> (\<forall>page \<ge> 1. get page = Inr (take len (drop ((page - 1) * len) xs)))"

lemma stamp_time_value: "stamp_time s \<noteq> None \<Longrightarrow> stamp_time s = Some (stamp_value s)"
  by (cases s) auto

lemma crossed_tail:
  assumes "paged xs len get" "x \<in> set (take n xs)" "y \<in> set (drop n xs)"
    "stamp_less (ce_updated_at x) w"
  shows "stamp_less (ce_updated_at y) w"
proof -
  have "sorted_wrt (\<lambda>a b. stamp_value (ce_updated_at b) \<le> stamp_value (ce_updated_at a)) (take n xs @ drop n xs)"
    using assms(1) by (simp add: paged_def)
  then have "stamp_value (ce_updated_at y) \<le> stamp_value (ce_updated_at x)"
    using assms(2,3) unfolding sorted_wrt_append by blast
  moreover have "x \<in> set xs" "y \<in> set xs" using assms(2,3) by (auto dest: in_set_takeD in_set_dropD)
  then have "stamp_time (ce_updated_at x) = Some (stamp_value (ce_updated_at x))"
    "stamp_time (ce_updated_at y) = Some (stamp_value (ce_updated_at y))"
    using assms(1) stamp_time_value unfolding paged_def by blast+
  ultimately show ?thesis using assms(4) by (auto simp: stamp_less_def split: option.splits)
qed

lemma read_pages_complete:
  assumes pg: "paged xs len get" and sz: "0 < len"
  shows "read_pages get repository w len n page previous updates = Inr (us, True) \<Longrightarrow> 1 \<le> page
    \<Longrightarrow> updates = map update_of (take ((page - 1) * len) xs)
    \<Longrightarrow> e \<in> set xs \<Longrightarrow> \<not> stamp_less (ce_updated_at e) w \<Longrightarrow> update_of e \<in> set us"
proof (induction n arbitrary: page previous updates)
  case 0
  then show ?case by simp
next
  case (Suc n)
  let ?k = "(page - 1) * len"
  let ?es = "take len (drop ?k xs)"
  have get: "get page = Inr ?es" using pg Suc.prems(2) by (simp add: paged_def)
  have kl: "?k + len = page * len" using Suc.prems(2) by (metis add.commute mult_eq_if not_one_le_zero)
  have split: "take ?k xs @ ?es = take (page * len) xs"
    unfolding kl [symmetric] by (rule take_add [symmetric])
  show ?case
  proof (cases "?es = []")
    case True
    then have "take ?k xs = xs" using sz by simp
    moreover have "us = updates" using Suc.prems(1) get True by simp
    ultimately show ?thesis using Suc.prems(3,4) by simp
  next
    case False
    obtain vs p' where vs: "read_page repository previous ?es [] = Inr (vs, p')"
      using Suc.prems(1) get False by (cases "read_page repository previous ?es []") auto
    have vs': "vs = map update_of ?es" using read_page_updates [OF vs] by simp
    have all: "updates @ vs = map update_of (take (page * len) xs)"
      using Suc.prems(3) vs' split by (metis map_append)
    show ?thesis
    proof (cases "list_ex (\<lambda>u. stamp_less (cu_updatedAt u) w) vs \<or> length ?es < len")
      case True
      then have us: "us = updates @ vs" using Suc.prems(1) get False vs by (auto simp del: length_take)
      have "e \<in> set (take (page * len) xs)"
      proof (rule ccontr)
        assume "e \<notin> set (take (page * len) xs)"
        then have tail: "e \<in> set (drop (page * len) xs)"
          using Suc.prems(4) by (metis Un_iff append_take_drop_id set_append)
        then have "page * len < length xs" by (metis drop_all empty_iff linorder_not_le list.set(1))
        then have "?k + len < length xs" using kl by simp
        then have "\<not> length ?es < len" by simp
        then obtain x where "x \<in> set ?es" "stamp_less (ce_updated_at x) w"
          using True vs' by (auto simp: list_ex_iff update_of_def)
        then show False
          using crossed_tail [OF pg _ tail] Suc.prems(5) split by (metis Un_iff set_append)
      qed
      then show ?thesis unfolding us all by simp
    next
      case no: False
      have "read_pages get repository w len n (page + 1) p' (updates @ vs) = Inr (us, True)"
        using Suc.prems(1) get False vs no by (auto simp del: length_take)
      then show ?thesis using Suc.IH [of "page + 1" p' "updates @ vs"] all Suc.prems(4,5) by simp
    qed
  qed
qed

section \<open>The cursor\<close>

definition cursor_moves :: "poll_cursor \<Rightarrow> poll_cursor \<Rightarrow> bool" where
  "cursor_moves c c' \<longleftrightarrow> pc_startedAt c' = pc_startedAt c
     \<and> \<not> stamp_less (pc_updatedAtWatermark c') (pc_updatedAtWatermark c)"

lemma later_stamp_time:
  assumes "stamp_time w = Some n"
  shows "\<exists>m. stamp_time (later_stamp w u) = Some m \<and> n \<le> m \<and> (\<forall>k. stamp_time (cu_updatedAt u) = Some k \<longrightarrow> k \<le> m)"
  using assms by (cases "stamp_time (cu_updatedAt u)") (auto simp: later_stamp_def stamp_less_def)

lemma watermark_time:
  assumes "stamp_time w = Some n"
  shows "\<exists>m. stamp_time (foldl later_stamp w us) = Some m \<and> n \<le> m
    \<and> (\<forall>u \<in> set us. \<forall>k. stamp_time (cu_updatedAt u) = Some k \<longrightarrow> k \<le> m)"
  using assms
proof (induction us arbitrary: w n)
  case Nil
  then show ?case by simp
next
  case (Cons u us)
  obtain m where m: "stamp_time (later_stamp w u) = Some m" "n \<le> m"
    "\<And>k. stamp_time (cu_updatedAt u) = Some k \<Longrightarrow> k \<le> m"
    using later_stamp_time [OF Cons.prems, of u] by blast
  obtain m' where m': "stamp_time (foldl later_stamp (later_stamp w u) us) = Some m'" "m \<le> m'"
    "\<forall>u \<in> set us. \<forall>k. stamp_time (cu_updatedAt u) = Some k \<longrightarrow> k \<le> m'"
    using Cons.IH [OF m(1)] by blast
  have "n \<le> m'" "\<And>k. stamp_time (cu_updatedAt u) = Some k \<Longrightarrow> k \<le> m'"
    using m(2,3) m'(2) by fastforce+
  with m'(1,3) show ?case by simp
qed

lemma advance_moves:
  assumes "stamp_time (pc_updatedAtWatermark c) \<noteq> None"
  shows "cursor_moves c (advanceCursor c us terminal)"
proof -
  obtain n where n: "stamp_time (pc_updatedAtWatermark c) = Some n" using assms by blast
  obtain m where "stamp_time (foldl later_stamp (pc_updatedAtWatermark c) us) = Some m" "n \<le> m"
    using watermark_time [OF n, of us] by blast
  then show ?thesis by (simp add: cursor_moves_def advanceCursor_def Let_def stamp_less_def n)
qed

text \<open>The setting only changes when the loop over the candidates came to its end.\<close>

lemma poll_from_cursor_cases:
  assumes "poll_from_cursor feed reconcile advance repository c setting m = (setting', m', s)"
  obtains (kept) "setting' = setting"
    | (moved) us tally where "feed (pc_updatedAtWatermark c) = Inr (us, True)"
        "reconcile_candidates reconcile (filter (is_candidate c) (pending_updates c us))
           \<lparr>pt_reconciled = 0, pt_breaches = 0, pt_newest = None,
            pt_terminal = filter (is_historical c) (pending_updates c us)\<rparr> m = (m', tally, None)"
        "poll_set repository (advanceCursor c us (pt_terminal tally)) setting = (setting', Inr ())"
proof (cases "feed (pc_updatedAtWatermark c)")
  case (Inl e)
  then show ?thesis using kept assms by (simp add: poll_from_cursor_def)
next
  case (Inr r)
  obtain us whole where r: "r = (us, whole)" by (cases r)
  let ?t0 = "\<lparr>pt_reconciled = 0, pt_breaches = 0, pt_newest = None,
            pt_terminal = filter (is_historical c) (pending_updates c us)\<rparr>"
  obtain m1 tally stopped where loop: "reconcile_candidates reconcile
      (filter (is_candidate c) (pending_updates c us)) ?t0 m = (m1, tally, stopped)"
    by (metis prod_cases3)
  show ?thesis
  proof (cases "whole \<and> stopped = None \<and> advanceCursor c us (pt_terminal tally) \<noteq> c")
    case False
    then show ?thesis using assms kept Inr r loop
      by (cases stopped) (auto simp: poll_from_cursor_def Let_def split: if_splits)
  next
    case True
    obtain st q where st: "poll_set repository (advanceCursor c us (pt_terminal tally)) setting = (st, q)"
      by (cases "poll_set repository (advanceCursor c us (pt_terminal tally)) setting")
    have res: "setting' = st" "m' = m1"
      using assms Inr r loop True st by (auto simp: poll_from_cursor_def Let_def split: sum.splits)
    show ?thesis
    proof (cases q)
      case (Inl e)
      then show ?thesis using poll_store.put_error st res(1) kept by blast
    next
      case (Inr u)
      then show ?thesis using moved [of us tally] \<open>feed (pc_updatedAtWatermark c) = Inr r\<close> r True loop st res
        by simp
    qed
  qed
qed

section \<open>The candidates\<close>

text \<open>The judgement of a pull request is stored, whatever it is.\<close>

definition judged_pull ::
  "(int \<Rightarrow> unit + merge_observation) \<Rightarrow> merge_record_db \<Rightarrow> int \<Rightarrow> bool" where
  "judged_pull observe db pr \<longleftrightarrow> (\<exists>obs rec. observe pr = Inr obs \<and> stored_merge db rec
     \<and> mr2_reconciliationRef rec = js_trim (reconciliationRef obs)
     \<and> mj_status (mr2_decision rec) \<noteq> Mst_inspect_required)"

lemma judged_pull_extend: "merges_extend db db' \<Longrightarrow> judged_pull observe db pr \<Longrightarrow> judged_pull observe db' pr"
  unfolding judged_pull_def using stored_merge_extend by blast

lemma poll_result_judged:
  "poll_result_of r = Poll_reconciled sha \<Longrightarrow> \<exists>rec. r = Mres_reconciled rec"
  "poll_result_of r = Poll_breach \<Longrightarrow> \<exists>rec. r = Mres_policy_breach rec"
  by (cases r; simp add: poll_result_of_def)+

lemma poll_reconcile_judges:
  assumes wf: "merges_wf db"
    and r: "poll_reconcile observe receipts now policy pr db = (db', Inr x)" "\<And>y. x \<noteq> Poll_inspect y"
  shows "judged_pull observe db' pr"
proof -
  let ?q = "\<lparr>oq_policy = policy, oq_repository = mp_repository policy, oq_pullRequest = pr,
    oq_expectedMergeMethod = (case mp_mergeMethod policy of None \<Rightarrow> Mm_merge | Some m \<Rightarrow> m),
    oq_receiptRef = None\<rparr>"
  obtain res where res: "reconcileAutomatically (observe pr) receipts now ?q db = (db', res)"
    "x = poll_result_of res"
    using r(1) by (auto simp: poll_reconcile_def split: prod.splits)
  obtain rec where rec: "judged_record res = Some rec" "res = Mres_reconciled rec \<or> res = Mres_policy_breach rec"
    using r(2) res(2) poll_result_judged by (cases x) fastforce+
  obtain obs ref where obs: "observe pr = Inr obs"
    "reconcileMerge (stored_receipt receipts) now \<lparr>mq_policy = oq_policy ?q,
       mq_expectedMergeMethod = oq_expectedMergeMethod ?q, mq_observation = obs, mq_receiptRef = ref\<rparr> db = (db', res)"
    by (rule reconcileAutomatically_judged [OF res(1) rec(1)])
  note j = reconcileMerge_judged [OF wf obs(2) rec(1)]
  have "mj_status (mr2_decision rec) \<noteq> Mst_inspect_required"
    using j rec(2) by (auto simp: judged_result_def)
  with j obs(1) show ?thesis unfolding judged_pull_def by auto
qed

lemma poll_reconcile_state:
  assumes "merges_wf db" "poll_reconcile observe receipts now policy pr db = (db', x)"
  shows "merges_wf db' \<and> merges_extend db db'"
  using assms reconcileAutomatically_state by (auto simp: poll_reconcile_def split: prod.splits)

lemma merges_extend_trans: "merges_extend a b \<Longrightarrow> merges_extend b c \<Longrightarrow> merges_extend a c"
  unfolding merges_extend_def by (rule prefix_order.trans)

lemma reconcile_candidates_judge:
  assumes "merges_wf db"
    and "reconcile_candidates (poll_reconcile observe receipts now policy) us t db = (db', t', stopped)"
  shows "merges_wf db' \<and> merges_extend db db'
    \<and> (stopped = None \<longrightarrow> (\<forall>u \<in> set us. judged_pull observe db' (cu_pullRequest u)))"
  using assms
proof (induction us arbitrary: t db)
  case Nil
  then show ?case by (simp add: merges_extend_def)
next
  case (Cons u us)
  obtain db1 x where one: "poll_reconcile observe receipts now policy (cu_pullRequest u) db = (db1, Inr x)"
    by (cases "poll_reconcile observe receipts now policy (cu_pullRequest u) db")
      (auto simp: poll_reconcile_def split: prod.splits)
  note st = poll_reconcile_state [OF Cons.prems(1) one]
  show ?case
  proof (cases "\<exists>y. x = Poll_inspect y")
    case True
    then show ?thesis using Cons.prems(2) one st by auto
  next
    case False
    then obtain t1 where rest: "reconcile_candidates (poll_reconcile observe receipts now policy) us t1 db1
        = (db', t', stopped)"
      using Cons.prems(2) one by (cases x) auto
    have "judged_pull observe db1 (cu_pullRequest u)"
      using poll_reconcile_judges [OF Cons.prems(1) one] False by blast
    moreover have "merges_wf db' \<and> merges_extend db1 db' \<and> (stopped = None \<longrightarrow>
        (\<forall>u \<in> set us. judged_pull observe db' (cu_pullRequest u)))"
      using Cons.IH [OF _ rest] st by blast
    ultimately have "merges_wf db' \<and> merges_extend db db'" "stopped = None \<longrightarrow>
        judged_pull observe db' (cu_pullRequest u) \<and> (\<forall>u \<in> set us. judged_pull observe db' (cu_pullRequest u))"
      using st judged_pull_extend merges_extend_trans by blast+
    then show ?thesis by simp
  qed
qed

lemma pending_updates_set: "set (pending_updates c us) = {u \<in> set us. isAfterCursor c u}"
  by (auto simp: pending_updates_def)

section \<open>What holds a pass up\<close>

text \<open>A record that exists under the reference of an observation with another policy is a conflict.\<close>

lemma other_policy_conflicts:
  assumes wf: "merges_wf db" and old: "stored_merge db old" "mr2_reconciliationRef old = js_trim (reconciliationRef obs)"
    and policy: "evidencePolicy (mq_policy q) \<noteq> mr2_policy old" and obs: "mq_observation q = obs"
    and r: "reconcileMerge getByRef now q db = (db', r)"
  shows "judged_record r = None"
proof (rule reconcileMerge_cases [of getByRef now q db])
  fix r' assume "reconcileMerge getByRef now q db = (db, r')" "judged_record r' = None"
  then show ?thesis using r by simp
next
  fix ref receipt assume "reconcileMerge getByRef now q db = store_reconciliation q ref receipt now db"
  then have st: "store_reconciliation q ref receipt now db = (db', r)" using r by simp
  show ?thesis
  proof (cases "parseRecord Mse_invalid_record (record_of_request q ref receipt now)")
    case (Inl e)
    then show ?thesis using store_reconciliation_invalid [OF Inl, of db] st by auto
  next
    case (Inr n)
    have n: "mr2_reconciliationRef n = mr2_reconciliationRef old" "mr2_policy n = evidencePolicy (mq_policy q)"
      using Inr old(2) obs by (auto simp: parseRecord_def bind_ok_Inr_iff Let_def record_of_request_def
          checked_iffs split: if_splits)
    from store_reconciliation_outcome [OF wf Inr] show ?thesis
    proof
      assume "\<exists>db'. store_reconciliation q ref receipt now db = (db', judged_result (mr2_decision n) n)
        \<and> stored_merge db' n \<and> find_merge db (mr2_reconciliationRef n) = None"
      then show ?thesis using old(1) n(1) by (auto simp: stored_merge_def)
    next
      assume "\<exists>old'. stored_merge db old' \<and> mr2_reconciliationRef old' = mr2_reconciliationRef n
        \<and> store_reconciliation q ref receipt now db = (db,
            if immutableEvidence old' = immutableEvidence n then judged_result (mr2_decision n) old'
            else Mres_inspect_required Mir_reconciliation_ref_conflict ref (Some old'))"
      then obtain old' where o: "stored_merge db old'" "mr2_reconciliationRef old' = mr2_reconciliationRef n"
        "store_reconciliation q ref receipt now db = (db,
            if immutableEvidence old' = immutableEvidence n then judged_result (mr2_decision n) old'
            else Mres_inspect_required Mir_reconciliation_ref_conflict ref (Some old'))" by blast
      have "old' = old" using stored_merge_unique [OF o(1) old(1)] o(2) n(1) by simp
      then have "immutableEvidence old' \<noteq> immutableEvidence n"
        using policy n(2) by (auto dest: evidence_fields(3))
      then show ?thesis using o(3) st by auto
    qed
  qed
qed

lemma poll_result_unjudged: "judged_record r = None \<Longrightarrow> \<exists>x. poll_result_of r = Poll_inspect x"
  by (cases r) (simp_all add: poll_result_of_def)

lemma conflicting_pull_stops:
  assumes wf: "merges_wf db" and old: "stored_merge db old" "mr2_reconciliationRef old = js_trim (reconciliationRef obs)"
    and obs: "observe pr = Inr obs" and policy: "evidencePolicy policy \<noteq> mr2_policy old"
  shows "\<exists>db' x. poll_reconcile observe receipts now policy pr db = (db', Inr (Poll_inspect x))"
proof -
  let ?q = "\<lparr>oq_policy = policy, oq_repository = mp_repository policy, oq_pullRequest = pr,
    oq_expectedMergeMethod = (case mp_mergeMethod policy of None \<Rightarrow> Mm_merge | Some m \<Rightarrow> m),
    oq_receiptRef = None\<rparr>"
  obtain db' r where r: "reconcileAutomatically (observe pr) receipts now ?q db = (db', r)"
    by (cases "reconcileAutomatically (observe pr) receipts now ?q db")
  have "judged_record r = None"
  proof (rule ccontr)
    assume "judged_record r \<noteq> None"
    then obtain rec where rec: "judged_record r = Some rec" by blast
    obtain obs' ref where o: "observe pr = Inr obs'"
      "reconcileMerge (stored_receipt receipts) now \<lparr>mq_policy = oq_policy ?q,
         mq_expectedMergeMethod = oq_expectedMergeMethod ?q, mq_observation = obs', mq_receiptRef = ref\<rparr> db = (db', r)"
      by (rule reconcileAutomatically_judged [OF r rec])
    have "judged_record r = None"
      by (rule other_policy_conflicts [OF wf old _ _ o(2)]) (use o(1) obs policy in simp_all)
    with rec show False by simp
  qed
  then obtain x where "poll_result_of r = Poll_inspect x" using poll_result_unjudged by blast
  with r show ?thesis by (auto simp: poll_reconcile_def)
qed

lemma conflicting_candidate_stops:
  assumes "merges_wf db" "stored_merge db old" "mr2_reconciliationRef old = js_trim (reconciliationRef obs)"
    "observe (cu_pullRequest u) = Inr obs" "evidencePolicy policy \<noteq> mr2_policy old" "u \<in> set us"
    "reconcile_candidates (poll_reconcile observe receipts now policy) us t db = (db', t', stopped)"
  shows "stopped \<noteq> None"
  using assms(1,2,6,7)
proof (induction us arbitrary: t db)
  case Nil
  then show ?case by simp
next
  case (Cons v us)
  obtain db1 x where one: "poll_reconcile observe receipts now policy (cu_pullRequest v) db = (db1, Inr x)"
    by (cases "poll_reconcile observe receipts now policy (cu_pullRequest v) db")
      (auto simp: poll_reconcile_def split: prod.splits)
  note st = poll_reconcile_state [OF Cons.prems(1) one]
  show ?case
  proof (cases "\<exists>y. x = Poll_inspect y")
    case True
    then show ?thesis using Cons.prems(4) one by auto
  next
    case False
    then obtain t1 where rest: "reconcile_candidates (poll_reconcile observe receipts now policy) us t1 db1
        = (db', t', stopped)"
      using Cons.prems(4) one by (cases x) auto
    have "v \<noteq> u"
      using conflicting_pull_stops [where observe = observe and receipts = receipts and now = now,
        OF Cons.prems(1,2) assms(3) _ assms(5)] assms(4) one False by fastforce
    then have "u \<in> set us" using Cons.prems(3) by simp
    then show ?thesis using Cons.IH [OF _ _ _ rest] st stored_merge_extend Cons.prems(2) by blast
  qed
qed

text \<open>
  The watermark of a new cursor is printed with milliseconds. A pull request that GitHub reports at
  that very instant, without milliseconds, is closed under another text and stays after the cursor.
\<close>

lemma same_instant_stays_pending:
  assumes c: "pc_updatedAtWatermark c = Stamp_ms (n * 1000)"
    and u: "cu_updatedAt u = Stamp_s n" "cu_pullRequest u \<notin> set (pc_pullRequestsAtWatermark c)"
    and us: "\<And>v. v \<in> set us \<Longrightarrow> \<exists>k. cu_updatedAt v = Stamp_s k \<and> k \<le> n"
    and t: "set terminal \<subseteq> set us"
  shows "isAfterCursor (advanceCursor c us terminal) u"
proof -
  have stay: "foldl later_stamp (Stamp_ms (n * 1000)) us = Stamp_ms (n * 1000)"
    using us
  proof (induction us)
    case (Cons v vs)
    obtain k where "cu_updatedAt v = Stamp_s k" "k \<le> n" using Cons.prems by auto
    then have "later_stamp (Stamp_ms (n * 1000)) v = Stamp_ms (n * 1000)"
      by (simp add: later_stamp_def stamp_less_def)
    then show ?case using Cons by simp
  qed simp
  have "filter (\<lambda>u. cu_updatedAt u = Stamp_ms (n * 1000)) terminal = []"
    using us t by (auto simp: filter_empty_conv) (metis stamp.distinct(1) subsetD)
  then show ?thesis
    using u by (simp add: isAfterCursor_def advanceCursor_def Let_def c stay stamp_same_def)
qed

end
