(* ===== verification/Merge_Runner.thy ===== *)
theory Merge_Runner
  imports Merge_Services Resource_Admission_Safety
begin

text \<open>
  The run of a verification (apps/cli/src/runtime/merge-verification-runner.ts): it observes the open
  pull request, reuses a receipt that still holds, admits the heavy work, keeps the durable attempt,
  runs the gates of the policy at the exact head and appends the receipt. The world holds the stores the
  run changes; the environment holds what it only asks: GitHub, Git, the commands, the clock. Between
  two calls of the attempt store other processes may have worked on it; \<open>re_others\<close> says what they did.
\<close>

section \<open>Errors and answers\<close>

datatype app_code =
  Ap_INVALID_INPUT | Ap_UNSUPPORTED_TARGET | Ap_CONFLICT | Ap_WORKSPACE_ADMISSION_STALE
| Ap_WORKSPACE_NOT_FOUND | Ap_PATH_OUTSIDE_WORKSPACE | Ap_SECRET_ACCESS_DENIED | Ap_PERMISSION_DENIED
| Ap_PERMISSION_REQUIRED | Ap_FILE_NOT_FOUND | Ap_FILE_TOO_LARGE | Ap_BINARY_FILE | Ap_PROCESS_NOT_FOUND
| Ap_PROCESS_TIMEOUT | Ap_RESOURCE_PRESSURE | Ap_EXECUTABLE_NOT_FOUND | Ap_GIT_NOT_REPOSITORY
| Ap_CODEX_NOT_AVAILABLE | Ap_UNSUPPORTED_PLATFORM | Ap_INTERNAL_ERROR

text \<open>\<open>AppError\<close> without the optional details, which only the pressure error carries.\<close>

record app_error =
  ape_code :: app_code
  ape_message :: string
  ape_recoverable :: bool

abbreviation app_fail :: "app_code \<Rightarrow> string \<Rightarrow> bool \<Rightarrow> app_error" where
  "app_fail c m r \<equiv> \<lparr>ape_code = c, ape_message = m, ape_recoverable = r\<rparr>"

text \<open>A call answers a value or an error, or throws.\<close>

datatype 'a call_answer = Answer 'a | Failure app_error | Thrown

section \<open>The subject on GitHub\<close>

record raw_pull =
  rp_number :: int
  rp_state :: string
  rp_is_merged :: bool
  rp_head_sha :: string
  rp_base_sha :: string
  rp_base_ref :: string
  rp_full_name :: string

record open_pull =
  ou_repository :: string
  ou_pullRequest :: int
  ou_headSha :: string
  ou_baseSha :: string
  ou_baseBranch :: string

definition requiredString :: "string \<Rightarrow> nat \<Rightarrow> unit + string" where
  "requiredString = requiredBounded ()"

definition requiredSha :: "string \<Rightarrow> unit + string" where
  "requiredSha s = bind_ok (requiredString s 128) (\<lambda>t.
     if is_sha_any_case t then Inr (js_lower t) else Inl ())"

definition observeOpenPullRequest :: "(unit + raw_pull) \<Rightarrow> string \<Rightarrow> int \<Rightarrow> open_pull call_answer" where
  "observeOpenPullRequest answer repository pullRequest =
     (let unobserved = Failure (app_fail Ap_CONFLICT ''GitHub pull request state could not be observed'' True)
      in if \<not> repositoryCoordinates repository then unobserved
         else case answer of
           Inl _ \<Rightarrow> unobserved
         | Inr raw \<Rightarrow>
             if rp_number raw \<noteq> pullRequest
             then Failure (app_fail Ap_CONFLICT ''GitHub pull request identity mismatch'' False)
             else if rp_state raw \<noteq> ''open'' \<or> rp_is_merged raw
             then Failure (app_fail Ap_CONFLICT
               ''Merge verification receipts can only be produced for an open unmerged pull request'' False)
             else if rp_full_name raw \<noteq> repository
             then Failure (app_fail Ap_CONFLICT ''GitHub pull request repository identity mismatch'' False)
             else (case bind_ok (requiredSha (rp_head_sha raw)) (\<lambda>head.
                   bind_ok (requiredSha (rp_base_sha raw)) (\<lambda>base.
                   bind_ok (requiredString (rp_base_ref raw) 256) (\<lambda>branch. Inr (head, base, branch)))) of
                 Inl _ \<Rightarrow> unobserved
               | Inr (head, base, branch) \<Rightarrow> Answer \<lparr>ou_repository = repository, ou_pullRequest = pullRequest,
                   ou_headSha = head, ou_baseSha = base, ou_baseBranch = branch\<rparr>))"

definition open_subject :: "open_pull \<Rightarrow> merge_subject" where
  "open_subject p = \<lparr>ms_repository = ou_repository p, ms_pullRequest = ou_pullRequest p,
     ms_headSha = ou_headSha p, ms_baseBranch = ou_baseBranch p, ms_baseSha = Some (ou_baseSha p)\<rparr>"

section \<open>Evidence texts\<close>

definition RUNNER_EVIDENCE_CHARS :: nat where "RUNNER_EVIDENCE_CHARS = 3500"

definition boundedEvidence :: "string \<Rightarrow> string" where
  "boundedEvidence value = (if length value \<le> RUNNER_EVIDENCE_CHARS then value
     else take (RUNNER_EVIDENCE_CHARS - 15) value @ ELLIPSIS # ''[truncated]'')"

lemma boundedEvidence_length: "length (boundedEvidence v) \<le> RUNNER_EVIDENCE_CHARS"
  by (simp add: boundedEvidence_def RUNNER_EVIDENCE_CHARS_def)

definition plain_arg_char :: "char \<Rightarrow> bool" where
  "plain_arg_char c \<longleftrightarrow> word_char c \<or> c \<in> set ''./:@=+-''"

text \<open>\<open>JSON.stringify\<close> of a string.\<close>

definition hex_digit :: "nat \<Rightarrow> char" where
  "hex_digit n = ''0123456789abcdef'' ! (n mod 16)"

definition json_char :: "char \<Rightarrow> string" where
  "json_char c = (let n = of_char c :: nat in
     if n = 34 then [CHR 0x5C, CHR 0x22] else if n = 92 then [CHR 0x5C, CHR 0x5C]
     else if n = 8 then [CHR 0x5C, CHR ''b''] else if n = 9 then [CHR 0x5C, CHR ''t'']
     else if n = 10 then [CHR 0x5C, CHR ''n''] else if n = 12 then [CHR 0x5C, CHR ''f'']
     else if n = 13 then [CHR 0x5C, CHR ''r'']
     else if n < 32 then [CHR 0x5C, CHR ''u'', CHR ''0'', CHR ''0'', hex_digit (n div 16), hex_digit n]
     else [c])"

definition shellQuoteForEvidence :: "string \<Rightarrow> string" where
  "shellQuoteForEvidence v = (if v \<noteq> [] \<and> list_all plain_arg_char v then v
     else CHR 0x22 # concat (map json_char v) @ [CHR 0x22])"

fun join_space :: "string list \<Rightarrow> string" where
  "join_space [] = ''''"
| "join_space [s] = s"
| "join_space (s # t # ss) = s @ '' '' @ join_space (t # ss)"

record command_result =
  cr_exitCode :: "int option"
  cr_stdout :: string
  cr_stderr :: string
  cr_unavailable :: bool

definition commandEvidence :: "command_spec \<Rightarrow> command_result \<Rightarrow> string" where
  "commandEvidence c r = boundedEvidence (
     ''command='' @ join_space (map shellQuoteForEvidence (cs_executable c # cs_args c)) @ '' exit=''
     @ (case cr_exitCode r of None \<Rightarrow> ''unavailable'' | Some n \<Rightarrow> int_string n)
     @ (if js_trim (cr_stdout r) \<noteq> [] then CHR 0x0A # ''stdout='' @ js_trim (cr_stdout r) else [])
     @ (if js_trim (cr_stderr r) \<noteq> [] then CHR 0x0A # ''stderr='' @ js_trim (cr_stderr r) else []))"

section \<open>Evidence of the gates\<close>

record workflow_run =
  wr_id :: int
  wr_name :: string
  wr_headSha :: string
  wr_status :: string
  wr_conclusion :: "string option"
  wr_htmlUrl :: "string option"

definition read_run :: "workflow_run \<Rightarrow> unit + workflow_run" where
  "read_run r = (if wr_id r \<le> 0 then Inl () else
     bind_ok (requiredString (wr_name r) 512) (\<lambda>name.
     bind_ok (requiredSha (wr_headSha r)) (\<lambda>head.
     bind_ok (requiredString (wr_status r) 64) (\<lambda>status.
       Inr (r\<lparr>wr_name := name, wr_headSha := head, wr_status := status\<rparr>)))))"

definition readGitHubWorkflowRuns ::
  "(unit + workflow_run list) \<Rightarrow> string \<Rightarrow> string \<Rightarrow> workflow_run list call_answer" where
  "readGitHubWorkflowRuns answer repository headSha =
     (case (if repositoryCoordinates repository then bind_ok answer (map_ok read_run) else Inl ()) of
        Inl _ \<Rightarrow> Failure (app_fail Ap_CONFLICT ''GitHub workflow evidence could not be observed'' True)
      | Inr runs \<Rightarrow> Answer (filter (\<lambda>r. js_lower (wr_headSha r) = js_lower headSha) runs))"

definition latest_run :: "string \<Rightarrow> workflow_run list \<Rightarrow> workflow_run option" where
  "latest_run gate runs = (case sort_key (\<lambda>r. - wr_id r) (filter (\<lambda>r. wr_name r = gate) runs) of
     [] \<Rightarrow> None | r # _ \<Rightarrow> Some r)"

definition githubGateReceipt :: "string \<Rightarrow> string \<Rightarrow> workflow_run list \<Rightarrow> gate_receipt" where
  "githubGateReceipt gate headSha runs = (case latest_run gate runs of
     None \<Rightarrow> \<lparr>gt_name = gate, gt_source = Github_check, gt_headSha = headSha,
       gt_outcome = Gate_unavailable,
       gt_evidence = Some ''No exact-head GitHub workflow run matched this required gate.''\<rparr>
   | Some latest \<Rightarrow> \<lparr>gt_name = gate, gt_source = Github_check, gt_headSha = headSha,
       gt_outcome = (if wr_status latest \<noteq> ''completed'' then Gate_unavailable
         else if wr_conclusion latest = Some ''success'' then Gate_passed else Gate_failed),
       gt_evidence = Some (boundedEvidence (''GitHub Actions run '' @ int_string (wr_id latest)
         @ '' status='' @ wr_status latest @ '' conclusion=''
         @ (case wr_conclusion latest of None \<Rightarrow> ''none'' | Some s \<Rightarrow> s)
         @ (case wr_htmlUrl latest of None \<Rightarrow> [] | Some u \<Rightarrow> '' url='' @ u)))\<rparr>)"

section \<open>Evidence of the review\<close>

record review_claim =
  rvc_outcome :: review_outcome
  rvc_reviewId :: "int option"
  rvc_evidence :: "string option"
  rvc_userConfirmed :: bool

record raw_review =
  rr_id :: int
  rr_commit_id :: string
  rr_state :: string
  rr_body :: "string option"

text \<open>\<open>toUpperCase\<close>, as far as the comparisons with ASCII words can tell.\<close>

definition js_upper :: "string \<Rightarrow> string" where
  "js_upper s = map (\<lambda>c. let n = of_char c :: nat in if 97 \<le> n \<and> n \<le> 122 then char_of (n - 32) else c) s"

fun contains :: "string \<Rightarrow> string \<Rightarrow> bool" where
  "contains needle [] = (needle = [])"
| "contains needle (c # cs) = (take (length needle) (c # cs) = needle \<or> contains needle cs)"

definition CLEAN_LLM_REVIEW_MARKER :: string where
  "CLEAN_LLM_REVIEW_MARKER = ''[merge-review:clean]''"

definition found_review :: "review_claim \<Rightarrow> int \<Rightarrow> string \<Rightarrow> raw_review \<Rightarrow> review_receipt call_answer" where
  "found_review q reviewId headSha candidate =
     (let unobserved = Failure (app_fail Ap_CONFLICT ''GitHub review evidence could not be observed'' True)
      in case requiredSha (rr_commit_id candidate) of
        Inl _ \<Rightarrow> unobserved
      | Inr commitId \<Rightarrow>
          if js_lower commitId \<noteq> js_lower headSha
          then Failure (app_fail Ap_CONFLICT ''Referenced GitHub review is stale for the current pull request head'' False)
          else (case requiredString (rr_state candidate) 64 of
              Inl _ \<Rightarrow> unobserved
            | Inr s \<Rightarrow>
                (let state = js_upper s;
                     body = (case rr_body candidate of
                        Some b \<Rightarrow> if js_trim b \<noteq> [] then js_trim b else ''GitHub review '' @ int_string reviewId
                      | None \<Rightarrow> ''GitHub review '' @ int_string reviewId)
                 in if rvc_outcome q = Github_approved \<and> state \<noteq> ''APPROVED''
                    then Failure (app_fail Ap_CONFLICT ''Referenced GitHub review is not an approval'' False)
                    else if rvc_outcome q = Clean_llm_review \<and> state \<noteq> ''COMMENTED''
                    then Failure (app_fail Ap_CONFLICT
                      ''Referenced clean LLM review must be a truthful COMMENTED review'' False)
                    else if rvc_outcome q = Clean_llm_review \<and> \<not> contains CLEAN_LLM_REVIEW_MARKER body
                    then Failure (app_fail Ap_CONFLICT (''Referenced clean LLM review must contain ''
                      @ CLEAN_LLM_REVIEW_MARKER) False)
                    else Answer \<lparr>vw_outcome = rvc_outcome q, vw_headSha = headSha,
                      vw_evidence = Some (boundedEvidence (''GitHub review '' @ int_string reviewId @ '': '' @ body))\<rparr>)))"

definition trimmed_evidence :: "string option \<Rightarrow> string option" where
  "trimmed_evidence e = (case e of None \<Rightarrow> None | Some s \<Rightarrow> if js_trim s = [] then None else Some s)"

definition resolveReviewReceipt ::
  "(unit + raw_review list) \<Rightarrow> string \<Rightarrow> review_claim \<Rightarrow> string \<Rightarrow> review_receipt call_answer" where
  "resolveReviewReceipt answer repository q headSha =
     (if rvc_outcome q = Review_missing \<or> rvc_outcome q = Review_rejected
      then Answer \<lparr>vw_outcome = rvc_outcome q, vw_headSha = headSha,
        vw_evidence = map_option boundedEvidence (trimmed_evidence (rvc_evidence q))\<rparr>
      else if rvc_outcome q = User_override
      then (if \<not> rvc_userConfirmed q
            then Failure (app_fail Ap_PERMISSION_REQUIRED
              ''user_override review evidence requires explicit user confirmation'' False)
            else (case trimmed_evidence (rvc_evidence q) of
                None \<Rightarrow> Failure (app_fail Ap_INVALID_INPUT ''user_override review evidence is required'' False)
              | Some s \<Rightarrow> Answer \<lparr>vw_outcome = User_override, vw_headSha = headSha,
                  vw_evidence = Some (boundedEvidence (js_trim s))\<rparr>))
      else (case rvc_reviewId q of
          None \<Rightarrow> Failure (app_fail Ap_INVALID_INPUT
            (review_outcome_name (rvc_outcome q) @ '' requires an exact GitHub reviewId'') False)
        | Some reviewId \<Rightarrow>
            (case (if repositoryCoordinates repository then answer else Inl ()) of
               Inl _ \<Rightarrow> Failure (app_fail Ap_CONFLICT ''GitHub review evidence could not be observed'' True)
             | Inr reviews \<Rightarrow> (case find (\<lambda>r. rr_id r = reviewId) reviews of
                 None \<Rightarrow> Failure (app_fail Ap_CONFLICT ''Referenced GitHub review was not found'' False)
               | Some candidate \<Rightarrow> found_review q reviewId headSha candidate))))"

end
