(* ===== verification/Merge_Remote.thy ===== *)
theory Merge_Remote
  imports Prelude
begin

text \<open>
  Which GitHub repository a checkout belongs to (apps/cli/src/runtime/github-remote.ts): the URL of a
  Git remote is parsed, and its repository is accepted only when the host is github.com or an SSH alias
  that \<open>ssh -G\<close> resolves to it. The regular expressions of the source are written out as checks of
  prefixes and of the parts between slashes. The answer of \<open>ssh -G\<close> is a parameter.
\<close>

section \<open>The parts of a URL\<close>

definition MAX_REMOTE_CHARS :: nat where "MAX_REMOTE_CHARS = 2048"
definition MAX_HOST_CHARS :: nat where "MAX_HOST_CHARS = 255"
definition GITHUB_HOST :: string where "GITHUB_HOST = ''github.com''"

datatype remote_protocol = Remote_https | Remote_ssh

record git_remote =
  grc_protocol :: remote_protocol
  grc_host :: string
  grc_repository :: string

fun split_at :: "char \<Rightarrow> string \<Rightarrow> string list" where
  "split_at d [] = [[]]"
| "split_at d (c # cs) = (if c = d then [] # split_at d cs
     else (case split_at d cs of p # ps \<Rightarrow> (c # p) # ps | [] \<Rightarrow> [[c]]))"

definition small_or_digit :: "char \<Rightarrow> bool" where
  "small_or_digit c \<longleftrightarrow> (let n = of_char c :: nat in (97 \<le> n \<and> n \<le> 122) \<or> (48 \<le> n \<and> n \<le> 57))"

definition digit_char :: "char \<Rightarrow> bool" where
  "digit_char c \<longleftrightarrow> (let n = of_char c :: nat in 48 \<le> n \<and> n \<le> 57)"

text \<open>\<open>HOST_PATTERN\<close> and \<open>SEGMENT_PATTERN\<close>.\<close>

definition host_pattern :: "string \<Rightarrow> bool" where
  "host_pattern h \<longleftrightarrow> h \<noteq> [] \<and> length h \<le> 255 \<and> small_or_digit (hd h) \<and> small_or_digit (last h)
     \<and> list_all (\<lambda>c. small_or_digit c \<or> c \<in> set ''.-'') h"

definition segment_char :: "char \<Rightarrow> bool" where
  "segment_char c \<longleftrightarrow> small_or_digit (js_lower_char c) \<and> (of_char c :: nat) < 128 \<or> c \<in> set ''._-''"

definition validSegment :: "string \<Rightarrow> bool" where
  "validSegment s \<longleftrightarrow> 1 \<le> length s \<and> length s \<le> 100 \<and> list_all segment_char s \<and> s \<noteq> ''.'' \<and> s \<noteq> ''..''"

definition remote_coordinates :: "remote_protocol \<Rightarrow> string \<Rightarrow> string \<Rightarrow> string \<Rightarrow> git_remote option" where
  "remote_coordinates protocol rawHost owner repo =
     (let host = js_lower rawHost
      in if length host > MAX_HOST_CHARS \<or> \<not> host_pattern host then None
         else if \<not> validSegment owner \<or> \<not> validSegment repo then None
         else Some \<lparr>grc_protocol = protocol, grc_host = host, grc_repository = owner @ ''/'' @ repo\<rparr>)"

section \<open>Parsing\<close>

definition has_prefix :: "string \<Rightarrow> string \<Rightarrow> bool" where
  "has_prefix p s \<longleftrightarrow> js_lower (take (length p) s) = p"

definition strip_slashes :: "string \<Rightarrow> string" where
  "strip_slashes s = rev (dropWhile (\<lambda>c. c = CHR ''/'') (rev s))"

definition git_suffixed :: "string \<Rightarrow> bool" where
  "git_suffixed s \<longleftrightarrow> 4 \<le> length s \<and> js_lower (drop (length s - 4) s) = ''.git''"

definition strip_git :: "string \<Rightarrow> string" where
  "strip_git s = (if git_suffixed s then take (length s - 4) s else s)"

text \<open>\<open>^https://([^/]+)/([^/]+)/([^/]+)$\<close>.\<close>

definition match_https :: "string \<Rightarrow> (string \<times> string \<times> string) option" where
  "match_https s = (if \<not> has_prefix ''https://'' s then None
     else (case split_at (CHR ''/'') (drop 8 s) of
         [host, owner, repo] \<Rightarrow>
           if host = [] \<or> owner = [] \<or> repo = [] then None else Some (host, owner, repo)
       | _ \<Rightarrow> None))"

text \<open>\<open>^ssh://git@([^/:]+)(?::\d+)?/([^/]+)/([^/]+)$\<close>.\<close>

definition match_ssh_url :: "string \<Rightarrow> (string \<times> string \<times> string) option" where
  "match_ssh_url s = (if \<not> has_prefix ''ssh://git@'' s then None
     else (case split_at (CHR ''/'') (drop 10 s) of
         [part, owner, repo] \<Rightarrow>
           (let host = takeWhile (\<lambda>c. c \<noteq> CHR '':'') part;
                port = drop (length host) part
            in if host = [] \<or> owner = [] \<or> repo = [] then None
               else if port = [] \<or> (2 \<le> length port \<and> list_all digit_char (tl port))
               then Some (host, owner, repo) else None)
       | _ \<Rightarrow> None))"

text \<open>\<open>^git@([^/:]+):([^/]+)/([^/]+)$\<close>.\<close>

definition match_scp :: "string \<Rightarrow> (string \<times> string \<times> string) option" where
  "match_scp s = (if \<not> has_prefix ''git@'' s then None
     else (let rest = drop 4 s;
               host = takeWhile (\<lambda>c. c \<noteq> CHR ''/'' \<and> c \<noteq> CHR '':'') rest;
               after = drop (length host) rest
           in if host = [] \<or> after = [] \<or> hd after \<noteq> CHR '':'' then None
              else (case split_at (CHR ''/'') (tl after) of
                  [owner, repo] \<Rightarrow> if owner = [] \<or> repo = [] then None else Some (host, owner, repo)
                | _ \<Rightarrow> None)))"

definition parseGitRemote :: "string \<Rightarrow> git_remote option" where
  "parseGitRemote v =
     (let trimmed = js_trim v
      in if trimmed = [] \<or> length trimmed > MAX_REMOTE_CHARS then None
         else (let normalized = strip_git (strip_slashes trimmed)
               in case match_https normalized of
                    Some (host, owner, repo) \<Rightarrow> remote_coordinates Remote_https host owner repo
                  | None \<Rightarrow> (case match_ssh_url normalized of
                      Some (host, owner, repo) \<Rightarrow> remote_coordinates Remote_ssh host owner repo
                    | None \<Rightarrow> (case match_scp normalized of
                        Some (host, owner, repo) \<Rightarrow> remote_coordinates Remote_ssh host owner repo
                      | None \<Rightarrow> None))))"

section \<open>The host\<close>

definition split_lines :: "string \<Rightarrow> string list" where
  "split_lines s =
     (let ls = split_at (CHR 0x0A) s;
          drop_cr = (\<lambda>l. if l \<noteq> [] \<and> last l = CHR 0x0D then butlast l else l)
      in map drop_cr (butlast ls) @ [last ls])"

text \<open>\<open>^\s*hostname\s+(\S+)\s*$\<close>.\<close>

definition match_hostname :: "string \<Rightarrow> string option" where
  "match_hostname line =
     (let t = dropWhile js_space line;
          gap = takeWhile js_space (drop 8 t);
          value = takeWhile (\<lambda>c. \<not> js_space c) (drop (8 + length gap) t);
          rest = drop (8 + length gap + length value) t
      in if has_prefix ''hostname'' t \<and> gap \<noteq> [] \<and> value \<noteq> [] \<and> list_all js_space rest
         then Some value else None)"

fun first_hostname :: "string list \<Rightarrow> string option" where
  "first_hostname [] = None"
| "first_hostname (l # ls) = (case match_hostname l of None \<Rightarrow> first_hostname ls | Some h \<Rightarrow> Some h)"

definition sshHostnameFromConfig :: "string \<Rightarrow> string option" where
  "sshHostnameFromConfig output = first_hostname (split_lines output)"

text \<open>\<open>sshConfig\<close> is what \<open>ssh -G host\<close> prints, if it succeeds.\<close>

definition resolveSshHostname :: "(string \<Rightarrow> string option) \<Rightarrow> string \<Rightarrow> unit + string option" where
  "resolveSshHostname sshConfig host =
     (if length host > MAX_HOST_CHARS \<or> \<not> host_pattern host then Inr None
      else (case sshConfig host of None \<Rightarrow> Inr None | Some output \<Rightarrow> Inr (sshHostnameFromConfig output)))"

definition strip_dot :: "string \<Rightarrow> string" where
  "strip_dot s = (if s \<noteq> [] \<and> last s = CHR ''.'' then butlast s else s)"

text \<open>The resolver answers, answers that it does not know, or throws.\<close>

definition githubRepositoryFromRemote ::
  "(string \<Rightarrow> unit + string option) \<Rightarrow> string \<Rightarrow> string option" where
  "githubRepositoryFromRemote resolveHostname v = (case parseGitRemote v of
     None \<Rightarrow> None
   | Some parsed \<Rightarrow>
       if grc_host parsed = GITHUB_HOST then Some (grc_repository parsed)
       else if grc_protocol parsed \<noteq> Remote_ssh then None
       else (case resolveHostname (grc_host parsed) of
           Inl _ \<Rightarrow> None
         | Inr None \<Rightarrow> None
         | Inr (Some hostname) \<Rightarrow>
             (let normalized = strip_dot (js_lower (js_trim hostname))
              in if length normalized > MAX_HOST_CHARS \<or> \<not> host_pattern normalized then None
                 else if normalized = GITHUB_HOST then Some (grc_repository parsed) else None)))"

section \<open>What is accepted\<close>

definition names_github :: "(string \<Rightarrow> unit + string option) \<Rightarrow> git_remote \<Rightarrow> bool" where
  "names_github resolveHostname remote \<longleftrightarrow> grc_host remote = GITHUB_HOST
     \<or> (grc_protocol remote = Remote_ssh \<and> (\<exists>h. resolveHostname (grc_host remote) = Inr (Some h)
          \<and> strip_dot (js_lower (js_trim h)) = GITHUB_HOST))"

lemma github_pattern: "host_pattern GITHUB_HOST" "length GITHUB_HOST \<le> MAX_HOST_CHARS"
  unfolding atomize_conj by code_simp

lemma github_repository_iff: "githubRepositoryFromRemote resolveHostname v = Some r \<longleftrightarrow>
    (\<exists>remote. parseGitRemote v = Some remote \<and> names_github resolveHostname remote \<and> r = grc_repository remote)"
  using github_pattern
  by (auto simp: githubRepositoryFromRemote_def names_github_def Let_def split: option.splits sum.splits)

text \<open>The texts of a remote that stand for the same repository.\<close>

lemma split_at_none: "d \<notin> set s \<Longrightarrow> split_at d s = [s]"
  by (induction s) auto

lemma split_at_append: "d \<notin> set s \<Longrightarrow> split_at d (s @ d # t) = s # split_at d t"
  by (induction s) auto

lemma segment_chars:
  assumes "validSegment s"
  shows "CHR ''/'' \<notin> set s" "s \<noteq> []" "\<not> js_space (hd s)" "\<not> js_space (last s)" "last s \<noteq> CHR ''/''"
proof -
  have all: "segment_char c" if "c \<in> set s" for c using assms that by (simp add: validSegment_def list_all_iff)
  have slash: "\<not> segment_char (CHR ''/'')" by code_simp
  have space: "\<not> js_space c" if "segment_char c" for c
  proof
    assume "js_space c"
    then have "c = char_of (9::nat) \<or> c = char_of (10::nat) \<or> c = char_of (11::nat) \<or> c = char_of (12::nat)
        \<or> c = char_of (13::nat) \<or> c = char_of (32::nat) \<or> c = char_of (160::nat)"
      unfolding js_space_def by (metis char_of_char insertE empty_iff)
    moreover have "\<not> segment_char (char_of (9::nat))" "\<not> segment_char (char_of (10::nat))"
      "\<not> segment_char (char_of (11::nat))" "\<not> segment_char (char_of (12::nat))"
      "\<not> segment_char (char_of (13::nat))" "\<not> segment_char (char_of (32::nat))"
      "\<not> segment_char (char_of (160::nat))" unfolding atomize_conj by code_simp
    ultimately show False using that by auto
  qed
  show "CHR ''/'' \<notin> set s" using all slash by blast
  show ne: "s \<noteq> []" using assms by (auto simp: validSegment_def)
  show "\<not> js_space (hd s)" "\<not> js_space (last s)" "last s \<noteq> CHR ''/''"
    using ne all [OF hd_in_set [OF ne]] all [OF last_in_set [OF ne]] space slash by auto
qed

lemma host_chars:
  assumes "host_pattern h"
  shows "CHR ''/'' \<notin> set h" "CHR '':'' \<notin> set h" "h \<noteq> []" "js_lower h = h" "length h \<le> MAX_HOST_CHARS"
proof -
  have all: "small_or_digit c \<or> c \<in> set ''.-''" if "c \<in> set h" for c
    using assms that by (simp add: host_pattern_def list_all_iff)
  show "CHR ''/'' \<notin> set h" "CHR '':'' \<notin> set h" using all by (fastforce simp: small_or_digit_def)+
  show "h \<noteq> []" "length h \<le> MAX_HOST_CHARS" using assms by (auto simp: host_pattern_def MAX_HOST_CHARS_def)
  have low: "js_lower_char c = c" if "c \<in> set h" for c
    using all [OF that] by (auto simp: small_or_digit_def js_lower_char_def Let_def)
  show "js_lower h = h" unfolding js_lower_def by (rule map_idI) (rule low)
qed

lemma js_trim_outer: "s \<noteq> [] \<Longrightarrow> \<not> js_space (hd s) \<Longrightarrow> \<not> js_space (last s) \<Longrightarrow> js_trim s = s"
proof -
  assume s: "s \<noteq> []" "\<not> js_space (hd s)" "\<not> js_space (last s)"
  have front: "dropWhile js_space s = s" using s(1,2) by (cases s) auto
  have "dropWhile js_space (rev s) = rev s" using s(1,3) by (cases s rule: rev_cases) auto
  then show ?thesis by (simp add: js_trim_def front)
qed

lemma suffixed_segment:
  assumes "git_suffixed (b @ CHR ''/'' # r)" shows "git_suffixed r"
proof (cases "4 \<le> length r")
  case True
  then have "drop (length r - 3) (CHR ''/'' # r) = drop (length r - 4) r" by (simp add: drop_Cons' numeral_eq_Suc)
  with True show ?thesis using assms by (simp add: git_suffixed_def)
next
  case False
  let ?s = "b @ CHR ''/'' # r"
  have "drop (length ?s - 4) ?s = drop (length ?s - 4) b @ CHR ''/'' # r" using False by simp
  then have "CHR ''/'' \<in> set (drop (length ?s - 4) ?s)" by simp
  then have "js_lower_char (CHR ''/'') \<in> set (js_lower (drop (length ?s - 4) ?s))"
    unfolding js_lower_def set_map by (rule imageI)
  moreover have "js_lower_char (CHR ''/'') = CHR ''/''" by code_simp
  ultimately show ?thesis using assms by (simp add: git_suffixed_def)
qed

text \<open>The suffixes the parser takes off a base that ends with a repository.\<close>

definition remote_suffixes :: "string set" where
  "remote_suffixes = {'''', ''.git'', ''/'', ''.git/''}"

lemma normalized_remote:
  assumes b: "b \<noteq> []" "\<not> js_space (hd b)" and r: "validSegment r" "\<not> git_suffixed r"
    and ending: "ending \<in> remote_suffixes"
  shows "js_trim (b @ ''/'' @ r @ ending) = b @ ''/'' @ r @ ending"
    "strip_git (strip_slashes (b @ ''/'' @ r @ ending)) = b @ ''/'' @ r"
proof -
  let ?base = "b @ ''/'' @ r"
  note seg = segment_chars [OF r(1)]
  have ends: "\<not> js_space (CHR ''t'')" "\<not> js_space (CHR ''/'')" unfolding atomize_conj by code_simp
  show "js_trim (b @ ''/'' @ r @ ending) = b @ ''/'' @ r @ ending"
    by (rule js_trim_outer) (use b ending seg ends in \<open>auto simp: remote_suffixes_def last_append hd_append\<close>)
  have keep: "strip_slashes t = t" if "t \<noteq> []" "last t \<noteq> CHR ''/''" for t
    using that by (cases t rule: rev_cases) (auto simp: strip_slashes_def)
  have cut: "strip_slashes (t @ ''/'') = strip_slashes t" for t by (simp add: strip_slashes_def)
  have plain: "strip_git ?base = ?base" using suffixed_segment [of b r] r(2) by (auto simp: strip_git_def)
  have low: "js_lower ''.git'' = ''.git''" by code_simp
  have git: "strip_git (?base @ ''.git'') = ?base" by (simp add: strip_git_def git_suffixed_def low)
  have base: "strip_slashes ?base = ?base" "strip_slashes (?base @ ''.git'') = ?base @ ''.git''"
    by (rule keep; use seg in simp)+
  have cuts: "strip_slashes (?base @ ''/'') = ?base" "strip_slashes (?base @ ''.git/'') = ?base @ ''.git''"
    using cut [of ?base] cut [of "?base @ ''.git''"] base by simp_all
  from ending show "strip_git (strip_slashes (b @ ''/'' @ r @ ending)) = ?base"
    using base cuts plain git by (auto simp: remote_suffixes_def)
qed

lemma remote_coordinates_valid:
  "host_pattern h \<Longrightarrow> validSegment owner \<Longrightarrow> validSegment r \<Longrightarrow> remote_coordinates protocol h owner r =
    Some \<lparr>grc_protocol = protocol, grc_host = h, grc_repository = owner @ ''/'' @ r\<rparr>"
  using host_chars [of h] by (simp add: remote_coordinates_def)

lemma parse_normalized:
  assumes "validSegment r" "\<not> git_suffixed r" "ending \<in> remote_suffixes"
    and b: "b \<noteq> []" "\<not> js_space (hd b)" "length b \<le> 400"
  shows "parseGitRemote (b @ ''/'' @ r @ ending) = (case match_https (b @ ''/'' @ r) of
      Some (host, owner, repo) \<Rightarrow> remote_coordinates Remote_https host owner repo
    | None \<Rightarrow> (case match_ssh_url (b @ ''/'' @ r) of
        Some (host, owner, repo) \<Rightarrow> remote_coordinates Remote_ssh host owner repo
      | None \<Rightarrow> (case match_scp (b @ ''/'' @ r) of
          Some (host, owner, repo) \<Rightarrow> remote_coordinates Remote_ssh host owner repo | None \<Rightarrow> None)))"
proof -
  note n = normalized_remote [OF b(1,2) assms(1-3)]
  have "length r \<le> 100" using assms(1) by (simp add: validSegment_def)
  moreover have "length ending \<le> 5" using assms(3) by (auto simp: remote_suffixes_def)
  ultimately have "\<not> length (b @ ''/'' @ r @ ending) > MAX_REMOTE_CHARS" using b(3) by (simp add: MAX_REMOTE_CHARS_def)
  then show ?thesis unfolding parseGitRemote_def Let_def n by simp
qed

lemma matched_remotes:
  assumes h: "host_pattern h" and o: "validSegment owner" and r: "validSegment r"
  shows "match_https (''https://'' @ h @ ''/'' @ owner @ ''/'' @ r) = Some (h, owner, r)"
    "match_https (''ssh://git@'' @ t) = None" "match_https (''git@'' @ t) = None"
    "match_ssh_url (''ssh://git@'' @ h @ ''/'' @ owner @ ''/'' @ r) = Some (h, owner, r)"
    "match_ssh_url (''git@'' @ t) = None"
    "match_scp (''git@'' @ h @ '':'' @ owner @ ''/'' @ r) = Some (h, owner, r)"
proof -
  have low: "js_lower_char (CHR ''s'') = CHR ''s''" "js_lower_char (CHR ''g'') = CHR ''g''"
    "js_lower ''https://'' = ''https://''" "js_lower ''ssh://git@'' = ''ssh://git@''" "js_lower ''git@'' = ''git@''"
    unfolding atomize_conj by code_simp
  note hs = host_chars [OF h] and os = segment_chars [OF o] and rs = segment_chars [OF r]
  have split: "split_at (CHR ''/'') (h @ CHR ''/'' # owner @ CHR ''/'' # r) = [h, owner, r]"
    "split_at (CHR ''/'') (owner @ CHR ''/'' # r) = [owner, r]"
    using hs os rs by (simp_all add: split_at_append split_at_none)
  show "match_https (''https://'' @ h @ ''/'' @ owner @ ''/'' @ r) = Some (h, owner, r)"
    using split hs os rs low by (simp add: match_https_def has_prefix_def)
  show "match_https (''ssh://git@'' @ t) = None" "match_https (''git@'' @ t) = None"
    using low by (simp_all add: match_https_def has_prefix_def js_lower_def)
  have colon: "takeWhile (\<lambda>c. c \<noteq> CHR '':'') h = h" unfolding takeWhile_eq_all_conv using hs(2) by blast
  show "match_ssh_url (''ssh://git@'' @ h @ ''/'' @ owner @ ''/'' @ r) = Some (h, owner, r)"
    using split hs os rs low colon by (simp add: match_ssh_url_def has_prefix_def Let_def del: takeWhile_eq_all_conv)
  show "match_ssh_url (''git@'' @ t) = None"
    using low by (simp add: match_ssh_url_def has_prefix_def js_lower_def)
  have all: "\<forall>c \<in> set h. c \<noteq> CHR ''/'' \<and> c \<noteq> CHR '':''" using hs(1,2) by metis
  then have scp: "takeWhile (\<lambda>c. c \<noteq> CHR ''/'' \<and> c \<noteq> CHR '':'') (h @ CHR '':'' # u) = h" for u
    by (simp add: takeWhile_append2)
  show "match_scp (''git@'' @ h @ '':'' @ owner @ ''/'' @ r) = Some (h, owner, r)"
    using split hs os rs low scp by (simp add: match_scp_def has_prefix_def)
qed

text \<open>Three spellings of one repository.\<close>

definition https_remote :: "string \<Rightarrow> string \<Rightarrow> string" where
  "https_remote h repository = ''https://'' @ h @ ''/'' @ repository"

definition ssh_remote :: "string \<Rightarrow> string \<Rightarrow> string" where
  "ssh_remote h repository = ''ssh://git@'' @ h @ ''/'' @ repository"

definition scp_remote :: "string \<Rightarrow> string \<Rightarrow> string" where
  "scp_remote h repository = ''git@'' @ h @ '':'' @ repository"

lemma spelled_remotes:
  assumes "host_pattern h" "validSegment owner" "validSegment r" "\<not> git_suffixed r" "ending \<in> remote_suffixes"
  shows "parseGitRemote (https_remote h (owner @ ''/'' @ r) @ ending) =
      Some \<lparr>grc_protocol = Remote_https, grc_host = h, grc_repository = owner @ ''/'' @ r\<rparr>"
    "parseGitRemote (ssh_remote h (owner @ ''/'' @ r) @ ending) =
      Some \<lparr>grc_protocol = Remote_ssh, grc_host = h, grc_repository = owner @ ''/'' @ r\<rparr>"
    "parseGitRemote (scp_remote h (owner @ ''/'' @ r) @ ending) =
      Some \<lparr>grc_protocol = Remote_ssh, grc_host = h, grc_repository = owner @ ''/'' @ r\<rparr>"
proof -
  have len: "length h \<le> 255" "length owner \<le> 100" using assms(1,2) by (simp_all add: host_pattern_def validSegment_def)
  have first: "\<not> js_space (CHR ''h'')" "\<not> js_space (CHR ''s'')" "\<not> js_space (CHR ''g'')" unfolding atomize_conj by code_simp
  note p = parse_normalized [OF assms(3-5)]
  note m = matched_remotes [OF assms(1-3)] and c = remote_coordinates_valid [OF assms(1-3)]
  show "parseGitRemote (https_remote h (owner @ ''/'' @ r) @ ending) =
      Some \<lparr>grc_protocol = Remote_https, grc_host = h, grc_repository = owner @ ''/'' @ r\<rparr>"
    using p [of "''https://'' @ h @ ''/'' @ owner"] len first m(1) c by (simp add: https_remote_def)
  show "parseGitRemote (ssh_remote h (owner @ ''/'' @ r) @ ending) =
      Some \<lparr>grc_protocol = Remote_ssh, grc_host = h, grc_repository = owner @ ''/'' @ r\<rparr>"
    using p [of "''ssh://git@'' @ h @ ''/'' @ owner"] len first m(2,4) c by (simp add: ssh_remote_def)
  show "parseGitRemote (scp_remote h (owner @ ''/'' @ r) @ ending) =
      Some \<lparr>grc_protocol = Remote_ssh, grc_host = h, grc_repository = owner @ ''/'' @ r\<rparr>"
    using p [of "''git@'' @ h @ '':'' @ owner"] len first m(3,5,6) c by (simp add: scp_remote_def)
qed

text \<open>
  The three spellings of a remote, with or without the suffixes Git tolerates, name the same repository;
  HTTPS is only trusted on github.com itself, SSH also on an alias that resolves to it.
\<close>
theorem remote_spellings_agree:
  fixes e owner r h :: string
  defines "repository \<equiv> owner @ ''/'' @ r"
  assumes "host_pattern h" "validSegment owner" "validSegment r" "\<not> git_suffixed r" "e \<in> remote_suffixes"
  shows "githubRepositoryFromRemote resolve (https_remote h repository @ e) =
      (if h = GITHUB_HOST then Some repository else None)"
    "githubRepositoryFromRemote resolve (ssh_remote h repository @ e) =
      githubRepositoryFromRemote resolve (scp_remote h repository @ e)"
    "githubRepositoryFromRemote resolve (scp_remote h repository @ e) = Some x \<longleftrightarrow> x = repository
      \<and> (h = GITHUB_HOST \<or> (\<exists>n. resolve h = Inr (Some n) \<and> strip_dot (js_lower (js_trim n)) = GITHUB_HOST))"
proof -
  note p = spelled_remotes [OF assms(2-6)]
  show "githubRepositoryFromRemote resolve (https_remote h repository @ e) =
      (if h = GITHUB_HOST then Some repository else None)"
    "githubRepositoryFromRemote resolve (ssh_remote h repository @ e) =
      githubRepositoryFromRemote resolve (scp_remote h repository @ e)"
    unfolding repository_def githubRepositoryFromRemote_def p by simp_all
  show "githubRepositoryFromRemote resolve (scp_remote h repository @ e) = Some x \<longleftrightarrow> x = repository
      \<and> (h = GITHUB_HOST \<or> (\<exists>n. resolve h = Inr (Some n) \<and> strip_dot (js_lower (js_trim n)) = GITHUB_HOST))"
    unfolding repository_def github_repository_iff p(3) names_github_def by auto
qed

end
