(* ===== verification/Merge_Run.thy ===== *)
theory Merge_Run
  imports Merge_Runner Merge_Remote
begin

text \<open>
  The stateful half of merge-verification-runner.ts: admission, the loop over the gates, and \<open>run\<close>.
  \<open>rw_step\<close> numbers the calls the run made so far; the clock, the registered workspaces, what Git finds
  in a directory, the result of a command in a directory and what other processes did to the attempts
  are functions of it. \<open>rw_commands\<close> lists the commands that were started, with the gate and the attempt
  they ran for. The verifier and the command runner are the ones the module creates itself.
\<close>

section \<open>The workspace at the exact head\<close>

record workspace_git =
  wg_head :: string
  wg_status :: string
  wg_remote :: string

datatype inspect_answer = Inspected string | Inspect_refused app_error | Inspect_throws

text \<open>
  \<open>createExactHeadWorkspaceVerifier\<close>: the root of the workspace, if there is one, and what Git answers
  for the head, the status and the URL of the remote.
\<close>

definition inspect_exact_head ::
  "(string \<Rightarrow> unit + string option) \<Rightarrow> string option \<Rightarrow> (string \<Rightarrow> unit + workspace_git) \<Rightarrow> string \<Rightarrow> string
     \<Rightarrow> string \<Rightarrow> inspect_answer" where
  "inspect_exact_head resolveHostname rootDir git workspaceId repository headSha = (case rootDir of
     None \<Rightarrow> Inspect_refused (app_fail Ap_WORKSPACE_NOT_FOUND (''Workspace not found: '' @ workspaceId) False)
   | Some rootPath \<Rightarrow> (case git rootPath of
       Inl _ \<Rightarrow> Inspect_refused (app_fail Ap_CONFLICT
         ''Verification workspace Git identity could not be inspected'' True)
     | Inr g \<Rightarrow>
         if js_lower (js_trim (wg_head g)) \<noteq> js_lower headSha
         then Inspect_refused (app_fail Ap_CONFLICT
           ''Verification workspace HEAD does not match the exact pull request head'' False)
         else if js_trim (wg_status g) \<noteq> []
         then Inspect_refused (app_fail Ap_CONFLICT
           ''Verification workspace must be clean before and after local gates'' False)
         else if map_option js_lower (githubRepositoryFromRemote resolveHostname (js_trim (wg_remote g)))
                \<noteq> Some (js_lower repository)
         then Inspect_refused (app_fail Ap_PERMISSION_DENIED
           ''Verification workspace origin does not match the requested repository'' False)
         else Inspected rootPath))"

lemma inspected_iff: "inspect_exact_head resolveHostname rootDir git workspaceId repository headSha = Inspected rootPath \<longleftrightarrow>
    rootDir = Some rootPath \<and> (\<exists>g remote. git rootPath = Inr g \<and> js_lower (js_trim (wg_head g)) = js_lower headSha
      \<and> js_trim (wg_status g) = [] \<and> parseGitRemote (js_trim (wg_remote g)) = Some remote
      \<and> names_github resolveHostname remote \<and> js_lower (grc_repository remote) = js_lower repository)"
  by (cases rootDir)
    (auto simp: inspect_exact_head_def github_repository_iff map_option_eq_Some split: option.splits sum.splits)

section \<open>The request, the environment and the world\<close>

record run_request =
  rn_policy :: merge_policy
  rn_repository :: string
  rn_pullRequest :: int
  rn_workspaceId :: "string option"
  rn_review :: review_claim

record run_env =
  re_config :: admission_config
  re_reading :: admission_reading
  re_clock :: "nat \<Rightarrow> iso"
  re_others :: "nat \<Rightarrow> attempt_op list"
  re_pull :: "unit + raw_pull"
  re_runs :: "unit + workflow_run list"
  re_reviews :: "unit + raw_review list"
  re_workspace :: "nat \<Rightarrow> string \<Rightarrow> unit + string option"
  re_git :: "nat \<Rightarrow> string \<Rightarrow> unit + workspace_git"
  re_hostname :: "string \<Rightarrow> unit + string option"
  re_realpath :: "string \<Rightarrow> string option"
  re_resolve :: "string \<Rightarrow> string \<Rightarrow> string"
  re_command :: "nat \<Rightarrow> command_spec \<Rightarrow> string \<Rightarrow> command_result option"
  re_beats :: "nat \<Rightarrow> iso list"
  re_randomId :: string
  re_randomAttemptId :: string
  re_hasAttempts :: bool
  re_readsReceipts :: bool

text \<open>A command that was started: for which gate and attempt, and where and when.\<close>

record started_command =
  sc_gate :: string
  sc_attempt :: "string option"
  sc_command :: command_spec
  sc_cwd :: string
  sc_step :: nat

record run_world =
  rw_attempts :: attempt_db
  rw_receipts :: receipt_db
  rw_admission :: admission
  rw_step :: nat
  rw_commands :: "started_command list"

definition ATTEMPT_STALE_AFTER_MS :: int where "ATTEMPT_STALE_AFTER_MS = 90000"
definition MERGE_VERIFICATION_ADMISSION_COST :: int where "MERGE_VERIFICATION_ADMISSION_COST = 8"

record verdict =
  vd_receiptRef :: string
  vd_receipt :: merge_receipt
  vd_decision :: merge_decision
  vd_sequence :: int

text \<open>A queued run is always retryable, and says so in a fixed text.\<close>

record queued_run =
  qr_attemptId :: string
  qr_repository :: string
  qr_pullRequest :: int
  qr_headSha :: string
  qr_reason :: pressure_reason
  qr_requestedCost :: jsnum

datatype run_result = Run_completed verdict | Run_queued queued_run

text \<open>A call: the next step, before which the others work on the attempts.\<close>

definition turn :: "run_env \<Rightarrow> run_world \<Rightarrow> run_world" where
  "turn env w = w\<lparr>rw_attempts := run_ops attempt_step (rw_attempts w) (re_others env (rw_step w)),
     rw_step := rw_step w + 1\<rparr>"

definition run_now :: "run_env \<Rightarrow> run_world \<Rightarrow> iso" where
  "run_now env w = re_clock env (rw_step w)"

definition call_attempts ::
  "run_env \<Rightarrow> (attempt_db \<Rightarrow> attempt_db \<times> 'a) \<Rightarrow> run_world \<Rightarrow> run_world \<times> 'a" where
  "call_attempts env f w =
     (let w1 = turn env w in case f (rw_attempts w1) of (db, r) \<Rightarrow> (w1\<lparr>rw_attempts := db\<rparr>, r))"

text \<open>
  \<open>workspaceVerifier.inspect({ workspaceId, repository, headSha })\<close>: the workspace and its Git as they are
  at this step. A lookup of the workspace that throws is outside the \<open>try\<close>.
\<close>

definition inspect_workspace ::
  "run_env \<Rightarrow> string \<Rightarrow> string \<Rightarrow> string \<Rightarrow> run_world \<Rightarrow> run_world \<times> inspect_answer" where
  "inspect_workspace env workspaceId repository headSha w =
     (turn env w, case re_workspace env (rw_step w) workspaceId of
        Inl _ \<Rightarrow> Inspect_throws
      | Inr rootDir \<Rightarrow> inspect_exact_head (re_hostname env) rootDir (re_git env (rw_step w))
          workspaceId repository headSha)"

text \<open>\<open>request.workspaceId!\<close>: a request without one has been refused before.\<close>

definition request_workspace :: "run_request \<Rightarrow> string" where
  "request_workspace q = (case rn_workspaceId q of Some i \<Rightarrow> i | None \<Rightarrow> ''undefined'')"

section \<open>Admission\<close>

datatype admission_outcome =
  Adm_admitted admission_lease
| Adm_pressure pressure_reason jsnum
| Adm_rejected app_error
| Adm_throws

definition verification_request :: "string \<Rightarrow> string \<Rightarrow> admission_request" where
  "verification_request operationId workspaceId =
     \<lparr>arq_operation = JStr operationId, arq_workspace = JStr workspaceId, arq_session = JUndefined,
      arq_class = JStr ''verification_heavy'', arq_cost = JNum (int_num MERGE_VERIFICATION_ADMISSION_COST)\<rparr>"

definition decideVerificationAdmission ::
  "run_env \<Rightarrow> string \<Rightarrow> string \<Rightarrow> run_world \<Rightarrow> run_world \<times> admission_outcome" where
  "decideVerificationAdmission env operationId workspaceId w =
     (case tryAcquire (re_config env) (re_reading env) (rw_admission w)
        (verification_request operationId workspaceId) of
        (adm, r) \<Rightarrow> (w\<lparr>rw_admission := adm\<rparr>, case r of
            Inl _ \<Rightarrow> Adm_throws
          | Inr (Admitted lease _) \<Rightarrow> Adm_admitted lease
          | Inr (Pressured reason cost _) \<Rightarrow> Adm_pressure reason cost
          | Inr (Refused Duplicate_Operation _ _) \<Rightarrow> Adm_rejected (app_fail Ap_CONFLICT
              (''Merge verification admission is already held for '' @ operationId) True)
          | Inr (Refused Invalid_Request _ _) \<Rightarrow> Adm_rejected (app_fail Ap_INVALID_INPUT
              ''Merge verification admission request was rejected (invalid_request)'' False)))"

fun pressure_reason_name :: "pressure_reason \<Rightarrow> string" where
  "pressure_reason_name Memory_Pressure = ''memory_pressure''"
| "pressure_reason_name Global_Cost_Exhausted = ''global_cost_exhausted''"
| "pressure_reason_name Workspace_Cost_Exhausted = ''workspace_cost_exhausted''"
| "pressure_reason_name Session_Cost_Exhausted = ''session_cost_exhausted''"
| "pressure_reason_name Resource_Class_Cost_Exhausted = ''resource_class_cost_exhausted''"
| "pressure_reason_name Heavy_Capacity_Exhausted = ''heavy_capacity_exhausted''"
| "pressure_reason_name Operation_Limit_Exhausted = ''operation_limit_exhausted''"

definition pressureError :: "pressure_reason \<Rightarrow> app_error" where
  "pressureError reason = app_fail Ap_RESOURCE_PRESSURE (''Exact-head merge verification was not admitted (''
     @ pressure_reason_name reason @ ''); wait for the running heavy work to finish, then retry'') True"

text \<open>\<open>finally { admission.release(lease) }\<close>.\<close>

definition release_after :: "admission_lease \<Rightarrow> run_world \<times> 'a \<Rightarrow> run_world \<times> 'a" where
  "release_after lease p = (case p of (w, r) \<Rightarrow>
     (w\<lparr>rw_admission := fst (release (rw_admission w) lease)\<rparr>, r))"

section \<open>Reusing a verdict\<close>

definition sameReviewEvidence :: "review_receipt \<Rightarrow> review_receipt \<Rightarrow> bool" where
  "sameReviewEvidence l r \<longleftrightarrow> vw_outcome l = vw_outcome r
     \<and> js_lower (vw_headSha l) = js_lower (vw_headSha r) \<and> vw_evidence l = vw_evidence r"

definition reusable :: "run_request \<Rightarrow> open_pull \<Rightarrow> review_receipt \<Rightarrow> receipt_record \<Rightarrow> bool" where
  "reusable q p review rec \<longleftrightarrow> mr_baseSha (rcc_receipt rec) = Some (ou_baseSha p)
     \<and> mr_verificationMode (rcc_receipt rec) = mp_verificationMode (rn_policy q)
     \<and> sameReviewEvidence (mr_review (rcc_receipt rec)) review
     \<and> evaluateMergeEvidence (rn_policy q) (open_subject p) (Some (rcc_receipt rec)) = Merge_allowed"

definition verdict_of_record :: "receipt_record \<Rightarrow> verdict" where
  "verdict_of_record rec = \<lparr>vd_receiptRef = rcc_receiptRef rec, vd_receipt = rcc_receipt rec,
     vd_decision = Merge_allowed, vd_sequence = rcc_sequence rec\<rparr>"

definition reusePersistedVerdict :: "run_env \<Rightarrow> run_request \<Rightarrow> open_pull \<Rightarrow> receipt_db \<Rightarrow> verdict call_answer option" where
  "reusePersistedVerdict env q p receipts =
     (if \<not> re_readsReceipts env then None
      else case listForExactHead (rn_repository q) (rn_pullRequest q) (ou_headSha p) (Some 10) receipts of
        Inl _ \<Rightarrow> None
      | Inr [] \<Rightarrow> None
      | Inr records \<Rightarrow>
          (case resolveReviewReceipt (re_reviews env) (rn_repository q) (rn_review q) (ou_headSha p) of
             Failure e \<Rightarrow> Some (Failure e)
           | Thrown \<Rightarrow> Some Thrown
           | Answer review \<Rightarrow> map_option (\<lambda>rec. Answer (verdict_of_record rec)) (find (reusable q p review) records)))"

section \<open>Running the gates\<close>

definition resolveCommandCwd :: "run_env \<Rightarrow> string \<Rightarrow> string option \<Rightarrow> string call_answer" where
  "resolveCommandCwd env rootPath cwdRelative = (case cwdRelative of
     None \<Rightarrow> Answer rootPath
   | Some rel \<Rightarrow>
       (let unresolved = Failure (app_fail Ap_INVALID_INPUT
            ''Verification gate cwd could not be resolved inside the workspace'' False)
        in case re_realpath env rootPath of
             None \<Rightarrow> unresolved
           | Some rootDir \<Rightarrow> (case re_realpath env (re_resolve env rootDir rel) of
               None \<Rightarrow> unresolved
             | Some candidate \<Rightarrow>
                 if candidate \<noteq> rootDir \<and> take (length rootDir + 1) candidate \<noteq> rootDir @ ''/''
                 then Failure (app_fail Ap_PATH_OUTSIDE_WORKSPACE
                   ''Verification gate cwd escapes the registered workspace'' False)
                 else Answer candidate)))"

text \<open>
  The beats of the timer while a command runs. A beat that fails is ignored, and so is the answer.
\<close>

fun run_beats :: "run_env \<Rightarrow> string \<Rightarrow> string \<Rightarrow> iso list \<Rightarrow> run_world \<Rightarrow> run_world" where
  "run_beats env i gate [] w = w"
| "run_beats env i gate (t # ts) w =
     run_beats env i gate ts (fst (call_attempts env (heartbeatAttempt i t (Some gate)) w))"

text \<open>
  The command runs at one step of the run, in the directory that was resolved for it; other processes
  go on meanwhile.
\<close>

definition runLocalGate ::
  "run_env \<Rightarrow> string \<Rightarrow> command_spec \<Rightarrow> string \<Rightarrow> string option \<Rightarrow> run_world
     \<Rightarrow> run_world \<times> command_result option" where
  "runLocalGate env gate command cwd attemptId w =
     (let w1 = (turn env w)\<lparr>rw_commands := rw_commands w @ [\<lparr>sc_gate = gate, sc_attempt = attemptId,
            sc_command = command, sc_cwd = cwd, sc_step = rw_step w\<rparr>]\<rparr>;
          w2 = (case attemptId of
            None \<Rightarrow> w1
          | Some i \<Rightarrow> if re_hasAttempts env
              then run_beats env i gate (run_now env w # re_beats env (rw_step w)) w1 else w1)
      in (w2, re_command env (rw_step w) command cwd))"

definition command_gate_receipt :: "required_gate \<Rightarrow> command_spec \<Rightarrow> string \<Rightarrow> command_result \<Rightarrow> gate_receipt" where
  "command_gate_receipt gate c headSha r =
     \<lparr>gt_name = rg_name gate, gt_source = rg_source gate, gt_headSha = headSha,
      gt_outcome = (case cr_exitCode r of
        None \<Rightarrow> Gate_unavailable
      | Some n \<Rightarrow> if cr_unavailable r then Gate_unavailable else if n = 0 then Gate_passed else Gate_failed),
      gt_evidence = Some (commandEvidence c r)\<rparr>"

definition unavailable_receipt :: "required_gate \<Rightarrow> string \<Rightarrow> string \<Rightarrow> gate_receipt" where
  "unavailable_receipt gate headSha evidence =
     \<lparr>gt_name = rg_name gate, gt_source = rg_source gate, gt_headSha = headSha,
      gt_outcome = Gate_unavailable, gt_evidence = Some evidence\<rparr>"

definition verify_local_gate ::
  "run_env \<Rightarrow> run_request \<Rightarrow> string option \<Rightarrow> string \<Rightarrow> string option \<Rightarrow> required_gate \<Rightarrow> run_world
     \<Rightarrow> run_world \<times> gate_receipt call_answer" where
  "verify_local_gate env q rootDir headSha attemptId gate w = (case rootDir of
     None \<Rightarrow> (w, Failure (app_fail Ap_INTERNAL_ERROR ''Local merge verification workspace was not resolved'' False))
   | Some rootPath \<Rightarrow> (case rg_command gate of
       None \<Rightarrow> (w, Answer (unavailable_receipt gate headSha
         ''Authoritative merge policy does not define a host-owned command for this local gate.''))
     | Some c \<Rightarrow> (case resolveCommandCwd env rootPath (cs_cwdRelative c) of
         Failure e \<Rightarrow> (w, Failure e)
       | Thrown \<Rightarrow> (w, Thrown)
       | Answer cwd \<Rightarrow> (case runLocalGate env (rg_name gate) c cwd attemptId w of
           (w1, None) \<Rightarrow> (w1, Thrown)
         | (w1, Some r) \<Rightarrow> (case inspect_workspace env (request_workspace q) (rn_repository q) headSha w1 of
             (w2, Inspect_throws) \<Rightarrow> (w2, Thrown)
           | (w2, Inspect_refused _) \<Rightarrow> (w2, Failure (app_fail Ap_CONFLICT
               (''Exact-head verification workspace changed while running gate '' @ [CHR 0x27] @ rg_name gate
                @ [CHR 0x27] @ ''; receipt was not persisted'') True))
           | (w2, Inspected _) \<Rightarrow> (w2, Answer (command_gate_receipt gate c headSha r)))))))"

definition verify_gate ::
  "run_env \<Rightarrow> run_request \<Rightarrow> string option \<Rightarrow> string \<Rightarrow> workflow_run list \<Rightarrow> string option \<Rightarrow> required_gate \<Rightarrow> run_world
     \<Rightarrow> run_world \<times> gate_receipt call_answer" where
  "verify_gate env q rootDir headSha runs attemptId gate w = (case rg_source gate of
     Local_command \<Rightarrow> verify_local_gate env q rootDir headSha attemptId gate w
   | Github_check \<Rightarrow> (w, Answer (githubGateReceipt (rg_name gate) headSha runs))
   | External_verifier \<Rightarrow> (w, Answer (unavailable_receipt gate headSha
       ''No host-owned external verifier adapter is configured for this gate.'')))"

fun verify_gates ::
  "run_env \<Rightarrow> run_request \<Rightarrow> string option \<Rightarrow> string \<Rightarrow> workflow_run list \<Rightarrow> string option \<Rightarrow> required_gate list
     \<Rightarrow> gate_receipt list \<Rightarrow> run_world \<Rightarrow> run_world \<times> gate_receipt list call_answer" where
  "verify_gates env q rootDir headSha runs attemptId [] acc w = (w, Answer acc)"
| "verify_gates env q rootDir headSha runs attemptId (g # gs) acc w =
     (case verify_gate env q rootDir headSha runs attemptId g w of
        (w', Answer r) \<Rightarrow> verify_gates env q rootDir headSha runs attemptId gs (acc @ [r]) w'
      | (w', Failure e) \<Rightarrow> (w', Failure e)
      | (w', Thrown) \<Rightarrow> (w', Thrown))"

definition is_local_gate :: "required_gate \<Rightarrow> bool" where
  "is_local_gate g \<longleftrightarrow> rg_source g = Local_command"

definition verify_workspace ::
  "run_env \<Rightarrow> run_request \<Rightarrow> string \<Rightarrow> run_world \<Rightarrow> run_world \<times> string option call_answer" where
  "verify_workspace env q headSha w =
     (if filter is_local_gate (mp_requiredGates (rn_policy q)) = [] then (w, Answer None)
      else case rn_workspaceId q of
        None \<Rightarrow> (w, Failure (app_fail Ap_INVALID_INPUT
          ''workspaceId is required for local exact-head verification gates'' False))
      | Some workspaceId \<Rightarrow> (case inspect_workspace env workspaceId (rn_repository q) headSha w of
          (w1, Inspect_throws) \<Rightarrow> (w1, Thrown)
        | (w1, Inspect_refused e) \<Rightarrow> (w1, Failure e)
        | (w1, Inspected rootDir) \<Rightarrow> (w1, Answer (Some rootDir))))"

definition new_receipt :: "run_request \<Rightarrow> open_pull \<Rightarrow> gate_receipt list \<Rightarrow> review_receipt \<Rightarrow> iso \<Rightarrow> merge_receipt" where
  "new_receipt q p gates review createdAt =
     \<lparr>mr_repository = rn_repository q, mr_pullRequest = rn_pullRequest q, mr_headSha = ou_headSha p,
      mr_baseSha = Some (ou_baseSha p), mr_verificationMode = mp_verificationMode (rn_policy q),
      mr_gates = gates, mr_review = review, mr_createdAt = createdAt\<rparr>"

definition persist_verdict ::
  "run_env \<Rightarrow> run_request \<Rightarrow> open_pull \<Rightarrow> merge_receipt \<Rightarrow> run_world \<Rightarrow> run_world \<times> verdict call_answer" where
  "persist_verdict env q p receipt w =
     (let decision = evaluateMergeEvidence (rn_policy q) (open_subject p\<lparr>ms_repository := rn_repository q,
            ms_pullRequest := rn_pullRequest q\<rparr>) (Some receipt);
          ref = ''merge-verification:'' @ int_string (rn_pullRequest q) @ ''@'' @ ou_headSha p @ '':'' @ re_randomId env
      in case appendReceipt ref receipt (mr_createdAt receipt) (rw_receipts w) of
           (db, Inl _) \<Rightarrow> (w\<lparr>rw_receipts := db\<rparr>, Failure (app_fail Ap_INTERNAL_ERROR
             ''Merge verification receipt could not be persisted'' True))
         | (db, Inr appended) \<Rightarrow> (w\<lparr>rw_receipts := db\<rparr>, Answer \<lparr>vd_receiptRef = ref, vd_receipt = receipt,
             vd_decision = decision, vd_sequence = rcc_sequence (arr_record appended)\<rparr>))"

definition verify_at_head ::
  "run_env \<Rightarrow> run_request \<Rightarrow> open_pull \<Rightarrow> string option \<Rightarrow> string option \<Rightarrow> run_world
     \<Rightarrow> run_world \<times> verdict call_answer" where
  "verify_at_head env q p attemptId rootDir w =
     (case (if list_ex (\<lambda>g. rg_source g = Github_check) (mp_requiredGates (rn_policy q))
            then readGitHubWorkflowRuns (re_runs env) (rn_repository q) (ou_headSha p) else Answer []) of
        Failure e \<Rightarrow> (w, Failure e)
      | Thrown \<Rightarrow> (w, Thrown)
      | Answer runs \<Rightarrow>
          (case verify_gates env q rootDir (ou_headSha p) runs attemptId (mp_requiredGates (rn_policy q)) [] w of
             (w1, Failure e) \<Rightarrow> (w1, Failure e)
           | (w1, Thrown) \<Rightarrow> (w1, Thrown)
           | (w1, Answer gates) \<Rightarrow>
               (case resolveReviewReceipt (re_reviews env) (rn_repository q) (rn_review q) (ou_headSha p) of
                  Failure e \<Rightarrow> (w1, Failure e)
                | Thrown \<Rightarrow> (w1, Thrown)
                | Answer review \<Rightarrow>
                    persist_verdict env q p (new_receipt q p gates review (run_now env w1)) w1)))"

definition verify ::
  "run_env \<Rightarrow> run_request \<Rightarrow> open_pull \<Rightarrow> string option \<Rightarrow> run_world \<Rightarrow> run_world \<times> verdict call_answer" where
  "verify env q p attemptId w = (case verify_workspace env q (ou_headSha p) w of
     (w1, Failure e) \<Rightarrow> (w1, Failure e)
   | (w1, Thrown) \<Rightarrow> (w1, Thrown)
   | (w1, Answer rootDir) \<Rightarrow> verify_at_head env q p attemptId rootDir w1)"

section \<open>The run\<close>

definition completed_run :: "run_world \<times> verdict call_answer \<Rightarrow> run_world \<times> run_result call_answer" where
  "completed_run p = (case p of (w, r) \<Rightarrow> (w, case r of
     Answer v \<Rightarrow> Answer (Run_completed v) | Failure e \<Rightarrow> Failure e | Thrown \<Rightarrow> Thrown))"

definition runClaimedAttempt ::
  "run_env \<Rightarrow> run_request \<Rightarrow> open_pull \<Rightarrow> string \<Rightarrow> run_world \<Rightarrow> run_world \<times> verdict call_answer" where
  "runClaimedAttempt env q p attemptId w =
     (case verify env q p (Some attemptId) w of
        (w1, Thrown) \<Rightarrow>
          (fst (call_attempts env (markInterrupted attemptId (run_now env w1)
             ''Verification runner failed before a verdict was recorded'') w1), Thrown)
      | (w1, Answer v) \<Rightarrow>
          (fst (call_attempts env (finishAttempt attemptId \<lparr>fa_completed = True,
             fa_finishedAt = run_now env w1, fa_detail = None, fa_receiptRef = Some (vd_receiptRef v)\<rparr>) w1), Answer v)
      | (w1, Failure e) \<Rightarrow>
          (fst (call_attempts env (finishAttempt attemptId \<lparr>fa_completed = False,
             fa_finishedAt = run_now env w1, fa_detail = Some (ape_message e), fa_receiptRef = None\<rparr>) w1), Failure e))"

definition find_active_attempt ::
  "run_env \<Rightarrow> run_request \<Rightarrow> open_pull \<Rightarrow> run_world \<Rightarrow> run_world \<times> (attempt_error + attempt_record option)" where
  "find_active_attempt env q p w = call_attempts env (\<lambda>db. (db, findActive
     \<lparr>qa_repository = rn_repository q, qa_pullRequest = rn_pullRequest q, qa_headSha = ou_headSha p,
      qa_now = run_now env w, qa_staleAfterMs = ATTEMPT_STALE_AFTER_MS\<rparr> db)) w"

text \<open>\<open>findActive().catch(() => undefined)\<close>.\<close>

definition find_raced ::
  "run_env \<Rightarrow> run_request \<Rightarrow> open_pull \<Rightarrow> run_world \<Rightarrow> run_world \<times> attempt_record option" where
  "find_raced env q p w = (case find_active_attempt env q p w of
     (w1, r) \<Rightarrow> (w1, case r of Inl _ \<Rightarrow> None | Inr found \<Rightarrow> found))"

definition running_conflict :: "string \<Rightarrow> app_error" where
  "running_conflict attemptId = app_fail Ap_CONFLICT
     (''Merge verification is already running for this exact head (attempt '' @ attemptId @ '')'') True"

definition claimed_elsewhere :: app_error where
  "claimed_elsewhere = app_fail Ap_CONFLICT ''Queued merge verification was claimed by another runner'' True"

definition queued_result ::
  "run_request \<Rightarrow> open_pull \<Rightarrow> string \<Rightarrow> pressure_reason \<Rightarrow> jsnum \<Rightarrow> run_result call_answer" where
  "queued_result q p attemptId reason cost = Answer (Run_queued \<lparr>qr_attemptId = attemptId,
     qr_repository = rn_repository q, qr_pullRequest = rn_pullRequest q, qr_headSha = ou_headSha p,
     qr_reason = reason, qr_requestedCost = cost\<rparr>)"

definition claim_attempt ::
  "run_env \<Rightarrow> string \<Rightarrow> string \<Rightarrow> run_world \<Rightarrow> run_world \<times> (attempt_error + attempt_record)" where
  "claim_attempt env attemptId workspaceId w =
     call_attempts env (claimQueued attemptId (run_now env w) (Some workspaceId)) w"

text \<open>A queued attempt of this head exists: promote it under a lease and run it.\<close>

definition run_queued_attempt ::
  "run_env \<Rightarrow> run_request \<Rightarrow> open_pull \<Rightarrow> string \<Rightarrow> string \<Rightarrow> run_world \<Rightarrow> run_world \<times> run_result call_answer" where
  "run_queued_attempt env q p workspaceId attemptId w =
     (case decideVerificationAdmission env attemptId workspaceId w of
        (w1, Adm_throws) \<Rightarrow> (w1, Thrown)
      | (w1, Adm_rejected e) \<Rightarrow> (w1, Failure e)
      | (w1, Adm_pressure reason cost) \<Rightarrow> (w1, queued_result q p attemptId reason cost)
      | (w1, Adm_admitted lease) \<Rightarrow> release_after lease
          (case claim_attempt env attemptId workspaceId w1 of
             (w2, Inr _) \<Rightarrow> completed_run (runClaimedAttempt env q p attemptId w2)
           | (w2, Inl _) \<Rightarrow> (case find_raced env q p w2 of
               (w3, Some raced) \<Rightarrow>
                 if atr_status raced = At_running
                 then (w3, Failure (running_conflict (atr_attempt_id raced)))
                 else (w3, Failure claimed_elsewhere)
             | (w3, None) \<Rightarrow> (w3, Failure claimed_elsewhere))))"

definition attempt_request :: "run_request \<Rightarrow> open_pull \<Rightarrow> string \<Rightarrow> string \<Rightarrow> iso \<Rightarrow> new_attempt" where
  "attempt_request q p attemptId workspaceId t =
     \<lparr>na_attemptId = attemptId, na_repository = rn_repository q, na_pullRequest = rn_pullRequest q,
      na_headSha = ou_headSha p, na_baseBranch = Some (ou_baseBranch p), na_workspaceId = Some workspaceId,
      na_at = t\<rparr>"

text \<open>No admission: the request is kept as a queued attempt of this head.\<close>

definition queue_run ::
  "run_env \<Rightarrow> run_request \<Rightarrow> open_pull \<Rightarrow> string \<Rightarrow> string \<Rightarrow> pressure_reason \<Rightarrow> jsnum \<Rightarrow> run_world
     \<Rightarrow> run_world \<times> run_result call_answer" where
  "queue_run env q p workspaceId attemptId reason cost w =
     (case call_attempts env (enqueueAttempt (attempt_request q p attemptId workspaceId (run_now env w))) w of
        (w1, Inr _) \<Rightarrow> (w1, queued_result q p attemptId reason cost)
      | (w1, Inl _) \<Rightarrow> (case find_raced env q p w1 of
          (w2, Some raced) \<Rightarrow>
            if atr_status raced = At_running
            then (w2, Failure (running_conflict (atr_attempt_id raced)))
            else (w2, queued_result q p (atr_attempt_id raced) reason cost)
        | (w2, None) \<Rightarrow> (w2, Failure (pressureError reason))))"

text \<open>Admitted: begin a new attempt, or adopt one that was queued meanwhile.\<close>

definition begin_run ::
  "run_env \<Rightarrow> run_request \<Rightarrow> open_pull \<Rightarrow> string \<Rightarrow> string \<Rightarrow> iso \<Rightarrow> run_world
     \<Rightarrow> run_world \<times> run_result call_answer" where
  "begin_run env q p workspaceId attemptId startedAt w =
     (case call_attempts env (beginAttempt (attempt_request q p attemptId workspaceId startedAt)) w of
        (w1, Inr _) \<Rightarrow> completed_run (runClaimedAttempt env q p attemptId w1)
      | (w1, Inl _) \<Rightarrow> (case find_raced env q p w1 of
          (w2, None) \<Rightarrow> (w2, Failure (app_fail Ap_INTERNAL_ERROR
            ''Merge verification attempt could not be recorded'' True))
        | (w2, Some raced) \<Rightarrow>
            if atr_status raced = At_running
            then (w2, Failure (running_conflict (atr_attempt_id raced)))
            else (case claim_attempt env (atr_attempt_id raced) workspaceId w2 of
                (w3, Inl _) \<Rightarrow> (w3, Failure claimed_elsewhere)
              | (w3, Inr _) \<Rightarrow> completed_run (runClaimedAttempt env q p (atr_attempt_id raced) w3))))"

definition run_new_attempt ::
  "run_env \<Rightarrow> run_request \<Rightarrow> open_pull \<Rightarrow> string \<Rightarrow> iso \<Rightarrow> run_world \<Rightarrow> run_world \<times> run_result call_answer" where
  "run_new_attempt env q p workspaceId startedAt w =
     (case decideVerificationAdmission env (re_randomAttemptId env) workspaceId w of
        (w1, Adm_throws) \<Rightarrow> (w1, Thrown)
      | (w1, Adm_rejected e) \<Rightarrow> (w1, Failure e)
      | (w1, Adm_pressure reason cost) \<Rightarrow>
          queue_run env q p workspaceId (re_randomAttemptId env) reason cost w1
      | (w1, Adm_admitted lease) \<Rightarrow> release_after lease
          (begin_run env q p workspaceId (re_randomAttemptId env) startedAt w1))"

definition run_with_attempts ::
  "run_env \<Rightarrow> run_request \<Rightarrow> open_pull \<Rightarrow> string \<Rightarrow> run_world \<Rightarrow> run_world \<times> run_result call_answer" where
  "run_with_attempts env q p workspaceId w =
     (let startedAt = run_now env w;
          w1 = fst (call_attempts env (reapStale startedAt ATTEMPT_STALE_AFTER_MS) w)
      in case find_active_attempt env q p w1 of
           (w2, Inl _) \<Rightarrow> (w2, Failure (app_fail Ap_INTERNAL_ERROR
             ''Merge verification attempt state could not be read'' True))
         | (w2, Inr None) \<Rightarrow> run_new_attempt env q p workspaceId startedAt w2
         | (w2, Inr (Some active)) \<Rightarrow>
             if atr_status active = At_running
             then (w2, Failure (app_fail Ap_CONFLICT
               (''Merge verification is already running for this exact head (attempt '' @ atr_attempt_id active
                @ ''); wait for it to finish and query merge_verification_status instead of starting a duplicate run'') True))
             else run_queued_attempt env q p workspaceId (atr_attempt_id active) w2)"

text \<open>Without a store of attempts the run only holds the lease.\<close>

definition run_without_attempts ::
  "run_env \<Rightarrow> run_request \<Rightarrow> open_pull \<Rightarrow> string \<Rightarrow> run_world \<Rightarrow> run_world \<times> run_result call_answer" where
  "run_without_attempts env q p workspaceId w =
     (case decideVerificationAdmission env (''merge-verification:'' @ int_string (rn_pullRequest q) @ ''@''
          @ ou_headSha p) workspaceId w of
        (w1, Adm_throws) \<Rightarrow> (w1, Thrown)
      | (w1, Adm_rejected e) \<Rightarrow> (w1, Failure e)
      | (w1, Adm_pressure reason cost) \<Rightarrow> (w1, Failure (pressureError reason))
      | (w1, Adm_admitted lease) \<Rightarrow> release_after lease (completed_run (verify env q p None w1)))"

definition runVerification :: "run_env \<Rightarrow> run_request \<Rightarrow> run_world \<Rightarrow> run_world \<times> run_result call_answer" where
  "runVerification env q w =
     (case observeOpenPullRequest (re_pull env) (rn_repository q) (rn_pullRequest q) of
        Failure e \<Rightarrow> (w, Failure e)
      | Thrown \<Rightarrow> (w, Thrown)
      | Answer p \<Rightarrow>
          if ou_repository p \<noteq> mp_repository (rn_policy q)
          then (w, Failure (app_fail Ap_PERMISSION_DENIED
            ''Requested repository does not match the authoritative merge policy'' False))
          else (case reusePersistedVerdict env q p (rw_receipts w) of
              Some r \<Rightarrow> completed_run (w, r)
            | None \<Rightarrow>
                if filter is_local_gate (mp_requiredGates (rn_policy q)) = []
                then completed_run (verify env q p None w)
                else (case rn_workspaceId q of
                    None \<Rightarrow> (w, Failure (app_fail Ap_INVALID_INPUT
                      ''workspaceId is required for local exact-head verification gates'' False))
                  | Some workspaceId \<Rightarrow>
                      if re_hasAttempts env then run_with_attempts env q p workspaceId w
                      else run_without_attempts env q p workspaceId w)))"

end
