(* ===== verification/Merge_Run_Safety.thy ===== *)
theory Merge_Run_Safety
  imports Merge_Run Merge_Attempts_Safety Merge_Services_Safety
begin

text \<open>
  What a run of the verification leaves behind: the stores only move forward, the lease is given back
  on every path, a queued run has started nothing, the receipt of a completed run is in the store and
  carries the evidence the verdict was judged on, and a gate that passed ran and exited 0.
\<close>

section \<open>How the world moves\<close>

definition world_wf :: "run_world \<Rightarrow> bool" where
  "world_wf w \<longleftrightarrow> attempts_wf (rw_attempts w) \<and> receipts_wf (rw_receipts w)"

definition world_evolves :: "run_world \<Rightarrow> run_world \<Rightarrow> bool" where
  "world_evolves w w' \<longleftrightarrow> attempts_evolve (rw_attempts w) (rw_attempts w')
     \<and> receipts_extend (rw_receipts w) (rw_receipts w') \<and> prefix (rw_commands w) (rw_commands w')"

definition world_moves :: "run_world \<Rightarrow> run_world \<Rightarrow> bool" where
  "world_moves w w' \<longleftrightarrow> (world_wf w \<longrightarrow> world_wf w' \<and> world_evolves w w')"

text \<open>What happens between the acquisition of the lease and its release.\<close>

definition run_frame :: "run_world \<Rightarrow> run_world \<Rightarrow> bool" where
  "run_frame w w' \<longleftrightarrow> world_moves w w' \<and> rw_admission w' = rw_admission w
     \<and> rw_step w \<le> rw_step w'"

text \<open>Calls that touch the attempts only.\<close>

definition quiet :: "run_world \<Rightarrow> run_world \<Rightarrow> bool" where
  "quiet w w' \<longleftrightarrow> rw_receipts w' = rw_receipts w \<and> rw_commands w' = rw_commands w
     \<and> rw_step w \<le> rw_step w'"

lemma receipts_extend_refl [simp]: "receipts_extend db db"
  by (simp add: receipts_extend_def)

lemma receipts_extend_trans: "receipts_extend a b \<Longrightarrow> receipts_extend b c \<Longrightarrow> receipts_extend a c"
  unfolding receipts_extend_def by (meson order.trans prefix_order.trans)

lemma world_moves_refl [simp]: "world_moves w w"
  by (simp add: world_moves_def world_evolves_def)

lemma world_moves_trans [trans]: "world_moves a b \<Longrightarrow> world_moves b c \<Longrightarrow> world_moves a c"
  unfolding world_moves_def world_evolves_def
  using attempts_evolve_trans receipts_extend_trans prefix_order.trans by blast

lemma run_frame_refl [simp]: "run_frame w w"
  by (simp add: run_frame_def)

lemma run_frame_trans [trans]: "run_frame a b \<Longrightarrow> run_frame b c \<Longrightarrow> run_frame a c"
  unfolding run_frame_def using world_moves_trans order.trans by metis

lemma quiet_refl [simp]: "quiet w w"
  by (simp add: quiet_def)

lemma quiet_trans [trans]: "quiet a b \<Longrightarrow> quiet b c \<Longrightarrow> quiet a c"
  by (simp add: quiet_def)

section \<open>Calls of the attempt store\<close>

definition attempt_call :: "(attempt_db \<Rightarrow> attempt_db \<times> 'a) \<Rightarrow> bool" where
  "attempt_call f \<longleftrightarrow> (\<forall>db. attempts_wf db \<longrightarrow> attempt_moves db (fst (f db)))"

lemma attempt_calls [simp]:
  "attempt_call (beginAttempt q)" "attempt_call (enqueueAttempt q)" "attempt_call (claimQueued i t ws)"
  "attempt_call (heartbeatAttempt i t g)" "attempt_call (finishAttempt i fq)"
  "attempt_call (markInterrupted i t d)" "attempt_call (reapStale t k)" "attempt_call (\<lambda>db. (db, r db))"
  by (simp_all add: attempt_call_def beginAttempt_def enqueueAttempt_def added_moves LIVE_STATUSES_def
      claim_moves heartbeat_moves finish_moves interrupt_moves reap_moves moves_refl)

lemma turn_frame [simp]: "run_frame w (turn env w)" "quiet w (turn env w)"
proof -
  have "attempts_wf db \<Longrightarrow> attempts_wf (run_ops attempt_step db ops) \<and> attempts_evolve db (run_ops attempt_step db ops)"
    for db ops using attempts.run_inv attempts.run_rel by blast
  then show "run_frame w (turn env w)"
    by (simp add: run_frame_def world_moves_def world_wf_def world_evolves_def turn_def)
qed (simp add: quiet_def turn_def)

lemma call_frame:
  assumes "call_attempts env f w = (w', r)" "attempt_call f"
  shows "run_frame w w'" "quiet w w'"
proof -
  have w': "w' = (turn env w)\<lparr>rw_attempts := fst (f (rw_attempts (turn env w)))\<rparr>"
    using assms(1) by (auto simp: call_attempts_def Let_def split: prod.splits)
  have "run_frame (turn env w) w'"
    using assms(2) by (auto simp: w' run_frame_def world_moves_def world_wf_def world_evolves_def
        attempt_call_def attempt_moves_def)
  then show "run_frame w w'" using run_frame_trans turn_frame(1) by blast
  have "quiet (turn env w) w'" by (simp add: w' quiet_def)
  then show "quiet w w'" using quiet_trans turn_frame(2) by blast
qed

lemma call_result: "snd (call_attempts env f w) = snd (f (rw_attempts (turn env w)))"
    "rw_attempts (fst (call_attempts env f w)) = fst (f (rw_attempts (turn env w)))"
  by (simp_all add: call_attempts_def Let_def split: prod.splits)

lemma call_frame_fst:
  assumes "attempt_call f"
  shows "run_frame w (fst (call_attempts env f w))" "quiet w (fst (call_attempts env f w))"
  using call_frame [OF _ assms, of env w] by (cases "call_attempts env f w"; simp)+

lemma inspect_frame:
  assumes "inspect_workspace env i repository headSha w = (w', r)"
  shows "run_frame w w'" "quiet w w'" "rw_step w' = rw_step w + 1"
proof -
  have "w' = turn env w" using assms by (simp add: inspect_workspace_def)
  then show "run_frame w w'" "quiet w w'" "rw_step w' = rw_step w + 1" by simp_all (simp add: turn_def)
qed

text \<open>
  The registered workspace of the request is there at this step, and Git finds the exact head, a clean
  tree and the repository as the remote.
\<close>

definition workspace_at_head :: "run_env \<Rightarrow> run_request \<Rightarrow> string \<Rightarrow> nat \<Rightarrow> string \<Rightarrow> bool" where
  "workspace_at_head env q headSha n rootPath \<longleftrightarrow> re_workspace env n (request_workspace q) = Inr (Some rootPath)
     \<and> (\<exists>g remote. re_git env n rootPath = Inr g \<and> js_lower (js_trim (wg_head g)) = js_lower headSha
        \<and> js_trim (wg_status g) = [] \<and> parseGitRemote (js_trim (wg_remote g)) = Some remote
        \<and> names_github (re_hostname env) remote
        \<and> js_lower (grc_repository remote) = js_lower (rn_repository q))"

lemma inspected_at_head:
  assumes "inspect_workspace env (request_workspace q) (rn_repository q) headSha w = (w', Inspected rootPath)"
  shows "workspace_at_head env q headSha (rw_step w) rootPath"
proof -
  obtain rootDir where "re_workspace env (rw_step w) (request_workspace q) = Inr rootDir"
    using assms by (auto simp: inspect_workspace_def split: sum.splits)
  with assms show ?thesis by (simp add: inspect_workspace_def inspected_iff workspace_at_head_def)
qed

lemma beats_frame: "run_frame w (run_beats env i gate ts w)" "quiet w (run_beats env i gate ts w)"
proof (induction ts arbitrary: w)
  case (Cons t ts)
  {
    case 1
    show ?case using call_frame_fst(1) [of "heartbeatAttempt i t (Some gate)" w env] Cons(1) run_frame_trans
      by (metis attempt_calls(4) run_beats.simps(2))
  next
    case 2
    show ?case using call_frame_fst(2) [of "heartbeatAttempt i t (Some gate)" w env] Cons(2) quiet_trans
      by (metis attempt_calls(4) run_beats.simps(2))
  }
qed simp_all

section \<open>The gates\<close>

lemma local_command_frame:
  assumes "runLocalGate env gate command cwd attemptId w = (w', r)"
  shows "run_frame w w'" "rw_receipts w' = rw_receipts w" "rw_step w < rw_step w'"
    "rw_commands w' = rw_commands w @ [\<lparr>sc_gate = gate, sc_attempt = attemptId, sc_command = command,
       sc_cwd = cwd, sc_step = rw_step w\<rparr>]" "r = re_command env (rw_step w) command cwd"
proof -
  let ?x = "\<lparr>sc_gate = gate, sc_attempt = attemptId, sc_command = command, sc_cwd = cwd, sc_step = rw_step w\<rparr>"
  let ?w1 = "(turn env w)\<lparr>rw_commands := rw_commands w @ [?x]\<rparr>"
  have "run_frame (turn env w) ?w1"
    by (simp add: run_frame_def world_moves_def world_wf_def world_evolves_def turn_def)
  then have first: "run_frame w ?w1" using run_frame_trans turn_frame(1) by blast
  have "w' = ?w1 \<or> (\<exists>i ts. w' = run_beats env i gate ts ?w1)"
    using assms unfolding runLocalGate_def Let_def by (auto simp del: run_beats.simps split: option.splits if_splits)
  then have f: "run_frame ?w1 w' \<and> quiet ?w1 w'" using beats_frame by auto
  then show "run_frame w w'" using first run_frame_trans by blast
  show "rw_receipts w' = rw_receipts w" "rw_step w < rw_step w'" "rw_commands w' = rw_commands w @ [?x]"
    using f by (auto simp: quiet_def turn_def)
  show "r = re_command env (rw_step w) command cwd" using assms by (simp add: runLocalGate_def Let_def)
qed

text \<open>
  A command that was started for a local gate between the steps \<open>s\<close> and \<open>t\<close>, and answered \<open>res\<close>: it is the
  command of the policy, in the directory of the policy under the root of the workspace, and the
  workspace was at the exact head at a step before it and at a step after it.
\<close>

definition ran_at_head ::
  "run_env \<Rightarrow> run_request \<Rightarrow> string \<Rightarrow> nat \<Rightarrow> nat \<Rightarrow> required_gate \<Rightarrow> command_spec \<Rightarrow> started_command \<Rightarrow> command_result
     \<Rightarrow> bool" where
  "ran_at_head env q headSha s t gate c x res \<longleftrightarrow> sc_gate x = rg_name gate \<and> sc_command x = c
     \<and> re_command env (sc_step x) c (sc_cwd x) = Some res
     \<and> (\<exists>before after rootPath rootAfter. s \<le> before \<and> before < sc_step x \<and> sc_step x < after \<and> after < t
        \<and> workspace_at_head env q headSha before rootPath \<and> workspace_at_head env q headSha after rootAfter
        \<and> resolveCommandCwd env rootPath (cs_cwdRelative c) = Answer (sc_cwd x))"

lemma ran_at_head_mono:
  "ran_at_head env q headSha s t gate c x res \<Longrightarrow> s' \<le> s \<Longrightarrow> t \<le> t' \<Longrightarrow> ran_at_head env q headSha s' t' gate c x res"
  unfolding ran_at_head_def by (meson order.trans order.strict_trans2)

text \<open>
  What stands behind the receipt of a gate. A local gate has a command that was started under the
  attempt and answered, in a workspace at the exact head before and after; a GitHub gate is judged on
  its newest run of this head; nothing else is evidence.
\<close>

definition gate_backed ::
  "run_env \<Rightarrow> run_request \<Rightarrow> string \<Rightarrow> workflow_run list \<Rightarrow> string option \<Rightarrow> started_command list \<Rightarrow> nat \<Rightarrow> nat
     \<Rightarrow> required_gate \<Rightarrow> gate_receipt \<Rightarrow> bool" where
  "gate_backed env q headSha runs attemptId commands s t gate r \<longleftrightarrow> (case rg_source gate of
     Github_check \<Rightarrow> r = githubGateReceipt (rg_name gate) headSha runs
   | External_verifier \<Rightarrow> gt_name r = rg_name gate \<and> gt_source r = External_verifier
       \<and> gt_headSha r = headSha \<and> gt_outcome r = Gate_unavailable
   | Local_command \<Rightarrow> gt_name r = rg_name gate \<and> gt_source r = Local_command \<and> gt_headSha r = headSha
       \<and> (gt_outcome r \<noteq> Gate_unavailable \<longrightarrow> (\<exists>c res x. rg_command gate = Some c \<and> x \<in> set commands
            \<and> sc_attempt x = attemptId \<and> r = command_gate_receipt gate c headSha res
            \<and> ran_at_head env q headSha s t gate c x res)))"

lemma gate_backed_mono:
  assumes "gate_backed env q headSha runs i cs s t gate r" "set cs \<subseteq> set cs'" "s' \<le> s" "t \<le> t'"
  shows "gate_backed env q headSha runs i cs' s' t' gate r"
proof (cases "rg_source gate")
  case Local_command
  then show ?thesis
    using assms(1) subsetD [OF assms(2)] ran_at_head_mono [OF _ assms(3,4)] unfolding gate_backed_def by fastforce
qed (use assms(1) in \<open>simp_all add: gate_backed_def\<close>)

lemma gate_backed_fields:
  "gate_backed env q headSha runs i cs s t gate r \<Longrightarrow> gt_name r = rg_name gate"
  "gate_backed env q headSha runs i cs s t gate r \<Longrightarrow> gt_source r = rg_source gate"
  "gate_backed env q headSha runs i cs s t gate r \<Longrightarrow> gt_headSha r = headSha"
  by (auto simp: gate_backed_def githubGateReceipt_def split: evidence_source.splits option.splits)

lemma local_gate_frame:
  assumes "verify_local_gate env q rootDir headSha attemptId gate w = (w', r)"
  shows "run_frame w w' \<and> rw_receipts w' = rw_receipts w"
proof (cases "\<exists>rootPath c cwd. rootDir = Some rootPath \<and> rg_command gate = Some c
    \<and> resolveCommandCwd env rootPath (cs_cwdRelative c) = Answer cwd")
  case False
  then have "w' = w"
    using assms by (auto simp: verify_local_gate_def split: option.splits call_answer.splits)
  then show ?thesis by simp
next
  case True
  then obtain rootPath c cwd where k: "rootDir = Some rootPath" "rg_command gate = Some c"
    "resolveCommandCwd env rootPath (cs_cwdRelative c) = Answer cwd" by blast
  obtain w1 res where run: "runLocalGate env (rg_name gate) c cwd attemptId w = (w1, res)" by fastforce
  obtain w2 ins where ins: "inspect_workspace env (request_workspace q) (rn_repository q) headSha w1 = (w2, ins)"
    by fastforce
  have "w' = w1 \<or> w' = w2"
    using assms by (auto simp: verify_local_gate_def k run ins split: option.splits inspect_answer.splits)
  then show ?thesis
    using local_command_frame(1,2) [OF run] inspect_frame [OF ins] run_frame_trans by (auto simp: quiet_def)
qed

text \<open>The root the run goes on with was found at the exact head at a step from \<open>s\<close> on.\<close>

definition root_inspected :: "run_env \<Rightarrow> run_request \<Rightarrow> string \<Rightarrow> nat \<Rightarrow> nat \<Rightarrow> string option \<Rightarrow> bool" where
  "root_inspected env q headSha s t rootDir \<longleftrightarrow> (\<forall>rootPath. rootDir = Some rootPath \<longrightarrow>
     (\<exists>n. s \<le> n \<and> n < t \<and> workspace_at_head env q headSha n rootPath))"

lemma root_inspected_mono:
  "root_inspected env q headSha s t rootDir \<Longrightarrow> t \<le> t' \<Longrightarrow> root_inspected env q headSha s t' rootDir"
  unfolding root_inspected_def using order.strict_trans2 by blast

lemma local_gate_backed:
  assumes v: "verify_local_gate env q rootDir headSha attemptId gate w = (w', Answer r)" and s: "rg_source gate = Local_command"
    and before: "root_inspected env q headSha s (rw_step w) rootDir"
  shows "gate_backed env q headSha runs attemptId (rw_commands w') s (rw_step w') gate r"
proof -
  obtain rootPath where root: "rootDir = Some rootPath"
    using v by (auto simp: verify_local_gate_def split: option.splits)
  show ?thesis
  proof (cases "rg_command gate")
    case None
    then show ?thesis using v root s
      by (auto simp: verify_local_gate_def gate_backed_def unavailable_receipt_def)
  next
    case (Some c)
    obtain cwd where cwd: "resolveCommandCwd env rootPath (cs_cwdRelative c) = Answer cwd"
      using v root Some by (auto simp: verify_local_gate_def split: call_answer.splits)
    obtain w1 res where run: "runLocalGate env (rg_name gate) c cwd attemptId w = (w1, res)" by fastforce
    obtain w2 ins where ins: "inspect_workspace env (request_workspace q) (rn_repository q) headSha w1 = (w2, ins)"
      by fastforce
    from v obtain a rootAfter where a: "res = Some a" "ins = Inspected rootAfter" "w' = w2"
        "r = command_gate_receipt gate c headSha a"
      by (auto simp: verify_local_gate_def root Some cwd run ins split: option.splits inspect_answer.splits)
    let ?x = "\<lparr>sc_gate = rg_name gate, sc_attempt = attemptId, sc_command = c, sc_cwd = cwd, sc_step = rw_step w\<rparr>"
    note f = local_command_frame [OF run]
    obtain n where n: "s \<le> n" "n < rw_step w" "workspace_at_head env q headSha n rootPath"
      using before root by (auto simp: root_inspected_def)
    have after: "workspace_at_head env q headSha (rw_step w1) rootAfter"
      using ins a(2) by (simp add: inspected_at_head)
    have "rw_step w1 < rw_step w'" using inspect_frame(3) [OF ins] a(3) by simp
    then have "ran_at_head env q headSha s (rw_step w') gate c ?x a"
      using n after f(3,5) a(1) cwd unfolding ran_at_head_def by auto
    moreover have "?x \<in> set (rw_commands w')"
      using f(4) inspect_frame(2) [OF ins] a(3) by (simp add: quiet_def)
    ultimately show ?thesis
      using s Some a(4) unfolding gate_backed_def command_gate_receipt_def by fastforce
  qed
qed

lemma gate_frame:
  assumes "verify_gate env q rootDir headSha runs attemptId gate w = (w', r)"
  shows "run_frame w w'" "rw_receipts w' = rw_receipts w"
    "r = Answer g \<Longrightarrow> root_inspected env q headSha s (rw_step w) rootDir
      \<Longrightarrow> gate_backed env q headSha runs attemptId (rw_commands w') s (rw_step w') gate g"
proof -
  show "run_frame w w'" "rw_receipts w' = rw_receipts w"
    using assms local_gate_frame [of env q rootDir headSha attemptId gate w w' r]
    by (auto simp: verify_gate_def split: evidence_source.splits)
  show "r = Answer g \<Longrightarrow> root_inspected env q headSha s (rw_step w) rootDir
      \<Longrightarrow> gate_backed env q headSha runs attemptId (rw_commands w') s (rw_step w') gate g"
    using assms local_gate_backed [of env q rootDir headSha attemptId gate w w' g s runs]
    by (cases "rg_source gate") (auto simp: verify_gate_def gate_backed_def unavailable_receipt_def)
qed

lemma gates_frame:
  assumes "verify_gates env q rootDir headSha runs attemptId gates acc w = (w', r)"
  shows "run_frame w w' \<and> rw_receipts w' = rw_receipts w"
  using assms
proof (induction gates arbitrary: acc w)
  case (Cons g gs)
  obtain w1 r1 where g: "verify_gate env q rootDir headSha runs attemptId g w = (w1, r1)" by fastforce
  note f = gate_frame(1,2) [OF g]
  show ?case
  proof (cases r1)
    case (Answer x)
    then have "verify_gates env q rootDir headSha runs attemptId gs (acc @ [x]) w1 = (w', r)"
      using Cons.prems g by simp
    with Cons.IH f show ?thesis using run_frame_trans by metis
  qed (use Cons.prems g f in simp_all)
qed simp

lemma gates_commands:
  "verify_gates env q rootDir headSha runs attemptId gates acc w = (w', r) \<Longrightarrow> world_wf w
    \<Longrightarrow> prefix (rw_commands w) (rw_commands w') \<and> rw_step w \<le> rw_step w'"
  using gates_frame by (fastforce simp: run_frame_def world_moves_def world_evolves_def)

lemma gates_backed:
  assumes "verify_gates env q rootDir headSha runs attemptId gates acc w = (w', Answer rs)" "world_wf w"
    "root_inspected env q headSha s (rw_step w) rootDir"
  shows "\<exists>new. rs = acc @ new
    \<and> list_all2 (gate_backed env q headSha runs attemptId (rw_commands w') s (rw_step w')) gates new"
  using assms
proof (induction gates arbitrary: acc w)
  case (Cons g gs)
  obtain w1 r1 where g: "verify_gate env q rootDir headSha runs attemptId g w = (w1, r1)" by fastforce
  with Cons.prems obtain x where x: "r1 = Answer x"
    "verify_gates env q rootDir headSha runs attemptId gs (acc @ [x]) w1 = (w', Answer rs)"
    by (cases r1) auto
  have wf: "world_wf w1" using gate_frame(1) [OF g] Cons.prems(2) by (simp add: run_frame_def world_moves_def)
  have root: "root_inspected env q headSha s (rw_step w1) rootDir"
    using root_inspected_mono [OF Cons.prems(3)] gate_frame(1) [OF g] by (simp add: run_frame_def)
  obtain new where new: "rs = acc @ [x] @ new"
      "list_all2 (gate_backed env q headSha runs attemptId (rw_commands w') s (rw_step w')) gs new"
    using Cons.IH [OF x(2) wf root] by auto
  note c = gates_commands [OF x(2) wf]
  have "gate_backed env q headSha runs attemptId (rw_commands w') s (rw_step w') g x"
    using c by (intro gate_backed_mono [OF gate_frame(3) [OF g x(1) Cons.prems(3)]]) (auto dest: set_mono_prefix)
  with new show ?case by (intro exI [of _ "x # new"]) simp
qed simp

end
