(* ===== verification/Merge_Run_Verdict.thy ===== *)
theory Merge_Run_Verdict
  imports Merge_Run_Safety
begin

text \<open>
  The verdict of a run: the receipt is in the store under the reference of the verdict, the decision is
  the judgement of that receipt, and it was either stored before or rests on gates this run ran.
\<close>

section \<open>The subject\<close>

lemma observe_openD:
  assumes "observeOpenPullRequest answer repository pullRequest = Answer p"
  shows "ou_repository p = repository" "ou_pullRequest p = pullRequest"
  using assms unfolding observeOpenPullRequest_def Let_def
  by (auto split: if_splits sum.splits)

definition run_subject :: "run_request \<Rightarrow> open_pull \<Rightarrow> merge_subject" where
  "run_subject q p = open_subject p\<lparr>ms_repository := rn_repository q, ms_pullRequest := rn_pullRequest q\<rparr>"

lemma run_subject_open:
  "ou_repository p = rn_repository q \<Longrightarrow> ou_pullRequest p = rn_pullRequest q \<Longrightarrow> run_subject q p = open_subject p"
  by (simp add: run_subject_def open_subject_def)

section \<open>What a verdict promises\<close>

definition verdict_stands :: "run_request \<Rightarrow> open_pull \<Rightarrow> verdict \<Rightarrow> run_world \<Rightarrow> bool" where
  "verdict_stands q p v w \<longleftrightarrow>
     (\<exists>rec. getReceiptByRef (vd_receiptRef v) (rw_receipts w) = Inr (Some rec)
        \<and> parseReceipt Re_invalid_receipt (vd_receipt v) = Inr (rcc_receipt rec)
        \<and> vd_sequence v = rcc_sequence rec)
   \<and> vd_decision v = evaluateMergeEvidence (rn_policy q) (run_subject q p) (Some (vd_receipt v))
   \<and> mr_headSha (vd_receipt v) = ou_headSha p \<and> mr_baseSha (vd_receipt v) = Some (ou_baseSha p)"

text \<open>The gates of the receipt were judged in this run, which began at step \<open>s\<close>.\<close>

definition freshly_backed :: "run_env \<Rightarrow> run_request \<Rightarrow> open_pull \<Rightarrow> nat \<Rightarrow> verdict \<Rightarrow> run_world \<Rightarrow> bool" where
  "freshly_backed env q p s v w \<longleftrightarrow> (\<exists>runs attemptId.
     (list_ex (\<lambda>g. rg_source g = Github_check) (mp_requiredGates (rn_policy q)) \<longrightarrow>
        readGitHubWorkflowRuns (re_runs env) (rn_repository q) (ou_headSha p) = Answer runs)
   \<and> list_all2 (gate_backed env q (ou_headSha p) runs attemptId (rw_commands w) s (rw_step w))
       (mp_requiredGates (rn_policy q)) (mr_gates (vd_receipt v)))"

definition already_stored :: "verdict \<Rightarrow> run_world \<Rightarrow> bool" where
  "already_stored v w \<longleftrightarrow> (\<exists>rec. getReceiptByRef (vd_receiptRef v) (rw_receipts w) = Inr (Some rec)
     \<and> rcc_receipt rec = vd_receipt v)"

lemma freshly_backed_mono:
  assumes "freshly_backed env q p s v w" "set (rw_commands w) \<subseteq> set (rw_commands w')" "s' \<le> s" "rw_step w \<le> rw_step w'"
  shows "freshly_backed env q p s' v w'"
proof -
  have "list_all2 (gate_backed env q (ou_headSha p) runs i (rw_commands w) s (rw_step w)) gates rs
      \<Longrightarrow> list_all2 (gate_backed env q (ou_headSha p) runs i (rw_commands w') s' (rw_step w')) gates rs"
    for runs i gates rs
    by (erule list.rel_mono_strong) (rule gate_backed_mono [OF _ assms(2-4)])
  with assms(1) show ?thesis unfolding freshly_backed_def by metis
qed

lemma quiet_verdict:
  assumes "quiet w w'"
  shows "verdict_stands q p v w' \<longleftrightarrow> verdict_stands q p v w"
    "freshly_backed env q p s v w \<Longrightarrow> freshly_backed env q p s v w'"
  using assms freshly_backed_mono [of env q p s v w w' s] by (simp_all add: quiet_def verdict_stands_def)

section \<open>Running the gates\<close>

lemma verify_workspace_frame:
  assumes "verify_workspace env q headSha w = (w', r)"
  shows "run_frame w w' \<and> quiet w w'"
    "r = Answer rootDir \<Longrightarrow> root_inspected env q headSha (rw_step w) (rw_step w') rootDir"
proof -
  let ?none = "filter is_local_gate (mp_requiredGates (rn_policy q)) = []"
  have "run_frame w w' \<and> quiet w w' \<and> (\<forall>rootDir. r = Answer rootDir
      \<longrightarrow> root_inspected env q headSha (rw_step w) (rw_step w') rootDir)"
  proof (cases "?none \<or> rn_workspaceId q = None")
    case True
    then show ?thesis
      using assms by (auto simp: verify_workspace_def root_inspected_def split: if_splits option.splits)
  next
    case False
    then have i: "rn_workspaceId q = Some (request_workspace q)" by (auto simp: request_workspace_def)
    obtain w1 ins where ins: "inspect_workspace env (request_workspace q) (rn_repository q) headSha w = (w1, ins)"
      by fastforce
    note f = inspect_frame [OF ins]
    have w': "w' = w1" and r: "r = Answer rootDir \<Longrightarrow> \<exists>rootPath. ins = Inspected rootPath \<and> rootDir = Some rootPath" for rootDir
      using assms False by (auto simp: verify_workspace_def i ins split: inspect_answer.splits)
    have "root_inspected env q headSha (rw_step w) (rw_step w') rootDir" if a: "r = Answer rootDir" for rootDir
    proof -
      obtain rootPath where "ins = Inspected rootPath" "rootDir = Some rootPath" using r [OF a] by blast
      then show ?thesis using inspected_at_head [of env q headSha w w1 rootPath] ins f(3) w'
        by (auto simp: root_inspected_def)
    qed
    with f w' show ?thesis by blast
  qed
  then show "run_frame w w' \<and> quiet w w'"
    "r = Answer rootDir \<Longrightarrow> root_inspected env q headSha (rw_step w) (rw_step w') rootDir" by blast+
qed

lemma persist_verdict_frame:
  assumes p: "persist_verdict env q pr receipt w = (w', r)" and wf: "world_wf w"
  shows "run_frame w w' \<and> rw_commands w' = rw_commands w"
    "r = Answer v \<Longrightarrow> (\<exists>rec. getReceiptByRef (vd_receiptRef v) (rw_receipts w') = Inr (Some rec)
        \<and> parseReceipt Re_invalid_receipt receipt = Inr (rcc_receipt rec) \<and> vd_sequence v = rcc_sequence rec)
      \<and> vd_receipt v = receipt
      \<and> vd_decision v = evaluateMergeEvidence (rn_policy q) (run_subject q pr) (Some receipt)"
proof -
  let ?ref = "''merge-verification:'' @ int_string (rn_pullRequest q) @ ''@'' @ ou_headSha pr @ '':'' @ re_randomId env"
  obtain db res where a: "appendReceipt ?ref receipt (mr_createdAt receipt) (rw_receipts w) = (db, res)" by fastforce
  have w': "w' = w\<lparr>rw_receipts := db\<rparr>" using p a by (auto simp: persist_verdict_def Let_def split: sum.splits)
  have rwf: "receipts_wf (rw_receipts w)" using wf by (simp add: world_wf_def)
  have "receipt_append_step (rw_receipts w) (?ref, receipt, mr_createdAt receipt) = db" using a by simp
  then have "receipts_wf db \<and> receipts_extend (rw_receipts w) db"
    using receipt_log.step_inv [OF rwf] receipt_log.step_rel [OF rwf] by metis
  then show "run_frame w w' \<and> rw_commands w' = rw_commands w"
    by (simp add: w' run_frame_def world_moves_def world_wf_def world_evolves_def)
  assume r: "r = Answer v"
  obtain x where x: "res = Inr x" using p a r by (auto simp: persist_verdict_def Let_def split: sum.splits)
  have v: "v = \<lparr>vd_receiptRef = ?ref, vd_receipt = receipt,
      vd_decision = evaluateMergeEvidence (rn_policy q) (run_subject q pr) (Some receipt),
      vd_sequence = rcc_sequence (arr_record x)\<rparr>"
    using p a r x by (simp add: persist_verdict_def Let_def run_subject_def)
  show "(\<exists>rec. getReceiptByRef (vd_receiptRef v) (rw_receipts w') = Inr (Some rec)
        \<and> parseReceipt Re_invalid_receipt receipt = Inr (rcc_receipt rec) \<and> vd_sequence v = rcc_sequence rec)
      \<and> vd_receipt v = receipt
      \<and> vd_decision v = evaluateMergeEvidence (rn_policy q) (run_subject q pr) (Some receipt)"
    using append_stored [OF rwf a [unfolded x]] by (simp add: v w')
qed

lemma verify_at_head_frame:
  assumes v: "verify_at_head env q p attemptId rootDir w = (w', r)" and wf: "world_wf w"
    and root: "root_inspected env q (ou_headSha p) s (rw_step w) rootDir"
  shows "run_frame w w'"
    "r = Answer vd \<Longrightarrow> verdict_stands q p vd w' \<and> freshly_backed env q p s vd w'"
proof -
  let ?hub = "list_ex (\<lambda>g. rg_source g = Github_check) (mp_requiredGates (rn_policy q))"
  let ?runs = "if ?hub then readGitHubWorkflowRuns (re_runs env) (rn_repository q) (ou_headSha p) else Answer []"
  let ?review = "resolveReviewReceipt (re_reviews env) (rn_repository q) (rn_review q) (ou_headSha p)"
  have "run_frame w w' \<and> (\<forall>vd. r = Answer vd \<longrightarrow> verdict_stands q p vd w' \<and> freshly_backed env q p s vd w')"
  proof (cases ?runs)
    case (Answer runs)
    obtain w1 gs where g: "verify_gates env q rootDir (ou_headSha p) runs attemptId (mp_requiredGates (rn_policy q)) [] w
        = (w1, gs)" by fastforce
    note f = gates_frame [OF g]
    have wf1: "world_wf w1" using f wf by (simp add: run_frame_def world_moves_def)
    show ?thesis
    proof (cases "\<exists>gates review. gs = Answer gates \<and> ?review = Answer review")
      case False
      then have "w' = w1 \<and> (\<forall>x. r \<noteq> Answer x)"
        using v by (auto simp: verify_at_head_def Answer g split: call_answer.splits)
      then show ?thesis using f by simp
    next
      case True
      then obtain gates review where gr: "gs = Answer gates" "?review = Answer review" by blast
      let ?receipt = "new_receipt q p gates review (run_now env w1)"
      have per: "persist_verdict env q p ?receipt w1 = (w', r)"
        using v by (simp add: verify_at_head_def Answer g gr)
      have per1: "run_frame w1 w'" "rw_commands w' = rw_commands w1" using persist_verdict_frame(1) [OF per wf1] by simp_all
      then have frame: "run_frame w w'" "rw_step w1 \<le> rw_step w'"
        using f run_frame_trans by (blast, simp add: run_frame_def)
      have "list_all2 (gate_backed env q (ou_headSha p) runs attemptId (rw_commands w1) s (rw_step w1))
          (mp_requiredGates (rn_policy q)) gates"
        using gates_backed [OF g [unfolded gr] wf root] by simp
      then have backed: "list_all2 (gate_backed env q (ou_headSha p) runs attemptId (rw_commands w') s (rw_step w'))
          (mp_requiredGates (rn_policy q)) gates"
        by (rule list.rel_mono_strong) (rule gate_backed_mono, use frame(2) per1(2) in auto)
      have "verdict_stands q p vd w' \<and> freshly_backed env q p s vd w'" if r: "r = Answer vd" for vd
      proof
        note pv = persist_verdict_frame(2) [OF per wf1 r]
        show "verdict_stands q p vd w'"
          using pv by (auto simp: verdict_stands_def new_receipt_def)
        have "?hub \<longrightarrow> readGitHubWorkflowRuns (re_runs env) (rn_repository q) (ou_headSha p) = Answer runs"
          using Answer by (auto split: if_splits)
        then show "freshly_backed env q p s vd w'"
          using pv backed by (auto simp: freshly_backed_def new_receipt_def)
      qed
      with frame(1) show ?thesis by blast
    qed
  qed (use v in \<open>auto simp: verify_at_head_def\<close>)
  then show "run_frame w w'" "r = Answer vd \<Longrightarrow> verdict_stands q p vd w' \<and> freshly_backed env q p s vd w'"
    by blast+
qed

definition verdict_fresh :: "run_env \<Rightarrow> run_request \<Rightarrow> open_pull \<Rightarrow> nat \<Rightarrow> run_world \<Rightarrow> verdict \<Rightarrow> bool" where
  "verdict_fresh env q p s w v \<longleftrightarrow> verdict_stands q p v w \<and> freshly_backed env q p s v w"

lemma verdict_fresh_before: "verdict_fresh env q p s w v \<Longrightarrow> s' \<le> s \<Longrightarrow> verdict_fresh env q p s' w v"
  unfolding verdict_fresh_def using freshly_backed_mono [of env q p s v w w s'] by simp

lemma verify_frame:
  assumes v: "verify env q p attemptId w = (w', r)" and wf: "world_wf w"
  shows "run_frame w w'" "r = Answer vd \<Longrightarrow> verdict_fresh env q p (rw_step w) w' vd"
proof -
  obtain w1 r1 where s: "verify_workspace env q (ou_headSha p) w = (w1, r1)" by fastforce
  note f = verify_workspace_frame [OF s]
  have wf1: "world_wf w1" using f(1) wf by (simp add: run_frame_def world_moves_def)
  have "run_frame w w' \<and> (\<forall>vd. r = Answer vd \<longrightarrow> verdict_fresh env q p (rw_step w) w' vd)"
  proof (cases r1)
    case (Answer rootDir)
    then have h: "verify_at_head env q p attemptId rootDir w1 = (w', r)" using v s by (simp add: verify_def)
    show ?thesis
      using verify_at_head_frame [OF h wf1 f(2) [OF Answer]] f(1) run_frame_trans unfolding verdict_fresh_def by blast
  qed (use v s f in \<open>auto simp: verify_def\<close>)
  then show "run_frame w w'" "r = Answer vd \<Longrightarrow> verdict_fresh env q p (rw_step w) w' vd" by blast+
qed

section \<open>The attempt around it\<close>

lemma claimed_frame:
  assumes c: "runClaimedAttempt env q p attemptId w = (w', r)" and wf: "world_wf w"
  shows "run_frame w w'" "r = Answer v \<Longrightarrow> verdict_fresh env q p (rw_step w) w' v"
proof -
  obtain w1 r1 where s: "verify env q p (Some attemptId) w = (w1, r1)" by fastforce
  note f = verify_frame [OF s wf]
  have "r = r1 \<and> (\<exists>g :: attempt_db \<Rightarrow> attempt_db \<times> (attempt_error + attempt_record).
      attempt_call g \<and> w' = fst (call_attempts env g w1))"
    using c by (cases r1) (auto simp: runClaimedAttempt_def s intro: attempt_calls)
  then obtain g :: "attempt_db \<Rightarrow> attempt_db \<times> (attempt_error + attempt_record)" where
    g: "r = r1" "attempt_call g" "w' = fst (call_attempts env g w1)" by blast
  note k = call_frame_fst [OF g(2), of w1 env, folded g(3)]
  show "run_frame w w'" using f(1) k(1) by (rule run_frame_trans)
  show "r = Answer v \<Longrightarrow> verdict_fresh env q p (rw_step w) w' v"
    using f(2) [of v] g(1) quiet_verdict [OF k(2)] by (simp add: verdict_fresh_def)
qed

section \<open>A passed gate passed\<close>

text \<open>What a required gate that counts as passed stands for.\<close>

definition gate_proved ::
  "run_env \<Rightarrow> run_request \<Rightarrow> string \<Rightarrow> workflow_run list \<Rightarrow> started_command list \<Rightarrow> nat \<Rightarrow> nat \<Rightarrow> required_gate \<Rightarrow> bool" where
  "gate_proved env q headSha runs commands s t gate \<longleftrightarrow> (case rg_source gate of
     Local_command \<Rightarrow> (\<exists>c x res. rg_command gate = Some c \<and> x \<in> set commands
       \<and> ran_at_head env q headSha s t gate c x res \<and> cr_exitCode res = Some 0 \<and> \<not> cr_unavailable res)
   | Github_check \<Rightarrow> (\<exists>r. latest_run (rg_name gate) runs = Some r \<and> wr_status r = ''completed''
       \<and> wr_conclusion r = Some ''success'')
   | External_verifier \<Rightarrow> False)"

lemma latest_runD:
  assumes "latest_run gate runs = Some r"
  shows "r \<in> set runs" "wr_name r = gate" "\<forall>s \<in> set runs. wr_name s = gate \<longrightarrow> wr_id s \<le> wr_id r"
proof -
  let ?rs = "filter (\<lambda>r. wr_name r = gate) runs"
  obtain rest where sorted: "sort_key (\<lambda>r. - wr_id r) ?rs = r # rest"
    using assms by (auto simp: latest_run_def split: list.splits)
  have mem: "set (r # rest) = set ?rs" using arg_cong [OF sorted, of set] by simp
  then have "r \<in> set ?rs" by auto
  then show "r \<in> set runs" "wr_name r = gate" by auto
  have "sorted (map (\<lambda>r. - wr_id r) (r # rest))" using sorted_sort_key [of "\<lambda>r. - wr_id r" ?rs] by (simp only: sorted)
  then have "\<forall>s \<in> set (r # rest). wr_id s \<le> wr_id r" by auto
  with mem show "\<forall>s \<in> set runs. wr_name s = gate \<longrightarrow> wr_id s \<le> wr_id r" by auto
qed

lemma gate_passed_proved:
  assumes "gate_backed env q headSha runs i commands s t gate r" "gt_outcome r = Gate_passed"
  shows "gate_proved env q headSha runs commands s t gate"
proof (cases "rg_source gate")
  case Github_check
  then show ?thesis using assms
    by (auto simp: gate_backed_def gate_proved_def githubGateReceipt_def split: option.splits if_splits)
next
  case Local_command
  then obtain c res x where l: "rg_command gate = Some c" "x \<in> set commands"
      "ran_at_head env q headSha s t gate c x res" "r = command_gate_receipt gate c headSha res"
    using assms by (auto simp: gate_backed_def)
  have "cr_exitCode res = Some 0 \<and> \<not> cr_unavailable res"
    using l(4) assms(2) by (auto simp: command_gate_receipt_def split: option.splits if_splits)
  then show ?thesis using l Local_command by (auto simp: gate_proved_def)
next
  case External_verifier
  then show ?thesis using assms by (simp add: gate_backed_def)
qed

lemma allowed_gates_proved:
  assumes b: "list_all2 (gate_backed env q headSha runs i commands s t) (mp_requiredGates policy) (mr_gates r)"
    and ok: "merge_evidence_ok policy subject r" and req: "gate \<in> set (mp_requiredGates policy)"
  shows "gate_proved env q headSha runs commands s t gate"
proof -
  obtain x where x: "x \<in> set (mr_gates r)" "gate_backed env q headSha runs i commands s t gate x"
    using b req unfolding list_all2_conv_all_nth in_set_conv_nth by metis
  have "gate_evidence_ok (mp_verificationMode policy) (ms_headSha subject) (mr_gates r) gate"
    using ok req by (simp add: merge_evidence_ok_def)
  then obtain g where g: "filter (\<lambda>g. gt_name g = rg_name gate) (mr_gates r) = [g]" "gt_outcome g = Gate_passed"
    unfolding gate_evidence_ok_def by blast
  have "x \<in> set (filter (\<lambda>g. gt_name g = rg_name gate) (mr_gates r))"
    using x gate_backed_fields(1) [OF x(2)] by simp
  with g have "gt_outcome x = Gate_passed" by simp
  with x(2) show ?thesis by (rule gate_passed_proved)
qed

end
