(* ===== verification/Merge_Run_Outcome.thy ===== *)
theory Merge_Run_Outcome
  imports Merge_Run_Verdict
begin

text \<open>
  The outcomes of a whole run, for every path through \<open>run\<close>: the world moves forward, the leases are
  what they were, a completed run has a good verdict and a queued one has a queued row and nothing else.
\<close>

section \<open>What a run leaves\<close>

definition queued_row :: "run_request \<Rightarrow> open_pull \<Rightarrow> string \<Rightarrow> run_world \<Rightarrow> bool" where
  "queued_row q p attemptId w \<longleftrightarrow> (\<exists>row \<in> set (rw_attempts w). atr_attempt_id row = js_trim attemptId
     \<and> atr_status row = At_queued \<and> same_head (js_trim (rn_repository q)) (rn_pullRequest q) (ou_headSha p) row)"

definition result_good ::
  "run_env \<Rightarrow> run_request \<Rightarrow> open_pull \<Rightarrow> run_world \<Rightarrow> run_world \<Rightarrow> run_result call_answer \<Rightarrow> bool" where
  "result_good env q p w w' r \<longleftrightarrow> (case r of
     Answer (Run_completed v) \<Rightarrow> verdict_fresh env q p (rw_step w) w' v \<or> verdict_stands q p v w' \<and> already_stored v w \<and> quiet w w'
   | Answer (Run_queued x) \<Rightarrow> quiet w w' \<and> queued_row q p (qr_attemptId x) w'
   | _ \<Rightarrow> True)"

text \<open>The leases in the controller, as a list: what is left when the run returns is what it found.\<close>

definition same_leases :: "run_world \<Rightarrow> run_world \<Rightarrow> bool" where
  "same_leases w w' \<longleftrightarrow> (ledger_ok (rw_admission w) \<longrightarrow> adm_active (rw_admission w') = adm_active (rw_admission w))"

definition run_good ::
  "run_env \<Rightarrow> run_request \<Rightarrow> open_pull \<Rightarrow> run_world \<Rightarrow> run_world \<times> run_result call_answer \<Rightarrow> bool" where
  "run_good env q p w res \<longleftrightarrow> world_moves w (fst res) \<and> same_leases w (fst res)
     \<and> result_good env q p w (fst res) (snd res)"

lemma run_good_frame:
  "run_frame w w' \<Longrightarrow> result_good env q p w w' r \<Longrightarrow> run_good env q p w (w', r)"
  by (simp add: run_good_def run_frame_def same_leases_def)

lemma result_good_simps [simp]:
  "result_good env q p w w' (Failure e)" "result_good env q p w w' Thrown"
  "result_good env q p w w' (Answer (Run_queued x)) \<longleftrightarrow> quiet w w' \<and> queued_row q p (qr_attemptId x) w'"
  "verdict_fresh env q p (rw_step w) w' v \<Longrightarrow> result_good env q p w w' (Answer (Run_completed v))"
  by (simp_all add: result_good_def)

lemma result_good_before:
  "result_good env q p w1 w' r \<Longrightarrow> quiet w w1 \<Longrightarrow> result_good env q p w w' r"
  by (auto simp: result_good_def already_stored_def quiet_def intro: verdict_fresh_before split: call_answer.splits run_result.splits)

lemma completed_good:
  assumes "run_frame w w'" "\<And>v. r = Answer v \<Longrightarrow> verdict_fresh env q p (rw_step w) w' v"
  shows "run_good env q p w (completed_run (w', r))"
  using assms by (cases r) (auto simp: completed_run_def intro!: run_good_frame)

section \<open>The lease\<close>

text \<open>What \<open>decideVerificationAdmission\<close> does to the controller.\<close>

lemma admission_cases:
  assumes a: "decideVerificationAdmission env i workspaceId w = (w1, r)"
  obtains (lease) l s st where "r = Adm_admitted l" "w1 = w\<lparr>rw_admission := st\<rparr>"
      "tryAcquire (re_config env) (re_reading env) (rw_admission w) (verification_request i workspaceId)
        = (st, Inr (Admitted l s))"
    | (none) st where "\<forall>l. r \<noteq> Adm_admitted l" "w1 = w\<lparr>rw_admission := st\<rparr>"
      "adm_active st = adm_active (rw_admission w)"
proof -
  let ?t = "tryAcquire (re_config env) (re_reading env) (rw_admission w) (verification_request i workspaceId)"
  obtain st d where t: "?t = (st, d)" by fastforce
  have w1: "w1 = w\<lparr>rw_admission := st\<rparr>" using a t by (simp add: decideVerificationAdmission_def)
  show ?thesis
  proof (cases "\<exists>l s. d = Inr (Admitted l s)")
    case True
    then obtain l s where d: "d = Inr (Admitted l s)" by blast
    have "r = Adm_admitted l" using a t d by (simp add: decideVerificationAdmission_def)
    then show ?thesis using lease w1 t d by blast
  next
    case False
    have "\<forall>l. r \<noteq> Adm_admitted l"
      using a t False unfolding decideVerificationAdmission_def
      by (auto split: sum.splits admission_decision.splits invalid_reason.splits)
    moreover have "adm_active st = adm_active (rw_admission w)"
      using t False unfolding tryAcquire_def reject_invalid_def Let_def
      by (auto simp: buildSnapshot_def bind_ok_def split: if_splits sum.splits option.splits)
    ultimately show ?thesis using none w1 by blast
  qed
qed

lemma release_after_good:
  assumes t: "tryAcquire (re_config env) (re_reading env) (rw_admission w) req = (st, Inr (Admitted l s))"
    and w1: "w1 = w\<lparr>rw_admission := st\<rparr>" and good: "run_frame w1 w2" "result_good env q p w1 w2 r"
  shows "run_good env q p w (release_after l (w2, r))"
proof -
  let ?w3 = "w2\<lparr>rw_admission := fst (release (rw_admission w2) l)\<rparr>"
  have adm: "rw_admission w2 = st" using good(1) w1 by (simp add: run_frame_def)
  have "adm_active (fst (release st l)) = adm_active (rw_admission w)" if ok: "ledger_ok (rw_admission w)"
  proof -
    have st: "adm_active st = adm_active (rw_admission w) @ [l]" "\<not> is_active (rw_admission w) (ale_operation l)"
      using tryAcquire_AdmittedD(3,4) [OF t] by simp_all
    then have fresh: "\<forall>x \<in> set (adm_active (rw_admission w)). ale_operation x \<noteq> ale_operation l"
      by (auto simp: is_active_def)
    then have "find_active st (ale_operation l) = Some l"
      unfolding find_active_def st(1) by (intro find_after) auto
    then show ?thesis using st(1) fresh by (simp add: release_active)
  qed
  moreover have "world_moves w ?w3"
    using good(1) w1 by (simp add: run_frame_def world_moves_def world_wf_def world_evolves_def)
  moreover have "result_good env q p w ?w3 r"
    using good(2) w1 by (auto simp: result_good_def verdict_fresh_def verdict_stands_def freshly_backed_def
        already_stored_def quiet_def queued_row_def split: call_answer.splits run_result.splits)
  ultimately show ?thesis
    using adm by (simp add: run_good_def release_after_def same_leases_def)
qed

section \<open>Reads of the attempts\<close>

lemma latest_attempts_set [simp]: "set (latest_attempts rows) = set rows"
  by (simp add: latest_attempts_def)

lemma attempt_toRecord_Inr: "attempt_toRecord row = Inr rec \<Longrightarrow> rec = row"
  by (auto simp: attempt_toRecord_def bind_ok_Inr_iff split: if_splits)

lemma findActive_SomeD:
  assumes "findActive aq db = Inr (Some rec)"
  shows "rec \<in> set db" "same_head (js_trim (qa_repository aq)) (qa_pullRequest aq) (qa_headSha aq) rec"
    "atr_status rec = At_running \<or> atr_status rec = At_queued"
proof -
  obtain repo cutoff where k: "check_active_query aq = Inr (repo, cutoff)"
    using assms by (cases "check_active_query aq") (auto simp: findActive_def)
  have repo: "repo = js_trim (qa_repository aq)" using k by (auto simp: check_active_query_def checked_iffs)
  obtain row rest where c: "active_attempts (js_trim (qa_repository aq)) (qa_pullRequest aq) (qa_headSha aq) cutoff db
      = row # rest" "rec = row"
    using assms unfolding findActive_def k repo
    by (auto simp: bind_ok_Inr_iff split: list.splits if_splits dest!: attempt_toRecord_Inr)
  have "row \<in> set (row # rest)" by simp
  then show "rec \<in> set db" "same_head (js_trim (qa_repository aq)) (qa_pullRequest aq) (qa_headSha aq) rec"
    "atr_status rec = At_running \<or> atr_status rec = At_queued"
    unfolding c(2) by (auto simp: c(1) [symmetric] active_attempts_def Let_def)
qed

lemma find_active_attempt_frame:
  assumes "find_active_attempt env q p w = (w', r)"
  shows "run_frame w w'" "quiet w w'"
  using assms unfolding find_active_attempt_def by (auto intro: call_frame)

lemma find_active_attempt_queued:
  assumes f: "find_active_attempt env q p w = (w', Inr (Some rec))" and wf: "world_wf w"
    and s: "atr_status rec \<noteq> At_running"
  shows "queued_row q p (atr_attempt_id rec) w'"
proof -
  let ?db = "rw_attempts (turn env w)"
  let ?q = "\<lparr>qa_repository = rn_repository q, qa_pullRequest = rn_pullRequest q, qa_headSha = ou_headSha p,
      qa_now = run_now env w, qa_staleAfterMs = ATTEMPT_STALE_AFTER_MS\<rparr>"
  have r: "findActive ?q ?db = Inr (Some rec)" and db: "rw_attempts w' = ?db"
    using f by (auto simp: find_active_attempt_def call_attempts_def Let_def)
  note d = findActive_SomeD [OF r]
  have "attempts_wf ?db"
    using wf turn_frame(1) [of w env] by (simp add: run_frame_def world_moves_def world_wf_def)
  then have "attempt_row_ok rec" using d(1) by (simp add: attempts_wf_def)
  then have "js_trim (atr_attempt_id rec) = atr_attempt_id rec" by (simp add: attempt_row_ok_def trimmed_text_def)
  then show ?thesis using d s by (auto simp: queued_row_def db)
qed

lemma find_raced_frame:
  assumes "find_raced env q p w = (w', r)"
  shows "run_frame w w'" "quiet w w'"
    "world_wf w \<Longrightarrow> r = Some rec \<Longrightarrow> atr_status rec \<noteq> At_running \<Longrightarrow> queued_row q p (atr_attempt_id rec) w'"
proof -
  obtain w1 r1 where f: "find_active_attempt env q p w = (w1, r1)" by fastforce
  have w': "w' = w1" using assms f by (simp add: find_raced_def)
  show "run_frame w w'" "quiet w w'" using find_active_attempt_frame [OF f] w' by simp_all
  assume wf: "world_wf w" and r: "r = Some rec" "atr_status rec \<noteq> At_running"
  have "r1 = Inr (Some rec)" using assms f r(1) by (auto simp: find_raced_def split: sum.splits)
  with f find_active_attempt_queued [OF _ wf r(2)] w' show "queued_row q p (atr_attempt_id rec) w'" by simp
qed

lemma enqueue_queued:
  assumes e: "call_attempts env (enqueueAttempt (attempt_request q p attemptId workspaceId t)) w = (w', Inr rec)"
    and wf: "world_wf w"
  shows "queued_row q p attemptId w'"
proof -
  let ?db = "rw_attempts (turn env w)" and ?na = "attempt_request q p attemptId workspaceId t"
  have r: "snd (add_attempt At_queued ?na ?db) = Inr rec" and db: "rw_attempts w' = fst (add_attempt At_queued ?na ?db)"
    using e call_result [of env "enqueueAttempt ?na" w] by (simp_all add: enqueueAttempt_def)
  obtain n where n: "check_new_attempt ?na = Inr n"
      "add_attempt At_queued ?na ?db = (?db @ [attempt_of At_queued n],
        attempt_requireById (?db @ [attempt_of At_queued n]) (na_attemptId n))"
    using add_attempt_cases [of At_queued ?na ?db] r by auto
  note d = check_new_attemptD(3-6) [OF n(1)]
  show ?thesis
    unfolding queued_row_def db n(2) fst_conv
    by (intro bexI [of _ "attempt_of At_queued n"]) (use d in \<open>simp_all add: same_head_def attempt_request_def\<close>)
qed

section \<open>The paths\<close>

lemma wf_frame: "world_wf w \<Longrightarrow> run_frame w w' \<Longrightarrow> world_wf w'"
  by (simp add: run_frame_def world_moves_def)

lemma claim_attempt_frame:
  "claim_attempt env i workspaceId w = (w', r) \<Longrightarrow> run_frame w w'"
  unfolding claim_attempt_def by (erule call_frame(1)) simp

lemma claimed_path:
  assumes "world_wf w" "run_frame w0 w"
  obtains w' r where "completed_run (runClaimedAttempt env q p attemptId w) = (w', r)" "run_frame w0 w'"
    "result_good env q p w0 w' r"
proof -
  obtain w' v where c: "runClaimedAttempt env q p attemptId w = (w', v)" by fastforce
  note f = claimed_frame [OF c assms(1)]
  have "verdict_fresh env q p (rw_step w0) w' x" if "v = Answer x" for x
    using verdict_fresh_before [OF f(2) [OF that]] assms(2) by (simp add: run_frame_def)
  moreover have "run_frame w0 w'" using assms(2) f(1) by (rule run_frame_trans)
  ultimately show ?thesis using that c by (cases v) (auto simp: completed_run_def)
qed

definition lease_path ::
  "run_env \<Rightarrow> run_request \<Rightarrow> open_pull \<Rightarrow> run_world \<Rightarrow> run_world \<times> run_result call_answer \<Rightarrow> bool" where
  "lease_path env q p w res \<longleftrightarrow> run_frame w (fst res) \<and> result_good env q p w (fst res) (snd res)"

lemma lease_path_claimed:
  "world_wf w \<Longrightarrow> run_frame w0 w \<Longrightarrow> lease_path env q p w0 (completed_run (runClaimedAttempt env q p i w))"
  by (rule claimed_path [of w w0 env q p i]) (simp_all add: lease_path_def)

lemma lease_path_failure [simp]: "run_frame w w' \<Longrightarrow> lease_path env q p w (w', Failure e)"
  by (simp add: lease_path_def)

lemma queued_lease_path:
  assumes wf: "world_wf w"
  shows "lease_path env q p w (case claim_attempt env attemptId workspaceId w of
             (w2, Inr _) \<Rightarrow> completed_run (runClaimedAttempt env q p attemptId w2)
           | (w2, Inl _) \<Rightarrow> (case find_raced env q p w2 of
               (w3, Some raced) \<Rightarrow>
                 if atr_status raced = At_running
                 then (w3, Failure (running_conflict (atr_attempt_id raced)))
                 else (w3, Failure claimed_elsewhere)
             | (w3, None) \<Rightarrow> (w3, Failure claimed_elsewhere)))"
proof -
  obtain w2 r2 where c: "claim_attempt env attemptId workspaceId w = (w2, r2)" by fastforce
  note f = claim_attempt_frame [OF c]
  obtain w3 r3 where r: "find_raced env q p w2 = (w3, r3)" by fastforce
  have "run_frame w w3" using f find_raced_frame(1) [OF r] by (rule run_frame_trans)
  then show ?thesis using lease_path_claimed [OF wf_frame [OF wf f] f] c r
    by (cases r2; cases r3) simp_all
qed

lemma begin_lease_path:
  assumes wf: "world_wf w"
  shows "lease_path env q p w (begin_run env q p workspaceId attemptId startedAt w)"
proof -
  obtain w1 r1 where b: "call_attempts env (beginAttempt (attempt_request q p attemptId workspaceId startedAt)) w = (w1, r1)"
    by fastforce
  have f1: "run_frame w w1" using call_frame(1) [OF b] by simp
  note wf1 = wf_frame [OF wf f1]
  show ?thesis
  proof (cases r1)
    case (Inr x)
    then show ?thesis using lease_path_claimed [OF wf1 f1] b by (simp add: begin_run_def)
  next
    case (Inl e)
    obtain w2 r2 where r: "find_raced env q p w1 = (w2, r2)" by fastforce
    have f2: "run_frame w w2" using f1 find_raced_frame(1) [OF r] by (rule run_frame_trans)
    show ?thesis
    proof (cases r2)
      case None
      then show ?thesis using f2 b Inl r by (simp add: begin_run_def)
    next
      case (Some raced)
      obtain w3 r3 where c: "claim_attempt env (atr_attempt_id raced) workspaceId w2 = (w3, r3)" by fastforce
      have f3: "run_frame w w3" using f2 claim_attempt_frame [OF c] by (rule run_frame_trans)
      show ?thesis
        using f2 f3 lease_path_claimed [OF wf_frame [OF wf f3] f3] b Inl r Some c
        by (cases r3) (simp_all add: begin_run_def)
    qed
  qed
qed

lemma release_path_good:
  assumes "tryAcquire (re_config env) (re_reading env) (rw_admission w) req = (st, Inr (Admitted l s))"
    "w1 = w\<lparr>rw_admission := st\<rparr>" "lease_path env q p w1 res"
  shows "run_good env q p w (release_after l res)"
  using release_after_good [OF assms(1,2), of "fst res" q p "snd res"] assms(3) by (simp add: lease_path_def)

lemma denied_good:
  assumes "w1 = w\<lparr>rw_admission := st\<rparr>" "adm_active st = adm_active (rw_admission w)"
    "run_frame w1 w'" "result_good env q p w1 w' r"
  shows "run_good env q p w (w', r)"
  using assms by (auto simp: run_good_def run_frame_def world_moves_def world_wf_def world_evolves_def
      same_leases_def result_good_def already_stored_def quiet_def split: call_answer.splits run_result.splits)

lemma queued_attempt_good:
  assumes wf: "world_wf w" and row: "queued_row q p attemptId w"
  shows "run_good env q p w (run_queued_attempt env q p workspaceId attemptId w)"
proof -
  obtain w1 r1 where a: "decideVerificationAdmission env attemptId workspaceId w = (w1, r1)" by fastforce
  show ?thesis
  proof (rule admission_cases [OF a])
    fix l s st
    assume l: "r1 = Adm_admitted l" "w1 = w\<lparr>rw_admission := st\<rparr>"
      "tryAcquire (re_config env) (re_reading env) (rw_admission w) (verification_request attemptId workspaceId)
        = (st, Inr (Admitted l s))"
    have "world_wf w1" using wf l(2) by (simp add: world_wf_def)
    from release_path_good [OF l(3,2) queued_lease_path [OF this]] show ?thesis
      by (simp add: run_queued_attempt_def a l(1))
  next
    fix st
    assume n: "\<forall>l. r1 \<noteq> Adm_admitted l" "w1 = w\<lparr>rw_admission := st\<rparr>" "adm_active st = adm_active (rw_admission w)"
    have "queued_row q p attemptId w1" using row n(2) by (simp add: queued_row_def)
    then show ?thesis
      using n by (cases r1) (simp_all add: run_queued_attempt_def a queued_result_def denied_good [OF n(2,3)])
  qed
qed

lemma queue_run_good:
  assumes wf: "world_wf w"
  obtains w' r where "queue_run env q p workspaceId attemptId reason cost w = (w', r)"
    "run_frame w w'" "result_good env q p w w' r"
proof -
  obtain w1 r1 where e: "call_attempts env (enqueueAttempt (attempt_request q p attemptId workspaceId (run_now env w))) w
      = (w1, r1)" by fastforce
  note f1 = call_frame [OF e attempt_calls(2)]
  obtain w2 r2 where r: "find_raced env q p w1 = (w2, r2)" by fastforce
  note f2 = find_raced_frame [OF r]
  have q: "run_frame w w2" "quiet w w2" using f1 f2 run_frame_trans quiet_trans by blast+
  show ?thesis
  proof (cases r1)
    case (Inr x)
    then show ?thesis using that [of w1] e f1 enqueue_queued [OF _ wf] by (simp add: queue_run_def queued_result_def)
  next
    case (Inl x)
    show ?thesis
    proof (cases "\<exists>raced. r2 = Some raced \<and> atr_status raced \<noteq> At_running")
      case True
      then obtain raced where raced: "r2 = Some raced" "atr_status raced \<noteq> At_running" by blast
      have "queued_row q p (atr_attempt_id raced) w2" by (rule f2(3) [OF wf_frame [OF wf f1(1)] raced])
      with that [of w2] e r q Inl raced show ?thesis by (simp add: queue_run_def queued_result_def)
    next
      case False
      with that [of w2] e r q Inl show ?thesis by (cases r2) (simp_all add: queue_run_def)
    qed
  qed
qed

lemma new_attempt_good:
  assumes wf: "world_wf w"
  shows "run_good env q p w (run_new_attempt env q p workspaceId startedAt w)"
proof -
  obtain w1 r1 where a: "decideVerificationAdmission env (re_randomAttemptId env) workspaceId w = (w1, r1)" by fastforce
  show ?thesis
  proof (rule admission_cases [OF a])
    fix l s st
    assume l: "r1 = Adm_admitted l" "w1 = w\<lparr>rw_admission := st\<rparr>"
      "tryAcquire (re_config env) (re_reading env) (rw_admission w)
         (verification_request (re_randomAttemptId env) workspaceId) = (st, Inr (Admitted l s))"
    have "world_wf w1" using wf l(2) by (simp add: world_wf_def)
    from release_path_good [OF l(3,2) begin_lease_path [OF this]] show ?thesis
      by (simp add: run_new_attempt_def a l(1))
  next
    fix st
    assume n: "\<forall>l. r1 \<noteq> Adm_admitted l" "w1 = w\<lparr>rw_admission := st\<rparr>" "adm_active st = adm_active (rw_admission w)"
    have wf1: "world_wf w1" using wf n(2) by (simp add: world_wf_def)
    show ?thesis
    proof (cases r1)
      case (Adm_pressure reason cost)
      obtain w' r where "queue_run env q p workspaceId (re_randomAttemptId env) reason cost w1 = (w', r)"
        "run_frame w1 w'" "result_good env q p w1 w' r" using queue_run_good [OF wf1] by blast
      with Adm_pressure show ?thesis by (simp add: run_new_attempt_def a denied_good [OF n(2,3)])
    qed (use n in \<open>simp_all add: run_new_attempt_def a denied_good [OF n(2,3)]\<close>)
  qed
qed

lemma run_good_after:
  assumes "run_frame w w1" "quiet w w1" "run_good env q p w1 res"
  shows "run_good env q p w res"
  using assms result_good_before [of env q p w1 "fst res" "snd res" w]
  by (auto simp: run_good_def run_frame_def same_leases_def intro: world_moves_trans)

lemma with_attempts_good:
  assumes wf: "world_wf w"
  shows "run_good env q p w (run_with_attempts env q p workspaceId w)"
proof -
  let ?w1 = "fst (call_attempts env (reapStale (run_now env w) ATTEMPT_STALE_AFTER_MS) w)"
  note f1 = call_frame_fst [OF attempt_calls(7), of w env]
  obtain w2 r2 where f: "find_active_attempt env q p ?w1 = (w2, r2)" by fastforce
  note f2 = find_active_attempt_frame [OF f]
  have k: "run_frame w w2" "quiet w w2" using f1 f2 run_frame_trans quiet_trans by blast+
  note wf1 = wf_frame [OF wf f1(1)] and wf2 = wf_frame [OF wf k(1)]
  consider (error) e where "r2 = Inl e" | (new) "r2 = Inr None"
    | (running) rec where "r2 = Inr (Some rec)" "atr_status rec = At_running"
    | (waiting) rec where "r2 = Inr (Some rec)" "atr_status rec \<noteq> At_running"
    by (metis sum.exhaust option.exhaust)
  then show ?thesis
  proof cases
    case new
    with run_good_after [OF k new_attempt_good [OF wf2]] f show ?thesis
      by (simp add: run_with_attempts_def Let_def)
  next
    case waiting
    then have row: "queued_row q p (atr_attempt_id rec) w2" using find_active_attempt_queued [OF _ wf1] f by simp
    with run_good_after [OF k queued_attempt_good [OF wf2 row]] f waiting show ?thesis
      by (simp add: run_with_attempts_def Let_def)
  qed (use f run_good_frame [OF k(1)] in \<open>simp_all add: run_with_attempts_def Let_def\<close>)
qed

lemma verify_path:
  assumes wf: "world_wf w"
  shows "lease_path env q p w (completed_run (verify env q p i w))"
proof -
  obtain w' r where v: "verify env q p i w = (w', r)" by fastforce
  note f = verify_frame [OF v wf]
  show ?thesis using f v by (cases r) (simp_all add: completed_run_def lease_path_def)
qed

lemma without_attempts_good:
  assumes wf: "world_wf w"
  shows "run_good env q p w (run_without_attempts env q p workspaceId w)"
proof -
  let ?i = "''merge-verification:'' @ int_string (rn_pullRequest q) @ ''@'' @ ou_headSha p"
  obtain w1 r1 where a: "decideVerificationAdmission env ?i workspaceId w = (w1, r1)" by fastforce
  show ?thesis
  proof (rule admission_cases [OF a])
    fix l s st
    assume l: "r1 = Adm_admitted l" "w1 = w\<lparr>rw_admission := st\<rparr>"
      "tryAcquire (re_config env) (re_reading env) (rw_admission w) (verification_request ?i workspaceId)
         = (st, Inr (Admitted l s))"
    have "world_wf w1" using wf l(2) by (simp add: world_wf_def)
    from release_path_good [OF l(3,2) verify_path [OF this]] a l(1) show ?thesis
      by (simp add: run_without_attempts_def)
  next
    fix st
    assume n: "\<forall>l. r1 \<noteq> Adm_admitted l" "w1 = w\<lparr>rw_admission := st\<rparr>" "adm_active st = adm_active (rw_admission w)"
    then show ?thesis using a by (cases r1) (simp_all add: run_without_attempts_def denied_good [OF n(2,3)])
  qed
qed

section \<open>Reusing a verdict\<close>

lemma listed_receipt:
  assumes wf: "receipts_wf db" and l: "listForExactHead repository pullRequest headSha limit db = Inr recs"
    and rec: "rec \<in> set recs"
  shows "getReceiptByRef (rcc_receiptRef rec) db = Inr (Some rec)" "receipt_normal (rcc_receipt rec)"
    "mr_headSha (rcc_receipt rec) = headSha"
proof -
  obtain repo n where m: "map_ok receipt_toRecord (newest_receipts
      (\<lambda>r. rcr_repository r = repo \<and> rcr_pull_request r = pullRequest \<and> rcr_head_sha r = headSha) n db) = Inr recs"
    using l unfolding listForExactHead_def bind_ok_Inr_iff checked_iffs by blast
  show "getReceiptByRef (rcc_receiptRef rec) db = Inr (Some rec)" "receipt_normal (rcc_receipt rec)"
    "mr_headSha (rcc_receipt rec) = headSha"
    using newest_receipts_listed [OF wf m rec] by auto
qed

lemma reused_good:
  assumes u: "reusePersistedVerdict env q p (rw_receipts w) = Some r" and wf: "world_wf w"
    and p: "ou_repository p = rn_repository q" "ou_pullRequest p = rn_pullRequest q"
  shows "result_good env q p w w (snd (completed_run (w, r)))"
proof (cases "\<exists>v. r = Answer v")
  case False
  then show ?thesis by (cases r) (auto simp: completed_run_def)
next
  case True
  then obtain v where v: "r = Answer v" by blast
  obtain recs review rec where k:
      "listForExactHead (rn_repository q) (rn_pullRequest q) (ou_headSha p) (Some 10) (rw_receipts w) = Inr recs"
      "find (reusable q p review) recs = Some rec" "v = verdict_of_record rec"
    using u unfolding v reusePersistedVerdict_def
    by (auto simp del: find.simps split: if_splits sum.splits list.splits call_answer.splits)
  have rec: "rec \<in> set recs" "reusable q p review rec"
    using k(2) by (auto simp: find_Some_iff in_set_conv_nth)
  have rwf: "receipts_wf (rw_receipts w)" using wf by (simp add: world_wf_def)
  note l = listed_receipt [OF rwf k(1) rec(1)]
  have "verdict_stands q p v w"
    using l rec(2) by (simp add: verdict_stands_def k(3) verdict_of_record_def reusable_def parseReceipt_normal
        run_subject_open [OF p])
  moreover have "already_stored v w"
    using l(1) by (simp add: already_stored_def k(3) verdict_of_record_def)
  ultimately show ?thesis by (simp add: v completed_run_def result_good_def)
qed

section \<open>The run\<close>

lemma observed_run_good:
  assumes o: "observeOpenPullRequest (re_pull env) (rn_repository q) (rn_pullRequest q) = Answer p"
    and wf: "world_wf w"
  shows "run_good env q p w (runVerification env q w)"
proof -
  note p = observe_openD [OF o]
  note none = run_good_frame [OF run_frame_refl]
  consider (policy) "ou_repository p \<noteq> mp_repository (rn_policy q)"
    | (reused) r where "ou_repository p = mp_repository (rn_policy q)"
        "reusePersistedVerdict env q p (rw_receipts w) = Some r"
    | (light) "ou_repository p = mp_repository (rn_policy q)" "reusePersistedVerdict env q p (rw_receipts w) = None"
        "filter is_local_gate (mp_requiredGates (rn_policy q)) = []"
    | (heavy) "ou_repository p = mp_repository (rn_policy q)" "reusePersistedVerdict env q p (rw_receipts w) = None"
        "filter is_local_gate (mp_requiredGates (rn_policy q)) \<noteq> []"
    by (metis option.exhaust)
  then show ?thesis
  proof cases
    case reused
    show ?thesis
      using none [OF reused_good [OF reused(2) wf p]] reused
      by (simp add: runVerification_def o completed_run_def)
  next
    case light
    have "run_good env q p w (completed_run (verify env q p None w))"
      using verify_path [OF wf] run_good_frame unfolding lease_path_def by (metis prod.collapse)
    then show ?thesis by (simp add: runVerification_def o light)
  next
    case heavy
    show ?thesis
      using with_attempts_good [OF wf] without_attempts_good [OF wf] none
      by (cases "rn_workspaceId q") (simp_all add: runVerification_def o heavy)
  qed (use none in \<open>simp add: runVerification_def o\<close>)
qed

text \<open>Without an open pull request nothing happens at all.\<close>

lemma unobserved_run:
  assumes "\<And>p. observeOpenPullRequest (re_pull env) (rn_repository q) (rn_pullRequest q) \<noteq> Answer p"
  shows "fst (runVerification env q w) = w" "\<forall>x. snd (runVerification env q w) \<noteq> Answer x"
  using assms unfolding runVerification_def by (auto split: call_answer.splits)

lemma run_moves:
  assumes "world_wf w"
  shows "world_moves w (fst (runVerification env q w)) \<and> same_leases w (fst (runVerification env q w))"
proof (cases "\<exists>p. observeOpenPullRequest (re_pull env) (rn_repository q) (rn_pullRequest q) = Answer p")
  case True
  then show ?thesis using observed_run_good [OF _ assms] by (auto simp: run_good_def)
next
  case False
  then show ?thesis using unobserved_run(1) [of env q w] by (simp add: same_leases_def)
qed

lemma run_answer:
  assumes "world_wf w" "runVerification env q w = (w', Answer x)"
  obtains p where "observeOpenPullRequest (re_pull env) (rn_repository q) (rn_pullRequest q) = Answer p"
    "result_good env q p w w' (Answer x)"
proof (cases "\<exists>p. observeOpenPullRequest (re_pull env) (rn_repository q) (rn_pullRequest q) = Answer p")
  case True
  then show ?thesis using observed_run_good [OF _ assms(1), of env q] assms(2) that by (auto simp: run_good_def)
next
  case False
  then show ?thesis using unobserved_run(2) [of env q w] assms(2) by simp
qed

end
