(* ===== verification/Merge_Status.thy ===== *)
theory Merge_Status
  imports Merge_Services_Safety
begin

text \<open>
  The read-only status of verification (apps/cli/src/runtime/merge-verification-status.ts): a view of
  the attempts and receipts of a pull request. It reports a running row whose heartbeat expired as
  interrupted, reports an attempt whose runner died as completed when a receipt of its head was
  recorded after it started, and derives a decision only for one exact head. The policy port is a
  parameter. \<open>attempt_view_backed\<close> and \<open>status_decision_backed\<close> say what a reader may conclude.
\<close>

section \<open>The views\<close>

record attempt_view =
  av_attemptId :: string
  av_headSha :: string
  av_status :: attempt_status
  av_baseBranch :: "string option"
  av_workspaceId :: "string option"
  av_gateName :: "string option"
  av_startedAt :: iso
  av_heartbeatAt :: iso
  av_finishedAt :: "iso option"
  av_detail :: "string option"
  av_receiptRef :: "string option"

record receipt_view =
  vr_receiptRef :: string
  vr_sequence :: int
  vr_headSha :: string
  vr_createdAt :: iso
  vr_recordedAt :: iso

record verification_status =
  vs_repository :: string
  vs_pullRequest :: int
  vs_headSha :: "string option"
  vs_attempts :: "attempt_view list"
  vs_receipts :: "receipt_view list"
  vs_latestReceiptRef :: "string option"
  vs_decision :: "merge_decision option"

record status_request =
  vq_repository :: string
  vq_pullRequest :: int
  vq_headSha :: "string option"
  vq_limit :: "int option"

text \<open>Why the promise of a status is rejected: by a store, or by the policy port.\<close>

datatype status_error = Ve_attempts attempt_error | Ve_receipts receipt_store_error | Ve_policy

definition DEFAULT_STALE_AFTER_MS :: int where "DEFAULT_STALE_AFTER_MS = 90000"

definition EXPIRED_DETAIL :: string where
  "EXPIRED_DETAIL = ''Heartbeat expired without a verdict; the runner never reported completion''"

definition RECONCILED_DETAIL :: string where
  "RECONCILED_DETAIL = ''The attempt was never closed by its runner, but a persisted exact-head receipt ''
     @ ''recorded after it started carries the verdict; the receipt is authoritative.''"

definition QUEUED_DETAIL :: string where
  "QUEUED_DETAIL = ''Queued behind heavy admission; no gate has run and no receipt exists yet. ''
     @ ''A merge_verification_run for this exact head claims it.''"

section \<open>The view of an attempt\<close>

text \<open>\<open>a < b\<close> of two times, false when one of them is not a number.\<close>

fun iso_before :: "iso \<Rightarrow> iso \<Rightarrow> bool" where
  "iso_before (Instant a) (Instant b) = (a < b)"
| "iso_before _ _ = False"

definition recorded_during :: "attempt_record \<Rightarrow> receipt_record \<Rightarrow> bool" where
  "recorded_during attempt entry \<longleftrightarrow>
     (if js_lower (mr_headSha (rcc_receipt entry)) \<noteq> js_lower (atr_head_sha attempt) then False
      else if iso_before (rcc_recordedAt entry) (atr_started_at attempt) then False
      else (case atr_finished_at attempt of
          None \<Rightarrow> True
        | Some t \<Rightarrow> date_parse t = None \<or> iso_at_most (rcc_recordedAt entry) t))"

definition findReceiptRecordedAfterAttemptStart ::
  "attempt_record \<Rightarrow> receipt_record list \<Rightarrow> receipt_record option" where
  "findReceiptRecordedAfterAttemptStart attempt receipts =
     (if date_parse (atr_started_at attempt) = None then None
      else find (recorded_during attempt) receipts)"

definition toAttemptView :: "attempt_record \<Rightarrow> int \<Rightarrow> receipt_record list \<Rightarrow> attempt_view" where
  "toAttemptView attempt staleCutoff receipts =
     (let expired = (atr_status attempt = At_running
            \<and> iso_at_most (atr_heartbeat_at attempt) (Instant staleCutoff));
          queued = (atr_status attempt = At_queued);
          recovered = (if queued then None else findReceiptRecordedAfterAttemptStart attempt receipts);
          view = (\<lambda>status finished detail ref.
            \<lparr>av_attemptId = atr_attempt_id attempt, av_headSha = atr_head_sha attempt, av_status = status,
             av_baseBranch = atr_base_branch attempt, av_workspaceId = atr_workspace_id attempt,
             av_gateName = atr_gate_name attempt, av_startedAt = atr_started_at attempt,
             av_heartbeatAt = atr_heartbeat_at attempt, av_finishedAt = finished, av_detail = detail,
             av_receiptRef = ref\<rparr>);
          plain = view (if expired then At_interrupted else atr_status attempt) (atr_finished_at attempt)
            (if atr_detail attempt = None \<and> \<not> expired \<and> \<not> queued then None
             else Some (case atr_detail attempt of
               Some d \<Rightarrow> d | None \<Rightarrow> if expired then EXPIRED_DETAIL else QUEUED_DETAIL))
            (atr_receipt_ref attempt)
      in case recovered of
           None \<Rightarrow> plain
         | Some entry \<Rightarrow>
             if expired \<or> atr_status attempt = At_interrupted
             then view At_completed (Some (rcc_recordedAt entry)) (Some RECONCILED_DETAIL)
                    (Some (rcc_receiptRef entry))
             else plain)"

section \<open>The status\<close>

definition receipt_view_of :: "receipt_record \<Rightarrow> receipt_view" where
  "receipt_view_of entry =
     \<lparr>vr_receiptRef = rcc_receiptRef entry, vr_sequence = rcc_sequence entry,
      vr_headSha = mr_headSha (rcc_receipt entry), vr_createdAt = mr_createdAt (rcc_receipt entry),
      vr_recordedAt = rcc_recordedAt entry\<rparr>"

text \<open>The base branch of the newest attempt that has one.\<close>

fun observed_branch :: "attempt_record list \<Rightarrow> string option" where
  "observed_branch [] = None"
| "observed_branch (a # as) = (case atr_base_branch a of None \<Rightarrow> observed_branch as | Some b \<Rightarrow> Some b)"

definition status_subject :: "status_request \<Rightarrow> string \<Rightarrow> string \<Rightarrow> merge_receipt \<Rightarrow> merge_subject" where
  "status_subject q headSha baseBranch receipt =
     \<lparr>ms_repository = vq_repository q, ms_pullRequest = vq_pullRequest q, ms_headSha = headSha,
      ms_baseBranch = baseBranch, ms_baseSha = mr_baseSha receipt\<rparr>"

text \<open>The policy is asked for only when the head, a receipt and a base branch are known.\<close>

definition status_decision ::
  "(string \<Rightarrow> unit + merge_policy option) \<Rightarrow> status_request \<Rightarrow> attempt_record list \<Rightarrow> receipt_record list
     \<Rightarrow> status_error + merge_decision option" where
  "status_decision getPolicy q attempts receipts =
     (case (vq_headSha q, receipts, observed_branch attempts) of
        (Some headSha, latest # _, Some baseBranch) \<Rightarrow>
          (case getPolicy (vq_repository q) of
             Inl _ \<Rightarrow> Inl Ve_policy
           | Inr None \<Rightarrow> Inr None
           | Inr (Some policy) \<Rightarrow> Inr (Some (evaluateMergeEvidence policy
               (status_subject q headSha baseBranch (rcc_receipt latest)) (Some (rcc_receipt latest)))))
      | _ \<Rightarrow> Inr None)"

definition status_receipts ::
  "status_request \<Rightarrow> receipt_db \<Rightarrow> receipt_store_error + receipt_record list" where
  "status_receipts q receipts = (case vq_headSha q of
     None \<Rightarrow> listReceiptsForPullRequest (vq_repository q) (vq_pullRequest q) (vq_limit q) receipts
   | Some headSha \<Rightarrow> listForExactHead (vq_repository q) (vq_pullRequest q) headSha (vq_limit q) receipts)"

text \<open>\<open>observedAt\<close> is what \<open>now().toISOString()\<close> printed.\<close>

definition verificationStatus ::
  "(string \<Rightarrow> unit + merge_policy option) \<Rightarrow> iso \<Rightarrow> int \<Rightarrow> status_request \<Rightarrow> attempt_db \<Rightarrow> receipt_db
     \<Rightarrow> status_error + verification_status" where
  "verificationStatus getPolicy observedAt staleAfterMs q attemptDb receiptDb =
     (let staleCutoff = iso_ms observedAt - staleAfterMs
      in bind_ok (map_sum Ve_attempts (\<lambda>x. x)
           (listAttempts (vq_repository q) (vq_pullRequest q) (vq_headSha q) (vq_limit q) attemptDb)) (\<lambda>attempts.
         bind_ok (map_sum Ve_receipts (\<lambda>x. x) (status_receipts q receiptDb)) (\<lambda>receipts.
         bind_ok (status_decision getPolicy q attempts receipts) (\<lambda>decision.
           Inr \<lparr>vs_repository = vq_repository q, vs_pullRequest = vq_pullRequest q, vs_headSha = vq_headSha q,
                vs_attempts = map (\<lambda>a. toAttemptView a staleCutoff receipts) attempts,
                vs_receipts = map receipt_view_of receipts,
                vs_latestReceiptRef = (case receipts of [] \<Rightarrow> None | r # _ \<Rightarrow> Some (rcc_receiptRef r)),
                vs_decision = decision\<rparr>))))"

section \<open>What a reader may conclude\<close>

lemma toAttemptView_cases:
  obtains "toAttemptView a cutoff receipts = toAttemptView a cutoff []"
  | entry where "av_status (toAttemptView a cutoff receipts) = At_completed"
      "av_receiptRef (toAttemptView a cutoff receipts) = Some (rcc_receiptRef entry)"
      "av_attemptId (toAttemptView a cutoff receipts) = atr_attempt_id a"
      "entry \<in> set receipts" "recorded_during a entry" "date_parse (atr_started_at a) \<noteq> None"
      "atr_status a = At_running \<and> iso_at_most (atr_heartbeat_at a) (Instant cutoff) \<or> atr_status a = At_interrupted"
proof (cases "\<exists>entry. atr_status a \<noteq> At_queued \<and> findReceiptRecordedAfterAttemptStart a receipts = Some entry
    \<and> (atr_status a = At_running \<and> iso_at_most (atr_heartbeat_at a) (Instant cutoff) \<or> atr_status a = At_interrupted)")
  case True
  then obtain entry where e: "findReceiptRecordedAfterAttemptStart a receipts = Some entry"
    "atr_status a = At_running \<and> iso_at_most (atr_heartbeat_at a) (Instant cutoff) \<or> atr_status a = At_interrupted"
    by blast
  have m: "entry \<in> set receipts" "recorded_during a entry" "date_parse (atr_started_at a) \<noteq> None"
    using e(1) by (auto simp: findReceiptRecordedAfterAttemptStart_def find_Some_iff split: if_splits)
  show ?thesis by (rule that(2) [OF _ _ _ m e(2)]) (use e in \<open>auto simp: toAttemptView_def Let_def\<close>)
next
  case False
  have "findReceiptRecordedAfterAttemptStart a [] = None" by (simp add: findReceiptRecordedAfterAttemptStart_def)
  with False show ?thesis
    by (intro that(1)) (auto simp: toAttemptView_def Let_def split: option.splits)
qed

lemma plain_view [simp]:
  "av_attemptId (toAttemptView a cutoff []) = atr_attempt_id a"
  "av_status (toAttemptView a cutoff []) =
     (if atr_status a = At_running \<and> iso_at_most (atr_heartbeat_at a) (Instant cutoff) then At_interrupted
      else atr_status a)"
  "av_receiptRef (toAttemptView a cutoff []) = atr_receipt_ref a"
  by (simp_all add: toAttemptView_def Let_def findReceiptRecordedAfterAttemptStart_def)

lemma iso_at_most_fresh:
  "date_parse t \<noteq> None \<Longrightarrow> \<not> iso_at_most t (Instant c) \<longleftrightarrow> c < iso_ms t"
  by (cases t) auto

text \<open>
  A view that is queued or running is a row that is, a running one with a fresh heartbeat; a view that
  is completed is a completed row or has a receipt of its head recorded since it started.
\<close>

definition view_backed :: "int \<Rightarrow> receipt_record list \<Rightarrow> attempt_row \<Rightarrow> attempt_view \<Rightarrow> bool" where
  "view_backed cutoff receipts a v \<longleftrightarrow> av_attemptId v = atr_attempt_id a
     \<and> (av_status v = At_queued \<longleftrightarrow> atr_status a = At_queued)
     \<and> (av_status v = At_running \<longleftrightarrow> atr_status a = At_running \<and> cutoff < iso_ms (atr_heartbeat_at a))
     \<and> (av_status v = At_failed \<longleftrightarrow> atr_status a = At_failed)
     \<and> (av_status v = At_completed \<longrightarrow> atr_status a = At_completed
          \<or> (\<exists>entry \<in> set receipts. av_receiptRef v = Some (rcc_receiptRef entry)
               \<and> js_lower (mr_headSha (rcc_receipt entry)) = js_lower (atr_head_sha a)
               \<and> \<not> iso_before (rcc_recordedAt entry) (atr_started_at a)))"

lemma attempt_view_backed:
  assumes "attempt_row_ok a"
  shows "view_backed cutoff receipts a (toAttemptView a cutoff receipts)"
proof -
  have hb: "date_parse (atr_heartbeat_at a) \<noteq> None" using assms by (simp add: attempt_row_ok_def)
  note fresh = iso_at_most_fresh [OF hb]
  show ?thesis
  proof (cases rule: toAttemptView_cases [of a cutoff receipts])
    case 1
    show ?thesis unfolding 1 view_backed_def using fresh by auto
  next
    case (2 entry)
    have e: "\<exists>e \<in> set receipts. Some (rcc_receiptRef entry) = Some (rcc_receiptRef e)
        \<and> js_lower (mr_headSha (rcc_receipt e)) = js_lower (atr_head_sha a)
        \<and> \<not> iso_before (rcc_recordedAt e) (atr_started_at a)"
      using 2(4,5) by (intro bexI [of _ entry]) (auto simp: recorded_during_def split: if_splits)
    have s: "atr_status a \<noteq> At_queued" "atr_status a \<noteq> At_failed"
      "\<not> (atr_status a = At_running \<and> cutoff < iso_ms (atr_heartbeat_at a))"
      using 2(7) unfolding fresh [symmetric] by auto
    show ?thesis unfolding view_backed_def 2(1-3) by (intro conjI impI disjI2 e) (use s in simp_all)
  qed
qed

lemma status_receipts_listed:
  assumes wf: "receipts_wf db" and l: "status_receipts q db = Inr recs" and rec: "rec \<in> set recs"
  shows "getReceiptByRef (rcc_receiptRef rec) db = Inr (Some rec)"
    "mr_pullRequest (rcc_receipt rec) = vq_pullRequest q"
    "\<And>h. vq_headSha q = Some h \<Longrightarrow> mr_headSha (rcc_receipt rec) = h"
proof -
  obtain repo n where m: "map_ok receipt_toRecord (newest_receipts (\<lambda>r. rcr_repository r = repo
      \<and> rcr_pull_request r = vq_pullRequest q \<and> (\<forall>h. vq_headSha q = Some h \<longrightarrow> rcr_head_sha r = h)) n db) = Inr recs"
    using l unfolding status_receipts_def listForExactHead_def listReceiptsForPullRequest_def
    by (cases "vq_headSha q") (auto simp: checked_iffs)
  show "getReceiptByRef (rcc_receiptRef rec) db = Inr (Some rec)"
    "mr_pullRequest (rcc_receipt rec) = vq_pullRequest q"
    "\<And>h. vq_headSha q = Some h \<Longrightarrow> mr_headSha (rcc_receipt rec) = h"
    using newest_receipts_listed [OF wf m rec] by auto
qed

lemma listAttempts_mem:
  assumes "listAttempts repository pullRequest headSha limit db = Inr as" "a \<in> set as"
  shows "\<exists>row \<in> set db. attempt_toRecord row = Inr a"
proof -
  obtain P k where m: "map_ok attempt_toRecord (take k (latest_attempts (filter P db))) = Inr as"
    using assms(1) unfolding listAttempts_def bind_ok_Inr_iff by blast
  obtain row where "row \<in> set (take k (latest_attempts (filter P db)))" "attempt_toRecord row = Inr a"
    using list_all2_rightD [OF m [unfolded map_ok_Inr_iff] assms(2)] by blast
  then show ?thesis by (auto simp: latest_attempts_def dest!: in_set_takeD)
qed

lemma observed_branchD: "observed_branch as = Some b \<Longrightarrow> \<exists>a \<in> set as. atr_base_branch a = Some b"
  by (induction as) (auto split: option.splits)

lemma status_parts:
  assumes "verificationStatus getPolicy observedAt staleAfterMs q adb rdb = Inr s"
  obtains as recs where
    "listAttempts (vq_repository q) (vq_pullRequest q) (vq_headSha q) (vq_limit q) adb = Inr as"
    "status_receipts q rdb = Inr recs" "status_decision getPolicy q as recs = Inr (vs_decision s)"
    "vs_attempts s = map (\<lambda>a. toAttemptView a (iso_ms observedAt - staleAfterMs) recs) as"
    "vs_latestReceiptRef s = (case recs of [] \<Rightarrow> None | r # _ \<Rightarrow> Some (rcc_receiptRef r))"
  using assms unfolding verificationStatus_def Let_def bind_ok_Inr_iff
  by (auto split: sum.splits simp: map_sum_def intro: that)

text \<open>
  A decision to allow is the evaluation of the reported receipt, for the requested head and a base
  branch an attempt observed.
\<close>

lemma status_decision_backed:
  assumes d: "status_decision getPolicy q as recs = Inr (Some Merge_allowed)"
  obtains headSha latest rest baseBranch policy where "vq_headSha q = Some headSha" "recs = latest # rest"
    "observed_branch as = Some baseBranch" "getPolicy (vq_repository q) = Inr (Some policy)"
    "merge_evidence_ok policy (status_subject q headSha baseBranch (rcc_receipt latest)) (rcc_receipt latest)"
  using d unfolding status_decision_def
  by (auto split: option.splits list.splits sum.splits simp: evaluate_allows_iff intro: that)

lemma listed_attempt_stored:
  assumes "attempts_wf adb" "listAttempts repository pullRequest headSha limit adb = Inr as" "a \<in> set as"
  shows "a \<in> set adb" "attempt_row_ok a"
proof -
  obtain row where row: "row \<in> set adb" "attempt_toRecord row = Inr a" using listAttempts_mem [OF assms(2,3)] by blast
  have ok: "attempt_row_ok row" using assms(1) row(1) by (simp add: attempts_wf_def)
  show "a \<in> set adb" "attempt_row_ok a" using attempt_reads [OF ok] row ok by simp_all
qed

lemma status_view_stored:
  assumes "attempts_wf adb" "receipts_wf rdb"
    "verificationStatus getPolicy observedAt staleAfterMs q adb rdb = Inr s" "v \<in> set (vs_attempts s)"
  shows "\<exists>a \<in> set adb. av_attemptId v = atr_attempt_id a
       \<and> (av_status v = At_queued \<longleftrightarrow> atr_status a = At_queued)
       \<and> (av_status v = At_failed \<longleftrightarrow> atr_status a = At_failed)
       \<and> (av_status v = At_running \<longleftrightarrow> atr_status a = At_running
            \<and> iso_ms (atr_heartbeat_at a) > iso_ms observedAt - staleAfterMs)
       \<and> (av_status v = At_completed \<longrightarrow> atr_status a = At_completed
            \<or> (\<exists>ref rec. av_receiptRef v = Some ref \<and> getReceiptByRef ref rdb = Inr (Some rec)
                 \<and> mr_pullRequest (rcc_receipt rec) = vq_pullRequest q
                 \<and> js_lower (mr_headSha (rcc_receipt rec)) = js_lower (atr_head_sha a)
                 \<and> \<not> iso_before (rcc_recordedAt rec) (atr_started_at a)))"
proof (rule status_parts [OF assms(3)])
  fix as recs
  assume l: "listAttempts (vq_repository q) (vq_pullRequest q) (vq_headSha q) (vq_limit q) adb = Inr as"
    and r: "status_receipts q rdb = Inr recs"
    and vs: "vs_attempts s = map (\<lambda>a. toAttemptView a (iso_ms observedAt - staleAfterMs) recs) as"
  obtain a where a: "a \<in> set as" "v = toAttemptView a (iso_ms observedAt - staleAfterMs) recs"
    using assms(4) by (auto simp: vs)
  note stored = listed_attempt_stored [OF assms(1) l a(1)]
  show ?thesis
    using attempt_view_backed [OF stored(2), of "iso_ms observedAt - staleAfterMs" recs] stored(1)
      status_receipts_listed(1,2) [OF assms(2) r]
    unfolding a(2) view_backed_def by blast
qed

lemma status_decision_dispatches:
  assumes "attempts_wf adb" "receipts_wf rdb"
    "verificationStatus getPolicy observedAt staleAfterMs q adb rdb = Inr s" "vs_decision s = Some Merge_allowed"
  shows "\<exists>ref policy subject. vs_latestReceiptRef s = Some ref
         \<and> getPolicy (vq_repository q) = Inr (Some policy) \<and> vq_headSha q = Some (ms_headSha subject)
         \<and> ms_pullRequest subject = vq_pullRequest q
         \<and> (\<exists>a \<in> set adb. atr_base_branch a = Some (ms_baseBranch subject))
         \<and> length (snd (guardedDispatch (stored_receipt rdb) port
             \<lparr>gq_policy = policy, gq_subject = subject, gq_receiptRef = ref\<rparr>)) = 1"
proof (rule status_parts [OF assms(3)])
  fix as recs
  assume l: "listAttempts (vq_repository q) (vq_pullRequest q) (vq_headSha q) (vq_limit q) adb = Inr as"
    and r: "status_receipts q rdb = Inr recs" and d: "status_decision getPolicy q as recs = Inr (vs_decision s)"
    and latest: "vs_latestReceiptRef s = (case recs of [] \<Rightarrow> None | r # _ \<Rightarrow> Some (rcc_receiptRef r))"
  from status_decision_backed [OF d [unfolded assms(4)]] obtain headSha x rest branch policy where
    x: "vq_headSha q = Some headSha" "recs = x # rest" "observed_branch as = Some branch"
      "getPolicy (vq_repository q) = Inr (Some policy)"
      "merge_evidence_ok policy (status_subject q headSha branch (rcc_receipt x)) (rcc_receipt x)" .
  let ?subject = "status_subject q headSha branch (rcc_receipt x)"
  let ?request = "\<lparr>gq_policy = policy, gq_subject = ?subject, gq_receiptRef = rcc_receiptRef x\<rparr>"
  have get: "getReceiptByRef (rcc_receiptRef x) rdb = Inr (Some x)"
    by (rule status_receipts_listed(1) [OF assms(2) r]) (simp add: x(2))
  have ref: "js_trim (rcc_receiptRef x) = rcc_receiptRef x" using getReceipt_ref(1) [OF assms(2) get] by simp
  have "rcc_receiptRef x \<noteq> []"
    using get by (auto simp: getReceiptByRef_def bind_ok_Inr_iff requiredBounded_Inr_iff trimmed_text_def ref)
  then have "\<exists>call. snd (guardedDispatch (stored_receipt rdb) port ?request) = [call]"
    unfolding guarded_calls Let_def stored_receipt_iff using ref get x(5) by simp
  moreover obtain a where "a \<in> set adb" "atr_base_branch a = Some branch"
    using observed_branchD [OF x(3)] listed_attempt_stored(1) [OF assms(1) l] by blast
  ultimately show ?thesis
    by (intro exI [of _ "rcc_receiptRef x"] exI [of _ policy] exI [of _ ?subject])
      (use x(1,4) in \<open>auto simp: latest x(2) status_subject_def\<close>)
qed

end
