(* ===== verification/Merge_Properties.thy ===== *)
theory Merge_Properties
  imports Merge_Poller_Safety Merge_Run_Outcome Merge_Status
begin

text \<open>
  The properties of guarded merges: which merges are dispatched, what the stores of receipts, attempts
  and judgements keep, what a run of a verification may leave behind, and when the poller moves on.
  Each property is followed by an instance of it on a small repository.
\<close>

section \<open>Dispatching\<close>

text \<open>
  C29: A merge is dispatched exactly when the stored receipt under the reference proves it. The service
  calls the merge port once, with the subject of the request and the method of the policy, if the
  receipt is in the store under that very reference and is sufficient: this repository, pull request,
  head and base, exactly one passing receipt of this head for every required gate from the source the
  policy demands, and a review of this head the policy accepts. In every other case it calls nothing.
\<close>
theorem merge_dispatched_iff_proven:
  "snd (guardedDispatch (stored_receipt db) port request) =
    (let ref = js_trim (gq_receiptRef request)
     in if ref \<noteq> [] \<and> (\<exists>rec. getReceiptByRef ref db = Inr (Some rec) \<and> rcc_receiptRef rec = ref
            \<and> merge_evidence_ok (gq_policy request) (gq_subject request) (rcc_receipt rec))
        then [\<lparr>md_receiptRef = ref, md_subject = gq_subject request,
               md_mergeMethod = (case mp_mergeMethod (gq_policy request) of None \<Rightarrow> Mm_merge | Some m \<Rightarrow> m)\<rparr>]
        else [])"
proof -
  let ?ref = "js_trim (gq_receiptRef request)"
  let ?call = "\<lparr>md_receiptRef = ?ref, md_subject = gq_subject request,
      md_mergeMethod = (case mp_mergeMethod (gq_policy request) of None \<Rightarrow> Mm_merge | Some m \<Rightarrow> m)\<rparr>"
  let ?ok = "?ref \<noteq> [] \<and> (\<exists>rec. getReceiptByRef ?ref db = Inr (Some rec) \<and> rcc_receiptRef rec = ?ref
      \<and> merge_evidence_ok (gq_policy request) (gq_subject request) (rcc_receipt rec))"
  have calls: "snd (guardedDispatch (stored_receipt db) port request) = [call] \<longleftrightarrow> ?ok \<and> call = ?call" for call
    unfolding guarded_calls Let_def stored_receipt_iff by blast
  show ?thesis
    using guarded_at_most_one [of "stored_receipt db" port request] calls unfolding Let_def by (auto split: if_splits)
qed

section \<open>The stores\<close>

text \<open>
  C30: A reference names one piece of evidence for ever. Once a receipt can be read under a reference,
  it is read under it after any sequence of appends, and appending again under the reference changes
  nothing: the answer is the stored record when the evidence is the same, and an error otherwise.
\<close>
theorem receipt_ref_names_evidence:
  assumes "receipts_wf db" "getReceiptByRef ref db = Inr (Some rec)"
  shows "let later = run_ops receipt_append_step db ops in
    getReceiptByRef ref later = Inr (Some rec)
    \<and> (\<exists>answer. appendReceipt ref receipt t later = (later, answer)
        \<and> (\<forall>res. answer = Inr res \<longrightarrow> res = \<lparr>arr_appended = False, arr_record = rec\<rparr>
             \<and> parseReceipt Re_invalid_receipt receipt = Inr (rcc_receipt rec)))"
proof -
  let ?later = "run_ops receipt_append_step db ops"
  have wf: "receipts_wf ?later" by (rule receipt_log.run_inv [OF assms(1)])
  have get: "getReceiptByRef ref ?later = Inr (Some rec)"
    by (rule getReceipt_extend [OF receipt_log.run_rel [OF assms(1)] assms(2)])
  obtain r row where r: "requiredBounded Re_invalid_receipt ref MAX_RECEIPT_REF_CHARS = Inr r"
    "find_receipt ?later r = Some row" "receipt_toRecord row = Inr rec"
    using get by (auto simp: getReceiptByRef_def bind_ok_Inr_iff split: option.splits)
  have same: "append_request ref receipt t s x \<Longrightarrow> s = r \<and> parseReceipt Re_invalid_receipt receipt = Inr x" for s x
    using r(1) by (auto simp: append_request_def)
  from append_outcome [OF wf, of ref receipt t] have "\<exists>answer. appendReceipt ref receipt t ?later = (?later, answer)
        \<and> (\<forall>res. answer = Inr res \<longrightarrow> res = \<lparr>arr_appended = False, arr_record = rec\<rparr>
             \<and> parseReceipt Re_invalid_receipt receipt = Inr (rcc_receipt rec))"
  proof (elim disjE exE conjE)
    fix s x assume "append_request ref receipt t s x" "find_receipt ?later s = None"
    then show ?thesis using same r(2) by fastforce
  next
    fix s x row' rec' assume a: "append_request ref receipt t s x" "find_receipt ?later s = Some row'"
      "receipt_toRecord row' = Inr rec'" "appendReceipt ref receipt t ?later = (?later,
        if rcc_receipt rec' = x then Inr \<lparr>arr_appended = False, arr_record = rec'\<rparr> else Inl Re_receipt_ref_conflict)"
    have "rec' = rec" using a(2,3) same [OF a(1)] r(2,3) by simp
    with a(4) same [OF a(1)] show ?thesis by simp
  qed auto
  with get show ?thesis by (simp add: Let_def)
qed

text \<open>
  C31: One verification of a head at a time, and attempts only move forward. After any operations of any
  number of runners on the attempts, in any order, at most one attempt of a repository, pull request
  and head is queued or running. After any further operations each attempt is still there, under its
  identifier, with its head, base branch and start; its status has not gone back from running to queued
  or from an end to either, and one that was over is unchanged. And of all who claim a queued attempt
  one wins: a claim is answered only for a row that was queued, the row is then running, and no other
  claim of it is answered in any later state.
\<close>
theorem one_live_verification:
  "let db = run_ops attempt_step [] ops; later = run_ops attempt_step db ops2 in
     (\<forall>r \<in> set db. \<forall>s \<in> set db. attempt_live r \<and> attempt_live s
        \<and> same_head (atr_repository s) (atr_pull_request s) (atr_head_sha s) r \<longrightarrow> r = s)
   \<and> (\<forall>r \<in> set db. \<exists>s. find_attempt later (atr_attempt_id r) = Some s
        \<and> same_head (atr_repository r) (atr_pull_request r) (atr_head_sha r) s
        \<and> atr_base_branch s = atr_base_branch r \<and> atr_started_at s = atr_started_at r
        \<and> status_rank (atr_status r) \<le> status_rank (atr_status s)
        \<and> (attempt_terminal r \<longrightarrow> s = r))
   \<and> (\<forall>i t w db' rec. claimQueued i t w db = (db', Inr rec) \<longrightarrow>
        (\<exists>r. find_attempt db (js_trim i) = Some r \<and> atr_status r = At_queued)
        \<and> find_attempt db' (js_trim i) = Some rec \<and> atr_status rec = At_running
        \<and> (\<forall>i' t' w'. js_trim i' = js_trim i \<longrightarrow> (\<exists>e. claimQueued i' t' w' (run_ops attempt_step db' ops2)
             = (run_ops attempt_step db' ops2, Inl e))))"
proof -
  let ?db = "run_ops attempt_step [] ops" and ?later = "run_ops attempt_step (run_ops attempt_step [] ops) ops2"
  have wf: "attempts_wf ?db" by (rule attempts.run_inv) simp
  have wf': "attempts_wf ?later" by (rule attempts.run_inv [OF wf])
  have fwd: "\<exists>s. find_attempt ?later (atr_attempt_id r) = Some s \<and> attempt_evolves r s" if r: "r \<in> set ?db" for r
  proof -
    obtain s where s: "s \<in> set ?later" "attempt_evolves r s"
      using attempts.run_rel [OF wf, of ops2] r unfolding attempts_evolve_def by blast
    have "atr_attempt_id s = atr_attempt_id r" using s(2) by (simp add: attempt_evolves_def)
    with find_attempt_key [OF wf' s(1)] s(2) show ?thesis by simp
  qed
  have claim: "(\<exists>r. find_attempt ?db (js_trim i) = Some r \<and> atr_status r = At_queued)
      \<and> find_attempt db' (js_trim i) = Some rec \<and> atr_status rec = At_running"
    if c: "claimQueued i t w ?db = (db', Inr rec)" for i t w db' rec
  proof (rule claim_outcome [OF wf, of i t w])
    fix r rec' assume r: "r \<in> set ?db" "atr_status r = At_queued" "atr_attempt_id r = js_trim i"
      "atr_status rec' = At_running" "attempt_evolves r rec'" "rec' \<in> set (fst (claimQueued i t w ?db))"
      "snd (claimQueued i t w ?db) = Inr rec'"
    have "attempts_wf db'" using claim_moves [OF wf, of i t w] c by (simp add: attempt_moves_def)
    then have "find_attempt db' (js_trim i) = Some rec"
      using find_attempt_key [of db' rec] r c by (simp add: attempt_evolves_def)
    then show ?thesis using r c find_attempt_key [OF wf r(1)] by simp
  qed (use c in simp)
  show ?thesis
    unfolding Let_def
  proof (intro conjI ballI allI impI)
    fix r s assume "r \<in> set ?db" "s \<in> set ?db" "attempt_live r \<and> attempt_live s
        \<and> same_head (atr_repository s) (atr_pull_request s) (atr_head_sha s) r"
    then show "r = s" using single_live [OF wf] by blast
  next
    fix r assume "r \<in> set ?db"
    from fwd [OF this] show "\<exists>s. find_attempt ?later (atr_attempt_id r) = Some s
        \<and> same_head (atr_repository r) (atr_pull_request r) (atr_head_sha r) s
        \<and> atr_base_branch s = atr_base_branch r \<and> atr_started_at s = atr_started_at r
        \<and> status_rank (atr_status r) \<le> status_rank (atr_status s)
        \<and> (attempt_terminal r \<longrightarrow> s = r)"
      unfolding attempt_evolves_def by blast
  next
    fix i t w db' rec i' t' w'
    assume c: "claimQueued i t w ?db = (db', Inr rec)"
    show "\<exists>r. find_attempt ?db (js_trim i) = Some r \<and> atr_status r = At_queued"
      "find_attempt db' (js_trim i) = Some rec" "atr_status rec = At_running"
      using claim [OF c] by blast+
    assume "js_trim i' = js_trim i"
    then show "\<exists>e. claimQueued i' t' w' (run_ops attempt_step db' ops2) = (run_ops attempt_step db' ops2, Inl e)"
      by (rule claimed_once [OF wf c])
  qed
qed

section \<open>Judging merges\<close>

text \<open>An observed merge that lacks the evidence or was not made by the expected method.\<close>

definition merge_breach :: "merge_policy \<Rightarrow> merge_observation \<Rightarrow> merge_receipt option \<Rightarrow> merge_method \<Rightarrow> bool" where
  "merge_breach policy obs receipt expected \<longleftrightarrow> date_parse (mo_observedAt obs) \<noteq> None \<and> mo_merged obs
     \<and> ((\<forall>r. receipt = Some r \<longrightarrow> \<not> merge_evidence_ok policy (observed_subject obs) r)
        \<or> mo_mergeMethod obs \<noteq> Some expected)"

text \<open>What cannot be judged: no time, no merge, or a merge that has everything but a merge commit.\<close>

definition merge_unclear :: "merge_policy \<Rightarrow> merge_observation \<Rightarrow> merge_receipt option \<Rightarrow> merge_method \<Rightarrow> bool" where
  "merge_unclear policy obs receipt expected \<longleftrightarrow> date_parse (mo_observedAt obs) = None \<or> \<not> mo_merged obs
     \<or> (\<exists>r. receipt = Some r \<and> merge_evidence_ok policy (observed_subject obs) r) \<and> mo_mergeMethod obs = Some expected
        \<and> (\<forall>sha. mo_mergeSha obs = Some sha \<longrightarrow> \<not> is_sha_any_case sha)"

lemma judged_exactly:
  fixes policy obs receipt expected
  defines "s \<equiv> mj_status (reconcileMergeEvidence policy obs receipt expected)"
  shows "s = Mst_reconciled \<longleftrightarrow> merge_proven policy obs receipt expected"
    "s = Mst_policy_breach \<longleftrightarrow> merge_breach policy obs receipt expected"
    "s = Mst_inspect_required \<longleftrightarrow> merge_unclear policy obs receipt expected"
proof -
  show r: "s = Mst_reconciled \<longleftrightarrow> merge_proven policy obs receipt expected"
    unfolding s_def by (rule reconciled_iff)
  show b: "s = Mst_policy_breach \<longleftrightarrow> merge_breach policy obs receipt expected"
    unfolding s_def breach_iff merge_breach_def evaluate_cases by blast
  have "s = Mst_inspect_required \<longleftrightarrow> s \<noteq> Mst_reconciled \<and> s \<noteq> Mst_policy_breach" by (cases s) simp_all
  also have "\<dots> \<longleftrightarrow> merge_unclear policy obs receipt expected"
    unfolding r b merge_proven_def merge_breach_def merge_unclear_def
    by (cases receipt; cases "mo_mergeSha obs") auto
  finally show "s = Mst_inspect_required \<longleftrightarrow> merge_unclear policy obs receipt expected" .
qed

text \<open>
  C32: A judged merge is judged right. Whenever the automatic reconciliation answers a judgement, the
  judgement is stored, the receipt it rests on is in the store of receipts under its reference, and the
  answer is one of three, exactly. It is reconciled when GitHub was observed to have merged this very
  pull request and head, by the expected method, with a merge commit, and the receipt is one the policy
  accepts for it. It is a breach of the policy when the merge was observed and the receipt is missing
  or not accepted, or the method is missing or another one. And it asks for an inspection when the
  time of the observation is no date, nothing was merged, or only the merge commit is missing or no SHA.
\<close>
theorem reconciled_merge_is_proven:
  assumes "merges_wf db" "reconcileAutomatically observed receipts now q db = (db', result)"
    "judged_record result = Some rec"
  shows "\<exists>obs. observed = Inr obs \<and> stored_merge db' rec
     \<and> (\<forall>x. mr2_receipt rec = Some x \<longrightarrow> (\<exists>s r. mr2_receiptRef rec = Some s
          \<and> getReceiptByRef s receipts = Inr (Some r) \<and> rcc_receipt r = x))
     \<and> (result = Mres_reconciled rec \<longleftrightarrow>
          merge_proven (oq_policy q) obs (mr2_receipt rec) (oq_expectedMergeMethod q))
     \<and> (result = Mres_policy_breach rec \<longleftrightarrow>
          merge_breach (oq_policy q) obs (mr2_receipt rec) (oq_expectedMergeMethod q))
     \<and> ((\<exists>why. result = Mres_inspect_required why None (Some rec)) \<longleftrightarrow>
          merge_unclear (oq_policy q) obs (mr2_receipt rec) (oq_expectedMergeMethod q))"
proof (rule reconcileAutomatically_judged [OF assms(2,3)])
  fix obs ref
  let ?q = "\<lparr>mq_policy = oq_policy q, mq_expectedMergeMethod = oq_expectedMergeMethod q, mq_observation = obs,
    mq_receiptRef = ref\<rparr>"
  assume o: "observed = Inr obs" and r: "reconcileMerge (stored_receipt receipts) now ?q db = (db', result)"
  note j = reconcileMerge_judged [OF assms(1) r assms(3)]
  let ?s = "mj_status (reconcileMergeEvidence (oq_policy q) obs (mr2_receipt rec) (oq_expectedMergeMethod q))"
  have res: "result = judged_result (reconcileMergeEvidence (oq_policy q) obs (mr2_receipt rec)
      (oq_expectedMergeMethod q)) rec"
    and ev: "\<forall>x. mr2_receipt rec = Some x \<longrightarrow> (\<exists>s. mr2_receiptRef rec = Some s
      \<and> stored_receipt receipts s = Inr (Some (s, x)))" using j by simp_all
  have "result = Mres_reconciled rec \<longleftrightarrow> ?s = Mst_reconciled" "result = Mres_policy_breach rec \<longleftrightarrow> ?s = Mst_policy_breach"
    "(\<exists>why. result = Mres_inspect_required why None (Some rec)) \<longleftrightarrow> ?s = Mst_inspect_required"
    unfolding res judged_result_def by (simp_all split: merge_status.splits)
  moreover have "\<exists>s r. mr2_receiptRef rec = Some s \<and> getReceiptByRef s receipts = Inr (Some r) \<and> rcc_receipt r = x"
    if x: "mr2_receipt rec = Some x" for x
  proof -
    obtain s where s: "mr2_receiptRef rec = Some s" "stored_receipt receipts s = Inr (Some (s, x))"
      using ev x by blast
    from s(2) [unfolded stored_receipt_iff] s(1) show ?thesis by blast
  qed
  ultimately show ?thesis unfolding judged_exactly using o j by blast
qed

text \<open>
  The observer never reports a rebase, so a merge under a policy that demands one is never reconciled.
\<close>

theorem rebase_never_reconciled:
  assumes wf: "merges_wf db" and rebase: "oq_expectedMergeMethod q = Mm_rebase"
    and r: "reconcileAutomatically (githubObserve answer getCommit repository n) receipts now q db = (db', result)"
  shows "result \<noteq> Mres_reconciled rec"
proof
  assume res: "result = Mres_reconciled rec"
  then have j: "judged_record result = Some rec" by simp
  show False
  proof (rule reconcileAutomatically_judged [OF r j])
    fix obs ref
    let ?q = "\<lparr>mq_policy = oq_policy q, mq_expectedMergeMethod = oq_expectedMergeMethod q, mq_observation = obs,
      mq_receiptRef = ref\<rparr>"
    assume o: "githubObserve answer getCommit repository n = Inr obs"
      and m: "reconcileMerge (stored_receipt receipts) now ?q db = (db', result)"
    have "result = judged_result (mr2_decision rec) rec \<and> mr2_decision rec =
        reconcileMergeEvidence (oq_policy q) obs (mr2_receipt rec) (oq_expectedMergeMethod q)"
      using reconcileMerge_judged [OF wf m j] by simp
    then have "merge_proven (oq_policy q) obs (mr2_receipt rec) Mm_rebase"
      using res rebase by (metis judged_result_status(1) reconciled_iff)
    then show False using observed_never_rebase [OF o] by (simp add: merge_proven_def)
  qed
qed

text \<open>
  C33: Observing a merge again is harmless. After a merge has been judged and the judgement stored, the
  same request with the same evidence, observed at another time, against any later state of the store,
  answers the stored record and stores nothing.
\<close>
theorem reobserving_is_idempotent:
  assumes "merges_wf db" "reconcileMerge getByRef now q db = (db', result)" "judged_record result = Some rec"
    and "merges_wf later" "merges_extend db' later"
    and "date_parse (mo_observedAt (mq_observation q)) \<noteq> None" "date_parse t \<noteq> None" "date_parse now' \<noteq> None"
  shows "reconcileMerge getByRef now' (q\<lparr>mq_observation := (mq_observation q)\<lparr>mo_observedAt := t\<rparr>\<rparr>) later
    = (later, result)"
proof (rule reconcileMerge_reads [of q getByRef])
  fix r assume r: "judged_record r = None"
    "\<And>now q' db. mq_receiptRef q' = mq_receiptRef q \<Longrightarrow> reconcileMerge getByRef now q' db = (db, r)"
  show ?thesis using r(1) r(2) [of q now db] assms(2,3) by simp
next
  fix ref receipt assume s: "\<And>now q' db. mq_receiptRef q' = mq_receiptRef q \<Longrightarrow>
      reconcileMerge getByRef now q' db = store_reconciliation q' ref receipt now db"
  have "store_reconciliation q ref receipt now db = (db', result)" using s [of q now db] assms(2) by simp
  from store_reconciliation_again [OF assms(1) this assms(3-8)] show ?thesis by (simp add: s)
qed

section \<open>The poller\<close>

lemma boundedPositive_pos: "0 < n \<Longrightarrow> 0 < boundedPositive v n"
  by (auto simp: boundedPositive_def split: option.splits)

lemma after_cursor_not_before: "isAfterCursor c u \<Longrightarrow> \<not> stamp_less (cu_updatedAt u) (pc_updatedAtWatermark c)"
  by (auto simp: isAfterCursor_def stamp_less_def stamp_same_def split: option.splits)

text \<open>A pass that moves the cursor saw every candidate after it and stopped at none.\<close>

lemma moving_pass:
  assumes pg: "paged xs (boundedPositive pageSize 100) get" and cur: "poll_get repository setting = Inr (Some c)"
    and run: "reconcileRepository (listUpdatedClosed get pageSize maxPages repository) reconcile advance clock
        repository setting m = (setting', m', summary)" and moved: "setting' \<noteq> setting"
  obtains us tally where
    "reconcile_candidates reconcile (filter (is_candidate c) (pending_updates c us))
       \<lparr>pt_reconciled = 0, pt_breaches = 0, pt_newest = None,
        pt_terminal = filter (is_historical c) (pending_updates c us)\<rparr> m = (m', tally, None)"
    "poll_set repository (advanceCursor c us (pt_terminal tally)) setting = (setting', Inr ())"
    "\<And>e. e \<in> set xs \<Longrightarrow> isAfterCursor c (update_of e) \<Longrightarrow> is_candidate c (update_of e)
       \<Longrightarrow> update_of e \<in> set (filter (is_candidate c) (pending_updates c us))"
proof (rule poll_from_cursor_cases)
  show "poll_from_cursor (listUpdatedClosed get pageSize maxPages repository) reconcile advance repository c setting m
      = (setting', m', summary)"
    using run cur by (simp add: reconcileRepository_def)
next
  assume "setting' = setting"
  then show thesis using moved by simp
next
  fix us tally
  assume f: "listUpdatedClosed get pageSize maxPages repository (pc_updatedAtWatermark c) = Inr (us, True)"
    and rest: "reconcile_candidates reconcile (filter (is_candidate c) (pending_updates c us))
       \<lparr>pt_reconciled = 0, pt_breaches = 0, pt_newest = None,
        pt_terminal = filter (is_historical c) (pending_updates c us)\<rparr> m = (m', tally, None)"
      "poll_set repository (advanceCursor c us (pt_terminal tally)) setting = (setting', Inr ())"
  have pages: "read_pages get repository (pc_updatedAtWatermark c) (boundedPositive pageSize 100)
      (boundedPositive maxPages 10) 1 None [] = Inr (us, True)"
    using f by (auto simp: listUpdatedClosed_def split: if_splits)
  show thesis
  proof (rule that [OF rest])
    fix e assume e: "e \<in> set xs" "isAfterCursor c (update_of e)" "is_candidate c (update_of e)"
    have "\<not> stamp_less (ce_updated_at e) (pc_updatedAtWatermark c)"
      using after_cursor_not_before [OF e(2)] by (simp add: update_of_def)
    then have "update_of e \<in> set us"
      using read_pages_complete [OF pg boundedPositive_pos pages _ _ e(1)] by simp
    then show "update_of e \<in> set (filter (is_candidate c) (pending_updates c us))"
      using e by (simp add: pending_updates_set)
  qed
qed

text \<open>
  C34: The poller misses no merge. GitHub lists the closed pull requests of a repository by the time of
  their update, newest first, in pages. When a pass moves the cursor of the repository, the cursor moves
  forward, and every pull request of the list that was updated after the old cursor and merged since
  the polling began has been judged, with the judgement stored. Judgements made before stay.
\<close>
theorem poll_misses_no_merge:
  assumes "merges_wf db" "paged xs (boundedPositive pageSize 100) get"
    and "poll_get repository setting = Inr (Some c)"
    and "reconcileRepository (listUpdatedClosed get pageSize maxPages repository)
        (poll_reconcile observe receipts now policy) advance clock repository setting db = (setting', db', summary)"
    and "setting' \<noteq> setting"
  shows "(\<exists>c'. poll_get repository setting' = Inr (Some c') \<and> cursor_moves c c')
     \<and> merges_wf db' \<and> merges_extend db db'
     \<and> (\<forall>e \<in> set xs. isAfterCursor c (update_of e) \<and> is_candidate c (update_of e)
          \<longrightarrow> judged_pull observe db' (ce_number e))"
proof (rule moving_pass [OF assms(2-5)])
  fix us tally
  assume loop: "reconcile_candidates (poll_reconcile observe receipts now policy)
       (filter (is_candidate c) (pending_updates c us)) \<lparr>pt_reconciled = 0, pt_breaches = 0, pt_newest = None,
        pt_terminal = filter (is_historical c) (pending_updates c us)\<rparr> db = (db', tally, None)"
    and put: "poll_set repository (advanceCursor c us (pt_terminal tally)) setting = (setting', Inr ())"
    and seen: "\<And>e. e \<in> set xs \<Longrightarrow> isAfterCursor c (update_of e) \<Longrightarrow> is_candidate c (update_of e)
       \<Longrightarrow> update_of e \<in> set (filter (is_candidate c) (pending_updates c us))"
  note j = reconcile_candidates_judge [OF assms(1) loop]
  have "stamp_time (pc_updatedAtWatermark c) \<noteq> None"
    using poll_get_valid [OF assms(3)] by (simp add: validateCursor_def)
  then have "cursor_moves c (advanceCursor c us (pt_terminal tally))" by (rule advance_moves)
  moreover have "judged_pull observe db' (ce_number e)" if e: "e \<in> set xs" "isAfterCursor c (update_of e)"
    "is_candidate c (update_of e)" for e
  proof -
    have "judged_pull observe db' (cu_pullRequest (update_of e))" using j seen [OF e] by blast
    then show ?thesis by (simp add: update_of_def)
  qed
  ultimately show ?thesis using j poll_store.get_put [OF put] by blast
qed

text \<open>
  C35: A changed policy stops the poller. Suppose a merge was judged and stored, and the policy of the
  repository has been changed since in anything but the path of its checkout. If the pull request comes
  back in the list after the cursor, which a comment on it is enough for, then no pass ever moves the
  cursor again: the reference of the merge is taken by the judgement under the old policy, the new
  judgement is a conflict, and the loop over the candidates ends there. The stored judgement stays.
\<close>
theorem policy_change_stalls_poller:
  assumes "merges_wf db" "paged xs (boundedPositive pageSize 100) get"
    and "poll_get repository setting = Inr (Some c)"
    and "e \<in> set xs" "isAfterCursor c (update_of e)" "is_candidate c (update_of e)"
    and "observe (ce_number e) = Inr obs" "stored_merge db old"
      "mr2_reconciliationRef old = js_trim (reconciliationRef obs)" "evidencePolicy policy \<noteq> mr2_policy old"
  shows "fst (reconcileRepository (listUpdatedClosed get pageSize maxPages repository)
        (poll_reconcile observe receipts now policy) advance clock repository setting db) = setting"
proof (rule ccontr)
  obtain setting' db' summary where run: "reconcileRepository (listUpdatedClosed get pageSize maxPages repository)
        (poll_reconcile observe receipts now policy) advance clock repository setting db = (setting', db', summary)"
    by (metis prod_cases3)
  assume "fst (reconcileRepository (listUpdatedClosed get pageSize maxPages repository)
        (poll_reconcile observe receipts now policy) advance clock repository setting db) \<noteq> setting"
  then have moved: "setting' \<noteq> setting" using run by simp
  show False
  proof (rule moving_pass [OF assms(2,3) run moved])
    fix us tally
    assume loop: "reconcile_candidates (poll_reconcile observe receipts now policy)
       (filter (is_candidate c) (pending_updates c us)) \<lparr>pt_reconciled = 0, pt_breaches = 0, pt_newest = None,
        pt_terminal = filter (is_historical c) (pending_updates c us)\<rparr> db = (db', tally, None)"
      and seen: "\<And>e. e \<in> set xs \<Longrightarrow> isAfterCursor c (update_of e) \<Longrightarrow> is_candidate c (update_of e)
       \<Longrightarrow> update_of e \<in> set (filter (is_candidate c) (pending_updates c us))"
    have "observe (cu_pullRequest (update_of e)) = Inr obs" using assms(7) by (simp add: update_of_def)
    from conflicting_candidate_stops [where observe = observe, OF assms(1,8,9) this assms(10) seen [OF assms(4-6)] loop]
    show False by simp
  qed
qed

section \<open>Runs of a verification\<close>

lemma verdict_allowed:
  "verdict_stands q p v w \<Longrightarrow> vd_decision v = Merge_allowed
    \<Longrightarrow> merge_evidence_ok (rn_policy q) (run_subject q p) (vd_receipt v)"
  by (simp add: verdict_stands_def evaluate_allows_iff [symmetric])

text \<open>
  C36: A run gives everything back. Whatever a run of a verification answers, also when it fails or
  throws at any point, and whatever other runners do to the attempts meanwhile: the active leases of the
  admission controller are the ones before the run, no receipt is lost or changed, the attempts only
  moved forward, and both tables are well-formed again.
\<close>
theorem verification_gives_back_leases:
  assumes "world_wf w" "ledger_ok (rw_admission w)" "runVerification env q w = (w', answer)"
  shows "adm_active (rw_admission w') = adm_active (rw_admission w) \<and> world_wf w'
     \<and> receipts_extend (rw_receipts w) (rw_receipts w') \<and> attempts_evolve (rw_attempts w) (rw_attempts w')"
  using run_moves [OF assms(1), of env q] assms
  by (auto simp: world_moves_def world_evolves_def same_leases_def)

text \<open>
  C37: A queued run ran nothing. When a run answers that the verification is queued, no command was
  started and no receipt was added, and the attempt it names is in the table, queued for the head of the
  pull request that was observed.
\<close>
theorem queued_run_ran_nothing:
  assumes "world_wf w" "runVerification env q w = (w', Answer (Run_queued x))"
  shows "rw_commands w' = rw_commands w \<and> rw_receipts w' = rw_receipts w
     \<and> (\<exists>p. observeOpenPullRequest (re_pull env) (rn_repository q) (rn_pullRequest q) = Answer p
          \<and> (\<exists>row \<in> set (rw_attempts w'). atr_attempt_id row = js_trim (qr_attemptId x) \<and> atr_status row = At_queued
               \<and> same_head (js_trim (rn_repository q)) (rn_pullRequest q) (ou_headSha p) row))"
proof (rule run_answer [OF assms])
  fix p assume "observeOpenPullRequest (re_pull env) (rn_repository q) (rn_pullRequest q) = Answer p"
    "result_good env q p w w' (Answer (Run_queued x))"
  then show ?thesis by (auto simp: quiet_def queued_row_def)
qed

text \<open>
  C38: An allowed verdict rests on gates that passed at the head. When a run answers that the head may be
  merged, then either the receipt was stored before and the run ran nothing, or every required gate
  passed for the observed head. For a local gate this run started the very command of the policy, in
  the directory the policy names under the root of the registered workspace, and it exited 0; at a step
  of this run before the command and at another one after it, that workspace was at exactly the
  observed head, with a clean tree and the requested repository as its GitHub remote. A GitHub gate is
  the newest run of that name for this head, completed with success. And no gate of an external
  verifier is required.
\<close>
theorem allowed_verdict_rests_on_gates:
  assumes "world_wf w" "runVerification env q w = (w', Answer (Run_completed v))" "vd_decision v = Merge_allowed"
  shows "\<exists>p. observeOpenPullRequest (re_pull env) (rn_repository q) (rn_pullRequest q) = Answer p
     \<and> mr_headSha (vd_receipt v) = ou_headSha p
     \<and> (already_stored v w \<and> rw_commands w' = rw_commands w \<or>
        (\<exists>runs. (list_ex (\<lambda>g. rg_source g = Github_check) (mp_requiredGates (rn_policy q)) \<longrightarrow>
              readGitHubWorkflowRuns (re_runs env) (rn_repository q) (ou_headSha p) = Answer runs)
           \<and> (\<forall>gate \<in> set (mp_requiredGates (rn_policy q)). gate_proved env q (ou_headSha p) runs (rw_commands w')
              (rw_step w) (rw_step w') gate)))"
proof (rule run_answer [OF assms(1,2)])
  fix p assume o: "observeOpenPullRequest (re_pull env) (rn_repository q) (rn_pullRequest q) = Answer p"
    and r: "result_good env q p w w' (Answer (Run_completed v))"
  have stands: "verdict_stands q p v w'" using r by (auto simp: result_good_def verdict_fresh_def)
  then have ok: "merge_evidence_ok (rn_policy q) (run_subject q p) (vd_receipt v)"
    using verdict_allowed assms(3) by blast
  have head: "mr_headSha (vd_receipt v) = ou_headSha p" using stands by (simp add: verdict_stands_def)
  from r consider "already_stored v w" "rw_commands w' = rw_commands w" | "freshly_backed env q p (rw_step w) v w'"
    by (auto simp: result_good_def verdict_fresh_def quiet_def)
  then show ?thesis
  proof cases
    case 2
    then obtain runs i where b: "list_ex (\<lambda>g. rg_source g = Github_check) (mp_requiredGates (rn_policy q)) \<longrightarrow>
        readGitHubWorkflowRuns (re_runs env) (rn_repository q) (ou_headSha p) = Answer runs"
      "list_all2 (gate_backed env q (ou_headSha p) runs i (rw_commands w') (rw_step w) (rw_step w'))
         (mp_requiredGates (rn_policy q)) (mr_gates (vd_receipt v))"
      unfolding freshly_backed_def by blast
    then show ?thesis using allowed_gates_proved [OF b(2) ok] o head by blast
  qed (use o head in blast)
qed

lemma parse_gate_trimmed:
  "parse_gate e g = Inr h \<Longrightarrow> js_trim (gt_name g) = gt_name g \<Longrightarrow> h = g"
  by (auto simp: parse_gate_def checked_iffs optionalEvidence_Inr_iff)

lemma parse_gates_trimmed:
  "map_ok (parse_gate e) gs = Inr hs \<Longrightarrow> \<forall>g \<in> set gs. js_trim (gt_name g) = gt_name g \<Longrightarrow> hs = gs"
  by (induction gs arbitrary: hs) (auto simp: bind_ok_Inr_iff dest: parse_gate_trimmed)

lemma parseReceipt_trimmed:
  assumes "parseReceipt e r = Inr n" "js_trim (mr_repository r) = mr_repository r"
    "\<forall>g \<in> set (mr_gates r). js_trim (gt_name g) = gt_name g"
  shows "n = r"
proof -
  have "mr_gates n = mr_gates r" "mr_review n = mr_review r"
    using assms(1,3) parse_gates_trimmed unfolding parseReceipt_def bind_ok_Inr_iff
    by (fastforce simp: checked_iffs optionalEvidence_Inr_iff)+
  with parseReceipt_fields [OF assms(1)] assms(2) show ?thesis by simp
qed

lemma backed_names_trimmed:
  assumes "list_all2 (gate_backed env q head runs i cs s t) gates rs" "\<forall>g \<in> set gates. js_trim (rg_name g) = rg_name g"
  shows "\<forall>r \<in> set rs. js_trim (gt_name r) = gt_name r"
  using list_all2_rightD [OF assms(1)] gate_backed_fields(1) assms(2) by metis

text \<open>
  C39: What was verified can be merged, and nothing else. When a run answers that a head may be merged,
  then at any later time, whatever receipts were added, the guarded service dispatches the merge for
  the reference of the verdict under the same policy: exactly one call, for the repository, pull request
  and head that were observed. The names in the policy carry no surrounding blanks.
\<close>
theorem verified_head_can_merge:
  assumes "world_wf w" "runVerification env q w = (w', Answer (Run_completed v))" "vd_decision v = Merge_allowed"
    and "receipts_extend (rw_receipts w') later"
    and "js_trim (rn_repository q) = rn_repository q"
      "\<forall>g \<in> set (mp_requiredGates (rn_policy q)). js_trim (rg_name g) = rg_name g"
  shows "\<exists>p. observeOpenPullRequest (re_pull env) (rn_repository q) (rn_pullRequest q) = Answer p
     \<and> (\<exists>call. snd (guardedDispatch (stored_receipt later) port \<lparr>gq_policy = rn_policy q,
            gq_subject = open_subject p, gq_receiptRef = vd_receiptRef v\<rparr>) = [call] \<and> md_subject call = open_subject p)"
proof (rule run_answer [OF assms(1,2)])
  fix p assume o: "observeOpenPullRequest (re_pull env) (rn_repository q) (rn_pullRequest q) = Answer p"
    and r: "result_good env q p w w' (Answer (Run_completed v))"
  have stands: "verdict_stands q p v w'" using r by (auto simp: result_good_def verdict_fresh_def)
  have sub: "run_subject q p = open_subject p" by (rule run_subject_open [OF observe_openD [OF o]])
  have ok: "merge_evidence_ok (rn_policy q) (open_subject p) (vd_receipt v)"
    using verdict_allowed [OF stands assms(3)] sub by simp
  obtain rec where rec: "getReceiptByRef (vd_receiptRef v) (rw_receipts w') = Inr (Some rec)"
    "parseReceipt Re_invalid_receipt (vd_receipt v) = Inr (rcc_receipt rec)"
    using stands unfolding verdict_stands_def by blast
  have wf': "world_wf w'" using run_moves [OF assms(1), of env q] assms(1,2) by (simp add: world_moves_def)
  note ref = getReceipt_ref [OF _ rec(1)]
  have rwf: "receipts_wf (rw_receipts w')" using wf' by (simp add: world_wf_def)
  have same: "rcc_receipt rec = vd_receipt v"
  proof (cases "freshly_backed env q p (rw_step w) v w'")
    case True
    then have names: "\<forall>g \<in> set (mr_gates (vd_receipt v)). js_trim (gt_name g) = gt_name g"
      using backed_names_trimmed assms(6) unfolding freshly_backed_def by blast
    have "mr_repository (vd_receipt v) = rn_repository q"
      using merge_evidence_okD(3) [OF ok] observe_openD(1) [OF o] by (simp add: open_subject_def)
    then show ?thesis using parseReceipt_trimmed [OF rec(2) _ names] assms(5) by simp
  next
    case False
    then have st: "already_stored v w" "quiet w w'" using r by (auto simp: result_good_def verdict_fresh_def)
    then show ?thesis using rec(1) by (auto simp: already_stored_def quiet_def)
  qed
  let ?ref = "js_trim (vd_receiptRef v)"
  have nonempty: "?ref \<noteq> []"
    using rec(1) by (auto simp: getReceiptByRef_def bind_ok_Inr_iff requiredBounded_Inr_iff trimmed_text_def)
  have "getReceiptByRef ?ref (rw_receipts w') = Inr (Some rec)"
    using rec(1) by (simp add: getReceiptByRef_def requiredBounded_def)
  then have "stored_receipt later ?ref = Inr (Some (?ref, vd_receipt v))"
    using getReceipt_extend [OF assms(4)] ref(1) [OF rwf] same by (auto simp: stored_receipt_iff)
  then have "snd (guardedDispatch (stored_receipt later) port \<lparr>gq_policy = rn_policy q,
            gq_subject = open_subject p, gq_receiptRef = vd_receiptRef v\<rparr>) = [\<lparr>md_receiptRef = ?ref, md_subject = open_subject p,
            md_mergeMethod = (case mp_mergeMethod (rn_policy q) of None \<Rightarrow> Mm_merge | Some m \<Rightarrow> m)\<rparr>]"
    unfolding guarded_calls Let_def using ok nonempty by auto
  then show ?thesis using o by auto
qed

section \<open>The status\<close>

text \<open>
  C40: The status of a verification claims nothing that is not stored. It reports an attempt as queued,
  or as failed, exactly when its row is, and as running exactly when its row is and the heartbeat is
  younger than the grace; an attempt it reports as completed has a completed row, or a stored receipt
  of its head and pull request, recorded no earlier than the attempt began, under the reference it
  reports. And if it reports that the head may be merged, the merge of that head with the reported
  receipt, under the policy and a base branch some attempt observed, is one the guarded service sends.
\<close>
theorem status_claims_are_backed:
  assumes "attempts_wf adb" "receipts_wf rdb"
    "verificationStatus getPolicy observedAt staleAfterMs q adb rdb = Inr s"
  shows "(\<forall>v \<in> set (vs_attempts s). \<exists>a \<in> set adb. av_attemptId v = atr_attempt_id a
       \<and> (av_status v = At_queued \<longleftrightarrow> atr_status a = At_queued)
       \<and> (av_status v = At_failed \<longleftrightarrow> atr_status a = At_failed)
       \<and> (av_status v = At_running \<longleftrightarrow> atr_status a = At_running
            \<and> iso_ms (atr_heartbeat_at a) > iso_ms observedAt - staleAfterMs)
       \<and> (av_status v = At_completed \<longrightarrow> atr_status a = At_completed
            \<or> (\<exists>ref rec. av_receiptRef v = Some ref \<and> getReceiptByRef ref rdb = Inr (Some rec)
                 \<and> mr_pullRequest (rcc_receipt rec) = vq_pullRequest q
                 \<and> js_lower (mr_headSha (rcc_receipt rec)) = js_lower (atr_head_sha a)
                 \<and> \<not> iso_before (rcc_recordedAt rec) (atr_started_at a))))
    \<and> (vs_decision s = Some Merge_allowed \<longrightarrow> (\<exists>ref policy subject. vs_latestReceiptRef s = Some ref
         \<and> getPolicy (vq_repository q) = Inr (Some policy) \<and> vq_headSha q = Some (ms_headSha subject)
         \<and> ms_pullRequest subject = vq_pullRequest q
         \<and> (\<exists>a \<in> set adb. atr_base_branch a = Some (ms_baseBranch subject))
         \<and> length (snd (guardedDispatch (stored_receipt rdb) port
             \<lparr>gq_policy = policy, gq_subject = subject, gq_receiptRef = ref\<rparr>)) = 1))"
  using status_view_stored [OF assms] status_decision_dispatches [OF assms] by blast

section \<open>A small repository\<close>

definition head_sha :: string where "head_sha = replicate 40 (CHR ''a'')"
definition base_sha :: string where "base_sha = replicate 40 (CHR ''b'')"

definition small_policy :: merge_policy where
  "small_policy = \<lparr>mp_repository = ''o/r'', mp_defaultBranch = ''main'', mp_verificationMode = Local_exact_head,
     mp_requiredGates = [\<lparr>rg_name = ''test'', rg_source = Local_command,
       rg_command = Some \<lparr>cs_executable = ''npm'', cs_args = [''test''], cs_cwdRelative = None\<rparr>\<rparr>],
     mp_reviewPolicy = \<lparr>vp_required = False, vp_acceptedOutcomes = []\<rparr>, mp_mergeMethod = None, mp_checkoutPath = None\<rparr>"

definition small_receipt :: merge_receipt where
  "small_receipt = \<lparr>mr_repository = ''o/r'', mr_pullRequest = 7, mr_headSha = head_sha, mr_baseSha = Some base_sha,
     mr_verificationMode = Local_exact_head, mr_gates = [\<lparr>gt_name = ''test'', gt_source = Local_command,
       gt_headSha = head_sha, gt_outcome = Gate_passed, gt_evidence = None\<rparr>],
     mr_review = \<lparr>vw_outcome = Review_missing, vw_headSha = head_sha, vw_evidence = None\<rparr>, mr_createdAt = Instant 1\<rparr>"

definition small_receipts :: receipt_db where
  "small_receipts = fst (appendReceipt ''v1'' small_receipt (Instant 1) empty_receipts)"

definition small_merge :: merge_observation where
  "small_merge = \<lparr>mo_repository = ''o/r'', mo_pullRequest = 7, mo_headSha = head_sha, mo_baseBranch = ''main'',
     mo_baseSha = Some base_sha, mo_merged = True, mo_mergeMethod = Some Mm_merge,
     mo_mergeSha = Some base_sha, mo_observedAt = Instant 2\<rparr>"

definition small_observed :: observed_request where
  "small_observed = \<lparr>oq_policy = small_policy, oq_repository = ''o/r'', oq_pullRequest = 7,
     oq_expectedMergeMethod = Mm_merge, oq_receiptRef = None\<rparr>"

definition small_request :: merge_request where
  "small_request = \<lparr>mq_policy = small_policy, mq_expectedMergeMethod = Mm_merge, mq_observation = small_merge,
     mq_receiptRef = Some ''v1''\<rparr>"

definition small_env :: run_env where
  "small_env = \<lparr>re_config = default_config, re_reading = no_reading, re_clock = (\<lambda>n. Instant (int n)),
     re_others = (\<lambda>_. []), re_pull = Inr \<lparr>rp_number = 7, rp_state = ''open'', rp_is_merged = False,
       rp_head_sha = head_sha, rp_base_sha = base_sha, rp_base_ref = ''main'', rp_full_name = ''o/r''\<rparr>,
     re_runs = Inr [], re_reviews = Inr [], re_workspace = (\<lambda>_ _. Inr (Some ''/w'')),
     re_git = (\<lambda>_ _. Inr \<lparr>wg_head = head_sha, wg_status = [], wg_remote = ''https://github.com/o/r.git''\<rparr>),
     re_hostname = (\<lambda>_. Inr None), re_realpath = Some,
     re_resolve = (\<lambda>a b. a), re_command = (\<lambda>_ _ _. Some \<lparr>cr_exitCode = Some 0, cr_stdout = [], cr_stderr = [],
       cr_unavailable = False\<rparr>), re_beats = (\<lambda>_. []), re_randomId = ''r1'', re_randomAttemptId = ''a1'',
     re_hasAttempts = True, re_readsReceipts = True\<rparr>"

definition small_query :: run_request where
  "small_query = \<lparr>rn_policy = small_policy, rn_repository = ''o/r'', rn_pullRequest = 7, rn_workspaceId = Some ''w1'',
     rn_review = \<lparr>rvc_outcome = Review_missing, rvc_reviewId = None, rvc_evidence = None, rvc_userConfirmed = False\<rparr>\<rparr>"

definition idle_world :: run_world where
  "idle_world = \<lparr>rw_attempts = [], rw_receipts = empty_receipts, rw_admission = new_admission, rw_step = 0,
     rw_commands = []\<rparr>"

definition busy_world :: run_world where
  "busy_world = idle_world\<lparr>rw_admission := new_admission\<lparr>adm_active :=
     [lease_of_request (simple_request ''other'' ''w2'' Verification_Heavy 8)]\<rparr>\<rparr>"

definition small_pull :: open_pull where
  "small_pull = \<lparr>ou_repository = ''o/r'', ou_pullRequest = 7, ou_headSha = head_sha, ou_baseSha = base_sha,
     ou_baseBranch = ''main''\<rparr>"

text \<open>A feed with the merged pull request, a cursor before it, and a port that observes the merge.\<close>

definition small_feed :: "closed_entry list" where
  "small_feed = [\<lparr>ce_number = 7, ce_repository = ''o/r'', ce_updated_at = Stamp_s 100, ce_merged_at = Some (Stamp_s 90)\<rparr>]"

definition small_pages :: "nat \<Rightarrow> unit + closed_entry list" where
  "small_pages page = Inr (take 100 (drop ((page - 1) * 100) small_feed))"

definition small_cursor :: poll_cursor where
  "small_cursor = \<lparr>pc_startedAt = Stamp_ms 0, pc_updatedAtWatermark = Stamp_ms 0, pc_pullRequestsAtWatermark = []\<rparr>"

definition small_setting :: poll_setting where
  "small_setting = Poll_entries [(''o/r'', small_cursor)]"

definition observe_small :: "int \<Rightarrow> unit + merge_observation" where
  "observe_small n = Inr small_merge"

definition small_pass :: "poll_setting \<times> merge_record_db \<times> poll_summary" where
  "small_pass = reconcileRepository (listUpdatedClosed small_pages None None ''o/r'')
     (poll_reconcile observe_small small_receipts (Instant 3) small_policy) None 0 ''o/r'' small_setting empty_merges"

lemma small_receipts_wf: "receipts_wf small_receipts"
  using receipt_log.step_inv [OF receipts_wf_empty, of "(''v1'', small_receipt, Instant 1)"]
  by (simp add: small_receipts_def)

lemma small_receipt_stored: "\<exists>rec. getReceiptByRef ''v1'' small_receipts = Inr (Some rec)"
proof -
  have "case getReceiptByRef ''v1'' small_receipts of Inr (Some rec) \<Rightarrow> True | _ \<Rightarrow> False" by code_simp
  then show ?thesis by (auto split: sum.splits option.splits)
qed

theorem receipt_ref_names_evidence_witness:
  "\<exists>rec. getReceiptByRef ''v1'' small_receipts = Inr (Some rec) \<and> getReceiptByRef ''v1''
     (run_ops receipt_append_step small_receipts [(''v2'', small_receipt, Instant 5), (''v1'', small_receipt, Instant 6)])
       = Inr (Some rec)"
proof -
  obtain rec where "getReceiptByRef ''v1'' small_receipts = Inr (Some rec)" using small_receipt_stored by blast
  with receipt_ref_names_evidence [OF small_receipts_wf this, of
      "[(''v2'', small_receipt, Instant 5), (''v1'', small_receipt, Instant 6)]" small_receipt "Instant 7"]
  show ?thesis by (auto simp: Let_def)
qed

definition ended_ops :: "attempt_op list" where
  "ended_ops = [Atp_begin (attempt_request small_query small_pull ''a1'' ''w1'' (Instant 1)),
     Atp_interrupt ''a1'' (Instant 2) ''stopped'']"

definition again_ops :: "attempt_op list" where
  "again_ops = [Atp_begin (attempt_request small_query small_pull ''a2'' ''w1'' (Instant 3)),
     Atp_finish ''a1'' \<lparr>fa_completed = True, fa_finishedAt = Instant 4, fa_detail = None, fa_receiptRef = None\<rparr>]"

theorem one_live_verification_witness:
  "\<exists>r \<in> set (run_ops attempt_step [] ended_ops). attempt_terminal r
     \<and> r \<in> set (run_ops attempt_step (run_ops attempt_step [] ended_ops) again_ops)"
proof -
  have "list_ex attempt_terminal (run_ops attempt_step [] ended_ops)" by code_simp
  then obtain r where "r \<in> set (run_ops attempt_step [] ended_ops)" "attempt_terminal r" by (auto simp: list_ex_iff)
  note r = this
  have "\<exists>s. find_attempt (run_ops attempt_step (run_ops attempt_step [] ended_ops) again_ops) (atr_attempt_id r) = Some s
      \<and> s = r"
    using one_live_verification [of ended_ops again_ops] r unfolding Let_def by blast
  with r show ?thesis by (auto dest: find_attempt_SomeD)
qed

theorem reconciled_merge_is_proven_witness:
  "\<exists>rec db. reconcileAutomatically (Inr small_merge) small_receipts (Instant 3) small_observed empty_merges
       = (db, Mres_reconciled rec)
     \<and> stored_merge db rec \<and> merge_proven small_policy small_merge (mr2_receipt rec) Mm_merge"
proof -
  obtain db result where run: "reconcileAutomatically (Inr small_merge) small_receipts (Instant 3) small_observed
      empty_merges = (db, result)" by fastforce
  have "case snd (reconcileAutomatically (Inr small_merge) small_receipts (Instant 3) small_observed empty_merges) of
      Mres_reconciled rec \<Rightarrow> True | _ \<Rightarrow> False" by code_simp
  then obtain rec where rec: "result = Mres_reconciled rec" using run by (auto split: merge_result.splits)
  have "oq_policy small_observed = small_policy" "oq_expectedMergeMethod small_observed = Mm_merge"
    by (simp_all add: small_observed_def)
  with reconciled_merge_is_proven [OF merges_wf_empty run, of rec] rec run show ?thesis by auto
qed

theorem reobserving_is_idempotent_witness:
  "\<exists>db result rec. reconcileMerge (stored_receipt small_receipts) (Instant 3) small_request empty_merges = (db, result)
     \<and> judged_record result = Some rec
     \<and> reconcileMerge (stored_receipt small_receipts) (Instant 9)
         (small_request\<lparr>mq_observation := small_merge\<lparr>mo_observedAt := Instant 8\<rparr>\<rparr>) db = (db, result)"
proof -
  obtain db result where run: "reconcileMerge (stored_receipt small_receipts) (Instant 3) small_request empty_merges
      = (db, result)" by fastforce
  have "judged_record (snd (reconcileMerge (stored_receipt small_receipts) (Instant 3) small_request empty_merges)) \<noteq> None"
    by code_simp
  then obtain rec where rec: "judged_record result = Some rec" using run by auto
  have wf: "merges_wf db" using reconcileMerge_state [OF merges_wf_empty run] by simp
  have obs: "mq_observation small_request = small_merge" "mo_observedAt small_merge = Instant 2"
    by (simp_all add: small_request_def small_merge_def)
  from reobserving_is_idempotent [OF merges_wf_empty run rec wf, of "Instant 8" "Instant 9"] run rec
  show ?thesis by (simp add: obs merges_extend_def)
qed

lemma small_feed_paged: "paged small_feed (boundedPositive None 100) small_pages"
  by (simp add: paged_def small_pages_def small_feed_def boundedPositive_def)

lemma small_setting_read: "poll_get ''o/r'' small_setting = Inr (Some small_cursor)"
  by code_simp

lemma small_entry: "e \<in> set small_feed \<Longrightarrow> isAfterCursor small_cursor (update_of e)
    \<and> is_candidate small_cursor (update_of e) \<and> ce_number e = 7"
  by (simp add: small_feed_def small_cursor_def update_of_def isAfterCursor_def is_candidate_def
      stamp_less_def stamp_at_least_def)

lemma small_pass_moves: "fst small_pass \<noteq> small_setting"
  by code_simp

lemma small_pass_runs:
  "reconcileRepository (listUpdatedClosed small_pages None None ''o/r'')
     (poll_reconcile observe_small small_receipts (Instant 3) small_policy) None 0 ''o/r'' small_setting empty_merges
     = (fst small_pass, fst (snd small_pass), snd (snd small_pass))"
  by (simp add: small_pass_def)

theorem poll_misses_no_merge_witness:
  "fst small_pass \<noteq> small_setting \<and> judged_pull observe_small (fst (snd small_pass)) 7"
proof -
  obtain e where "e \<in> set small_feed" by (auto simp: small_feed_def)
  with poll_misses_no_merge [OF merges_wf_empty small_feed_paged small_setting_read small_pass_runs small_pass_moves]
    small_entry small_pass_moves
  show ?thesis by metis
qed

theorem policy_change_stalls_poller_witness:
  "fst (reconcileRepository (listUpdatedClosed small_pages None None ''o/r'')
     (poll_reconcile observe_small small_receipts (Instant 5) (small_policy\<lparr>mp_mergeMethod := Some Mm_squash\<rparr>))
     None 0 ''o/r'' small_setting (fst (snd small_pass))) = small_setting"
proof -
  let ?db = "fst (snd small_pass)" and ?changed = "small_policy\<lparr>mp_mergeMethod := Some Mm_squash\<rparr>"
  obtain e where e: "e \<in> set small_feed" by (auto simp: small_feed_def)
  show ?thesis
  proof (rule moving_pass [OF small_feed_paged small_setting_read small_pass_runs small_pass_moves])
    fix us tally
    assume loop: "reconcile_candidates (poll_reconcile observe_small small_receipts (Instant 3) small_policy)
       (filter (is_candidate small_cursor) (pending_updates small_cursor us))
       \<lparr>pt_reconciled = 0, pt_breaches = 0, pt_newest = None,
        pt_terminal = filter (is_historical small_cursor) (pending_updates small_cursor us)\<rparr> empty_merges = (?db, tally, None)"
      and seen: "\<And>e. e \<in> set small_feed \<Longrightarrow> isAfterCursor small_cursor (update_of e) \<Longrightarrow> is_candidate small_cursor (update_of e)
       \<Longrightarrow> update_of e \<in> set (filter (is_candidate small_cursor) (pending_updates small_cursor us))"
    note j = reconcile_candidates_judge [OF merges_wf_empty loop]
    then have wf: "merges_wf ?db" by blast
    have "judged_pull observe_small ?db (cu_pullRequest (update_of e))" using j seen small_entry e by blast
    then obtain rec where rec: "stored_merge ?db rec" "mr2_reconciliationRef rec = js_trim (reconciliationRef small_merge)"
      unfolding judged_pull_def observe_small_def by auto
    have "case find_merge ?db (js_trim (reconciliationRef small_merge)) of None \<Rightarrow> True
      | Some row \<Rightarrow> (case merge_toRecord row of Inl _ \<Rightarrow> True
          | Inr h \<Rightarrow> evidencePolicy ?changed \<noteq> mr2_policy (mhr_record h))" by code_simp
    then have policy: "evidencePolicy ?changed \<noteq> mr2_policy rec" using rec by (auto simp: stored_merge_def)
    have obs: "observe_small (ce_number e) = Inr small_merge" by (simp add: observe_small_def)
    have after: "isAfterCursor small_cursor (update_of e)" "is_candidate small_cursor (update_of e)"
      using small_entry e by blast+
    show ?thesis
      by (rule policy_change_stalls_poller [where observe = observe_small,
          OF wf small_feed_paged small_setting_read e after obs rec policy])
  qed
qed

text \<open>The run on a world without attempts: what \<open>run\<close> does before the admission.\<close>

lemma small_env_fields: "re_others small_env n = []" "run_now small_env w = Instant (int (rw_step w))"
  by (simp_all add: small_env_def run_now_def)

lemma small_run_observes:
  "observeOpenPullRequest (re_pull small_env) (rn_repository small_query) (rn_pullRequest small_query) = Answer small_pull"
  by code_simp

lemma small_run_starts:
  assumes "rw_attempts w = []" "rw_step w = 0" "rw_receipts w = empty_receipts"
  shows "runVerification small_env small_query w =
    run_new_attempt small_env small_query small_pull ''w1'' (Instant 0) (w\<lparr>rw_step := 2\<rparr>)"
proof -
  have q: "check_active_query \<lparr>qa_repository = rn_repository small_query, qa_pullRequest = rn_pullRequest small_query,
      qa_headSha = ou_headSha small_pull, qa_now = Instant 1, qa_staleAfterMs = ATTEMPT_STALE_AFTER_MS\<rparr>
    = Inr (''o/r'', Instant (- 89999))" by code_simp
  have "fst (reapStale t k []) = []" for t k by (simp add: reapStale_def split: sum.splits)
  then have reap: "fst (call_attempts small_env (reapStale t k) w) = w\<lparr>rw_step := 1\<rparr>" for t k
    using assms by (cases w) (simp add: call_attempts_def turn_def small_env_fields case_prod_beta)
  have act: "find_active_attempt small_env small_query small_pull (w\<lparr>rw_step := 1\<rparr>) = (w\<lparr>rw_step := 2\<rparr>, Inr None)"
    using assms by (cases w) (simp add: find_active_attempt_def call_attempts_def turn_def small_env_fields
      findActive_def q active_attempts_def latest_attempts_def)
  have now: "run_now small_env w = Instant 0" using assms(2) by (simp add: small_env_fields)
  have start: "run_with_attempts small_env small_query small_pull ''w1'' w =
      run_new_attempt small_env small_query small_pull ''w1'' (Instant 0) (w\<lparr>rw_step := 2\<rparr>)"
    unfolding run_with_attempts_def Let_def reap act now by simp
  have reuse: "reusePersistedVerdict small_env small_query small_pull empty_receipts = None" by code_simp
  have local: "filter is_local_gate (mp_requiredGates (rn_policy small_query)) \<noteq> []"
    "ou_repository small_pull = mp_repository (rn_policy small_query)" "rn_workspaceId small_query = Some ''w1''"
    "re_hasAttempts small_env" unfolding atomize_conj by code_simp
  show ?thesis
    unfolding runVerification_def small_run_observes using local reuse assms(3) start by simp
qed

lemma idle_world_wf: "world_wf idle_world" "ledger_ok (rw_admission idle_world)"
  by (simp_all add: world_wf_def idle_world_def ledger_ok_def new_admission_def)

lemma busy_world_wf: "world_wf busy_world"
  by (simp add: world_wf_def idle_world_def busy_world_def)

lemma idle_run_allows:
  obtains w' v where "runVerification small_env small_query idle_world = (w', Answer (Run_completed v))"
    "vd_decision v = Merge_allowed"
proof -
  have start: "runVerification small_env small_query idle_world =
      run_new_attempt small_env small_query small_pull ''w1'' (Instant 0) (idle_world\<lparr>rw_step := 2\<rparr>)"
    by (rule small_run_starts) (simp_all add: idle_world_def)
  have allowed: "case snd (runVerification small_env small_query idle_world) of
      Answer (Run_completed v) \<Rightarrow> vd_decision v = Merge_allowed | _ \<Rightarrow> False" unfolding start by code_simp
  obtain w' a where run: "runVerification small_env small_query idle_world = (w', a)" by fastforce
  show ?thesis using allowed that [of w'] unfolding run by (auto split: call_answer.splits run_result.splits)
qed

theorem verification_gives_back_leases_witness:
  "adm_active (rw_admission (fst (runVerification small_env small_query idle_world))) = []
   \<and> world_wf (fst (runVerification small_env small_query idle_world))"
proof -
  have "runVerification small_env small_query idle_world = (fst (runVerification small_env small_query idle_world),
      snd (runVerification small_env small_query idle_world))" by simp
  from verification_gives_back_leases [OF idle_world_wf this] show ?thesis
    by (simp add: idle_world_def new_admission_def)
qed

theorem queued_run_ran_nothing_witness:
  "\<exists>w' x. runVerification small_env small_query busy_world = (w', Answer (Run_queued x)) \<and> rw_commands w' = []"
proof -
  have start: "runVerification small_env small_query busy_world =
      run_new_attempt small_env small_query small_pull ''w1'' (Instant 0) (busy_world\<lparr>rw_step := 2\<rparr>)"
    by (rule small_run_starts) (simp_all add: busy_world_def idle_world_def)
  have queued: "case snd (runVerification small_env small_query busy_world) of
      Answer (Run_queued x) \<Rightarrow> True | _ \<Rightarrow> False" unfolding start by code_simp
  obtain w' a where ran: "runVerification small_env small_query busy_world = (w', a)" by fastforce
  obtain x where run: "runVerification small_env small_query busy_world = (w', Answer (Run_queued x))"
    using queued ran unfolding ran by (auto split: call_answer.splits run_result.splits)
  have "rw_commands busy_world = []" by (simp add: busy_world_def idle_world_def)
  with queued_run_ran_nothing [OF busy_world_wf run] run show ?thesis by auto
qed

theorem allowed_verdict_rests_on_gates_witness:
  "\<exists>w' v. runVerification small_env small_query idle_world = (w', Answer (Run_completed v))
     \<and> mr_headSha (vd_receipt v) = head_sha
     \<and> (already_stored v idle_world \<or> (\<exists>x before. x \<in> set (rw_commands w') \<and> sc_gate x = ''test''
          \<and> before < sc_step x \<and> workspace_at_head small_env small_query head_sha before ''/w''))"
proof -
  obtain w' v where run: "runVerification small_env small_query idle_world = (w', Answer (Run_completed v))"
    "vd_decision v = Merge_allowed" by (rule idle_run_allows)
  obtain gate where gate: "gate \<in> set (mp_requiredGates (rn_policy small_query))" "rg_source gate = Local_command"
      "rg_name gate = ''test''"
    by (auto simp: small_query_def small_policy_def)
  have head: "ou_headSha small_pull = head_sha" by (simp add: small_pull_def)
  have root: "rootPath = ''/w''" if "workspace_at_head small_env small_query h n rootPath" for h n rootPath
    using that by (simp add: workspace_at_head_def small_env_def)
  from allowed_verdict_rests_on_gates [OF idle_world_wf(1) run] small_run_observes head
  consider "already_stored v idle_world" "mr_headSha (vd_receipt v) = head_sha"
    | runs where "mr_headSha (vd_receipt v) = head_sha" "gate_proved small_env small_query head_sha runs (rw_commands w')
        (rw_step idle_world) (rw_step w') gate" using gate(1) by fastforce
  then show ?thesis
  proof cases
    case 2
    then obtain c x res where x: "x \<in> set (rw_commands w')"
        "ran_at_head small_env small_query head_sha (rw_step idle_world) (rw_step w') gate c x res"
      using gate(2) by (auto simp: gate_proved_def)
    then obtain before rootPath where "before < sc_step x" "sc_gate x = ''test''"
        "workspace_at_head small_env small_query head_sha before rootPath"
      using gate(3) unfolding ran_at_head_def by auto
    with root [OF this(3)] x(1) 2(1) run(1) show ?thesis by blast
  qed (use run(1) in blast)
qed

theorem verified_head_can_merge_witness:
  "\<exists>w' v call. runVerification small_env small_query idle_world = (w', Answer (Run_completed v))
     \<and> snd (guardedDispatch (stored_receipt (rw_receipts w')) (\<lambda>_. Inr ()) \<lparr>gq_policy = small_policy,
         gq_subject = open_subject small_pull, gq_receiptRef = vd_receiptRef v\<rparr>) = [call]"
proof -
  obtain w' v where run: "runVerification small_env small_query idle_world = (w', Answer (Run_completed v))"
    "vd_decision v = Merge_allowed" by (rule idle_run_allows)
  have names: "js_trim (rn_repository small_query) = rn_repository small_query"
    "\<forall>g \<in> set (mp_requiredGates (rn_policy small_query)). js_trim (rg_name g) = rg_name g" unfolding atomize_conj by code_simp
  have "rn_policy small_query = small_policy" by (simp add: small_query_def)
  with verified_head_can_merge [OF idle_world_wf(1) run receipts_extend_refl names, of "\<lambda>_. Inr ()"] small_run_observes run(1)
  show ?thesis by auto
qed

text \<open>The status of the small repository after an attempt whose runner died behind its receipt.\<close>

definition small_attempts :: attempt_db where
  "small_attempts = fst (beginAttempt \<lparr>na_attemptId = ''a1'', na_repository = ''o/r'', na_pullRequest = 7,
     na_headSha = head_sha, na_baseBranch = Some ''main'', na_workspaceId = None, na_at = Instant 0\<rparr> [])"

definition small_status :: "status_error + verification_status" where
  "small_status = verificationStatus (\<lambda>_. Inr (Some small_policy)) (Instant 100000) DEFAULT_STALE_AFTER_MS
     \<lparr>vq_repository = ''o/r'', vq_pullRequest = 7, vq_headSha = Some head_sha, vq_limit = None\<rparr>
     small_attempts small_receipts"

lemma small_attempts_wf: "attempts_wf small_attempts"
  unfolding small_attempts_def beginAttempt_def by (rule added_moves [OF attempts_wf_Nil, unfolded attempt_moves_def, THEN conjunct1]) (simp add: LIVE_STATUSES_def)

theorem status_claims_are_backed_witness:
  "\<exists>s ref. small_status = Inr s \<and> map av_status (vs_attempts s) = [At_completed] \<and> vs_latestReceiptRef s = Some ref
     \<and> (\<exists>rec. getReceiptByRef ref small_receipts = Inr (Some rec))"
proof -
  have "case small_status of Inl _ \<Rightarrow> False | Inr s \<Rightarrow> map av_status (vs_attempts s) = [At_completed]
      \<and> list_all (\<lambda>a. atr_status a \<noteq> At_completed) small_attempts
      \<and> map av_receiptRef (vs_attempts s) = [vs_latestReceiptRef s] \<and> vs_decision s = Some Merge_allowed"
    by code_simp
  then obtain s v where s: "small_status = Inr s" "vs_attempts s = [v]" "av_status v = At_completed"
    "list_all (\<lambda>a. atr_status a \<noteq> At_completed) small_attempts" "av_receiptRef v = vs_latestReceiptRef s"
    by (auto split: sum.splits)
  have "\<forall>a \<in> set small_attempts. atr_status a \<noteq> At_completed" using s(4) by (simp add: list_all_iff)
  with status_claims_are_backed [OF small_attempts_wf small_receipts_wf s(1) [unfolded small_status_def]] s
  show ?thesis by fastforce
qed

end
