(* ===== verification/Spec2Isabelle.thy ===== *)
theory Spec2Isabelle
  imports Goal_Runtime_Safety Goal_Repository_Properties Goal_Wake_Succession Resource_Admission_Safety Heavy_Fairness
    Heavy_Recovery Shell_Heavy_Safety Runtime_Properties Merge_Properties
begin

text \<open>
  A verification development for the Unified MPC server, a local server that runs tools for AI
  clients and keeps long-running goals across their sessions. It models the parts of the server
  whose correctness everything else leans on: the durable goal engine, which decides who may change
  the work of a goal, the runtime truth of a goal, which says what its worker is doing, the
  admission of heavy jobs, which decides what the machine may run, and the guarded merges, which
  decide which pull request may be merged, and which merge that was made is one the policy allows.

  Goals. A goal is run by one execution at a time under a lease with a generation number.

  \<^item> \<open>Goal_Runtime\<close>, \<open>Goal_Runtime_Event\<close>, \<open>Goal_Runtime_Projector\<close>: packages/domain/src,
    goal-runtime.ts, goal-runtime-event.ts and goal-runtime-projector.ts. The vocabulary, the fence
    that sorts an event into apply, duplicate, stale or rejected, and the fold of events into the
    projection. \<open>Goal_Runtime_Safety\<close>: exactly which execution events are applied and what each
    makes of the projection, how generation, lifecycle and active execution move over any sequence
    of events, and that old generations and closed goals stay fenced.
  \<^item> \<open>Goal_Liveness\<close>: goal-runtime-liveness.ts, when a worker counts as gone.
  \<^item> \<open>Goal_Continuation\<close>, \<open>Goal_Store\<close>, \<open>Goal_Repository\<close>: goal-continuation.ts,
    scheduled-continuation.ts and packages/storage/src/goal-repository.ts. The tables as lists of
    rows, and acquire, checkpoint, finish, cancel, reconcile and the fenced mutation calls as
    transactions: an error leaves the tables as they were.
  \<^item> \<open>Goal_Wake\<close>, \<open>Goal_Wake_Claim\<close>: the operations of goal-repository.ts on scheduled continuations,
    the wake-ups a host promises for a goal, with the constraints of
    migrations/recurring-scheduled-continuation-migration.ts: prepare and refresh, the receipts of the
    host, cancel, expedite, and the claim of a wake that fired, one-time (it hands the goal over or
    collides, and reserves a successor) or recurring (one run per hour). \<open>Goal_Machine\<close> puts all
    operations of the repository into one machine.
  \<^item> \<open>Goal_Repository_Frames\<close> and \<open>Goal_Repository_Leases\<close> say what each operation needs and how leases
    move; \<open>Goal_Lease_Protocol\<close> is the abstract protocol of a goal's lease (stay, create, take over,
    record, close, renew), and \<open>Goal_Lease_Invariant\<close> what its moves keep. \<open>Goal_Wake_Protocol\<close> and
    \<open>Goal_Wake_Takeover\<close> show that the operations on continuations are sequences of those moves and let
    a continuation row only evolve, and which branch of a claim ran why. \<open>Goal_Repository_Safety\<close> proves
    that every operation refines the protocol and interprets the generic machine for the goals, the
    continuations and the recurring runs. \<open>Goal_Repository_Properties\<close>, \<open>Goal_Wake_Safety\<close> and
    \<open>Goal_Wake_Succession\<close> hold the properties: leases, receipts and checkpoints of goals; when a wake
    takes a goal over, one run per hour, and the successor a claim leaves behind.

  Runtime truth. What a goal is doing is an append-only log of events, and a snapshot of their fold.

  \<^item> \<open>Runtime_Store\<close>, \<open>Runtime_Event_Codec\<close>, \<open>Runtime_Event_Log\<close>: packages/storage/src,
    goal-runtime-event-repository.ts. The rows, their encoding and decoding, the append of a publisher,
    the append of the restart reconciliation under its fence, replay and retention.
    \<open>Runtime_Event_Log_Safety\<close>: how the log moves.
  \<^item> \<open>Runtime_Snapshot\<close>: goal-runtime-snapshot-repository.ts. \<open>Runtime_Snapshot_Safety\<close> puts goals,
    log and snapshots into one machine; \<open>Runtime_Projection_Limits\<close> shows that what the projector
    makes of an accepted event can be stored.
  \<^item> \<open>Runtime_Control_Plane\<close>: packages/application/src/goal-runtime-control-plane-service.ts, which
    publishes events and folds them. The lock of a goal makes an operation one step of its process; an
    error keeps what was written before it. \<open>Runtime_Control_Plane_Safety\<close>: operations are runs of
    the store. \<open>Runtime_Catch_Up\<close>: the paged loop is one fold, when it returns, and when it cannot.
    \<open>Runtime_Publishing\<close>: after a catch-up nothing is unseen, also behind a missed window, a blocked
    goal stays blocked, and an appended event is the next step of the snapshot.
  \<^item> \<open>Runtime_Reconciliation\<close>: goal-runtime-reconciliation-service.ts, with what other processes write
    between its reads and writes as explicit operations. \<open>Runtime_Reconciliation_Safety\<close>: the fence at
    the commit and retries. \<open>Runtime_Properties\<close> holds the properties of the runtime truth.

  Heavy jobs. A heavy job waits in a durable queue and starts when the controller admits it.

  \<^item> \<open>Resource_Pressure\<close>: packages/workspace/src, resource-pressure.ts, cpu-load.ts and
    heavy-headroom.ts, the probes of the machine and the extra heavy slots they allow.
  \<^item> \<open>Resource_Admission\<close>: resource-admission.ts, the controller: the active leases, acquire,
    release, restore and the snapshot. \<open>effectiveGlobalCost\<close> rounds the product of the ceiling and
    the pressure ratio to the nearest double, as the code does. \<open>Resource_Admission_Safety\<close>: the
    ceilings as an abstract specification, and that every decision implements it. Twelve names every
    JavaScript object inherits escape the ceilings of workspaces and sessions, and the properties say so.
  \<^item> \<open>Heavy_Fairness\<close>: heavy-job-fairness.ts, the order in which waiting jobs are tried.
  \<^item> \<open>Heavy_Job\<close>, \<open>Heavy_Queue_Store\<close>: the store interface of heavy-job-queue.ts as a record of
    operations, and packages/storage/src/heavy-job-queue-repository.ts as one instance.
    \<open>Heavy_Queue_Protocol\<close> and \<open>Heavy_Queue_Safety\<close>: how owners and states of a row may move, and
    that every operation moves them so. \<open>Heavy_Recovery\<close>:
    packages/application/src/heavy-job-queue-recovery-service.ts, which closes the work of dead owners.
  \<^item> \<open>Heavy_Queue\<close>: heavy-job-queue.ts, class \<open>HeavyJobWaiterQueue\<close>, the local view of the store and
    \<open>drain\<close>. \<open>Heavy_Drain\<close> and \<open>Heavy_Drain_Safety\<close>: the invariant of the local rows and the effect
    of a drain, proved once over the laws of a store (locale \<open>start_port\<close>) and instantiated for SQLite.
  \<^item> \<open>Shell_Heavy\<close>: apps/cli/src/runtime/shell-heavy-admission.ts, the port of the shell backend, whose
    release listener drains again. \<open>Shell_Heavy_Safety\<close>: a drain starts only what it owns, returns,
    and a settled job hands its slot over.

  Guarded merges. A pull request is merged when a stored receipt proves that its exact head passed.

  \<^item> \<open>Merge_Evidence\<close>: packages/domain/src/merge-verification.ts, policies, receipts and
    \<open>evaluateMergeEvidence\<close>, which is equivalent to a declarative specification of sufficient evidence.
  \<^item> \<open>Merge_Receipts\<close>, \<open>Merge_Attempts\<close>, \<open>Merge_Reconciliation\<close>: packages/storage/src,
    merge-verification-repository.ts, merge-verification-attempt-repository.ts and
    merge-reconciliation-repository.ts, with domain/src/merge-reconciliation.ts, the judgement of an
    observed merge. \<open>Merge_Receipts_Safety\<close> and \<open>Merge_Attempts_Safety\<close>: references name one receipt
    for ever, one live attempt per head, attempts only move forward, a claim has one winner.
  \<^item> \<open>Merge_Services\<close>: packages/application/src, guarded-merge-service.ts and
    merge-reconciliation-service.ts, and the observer apps/cli/src/runtime/github-merge-observer.ts.
    \<open>Merge_Services_Safety\<close>: what is stored is what the evidence gives, and is stored once.
  \<^item> \<open>Merge_Poller\<close>: github-merge-reconciliation-poller.ts, the pages of GitHub and the cursor of a
    repository. \<open>Merge_Poller_Safety\<close>: what a pass has judged before it moves the cursor.
  \<^item> \<open>Merge_Remote\<close>: github-remote.ts, the repository a Git remote names.
  \<^item> \<open>Merge_Runner\<close> and \<open>Merge_Run\<close>: merge-verification-runner.ts. The world of a run holds the stores
    it changes and the commands it started; the environment answers what it asks, as functions of the
    number of the call: the workspace, Git, a command in a directory, the clock, and what other
    processes did to the attempts. \<open>Merge_Run_Safety\<close> follows the gates: a local gate is backed by a
    command of the policy that ran in a workspace found at the exact head before and after it.
    \<open>Merge_Run_Verdict\<close>: what a verdict rests on. \<open>Merge_Run_Outcome\<close>: every path through the run.
  \<^item> \<open>Merge_Status\<close>: merge-verification-status.ts, the read-only status and what it may claim.
  \<^item> \<open>Merge_Properties\<close> holds the properties of guarded merges.

  \<open>Prelude\<close> holds what the parts share: JavaScript numbers and values, timestamps, results as sums,
  tables of rows with a key, and the locales \<open>invariant_machine\<close> and \<open>progress_machine\<close> for runs.

  Conventions. A thrown error is \<open>Inl\<close>; a method that changes an object takes and returns its state.
  A transaction of the repositories is one step: it commits or leaves the rows alone, so a run of
  several processes is a sequence of steps in any order. Clocks, identifiers, hashes, probe readings and the
  parser of timestamps are arguments. Numbers are mathematical where the code checks that they are
  safe integers, and \<open>jsnum\<close> with NaN and infinities where it does not; a product with a fraction is
  rounded to a double. Strings are lists of
  characters; the code's length limits are kept.

  Fuel. The only recursion the code leaves unbounded is the wake inside a release: \<open>shell_wake\<close> takes
  the number of nested wakes the stack allows, the properties hold for every depth, and
  \<open>retired_row_is_notified_per_wake\<close> shows that the depth is indeed used up. The paged loops of the
  control plane and of the poller terminate by the rows and the pages that are left.

  Not modelled: the list queries of the goal repository, the services that word requests and answers
  around it, the workspace admission part of the control plane, the settings that hold the merge
  policies, the provider that merges and the advance of the canonical ref, how command, git, gh and ssh
  processes are started, timers, failures of the heavy job store, the other repositories, file-system protocols of the
  canonical store, git, transports, the web control plane, retrieval, process supervision and the clients'
  configuration files. They are I/O around the parts above, or wait their turn; the manifest lists
  each with its reason.
\<close>

end
